(* ===== verification/Prelude.thy ===== *)
theory Prelude
  imports Main "HOL-Library.Word" "HOL-Library.Monad_Syntax"
begin

text \<open>
  Shared vocabulary of the development: the C types, buffers and checked memory accesses that
  every component uses, size arithmetic of \<open>size_t\<close>, positional notation, and the
  \<open>prefix_codec\<close> interface between an encoder and its decoder.

  Conventions of the translation from C:
  \<^item> \<open>uint8_t\<close>, \<open>uint16_t\<close>, \<open>uint32_t\<close> and \<open>uint64_t\<close> are words of that width;
    \<open>size_t\<close> is \<open>nat\<close>, the platform is LP64 (\<open>SIZE_MAX = 2 ^ 64 - 1\<close>) and wrap-around
    is written out with \<open>size_wrap\<close> wherever a sum or product is not bounded by the
    length of a buffer;
  \<^item> a pointer/length pair is a value of type \<open>cbuf\<close>: either a buffer with its contents, whose
    length is the declared one, or a null pointer with a declared length;
  \<^item> an array access at a computed index is \<open>rd\<close>, \<open>wr\<close> or \<open>memcpy_at\<close>, which return
    \<open>None\<close> when the access leaves the buffer: a result \<open>Some\<close> of an operation says that it
    has no such undefined behaviour;
  \<^item> an optional output pointer that is null only suppresses the store, so operations return the
    value that would be stored.
\<close>

unbundle bit_operations_syntax

type_synonym byte = "8 word"
type_synonym u16 = "16 word"
type_synonym u32 = "32 word"
type_synonym u64 = "64 word"

named_theorems mem_simps
  \<open>checked memory accesses that are in bounds\<close>

named_theorems codec_laws
  \<open>round-trip and canonicity laws of the wire formats\<close>

subsection \<open>Buffers and checked accesses\<close>

datatype 'a cbuf = Null nat | Buf "'a list"

fun clen :: "'a cbuf \<Rightarrow> nat" where
  "clen (Null n) = n"
| "clen (Buf bs) = length bs"

fun is_null :: "'a cbuf \<Rightarrow> bool" where
  "is_null (Null n) = True"
| "is_null (Buf bs) = False"

fun contents :: "'a cbuf \<Rightarrow> 'a list" where
  "contents (Null n) = []"
| "contents (Buf bs) = bs"

definition rd :: "'a list \<Rightarrow> nat \<Rightarrow> 'a option" where
  "rd xs i = (if i < length xs then Some (xs ! i) else None)"

definition wr :: "'a list \<Rightarrow> nat \<Rightarrow> 'a \<Rightarrow> 'a list option" where
  "wr xs i x = (if i < length xs then Some (xs[i := x]) else None)"

definition memcpy_at :: "'a list \<Rightarrow> nat \<Rightarrow> 'a list \<Rightarrow> 'a list option" where
  "memcpy_at xs off src =
     (if off + length src \<le> length xs
      then Some (take off xs @ src @ drop (off + length src) xs) else None)"

lemma rd_in [mem_simps]: "i < length xs \<Longrightarrow> rd xs i = Some (xs ! i)"
  by (simp add: rd_def)

lemma wr_in [mem_simps]: "i < length xs \<Longrightarrow> wr xs i x = Some (xs[i := x])"
  by (simp add: wr_def)

lemma memcpy_at_in [mem_simps]:
  "off + length src \<le> length xs \<Longrightarrow>
   memcpy_at xs off src = Some (take off xs @ src @ drop (off + length src) xs)"
  by (simp add: memcpy_at_def)

lemma memcpy_at_0 [mem_simps]:
  "length src \<le> length xs \<Longrightarrow> memcpy_at xs 0 src = Some (src @ drop (length src) xs)"
  by (simp add: memcpy_at_def)

lemma memcpy_at_append [mem_simps]:
  "length a = off \<Longrightarrow> length src \<le> length xs \<Longrightarrow>
   memcpy_at (a @ xs) off src = Some (a @ src @ drop (length src) xs)"
  by (auto simp: memcpy_at_def)

text \<open>A store at the end of a prefix already written extends the prefix.\<close>

lemma wr_append [simp]:
  "length a = i \<Longrightarrow> xs \<noteq> [] \<Longrightarrow> wr (a @ xs) i x = Some (a @ x # tl xs)"
  by (cases xs) (auto simp: wr_def list_update_append)

subsection \<open>Arithmetic of \<open>size_t\<close>\<close>

definition SIZE_MAX :: nat where
  "SIZE_MAX = 2 ^ 64 - 1"

text \<open>No object is larger than \<open>PTRDIFF_MAX\<close> bytes, so that two pointers into it can be subtracted.\<close>

definition PTRDIFF_MAX :: nat where
  "PTRDIFF_MAX = 2 ^ 63 - 1"

definition size_wrap :: "nat \<Rightarrow> nat" where
  "size_wrap n = n mod 2 ^ 64"

lemma size_wrap_id [simp]: "n \<le> SIZE_MAX \<Longrightarrow> size_wrap n = n"
  by (simp add: size_wrap_def SIZE_MAX_def)

lemma size_wrap_bound: "size_wrap n \<le> SIZE_MAX"
proof -
  have "size_wrap n < 2 ^ 64" unfolding size_wrap_def by simp
  then show ?thesis by (simp add: SIZE_MAX_def)
qed

subsection \<open>Words read as naturals\<close>

lemma unat_and_mask7: "unat ((x :: 'a::len word) AND 0x7f) = unat x mod 128"
proof -
  have "x AND 0x7f = take_bit 7 x"
    by (simp add: take_bit_eq_mask mask_eq_exp_minus_1)
  then have "unat (x AND 0x7f) = take_bit 7 (unat x)"
    by (simp only: unsigned_take_bit_eq)
  then show ?thesis
    by (simp add: take_bit_eq_mod)
qed

lemma unat_drop_bit_div: "unat (drop_bit n (x :: 'a::len word)) = unat x div 2 ^ n"
  unfolding unat_drop_bit_eq by (rule drop_bit_eq_div)

lemma unat_or_disjoint:
  fixes x y :: "'a::len word"
  assumes "unat x < 2 ^ k" and "2 ^ k dvd unat y" and "unat x + unat y < 2 ^ LENGTH('a)"
  shows "unat (x OR y) = unat x + unat y"
proof -
  obtain m where m: "unat y = m * 2 ^ k"
    using assms(2) by (metis dvd_def mult.commute)
  have "unat x = take_bit k (unat x)"
    using assms(1) by (simp add: take_bit_eq_mod)
  moreover have "unat y = push_bit k m"
    using m by (simp add: push_bit_eq_mult)
  ultimately have "unat x AND unat y = take_bit k (unat x) AND push_bit k m" by simp
  also have "\<dots> = 0"
    by (rule bit_eqI) (auto simp: bit_simps)
  finally have "unat x AND unat y = 0" .
  then have "x AND y = 0"
    by (metis unsigned_and_eq unat_eq_zero)
  then have "x OR y = x + y"
    by (simp add: disjunctive_add_eq_or)
  then show ?thesis
    using assms(3) by (simp add: unat_word_ariths)
qed

lemma unat_and_mask: "unat ((x :: 'a::len word) AND mask k) = unat x mod 2 ^ k"
  unfolding take_bit_eq_mask [symmetric] unsigned_take_bit_eq by (rule take_bit_eq_mod)

lemma unat_push_bit_mult:
  fixes x :: "'a::len word"
  assumes "unat x * 2 ^ n < 2 ^ LENGTH('a)"
  shows "unat (push_bit n x) = unat x * 2 ^ n"
proof -
  have "unat (push_bit n x) = take_bit LENGTH('a) (push_bit n (unat x))"
    by (rule unsigned_push_bit_eq)
  with assms show ?thesis unfolding push_bit_eq_mult take_bit_eq_mod by simp
qed

lemma unat_shift_or:
  fixes x y :: "'a::len word"
  assumes "unat y < 2 ^ k" and "Suc (unat x) * 2 ^ k \<le> 2 ^ LENGTH('a)"
  shows "unat (push_bit k x OR y) = unat x * 2 ^ k + unat y"
proof -
  have p: "unat (push_bit k x) = unat x * 2 ^ k"
    using assms(2) by (intro unat_push_bit_mult) (simp add: less_le_trans [of _ "2 ^ k + unat x * 2 ^ k"])
  have "unat (y OR push_bit k x) = unat y + unat (push_bit k x)"
    using assms by (intro unat_or_disjoint [of _ k]) (simp_all only: p dvd_triv_right mult_Suc)
  then show ?thesis by (simp only: p or.commute add.commute)
qed

lemma unat_ucast_word:
  "LENGTH('a) \<le> LENGTH('b) \<Longrightarrow> unat (ucast (x :: 'a::len word) :: 'b::len word) = unat x"
  by (simp add: unsigned_ucast_eq unsigned_take_bit_eq [symmetric] take_bit_word_eq_self)

lemma byte_bound [simp]: "unat (b :: byte) < 256"
  using unsigned_less [of b] by simp

lemma byte_le_bound [simp]: "255 \<le> k \<Longrightarrow> unat (b :: byte) \<le> k"
  using byte_bound [of b] by linarith

lemma u64_bound [simp]: "unat (b :: u64) < 18446744073709551616"
  using unsigned_less [of b] by simp

subsection \<open>The interface of a wire format\<close>

text \<open>
  A wire format is an encoder \<open>enc\<close> for the values that satisfy \<open>valid\<close> and a decoder \<open>dec\<close> that
  reads one value off the front of its input and returns it with the number of elements
  consumed. The decoder recovers what the encoder wrote whatever follows it, and it accepts
  nothing else: formats are canonical. A client may then treat an encoding as the value itself.
\<close>

locale prefix_codec =
  fixes enc :: "'v \<Rightarrow> 'b list"
    and dec :: "'b list \<Rightarrow> ('v \<times> nat) option"
    and valid :: "'v \<Rightarrow> bool"
  assumes dec_enc: "valid v \<Longrightarrow> dec (enc v @ rest) = Some (v, length (enc v))"
    and dec_sound: "dec bs = Some (v, n) \<Longrightarrow> valid v \<and> n \<le> length bs \<and> take n bs = enc v"
    and enc_nonempty: "valid v \<Longrightarrow> enc v \<noteq> []"
begin

lemma dec_iff:
  "dec bs = Some (v, n) \<longleftrightarrow>
   valid v \<and> n = length (enc v) \<and> n \<le> length bs \<and> take n bs = enc v"
proof
  assume "dec bs = Some (v, n)"
  then have "valid v \<and> n \<le> length bs \<and> take n bs = enc v" by (rule dec_sound)
  then show "valid v \<and> n = length (enc v) \<and> n \<le> length bs \<and> take n bs = enc v"
    by (metis length_take min.absorb2)
next
  assume a: "valid v \<and> n = length (enc v) \<and> n \<le> length bs \<and> take n bs = enc v"
  then have "bs = enc v @ drop n bs"
    by (metis append_take_drop_id)
  with a show "dec bs = Some (v, n)"
    using dec_enc by metis
qed

lemma dec_progress: "dec bs = Some (v, n) \<Longrightarrow> 0 < n"
  using dec_iff enc_nonempty by auto

lemma dec_exact: "valid v \<Longrightarrow> dec (enc v) = Some (v, length (enc v))"
  using dec_enc [of v "[]"] by simp

lemma enc_prefix_free:
  assumes "valid v" "valid w" "enc v @ r = enc w @ s"
  shows "v = w \<and> r = s"
proof -
  have "Some (v, length (enc v)) = Some (w, length (enc w))"
    using dec_enc [OF assms(1), of r] dec_enc [OF assms(2), of s] assms(3) by simp
  then show ?thesis using assms(3) by simp
qed

lemma enc_inj: "valid v \<Longrightarrow> valid w \<Longrightarrow> enc v = enc w \<Longrightarrow> v = w"
  using enc_prefix_free [of v w "[]" "[]"] by simp

text \<open>A sequence of values is recovered from the concatenation of their encodings.\<close>

lemma concat_enc_inj:
  "list_all valid vs \<Longrightarrow> list_all valid ws \<Longrightarrow>
   concat (map enc vs) = concat (map enc ws) \<Longrightarrow> vs = ws"
proof (induction vs arbitrary: ws)
  case Nil
  then show ?case
    by (cases ws) (auto simp: enc_nonempty)
next
  case (Cons v vs)
  then obtain w ws' where ws: "ws = w # ws'"
    by (cases ws) (auto simp: enc_nonempty)
  with Cons.prems have "enc v @ concat (map enc vs) = enc w @ concat (map enc ws')"
    and "valid v" and "valid w" by auto
  then have "v = w" and "concat (map enc vs) = concat (map enc ws')"
    using enc_prefix_free by blast+
  with Cons ws show ?case by simp
qed

end

text \<open>How the update of one entry changes the number of entries with a property.\<close>

lemma length_filter_update:
  assumes "i < length xs"
  shows "length (filter P (xs[i := x])) + (if P (xs ! i) then 1 else 0) =
    length (filter P xs) + (if P x then 1 else 0)"
  using assms
proof (induction xs arbitrary: i)
  case (Cons y ys)
  show ?case
  proof (cases i)
    case (Suc k)
    with Cons show ?thesis using Cons.IH [of k] by (auto split: if_splits)
  qed simp
qed simp

end
