(* ===== verification/Multicodec.thy ===== *)
theory Multicodec
  imports Prelude
begin

text \<open>
  \<open>src/src/multiformats/multicodec/multicodec.c\<close>: the fixed table of supported multicodec codes
  with its two lookups, by code and by name. The lookups are shown to be inverse to each other.
\<close>

subsection \<open>The code\<close>

datatype libp2p_multicodec_tag_t =
    LIBP2P_MULTICODEC_TAG_MULTIHASH
  | LIBP2P_MULTICODEC_TAG_MULTIADDR
  | LIBP2P_MULTICODEC_TAG_KEY
  | LIBP2P_MULTICODEC_TAG_IPLD
  | LIBP2P_MULTICODEC_TAG_NAMESPACE
  | LIBP2P_MULTICODEC_TAG_SERIALIZATION
  | LIBP2P_MULTICODEC_TAG_HASH

datatype libp2p_multicodec_err_t =
    LIBP2P_MULTICODEC_OK
  | LIBP2P_MULTICODEC_ERR_UNSUPPORTED
  | LIBP2P_MULTICODEC_ERR_UNKNOWN_NAME

record libp2p_multicodec_entry_t =
  mc_code :: u64
  mc_name :: string
  mc_tag :: libp2p_multicodec_tag_t

definition multicodec_table :: "libp2p_multicodec_entry_t list" where
  "multicodec_table =
    [\<lparr>mc_code = 0x00, mc_name = ''identity'', mc_tag = LIBP2P_MULTICODEC_TAG_MULTIHASH\<rparr>,
     \<lparr>mc_code = 0x04, mc_name = ''ip4'', mc_tag = LIBP2P_MULTICODEC_TAG_MULTIADDR\<rparr>,
     \<lparr>mc_code = 0x12, mc_name = ''sha2-256'', mc_tag = LIBP2P_MULTICODEC_TAG_MULTIHASH\<rparr>,
     \<lparr>mc_code = 0x29, mc_name = ''ip6'', mc_tag = LIBP2P_MULTICODEC_TAG_MULTIADDR\<rparr>,
     \<lparr>mc_code = 0x72, mc_name = ''libp2p-key'', mc_tag = LIBP2P_MULTICODEC_TAG_IPLD\<rparr>,
     \<lparr>mc_code = 0x0111, mc_name = ''udp'', mc_tag = LIBP2P_MULTICODEC_TAG_MULTIADDR\<rparr>,
     \<lparr>mc_code = 0x01a5, mc_name = ''p2p'', mc_tag = LIBP2P_MULTICODEC_TAG_MULTIADDR\<rparr>,
     \<lparr>mc_code = 0x01cc, mc_name = ''quic'', mc_tag = LIBP2P_MULTICODEC_TAG_MULTIADDR\<rparr>,
     \<lparr>mc_code = 0x01cd, mc_name = ''quic-v1'', mc_tag = LIBP2P_MULTICODEC_TAG_MULTIADDR\<rparr>]"

text \<open>The comparison loop; both strings have at least \<open>name_len\<close> characters where it is called.\<close>

definition multicodec_name_matches :: "string \<Rightarrow> string \<Rightarrow> nat \<Rightarrow> bool" where
  "multicodec_name_matches entry_name name name_len =
     list_all (\<lambda>index. entry_name ! index = name ! index) [0..<name_len]"

fun multicodec_lookup_loop ::
  "libp2p_multicodec_entry_t list \<Rightarrow> u64 \<Rightarrow>
   libp2p_multicodec_err_t \<times> (string \<times> libp2p_multicodec_tag_t) option" where
  "multicodec_lookup_loop [] code = (LIBP2P_MULTICODEC_ERR_UNSUPPORTED, None)"
| "multicodec_lookup_loop (entry # entries) code =
     (if mc_code entry = code then (LIBP2P_MULTICODEC_OK, Some (mc_name entry, mc_tag entry))
      else multicodec_lookup_loop entries code)"

text \<open>The second component is what is stored through \<open>name\<close> and \<open>tag\<close>, if anything is.\<close>

definition libp2p_multicodec_lookup ::
  "u64 \<Rightarrow> libp2p_multicodec_err_t \<times> (string \<times> libp2p_multicodec_tag_t) option" where
  "libp2p_multicodec_lookup code = multicodec_lookup_loop multicodec_table code"

fun multicodec_from_name_loop ::
  "libp2p_multicodec_entry_t list \<Rightarrow> string \<Rightarrow> libp2p_multicodec_err_t \<times> u64 option" where
  "multicodec_from_name_loop [] name = (LIBP2P_MULTICODEC_ERR_UNKNOWN_NAME, None)"
| "multicodec_from_name_loop (entry # entries) name =
     (if length (mc_name entry) = length name \<and>
         multicodec_name_matches (mc_name entry) name (length name)
      then (LIBP2P_MULTICODEC_OK, Some (mc_code entry))
      else multicodec_from_name_loop entries name)"

fun libp2p_multicodec_from_name :: "char cbuf \<Rightarrow> libp2p_multicodec_err_t \<times> u64 option" where
  "libp2p_multicodec_from_name (Null n) = (LIBP2P_MULTICODEC_ERR_UNKNOWN_NAME, None)"
| "libp2p_multicodec_from_name (Buf name) = multicodec_from_name_loop multicodec_table name"

subsection \<open>Lookups in a table without duplicates\<close>

lemma multicodec_name_matches_eq:
  "length a = length b \<Longrightarrow> multicodec_name_matches a b (length b) \<longleftrightarrow> a = b"
  unfolding multicodec_name_matches_def list_all_iff by (auto intro: nth_equalityI)

lemma lookup_loop_iff:
  "distinct (map mc_code es) \<Longrightarrow>
   multicodec_lookup_loop es c = (LIBP2P_MULTICODEC_OK, Some (n, t)) \<longleftrightarrow>
   (\<exists>e\<in>set es. mc_code e = c \<and> mc_name e = n \<and> mc_tag e = t)"
  by (induction es) (auto simp: image_iff)

lemma from_name_loop_iff:
  "distinct (map mc_name es) \<Longrightarrow>
   multicodec_from_name_loop es n = (LIBP2P_MULTICODEC_OK, Some c) \<longleftrightarrow>
   (\<exists>e\<in>set es. mc_name e = n \<and> mc_code e = c)"
proof (induction es)
  case Nil
  then show ?case by simp
next
  case (Cons e es)
  have "length (mc_name e) = length n \<and> multicodec_name_matches (mc_name e) n (length n) \<longleftrightarrow>
      mc_name e = n"
    using multicodec_name_matches_eq by auto
  with Cons show ?case by (auto simp: image_iff)
qed

lemma multicodec_table_distinct:
  "distinct (map mc_code multicodec_table)" "distinct (map mc_name multicodec_table)"
  by (simp_all add: multicodec_table_def)

subsection \<open>Properties\<close>

text \<open>The two lookups of the multicodec table are inverse to each other: a code resolves to
  a name exactly when that name resolves to the code.\<close>

theorem multicodec_lookup_inverse:
  "(\<exists>t. libp2p_multicodec_lookup c = (LIBP2P_MULTICODEC_OK, Some (n, t))) \<longleftrightarrow>
   libp2p_multicodec_from_name (Buf n) = (LIBP2P_MULTICODEC_OK, Some c)"
  unfolding libp2p_multicodec_lookup_def libp2p_multicodec_from_name.simps
    lookup_loop_iff [OF multicodec_table_distinct(1)]
    from_name_loop_iff [OF multicodec_table_distinct(2)]
  by blast

end
