(* ===== verification/Uvarint.thy ===== *)
theory Uvarint
  imports Prelude
begin

text \<open>
  \<open>src/src/multiformats/unsigned_varint/unsigned_varint.c\<close>: the unsigned varint of multiformats,
  limited to 9 bytes and 63 bits. The reference definition is \<open>uvarint_bytes\<close>, the little-endian
  base-128 digits of a number; the encoder is shown to store exactly those bytes, the decoder to
  accept exactly those bytes, and the two form a \<open>prefix_codec\<close>.
\<close>

subsection \<open>The code\<close>

datatype libp2p_uvarint_err_t =
    LIBP2P_UVARINT_OK
  | LIBP2P_UVARINT_ERR_BUF_TOO_SMALL
  | LIBP2P_UVARINT_ERR_OVERFLOW
  | LIBP2P_UVARINT_ERR_NON_MINIMAL
  | LIBP2P_UVARINT_ERR_TRUNCATED

definition LIBP2P_UVARINT_MAX_BYTES :: nat where
  "LIBP2P_UVARINT_MAX_BYTES = 9"

function uvarint_measure_loop :: "u64 \<Rightarrow> nat \<Rightarrow> nat" where
  "uvarint_measure_loop remaining n =
     (if remaining \<ge> 0x80 then uvarint_measure_loop (drop_bit 7 remaining) (n + 1) else n)"
  by pat_completeness auto
termination
  by (relation "measure (\<lambda>(r, s). unat r)")
    (auto simp: unat_drop_bit_div word_le_nat_alt)

declare uvarint_measure_loop.simps [simp del]

definition uvarint_measure_unchecked :: "u64 \<Rightarrow> nat" where
  "uvarint_measure_unchecked value = uvarint_measure_loop value 1"

function uvarint_encode_loop :: "u64 \<Rightarrow> nat \<Rightarrow> byte list \<Rightarrow> byte list option" where
  "uvarint_encode_loop remaining index buf =
     (let byte = (ucast (remaining AND 0x7f) :: byte);
          remaining' = drop_bit 7 remaining;
          byte' = (if remaining' \<noteq> 0 then byte OR 0x80 else byte)
      in do {
        buf' \<leftarrow> wr buf index byte';
        (if remaining' \<noteq> 0 then uvarint_encode_loop remaining' (index + 1) buf' else Some buf')
      })"
  by pat_completeness auto
termination
proof (relation "measure (\<lambda>(r, i, b). unat r)", goal_cases)
  case 1
  show ?case by simp
next
  case (2 remaining index buf byte remaining' byte' buf')
  then have "unat (drop_bit 7 remaining) \<noteq> 0"
    by (simp add: unat_eq_zero)
  then have "0 < unat remaining div 128"
    unfolding unat_drop_bit_div by simp
  moreover have "unat remaining' = unat remaining div 128"
    unfolding 2 unat_drop_bit_div by simp
  ultimately show ?case by auto
qed

declare uvarint_encode_loop.simps [simp del]

text \<open>The result is the error code, the value of \<open>written\<close> and the contents of the buffer.\<close>

definition libp2p_uvarint_encode ::
  "u64 \<Rightarrow> byte cbuf \<Rightarrow> (libp2p_uvarint_err_t \<times> nat \<times> byte cbuf) option" where
  "libp2p_uvarint_encode value buf =
     (let required = uvarint_measure_unchecked value in
      if value > 0x7FFFFFFFFFFFFFFF then Some (LIBP2P_UVARINT_ERR_OVERFLOW, required, buf)
      else (case buf of
              Null n \<Rightarrow> Some (LIBP2P_UVARINT_ERR_BUF_TOO_SMALL, required, buf)
            | Buf out \<Rightarrow>
                (if length out < required
                 then Some (LIBP2P_UVARINT_ERR_BUF_TOO_SMALL, required, buf)
                 else do {
                   out' \<leftarrow> uvarint_encode_loop value 0 out;
                   Some (LIBP2P_UVARINT_OK, required, Buf out')
                 })))"

text \<open>
  The local array of \<open>LIBP2P_UVARINT_MAX_BYTES + 1\<close> bytes that callers encode into; its initial
  contents are never read.
\<close>

definition uvarint_scratch :: "byte list" where
  "uvarint_scratch = replicate (LIBP2P_UVARINT_MAX_BYTES + 1) 0"

definition uvarint_accumulate :: "u64 \<Rightarrow> nat \<Rightarrow> byte \<Rightarrow> u64" where
  "uvarint_accumulate decoded_value shift byte =
     (let payload = (ucast byte :: u64) AND 0x7f in decoded_value OR push_bit shift payload)"

text \<open>The result is the error code, the value and the number of bytes read.\<close>

fun uvarint_decode_loop ::
  "byte list \<Rightarrow> nat \<Rightarrow> nat \<Rightarrow> u64 \<Rightarrow> libp2p_uvarint_err_t \<times> u64 \<times> nat" where
  "uvarint_decode_loop [] index shift decoded_value = (LIBP2P_UVARINT_ERR_TRUNCATED, 0, 0)"
| "uvarint_decode_loop (byte # rest) index shift decoded_value =
     (if index \<ge> LIBP2P_UVARINT_MAX_BYTES then (LIBP2P_UVARINT_ERR_OVERFLOW, 0, 0)
      else if index = LIBP2P_UVARINT_MAX_BYTES - 1 \<and> byte AND 0x80 \<noteq> 0
      then (LIBP2P_UVARINT_ERR_OVERFLOW, 0, 0)
      else
        let decoded_value' = uvarint_accumulate decoded_value shift byte
        in if byte AND 0x80 = 0
           then (if index > 0 \<and> byte = 0 then (LIBP2P_UVARINT_ERR_NON_MINIMAL, 0, 0)
                 else (LIBP2P_UVARINT_OK, decoded_value', index + 1))
           else uvarint_decode_loop rest (index + 1) (shift + 7) decoded_value')"

fun libp2p_uvarint_decode :: "byte cbuf \<Rightarrow> libp2p_uvarint_err_t \<times> u64 \<times> nat" where
  "libp2p_uvarint_decode (Null n) = (LIBP2P_UVARINT_ERR_TRUNCATED, 0, 0)"
| "libp2p_uvarint_decode (Buf bs) = uvarint_decode_loop bs 0 0 0"

definition libp2p_uvarint_size :: "u64 \<Rightarrow> nat" where
  "libp2p_uvarint_size value = uvarint_measure_unchecked value"

subsection \<open>The reference format\<close>

fun uvarint_bytes :: "nat \<Rightarrow> byte list" where
  "uvarint_bytes n =
     (if n < 128 then [of_nat n] else of_nat (n mod 128 + 128) # uvarint_bytes (n div 128))"

declare uvarint_bytes.simps [simp del]

lemma uvarint_bytes_small: "n < 128 \<Longrightarrow> uvarint_bytes n = [of_nat n]"
  by (subst uvarint_bytes.simps) simp

lemma uvarint_bytes_big:
  "128 \<le> n \<Longrightarrow> uvarint_bytes n = of_nat (n mod 128 + 128) # uvarint_bytes (n div 128)"
  by (subst uvarint_bytes.simps) simp

lemma uvarint_bytes_nonempty [simp]: "uvarint_bytes n \<noteq> []"
  by (subst uvarint_bytes.simps) simp

lemma uvarint_measure_loop_length:
  "uvarint_measure_loop r s + 1 = s + length (uvarint_bytes (unat r))"
proof (induction r s rule: uvarint_measure_loop.induct)
  case (1 r s)
  show ?case
  proof (cases "r \<ge> 0x80")
    case True
    then have "128 \<le> unat r" by (simp add: word_le_nat_alt)
    with True 1 show ?thesis
      by (simp add: uvarint_measure_loop.simps [of r s] uvarint_bytes_big unat_drop_bit_div)
  next
    case False
    then have "unat r < 128" by (simp add: word_le_nat_alt)
    with False show ?thesis
      by (simp add: uvarint_measure_loop.simps [of r s] uvarint_bytes_small)
  qed
qed

lemma uvarint_measure_length [simp]:
  "uvarint_measure_unchecked v = length (uvarint_bytes (unat v))"
  using uvarint_measure_loop_length [of v 1]
  by (simp add: uvarint_measure_unchecked_def)

lemma uvarint_size_length [simp]:
  "libp2p_uvarint_size v = length (uvarint_bytes (unat v))"
  by (simp add: libp2p_uvarint_size_def)

text \<open>A number below \<open>128 ^ k\<close> needs at most \<open>k\<close> bytes, and one that is not needs more.\<close>

lemma uvarint_length_le_iff: "0 < k \<Longrightarrow> length (uvarint_bytes n) \<le> k \<longleftrightarrow> n < 128 ^ k"
proof (induction n arbitrary: k rule: uvarint_bytes.induct)
  case (1 n)
  show ?case
  proof (cases "n < 128")
    case True
    moreover have "(128::nat) ^ 1 \<le> 128 ^ k"
      using 1(2) by (intro power_increasing) auto
    ultimately show ?thesis using 1(2) by (simp add: uvarint_bytes_small)
  next
    case False
    then have len: "length (uvarint_bytes n) = Suc (length (uvarint_bytes (n div 128)))"
      by (simp add: uvarint_bytes_big)
    obtain j where k: "k = Suc j" using 1(2) by (cases k) auto
    show ?thesis
    proof (cases j)
      case 0
      with len False k show ?thesis
        by (simp add: uvarint_bytes_nonempty)
    next
      case (Suc i)
      then have "length (uvarint_bytes (n div 128)) \<le> j \<longleftrightarrow> n div 128 < 128 ^ j"
        using 1(1) [of j] False by simp
      also have "\<dots> \<longleftrightarrow> n < 128 ^ k"
        by (simp add: k div_less_iff_less_mult mult.commute)
      finally show ?thesis using len k by simp
    qed
  qed
qed

lemma uvarint_length_9: "n < 2 ^ 63 \<longleftrightarrow> length (uvarint_bytes n) \<le> 9"
  using uvarint_length_le_iff [of 9 n] by simp

subsection \<open>The encoder\<close>

lemma uvarint_encode_byte_last:
  assumes "unat (r :: u64) < 128"
  shows "(ucast (r AND 0x7f) :: byte) = of_nat (unat r)"
proof -
  have "unat (r AND 0x7f) = unat r" using assms by (simp add: unat_and_mask7)
  then have "r AND 0x7f = r" by (rule word_unat_eq_iff [THEN iffD2])
  then show ?thesis by (simp add: unsigned_ucast_eq)
qed

lemma uvarint_encode_byte_more:
  "(ucast ((r :: u64) AND 0x7f) :: byte) OR 0x80 = of_nat (unat r mod 128 + 128)"
proof (rule word_unat_eq_iff [THEN iffD2])
  have u: "unat (ucast (r AND 0x7f) :: byte) = unat r mod 128"
    by (simp add: unsigned_ucast_eq unat_and_mask7 take_bit_eq_mod)
  have "unat ((ucast (r AND 0x7f) :: byte) OR 0x80) =
      unat (ucast (r AND 0x7f) :: byte) + unat (0x80 :: byte)"
    by (rule unat_or_disjoint [where k = 7]) (auto simp: u)
  also have "\<dots> = unat (of_nat (unat r mod 128 + 128) :: byte)"
    unfolding u unat_of_nat by simp
  finally show "unat ((ucast (r AND 0x7f) :: byte) OR 0x80) =
      unat (of_nat (unat r mod 128 + 128) :: byte)" .
qed

lemma uvarint_encode_loop_correct:
  "length pre = i \<Longrightarrow> length (uvarint_bytes (unat r)) \<le> length buf \<Longrightarrow>
   uvarint_encode_loop r i (pre @ buf) =
     Some (pre @ uvarint_bytes (unat r) @ drop (length (uvarint_bytes (unat r))) buf)"
proof (induction "unat r" arbitrary: r i pre buf rule: uvarint_bytes.induct)
  case 1
  show ?case
  proof (cases "unat r < 128")
    case True
    then have "drop_bit 7 r = 0" by (simp add: unat_drop_bit_div flip: unat_eq_zero)
    with True 1(2,3) show ?thesis
      by (cases buf)
        (simp_all add: uvarint_encode_loop.simps [of r] uvarint_encode_byte_last
          uvarint_bytes_small)
  next
    case False
    let ?b = "of_nat (unat r mod 128 + 128) :: byte"
    have nz: "drop_bit 7 r \<noteq> 0"
      using False by (simp add: unat_drop_bit_div flip: unat_eq_zero)
    have d: "unat (drop_bit 7 r) = unat r div 128" by (simp add: unat_drop_bit_div)
    have bs: "uvarint_bytes (unat r) = ?b # uvarint_bytes (unat r div 128)"
      using False by (intro uvarint_bytes_big) simp
    obtain b buf' where buf: "buf = b # buf'"
      and len: "length (uvarint_bytes (unat r div 128)) \<le> length buf'"
      using 1(3) unfolding bs by (cases buf) auto
    have "uvarint_encode_loop r i (pre @ buf) =
        uvarint_encode_loop (drop_bit 7 r) (i + 1) ((pre @ [?b]) @ buf')"
      using nz 1(2) buf
      by (simp add: uvarint_encode_loop.simps [of r] uvarint_encode_byte_more)
    also have "\<dots> = Some ((pre @ [?b]) @ uvarint_bytes (unat r div 128) @
        drop (length (uvarint_bytes (unat r div 128))) buf')"
      using 1(1) [OF False d [symmetric], of "pre @ [?b]" "i + 1" buf'] 1(2) len d by simp
    finally show ?thesis
      using buf by (simp add: bs)
  qed
qed

lemma uvarint_encode_value:
  assumes "unat v < 2 ^ 63" and "length (uvarint_bytes (unat v)) \<le> length out"
  shows "libp2p_uvarint_encode v (Buf out) =
    Some (LIBP2P_UVARINT_OK, length (uvarint_bytes (unat v)),
      Buf (uvarint_bytes (unat v) @ drop (length (uvarint_bytes (unat v))) out))"
proof -
  have "\<not> v > 0x7FFFFFFFFFFFFFFF"
    using assms(1) by (simp add: word_less_nat_alt)
  with assms(2) show ?thesis
    using uvarint_encode_loop_correct [of "[]" 0 v out]
    by (simp add: libp2p_uvarint_encode_def Let_def)
qed

subsection \<open>The decoder\<close>

lemma unat_ucast_byte [simp]: "unat (ucast (b :: byte) :: u64) = unat b"
proof -
  have "unat b < 2 ^ 64" by (rule less_trans [OF byte_bound]) simp
  then show ?thesis by (simp add: unsigned_ucast_eq take_bit_eq_mod)
qed

lemma continuation_bit: "(b :: byte) AND 0x80 = 0 \<longleftrightarrow> unat b < 128"
proof -
  have "b AND 0x80 = 0 \<longleftrightarrow> \<not> bit b 7"
    using and_exp_eq_0_iff_not_bit [of b 7] by simp
  also have "\<dots> \<longleftrightarrow> \<not> bit (unat b) 7"
    by (simp add: bit_unsigned_iff)
  also have "\<dots> \<longleftrightarrow> even (unat b div 128)"
    by (simp add: bit_iff_odd)
  also have "\<dots> \<longleftrightarrow> unat b < 128"
  proof -
    have "unat b div 128 = (if unat b < 128 then 0 else 1)"
      using byte_bound [of b] by (auto intro: div_nat_eqI)
    then show ?thesis by simp
  qed
  finally show ?thesis .
qed

text \<open>One step of the accumulator: the bits of the new payload are above those already read.\<close>

lemma uvarint_decode_acc:
  fixes acc :: u64 and b :: byte
  assumes "i \<le> 8" and "unat acc < 2 ^ (7 * i)"
  shows "unat (uvarint_accumulate acc (7 * i) b) = unat acc + (unat b mod 128) * 2 ^ (7 * i)"
    and "unat acc + (unat b mod 128) * 2 ^ (7 * i) < 2 ^ (7 * Suc i)"
proof -
  let ?p = "(ucast b :: u64) AND 0x7f"
  have p: "unat ?p = unat b mod 128" by (simp add: unat_and_mask7)
  have lim: "unat acc + (unat b mod 128) * 2 ^ (7 * i) < 128 * 2 ^ (7 * i)"
  proof -
    have "(unat b mod 128) * 2 ^ (7 * i) \<le> 127 * 2 ^ (7 * i)"
      by (intro mult_right_mono) (auto simp: less_Suc_eq_le [symmetric])
    with assms(2) show ?thesis by linarith
  qed
  then show "unat acc + (unat b mod 128) * 2 ^ (7 * i) < 2 ^ (7 * Suc i)"
    by (simp add: power_add)
  have "(128::nat) * 2 ^ (7 * i) \<le> 128 * 2 ^ (7 * 8)"
    using assms(1) by (intro mult_left_mono power_increasing) auto
  then have big: "(128::nat) * 2 ^ (7 * i) < 2 ^ 64" by simp
  have sh: "unat (push_bit (7 * i) ?p) = (unat b mod 128) * 2 ^ (7 * i)"
  proof -
    have "unat (push_bit (7 * i) ?p) = take_bit 64 (push_bit (7 * i) (unat b mod 128))"
      unfolding unsigned_push_bit_eq p by simp
    also have "\<dots> = (unat b mod 128) * 2 ^ (7 * i)"
      using lim big by (simp add: take_bit_eq_mod push_bit_eq_mult)
    finally show ?thesis .
  qed
  have "2 ^ (7 * i) dvd unat (push_bit (7 * i) ?p)" unfolding sh by simp
  moreover have "unat acc + unat (push_bit (7 * i) ?p) < 2 ^ LENGTH(64)"
    using lim big unfolding sh by simp
  ultimately have "unat (acc OR push_bit (7 * i) ?p) = unat acc + unat (push_bit (7 * i) ?p)"
    by (rule unat_or_disjoint [OF assms(2)])
  then show "unat (uvarint_accumulate acc (7 * i) b) = unat acc + (unat b mod 128) * 2 ^ (7 * i)"
    unfolding sh uvarint_accumulate_def Let_def .
qed

lemma uvarint_room: "i < 8 \<Longrightarrow> 128 * 2 ^ (63 - 7 * Suc i) = (2 :: nat) ^ (63 - 7 * i)"
proof -
  assume "i < 8"
  then have "63 - 7 * i = (63 - 7 * Suc i) + 7" by simp
  then have "(2::nat) ^ (63 - 7 * i) = 2 ^ ((63 - 7 * Suc i) + 7)" by (rule arg_cong)
  then show ?thesis unfolding power_add by simp
qed

lemma uvarint_decode_loop_complete:
  "i \<le> 8 \<Longrightarrow> unat acc < 2 ^ (7 * i) \<Longrightarrow> n < 2 ^ (63 - 7 * i) \<Longrightarrow> (0 < i \<longrightarrow> n \<noteq> 0) \<Longrightarrow>
   \<exists>v. uvarint_decode_loop (uvarint_bytes n @ rest) i (7 * i) acc =
         (LIBP2P_UVARINT_OK, v, i + length (uvarint_bytes n)) \<and>
       unat v = unat acc + n * 2 ^ (7 * i)"
proof (induction n arbitrary: i acc rule: uvarint_bytes.induct)
  case (1 n)
  note acc = uvarint_decode_acc [OF 1(2,3)]
  show ?case
  proof (cases "n < 128")
    case True
    then have "unat (of_nat n :: byte) = n" by (simp add: unat_of_nat)
    then have "(of_nat n :: byte) AND 0x80 = 0" and "n \<noteq> 0 \<longrightarrow> (of_nat n :: byte) \<noteq> 0"
      and "unat (uvarint_accumulate acc (7 * i) (of_nat n)) = unat acc + n * 2 ^ (7 * i)"
      using True acc(1) [of "of_nat n"] by (simp_all add: continuation_bit) auto
    with True 1(2,5) show ?thesis
      by (auto simp: uvarint_bytes_small LIBP2P_UVARINT_MAX_BYTES_def)
  next
    case False
    let ?b = "of_nat (n mod 128 + 128) :: byte"
    have b: "unat ?b = n mod 128 + 128" unfolding unat_of_nat by simp
    then have cont: "?b AND 0x80 \<noteq> 0" by (simp only: continuation_bit)
    have i: "i < 8"
    proof (rule ccontr)
      assume "\<not> i < 8"
      with 1(2) have "i = 8" by simp
      with 1(4) False show False by simp
    qed
    let ?acc = "uvarint_accumulate acc (7 * i) ?b"
    have a: "unat ?acc = unat acc + (n mod 128) * 2 ^ (7 * i)"
      using acc(1) [of ?b] b by simp
    have "unat ?acc < 2 ^ (7 * Suc i)"
      using acc(2) [of ?b] acc(1) [of ?b] by simp
    moreover have "n div 128 < 2 ^ (63 - 7 * Suc i)"
      using 1(4) unfolding uvarint_room [OF i, symmetric]
      by (simp add: div_less_iff_less_mult mult.commute)
    moreover have "n div 128 \<noteq> 0" using False by simp
    ultimately obtain v where
      v: "uvarint_decode_loop (uvarint_bytes (n div 128) @ rest) (Suc i) (7 * Suc i) ?acc =
           (LIBP2P_UVARINT_OK, v, Suc i + length (uvarint_bytes (n div 128)))"
      and uv: "unat v = unat ?acc + (n div 128) * 2 ^ (7 * Suc i)"
      using 1(1) [OF False, of "Suc i" ?acc] i by auto
    have "unat v = unat acc + ((n mod 128) * 2 ^ (7 * i) + (n div 128) * 128 * 2 ^ (7 * i))"
      unfolding uv a by (simp add: power_add)
    also have "\<dots> = unat acc + (n mod 128 + n div 128 * 128) * 2 ^ (7 * i)"
      by (simp only: distrib_right)
    finally have "unat v = unat acc + n * 2 ^ (7 * i)" by simp
    moreover have "uvarint_decode_loop (uvarint_bytes n @ rest) i (7 * i) acc =
        (LIBP2P_UVARINT_OK, v, i + length (uvarint_bytes n))"
      using v False i cont
      by (simp add: uvarint_bytes_big LIBP2P_UVARINT_MAX_BYTES_def Let_def add.commute)
    ultimately show ?thesis by blast
  qed
qed

lemma uvarint_decode_loop_sound:
  "i \<le> 8 \<Longrightarrow> unat acc < 2 ^ (7 * i) \<Longrightarrow>
   uvarint_decode_loop bs i (7 * i) acc = (LIBP2P_UVARINT_OK, v, r) \<Longrightarrow>
   \<exists>n. unat v = unat acc + n * 2 ^ (7 * i) \<and> n < 2 ^ (63 - 7 * i) \<and> (0 < i \<longrightarrow> n \<noteq> 0) \<and>
       r = i + length (uvarint_bytes n) \<and> (\<exists>rest. bs = uvarint_bytes n @ rest)"
proof (induction bs arbitrary: i acc)
  case Nil
  then show ?case by simp
next
  case (Cons b bs)
  note acc = uvarint_decode_acc [OF Cons.prems(1,2), of b]
  let ?acc = "uvarint_accumulate acc (7 * i) b"
  show ?case
  proof (cases "unat b < 128")
    case True
    then have "v = ?acc" and "r = i + 1" and "0 < i \<longrightarrow> b \<noteq> 0"
      using Cons.prems(1,3) by (auto simp: continuation_bit LIBP2P_UVARINT_MAX_BYTES_def
          Let_def split: if_splits)
    moreover have "uvarint_bytes (unat b) = [b]"
      using True by (simp add: uvarint_bytes_small)
    moreover have "unat b < 2 ^ (63 - 7 * i)"
    proof -
      have "(2::nat) ^ 7 \<le> 2 ^ (63 - 7 * i)"
        using Cons.prems(1) by (intro power_increasing) auto
      with True show ?thesis by simp
    qed
    ultimately show ?thesis
      using True acc(1) by (intro exI [of _ "unat b"]) (auto simp: unat_eq_zero)
  next
    case False
    then have i: "i < 8" and rec: "uvarint_decode_loop bs (Suc i) (7 * Suc i) ?acc =
        (LIBP2P_UVARINT_OK, v, r)"
      using Cons.prems(1,3) by (auto simp: continuation_bit LIBP2P_UVARINT_MAX_BYTES_def
          Let_def add.commute split: if_splits)
    have "unat ?acc < 2 ^ (7 * Suc i)" using acc by simp
    with Cons.IH [of "Suc i" ?acc] rec i obtain n rest where
      n: "unat v = unat ?acc + n * 2 ^ (7 * Suc i)" "n < 2 ^ (63 - 7 * Suc i)" "n \<noteq> 0"
        "r = Suc i + length (uvarint_bytes n)" "bs = uvarint_bytes n @ rest"
      by auto
    let ?m = "unat b mod 128 + n * 128"
    have big: "128 \<le> ?m" using n(3) by simp
    have div: "?m div 128 = n" and md: "?m mod 128 = unat b mod 128" by simp_all
    have "unat b mod 128 + 128 = unat b"
    proof -
      have "unat b div 128 = 1" using False byte_bound [of b] by (auto intro: div_nat_eqI)
      then show ?thesis using div_mult_mod_eq [of "unat b" 128] by simp
    qed
    then have "(of_nat (?m mod 128 + 128) :: byte) = b" unfolding md by simp
    then have bytes: "uvarint_bytes ?m = b # uvarint_bytes n"
      using uvarint_bytes_big [OF big] div by simp
    have "?m < 2 ^ (63 - 7 * i)"
    proof -
      have "?m < 128 * Suc n" by simp
      also have "\<dots> \<le> 128 * 2 ^ (63 - 7 * Suc i)" using n(2) by simp
      finally show ?thesis using uvarint_room [OF i] by simp
    qed
    moreover have "unat v = unat acc + ?m * 2 ^ (7 * i)"
      using n(1) acc(1) by (simp add: power_add algebra_simps)
    ultimately show ?thesis
      using n bytes by (intro exI [of _ ?m]) auto
  qed
qed

subsection \<open>Laws\<close>

lemma uvarint_decode_bytes [codec_laws]:
  assumes "n < 2 ^ 63"
  shows "libp2p_uvarint_decode (Buf (uvarint_bytes n @ rest)) =
    (LIBP2P_UVARINT_OK, of_nat n, length (uvarint_bytes n))"
proof -
  from uvarint_decode_loop_complete [of 0 0 n rest] assms obtain v where
    "uvarint_decode_loop (uvarint_bytes n @ rest) 0 0 0 =
       (LIBP2P_UVARINT_OK, v, length (uvarint_bytes n))" and "unat v = n" by auto
  then show ?thesis by auto
qed

lemma uvarint_decode_ok:
  assumes "libp2p_uvarint_decode (Buf bs) = (LIBP2P_UVARINT_OK, v, r)"
  shows "unat v < 2 ^ 63" and "r = length (uvarint_bytes (unat v))" and "r \<le> length bs"
    and "take r bs = uvarint_bytes (unat v)" and "bs = uvarint_bytes (unat v) @ drop r bs"
  using uvarint_decode_loop_sound [of 0 0 bs v r] assms by auto

lemma uvarint_decode_read_bounds:
  assumes "libp2p_uvarint_decode (Buf bs) = (LIBP2P_UVARINT_OK, v, r)"
  shows "0 < r" and "r \<le> 9"
  using uvarint_decode_ok [OF assms] uvarint_length_9 by auto

declare libp2p_uvarint_decode.simps(2) [simp del]

text \<open>The decoder in the shape that clients use: the value and the rest, or nothing.\<close>

definition uvarint_dec :: "byte list \<Rightarrow> (u64 \<times> nat) option" where
  "uvarint_dec bs =
     (case libp2p_uvarint_decode (Buf bs) of
        (LIBP2P_UVARINT_OK, v, r) \<Rightarrow> Some (v, r) | _ \<Rightarrow> None)"

lemma uvarint_dec_Some_iff:
  "uvarint_dec bs = Some (v, r) \<longleftrightarrow> libp2p_uvarint_decode (Buf bs) = (LIBP2P_UVARINT_OK, v, r)"
  by (auto simp: uvarint_dec_def split: prod.splits libp2p_uvarint_err_t.splits)

interpretation uv: prefix_codec "\<lambda>v. uvarint_bytes (unat v)" uvarint_dec "\<lambda>v. unat v < 2 ^ 63"
proof
  fix v :: u64 and rest
  assume "unat v < 2 ^ 63"
  then show "uvarint_dec (uvarint_bytes (unat v) @ rest) = Some (v, length (uvarint_bytes (unat v)))"
    by (simp add: uvarint_dec_Some_iff codec_laws)
next
  fix bs v n
  assume "uvarint_dec bs = Some (v, n)"
  then show "unat v < 2 ^ 63 \<and> n \<le> length bs \<and> take n bs = uvarint_bytes (unat v)"
    using uvarint_decode_ok by (simp only: uvarint_dec_Some_iff)
qed simp

lemma uvarint_decode_loop_err:
  "i \<le> 8 \<Longrightarrow>
   fst (uvarint_decode_loop bs i shift acc) =
     (let c = length (takeWhile (\<lambda>b. 128 \<le> unat b) bs)
      in if 9 \<le> i + c then LIBP2P_UVARINT_ERR_OVERFLOW
         else if c = length bs then LIBP2P_UVARINT_ERR_TRUNCATED
         else if 0 < i + c \<and> bs ! c = 0 then LIBP2P_UVARINT_ERR_NON_MINIMAL
         else LIBP2P_UVARINT_OK)"
proof (induction bs arbitrary: i shift acc)
  case Nil
  then show ?case by simp
next
  case (Cons b bs)
  consider "unat b < 128" | "128 \<le> unat b" "i = 8" | "128 \<le> unat b" "i < 8"
    using Cons.prems by linarith
  then show ?case
  proof cases
    case 1
    with Cons.prems show ?thesis
      by (simp add: continuation_bit LIBP2P_UVARINT_MAX_BYTES_def Let_def)
  next
    case 2
    then show ?thesis
      by (simp add: continuation_bit LIBP2P_UVARINT_MAX_BYTES_def)
  next
    case 3
    with Cons.IH [of "Suc i" "shift + 7" "uvarint_accumulate acc shift b"] show ?thesis
      by (simp add: continuation_bit LIBP2P_UVARINT_MAX_BYTES_def Let_def)
  qed
qed

subsection \<open>Properties\<close>

text \<open>\<open>libp2p_uvarint_encode\<close> on every branch: a value of 64 bits is refused with
  \<open>OVERFLOW\<close>, a missing or short buffer with \<open>BUF_TOO_SMALL\<close> and no byte changed, and otherwise
  the minimal little-endian base-128 encoding is stored at the front of the buffer, the rest of
  the buffer is left alone and no store leaves the buffer; \<open>written\<close> is the encoded length in
  every case.\<close>

theorem uvarint_encode_correct:
  "libp2p_uvarint_encode v buf =
     (let w = length (uvarint_bytes (unat v))
      in Some (if 2 ^ 63 \<le> unat v then (LIBP2P_UVARINT_ERR_OVERFLOW, w, buf)
               else case buf of
                 Null n \<Rightarrow> (LIBP2P_UVARINT_ERR_BUF_TOO_SMALL, w, buf)
               | Buf out \<Rightarrow>
                   if length out < w then (LIBP2P_UVARINT_ERR_BUF_TOO_SMALL, w, buf)
                   else (LIBP2P_UVARINT_OK, w, Buf (uvarint_bytes (unat v) @ drop w out))))"
proof (cases "2 ^ 63 \<le> unat v")
  case True
  then show ?thesis
    by (simp add: libp2p_uvarint_encode_def Let_def word_less_nat_alt)
next
  case False
  then show ?thesis
    using uvarint_encode_value [of v]
    by (cases buf) (auto simp: libp2p_uvarint_encode_def Let_def word_less_nat_alt)
qed

text \<open>Claim C15. \<open>libp2p_uvarint_decode\<close> accepts exactly the minimal encodings of 63-bit values: it
  returns \<open>OK\<close> with value \<open>v\<close> and \<open>r\<close> bytes read if and only if the input starts with the
  encoding of \<open>v\<close>, which is \<open>r\<close> bytes long.\<close>

theorem uvarint_decode_iff:
  "libp2p_uvarint_decode (Buf bs) = (LIBP2P_UVARINT_OK, v, r) \<longleftrightarrow>
   unat v < 2 ^ 63 \<and> r = length (uvarint_bytes (unat v)) \<and> r \<le> length bs \<and>
   take r bs = uvarint_bytes (unat v)"
  using uv.dec_iff [of bs v r] unfolding uvarint_dec_Some_iff by blast

text \<open>The error code of \<open>libp2p_uvarint_decode\<close> in closed form: with \<open>c\<close> leading
  continuation bytes, nine or more give \<open>OVERFLOW\<close>, an input that ends there gives \<open>TRUNCATED\<close>, a
  zero byte after at least one continuation byte gives \<open>NON_MINIMAL\<close>, and everything else is
  accepted.\<close>

theorem uvarint_decode_error:
  "fst (libp2p_uvarint_decode (Buf bs)) =
     (let c = length (takeWhile (\<lambda>b. 128 \<le> unat b) bs)
      in if 9 \<le> c then LIBP2P_UVARINT_ERR_OVERFLOW
         else if c = length bs then LIBP2P_UVARINT_ERR_TRUNCATED
         else if 0 < c \<and> bs ! c = 0 then LIBP2P_UVARINT_ERR_NON_MINIMAL
         else LIBP2P_UVARINT_OK)"
  using uvarint_decode_loop_err [of 0 bs 0 0]
  by (simp add: libp2p_uvarint_decode.simps Let_def)

text \<open>\<open>libp2p_uvarint_size\<close> lies between 1 and 10, is at most 9 exactly for the 63-bit
  values that can be encoded, and is the least \<open>k > 0\<close> with \<open>v < 128 ^ k\<close>.\<close>

theorem uvarint_size_range:
  "1 \<le> libp2p_uvarint_size v \<and> libp2p_uvarint_size v \<le> 10 \<and>
   (libp2p_uvarint_size v \<le> 9 \<longleftrightarrow> unat v < 2 ^ 63) \<and>
   libp2p_uvarint_size v = (LEAST k. 0 < k \<and> unat v < 128 ^ k)"
proof -
  let ?l = "length (uvarint_bytes (unat v))"
  have "?l \<le> 10"
    using uvarint_length_le_iff [of 10 "unat v"] less_trans [OF u64_bound [of v]] by simp
  moreover have pos: "0 < ?l" by simp
  moreover have "(LEAST k. 0 < k \<and> unat v < 128 ^ k) = ?l"
  proof (rule Least_equality)
    show "0 < ?l \<and> unat v < 128 ^ ?l"
      using pos uvarint_length_le_iff [of ?l "unat v"] by simp
  next
    fix k assume "0 < k \<and> unat v < 128 ^ k"
    then show "?l \<le> k" using uvarint_length_le_iff [of k "unat v"] by simp
  qed
  ultimately show ?thesis
    using uvarint_length_9 [of "unat v"] by (simp add: Suc_le_eq)
qed

end
