(* ===== verification/Multihash.thy ===== *)
theory Multihash
  imports Uvarint
begin

text \<open>
  \<open>src/src/multiformats/multihash/multihash.c\<close>: a multihash is the varint of a hash code, the
  varint of a digest length and the digest. The supported codes are \<open>identity\<close> and \<open>sha2-256\<close>.
  Encoder and decoder are shown to be a \<open>prefix_codec\<close> for the reference format
  \<open>multihash_bytes\<close>.
\<close>

subsection \<open>The code\<close>

datatype libp2p_multihash_err_t =
    LIBP2P_MULTIHASH_OK
  | LIBP2P_MULTIHASH_ERR_BUF_TOO_SMALL
  | LIBP2P_MULTIHASH_ERR_UNSUPPORTED_CODE
  | LIBP2P_MULTIHASH_ERR_INVALID_VARINT
  | LIBP2P_MULTIHASH_ERR_TRUNCATED
  | LIBP2P_MULTIHASH_ERR_DIGEST_SIZE_MISMATCH

definition LIBP2P_MULTIHASH_CODE_IDENTITY :: u64 where
  "LIBP2P_MULTIHASH_CODE_IDENTITY = 0x00"

definition LIBP2P_MULTIHASH_CODE_SHA2_256 :: u64 where
  "LIBP2P_MULTIHASH_CODE_SHA2_256 = 0x12"

definition LIBP2P_MULTIHASH_SHA2_256_DIGEST_BYTES :: nat where
  "LIBP2P_MULTIHASH_SHA2_256_DIGEST_BYTES = 32"

definition multihash_size_fits_varint_limit :: "nat \<Rightarrow> bool" where
  "multihash_size_fits_varint_limit digest_len \<longleftrightarrow> digest_len \<le> 0x7FFFFFFFFFFFFFFF"

definition multihash_validate_size_input :: "nat \<Rightarrow> libp2p_multihash_err_t" where
  "multihash_validate_size_input digest_len =
     (if \<not> multihash_size_fits_varint_limit digest_len
      then LIBP2P_MULTIHASH_ERR_DIGEST_SIZE_MISMATCH else LIBP2P_MULTIHASH_OK)"

definition multihash_validate_code_and_length :: "u64 \<Rightarrow> nat \<Rightarrow> libp2p_multihash_err_t" where
  "multihash_validate_code_and_length code digest_len =
     (let result = multihash_validate_size_input digest_len in
      if result = LIBP2P_MULTIHASH_OK then
        (if code = LIBP2P_MULTIHASH_CODE_IDENTITY then result
         else if code = LIBP2P_MULTIHASH_CODE_SHA2_256 then
           (if digest_len \<noteq> LIBP2P_MULTIHASH_SHA2_256_DIGEST_BYTES
            then LIBP2P_MULTIHASH_ERR_DIGEST_SIZE_MISMATCH else result)
         else LIBP2P_MULTIHASH_ERR_UNSUPPORTED_CODE)
      else result)"

fun multihash_map_header_varint_err :: "libp2p_uvarint_err_t \<Rightarrow> libp2p_multihash_err_t" where
  "multihash_map_header_varint_err LIBP2P_UVARINT_ERR_TRUNCATED = LIBP2P_MULTIHASH_ERR_TRUNCATED"
| "multihash_map_header_varint_err LIBP2P_UVARINT_OK = LIBP2P_MULTIHASH_OK"
| "multihash_map_header_varint_err _ = LIBP2P_MULTIHASH_ERR_INVALID_VARINT"

text \<open>The result is the error code and the value of \<open>out_len\<close>.\<close>

definition libp2p_multihash_size :: "u64 \<Rightarrow> nat \<Rightarrow> libp2p_multihash_err_t \<times> nat" where
  "libp2p_multihash_size code digest_len =
     (let result = multihash_validate_code_and_length code digest_len in
      if result = LIBP2P_MULTIHASH_OK then
        (result, size_wrap (size_wrap (libp2p_uvarint_size code +
           libp2p_uvarint_size (of_nat digest_len)) + digest_len))
      else (result, 0))"

text \<open>The result is the error code, \<open>written\<close> and the contents of \<open>out\<close>.\<close>

definition libp2p_multihash_encode ::
  "u64 \<Rightarrow> byte cbuf \<Rightarrow> byte cbuf \<Rightarrow> (libp2p_multihash_err_t \<times> nat \<times> byte cbuf) option" where
  "libp2p_multihash_encode code digest out =
     (let digest_len = clen digest;
          (result, required) = libp2p_multihash_size code digest_len
      in if result \<noteq> LIBP2P_MULTIHASH_OK then Some (result, 0, out)
         else if digest_len \<noteq> 0 \<and> is_null digest
         then Some (LIBP2P_MULTIHASH_ERR_DIGEST_SIZE_MISMATCH, 0, out)
         else if is_null out \<or> clen out < required
         then Some (LIBP2P_MULTIHASH_ERR_BUF_TOO_SMALL, required, out)
         else do {
           (code_err, code_written, code_buf) \<leftarrow>
             libp2p_uvarint_encode code (Buf uvarint_scratch);
           (if code_err \<noteq> LIBP2P_UVARINT_OK
            then Some (LIBP2P_MULTIHASH_ERR_INVALID_VARINT, required, out)
            else do {
              (size_err, size_written, size_buf) \<leftarrow>
                libp2p_uvarint_encode (of_nat digest_len)
                  (Buf uvarint_scratch);
              (if size_err \<noteq> LIBP2P_UVARINT_OK
               then Some (LIBP2P_MULTIHASH_ERR_INVALID_VARINT, required, out)
               else do {
                 out1 \<leftarrow> memcpy_at (contents out) 0 (take code_written (contents code_buf));
                 out2 \<leftarrow> memcpy_at out1 code_written (take size_written (contents size_buf));
                 out3 \<leftarrow> (if digest_len \<noteq> 0
                          then memcpy_at out2 (code_written + size_written) (contents digest)
                          else Some out2);
                 Some (LIBP2P_MULTIHASH_OK, required, Buf out3)
               })
            })
         })"

text \<open>The result is the error code, the code, the digest length and the digest offset.\<close>

definition libp2p_multihash_read_header ::
  "byte cbuf \<Rightarrow> libp2p_multihash_err_t \<times> u64 \<times> nat \<times> nat" where
  "libp2p_multihash_read_header inp =
     (let (code_res, parsed_code, code_read) = libp2p_uvarint_decode inp;
          err = multihash_map_header_varint_err code_res
      in if err \<noteq> LIBP2P_MULTIHASH_OK then (err, 0, 0, 0)
         else if code_read > clen inp then (LIBP2P_MULTIHASH_ERR_TRUNCATED, 0, 0, 0)
         else
           let (size_res, parsed_digest_len, size_read) =
                 libp2p_uvarint_decode (Buf (drop code_read (contents inp)));
               err2 = multihash_map_header_varint_err size_res
           in if err2 \<noteq> LIBP2P_MULTIHASH_OK then (err2, 0, 0, 0)
              else if unat parsed_digest_len > SIZE_MAX
              then (LIBP2P_MULTIHASH_ERR_INVALID_VARINT, 0, 0, 0)
              else (LIBP2P_MULTIHASH_OK, parsed_code, unat parsed_digest_len,
                    code_read + size_read))"

text \<open>
  The result is the error code, the code, the digest pointer (an offset into the input, or
  \<open>None\<close> for a null pointer), the digest length and the number of bytes read.
\<close>

definition libp2p_multihash_decode ::
  "byte cbuf \<Rightarrow> libp2p_multihash_err_t \<times> u64 \<times> nat option \<times> nat \<times> nat" where
  "libp2p_multihash_decode inp =
     (let (err, parsed_code, parsed_digest_len, digest_offset) = libp2p_multihash_read_header inp;
          result = (if err = LIBP2P_MULTIHASH_OK
                    then multihash_validate_code_and_length parsed_code parsed_digest_len else err)
      in if result \<noteq> LIBP2P_MULTIHASH_OK then (result, 0, None, 0, 0)
         else if clen inp - digest_offset < parsed_digest_len
         then (LIBP2P_MULTIHASH_ERR_TRUNCATED, 0, None, 0, 0)
         else (LIBP2P_MULTIHASH_OK, parsed_code, Some digest_offset, parsed_digest_len,
               digest_offset + parsed_digest_len))"

subsection \<open>The reference format\<close>

definition multihash_bytes :: "u64 \<times> byte list \<Rightarrow> byte list" where
  "multihash_bytes = (\<lambda>(code, digest).
     uvarint_bytes (unat code) @ uvarint_bytes (length digest) @ digest)"

definition multihash_valid :: "u64 \<times> byte list \<Rightarrow> bool" where
  "multihash_valid = (\<lambda>(code, digest).
     multihash_validate_code_and_length code (length digest) = LIBP2P_MULTIHASH_OK)"

lemma multihash_validate_iff:
  "multihash_validate_code_and_length c n = LIBP2P_MULTIHASH_OK \<longleftrightarrow>
   n < 2 ^ 63 \<and> (c = 0 \<or> c = 0x12 \<and> n = 32)"
  by (auto simp: multihash_validate_code_and_length_def multihash_validate_size_input_def
      multihash_size_fits_varint_limit_def LIBP2P_MULTIHASH_CODE_IDENTITY_def
      LIBP2P_MULTIHASH_CODE_SHA2_256_def LIBP2P_MULTIHASH_SHA2_256_DIGEST_BYTES_def Let_def)

lemma multihash_valid_iff:
  "multihash_valid (c, d) \<longleftrightarrow> length d < 2 ^ 63 \<and> (c = 0 \<or> c = 0x12 \<and> length d = 32)"
  by (simp add: multihash_valid_def multihash_validate_iff)

lemma multihash_code_small:
  "multihash_validate_code_and_length c n = LIBP2P_MULTIHASH_OK \<Longrightarrow> unat c < 128"
  by (auto simp: multihash_validate_iff)

lemma unat_of_nat_63: "n < 2 ^ 63 \<Longrightarrow> unat (of_nat n :: u64) = n"
  by (simp add: unat_of_nat)

lemma multihash_size_ok:
  assumes "multihash_validate_code_and_length c n = LIBP2P_MULTIHASH_OK"
  shows "libp2p_multihash_size c n =
    (LIBP2P_MULTIHASH_OK, length (uvarint_bytes (unat c)) + length (uvarint_bytes n) + n)"
proof -
  have n: "n < 2 ^ 63" using assms by (simp add: multihash_validate_iff)
  have "length (uvarint_bytes (unat c)) \<le> 9"
    using multihash_code_small [OF assms] uvarint_length_9 [of "unat c"] by simp
  moreover have "length (uvarint_bytes n) \<le> 9" using n uvarint_length_9 by blast
  ultimately have "length (uvarint_bytes (unat c)) + length (uvarint_bytes n) + n \<le> SIZE_MAX"
    and "length (uvarint_bytes (unat c)) + length (uvarint_bytes n) \<le> SIZE_MAX"
    using n by (simp_all add: SIZE_MAX_def)
  then show ?thesis
    using assms n by (simp add: libp2p_multihash_size_def unat_of_nat_63)
qed

text \<open>Both header varints fit the ten-byte scratch arrays.\<close>

lemma uvarint_encode_scratch:
  assumes "unat v < 2 ^ 63"
  shows "\<exists>buf. libp2p_uvarint_encode v (Buf uvarint_scratch) =
      Some (LIBP2P_UVARINT_OK, length (uvarint_bytes (unat v)), Buf buf) \<and>
    take (length (uvarint_bytes (unat v))) buf = uvarint_bytes (unat v)"
proof -
  have "length (uvarint_bytes (unat v)) \<le> 9" using assms uvarint_length_9 by blast
  then show ?thesis
    using uvarint_encode_value [OF assms, of uvarint_scratch]
    by (simp add: uvarint_scratch_def LIBP2P_UVARINT_MAX_BYTES_def)
qed

lemma length_multihash_bytes:
  "length (multihash_bytes (c, d)) =
   length (uvarint_bytes (unat c)) + length (uvarint_bytes (length d)) + length d"
  by (simp add: multihash_bytes_def)

lemma multihash_encode_ok:
  assumes v: "multihash_valid (c, d)" and len: "length (multihash_bytes (c, d)) \<le> length out"
    and digest: "contents digest = d" "clen digest = length d"
  shows "libp2p_multihash_encode c digest (Buf out) =
    Some (LIBP2P_MULTIHASH_OK, length (multihash_bytes (c, d)),
      Buf (multihash_bytes (c, d) @ drop (length (multihash_bytes (c, d))) out))"
proof -
  let ?a = "uvarint_bytes (unat c)" and ?b = "uvarint_bytes (length d)"
  from v have ok: "multihash_validate_code_and_length c (length d) = LIBP2P_MULTIHASH_OK"
    by (simp add: multihash_valid_def)
  then have d: "length d < 2 ^ 63" by (simp add: multihash_validate_iff)
  have "unat c < 2 ^ 63" using multihash_code_small [OF ok] by simp
  from uvarint_encode_scratch [OF this] obtain cb where
    cb: "libp2p_uvarint_encode c (Buf uvarint_scratch) =
      Some (LIBP2P_UVARINT_OK, length ?a, Buf cb)" "take (length ?a) cb = ?a" by blast
  have "unat (of_nat (length d) :: u64) < 2 ^ 63" using d by (simp add: unat_of_nat_63)
  from uvarint_encode_scratch [OF this] obtain sb where
    sb: "libp2p_uvarint_encode (of_nat (length d)) (Buf uvarint_scratch) =
      Some (LIBP2P_UVARINT_OK, length ?b, Buf sb)" "take (length ?b) sb = ?b"
    using unat_of_nat_63 [OF d] by auto
  have 1: "memcpy_at out 0 ?a = Some (?a @ drop (length ?a) out)"
    and 2: "memcpy_at (?a @ drop (length ?a) out) (length ?a) ?b =
      Some (?a @ ?b @ drop (length ?a + length ?b) out)"
    and 3: "memcpy_at (?a @ ?b @ drop (length ?a + length ?b) out) (length ?a + length ?b) d =
      Some (multihash_bytes (c, d) @ drop (length (multihash_bytes (c, d))) out)"
    using len by (simp_all add: memcpy_at_def multihash_bytes_def ac_simps)
  have 4: "multihash_bytes (c, d) @ drop (length (multihash_bytes (c, d))) out =
      ?a @ ?b @ drop (length ?a + length ?b) out" if "length d = 0"
    using that by (simp add: multihash_bytes_def)
  have nn: "length d \<noteq> 0 \<Longrightarrow> \<not> is_null digest"
    using digest by (cases digest) auto
  show ?thesis
    using len 4 nn
    by (simp add: libp2p_multihash_encode_def cb sb 1 2 3 digest
        multihash_size_ok [OF ok] length_multihash_bytes Let_def)
qed

subsection \<open>The decoder\<close>

lemma multihash_map_ok [simp]:
  "multihash_map_header_varint_err e = LIBP2P_MULTIHASH_OK \<longleftrightarrow> e = LIBP2P_UVARINT_OK"
  by (cases e) simp_all

lemma multihash_read_header_bytes:
  assumes "unat c < 2 ^ 63" and "n < 2 ^ 63"
  shows "libp2p_multihash_read_header (Buf (uvarint_bytes (unat c) @ uvarint_bytes n @ rest)) =
    (LIBP2P_MULTIHASH_OK, c, n, length (uvarint_bytes (unat c)) + length (uvarint_bytes n))"
  using assms
  by (simp add: libp2p_multihash_read_header_def uvarint_decode_bytes SIZE_MAX_def unat_of_nat_63
      del: uvarint_bytes_nonempty)

lemma multihash_read_header_ok:
  assumes "libp2p_multihash_read_header (Buf bs) = (LIBP2P_MULTIHASH_OK, c, n, off)"
  shows "unat c < 2 ^ 63" and "n < 2 ^ 63" and "off \<le> length bs"
    and "off = length (uvarint_bytes (unat c)) + length (uvarint_bytes n)"
    and "bs = uvarint_bytes (unat c) @ uvarint_bytes n @ drop off bs"
proof -
  from assms obtain r1 l r2 where
    1: "libp2p_uvarint_decode (Buf bs) = (LIBP2P_UVARINT_OK, c, r1)"
    and 2: "libp2p_uvarint_decode (Buf (drop r1 bs)) = (LIBP2P_UVARINT_OK, l, r2)"
    and n: "n = unat l" and off: "off = r1 + r2"
    by (auto simp: libp2p_multihash_read_header_def Let_def split: prod.splits if_splits)
  note u1 = uvarint_decode_ok [OF 1] and u2 = uvarint_decode_ok [OF 2]
  show "unat c < 2 ^ 63" and "n < 2 ^ 63" using u1(1) u2(1) n by simp_all
  show "off \<le> length bs" using u1(3) u2(3) off by simp
  show "off = length (uvarint_bytes (unat c)) + length (uvarint_bytes n)"
    using u1(2) u2(2) n off by simp
  have "bs = uvarint_bytes (unat c) @ drop r1 bs" by (rule u1(5))
  also have "drop r1 bs = uvarint_bytes n @ drop r2 (drop r1 bs)" unfolding n by (rule u2(5))
  finally show "bs = uvarint_bytes (unat c) @ uvarint_bytes n @ drop off bs"
    by (simp add: off add.commute)
qed

lemma multihash_decode_bytes [codec_laws]:
  assumes "multihash_valid (c, d)"
  shows "libp2p_multihash_decode (Buf (multihash_bytes (c, d) @ rest)) =
    (LIBP2P_MULTIHASH_OK, c, Some (length (multihash_bytes (c, d)) - length d), length d,
     length (multihash_bytes (c, d)))"
proof -
  from assms have ok: "multihash_validate_code_and_length c (length d) = LIBP2P_MULTIHASH_OK"
    by (simp add: multihash_valid_def)
  then have "length d < 2 ^ 63" and "unat c < 2 ^ 63"
    using multihash_code_small [OF ok] by (simp_all add: multihash_validate_iff)
  then show ?thesis
    using ok multihash_read_header_bytes [of c "length d" "d @ rest"]
    by (simp add: libp2p_multihash_decode_def multihash_bytes_def)
qed

lemma multihash_decode_ok:
  assumes "libp2p_multihash_decode (Buf bs) = (LIBP2P_MULTIHASH_OK, c, dp, n, r)"
  obtains d where "multihash_valid (c, d)" and "bs = multihash_bytes (c, d) @ drop r bs"
    and "n = length d" and "r = length (multihash_bytes (c, d))" and "r \<le> length bs"
    and "dp = Some (r - n)" and "d = take n (drop (r - n) bs)"
proof -
  from assms obtain off where
    h: "libp2p_multihash_read_header (Buf bs) = (LIBP2P_MULTIHASH_OK, c, n, off)"
    and v: "multihash_validate_code_and_length c n = LIBP2P_MULTIHASH_OK"
    and l: "n \<le> length bs - off" and r: "r = off + n" and dp: "dp = Some off"
    by (auto simp: libp2p_multihash_decode_def Let_def split: prod.splits if_splits)
  note hd = multihash_read_header_ok [OF h]
  let ?d = "take n (drop off bs)"
  have len: "length ?d = n" using l by simp
  have "?d @ drop r bs = drop off bs"
    using append_take_drop_id [of n "drop off bs"] by (simp add: r add.commute)
  then have split: "bs = multihash_bytes (c, ?d) @ drop r bs"
    using hd(5) len by (simp add: multihash_bytes_def)
  have rl: "r = length (multihash_bytes (c, ?d))"
    using hd(4) len by (simp add: length_multihash_bytes r)
  show ?thesis
  proof (rule that [of ?d])
    show "multihash_valid (c, ?d)" using v len by (simp add: multihash_valid_def)
    show "r \<le> length bs" "n = length ?d" using r l hd(3) len by simp_all
    have "r - n = off" using r by simp
    then show "dp = Some (r - n)" and "?d = take n (drop (r - n) bs)" using dp by simp_all
  qed (fact split rl)+
qed

definition multihash_dec :: "byte list \<Rightarrow> ((u64 \<times> byte list) \<times> nat) option" where
  "multihash_dec bs =
     (case libp2p_multihash_decode (Buf bs) of
        (LIBP2P_MULTIHASH_OK, c, Some off, n, r) \<Rightarrow> Some ((c, take n (drop off bs)), r)
      | _ \<Rightarrow> None)"

lemma multihash_dec_Some:
  assumes "multihash_dec bs = Some ((c, d), r)"
  shows "\<exists>off. libp2p_multihash_decode (Buf bs) = (LIBP2P_MULTIHASH_OK, c, Some off, length d, r) \<and>
    multihash_valid (c, d) \<and> r \<le> length bs \<and> take r bs = multihash_bytes (c, d)"
proof -
  from assms obtain off n where dec: "libp2p_multihash_decode (Buf bs) =
      (LIBP2P_MULTIHASH_OK, c, Some off, n, r)" and d: "d = take n (drop off bs)"
    by (auto simp: multihash_dec_def split: prod.splits libp2p_multihash_err_t.splits option.splits)
  from multihash_decode_ok [OF dec] obtain d' where
    v: "multihash_valid (c, d')" and bs: "bs = multihash_bytes (c, d') @ drop r bs" and
    n: "n = length d'" and r: "r = length (multihash_bytes (c, d'))" "r \<le> length bs"
    and off: "Some off = Some (r - n)" and d': "d' = take n (drop (r - n) bs)" by metis
  have "d' = d" unfolding d d' using off by simp
  moreover have "take r bs = multihash_bytes (c, d')"
    unfolding r(1) using append_eq_conv_conj [THEN iffD1, OF bs [symmetric]] by simp
  ultimately show ?thesis using dec v n r(2) by auto
qed

interpretation mh: prefix_codec multihash_bytes multihash_dec multihash_valid
proof
  fix v rest
  assume "multihash_valid v"
  then show "multihash_dec (multihash_bytes v @ rest) = Some (v, length (multihash_bytes v))"
    by (cases v) (simp add: multihash_dec_def multihash_decode_bytes, simp add: multihash_bytes_def)
next
  fix bs v n
  assume "multihash_dec bs = Some (v, n)"
  then show "multihash_valid v \<and> n \<le> length bs \<and> take n bs = multihash_bytes v"
    by (cases v) (auto dest: multihash_dec_Some)
next
  fix v
  show "multihash_bytes v \<noteq> []" by (cases v) (simp add: multihash_bytes_def)
qed

subsection \<open>Properties\<close>

text \<open>\<open>libp2p_multihash_encode\<close> on every branch: an unsupported code, a digest of the wrong
  size and a missing digest are refused without touching the output; a short output is refused
  with the required size in \<open>written\<close>; otherwise code varint, length varint and digest are stored
  at the front of the output and the rest of the output is unchanged.\<close>

theorem multihash_encode_correct:
  "libp2p_multihash_encode code digest out =
     (let v = multihash_validate_code_and_length code (clen digest);
          e = multihash_bytes (code, contents digest)
      in Some (if v \<noteq> LIBP2P_MULTIHASH_OK then (v, 0, out)
               else if is_null digest \<and> clen digest \<noteq> 0
               then (LIBP2P_MULTIHASH_ERR_DIGEST_SIZE_MISMATCH, 0, out)
               else if is_null out \<or> clen out < length e
               then (LIBP2P_MULTIHASH_ERR_BUF_TOO_SMALL, length e, out)
               else (LIBP2P_MULTIHASH_OK, length e, Buf (e @ drop (length e) (contents out)))))"
proof (cases "multihash_validate_code_and_length code (clen digest) = LIBP2P_MULTIHASH_OK")
  case False
  then show ?thesis
    by (simp add: libp2p_multihash_encode_def libp2p_multihash_size_def Let_def)
next
  case True
  note size = multihash_size_ok [OF True]
  show ?thesis
  proof (cases "is_null digest \<and> clen digest \<noteq> 0")
    case bad: True
    with True size show ?thesis by (simp add: libp2p_multihash_encode_def Let_def)
  next
    case False
    then have d: "clen digest = length (contents digest)" by (cases digest) auto
    then have "multihash_valid (code, contents digest)"
      using True by (simp add: multihash_valid_def)
    note ok = multihash_encode_ok [OF this _ refl d]
    show ?thesis
    proof (cases "is_null out \<or> clen out < length (multihash_bytes (code, contents digest))")
      case short: True
      with True False size d show ?thesis
        by (auto simp: libp2p_multihash_encode_def Let_def length_multihash_bytes)
    next
      case fits: False
      then obtain o' where "out = Buf o'" by (cases out) auto
      with fits True False ok [of o'] show ?thesis by (simp add: Let_def not_less)
    qed
  qed
qed

text \<open>\<open>libp2p_multihash_decode\<close> accepts exactly the multihashes of supported codes: it
  succeeds if and only if the input starts with the encoding of a valid pair of code and digest,
  and then it returns that code, the position and the length of that digest and the length of
  the encoding.\<close>

theorem multihash_decode_iff:
  "libp2p_multihash_decode (Buf bs) = (LIBP2P_MULTIHASH_OK, c, dp, n, r) \<longleftrightarrow>
   (\<exists>d rest. bs = multihash_bytes (c, d) @ rest \<and> multihash_valid (c, d) \<and>
      dp = Some (length (multihash_bytes (c, d)) - length d) \<and> n = length d \<and>
      r = length (multihash_bytes (c, d)))"
proof
  assume "libp2p_multihash_decode (Buf bs) = (LIBP2P_MULTIHASH_OK, c, dp, n, r)"
  from multihash_decode_ok [OF this] show "\<exists>d rest. bs = multihash_bytes (c, d) @ rest \<and>
      multihash_valid (c, d) \<and> dp = Some (length (multihash_bytes (c, d)) - length d) \<and>
      n = length d \<and> r = length (multihash_bytes (c, d))"
    by metis
qed (auto simp: multihash_decode_bytes)

end
