(* ===== verification/Positional.thy ===== *)
theory Positional
  imports Prelude
begin

text \<open>
  Positional notation: digits of a number in a base, least significant first, with the canonical
  form that has no leading zero. The second part is the carry loop by which the code multiplies
  a number held in a digit array by a constant and adds a small value, in place; the locale
  \<open>digit_cells\<close> states what it needs of the representation of a digit in an array cell, and its
  theorem relates the loop to the digits of the product.
\<close>

subsection \<open>Digits and values\<close>

primrec le_val :: "nat \<Rightarrow> nat list \<Rightarrow> nat" where
  "le_val B [] = 0"
| "le_val B (d # ds) = d + B * le_val B ds"

fun le_digits :: "nat \<Rightarrow> nat \<Rightarrow> nat list" where
  "le_digits B n = (if B < 2 \<or> n = 0 then [] else n mod B # le_digits B (n div B))"

declare le_digits.simps [simp del]

definition canonical :: "nat \<Rightarrow> nat list \<Rightarrow> bool" where
  "canonical B ds \<longleftrightarrow> list_all (\<lambda>d. d < B) ds \<and> (ds = [] \<or> last ds \<noteq> 0)"

lemma le_digits_0 [simp]: "le_digits B 0 = []"
  by (subst le_digits.simps) simp

lemma le_digits_pos: "2 \<le> B \<Longrightarrow> 0 < n \<Longrightarrow> le_digits B n = n mod B # le_digits B (n div B)"
  by (subst le_digits.simps) simp

lemma le_val_digits: "2 \<le> B \<Longrightarrow> le_val B (le_digits B n) = n"
  by (induction B n rule: le_digits.induct) (subst le_digits.simps, simp)

lemma le_digits_Nil_iff: "2 \<le> B \<Longrightarrow> le_digits B n = [] \<longleftrightarrow> n = 0"
  by (subst le_digits.simps) simp

lemma canonical_digits: "2 \<le> B \<Longrightarrow> canonical B (le_digits B n)"
proof (induction B n rule: le_digits.induct)
  case (1 B n)
  show ?case
  proof (cases "n = 0")
    case False
    with 1 have "canonical B (le_digits B (n div B))" by simp
    moreover have "n div B = 0 \<Longrightarrow> n mod B \<noteq> 0"
      using False by (metis div_mult_mod_eq mult_zero_left add_0)
    ultimately show ?thesis
      using False 1(2) by (auto simp: le_digits_pos [of B n] canonical_def le_digits_Nil_iff)
  qed (simp add: canonical_def)
qed

lemma le_val_pos: "canonical B ds \<Longrightarrow> ds \<noteq> [] \<Longrightarrow> 0 < B \<Longrightarrow> 0 < le_val B ds"
  by (induction ds) (auto simp: canonical_def split: if_splits)

lemma digits_val: "2 \<le> B \<Longrightarrow> canonical B ds \<Longrightarrow> le_digits B (le_val B ds) = ds"
proof (induction ds)
  case Nil
  then show ?case by simp
next
  case (Cons d ds)
  then have "canonical B ds" and d: "d < B"
    by (auto simp: canonical_def split: if_splits)
  moreover have "0 < le_val B (d # ds)"
    using Cons.prems by (intro le_val_pos) auto
  ultimately show ?case
    using Cons by (simp add: le_digits_pos)
qed

lemma length_digits_le_iff: "2 \<le> B \<Longrightarrow> length (le_digits B n) \<le> k \<longleftrightarrow> n < B ^ k"
proof (induction B n arbitrary: k rule: le_digits.induct)
  case (1 B n)
  show ?case
  proof (cases "n = 0")
    case True
    with 1(2) show ?thesis by simp
  next
    case False
    show ?thesis
    proof (cases k)
      case 0
      with False 1(2) show ?thesis by (simp add: le_digits_Nil_iff)
    next
      case (Suc j)
      with False 1 have "length (le_digits B (n div B)) \<le> j \<longleftrightarrow> n div B < B ^ j" by simp
      also have "\<dots> \<longleftrightarrow> n < B ^ k"
        using 1(2) by (simp add: Suc div_less_iff_less_mult mult.commute)
      finally show ?thesis
        using False 1(2) Suc by (simp add: le_digits_pos [of B n])
    qed
  qed
qed

lemma length_digits_mono: "2 \<le> B \<Longrightarrow> n \<le> k \<Longrightarrow> length (le_digits B n) \<le> length (le_digits B k)"
  using length_digits_le_iff [of B n "length (le_digits B k)"]
    length_digits_le_iff [of B k "length (le_digits B k)"] by simp

text \<open>The value of a most-significant-first digit string, as a loop over the string computes it.\<close>

definition be_fold :: "nat \<Rightarrow> nat \<Rightarrow> nat list \<Rightarrow> nat" where
  "be_fold B n ds = foldl (\<lambda>n d. n * B + d) n ds"

lemma be_fold_simps [simp]:
  "be_fold B n [] = n" "be_fold B n (d # ds) = be_fold B (n * B + d) ds"
  by (simp_all add: be_fold_def)

lemma be_fold_append: "be_fold B n (xs @ ys) = be_fold B (be_fold B n xs) ys"
  by (simp add: be_fold_def)

lemma be_fold_ge: "0 < B \<Longrightarrow> n \<le> be_fold B n ds"
proof (induction ds arbitrary: n)
  case (Cons d ds)
  have "n \<le> n * B + d" using Cons.prems by (simp add: trans_le_add1)
  also have "\<dots> \<le> be_fold B (n * B + d) ds" using Cons by simp
  finally show ?case by simp
qed simp

lemma be_fold_zeros [simp]: "be_fold B 0 (replicate k 0 @ ds) = be_fold B 0 ds"
  by (induction k) simp_all

lemma le_val_append: "le_val B (xs @ ys) = le_val B xs + B ^ length xs * le_val B ys"
  by (induction xs) (simp_all add: algebra_simps)

lemma be_fold_le_val: "be_fold B n ds = le_val B (rev ds) + n * B ^ length ds"
  by (induction ds arbitrary: n) (simp_all add: le_val_append algebra_simps)

lemma be_fold_less: "list_all (\<lambda>d. d < B) ds \<Longrightarrow> be_fold B n ds < Suc n * B ^ length ds"
proof (induction ds arbitrary: n)
  case (Cons d ds)
  then have "be_fold B (n * B + d) ds < Suc (n * B + d) * B ^ length ds" by simp
  also have "\<dots> \<le> (Suc n * B) * B ^ length ds"
    using Cons.prems by (intro mult_right_mono) auto
  finally show ?case by (simp add: algebra_simps)
qed simp

lemma digits_be_fold:
  "2 \<le> B \<Longrightarrow> canonical B (rev ds) \<Longrightarrow> le_digits B (be_fold B 0 ds) = rev ds"
  by (simp add: be_fold_le_val digits_val)

lemma be_fold_digits: "2 \<le> B \<Longrightarrow> be_fold B 0 (rev (le_digits B n)) = n"
  by (simp add: be_fold_le_val le_val_digits)

subsection \<open>Multiply and add\<close>

function mul_add :: "nat \<Rightarrow> nat \<Rightarrow> nat list \<Rightarrow> nat \<Rightarrow> nat list" where
  "mul_add B m (d # ds) c = ((c + d * m) mod B) # mul_add B m ds ((c + d * m) div B)"
| "mul_add B m [] c = (if c = 0 \<or> B < 2 then [] else (c mod B) # mul_add B m [] (c div B))"
  by pat_completeness auto
termination
  by (relation "measures [\<lambda>(B, m, ds, c). length ds, \<lambda>(B, m, ds, c). c]") auto

declare mul_add.simps(2) [simp del]

lemma mul_add_Nil: "2 \<le> B \<Longrightarrow> mul_add B m [] c = le_digits B c"
proof (induction c rule: less_induct)
  case (less c)
  then show ?case
    by (subst mul_add.simps(2), subst le_digits.simps) simp
qed

lemma le_val_mul_add: "2 \<le> B \<Longrightarrow> le_val B (mul_add B m ds c) = le_val B ds * m + c"
proof (induction ds arbitrary: c)
  case Nil
  then show ?case by (simp add: mul_add_Nil le_val_digits)
next
  case (Cons d ds)
  let ?x = "c + d * m"
  have "le_val B (mul_add B m (d # ds) c) = ?x mod B + B * (le_val B ds * m + ?x div B)"
    using Cons by simp
  also have "\<dots> = ?x + B * (le_val B ds * m)"
    by (simp add: distrib_left)
  also have "\<dots> = le_val B (d # ds) * m + c" by (simp add: algebra_simps)
  finally show ?case .
qed

lemma mul_add_Nil_iff: "2 \<le> B \<Longrightarrow> mul_add B m ds c = [] \<longleftrightarrow> ds = [] \<and> c = 0"
  by (cases ds) (simp_all add: mul_add_Nil le_digits_Nil_iff)

lemma canonical_mul_add:
  "2 \<le> B \<Longrightarrow> 0 < m \<Longrightarrow> canonical B ds \<Longrightarrow> canonical B (mul_add B m ds c)"
proof (induction ds arbitrary: c)
  case Nil
  then show ?case by (simp add: mul_add_Nil canonical_digits)
next
  case (Cons d ds)
  let ?x = "c + d * m"
  have ds: "canonical B ds" using Cons.prems(3) by (auto simp: canonical_def split: if_splits)
  with Cons have rec: "canonical B (mul_add B m ds (?x div B))" by simp
  show ?case
  proof (cases "mul_add B m ds (?x div B) = []")
    case True
    with Cons.prems(1) have "ds = []" and "?x div B = 0"
      using mul_add_Nil_iff by auto
    moreover from this Cons.prems have "?x \<noteq> 0" by (auto simp: canonical_def)
    ultimately have "?x mod B \<noteq> 0"
      by (metis add_0 div_mult_mod_eq mult_zero_left)
    with True Cons.prems(1) show ?thesis by (simp add: canonical_def)
  next
    case False
    with rec Cons.prems(1) show ?thesis by (auto simp: canonical_def)
  qed
qed

lemma mul_add_digits:
  "2 \<le> B \<Longrightarrow> 0 < m \<Longrightarrow> mul_add B m (le_digits B n) c = le_digits B (n * m + c)"
  using digits_val [of B "mul_add B m (le_digits B n) c"]
  by (simp add: canonical_mul_add canonical_digits le_val_mul_add le_val_digits)

subsection \<open>The carry loop in an array\<close>

text \<open>
  The digits lie in the \<open>cap\<close> cells after \<open>off\<close>, most significant first, so digit \<open>i\<close> is at
  \<open>off + (cap - 1 - i)\<close>. The first component of the result is \<open>False\<close> when the digits do not fit.
\<close>

function carry_loop ::
  "('c \<Rightarrow> nat) \<Rightarrow> (nat \<Rightarrow> 'c) \<Rightarrow> nat \<Rightarrow> nat \<Rightarrow> nat \<Rightarrow> nat \<Rightarrow> nat \<Rightarrow> nat \<Rightarrow> nat \<Rightarrow> 'c list \<Rightarrow>
   (bool \<times> nat \<times> 'c list) option" where
  "carry_loop get put B m off cap carry i used out =
     (if carry \<noteq> 0 \<or> i < used then
        (if cap \<le> i then Some (False, i, out)
         else do {
           d \<leftarrow> rd out (off + (cap - 1 - i));
           let c = (carry + get d * m) mod 2 ^ 32;
           out' \<leftarrow> wr out (off + (cap - 1 - i)) (put (c mod B));
           carry_loop get put B m off cap (c div B) (i + 1) used out'
         })
      else Some (True, i, out))"
  by pat_completeness auto
termination
  by (relation "measure (\<lambda>(get, put, B, m, off, cap, carry, i, used, out). cap - i)") auto

declare carry_loop.simps [simp del]

text \<open>The number \<open>n\<close> in the \<open>cap\<close> cells after \<open>pre\<close>.\<close>

definition number_cells :: "(nat \<Rightarrow> 'c) \<Rightarrow> nat \<Rightarrow> 'c list \<Rightarrow> nat \<Rightarrow> nat \<Rightarrow> 'c list" where
  "number_cells put B pre cap n =
     pre @ rev (map put (le_digits B n @ replicate (cap - length (le_digits B n)) 0))"

locale digit_cells =
  fixes get :: "'c \<Rightarrow> nat" and put :: "nat \<Rightarrow> 'c" and B m :: nat
  assumes get_put: "d < B \<Longrightarrow> get (put d) = d"
    and base: "2 \<le> B" and mult: "0 < m" and word: "B * m \<le> 2 ^ 32"
begin

lemma carry_room:
  assumes "carry < m" and "d < B"
  shows "(carry + d * m) mod 2 ^ 32 = carry + d * m" and "(carry + d * m) div B < m"
proof -
  have "carry + d * m < m + d * m" using assms(1) by simp
  also have "\<dots> = Suc d * m" by simp
  also have "\<dots> \<le> B * m" using assms(2) by (intro mult_right_mono) auto
  finally have less: "carry + d * m < B * m" .
  then show "(carry + d * m) mod 2 ^ 32 = carry + d * m" using word by simp
  show "(carry + d * m) div B < m"
    using less base by (simp add: div_less_iff_less_mult mult.commute)
qed

text \<open>
  The invariant of the loop: \<open>lo\<close> are the digits already replaced, \<open>todo\<close> the old digits that are
  left, and the \<open>z\<close> cells before them are zero.
\<close>

lemma carry_loop_step:
  assumes "length pre = off" and "length lo = i" and "cap = i + 1 + length hi"
    and "carry < m" and "d < B" and "carry \<noteq> 0 \<or> i < used"
  shows "carry_loop get put B m off cap carry i used (pre @ hi @ put d # rev (map put lo)) =
    carry_loop get put B m off cap ((carry + d * m) div B) (i + 1) used
      (pre @ hi @ rev (map put (lo @ [(carry + d * m) mod B])))"
proof -
  have ix: "off + (cap - 1 - i) = length (pre @ hi)" and cap: "\<not> cap \<le> i" using assms by simp_all
  have r: "rd (pre @ hi @ put d # rev (map put lo)) (length (pre @ hi)) = Some (put d)"
    by (simp add: rd_def nth_append)
  have w: "wr (pre @ hi @ put d # rev (map put lo)) (length (pre @ hi)) x =
      Some (pre @ hi @ x # rev (map put lo))" for x
    by (simp add: wr_def list_update_append)
  show ?thesis
    using assms(6) cap carry_room(1) [OF assms(4,5)] get_put [OF assms(5)] r w
    by (subst carry_loop.simps, unfold ix) (simp add: Let_def)
qed

lemma carry_loop_correct:
  assumes "length pre = off" and "length lo = i" and "used - i = length todo"
    and "cap = i + length todo + z" and "carry < m" and "list_all (\<lambda>d. d < B) todo"
  shows "\<exists>j out'. length out' = off + cap \<and>
    carry_loop get put B m off cap carry i used (pre @ rev (map put (lo @ todo @ replicate z 0))) =
    (let new = mul_add B m todo carry in
     Some (if length new \<le> length todo + z
           then (True, i + length new,
                 pre @ rev (map put (lo @ new @ replicate (length todo + z - length new) 0)))
           else (False, j, out')))"
  using assms
proof (induction "length todo + z" arbitrary: lo i todo z carry)
  case 0
  then have "todo = []" and z: "z = 0" and "cap \<le> i" and "\<not> i < used" by auto
  with 0 base show ?case
    by (subst carry_loop.simps) (auto simp: mul_add_Nil le_digits_Nil_iff Let_def intro: Ex_list_of_length)
next
  case (Suc n)
  show ?case
  proof (cases "todo = [] \<and> carry = 0")
    case True
    with Suc.prems base show ?thesis
      by (subst carry_loop.simps) (auto simp: mul_add_Nil Let_def intro: Ex_list_of_length)
  next
    case False
    define d ds z' where "d = (case todo of [] \<Rightarrow> 0 | x # xs \<Rightarrow> x)"
      and "ds = tl todo" and "z' = (case todo of [] \<Rightarrow> z - 1 | x # xs \<Rightarrow> z)"
    let ?c = "(carry + d * m) div B" and ?e = "(carry + d * m) mod B"
    have todo: "todo @ replicate z 0 = d # ds @ replicate z' 0"
      using Suc.hyps(2) by (cases todo; cases z) (auto simp: d_def ds_def z'_def)
    have new: "mul_add B m todo carry = ?e # mul_add B m ds ?c"
      using False base by (cases todo) (auto simp: d_def ds_def mul_add.simps(2) [of B m carry])
    have n: "n = length ds + z'" and len: "length todo + z = Suc (length ds + z')"
      using Suc.hyps(2) by (cases todo; auto simp: ds_def z'_def)+
    have d: "d < B" and ds: "list_all (\<lambda>d. d < B) ds"
      using Suc.prems(6) base by (cases todo; auto simp: d_def ds_def)+
    have c: "?c < m" using carry_room(2) [OF Suc.prems(5) d] .
    have used: "used - (i + 1) = length ds" and go: "carry \<noteq> 0 \<or> i < used"
      using Suc.prems(3) False by (cases todo; auto simp: ds_def)+
    let ?hi = "rev (map put (ds @ replicate z' 0))"
    have "carry_loop get put B m off cap carry i used (pre @ rev (map put (lo @ todo @ replicate z 0))) =
        carry_loop get put B m off cap carry i used (pre @ ?hi @ put d # rev (map put lo))"
      unfolding todo by simp
    also have "\<dots> = carry_loop get put B m off cap ?c (i + 1) used
        (pre @ ?hi @ rev (map put (lo @ [?e])))"
      by (rule carry_loop_step) (use Suc.prems len d go in auto)
    also have "\<dots> = carry_loop get put B m off cap ?c (i + 1) used
        (pre @ rev (map put ((lo @ [?e]) @ ds @ replicate z' 0)))"
      by simp
    finally have step: "carry_loop get put B m off cap carry i used
        (pre @ rev (map put (lo @ todo @ replicate z 0))) =
      carry_loop get put B m off cap ?c (i + 1) used
        (pre @ rev (map put ((lo @ [?e]) @ ds @ replicate z' 0)))" .
    from Suc.hyps(1) [OF n, of "lo @ [?e]" "i + 1" ?c] Suc.prems(1,2,4) used c ds len
    obtain j out' where "length out' = off + cap" and
      "carry_loop get put B m off cap ?c (i + 1) used
          (pre @ rev (map put ((lo @ [?e]) @ ds @ replicate z' 0))) =
       (let new = mul_add B m ds ?c in
        Some (if length new \<le> length ds + z'
              then (True, i + 1 + length new,
                    pre @ rev (map put ((lo @ [?e]) @ new @ replicate (length ds + z' - length new) 0)))
              else (False, j, out')))" by auto
    then show ?thesis
      unfolding step new len by (intro exI [of _ j] exI [of _ out']) (simp add: Let_def)
  qed
qed

lemma carry_loop_number:
  assumes "n < B ^ cap" and "c < m" and "length pre = off"
  shows "\<exists>j out'. length out' = off + cap \<and>
    carry_loop get put B m off cap c 0 (length (le_digits B n)) (number_cells put B pre cap n) =
    Some (if n * m + c < B ^ cap
          then (True, length (le_digits B (n * m + c)), number_cells put B pre cap (n * m + c))
          else (False, j, out'))"
proof -
  have len: "length (le_digits B n) \<le> cap" using assms(1) base by (simp add: length_digits_le_iff)
  have all: "list_all (\<lambda>d. d < B) (le_digits B n)"
    using canonical_digits [OF base, of n] by (simp add: canonical_def)
  let ?new = "le_digits B (n * m + c)" and ?cells = "number_cells put B pre cap"
  obtain j out' where "length out' = off + cap" and
    "carry_loop get put B m off cap c 0 (length (le_digits B n)) (?cells n) =
     Some (if length ?new \<le> cap then (True, length ?new, ?cells (n * m + c)) else (False, j, out'))"
    using carry_loop_correct [of pre off "[]" 0 "length (le_digits B n)" "le_digits B n" cap
        "cap - length (le_digits B n)" c] assms(2,3) len all mul_add_digits [OF base mult, of n c]
    by (auto simp: Let_def number_cells_def simp del: map_append rev_append cong: if_cong)
  then show ?thesis
    unfolding length_digits_le_iff [OF base] by blast
qed

end

end
