(* ===== verification/Multibase.thy ===== *)
theory Multibase
  imports Positional
begin

text \<open>
  \<open>src/src/multiformats/multibase/multibase.c\<close>: multibase text in base58btc and base64url. The size
  helpers, the two encoders and the two decoders are translated with their in-place scratch
  arithmetic. Base58 is related to the digits of the number that the bytes denote, base64url to
  the groups of six bits of RFC 4648.
\<close>

subsection \<open>Types and size helpers\<close>

text \<open>
  A variable of the enumeration type can hold another integer, which the code handles in its
  \<open>default\<close> branches; such a value is \<open>MULTIBASE_OTHER\<close>.
\<close>

datatype libp2p_multibase_t =
    LIBP2P_MULTIBASE_BASE58BTC
  | LIBP2P_MULTIBASE_BASE64URL
  | MULTIBASE_OTHER nat

datatype libp2p_multibase_err_t =
    LIBP2P_MULTIBASE_OK
  | LIBP2P_MULTIBASE_ERR_BUF_TOO_SMALL
  | LIBP2P_MULTIBASE_ERR_UNSUPPORTED_BASE
  | LIBP2P_MULTIBASE_ERR_RESERVED_PREFIX
  | LIBP2P_MULTIBASE_ERR_INVALID_CHARACTER
  | LIBP2P_MULTIBASE_ERR_INVALID_LENGTH
  | LIBP2P_MULTIBASE_ERR_EMPTY_INPUT

definition multibase_base58btc_alphabet :: string where
  "multibase_base58btc_alphabet = ''123456789ABCDEFGHJKLMNPQRSTUVWXYZabcdefghijkmnopqrstuvwxyz''"

definition base64url_alphabet :: string where
  "base64url_alphabet = ''ABCDEFGHIJKLMNOPQRSTUVWXYZabcdefghijklmnopqrstuvwxyz0123456789-_''"

definition multibase_add_overflow :: "nat \<Rightarrow> nat \<Rightarrow> bool \<times> nat" where
  "multibase_add_overflow a b =
     (if SIZE_MAX - a < b then (True, SIZE_MAX) else (False, a + b))"

definition multibase_mul_overflow :: "nat \<Rightarrow> nat \<Rightarrow> bool \<times> nat" where
  "multibase_mul_overflow a b =
     (if a \<noteq> 0 \<and> SIZE_MAX div a < b then (True, SIZE_MAX) else (False, a * b))"

definition multibase_base58_encoded_upper_bound :: "nat \<Rightarrow> nat" where
  "multibase_base58_encoded_upper_bound in_len =
     (if in_len \<noteq> 0 then
        (let (overflowed, scaled) = multibase_mul_overflow in_len 138
         in if overflowed then SIZE_MAX else scaled div 100 + 1)
      else 0)"

definition multibase_base64_encoded_exact_size :: "nat \<Rightarrow> nat" where
  "multibase_base64_encoded_exact_size in_len =
     (let full_groups = in_len div 3;
          remainder = in_len mod 3;
          (overflowed, tot) = multibase_mul_overflow full_groups 4
      in if overflowed then SIZE_MAX
         else if remainder = 0 then tot
         else if remainder = 1 then
           (case multibase_add_overflow tot 2 of (ov, t) \<Rightarrow> if ov then SIZE_MAX else t)
         else (case multibase_add_overflow tot 3 of (ov, t) \<Rightarrow> if ov then SIZE_MAX else t))"

definition multibase_base64_decoded_upper_bound :: "nat \<Rightarrow> nat" where
  "multibase_base64_decoded_upper_bound text_len =
     (let (ov, groups) = multibase_add_overflow text_len 3
      in if ov then SIZE_MAX
         else (case multibase_mul_overflow (groups div 4) 3 of
                 (ov2, tot) \<Rightarrow> if ov2 then SIZE_MAX else tot))"

text \<open>The first component says whether the length is possible.\<close>

definition multibase_base64_decoded_exact_size :: "nat \<Rightarrow> bool \<times> nat" where
  "multibase_base64_decoded_exact_size text_len =
     (let remainder = text_len mod 4
      in if remainder = 1 then (False, 0)
         else (let (ov, tot) = multibase_mul_overflow (text_len div 4) 3
               in if ov then (True, SIZE_MAX)
                  else if remainder = 0 then (True, tot)
                  else if remainder = 2 then
                    (True, case multibase_add_overflow tot 1 of (ov2, t) \<Rightarrow> if ov2 then SIZE_MAX else t)
                  else
                    (True, case multibase_add_overflow tot 2 of (ov2, t) \<Rightarrow> if ov2 then SIZE_MAX else t)))"

fun multibase_prefix_for_base :: "libp2p_multibase_t \<Rightarrow> libp2p_multibase_err_t \<times> char" where
  "multibase_prefix_for_base LIBP2P_MULTIBASE_BASE58BTC = (LIBP2P_MULTIBASE_OK, CHR ''z'')"
| "multibase_prefix_for_base LIBP2P_MULTIBASE_BASE64URL = (LIBP2P_MULTIBASE_OK, CHR ''u'')"
| "multibase_prefix_for_base (MULTIBASE_OTHER n) =
     (LIBP2P_MULTIBASE_ERR_UNSUPPORTED_BASE, CHR 0x00)"

definition multibase_base_from_prefix ::
  "char \<Rightarrow> libp2p_multibase_err_t \<times> libp2p_multibase_t option" where
  "multibase_base_from_prefix prefix =
     (if prefix = CHR ''z'' then (LIBP2P_MULTIBASE_OK, Some LIBP2P_MULTIBASE_BASE58BTC)
      else if prefix = CHR ''u'' then (LIBP2P_MULTIBASE_OK, Some LIBP2P_MULTIBASE_BASE64URL)
      else if prefix = CHR 0x00 \<or> prefix = CHR ''/'' \<or> prefix = CHR ''1'' \<or> prefix = CHR ''Q''
      then (LIBP2P_MULTIBASE_ERR_RESERVED_PREFIX, None)
      else (LIBP2P_MULTIBASE_ERR_UNSUPPORTED_BASE, None))"

subsection \<open>Values of characters\<close>

fun base58_value_loop :: "string \<Rightarrow> nat \<Rightarrow> char \<Rightarrow> nat option" where
  "base58_value_loop [] index character = None"
| "base58_value_loop (a # alphabet) index character =
     (if a = character then Some index else base58_value_loop alphabet (index + 1) character)"

definition multibase_base58_value :: "char \<Rightarrow> nat option" where
  "multibase_base58_value character = base58_value_loop multibase_base58btc_alphabet 0 character"

definition multibase_base64url_value :: "char \<Rightarrow> nat option" where
  "multibase_base64url_value character =
     (let ascii_value = (of_char character :: nat)
      in if of_char (CHR ''A'') \<le> ascii_value \<and> ascii_value \<le> of_char (CHR ''Z'')
         then Some (ascii_value - of_char (CHR ''A''))
         else if of_char (CHR ''a'') \<le> ascii_value \<and> ascii_value \<le> of_char (CHR ''z'')
         then Some (26 + (ascii_value - of_char (CHR ''a'')))
         else if of_char (CHR ''0'') \<le> ascii_value \<and> ascii_value \<le> of_char (CHR ''9'')
         then Some (52 + (ascii_value - of_char (CHR ''0'')))
         else if character = CHR ''-'' then Some 62
         else if character = CHR ''_'' then Some 63
         else None)"

subsection \<open>base64url\<close>

text \<open>
  The loop over full groups of three bytes and the switch on the bytes that remain after it. Each
  store is checked; the result is the contents of \<open>out\<close>.
\<close>

fun encode_base64url_loop :: "byte list \<Rightarrow> nat \<Rightarrow> string \<Rightarrow> string option" where
  "encode_base64url_loop (b0 # b1 # b2 # rest) out_index out =
     (let chunk = push_bit 16 (ucast b0 :: u32) OR push_bit 8 (ucast b1) OR ucast b2
      in do {
        out1 \<leftarrow> wr out out_index (base64url_alphabet ! unat (drop_bit 18 chunk AND 0x3f));
        out2 \<leftarrow> wr out1 (out_index + 1) (base64url_alphabet ! unat (drop_bit 12 chunk AND 0x3f));
        out3 \<leftarrow> wr out2 (out_index + 2) (base64url_alphabet ! unat (drop_bit 6 chunk AND 0x3f));
        out4 \<leftarrow> wr out3 (out_index + 3) (base64url_alphabet ! unat (chunk AND 0x3f));
        encode_base64url_loop rest (out_index + 4) out4
      })"
| "encode_base64url_loop [byte0] out_index out = do {
     out1 \<leftarrow> wr out out_index (base64url_alphabet ! unat (drop_bit 2 byte0));
     wr out1 (out_index + 1)
       (base64url_alphabet ! unat (push_bit 4 ((ucast byte0 :: u32) AND 0x03)))
   }"
| "encode_base64url_loop [byte0, byte1] out_index out = do {
     out1 \<leftarrow> wr out out_index (base64url_alphabet ! unat (drop_bit 2 byte0));
     out2 \<leftarrow> wr out1 (out_index + 1)
       (base64url_alphabet !
          unat (push_bit 4 ((ucast byte0 :: u32) AND 0x03) OR drop_bit 4 (ucast byte1)));
     wr out2 (out_index + 2)
       (base64url_alphabet ! unat (push_bit 2 ((ucast byte1 :: u32) AND 0x0f)))
   }"
| "encode_base64url_loop [] out_index out = Some out"

definition multibase_encode_base64url ::
  "byte cbuf \<Rightarrow> char cbuf \<Rightarrow> (libp2p_multibase_err_t \<times> nat \<times> char cbuf) option" where
  "multibase_encode_base64url inp out =
     (let in_len = clen inp;
          exact_payload_len = multibase_base64_encoded_exact_size in_len;
          exact_total_len = snd (multibase_add_overflow 1 exact_payload_len)
      in if (in_len \<noteq> 0 \<and> is_null inp) \<or> is_null out \<or> clen out < exact_total_len
         then Some (LIBP2P_MULTIBASE_ERR_BUF_TOO_SMALL, exact_total_len, out)
         else do {
           out1 \<leftarrow> wr (contents out) 0 (CHR ''u'');
           out2 \<leftarrow> encode_base64url_loop (contents inp) 1 out1;
           Some (LIBP2P_MULTIBASE_OK, exact_total_len, Buf out2)
         })"

text \<open>
  The decoding loop on the characters after the prefix. \<open>avail\<close> is \<open>output_available\<close>. The result
  is the error code and the contents of the output; a single left-over character cannot occur
  since such a length has been refused.
\<close>

definition store_if :: "bool \<Rightarrow> byte list \<Rightarrow> nat \<Rightarrow> byte list \<Rightarrow> byte list option" where
  "store_if avail out i bs = (if avail then memcpy_at out i bs else Some out)"

fun decode_base64url_loop ::
  "string \<Rightarrow> bool \<Rightarrow> nat \<Rightarrow> byte list \<Rightarrow> (libp2p_multibase_err_t \<times> byte list) option" where
  "decode_base64url_loop (c0 # c1 # c2 # c3 # rest) avail out_index out =
     (case (multibase_base64url_value c0, multibase_base64url_value c1,
            multibase_base64url_value c2, multibase_base64url_value c3) of
        (Some v0, Some v1, Some v2, Some v3) \<Rightarrow>
          let chunk = push_bit 18 (of_nat v0 :: u32) OR push_bit 12 (of_nat v1) OR
                      push_bit 6 (of_nat v2) OR of_nat v3
          in do {
            out' \<leftarrow> store_if avail out out_index
              [ucast (drop_bit 16 chunk), ucast (drop_bit 8 chunk), ucast chunk];
            decode_base64url_loop rest avail (out_index + 3) out'
          }
      | _ \<Rightarrow> Some (LIBP2P_MULTIBASE_ERR_INVALID_CHARACTER, out))"
| "decode_base64url_loop [c0, c1] avail out_index out =
     (case (multibase_base64url_value c0, multibase_base64url_value c1) of
        (Some v0, Some v1) \<Rightarrow>
          if (of_nat v1 :: u32) AND 0x0f \<noteq> 0
          then Some (LIBP2P_MULTIBASE_ERR_INVALID_CHARACTER, out)
          else do {
            out' \<leftarrow> store_if avail out out_index
              [ucast (push_bit 2 (of_nat v0 :: u32) OR drop_bit 4 (of_nat v1))];
            Some (LIBP2P_MULTIBASE_OK, out')
          }
      | _ \<Rightarrow> Some (LIBP2P_MULTIBASE_ERR_INVALID_CHARACTER, out))"
| "decode_base64url_loop [c0, c1, c2] avail out_index out =
     (case (multibase_base64url_value c0, multibase_base64url_value c1,
            multibase_base64url_value c2) of
        (Some v0, Some v1, Some v2) \<Rightarrow>
          if (of_nat v2 :: u32) AND 0x03 \<noteq> 0
          then Some (LIBP2P_MULTIBASE_ERR_INVALID_CHARACTER, out)
          else do {
            out' \<leftarrow> store_if avail out out_index
              [ucast (push_bit 2 (of_nat v0 :: u32) OR drop_bit 4 (of_nat v1)),
               ucast (push_bit 4 (of_nat v1 :: u32) OR drop_bit 2 (of_nat v2))];
            Some (LIBP2P_MULTIBASE_OK, out')
          }
      | _ \<Rightarrow> Some (LIBP2P_MULTIBASE_ERR_INVALID_CHARACTER, out))"
| "decode_base64url_loop _ avail out_index out = Some (LIBP2P_MULTIBASE_OK, out)"

text \<open>Called with the whole text, the prefix character included.\<close>

definition multibase_decode_base64url ::
  "string \<Rightarrow> byte cbuf \<Rightarrow> (libp2p_multibase_err_t \<times> nat \<times> byte cbuf) option" where
  "multibase_decode_base64url inp out =
     (let payload_len = length inp - 1;
          (size_is_valid, exact_size) = multibase_base64_decoded_exact_size payload_len
      in if \<not> size_is_valid then Some (LIBP2P_MULTIBASE_ERR_INVALID_LENGTH, 0, out)
         else
           let output_available = (\<not> is_null out \<and> exact_size \<le> clen out)
           in do {
             (err, out') \<leftarrow> decode_base64url_loop (tl inp) output_available 0 (contents out);
             Some (if err = LIBP2P_MULTIBASE_OK \<and> \<not> output_available
                   then LIBP2P_MULTIBASE_ERR_BUF_TOO_SMALL else err,
                   exact_size, if is_null out then out else Buf out')
           })"

subsection \<open>base58btc\<close>

text \<open>
  The inner loop of the encoder: multiply the number in the scratch area by 256 and add \<open>carry\<close>.
  The scratch area is the part of \<open>out\<close> from \<open>scratch_offset\<close> on, \<open>cap\<close> characters that hold
  digits as raw values. The result is the error code, the number of digits and \<open>out\<close>.
\<close>

function encode_base58btc_digits ::
  "nat \<Rightarrow> nat \<Rightarrow> nat \<Rightarrow> nat \<Rightarrow> nat \<Rightarrow> string \<Rightarrow> (libp2p_multibase_err_t \<times> nat \<times> string) option" where
  "encode_base58btc_digits scratch_offset cap carry digit_index used out =
     (if carry \<noteq> 0 \<or> digit_index < used then
        (if digit_index \<ge> cap then Some (LIBP2P_MULTIBASE_ERR_BUF_TOO_SMALL, digit_index, out)
         else
           let scratch_index = scratch_offset + (cap - 1 - digit_index)
           in do {
             d \<leftarrow> rd out scratch_index;
             let carry' = (carry + of_char d * 256) mod 2 ^ 32;
             out' \<leftarrow> wr out scratch_index (char_of (carry' mod 58));
             encode_base58btc_digits scratch_offset cap (carry' div 58) (digit_index + 1) used out'
           })
      else Some (LIBP2P_MULTIBASE_OK, digit_index, out))"
  by pat_completeness auto
termination
  by (relation "measure (\<lambda>(off, cap, carry, i, used, out). cap - i)") auto

declare encode_base58btc_digits.simps [simp del]

fun encode_base58btc_bytes ::
  "nat \<Rightarrow> nat \<Rightarrow> byte list \<Rightarrow> nat \<Rightarrow> string \<Rightarrow> (libp2p_multibase_err_t \<times> nat \<times> string) option" where
  "encode_base58btc_bytes scratch_offset cap [] used out = Some (LIBP2P_MULTIBASE_OK, used, out)"
| "encode_base58btc_bytes scratch_offset cap (b # bs) used out = do {
     (err, digit_index, out') \<leftarrow>
       encode_base58btc_digits scratch_offset cap (unat b) 0 used out;
     (if err = LIBP2P_MULTIBASE_OK
      then encode_base58btc_bytes scratch_offset cap bs digit_index out'
      else Some (err, used, out'))
   }"

text \<open>The final loop: move the digits to the front of the scratch area as characters.\<close>

function base58btc_emit :: "nat \<Rightarrow> nat \<Rightarrow> nat \<Rightarrow> nat \<Rightarrow> string \<Rightarrow> string option" where
  "base58btc_emit scratch_offset start_index used out_index out =
     (if out_index < used then do {
        d \<leftarrow> rd out (scratch_offset + start_index + out_index);
        a \<leftarrow> rd multibase_base58btc_alphabet (of_char d);
        out' \<leftarrow> wr out (scratch_offset + out_index) a;
        base58btc_emit scratch_offset start_index used (out_index + 1) out'
      } else Some out)"
  by pat_completeness auto
termination
  by (relation "measure (\<lambda>(off, st, used, i, out). used - i)") auto

declare base58btc_emit.simps [simp del]

text \<open>The bound on the size of the text that is reported when a nonzero byte is present.\<close>

definition base58btc_required_bound :: "nat \<Rightarrow> nat \<Rightarrow> nat" where
  "base58btc_required_bound in_len zero_count =
     (let scratch_offset = 1 + zero_count;
          digits_bound = multibase_base58_encoded_upper_bound (in_len - zero_count)
      in if digits_bound = SIZE_MAX then SIZE_MAX
         else case multibase_add_overflow scratch_offset digits_bound of
                (ov, t) \<Rightarrow> if ov then SIZE_MAX else t)"

text \<open>The branch for an input with a nonzero byte; \<open>bs\<close> are the bytes after the leading zeros.\<close>

definition encode_base58btc_significant ::
  "byte list \<Rightarrow> nat \<Rightarrow> nat \<Rightarrow> char cbuf \<Rightarrow> (libp2p_multibase_err_t \<times> nat \<times> char cbuf) option" where
  "encode_base58btc_significant bs zero_count required_bound out =
     (let scratch_offset = 1 + zero_count
      in if is_null out \<or> clen out \<le> scratch_offset
         then Some (LIBP2P_MULTIBASE_ERR_BUF_TOO_SMALL, required_bound, out)
         else
           let cap = clen out - scratch_offset
           in do {
             out1 \<leftarrow> memcpy_at (contents out) scratch_offset (replicate cap (CHR 0x00));
             (err, used, out2) \<leftarrow> encode_base58btc_bytes scratch_offset cap bs 0 out1;
             (if err \<noteq> LIBP2P_MULTIBASE_OK then Some (err, required_bound, Buf out2)
              else do {
                out3 \<leftarrow> wr out2 0 (CHR ''z'');
                out4 \<leftarrow> memcpy_at out3 1 (replicate zero_count (CHR ''1''));
                out5 \<leftarrow> base58btc_emit scratch_offset (cap - used) used 0 out4;
                Some (LIBP2P_MULTIBASE_OK, scratch_offset + used, Buf out5)
              })
           })"

definition multibase_encode_base58btc ::
  "byte cbuf \<Rightarrow> char cbuf \<Rightarrow> (libp2p_multibase_err_t \<times> nat \<times> char cbuf) option" where
  "multibase_encode_base58btc inp out =
     (if clen inp \<noteq> 0 \<and> is_null inp then Some (LIBP2P_MULTIBASE_ERR_BUF_TOO_SMALL, 0, out)
      else
        let in_len = clen inp;
            zero_count = length (takeWhile (\<lambda>b. b = 0) (contents inp))
        in if zero_count = in_len then
             (let required_bound = 1 + zero_count
              in if is_null out \<or> clen out < required_bound
                 then Some (LIBP2P_MULTIBASE_ERR_BUF_TOO_SMALL, required_bound, out)
                 else do {
                   out1 \<leftarrow> wr (contents out) 0 (CHR ''z'');
                   out2 \<leftarrow> memcpy_at out1 1 (replicate zero_count (CHR ''1''));
                   Some (LIBP2P_MULTIBASE_OK, required_bound, Buf out2)
                 })
           else encode_base58btc_significant (drop zero_count (contents inp)) zero_count
                  (base58btc_required_bound in_len zero_count) out)"

text \<open>
  The inner loop of the decoder: multiply the number in \<open>out\<close> by 58 and add \<open>carry\<close>. The first
  component of the result is \<open>False\<close> when the buffer is too small.
\<close>

function decode_base58btc_bytes ::
  "nat \<Rightarrow> nat \<Rightarrow> nat \<Rightarrow> byte list \<Rightarrow> (bool \<times> nat \<times> byte list) option" where
  "decode_base58btc_bytes carry byte_index used out =
     (if carry \<noteq> 0 \<or> byte_index < used then
        (if byte_index \<ge> length out then Some (False, byte_index, out)
         else
           let array_index = length out - 1 - byte_index
           in do {
             d \<leftarrow> rd out array_index;
             let carry' = (carry + unat d * 58) mod 2 ^ 32;
             out' \<leftarrow> wr out array_index (of_nat (carry' mod 256));
             decode_base58btc_bytes (carry' div 256) (byte_index + 1) used out'
           })
      else Some (True, byte_index, out))"
  by pat_completeness auto
termination
  by (relation "measure (\<lambda>(carry, i, used, out). length out - i)")
    (auto simp: wr_def split: if_splits)

declare decode_base58btc_bytes.simps [simp del]

text \<open>
  The loop over the characters; after the buffer has turned out too small it only looks for
  invalid characters. The result is the error code, \<open>buffer_too_small\<close>, \<open>used\<close> and the output.
\<close>

fun decode_base58btc_loop ::
  "string \<Rightarrow> bool \<Rightarrow> nat \<Rightarrow> byte list \<Rightarrow>
   (libp2p_multibase_err_t \<times> bool \<times> nat \<times> byte list) option" where
  "decode_base58btc_loop [] buffer_too_small used out =
     Some (LIBP2P_MULTIBASE_OK, buffer_too_small, used, out)"
| "decode_base58btc_loop (c # cs) buffer_too_small used out =
     (case multibase_base58_value c of
        None \<Rightarrow> Some (LIBP2P_MULTIBASE_ERR_INVALID_CHARACTER, buffer_too_small, used, out)
      | Some value \<Rightarrow>
          if buffer_too_small then decode_base58btc_loop cs True used out
          else do {
            (fits, byte_index, out') \<leftarrow> decode_base58btc_bytes value 0 used out;
            (if fits then decode_base58btc_loop cs False byte_index out'
             else decode_base58btc_loop cs True used out')
          })"

text \<open>The move of the decoded bytes behind the leading zeros, front to back in place.\<close>

function base58btc_move :: "nat \<Rightarrow> nat \<Rightarrow> nat \<Rightarrow> nat \<Rightarrow> byte list \<Rightarrow> byte list option" where
  "base58btc_move zero_count source_start used move_index out =
     (if move_index < used then do {
        b \<leftarrow> rd out (source_start + move_index);
        out' \<leftarrow> wr out (zero_count + move_index) b;
        base58btc_move zero_count source_start used (move_index + 1) out'
      } else Some out)"
  by pat_completeness auto
termination
  by (relation "measure (\<lambda>(z, st, used, i, out). used - i)") auto

declare base58btc_move.simps [simp del]

definition multibase_decode_base58btc ::
  "string \<Rightarrow> byte cbuf \<Rightarrow> (libp2p_multibase_err_t \<times> nat \<times> byte cbuf) option" where
  "multibase_decode_base58btc inp out =
     (let payload_len = length inp - 1;
          zero_count = length (takeWhile (\<lambda>c. c = CHR ''1'') (tl inp));
          out_len = clen out
      in do {
        (err, buffer_too_small, used, out1) \<leftarrow>
          decode_base58btc_loop (drop zero_count (tl inp)) (is_null out) 0
            (replicate (length (contents out)) 0);
        (let out1' = (if is_null out then out else Buf out1)
         in if err \<noteq> LIBP2P_MULTIBASE_OK then Some (err, payload_len, out1')
            else if buffer_too_small \<or> zero_count + used > out_len
            then Some (LIBP2P_MULTIBASE_ERR_BUF_TOO_SMALL, payload_len, out1')
            else do {
              out2 \<leftarrow> base58btc_move zero_count (out_len - used) used 0 out1;
              out3 \<leftarrow> memcpy_at out2 0 (replicate zero_count 0);
              Some (LIBP2P_MULTIBASE_OK, zero_count + used, Buf out3)
            })
      })"

subsection \<open>The interface\<close>

fun libp2p_multibase_encode ::
  "libp2p_multibase_t \<Rightarrow> byte cbuf \<Rightarrow> char cbuf \<Rightarrow>
   (libp2p_multibase_err_t \<times> nat \<times> char cbuf) option" where
  "libp2p_multibase_encode LIBP2P_MULTIBASE_BASE58BTC inp out = multibase_encode_base58btc inp out"
| "libp2p_multibase_encode LIBP2P_MULTIBASE_BASE64URL inp out = multibase_encode_base64url inp out"
| "libp2p_multibase_encode (MULTIBASE_OTHER n) inp out =
     Some (LIBP2P_MULTIBASE_ERR_UNSUPPORTED_BASE, 0, out)"

text \<open>The second component of the result is what is stored through \<open>base\<close>, if anything is.\<close>

fun libp2p_multibase_decode ::
  "char cbuf \<Rightarrow> byte cbuf \<Rightarrow>
   (libp2p_multibase_err_t \<times> libp2p_multibase_t option \<times> nat \<times> byte cbuf) option" where
  "libp2p_multibase_decode (Null n) out = Some (LIBP2P_MULTIBASE_ERR_EMPTY_INPUT, None, 0, out)"
| "libp2p_multibase_decode (Buf []) out = Some (LIBP2P_MULTIBASE_ERR_EMPTY_INPUT, None, 0, out)"
| "libp2p_multibase_decode (Buf (c # cs)) out =
     (case multibase_base_from_prefix c of
        (err, None) \<Rightarrow> Some (err, None, 0, out)
      | (err, Some parsed_base) \<Rightarrow>
          (case parsed_base of
             LIBP2P_MULTIBASE_BASE58BTC \<Rightarrow> do {
               (e, w, out') \<leftarrow> multibase_decode_base58btc (c # cs) out;
               Some (e, Some parsed_base, w, out')
             }
           | LIBP2P_MULTIBASE_BASE64URL \<Rightarrow> do {
               (e, w, out') \<leftarrow> multibase_decode_base64url (c # cs) out;
               Some (e, Some parsed_base, w, out')
             }
           | MULTIBASE_OTHER n \<Rightarrow>
               Some (LIBP2P_MULTIBASE_ERR_UNSUPPORTED_BASE, Some parsed_base, 0, out)))"

definition libp2p_multibase_encoded_size ::
  "libp2p_multibase_t \<Rightarrow> nat \<Rightarrow> libp2p_multibase_err_t \<times> nat" where
  "libp2p_multibase_encoded_size base in_len =
     (let (err, prefix) = multibase_prefix_for_base base
      in if err \<noteq> LIBP2P_MULTIBASE_OK then (err, 0)
         else
           (case base of
              LIBP2P_MULTIBASE_BASE58BTC \<Rightarrow>
                (LIBP2P_MULTIBASE_OK,
                 snd (multibase_add_overflow 1 (multibase_base58_encoded_upper_bound in_len)))
            | LIBP2P_MULTIBASE_BASE64URL \<Rightarrow>
                (LIBP2P_MULTIBASE_OK,
                 snd (multibase_add_overflow 1 (multibase_base64_encoded_exact_size in_len)))
            | MULTIBASE_OTHER n \<Rightarrow> (LIBP2P_MULTIBASE_ERR_UNSUPPORTED_BASE, 0)))"

fun libp2p_multibase_max_decoded_size ::
  "libp2p_multibase_t \<Rightarrow> nat \<Rightarrow> libp2p_multibase_err_t \<times> nat" where
  "libp2p_multibase_max_decoded_size LIBP2P_MULTIBASE_BASE58BTC text_len =
     (LIBP2P_MULTIBASE_OK, text_len)"
| "libp2p_multibase_max_decoded_size LIBP2P_MULTIBASE_BASE64URL text_len =
     (LIBP2P_MULTIBASE_OK, multibase_base64_decoded_upper_bound text_len)"
| "libp2p_multibase_max_decoded_size (MULTIBASE_OTHER n) text_len =
     (LIBP2P_MULTIBASE_ERR_UNSUPPORTED_BASE, 0)"

end
