(* ===== verification/Multibase_Base58.thy ===== *)
theory Multibase_Base58
  imports Multibase
begin

text \<open>
  Correctness of the base58btc half of \<open>src/src/multiformats/multibase/multibase.c\<close>. The reference
  definitions are \<open>base58_text\<close> (leading zero bytes as \<open>1\<close>, then the base-58 digits of the number
  that the bytes denote) and \<open>base58_bytes\<close>, its inverse; the in-place scratch arithmetic is
  related to them through the \<open>digit_cells\<close> interface.
\<close>

subsection \<open>Reference definitions\<close>

definition base58_text :: "byte list \<Rightarrow> string" where
  "base58_text bs =
     replicate (length (takeWhile (\<lambda>b. b = 0) bs)) (CHR ''1'') @
     map (\<lambda>d. multibase_base58btc_alphabet ! d) (rev (le_digits 58 (be_fold 256 0 (map unat bs))))"

definition base58_valid :: "string \<Rightarrow> bool" where
  "base58_valid t \<longleftrightarrow> list_all (\<lambda>c. multibase_base58_value c \<noteq> None) t"

definition base58_bytes :: "string \<Rightarrow> byte list" where
  "base58_bytes t =
     replicate (length (takeWhile (\<lambda>c. c = CHR ''1'') t)) 0 @
     rev (map of_nat (le_digits 256 (be_fold 58 0 (map (\<lambda>c. the (multibase_base58_value c)) t))))"

subsection \<open>The alphabet\<close>

lemma length_base58_alphabet [simp]: "length multibase_base58btc_alphabet = 58"
  by (simp add: multibase_base58btc_alphabet_def)

lemma distinct_base58_alphabet: "distinct multibase_base58btc_alphabet"
  by (simp add: multibase_base58btc_alphabet_def)

lemma base58_value_loop_iff:
  "distinct al \<Longrightarrow> base58_value_loop al k c = Some v \<longleftrightarrow> (\<exists>i<length al. v = k + i \<and> al ! i = c)"
proof (induction al k c rule: base58_value_loop.induct)
  case (2 a al k c)
  have "(\<exists>i<length (a # al). v = k + i \<and> (a # al) ! i = c) \<longleftrightarrow>
      v = k \<and> a = c \<or> (\<exists>i<length al. v = k + 1 + i \<and> al ! i = c)"
    by (simp add: Ex_less_Suc2)
  moreover have "a = c \<Longrightarrow> \<not> (\<exists>i<length al. al ! i = c)"
    using 2(2) by (auto simp: in_set_conv_nth)
  ultimately show ?case
    using 2 by (cases "a = c") auto
qed simp

lemma base58_value_iff:
  "multibase_base58_value c = Some v \<longleftrightarrow> v < 58 \<and> multibase_base58btc_alphabet ! v = c"
  using base58_value_loop_iff [OF distinct_base58_alphabet, of 0 c v]
  by (auto simp: multibase_base58_value_def)

lemma base58_value_nth [simp]:
  "d < 58 \<Longrightarrow> multibase_base58_value (multibase_base58btc_alphabet ! d) = Some d"
  by (simp add: base58_value_iff)

lemma base58_alphabet_one: "d < 58 \<Longrightarrow> multibase_base58btc_alphabet ! d = CHR ''1'' \<longleftrightarrow> d = 0"
  using nth_eq_iff_index_eq [OF distinct_base58_alphabet, of d 0]
  by (simp add: multibase_base58btc_alphabet_def)

lemma base58_value_one [simp]: "multibase_base58_value (CHR ''1'') = Some 0"
  using base58_alphabet_one [of 0] by (simp add: base58_value_iff)

subsection \<open>The encoder's scratch arithmetic\<close>

interpretation enc58: digit_cells "of_char :: char \<Rightarrow> nat" char_of 58 256
  by unfold_locales simp_all

interpretation dec58: digit_cells "unat :: byte \<Rightarrow> nat" of_nat 256 58
  by unfold_locales (simp_all add: unat_of_nat)

lemma encode_digits_carry_loop:
  "encode_base58btc_digits off cap carry i used out =
   map_option (\<lambda>(fits, j, out'). (if fits then LIBP2P_MULTIBASE_OK
       else LIBP2P_MULTIBASE_ERR_BUF_TOO_SMALL, j, out'))
     (carry_loop of_char char_of 58 256 off cap carry i used out)"
proof (induction off cap carry i used out rule: encode_base58btc_digits.induct)
  case (1 off cap carry i used out)
  show ?case
  proof (cases "(carry \<noteq> 0 \<or> i < used) \<and> \<not> cap \<le> i")
    case True
    note IH = 1 [OF _ _ refl _ refl, simplified]
    from True show ?thesis
      by (subst encode_base58btc_digits.simps, subst carry_loop.simps)
        (simp add: Let_def map_option_bind comp_def, auto intro!: bind_option_cong IH)
  next
    case False
    then show ?thesis
      by (subst encode_base58btc_digits.simps, subst carry_loop.simps) auto
  qed
qed

text \<open>One byte: the scratch area holds the digits of \<open>n\<close> before and of \<open>n * 256 + b\<close> after it.\<close>

lemma encode_digits_correct:
  assumes "n < 58 ^ cap" and "b < 256" and "length pre = off"
  shows "\<exists>j out'. length out' = off + cap \<and>
    encode_base58btc_digits off cap b 0 (length (le_digits 58 n)) (number_cells char_of 58 pre cap n) =
    Some (if n * 256 + b < 58 ^ cap
          then (LIBP2P_MULTIBASE_OK, length (le_digits 58 (n * 256 + b)),
                number_cells char_of 58 pre cap (n * 256 + b))
          else (LIBP2P_MULTIBASE_ERR_BUF_TOO_SMALL, j, out'))"
proof -
  from enc58.carry_loop_number [OF assms] obtain j out' where "length out' = off + cap" and
    "carry_loop of_char char_of 58 256 off cap b 0 (length (le_digits 58 n))
       (number_cells char_of 58 pre cap n) =
     Some (if n * 256 + b < 58 ^ cap then (True, length (le_digits 58 (n * 256 + b)),
             number_cells char_of 58 pre cap (n * 256 + b)) else (False, j, out'))" by blast
  then show ?thesis
    unfolding encode_digits_carry_loop by (intro exI [of _ j] exI [of _ out']) simp
qed

lemma encode_bytes_correct:
  assumes "length pre = off" and "n < 58 ^ cap"
  shows "\<exists>j out'. length out' = off + cap \<and>
    encode_base58btc_bytes off cap bs (length (le_digits 58 n)) (number_cells char_of 58 pre cap n) =
    (let N = be_fold 256 n (map unat bs) in
     Some (if N < 58 ^ cap
           then (LIBP2P_MULTIBASE_OK, length (le_digits 58 N), number_cells char_of 58 pre cap N)
           else (LIBP2P_MULTIBASE_ERR_BUF_TOO_SMALL, j, out')))"
  using assms(2)
proof (induction bs arbitrary: n)
  case Nil
  then show ?case using Ex_list_of_length by (auto simp: Let_def)
next
  case (Cons b bs)
  let ?n = "n * 256 + unat b" and ?N = "be_fold 256 n (map unat (b # bs))"
  from encode_digits_correct [OF Cons.prems byte_bound assms(1), of b] obtain j out' where
    len: "length out' = off + cap" and
    step: "encode_base58btc_digits off cap (unat b) 0 (length (le_digits 58 n))
       (number_cells char_of 58 pre cap n) =
     Some (if ?n < 58 ^ cap then (LIBP2P_MULTIBASE_OK, length (le_digits 58 ?n),
             number_cells char_of 58 pre cap ?n)
           else (LIBP2P_MULTIBASE_ERR_BUF_TOO_SMALL, j, out'))" by blast
  show ?case
  proof (cases "?n < 58 ^ cap")
    case True
    with step Cons.IH [OF True] show ?thesis by simp
  next
    case False
    moreover have "?n \<le> ?N" using be_fold_ge [of 256 ?n "map unat bs"] by simp
    ultimately have "\<not> ?N < 58 ^ cap" by linarith
    with False step len show ?thesis
      by (intro exI [of _ "length (le_digits 58 n)"] exI [of _ out']) (simp add: Let_def)
  qed
qed

lemma encode_bytes_ok:
  assumes "length pre = off" and "be_fold 256 0 (map unat bs) < 58 ^ cap"
  shows "encode_base58btc_bytes off cap bs 0 (number_cells char_of 58 pre cap 0) =
    Some (LIBP2P_MULTIBASE_OK, length (le_digits 58 (be_fold 256 0 (map unat bs))),
      number_cells char_of 58 pre cap (be_fold 256 0 (map unat bs)))"
  using encode_bytes_correct [OF assms(1), of 0 cap bs] assms(2) by (auto simp: Let_def)

lemma encode_bytes_short:
  assumes "length pre = off" and "\<not> be_fold 256 0 (map unat bs) < 58 ^ cap"
  shows "\<exists>j out'. length out' = off + cap \<and>
    encode_base58btc_bytes off cap bs 0 (number_cells char_of 58 pre cap 0) =
    Some (LIBP2P_MULTIBASE_ERR_BUF_TOO_SMALL, j, out')"
  using encode_bytes_correct [OF assms(1), of 0 cap bs] assms(2) by (simp add: Let_def)

subsection \<open>The encoder's last loop\<close>

lemma base58btc_emit_correct:
  assumes "length pre = off" and "length region = start + used" and "i \<le> used"
    and "list_all (\<lambda>c. of_char c < (58::nat)) (drop start region)"
  shows "base58btc_emit off start used i
      (pre @ map (\<lambda>c. multibase_base58btc_alphabet ! of_char c) (take i (drop start region)) @ drop i region) =
    Some (pre @ map (\<lambda>c. multibase_base58btc_alphabet ! of_char c) (drop start region) @ drop used region)"
  using assms(3)
proof (induction "used - i" arbitrary: i)
  case 0
  with assms(2) show ?case by (subst base58btc_emit.simps) simp
next
  case (Suc k)
  let ?al = "\<lambda>c. multibase_base58btc_alphabet ! of_char c" and ?D = "drop start region"
  let ?out = "\<lambda>i. pre @ map ?al (take i ?D) @ drop i region"
  have i: "i < used" and lD: "length ?D = used" using Suc(2) assms(2) by simp_all
  then have "i < length region" using assms(2) by simp
  have small: "of_char (?D ! i) < (58::nat)"
    using assms(4) i lD by (simp add: list_all_length)
  have "rd (?out i) (off + start + i) = Some (?D ! i)"
    using assms(1,2) i by (simp add: rd_def nth_append add.commute)
  moreover have "rd multibase_base58btc_alphabet (of_char (?D ! i)) = Some (?al (?D ! i))"
    using small by (simp add: rd_def)
  moreover have "wr (?out i) (off + i) (?al (?D ! i)) = Some (?out (i + 1))"
  proof -
    have "drop i region = region ! i # drop (Suc i) region"
      using \<open>i < length region\<close> by (simp add: Cons_nth_drop_Suc)
    moreover have "take (i + 1) ?D = take i ?D @ [?D ! i]"
      using i lD by (simp add: take_Suc_conv_app_nth)
    moreover have "length (pre @ map ?al (take i ?D)) = off + i"
      using assms(1) i lD by simp
    ultimately show ?thesis
      using wr_append [of "pre @ map ?al (take i ?D)" "off + i" "region ! i # drop (Suc i) region"]
      by simp
  qed
  moreover have "base58btc_emit off start used (i + 1) (?out (i + 1)) = Some (?out used)"
    using Suc(1) [of "i + 1"] Suc(2) i lD by simp
  ultimately show ?case
    using i lD by (subst base58btc_emit.simps) simp
qed

subsection \<open>The encoder\<close>

lemma leading_zeros_split:
  "bs = replicate (length (takeWhile (\<lambda>b. b = z) bs)) z @ drop (length (takeWhile (\<lambda>b. b = z) bs)) bs"
proof -
  have "takeWhile (\<lambda>b. b = z) bs = replicate (length (takeWhile (\<lambda>b. b = z) bs)) z"
    by (rule replicate_eqI) (auto dest: set_takeWhileD)
  then show ?thesis
    by (metis takeWhile_dropWhile_id dropWhile_eq_drop)
qed

lemma significant_value:
  "be_fold 256 0 (map unat (drop (length (takeWhile (\<lambda>b. b = 0) bs)) bs)) = be_fold 256 0 (map unat (bs :: byte list))"
  by (subst (3) leading_zeros_split [of bs 0]) simp

lemma all_zero_value: "length (takeWhile (\<lambda>b. b = 0) bs) = length bs \<Longrightarrow> be_fold 256 0 (map unat (bs :: byte list)) = 0"
  using significant_value [of bs] by simp

lemma nonzero_value:
  assumes "length (takeWhile (\<lambda>b. b = 0) bs) \<noteq> length (bs :: byte list)"
  shows "0 < be_fold 256 0 (map unat bs)"
proof -
  let ?z = "length (takeWhile (\<lambda>b. b = 0) bs)"
  have lt: "?z < length bs" using assms length_takeWhile_le le_neq_implies_less by blast
  then have "bs ! ?z \<noteq> 0" by (rule nth_length_takeWhile)
  then have "0 < unat (bs ! ?z)" by (simp add: unat_gt_0)
  moreover have "drop ?z bs = bs ! ?z # drop (Suc ?z) bs" using lt by (simp add: Cons_nth_drop_Suc)
  ultimately have "0 < be_fold 256 0 (map unat (drop ?z bs))"
    using be_fold_ge [of 256 "unat (bs ! ?z)" "map unat (drop (Suc ?z) bs)"]
    by (simp only: list.map be_fold_simps) simp
  then show ?thesis by (simp only: significant_value)
qed

lemma length_base58_text:
  "length (base58_text bs) =
   length (takeWhile (\<lambda>b. b = 0) bs) + length (le_digits 58 (be_fold 256 0 (map unat bs)))"
  by (simp add: base58_text_def)

lemma encode_base58_all_zero:
  assumes "length (takeWhile (\<lambda>b. b = 0) bs) = length bs"
  shows "multibase_encode_base58btc (Buf bs) (Buf out) =
    Some (if length (base58_text bs) < length out
          then (LIBP2P_MULTIBASE_OK, Suc (length (base58_text bs)),
                Buf (CHR ''z'' # base58_text bs @ drop (Suc (length bs)) out))
          else (LIBP2P_MULTIBASE_ERR_BUF_TOO_SMALL, Suc (length bs), Buf out))"
proof -
  have t: "base58_text bs = replicate (length bs) (CHR ''1'')"
    using assms by (simp add: base58_text_def all_zero_value)
  show ?thesis
  proof (cases out)
    case (Cons c cs)
    have "memcpy_at (CHR ''z'' # cs) (Suc 0) (replicate (length bs) (CHR ''1'')) =
        Some (CHR ''z'' # replicate (length bs) (CHR ''1'') @ drop (length bs) cs)"
      if "length bs \<le> length cs"
      using that by (simp add: memcpy_at_def)
    with assms Cons t show ?thesis
      by (auto simp: multibase_encode_base58btc_def Let_def wr_def)
  qed (use assms t in \<open>simp add: multibase_encode_base58btc_def\<close>)
qed

text \<open>The characters that the last loop writes are the text of the number in the scratch area.\<close>

lemma number_cells_emit:
  fixes pre :: string
  assumes "n < 58 ^ cap" and "length pre = off"
  shows "\<exists>tail. length tail = cap - length (le_digits 58 n) \<and>
    base58btc_emit off (cap - length (le_digits 58 n)) (length (le_digits 58 n)) 0
      (number_cells char_of 58 pre cap n) =
    Some (pre @ map (\<lambda>d. multibase_base58btc_alphabet ! d) (rev (le_digits 58 n)) @ tail)"
proof -
  let ?ds = "le_digits 58 n"
  let ?start = "cap - length ?ds" and ?region = "rev (map char_of (?ds @ replicate (cap - length ?ds) 0)) :: string"
  have len: "length ?ds \<le> cap" using assms(1) by (simp add: length_digits_le_iff)
  have all: "list_all (\<lambda>d. d < 58) ?ds" using canonical_digits [of 58 n] by (simp add: canonical_def)
  have D: "drop ?start ?region = rev (map char_of ?ds)" by simp
  have val: "map (\<lambda>c. multibase_base58btc_alphabet ! of_char c) (rev (map char_of ?ds :: string)) =
      map (\<lambda>d. multibase_base58btc_alphabet ! d) (rev ?ds)"
    using all by (auto simp: rev_map list_all_iff)
  have "list_all (\<lambda>c. of_char c < (58::nat)) (drop ?start ?region)"
    using all unfolding D by (auto simp: list_all_iff)
  from base58btc_emit_correct [of pre off ?region ?start "length ?ds" 0, OF assms(2) _ _ this]
  have "base58btc_emit off ?start (length ?ds) 0 (number_cells char_of 58 pre cap n) =
      Some (pre @ map (\<lambda>d. multibase_base58btc_alphabet ! d) (rev ?ds) @ drop (length ?ds) ?region)"
    using len unfolding D val number_cells_def by simp
  then show ?thesis using len by (intro exI [of _ "drop (length ?ds) ?region"]) simp
qed

lemma encode_significant_ok:
  assumes N: "be_fold 256 0 (map unat bs) = N" "0 < N"
    and fits: "z + length (le_digits 58 N) < length out"
  shows "\<exists>tail. length tail = length out - (1 + z + length (le_digits 58 N)) \<and>
    encode_base58btc_significant bs z bound (Buf out) =
    Some (LIBP2P_MULTIBASE_OK, 1 + z + length (le_digits 58 N),
      Buf (CHR ''z'' # replicate z (CHR ''1'') @
           map (\<lambda>d. multibase_base58btc_alphabet ! d) (rev (le_digits 58 N)) @ tail))"
proof -
  define off cap where "off = 1 + z" and "cap = length out - off"
  let ?ones = "replicate z (CHR ''1'')"
  have "0 < length (le_digits 58 N)" using N(2) by (simp add: le_digits_Nil_iff)
  with fits have cap: "length out = off + cap" "0 < cap" and lN: "length (le_digits 58 N) \<le> cap"
    unfolding off_def cap_def by linarith+
  then have lt: "N < 58 ^ cap" by (simp add: length_digits_le_iff)
  obtain c pre where pre: "take off out = c # pre" "length pre = z"
    using cap by (cases out) (auto simp: off_def)
  have init: "memcpy_at out off (replicate cap (CHR 0x00)) = Some (number_cells char_of 58 (c # pre) cap 0)"
    using cap pre(1) by (simp add: memcpy_at_def number_cells_def char_of_def)
  have run: "encode_base58btc_bytes off cap bs 0 (number_cells char_of 58 (c # pre) cap 0) =
      Some (LIBP2P_MULTIBASE_OK, length (le_digits 58 N), number_cells char_of 58 (c # pre) cap N)"
    using encode_bytes_ok [of "c # pre" off bs cap] lt pre(2) N(1) by (simp add: off_def)
  have hd: "wr (number_cells char_of 58 (c # pre) cap N) 0 (CHR ''z'') =
      Some (number_cells char_of 58 (CHR ''z'' # pre) cap N)"
    by (simp add: number_cells_def wr_def)
  have ones: "memcpy_at (number_cells char_of 58 (CHR ''z'' # pre) cap N) 1 ?ones =
      Some (number_cells char_of 58 (CHR ''z'' # ?ones) cap N)"
    using pre(2) by (simp add: memcpy_at_def number_cells_def)
  from number_cells_emit [OF lt, of "CHR ''z'' # ?ones" off] obtain tail where
    tail: "length tail = cap - length (le_digits 58 N)" and
    emit: "base58btc_emit off (cap - length (le_digits 58 N)) (length (le_digits 58 N)) 0
        (number_cells char_of 58 (CHR ''z'' # ?ones) cap N) =
      Some ((CHR ''z'' # ?ones) @ map (\<lambda>d. multibase_base58btc_alphabet ! d) (rev (le_digits 58 N)) @ tail)"
    by (auto simp: off_def)
  have "\<not> length out \<le> off" and "length out - off = cap" using cap by simp_all
  then have "encode_base58btc_significant bs z bound (Buf out) =
    Some (LIBP2P_MULTIBASE_OK, off + length (le_digits 58 N), Buf ((CHR ''z'' # ?ones) @
      map (\<lambda>d. multibase_base58btc_alphabet ! d) (rev (le_digits 58 N)) @ tail))"
    unfolding encode_base58btc_significant_def Let_def off_def [symmetric]
    by (simp add: init run hd ones emit del: One_nat_def)
  then show ?thesis
    using tail cap by (intro exI [of _ tail]) (simp add: off_def)
qed

lemma encode_significant_short:
  assumes N: "be_fold 256 0 (map unat bs) = N"
    and short: "length out \<le> z + length (le_digits 58 N)"
  shows "\<exists>out'. length out' = length out \<and>
    encode_base58btc_significant bs z bound (Buf out) =
    Some (LIBP2P_MULTIBASE_ERR_BUF_TOO_SMALL, bound, Buf out')"
proof (cases "length out \<le> 1 + z")
  case True
  then show ?thesis by (auto simp: encode_base58btc_significant_def Let_def)
next
  case False
  define off cap where "off = 1 + z" and "cap = length out - off"
  have cap: "length out = off + cap" "0 < cap" using False by (simp_all add: cap_def off_def)
  let ?pre = "take off out"
  have init: "memcpy_at out off (replicate cap (CHR 0x00)) = Some (number_cells char_of 58 ?pre cap 0)"
    using cap by (simp add: memcpy_at_def number_cells_def char_of_def)
  have "\<not> length (le_digits 58 N) \<le> cap" using short cap by (simp add: off_def)
  then have "\<not> be_fold 256 0 (map unat bs) < 58 ^ cap" by (simp add: N length_digits_le_iff)
  with encode_bytes_short [of ?pre off bs cap] cap obtain j out' where
    "length out' = length out" and
    "encode_base58btc_bytes off cap bs 0 (number_cells char_of 58 ?pre cap 0) =
      Some (LIBP2P_MULTIBASE_ERR_BUF_TOO_SMALL, j, out')" by auto
  moreover have "\<not> length out \<le> off" and "length out - off = cap" using cap by simp_all
  ultimately show ?thesis
    unfolding encode_base58btc_significant_def Let_def off_def [symmetric]
    by (simp add: init)
qed

text \<open>The encoder on every buffer.\<close>

lemma encode_base58_correct:
  "\<exists>w out' tail.
    multibase_encode_base58btc (Buf bs) (Buf out) =
      (if length (base58_text bs) < length out
       then Some (LIBP2P_MULTIBASE_OK, Suc (length (base58_text bs)),
                  Buf (CHR ''z'' # base58_text bs @ tail))
       else Some (LIBP2P_MULTIBASE_ERR_BUF_TOO_SMALL, w, Buf out')) \<and>
    length out' = length out \<and> length tail = length out - Suc (length (base58_text bs)) \<and>
    w = (if be_fold 256 0 (map unat bs) = 0 then Suc (length bs)
         else base58btc_required_bound (length bs) (length (takeWhile (\<lambda>b. b = 0) bs)))"
proof (cases "length (takeWhile (\<lambda>b. b = 0) bs) = length bs")
  case True
  then have "length (base58_text bs) = length bs"
    by (simp add: length_base58_text all_zero_value)
  with encode_base58_all_zero [OF True, of out] all_zero_value [OF True] show ?thesis
    by auto
next
  case False
  let ?z = "length (takeWhile (\<lambda>b. b = 0) bs)" and ?N = "be_fold 256 0 (map unat bs)"
  let ?w = "base58btc_required_bound (length bs) ?z"
  have pos: "0 < ?N" by (rule nonzero_value [OF False])
  have eq: "multibase_encode_base58btc (Buf bs) (Buf out) =
      encode_base58btc_significant (drop ?z bs) ?z ?w (Buf out)"
    using False by (simp add: multibase_encode_base58btc_def Let_def)
  show ?thesis
  proof (cases "length (base58_text bs) < length out")
    case fits: True
    with encode_significant_ok [OF significant_value [of bs] pos, of ?z out ?w] obtain tail where
      "length tail = length out - Suc (length (base58_text bs))" and
      "encode_base58btc_significant (drop ?z bs) ?z ?w (Buf out) =
       Some (LIBP2P_MULTIBASE_OK, Suc (length (base58_text bs)), Buf (CHR ''z'' # base58_text bs @ tail))"
      by (auto simp: length_base58_text base58_text_def)
    with fits eq pos show ?thesis
      by (intro exI [of _ ?w] exI [of _ out] exI [of _ tail]) simp
  next
    case short: False
    with encode_significant_short [OF significant_value [of bs], of out ?z ?w] obtain out' where
      "length out' = length out" and
      "encode_base58btc_significant (drop ?z bs) ?z ?w (Buf out) =
       Some (LIBP2P_MULTIBASE_ERR_BUF_TOO_SMALL, ?w, Buf out')"
      by (auto simp: length_base58_text)
    with short eq pos show ?thesis
      by (intro exI [of _ ?w] exI [of _ out'] exI [of _ "[]"]) simp
  qed
qed

end
