(* ===== verification/Multibase_Base58_Decoder.thy ===== *)
theory Multibase_Base58_Decoder
  imports Multibase_Base58
begin

text \<open>
  The base58btc decoder of \<open>src/src/multiformats/multibase/multibase.c\<close>, related to \<open>base58_bytes\<close>,
  and the round trips between \<open>base58_text\<close> and \<open>base58_bytes\<close>.
\<close>

subsection \<open>The decoder's scratch arithmetic\<close>

abbreviation base58_digits :: "string \<Rightarrow> nat list" where
  "base58_digits t \<equiv> map (\<lambda>c. the (multibase_base58_value c)) t"

lemma base58_valid_simps [simp]:
  "base58_valid []"
  "base58_valid (c # t) \<longleftrightarrow> multibase_base58_value c \<noteq> None \<and> base58_valid t"
  "base58_valid (s @ t) \<longleftrightarrow> base58_valid s \<and> base58_valid t"
  by (simp_all add: base58_valid_def)

lemma decode_bytes_carry_loop:
  "decode_base58btc_bytes carry i used out =
   carry_loop unat of_nat 256 58 0 (length out) carry i used out"
proof (induction carry i used out rule: decode_base58btc_bytes.induct)
  case (1 carry i used out)
  show ?case
  proof (cases "(carry \<noteq> 0 \<or> i < used) \<and> \<not> length out \<le> i")
    case True
    then have "length out - 1 - i < length out" by linarith
    with True show ?thesis
      using 1 by (subst decode_base58btc_bytes.simps, subst carry_loop.simps)
        (simp add: Let_def rd_def wr_def)
  next
    case False
    then show ?thesis
      by (subst decode_base58btc_bytes.simps, subst carry_loop.simps) auto
  qed
qed

lemma length_number_cells [simp]:
  "length (le_digits B n) \<le> cap \<Longrightarrow> length (number_cells put B pre cap n) = length pre + cap"
  by (simp add: number_cells_def)

lemma decode_bytes_correct:
  assumes n: "n < 256 ^ cap" and "c < 58"
  shows "\<exists>j out'. length out' = cap \<and>
    decode_base58btc_bytes c 0 (length (le_digits 256 n)) (number_cells of_nat 256 [] cap n) =
    Some (if n * 58 + c < 256 ^ cap
          then (True, length (le_digits 256 (n * 58 + c)), number_cells of_nat 256 [] cap (n * 58 + c))
          else (False, j, out'))"
proof -
  have "length (number_cells of_nat 256 [] cap n :: byte list) = cap"
    using n by (simp add: length_digits_le_iff)
  with dec58.carry_loop_number [OF assms, of "[]" 0] show ?thesis
    unfolding decode_bytes_carry_loop by simp
qed

lemma decode_loop_small:
  "decode_base58btc_loop cs True used out =
   Some (if base58_valid cs then LIBP2P_MULTIBASE_OK else LIBP2P_MULTIBASE_ERR_INVALID_CHARACTER,
         True, used, out)"
  by (induction cs) (auto split: option.splits)

lemma base58_value_less: "multibase_base58_value c = Some v \<Longrightarrow> v < 58"
  by (simp add: base58_value_iff)

text \<open>The loop over the characters, from a buffer that holds \<open>n\<close>.\<close>

lemma decode_loop_correct:
  assumes "n < 256 ^ cap"
  shows "\<exists>b u out'. length out' = cap \<and>
    decode_base58btc_loop cs False (length (le_digits 256 n)) (number_cells of_nat 256 [] cap n) =
    Some (if \<not> base58_valid cs then (LIBP2P_MULTIBASE_ERR_INVALID_CHARACTER, b, u, out')
          else if be_fold 58 n (base58_digits cs) < 256 ^ cap
          then (LIBP2P_MULTIBASE_OK, False, length (le_digits 256 (be_fold 58 n (base58_digits cs))),
                number_cells of_nat 256 [] cap (be_fold 58 n (base58_digits cs)))
          else (LIBP2P_MULTIBASE_OK, True, u, out'))"
  using assms
proof (induction cs arbitrary: n)
  case Nil
  then show ?case using Ex_list_of_length by auto
next
  case (Cons c cs)
  show ?case
  proof (cases "multibase_base58_value c")
    case None
    have "length (number_cells of_nat 256 [] cap n :: byte list) = cap"
      using Cons.prems by (simp add: length_digits_le_iff)
    with None show ?thesis by auto
  next
    case (Some v)
    let ?n = "n * 58 + v"
    from decode_bytes_correct [OF Cons.prems base58_value_less [OF Some]] obtain j out' where
      len: "length out' = cap" and
      step: "decode_base58btc_bytes v 0 (length (le_digits 256 n)) (number_cells of_nat 256 [] cap n) =
        Some (if ?n < 256 ^ cap then (True, length (le_digits 256 ?n), number_cells of_nat 256 [] cap ?n)
              else (False, j, out'))" by blast
    show ?thesis
    proof (cases "?n < 256 ^ cap")
      case True
      with step Some Cons.IH [OF True] show ?thesis by (simp split del: if_split cong: if_cong)
    next
      case False
      have "?n \<le> be_fold 58 ?n (base58_digits cs)" by (rule be_fold_ge) simp
      with False have "\<not> be_fold 58 ?n (base58_digits cs) < 256 ^ cap" by linarith
      with False step Some len show ?thesis
        by (intro exI [of _ True] exI [of _ "length (le_digits 256 n)"] exI [of _ out'])
          (simp add: decode_loop_small)
    qed
  qed
qed

subsection \<open>The move behind the leading zeros\<close>

lemma base58btc_move_correct:
  assumes "length pre = z" and "length region = start + used" and "i \<le> used"
  shows "base58btc_move z (z + start) used i (pre @ take i (drop start region) @ drop i region) =
    Some (pre @ drop start region @ drop used region)"
  using assms(3)
proof (induction "used - i" arbitrary: i)
  case 0
  with assms(2) show ?case by (subst base58btc_move.simps) simp
next
  case (Suc k)
  let ?D = "drop start region"
  let ?out = "\<lambda>i. pre @ take i ?D @ drop i region"
  have i: "i < used" and lD: "length ?D = used" using Suc(2) assms(2) by simp_all
  then have ir: "i < length region" using assms(2) by simp
  have rd: "rd (?out i) (z + start + i) = Some (?D ! i)"
    using assms(1,2) i by (simp add: rd_def nth_append add.commute)
  have "drop i region = region ! i # drop (Suc i) region"
    using ir by (simp add: Cons_nth_drop_Suc)
  moreover have "take (i + 1) ?D = take i ?D @ [?D ! i]"
    using i lD by (simp add: take_Suc_conv_app_nth)
  moreover have "length (pre @ take i ?D) = z + i"
    using assms(1) i lD by simp
  ultimately have wr: "wr (?out i) (z + i) (?D ! i) = Some (?out (i + 1))"
    using wr_append [of "pre @ take i ?D" "z + i" "region ! i # drop (Suc i) region"] by simp
  have "base58btc_move z (z + start) used (i + 1) (?out (i + 1)) = Some (?out used)"
    using Suc(1) [of "i + 1"] Suc(2) i lD by simp
  with rd wr i lD show ?case
    by (subst base58btc_move.simps) simp
qed

text \<open>The bytes of \<open>n\<close>, at the end of the buffer, move to behind \<open>z\<close> zeros.\<close>

lemma number_cells_move:
  assumes "z + length (le_digits 256 n) \<le> cap"
  shows "\<exists>tail out'. length tail = cap - (z + length (le_digits 256 n)) \<and>
    base58btc_move z (cap - length (le_digits 256 n)) (length (le_digits 256 n)) 0
      (number_cells of_nat 256 [] cap n) = Some out' \<and>
    memcpy_at out' 0 (replicate z 0) =
      Some (replicate z 0 @ rev (map of_nat (le_digits 256 n)) @ tail :: byte list)"
proof -
  let ?ds = "le_digits 256 n" and ?cells = "number_cells of_nat 256 [] cap n :: byte list"
  let ?start = "cap - length ?ds - z"
  have cells: "?cells = replicate (cap - length ?ds) 0 @ rev (map of_nat ?ds)"
    by (simp add: number_cells_def)
  let ?pre = "replicate z 0 :: byte list" and ?region = "replicate ?start 0 @ rev (map of_nat ?ds) :: byte list"
  have split: "?cells = ?pre @ ?region"
    using assms unfolding cells append_assoc [symmetric] replicate_add [symmetric] by simp
  have D: "drop ?start ?region = rev (map of_nat ?ds)" by simp
  obtain tail where tail: "tail = drop (length ?ds) ?region" by blast
  have "base58btc_move z (cap - length ?ds) (length ?ds) 0 ?cells =
      Some (?pre @ rev (map of_nat ?ds) @ tail)"
    using base58btc_move_correct [of ?pre z ?region ?start "length ?ds" 0] assms
    unfolding split D tail by simp
  moreover have "length tail = cap - (z + length ?ds)" using assms by (simp add: tail)
  ultimately show ?thesis by (auto simp: memcpy_at_0)
qed

subsection \<open>The decoder\<close>

lemma base58_digits_ones:
  "be_fold 58 0 (base58_digits (drop (length (takeWhile (\<lambda>c. c = CHR ''1'') t)) t)) =
   be_fold 58 0 (base58_digits t)"
  by (subst (3) leading_zeros_split [of t "CHR ''1''"]) simp

lemma base58_valid_ones:
  "base58_valid (drop (length (takeWhile (\<lambda>c. c = CHR ''1'') t)) t) \<longleftrightarrow> base58_valid t"
  by (subst (3) leading_zeros_split [of t "CHR ''1''"]) (auto simp: base58_valid_def list_all_iff)

lemma length_base58_bytes:
  "length (base58_bytes t) = length (takeWhile (\<lambda>c. c = CHR ''1'') t) +
   length (le_digits 256 (be_fold 58 0 (base58_digits t)))"
  by (simp add: base58_bytes_def)

lemma decode_base58_null:
  "multibase_decode_base58btc (p # t) (Null n) =
   Some (if base58_valid t then LIBP2P_MULTIBASE_ERR_BUF_TOO_SMALL
         else LIBP2P_MULTIBASE_ERR_INVALID_CHARACTER, length t, Null n)"
  by (simp add: multibase_decode_base58btc_def decode_loop_small Let_def base58_valid_ones)

lemma decode_base58_correct:
  "\<exists>out' tail. length out' = length out \<and> length tail = length out - length (base58_bytes t) \<and>
    multibase_decode_base58btc (p # t) (Buf out) =
    Some (if \<not> base58_valid t then (LIBP2P_MULTIBASE_ERR_INVALID_CHARACTER, length t, Buf out')
          else if length (base58_bytes t) \<le> length out
          then (LIBP2P_MULTIBASE_OK, length (base58_bytes t), Buf (base58_bytes t @ tail))
          else (LIBP2P_MULTIBASE_ERR_BUF_TOO_SMALL, length t, Buf out'))"
proof -
  define z where "z = length (takeWhile (\<lambda>c. c = CHR ''1'') t)"
  define N where "N = be_fold 58 0 (base58_digits t)"
  define cap where "cap = length out"
  let ?loop = "decode_base58btc_loop (drop z t) False 0 (replicate (length out) 0)"
  have "number_cells of_nat 256 [] cap 0 = replicate (length out) (0 :: byte)"
    and "be_fold 58 0 (base58_digits (drop z t)) = N"
    and "base58_valid (drop z t) = base58_valid t"
    unfolding z_def N_def
    by (simp_all add: number_cells_def cap_def base58_valid_ones base58_digits_ones)
  with decode_loop_correct [of 0 cap "drop z t"] obtain b u out' where len: "length out' = cap" and
    loop: "?loop = Some (if \<not> base58_valid t then (LIBP2P_MULTIBASE_ERR_INVALID_CHARACTER, b, u, out')
      else if N < 256 ^ cap then (LIBP2P_MULTIBASE_OK, False, length (le_digits 256 N),
        number_cells of_nat 256 [] cap N) else (LIBP2P_MULTIBASE_OK, True, u, out'))"
    by auto
  have dec: "multibase_decode_base58btc (p # t) (Buf out) = (do {
      (err, small, used, out1) \<leftarrow> ?loop;
      if err \<noteq> LIBP2P_MULTIBASE_OK then Some (err, length t, Buf out1)
      else if small \<or> z + used > cap then Some (LIBP2P_MULTIBASE_ERR_BUF_TOO_SMALL, length t, Buf out1)
      else do { out2 \<leftarrow> base58btc_move z (cap - used) used 0 out1;
                out3 \<leftarrow> memcpy_at out2 0 (replicate z 0);
                Some (LIBP2P_MULTIBASE_OK, z + used, Buf out3) } })"
    unfolding z_def cap_def by (simp add: multibase_decode_base58btc_def Let_def)
  have room: "length (le_digits 256 N) \<le> cap \<longleftrightarrow> N < 256 ^ cap" by (simp add: length_digits_le_iff)
  have bytes: "length (base58_bytes t) = z + length (le_digits 256 N)"
    by (simp add: length_base58_bytes z_def N_def)
  consider (bad) "\<not> base58_valid t" | (ok) "base58_valid t" "z + length (le_digits 256 N) \<le> cap"
    | (short) "base58_valid t" "\<not> z + length (le_digits 256 N) \<le> cap" by blast
  then show ?thesis
  proof cases
    case bad
    with loop dec len show ?thesis
      by (intro exI [of _ out'] exI [of _ "replicate (length out - length (base58_bytes t)) 0"])
        (simp add: cap_def)
  next
    case ok
    then have "N < 256 ^ cap" using room by linarith
    with number_cells_move [OF ok(2)] ok loop obtain tail out2 where
      "length tail = cap - (z + length (le_digits 256 N))" and
      "multibase_decode_base58btc (p # t) (Buf out) = Some (LIBP2P_MULTIBASE_OK,
         z + length (le_digits 256 N), Buf (replicate z 0 @ rev (map of_nat (le_digits 256 N)) @ tail))"
      unfolding dec by auto
    with ok bytes show ?thesis
      by (intro exI [of _ out] exI [of _ tail])
        (simp add: base58_bytes_def z_def [symmetric] N_def [symmetric] cap_def)
  next
    case short
    then have "\<exists>out1. length out1 = cap \<and> multibase_decode_base58btc (p # t) (Buf out) =
        Some (LIBP2P_MULTIBASE_ERR_BUF_TOO_SMALL, length t, Buf out1)"
      using loop len room by (cases "N < 256 ^ cap") (auto simp: dec)
    with short bytes show ?thesis
      by (auto simp: cap_def)
  qed
qed

subsection \<open>Round trips\<close>

text \<open>What is left after all leading zeros is a canonical digit string.\<close>

lemma canonical_stripped:
  assumes "\<And>x. x \<in> set xs \<Longrightarrow> f x < B" and "\<And>x. x \<in> set xs \<Longrightarrow> f x = 0 \<Longrightarrow> x = z"
  shows "canonical B (rev (map f (drop (length (takeWhile (\<lambda>x. x = z) xs)) xs)))"
proof -
  obtain r where r: "r = dropWhile (\<lambda>x. x = z) xs" by blast
  have "list_all (\<lambda>x. f x < B) r" using assms(1) by (auto simp: r list_all_iff dest: set_dropWhileD)
  moreover have "r \<noteq> [] \<Longrightarrow> f (hd r) \<noteq> 0"
    using assms(2) hd_dropWhile [of "\<lambda>x. x = z" xs] by (metis r hd_in_set set_dropWhileD)
  ultimately show ?thesis
    unfolding dropWhile_eq_drop [symmetric] r [symmetric]
    by (cases r) (auto simp: canonical_def list.pred_map comp_def)
qed

lemma takeWhile_replicate_stripped:
  "(ys = [] \<or> hd ys \<noteq> z) \<Longrightarrow> takeWhile (\<lambda>x. x = z) (replicate k z @ ys) = replicate k z"
  by (induction k) (cases ys, auto)

lemma canonical_hd_rev: "canonical B ds \<Longrightarrow> rev ds = [] \<or> hd (rev ds) \<noteq> 0 \<and> hd (rev ds) < B"
  by (cases ds rule: rev_cases) (auto simp: canonical_def)

lemma base58_digits_text:
  "base58_digits (base58_text bs) =
   replicate (length (takeWhile (\<lambda>b. b = 0) bs)) 0 @ rev (le_digits 58 (be_fold 256 0 (map unat bs)))"
proof -
  have "list_all (\<lambda>d. d < 58) (le_digits 58 n)" for n
    using canonical_digits [of 58 n] by (simp add: canonical_def)
  then have "map (\<lambda>c. the (multibase_base58_value c))
      (map (\<lambda>d. multibase_base58btc_alphabet ! d) (rev (le_digits 58 n))) = rev (le_digits 58 n)" for n
    by (auto simp: list_all_iff intro!: map_idI)
  then show ?thesis by (simp add: base58_text_def)
qed

lemma base58_text_valid [simp]: "base58_valid (base58_text bs)"
proof -
  have "list_all (\<lambda>d. d < 58) (le_digits 58 n)" for n
    using canonical_digits [of 58 n] by (simp add: canonical_def)
  then show ?thesis by (auto simp: base58_text_def base58_valid_def list_all_iff)
qed

lemma base58_text_ones:
  "length (takeWhile (\<lambda>c. c = CHR ''1'') (base58_text bs)) = length (takeWhile (\<lambda>b. b = 0) bs)"
proof -
  let ?ds = "rev (le_digits 58 (be_fold 256 0 (map unat bs)))"
  have "map (\<lambda>d. multibase_base58btc_alphabet ! d) ?ds = [] \<or>
      hd (map (\<lambda>d. multibase_base58btc_alphabet ! d) ?ds) \<noteq> CHR ''1''"
    using canonical_hd_rev [OF canonical_digits [of 58 "be_fold 256 0 (map unat bs)"]]
    by (cases ?ds) (auto simp: base58_alphabet_one)
  from takeWhile_replicate_stripped [OF this] show ?thesis
    by (simp add: base58_text_def)
qed

lemma base58_bytes_text [codec_laws, simp]: "base58_bytes (base58_text bs) = bs"
proof -
  let ?z = "length (takeWhile (\<lambda>b. b = 0) bs)"
  have "canonical 256 (rev (map unat (drop ?z bs)))"
    by (rule canonical_stripped) (simp_all add: unat_eq_0)
  then have "le_digits 256 (be_fold 256 0 (map unat (drop ?z bs))) = rev (map unat (drop ?z bs))"
    by (simp add: digits_be_fold)
  then have "le_digits 256 (be_fold 256 0 (map unat bs)) = rev (map unat (drop ?z bs))"
    by (simp only: significant_value)
  then have "rev (map of_nat (le_digits 256 (be_fold 256 0 (map unat bs)))) = drop ?z bs"
    by (simp add: rev_map [symmetric] comp_def)
  moreover have "be_fold 58 0 (base58_digits (base58_text bs)) = be_fold 256 0 (map unat bs)"
    by (simp add: base58_digits_text be_fold_digits)
  ultimately show ?thesis
    by (simp add: base58_bytes_def base58_text_ones leading_zeros_split [of bs 0, symmetric])
qed

lemma base58_bytes_zeros:
  "length (takeWhile (\<lambda>b. b = 0) (base58_bytes t)) = length (takeWhile (\<lambda>c. c = CHR ''1'') t)"
proof -
  let ?ds = "rev (le_digits 256 (be_fold 58 0 (base58_digits t)))"
  have "a < 256 \<Longrightarrow> 0 < a \<Longrightarrow> (of_nat a :: byte) \<noteq> 0" for a
    using unat_of_nat [of a, where ?'a = 8] by auto
  then have "(map of_nat ?ds :: byte list) = [] \<or> hd (map of_nat ?ds) \<noteq> (0 :: byte)"
    using canonical_hd_rev [OF canonical_digits [of 256 "be_fold 58 0 (base58_digits t)"]]
    by (cases ?ds) auto
  from takeWhile_replicate_stripped [OF this] show ?thesis
    by (simp add: base58_bytes_def rev_map)
qed

lemma base58_text_bytes [codec_laws]:
  assumes "base58_valid t"
  shows "base58_text (base58_bytes t) = t"
proof -
  let ?z = "length (takeWhile (\<lambda>c. c = CHR ''1'') t)" and ?N = "be_fold 58 0 (base58_digits t)"
  have val: "the (multibase_base58_value c) < 58 \<and>
      multibase_base58btc_alphabet ! the (multibase_base58_value c) = c" if "c \<in> set t" for c
    using assms that by (auto simp: base58_valid_def list_all_iff base58_value_iff)
  have "the (multibase_base58_value c) = 0 \<Longrightarrow> c = CHR ''1''" if "c \<in> set t" for c
    using val [OF that] base58_alphabet_one [of 0] by simp
  with val have "canonical 58 (rev (base58_digits (drop ?z t)))"
    by (intro canonical_stripped) auto
  then have "le_digits 58 ?N = rev (base58_digits (drop ?z t))"
    using digits_be_fold [of 58 "base58_digits (drop ?z t)"] by (simp add: base58_digits_ones)
  then have "map (\<lambda>d. multibase_base58btc_alphabet ! d) (rev (le_digits 58 ?N)) = drop ?z t"
    using val by (auto simp: in_set_dropD intro!: map_idI)
  moreover have "map unat (rev (map of_nat (le_digits 256 ?N)) :: byte list) = rev (le_digits 256 ?N)"
    using canonical_digits [of 256 ?N]
    by (auto simp: canonical_def list_all_iff rev_map unat_of_nat intro!: map_idI)
  then have "be_fold 256 0 (map unat (base58_bytes t)) = ?N"
    by (simp add: base58_bytes_def be_fold_digits)
  ultimately show ?thesis
    by (simp add: base58_text_def base58_bytes_zeros leading_zeros_split [of t "CHR ''1''", symmetric])
qed

end
