(* ===== verification/Multibase_Base64.thy ===== *)
theory Multibase_Base64
  imports Multibase
begin

text \<open>
  Correctness of the base64url half of \<open>src/src/multiformats/multibase/multibase.c\<close>. The reference
  definitions follow RFC 4648: the bits of the bytes in order, padded with zero bits to a
  multiple of six, in groups of six; and back, in groups of eight, where the bits that are left
  over have to be zero. The code's group-wise shifting and masking is related to them.
\<close>

subsection \<open>Reference definitions\<close>

definition to_bits :: "nat \<Rightarrow> nat \<Rightarrow> bool list" where
  "to_bits k n = map (bit n) (rev [0..<k])"

definition of_bits :: "bool list \<Rightarrow> nat" where
  "of_bits bs = be_fold 2 0 (map of_bool bs)"

fun chunks :: "nat \<Rightarrow> 'a list \<Rightarrow> 'a list list" where
  "chunks k xs = (if k = 0 \<or> xs = [] then [] else take k xs # chunks k (drop k xs))"

declare chunks.simps [simp del]

definition bytes_bits :: "byte list \<Rightarrow> bool list" where
  "bytes_bits bs = concat (map (\<lambda>b. to_bits 8 (unat b)) bs)"

definition base64_text :: "byte list \<Rightarrow> string" where
  "base64_text bs =
     (let bits = bytes_bits bs
      in map (\<lambda>g. base64url_alphabet ! of_bits g)
           (chunks 6 (bits @ replicate ((6 - length bits mod 6) mod 6) False)))"

definition base64_bits :: "string \<Rightarrow> bool list" where
  "base64_bits t = concat (map (\<lambda>c. to_bits 6 (the (multibase_base64url_value c))) t)"

definition base64_bytes :: "string \<Rightarrow> byte list" where
  "base64_bytes t =
     (let bits = base64_bits t
      in map (\<lambda>g. of_nat (of_bits g)) (chunks 8 (take (length bits - length bits mod 8) bits)))"

text \<open>The accepted characters, and the texts that \<open>base64_text\<close> produces.\<close>

definition base64_chars :: "string \<Rightarrow> bool" where
  "base64_chars t \<longleftrightarrow> list_all (\<lambda>c. multibase_base64url_value c \<noteq> None) t"

definition base64_valid :: "string \<Rightarrow> bool" where
  "base64_valid t \<longleftrightarrow>
     (let bits = base64_bits t
      in base64_chars t \<and> list_all Not (drop (length bits - length bits mod 8) bits))"

subsection \<open>Bits\<close>

lemma length_to_bits [simp]: "length (to_bits k n) = k"
  by (simp add: to_bits_def)

lemma to_bits_Suc: "to_bits (Suc k) n = bit n k # to_bits k n"
  by (simp add: to_bits_def)

lemma of_bits_simps [simp]:
  "of_bits [] = 0" "of_bits (b # bs) = of_bool b * 2 ^ length bs + of_bits bs"
  by (simp_all add: of_bits_def be_fold_le_val le_val_append)

lemma of_bits_less: "of_bits bs < 2 ^ length bs"
  by (induction bs) auto

lemma of_bits_to_bits: "of_bits (to_bits k n) = n mod 2 ^ k"
proof (induction k)
  case (Suc k)
  have "n mod 2 ^ Suc k = of_bool (bit n k) * 2 ^ k + n mod 2 ^ k"
    using take_bit_Suc_from_most [of k n] unfolding take_bit_eq_mod by simp
  with Suc show ?case by (simp add: to_bits_Suc)
qed (simp add: to_bits_def)

lemma to_bits_cong: "n mod 2 ^ k = m mod 2 ^ k \<Longrightarrow> to_bits k n = to_bits k m"
  unfolding to_bits_def take_bit_eq_mod [symmetric]
  by (rule map_cong [OF refl]) (metis atLeastLessThan_iff bit_take_bit_iff set_rev set_upt)

lemma to_bits_of_bits: "length bs = k \<Longrightarrow> to_bits k (of_bits bs) = bs"
proof (induction bs arbitrary: k)
  case (Cons b bs)
  let ?j = "length bs"
  have lt: "of_bits bs < 2 ^ ?j" by (rule of_bits_less)
  have "(of_bool b * 2 ^ ?j + of_bits bs) div 2 ^ ?j = of_bool b"
    using lt by simp
  then have "bit (of_bits (b # bs)) ?j = b"
    by (simp add: bit_iff_odd)
  moreover have "to_bits ?j (of_bits (b # bs)) = to_bits ?j (of_bits bs)"
    by (rule to_bits_cong) simp
  ultimately show ?case
    using Cons by (auto simp: to_bits_Suc)
qed (simp add: to_bits_def)

lemma to_bits_append: "to_bits (j + k) n = to_bits j (n div 2 ^ k) @ to_bits k n"
proof (induction j)
  case 0
  then show ?case by (simp add: to_bits_def)
next
  case (Suc j)
  then show ?case
    by (simp add: to_bits_Suc bit_iff_odd div_mult2_eq [symmetric] power_add mult.commute)
qed

lemma to_bits_join:
  "n < 2 ^ k \<Longrightarrow> to_bits j m @ to_bits k n = to_bits (j + k) (m * 2 ^ k + n)"
  by (simp add: to_bits_append to_bits_cong [of "m * 2 ^ k + n" k n])

lemma chunks_Nil [simp]: "chunks k [] = []"
  by (simp add: chunks.simps)

lemma chunks_append [simp]: "0 < k \<Longrightarrow> length g = k \<Longrightarrow> chunks k (g @ xs) = g # chunks k xs"
  by (subst chunks.simps) auto

lemma chunks_one: "0 < k \<Longrightarrow> length g = k \<Longrightarrow> chunks k g = [g]"
  using chunks_append [of k g "[]"] by simp

lemma chunks_concat: "0 < k \<Longrightarrow> list_all (\<lambda>g. length g = k) gs \<Longrightarrow> chunks k (concat gs) = gs"
  by (induction gs) simp_all

lemma concat_chunks: "0 < k \<Longrightarrow> concat (chunks k xs) = xs"
  by (induction k xs rule: chunks.induct) (subst chunks.simps, simp)

lemma chunks_length: "0 < k \<Longrightarrow> k dvd length xs \<Longrightarrow> list_all (\<lambda>g. length g = k) (chunks k xs)"
proof (induction k xs rule: chunks.induct)
  case (1 k xs)
  then show ?case
    by (subst chunks.simps) (auto dest: dvd_imp_le simp: dvd_diff_nat)
qed

lemma length_chunks:
  assumes "0 < k" and "k dvd length xs"
  shows "length (chunks k xs) = length xs div k"
proof -
  have "length xs = length (concat (chunks k xs))" using assms(1) by (simp add: concat_chunks)
  also have "\<dots> = length (chunks k xs) * k"
    using chunks_length [OF assms] by (simp add: length_concat list_all_iff sum_list_triv cong: map_cong)
  finally show ?thesis using assms(1) by simp
qed

lemma replicate_False: "replicate k False = to_bits k 0"
  by (induction k) (simp_all add: to_bits_Suc, simp add: to_bits_def)

lemma list_all_Not_to_bits: "list_all Not (to_bits k n) \<longleftrightarrow> n mod 2 ^ k = 0"
proof
  assume "list_all Not (to_bits k n)"
  then have "to_bits k n = to_bits k 0"
    unfolding replicate_False [symmetric] by (intro replicate_eqI) (auto simp: list_all_iff)
  from arg_cong [OF this, of of_bits] show "n mod 2 ^ k = 0" by (simp add: of_bits_to_bits)
next
  assume "n mod 2 ^ k = 0"
  then have "to_bits k n = to_bits k 0" by (intro to_bits_cong) simp
  then show "list_all Not (to_bits k n)" by (simp add: replicate_False [symmetric] list_all_iff)
qed

lemma bytes_bits_simps [simp]:
  "bytes_bits [] = []" "bytes_bits (b # bs) = to_bits 8 (unat b) @ bytes_bits bs"
  by (simp_all add: bytes_bits_def)

lemma length_bytes_bits [simp]: "length (bytes_bits bs) = 8 * length bs"
  by (induction bs) simp_all

lemma base64_bits_simps [simp]:
  "base64_bits [] = []"
  "base64_bits (c # t) = to_bits 6 (the (multibase_base64url_value c)) @ base64_bits t"
  by (simp_all add: base64_bits_def)

lemma length_base64_bits [simp]: "length (base64_bits t) = 6 * length t"
  by (induction t) simp_all

subsection \<open>Padding\<close>

lemma mod_3_cases:
  obtains q where "n = 3 * q" | q where "n = 1 + 3 * q" | q where "n = 2 + 3 * (q :: nat)"
proof -
  have "\<exists>q. n = 3 * q \<or> n = 1 + 3 * q \<or> n = 2 + 3 * q" by presburger
  then show thesis using that by blast
qed

lemma mod_4_cases:
  obtains q where "n = 4 * q" | q where "n = 1 + 4 * q" | q where "n = 2 + 4 * q"
    | q where "n = 3 + 4 * (q :: nat)"
proof -
  have "\<exists>q. n = 4 * q \<or> n = 1 + 4 * q \<or> n = 2 + 4 * q \<or> n = 3 + 4 * q" by presburger
  then show thesis using that by blast
qed

lemma mod_24:
  "(k + 24 * q) mod 6 = (k mod 6 :: nat)" "(k + 24 * q) mod 8 = (k mod 8 :: nat)"
  "(k + 24 * q) div 6 = k div 6 + 4 * (q :: nat)" "(k + 24 * q) div 8 = k div 8 + 3 * q"
  using mod_mult_self1 [of k "4 * q" 6] mod_mult_self1 [of k "3 * q" 8]
    div_mult_self2 [of 6 k "4 * q"] div_mult_self2 [of 8 k "3 * q"]
  by simp_all

lemmas groups_24 = mod_24 mod_24 [of 0, simplified] add.assoc [symmetric]

lemma base64_pad_dvd: "6 dvd 8 * n + (6 - 8 * n mod 6) mod (6 :: nat)"
  unfolding dvd_eq_mod_eq_0 by (cases n rule: mod_3_cases) (simp_all add: groups_24)

lemma base64_pad_strip:
  "8 * n + (6 - 8 * n mod 6) mod 6 - (8 * n + (6 - 8 * n mod 6) mod 6) mod 8 = 8 * (n :: nat)"
  by (cases n rule: mod_3_cases) (simp_all add: groups_24)

lemma base64_pad_bytes:
  "n mod 4 \<noteq> 1 \<Longrightarrow> 6 * n - 8 * (6 * n div 8) = (6 - 8 * (6 * n div 8) mod 6) mod (6 :: nat)"
  by (cases n rule: mod_4_cases) (simp_all add: groups_24)

lemma base64_whole_bytes: "6 * n - 6 * n mod 8 = 8 * (6 * n div 8 :: nat)"
  by (simp add: minus_mod_eq_mult_div)

subsection \<open>Round trips\<close>

lemma length_base64_alphabet [simp]: "length base64url_alphabet = 64"
  by (simp add: base64url_alphabet_def)

lemma base64_alphabet_ranges:
  "base64url_alphabet =
   map char_of [65..<91 :: nat] @ map char_of [97..<123 :: nat] @ map char_of [48..<58 :: nat] @ ''-_''"
  by code_simp

lemma base64_alphabet_nth:
  "v < 26 \<Longrightarrow> base64url_alphabet ! v = char_of (65 + v)"
  "v < 26 \<Longrightarrow> base64url_alphabet ! (26 + v) = char_of (97 + v)"
  "v < 10 \<Longrightarrow> base64url_alphabet ! (52 + v) = char_of (48 + v)"
  "base64url_alphabet ! 62 = CHR ''-''" "base64url_alphabet ! 63 = CHR ''_''"
  unfolding base64_alphabet_ranges by (simp_all add: nth_append del: upt_rec_numeral)

lemma base64_digit_cases:
  assumes "v < (64 :: nat)"
  obtains "v < 26" | w where "v = 26 + w" "w < 26" | w where "v = 52 + w" "w < 10" | "v = 62" | "v = 63"
proof -
  consider "v < 26" | "26 \<le> v" "v < 52" | "52 \<le> v" "v < 62" | "v = 62" | "v = 63"
    using assms by linarith
  then show thesis
    using that(1,4,5) that(2) [of "v - 26"] that(3) [of "v - 52"] by cases simp_all
qed

lemma base64_value_nth [simp]:
  assumes "v < 64"
  shows "multibase_base64url_value (base64url_alphabet ! v) = Some v"
  using assms by (cases rule: base64_digit_cases)
    (auto simp: base64_alphabet_nth multibase_base64url_value_def Let_def)

lemma base64_value_iff:
  "multibase_base64url_value c = Some v \<longleftrightarrow> v < 64 \<and> base64url_alphabet ! v = c"
proof
  have "base64url_alphabet ! (of_char c - 71) = c" if "97 \<le> (of_char c :: nat)" "of_char c \<le> (122 :: nat)"
  proof -
    have "of_char c - 71 = 26 + (of_char c - 97 :: nat)" and "of_char c - 97 < (26 :: nat)"
      and "97 + (of_char c - 97) = (of_char c :: nat)" using that by simp_all
    then show ?thesis by (simp only: base64_alphabet_nth char_of_char)
  qed
  moreover have "base64url_alphabet ! (4 + of_char c) = c" if "48 \<le> (of_char c :: nat)" "of_char c \<le> (57 :: nat)"
  proof -
    have "4 + of_char c = 52 + (of_char c - 48 :: nat)" and "of_char c - 48 < (10 :: nat)"
      and "48 + (of_char c - 48) = (of_char c :: nat)" using that by simp_all
    then show ?thesis by (simp only: base64_alphabet_nth char_of_char)
  qed
  moreover assume "multibase_base64url_value c = Some v"
  ultimately show "v < 64 \<and> base64url_alphabet ! v = c"
    by (auto simp: base64_alphabet_nth multibase_base64url_value_def Let_def split: if_splits)
qed auto

lemma base64_bits_text:
  "base64_bits (base64_text bs) =
   bytes_bits bs @ replicate ((6 - 8 * length bs mod 6) mod 6) False"
proof -
  let ?bits = "bytes_bits bs @ replicate ((6 - 8 * length bs mod 6) mod 6) False"
  have "6 dvd length ?bits" using base64_pad_dvd by simp
  then have g: "length g = 6" if "g \<in> set (chunks 6 ?bits)" for g
    using chunks_length [of 6 ?bits] that by (simp add: list_all_iff)
  have "to_bits 6 (the (multibase_base64url_value (base64url_alphabet ! of_bits g))) = g"
    if "g \<in> set (chunks 6 ?bits)" for g
    using g [OF that] of_bits_less [of g] by (simp add: to_bits_of_bits)
  then have "base64_bits (base64_text bs) = concat (chunks 6 ?bits)"
    by (simp add: base64_bits_def base64_text_def Let_def comp_def cong: map_cong)
  then show ?thesis by (simp add: concat_chunks)
qed

lemma base64_text_chars: "base64_chars (base64_text bs)"
proof -
  let ?bits = "bytes_bits bs @ replicate ((6 - 8 * length bs mod 6) mod 6) False"
  have "6 dvd length ?bits" using base64_pad_dvd by simp
  then have "of_bits g < 64" if "g \<in> set (chunks 6 ?bits)" for g
    using chunks_length [of 6 ?bits] that of_bits_less [of g] by (auto simp: list_all_iff)
  then show ?thesis
    by (auto simp: base64_chars_def base64_text_def Let_def list_all_iff)
qed

lemma chunks_bytes_bits:
  "map (\<lambda>g. of_nat (of_bits g)) (chunks 8 (bytes_bits bs)) = bs"
proof -
  have "chunks 8 (bytes_bits bs) = map (\<lambda>b. to_bits 8 (unat b)) bs"
    unfolding bytes_bits_def by (rule chunks_concat) (simp_all add: list_all_iff)
  then show ?thesis by (simp add: comp_def of_bits_to_bits)
qed

lemma base64_bytes_text [codec_laws, simp]: "base64_bytes (base64_text bs) = bs"
  unfolding base64_bytes_def Let_def base64_bits_text length_append length_bytes_bits
    length_replicate base64_pad_strip by (simp add: chunks_bytes_bits)

lemma base64_text_valid [simp]: "base64_valid (base64_text bs)"
  unfolding base64_valid_def Let_def base64_bits_text length_append length_bytes_bits
    length_replicate base64_pad_strip by (simp add: base64_text_chars list_all_iff)

lemma bytes_bits_bytes:
  "bytes_bits (base64_bytes t) = take (8 * (6 * length t div 8)) (base64_bits t)"
proof -
  let ?bits = "take (8 * (6 * length t div 8)) (base64_bits t)"
  have "8 dvd length ?bits"
    unfolding length_take length_base64_bits min.absorb1 [OF times_div_less_eq_dividend] by simp
  then have g: "length g = 8" if "g \<in> set (chunks 8 ?bits)" for g
    using chunks_length [of 8 ?bits] that by (simp add: list_all_iff)
  have "to_bits 8 (unat (of_nat (of_bits g) :: byte)) = g" if "g \<in> set (chunks 8 ?bits)" for g
    using g [OF that] of_bits_less [of g] by (simp add: to_bits_of_bits unat_of_nat)
  then have "bytes_bits (base64_bytes t) = concat (chunks 8 ?bits)"
    by (simp add: bytes_bits_def base64_bytes_def Let_def comp_def base64_whole_bytes cong: map_cong)
  then show ?thesis by (simp add: concat_chunks)
qed

lemma length_base64_bytes: "length (base64_bytes t) = 6 * length t div 8"
  using arg_cong [OF bytes_bits_bytes [of t], of length] by simp

lemma base64_text_bytes [codec_laws]:
  assumes "base64_valid t" and "length t mod 4 \<noteq> 1"
  shows "base64_text (base64_bytes t) = t"
proof -
  let ?k = "8 * (6 * length t div 8)" and ?n = "length (base64_bytes t)"
  have "drop ?k (base64_bits t) = replicate (6 * length t - ?k) False"
    using assms(1)
    by (intro replicate_eqI) (auto simp: base64_valid_def Let_def list_all_iff base64_whole_bytes)
  moreover have "6 * length t - ?k = (6 - 8 * ?n mod 6) mod 6"
    unfolding length_base64_bytes by (rule base64_pad_bytes [OF assms(2)])
  ultimately have bits: "bytes_bits (base64_bytes t) @ replicate ((6 - 8 * ?n mod 6) mod 6) False = base64_bits t"
    unfolding bytes_bits_bytes by (metis append_take_drop_id)
  have "chunks 6 (base64_bits t) = map (\<lambda>c. to_bits 6 (the (multibase_base64url_value c))) t"
    unfolding base64_bits_def by (rule chunks_concat) (simp_all add: list_all_iff)
  moreover have "base64url_alphabet ! of_bits (to_bits 6 (the (multibase_base64url_value c))) = c"
    if "c \<in> set t" for c
    using assms(1) that
    by (auto simp: base64_valid_def base64_chars_def list_all_iff Let_def of_bits_to_bits base64_value_iff)
  ultimately show ?thesis
    unfolding base64_text_def Let_def length_bytes_bits bits by (simp add: comp_def map_idI)
qed

subsection \<open>Groups\<close>

abbreviation b64 :: "nat \<Rightarrow> char" where
  "b64 v \<equiv> base64url_alphabet ! (v mod 64)"

lemma to_bits_24:
  "to_bits 24 n = to_bits 6 (n div 2 ^ 18) @ to_bits 6 (n div 2 ^ 12) @ to_bits 6 (n div 2 ^ 6) @ to_bits 6 n"
  using to_bits_append [of 6 18 n] to_bits_append [of 6 12 n] to_bits_append [of 6 6 n] by simp

lemma base64_text_group:
  "base64_text (b0 # b1 # b2 # bs) =
   (let n = unat b0 * 2 ^ 16 + unat b1 * 2 ^ 8 + unat b2
    in [b64 (n div 2 ^ 18), b64 (n div 2 ^ 12), b64 (n div 2 ^ 6), b64 n]) @ base64_text bs"
proof -
  let ?n = "unat b0 * 2 ^ 16 + unat b1 * 2 ^ 8 + unat b2"
  have "to_bits 8 (unat b0) @ to_bits 8 (unat b1) @ to_bits 8 (unat b2) = to_bits 24 ?n"
    using to_bits_join [of "unat b2" 8 8 "unat b1"] to_bits_join [of "unat b1 * 2 ^ 8 + unat b2" 16 8 "unat b0"]
      byte_bound [of b1] byte_bound [of b2] by (simp add: add.assoc)
  then have bits: "bytes_bits (b0 # b1 # b2 # bs) = to_bits 24 ?n @ bytes_bits bs"
    by (simp only: bytes_bits_simps append_assoc [symmetric])
  have pad: "length (to_bits 24 ?n @ bytes_bits bs) mod 6 = length (bytes_bits bs) mod 6"
    using mod_24(1) [of "8 * length bs" 1] by (simp add: add.commute)
  show ?thesis
    unfolding base64_text_def Let_def bits pad unfolding to_bits_24 by (simp add: of_bits_to_bits)
qed

lemma base64_text_one: "base64_text [b0] = [b64 (unat b0 div 4), b64 (unat b0 * 16)]"
proof -
  have "to_bits 8 (unat b0) @ replicate 4 False = to_bits 6 (unat b0 * 16 div 64) @ to_bits 6 (unat b0 * 16)"
    using to_bits_join [of 0 4 8 "unat b0"] to_bits_append [of 6 6 "unat b0 * 16"]
    by (simp add: replicate_False)
  then show ?thesis
    unfolding base64_text_def Let_def by (simp add: of_bits_to_bits chunks_one)
qed

lemma two_bytes_groups:
  assumes "y < (256 :: nat)"
  shows "(x * 256 + y) * 4 div 4096 = x div 4" and "(x * 256 + y) * 4 div 64 = x * 16 + y div 16"
    and "(x * 256 + y) * 4 mod 64 = y * 4 mod 64"
proof -
  have "(x * 256 + y) * 4 div 4096 = (x * 256 + y) div 256 div 4"
    unfolding div_mult2_eq [symmetric] by simp
  also have "(x * 256 + y) div 256 = x" using assms by simp
  finally show "(x * 256 + y) * 4 div 4096 = x div 4" .
  have "(x * 256 + y) * 4 div 64 = (y + 16 * (x * 16)) div 16" by (simp add: add.commute)
  also have "\<dots> = x * 16 + y div 16" by simp
  finally show "(x * 256 + y) * 4 div 64 = x * 16 + y div 16" .
  have "(x * 256 + y) * 4 = y * 4 + 64 * (x * 16)" by simp
  then show "(x * 256 + y) * 4 mod 64 = y * 4 mod 64" by (simp only: mod_mult_self2)
qed

lemma base64_text_two:
  "base64_text [b0, b1] =
   [b64 (unat b0 div 4), b64 (unat b0 * 16 + unat b1 div 16), b64 (unat b1 * 4)]"
proof -
  let ?n = "(unat b0 * 256 + unat b1) * 4"
  have "to_bits 8 (unat b0) @ to_bits 8 (unat b1) @ replicate 2 False = to_bits 18 ?n"
    using to_bits_join [of 0 2 16 "unat b0 * 256 + unat b1"] to_bits_join [of "unat b1" 8 8 "unat b0"]
    unfolding append_assoc [symmetric] by (simp add: replicate_False)
  also have "\<dots> = to_bits 6 (?n div 4096) @ to_bits 6 (?n div 64) @ to_bits 6 ?n"
    using to_bits_append [of 6 12 ?n] to_bits_append [of 6 6 ?n] by simp
  finally have eq: "to_bits 8 (unat b0) @ to_bits 8 (unat b1) @ replicate 2 False =
    to_bits 6 (?n div 4096) @ to_bits 6 (?n div 64) @ to_bits 6 ?n" .
  have "base64_text [b0, b1] = [b64 (?n div 4096), b64 (?n div 64), b64 ?n]"
    unfolding base64_text_def Let_def by (simp add: eq of_bits_to_bits chunks_one)
  then show ?thesis unfolding two_bytes_groups [OF byte_bound [of b1]] .
qed

subsection \<open>The encoder\<close>

lemma unat_byte_u32 [simp]: "unat (ucast (b :: byte) :: u32) = unat b"
  by (rule unat_ucast_word) simp

lemma unat_chunk:
  "unat (push_bit 16 (ucast (b0 :: byte) :: u32) OR push_bit 8 (ucast (b1 :: byte)) OR ucast (b2 :: byte)) =
   unat b0 * 2 ^ 16 + unat b1 * 2 ^ 8 + unat b2"
proof -
  have "unat (push_bit 8 (ucast b1 :: u32) OR ucast b2) = unat b1 * 2 ^ 8 + unat b2"
    by (subst unat_shift_or) simp_all
  moreover have "unat b1 * 256 + unat b2 < 65536"
    using byte_bound [of b1] byte_bound [of b2] by linarith
  ultimately show ?thesis by (subst unat_shift_or) simp_all
qed

lemma unat_and_3f: "unat ((x :: 'a::len word) AND 0x3f) = unat x mod 64"
  using unat_and_mask [of x 6] by (simp add: mask_eq_exp_minus_1)

lemma unat_and_0f: "unat ((x :: 'a::len word) AND 0x0f) = unat x mod 16"
  using unat_and_mask [of x 4] by (simp add: mask_eq_exp_minus_1)

lemma unat_and_03: "unat ((x :: 'a::len word) AND 0x03) = unat x mod 4"
  using unat_and_mask [of x 2] by (simp add: mask_eq_exp_minus_1)

lemma encode_tail_values:
  "unat (drop_bit 2 (b :: byte)) = unat b div 4 mod 64"
  "unat (push_bit 4 ((ucast b :: u32) AND 0x03)) = unat b * 16 mod 64"
  "unat (push_bit 4 ((ucast b :: u32) AND 0x03) OR drop_bit 4 (ucast (c :: byte))) =
     (unat b * 16 + unat c div 16) mod 64"
  "unat (push_bit 2 ((ucast b :: u32) AND 0x0f)) = unat b * 4 mod 64"
proof -
  have c: "unat c div 16 < 16" using byte_bound [of c] by linarith
  show "unat (drop_bit 2 b) = unat b div 4 mod 64"
    unfolding unat_drop_bit_div using byte_bound [of b] by (simp add: less_mult_imp_div_less)
  show p: "unat (push_bit 4 ((ucast b :: u32) AND 0x03)) = unat b * 16 mod 64"
    by (subst unat_push_bit_mult) (simp_all add: unat_and_03 mult_mod_left)
  show "unat (push_bit 2 ((ucast b :: u32) AND 0x0f)) = unat b * 4 mod 64"
    by (subst unat_push_bit_mult) (simp_all add: unat_and_0f mult_mod_left)
  have "unat (push_bit 4 ((ucast b :: u32) AND 0x03) OR drop_bit 4 (ucast c)) =
      unat b mod 4 * 16 + unat c div 16"
    using c by (subst unat_shift_or) (simp_all add: unat_and_03 unat_drop_bit_div)
  also have "\<dots> = (unat b mod 4 * 16 + unat c div 16 + 64 * (unat b div 4)) mod 64"
  proof -
    have "unat b mod 4 * 16 + unat c div 16 < 64"
      using c mod_less_divisor [of 4 "unat b"] by linarith
    then show ?thesis by simp
  qed
  also have "unat b mod 4 * 16 + unat c div 16 + 64 * (unat b div 4) = unat b * 16 + unat c div 16"
    using mod_mult_div_eq [of "unat b" 4] by linarith
  finally show "unat (push_bit 4 ((ucast b :: u32) AND 0x03) OR drop_bit 4 (ucast c)) =
     (unat b * 16 + unat c div 16) mod 64" .
qed

lemma groups_of_three_induct:
  assumes "\<And>a b c xs. P xs \<Longrightarrow> P (a # b # c # xs)" and "\<And>a. P [a]" and "\<And>a b. P [a, b]" and "P []"
  shows "P xs"
proof (induction xs rule: length_induct)
  case (1 xs)
  show ?case
  proof (cases "length xs < 3")
    case True
    then have "xs = [] \<or> (\<exists>a. xs = [a]) \<or> (\<exists>a b. xs = [a, b])"
      by (cases xs; cases "tl xs") (auto simp: numeral_3_eq_3)
    with assms show ?thesis by blast
  next
    case False
    then obtain a b c ys where "xs = a # b # c # ys"
      by (metis Suc_le_length_iff numeral_3_eq_3 not_less)
    with 1 assms(1) show ?thesis by simp
  qed
qed

lemma encode_base64url_loop_correct:
  "length pre = i \<Longrightarrow> length (base64_text bs) \<le> length rest \<Longrightarrow>
   encode_base64url_loop bs i (pre @ rest) =
   Some (pre @ base64_text bs @ drop (length (base64_text bs)) rest)"
proof (induction bs arbitrary: pre i rest rule: groups_of_three_induct)
  case (1 b0 b1 b2 bs)
  define n where "n = unat b0 * 2 ^ 16 + unat b1 * 2 ^ 8 + unat b2"
  define chunk where "chunk = push_bit 16 (ucast b0 :: u32) OR push_bit 8 (ucast b1) OR ucast b2"
  have n: "unat chunk = n" by (simp only: chunk_def n_def unat_chunk)
  have v: "unat (drop_bit k chunk AND 0x3f) = n div 2 ^ k mod 64" for k
    by (simp only: unat_and_3f unat_drop_bit_div n)
  have v0: "unat (chunk AND 0x3f) = n mod 64"
    by (simp only: unat_and_3f n)
  let ?g = "[b64 (n div 2 ^ 18), b64 (n div 2 ^ 12), b64 (n div 2 ^ 6), b64 n]"
  have enc: "base64_text (b0 # b1 # b2 # bs) = ?g @ base64_text bs"
    unfolding base64_text_group Let_def n_def ..
  obtain r0 r1 r2 r3 rest' where rest: "rest = r0 # r1 # r2 # r3 # rest'"
    using 1(3) unfolding enc by (auto simp: Suc_le_length_iff)
  have "encode_base64url_loop (b0 # b1 # b2 # bs) i (pre @ rest) =
      encode_base64url_loop bs (i + 4) ((pre @ ?g) @ rest')"
    unfolding encode_base64url_loop.simps Let_def chunk_def [symmetric] v v0
    using 1(2) by (simp add: rest wr_def list_update_append)
  also have "\<dots> = Some ((pre @ ?g) @ base64_text bs @ drop (length (base64_text bs)) rest')"
    using 1(2,3) by (intro 1(1)) (simp_all add: enc rest)
  finally show ?case unfolding enc by (simp add: rest)
next
  case (2 b)
  then obtain r0 r1 rest' where "rest = r0 # r1 # rest'"
    by (auto simp: base64_text_one Suc_le_length_iff)
  with 2 show ?case
    unfolding encode_base64url_loop.simps encode_tail_values
    by (simp add: base64_text_one wr_def list_update_append)
next
  case (3 b0 b1)
  then obtain r0 r1 r2 rest' where "rest = r0 # r1 # r2 # rest'"
    by (auto simp: base64_text_two Suc_le_length_iff)
  with 3 show ?case
    unfolding encode_base64url_loop.simps encode_tail_values
    by (simp add: base64_text_two wr_def list_update_append)
next
  case 4
  then show ?case by (simp add: base64_text_def)
qed

lemma mul_overflow_fits: "a * b \<le> SIZE_MAX \<Longrightarrow> multibase_mul_overflow a b = (False, a * b)"
  by (auto simp: multibase_mul_overflow_def div_less_iff_less_mult mult.commute)

lemma add_overflow_fits: "a + b \<le> SIZE_MAX \<Longrightarrow> multibase_add_overflow a b = (False, a + b)"
  by (auto simp: multibase_add_overflow_def)

lemma base64_text_Nil [simp]: "base64_text [] = []"
  by (simp add: base64_text_def)

lemma length_base64_text:
  "length (base64_text bs) = 4 * (length bs div 3) + (if length bs mod 3 = 0 then 0 else length bs mod 3 + 1)"
proof (induction bs rule: groups_of_three_induct)
  case (1 b0 b1 b2 bs)
  have "length (b0 # b1 # b2 # bs) = length bs + 3" by simp
  then have "length (b0 # b1 # b2 # bs) div 3 = Suc (length bs div 3)"
    and "length (b0 # b1 # b2 # bs) mod 3 = length bs mod 3"
    by simp_all
  with 1 show ?case
    unfolding base64_text_group Let_def length_append by simp
qed (simp_all add: base64_text_one base64_text_two)

lemma base64_exact_size:
  assumes "length bs \<le> PTRDIFF_MAX"
  shows "multibase_base64_encoded_exact_size (length bs) = length (base64_text bs)"
    and "multibase_add_overflow 1 (length (base64_text bs)) = (False, 1 + length (base64_text bs))"
proof -
  let ?q = "length bs div 3" and ?r = "length bs mod 3"
  have "3 * ?q + ?r = length bs" by simp
  then have q: "4 * ?q + 4 \<le> SIZE_MAX" using assms by (simp add: SIZE_MAX_def PTRDIFF_MAX_def)
  then have "multibase_mul_overflow ?q 4 = (False, ?q * 4)" by (intro mul_overflow_fits) simp
  moreover have "multibase_add_overflow (?q * 4) k = (False, ?q * 4 + k)" if "k \<le> 4" for k
    using q that by (intro add_overflow_fits) simp
  moreover have r: "?r = 0 \<or> ?r = 1 \<or> ?r = 2" by auto
  ultimately show "multibase_base64_encoded_exact_size (length bs) = length (base64_text bs)"
    by (auto simp: multibase_base64_encoded_exact_size_def Let_def length_base64_text)
  have "length (base64_text bs) \<le> 4 * ?q + 3"
    using r by (auto simp: length_base64_text)
  then show "multibase_add_overflow 1 (length (base64_text bs)) = (False, 1 + length (base64_text bs))"
    using q by (intro add_overflow_fits) simp
qed

lemma encode_base64_correct:
  assumes "length bs \<le> PTRDIFF_MAX"
  shows "multibase_encode_base64url (Buf bs) (Buf out) =
    Some (if length (base64_text bs) < length out
          then (LIBP2P_MULTIBASE_OK, Suc (length (base64_text bs)),
                Buf (CHR ''u'' # base64_text bs @ drop (Suc (length (base64_text bs))) out))
          else (LIBP2P_MULTIBASE_ERR_BUF_TOO_SMALL, Suc (length (base64_text bs)), Buf out))"
proof (cases "length (base64_text bs) < length out")
  case True
  then obtain c cs where out: "out = c # cs" by (cases out) auto
  have "encode_base64url_loop bs 1 ([CHR ''u''] @ cs) =
      Some ([CHR ''u''] @ base64_text bs @ drop (length (base64_text bs)) cs)"
    using True out by (intro encode_base64url_loop_correct) simp_all
  with True show ?thesis
    by (simp add: multibase_encode_base64url_def Let_def base64_exact_size [OF assms, unfolded One_nat_def] out wr_def)
next
  case False
  then show ?thesis
    by (simp add: multibase_encode_base64url_def Let_def base64_exact_size [OF assms, unfolded One_nat_def])
qed

subsection \<open>The decoder\<close>

lemma groups_of_four_induct:
  assumes "\<And>a b c d xs. P xs \<Longrightarrow> P (a # b # c # d # xs)"
    and "\<And>a. P [a]" and "\<And>a b. P [a, b]" and "\<And>a b c. P [a, b, c]" and "P []"
  shows "P xs"
proof (induction xs rule: length_induct)
  case (1 xs)
  show ?case
  proof (cases "length xs < 4")
    case True
    then have "xs = [] \<or> (\<exists>a. xs = [a]) \<or> (\<exists>a b. xs = [a, b]) \<or> (\<exists>a b c. xs = [a, b, c])"
      by (cases xs; cases "tl xs"; cases "tl (tl xs)") (auto simp: numeral_eq_Suc)
    with assms show ?thesis by blast
  next
    case False
    then have "Suc (Suc (Suc (Suc 0))) \<le> length xs" by simp
    then obtain a b c d ys where "xs = a # b # c # d # ys" by (auto simp: Suc_le_length_iff)
    with 1 assms(1) show ?thesis by simp
  qed
qed

lemma of_nat_byte_mod: "(of_nat (n mod 256) :: byte) = of_nat n"
  by (rule word_unat_eq_iff [THEN iffD2]) (simp add: unat_of_nat)

lemma to_bits_24_bytes:
  "to_bits 24 n = to_bits 8 (n div 2 ^ 16) @ to_bits 8 (n div 2 ^ 8) @ to_bits 8 n"
  using to_bits_append [of 8 16 n] to_bits_append [of 8 8 n] by simp

abbreviation b64_value :: "char \<Rightarrow> nat" where
  "b64_value c \<equiv> the (multibase_base64url_value c)"

lemma b64_value_less: "multibase_base64url_value c \<noteq> None \<Longrightarrow> b64_value c < 64"
  by (auto simp: base64_value_iff)

lemma base64_bits_group:
  assumes "base64_chars [c1, c2, c3]"
  shows "base64_bits (c0 # c1 # c2 # c3 # t) =
    to_bits 24 (b64_value c0 * 2 ^ 18 + (b64_value c1 * 2 ^ 12 + (b64_value c2 * 2 ^ 6 + b64_value c3))) @
    base64_bits t"
proof -
  let ?v1 = "b64_value c1" and ?v2 = "b64_value c2" and ?v3 = "b64_value c3"
  have "?v1 < 64" "?v2 < 64" "?v3 < 64"
    using assms by (simp_all add: base64_chars_def b64_value_less)
  then have "?v3 < 2 ^ 6" "?v2 * 2 ^ 6 + ?v3 < 2 ^ 12"
    "?v1 * 2 ^ 12 + (?v2 * 2 ^ 6 + ?v3) < 2 ^ 18" by simp_all
  then have "to_bits 6 (b64_value c0) @ to_bits 6 ?v1 @ to_bits 6 ?v2 @ to_bits 6 ?v3 =
      to_bits 24 (b64_value c0 * 2 ^ 18 + (?v1 * 2 ^ 12 + (?v2 * 2 ^ 6 + ?v3)))"
    by (simp add: to_bits_join)
  then show ?thesis
    by (simp only: base64_bits_simps append_assoc [symmetric])
qed

lemma base64_bytes_group:
  assumes "base64_chars [c1, c2, c3]"
  shows "base64_bytes (c0 # c1 # c2 # c3 # t) =
    (let n = b64_value c0 * 2 ^ 18 + (b64_value c1 * 2 ^ 12 + (b64_value c2 * 2 ^ 6 + b64_value c3))
     in [of_nat (n div 2 ^ 16), of_nat (n div 2 ^ 8), of_nat n]) @ base64_bytes t"
    and "list_all Not (drop (8 * (6 * length (c0 # c1 # c2 # c3 # t) div 8)) (base64_bits (c0 # c1 # c2 # c3 # t))) \<longleftrightarrow>
     list_all Not (drop (8 * (6 * length t div 8)) (base64_bits t))"
proof -
  let ?n = "b64_value c0 * 2 ^ 18 + (b64_value c1 * 2 ^ 12 + (b64_value c2 * 2 ^ 6 + b64_value c3))"
  have len: "8 * (6 * length (c0 # c1 # c2 # c3 # t) div 8) = 24 + 8 * (6 * length t div 8)"
    using mod_24(4) [of "6 * length t" 1] by (simp add: add.commute)
  show "base64_bytes (c0 # c1 # c2 # c3 # t) =
     (let n = ?n in [of_nat (n div 2 ^ 16), of_nat (n div 2 ^ 8), of_nat n]) @ base64_bytes t"
    unfolding base64_bytes_def Let_def length_base64_bits base64_whole_bytes len
    unfolding base64_bits_group [OF assms] to_bits_24_bytes
    by (simp add: of_bits_to_bits of_nat_byte_mod)
  show "list_all Not (drop (8 * (6 * length (c0 # c1 # c2 # c3 # t) div 8)) (base64_bits (c0 # c1 # c2 # c3 # t))) \<longleftrightarrow>
     list_all Not (drop (8 * (6 * length t div 8)) (base64_bits t))"
    unfolding len unfolding base64_bits_group [OF assms] by simp
qed

lemma base64_valid_group:
  "base64_valid (c0 # c1 # c2 # c3 # t) \<longleftrightarrow> base64_chars [c0, c1, c2, c3] \<and> base64_valid t"
proof (cases "base64_chars [c1, c2, c3]")
  case True
  then show ?thesis
    unfolding base64_valid_def Let_def length_base64_bits base64_whole_bytes
      base64_bytes_group(2) [OF True] by (auto simp: base64_chars_def)
next
  case False
  then show ?thesis by (auto simp: base64_valid_def Let_def base64_chars_def)
qed

lemma base64_valid_alt:
  "base64_valid t \<longleftrightarrow>
   base64_chars t \<and> list_all Not (drop (8 * (6 * length t div 8)) (base64_bits t))"
  by (simp add: base64_valid_def Let_def base64_whole_bytes)

lemma base64_bytes_alt:
  "base64_bytes t =
   map (\<lambda>g. of_nat (of_bits g)) (chunks 8 (take (8 * (6 * length t div 8)) (base64_bits t)))"
  by (simp add: base64_bytes_def Let_def base64_whole_bytes)

lemma base64_tail_two:
  assumes "base64_chars [c0, c1]"
  shows "base64_bytes [c0, c1] = [of_nat (b64_value c0 * 4 + b64_value c1 div 16)]"
    and "base64_valid [c0, c1] \<longleftrightarrow> b64_value c1 mod 16 = 0"
proof -
  let ?v0 = "b64_value c0" and ?v1 = "b64_value c1"
  let ?n = "?v0 * 64 + ?v1"
  have "?v1 < 64" using assms by (simp add: base64_chars_def b64_value_less)
  then have bits: "base64_bits [c0, c1] = to_bits 8 (?n div 16) @ to_bits 4 ?n"
    using to_bits_append [of 8 4 ?n] by (simp add: to_bits_join)
  have "?n = ?v1 + 16 * (?v0 * 4)" by simp
  then have "?n mod 16 = ?v1 mod 16" by (simp only: mod_mult_self2)
  moreover have "?n div 16 = ?v0 * 4 + ?v1 div 16" by simp
  ultimately show "base64_bytes [c0, c1] = [of_nat (?v0 * 4 + ?v1 div 16)]"
    and "base64_valid [c0, c1] \<longleftrightarrow> ?v1 mod 16 = 0"
    using assms unfolding base64_bytes_alt base64_valid_alt bits
    by (simp_all add: chunks_one of_bits_to_bits of_nat_byte_mod list_all_Not_to_bits del: of_nat_add of_nat_mult)
qed

lemma base64_tail_three:
  assumes "base64_chars [c0, c1, c2]"
  shows "base64_bytes [c0, c1, c2] =
      [of_nat (b64_value c0 * 4 + b64_value c1 div 16), of_nat (b64_value c1 * 16 + b64_value c2 div 4)]"
    and "base64_valid [c0, c1, c2] \<longleftrightarrow> b64_value c2 mod 4 = 0"
proof -
  let ?v0 = "b64_value c0" and ?v1 = "b64_value c1" and ?v2 = "b64_value c2"
  let ?n = "?v0 * 4096 + (?v1 * 64 + ?v2)"
  have v: "?v1 < 64" "?v2 < 64" using assms by (simp_all add: base64_chars_def b64_value_less)
  then have "base64_bits [c0, c1, c2] = to_bits 18 ?n" by (simp add: to_bits_join)
  also have "\<dots> = to_bits 8 (?n div 1024) @ to_bits 8 (?n div 4) @ to_bits 2 ?n"
    using to_bits_append [of 8 10 ?n] to_bits_append [of 8 2 ?n] by simp
  finally have bits: "base64_bits [c0, c1, c2] = \<dots>" .
  have "?n = ?v2 + 4 * (?v0 * 1024 + ?v1 * 16)" by simp
  then have n4: "?n mod 4 = ?v2 mod 4" "?n div 4 = ?v0 * 1024 + ?v1 * 16 + ?v2 div 4"
    by (simp only: mod_mult_self2, simp)
  have "?n div 1024 = ?n div 64 div 16" unfolding div_mult2_eq [symmetric] by simp
  also have "?n div 64 = ?v1 + 16 * (?v0 * 4)" using v(2) by simp
  finally have n1024: "?n div 1024 = ?v0 * 4 + ?v1 div 16" by simp
  have "(?n div 4) mod 256 = (?v1 * 16 + ?v2 div 4) mod 256"
    unfolding n4(2) using mod_mult_self2 [of "?v1 * 16 + ?v2 div 4" 256 "?v0 * 4"]
    by (simp add: ac_simps)
  then have "(of_nat (?n div 4) :: byte) = of_nat (?v1 * 16 + ?v2 div 4)"
    by (metis of_nat_byte_mod)
  then show "base64_bytes [c0, c1, c2] = [of_nat (?v0 * 4 + ?v1 div 16), of_nat (?v1 * 16 + ?v2 div 4)]"
    unfolding base64_bytes_alt bits n1024
    by (simp add: chunks_one of_bits_to_bits of_nat_byte_mod del: of_nat_add of_nat_mult)
  show "base64_valid [c0, c1, c2] \<longleftrightarrow> ?v2 mod 4 = 0"
    using assms n4(1) unfolding base64_valid_alt bits by (simp add: list_all_Not_to_bits)
qed

lemma decode_words:
  assumes "v0 < 64" and "v1 < 64" and "v2 < 64" and "v3 < 64"
  shows "unat (push_bit 18 (of_nat v0 :: u32) OR push_bit 12 (of_nat v1) OR push_bit 6 (of_nat v2) OR of_nat v3) =
      v0 * 2 ^ 18 + (v1 * 2 ^ 12 + (v2 * 2 ^ 6 + v3))"
    and "unat (push_bit 2 (of_nat v0 :: u32) OR drop_bit 4 (of_nat v1)) = v0 * 4 + v1 div 16"
    and "unat (push_bit 4 (of_nat v1 :: u32) OR drop_bit 2 (of_nat v2)) = v1 * 16 + v2 div 4"
proof -
  have u: "unat (of_nat v :: u32) = v" if "v < 64" for v
    using that by (simp add: unat_of_nat)
  note us = u [OF assms(1)] u [OF assms(2)] u [OF assms(3)] u [OF assms(4)]
  have a: "unat (push_bit 6 (of_nat v2 :: u32) OR of_nat v3) = v2 * 2 ^ 6 + v3"
    using assms by (subst unat_shift_or) (simp_all only: us, simp_all)
  have b: "unat (push_bit 12 (of_nat v1 :: u32) OR push_bit 6 (of_nat v2) OR of_nat v3) =
      v1 * 2 ^ 12 + (v2 * 2 ^ 6 + v3)"
    using assms by (subst unat_shift_or) (simp_all only: us a, simp_all)
  show "unat (push_bit 18 (of_nat v0 :: u32) OR push_bit 12 (of_nat v1) OR push_bit 6 (of_nat v2) OR of_nat v3) =
      v0 * 2 ^ 18 + (v1 * 2 ^ 12 + (v2 * 2 ^ 6 + v3))"
    using assms by (subst unat_shift_or) (simp_all only: us b, simp_all)
  have d: "unat (drop_bit 4 (of_nat v1 :: u32)) = v1 div 16" "unat (drop_bit 2 (of_nat v2 :: u32)) = v2 div 4"
    by (simp_all only: unat_drop_bit_div us) simp_all
  show "unat (push_bit 2 (of_nat v0 :: u32) OR drop_bit 4 (of_nat v1)) = v0 * 4 + v1 div 16"
    using assms by (subst unat_shift_or) (simp_all only: us d, simp_all add: less_mult_imp_div_less)
  show "unat (push_bit 4 (of_nat v1 :: u32) OR drop_bit 2 (of_nat v2)) = v1 * 16 + v2 div 4"
    using assms by (subst unat_shift_or) (simp_all only: us d, simp_all add: less_mult_imp_div_less)
qed

lemma ucast_of_nat_unat: "(ucast (w :: u32) :: byte) = of_nat (unat w)"
  by simp

lemma store_if_append:
  "(avail \<Longrightarrow> length pre = i) \<Longrightarrow> (avail \<Longrightarrow> length bs \<le> length rest) \<Longrightarrow>
   store_if avail (pre @ rest) i bs = Some (pre @ (if avail then bs @ drop (length bs) rest else rest))"
  by (simp add: store_if_def memcpy_at_append)

text \<open>One step of the decoder on a group of four characters.\<close>

lemma decode_group_step:
  assumes "base64_chars [c0, c1, c2, c3]" and "avail \<Longrightarrow> length pre = i" and "avail \<Longrightarrow> 3 \<le> length rest"
  shows "\<exists>g. base64_bytes (c0 # c1 # c2 # c3 # t) = g @ base64_bytes t \<and> length g = 3 \<and>
    decode_base64url_loop (c0 # c1 # c2 # c3 # t) avail i (pre @ rest) =
    decode_base64url_loop t avail (i + 3) (pre @ (if avail then g @ drop 3 rest else rest))"
proof -
  obtain v0 v1 v2 v3 where v: "multibase_base64url_value c0 = Some v0" "multibase_base64url_value c1 = Some v1"
    "multibase_base64url_value c2 = Some v2" "multibase_base64url_value c3 = Some v3"
    using assms(1) by (auto simp: base64_chars_def)
  then have l: "v0 < 64" "v1 < 64" "v2 < 64" "v3 < 64" by (simp_all add: base64_value_iff)
  define chunk where "chunk = push_bit 18 (of_nat v0 :: u32) OR push_bit 12 (of_nat v1) OR
    push_bit 6 (of_nat v2) OR of_nat v3"
  define g :: "byte list" where "g = [ucast (drop_bit 16 chunk), ucast (drop_bit 8 chunk), ucast chunk]"
  have g3: "length g = 3" by (simp add: g_def)
  have "base64_chars [c1, c2, c3]" using assms(1) by (simp add: base64_chars_def)
  from base64_bytes_group(1) [OF this, of c0 t]
  have "base64_bytes (c0 # c1 # c2 # c3 # t) = g @ base64_bytes t"
    unfolding g_def ucast_of_nat_unat unat_drop_bit_div
    unfolding chunk_def decode_words(1) [OF l] Let_def v option.sel .
  moreover have "store_if avail (pre @ rest) i g = Some (pre @ (if avail then g @ drop 3 rest else rest))"
    using assms(2,3) store_if_append [of avail pre i g rest] g3 by auto
  then have "decode_base64url_loop (c0 # c1 # c2 # c3 # t) avail i (pre @ rest) =
    decode_base64url_loop t avail (i + 3) (pre @ (if avail then g @ drop 3 rest else rest))"
    unfolding g_def chunk_def by (simp only: decode_base64url_loop.simps v prod.case option.case Let_def Option.bind.bind_lunit)
  ultimately show ?thesis using g3 by blast
qed

lemma base64_chars_simps [simp]:
  "base64_chars []"
  "base64_chars (c # t) \<longleftrightarrow> multibase_base64url_value c \<noteq> None \<and> base64_chars t"
  by (simp_all add: base64_chars_def)

lemma decode_two_step:
  assumes "base64_chars [c0, c1]" and "avail \<Longrightarrow> length pre = i" and "avail \<Longrightarrow> 1 \<le> length rest"
  shows "decode_base64url_loop [c0, c1] avail i (pre @ rest) =
    Some (if base64_valid [c0, c1]
          then (LIBP2P_MULTIBASE_OK, pre @ (if avail then base64_bytes [c0, c1] @ drop 1 rest else rest))
          else (LIBP2P_MULTIBASE_ERR_INVALID_CHARACTER, pre @ rest))"
proof -
  obtain v0 v1 where v: "multibase_base64url_value c0 = Some v0" "multibase_base64url_value c1 = Some v1"
    using assms(1) by auto
  then have l: "v0 < 64" "v1 < 64" by (simp_all add: base64_value_iff)
  have word: "(of_nat v1 :: u32) AND 0x0f \<noteq> 0 \<longleftrightarrow> v1 mod 16 \<noteq> 0"
    using l unfolding unat_eq_zero [symmetric] unat_and_0f by (simp add: unat_of_nat)
  obtain g where g: "g = [of_nat (v0 * 4 + v1 div 16) :: byte]" and "length g = 1" by simp
  then have "store_if avail (pre @ rest) i g = Some (pre @ (if avail then g @ drop 1 rest else rest))"
    using assms(2,3) store_if_append [of avail pre i g rest] by auto
  moreover have "[ucast (push_bit 2 (of_nat v0 :: u32) OR drop_bit 4 (of_nat v1))] = g"
    unfolding g ucast_of_nat_unat decode_words(2) [OF l l] ..
  ultimately have "decode_base64url_loop [c0, c1] avail i (pre @ rest) =
      (if v1 mod 16 \<noteq> 0 then Some (LIBP2P_MULTIBASE_ERR_INVALID_CHARACTER, pre @ rest)
       else Some (LIBP2P_MULTIBASE_OK, pre @ (if avail then g @ drop 1 rest else rest)))"
    by (simp only: decode_base64url_loop.simps v prod.case option.case word Option.bind.bind_lunit)
  then show ?thesis
    unfolding base64_tail_two [OF assms(1)] v option.sel g by simp
qed

lemma decode_three_step:
  assumes "base64_chars [c0, c1, c2]" and "avail \<Longrightarrow> length pre = i" and "avail \<Longrightarrow> 2 \<le> length rest"
  shows "decode_base64url_loop [c0, c1, c2] avail i (pre @ rest) =
    Some (if base64_valid [c0, c1, c2]
          then (LIBP2P_MULTIBASE_OK, pre @ (if avail then base64_bytes [c0, c1, c2] @ drop 2 rest else rest))
          else (LIBP2P_MULTIBASE_ERR_INVALID_CHARACTER, pre @ rest))"
proof -
  obtain v0 v1 v2 where v: "multibase_base64url_value c0 = Some v0"
    "multibase_base64url_value c1 = Some v1" "multibase_base64url_value c2 = Some v2"
    using assms(1) by auto
  then have l: "v0 < 64" "v1 < 64" "v2 < 64" by (simp_all add: base64_value_iff)
  have word: "(of_nat v2 :: u32) AND 0x03 \<noteq> 0 \<longleftrightarrow> v2 mod 4 \<noteq> 0"
    using l unfolding unat_eq_zero [symmetric] unat_and_03 by (simp add: unat_of_nat)
  obtain g where g: "g = [of_nat (v0 * 4 + v1 div 16), of_nat (v1 * 16 + v2 div 4) :: byte]"
    and g2: "length g = 2" by simp
  from g2 have "store_if avail (pre @ rest) i g = Some (pre @ (if avail then g @ drop 2 rest else rest))"
    using assms(2,3) store_if_append [of avail pre i g rest] by auto
  moreover have "[ucast (push_bit 2 (of_nat v0 :: u32) OR drop_bit 4 (of_nat v1)),
      ucast (push_bit 4 (of_nat v1 :: u32) OR drop_bit 2 (of_nat v2))] = g"
    unfolding g ucast_of_nat_unat decode_words(2,3) [OF l l(1)] ..
  ultimately have "decode_base64url_loop [c0, c1, c2] avail i (pre @ rest) =
      (if v2 mod 4 \<noteq> 0 then Some (LIBP2P_MULTIBASE_ERR_INVALID_CHARACTER, pre @ rest)
       else Some (LIBP2P_MULTIBASE_OK, pre @ (if avail then g @ drop 2 rest else rest)))"
    by (simp only: decode_base64url_loop.simps v prod.case option.case word Option.bind.bind_lunit)
  then show ?thesis
    unfolding base64_tail_three [OF assms(1)] v option.sel g by simp
qed

text \<open>The whole loop, from a buffer of which \<open>pre\<close> has been written.\<close>

lemma decode_base64url_loop_correct:
  assumes "length t mod 4 \<noteq> 1" and "avail \<Longrightarrow> length pre = i"
    and "avail \<Longrightarrow> length (base64_bytes t) \<le> length rest"
  shows "\<exists>out'. length out' = length (pre @ rest) \<and>
    decode_base64url_loop t avail i (pre @ rest) =
    Some (if base64_valid t
          then (LIBP2P_MULTIBASE_OK,
                pre @ (if avail then base64_bytes t @ drop (length (base64_bytes t)) rest else rest))
          else (LIBP2P_MULTIBASE_ERR_INVALID_CHARACTER, out'))"
  using assms
proof (induction t arbitrary: pre i rest rule: groups_of_four_induct)
  case (1 c0 c1 c2 c3 t)
  show ?case
  proof (cases "base64_chars [c0, c1, c2, c3]")
    case True
    have "3 \<le> length (base64_bytes (c0 # c1 # c2 # c3 # t))" by (simp add: length_base64_bytes)
    with 1(4) have room: "avail \<Longrightarrow> 3 \<le> length rest" by linarith
    from decode_group_step [OF True 1(3) room] obtain g where
      g: "base64_bytes (c0 # c1 # c2 # c3 # t) = g @ base64_bytes t" "length g = 3" and
      step: "decode_base64url_loop (c0 # c1 # c2 # c3 # t) avail i (pre @ rest) =
        decode_base64url_loop t avail (i + 3) (pre @ (if avail then g @ drop 3 rest else rest))"
      by blast
    have "\<exists>out'. length out' = length (pre @ rest) \<and>
      decode_base64url_loop t avail (i + 3) (pre @ (if avail then g @ drop 3 rest else rest)) =
      Some (if base64_valid t
            then (LIBP2P_MULTIBASE_OK, pre @ (if avail then g @ base64_bytes t @
                    drop (length (base64_bytes t)) (drop 3 rest) else rest))
            else (LIBP2P_MULTIBASE_ERR_INVALID_CHARACTER, out'))"
    proof (cases avail)
      case avail: True
      have "length t mod 4 \<noteq> 1" using 1(2) by (simp add: add.commute)
      moreover have "length (pre @ g) = i + 3" and "length (base64_bytes t) \<le> length (drop 3 rest)"
        and "length g + (length rest - 3) = length rest"
        using 1(3,4) g room avail by simp_all
      ultimately show ?thesis
        using 1(1) [of "pre @ g" "i + 3" "drop 3 rest"] avail
        by (simp split del: if_split cong: if_cong)
    next
      case False
      have "length t mod 4 \<noteq> 1" using 1(2) by simp
      with 1(1) [of pre "i + 3" rest] False show ?thesis by auto
    qed
    with step g True show ?thesis
      unfolding base64_valid_group by (simp add: add.commute split del: if_split cong: if_cong)
  next
    case False
    then have "decode_base64url_loop (c0 # c1 # c2 # c3 # t) avail i (pre @ rest) =
        Some (LIBP2P_MULTIBASE_ERR_INVALID_CHARACTER, pre @ rest)"
      by (auto split: option.splits)
    moreover have "\<not> base64_valid (c0 # c1 # c2 # c3 # t)" using False unfolding base64_valid_group by blast
    ultimately show ?thesis by (intro exI [of _ "pre @ rest"]) (simp only: simp_thms if_False)
  qed
next
  case (3 c0 c1)
  show ?case
  proof (cases "base64_chars [c0, c1]")
    case True
    from decode_two_step [OF True 3(2)] 3(3) show ?thesis
      by (intro exI [of _ "pre @ rest"]) (simp add: base64_tail_two(1) [OF True])
  next
    case False
    then show ?thesis
      by (intro exI [of _ "pre @ rest"]) (auto simp: base64_valid_alt split: option.splits)
  qed
next
  case (4 c0 c1 c2)
  show ?case
  proof (cases "base64_chars [c0, c1, c2]")
    case True
    from decode_three_step [OF True 4(2)] 4(3) show ?thesis
      by (intro exI [of _ "pre @ rest"]) (simp add: base64_tail_three(1) [OF True] numeral_2_eq_2)
  next
    case False
    then show ?thesis
      by (intro exI [of _ "pre @ rest"]) (auto simp: base64_valid_alt split: option.splits)
  qed
next
  case 5
  have "base64_valid []" "base64_bytes [] = []" by (simp_all add: base64_valid_alt base64_bytes_alt)
  then show ?case by (intro exI [of _ "pre @ rest"]) simp
qed simp

lemma base64_decoded_size:
  assumes "length t \<le> PTRDIFF_MAX"
  shows "multibase_base64_decoded_exact_size (length t) =
    (if length t mod 4 = 1 then (False, 0) else (True, length (base64_bytes t)))"
proof -
  have "length t div 4 * 3 + 3 \<le> SIZE_MAX"
    using assms by (simp add: SIZE_MAX_def PTRDIFF_MAX_def)
  then have "multibase_mul_overflow (length t div 4) 3 = (False, length t div 4 * 3)"
    and "k \<le> 3 \<Longrightarrow> multibase_add_overflow (length t div 4 * 3) k = (False, length t div 4 * 3 + k)" for k
    by (auto intro: mul_overflow_fits add_overflow_fits)
  moreover have two: "Suc (Suc (4 * q)) div 4 = q" "Suc (Suc (4 * q)) mod 4 = 2" for q by presburger+
  ultimately show ?thesis
    unfolding multibase_base64_decoded_exact_size_def Let_def length_base64_bytes
    by (cases "length t" rule: mod_4_cases) (simp_all add: groups_24 two)
qed

lemma decode_base64_correct:
  assumes "length t \<le> PTRDIFF_MAX"
  shows "\<exists>out'. length out' = length out \<and>
    multibase_decode_base64url (p # t) (Buf out) =
    Some (if length t mod 4 = 1 then (LIBP2P_MULTIBASE_ERR_INVALID_LENGTH, 0, Buf out)
          else if \<not> base64_valid t
          then (LIBP2P_MULTIBASE_ERR_INVALID_CHARACTER, length (base64_bytes t), Buf out')
          else if length (base64_bytes t) \<le> length out
          then (LIBP2P_MULTIBASE_OK, length (base64_bytes t),
                Buf (base64_bytes t @ drop (length (base64_bytes t)) out))
          else (LIBP2P_MULTIBASE_ERR_BUF_TOO_SMALL, length (base64_bytes t), Buf out))"
proof (cases "length t mod 4 = 1")
  case True
  then show ?thesis
    by (intro exI [of _ out]) (simp add: multibase_decode_base64url_def base64_decoded_size [OF assms] Let_def)
next
  case False
  let ?avail = "length (base64_bytes t) \<le> length out"
  from decode_base64url_loop_correct [OF False, of ?avail "[]" 0 out] obtain out' where
    "length out' = length out" and
    "decode_base64url_loop t ?avail 0 out =
     Some (if base64_valid t then (LIBP2P_MULTIBASE_OK,
             if ?avail then base64_bytes t @ drop (length (base64_bytes t)) out else out)
           else (LIBP2P_MULTIBASE_ERR_INVALID_CHARACTER, out'))" by auto
  with False show ?thesis
    by (intro exI [of _ out'])
      (simp add: multibase_decode_base64url_def base64_decoded_size [OF assms] Let_def)
qed

lemma decode_base64_null:
  assumes "length t \<le> PTRDIFF_MAX"
  shows "multibase_decode_base64url (p # t) (Null n) =
    Some (if length t mod 4 = 1 then (LIBP2P_MULTIBASE_ERR_INVALID_LENGTH, 0, Null n)
          else (if base64_valid t then LIBP2P_MULTIBASE_ERR_BUF_TOO_SMALL
                else LIBP2P_MULTIBASE_ERR_INVALID_CHARACTER, length (base64_bytes t), Null n))"
proof (cases "length t mod 4 = 1")
  case False
  from decode_base64url_loop_correct [OF False, of False "[]" 0 "[]"] False show ?thesis
    by (auto simp: multibase_decode_base64url_def base64_decoded_size [OF assms] Let_def)
qed (simp add: multibase_decode_base64url_def base64_decoded_size [OF assms] Let_def)

end
