(* ===== verification/Multibase_Text.thy ===== *)
theory Multibase_Text
  imports Multibase_Base58_Decoder Multibase_Base64
begin

text \<open>
  The public functions of \<open>src/src/multiformats/multibase/multibase.c\<close> against one reference: the
  text \<open>multibase_text base bs\<close>, the prefix character followed by the payload. The encoder writes
  exactly this text, the decoder accepts exactly such texts, and the size that
  \<open>libp2p_multibase_encoded_size\<close> reports is enough.
\<close>

fun multibase_text :: "libp2p_multibase_t \<Rightarrow> byte list \<Rightarrow> string" where
  "multibase_text LIBP2P_MULTIBASE_BASE58BTC bs = CHR ''z'' # base58_text bs"
| "multibase_text LIBP2P_MULTIBASE_BASE64URL bs = CHR ''u'' # base64_text bs"
| "multibase_text (MULTIBASE_OTHER n) bs = []"

fun multibase_supported :: "libp2p_multibase_t \<Rightarrow> bool" where
  "multibase_supported (MULTIBASE_OTHER n) = False"
| "multibase_supported b = True"

subsection \<open>Encoding\<close>

lemma length_multibase_text:
  "length (multibase_text LIBP2P_MULTIBASE_BASE58BTC bs) = Suc (length (base58_text bs))"
  "length (multibase_text LIBP2P_MULTIBASE_BASE64URL bs) = Suc (length (base64_text bs))"
  by simp_all

text \<open>
  For both bases, \<open>libp2p_multibase_encode\<close> writes exactly the multibase text of the input
  bytes when the output buffer has room for it, and otherwise reports BUF_TOO_SMALL; in no case
  does it access memory outside its buffers.
\<close>

theorem multibase_encode_correct:
  assumes "multibase_supported b" and "length bs \<le> PTRDIFF_MAX"
  shows "\<exists>w out' tail. length out' = length out \<and>
    length tail = length out - length (multibase_text b bs) \<and>
    libp2p_multibase_encode b (Buf bs) (Buf out) =
    Some (if length (multibase_text b bs) \<le> length out
          then (LIBP2P_MULTIBASE_OK, length (multibase_text b bs), Buf (multibase_text b bs @ tail))
          else (LIBP2P_MULTIBASE_ERR_BUF_TOO_SMALL, w, Buf out'))"
proof (cases b)
  case LIBP2P_MULTIBASE_BASE58BTC
  from encode_base58_correct [of bs out] obtain w out' tail where
    "multibase_encode_base58btc (Buf bs) (Buf out) =
      (if length (base58_text bs) < length out
       then Some (LIBP2P_MULTIBASE_OK, Suc (length (base58_text bs)), Buf (CHR ''z'' # base58_text bs @ tail))
       else Some (LIBP2P_MULTIBASE_ERR_BUF_TOO_SMALL, w, Buf out'))"
    "length out' = length out" "length tail = length out - Suc (length (base58_text bs))" by blast
  with LIBP2P_MULTIBASE_BASE58BTC show ?thesis
    by (intro exI [of _ w] exI [of _ out'] exI [of _ tail]) (simp add: Suc_le_eq)
next
  case LIBP2P_MULTIBASE_BASE64URL
  show ?thesis
    by (intro exI [of _ "Suc (length (base64_text bs))"] exI [of _ out]
        exI [of _ "drop (Suc (length (base64_text bs))) out"])
      (simp add: LIBP2P_MULTIBASE_BASE64URL encode_base64_correct [OF assms(2)] Suc_le_eq)
next
  case (MULTIBASE_OTHER n)
  with assms(1) show ?thesis by simp
qed

theorem multibase_encode_correct_witness:
  "\<exists>tail. length tail = 2 \<and>
    libp2p_multibase_encode LIBP2P_MULTIBASE_BASE64URL (Buf [0, 255]) (Buf ''......'') =
    Some (LIBP2P_MULTIBASE_OK, 4, Buf (''uAP8'' @ tail))"
proof -
  have t: "base64_text [0, 255] = ''AP8''" by (simp add: base64_text_two base64url_alphabet_def)
  have "multibase_supported LIBP2P_MULTIBASE_BASE64URL" and "length [0, 255 :: byte] \<le> PTRDIFF_MAX"
    by (simp_all add: PTRDIFF_MAX_def)
  from multibase_encode_correct [OF this, of "''......''"] show ?thesis by (auto simp: t)
qed

subsection \<open>Decoding\<close>

lemma decode_base58_iff:
  "(\<exists>out'. multibase_decode_base58btc (p # t) (Buf out) = Some (LIBP2P_MULTIBASE_OK, n, Buf out') \<and>
      take n out' = bs \<and> length out' = length out) \<longleftrightarrow>
   t = base58_text bs \<and> n = length bs \<and> n \<le> length out"
proof -
  from decode_base58_correct [of out t p] obtain out' tail where
    len: "length out' = length out" "length tail = length out - length (base58_bytes t)" and
    dec: "multibase_decode_base58btc (p # t) (Buf out) =
    Some (if \<not> base58_valid t then (LIBP2P_MULTIBASE_ERR_INVALID_CHARACTER, length t, Buf out')
          else if length (base58_bytes t) \<le> length out
          then (LIBP2P_MULTIBASE_OK, length (base58_bytes t), Buf (base58_bytes t @ tail))
          else (LIBP2P_MULTIBASE_ERR_BUF_TOO_SMALL, length t, Buf out'))" by blast
  show ?thesis
    unfolding dec using len base58_text_bytes [of t] by (auto split: if_splits)
qed

lemma decode_base64_iff:
  assumes "length t \<le> PTRDIFF_MAX"
  shows "(\<exists>out'. multibase_decode_base64url (p # t) (Buf out) = Some (LIBP2P_MULTIBASE_OK, n, Buf out') \<and>
      take n out' = bs \<and> length out' = length out) \<longleftrightarrow>
   t = base64_text bs \<and> n = length bs \<and> n \<le> length out"
proof -
  have "length (base64_text bs) mod 4 \<noteq> 1" for bs
    by (auto simp: length_base64_text mod_mult_self4)
  with decode_base64_correct [OF assms, of out p] base64_text_bytes [of t] show ?thesis
    by (auto split: if_splits)
qed

text \<open>
  Claim C12. \<open>libp2p_multibase_decode\<close> succeeds with base \<open>b\<close> and bytes \<open>bs\<close> exactly when its input is the
  multibase text of \<open>bs\<close> in base \<open>b\<close> and \<open>bs\<close> fits the buffer: encoding and decoding are inverse
  in both directions, and no second text decodes to the same bytes in the same base.
\<close>

theorem multibase_decode_iff:
  assumes "length t \<le> PTRDIFF_MAX"
  shows "(\<exists>out'. libp2p_multibase_decode (Buf t) (Buf out) = Some (LIBP2P_MULTIBASE_OK, Some b, n, Buf out') \<and>
      take n out' = bs \<and> length out' = length out) \<longleftrightarrow>
    multibase_supported b \<and> t = multibase_text b bs \<and> n = length bs \<and> n \<le> length out"
proof (cases t)
  case Nil
  then show ?thesis by (cases b) auto
next
  case (Cons c cs)
  then have len: "length cs \<le> PTRDIFF_MAX" using assms by simp
  show ?thesis
  proof (cases "c = CHR ''z'' \<or> c = CHR ''u''")
    case True
    then show ?thesis
      using decode_base58_iff [of c cs out n bs] decode_base64_iff [OF len, of c out n bs]
      by (cases b) (auto simp: Cons multibase_base_from_prefix_def Option.bind_eq_Some_conv)
  next
    case False
    then show ?thesis by (cases b) (auto simp: Cons multibase_base_from_prefix_def)
  qed
qed

theorem multibase_decode_iff_witness:
  "\<exists>out'. libp2p_multibase_decode (Buf ''uAP8'') (Buf [7, 7, 7]) =
     Some (LIBP2P_MULTIBASE_OK, Some LIBP2P_MULTIBASE_BASE64URL, 2, Buf out') \<and>
     take 2 out' = [0, 255] \<and> length out' = 3"
proof -
  have t: "base64_text [0, 255] = ''AP8''" by (simp add: base64_text_two base64url_alphabet_def)
  have "length ''uAP8'' \<le> PTRDIFF_MAX" by (simp add: PTRDIFF_MAX_def)
  from multibase_decode_iff [OF this, of "[7, 7, 7]" LIBP2P_MULTIBASE_BASE64URL 2 "[0, 255]"]
  show ?thesis by (simp add: t numeral_3_eq_3 del: libp2p_multibase_decode.simps)
qed

subsection \<open>Sizes\<close>

lemma base58_power_bound: "(256 :: nat) ^ k < 58 ^ (k * 138 div 100 + 1)"
proof -
  have "((256 :: nat) ^ k) ^ 100 = (256 ^ 100) ^ k" by (simp only: power_mult [symmetric] mult.commute)
  also have "\<dots> \<le> (58 ^ 138) ^ k" by (rule power_mono) simp_all
  also have "\<dots> = 58 ^ (k * 138)" by (simp only: power_mult [symmetric] mult.commute)
  also have "\<dots> < (58 :: nat) ^ ((k * 138 div 100 + 1) * 100)"
    using dividend_less_div_times [of 100 "k * 138"] by (intro power_strict_increasing) simp_all
  also have "\<dots> = (58 ^ (k * 138 div 100 + 1)) ^ 100" by (rule power_mult)
  finally show ?thesis by (rule power_less_imp_less_base) simp
qed

lemma base58_text_bound:
  assumes "bs \<noteq> []"
  shows "length (base58_text bs) \<le> length bs * 138 div 100 + 1"
proof -
  let ?z = "length (takeWhile (\<lambda>b. b = 0) bs)"
  let ?k = "length (drop ?z bs)"
  have "be_fold 256 0 (map unat (drop ?z bs)) < Suc 0 * 256 ^ length (map unat (drop ?z bs))"
    by (rule be_fold_less) (simp add: list_all_iff)
  also have "\<dots> < 58 ^ (?k * 138 div 100 + 1)" using base58_power_bound by simp
  finally have "be_fold 256 0 (map unat bs) < 58 ^ (?k * 138 div 100 + 1)"
    by (simp only: significant_value)
  then have "length (le_digits 58 (be_fold 256 0 (map unat bs))) \<le> ?k * 138 div 100 + 1"
    by (simp only: length_digits_le_iff [symmetric])
  moreover have "?z + ?k * 138 div 100 \<le> length bs * 138 div 100"
  proof -
    have "?z + ?k = length bs" using length_takeWhile_le [of "\<lambda>b. b = 0" bs] by simp
    then have "?k * 138 + ?z * 100 \<le> length bs * 138" by linarith
    then have "(?k * 138 + ?z * 100) div 100 \<le> length bs * 138 div 100" by (rule div_le_mono)
    then show ?thesis by simp
  qed
  ultimately show ?thesis unfolding length_base58_text by linarith
qed

lemma base58_size_bound:
  assumes "length bs \<le> PTRDIFF_MAX"
  shows "Suc (length (base58_text bs)) \<le>
    snd (multibase_add_overflow 1 (multibase_base58_encoded_upper_bound (length bs)))"
proof (cases "bs = []")
  case True
  then show ?thesis
    by (simp add: multibase_base58_encoded_upper_bound_def multibase_add_overflow_def
        SIZE_MAX_def base58_text_def)
next
  case False
  let ?n = "length bs * 138 div 100"
  have "?n + 2 \<le> SIZE_MAX" using assms by (simp add: SIZE_MAX_def PTRDIFF_MAX_def)
  moreover have "Suc (length (base58_text bs)) \<le> ?n + 2" using base58_text_bound [OF False] by simp
  moreover have "multibase_base58_encoded_upper_bound (length bs) \<in> {SIZE_MAX, ?n + 1}"
    using False
    by (auto simp: multibase_base58_encoded_upper_bound_def multibase_mul_overflow_def Let_def)
  ultimately show ?thesis
    by (auto simp: multibase_add_overflow_def)
qed

text \<open>
  The size that \<open>libp2p_multibase_encoded_size\<close> reports for an input length is enough for the
  text of every input of that length, and for base64url it is the exact length of the text.
\<close>

theorem multibase_encoded_size_enough:
  assumes "multibase_supported b" and "length bs \<le> PTRDIFF_MAX"
  shows "\<exists>n. libp2p_multibase_encoded_size b (length bs) = (LIBP2P_MULTIBASE_OK, n) \<and>
    length (multibase_text b bs) \<le> n \<and>
    (b = LIBP2P_MULTIBASE_BASE64URL \<longrightarrow> n = length (multibase_text b bs))"
proof (cases b)
  case LIBP2P_MULTIBASE_BASE58BTC
  with base58_size_bound [OF assms(2)] show ?thesis
    by (simp add: libp2p_multibase_encoded_size_def)
next
  case LIBP2P_MULTIBASE_BASE64URL
  then show ?thesis
    by (simp add: libp2p_multibase_encoded_size_def base64_exact_size [OF assms(2), unfolded One_nat_def])
next
  case (MULTIBASE_OTHER n)
  with assms(1) show ?thesis by simp
qed

theorem multibase_encoded_size_enough_witness:
  "\<exists>n. libp2p_multibase_encoded_size LIBP2P_MULTIBASE_BASE58BTC 3 = (LIBP2P_MULTIBASE_OK, n) \<and>
    length (multibase_text LIBP2P_MULTIBASE_BASE58BTC [0, 1, 2]) \<le> n"
proof -
  have "multibase_supported LIBP2P_MULTIBASE_BASE58BTC" and "length [0, 1, 2 :: byte] \<le> PTRDIFF_MAX"
    by (simp_all add: PTRDIFF_MAX_def)
  from multibase_encoded_size_enough [OF this] show ?thesis by (auto simp: numeral_3_eq_3)
qed

end
