(* ===== verification/Multistream.thy ===== *)
theory Multistream
  imports Uvarint
begin

text \<open>
  \<open>src/src/multiformats/multistream-select/multistream_select.c\<close>: the message framing of
  multistream-select, the blocking reads and writes over a caller-supplied byte stream, the
  \<open>ls\<close> listing and the two sides of the negotiation, \<open>select_one\<close> and \<open>accept\<close>.

  The stream's callbacks are functions on the state behind \<open>user_data\<close>. A read callback returns
  its error code, the bytes whose number it reports as \<open>read_len\<close>, and the new state; a write
  callback returns its error code, the number of bytes it reports as written, and the new state.
  A null stream or a null callback is \<open>None\<close>. A result \<open>Some\<close> says that no access leaves its
  buffer; the responder's loop ends only when the peer makes it end and is a partial function.
\<close>

subsection \<open>Types\<close>

datatype libp2p_multistream_select_err_t =
    LIBP2P_MULTISTREAM_SELECT_OK
  | LIBP2P_MULTISTREAM_SELECT_ERR_INVALID_ARG
  | LIBP2P_MULTISTREAM_SELECT_ERR_BUF_TOO_SMALL
  | LIBP2P_MULTISTREAM_SELECT_ERR_MESSAGE_TOO_LARGE
  | LIBP2P_MULTISTREAM_SELECT_ERR_MALFORMED_VARINT
  | LIBP2P_MULTISTREAM_SELECT_ERR_TRUNCATED
  | LIBP2P_MULTISTREAM_SELECT_ERR_MISSING_NEWLINE
  | LIBP2P_MULTISTREAM_SELECT_ERR_PROTOCOL_MISMATCH
  | LIBP2P_MULTISTREAM_SELECT_ERR_NOT_AVAILABLE
  | LIBP2P_MULTISTREAM_SELECT_ERR_UNRECOGNIZED_RESPONSE
  | LIBP2P_MULTISTREAM_SELECT_ERR_IO
  | LIBP2P_MULTISTREAM_SELECT_ERR_WOULD_BLOCK

type_synonym ms_err = libp2p_multistream_select_err_t

abbreviation "MS_OK \<equiv> LIBP2P_MULTISTREAM_SELECT_OK"

text \<open>A protocol id is a byte span; an array of protocols is a buffer of such spans.\<close>

type_synonym libp2p_multistream_select_protocol_t = "byte cbuf"

record 's libp2p_multistream_select_stream_t =
  read_fn :: "('s \<Rightarrow> nat \<Rightarrow> ms_err \<times> byte list \<times> 's) option"
  write_fn :: "('s \<Rightarrow> byte list \<Rightarrow> ms_err \<times> nat \<times> 's) option"

type_synonym 's ms_stream = "'s libp2p_multistream_select_stream_t option"

definition ascii :: "string \<Rightarrow> byte list" where
  "ascii s = map of_char s"

definition LIBP2P_MULTISTREAM_SELECT_PROTOCOL_ID :: "byte list" where
  "LIBP2P_MULTISTREAM_SELECT_PROTOCOL_ID = ascii ''/multistream/1.0.0''"

definition LIBP2P_MULTISTREAM_SELECT_NA :: "byte list" where
  "LIBP2P_MULTISTREAM_SELECT_NA = ascii ''na''"

definition LIBP2P_MULTISTREAM_SELECT_LS :: "byte list" where
  "LIBP2P_MULTISTREAM_SELECT_LS = ascii ''ls''"

definition LIBP2P_MULTISTREAM_SELECT_MAX_MESSAGE_BYTES :: nat where
  "LIBP2P_MULTISTREAM_SELECT_MAX_MESSAGE_BYTES = 1024"

definition LIBP2P_MULTISTREAM_SELECT_MAX_PAYLOAD_BYTES :: nat where
  "LIBP2P_MULTISTREAM_SELECT_MAX_PAYLOAD_BYTES = LIBP2P_MULTISTREAM_SELECT_MAX_MESSAGE_BYTES - 1"

definition LIBP2P_MULTISTREAM_SELECT_MAX_ENCODED_MESSAGE_BYTES :: nat where
  "LIBP2P_MULTISTREAM_SELECT_MAX_ENCODED_MESSAGE_BYTES =
     LIBP2P_MULTISTREAM_SELECT_MAX_MESSAGE_BYTES + 2"

definition MULTISTREAM_SELECT_NEWLINE :: byte where
  "MULTISTREAM_SELECT_NEWLINE = of_char (CHR 0x0A)"

text \<open>A local array; its initial contents are never read.\<close>

definition local_array :: "nat \<Rightarrow> byte list" where
  "local_array n = replicate n 0"

subsection \<open>Protocol ids\<close>

fun protocols_valid_loop :: "libp2p_multistream_select_protocol_t list \<Rightarrow> ms_err" where
  "protocols_valid_loop [] = MS_OK"
| "protocols_valid_loop (p # ps) =
     (if is_null p \<or> clen p = 0 then LIBP2P_MULTISTREAM_SELECT_ERR_INVALID_ARG
      else if clen p > LIBP2P_MULTISTREAM_SELECT_MAX_PAYLOAD_BYTES
      then LIBP2P_MULTISTREAM_SELECT_ERR_MESSAGE_TOO_LARGE
      else protocols_valid_loop ps)"

definition multistream_select_protocols_valid ::
  "libp2p_multistream_select_protocol_t cbuf \<Rightarrow> ms_err" where
  "multistream_select_protocols_valid protocols =
     (if is_null protocols \<and> clen protocols \<noteq> 0 then LIBP2P_MULTISTREAM_SELECT_ERR_INVALID_ARG
      else protocols_valid_loop (contents protocols))"

definition multistream_select_bytes_equal :: "byte cbuf \<Rightarrow> byte cbuf \<Rightarrow> bool" where
  "multistream_select_bytes_equal left right =
     (if clen left = clen right then
        (if clen left = 0 then True
         else \<not> is_null left \<and> \<not> is_null right \<and> contents left = contents right)
      else False)"

definition multistream_select_is_literal :: "byte cbuf \<Rightarrow> byte list \<Rightarrow> bool" where
  "multistream_select_is_literal payload literal =
     multistream_select_bytes_equal payload (Buf literal)"

fun find_protocol_loop :: "libp2p_multistream_select_protocol_t list \<Rightarrow> nat \<Rightarrow> byte cbuf \<Rightarrow> nat" where
  "find_protocol_loop [] index payload = index"
| "find_protocol_loop (p # ps) index payload =
     (if multistream_select_bytes_equal p payload then index
      else find_protocol_loop ps (index + 1) payload)"

text \<open>The number of protocols when there is no match.\<close>

definition multistream_select_find_protocol ::
  "libp2p_multistream_select_protocol_t list \<Rightarrow> byte cbuf \<Rightarrow> nat" where
  "multistream_select_find_protocol protocols payload = find_protocol_loop protocols 0 payload"

subsection \<open>Frames\<close>

text \<open>The result is the error code, \<open>payload_offset\<close>, \<open>payload_len\<close> and \<open>read_len\<close>.\<close>

definition multistream_select_message_metadata ::
  "byte cbuf \<Rightarrow> (ms_err \<times> nat \<times> nat \<times> nat) option" where
  "multistream_select_message_metadata inp =
     (if is_null inp then
        Some (if clen inp = 0 then LIBP2P_MULTISTREAM_SELECT_ERR_TRUNCATED
              else LIBP2P_MULTISTREAM_SELECT_ERR_INVALID_ARG, 0, 0, 0)
      else
        let (varint_result, message_len_u64, prefix_len) = libp2p_uvarint_decode inp
        in if varint_result = LIBP2P_UVARINT_ERR_TRUNCATED
           then Some (LIBP2P_MULTISTREAM_SELECT_ERR_TRUNCATED, 0, 0, 0)
           else if varint_result \<noteq> LIBP2P_UVARINT_OK
           then Some (LIBP2P_MULTISTREAM_SELECT_ERR_MALFORMED_VARINT, 0, 0, 0)
           else if unat message_len_u64 > LIBP2P_MULTISTREAM_SELECT_MAX_MESSAGE_BYTES
           then Some (LIBP2P_MULTISTREAM_SELECT_ERR_MESSAGE_TOO_LARGE, 0, 0, 0)
           else if message_len_u64 = 0
           then Some (LIBP2P_MULTISTREAM_SELECT_ERR_MISSING_NEWLINE, 0, 0, 0)
           else
             let message_len = unat message_len_u64;
                 frame_len = prefix_len + message_len
             in if clen inp < frame_len
                then Some (LIBP2P_MULTISTREAM_SELECT_ERR_TRUNCATED, 0, 0, 0)
                else do {
                  b \<leftarrow> rd (contents inp) (frame_len - 1);
                  (if b \<noteq> MULTISTREAM_SELECT_NEWLINE
                   then Some (LIBP2P_MULTISTREAM_SELECT_ERR_MISSING_NEWLINE, 0, 0, frame_len)
                   else Some (MS_OK, prefix_len, message_len - 1, frame_len))
                })"

text \<open>The first argument says whether \<open>out_len\<close> is a valid pointer.\<close>

definition libp2p_multistream_select_message_size :: "bool \<Rightarrow> nat \<Rightarrow> ms_err \<times> nat" where
  "libp2p_multistream_select_message_size has_out_len payload_len =
     (if \<not> has_out_len then (LIBP2P_MULTISTREAM_SELECT_ERR_INVALID_ARG, 0)
      else if payload_len > LIBP2P_MULTISTREAM_SELECT_MAX_PAYLOAD_BYTES
      then (LIBP2P_MULTISTREAM_SELECT_ERR_MESSAGE_TOO_LARGE, 0)
      else (MS_OK, libp2p_uvarint_size (of_nat payload_len + 1) + payload_len + 1))"

definition libp2p_multistream_select_message_encode ::
  "byte cbuf \<Rightarrow> byte cbuf \<Rightarrow> (ms_err \<times> nat \<times> byte cbuf) option" where
  "libp2p_multistream_select_message_encode payload out =
     (let (result, required) =
        (if is_null payload \<and> clen payload \<noteq> 0
         then (LIBP2P_MULTISTREAM_SELECT_ERR_INVALID_ARG, 0)
         else libp2p_multistream_select_message_size True (clen payload))
      in if result \<noteq> MS_OK then Some (result, required, out)
         else if is_null out \<or> clen out < required
         then Some (LIBP2P_MULTISTREAM_SELECT_ERR_BUF_TOO_SMALL, required, out)
         else do {
           (verr, prefix_len, out1) \<leftarrow> libp2p_uvarint_encode (of_nat (clen payload) + 1) out;
           (if verr \<noteq> LIBP2P_UVARINT_OK
            then Some (LIBP2P_MULTISTREAM_SELECT_ERR_MALFORMED_VARINT, required, out1)
            else do {
              out2 \<leftarrow> (if clen payload \<noteq> 0 then memcpy_at (contents out1) prefix_len (contents payload)
                        else Some (contents out1));
              out3 \<leftarrow> wr out2 (prefix_len + clen payload) MULTISTREAM_SELECT_NEWLINE;
              Some (MS_OK, required, Buf out3)
            })
         })"

text \<open>The result is the error code, \<open>written\<close>, \<open>read_len\<close> and the output buffer.\<close>

definition libp2p_multistream_select_message_decode ::
  "byte cbuf \<Rightarrow> byte cbuf \<Rightarrow> (ms_err \<times> nat \<times> nat \<times> byte cbuf) option" where
  "libp2p_multistream_select_message_decode inp out = do {
     (result, payload_offset, payload_len, frame_len) \<leftarrow> multistream_select_message_metadata inp;
     (if result \<noteq> MS_OK then Some (result, 0, frame_len, out)
      else if payload_len \<noteq> 0 \<and> (is_null out \<or> clen out < payload_len)
      then Some (LIBP2P_MULTISTREAM_SELECT_ERR_BUF_TOO_SMALL, payload_len, frame_len, out)
      else if payload_len \<noteq> 0 then do {
        out' \<leftarrow> memcpy_at (contents out) 0 (take payload_len (drop payload_offset (contents inp)));
        Some (MS_OK, payload_len, frame_len, Buf out')
      }
      else Some (MS_OK, payload_len, frame_len, out))
   }"

subsection \<open>Reading and writing\<close>

function read_exact_loop ::
  "('s \<Rightarrow> nat \<Rightarrow> ms_err \<times> byte list \<times> 's) \<Rightarrow> 's \<Rightarrow> nat \<Rightarrow> byte list \<Rightarrow> ms_err \<times> byte list \<times> 's" where
  "read_exact_loop rfn s out_len got =
     (if length got < out_len then
        (case rfn s (out_len - length got) of
           (result, data, s') \<Rightarrow>
             if result \<noteq> MS_OK then (result, got, s')
             else if data = [] \<or> length data > out_len - length got
             then (LIBP2P_MULTISTREAM_SELECT_ERR_IO, got, s')
             else read_exact_loop rfn s' out_len (got @ data))
      else (MS_OK, got, s))"
  by pat_completeness auto
termination
  by (relation "measure (\<lambda>(rfn, s, n, got). n - length got)") (auto simp: neq_Nil_conv)

declare read_exact_loop.simps [simp del]

text \<open>Every caller reads into a local array with room for \<open>out_len\<close> bytes.\<close>

definition multistream_select_read_exact ::
  "'s ms_stream \<Rightarrow> 's \<Rightarrow> nat \<Rightarrow> ms_err \<times> byte list \<times> 's" where
  "multistream_select_read_exact stream s out_len =
     (case Option.bind stream read_fn of
        None \<Rightarrow> (LIBP2P_MULTISTREAM_SELECT_ERR_INVALID_ARG, [], s)
      | Some rfn \<Rightarrow> read_exact_loop rfn s out_len [])"

function write_exact_loop ::
  "('s \<Rightarrow> byte list \<Rightarrow> ms_err \<times> nat \<times> 's) \<Rightarrow> 's \<Rightarrow> byte list \<Rightarrow> ms_err \<times> 's" where
  "write_exact_loop wfn s data =
     (if data \<noteq> [] then
        (case wfn s data of
           (result, written, s') \<Rightarrow>
             if result \<noteq> MS_OK then (result, s')
             else if written = 0 \<or> written > length data then (LIBP2P_MULTISTREAM_SELECT_ERR_IO, s')
             else write_exact_loop wfn s' (drop written data))
      else (MS_OK, s))"
  by pat_completeness auto
termination
  by (relation "measure (\<lambda>(wfn, s, data). length data)") auto

declare write_exact_loop.simps [simp del]

definition multistream_select_write_exact ::
  "'s ms_stream \<Rightarrow> 's \<Rightarrow> byte list \<Rightarrow> ms_err \<times> 's" where
  "multistream_select_write_exact stream s data =
     (case Option.bind stream write_fn of
        None \<Rightarrow> (LIBP2P_MULTISTREAM_SELECT_ERR_INVALID_ARG, s)
      | Some wfn \<Rightarrow> write_exact_loop wfn s data)"

definition multistream_select_write_two_messages ::
  "'s ms_stream \<Rightarrow> 's \<Rightarrow> byte cbuf \<Rightarrow> byte cbuf \<Rightarrow> (ms_err \<times> 's) option" where
  "multistream_select_write_two_messages stream s first second = do {
     (r1, first_written, frame1) \<leftarrow> libp2p_multistream_select_message_encode first
       (Buf (local_array (LIBP2P_MULTISTREAM_SELECT_MAX_ENCODED_MESSAGE_BYTES * 2)));
     (if r1 \<noteq> MS_OK then Some (r1, s)
      else do {
        (r2, second_written, frame2) \<leftarrow>
          libp2p_multistream_select_message_encode second (Buf (drop first_written (contents frame1)));
        (if r2 \<noteq> MS_OK then Some (r2, s)
         else Some (multistream_select_write_exact stream s
                (take (first_written + second_written)
                   (take first_written (contents frame1) @ contents frame2))))
      })
   }"

definition libp2p_multistream_select_write_message ::
  "'s ms_stream \<Rightarrow> 's \<Rightarrow> byte cbuf \<Rightarrow> (ms_err \<times> 's) option" where
  "libp2p_multistream_select_write_message stream s payload = do {
     (result, written, frame) \<leftarrow> libp2p_multistream_select_message_encode payload
       (Buf (local_array LIBP2P_MULTISTREAM_SELECT_MAX_ENCODED_MESSAGE_BYTES));
     (if result \<noteq> MS_OK then Some (result, s)
      else Some (multistream_select_write_exact stream s (take written (contents frame))))
   }"

text \<open>
  The loop that reads the length prefix byte by byte; the number argument is how many bytes may
  still be read. The result is the error code, the length and the state of the stream.
\<close>

fun read_prefix_loop ::
  "'s ms_stream \<Rightarrow> 's \<Rightarrow> byte list \<Rightarrow> nat \<Rightarrow> ms_err \<times> u64 \<times> 's" where
  "read_prefix_loop stream s prefix 0 = (LIBP2P_MULTISTREAM_SELECT_ERR_MALFORMED_VARINT, 0, s)"
| "read_prefix_loop stream s prefix (Suc n) =
     (case multistream_select_read_exact stream s 1 of
        (result, data, s') \<Rightarrow>
          if result \<noteq> MS_OK then (result, 0, s')
          else
            let prefix' = prefix @ data;
                (varint_result, message_len_u64, prefix_len) = libp2p_uvarint_decode (Buf prefix')
            in if varint_result = LIBP2P_UVARINT_OK then (MS_OK, message_len_u64, s')
               else if varint_result = LIBP2P_UVARINT_ERR_TRUNCATED
               then read_prefix_loop stream s' prefix' n
               else (LIBP2P_MULTISTREAM_SELECT_ERR_MALFORMED_VARINT, 0, s'))"

text \<open>The result is the error code, \<open>written\<close>, the output buffer and the state of the stream.\<close>

definition libp2p_multistream_select_read_message ::
  "'s ms_stream \<Rightarrow> 's \<Rightarrow> byte cbuf \<Rightarrow> (ms_err \<times> nat \<times> byte cbuf \<times> 's) option" where
  "libp2p_multistream_select_read_message stream s out =
     (if Option.bind stream read_fn = None
      then Some (LIBP2P_MULTISTREAM_SELECT_ERR_INVALID_ARG, 0, out, s)
      else
        let (result, message_len_u64, s1) = read_prefix_loop stream s [] LIBP2P_UVARINT_MAX_BYTES
        in if result \<noteq> MS_OK then Some (result, 0, out, s1)
           else if unat message_len_u64 > LIBP2P_MULTISTREAM_SELECT_MAX_MESSAGE_BYTES
           then Some (LIBP2P_MULTISTREAM_SELECT_ERR_MESSAGE_TOO_LARGE, 0, out, s1)
           else if message_len_u64 = 0
           then Some (LIBP2P_MULTISTREAM_SELECT_ERR_MISSING_NEWLINE, 0, out, s1)
           else
             let message_len = unat message_len_u64;
                 (result2, message, s2) = multistream_select_read_exact stream s1 message_len
             in if result2 \<noteq> MS_OK then Some (result2, 0, out, s2)
                else do {
                  b \<leftarrow> rd message (message_len - 1);
                  (if b \<noteq> MULTISTREAM_SELECT_NEWLINE
                   then Some (LIBP2P_MULTISTREAM_SELECT_ERR_MISSING_NEWLINE, 0, out, s2)
                   else
                     let payload_len = message_len - 1
                     in if payload_len \<noteq> 0 \<and> (is_null out \<or> clen out < payload_len)
                        then Some (LIBP2P_MULTISTREAM_SELECT_ERR_BUF_TOO_SMALL, payload_len, out, s2)
                        else if payload_len \<noteq> 0 then do {
                          out' \<leftarrow> memcpy_at (contents out) 0 (take payload_len message);
                          Some (MS_OK, payload_len, Buf out', s2)
                        }
                        else Some (MS_OK, payload_len, out, s2))
                })"

definition multistream_select_read_expected_protocol_id ::
  "'s ms_stream \<Rightarrow> 's \<Rightarrow> (ms_err \<times> 's) option" where
  "multistream_select_read_expected_protocol_id stream s = do {
     (result, payload_len, payload, s') \<leftarrow> libp2p_multistream_select_read_message stream s
       (Buf (local_array LIBP2P_MULTISTREAM_SELECT_MAX_PAYLOAD_BYTES));
     Some (if result = MS_OK \<and>
              \<not> multistream_select_is_literal (Buf (take payload_len (contents payload)))
                  LIBP2P_MULTISTREAM_SELECT_PROTOCOL_ID
           then LIBP2P_MULTISTREAM_SELECT_ERR_PROTOCOL_MISMATCH else result, s')
   }"

lemma message_metadata_frame_len:
  "multistream_select_message_metadata inp = Some (MS_OK, off, len, fl) \<Longrightarrow> 0 < fl \<and> fl \<le> clen inp"
  by (cases inp) (auto simp: multistream_select_message_metadata_def Let_def rd_def unat_eq_zero
      split: prod.splits if_splits)

subsection \<open>Listing\<close>

fun ls_payload_size_loop :: "libp2p_multistream_select_protocol_t list \<Rightarrow> nat \<Rightarrow> ms_err \<times> nat" where
  "ls_payload_size_loop [] required = (MS_OK, required)"
| "ls_payload_size_loop (p # ps) required =
     (let (result, message_size) = libp2p_multistream_select_message_size True (clen p)
      in if result \<noteq> MS_OK then (result, required)
         else if message_size > LIBP2P_MULTISTREAM_SELECT_MAX_PAYLOAD_BYTES - required
         then (LIBP2P_MULTISTREAM_SELECT_ERR_MESSAGE_TOO_LARGE, required)
         else ls_payload_size_loop ps (required + message_size))"

definition libp2p_multistream_select_ls_response_payload_size ::
  "bool \<Rightarrow> libp2p_multistream_select_protocol_t cbuf \<Rightarrow> ms_err \<times> nat" where
  "libp2p_multistream_select_ls_response_payload_size has_out_len protocols =
     (let result = (if \<not> has_out_len then LIBP2P_MULTISTREAM_SELECT_ERR_INVALID_ARG
                    else multistream_select_protocols_valid protocols)
      in if result \<noteq> MS_OK then (result, 0)
         else (case ls_payload_size_loop (contents protocols) 0 of
                 (r, required) \<Rightarrow> if r = MS_OK then (MS_OK, required) else (r, 0)))"

text \<open>Each frame is encoded at \<open>offset\<close>; the result is the error code and the output.\<close>

fun ls_payload_encode_loop ::
  "libp2p_multistream_select_protocol_t list \<Rightarrow> nat \<Rightarrow> byte list \<Rightarrow> (ms_err \<times> byte list) option" where
  "ls_payload_encode_loop [] offset out = Some (MS_OK, out)"
| "ls_payload_encode_loop (p # ps) offset out = do {
     (result, message_written, rest) \<leftarrow>
       libp2p_multistream_select_message_encode p (Buf (drop offset out));
     (let out' = take offset out @ contents rest
      in if result \<noteq> MS_OK then Some (result, out')
         else ls_payload_encode_loop ps (offset + message_written) out')
   }"

definition libp2p_multistream_select_ls_response_payload_encode ::
  "libp2p_multistream_select_protocol_t cbuf \<Rightarrow> byte cbuf \<Rightarrow> (ms_err \<times> nat \<times> byte cbuf) option" where
  "libp2p_multistream_select_ls_response_payload_encode protocols out =
     (let (result, required) = libp2p_multistream_select_ls_response_payload_size True protocols
      in if result \<noteq> MS_OK then Some (result, required, out)
         else if required \<noteq> 0 \<and> (is_null out \<or> clen out < required)
         then Some (LIBP2P_MULTISTREAM_SELECT_ERR_BUF_TOO_SMALL, required, out)
         else do {
           (r, out') \<leftarrow> ls_payload_encode_loop (contents protocols) 0 (contents out);
           Some (r, required, if is_null out then out else Buf out')
         })"

text \<open>
  The loop over the frames of a listing; \<open>visit_fn\<close> acts on the state behind its \<open>user_data\<close>. The
  result is the error code, the number of ids and that state.
\<close>

function ls_payload_decode_loop ::
  "('v \<Rightarrow> byte list \<Rightarrow> ms_err \<times> 'v) option \<Rightarrow> byte list \<Rightarrow> 'v \<Rightarrow> nat \<Rightarrow> (ms_err \<times> nat \<times> 'v) option" where
  "ls_payload_decode_loop visit_fn payload v count =
     (if payload \<noteq> [] then
        (case multistream_select_message_metadata (Buf payload) of
           None \<Rightarrow> None
         | Some (result, payload_offset, protocol_len, frame_len) \<Rightarrow>
             if result \<noteq> MS_OK then Some (result, count, v)
             else (case (case visit_fn of None \<Rightarrow> (MS_OK, v)
                         | Some f \<Rightarrow> f v (take protocol_len (drop payload_offset payload))) of
                     (r, v') \<Rightarrow>
                       if r \<noteq> MS_OK then Some (r, count, v')
                       else ls_payload_decode_loop visit_fn (drop frame_len payload) v' (count + 1)))
      else Some (MS_OK, count, v))"
  by pat_completeness auto
termination
  by (relation "measure (\<lambda>(f, payload, v, count). length payload)")
    (auto dest: message_metadata_frame_len)

declare ls_payload_decode_loop.simps [simp del]

definition libp2p_multistream_select_ls_response_payload_decode ::
  "byte cbuf \<Rightarrow> ('v \<Rightarrow> byte list \<Rightarrow> ms_err \<times> 'v) option \<Rightarrow> 'v \<Rightarrow> (ms_err \<times> nat \<times> 'v) option" where
  "libp2p_multistream_select_ls_response_payload_decode payload visit_fn v =
     (if is_null payload \<and> clen payload \<noteq> 0
      then Some (LIBP2P_MULTISTREAM_SELECT_ERR_INVALID_ARG, 0, v)
      else if clen payload > LIBP2P_MULTISTREAM_SELECT_MAX_PAYLOAD_BYTES
      then Some (LIBP2P_MULTISTREAM_SELECT_ERR_MESSAGE_TOO_LARGE, 0, v)
      else do {
        (result, count, v') \<leftarrow> ls_payload_decode_loop visit_fn (contents payload) v 0;
        Some (result, if result = MS_OK then count else 0, v')
      })"

subsection \<open>Negotiation\<close>

text \<open>
  The initiator's loop over the candidates, \<open>p\<close> at \<open>index\<close> being the one that has been proposed.
  The result is the error code, the selected index (if any) and the state of the stream.
\<close>

fun select_one_loop ::
  "'s ms_stream \<Rightarrow> 's \<Rightarrow> libp2p_multistream_select_protocol_t list \<Rightarrow> nat \<Rightarrow>
   (ms_err \<times> nat option \<times> 's) option" where
  "select_one_loop stream s [] index = Some (LIBP2P_MULTISTREAM_SELECT_ERR_NOT_AVAILABLE, None, s)"
| "select_one_loop stream s (p # ps) index = do {
     (result, response_len, response, s1) \<leftarrow> libp2p_multistream_select_read_message stream s
       (Buf (local_array LIBP2P_MULTISTREAM_SELECT_MAX_PAYLOAD_BYTES));
     (let answer = Buf (take response_len (contents response))
      in if result \<noteq> MS_OK then Some (result, None, s1)
         else if multistream_select_bytes_equal answer p then Some (MS_OK, Some index, s1)
         else if multistream_select_is_literal answer LIBP2P_MULTISTREAM_SELECT_NA
         then (case ps of
                 [] \<Rightarrow> select_one_loop stream s1 [] (index + 1)
               | q # qs \<Rightarrow> do {
                   (result2, s2) \<leftarrow> libp2p_multistream_select_write_message stream s1 q;
                   (if result2 \<noteq> MS_OK then Some (result2, None, s2)
                    else select_one_loop stream s2 ps (index + 1))
                 })
         else Some (LIBP2P_MULTISTREAM_SELECT_ERR_UNRECOGNIZED_RESPONSE, None, s1))
   }"

text \<open>The value stored in \<open>selected_index\<close> is the number of protocols if none is selected.\<close>

definition libp2p_multistream_select_select_one ::
  "'s ms_stream \<Rightarrow> 's \<Rightarrow> libp2p_multistream_select_protocol_t cbuf \<Rightarrow> (ms_err \<times> nat \<times> 's) option" where
  "libp2p_multistream_select_select_one stream s protocols =
     (let protocol_count = clen protocols;
          result0 = (if stream = None then LIBP2P_MULTISTREAM_SELECT_ERR_INVALID_ARG
                     else multistream_select_protocols_valid protocols);
          result = (if result0 = MS_OK \<and> protocol_count = 0
                    then LIBP2P_MULTISTREAM_SELECT_ERR_INVALID_ARG else result0)
      in if result \<noteq> MS_OK then Some (result, protocol_count, s)
         else do {
           first \<leftarrow> rd (contents protocols) 0;
           (result1, s1) \<leftarrow> multistream_select_write_two_messages stream s
             (Buf LIBP2P_MULTISTREAM_SELECT_PROTOCOL_ID) first;
           (if result1 \<noteq> MS_OK then Some (result1, protocol_count, s1)
            else do {
              (result2, s2) \<leftarrow> multistream_select_read_expected_protocol_id stream s1;
              (if result2 \<noteq> MS_OK then Some (result2, protocol_count, s2)
               else do {
                 (result3, selected, s3) \<leftarrow> select_one_loop stream s2 (contents protocols) 0;
                 Some (result3, case selected of None \<Rightarrow> protocol_count | Some i \<Rightarrow> i, s3)
               })
            })
         })"

text \<open>
  One round of the responder's loop: the error code, the selected index (if any) and the state of
  the stream.
\<close>

definition accept_round ::
  "'s ms_stream \<Rightarrow> libp2p_multistream_select_protocol_t cbuf \<Rightarrow> 's \<Rightarrow> (ms_err \<times> nat option \<times> 's) option" where
  "accept_round stream protocols s = do {
     (result, request_len, request, s1) \<leftarrow> libp2p_multistream_select_read_message stream s
       (Buf (local_array LIBP2P_MULTISTREAM_SELECT_MAX_PAYLOAD_BYTES));
     (let asked = Buf (take request_len (contents request))
      in if result \<noteq> MS_OK then Some (result, None, s1)
         else if multistream_select_is_literal asked LIBP2P_MULTISTREAM_SELECT_LS then do {
           (result2, ls_payload_len, ls_payload) \<leftarrow>
             libp2p_multistream_select_ls_response_payload_encode protocols
               (Buf (local_array LIBP2P_MULTISTREAM_SELECT_MAX_PAYLOAD_BYTES));
           (if result2 \<noteq> MS_OK then Some (result2, None, s1)
            else do {
              (result3, s2) \<leftarrow> libp2p_multistream_select_write_message stream s1
                (Buf (take ls_payload_len (contents ls_payload)));
              Some (result3, None, s2)
            })
         }
         else
           let index = multistream_select_find_protocol (contents protocols) asked
           in if index < clen protocols then do {
                (result2, s2) \<leftarrow> libp2p_multistream_select_write_message stream s1 asked;
                Some (result2, if result2 = MS_OK then Some index else None, s2)
              }
              else do {
                (result2, s2) \<leftarrow> libp2p_multistream_select_write_message stream s1
                  (Buf LIBP2P_MULTISTREAM_SELECT_NA);
                Some (result2, None, s2)
              })
   }"

partial_function (option) accept_loop ::
  "'s ms_stream \<Rightarrow> libp2p_multistream_select_protocol_t cbuf \<Rightarrow> 's \<Rightarrow> (ms_err \<times> nat option \<times> 's) option" where
  "accept_loop stream protocols s = do {
     (result, selected, s1) \<leftarrow> accept_round stream protocols s;
     (if result = MS_OK \<and> selected = None then accept_loop stream protocols s1
      else Some (result, selected, s1))
   }"

definition libp2p_multistream_select_accept ::
  "'s ms_stream \<Rightarrow> 's \<Rightarrow> libp2p_multistream_select_protocol_t cbuf \<Rightarrow> (ms_err \<times> nat \<times> 's) option" where
  "libp2p_multistream_select_accept stream s protocols =
     (let protocol_count = clen protocols;
          result = (if stream = None then LIBP2P_MULTISTREAM_SELECT_ERR_INVALID_ARG
                    else multistream_select_protocols_valid protocols)
      in if result \<noteq> MS_OK then Some (result, protocol_count, s)
         else do {
           (result1, s1) \<leftarrow> libp2p_multistream_select_write_message stream s
             (Buf LIBP2P_MULTISTREAM_SELECT_PROTOCOL_ID);
           (if result1 \<noteq> MS_OK then Some (result1, protocol_count, s1)
            else do {
              (result2, s2) \<leftarrow> multistream_select_read_expected_protocol_id stream s1;
              (if result2 \<noteq> MS_OK then Some (result2, protocol_count, s2)
               else do {
                 (result3, selected, s3) \<leftarrow> accept_loop stream protocols s2;
                 Some (result3, case selected of None \<Rightarrow> protocol_count | Some i \<Rightarrow> i, s3)
               })
            })
         })"

text \<open>The result is the error code, \<open>protocol_count\<close>, the visitor's state and the stream's state.\<close>

definition libp2p_multistream_select_request_ls ::
  "'s ms_stream \<Rightarrow> 's \<Rightarrow> ('v \<Rightarrow> byte list \<Rightarrow> ms_err \<times> 'v) option \<Rightarrow> 'v \<Rightarrow>
   (ms_err \<times> nat \<times> 'v \<times> 's) option" where
  "libp2p_multistream_select_request_ls stream s visit_fn v =
     (if stream = None then Some (LIBP2P_MULTISTREAM_SELECT_ERR_INVALID_ARG, 0, v, s)
      else do {
        (result1, s1) \<leftarrow> multistream_select_write_two_messages stream s
          (Buf LIBP2P_MULTISTREAM_SELECT_PROTOCOL_ID) (Buf LIBP2P_MULTISTREAM_SELECT_LS);
        (if result1 \<noteq> MS_OK then Some (result1, 0, v, s1)
         else do {
           (result2, s2) \<leftarrow> multistream_select_read_expected_protocol_id stream s1;
           (if result2 \<noteq> MS_OK then Some (result2, 0, v, s2)
            else do {
              (result3, response_len, response, s3) \<leftarrow> libp2p_multistream_select_read_message stream s2
                (Buf (local_array LIBP2P_MULTISTREAM_SELECT_MAX_PAYLOAD_BYTES));
              (let answer = Buf (take response_len (contents response))
               in if result3 \<noteq> MS_OK then Some (result3, 0, v, s3)
                  else if multistream_select_is_literal answer LIBP2P_MULTISTREAM_SELECT_NA
                  then Some (LIBP2P_MULTISTREAM_SELECT_ERR_NOT_AVAILABLE, 0, v, s3)
                  else do {
                    (result4, count, v') \<leftarrow>
                      libp2p_multistream_select_ls_response_payload_decode answer visit_fn v;
                    Some (result4, count, v', s3)
                  })
            })
         })
      })"

end
