(* ===== verification/Multistream_Frames.thy ===== *)
theory Multistream_Frames
  imports Multistream
begin

text \<open>
  The frames of multistream-select as a wire format. \<open>ms_frame p\<close> is the encoding of the payload
  \<open>p\<close>: the length of payload and newline as a varint, the payload, the newline. The framing code
  implements the \<open>prefix_codec\<close> interface for payloads of at most 1023 bytes.
\<close>

definition ms_frame :: "byte list \<Rightarrow> byte list" where
  "ms_frame p = uvarint_bytes (length p + 1) @ p @ [MULTISTREAM_SELECT_NEWLINE]"

definition ms_valid :: "byte list \<Rightarrow> bool" where
  "ms_valid p \<longleftrightarrow> length p \<le> 1023"

lemmas ms_limits =
  LIBP2P_MULTISTREAM_SELECT_MAX_MESSAGE_BYTES_def LIBP2P_MULTISTREAM_SELECT_MAX_PAYLOAD_BYTES_def
  LIBP2P_MULTISTREAM_SELECT_MAX_ENCODED_MESSAGE_BYTES_def

lemma length_ms_frame: "length (ms_frame p) = length (uvarint_bytes (length p + 1)) + length p + 1"
  by (simp add: ms_frame_def)

lemma ms_frame_nonempty [simp]: "ms_frame p \<noteq> []"
  by (simp add: ms_frame_def)

lemma ms_frame_bound: "ms_valid p \<Longrightarrow> length (ms_frame p) \<le> 1026"
  using uvarint_length_le_iff [of 2 "length p + 1"] by (simp add: length_ms_frame ms_valid_def)

lemma ms_length_word:
  assumes "ms_valid p"
  shows "unat (of_nat (length p) + 1 :: u64) = length p + 1" and "unat (of_nat (length p + 1) :: u64) = length p + 1"
proof -
  have "length p + 1 < 2 ^ 64" using assms by (simp add: ms_valid_def)
  then have "(length p + 1) mod 2 ^ LENGTH(64) = length p + 1" by simp
  then show 2: "unat (of_nat (length p + 1) :: u64) = length p + 1" by (simp only: unat_of_nat)
  then show "unat (of_nat (length p) + 1 :: u64) = length p + 1" by (simp add: add.commute)
qed

subsection \<open>Encoding\<close>

lemma message_size_valid:
  "ms_valid p \<Longrightarrow> libp2p_multistream_select_message_size True (length p) = (MS_OK, length (ms_frame p))"
  by (simp add: libp2p_multistream_select_message_size_def ms_valid_def ms_limits length_ms_frame
      ms_length_word [unfolded ms_valid_def, simplified])

lemma message_size_invalid:
  "\<not> ms_valid p \<Longrightarrow> libp2p_multistream_select_message_size True (length p) =
   (LIBP2P_MULTISTREAM_SELECT_ERR_MESSAGE_TOO_LARGE, 0)"
  by (simp add: libp2p_multistream_select_message_size_def ms_valid_def ms_limits)

lemma message_encode_valid:
  assumes "ms_valid p" and "length (ms_frame p) \<le> length out"
  shows "libp2p_multistream_select_message_encode (Buf p) (Buf out) =
    Some (MS_OK, length (ms_frame p), Buf (ms_frame p @ drop (length (ms_frame p)) out))"
proof -
  let ?u = "uvarint_bytes (length p + 1)"
  have "length p + 1 < 2 ^ 63" using assms(1) by (simp add: ms_valid_def)
  then have enc: "libp2p_uvarint_encode (of_nat (length p) + 1) (Buf out) =
      Some (LIBP2P_UVARINT_OK, length ?u, Buf (?u @ drop (length ?u) out))"
    using uvarint_encode_value [of "of_nat (length p) + 1" out] assms(2)
    unfolding ms_length_word [OF assms(1)] by (simp add: length_ms_frame)
  let ?rest = "drop (length ?u) out"
  have room: "length p < length ?rest" using assms(2) by (simp add: length_ms_frame)
  have copy: "(if length p \<noteq> 0 then memcpy_at (?u @ ?rest) (length ?u) p else Some (?u @ ?rest)) =
      Some (?u @ p @ drop (length p) ?rest)"
    using room by (simp add: memcpy_at_append)
  have "tl (drop (length p) ?rest) = drop (length (ms_frame p)) out"
    by (simp add: length_ms_frame drop_Suc tl_drop add.commute)
  with room have newline: "wr (?u @ p @ drop (length p) ?rest) (length ?u + length p)
      MULTISTREAM_SELECT_NEWLINE = Some (ms_frame p @ drop (length (ms_frame p)) out)"
    using wr_append [of "?u @ p" "length ?u + length p" "drop (length p) ?rest"]
    by (simp add: ms_frame_def)
  show ?thesis
    unfolding libp2p_multistream_select_message_encode_def Let_def
    using assms(2)
    by (simp only: clen.simps is_null.simps contents.simps message_size_valid [OF assms(1)] enc copy newline
        prod.case simp_thms if_True if_False Option.bind.bind_lunit linorder_not_less [symmetric])
qed

text \<open>
  \<open>libp2p_multistream_select_message_encode\<close> on every branch for a payload in memory: a
  payload over 1023 bytes is refused, a missing or short buffer is reported with the exact size
  needed and left unchanged, and otherwise exactly one frame is written at its front.
\<close>

theorem message_encode_correct:
  "libp2p_multistream_select_message_encode (Buf p) out =
   Some (if 1023 < length p then (LIBP2P_MULTISTREAM_SELECT_ERR_MESSAGE_TOO_LARGE, 0, out)
         else if is_null out \<or> clen out < length (ms_frame p)
         then (LIBP2P_MULTISTREAM_SELECT_ERR_BUF_TOO_SMALL, length (ms_frame p), out)
         else (MS_OK, length (ms_frame p), Buf (ms_frame p @ drop (length (ms_frame p)) (contents out))))"
proof (cases "ms_valid p")
  case True
  then show ?thesis
    using message_encode_valid [OF True] message_size_valid [OF True]
    by (cases out) (auto simp: ms_valid_def libp2p_multistream_select_message_encode_def)
next
  case False
  then show ?thesis
    using message_size_invalid [OF False]
    by (simp add: ms_valid_def libp2p_multistream_select_message_encode_def)
qed

subsection \<open>Decoding\<close>

lemma metadata_frame [codec_laws]:
  assumes "ms_valid p"
  shows "multistream_select_message_metadata (Buf (ms_frame p @ rest)) =
    Some (MS_OK, length (uvarint_bytes (length p + 1)), length p, length (ms_frame p))"
proof -
  let ?u = "uvarint_bytes (length p + 1)"
  have "length p + 1 < 2 ^ 63" using assms by (simp add: ms_valid_def)
  then have dec: "libp2p_uvarint_decode (Buf (ms_frame p @ rest)) =
      (LIBP2P_UVARINT_OK, of_nat (length p + 1), length ?u)"
    using uvarint_decode_bytes [of "length p + 1"] by (simp only: ms_frame_def append_assoc)
  note word = ms_length_word(2) [OF assms]
  then have "of_nat (length p + 1) \<noteq> (0 :: u64)" by (metis unat_0 add_is_0 one_neq_zero)
  moreover have "rd (ms_frame p @ rest) (length ?u + (length p + 1) - 1) = Some MULTISTREAM_SELECT_NEWLINE"
    by (simp add: rd_def ms_frame_def nth_append)
  ultimately show ?thesis
    using assms unfolding multistream_select_message_metadata_def
    by (simp add: dec word [unfolded Suc_eq_plus1 [symmetric]] ms_limits ms_valid_def length_ms_frame del: of_nat_add of_nat_Suc)
qed

lemma metadata_sound:
  assumes "multistream_select_message_metadata (Buf bs) = Some (MS_OK, off, len, fl)"
  defines "p \<equiv> take len (drop off bs)"
  shows "ms_valid p" and "length p = len" and "fl \<le> length bs" and "take fl bs = ms_frame p"
    and "off = length (uvarint_bytes (length p + 1))"
proof -
  obtain v where dec: "libp2p_uvarint_decode (Buf bs) = (LIBP2P_UVARINT_OK, v, off)" and
    v: "unat v \<le> 1024" "v \<noteq> 0" and len: "len = unat v - 1" and fl: "fl = off + unat v" "fl \<le> length bs" and
    nl: "bs ! (fl - 1) = MULTISTREAM_SELECT_NEWLINE"
    using assms(1) by (auto simp: multistream_select_message_metadata_def Let_def ms_limits rd_def
        split: prod.splits if_splits)
  have "0 < unat v" using v(2) by (simp add: unat_gt_0)
  then have uv: "unat v = len + 1" using len by simp
  note u = uvarint_decode_ok [OF dec]
  show lp: "length p = len" using fl uv by (simp add: p_def)
  show "ms_valid p" using v(1) uv lp by (simp add: ms_valid_def)
  show "fl \<le> length bs" by (rule fl(2))
  show off: "off = length (uvarint_bytes (length p + 1))" using u(2) uv lp by simp
  have "take fl bs = take off bs @ take (len + 1) (drop off bs)" by (simp only: fl(1) uv take_add)
  also have "take (len + 1) (drop off bs) = p @ [bs ! (off + len)]"
    using fl uv by (simp add: p_def take_Suc_conv_app_nth)
  finally show "take fl bs = ms_frame p" using u(4) nl fl(1) uv lp by (simp add: ms_frame_def)
qed

definition ms_dec :: "byte list \<Rightarrow> (byte list \<times> nat) option" where
  "ms_dec bs =
     (case multistream_select_message_metadata (Buf bs) of
        Some (LIBP2P_MULTISTREAM_SELECT_OK, off, len, fl) \<Rightarrow> Some (take len (drop off bs), fl)
      | _ \<Rightarrow> None)"

lemma ms_dec_Some_iff:
  "ms_dec bs = Some (p, fl) \<longleftrightarrow>
   (\<exists>off len. multistream_select_message_metadata (Buf bs) = Some (MS_OK, off, len, fl) \<and>
      p = take len (drop off bs))"
  by (auto simp: ms_dec_def split: option.splits prod.splits libp2p_multistream_select_err_t.splits)

interpretation frame: prefix_codec ms_frame ms_dec ms_valid
proof
  fix p rest
  assume "ms_valid p"
  then show "ms_dec (ms_frame p @ rest) = Some (p, length (ms_frame p))"
    unfolding ms_dec_Some_iff by (simp add: metadata_frame) (simp add: ms_frame_def)
next
  fix bs p n
  assume "ms_dec bs = Some (p, n)"
  then show "ms_valid p \<and> n \<le> length bs \<and> take n bs = ms_frame p"
    unfolding ms_dec_Some_iff using metadata_sound by blast
qed simp

lemma metadata_total: "\<exists>r. multistream_select_message_metadata (Buf bs) = Some r"
  by (auto simp: multistream_select_message_metadata_def Let_def rd_def split: prod.splits
      dest!: uvarint_decode_read_bounds(1))

lemma message_decode_frame:
  assumes "ms_dec bs = Some (p, fl)"
  shows "libp2p_multistream_select_message_decode (Buf bs) (Buf out) =
    Some (if length p \<le> length out then (MS_OK, length p, fl, Buf (p @ drop (length p) out))
          else (LIBP2P_MULTISTREAM_SELECT_ERR_BUF_TOO_SMALL, length p, fl, Buf out))"
proof -
  from assms obtain off len where
    m: "multistream_select_message_metadata (Buf bs) = Some (MS_OK, off, len, fl)" and
    p: "p = take len (drop off bs)" unfolding ms_dec_Some_iff by blast
  have "length p = len" using metadata_sound(2) [OF m] p by simp
  then show ?thesis
    by (auto simp: libp2p_multistream_select_message_decode_def m p [symmetric] memcpy_at_0)
qed

lemma message_decode_fails:
  assumes "ms_dec bs = None"
  shows "\<exists>e f. e \<noteq> MS_OK \<and> libp2p_multistream_select_message_decode (Buf bs) (Buf out) = Some (e, 0, f, Buf out)"
proof -
  obtain e off len f where m: "multistream_select_message_metadata (Buf bs) = Some (e, off, len, f)"
    using metadata_total [of bs] by (metis prod_cases4)
  with assms have "e \<noteq> MS_OK" by (auto simp: ms_dec_def)
  with m show ?thesis by (simp add: libp2p_multistream_select_message_decode_def)
qed

text \<open>
  \<open>libp2p_multistream_select_message_decode\<close> succeeds with payload \<open>p\<close> and \<open>r\<close> bytes consumed
  exactly when its input starts with the frame of \<open>p\<close>, \<open>p\<close> has at most 1023 bytes and fits the output
  buffer; the payload is then stored at the front of the buffer and the rest is unchanged.
\<close>

theorem message_decode_iff:
  "(\<exists>w out'. libp2p_multistream_select_message_decode (Buf bs) (Buf out) = Some (MS_OK, w, r, Buf out') \<and>
      w = length p \<and> out' = p @ drop w out) \<longleftrightarrow>
   length p \<le> 1023 \<and> length p \<le> length out \<and> r = length (ms_frame p) \<and> r \<le> length bs \<and>
   take r bs = ms_frame p"
proof -
  have "(\<exists>w out'. libp2p_multistream_select_message_decode (Buf bs) (Buf out) = Some (MS_OK, w, r, Buf out') \<and>
      w = length p \<and> out' = p @ drop w out) \<longleftrightarrow> ms_dec bs = Some (p, r) \<and> length p \<le> length out"
  proof (cases "ms_dec bs")
    case None
    with message_decode_fails [OF None, of out] show ?thesis by auto
  next
    case (Some x)
    then obtain q n where "ms_dec bs = Some (q, n)" by (cases x) auto
    with message_decode_frame [OF this, of out] show ?thesis by auto
  qed
  then show ?thesis using frame.dec_iff [of bs p r] by (auto simp: ms_valid_def)
qed

subsection \<open>Listings\<close>

abbreviation ls_bytes :: "byte list list \<Rightarrow> byte list" where
  "ls_bytes ids \<equiv> concat (map ms_frame ids)"

definition ids_valid :: "byte list list \<Rightarrow> bool" where
  "ids_valid ids \<longleftrightarrow> list_all (\<lambda>p. p \<noteq> [] \<and> ms_valid p) ids"

lemma ids_valid_simps [simp]:
  "ids_valid []" "ids_valid (p # ids) \<longleftrightarrow> p \<noteq> [] \<and> ms_valid p \<and> ids_valid ids"
  by (simp_all add: ids_valid_def)

lemma protocols_valid_ids [simp]:
  "multistream_select_protocols_valid (Buf (map Buf ids)) = MS_OK \<longleftrightarrow> ids_valid ids"
proof -
  have "protocols_valid_loop (map Buf ids) = MS_OK \<longleftrightarrow> ids_valid ids"
    by (induction ids) (auto simp: ms_limits ms_valid_def)
  then show ?thesis by (simp add: multistream_select_protocols_valid_def)
qed

lemma ls_payload_size_loop_fits:
  "ids_valid ids \<Longrightarrow> required + length (ls_bytes ids) \<le> 1023 \<Longrightarrow>
   ls_payload_size_loop (map Buf ids) required = (MS_OK, required + length (ls_bytes ids))"
proof (induction ids arbitrary: required)
  case (Cons p ids)
  have "\<not> 1023 - required < length (ms_frame p)" using Cons.prems(2) by simp
  with Cons show ?case by (simp add: message_size_valid ms_limits add.assoc)
qed simp

lemma ls_payload_encode_loop_fits:
  "ids_valid ids \<Longrightarrow> length pre = off \<Longrightarrow> length (ls_bytes ids) \<le> length rest \<Longrightarrow>
   ls_payload_encode_loop (map Buf ids) off (pre @ rest) =
   Some (MS_OK, pre @ ls_bytes ids @ drop (length (ls_bytes ids)) rest)"
proof (induction ids arbitrary: pre off rest)
  case (Cons p ids)
  have "libp2p_multistream_select_message_encode (Buf p) (Buf rest) =
      Some (MS_OK, length (ms_frame p), Buf (ms_frame p @ drop (length (ms_frame p)) rest))"
    using Cons.prems by (intro message_encode_valid) simp_all
  with Cons.prems Cons.IH [of "pre @ ms_frame p" "off + length (ms_frame p)" "drop (length (ms_frame p)) rest"]
  show ?case by (simp add: add.commute)
qed simp

lemma ls_encode_fits:
  assumes "ids_valid ids" and "length (ls_bytes ids) \<le> 1023" and "length (ls_bytes ids) \<le> length out"
  shows "libp2p_multistream_select_ls_response_payload_encode (Buf (map Buf ids)) (Buf out) =
    Some (MS_OK, length (ls_bytes ids), Buf (ls_bytes ids @ drop (length (ls_bytes ids)) out))"
  using assms ls_payload_encode_loop_fits [of ids "[]" 0 out] ls_payload_size_loop_fits [of ids 0]
  by (simp add: libp2p_multistream_select_ls_response_payload_encode_def
      libp2p_multistream_select_ls_response_payload_size_def)

text \<open>A visitor that records the ids it is shown.\<close>

definition collect_ids :: "byte list list \<Rightarrow> byte list \<Rightarrow> ms_err \<times> byte list list" where
  "collect_ids ids p = (MS_OK, ids @ [p])"

lemma ls_decode_loop_frame:
  assumes "ms_dec bs = Some (p, n)"
  shows "ls_payload_decode_loop (Some collect_ids) bs ids k =
    ls_payload_decode_loop (Some collect_ids) (drop n bs) (ids @ [p]) (k + 1)"
proof -
  from assms obtain off len where
    m: "multistream_select_message_metadata (Buf bs) = Some (MS_OK, off, len, n)"
    and p: "p = take len (drop off bs)" unfolding ms_dec_Some_iff by blast
  have "bs \<noteq> []" using frame.dec_progress [OF assms] message_metadata_frame_len [OF m] by auto
  with m p show ?thesis
    by (subst ls_payload_decode_loop.simps) (simp add: collect_ids_def)
qed

lemma ls_decode_loop_fails:
  assumes "ms_dec bs = None" and "bs \<noteq> []"
  shows "\<exists>e. e \<noteq> MS_OK \<and> ls_payload_decode_loop (Some collect_ids) bs ids k = Some (e, k, ids)"
proof -
  obtain e off len f where m: "multistream_select_message_metadata (Buf bs) = Some (e, off, len, f)"
    using metadata_total [of bs] by (metis prod_cases4)
  with assms have "e \<noteq> MS_OK" by (auto simp: ms_dec_def)
  with m assms(2) show ?thesis by (subst ls_payload_decode_loop.simps) simp
qed

lemma ls_decode_loop_iff:
  "ls_payload_decode_loop (Some collect_ids) bs ids k = Some (MS_OK, n, ids') \<longleftrightarrow>
   (\<exists>new. ids' = ids @ new \<and> n = k + length new \<and> list_all ms_valid new \<and> bs = ls_bytes new)"
proof (induction bs arbitrary: ids k rule: length_induct)
  case (1 bs)
  consider "bs = []" | "bs \<noteq> []" "ms_dec bs = None" | p m where "bs \<noteq> []" "ms_dec bs = Some (p, m)"
    by (cases "ms_dec bs") auto
  then show ?case
  proof cases
    case 1
    then show ?thesis by (subst ls_payload_decode_loop.simps) auto
  next
    case 2
    then have "\<not> (list_all ms_valid new \<and> bs = ls_bytes new)" for new
      by (cases new) (auto simp: frame.dec_enc)
    with ls_decode_loop_fails [OF 2(2,1), of ids k] show ?thesis by auto
  next
    case (3 p m)
    note d = frame.dec_iff [THEN iffD1, OF 3(2)]
    have split: "bs = ms_frame p @ drop m bs" using d by (metis append_take_drop_id)
    have "length (drop m bs) < length bs" using frame.dec_progress [OF 3(2)] 3(1) by simp
    then have IH: "ls_payload_decode_loop (Some collect_ids) (drop m bs) (ids @ [p]) (k + 1) = Some (MS_OK, n, ids') \<longleftrightarrow>
       (\<exists>new. ids' = (ids @ [p]) @ new \<and> n = k + 1 + length new \<and> list_all ms_valid new \<and> drop m bs = ls_bytes new)"
      using 1 by blast
    have "(\<exists>new. ids' = ids @ new \<and> n = k + length new \<and> list_all ms_valid new \<and> bs = ls_bytes new) \<longleftrightarrow>
       (\<exists>new. ids' = (ids @ [p]) @ new \<and> n = k + 1 + length new \<and> list_all ms_valid new \<and> drop m bs = ls_bytes new)"
      (is "?L \<longleftrightarrow> ?R")
    proof
      assume ?R
      then obtain new where "ids' = ids @ p # new" "n = k + length (p # new)" "list_all ms_valid (p # new)"
        "bs = ls_bytes (p # new)" using d split by auto
      then show ?L by blast
    next
      assume ?L
      then obtain new where new: "ids' = ids @ new" "n = k + length new" "list_all ms_valid new" "bs = ls_bytes new"
        by blast
      then obtain q qs where q: "new = q # qs" using 3(1) by (cases new) auto
      then have "q = p \<and> ls_bytes qs = drop m bs"
        using new split d frame.enc_prefix_free [of q p "ls_bytes qs" "drop m bs"] by simp
      with new q show ?R by auto
    qed
    with IH ls_decode_loop_frame [OF 3(2), of ids k] show ?thesis by simp
  qed
qed

text \<open>
  \<open>libp2p_multistream_select_ls_response_payload_decode\<close> accepts exactly the concatenations of
  frames of at most 1023 bytes in all: it succeeds and shows its visitor the ids \<open>ids\<close>, in this
  order, if and only if the payload is the concatenation of their frames.
\<close>

theorem ls_decode_iff:
  "libp2p_multistream_select_ls_response_payload_decode (Buf bs) (Some collect_ids) [] = Some (MS_OK, n, ids) \<longleftrightarrow>
   length bs \<le> 1023 \<and> n = length ids \<and> list_all ms_valid ids \<and> bs = ls_bytes ids"
proof -
  have "libp2p_multistream_select_ls_response_payload_decode (Buf bs) (Some collect_ids) [] = Some (MS_OK, n, ids) \<longleftrightarrow>
      length bs \<le> 1023 \<and> ls_payload_decode_loop (Some collect_ids) bs [] 0 = Some (MS_OK, n, ids)"
    by (cases "ls_payload_decode_loop (Some collect_ids) bs [] 0")
      (auto simp: libp2p_multistream_select_ls_response_payload_decode_def ms_limits)
  then show ?thesis unfolding ls_decode_loop_iff by auto
qed

text \<open>
  A listing survives the wire: for valid ids whose frames have at most 1023 bytes in all,
  \<open>ls_response_payload_encode\<close> succeeds, reports the size that \<open>ls_response_payload_size\<close> computes,
  and \<open>ls_response_payload_decode\<close> of the bytes written shows the visitor the same ids in order.
\<close>

theorem ls_roundtrip:
  assumes "ids_valid ids" and "length (ls_bytes ids) \<le> 1023" and "length (ls_bytes ids) \<le> length out"
  shows "\<exists>n out'.
    libp2p_multistream_select_ls_response_payload_size True (Buf (map Buf ids)) = (MS_OK, n) \<and>
    libp2p_multistream_select_ls_response_payload_encode (Buf (map Buf ids)) (Buf out) = Some (MS_OK, n, Buf out') \<and>
    libp2p_multistream_select_ls_response_payload_decode (Buf (take n out')) (Some collect_ids) [] =
      Some (MS_OK, length ids, ids)"
proof -
  have "list_all ms_valid ids" using assms(1) by (simp add: ids_valid_def list_all_iff)
  then have "ls_payload_decode_loop (Some collect_ids) (ls_bytes ids) [] 0 = Some (MS_OK, length ids, ids)"
    by (simp add: ls_decode_loop_iff)
  with ls_encode_fits [OF assms] ls_payload_size_loop_fits [OF assms(1), of 0] assms show ?thesis
    by (simp add: libp2p_multistream_select_ls_response_payload_decode_def ms_limits
        libp2p_multistream_select_ls_response_payload_size_def)
qed

theorem ls_roundtrip_witness:
  "\<exists>n out'.
    libp2p_multistream_select_ls_response_payload_encode (Buf (map Buf [ascii ''/a'', ascii ''/bc''])) (Buf (replicate 9 7)) =
      Some (MS_OK, n, Buf out') \<and>
    libp2p_multistream_select_ls_response_payload_decode (Buf (take n out')) (Some collect_ids) [] =
      Some (MS_OK, 2, [ascii ''/a'', ascii ''/bc''])"
proof -
  let ?ids = "[ascii ''/a'', ascii ''/bc'']"
  have "ids_valid ?ids" by (simp add: ms_valid_def ascii_def)
  moreover have "length (ls_bytes ?ids) = 9" by (simp add: length_ms_frame ascii_def uvarint_bytes_small)
  ultimately show ?thesis
    using ls_roundtrip [of ?ids "replicate 9 7"] by (auto simp: numeral_2_eq_2)
qed

end
