(* ===== verification/Multistream_Streams.thy ===== *)
theory Multistream_Streams
  imports Multistream_Frames
begin

text \<open>
  The blocking helpers of multistream-select over a byte stream. The locale \<open>byte_stream\<close> is the
  contract of the stream's callbacks: a read returns a nonempty piece of what is pending, a
  write takes a nonempty piece of what is offered while there is room, both in pieces of any
  size. From it follow the behaviour of the exact reads and writes and of whole messages,
  whatever the fragmentation.
\<close>

subsection \<open>Prefixes of a varint\<close>

lemma uvarint_bytes_butlast: "\<forall>b \<in> set (butlast (uvarint_bytes n)). 128 \<le> unat b"
proof (induction n rule: uvarint_bytes.induct)
  case (1 n)
  show ?case
  proof (cases "n < 128")
    case True
    then show ?thesis by (simp add: uvarint_bytes_small)
  next
    case False
    have "n mod 128 + 128 < 256" using mod_less_divisor [of 128 n] by linarith
    then have "unat (of_nat (n mod 128 + 128) :: byte) = n mod 128 + 128"
      by (subst unat_of_nat) simp
    with 1 False show ?thesis by (simp add: uvarint_bytes_big)
  qed
qed

lemma uvarint_decode_prefix:
  assumes "pre @ rest = uvarint_bytes n" and "rest \<noteq> []" and "n < 2 ^ 63"
  shows "fst (libp2p_uvarint_decode (Buf pre)) = LIBP2P_UVARINT_ERR_TRUNCATED"
proof -
  have "length pre < length (uvarint_bytes n)" using assms(1,2) by (metis length_append length_greater_0_conv less_add_same_cancel1)
  moreover have "length (uvarint_bytes n) \<le> 9" using assms(3) uvarint_length_9 by blast
  ultimately have len: "length pre < 9" by linarith
  have "set pre \<subseteq> set (butlast (uvarint_bytes n))"
    using assms(2) unfolding assms(1) [symmetric] by (auto simp: butlast_append)
  then have "\<forall>b \<in> set pre. 128 \<le> unat b" using uvarint_bytes_butlast by blast
  then have all: "takeWhile (\<lambda>b. 128 \<le> unat b) pre = pre" by (simp add: takeWhile_eq_all_conv)
  show ?thesis
    unfolding libp2p_uvarint_decode.simps
    using uvarint_decode_loop_err [of 0 pre 0 0, unfolded all Let_def] len by simp
qed

subsection \<open>The contract of a byte stream\<close>

locale byte_stream =
  fixes rfn :: "'s \<Rightarrow> nat \<Rightarrow> ms_err \<times> byte list \<times> 's"
    and wfn :: "'s \<Rightarrow> byte list \<Rightarrow> ms_err \<times> nat \<times> 's"
    and inv :: "'s \<Rightarrow> bool"
    and pending :: "'s \<Rightarrow> byte list"
    and sent :: "'s \<Rightarrow> byte list"
    and room :: "'s \<Rightarrow> nat"
    and dry :: ms_err
  assumes read_some: "inv s \<Longrightarrow> 0 < n \<Longrightarrow> pending s \<noteq> [] \<Longrightarrow>
      \<exists>k s'. 0 < k \<and> k \<le> n \<and> k \<le> length (pending s) \<and> rfn s n = (MS_OK, take k (pending s), s') \<and>
        inv s' \<and> pending s' = drop k (pending s) \<and> sent s' = sent s \<and> room s' = room s"
    and read_none: "inv s \<Longrightarrow> 0 < n \<Longrightarrow> pending s = [] \<Longrightarrow>
      \<exists>d s'. rfn s n = (dry, d, s') \<and> inv s' \<and> pending s' = [] \<and> sent s' = sent s \<and> room s' = room s"
    and write_some: "inv s \<Longrightarrow> bs \<noteq> [] \<Longrightarrow> 0 < room s \<Longrightarrow>
      \<exists>k s'. 0 < k \<and> k \<le> length bs \<and> k \<le> room s \<and> wfn s bs = (MS_OK, k, s') \<and>
        inv s' \<and> pending s' = pending s \<and> sent s' = sent s @ take k bs \<and> room s' = room s - k"
    and dry_error: "dry \<noteq> MS_OK"
begin

abbreviation stream :: "'s ms_stream" where
  "stream \<equiv> Some \<lparr>read_fn = Some rfn, write_fn = Some wfn\<rparr>"

definition holds :: "'s \<Rightarrow> byte list \<Rightarrow> byte list \<Rightarrow> nat \<Rightarrow> bool" where
  "holds s i o' r \<longleftrightarrow> inv s \<and> pending s = i \<and> sent s = o' \<and> room s = r"

lemma read_exact_loop_ok:
  "holds s (data @ tail) o' r \<Longrightarrow> length got + length data = n \<Longrightarrow>
   \<exists>s'. read_exact_loop rfn s n got = (MS_OK, got @ data, s') \<and> holds s' tail o' r"
proof (induction "length data" arbitrary: s data got rule: less_induct)
  case less
  show ?case
  proof (cases "data = []")
    case True
    with less.prems show ?thesis by (subst read_exact_loop.simps) auto
  next
    case False
    let ?m = "n - length got"
    have m: "?m = length data" "0 < ?m" using False less.prems(2) by auto
    have "pending s = data @ tail" and "inv s" using less.prems(1) by (auto simp: holds_def)
    with read_some [of s ?m] m False obtain k s1 where
      k: "0 < k" "k \<le> length data" and
      rd1: "rfn s ?m = (MS_OK, take k data, s1)" and h1: "holds s1 (drop k data @ tail) o' r"
      using less.prems(1) by (auto simp: holds_def)
    have "length (drop k data) < length data" using k False by simp
    moreover have "length (got @ take k data) + length (drop k data) = n" using less.prems(2) k by simp
    ultimately obtain s' where
      "read_exact_loop rfn s1 n (got @ take k data) = (MS_OK, (got @ take k data) @ drop k data, s')"
      and "holds s' tail o' r" using less.hyps [OF _ h1] by blast
    moreover have "read_exact_loop rfn s n got = read_exact_loop rfn s1 n (got @ take k data)"
      using m k False rd1 by (subst read_exact_loop.simps) auto
    ultimately show ?thesis by auto
  qed
qed

lemma read_exact_ok:
  "holds s (data @ tail) o' r \<Longrightarrow>
   \<exists>s'. multistream_select_read_exact stream s (length data) = (MS_OK, data, s') \<and> holds s' tail o' r"
  using read_exact_loop_ok [of s data tail o' r "[]" "length data"]
  by (simp add: multistream_select_read_exact_def)

lemma read_exact_dry:
  "holds s [] o' r \<Longrightarrow> 0 < n \<Longrightarrow>
   \<exists>s'. multistream_select_read_exact stream s n = (dry, [], s') \<and> holds s' [] o' r"
  using read_none [of s n] dry_error unfolding multistream_select_read_exact_def holds_def
  by (subst read_exact_loop.simps) auto

lemma write_exact_loop_ok:
  "holds s i o' r \<Longrightarrow> length bs \<le> r \<Longrightarrow>
   \<exists>s'. write_exact_loop wfn s bs = (MS_OK, s') \<and> holds s' i (o' @ bs) (r - length bs)"
proof (induction "length bs" arbitrary: s bs o' r rule: less_induct)
  case less
  show ?case
  proof (cases "bs = []")
    case True
    with less.prems show ?thesis by (subst write_exact_loop.simps) auto
  next
    case False
    then have "0 < length bs" by simp
    then have "0 < room s" using less.prems unfolding holds_def by linarith
    with False write_some [of s bs] less.prems obtain k s1 where k: "0 < k" "k \<le> length bs" and
      wr1: "wfn s bs = (MS_OK, k, s1)" and h1: "holds s1 i (o' @ take k bs) (r - k)"
      by (auto simp: holds_def)
    have "length (drop k bs) < length bs" and "length (drop k bs) \<le> r - k"
      using k False less.prems(2) by simp_all
    from less.hyps [OF this(1) h1 this(2)] obtain s' where
      "write_exact_loop wfn s1 (drop k bs) = (MS_OK, s')" and "holds s' i (o' @ bs) (r - length bs)"
      using k by auto
    with False k wr1 show ?thesis by (subst write_exact_loop.simps) auto
  qed
qed

lemma write_exact_ok:
  "holds s i o' r \<Longrightarrow> length bs \<le> r \<Longrightarrow>
   \<exists>s'. multistream_select_write_exact stream s bs = (MS_OK, s') \<and> holds s' i (o' @ bs) (r - length bs)"
  using write_exact_loop_ok by (simp add: multistream_select_write_exact_def)

subsubsection \<open>Messages\<close>

lemma read_prefix_loop_ok:
  "holds s (rest @ tail) o' r \<Longrightarrow> pre @ rest = uvarint_bytes n \<Longrightarrow> rest \<noteq> [] \<Longrightarrow> n < 2 ^ 63 \<Longrightarrow>
   \<exists>s'. read_prefix_loop stream s pre (length rest + m) = (MS_OK, of_nat n, s') \<and> holds s' tail o' r"
proof (induction rest arbitrary: s pre)
  case (Cons b rest)
  from read_exact_ok [of s "[b]" "rest @ tail"] Cons.prems(1) obtain s1 where
    rd1: "multistream_select_read_exact stream s 1 = (MS_OK, [b], s1)" and h1: "holds s1 (rest @ tail) o' r"
    by auto
  show ?case
  proof (cases "rest = []")
    case True
    with Cons.prems have "pre @ [b] = uvarint_bytes n" by simp
    with uvarint_decode_bytes [OF Cons.prems(4), of "[]"]
    have "libp2p_uvarint_decode (Buf (pre @ [b])) = (LIBP2P_UVARINT_OK, of_nat n, length (uvarint_bytes n))"
      by simp
    with rd1 h1 True show ?thesis by simp
  next
    case False
    then have "fst (libp2p_uvarint_decode (Buf (pre @ [b]))) = LIBP2P_UVARINT_ERR_TRUNCATED"
      using uvarint_decode_prefix [of "pre @ [b]" rest n] Cons.prems by simp
    moreover obtain s' where
      "read_prefix_loop stream s1 (pre @ [b]) (length rest + m) = (MS_OK, of_nat n, s')" "holds s' tail o' r"
      using Cons.IH [OF h1, of "pre @ [b]"] Cons.prems False by auto
    ultimately show ?thesis
      using rd1 by (cases "libp2p_uvarint_decode (Buf (pre @ [b]))") simp
  qed
qed simp

lemma read_message_ok:
  assumes h: "holds s (ms_frame p @ tail) o' r" and p: "ms_valid p" and out: "length p \<le> length out"
  shows "\<exists>s'. libp2p_multistream_select_read_message stream s (Buf out) =
      Some (MS_OK, length p, Buf (p @ drop (length p) out), s') \<and> holds s' tail o' r"
proof -
  let ?u = "uvarint_bytes (length p + 1)" and ?msg = "p @ [MULTISTREAM_SELECT_NEWLINE]"
  have n: "length p + 1 < 2 ^ 63" and "length ?u \<le> 9"
    using p uvarint_length_9 [of "length p + 1"] by (simp_all add: ms_valid_def)
  then have nine: "LIBP2P_UVARINT_MAX_BYTES = length ?u + (9 - length ?u)"
    by (simp add: LIBP2P_UVARINT_MAX_BYTES_def)
  from h have "holds s (?u @ ?msg @ tail) o' r" by (simp add: ms_frame_def)
  from read_prefix_loop_ok [OF this _ _ n, of "[]" "9 - length ?u"] obtain s1 where
    r1: "read_prefix_loop stream s [] LIBP2P_UVARINT_MAX_BYTES = (MS_OK, of_nat (length p + 1), s1)"
    and h1: "holds s1 (?msg @ tail) o' r" unfolding nine by auto
  from read_exact_ok [OF h1] obtain s2 where
    r2: "multistream_select_read_exact stream s1 (length p + 1) = (MS_OK, ?msg, s2)" and
    h2: "holds s2 tail o' r" by auto
  note word = ms_length_word(2) [OF p]
  then have nz: "of_nat (length p + 1) \<noteq> (0 :: u64)" by (metis unat_0 add_is_0 one_neq_zero)
  have lim: "\<not> LIBP2P_MULTISTREAM_SELECT_MAX_MESSAGE_BYTES < length p + 1"
    using p by (simp add: ms_limits ms_valid_def)
  have last: "rd ?msg (length p + 1 - 1) = Some MULTISTREAM_SELECT_NEWLINE" by (simp add: rd_def nth_append)
  have "libp2p_multistream_select_read_message stream s (Buf out) =
      Some (MS_OK, length p, Buf (p @ drop (length p) out), s2)"
    using out unfolding libp2p_multistream_select_read_message_def Let_def r1 prod.case word
    by (simp only: r2 prod.case nz lim last) (auto simp: memcpy_at_0)
  with h2 show ?thesis by blast
qed

lemma read_message_dry:
  assumes "holds s [] o' r"
  shows "\<exists>s'. libp2p_multistream_select_read_message stream s out = Some (dry, 0, out, s') \<and> holds s' [] o' r"
proof -
  from read_exact_dry [OF assms, of 1] obtain s' where
    "multistream_select_read_exact stream s 1 = (dry, [], s')" and h: "holds s' [] o' r" by auto
  then have "read_prefix_loop stream s [] LIBP2P_UVARINT_MAX_BYTES = (dry, 0, s')"
    using dry_error by (simp add: LIBP2P_UVARINT_MAX_BYTES_def numeral_eq_Suc)
  with h dry_error show ?thesis by (simp add: libp2p_multistream_select_read_message_def)
qed

lemma write_message_ok:
  assumes "holds s i o' r" and "ms_valid p" and "length (ms_frame p) \<le> r"
  shows "\<exists>s'. libp2p_multistream_select_write_message stream s (Buf p) = Some (MS_OK, s') \<and>
    holds s' i (o' @ ms_frame p) (r - length (ms_frame p))"
proof -
  have "length (ms_frame p) \<le> length (local_array LIBP2P_MULTISTREAM_SELECT_MAX_ENCODED_MESSAGE_BYTES)"
    using ms_frame_bound [OF assms(2)] by (simp add: local_array_def ms_limits)
  with write_exact_ok [OF assms(1,3)] message_encode_valid [OF assms(2)] show ?thesis
    by (simp add: libp2p_multistream_select_write_message_def)
qed

lemma write_two_messages_ok:
  assumes "holds s i o' r" and "ms_valid p" and "ms_valid q"
    and "length (ms_frame p) + length (ms_frame q) \<le> r"
  shows "\<exists>s'. multistream_select_write_two_messages stream s (Buf p) (Buf q) = Some (MS_OK, s') \<and>
    holds s' i (o' @ ms_frame p @ ms_frame q) (r - (length (ms_frame p) + length (ms_frame q)))"
proof -
  let ?f = "local_array (LIBP2P_MULTISTREAM_SELECT_MAX_ENCODED_MESSAGE_BYTES * 2)"
  have "length (ms_frame p) + length (ms_frame q) \<le> length ?f"
    using ms_frame_bound [OF assms(2)] ms_frame_bound [OF assms(3)] by (simp add: local_array_def ms_limits)
  then have "length (ms_frame p) \<le> length ?f" and "length (ms_frame q) \<le> length (drop (length (ms_frame p)) ?f)"
    by simp_all
  then have "libp2p_multistream_select_message_encode (Buf p) (Buf ?f) =
      Some (MS_OK, length (ms_frame p), Buf (ms_frame p @ drop (length (ms_frame p)) ?f))"
    and "libp2p_multistream_select_message_encode (Buf q) (Buf (drop (length (ms_frame p)) ?f)) =
      Some (MS_OK, length (ms_frame q), Buf (ms_frame q @ drop (length (ms_frame q)) (drop (length (ms_frame p)) ?f)))"
    using message_encode_valid [OF assms(2)] message_encode_valid [OF assms(3)] by blast+
  with write_exact_ok [OF assms(1), of "ms_frame p @ ms_frame q"] assms(4) show ?thesis
    by (simp add: multistream_select_write_two_messages_def)
qed

lemma protocol_id_valid: "ms_valid LIBP2P_MULTISTREAM_SELECT_PROTOCOL_ID"
  by (simp add: ms_valid_def LIBP2P_MULTISTREAM_SELECT_PROTOCOL_ID_def ascii_def)

lemma read_expected_ok:
  assumes "holds s (ms_frame LIBP2P_MULTISTREAM_SELECT_PROTOCOL_ID @ tail) o' r"
  shows "\<exists>s'. multistream_select_read_expected_protocol_id stream s = Some (MS_OK, s') \<and> holds s' tail o' r"
proof -
  have "length LIBP2P_MULTISTREAM_SELECT_PROTOCOL_ID \<le> length (local_array LIBP2P_MULTISTREAM_SELECT_MAX_PAYLOAD_BYTES)"
    by (simp add: LIBP2P_MULTISTREAM_SELECT_PROTOCOL_ID_def ascii_def local_array_def ms_limits)
  from read_message_ok [OF assms protocol_id_valid this] show ?thesis
    by (auto simp: multistream_select_read_expected_protocol_id_def multistream_select_is_literal_def
        multistream_select_bytes_equal_def)
qed

end

end
