(* ===== verification/Multistream_Negotiation.thy ===== *)
theory Multistream_Negotiation
  imports Multistream_Streams
begin

text \<open>
  The two sides of the negotiation against the \<open>byte_stream\<close> contract, and their agreement: what one
  side sends is what the other side has to receive for both to select the same protocol, the
  first one on the initiator's list that the responder supports.
\<close>

abbreviation "PROTO \<equiv> LIBP2P_MULTISTREAM_SELECT_PROTOCOL_ID"
abbreviation "NA \<equiv> LIBP2P_MULTISTREAM_SELECT_NA"
abbreviation "LS \<equiv> LIBP2P_MULTISTREAM_SELECT_LS"

lemma bytes_equal_Buf [simp]: "multistream_select_bytes_equal (Buf a) (Buf b) \<longleftrightarrow> a = b"
  by (auto simp: multistream_select_bytes_equal_def)

lemma is_literal_Buf [simp]: "multistream_select_is_literal (Buf a) b \<longleftrightarrow> a = b"
  by (simp add: multistream_select_is_literal_def)

lemma find_protocol_ids [simp]:
  "multistream_select_find_protocol (map Buf ids) (Buf q) = length (takeWhile (\<lambda>p. p \<noteq> q) ids)"
proof -
  have "find_protocol_loop (map Buf ids) k (Buf q) = k + length (takeWhile (\<lambda>p. p \<noteq> q) ids)" for k
    by (induction ids arbitrary: k) auto
  then show ?thesis by (simp add: multistream_select_find_protocol_def)
qed

lemma takeWhile_length_less: "length (takeWhile (\<lambda>p. p \<noteq> q) ids) < length ids \<longleftrightarrow> q \<in> set ids"
  by (induction ids) auto

lemma literals_valid [simp]: "ms_valid PROTO" "ms_valid NA" "ms_valid LS" "NA \<noteq> LS"
  by (simp_all add: ms_valid_def LIBP2P_MULTISTREAM_SELECT_PROTOCOL_ID_def
      LIBP2P_MULTISTREAM_SELECT_NA_def LIBP2P_MULTISTREAM_SELECT_LS_def ascii_def)

lemma local_payload_array [simp]:
  "ms_valid p \<Longrightarrow> length p \<le> length (local_array LIBP2P_MULTISTREAM_SELECT_MAX_PAYLOAD_BYTES)"
  by (simp add: local_array_def ms_limits ms_valid_def)

text \<open>What the responder answers to a request that does not end the negotiation.\<close>

definition ms_answer :: "byte list list \<Rightarrow> byte list \<Rightarrow> byte list" where
  "ms_answer ids request = (if request = LS then ls_bytes ids else NA)"

definition ms_unanswerable :: "byte list list \<Rightarrow> byte list \<Rightarrow> bool" where
  "ms_unanswerable ids request \<longleftrightarrow>
     ms_valid request \<and> (if request = LS then length (ls_bytes ids) \<le> 1023 else request \<notin> set ids)"

context byte_stream
begin

subsection \<open>The initiator\<close>

lemma select_loop_agreed:
  "k < length ps \<Longrightarrow> ids_valid ps \<Longrightarrow> NA \<notin> set (take k ps) \<Longrightarrow>
   holds s (ls_bytes (replicate k NA @ [ps ! k]) @ tail) o' r \<Longrightarrow>
   length (ls_bytes (tl (take (Suc k) ps))) \<le> r \<Longrightarrow>
   \<exists>s'. select_one_loop stream s (map Buf ps) index = Some (MS_OK, Some (index + k), s') \<and>
     holds s' tail (o' @ ls_bytes (tl (take (Suc k) ps))) (r - length (ls_bytes (tl (take (Suc k) ps))))"
proof (induction k arbitrary: ps s o' r index)
  case 0
  then obtain p qs where ps: "ps = p # qs" by (cases ps) auto
  with 0 read_message_ok [of s p tail o' r "local_array LIBP2P_MULTISTREAM_SELECT_MAX_PAYLOAD_BYTES"]
  show ?case by auto
next
  case (Suc k)
  then obtain p q qs where ps: "ps = p # q # qs" by (cases ps; cases "tl ps") auto
  let ?rest = "ls_bytes (replicate k NA @ [(q # qs) ! k]) @ tail" and ?sent = "ls_bytes (take k qs)"
  have len: "length (ms_frame q) + length ?sent \<le> r" using Suc.prems(5) ps by simp
  have "holds s (ms_frame NA @ ?rest) o' r" using Suc.prems(4) ps by simp
  from read_message_ok [OF this _ local_payload_array] obtain s1 where
    rd: "libp2p_multistream_select_read_message stream s
      (Buf (local_array LIBP2P_MULTISTREAM_SELECT_MAX_PAYLOAD_BYTES)) =
      Some (MS_OK, length NA, Buf (NA @ drop (length NA) (local_array LIBP2P_MULTISTREAM_SELECT_MAX_PAYLOAD_BYTES)), s1)"
    and h1: "holds s1 ?rest o' r" by auto
  from write_message_ok [OF h1, of q] Suc.prems(2) ps len obtain s2 where
    wr: "libp2p_multistream_select_write_message stream s1 (Buf q) = Some (MS_OK, s2)" and
    h2: "holds s2 ?rest (o' @ ms_frame q) (r - length (ms_frame q))" by auto
  have "length (ls_bytes (tl (take (Suc k) (q # qs)))) \<le> r - length (ms_frame q)" using len by simp
  from Suc.IH [OF _ _ _ h2 this, of "index + 1"] Suc.prems(1-3) ps obtain s' where
    "select_one_loop stream s2 (map Buf (q # qs)) (index + 1) = Some (MS_OK, Some (index + Suc k), s')" and
    "holds s' tail (o' @ ms_frame q @ ?sent) (r - length (ms_frame q) - length ?sent)" by auto
  moreover have "p \<noteq> NA" using Suc.prems(3) ps by auto
  ultimately show ?case using rd wr ps by (auto simp: diff_diff_add)
qed

lemma select_loop_refused:
  "ps \<noteq> [] \<Longrightarrow> ids_valid ps \<Longrightarrow> NA \<notin> set ps \<Longrightarrow>
   holds s (ls_bytes (replicate (length ps) NA) @ tail) o' r \<Longrightarrow> length (ls_bytes (tl ps)) \<le> r \<Longrightarrow>
   \<exists>s'. select_one_loop stream s (map Buf ps) index = Some (LIBP2P_MULTISTREAM_SELECT_ERR_NOT_AVAILABLE, None, s') \<and>
     holds s' tail (o' @ ls_bytes (tl ps)) (r - length (ls_bytes (tl ps)))"
proof (induction ps arbitrary: s o' r index)
  case (Cons p ps)
  let ?arr = "local_array LIBP2P_MULTISTREAM_SELECT_MAX_PAYLOAD_BYTES"
  let ?rest = "ls_bytes (replicate (length ps) NA) @ tail"
  have "holds s (ms_frame NA @ ?rest) o' r" using Cons.prems(4) by simp
  from read_message_ok [OF this _ local_payload_array] obtain s1 where
    rd: "libp2p_multistream_select_read_message stream s (Buf ?arr) =
      Some (MS_OK, length NA, Buf (NA @ drop (length NA) ?arr), s1)" and h1: "holds s1 ?rest o' r" by auto
  have p: "p \<noteq> NA" using Cons.prems(3) by auto
  show ?case
  proof (cases ps)
    case Nil
    with rd h1 p show ?thesis by auto
  next
    case (Cons q qs)
    have len: "length (ms_frame q) + length (ls_bytes qs) \<le> r" using Cons.prems(5) Cons by simp
    from write_message_ok [OF h1, of q] Cons.prems(2) Cons len obtain s2 where
      wr: "libp2p_multistream_select_write_message stream s1 (Buf q) = Some (MS_OK, s2)" and
      h2: "holds s2 ?rest (o' @ ms_frame q) (r - length (ms_frame q))" by auto
    have "length (ls_bytes (tl ps)) \<le> r - length (ms_frame q)" using len Cons by simp
    from Cons.IH [OF _ _ _ h2 this, of "index + 1"] Cons.prems Cons obtain s' where
      "select_one_loop stream s2 (map Buf ps) (index + 1) = Some (LIBP2P_MULTISTREAM_SELECT_ERR_NOT_AVAILABLE, None, s')"
      and "holds s' tail (o' @ ms_frame q @ ls_bytes qs) (r - length (ms_frame q) - length (ls_bytes qs))" by auto
    with rd wr p Cons show ?thesis by (auto simp: diff_diff_add)
  qed
qed simp

lemma select_one_start:
  assumes "ps \<noteq> []" and "ids_valid ps" and "holds s (ms_frame PROTO @ tail) o' r"
    and "length (ms_frame PROTO) + length (ms_frame (hd ps)) \<le> r"
  shows "\<exists>s2. holds s2 tail (o' @ ms_frame PROTO @ ms_frame (hd ps))
      (r - (length (ms_frame PROTO) + length (ms_frame (hd ps)))) \<and>
    libp2p_multistream_select_select_one stream s (Buf (map Buf ps)) = do {
      (result3, selected, s3) \<leftarrow> select_one_loop stream s2 (map Buf ps) 0;
      Some (result3, case selected of None \<Rightarrow> length ps | Some i \<Rightarrow> i, s3)
    }"
proof -
  have "ms_valid (hd ps)" using assms(1,2) by (cases ps) auto
  from write_two_messages_ok [OF assms(3) _ this assms(4)] obtain s1 where
    w: "multistream_select_write_two_messages stream s (Buf PROTO) (Buf (hd ps)) = Some (MS_OK, s1)" and
    h1: "holds s1 (ms_frame PROTO @ tail) (o' @ ms_frame PROTO @ ms_frame (hd ps))
      (r - (length (ms_frame PROTO) + length (ms_frame (hd ps))))" by auto
  from read_expected_ok [OF h1] obtain s2 where
    "multistream_select_read_expected_protocol_id stream s1 = Some (MS_OK, s2)" and
    "holds s2 tail (o' @ ms_frame PROTO @ ms_frame (hd ps))
      (r - (length (ms_frame PROTO) + length (ms_frame (hd ps))))" by blast
  moreover have "rd (map Buf ps) 0 = Some (Buf (hd ps))" using assms(1) by (cases ps) (auto simp: rd_def)
  ultimately show ?thesis
    using w assms(1,2) by (intro exI [of _ s2]) (simp add: libp2p_multistream_select_select_one_def Let_def)
qed

lemma select_one_agreed:
  assumes "k < length ps" and "ids_valid ps" and "NA \<notin> set (take k ps)"
    and "holds s (ls_bytes (PROTO # replicate k NA @ [ps ! k])) o' r"
    and "length (ls_bytes (PROTO # take (Suc k) ps)) \<le> r"
  shows "\<exists>s' r'. libp2p_multistream_select_select_one stream s (Buf (map Buf ps)) = Some (MS_OK, k, s') \<and>
    holds s' [] (o' @ ls_bytes (PROTO # take (Suc k) ps)) r'"
proof -
  obtain p qs where ps: "ps = p # qs" using assms(1) by (cases ps) auto
  from select_one_start [OF _ assms(2), of s "ls_bytes (replicate k NA @ [ps ! k])" o' r] assms(4,5) ps
  obtain s2 where h2: "holds s2 (ls_bytes (replicate k NA @ [ps ! k]) @ []) (o' @ ms_frame PROTO @ ms_frame p)
      (r - (length (ms_frame PROTO) + length (ms_frame p)))" and
    eq: "libp2p_multistream_select_select_one stream s (Buf (map Buf ps)) = do {
      (result3, selected, s3) \<leftarrow> select_one_loop stream s2 (map Buf ps) 0;
      Some (result3, case selected of None \<Rightarrow> length ps | Some i \<Rightarrow> i, s3)
    }" by auto
  have "length (ls_bytes (tl (take (Suc k) ps))) \<le> r - (length (ms_frame PROTO) + length (ms_frame p))"
    using assms(5) ps by simp
  from select_loop_agreed [OF assms(1-3) h2 this, of 0] obtain s' r' where
    "select_one_loop stream s2 (map Buf ps) 0 = Some (MS_OK, Some k, s')" and
    "holds s' [] ((o' @ ms_frame PROTO @ ms_frame p) @ ls_bytes (tl (take (Suc k) ps))) r'" by auto
  moreover have "ls_bytes (take (Suc k) ps) = ms_frame p @ ls_bytes (tl (take (Suc k) ps))" by (simp add: ps)
  ultimately show ?thesis by (intro exI [of _ s'] exI [of _ r']) (simp add: eq)
qed

lemma select_one_refused:
  assumes "ps \<noteq> []" and "ids_valid ps" and "NA \<notin> set ps"
    and "holds s (ls_bytes (PROTO # replicate (length ps) NA)) o' r" and "length (ls_bytes (PROTO # ps)) \<le> r"
  shows "\<exists>s' r'. libp2p_multistream_select_select_one stream s (Buf (map Buf ps)) =
      Some (LIBP2P_MULTISTREAM_SELECT_ERR_NOT_AVAILABLE, length ps, s') \<and>
    holds s' [] (o' @ ls_bytes (PROTO # ps)) r'"
proof -
  obtain p qs where ps: "ps = p # qs" using assms(1) by (cases ps) auto
  from select_one_start [OF assms(1,2), of s "ls_bytes (replicate (length ps) NA)" o' r] assms(4,5) ps
  obtain s2 where h2: "holds s2 (ls_bytes (replicate (length ps) NA) @ []) (o' @ ms_frame PROTO @ ms_frame p)
      (r - (length (ms_frame PROTO) + length (ms_frame p)))" and
    eq: "libp2p_multistream_select_select_one stream s (Buf (map Buf ps)) = do {
      (result3, selected, s3) \<leftarrow> select_one_loop stream s2 (map Buf ps) 0;
      Some (result3, case selected of None \<Rightarrow> length ps | Some i \<Rightarrow> i, s3)
    }" by auto
  have "length (ls_bytes (tl ps)) \<le> r - (length (ms_frame PROTO) + length (ms_frame p))"
    using assms(5) ps by simp
  from select_loop_refused [OF assms(1-3) h2 this, of 0] obtain s' r' where
    "select_one_loop stream s2 (map Buf ps) 0 = Some (LIBP2P_MULTISTREAM_SELECT_ERR_NOT_AVAILABLE, None, s')" and
    "holds s' [] ((o' @ ms_frame PROTO @ ms_frame p) @ ls_bytes (tl ps)) r'" by auto
  moreover have "ls_bytes ps = ms_frame p @ ls_bytes (tl ps)" by (simp add: ps)
  ultimately show ?thesis by (intro exI [of _ s'] exI [of _ r']) (simp add: eq)
qed

subsection \<open>The responder\<close>

lemma accept_round_read:
  assumes "holds s (ms_frame q @ tail) o' r" and "ms_valid q"
  shows "\<exists>s1. holds s1 tail o' r \<and> accept_round stream (Buf (map Buf ids)) s =
    (if q = LS then do {
       (result2, n, ls_payload) \<leftarrow> libp2p_multistream_select_ls_response_payload_encode (Buf (map Buf ids))
         (Buf (local_array LIBP2P_MULTISTREAM_SELECT_MAX_PAYLOAD_BYTES));
       (if result2 \<noteq> MS_OK then Some (result2, None, s1)
        else do {
          (result3, s2) \<leftarrow> libp2p_multistream_select_write_message stream s1 (Buf (take n (contents ls_payload)));
          Some (result3, None, s2)
        })
     }
     else if q \<in> set ids then do {
       (result2, s2) \<leftarrow> libp2p_multistream_select_write_message stream s1 (Buf q);
       Some (result2, if result2 = MS_OK then Some (length (takeWhile (\<lambda>p. p \<noteq> q) ids)) else None, s2)
     }
     else do {
       (result2, s2) \<leftarrow> libp2p_multistream_select_write_message stream s1 (Buf NA);
       Some (result2, None, s2)
     })"
proof -
  from read_message_ok [OF assms(1,2) local_payload_array [OF assms(2)]] obtain s1 where
    rd: "libp2p_multistream_select_read_message stream s
        (Buf (local_array LIBP2P_MULTISTREAM_SELECT_MAX_PAYLOAD_BYTES)) =
      Some (MS_OK, length q, Buf (q @ drop (length q) (local_array LIBP2P_MULTISTREAM_SELECT_MAX_PAYLOAD_BYTES)), s1)"
    and "holds s1 tail o' r" by blast
  moreover have "accept_round stream (Buf (map Buf ids)) s = (let asked = Buf q in
    (if q = LS then do {
       (result2, n, ls_payload) \<leftarrow> libp2p_multistream_select_ls_response_payload_encode (Buf (map Buf ids))
         (Buf (local_array LIBP2P_MULTISTREAM_SELECT_MAX_PAYLOAD_BYTES));
       (if result2 \<noteq> MS_OK then Some (result2, None, s1)
        else do {
          (result3, s2) \<leftarrow> libp2p_multistream_select_write_message stream s1 (Buf (take n (contents ls_payload)));
          Some (result3, None, s2)
        })
     }
     else if q \<in> set ids then do {
       (result2, s2) \<leftarrow> libp2p_multistream_select_write_message stream s1 (Buf q);
       Some (result2, if result2 = MS_OK then Some (length (takeWhile (\<lambda>p. p \<noteq> q) ids)) else None, s2)
     }
     else do {
       (result2, s2) \<leftarrow> libp2p_multistream_select_write_message stream s1 (Buf NA);
       Some (result2, None, s2)
     }))"
    unfolding accept_round_def rd by (simp add: Let_def takeWhile_length_less)
  ultimately show ?thesis by (auto simp: Let_def)
qed

lemma accept_round_selects:
  assumes "holds s (ms_frame q @ tail) o' r" and "ms_valid q" and "q \<in> set ids" and "q \<noteq> LS"
    and "length (ms_frame q) \<le> r"
  shows "\<exists>s'. accept_round stream (Buf (map Buf ids)) s = Some (MS_OK, Some (length (takeWhile (\<lambda>p. p \<noteq> q) ids)), s') \<and>
    holds s' tail (o' @ ms_frame q) (r - length (ms_frame q))"
proof -
  from accept_round_read [OF assms(1,2), of ids] obtain s1 where h: "holds s1 tail o' r" and
    "accept_round stream (Buf (map Buf ids)) s = do {
       (result2, s2) \<leftarrow> libp2p_multistream_select_write_message stream s1 (Buf q);
       Some (result2, if result2 = MS_OK then Some (length (takeWhile (\<lambda>p. p \<noteq> q) ids)) else None, s2)
     }" using assms(3,4) by auto
  with write_message_ok [OF h assms(2,5)] show ?thesis by auto
qed

lemma ms_answer_valid: "ms_unanswerable ids q \<Longrightarrow> ms_valid (ms_answer ids q)"
  by (auto simp: ms_unanswerable_def ms_answer_def ms_valid_def [of "ls_bytes ids"])

lemma accept_round_answers:
  assumes h: "holds s (ms_frame q @ tail) o' r" and q: "ms_unanswerable ids q" and ids: "ids_valid ids"
    and room: "length (ms_frame (ms_answer ids q)) \<le> r"
  shows "\<exists>s'. accept_round stream (Buf (map Buf ids)) s = Some (MS_OK, None, s') \<and>
    holds s' tail (o' @ ms_frame (ms_answer ids q)) (r - length (ms_frame (ms_answer ids q)))"
proof -
  have valid: "ms_valid q" using q by (simp add: ms_unanswerable_def)
  let ?ar = "local_array LIBP2P_MULTISTREAM_SELECT_MAX_PAYLOAD_BYTES"
  have enc: "libp2p_multistream_select_ls_response_payload_encode (Buf (map Buf ids)) (Buf ?ar) =
    Some (MS_OK, length (ls_bytes ids), Buf (ls_bytes ids @ drop (length (ls_bytes ids)) ?ar))" if "q = LS"
    using q that by (intro ls_encode_fits [OF ids]) (simp_all add: ms_unanswerable_def local_array_def ms_limits)
  from accept_round_read [OF h valid, of ids] obtain s1 where h1: "holds s1 tail o' r" and
    "accept_round stream (Buf (map Buf ids)) s = do {
       (result2, s2) \<leftarrow> libp2p_multistream_select_write_message stream s1 (Buf (ms_answer ids q));
       Some (result2, None, s2)
     }" using q enc by (auto simp: ms_unanswerable_def ms_answer_def split: if_splits)
  with write_message_ok [OF h1 ms_answer_valid [OF q] room] show ?thesis by auto
qed

lemma accept_round_dry:
  "holds s [] o' r \<Longrightarrow>
   \<exists>s'. accept_round stream protocols s = Some (dry, None, s') \<and> holds s' [] o' r"
  using read_message_dry [of s o' r "Buf (local_array LIBP2P_MULTISTREAM_SELECT_MAX_PAYLOAD_BYTES)"] dry_error
  by (auto simp: accept_round_def Let_def)

lemma accept_loop_agreed:
  "list_all (ms_unanswerable ids) reqs \<Longrightarrow> ids_valid ids \<Longrightarrow> ms_valid q \<Longrightarrow> q \<in> set ids \<Longrightarrow> q \<noteq> LS \<Longrightarrow>
   holds s (ls_bytes reqs @ ms_frame q @ tail) o' r \<Longrightarrow>
   length (ls_bytes (map (ms_answer ids) reqs @ [q])) \<le> r \<Longrightarrow>
   \<exists>s' r'. accept_loop stream (Buf (map Buf ids)) s =
      Some (MS_OK, Some (length (takeWhile (\<lambda>p. p \<noteq> q) ids)), s') \<and>
     holds s' tail (o' @ ls_bytes (map (ms_answer ids) reqs @ [q])) r'"
proof (induction reqs arbitrary: s o' r)
  case Nil
  with accept_round_selects [of s q tail o' r ids] show ?case
    by (subst accept_loop.simps) auto
next
  case (Cons x reqs)
  from accept_round_answers [of s x "ls_bytes reqs @ ms_frame q @ tail" o' r ids] Cons.prems obtain s1 where
    r1: "accept_round stream (Buf (map Buf ids)) s = Some (MS_OK, None, s1)" and
    h1: "holds s1 (ls_bytes reqs @ ms_frame q @ tail) (o' @ ms_frame (ms_answer ids x))
      (r - length (ms_frame (ms_answer ids x)))" by auto
  have "length (ls_bytes (map (ms_answer ids) reqs @ [q])) \<le> r - length (ms_frame (ms_answer ids x))"
    using Cons.prems(7) by simp
  from Cons.IH [OF _ _ _ _ _ h1 this] Cons.prems obtain s' r' where
    "accept_loop stream (Buf (map Buf ids)) s1 = Some (MS_OK, Some (length (takeWhile (\<lambda>p. p \<noteq> q) ids)), s')" and
    "holds s' tail (o' @ ls_bytes (map (ms_answer ids) (x # reqs) @ [q])) r'" by auto
  with r1 show ?case by (subst accept_loop.simps) auto
qed

lemma accept_loop_dry:
  "list_all (ms_unanswerable ids) reqs \<Longrightarrow> ids_valid ids \<Longrightarrow> holds s (ls_bytes reqs) o' r \<Longrightarrow>
   length (ls_bytes (map (ms_answer ids) reqs)) \<le> r \<Longrightarrow>
   \<exists>s' r'. accept_loop stream (Buf (map Buf ids)) s = Some (dry, None, s') \<and>
     holds s' [] (o' @ ls_bytes (map (ms_answer ids) reqs)) r'"
proof (induction reqs arbitrary: s o' r)
  case Nil
  with accept_round_dry [of s o' r "Buf (map Buf ids)"] dry_error show ?case
    by (subst accept_loop.simps) auto
next
  case (Cons x reqs)
  from accept_round_answers [of s x "ls_bytes reqs" o' r ids] Cons.prems obtain s1 where
    r1: "accept_round stream (Buf (map Buf ids)) s = Some (MS_OK, None, s1)" and
    h1: "holds s1 (ls_bytes reqs) (o' @ ms_frame (ms_answer ids x))
      (r - length (ms_frame (ms_answer ids x)))" by auto
  have "length (ls_bytes (map (ms_answer ids) reqs)) \<le> r - length (ms_frame (ms_answer ids x))"
    using Cons.prems(4) by simp
  from Cons.IH [OF _ _ h1 this] Cons.prems obtain s' r' where
    "accept_loop stream (Buf (map Buf ids)) s1 = Some (dry, None, s')" and
    "holds s' [] (o' @ ls_bytes (map (ms_answer ids) (x # reqs))) r'" by auto
  with r1 show ?case by (subst accept_loop.simps) auto
qed

lemma accept_start:
  assumes "ids_valid ids" and "holds s (ms_frame PROTO @ tail) o' r" and "length (ms_frame PROTO) \<le> r"
  shows "\<exists>s2. holds s2 tail (o' @ ms_frame PROTO) (r - length (ms_frame PROTO)) \<and>
    libp2p_multistream_select_accept stream s (Buf (map Buf ids)) = do {
      (result3, selected, s3) \<leftarrow> accept_loop stream (Buf (map Buf ids)) s2;
      Some (result3, case selected of None \<Rightarrow> length ids | Some i \<Rightarrow> i, s3)
    }"
proof -
  from write_message_ok [OF assms(2) _ assms(3)] obtain s1 where
    w: "libp2p_multistream_select_write_message stream s (Buf PROTO) = Some (MS_OK, s1)" and
    h1: "holds s1 (ms_frame PROTO @ tail) (o' @ ms_frame PROTO) (r - length (ms_frame PROTO))" by auto
  from read_expected_ok [OF h1] obtain s2 where
    "multistream_select_read_expected_protocol_id stream s1 = Some (MS_OK, s2)" and
    "holds s2 tail (o' @ ms_frame PROTO) (r - length (ms_frame PROTO))" by blast
  with w assms(1) show ?thesis
    by (intro exI [of _ s2]) (simp add: libp2p_multistream_select_accept_def Let_def)
qed

lemma accept_agreed:
  assumes "list_all (ms_unanswerable ids) reqs" and "ids_valid ids" and "q \<in> set ids" and "q \<noteq> LS"
    and "holds s (ls_bytes (PROTO # reqs @ [q])) o' r"
    and "length (ls_bytes (PROTO # map (ms_answer ids) reqs @ [q])) \<le> r"
  shows "\<exists>s' r'. libp2p_multistream_select_accept stream s (Buf (map Buf ids)) =
      Some (MS_OK, length (takeWhile (\<lambda>p. p \<noteq> q) ids), s') \<and>
    holds s' [] (o' @ ls_bytes (PROTO # map (ms_answer ids) reqs @ [q])) r'"
proof -
  have q: "ms_valid q" using assms(2,3) by (auto simp: ids_valid_def list_all_iff)
  from accept_start [OF assms(2), of s "ls_bytes reqs @ ms_frame q @ []" o' r] assms(5,6) obtain s2 where
    h2: "holds s2 (ls_bytes reqs @ ms_frame q @ []) (o' @ ms_frame PROTO) (r - length (ms_frame PROTO))" and
    eq: "libp2p_multistream_select_accept stream s (Buf (map Buf ids)) = do {
      (result3, selected, s3) \<leftarrow> accept_loop stream (Buf (map Buf ids)) s2;
      Some (result3, case selected of None \<Rightarrow> length ids | Some i \<Rightarrow> i, s3)
    }" by auto
  have "length (ls_bytes (map (ms_answer ids) reqs @ [q])) \<le> r - length (ms_frame PROTO)"
    using assms(6) by simp
  from accept_loop_agreed [OF assms(1,2) q assms(3,4) h2 this] eq show ?thesis by auto
qed

lemma accept_dry:
  assumes "list_all (ms_unanswerable ids) reqs" and "ids_valid ids"
    and "holds s (ls_bytes (PROTO # reqs)) o' r"
    and "length (ls_bytes (PROTO # map (ms_answer ids) reqs)) \<le> r"
  shows "\<exists>s' r'. libp2p_multistream_select_accept stream s (Buf (map Buf ids)) = Some (dry, length ids, s') \<and>
    holds s' [] (o' @ ls_bytes (PROTO # map (ms_answer ids) reqs)) r'"
proof -
  from accept_start [OF assms(2), of s "ls_bytes reqs" o' r] assms(3,4) obtain s2 where
    h2: "holds s2 (ls_bytes reqs) (o' @ ms_frame PROTO) (r - length (ms_frame PROTO))" and
    eq: "libp2p_multistream_select_accept stream s (Buf (map Buf ids)) = do {
      (result3, selected, s3) \<leftarrow> accept_loop stream (Buf (map Buf ids)) s2;
      Some (result3, case selected of None \<Rightarrow> length ids | Some i \<Rightarrow> i, s3)
    }" by auto
  have "length (ls_bytes (map (ms_answer ids) reqs)) \<le> r - length (ms_frame PROTO)" using assms(4) by simp
  from accept_loop_dry [OF assms(1,2) h2 this] eq show ?thesis by auto
qed

subsection \<open>The initiator's listing request\<close>

lemma ls_bytes_not_na: "ls_bytes ids \<noteq> NA"
proof
  assume eq: "ls_bytes ids = NA"
  have "last (ls_bytes ids) = MULTISTREAM_SELECT_NEWLINE" if "ids \<noteq> []"
    using that by (induction ids) (auto simp: ms_frame_def)
  moreover have "ids \<noteq> []" using eq by (auto simp: LIBP2P_MULTISTREAM_SELECT_NA_def ascii_def)
  ultimately show False
    using eq by (simp add: LIBP2P_MULTISTREAM_SELECT_NA_def ascii_def MULTISTREAM_SELECT_NEWLINE_def)
qed

lemma request_ls_ok:
  assumes "list_all ms_valid ids" and "length (ls_bytes ids) \<le> 1023"
    and h: "holds s (ls_bytes [PROTO, ls_bytes ids]) o' r" and room: "length (ls_bytes [PROTO, LS]) \<le> r"
  shows "\<exists>s' r'. libp2p_multistream_select_request_ls stream s (Some collect_ids) [] =
      Some (MS_OK, length ids, ids, s') \<and> holds s' [] (o' @ ls_bytes [PROTO, LS]) r'"
proof -
  let ?arr = "local_array LIBP2P_MULTISTREAM_SELECT_MAX_PAYLOAD_BYTES"
  have valid: "ms_valid (ls_bytes ids)" using assms(2) by (simp add: ms_valid_def)
  from write_two_messages_ok [of s "ls_bytes [PROTO, ls_bytes ids]" o' r PROTO LS] h room obtain s1 r1 where
    w: "multistream_select_write_two_messages stream s (Buf PROTO) (Buf LS) = Some (MS_OK, s1)" and
    h1: "holds s1 (ms_frame PROTO @ ms_frame (ls_bytes ids) @ []) (o' @ ls_bytes [PROTO, LS]) r1" by auto
  from read_expected_ok [OF h1] obtain s2 where
    e: "multistream_select_read_expected_protocol_id stream s1 = Some (MS_OK, s2)" and
    h2: "holds s2 (ms_frame (ls_bytes ids) @ []) (o' @ ls_bytes [PROTO, LS]) r1" by blast
  from read_message_ok [OF h2 valid local_payload_array [OF valid]] obtain s3 where
    rd: "libp2p_multistream_select_read_message stream s2 (Buf ?arr) =
      Some (MS_OK, length (ls_bytes ids), Buf (ls_bytes ids @ drop (length (ls_bytes ids)) ?arr), s3)" and
    h3: "holds s3 [] (o' @ ls_bytes [PROTO, LS]) r1" by blast
  have "libp2p_multistream_select_ls_response_payload_decode (Buf (ls_bytes ids)) (Some collect_ids) [] =
      Some (MS_OK, length ids, ids)"
    using assms(1,2) ls_decode_loop_iff [of "ls_bytes ids" "[]" 0 "length ids" ids]
    by (auto simp: libp2p_multistream_select_ls_response_payload_decode_def ms_limits)
  with w e rd h3 ls_bytes_not_na show ?thesis
    by (intro exI [of _ s3] exI [of _ r1])
      (simp add: libp2p_multistream_select_request_ls_def Let_def)
qed

end

subsection \<open>A stream over buffers\<close>

text \<open>
  The stream of \<open>src/tests/unit/multiformats/multistream-select/test_multistream_select.c\<close>: bytes to
  read in one buffer, bytes written in another of 4096 bytes, both in chunks of a limited size
  (no limit when it is zero). It keeps the contract of \<open>byte_stream\<close>.
\<close>

definition TEST_STREAM_BUF_BYTES :: nat where
  "TEST_STREAM_BUF_BYTES = 4096"

record test_stream_t =
  read_buf :: "byte list"
  read_len :: nat
  read_pos :: nat
  write_buf :: "byte list"
  write_len :: nat
  max_read_chunk :: nat
  max_write_chunk :: nat

definition test_read_fn :: "test_stream_t \<Rightarrow> nat \<Rightarrow> ms_err \<times> byte list \<times> test_stream_t" where
  "test_read_fn s out_len =
     (if read_pos s \<ge> read_len s then (LIBP2P_MULTISTREAM_SELECT_ERR_WOULD_BLOCK, [], s)
      else
        let limit = (if max_read_chunk s \<noteq> 0 \<and> max_read_chunk s < out_len then max_read_chunk s else out_len);
            available = min (read_len s - read_pos s) limit
        in (MS_OK, take available (drop (read_pos s) (read_buf s)), s\<lparr>read_pos := read_pos s + available\<rparr>))"

definition test_write_fn :: "test_stream_t \<Rightarrow> byte list \<Rightarrow> ms_err \<times> nat \<times> test_stream_t" where
  "test_write_fn s data =
     (if write_len s \<ge> TEST_STREAM_BUF_BYTES then (LIBP2P_MULTISTREAM_SELECT_ERR_IO, 0, s)
      else
        let limit = (if max_write_chunk s \<noteq> 0 \<and> max_write_chunk s < length data then max_write_chunk s
                     else length data);
            available = min (TEST_STREAM_BUF_BYTES - write_len s) limit
        in (MS_OK, available,
            s\<lparr>write_buf := take (write_len s) (write_buf s) @ take available data @
                           drop (write_len s + available) (write_buf s),
              write_len := write_len s + available\<rparr>))"

definition test_stream_ok :: "test_stream_t \<Rightarrow> bool" where
  "test_stream_ok s \<longleftrightarrow>
     read_pos s \<le> read_len s \<and> read_len s \<le> length (read_buf s) \<and>
     write_len s \<le> TEST_STREAM_BUF_BYTES \<and> length (write_buf s) = TEST_STREAM_BUF_BYTES"

definition test_unread :: "test_stream_t \<Rightarrow> byte list" where
  "test_unread s = take (read_len s - read_pos s) (drop (read_pos s) (read_buf s))"

definition test_written :: "test_stream_t \<Rightarrow> byte list" where
  "test_written s = take (write_len s) (write_buf s)"

definition test_room :: "test_stream_t \<Rightarrow> nat" where
  "test_room s = TEST_STREAM_BUF_BYTES - write_len s"

definition test_stream_view :: "test_stream_t ms_stream" where
  "test_stream_view = Some \<lparr>read_fn = Some test_read_fn, write_fn = Some test_write_fn\<rparr>"

lemma test_read_some:
  assumes "test_stream_ok s" and "0 < n" and "test_unread s \<noteq> []"
  shows "\<exists>k s'. 0 < k \<and> k \<le> n \<and> k \<le> length (test_unread s) \<and>
    test_read_fn s n = (MS_OK, take k (test_unread s), s') \<and> test_stream_ok s' \<and>
    test_unread s' = drop k (test_unread s) \<and> test_written s' = test_written s \<and> test_room s' = test_room s"
proof -
  let ?limit = "if max_read_chunk s \<noteq> 0 \<and> max_read_chunk s < n then max_read_chunk s else n"
  let ?k = "min (read_len s - read_pos s) ?limit" and ?s = "s\<lparr>read_pos := read_pos s + min (read_len s - read_pos s) ?limit\<rparr>"
  have "read_pos s < read_len s" using assms(3) by (auto simp: test_unread_def)
  moreover have "0 < ?limit" "?limit \<le> n" using assms(2) by auto
  ultimately have k: "0 < ?k" "?k \<le> n" "?k \<le> read_len s - read_pos s" "\<not> read_len s \<le> read_pos s" by auto
  have "test_read_fn s n = (MS_OK, take ?k (drop (read_pos s) (read_buf s)), ?s)"
    using k(4) unfolding test_read_fn_def Let_def by simp
  moreover have "take ?k (drop (read_pos s) (read_buf s)) = take ?k (test_unread s)"
    using k(3) unfolding test_unread_def take_take by (simp only: min.absorb1)
  moreover have "test_unread ?s = drop ?k (test_unread s)"
    using k(3) by (simp add: test_unread_def drop_take add.commute)
  moreover have "length (test_unread s) = read_len s - read_pos s" and "test_stream_ok ?s"
    using assms(1) k(3) by (auto simp: test_unread_def test_stream_ok_def)
  moreover have "test_written ?s = test_written s" "test_room ?s = test_room s"
    by (simp_all add: test_written_def test_room_def)
  ultimately show ?thesis
    using k(1-3) by (intro exI [of _ ?k] exI [of _ ?s]) (simp only: simp_thms)
qed

lemma test_write_some:
  assumes "test_stream_ok s" and "bs \<noteq> []" and "0 < test_room s"
  shows "\<exists>k s'. 0 < k \<and> k \<le> length bs \<and> k \<le> test_room s \<and> test_write_fn s bs = (MS_OK, k, s') \<and>
    test_stream_ok s' \<and> test_unread s' = test_unread s \<and>
    test_written s' = test_written s @ take k bs \<and> test_room s' = test_room s - k"
proof -
  let ?limit = "if max_write_chunk s \<noteq> 0 \<and> max_write_chunk s < length bs then max_write_chunk s else length bs"
  define k where "k = min (TEST_STREAM_BUF_BYTES - write_len s) ?limit"
  define s' where "s' = s\<lparr>write_buf := take (write_len s) (write_buf s) @ take k bs @
      drop (write_len s + k) (write_buf s), write_len := write_len s + k\<rparr>"
  have "0 < ?limit" "?limit \<le> length bs" using assms(2) by auto
  then have k: "0 < k" "k \<le> length bs" "k \<le> test_room s" and lt: "\<not> TEST_STREAM_BUF_BYTES \<le> write_len s"
    using assms(3) by (auto simp: k_def test_room_def)
  have "test_write_fn s bs = (MS_OK, k, s')"
    using lt unfolding test_write_fn_def Let_def k_def s'_def by simp
  moreover have "test_stream_ok s'" "test_room s' = test_room s - k" "test_unread s' = test_unread s"
    and "test_written s' = test_written s @ take k bs"
    using assms(1) k
    by (auto simp: test_stream_ok_def s'_def test_room_def test_unread_def test_written_def)
  ultimately show ?thesis using k by blast
qed

interpretation ts: byte_stream test_read_fn test_write_fn test_stream_ok test_unread test_written test_room
  LIBP2P_MULTISTREAM_SELECT_ERR_WOULD_BLOCK
proof
  fix s n
  assume "test_stream_ok s" "test_unread s = []"
  then show "\<exists>d s'. test_read_fn s n = (LIBP2P_MULTISTREAM_SELECT_ERR_WOULD_BLOCK, d, s') \<and> test_stream_ok s' \<and>
      test_unread s' = [] \<and> test_written s' = test_written s \<and> test_room s' = test_room s"
    by (auto simp: test_read_fn_def test_unread_def test_stream_ok_def)
qed (use test_read_some test_write_some in blast)+

text \<open>A fresh stream that delivers \<open>inp\<close>.\<close>

definition test_stream :: "byte list \<Rightarrow> nat \<Rightarrow> nat \<Rightarrow> test_stream_t" where
  "test_stream inp read_chunk write_chunk =
     \<lparr>read_buf = inp, read_len = length inp, read_pos = 0, write_buf = replicate TEST_STREAM_BUF_BYTES 0,
      write_len = 0, max_read_chunk = read_chunk, max_write_chunk = write_chunk\<rparr>"

lemma test_stream_simps [simp]:
  "test_stream_ok (test_stream inp r w)" "test_unread (test_stream inp r w) = inp"
  "test_written (test_stream inp r w) = []" "test_room (test_stream inp r w) = 4096"
  by (simp_all add: test_stream_def test_stream_ok_def test_unread_def test_written_def test_room_def
      TEST_STREAM_BUF_BYTES_def)

lemma ts_holds_iff [simp]:
  "ts.holds s i w r \<longleftrightarrow> test_stream_ok s \<and> test_unread s = i \<and> test_written s = w \<and> test_room s = r"
  by (simp add: ts.holds_def)

subsection \<open>Properties\<close>

text \<open>
  Claim C1. Agreement. Let neither \<open>na\<close> nor \<open>ls\<close> be among the initiator's ids, and let \<open>k\<close> be the first
  position on its list whose id the responder supports. When each side receives on an in-memory stream, in
  pieces of any size, exactly what the other one sends,
  \<open>select_one\<close> and \<open>accept\<close> both return OK, \<open>select_one\<close> with index \<open>k\<close> and \<open>accept\<close> with the first
  index of the same id on its own list; the two transcripts match byte for byte and nothing is
  left unread, so the negotiated protocol starts on a clean stream.
\<close>

theorem negotiation_agreement:
  assumes "ids_valid P" and "ids_valid Q" and "NA \<notin> set P" and "LS \<notin> set P"
    and "k < length P" and "P ! k \<in> set Q" and "\<forall>i<k. P ! i \<notin> set Q"
    and "test_stream_ok d" and "test_stream_ok l"
    and "test_unread d = ls_bytes (PROTO # replicate k NA @ [P ! k])"
    and "test_unread l = ls_bytes (PROTO # take (Suc k) P)"
    and "length (test_unread l) \<le> test_room d" and "length (test_unread d) \<le> test_room l"
  shows "\<exists>d' l'.
    libp2p_multistream_select_select_one test_stream_view d (Buf (map Buf P)) = Some (MS_OK, k, d') \<and>
    libp2p_multistream_select_accept test_stream_view l (Buf (map Buf Q)) =
      Some (MS_OK, length (takeWhile (\<lambda>q. q \<noteq> P ! k) Q), l') \<and>
    test_written d' = test_written d @ test_unread l \<and> test_unread d' = [] \<and>
    test_written l' = test_written l @ test_unread d \<and> test_unread l' = []"
proof -
  have k: "P ! k \<noteq> LS" using assms(4,5) nth_mem by metis
  have P: "list_all ms_valid P" using assms(1) by (simp add: ids_valid_def list_all_iff)
  have sub: "x \<in> set P \<and> x \<notin> set Q" if "x \<in> set (take k P)" for x
    using that assms(5,7) by (auto simp: in_set_conv_nth [of _ "take k P"])
  then have reqs: "list_all (ms_unanswerable Q) (take k P)" and "map (ms_answer Q) (take k P) = map (\<lambda>_. NA) (take k P)"
    using P assms(4) by (auto simp: list_all_iff ms_unanswerable_def ms_answer_def)
  then have ans: "map (ms_answer Q) (take k P) = replicate k NA"
    using assms(5) by (simp add: map_replicate_const)
  have split: "take (Suc k) P = take k P @ [P ! k]" using assms(5) by (rule take_Suc_conv_app_nth)
  have "NA \<notin> set (take k P)" using assms(3) by (auto dest: in_set_takeD)
  from ts.select_one_agreed [OF assms(5,1) this, of d "test_written d" "test_room d"] assms(8,10,11,12)
    ts.accept_agreed [OF reqs assms(2,6) k, of l "test_written l" "test_room l"] assms(9,13)
  show ?thesis unfolding test_stream_view_def ans split by auto
qed

theorem negotiation_agreement_witness:
  "\<exists>d' l'.
    libp2p_multistream_select_select_one test_stream_view
      (test_stream (ls_bytes [PROTO, NA, ascii ''/b'']) 1 2) (Buf [Buf (ascii ''/a''), Buf (ascii ''/b'')]) =
      Some (MS_OK, 1, d') \<and>
    libp2p_multistream_select_accept test_stream_view
      (test_stream (ls_bytes [PROTO, ascii ''/a'', ascii ''/b'']) 0 3) (Buf [Buf (ascii ''/b'')]) =
      Some (MS_OK, 0, l') \<and>
    test_unread d' = [] \<and> test_unread l' = []"
proof -
  let ?P = "[ascii ''/a'', ascii ''/b'']" and ?Q = "[ascii ''/b'']"
  let ?d = "test_stream (ls_bytes [PROTO, NA, ascii ''/b'']) 1 2"
    and ?l = "test_stream (ls_bytes [PROTO, ascii ''/a'', ascii ''/b'']) 0 3"
  have "ids_valid ?P" "ids_valid ?Q" "NA \<notin> set ?P" "LS \<notin> set ?P" "1 < length ?P" "?P ! 1 \<in> set ?Q"
    "\<forall>i<1. ?P ! i \<notin> set ?Q"
    by (simp_all add: ms_valid_def ascii_def LIBP2P_MULTISTREAM_SELECT_NA_def LIBP2P_MULTISTREAM_SELECT_LS_def)
  moreover have "test_stream_ok ?d" "test_stream_ok ?l"
    "test_unread ?d = ls_bytes (PROTO # replicate 1 NA @ [?P ! 1])" "test_unread ?l = ls_bytes (PROTO # take (Suc 1) ?P)"
    by simp_all
  moreover have "length (test_unread ?l) \<le> test_room ?d" "length (test_unread ?d) \<le> test_room ?l"
    by (simp_all add: length_ms_frame ascii_def uvarint_bytes_small LIBP2P_MULTISTREAM_SELECT_NA_def
        LIBP2P_MULTISTREAM_SELECT_PROTOCOL_ID_def)
  ultimately show ?thesis
    using negotiation_agreement [of ?P ?Q 1 ?d ?l] by auto
qed

text \<open>
  Claim C19. Refusal. When neither \<open>na\<close> nor \<open>ls\<close> is among the initiator's ids, the responder supports none
  of them and each side receives on an in-memory stream exactly what the other sends, \<open>select_one\<close> returns NOT_AVAILABLE after proposing every id once,
  and \<open>accept\<close> has answered each proposal with \<open>na\<close> and waits for the next request.
\<close>

theorem negotiation_refusal:
  assumes "ids_valid P" and "ids_valid Q" and "NA \<notin> set P" and "LS \<notin> set P"
    and "P \<noteq> []" and "set P \<inter> set Q = {}"
    and "test_stream_ok d" and "test_stream_ok l"
    and "test_unread d = ls_bytes (PROTO # replicate (length P) NA)"
    and "test_unread l = ls_bytes (PROTO # P)"
    and "length (test_unread l) \<le> test_room d" and "length (test_unread d) \<le> test_room l"
  shows "\<exists>d' l'.
    libp2p_multistream_select_select_one test_stream_view d (Buf (map Buf P)) =
      Some (LIBP2P_MULTISTREAM_SELECT_ERR_NOT_AVAILABLE, length P, d') \<and>
    libp2p_multistream_select_accept test_stream_view l (Buf (map Buf Q)) =
      Some (LIBP2P_MULTISTREAM_SELECT_ERR_WOULD_BLOCK, length Q, l') \<and>
    test_written d' = test_written d @ test_unread l \<and> test_unread d' = [] \<and>
    test_written l' = test_written l @ test_unread d \<and> test_unread l' = []"
proof -
  have "list_all ms_valid P" using assms(1) by (simp add: ids_valid_def list_all_iff)
  then have reqs: "list_all (ms_unanswerable Q) P" and "map (ms_answer Q) P = map (\<lambda>_. NA) P"
    using assms(4,6) by (auto simp: list_all_iff ms_unanswerable_def ms_answer_def)
  then have ans: "map (ms_answer Q) P = replicate (length P) NA" by (simp add: map_replicate_const)
  from ts.select_one_refused [OF assms(5,1,3), of d "test_written d" "test_room d"] assms(7,9,10,11)
    ts.accept_dry [OF reqs assms(2), of l "test_written l" "test_room l"] assms(8,12)
  show ?thesis unfolding test_stream_view_def ans by auto
qed

theorem negotiation_refusal_witness:
  "\<exists>d' l'.
    libp2p_multistream_select_select_one test_stream_view
      (test_stream (ls_bytes [PROTO, NA]) 1 0) (Buf [Buf (ascii ''/a'')]) =
      Some (LIBP2P_MULTISTREAM_SELECT_ERR_NOT_AVAILABLE, 1, d') \<and>
    libp2p_multistream_select_accept test_stream_view
      (test_stream (ls_bytes [PROTO, ascii ''/a'']) 5 1) (Buf [Buf (ascii ''/b'')]) =
      Some (LIBP2P_MULTISTREAM_SELECT_ERR_WOULD_BLOCK, 1, l')"
proof -
  let ?P = "[ascii ''/a'']" and ?Q = "[ascii ''/b'']"
  let ?d = "test_stream (ls_bytes [PROTO, NA]) 1 0" and ?l = "test_stream (ls_bytes [PROTO, ascii ''/a'']) 5 1"
  have "ids_valid ?P" "ids_valid ?Q" "NA \<notin> set ?P" "LS \<notin> set ?P" "?P \<noteq> []" "set ?P \<inter> set ?Q = {}"
    by (simp_all add: ms_valid_def ascii_def LIBP2P_MULTISTREAM_SELECT_NA_def LIBP2P_MULTISTREAM_SELECT_LS_def)
  moreover have "test_stream_ok ?d" "test_stream_ok ?l"
    "test_unread ?d = ls_bytes (PROTO # replicate (length ?P) NA)" "test_unread ?l = ls_bytes (PROTO # ?P)"
    by simp_all
  moreover have "length (test_unread ?l) \<le> test_room ?d" "length (test_unread ?d) \<le> test_room ?l"
    by (simp_all add: length_ms_frame ascii_def uvarint_bytes_small LIBP2P_MULTISTREAM_SELECT_NA_def
        LIBP2P_MULTISTREAM_SELECT_PROTOCOL_ID_def)
  ultimately show ?thesis
    using negotiation_refusal [of ?P ?Q ?d ?l] by auto
qed

text \<open>
  Listing. When each side receives exactly what the other sends, \<open>request_ls\<close> shows its visitor
  the responder's ids in the responder's order, and \<open>accept\<close> has answered the request and waits for
  the next one.
\<close>

theorem listing_agreement:
  assumes "ids_valid Q" and "length (ls_bytes Q) \<le> 1023"
    and "test_stream_ok d" and "test_stream_ok l"
    and "test_unread d = ls_bytes [PROTO, ls_bytes Q]" and "test_unread l = ls_bytes [PROTO, LS]"
    and "length (test_unread l) \<le> test_room d" and "length (test_unread d) \<le> test_room l"
  shows "\<exists>d' l'.
    libp2p_multistream_select_request_ls test_stream_view d (Some collect_ids) [] = Some (MS_OK, length Q, Q, d') \<and>
    libp2p_multistream_select_accept test_stream_view l (Buf (map Buf Q)) =
      Some (LIBP2P_MULTISTREAM_SELECT_ERR_WOULD_BLOCK, length Q, l') \<and>
    test_written d' = test_written d @ test_unread l \<and> test_written l' = test_written l @ test_unread d"
proof -
  have "list_all ms_valid Q" using assms(1) by (simp add: ids_valid_def list_all_iff)
  from ts.request_ls_ok [OF this assms(2), of d "test_written d" "test_room d"] assms(3,5,6,7) obtain d' where
    "libp2p_multistream_select_request_ls test_stream_view d (Some collect_ids) [] = Some (MS_OK, length Q, Q, d')"
    and "test_written d' = test_written d @ test_unread l" unfolding test_stream_view_def by auto
  moreover have "list_all (ms_unanswerable Q) [LS]" and ans: "map (ms_answer Q) [LS] = [ls_bytes Q]"
    using assms(2) by (simp_all add: ms_unanswerable_def ms_answer_def)
  from ts.accept_dry [OF this(1) assms(1), of l "test_written l" "test_room l"] assms(4,5,6,8) obtain l' where
    "libp2p_multistream_select_accept test_stream_view l (Buf (map Buf Q)) =
      Some (LIBP2P_MULTISTREAM_SELECT_ERR_WOULD_BLOCK, length Q, l')"
    and "test_written l' = test_written l @ test_unread d" unfolding test_stream_view_def ans by auto
  ultimately show ?thesis by blast
qed

theorem listing_agreement_witness:
  "\<exists>d'. libp2p_multistream_select_request_ls test_stream_view
      (test_stream (ls_bytes [PROTO, ls_bytes [ascii ''/b'']]) 1 0) (Some collect_ids) [] =
      Some (MS_OK, 1, [ascii ''/b''], d')"
proof -
  let ?Q = "[ascii ''/b'']"
  let ?d = "test_stream (ls_bytes [PROTO, ls_bytes ?Q]) 1 0" and ?l = "test_stream (ls_bytes [PROTO, LS]) 0 0"
  have "ids_valid ?Q" "length (ls_bytes ?Q) \<le> 1023"
    by (simp_all add: ms_valid_def ascii_def length_ms_frame uvarint_bytes_small)
  moreover have "length (test_unread ?l) \<le> test_room ?d" "length (test_unread ?d) \<le> test_room ?l"
    by (simp_all add: length_ms_frame ascii_def uvarint_bytes_small LIBP2P_MULTISTREAM_SELECT_LS_def
        LIBP2P_MULTISTREAM_SELECT_PROTOCOL_ID_def)
  ultimately show ?thesis
    using listing_agreement [of ?Q ?d ?l] by auto
qed

text \<open>
  Fragmentation is invisible: when the pending bytes of the stream start with the frame of a
  payload of at most 1023 bytes that fits the buffer, \<open>read_message\<close> returns exactly that payload
  and consumes exactly that frame, whatever the chunk sizes of the stream.
\<close>

theorem read_message_fragmented:
  assumes "test_stream_ok s" and "test_unread s = ms_frame p @ tail" and "length p \<le> 1023"
    and "length p \<le> length out"
  shows "\<exists>s'. libp2p_multistream_select_read_message test_stream_view s (Buf out) =
      Some (MS_OK, length p, Buf (p @ drop (length p) out), s') \<and>
    test_unread s' = tail \<and> test_written s' = test_written s"
  using ts.read_message_ok [of s p tail "test_written s" "test_room s" out] assms
  unfolding test_stream_view_def by (auto simp: ms_valid_def)

theorem read_message_fragmented_witness:
  "\<exists>s'. libp2p_multistream_select_read_message test_stream_view (test_stream (ms_frame [1, 2] @ [9]) 1 1)
      (Buf [0, 0, 0]) = Some (MS_OK, 2, Buf [1, 2, 0], s') \<and> test_unread s' = [9]"
  using read_message_fragmented [of "test_stream (ms_frame [1, 2] @ [9]) 1 1" "[1, 2]" "[9]" "[0, 0, 0]"]
  by (auto simp: numeral_2_eq_2)

text \<open>
  Claim C21. An id that equals the literal \<open>na\<close> is ambiguous on the wire: when such an id is proposed to a
  responder that does not support it, the refusal \<open>na\<close> is what \<open>accept\<close> sends, and \<open>select_one\<close> takes
  it for the acceptance of the proposal.
\<close>

theorem na_candidate_confusion:
  assumes "ids_valid Q" and "NA \<notin> set Q" and "test_stream_ok d" and "test_stream_ok l"
    and "test_unread d = ls_bytes [PROTO, NA]" and "test_unread l = ls_bytes [PROTO, NA]"
    and "length (test_unread l) \<le> test_room d" and "length (test_unread d) \<le> test_room l"
  shows "\<exists>d' l'.
    libp2p_multistream_select_select_one test_stream_view d (Buf [Buf NA]) = Some (MS_OK, 0, d') \<and>
    libp2p_multistream_select_accept test_stream_view l (Buf (map Buf Q)) =
      Some (LIBP2P_MULTISTREAM_SELECT_ERR_WOULD_BLOCK, length Q, l') \<and>
    test_written d' = test_written d @ test_unread l \<and> test_written l' = test_written l @ test_unread d"
proof -
  have "ids_valid [NA]" and reqs: "list_all (ms_unanswerable Q) [NA]" and ans: "map (ms_answer Q) [NA] = [NA]"
    using assms(2) by (simp_all add: ms_unanswerable_def ms_answer_def)
      (simp add: LIBP2P_MULTISTREAM_SELECT_NA_def ascii_def)
  from ts.select_one_agreed [OF _ this(1), of 0 d "test_written d" "test_room d"] assms(3,5,6,7)
    ts.accept_dry [OF reqs assms(1), of l "test_written l" "test_room l"] assms(4,8)
  show ?thesis unfolding test_stream_view_def ans by auto
qed

theorem na_candidate_confusion_witness:
  "\<exists>d'. libp2p_multistream_select_select_one test_stream_view (test_stream (ls_bytes [PROTO, NA]) 0 0)
      (Buf [Buf NA]) = Some (MS_OK, 0, d')"
proof -
  let ?s = "test_stream (ls_bytes [PROTO, NA]) 0 0"
  have "ids_valid [ascii ''/b'']" "NA \<notin> set [ascii ''/b'']"
    by (simp_all add: ms_valid_def ascii_def LIBP2P_MULTISTREAM_SELECT_NA_def)
  moreover have "length (test_unread ?s) \<le> test_room ?s"
    by (simp add: length_ms_frame ascii_def uvarint_bytes_small LIBP2P_MULTISTREAM_SELECT_NA_def
        LIBP2P_MULTISTREAM_SELECT_PROTOCOL_ID_def)
  ultimately show ?thesis
    using na_candidate_confusion [of "[ascii ''/b'']" ?s ?s] by auto
qed

end
