(* ===== verification/Multiaddr.thy ===== *)
theory Multiaddr
  imports Multihash Multibase
begin

text \<open>
  \<open>src/src/multiformats/multiaddr/multiaddr.c\<close>, the binary half: the protocol table, the component
  cursor, validation, appending of components, encapsulation and decapsulation. A pointer to a
  value inside a buffer is modelled by the bytes it designates; a null value is \<open>Null 0\<close>.
\<close>

subsection \<open>Types and the protocol table\<close>

datatype libp2p_multiaddr_value_class_t =
    LIBP2P_MULTIADDR_VALUE_NONE
  | LIBP2P_MULTIADDR_VALUE_FIXED
  | LIBP2P_MULTIADDR_VALUE_VARIABLE

datatype libp2p_multiaddr_err_t =
    LIBP2P_MULTIADDR_OK
  | LIBP2P_MULTIADDR_ERR_BUF_TOO_SMALL
  | LIBP2P_MULTIADDR_ERR_MALFORMED
  | LIBP2P_MULTIADDR_ERR_UNSUPPORTED_PROTOCOL
  | LIBP2P_MULTIADDR_ERR_INVALID_VALUE
  | LIBP2P_MULTIADDR_ERR_TRUNCATED
  | LIBP2P_MULTIADDR_ERR_NOT_FOUND
  | LIBP2P_MULTIADDR_ERR_END

type_synonym ma_err = libp2p_multiaddr_err_t

abbreviation "MA_OK \<equiv> LIBP2P_MULTIADDR_OK"

definition LIBP2P_MULTIADDR_CODE_IP4 :: u64 where "LIBP2P_MULTIADDR_CODE_IP4 = 0x04"
definition LIBP2P_MULTIADDR_CODE_IP6 :: u64 where "LIBP2P_MULTIADDR_CODE_IP6 = 0x29"
definition LIBP2P_MULTIADDR_CODE_UDP :: u64 where "LIBP2P_MULTIADDR_CODE_UDP = 0x0111"
definition LIBP2P_MULTIADDR_CODE_P2P :: u64 where "LIBP2P_MULTIADDR_CODE_P2P = 0x01a5"
definition LIBP2P_MULTIADDR_CODE_QUIC_V1 :: u64 where "LIBP2P_MULTIADDR_CODE_QUIC_V1 = 0x01cd"

lemmas ma_codes =
  LIBP2P_MULTIADDR_CODE_IP4_def LIBP2P_MULTIADDR_CODE_IP6_def LIBP2P_MULTIADDR_CODE_UDP_def
  LIBP2P_MULTIADDR_CODE_P2P_def LIBP2P_MULTIADDR_CODE_QUIC_V1_def

record libp2p_multiaddr_protocol_entry_t =
  entry_code :: u64
  entry_name :: string
  entry_value_class :: libp2p_multiaddr_value_class_t
  entry_fixed_size :: nat

definition multiaddr_protocol_table :: "libp2p_multiaddr_protocol_entry_t list" where
  "multiaddr_protocol_table =
     [\<lparr>entry_code = LIBP2P_MULTIADDR_CODE_IP4, entry_name = ''ip4'',
       entry_value_class = LIBP2P_MULTIADDR_VALUE_FIXED, entry_fixed_size = 4\<rparr>,
      \<lparr>entry_code = LIBP2P_MULTIADDR_CODE_IP6, entry_name = ''ip6'',
       entry_value_class = LIBP2P_MULTIADDR_VALUE_FIXED, entry_fixed_size = 16\<rparr>,
      \<lparr>entry_code = LIBP2P_MULTIADDR_CODE_UDP, entry_name = ''udp'',
       entry_value_class = LIBP2P_MULTIADDR_VALUE_FIXED, entry_fixed_size = 2\<rparr>,
      \<lparr>entry_code = LIBP2P_MULTIADDR_CODE_QUIC_V1, entry_name = ''quic-v1'',
       entry_value_class = LIBP2P_MULTIADDR_VALUE_NONE, entry_fixed_size = 0\<rparr>,
      \<lparr>entry_code = LIBP2P_MULTIADDR_CODE_P2P, entry_name = ''p2p'',
       entry_value_class = LIBP2P_MULTIADDR_VALUE_VARIABLE, entry_fixed_size = 0\<rparr>]"

definition multiaddr_add_overflow :: "nat \<Rightarrow> nat \<Rightarrow> bool \<times> nat" where
  "multiaddr_add_overflow a b =
     (if SIZE_MAX - a < b then (True, SIZE_MAX) else (False, a + b))"

definition multiaddr_size_fits_varint_limit :: "nat \<Rightarrow> bool" where
  "multiaddr_size_fits_varint_limit value_len \<longleftrightarrow> value_len \<le> 0x7FFFFFFFFFFFFFFF"

text \<open>The comparison of \<open>len\<close> bytes of two buffers.\<close>

definition multiaddr_byte_sequence_matches :: "byte cbuf \<Rightarrow> byte cbuf \<Rightarrow> nat \<Rightarrow> bool" where
  "multiaddr_byte_sequence_matches left right len =
     (if len \<noteq> 0 \<and> (is_null left \<or> is_null right) then False
      else list_all (\<lambda>i. contents left ! i = contents right ! i) [0..<len])"

definition multiaddr_find_protocol_by_code :: "u64 \<Rightarrow> libp2p_multiaddr_protocol_entry_t option" where
  "multiaddr_find_protocol_by_code code = List.find (\<lambda>e. entry_code e = code) multiaddr_protocol_table"

fun multiaddr_map_varint_err :: "libp2p_uvarint_err_t \<Rightarrow> ma_err" where
  "multiaddr_map_varint_err LIBP2P_UVARINT_ERR_TRUNCATED = LIBP2P_MULTIADDR_ERR_TRUNCATED"
| "multiaddr_map_varint_err LIBP2P_UVARINT_OK = MA_OK"
| "multiaddr_map_varint_err _ = LIBP2P_MULTIADDR_ERR_MALFORMED"

definition multiaddr_validate_p2p_value :: "byte cbuf \<Rightarrow> bool" where
  "multiaddr_validate_p2p_value value =
     (case libp2p_multihash_decode value of
        (err, code, digest, digest_len, read) \<Rightarrow>
          err = LIBP2P_MULTIHASH_OK \<and> read = clen value)"

subsection \<open>The component cursor\<close>

record libp2p_multiaddr_cursor_t =
  cursor_buf :: "byte cbuf"
  cursor_offset :: nat

text \<open>The result is the error code, the code, the value and the cursor.\<close>

definition multiaddr_next_component ::
  "libp2p_multiaddr_cursor_t \<Rightarrow> ma_err \<times> u64 \<times> byte cbuf \<times> libp2p_multiaddr_cursor_t" where
  "multiaddr_next_component cursor =
     (let buf = cursor_buf cursor;
          fail = (\<lambda>err. (err, 0, Null 0, cursor))
      in if is_null buf \<and> clen buf \<noteq> 0 then fail LIBP2P_MULTIADDR_ERR_MALFORMED
         else if cursor_offset cursor > clen buf then fail LIBP2P_MULTIADDR_ERR_MALFORMED
         else if cursor_offset cursor = clen buf then fail LIBP2P_MULTIADDR_ERR_END
         else
           let (verr, parsed_code, code_read) =
                 libp2p_uvarint_decode (Buf (drop (cursor_offset cursor) (contents buf)));
               err = multiaddr_map_varint_err verr
           in if err \<noteq> MA_OK then fail err
              else
                let offset = cursor_offset cursor + code_read
                in case multiaddr_find_protocol_by_code parsed_code of
                     None \<Rightarrow> fail LIBP2P_MULTIADDR_ERR_UNSUPPORTED_PROTOCOL
                   | Some protocol \<Rightarrow>
                       (case entry_value_class protocol of
                          LIBP2P_MULTIADDR_VALUE_NONE \<Rightarrow>
                            (MA_OK, parsed_code, Null 0, cursor\<lparr>cursor_offset := offset\<rparr>)
                        | LIBP2P_MULTIADDR_VALUE_FIXED \<Rightarrow>
                            if clen buf - offset < entry_fixed_size protocol
                            then fail LIBP2P_MULTIADDR_ERR_TRUNCATED
                            else (MA_OK, parsed_code,
                                  Buf (take (entry_fixed_size protocol) (drop offset (contents buf))),
                                  cursor\<lparr>cursor_offset := offset + entry_fixed_size protocol\<rparr>)
                        | LIBP2P_MULTIADDR_VALUE_VARIABLE \<Rightarrow>
                            let (verr2, declared_len, length_read) =
                                  libp2p_uvarint_decode (Buf (drop offset (contents buf)));
                                err2 = multiaddr_map_varint_err verr2
                            in if err2 \<noteq> MA_OK then fail err2
                               else if unat declared_len > SIZE_MAX
                               then fail LIBP2P_MULTIADDR_ERR_MALFORMED
                               else
                                 let offset2 = offset + length_read
                                 in if clen buf - offset2 < unat declared_len
                                    then fail LIBP2P_MULTIADDR_ERR_TRUNCATED
                                    else (MA_OK, parsed_code,
                                          Buf (take (unat declared_len) (drop offset2 (contents buf))),
                                          cursor\<lparr>cursor_offset := offset2 + unat declared_len\<rparr>)))"

text \<open>The public function, which may be given a null cursor.\<close>

fun libp2p_multiaddr_next_component ::
  "libp2p_multiaddr_cursor_t option \<Rightarrow> ma_err \<times> u64 \<times> byte cbuf \<times> libp2p_multiaddr_cursor_t option" where
  "libp2p_multiaddr_next_component None = (LIBP2P_MULTIADDR_ERR_MALFORMED, 0, Null 0, None)"
| "libp2p_multiaddr_next_component (Some cursor) =
     (case multiaddr_next_component cursor of (err, code, value, cursor') \<Rightarrow> (err, code, value, Some cursor'))"

lemma next_component_progress:
  assumes "multiaddr_next_component cur = (MA_OK, code, val, cur')"
  shows "cursor_offset cur < cursor_offset cur'" and "cursor_offset cur' \<le> clen (cursor_buf cur)"
    and "cursor_buf cur' = cursor_buf cur"
proof -
  have map_ok: "multiaddr_map_varint_err e = MA_OK \<longleftrightarrow> e = LIBP2P_UVARINT_OK" for e
    by (cases e) simp_all
  have bound: "0 < r \<and> k + r \<le> length bs"
    if "libp2p_uvarint_decode (Buf (drop k bs)) = (LIBP2P_UVARINT_OK, v, r)" for k bs v r
    using uvarint_decode_ok(3) [OF that] uvarint_decode_read_bounds(1) [OF that] by auto
  show "cursor_offset cur < cursor_offset cur'" and "cursor_offset cur' \<le> clen (cursor_buf cur)"
    and "cursor_buf cur' = cursor_buf cur"
    using assms
    by (cases "cursor_buf cur"; auto simp: multiaddr_next_component_def Let_def map_ok
        split: prod.splits if_splits option.splits libp2p_multiaddr_value_class_t.splits dest!: bound)+
qed

lemma next_component_measure:
  "(MA_OK, code, val, cur') = multiaddr_next_component cur \<Longrightarrow>
   clen (cursor_buf cur') - cursor_offset cur' < clen (cursor_buf cur) - cursor_offset cur"
  using next_component_progress [of cur code val cur'] by simp

subsection \<open>Validation\<close>

function multiaddr_validate_loop :: "libp2p_multiaddr_cursor_t \<Rightarrow> ma_err" where
  "multiaddr_validate_loop cursor =
     (case multiaddr_next_component cursor of
        (err, code, value, cursor') \<Rightarrow>
          if err = LIBP2P_MULTIADDR_ERR_END then MA_OK
          else if err \<noteq> MA_OK then err
          else if code = 0x01A5 \<and> \<not> multiaddr_validate_p2p_value value
          then LIBP2P_MULTIADDR_ERR_MALFORMED
          else multiaddr_validate_loop cursor')"
  by pat_completeness auto
termination
  by (relation "measure (\<lambda>c. clen (cursor_buf c) - cursor_offset c)")
    (auto dest!: next_component_measure)

declare multiaddr_validate_loop.simps [simp del]

definition libp2p_multiaddr_validate :: "byte cbuf \<Rightarrow> ma_err" where
  "libp2p_multiaddr_validate buf = multiaddr_validate_loop \<lparr>cursor_buf = buf, cursor_offset = 0\<rparr>"

subsection \<open>Appending a component\<close>

text \<open>The check of the value against the protocol's class.\<close>

definition multiaddr_value_ok :: "libp2p_multiaddr_protocol_entry_t \<Rightarrow> byte cbuf \<Rightarrow> bool" where
  "multiaddr_value_ok protocol value =
     (case entry_value_class protocol of
        LIBP2P_MULTIADDR_VALUE_NONE \<Rightarrow> clen value = 0
      | LIBP2P_MULTIADDR_VALUE_FIXED \<Rightarrow> \<not> is_null value \<and> clen value = entry_fixed_size protocol
      | LIBP2P_MULTIADDR_VALUE_VARIABLE \<Rightarrow>
          \<not> (is_null value \<and> clen value \<noteq> 0) \<and> multiaddr_size_fits_varint_limit (clen value) \<and>
          multiaddr_validate_p2p_value value)"

text \<open>The position after the component; the first component says whether a sum overflowed.\<close>

definition multiaddr_end_position ::
  "libp2p_multiaddr_protocol_entry_t \<Rightarrow> u64 \<Rightarrow> nat \<Rightarrow> nat \<Rightarrow> bool \<times> nat" where
  "multiaddr_end_position protocol code value_len start =
     (let (ov1, size1) =
            (if entry_value_class protocol = LIBP2P_MULTIADDR_VALUE_VARIABLE
             then multiaddr_add_overflow (libp2p_uvarint_size code) (libp2p_uvarint_size (of_nat value_len))
             else (False, libp2p_uvarint_size code))
      in if ov1 then (True, SIZE_MAX)
         else
           let (ov2, size2) = multiaddr_add_overflow size1 value_len
           in if ov2 then (True, SIZE_MAX)
              else
                let (ov3, size3) = multiaddr_add_overflow start size2
                in if ov3 then (True, SIZE_MAX) else (False, size3))"

text \<open>
  The position is behind a pointer that may be null (\<open>None\<close>). The result is the error code, the
  position and the buffer.
\<close>

definition libp2p_multiaddr_append_component ::
  "u64 \<Rightarrow> byte cbuf \<Rightarrow> byte cbuf \<Rightarrow> nat option \<Rightarrow> (ma_err \<times> nat option \<times> byte cbuf) option" where
  "libp2p_multiaddr_append_component code value buf pos =
     (case pos of
        None \<Rightarrow> Some (LIBP2P_MULTIADDR_ERR_MALFORMED, None, buf)
      | Some start \<Rightarrow>
          (case multiaddr_find_protocol_by_code code of
             None \<Rightarrow> Some (LIBP2P_MULTIADDR_ERR_UNSUPPORTED_PROTOCOL, pos, buf)
           | Some protocol \<Rightarrow>
               if \<not> multiaddr_value_ok protocol value
               then Some (LIBP2P_MULTIADDR_ERR_INVALID_VALUE, pos, buf)
               else
                 let (overflow, total_size) = multiaddr_end_position protocol code (clen value) start
                 in if overflow then Some (LIBP2P_MULTIADDR_ERR_BUF_TOO_SMALL, Some SIZE_MAX, buf)
                    else do {
                      (verr, code_written, code_buf) \<leftarrow> libp2p_uvarint_encode code (Buf uvarint_scratch);
                      (if verr \<noteq> LIBP2P_UVARINT_OK
                       then Some (LIBP2P_MULTIADDR_ERR_INVALID_VALUE, Some total_size, buf)
                       else if is_null buf \<or> clen buf < total_size
                       then Some (LIBP2P_MULTIADDR_ERR_BUF_TOO_SMALL, Some total_size, buf)
                       else do {
                         buf1 \<leftarrow> memcpy_at (contents buf) start (take code_written (contents code_buf));
                         (err2, start2, buf2) \<leftarrow>
                           (if entry_value_class protocol = LIBP2P_MULTIADDR_VALUE_VARIABLE then do {
                              (verr2, length_written, length_buf) \<leftarrow>
                                libp2p_uvarint_encode (of_nat (clen value)) (Buf uvarint_scratch);
                              (if verr2 \<noteq> LIBP2P_UVARINT_OK
                               then Some (LIBP2P_MULTIADDR_ERR_INVALID_VALUE, start + code_written, buf1)
                               else do {
                                 buf1' \<leftarrow> memcpy_at buf1 (start + code_written)
                                   (take length_written (contents length_buf));
                                 Some (MA_OK, start + code_written + length_written, buf1')
                               })
                            }
                            else Some (MA_OK, start + code_written, buf1));
                         buf3 \<leftarrow> (if err2 = MA_OK \<and> clen value \<noteq> 0
                                  then memcpy_at buf2 start2 (contents value) else Some buf2);
                         Some (err2, Some total_size, Buf buf3)
                       })
                    }))"

subsection \<open>Encapsulation and decapsulation\<close>

definition libp2p_multiaddr_encapsulate ::
  "byte cbuf \<Rightarrow> byte cbuf \<Rightarrow> byte cbuf \<Rightarrow> (ma_err \<times> nat \<times> byte cbuf) option" where
  "libp2p_multiaddr_encapsulate a b out =
     (let result0 = libp2p_multiaddr_validate a;
          result = (if result0 = MA_OK then libp2p_multiaddr_validate b else result0);
          total_len = (if result = MA_OK then snd (multiaddr_add_overflow (clen a) (clen b)) else 0)
      in if result \<noteq> MA_OK then Some (result, total_len, out)
         else if is_null out \<or> clen out < total_len
         then Some (LIBP2P_MULTIADDR_ERR_BUF_TOO_SMALL, total_len, out)
         else do {
           out1 \<leftarrow> (if clen a \<noteq> 0 then memcpy_at (contents out) 0 (contents a) else Some (contents out));
           out2 \<leftarrow> (if clen b \<noteq> 0 then memcpy_at out1 (clen a) (contents b) else Some out1);
           Some (MA_OK, total_len, Buf out2)
         })"

text \<open>
  The loop over the components of \<open>outer\<close>: the error code and the start of the last component at
  which the bytes of \<open>inner\<close> follow.
\<close>

function multiaddr_decapsulate_loop ::
  "libp2p_multiaddr_cursor_t \<Rightarrow> byte cbuf \<Rightarrow> nat option \<Rightarrow> ma_err \<times> nat option" where
  "multiaddr_decapsulate_loop cursor inner match_offset =
     (case multiaddr_next_component cursor of
        (err, code, value, cursor') \<Rightarrow>
          if err = LIBP2P_MULTIADDR_ERR_END then (MA_OK, match_offset)
          else if err \<noteq> MA_OK then (err, match_offset)
          else
            multiaddr_decapsulate_loop cursor' inner
              (if clen (cursor_buf cursor) - cursor_offset cursor \<ge> clen inner \<and>
                  multiaddr_byte_sequence_matches
                    (Buf (drop (cursor_offset cursor) (contents (cursor_buf cursor)))) inner (clen inner)
               then Some (cursor_offset cursor) else match_offset))"
  by pat_completeness auto
termination
  by (relation "measure (\<lambda>(c, i, m). clen (cursor_buf c) - cursor_offset c)")
    (auto dest!: next_component_measure)

declare multiaddr_decapsulate_loop.simps [simp del]

definition libp2p_multiaddr_decapsulate ::
  "byte cbuf \<Rightarrow> byte cbuf \<Rightarrow> byte cbuf \<Rightarrow> (ma_err \<times> nat \<times> byte cbuf) option" where
  "libp2p_multiaddr_decapsulate outer inner out =
     (let result0 = libp2p_multiaddr_validate outer;
          result = (if result0 = MA_OK then libp2p_multiaddr_validate inner else result0)
      in if result \<noteq> MA_OK then Some (result, 0, out)
         else if clen inner = 0 then
           (if is_null out \<or> clen out < clen outer
            then Some (LIBP2P_MULTIADDR_ERR_BUF_TOO_SMALL, clen outer, out)
            else if clen outer \<noteq> 0 then do {
              out' \<leftarrow> memcpy_at (contents out) 0 (contents outer);
              Some (MA_OK, clen outer, Buf out')
            }
            else Some (MA_OK, clen outer, out))
         else
           (case multiaddr_decapsulate_loop \<lparr>cursor_buf = outer, cursor_offset = 0\<rparr> inner None of
              (err, match_offset) \<Rightarrow>
                if err \<noteq> MA_OK then Some (err, 0, out)
                else (case match_offset of
                        None \<Rightarrow> Some (LIBP2P_MULTIADDR_ERR_NOT_FOUND, 0, out)
                      | Some off \<Rightarrow>
                          if is_null out \<or> clen out < off
                          then Some (LIBP2P_MULTIADDR_ERR_BUF_TOO_SMALL, off, out)
                          else if off \<noteq> 0 then do {
                            out' \<leftarrow> memcpy_at (contents out) 0 (take off (contents outer));
                            Some (MA_OK, off, Buf out')
                          }
                          else Some (MA_OK, off, out))))"

text \<open>The entry of the table, if the code is known.\<close>

definition libp2p_multiaddr_protocol_info ::
  "u64 \<Rightarrow> ma_err \<times> (string \<times> libp2p_multiaddr_value_class_t \<times> nat) option" where
  "libp2p_multiaddr_protocol_info code =
     (case multiaddr_find_protocol_by_code code of
        None \<Rightarrow> (LIBP2P_MULTIADDR_ERR_UNSUPPORTED_PROTOCOL, None)
      | Some protocol \<Rightarrow>
          (MA_OK, Some (entry_name protocol, entry_value_class protocol, entry_fixed_size protocol)))"

end
