(* ===== verification/Multiaddr_Binary.thy ===== *)
theory Multiaddr_Binary
  imports Multiaddr
begin

text \<open>
  Binary multiaddrs as sequences of components. \<open>ma_bytes (code, value)\<close> is the encoding of one
  component; the cursor implements the \<open>prefix_codec\<close> interface for it, validation accepts exactly
  the concatenations of valid components, and appending, encapsulating and decapsulating act on
  the sequence as expected.
\<close>

type_synonym ma_component = "u64 \<times> byte list"

definition ma_bytes :: "ma_component \<Rightarrow> byte list" where
  "ma_bytes = (\<lambda>(c, v). uvarint_bytes (unat c) @
     (if c = LIBP2P_MULTIADDR_CODE_P2P then uvarint_bytes (length v) else []) @ v)"

text \<open>The sizes of values that the cursor accepts.\<close>

definition ma_shape :: "ma_component \<Rightarrow> bool" where
  "ma_shape = (\<lambda>(c, v).
     c = LIBP2P_MULTIADDR_CODE_IP4 \<and> length v = 4 \<or>
     c = LIBP2P_MULTIADDR_CODE_IP6 \<and> length v = 16 \<or>
     c = LIBP2P_MULTIADDR_CODE_UDP \<and> length v = 2 \<or>
     c = LIBP2P_MULTIADDR_CODE_QUIC_V1 \<and> v = [] \<or>
     c = LIBP2P_MULTIADDR_CODE_P2P \<and> length v < 2 ^ 63)"

text \<open>A peer id is a multihash, and nothing after it.\<close>

definition p2p_value :: "byte list \<Rightarrow> bool" where
  "p2p_value v \<longleftrightarrow> (\<exists>mh. multihash_valid mh \<and> v = multihash_bytes mh)"

definition ma_valid :: "ma_component \<Rightarrow> bool" where
  "ma_valid cv \<longleftrightarrow> ma_shape cv \<and> (fst cv = LIBP2P_MULTIADDR_CODE_P2P \<longrightarrow> p2p_value (snd cv))"

subsection \<open>The table\<close>

lemma find_protocol_cases:
  obtains (ip4) "c = LIBP2P_MULTIADDR_CODE_IP4" | (ip6) "c = LIBP2P_MULTIADDR_CODE_IP6"
  | (udp) "c = LIBP2P_MULTIADDR_CODE_UDP" | (quic) "c = LIBP2P_MULTIADDR_CODE_QUIC_V1"
  | (p2p) "c = LIBP2P_MULTIADDR_CODE_P2P" | (other) "multiaddr_find_protocol_by_code c = None"
  by (force simp: multiaddr_find_protocol_by_code_def multiaddr_protocol_table_def)

lemma find_protocol [simp]:
  "multiaddr_find_protocol_by_code LIBP2P_MULTIADDR_CODE_IP4 =
     Some \<lparr>entry_code = LIBP2P_MULTIADDR_CODE_IP4, entry_name = ''ip4'',
       entry_value_class = LIBP2P_MULTIADDR_VALUE_FIXED, entry_fixed_size = 4\<rparr>"
  "multiaddr_find_protocol_by_code LIBP2P_MULTIADDR_CODE_IP6 =
     Some \<lparr>entry_code = LIBP2P_MULTIADDR_CODE_IP6, entry_name = ''ip6'',
       entry_value_class = LIBP2P_MULTIADDR_VALUE_FIXED, entry_fixed_size = 16\<rparr>"
  "multiaddr_find_protocol_by_code LIBP2P_MULTIADDR_CODE_UDP =
     Some \<lparr>entry_code = LIBP2P_MULTIADDR_CODE_UDP, entry_name = ''udp'',
       entry_value_class = LIBP2P_MULTIADDR_VALUE_FIXED, entry_fixed_size = 2\<rparr>"
  "multiaddr_find_protocol_by_code LIBP2P_MULTIADDR_CODE_QUIC_V1 =
     Some \<lparr>entry_code = LIBP2P_MULTIADDR_CODE_QUIC_V1, entry_name = ''quic-v1'',
       entry_value_class = LIBP2P_MULTIADDR_VALUE_NONE, entry_fixed_size = 0\<rparr>"
  "multiaddr_find_protocol_by_code LIBP2P_MULTIADDR_CODE_P2P =
     Some \<lparr>entry_code = LIBP2P_MULTIADDR_CODE_P2P, entry_name = ''p2p'',
       entry_value_class = LIBP2P_MULTIADDR_VALUE_VARIABLE, entry_fixed_size = 0\<rparr>"
  by (simp_all add: multiaddr_find_protocol_by_code_def multiaddr_protocol_table_def ma_codes)

lemma codes_distinct [simp]:
  "LIBP2P_MULTIADDR_CODE_IP4 \<noteq> LIBP2P_MULTIADDR_CODE_P2P" "LIBP2P_MULTIADDR_CODE_IP6 \<noteq> LIBP2P_MULTIADDR_CODE_P2P"
  "LIBP2P_MULTIADDR_CODE_UDP \<noteq> LIBP2P_MULTIADDR_CODE_P2P" "LIBP2P_MULTIADDR_CODE_QUIC_V1 \<noteq> LIBP2P_MULTIADDR_CODE_P2P"
  "LIBP2P_MULTIADDR_CODE_IP4 \<noteq> LIBP2P_MULTIADDR_CODE_QUIC_V1" "LIBP2P_MULTIADDR_CODE_IP6 \<noteq> LIBP2P_MULTIADDR_CODE_QUIC_V1"
  "LIBP2P_MULTIADDR_CODE_UDP \<noteq> LIBP2P_MULTIADDR_CODE_QUIC_V1" "LIBP2P_MULTIADDR_CODE_P2P \<noteq> LIBP2P_MULTIADDR_CODE_QUIC_V1"
  "LIBP2P_MULTIADDR_CODE_IP4 \<noteq> LIBP2P_MULTIADDR_CODE_IP6" "LIBP2P_MULTIADDR_CODE_IP4 \<noteq> LIBP2P_MULTIADDR_CODE_UDP"
  "LIBP2P_MULTIADDR_CODE_IP6 \<noteq> LIBP2P_MULTIADDR_CODE_UDP"
  by (simp_all add: ma_codes)

lemmas codes_distinct' [simp] = codes_distinct [symmetric]

lemma ma_shape_simps [simp]:
  "ma_shape (LIBP2P_MULTIADDR_CODE_IP4, v) \<longleftrightarrow> length v = 4"
  "ma_shape (LIBP2P_MULTIADDR_CODE_IP6, v) \<longleftrightarrow> length v = 16"
  "ma_shape (LIBP2P_MULTIADDR_CODE_UDP, v) \<longleftrightarrow> length v = 2"
  "ma_shape (LIBP2P_MULTIADDR_CODE_QUIC_V1, v) \<longleftrightarrow> v = []"
  "ma_shape (LIBP2P_MULTIADDR_CODE_P2P, v) \<longleftrightarrow> length v < 2 ^ 63"
  by (auto simp: ma_shape_def ma_codes)

lemma ma_shape_other: "multiaddr_find_protocol_by_code c = None \<Longrightarrow> \<not> ma_shape (c, v)"
  by (auto simp: ma_shape_def)

lemma ma_code_small: "ma_shape (c, v) \<Longrightarrow> unat c < 2 ^ 63"
  by (auto simp: ma_shape_def ma_codes)

lemma map_varint_ok [simp]: "multiaddr_map_varint_err e = MA_OK \<longleftrightarrow> e = LIBP2P_UVARINT_OK"
  by (cases e) simp_all

subsection \<open>The cursor\<close>

definition ma_value :: "u64 \<Rightarrow> byte list \<Rightarrow> byte cbuf" where
  "ma_value c v = (if c = LIBP2P_MULTIADDR_CODE_QUIC_V1 then Null 0 else Buf v)"

lemma contents_ma_value [simp]: "ma_shape (c, v) \<Longrightarrow> contents (ma_value c v) = v"
  by (auto simp: ma_value_def ma_shape_def)

lemma ma_bytes_nonempty [simp]: "ma_bytes cv \<noteq> []"
  by (simp add: ma_bytes_def split: prod.splits)

abbreviation cursor :: "byte list \<Rightarrow> nat \<Rightarrow> libp2p_multiaddr_cursor_t" where
  "cursor bs off \<equiv> \<lparr>cursor_buf = Buf bs, cursor_offset = off\<rparr>"

lemma next_component_shift:
  assumes "off \<le> length bs"
  shows "multiaddr_next_component (cursor bs off) =
    (case multiaddr_next_component (cursor (drop off bs) 0) of
       (err, c, v, cur) \<Rightarrow> (err, c, v, cursor bs (off + cursor_offset cur)))"
  using assms
  by (auto simp: multiaddr_next_component_def Let_def ac_simps
      split: prod.splits option.splits libp2p_multiaddr_value_class_t.splits)

lemma next_component_bytes:
  assumes "ma_shape (c, v)"
  shows "multiaddr_next_component (cursor (ma_bytes (c, v) @ rest) 0) =
    (MA_OK, c, ma_value c v, cursor (ma_bytes (c, v) @ rest) (length (ma_bytes (c, v))))"
proof -
  let ?bs = "ma_bytes (c, v) @ rest"
  let ?r = "(if c = LIBP2P_MULTIADDR_CODE_P2P then uvarint_bytes (length v) else []) @ v @ rest"
  have bs: "?bs = uvarint_bytes (unat c) @ ?r" by (simp add: ma_bytes_def)
  have dec: "libp2p_uvarint_decode (Buf ?bs) = (LIBP2P_UVARINT_OK, c, length (uvarint_bytes (unat c)))"
    unfolding bs using uvarint_decode_bytes [OF ma_code_small [OF assms], of ?r] by simp
  have rest: "drop (length (uvarint_bytes (unat c))) ?bs = ?r" unfolding bs by simp
  have len: "length ?bs = length (uvarint_bytes (unat c)) + length ?r" unfolding bs by simp
  show ?thesis
  proof (cases c rule: find_protocol_cases)
    case p2p
    with assms have "length v < 2 ^ 63" by simp
    then have "libp2p_uvarint_decode (Buf ?r) = (LIBP2P_UVARINT_OK, of_nat (length v), length (uvarint_bytes (length v)))"
      and "unat (of_nat (length v) :: u64) = length v" and "\<not> SIZE_MAX < length v"
      using uvarint_decode_bytes [of "length v" "v @ rest"] p2p by (simp_all add: unat_of_nat_63 SIZE_MAX_def)
    with p2p dec rest len show ?thesis
      by (auto simp: multiaddr_next_component_def Let_def ma_value_def ma_bytes_def)
  next
    case other
    with assms ma_shape_other show ?thesis by blast
  qed (use assms dec rest len in
      \<open>auto simp: multiaddr_next_component_def Let_def ma_value_def ma_bytes_def\<close>)
qed

lemma next_component_sound:
  assumes "multiaddr_next_component (cursor bs 0) = (MA_OK, c, val, cur)"
  shows "ma_shape (c, contents val)" and "take (cursor_offset cur) bs = ma_bytes (c, contents val)"
    and "cursor_offset cur \<le> length bs"
proof -
  from assms obtain r p where dec: "libp2p_uvarint_decode (Buf bs) = (LIBP2P_UVARINT_OK, c, r)" and
    p: "multiaddr_find_protocol_by_code c = Some p"
    by (auto simp: multiaddr_next_component_def Let_def split: prod.splits if_splits option.splits
        libp2p_multiaddr_value_class_t.splits)
  note u = uvarint_decode_ok [OF dec]
  show "cursor_offset cur \<le> length bs" using next_component_progress(2) [OF assms] by simp
  have fixed: "ma_shape (c, contents val) \<and> take (cursor_offset cur) bs = ma_bytes (c, contents val)"
    if "val = Buf (take n (drop r bs))" "cursor_offset cur = r + n" "\<not> length bs - r < n"
      "c \<noteq> LIBP2P_MULTIADDR_CODE_P2P" "\<And>v. length v = n \<Longrightarrow> ma_shape (c, v)" for n
    using that u(4) by (simp add: ma_bytes_def take_add)
  have "ma_shape (c, contents val) \<and> take (cursor_offset cur) bs = ma_bytes (c, contents val)"
  proof (cases c rule: find_protocol_cases)
    case ip4
    with assms dec show ?thesis
      by (intro fixed [of 4]) (auto simp: multiaddr_next_component_def Let_def split: if_splits)
  next
    case ip6
    with assms dec show ?thesis
      by (intro fixed [of 16]) (auto simp: multiaddr_next_component_def Let_def split: if_splits)
  next
    case udp
    with assms dec show ?thesis
      by (intro fixed [of 2]) (auto simp: multiaddr_next_component_def Let_def split: if_splits)
  next
    case quic
    with assms dec have "val = Null 0" "cursor_offset cur = r"
      by (auto simp: multiaddr_next_component_def Let_def split: if_splits)
    with quic u(4) show ?thesis by (simp add: ma_bytes_def)
  next
    case p2p
    with assms dec obtain d l where dec2: "libp2p_uvarint_decode (Buf (drop r bs)) = (LIBP2P_UVARINT_OK, d, l)" and
      v: "val = Buf (take (unat d) (drop (r + l) bs))" "cursor_offset cur = r + l + unat d"
        "\<not> length bs - (r + l) < unat d"
      by (auto simp: multiaddr_next_component_def Let_def split: if_splits prod.splits)
    note w = uvarint_decode_ok [OF dec2]
    have "length (contents val) = unat d" using v by simp
    moreover have "take (r + l + unat d) bs = take r bs @ take l (drop r bs) @ contents val"
      unfolding v(1) take_add contents.simps by simp
    ultimately show ?thesis using p2p u(4) w(1,4) v(2) by (simp add: ma_bytes_def)
  next
    case other
    with p show ?thesis by simp
  qed
  then show "ma_shape (c, contents val)" and "take (cursor_offset cur) bs = ma_bytes (c, contents val)"
    by simp_all
qed

definition ma_dec :: "byte list \<Rightarrow> (ma_component \<times> nat) option" where
  "ma_dec bs =
     (case multiaddr_next_component (cursor bs 0) of
        (LIBP2P_MULTIADDR_OK, c, val, cur) \<Rightarrow> Some ((c, contents val), cursor_offset cur)
      | _ \<Rightarrow> None)"

lemma ma_dec_Some_iff:
  "ma_dec bs = Some ((c, v), n) \<longleftrightarrow>
   (\<exists>val cur. multiaddr_next_component (cursor bs 0) = (MA_OK, c, val, cur) \<and>
      v = contents val \<and> n = cursor_offset cur)"
  by (auto simp: ma_dec_def split: prod.splits libp2p_multiaddr_err_t.splits)

interpretation ma: prefix_codec ma_bytes ma_dec ma_shape
proof
  fix cv :: ma_component and rest
  assume "ma_shape cv"
  then show "ma_dec (ma_bytes cv @ rest) = Some (cv, length (ma_bytes cv))"
    using next_component_bytes [of "fst cv" "snd cv" rest]
    by (cases cv) (auto simp: ma_dec_Some_iff)
next
  fix bs cv n
  assume "ma_dec bs = Some (cv, n)"
  then show "ma_shape cv \<and> n \<le> length bs \<and> take n bs = ma_bytes cv"
    using next_component_sound by (cases cv) (auto simp: ma_dec_Some_iff)
qed simp

text \<open>
  \<open>libp2p_multiaddr_next_component\<close> decodes canonically: from any position inside the buffer it
  returns the component \<open>(c, v)\<close> and moves to \<open>off'\<close> exactly when the encoding of \<open>(c, v)\<close> lies between
  the two positions and the value has a size that is legal for its protocol.
\<close>

theorem next_component_iff:
  assumes "off \<le> length bs"
  shows "(\<exists>val. libp2p_multiaddr_next_component (Some (cursor bs off)) =
      (MA_OK, c, val, Some (cursor bs off')) \<and> contents val = v) \<longleftrightarrow>
    ma_shape (c, v) \<and> off' = off + length (ma_bytes (c, v)) \<and> off' \<le> length bs \<and>
    take (length (ma_bytes (c, v))) (drop off bs) = ma_bytes (c, v)"
proof -
  have "(\<exists>val. libp2p_multiaddr_next_component (Some (cursor bs off)) =
      (MA_OK, c, val, Some (cursor bs off')) \<and> contents val = v) \<longleftrightarrow>
    (\<exists>n. ma_dec (drop off bs) = Some ((c, v), n) \<and> off' = off + n)"
    using next_component_shift [OF assms]
    by (auto simp: ma_dec_Some_iff split: prod.splits)
  then show ?thesis unfolding ma.dec_iff using assms by auto
qed

theorem next_component_iff_witness:
  "\<exists>val. libp2p_multiaddr_next_component (Some (cursor (ma_bytes (LIBP2P_MULTIADDR_CODE_UDP, [16, 225])) 0)) =
     (MA_OK, LIBP2P_MULTIADDR_CODE_UDP, val,
      Some (cursor (ma_bytes (LIBP2P_MULTIADDR_CODE_UDP, [16, 225])) (length (ma_bytes (LIBP2P_MULTIADDR_CODE_UDP, [16, 225]))))) \<and>
     contents val = [16, 225]"
  using next_component_iff [of 0 "ma_bytes (LIBP2P_MULTIADDR_CODE_UDP, [16, 225])" LIBP2P_MULTIADDR_CODE_UDP
      "length (ma_bytes (LIBP2P_MULTIADDR_CODE_UDP, [16, 225]))" "[16, 225]"]
  by simp


subsection \<open>Validation\<close>

abbreviation ma_concat :: "ma_component list \<Rightarrow> byte list" where
  "ma_concat cs \<equiv> concat (map ma_bytes cs)"

lemma validate_p2p_iff: "multiaddr_validate_p2p_value (Buf v) \<longleftrightarrow> p2p_value v"
proof
  assume "multiaddr_validate_p2p_value (Buf v)"
  then obtain c dp n where "libp2p_multihash_decode (Buf v) = (LIBP2P_MULTIHASH_OK, c, dp, n, length v)"
    by (auto simp: multiaddr_validate_p2p_value_def split: prod.splits)
  then obtain d where "multihash_valid (c, d)" "v = multihash_bytes (c, d) @ drop (length v) v"
    by (rule multihash_decode_ok)
  then show "p2p_value v" unfolding p2p_value_def drop_all [OF order_refl] append_Nil2 by blast
next
  assume "p2p_value v"
  then obtain c d where "multihash_valid (c, d)" "v = multihash_bytes (c, d)"
    by (auto simp: p2p_value_def)
  then show "multiaddr_validate_p2p_value (Buf v)"
    using multihash_decode_bytes [of c d "[]"] by (simp add: multiaddr_validate_p2p_value_def)
qed

lemma p2p_value_len: "p2p_value v \<Longrightarrow> v \<noteq> []"
  by (auto simp: p2p_value_def multihash_bytes_def)

lemma next_component_end: "multiaddr_next_component (cursor [] 0) = (LIBP2P_MULTIADDR_ERR_END, 0, Null 0, cursor [] 0)"
  by (simp add: multiaddr_next_component_def)

lemma next_component_not_end:
  "bs \<noteq> [] \<Longrightarrow> fst (multiaddr_next_component (cursor bs 0)) \<noteq> LIBP2P_MULTIADDR_ERR_END"
proof -
  have "multiaddr_map_varint_err e \<noteq> LIBP2P_MULTIADDR_ERR_END" for e by (cases e) simp_all
  then show "bs \<noteq> [] \<Longrightarrow> ?thesis"
    by (auto simp: multiaddr_next_component_def Let_def
        split: prod.splits option.splits libp2p_multiaddr_value_class_t.splits)
qed

lemma validate_loop_shift:
  "off \<le> length bs \<Longrightarrow>
   multiaddr_validate_loop (cursor bs off) = multiaddr_validate_loop (cursor (drop off bs) 0)"
proof (induction "length bs - off" arbitrary: bs off rule: less_induct)
  case less
  obtain e c v cur where nx: "multiaddr_next_component (cursor (drop off bs) 0) = (e, c, v, cur)"
    by (cases "multiaddr_next_component (cursor (drop off bs) 0)") auto
  note nx' = next_component_shift [OF less.prems, unfolded nx prod.case]
  show ?case
  proof (cases "e = MA_OK")
    case True
    note pr = next_component_progress [OF nx [unfolded True]]
    let ?n = "cursor_offset cur"
    have cur: "cur = cursor (drop off bs) ?n" using pr(3) by simp
    have n: "0 < ?n" "off + ?n \<le> length bs" using pr(1,2) less.prems by simp_all
    have "multiaddr_validate_loop (cursor bs (off + ?n)) = multiaddr_validate_loop (cursor (drop (off + ?n) bs) 0)"
      using n by (intro less.hyps) auto
    also have "\<dots> = multiaddr_validate_loop (cursor (drop off bs) ?n)"
      using n less.hyps [of "drop off bs" ?n] by (simp add: add.commute)
    finally show ?thesis
      using True cur by (subst (1 2) multiaddr_validate_loop.simps) (simp add: nx nx')
  next
    case False
    then show ?thesis by (subst (1 2) multiaddr_validate_loop.simps) (simp add: nx nx')
  qed
qed

lemma validate_Nil: "libp2p_multiaddr_validate (Buf []) = MA_OK"
  unfolding libp2p_multiaddr_validate_def by (subst multiaddr_validate_loop.simps) (simp add: next_component_end)

lemma validate_step:
  assumes "ma_dec bs = Some ((c, v), n)"
  shows "libp2p_multiaddr_validate (Buf bs) =
    (if c = LIBP2P_MULTIADDR_CODE_P2P \<and> \<not> p2p_value v then LIBP2P_MULTIADDR_ERR_MALFORMED
     else libp2p_multiaddr_validate (Buf (drop n bs)))"
proof -
  have d: "ma_shape (c, v)" "n = length (ma_bytes (c, v))" "n \<le> length bs" "take n bs = ma_bytes (c, v)"
    using ma.dec_iff [THEN iffD1, OF assms] by blast+
  then have "bs = ma_bytes (c, v) @ drop n bs" by (metis append_take_drop_id)
  then have nx: "multiaddr_next_component (cursor bs 0) = (MA_OK, c, ma_value c v, cursor bs n)"
    using next_component_bytes [OF d(1), of "drop n bs"] d(2) by simp
  have "c = 0x01A5 \<longleftrightarrow> c = LIBP2P_MULTIADDR_CODE_P2P" by (simp add: ma_codes)
  then show ?thesis
    unfolding libp2p_multiaddr_validate_def validate_loop_shift [OF d(3), symmetric]
    by (subst multiaddr_validate_loop.simps) (auto simp: nx ma_value_def validate_p2p_iff)
qed

lemma validate_none:
  assumes "ma_dec bs = None" and "bs \<noteq> []"
  shows "libp2p_multiaddr_validate (Buf bs) \<noteq> MA_OK"
proof -
  obtain e c v cur where nx: "multiaddr_next_component (cursor bs 0) = (e, c, v, cur)"
    by (cases "multiaddr_next_component (cursor bs 0)") auto
  have "e \<noteq> MA_OK" using assms(1) nx by (auto simp: ma_dec_def)
  moreover have "e \<noteq> LIBP2P_MULTIADDR_ERR_END" using next_component_not_end [OF assms(2)] nx by simp
  ultimately show ?thesis
    unfolding libp2p_multiaddr_validate_def by (subst multiaddr_validate_loop.simps) (simp add: nx)
qed

lemma validate_concat_iff:
  "libp2p_multiaddr_validate (Buf bs) = MA_OK \<longleftrightarrow> (\<exists>cs. list_all ma_valid cs \<and> bs = ma_concat cs)"
proof (induction bs rule: length_induct)
  case (1 bs)
  consider "bs = []" | "bs \<noteq> []" "ma_dec bs = None" | c v n where "bs \<noteq> []" "ma_dec bs = Some ((c, v), n)"
    by (cases "ma_dec bs") auto
  then show ?case
  proof cases
    case 1
    then show ?thesis by (auto simp: validate_Nil intro: exI [of _ "[]"])
  next
    case 2
    then have "\<not> (list_all ma_valid cs \<and> bs = ma_concat cs)" for cs
      by (cases cs) (auto simp: ma.dec_enc ma_valid_def)
    with validate_none [OF 2(2,1)] show ?thesis by auto
  next
    case (3 c v n)
    note d = ma.dec_iff [THEN iffD1, OF 3(2)]
    have split: "bs = ma_bytes (c, v) @ drop n bs" using d by (metis append_take_drop_id)
    have "length (drop n bs) < length bs" using ma.dec_progress [OF 3(2)] 3(1) by simp
    then have IH: "libp2p_multiaddr_validate (Buf (drop n bs)) = MA_OK \<longleftrightarrow>
        (\<exists>cs. list_all ma_valid cs \<and> drop n bs = ma_concat cs)" using 1 by blast
    have valid: "ma_valid (c, v) \<longleftrightarrow> \<not> (c = LIBP2P_MULTIADDR_CODE_P2P \<and> \<not> p2p_value v)"
      using d by (auto simp: ma_valid_def)
    have "(\<exists>cs. list_all ma_valid cs \<and> bs = ma_concat cs) \<longleftrightarrow>
        ma_valid (c, v) \<and> (\<exists>cs. list_all ma_valid cs \<and> drop n bs = ma_concat cs)" (is "?L \<longleftrightarrow> ?R")
    proof
      assume ?L
      then obtain cs where cs: "list_all ma_valid cs" "bs = ma_concat cs" by blast
      then obtain x xs where x: "cs = x # xs" using 3(1) by (cases cs) auto
      with cs d split ma.enc_prefix_free [of x "(c, v)" "ma_concat xs" "drop n bs"] show ?R
        by (auto simp: ma_valid_def)
    next
      assume ?R
      then obtain cs where "list_all ma_valid ((c, v) # cs)" "bs = ma_concat ((c, v) # cs)" using split by auto
      then show ?L by blast
    qed
    with validate_step [OF 3(2)] IH valid show ?thesis by simp
  qed
qed

text \<open>
  Claim C13. \<open>libp2p_multiaddr_validate\<close> accepts a buffer exactly when it is the concatenation of encodings
  of valid components: known codes, values of the right size, peer ids that are multihashes with
  nothing after them. The components are determined by the buffer.
\<close>

theorem validate_iff:
  "libp2p_multiaddr_validate (Buf bs) = MA_OK \<longleftrightarrow> (\<exists>!cs. list_all ma_valid cs \<and> bs = ma_concat cs)"
proof -
  have "cs = cs'" if "list_all ma_valid cs" "bs = ma_concat cs" "list_all ma_valid cs'" "bs = ma_concat cs'"
    for cs cs'
    using that ma.concat_enc_inj [of cs cs'] by (simp add: ma_valid_def list_all_iff)
  then show ?thesis unfolding validate_concat_iff by blast
qed

subsection \<open>Appending\<close>

lemma validate_p2p_null: "\<not> multiaddr_validate_p2p_value (Null n)"
  by (simp add: multiaddr_validate_p2p_value_def libp2p_multihash_decode_def libp2p_multihash_read_header_def)

lemma ma_valid_simps:
  "ma_valid (LIBP2P_MULTIADDR_CODE_IP4, v) \<longleftrightarrow> length v = 4"
  "ma_valid (LIBP2P_MULTIADDR_CODE_IP6, v) \<longleftrightarrow> length v = 16"
  "ma_valid (LIBP2P_MULTIADDR_CODE_UDP, v) \<longleftrightarrow> length v = 2"
  "ma_valid (LIBP2P_MULTIADDR_CODE_QUIC_V1, v) \<longleftrightarrow> v = []"
  "ma_valid (LIBP2P_MULTIADDR_CODE_P2P, v) \<longleftrightarrow> length v < 2 ^ 63 \<and> p2p_value v"
  by (simp_all add: ma_valid_def)

lemma value_ok_iff:
  assumes "multiaddr_find_protocol_by_code c = Some p"
  shows "multiaddr_value_ok p val \<longleftrightarrow> clen val = length (contents val) \<and> ma_valid (c, contents val)"
  using assms p2p_value_len [of "[]"]
  by (cases c rule: find_protocol_cases; cases val)
    (auto simp: multiaddr_value_ok_def ma_valid_simps multiaddr_size_fits_varint_limit_def
      validate_p2p_iff validate_p2p_null)

lemma ma_bytes_class:
  assumes "multiaddr_find_protocol_by_code c = Some p"
  shows "entry_value_class p = LIBP2P_MULTIADDR_VALUE_VARIABLE \<longleftrightarrow> c = LIBP2P_MULTIADDR_CODE_P2P"
  using assms by (cases c rule: find_protocol_cases) auto

lemma ma_value_bound: "ma_shape (c, v) \<Longrightarrow> length v < 2 ^ 63"
  by (auto simp: ma_shape_def)

lemma add_overflow:
  "a \<le> SIZE_MAX \<or> 0 < b \<Longrightarrow>
   multiaddr_add_overflow a b = (if SIZE_MAX < a + b then (True, SIZE_MAX) else (False, a + b))"
  by (auto simp: multiaddr_add_overflow_def)

lemma end_position:
  assumes p: "multiaddr_find_protocol_by_code c = Some p" and v: "ma_shape (c, v)"
  shows "multiaddr_end_position p c (length v) start =
    (let fin = start + length (ma_bytes (c, v)) in
     if SIZE_MAX < fin then (True, SIZE_MAX) else (False, fin))"
proof -
  let ?a = "length (uvarint_bytes (unat c))" and ?b = "length (uvarint_bytes (length v))"
  have n: "length v < 2 ^ 63" using ma_value_bound [OF v] .
  have u: "?a \<le> 9" "?b \<le> 9" using n ma_code_small [OF v] uvarint_length_9 by blast+
  have "?a + ?b \<le> SIZE_MAX" "?a + ?b + length v \<le> SIZE_MAX" using u n by (simp_all add: SIZE_MAX_def)
  moreover have "libp2p_uvarint_size (of_nat (length v)) = ?b" using unat_of_nat_63 [OF n] by simp
  moreover have "?a \<le> SIZE_MAX" using u by (simp add: SIZE_MAX_def)
  ultimately show ?thesis
    using ma_bytes_class [OF p]
    by (auto simp: multiaddr_end_position_def add_overflow Let_def ma_bytes_def)
qed

lemma append_component_ok:
  assumes p: "multiaddr_find_protocol_by_code c = Some p" and v: "ma_valid (c, contents val)"
    and len: "clen val = length (contents val)"
    and fin: "start + length (ma_bytes (c, contents val)) \<le> length buf" "length buf \<le> SIZE_MAX"
  shows "libp2p_multiaddr_append_component c val (Buf buf) (Some start) =
    Some (MA_OK, Some (start + length (ma_bytes (c, contents val))),
      Buf (take start buf @ ma_bytes (c, contents val) @ drop (start + length (ma_bytes (c, contents val))) buf))"
proof -
  have shape: "ma_shape (c, contents val)" using v by (simp add: ma_valid_def)
  let ?v = "contents val"
  let ?a = "uvarint_bytes (unat c)" and ?b = "uvarint_bytes (length ?v)"
  have n: "length ?v < 2 ^ 63" using ma_value_bound [OF shape] .
  obtain cb where cb: "libp2p_uvarint_encode c (Buf uvarint_scratch) = Some (LIBP2P_UVARINT_OK, length ?a, Buf cb)"
    "take (length ?a) cb = ?a" using uvarint_encode_scratch [OF ma_code_small [OF shape]] by blast
  obtain lb where lb: "libp2p_uvarint_encode (of_nat (length ?v)) (Buf uvarint_scratch) =
      Some (LIBP2P_UVARINT_OK, length ?b, Buf lb)" "take (length ?b) lb = ?b"
    using uvarint_encode_scratch [of "of_nat (length ?v)"] n by (auto simp: unat_of_nat_63)
  have e: "multiaddr_end_position p c (length ?v) start = (False, start + length (ma_bytes (c, ?v)))"
    using end_position [OF p shape, of start] fin by (simp add: Let_def)
  have ok: "multiaddr_value_ok p val" using value_ok_iff [OF p] v len by simp
  note cls = ma_bytes_class [OF p]
  show ?thesis
  proof (cases "c = LIBP2P_MULTIADDR_CODE_P2P")
    case True
    then have bytes: "ma_bytes (c, ?v) = ?a @ ?b @ ?v" by (simp add: ma_bytes_def)
    have "memcpy_at buf start ?a = Some (take start buf @ ?a @ drop (start + length ?a) buf)"
      and "memcpy_at (take start buf @ ?a @ drop (start + length ?a) buf) (start + length ?a) ?b =
        Some (take start buf @ ?a @ ?b @ drop (start + length ?a + length ?b) buf)"
      and "memcpy_at (take start buf @ ?a @ ?b @ drop (start + length ?a + length ?b) buf)
          (start + length ?a + length ?b) ?v =
        Some (take start buf @ ?a @ ?b @ ?v @ drop (start + length (ma_bytes (c, ?v))) buf)"
      using fin by (simp_all add: memcpy_at_def bytes ac_simps)
    moreover have "entry_value_class p = LIBP2P_MULTIADDR_VALUE_VARIABLE" using cls True by simp
    moreover have "clen val \<noteq> 0" using True v len p2p_value_len by (auto simp: ma_valid_simps)
    ultimately show ?thesis
      using p ok e cb lb fin len
      by (simp add: libp2p_multiaddr_append_component_def bytes)
  next
    case False
    then have bytes: "ma_bytes (c, ?v) = ?a @ ?v" by (simp add: ma_bytes_def)
    have "memcpy_at buf start ?a = Some (take start buf @ ?a @ drop (start + length ?a) buf)"
      and "memcpy_at (take start buf @ ?a @ drop (start + length ?a) buf) (start + length ?a) ?v =
        Some (take start buf @ ?a @ ?v @ drop (start + length (ma_bytes (c, ?v))) buf)"
      using fin by (simp_all add: memcpy_at_def bytes ac_simps)
    moreover have "entry_value_class p \<noteq> LIBP2P_MULTIADDR_VALUE_VARIABLE" using cls False by simp
    moreover have "memcpy_at bs i ?v = Some bs" if "clen val = 0" "i \<le> length bs" for bs i
      using that len by (simp add: memcpy_at_def)
    ultimately show ?thesis
      using p ok e cb fin len
      by (simp add: libp2p_multiaddr_append_component_def bytes)
  qed
qed

text \<open>
  \<open>libp2p_multiaddr_append_component\<close> on every branch: an unknown code and an illegal value are
  refused and change nothing; when the buffer is missing or short nothing is written and the
  position is set to where the component would end (saturating at \<open>SIZE_MAX\<close>); otherwise exactly
  the encoding of the component is written at the position.
\<close>

theorem append_component_correct:
  assumes "clen buf \<le> SIZE_MAX"
  shows "libp2p_multiaddr_append_component c val buf (Some start) =
    (let v = contents val; fin = start + length (ma_bytes (c, v)) in Some (
      if multiaddr_find_protocol_by_code c = None
      then (LIBP2P_MULTIADDR_ERR_UNSUPPORTED_PROTOCOL, Some start, buf)
      else if \<not> (clen val = length v \<and> ma_valid (c, v))
      then (LIBP2P_MULTIADDR_ERR_INVALID_VALUE, Some start, buf)
      else if SIZE_MAX < fin then (LIBP2P_MULTIADDR_ERR_BUF_TOO_SMALL, Some SIZE_MAX, buf)
      else if is_null buf \<or> clen buf < fin then (LIBP2P_MULTIADDR_ERR_BUF_TOO_SMALL, Some fin, buf)
      else (MA_OK, Some fin, Buf (take start (contents buf) @ ma_bytes (c, v) @ drop fin (contents buf)))))"
proof (cases "multiaddr_find_protocol_by_code c")
  case None
  then show ?thesis by (simp add: libp2p_multiaddr_append_component_def Let_def)
next
  case (Some p)
  let ?fin = "start + length (ma_bytes (c, contents val))"
  consider (bad) "\<not> (clen val = length (contents val) \<and> ma_valid (c, contents val))"
    | (over) "clen val = length (contents val)" "ma_valid (c, contents val)" "SIZE_MAX < ?fin"
    | (short) "clen val = length (contents val)" "ma_valid (c, contents val)" "\<not> SIZE_MAX < ?fin"
        "is_null buf \<or> clen buf < ?fin"
    | (ok) out where "clen val = length (contents val)" "ma_valid (c, contents val)" "buf = Buf out" "?fin \<le> length out"
    by (metis clen.simps(2) is_null.elims(3) linorder_not_less)
  then show ?thesis
  proof cases
    case bad
    with Some value_ok_iff [OF Some] show ?thesis
      by (auto simp: libp2p_multiaddr_append_component_def Let_def)
  next
    case over
    with Some value_ok_iff [OF Some] end_position [OF Some, of "contents val" start] show ?thesis
      by (simp add: libp2p_multiaddr_append_component_def Let_def ma_valid_def)
  next
    case short
    then have "ma_shape (c, contents val)" by (simp add: ma_valid_def)
    from uvarint_encode_scratch [OF ma_code_small [OF this]] end_position [OF Some this, of start]
      short Some value_ok_iff [OF Some] show ?thesis
      by (auto simp: libp2p_multiaddr_append_component_def Let_def)
  next
    case ok
    with append_component_ok [OF Some ok(2,1,4)] assms Some show ?thesis
      by (auto simp: Let_def)
  qed
qed

theorem append_component_correct_witness:
  "\<exists>out. libp2p_multiaddr_append_component LIBP2P_MULTIADDR_CODE_UDP (Buf [16, 225]) (Buf (replicate 9 0)) (Some 3) =
     Some (MA_OK, Some (3 + length (ma_bytes (LIBP2P_MULTIADDR_CODE_UDP, [16, 225]))), Buf out)"
proof -
  have "length (uvarint_bytes (unat LIBP2P_MULTIADDR_CODE_UDP)) \<le> 2"
    by (subst uvarint_length_le_iff) (simp_all add: ma_codes)
  then have "length (ma_bytes (LIBP2P_MULTIADDR_CODE_UDP, [16, 225])) \<le> 4" by (simp add: ma_bytes_def)
  moreover have "clen (Buf (replicate 9 (0 :: byte))) \<le> SIZE_MAX" by (simp add: SIZE_MAX_def)
  ultimately show ?thesis
    using append_component_correct [of "Buf (replicate 9 0)" LIBP2P_MULTIADDR_CODE_UDP "Buf [16, 225]" 3]
    by (simp add: Let_def ma_valid_simps SIZE_MAX_def)
qed

end
