(* ===== verification/Multiaddr_Capsule.thy ===== *)
theory Multiaddr_Capsule
  imports Multiaddr_Binary "HOL-Library.Sublist"
begin

text \<open>
  Encapsulation and decapsulation of multiaddrs, as operations on sequences of components: the code
  works on bytes and compares bytes, and because the encoding of components is prefix free it
  computes what the same operation on the sequences computes.
\<close>

context prefix_codec
begin

lemma prefix_concat_enc:
  "list_all valid vs \<Longrightarrow> list_all valid ws \<Longrightarrow>
   prefix (concat (map enc vs)) (concat (map enc ws)) \<longleftrightarrow> prefix vs ws"
proof (induction vs arbitrary: ws)
  case (Cons v vs)
  then have v: "valid v" by simp
  show ?case
  proof (cases ws)
    case Nil
    with enc_nonempty [OF v] show ?thesis by simp
  next
    case (Cons w ws')
    show ?thesis
    proof
      assume "prefix (concat (map enc (v # vs))) (concat (map enc ws))"
      then obtain r where "enc v @ concat (map enc vs) @ r = enc w @ concat (map enc ws')"
        using Cons by (auto simp: prefix_def)
      then have "v = w" and "concat (map enc vs) @ r = concat (map enc ws')"
        using enc_prefix_free [of v w] Cons Cons.prems by auto
      moreover from this(2) have "prefix (concat (map enc vs)) (concat (map enc ws'))" by (metis prefix_def)
      ultimately show "prefix (v # vs) ws" using Cons Cons.prems Cons.IH [of ws'] by simp
    next
      assume "prefix (v # vs) ws"
      then show "prefix (concat (map enc (v # vs))) (concat (map enc ws))"
        by (auto simp: prefix_def)
    qed
  qed
qed simp

end

subsection \<open>Encapsulation\<close>

lemma add_no_overflow:
  "a \<le> PTRDIFF_MAX \<Longrightarrow> b \<le> PTRDIFF_MAX \<Longrightarrow> multiaddr_add_overflow a b = (False, a + b)"
  by (simp add: multiaddr_add_overflow_def SIZE_MAX_def PTRDIFF_MAX_def)

lemma encapsulate_ok:
  assumes "libp2p_multiaddr_validate (Buf a) = MA_OK" and "libp2p_multiaddr_validate (Buf b) = MA_OK"
    and "length a \<le> PTRDIFF_MAX" and "length b \<le> PTRDIFF_MAX" and "length a + length b \<le> length out"
  shows "libp2p_multiaddr_encapsulate (Buf a) (Buf b) (Buf out) =
    Some (MA_OK, length a + length b, Buf (a @ b @ drop (length a + length b) out))"
proof -
  have "memcpy_at (a @ drop (length a) out) (length a) b = Some (a @ b @ drop (length a + length b) out)"
    using assms(5) by (simp add: memcpy_at_append ac_simps)
  moreover have "memcpy_at out 0 a = Some (a @ drop (length a) out)"
    using assms(5) by (simp add: memcpy_at_0)
  ultimately show ?thesis
    using assms
    by (cases "a = []"; cases "b = []") (simp_all add: libp2p_multiaddr_encapsulate_def add_no_overflow Let_def)
qed

subsection \<open>Decapsulation\<close>

text \<open>Where the last occurrence of \<open>ds\<close> in \<open>cs\<close> starts.\<close>

fun ma_cut :: "ma_component list \<Rightarrow> ma_component list \<Rightarrow> nat option" where
  "ma_cut ds [] = None"
| "ma_cut ds (c # cs) =
     (case ma_cut ds cs of
        Some k \<Rightarrow> Some (Suc k)
      | None \<Rightarrow> if prefix ds (c # cs) then Some 0 else None)"

lemma ma_cut_None_iff: "ma_cut ds cs = None \<longleftrightarrow> (\<forall>k < length cs. \<not> prefix ds (drop k cs))"
  by (induction cs) (auto simp: less_Suc_eq_0_disj split: option.splits)

lemma ma_cut_Some_iff:
  "ma_cut ds cs = Some k \<longleftrightarrow>
   k < length cs \<and> prefix ds (drop k cs) \<and> (\<forall>j < length cs. k < j \<longrightarrow> \<not> prefix ds (drop j cs))"
proof (induction cs arbitrary: k)
  case (Cons c cs)
  show ?case
  proof (cases "ma_cut ds cs")
    case None
    then have "\<not> prefix ds (drop j cs)" if "j < length cs" for j using that by (simp add: ma_cut_None_iff)
    with None show ?thesis by (cases k) (auto simp: less_Suc_eq_0_disj)
  next
    case (Some i)
    then have "prefix ds (drop i cs)" "i < length cs" using Cons.IH by blast+
    then have "\<exists>j < length (c # cs). 0 < j \<and> prefix ds (drop j (c # cs))" by (intro exI [of _ "Suc i"]) simp
    with Some Cons.IH [of i] Cons.IH [of "k - 1"] show ?thesis
      by (cases k) (auto simp: less_Suc_eq_0_disj)
  qed
qed simp

lemma ma_cut_append: "ds \<noteq> [] \<Longrightarrow> ma_cut ds (cs @ ds) = Some (length cs)"
  by (auto simp: ma_cut_Some_iff dest!: prefix_length_le)

lemma matches_prefix_iff:
  "length xs \<ge> length ys \<and> multiaddr_byte_sequence_matches (Buf xs) (Buf ys) (length ys) \<longleftrightarrow> prefix ys xs"
  by (auto simp: multiaddr_byte_sequence_matches_def prefix_def list_all_iff nth_append
      intro!: exI [of _ "drop (length ys) xs"] nth_equalityI)

lemma decapsulate_loop_cut:
  assumes "list_all ma_valid ds"
  shows "list_all ma_valid cs \<Longrightarrow>
    multiaddr_decapsulate_loop (cursor (pre @ ma_concat cs) (length pre)) (Buf (ma_concat ds)) m =
    (MA_OK, case ma_cut ds cs of None \<Rightarrow> m | Some k \<Rightarrow> Some (length pre + length (ma_concat (take k cs))))"
proof (induction cs arbitrary: pre m)
  case Nil
  have "multiaddr_next_component (cursor pre (length pre)) = (LIBP2P_MULTIADDR_ERR_END, 0, Null 0, cursor pre (length pre))"
    by (simp add: multiaddr_next_component_def)
  then show ?case by (subst multiaddr_decapsulate_loop.simps) simp
next
  case (Cons cv cs)
  obtain c v where cv: "cv = (c, v)" by (cases cv)
  then have shape: "ma_shape (c, v)" using Cons.prems by (simp add: ma_valid_def)
  let ?bs = "pre @ ma_concat (cv # cs)" and ?pre' = "pre @ ma_bytes cv"
  have nx: "multiaddr_next_component (cursor ?bs (length pre)) = (MA_OK, c, ma_value c v, cursor ?bs (length ?pre'))"
    using next_component_shift [of "length pre" ?bs] next_component_bytes [OF shape, of "ma_concat cs"]
    by (simp add: cv)
  have match: "length ?bs - length pre \<ge> length (ma_concat ds) \<and>
      multiaddr_byte_sequence_matches (Buf (drop (length pre) ?bs)) (Buf (ma_concat ds)) (length (ma_concat ds)) \<longleftrightarrow>
      prefix ds (cv # cs)"
    using matches_prefix_iff [of "ma_concat ds" "ma_concat (cv # cs)"]
      ma.prefix_concat_enc [of ds "cv # cs"] assms Cons.prems
    by (auto simp: ma_valid_def list_all_iff)
  have IH: "multiaddr_decapsulate_loop (cursor ?bs (length ?pre')) (Buf (ma_concat ds)) m' =
      (MA_OK, case ma_cut ds cs of None \<Rightarrow> m' | Some k \<Rightarrow> Some (length ?pre' + length (ma_concat (take k cs))))" for m'
    using Cons.IH [of ?pre' m'] Cons.prems by simp
  have "multiaddr_decapsulate_loop (cursor ?bs (length pre)) (Buf (ma_concat ds)) m =
      multiaddr_decapsulate_loop (cursor ?bs (length ?pre')) (Buf (ma_concat ds))
        (if prefix ds (cv # cs) then Some (length pre) else m)"
    using match by (subst multiaddr_decapsulate_loop.simps) (simp add: nx [simplified])
  then show ?case using IH by (simp split: option.splits)
qed


lemma decapsulate_match:
  assumes "libp2p_multiaddr_validate (Buf a) = MA_OK" and "libp2p_multiaddr_validate (Buf b) = MA_OK" and "b \<noteq> []"
    and "multiaddr_decapsulate_loop (cursor a 0) (Buf b) None = (MA_OK, m)"
    and "\<And>off. m = Some off \<Longrightarrow> off \<le> length a"
  shows "libp2p_multiaddr_decapsulate (Buf a) (Buf b) out = Some
    (case m of
       None \<Rightarrow> (LIBP2P_MULTIADDR_ERR_NOT_FOUND, 0, out)
     | Some off \<Rightarrow>
         if is_null out \<or> clen out < off then (LIBP2P_MULTIADDR_ERR_BUF_TOO_SMALL, off, out)
         else (MA_OK, off, Buf (take off a @ drop off (contents out))))"
  using assms
  by (cases m; cases out) (simp_all add: libp2p_multiaddr_decapsulate_def memcpy_at_0)

lemma decapsulate_cut:
  assumes "list_all ma_valid cs" and "list_all ma_valid ds" and "ds \<noteq> []"
  shows "libp2p_multiaddr_decapsulate (Buf (ma_concat cs)) (Buf (ma_concat ds)) out = Some
    (case ma_cut ds cs of
       None \<Rightarrow> (LIBP2P_MULTIADDR_ERR_NOT_FOUND, 0, out)
     | Some k \<Rightarrow>
         let r = ma_concat (take k cs) in
         if is_null out \<or> clen out < length r then (LIBP2P_MULTIADDR_ERR_BUF_TOO_SMALL, length r, out)
         else (MA_OK, length r, Buf (r @ drop (length r) (contents out))))"
proof -
  have v: "libp2p_multiaddr_validate (Buf (ma_concat cs)) = MA_OK" "libp2p_multiaddr_validate (Buf (ma_concat ds)) = MA_OK"
    using assms validate_concat_iff by blast+
  have ne: "ma_concat ds \<noteq> []" using assms(3) by (cases ds) auto
  have loop: "multiaddr_decapsulate_loop (cursor (ma_concat cs) 0) (Buf (ma_concat ds)) None =
      (MA_OK, case ma_cut ds cs of None \<Rightarrow> None | Some k \<Rightarrow> Some (length (ma_concat (take k cs))))"
    using decapsulate_loop_cut [OF assms(2,1), of "[]" None] by (cases "ma_cut ds cs") simp_all
  have split: "take (length (ma_concat (take k cs))) (ma_concat cs) = ma_concat (take k cs)" for k
    by (metis append_eq_conv_conj append_take_drop_id concat_append map_append)
  have "length (ma_concat (take k cs)) \<le> length (ma_concat cs)" for k
    using split [of k] by (metis length_take min.cobounded1)
  with loop split show ?thesis
    using decapsulate_match [OF v ne loop, of out] by (cases "ma_cut ds cs") (simp_all add: Let_def)
qed

lemma decapsulate_empty:
  assumes "libp2p_multiaddr_validate (Buf a) = MA_OK" and "length a \<le> length out"
  shows "libp2p_multiaddr_decapsulate (Buf a) (Buf []) (Buf out) =
    Some (MA_OK, length a, Buf (a @ drop (length a) out))"
  using assms by (auto simp: libp2p_multiaddr_decapsulate_def validate_Nil memcpy_at_0)

text \<open>
  \<open>libp2p_multiaddr_decapsulate\<close> refines decapsulation of component sequences: for valid
  multiaddrs with component lists \<open>cs\<close> and \<open>ds\<close>, \<open>ds\<close> not empty, it cuts \<open>cs\<close> where the last
  occurrence of \<open>ds\<close> starts (the greatest \<open>k\<close> with \<open>ds\<close> a prefix of \<open>drop k cs\<close>) and writes the
  encoding of the first \<open>k\<close> components; it reports that nothing is found exactly when there is no
  occurrence; a short buffer is left alone and the size needed is reported.
\<close>

theorem decapsulate_refines:
  assumes "list_all ma_valid cs" and "list_all ma_valid ds" and "ds \<noteq> []"
  shows "(if \<exists>k < length cs. prefix ds (drop k cs)
    then \<exists>k r. k < length cs \<and> prefix ds (drop k cs) \<and> (\<forall>j < length cs. k < j \<longrightarrow> \<not> prefix ds (drop j cs)) \<and>
      r = ma_concat (take k cs) \<and>
      libp2p_multiaddr_decapsulate (Buf (ma_concat cs)) (Buf (ma_concat ds)) out = Some
        (if is_null out \<or> clen out < length r then (LIBP2P_MULTIADDR_ERR_BUF_TOO_SMALL, length r, out)
         else (MA_OK, length r, Buf (r @ drop (length r) (contents out))))
    else libp2p_multiaddr_decapsulate (Buf (ma_concat cs)) (Buf (ma_concat ds)) out =
      Some (LIBP2P_MULTIADDR_ERR_NOT_FOUND, 0, out))"
proof (cases "ma_cut ds cs")
  case None
  then have no: "\<not> (\<exists>k < length cs. prefix ds (drop k cs))" by (simp add: ma_cut_None_iff)
  from None show ?thesis unfolding if_not_P [OF no] using decapsulate_cut [OF assms, of out] by simp
next
  case (Some k)
  then have "k < length cs" "prefix ds (drop k cs)" "\<forall>j < length cs. k < j \<longrightarrow> \<not> prefix ds (drop j cs)"
    by (simp_all add: ma_cut_Some_iff)
  moreover have "libp2p_multiaddr_decapsulate (Buf (ma_concat cs)) (Buf (ma_concat ds)) out = Some
      (let r = ma_concat (take k cs) in
       if is_null out \<or> clen out < length r then (LIBP2P_MULTIADDR_ERR_BUF_TOO_SMALL, length r, out)
       else (MA_OK, length r, Buf (r @ drop (length r) (contents out))))"
    using decapsulate_cut [OF assms] Some by simp
  ultimately show ?thesis unfolding Let_def by meson
qed

abbreviation quic_udp :: "ma_component list" where
  "quic_udp \<equiv> [(LIBP2P_MULTIADDR_CODE_UDP, [16, 225]), (LIBP2P_MULTIADDR_CODE_QUIC_V1, [])]"

lemma quic_udp_valid: "list_all ma_valid quic_udp"
  by (simp add: ma_valid_simps)

theorem decapsulate_refines_witness:
  "libp2p_multiaddr_decapsulate (Buf (ma_concat quic_udp))
     (Buf (ma_concat [(LIBP2P_MULTIADDR_CODE_IP4, [127, 0, 0, 1])])) (Buf []) =
   Some (LIBP2P_MULTIADDR_ERR_NOT_FOUND, 0, Buf [])"
proof -
  let ?ip = "(LIBP2P_MULTIADDR_CODE_IP4, [127, 0, 0, 1 :: byte])"
  have "\<not> prefix [?ip] (drop k quic_udp)" if "k < length quic_udp" for k
    using that by (cases k) (auto simp: ma_codes)
  then have "\<not> (\<exists>k < length quic_udp. prefix [?ip] (drop k quic_udp))" by blast
  moreover have "list_all ma_valid [?ip]" by (simp add: ma_valid_simps)
  ultimately show ?thesis
    using decapsulate_refines [OF quic_udp_valid, of "[?ip]" "Buf []"] by (simp only: if_False) blast
qed

text \<open>
  Decapsulation undoes encapsulation: for valid multiaddrs \<open>a\<close> and \<open>b\<close> and buffers that hold the
  results, encapsulating writes \<open>a\<close> followed by \<open>b\<close>, which is a valid multiaddr again, and
  decapsulating \<open>b\<close> from it writes exactly \<open>a\<close>, even when \<open>b\<close> occurs in \<open>a\<close> or is empty.
\<close>

theorem encapsulate_decapsulate:
  assumes "libp2p_multiaddr_validate (Buf a) = MA_OK" and "libp2p_multiaddr_validate (Buf b) = MA_OK"
    and "length a \<le> PTRDIFF_MAX" and "length b \<le> PTRDIFF_MAX"
    and "length a + length b \<le> length out" and "length a + length b \<le> length out2"
  shows "libp2p_multiaddr_encapsulate (Buf a) (Buf b) (Buf out) =
      Some (MA_OK, length (a @ b), Buf (a @ b @ drop (length (a @ b)) out)) \<and>
    libp2p_multiaddr_validate (Buf (a @ b)) = MA_OK \<and>
    libp2p_multiaddr_decapsulate (Buf (a @ b)) (Buf b) (Buf out2) =
      Some (MA_OK, length a, Buf (a @ drop (length a) out2))"
proof -
  obtain cs ds where cs: "list_all ma_valid cs" "a = ma_concat cs" and ds: "list_all ma_valid ds" "b = ma_concat ds"
    using assms(1,2) validate_concat_iff by meson
  then have ab: "list_all ma_valid (cs @ ds)" "a @ b = ma_concat (cs @ ds)" by simp_all
  then have valid: "libp2p_multiaddr_validate (Buf (a @ b)) = MA_OK" using validate_concat_iff by blast
  have "libp2p_multiaddr_decapsulate (Buf (a @ b)) (Buf b) (Buf out2) =
      Some (MA_OK, length a, Buf (a @ drop (length a) out2))"
  proof (cases "ds = []")
    case True
    then have "b = []" using ds by simp
    with valid decapsulate_empty [of "a @ b" out2] assms(6) show ?thesis by simp
  next
    case False
    have "length a \<le> length out2" using assms(6) by simp
    then show ?thesis
      using decapsulate_cut [OF ab(1) ds(1) False, of "Buf out2"]
      by (simp add: ma_cut_append [OF False] ab(2) ds(2) cs(2) [symmetric] Let_def)
  qed
  then show ?thesis using valid encapsulate_ok [OF assms(1-5)] by simp
qed

theorem encapsulate_decapsulate_witness:
  "\<exists>out. libp2p_multiaddr_decapsulate (Buf (ma_concat quic_udp @ ma_concat quic_udp)) (Buf (ma_concat quic_udp))
     (Buf (replicate (2 * length (ma_concat quic_udp)) 0)) = Some (MA_OK, length (ma_concat quic_udp), Buf out)"
proof -
  have "libp2p_multiaddr_validate (Buf (ma_concat quic_udp)) = MA_OK"
    using validate_concat_iff quic_udp_valid by blast
  moreover have "length (ma_bytes (LIBP2P_MULTIADDR_CODE_UDP, [16, 225])) \<le> 11 \<and>
      length (ma_bytes (LIBP2P_MULTIADDR_CODE_QUIC_V1, [])) \<le> 9"
    by (simp add: ma_bytes_def ma_codes uvarint_length_9 [symmetric])
  then have "length (ma_concat quic_udp) \<le> PTRDIFF_MAX" by (simp add: PTRDIFF_MAX_def)
  ultimately show ?thesis
    using encapsulate_decapsulate [of "ma_concat quic_udp" "ma_concat quic_udp"
        "replicate (2 * length (ma_concat quic_udp)) 0" "replicate (2 * length (ma_concat quic_udp)) 0"]
    by auto
qed

end
