(* ===== verification/Multiaddr_Text.thy ===== *)
theory Multiaddr_Text
  imports Multiaddr
begin

text \<open>
  \<open>src/src/multiformats/multiaddr/multiaddr.c\<close>, the text half: numbers, IPv4 and IPv6 addresses and
  peer ids as text, in both directions, and the two conversions of whole multiaddrs.

  Inside these functions the text is never a null pointer (only the public functions take one), so
  it is a list of characters; a position in the text is represented by the characters from there
  on. A parser's output array is only read after success, so a parser returns it on success only.
  Where arrays are accessed the result is wrapped in an outer option whose \<open>None\<close> is an access
  outside the array.
\<close>

subsection \<open>Names\<close>

definition LIBP2P_MULTIADDR_CODE_LIBP2P_KEY :: u64 where "LIBP2P_MULTIADDR_CODE_LIBP2P_KEY = 0x72"
definition LIBP2P_MULTIADDR_CID_VERSION_1 :: u64 where "LIBP2P_MULTIADDR_CID_VERSION_1 = 0x01"
definition LIBP2P_MULTIADDR_MAX_PEER_ID_BYTES :: nat where "LIBP2P_MULTIADDR_MAX_PEER_ID_BYTES = 128"
definition LIBP2P_MULTIADDR_MAX_PEER_ID_TEXT :: nat where "LIBP2P_MULTIADDR_MAX_PEER_ID_TEXT = 192"

definition multiaddr_char_sequence_matches :: "string \<Rightarrow> string \<Rightarrow> nat \<Rightarrow> bool" where
  "multiaddr_char_sequence_matches left right len = list_all (\<lambda>i. left ! i = right ! i) [0..<len]"

definition multiaddr_find_protocol_by_name :: "string \<Rightarrow> libp2p_multiaddr_protocol_entry_t option" where
  "multiaddr_find_protocol_by_name name =
     List.find (\<lambda>e. length (entry_name e) = length name \<and>
        multiaddr_char_sequence_matches (entry_name e) name (length name)) multiaddr_protocol_table"

definition multiaddr_is_ipfs_alias :: "string \<Rightarrow> bool" where
  "multiaddr_is_ipfs_alias name \<longleftrightarrow>
     length name = length ''ipfs'' \<and> multiaddr_char_sequence_matches name ''ipfs'' (length ''ipfs'')"

subsection \<open>Numbers\<close>

text \<open>The accumulated value never exceeds \<open>max_value\<close>, so that no 32-bit operation wraps around.\<close>

fun parse_decimal_loop :: "string \<Rightarrow> nat \<Rightarrow> nat \<Rightarrow> nat option" where
  "parse_decimal_loop [] max_value parsed = Some parsed"
| "parse_decimal_loop (c # cs) max_value parsed =
     (let character = of_char c :: nat
      in if character < of_char (CHR ''0'') \<or> character > of_char (CHR ''9'') then None
         else
           let digit = character - of_char (CHR ''0'')
           in if parsed > (max_value - digit) div 10 then None
              else parse_decimal_loop cs max_value (parsed * 10 + digit))"

definition multiaddr_parse_decimal :: "string \<Rightarrow> nat \<Rightarrow> nat option" where
  "multiaddr_parse_decimal chars max_value =
     (if chars = [] then None else parse_decimal_loop chars max_value 0)"

definition multiaddr_hex_value :: "char \<Rightarrow> nat option" where
  "multiaddr_hex_value c =
     (let character = of_char c :: nat
      in if character \<ge> of_char (CHR ''0'') \<and> character \<le> of_char (CHR ''9'')
         then Some (character - of_char (CHR ''0''))
         else if character \<ge> of_char (CHR ''a'') \<and> character \<le> of_char (CHR ''f'')
         then Some (10 + (character - of_char (CHR ''a'')))
         else if character \<ge> of_char (CHR ''A'') \<and> character \<le> of_char (CHR ''F'')
         then Some (10 + (character - of_char (CHR ''A'')))
         else None)"

subsection \<open>Parsing addresses\<close>

text \<open>The loop over the four parts; \<open>rest\<close> is the text from \<open>start\<close> on.\<close>

function parse_ipv4_loop :: "nat \<Rightarrow> string \<Rightarrow> byte list \<Rightarrow> byte list option" where
  "parse_ipv4_loop part rest out =
     (if part < 4 then
        (if rest = [] then None
         else
           let seg = takeWhile (\<lambda>c. c \<noteq> CHR ''.'') rest;
               after = dropWhile (\<lambda>c. c \<noteq> CHR ''.'') rest
           in case multiaddr_parse_decimal seg 255 of
                None \<Rightarrow> None
              | Some parsed_value \<Rightarrow>
                  let out' = out @ [of_nat parsed_value]
                  in if part = 3 then (if after \<noteq> [] then None else parse_ipv4_loop (part + 1) after out')
                     else if after = [] then None
                     else parse_ipv4_loop (part + 1) (tl after) out')
      else Some out)"
  by pat_completeness auto
termination
  by (relation "measure (\<lambda>(part, rest, out). 4 - part)") auto

declare parse_ipv4_loop.simps [simp del]

definition multiaddr_parse_ipv4 :: "string \<Rightarrow> byte list option" where
  "multiaddr_parse_ipv4 chars = parse_ipv4_loop 0 chars []"

text \<open>One group of hexadecimal digits.\<close>

fun ipv6_group_loop :: "string \<Rightarrow> nat \<Rightarrow> u16 \<Rightarrow> u16 option" where
  "ipv6_group_loop [] digit_count val = Some val"
| "ipv6_group_loop (c # cs) digit_count val =
     (if digit_count \<ge> 4 then None
      else case multiaddr_hex_value c of
             None \<Rightarrow> None
           | Some hex_value \<Rightarrow> ipv6_group_loop cs (digit_count + 1) (push_bit 4 val OR of_nat hex_value))"

definition ipv6_group :: "string \<Rightarrow> u16 option" where
  "ipv6_group seg = (if seg = [] then None else ipv6_group_loop seg 0 0)"

definition join_bytes :: "byte \<Rightarrow> byte \<Rightarrow> u16" where
  "join_bytes hi lo = push_bit 8 (ucast hi) OR ucast lo"

lemma tl_dropWhile_less: "xs \<noteq> [] \<Longrightarrow> length (tl (dropWhile P xs)) < length xs"
  using length_dropWhile_le [of P xs] length_greater_0_conv [of xs] unfolding length_tl by linarith

text \<open>
  The loop over the groups. \<open>Some None\<close> is the failure of the parser; on success the result has
  the array of groups, their number and the position of the double colon.
\<close>

function ipv6_loop ::
  "string \<Rightarrow> u16 list \<Rightarrow> nat \<Rightarrow> nat option \<Rightarrow> (u16 list \<times> nat \<times> nat option) option option" where
  "ipv6_loop rest groups group_count compress_index =
     (if rest = [] then Some (Some (groups, group_count, compress_index))
      else if group_count \<ge> 8 then Some None
      else
        let seg = takeWhile (\<lambda>c. c \<noteq> CHR '':'' \<and> c \<noteq> CHR ''.'') rest;
            after = dropWhile (\<lambda>c. c \<noteq> CHR '':'' \<and> c \<noteq> CHR ''.'') rest
        in if after \<noteq> [] \<and> hd after = CHR ''.'' then
             (if group_count > 6 then Some None
              else case multiaddr_parse_ipv4 rest of
                     None \<Rightarrow> Some None
                   | Some ipv4_bytes \<Rightarrow> do {
                       groups1 \<leftarrow> wr groups group_count (join_bytes (ipv4_bytes ! 0) (ipv4_bytes ! 1));
                       groups2 \<leftarrow> wr groups1 (group_count + 1) (join_bytes (ipv4_bytes ! 2) (ipv4_bytes ! 3));
                       Some (Some (groups2, group_count + 2, compress_index))
                     })
           else
             (case ipv6_group seg of
                None \<Rightarrow> Some None
              | Some val \<Rightarrow> do {
                  groups1 \<leftarrow> wr groups group_count val;
                  (if after = [] then Some (Some (groups1, group_count + 1, compress_index))
                   else if tl after \<noteq> [] \<and> hd (tl after) = CHR '':'' then
                     (if compress_index \<noteq> None then Some None
                      else ipv6_loop (tl (tl after)) groups1 (group_count + 1) (Some (group_count + 1)))
                   else if tl after = [] then Some None
                   else ipv6_loop (tl after) groups1 (group_count + 1) compress_index)
                }))"
  by pat_completeness auto
termination
proof (relation "measure (\<lambda>(rest, groups, gc, ci). length rest)", goal_cases)
  case (2 rest groups gc ci seg after)
  then have "length (tl after) < length rest" using tl_dropWhile_less by blast
  then show ?case by simp
next
  case (3 rest groups gc ci seg after)
  then show ?case using tl_dropWhile_less by simp
qed simp

declare ipv6_loop.simps [simp del]

text \<open>The expansion of the double colon: groups move to the end, zeros fill the gap.\<close>

fun ipv6_move_loop :: "nat \<Rightarrow> nat \<Rightarrow> nat \<Rightarrow> u16 list \<Rightarrow> u16 list option" where
  "ipv6_move_loop 0 compress_index zeros groups = Some groups"
| "ipv6_move_loop (Suc i) compress_index zeros groups =
     (if Suc i > compress_index then do {
        g \<leftarrow> rd groups i;
        groups' \<leftarrow> wr groups (Suc i + zeros - 1) g;
        ipv6_move_loop i compress_index zeros groups'
      } else Some groups)"

text \<open>The end of the parser: expand the double colon, or insist on eight groups, and split the groups.\<close>

definition ipv6_finish :: "(u16 list \<times> nat \<times> nat option) option \<Rightarrow> byte list option option" where
  "ipv6_finish parsed =
     (case parsed of
        None \<Rightarrow> Some None
      | Some (groups, group_count, compress_index) \<Rightarrow> do {
          expanded \<leftarrow>
            (case compress_index of
               Some ci \<Rightarrow>
                 if group_count > 8 then Some None
                 else do {
                   groups1 \<leftarrow> ipv6_move_loop group_count ci (8 - group_count) groups;
                   groups2 \<leftarrow> memcpy_at groups1 ci (replicate (8 - group_count) 0);
                   Some (Some groups2)
                 }
             | None \<Rightarrow> if group_count \<noteq> 8 then Some None else Some (Some groups));
          Some (map_option (\<lambda>gs. concat (map (\<lambda>g. [ucast (drop_bit 8 g), ucast (g AND 0xff)]) gs)) expanded)
        })"

definition multiaddr_parse_ipv6 :: "string \<Rightarrow> byte list option option" where
  "multiaddr_parse_ipv6 chars =
     (if chars = [] then Some None
      else if hd chars = CHR '':'' \<and> (length chars < 2 \<or> chars ! 1 \<noteq> CHR '':'') then Some None
      else do {
        parsed \<leftarrow> (if hd chars = CHR '':'' then ipv6_loop (drop 2 chars) (replicate 8 0) 0 (Some 0)
                  else ipv6_loop chars (replicate 8 0) 0 None);
        ipv6_finish parsed
      })"

subsection \<open>Writing\<close>

text \<open>
  The writers append to a text of which only the part that fits the buffer is stored; the state is
  the buffer and the position.
\<close>

type_synonym text_out = "char cbuf \<times> nat"

fun multiaddr_write_char :: "char \<Rightarrow> text_out \<Rightarrow> text_out" where
  "multiaddr_write_char c (out, pos) =
     ((if \<not> is_null out \<and> pos < clen out then Buf ((contents out)[pos := c]) else out),
      size_wrap (pos + 1))"

fun multiaddr_write_bytes :: "string \<Rightarrow> text_out \<Rightarrow> text_out" where
  "multiaddr_write_bytes [] st = st"
| "multiaddr_write_bytes (c # cs) st = multiaddr_write_bytes cs (multiaddr_write_char c st)"

text \<open>
  The digits are collected least significant first in a local array, here a list that grows, and
  written from the last one down.
\<close>

function decimal_digits_loop :: "nat \<Rightarrow> string \<Rightarrow> string" where
  "decimal_digits_loop remaining digits =
     (let digits' = digits @ [''0123456789'' ! (remaining mod 10)]
      in if remaining div 10 \<noteq> 0 then decimal_digits_loop (remaining div 10) digits' else digits')"
  by pat_completeness auto
termination by (relation "measure fst") auto

declare decimal_digits_loop.simps [simp del]

fun write_digits_down :: "string \<Rightarrow> nat \<Rightarrow> text_out \<Rightarrow> text_out" where
  "write_digits_down digits 0 st = st"
| "write_digits_down digits (Suc digit_count) st =
     write_digits_down digits digit_count (multiaddr_write_char (digits ! digit_count) st)"

definition multiaddr_write_decimal_u32 :: "u32 \<Rightarrow> text_out \<Rightarrow> text_out" where
  "multiaddr_write_decimal_u32 val st =
     (let digits = decimal_digits_loop (unat val) [] in write_digits_down digits (length digits) st)"

function hex_digits_loop :: "nat \<Rightarrow> string \<Rightarrow> string" where
  "hex_digits_loop remaining digits =
     (let digits' = digits @ [''0123456789abcdef'' ! (remaining mod 16)]
      in if remaining div 16 \<noteq> 0 then hex_digits_loop (remaining div 16) digits' else digits')"
  by pat_completeness auto
termination by (relation "measure fst") auto

declare hex_digits_loop.simps [simp del]

definition multiaddr_write_hex_group :: "u16 \<Rightarrow> text_out \<Rightarrow> text_out" where
  "multiaddr_write_hex_group val st =
     (let digits = hex_digits_loop (unat val) [] in write_digits_down digits (length digits) st)"

fun write_ipv4_loop :: "byte list \<Rightarrow> bool \<Rightarrow> text_out \<Rightarrow> text_out" where
  "write_ipv4_loop [] first st = st"
| "write_ipv4_loop (b # bs) first st =
     write_ipv4_loop bs False
       (multiaddr_write_decimal_u32 (ucast b) (if first then st else multiaddr_write_char (CHR ''.'') st))"

definition multiaddr_write_ipv4 :: "byte list \<Rightarrow> text_out \<Rightarrow> text_out" where
  "multiaddr_write_ipv4 val st = write_ipv4_loop val True st"

text \<open>The search for the longest run of zero groups.\<close>

fun zero_run_loop ::
  "u16 list \<Rightarrow> nat \<Rightarrow> nat \<times> nat \<times> nat \<times> nat \<Rightarrow> nat \<times> nat \<times> nat \<times> nat" where
  "zero_run_loop [] index st = st"
| "zero_run_loop (g # gs) index (best_start, best_len, current_start, current_len) =
     zero_run_loop gs (index + 1)
       (if g = 0
        then (best_start, best_len, (if current_len = 0 then index else current_start), current_len + 1)
        else if current_len > best_len then (current_start, current_len, current_start, 0)
        else (best_start, best_len, current_start, 0))"

definition best_zero_run :: "u16 list \<Rightarrow> nat \<times> nat" where
  "best_zero_run groups =
     (case zero_run_loop groups 0 (SIZE_MAX, 0, 0, 0) of
        (best_start, best_len, current_start, current_len) \<Rightarrow>
          let (bs, bl) = (if current_len > best_len then (current_start, current_len) else (best_start, best_len))
          in if bl < 2 then (SIZE_MAX, 0) else (bs, bl))"

function write_ipv6_loop :: "u16 list \<Rightarrow> nat \<Rightarrow> nat \<Rightarrow> nat \<Rightarrow> bool \<Rightarrow> text_out \<Rightarrow> text_out" where
  "write_ipv6_loop groups best_start best_len index need_separator st =
     (if index < 8 then
        (if best_len \<noteq> 0 \<and> index = best_start
         then write_ipv6_loop groups best_start best_len (index + best_len) False
                (multiaddr_write_char (CHR '':'') (multiaddr_write_char (CHR '':'') st))
         else write_ipv6_loop groups best_start best_len (index + 1) True
                (multiaddr_write_hex_group (groups ! index)
                   (if need_separator then multiaddr_write_char (CHR '':'') st else st)))
      else st)"
  by pat_completeness auto
termination
  by (relation "measure (\<lambda>(groups, bs, bl, i, sep, st). 8 - i)") auto

declare write_ipv6_loop.simps [simp del]

fun byte_groups :: "byte list \<Rightarrow> u16 list" where
  "byte_groups (hi # lo # bs) = join_bytes hi lo # byte_groups bs"
| "byte_groups _ = []"

definition multiaddr_write_ipv6 :: "byte list \<Rightarrow> text_out \<Rightarrow> text_out" where
  "multiaddr_write_ipv6 val st =
     (let groups = byte_groups val; (best_start, best_len) = best_zero_run groups
      in write_ipv6_loop groups best_start best_len 0 False st)"

subsection \<open>Peer ids\<close>

definition multiaddr_is_legacy_peer_id :: "string \<Rightarrow> bool" where
  "multiaddr_is_legacy_peer_id chars \<longleftrightarrow>
     length chars \<ge> 1 \<and> chars ! 0 = CHR ''1'' \<or>
     length chars \<ge> 2 \<and> chars ! 0 = CHR ''Q'' \<and> chars ! 1 = CHR ''m''"

text \<open>The result is a peer id, \<open>Some None\<close> when the text is refused; \<open>capacity\<close> is the size of the output.\<close>

definition multiaddr_parse_legacy_peer_id :: "string \<Rightarrow> nat \<Rightarrow> byte list option option" where
  "multiaddr_parse_legacy_peer_id chars capacity =
     (if length chars \<ge> LIBP2P_MULTIADDR_MAX_PEER_ID_TEXT then Some None
      else do {
        (err, base, decoded_len, peer_id) \<leftarrow>
          libp2p_multibase_decode (Buf (CHR ''z'' # chars)) (Buf (replicate capacity 0));
        (if err \<noteq> LIBP2P_MULTIBASE_OK then Some None
         else
           case libp2p_multihash_decode (Buf (take decoded_len (contents peer_id))) of
             (merr, code, digest, digest_len, multihash_read) \<Rightarrow>
               if merr \<noteq> LIBP2P_MULTIHASH_OK then Some None
               else if multihash_read \<noteq> decoded_len then Some None
               else Some (Some (take decoded_len (contents peer_id))))
      })"

definition multiaddr_parse_cid_peer_id :: "string \<Rightarrow> nat \<Rightarrow> byte list option option" where
  "multiaddr_parse_cid_peer_id chars capacity = do {
     (err, base, cid_len, cid_buf) \<leftarrow>
       libp2p_multibase_decode (Buf chars) (Buf (replicate LIBP2P_MULTIADDR_MAX_PEER_ID_BYTES 0));
     (if err \<noteq> LIBP2P_MULTIBASE_OK then Some None
      else
        let cid_bytes = take cid_len (contents cid_buf);
            (verr, version, version_read) = libp2p_uvarint_decode (Buf cid_bytes)
        in if verr \<noteq> LIBP2P_UVARINT_OK then Some None
           else if version \<noteq> LIBP2P_MULTIADDR_CID_VERSION_1 then Some None
           else if version_read \<ge> cid_len then Some None
           else
             let (cerr, codec, codec_read) = libp2p_uvarint_decode (Buf (drop version_read cid_bytes))
             in if cerr \<noteq> LIBP2P_UVARINT_OK then Some None
                else if codec \<noteq> LIBP2P_MULTIADDR_CODE_LIBP2P_KEY then Some None
                else
                  let multihash_offset = version_read + codec_read
                  in if multihash_offset > cid_len then Some None
                     else
                       case libp2p_multihash_decode (Buf (drop multihash_offset cid_bytes)) of
                         (merr, code, digest, digest_len, multihash_read) \<Rightarrow>
                           if merr \<noteq> LIBP2P_MULTIHASH_OK then Some None
                           else if multihash_offset + multihash_read \<noteq> cid_len then Some None
                           else if multihash_read > capacity then Some None
                           else Some (Some (take multihash_read (drop multihash_offset cid_bytes))))
   }"

definition multiaddr_parse_peer_id :: "string \<Rightarrow> nat \<Rightarrow> byte list option option" where
  "multiaddr_parse_peer_id chars capacity =
     (if multiaddr_is_legacy_peer_id chars then multiaddr_parse_legacy_peer_id chars capacity
      else multiaddr_parse_cid_peer_id chars capacity)"

text \<open>The move of the text over the multibase prefix, front to back in place.\<close>

function shift_left_loop :: "nat \<Rightarrow> nat \<Rightarrow> string \<Rightarrow> string option" where
  "shift_left_loop n index chars =
     (if index < n then do {
        c \<leftarrow> rd chars (index + 1);
        chars' \<leftarrow> wr chars index c;
        shift_left_loop n (index + 1) chars'
      } else Some chars)"
  by pat_completeness auto
termination by (relation "measure (\<lambda>(n, i, t). n - i)") auto

declare shift_left_loop.simps [simp del]

definition multiaddr_format_peer_id :: "byte cbuf \<Rightarrow> nat \<Rightarrow> string option option" where
  "multiaddr_format_peer_id peer_id text_capacity =
     (if clen peer_id > LIBP2P_MULTIADDR_MAX_PEER_ID_BYTES \<or> text_capacity = 0 then Some None
      else do {
        (err, encoded_len, chars) \<leftarrow>
          libp2p_multibase_encode LIBP2P_MULTIBASE_BASE58BTC peer_id (Buf (replicate text_capacity (CHR 0x00)));
        (if err \<noteq> LIBP2P_MULTIBASE_OK then Some None
         else if encoded_len = 0 then Some None
         else do {
           chars' \<leftarrow> shift_left_loop (encoded_len - 1) 0 (contents chars);
           Some (Some (take (encoded_len - 1) chars'))
         })
      })"

subsection \<open>Components and whole addresses as text\<close>

text \<open>The segment after the slash at the front of \<open>rest\<close>, and the text after it.\<close>

fun multiaddr_read_text_segment :: "string \<Rightarrow> (string \<times> string) option" where
  "multiaddr_read_text_segment [] = None"
| "multiaddr_read_text_segment (c # cs) =
     (if c \<noteq> CHR ''/'' then None
      else Some (takeWhile (\<lambda>d. d \<noteq> CHR ''/'') cs, dropWhile (\<lambda>d. d \<noteq> CHR ''/'') cs))"

text \<open>The bytes of a value; \<open>Inl\<close> an error.\<close>

definition multiaddr_parse_text_component :: "u64 \<Rightarrow> string \<Rightarrow> (ma_err + byte list) option" where
  "multiaddr_parse_text_component code value_text =
     (let or_invalid = (\<lambda>r. case r of None \<Rightarrow> Inl LIBP2P_MULTIADDR_ERR_INVALID_VALUE | Some v \<Rightarrow> Inr v)
      in if code = LIBP2P_MULTIADDR_CODE_IP4 then Some (or_invalid (multiaddr_parse_ipv4 value_text))
         else if code = LIBP2P_MULTIADDR_CODE_IP6 then map_option or_invalid (multiaddr_parse_ipv6 value_text)
         else if code = LIBP2P_MULTIADDR_CODE_UDP then
           Some (or_invalid (map_option (\<lambda>n. [of_nat (n div 256), of_nat (n mod 256)])
             (multiaddr_parse_decimal value_text 65535)))
         else if code = LIBP2P_MULTIADDR_CODE_P2P then
           map_option or_invalid (multiaddr_parse_peer_id value_text LIBP2P_MULTIADDR_MAX_PEER_ID_BYTES)
         else Some (Inl LIBP2P_MULTIADDR_ERR_UNSUPPORTED_PROTOCOL))"

text \<open>One call of \<open>libp2p_multiaddr_append_component\<close>, without a buffer once the buffer is too small.\<close>

definition from_string_append ::
  "u64 \<Rightarrow> byte cbuf \<Rightarrow> ma_err \<Rightarrow> byte cbuf \<Rightarrow> nat \<Rightarrow> (ma_err \<times> nat \<times> byte cbuf) option" where
  "from_string_append code val result out pos =
     (if result = MA_OK then do {
        (err, pos', out') \<leftarrow> libp2p_multiaddr_append_component code val out (Some pos);
        Some (err, case_option pos id pos', out')
      } else do {
        (err, pos', null') \<leftarrow> libp2p_multiaddr_append_component code val (Null 0) (Some pos);
        Some (err, case_option pos id pos', out)
      })"

lemma read_text_segment_less:
  "multiaddr_read_text_segment rest = Some (seg, rest') \<Longrightarrow> length rest' < length rest"
  by (cases rest) (auto simp: less_Suc_eq_le length_dropWhile_le split: if_splits)

text \<open>
  The loop over the components; \<open>result\<close> remembers that the buffer was too small, after which only
  the size is computed. The result is the error code, the position and the buffer.
\<close>

function from_string_loop ::
  "string \<Rightarrow> ma_err \<Rightarrow> nat \<Rightarrow> byte cbuf \<Rightarrow> (ma_err \<times> nat \<times> byte cbuf) option" where
  "from_string_loop rest result pos out =
     (if rest = [] then Some (result, pos, out)
      else
        case multiaddr_read_text_segment rest of
          None \<Rightarrow> Some (LIBP2P_MULTIADDR_ERR_MALFORMED, pos, out)
        | Some (protocol_text, rest1) \<Rightarrow>
            if protocol_text = [] then Some (LIBP2P_MULTIADDR_ERR_MALFORMED, pos, out)
            else
              case (if multiaddr_is_ipfs_alias protocol_text
                    then multiaddr_find_protocol_by_code LIBP2P_MULTIADDR_CODE_P2P
                    else multiaddr_find_protocol_by_name protocol_text) of
                None \<Rightarrow> Some (LIBP2P_MULTIADDR_ERR_UNSUPPORTED_PROTOCOL, pos, out)
              | Some protocol \<Rightarrow>
                  if entry_code protocol = LIBP2P_MULTIADDR_CODE_QUIC_V1 then do {
                    (err, pos', out') \<leftarrow>
                      from_string_append (entry_code protocol) (Null 0) result out pos;
                    (if err = LIBP2P_MULTIADDR_ERR_BUF_TOO_SMALL
                     then from_string_loop rest1 LIBP2P_MULTIADDR_ERR_BUF_TOO_SMALL pos' out'
                     else if err \<noteq> MA_OK then Some (err, pos', out')
                     else from_string_loop rest1 result pos' out')
                  }
                  else
                    case multiaddr_read_text_segment rest1 of
                      None \<Rightarrow> Some (LIBP2P_MULTIADDR_ERR_MALFORMED, pos, out)
                    | Some (value_text, rest2) \<Rightarrow>
                        if value_text = [] then Some (LIBP2P_MULTIADDR_ERR_INVALID_VALUE, pos, out)
                        else do {
                          parsed \<leftarrow> multiaddr_parse_text_component (entry_code protocol) value_text;
                          (case parsed of
                             Inl err \<Rightarrow> Some (err, pos, out)
                           | Inr val \<Rightarrow> do {
                               (err, pos', out') \<leftarrow>
                                 from_string_append (entry_code protocol) (Buf val) result out pos;
                               (if err = LIBP2P_MULTIADDR_ERR_BUF_TOO_SMALL
                                then from_string_loop rest2 LIBP2P_MULTIADDR_ERR_BUF_TOO_SMALL pos' out'
                                else if err \<noteq> MA_OK then Some (err, pos', out')
                                else from_string_loop rest2 result pos' out')
                             })
                        })"
  by pat_completeness auto
termination
  by (relation "measure (\<lambda>(rest, result, pos, out). length rest)")
    (auto dest!: read_text_segment_less)

declare from_string_loop.simps [simp del]

definition libp2p_multiaddr_from_string ::
  "char cbuf \<Rightarrow> byte cbuf \<Rightarrow> (ma_err \<times> nat \<times> byte cbuf) option" where
  "libp2p_multiaddr_from_string inp out =
     (if is_null inp \<or> clen inp = 0 \<or> contents inp ! 0 \<noteq> CHR ''/''
      then Some (LIBP2P_MULTIADDR_ERR_MALFORMED, 0, out)
      else from_string_loop (contents inp) MA_OK 0 out)"

text \<open>The value of a component; the first component of the result is an error code.\<close>

definition multiaddr_write_value ::
  "u64 \<Rightarrow> byte cbuf \<Rightarrow> text_out \<Rightarrow> (ma_err \<times> text_out) option" where
  "multiaddr_write_value code val st =
     (let slash = multiaddr_write_char (CHR ''/'') st
      in if code = LIBP2P_MULTIADDR_CODE_QUIC_V1 then Some (MA_OK, st)
         else if code = LIBP2P_MULTIADDR_CODE_IP4 then
           (if is_null val \<or> clen val \<noteq> 4 then Some (LIBP2P_MULTIADDR_ERR_MALFORMED, st)
            else Some (MA_OK, multiaddr_write_ipv4 (contents val) slash))
         else if code = LIBP2P_MULTIADDR_CODE_IP6 then
           (if is_null val \<or> clen val \<noteq> 16 then Some (LIBP2P_MULTIADDR_ERR_MALFORMED, st)
            else Some (MA_OK, multiaddr_write_ipv6 (contents val) slash))
         else if code = LIBP2P_MULTIADDR_CODE_UDP then
           (if is_null val \<or> clen val \<noteq> 2 then Some (LIBP2P_MULTIADDR_ERR_MALFORMED, st)
            else Some (MA_OK, multiaddr_write_decimal_u32
              (push_bit 8 (ucast (contents val ! 0)) OR ucast (contents val ! 1)) slash))
         else if code = LIBP2P_MULTIADDR_CODE_P2P then
           (if is_null val then Some (LIBP2P_MULTIADDR_ERR_MALFORMED, st)
            else do {
              formatted \<leftarrow> multiaddr_format_peer_id val LIBP2P_MULTIADDR_MAX_PEER_ID_TEXT;
              (case formatted of
                 None \<Rightarrow> Some (LIBP2P_MULTIADDR_ERR_MALFORMED, st)
               | Some peer_id_text \<Rightarrow> Some (MA_OK, multiaddr_write_bytes peer_id_text slash))
            })
         else Some (LIBP2P_MULTIADDR_ERR_UNSUPPORTED_PROTOCOL, st))"

function to_string_loop :: "libp2p_multiaddr_cursor_t \<Rightarrow> text_out \<Rightarrow> (ma_err \<times> text_out) option" where
  "to_string_loop cursor st =
     (case multiaddr_next_component cursor of
        (err, code, val, cursor') \<Rightarrow>
          if err = LIBP2P_MULTIADDR_ERR_END then Some (MA_OK, st)
          else if err \<noteq> MA_OK then Some (err, st)
          else
            case libp2p_multiaddr_protocol_info code of
              (ierr, info) \<Rightarrow>
                if ierr \<noteq> MA_OK then Some (LIBP2P_MULTIADDR_ERR_UNSUPPORTED_PROTOCOL, st)
                else do {
                  (verr, st') \<leftarrow> multiaddr_write_value code val
                    (multiaddr_write_bytes (fst (the info)) (multiaddr_write_char (CHR ''/'') st));
                  (if verr \<noteq> MA_OK then Some (verr, st') else to_string_loop cursor' st')
                })"
  by pat_completeness auto
termination
  by (relation "measure (\<lambda>(c, st). clen (cursor_buf c) - cursor_offset c)")
    (auto dest!: next_component_measure)

declare to_string_loop.simps [simp del]

definition libp2p_multiaddr_to_string ::
  "byte cbuf \<Rightarrow> char cbuf \<Rightarrow> (ma_err \<times> nat \<times> char cbuf) option" where
  "libp2p_multiaddr_to_string inp out =
     (let result = libp2p_multiaddr_validate inp
      in if result \<noteq> MA_OK then Some (result, 0, out)
         else do {
           (err, out', pos) \<leftarrow> to_string_loop \<lparr>cursor_buf = inp, cursor_offset = 0\<rparr> (out, 0);
           Some ((if err = MA_OK \<and> (is_null out' \<or> clen out' < pos)
                  then LIBP2P_MULTIADDR_ERR_BUF_TOO_SMALL else err), pos, out')
         })"

end
