(* ===== verification/Multiaddr_Text_Values.thy ===== *)
theory Multiaddr_Text_Values
  imports Multiaddr_Text
begin

text \<open>
  Numbers and IP addresses as text. Every writer emits a fixed text, character by character
  (\<open>emits\<close>); the texts are given by recursive functions on numbers, bytes and groups, and the parsers
  read them back.
\<close>

subsection \<open>Writers and their texts\<close>

abbreviation emit :: "string \<Rightarrow> text_out \<Rightarrow> text_out" where
  "emit s \<equiv> fold multiaddr_write_char s"

lemma write_bytes_emit [simp]: "multiaddr_write_bytes s st = emit s st"
  by (induction s st rule: multiaddr_write_bytes.induct) simp_all

lemma write_digits_down_emit:
  "n \<le> length digits \<Longrightarrow> write_digits_down digits n st = emit (rev (take n digits)) st"
proof (induction digits n st rule: write_digits_down.induct)
  case (2 digits n st)
  then have "take (Suc n) digits = take n digits @ [digits ! n]" by (simp add: take_Suc_conv_app_nth)
  with 2 show ?case by simp
qed simp

lemma emit_Buf:
  "pos + length s \<le> SIZE_MAX \<Longrightarrow> emit s (Buf out, pos) =
   (Buf (take pos out @ take (length out - pos) s @ drop (pos + length s) out), pos + length s)"
proof (induction s arbitrary: pos out)
  case (Cons c s)
  then have w: "size_wrap (pos + 1) = pos + 1" by simp
  show ?case
  proof (cases "pos < length out")
    case True
    then have "length out - pos = Suc (length out - Suc pos)" by simp
    moreover have "take (Suc pos) (out[pos := c]) = take pos out @ [c]"
      using True by (simp add: take_Suc_conv_app_nth)
    ultimately show ?thesis using True w Cons by simp
  next
    case False
    with w Cons show ?thesis by simp
  qed
qed simp

lemma emit_Null: "pos + length s \<le> SIZE_MAX \<Longrightarrow> emit s (Null n, pos) = (Null n, pos + length s)"
  by (induction s arbitrary: pos) simp_all

subsection \<open>Numbers\<close>

fun dec_text :: "nat \<Rightarrow> string" where
  "dec_text n = (if n < 10 then [''0123456789'' ! n] else dec_text (n div 10) @ [''0123456789'' ! (n mod 10)])"

fun hex_text :: "nat \<Rightarrow> string" where
  "hex_text n = (if n < 16 then [''0123456789abcdef'' ! n]
     else hex_text (n div 16) @ [''0123456789abcdef'' ! (n mod 16)])"

declare dec_text.simps [simp del] hex_text.simps [simp del]

lemma decimal_digits_loop_text: "decimal_digits_loop n ds = ds @ rev (dec_text n)"
proof (induction n ds rule: decimal_digits_loop.induct)
  case (1 n ds)
  then show ?case by (subst decimal_digits_loop.simps, subst dec_text.simps) (auto simp: Let_def div_eq_0_iff)
qed

lemma hex_digits_loop_text: "hex_digits_loop n ds = ds @ rev (hex_text n)"
proof (induction n ds rule: hex_digits_loop.induct)
  case (1 n ds)
  then show ?case by (subst hex_digits_loop.simps, subst hex_text.simps) (auto simp: Let_def div_eq_0_iff)
qed

lemma write_decimal_emit [simp]: "multiaddr_write_decimal_u32 v st = emit (dec_text (unat v)) st"
  by (simp add: multiaddr_write_decimal_u32_def decimal_digits_loop_text write_digits_down_emit)

lemma write_hex_emit [simp]: "multiaddr_write_hex_group v st = emit (hex_text (unat v)) st"
  by (simp add: multiaddr_write_hex_group_def hex_digits_loop_text write_digits_down_emit)

lemma less_10_cases: "(d :: nat) < 10 \<Longrightarrow> d \<in> {0, 1, 2, 3, 4, 5, 6, 7, 8, 9}"
  by auto

lemma less_16_cases: "(d :: nat) < 16 \<Longrightarrow> d \<in> {0, 1, 2, 3, 4, 5, 6, 7, 8, 9, 10, 11, 12, 13, 14, 15}"
  by simp arith

lemma decimal_char: "d < 10 \<Longrightarrow> of_char (''0123456789'' ! d) = 48 + d"
  using less_10_cases [of d] by auto

lemma hex_char: "d < 16 \<Longrightarrow> multiaddr_hex_value (''0123456789abcdef'' ! d) = Some d"
  using less_16_cases [of d] by (auto simp: multiaddr_hex_value_def)

lemma hex_char_not: "d < 16 \<Longrightarrow> ''0123456789abcdef'' ! d \<notin> {CHR '':'', CHR ''.'', CHR ''/''}"
  using less_16_cases [of d] by auto

lemma decimal_char_not: "d < 10 \<Longrightarrow> ''0123456789'' ! d \<notin> {CHR '':'', CHR ''.'', CHR ''/''}"
  using less_10_cases [of d] by auto

lemma dec_text_nonempty [simp]: "dec_text n \<noteq> []"
  by (subst dec_text.simps) simp

lemma hex_text_nonempty [simp]: "hex_text n \<noteq> []"
  by (subst hex_text.simps) simp

lemma dec_text_set: "c \<in> set (dec_text n) \<Longrightarrow> c \<noteq> CHR '':'' \<and> c \<noteq> CHR ''.'' \<and> c \<noteq> CHR ''/''"
proof (induction n rule: dec_text.induct)
  case (1 n)
  then show ?case
    using decimal_char_not [of n] decimal_char_not [of "n mod 10"] by (subst (asm) dec_text.simps) (auto split: if_splits)
qed

lemma hex_text_set: "c \<in> set (hex_text n) \<Longrightarrow> c \<noteq> CHR '':'' \<and> c \<noteq> CHR ''.'' \<and> c \<noteq> CHR ''/''"
proof (induction n rule: hex_text.induct)
  case (1 n)
  then show ?case
    using hex_char_not [of n] hex_char_not [of "n mod 16"] by (subst (asm) hex_text.simps) (auto split: if_splits)
qed

lemma parse_decimal_step:
  assumes "d < 10" and "parsed * 10 + d \<le> m"
  shows "parse_decimal_loop ((''0123456789'' ! d) # cs) m parsed = parse_decimal_loop cs m (parsed * 10 + d)"
proof -
  have "\<not> parsed > (m - d) div 10" using assms by linarith
  with assms decimal_char [of d] show ?thesis by (simp add: Let_def)
qed

lemma parse_decimal_loop_text:
  "n \<le> m \<Longrightarrow> parse_decimal_loop (dec_text n @ cs) m 0 = parse_decimal_loop cs m n"
proof (induction n arbitrary: cs rule: dec_text.induct)
  case (1 n)
  show ?case
  proof (cases "n < 10")
    case True
    with 1 parse_decimal_step [of n 0 m cs] show ?thesis by (subst dec_text.simps) simp
  next
    case False
    have "n div 10 * 10 + n mod 10 = n" by simp
    with False 1 parse_decimal_step [of "n mod 10" "n div 10" m cs] show ?thesis
      by (subst dec_text.simps) simp
  qed
qed

lemma parse_decimal_text [codec_laws, simp]: "n \<le> m \<Longrightarrow> multiaddr_parse_decimal (dec_text n) m = Some n"
  using parse_decimal_loop_text [of n m "[]"] by (simp add: multiaddr_parse_decimal_def)

lemma takeWhile_segment:
  "(\<And>c. c \<in> set s \<Longrightarrow> P c) \<Longrightarrow> \<not> P d \<Longrightarrow>
   takeWhile P (s @ d # r) = s \<and> dropWhile P (s @ d # r) = d # r"
  by (simp add: takeWhile_append dropWhile_append)

lemma takeWhile_all: "(\<And>c. c \<in> set s \<Longrightarrow> P c) \<Longrightarrow> takeWhile P s = s \<and> dropWhile P s = []"
  by simp

subsection \<open>IPv4\<close>

fun dotted :: "byte list \<Rightarrow> string" where
  "dotted [] = []"
| "dotted (b # bs) = CHR ''.'' # dec_text (unat b) @ dotted bs"

definition ipv4_text :: "byte list \<Rightarrow> string" where
  "ipv4_text v = tl (dotted v)"

lemma unat_ucast_byte_u32: "unat (ucast (b :: byte) :: u32) = unat b"
  by (simp add: unat_ucast_word)

lemma write_ipv4_loop_emit: "write_ipv4_loop bs False st = emit (dotted bs) st"
  by (induction bs arbitrary: st) (simp_all add: unat_ucast_byte_u32)

lemma write_ipv4_emit [simp]: "multiaddr_write_ipv4 v st = emit (ipv4_text v) st"
  by (cases v) (simp_all add: multiaddr_write_ipv4_def ipv4_text_def write_ipv4_loop_emit unat_ucast_byte_u32)

lemma parse_ipv4_step:
  assumes "part < 3"
  shows "parse_ipv4_loop part (dec_text (unat b) @ CHR ''.'' # rest) out =
    parse_ipv4_loop (part + 1) rest (out @ [b])"
proof -
  have "takeWhile (\<lambda>c. c \<noteq> CHR ''.'') (dec_text (unat b) @ CHR ''.'' # rest) = dec_text (unat b) \<and>
      dropWhile (\<lambda>c. c \<noteq> CHR ''.'') (dec_text (unat b) @ CHR ''.'' # rest) = CHR ''.'' # rest"
    by (rule takeWhile_segment) (use dec_text_set in auto)
  moreover have "unat b \<le> 255" by simp
  ultimately show ?thesis using assms by (subst parse_ipv4_loop.simps) (simp add: Let_def)
qed

lemma parse_ipv4_last: "parse_ipv4_loop 3 (dec_text (unat b)) out = Some (out @ [b])"
proof -
  have "takeWhile (\<lambda>c. c \<noteq> CHR ''.'') (dec_text (unat b)) = dec_text (unat b)"
      and "dropWhile (\<lambda>c. c \<noteq> CHR ''.'') (dec_text (unat b)) = []"
    using takeWhile_all [of "dec_text (unat b)" "\<lambda>c. c \<noteq> CHR ''.''"] dec_text_set by blast+
  moreover have "multiaddr_parse_decimal (dec_text (unat b)) 255 = Some (unat b)" by simp
  ultimately show ?thesis
    by (subst parse_ipv4_loop.simps) (simp only: Let_def, simp add: parse_ipv4_loop.simps [of 4])
qed

lemma parse_ipv4_text [codec_laws]:
  assumes "length v = 4"
  shows "multiaddr_parse_ipv4 (ipv4_text v) = Some v"
proof -
  obtain a b c d where "v = [a, b, c, d]"
    using assms by (auto simp: length_Suc_conv eval_nat_numeral)
  then show ?thesis
    using parse_ipv4_step [of 0 a "dec_text (unat b) @ CHR ''.'' # dec_text (unat c) @ CHR ''.'' # dec_text (unat d)" "[]"]
      parse_ipv4_step [of 1 b "dec_text (unat c) @ CHR ''.'' # dec_text (unat d)" "[a]"]
      parse_ipv4_step [of 2 c "dec_text (unat d)" "[a, b]"] parse_ipv4_last [of d "[a, b, c]"]
    by (simp add: multiaddr_parse_ipv4_def ipv4_text_def numeral_2_eq_2 numeral_3_eq_3)
qed

end
