(* ===== verification/Multiaddr_Text_Ipv6.thy ===== *)
theory Multiaddr_Text_Ipv6
  imports Multiaddr_Text_Values
begin

text \<open>
  IPv6 addresses: the writer compresses the first longest run of at least two zero groups, and the
  parser expands the double colon again.
\<close>

subsection \<open>Groups\<close>

lemma hex_text_length: "0 < k \<Longrightarrow> n < 16 ^ k \<Longrightarrow> length (hex_text n) \<le> k"
proof (induction n arbitrary: k rule: hex_text.induct)
  case (1 n)
  show ?case
  proof (cases "n < 16")
    case True
    with 1 show ?thesis by (subst hex_text.simps) simp
  next
    case False
    with 1(2,3) obtain j where j: "k = Suc j" "0 < j" by (cases k; cases "k - 1") auto
    with 1(3) have "n div 16 < 16 ^ j" by (simp add: div_less_iff_less_mult mult.commute)
    with False 1(1) [of j] j show ?thesis by (subst hex_text.simps) simp
  qed
qed

lemma hex_shift:
  assumes "n < 65536"
  shows "push_bit 4 (of_nat (n div 16) :: u16) OR of_nat (n mod 16) = of_nat n"
proof -
  have q: "unat (of_nat (n div 16) :: u16) = n div 16" "unat (of_nat (n mod 16) :: u16) = n mod 16"
    using assms by (simp_all add: unat_of_nat take_bit_nat_eq_self)
  have "unat (push_bit 4 (of_nat (n div 16) :: u16) OR of_nat (n mod 16)) = n div 16 * 16 + n mod 16"
    using unat_shift_or [of "of_nat (n mod 16) :: u16" 4 "of_nat (n div 16)"] assms by (simp add: q)
  then show ?thesis using assms by (simp add: word_unat_eq_iff unat_of_nat take_bit_nat_eq_self)
qed

lemma group_loop_text:
  "n < 65536 \<Longrightarrow> ipv6_group_loop (hex_text n @ cs) 0 0 = ipv6_group_loop cs (length (hex_text n)) (of_nat n)"
proof (induction n arbitrary: cs rule: hex_text.induct)
  case (1 n)
  show ?case
  proof (cases "n < 16")
    case True
    with hex_char [of n] show ?thesis by (subst (1 2) hex_text.simps) simp
  next
    case False
    have "length (hex_text (n div 16)) \<le> 3" using 1(2) by (intro hex_text_length) auto
    with False 1 hex_char [of "n mod 16"] hex_shift [of n] show ?thesis
      by (subst (1 2) hex_text.simps) simp
  qed
qed

lemma ipv6_group_text [simp]: "ipv6_group (hex_text (unat g)) = Some g"
  using group_loop_text [of "unat g" "[]"] unsigned_less [of g] by (simp add: ipv6_group_def)

lemma join_bytes_split:
  "ucast (drop_bit 8 (join_bytes hi lo)) = hi" "ucast (join_bytes hi lo AND 0xff) = lo"
proof -
  have "unat (join_bytes hi lo) = unat hi * 256 + unat lo"
    unfolding join_bytes_def
    using unat_shift_or [of "ucast lo :: u16" 8 "ucast hi"] byte_bound [of hi] byte_bound [of lo]
    by (simp add: unat_ucast_word)
  moreover have "unat (ucast (x :: u16) :: byte) = unat x mod 256" for x
    by (simp add: unsigned_ucast_eq take_bit_eq_mod)
  moreover have "unat (x AND 0xff) = unat x mod 256" for x :: u16
    using unat_and_mask [of x 8] by (simp add: mask_eq_exp_minus_1)
  ultimately show "ucast (drop_bit 8 (join_bytes hi lo)) = hi" "ucast (join_bytes hi lo AND 0xff) = lo"
    by (simp_all add: word_unat_eq_iff unat_drop_bit_div)
qed


lemma byte_groups_split:
  "even (length v) \<Longrightarrow>
   concat (map (\<lambda>g. [ucast (drop_bit 8 g), ucast (g AND 0xff)]) (byte_groups v)) = v"
  by (induction v rule: byte_groups.induct) (simp_all add: join_bytes_split)

lemma length_byte_groups: "length (byte_groups v) = length v div 2"
  by (induction v rule: byte_groups.induct) simp_all

subsection \<open>The text\<close>

abbreviation colon_groups :: "u16 list \<Rightarrow> string" where
  "colon_groups gs \<equiv> concat (map (\<lambda>g. CHR '':'' # hex_text (unat g)) gs)"

definition join_groups :: "u16 list \<Rightarrow> string" where
  "join_groups gs = tl (colon_groups gs)"

lemma join_groups_simps [simp]:
  "join_groups [] = []"
  "join_groups (g # gs) = hex_text (unat g) @ colon_groups gs"
  by (simp_all add: join_groups_def)

definition ipv6_text :: "byte list \<Rightarrow> string" where
  "ipv6_text v =
     (let groups = byte_groups v; (best_start, best_len) = best_zero_run groups
      in if best_len = 0 then join_groups groups
         else join_groups (take best_start groups) @ ''::'' @ join_groups (drop (best_start + best_len) groups))"

text \<open>A run that the search has found consists of zeros.\<close>

definition zero_run :: "u16 list \<Rightarrow> nat \<Rightarrow> nat \<Rightarrow> bool" where
  "zero_run gs start len \<longleftrightarrow> len = 0 \<or> start + len \<le> length gs \<and> take len (drop start gs) = replicate len 0"

lemma zero_run_snoc: "zero_run gs start len \<Longrightarrow> zero_run (gs @ [g]) start len"
  by (auto simp: zero_run_def)

lemma zero_run_extend:
  "zero_run gs start len \<Longrightarrow> start + len = length gs \<Longrightarrow> zero_run (gs @ [0]) start (Suc len)"
  by (auto simp: zero_run_def replicate_append_same)

lemma zero_run_loop_sound:
  "zero_run_loop rest (length seen) (b, bl, c, cl) = (b', bl', c', cl') \<Longrightarrow>
   zero_run seen b bl \<Longrightarrow> zero_run seen c cl \<Longrightarrow> (cl \<noteq> 0 \<longrightarrow> c + cl = length seen) \<Longrightarrow>
   zero_run (seen @ rest) b' bl' \<and> zero_run (seen @ rest) c' cl'"
proof (induction rest arbitrary: seen b bl c cl)
  case (Cons g rest)
  show ?case
  proof (cases "g = 0")
    case True
    have "zero_run (seen @ [g]) (if cl = 0 then length seen else c) (cl + 1)"
      using Cons.prems True zero_run_extend [of seen "if cl = 0 then length seen else c" cl]
      by (auto simp: zero_run_def)
    moreover have "zero_run (seen @ [g]) b bl" using Cons.prems(2) by (rule zero_run_snoc)
    ultimately show ?thesis
      using Cons.IH [of "seen @ [g]" b bl "if cl = 0 then length seen else c" "cl + 1"] Cons.prems True
      by (cases "cl = 0") auto
  next
    case False
    have z: "zero_run (seen @ [g]) c 0" by (simp add: zero_run_def)
    show ?thesis
      using Cons.IH [of "seen @ [g]" c cl c 0] Cons.IH [of "seen @ [g]" b bl c 0] Cons.prems False z
      by (auto intro: zero_run_snoc split: if_splits)
  qed
qed auto

lemma best_zero_run_sound: "best_zero_run gs = (b, bl) \<Longrightarrow> zero_run gs b bl"
  using zero_run_loop_sound [of gs "[]" SIZE_MAX 0 0 0]
  by (auto simp: best_zero_run_def zero_run_def split: prod.splits if_splits)

lemma write_groups_emit:
  "length gs = 8 \<Longrightarrow> (bl = 0 \<or> b < i) \<Longrightarrow> i \<le> 8 \<Longrightarrow>
   write_ipv6_loop gs b bl i sep st =
   emit (if sep then colon_groups (drop i gs) else join_groups (drop i gs)) st"
proof (induction "8 - i" arbitrary: i sep st)
  case 0
  then show ?case by (subst write_ipv6_loop.simps) simp
next
  case (Suc n)
  then have i: "i < 8" by simp
  then have d: "drop i gs = gs ! i # drop (Suc i) gs" using Suc.prems(1) by (simp add: Cons_nth_drop_Suc)
  have w: "write_ipv6_loop gs b bl i sep st = write_ipv6_loop gs b bl (Suc i) True
      (emit (hex_text (unat (gs ! i))) (if sep then multiaddr_write_char (CHR '':'') st else st))"
    using i Suc.prems(2) by (subst write_ipv6_loop.simps) auto
  have IH: "write_ipv6_loop gs b bl (Suc i) True st' = emit (colon_groups (drop (Suc i) gs)) st'" for st'
    using Suc.hyps(1) [of "Suc i" True st'] Suc.hyps(2) Suc.prems i by auto
  show ?case unfolding w IH d by (cases sep) simp_all
qed

lemma write_run_emit:
  assumes "length gs = 8" and "0 < bl" and "b + bl \<le> 8"
  shows "i \<le> b \<Longrightarrow> write_ipv6_loop gs b bl i sep st =
    emit ((if sep then colon_groups (take (b - i) (drop i gs)) else join_groups (take (b - i) (drop i gs))) @
      [CHR '':'', CHR '':''] @ join_groups (drop (b + bl) gs)) st"
proof (induction "b - i" arbitrary: i sep st)
  case 0
  then have "i = b" by simp
  with assms write_groups_emit [OF assms(1), of bl b "b + bl" False] show ?case
    by (subst write_ipv6_loop.simps) simp
next
  case (Suc n)
  then have i: "i < b" by simp
  then have d: "take (b - i) (drop i gs) = gs ! i # take (b - Suc i) (drop (Suc i) gs)"
    using assms Suc.hyps(2) by (simp add: Cons_nth_drop_Suc [symmetric] take_Cons')
  have w: "write_ipv6_loop gs b bl i sep st = write_ipv6_loop gs b bl (Suc i) True
      (emit (hex_text (unat (gs ! i))) (if sep then multiaddr_write_char (CHR '':'') st else st))"
    using i assms by (subst write_ipv6_loop.simps) auto
  have IH: "write_ipv6_loop gs b bl (Suc i) True st' = emit (colon_groups (take (b - Suc i) (drop (Suc i) gs)) @
      [CHR '':'', CHR '':''] @ join_groups (drop (b + bl) gs)) st'" for st'
    using Suc.hyps(1) [of "Suc i" True st'] Suc.hyps(2) i by simp
  show ?case unfolding w IH d by (cases sep) simp_all
qed

lemma write_ipv6_emit:
  assumes "length v = 16"
  shows "multiaddr_write_ipv6 v st = emit (ipv6_text v) st"
proof -
  obtain b bl where r: "best_zero_run (byte_groups v) = (b, bl)" by (cases "best_zero_run (byte_groups v)")
  have "length (byte_groups v) = 8" using assms by (simp add: length_byte_groups)
  then show ?thesis
    using best_zero_run_sound [OF r] write_groups_emit [of "byte_groups v" bl b 0 False st]
      write_run_emit [of "byte_groups v" bl b 0 False st]
    by (cases "bl = 0") (auto simp: multiaddr_write_ipv6_def ipv6_text_def r zero_run_def Let_def)
qed

subsection \<open>Parsing\<close>

lemma groups_segment:
  "takeWhile (\<lambda>c. c \<noteq> CHR '':'' \<and> c \<noteq> CHR ''.'') (hex_text n @ CHR '':'' # t) = hex_text n"
  "dropWhile (\<lambda>c. c \<noteq> CHR '':'' \<and> c \<noteq> CHR ''.'') (hex_text n @ CHR '':'' # t) = CHR '':'' # t"
  "takeWhile (\<lambda>c. c \<noteq> CHR '':'' \<and> c \<noteq> CHR ''.'') (hex_text n) = hex_text n"
  "dropWhile (\<lambda>c. c \<noteq> CHR '':'' \<and> c \<noteq> CHR ''.'') (hex_text n) = []"
  using takeWhile_segment [of "hex_text n" "\<lambda>c. c \<noteq> CHR '':'' \<and> c \<noteq> CHR ''.''" "CHR '':''" t]
    takeWhile_all [of "hex_text n" "\<lambda>c. c \<noteq> CHR '':'' \<and> c \<noteq> CHR ''.''"] hex_text_set [of _ n]
  by blast+

text \<open>The array of groups with the groups \<open>xs\<close> filled in.\<close>

abbreviation filled :: "u16 list \<Rightarrow> u16 list" where
  "filled xs \<equiv> xs @ replicate (8 - length xs) 0"

lemma filled_store: "length xs < 8 \<Longrightarrow> wr (filled xs) (length xs) g = Some (filled (xs @ [g]))"
  by (cases "8 - length xs") (auto simp: wr_def list_update_append)

lemma hex_text_Cons: "\<exists>c cs. hex_text n = c # cs \<and> c \<noteq> CHR '':''"
  using hex_text_set [of "hd (hex_text n)" n] hex_text_nonempty [of n] by (cases "hex_text n") auto

lemma ipv6_loop_last:
  "length xs < 8 \<Longrightarrow> ipv6_loop (hex_text (unat g)) (filled xs) (length xs) ci =
   Some (Some (filled (xs @ [g]), length xs + 1, ci))"
  by (subst ipv6_loop.simps) (simp add: groups_segment filled_store Let_def del: takeWhile_eq_all_conv dropWhile_eq_Nil_conv)

lemma ipv6_loop_next:
  assumes "length xs < 8"
  shows "ipv6_loop (hex_text (unat g) @ CHR '':'' # hex_text n @ t) (filled xs) (length xs) ci =
    ipv6_loop (hex_text n @ t) (filled (xs @ [g])) (length (xs @ [g])) ci"
proof -
  obtain c cs where "hex_text n = c # cs" "c \<noteq> CHR '':''" using hex_text_Cons by blast
  with assms show ?thesis
    using groups_segment(1,2) [of "unat g" "hex_text n @ t"]
    by (subst ipv6_loop.simps) (simp add: filled_store Let_def)
qed

lemma ipv6_loop_double:
  "length xs < 8 \<Longrightarrow> ipv6_loop (hex_text (unat g) @ CHR '':'' # CHR '':'' # t) (filled xs) (length xs) None =
   ipv6_loop t (filled (xs @ [g])) (length (xs @ [g])) (Some (length (xs @ [g])))"
  by (subst ipv6_loop.simps) (simp add: groups_segment filled_store Let_def)

lemma ipv6_loop_groups:
  "length xs + length gs < 8 \<Longrightarrow>
   ipv6_loop (join_groups (g # gs)) (filled xs) (length xs) ci =
   Some (Some (filled (xs @ g # gs), length (xs @ g # gs), ci))"
proof (induction gs arbitrary: xs g)
  case Nil
  then show ?case by (simp add: ipv6_loop_last)
next
  case (Cons h gs)
  with ipv6_loop_next [of xs g "unat h" "colon_groups gs"] Cons.IH [of "xs @ [g]" h] show ?case
    by simp
qed

lemma ipv6_loop_groups_double:
  "length xs + length gs < 8 \<Longrightarrow>
   ipv6_loop (join_groups (g # gs) @ CHR '':'' # CHR '':'' # t) (filled xs) (length xs) None =
   ipv6_loop t (filled (xs @ g # gs)) (length (xs @ g # gs)) (Some (length (xs @ g # gs)))"
proof (induction gs arbitrary: xs g)
  case Nil
  then show ?case using ipv6_loop_double [of xs g t] by simp
next
  case (Cons h gs)
  with ipv6_loop_next [of xs g "unat h" "colon_groups gs @ CHR '':'' # CHR '':'' # t"] Cons.IH [of "xs @ [g]" h]
  show ?case by simp
qed

lemma ipv6_move_correct:
  "length mid = z \<Longrightarrow> \<exists>mid'. length mid' = z \<and>
   ipv6_move_loop (length pre + length post) (length pre) z (pre @ post @ mid @ done) = Some (pre @ mid' @ post @ done)"
proof (induction post arbitrary: mid "done" rule: rev_induct)
  case Nil
  then show ?case by (cases "length pre") auto
next
  case (snoc p post)
  let ?n = "length pre + length post"
  obtain m l where m: "p # mid = m @ [l]" "length m = z"
    using snoc.prems by (metis append_butlast_last_id length_Cons length_butlast diff_Suc_1 list.distinct(1))
  then have "pre @ post @ p # mid @ done = (pre @ post @ m) @ l # done" by (metis append_Cons append_assoc append_Nil)
  then have "wr (pre @ post @ p # mid @ done) (?n + z) p = Some (pre @ post @ m @ p # done)"
    unfolding \<open>pre @ post @ p # mid @ done = (pre @ post @ m) @ l # done\<close>
    using wr_append [of "pre @ post @ m" "?n + z" "l # done" p] m(2) by simp
  moreover have "rd (pre @ post @ p # mid @ done) ?n = Some p" by (simp add: rd_def nth_append)
  ultimately show ?case using snoc.IH [of m "p # done"] m(2) by simp
qed

lemma parse_expand:
  assumes "length pre + length post \<le> 8"
  shows "do {
      groups1 \<leftarrow> ipv6_move_loop (length (pre @ post)) (length pre) (8 - length (pre @ post)) (filled (pre @ post));
      memcpy_at groups1 (length pre) (replicate (8 - length (pre @ post)) 0)
    } = Some (pre @ replicate (8 - length (pre @ post)) 0 @ post)"
proof -
  let ?z = "8 - length (pre @ post)"
  obtain mid where mid: "length mid = ?z"
    "ipv6_move_loop (length pre + length post) (length pre) ?z (pre @ post @ replicate ?z 0 @ []) = Some (pre @ mid @ post @ [])"
    using ipv6_move_correct [of "replicate ?z 0" ?z pre post "[]"] by auto
  moreover have "memcpy_at (pre @ mid @ post) (length pre) (replicate ?z 0) = Some (pre @ replicate ?z 0 @ post)"
    using mid(1) by (simp add: memcpy_at_append)
  ultimately show ?thesis by simp
qed

abbreviation group_bytes :: "u16 list \<Rightarrow> byte list" where
  "group_bytes gs \<equiv> concat (map (\<lambda>g. [ucast (drop_bit 8 g), ucast (g AND 0xff)]) gs)"

lemma finish_expanded:
  assumes "length pre + length post + bl = 8"
  shows "ipv6_finish (Some (filled (pre @ post), length (pre @ post), Some (length pre))) =
    Some (Some (group_bytes (pre @ replicate bl 0 @ post)))"
proof -
  have z: "8 - length (pre @ post) = bl" "length pre + length post \<le> 8" using assms by simp_all
  obtain gs where "ipv6_move_loop (length (pre @ post)) (length pre) bl (filled (pre @ post)) = Some gs"
    and "memcpy_at gs (length pre) (replicate bl 0) = Some (pre @ replicate bl 0 @ post)"
    using parse_expand [OF z(2)] unfolding z(1) by (auto simp: Option.bind_eq_Some_conv)
  with z show ?thesis by (simp add: ipv6_finish_def)
qed

lemma parse_ipv6_compressed:
  assumes len: "length pre + length post + bl = 8" and "0 < bl"
  shows "multiaddr_parse_ipv6 (join_groups pre @ ''::'' @ join_groups post) =
    Some (Some (group_bytes (pre @ replicate bl 0 @ post)))"
proof -
  have tail: "ipv6_loop (join_groups post) (filled pre) (length pre) (Some (length pre)) =
      Some (Some (filled (pre @ post), length (pre @ post), Some (length pre)))"
  proof (cases post)
    case Nil
    then show ?thesis by (subst ipv6_loop.simps) simp
  next
    case (Cons g gs)
    with assms show ?thesis using ipv6_loop_groups [of pre gs g "Some (length pre)"] by simp
  qed
  note finish = finish_expanded [OF len]
  show ?thesis
  proof (cases pre)
    case Nil
    with tail finish show ?thesis by (simp add: multiaddr_parse_ipv6_def)
  next
    case (Cons g gs)
    obtain c cs where c: "hex_text (unat g) = c # cs" "c \<noteq> CHR '':''" using hex_text_Cons by blast
    have "ipv6_loop (join_groups pre @ ''::'' @ join_groups post) (replicate 8 0) 0 None =
        ipv6_loop (join_groups post) (filled pre) (length pre) (Some (length pre))"
      using ipv6_loop_groups_double [of "[]" gs g "join_groups post"] Cons assms by simp
    then have "multiaddr_parse_ipv6 (join_groups pre @ ''::'' @ join_groups post) =
        ipv6_loop (join_groups post) (filled pre) (length pre) (Some (length pre)) \<bind> ipv6_finish"
      using Cons c by (simp add: multiaddr_parse_ipv6_def)
    then show ?thesis using tail finish by simp
  qed
qed

lemma parse_ipv6_full:
  assumes "length groups = 8"
  shows "multiaddr_parse_ipv6 (join_groups groups) = Some (Some (group_bytes groups))"
proof -
  obtain g gs where g: "groups = g # gs" using assms by (cases groups) auto
  obtain c cs where c: "hex_text (unat g) = c # cs" "c \<noteq> CHR '':''" using hex_text_Cons by blast
  have "ipv6_loop (join_groups groups) (replicate 8 0) 0 None = Some (Some (groups, 8, None))"
    using ipv6_loop_groups [of "[]" gs g None] assms g by simp
  then show ?thesis using g c by (simp add: multiaddr_parse_ipv6_def ipv6_finish_def)
qed

lemma parse_ipv6_text [codec_laws]:
  assumes "length v = 16"
  shows "multiaddr_parse_ipv6 (ipv6_text v) = Some (Some v)"
proof -
  let ?gs = "byte_groups v"
  obtain b bl where r: "best_zero_run ?gs = (b, bl)" by (cases "best_zero_run ?gs")
  have len: "length ?gs = 8" using assms by (simp add: length_byte_groups)
  have v: "group_bytes ?gs = v" using assms by (intro byte_groups_split) simp
  show ?thesis
  proof (cases "bl = 0")
    case True
    with r v parse_ipv6_full [OF len] show ?thesis by (simp add: ipv6_text_def)
  next
    case False
    let ?pre = "take b ?gs" and ?post = "drop (b + bl) ?gs"
    have z: "b + bl \<le> 8" "take bl (drop b ?gs) = replicate bl 0"
      using best_zero_run_sound [OF r] False len by (auto simp: zero_run_def)
    then have "?pre @ replicate bl 0 @ ?post = ?gs"
      by (metis add.commute append_take_drop_id drop_drop)
    moreover have "length ?pre + length ?post + bl = 8" using z(1) len by simp
    ultimately show ?thesis
      using parse_ipv6_compressed [of ?pre ?post bl] False v by (simp add: ipv6_text_def r Let_def)
  qed
qed

lemma join_groups_set: "c \<in> set (join_groups gs) \<Longrightarrow> c \<noteq> CHR ''/''"
  by (cases gs) (auto dest: hex_text_set split: if_splits)

lemma ipv6_text_set: "c \<in> set (ipv6_text v) \<Longrightarrow> c \<noteq> CHR ''/''"
  using join_groups_set by (auto simp: ipv6_text_def Let_def split: prod.splits if_splits)

lemma ipv6_text_nonempty: "length v = 16 \<Longrightarrow> ipv6_text v \<noteq> []"
  using parse_ipv6_text [of v] by (auto simp: multiaddr_parse_ipv6_def)

end
