(* ===== verification/Multiaddr_Text_Roundtrip.thy ===== *)
theory Multiaddr_Text_Roundtrip
  imports Multiaddr_Capsule Multiaddr_Text_Ipv6 Multibase_Text
begin

text \<open>
  Whole multiaddrs as text. The text of a component is its name and its value between slashes;
  printing a valid multiaddr emits the texts of its components, and parsing that text gives the
  components back. Parsing any text gives a valid multiaddr or an error.
\<close>

subsection \<open>Peer ids\<close>

lemma shift_left_correct:
  "i \<le> n \<Longrightarrow> length done = i \<Longrightarrow> length rest = n - i \<Longrightarrow>
   \<exists>tl'. shift_left_loop n i (done @ x # rest @ tail) = Some (done @ rest @ tl')"
proof (induction "n - i" arbitrary: i "done" x rest)
  case 0
  then show ?case by (subst shift_left_loop.simps) simp
next
  case (Suc k)
  then obtain y ys where rest: "rest = y # ys" by (cases rest) auto
  have "rd (done @ x # rest @ tail) (i + 1) = Some y"
    using Suc.prems by (simp add: rd_def rest nth_append)
  moreover have "wr (done @ x # rest @ tail) i y = Some ((done @ [y]) @ y # ys @ tail)"
    using Suc.prems wr_append [of "done" i "x # rest @ tail" y] by (simp add: rest)
  moreover have "i < n" using Suc by simp
  ultimately show ?case
    using Suc.hyps(1) [of "Suc i" "done @ [y]" ys y] Suc.hyps(2) Suc.prems
    by (subst shift_left_loop.simps) (simp add: rest)
qed

lemma peer_id_text_bound:
  assumes "v \<noteq> []" and "length v \<le> 128"
  shows "length (base58_text v) < 191"
proof -
  have "length v * 138 div 100 \<le> 128 * 138 div 100" using assms(2) by (intro div_le_mono) simp
  then show ?thesis using base58_text_bound [OF assms(1)] by simp
qed

lemma format_peer_id_text:
  assumes "v \<noteq> []" and "length v \<le> 128"
  shows "multiaddr_format_peer_id (Buf v) LIBP2P_MULTIADDR_MAX_PEER_ID_TEXT = Some (Some (base58_text v))"
proof -
  let ?t = "base58_text v"
  have len: "length ?t < 191" using peer_id_text_bound [OF assms] .
  obtain tail where e: "multibase_encode_base58btc (Buf v) (Buf (replicate 192 (CHR 0x00))) =
      Some (LIBP2P_MULTIBASE_OK, Suc (length ?t), Buf (CHR ''z'' # ?t @ tail))"
    using encode_base58_correct [of v "replicate 192 (CHR 0x00)"] len by auto
  obtain tl' where "shift_left_loop (length ?t) 0 (CHR ''z'' # ?t @ tail) = Some (?t @ tl')"
    using shift_left_correct [of 0 "length ?t" "[]" ?t "CHR ''z''" tail] by auto
  with e assms(2) show ?thesis
    by (simp add: multiaddr_format_peer_id_def LIBP2P_MULTIADDR_MAX_PEER_ID_BYTES_def LIBP2P_MULTIADDR_MAX_PEER_ID_TEXT_def)
qed

lemma drop_digits: "2 \<le> B \<Longrightarrow> drop k (le_digits B n) = le_digits B (n div B ^ k)"
proof (induction k arbitrary: n)
  case (Suc k)
  have "drop (Suc k) (le_digits B n) = drop k (le_digits B (n div B))"
    using Suc.prems by (cases "n = 0") (simp_all add: le_digits_pos [of B n])
  also have "\<dots> = le_digits B (n div B div B ^ k)" using Suc by simp
  finally show ?case by (simp only: power_Suc div_mult2_eq)
qed simp

text \<open>Every sha2-256 multihash has a base58 text that starts with \<open>Qm\<close>.\<close>

lemma sha256_text:
  assumes "length d = 32"
  shows "\<exists>r. base58_text (0x12 # 0x20 # d) = CHR ''Q'' # CHR ''m'' # r"
proof -
  let ?N = "be_fold 256 0 (map unat ((0x12 :: byte) # 0x20 # d))"
  have "be_fold 256 0x1220 (map unat d) < Suc 0x1220 * 256 ^ length (map unat d)"
    by (rule be_fold_less) (simp add: list_all_iff)
  moreover have "?N = be_fold 256 0x1220 (map unat d)" by simp
  moreover have "0x1220 * 256 ^ length (map unat d) \<le> be_fold 256 0x1220 (map unat d)"
    unfolding be_fold_le_val by simp
  ultimately have N: "0x1220 * 256 ^ 32 \<le> ?N" "?N < 0x1221 * 256 ^ 32" using assms by simp_all
  have "?N div 58 ^ 44 \<le> (0x1221 * 256 ^ 32 - 1) div 58 ^ 44" using N(2) by (intro div_le_mono) simp
  moreover have "0x1220 * 256 ^ 32 div 58 ^ 44 \<le> ?N div 58 ^ 44" using N(1) by (rule div_le_mono)
  ultimately have q: "?N div 58 ^ 44 = 1378" by simp
  have "drop 44 (le_digits 58 ?N) = le_digits 58 (?N div 58 ^ 44)" by (rule drop_digits) simp
  also have "\<dots> = le_digits 58 1378" by (simp only: q)
  also have "\<dots> = [44, 23]" by (simp add: le_digits_pos)
  finally have digits: "drop 44 (le_digits 58 ?N) = [44, 23]" .
  have "rev ds = rev (drop 44 ds) @ rev (take 44 ds)" for ds :: "nat list"
    by (metis append_take_drop_id rev_append)
  from this [of "le_digits 58 ?N"] have "rev (le_digits 58 ?N) = 23 # 44 # rev (take 44 (le_digits 58 ?N))"
    unfolding digits by simp
  then obtain ys where ys: "rev (le_digits 58 ?N) = 23 # 44 # ys" by blast
  have "base58_text (0x12 # 0x20 # d) = map (\<lambda>d. multibase_base58btc_alphabet ! d) (rev (le_digits 58 ?N))"
    by (simp add: base58_text_def)
  then show ?thesis unfolding ys by (simp add: multibase_base58btc_alphabet_def)
qed

lemma p2p_text_legacy:
  assumes "p2p_value v"
  shows "multiaddr_is_legacy_peer_id (base58_text v)"
proof -
  from assms obtain c d where v: "v = multihash_bytes (c, d)" and
    c: "c = 0 \<or> c = 0x12 \<and> length d = 32"
    by (auto simp: p2p_value_def multihash_valid_def multihash_validate_iff)
  show ?thesis
  proof (cases "c = 0")
    case True
    then show ?thesis by (simp add: v multihash_bytes_def base58_text_def multiaddr_is_legacy_peer_id_def uvarint_bytes_small)
  next
    case False
    with c have "v = 0x12 # 0x20 # d" by (simp add: v multihash_bytes_def uvarint_bytes_small)
    with sha256_text [of d] False c show ?thesis by (auto simp: multiaddr_is_legacy_peer_id_def)
  qed
qed

lemma parse_peer_id_text:
  assumes "p2p_value v" and "length v \<le> 128"
  shows "multiaddr_parse_peer_id (base58_text v) LIBP2P_MULTIADDR_MAX_PEER_ID_BYTES = Some (Some v)"
proof -
  obtain out where "multibase_decode_base58btc (CHR ''z'' # base58_text v) (Buf (replicate 128 0)) =
      Some (LIBP2P_MULTIBASE_OK, length v, Buf out)" "take (length v) out = v"
    using decode_base58_iff [of "CHR ''z''" "base58_text v" "replicate 128 0" "length v" v] assms(2) by auto
  moreover obtain c dp n where "libp2p_multihash_decode (Buf v) = (LIBP2P_MULTIHASH_OK, c, dp, n, length v)"
    using assms(1) validate_p2p_iff [of v] by (auto simp: multiaddr_validate_p2p_value_def split: prod.splits)
  moreover have "length (base58_text v) < 191" using peer_id_text_bound assms p2p_value_len by blast
  ultimately show ?thesis
    using p2p_text_legacy [OF assms(1)]
    by (simp add: multiaddr_parse_peer_id_def multiaddr_parse_legacy_peer_id_def multibase_base_from_prefix_def
        LIBP2P_MULTIADDR_MAX_PEER_ID_BYTES_def LIBP2P_MULTIADDR_MAX_PEER_ID_TEXT_def)
qed

subsection \<open>The text of a component\<close>

fun name_text :: "u64 \<Rightarrow> string" where
  "name_text c = (case multiaddr_find_protocol_by_code c of None \<Rightarrow> [] | Some p \<Rightarrow> entry_name p)"

definition value_text :: "ma_component \<Rightarrow> string" where
  "value_text = (\<lambda>(c, v).
     if c = LIBP2P_MULTIADDR_CODE_IP4 then ipv4_text v
     else if c = LIBP2P_MULTIADDR_CODE_IP6 then ipv6_text v
     else if c = LIBP2P_MULTIADDR_CODE_UDP then dec_text (unat (v ! 0) * 256 + unat (v ! 1))
     else base58_text v)"

definition comp_text :: "ma_component \<Rightarrow> string" where
  "comp_text cv = CHR ''/'' # name_text (fst cv) @
     (if fst cv = LIBP2P_MULTIADDR_CODE_QUIC_V1 then [] else CHR ''/'' # value_text cv)"

abbreviation ma_text :: "ma_component list \<Rightarrow> string" where
  "ma_text cs \<equiv> concat (map comp_text cs)"

text \<open>Components that have a text: valid ones, with a peer id of at most 128 bytes.\<close>

definition ma_printable :: "ma_component \<Rightarrow> bool" where
  "ma_printable cv \<longleftrightarrow> ma_valid cv \<and> length (snd cv) \<le> 128"

lemma ma_valid_cases [consumes 1, case_names ip4 ip6 udp quic p2p]:
  assumes "ma_valid (c, v)"
  obtains "c = LIBP2P_MULTIADDR_CODE_IP4" "length v = 4"
  | "c = LIBP2P_MULTIADDR_CODE_IP6" "length v = 16"
  | "c = LIBP2P_MULTIADDR_CODE_UDP" "length v = 2"
  | "c = LIBP2P_MULTIADDR_CODE_QUIC_V1" "v = []"
  | "c = LIBP2P_MULTIADDR_CODE_P2P" "p2p_value v" "length v < 2 ^ 63"
  using assms by (auto simp: ma_valid_def ma_shape_def)

lemma ma_code_distinct [simp]:
  "LIBP2P_MULTIADDR_CODE_IP4 \<noteq> LIBP2P_MULTIADDR_CODE_IP6" "LIBP2P_MULTIADDR_CODE_IP4 \<noteq> LIBP2P_MULTIADDR_CODE_UDP"
  "LIBP2P_MULTIADDR_CODE_IP4 \<noteq> LIBP2P_MULTIADDR_CODE_QUIC_V1" "LIBP2P_MULTIADDR_CODE_IP4 \<noteq> LIBP2P_MULTIADDR_CODE_P2P"
  "LIBP2P_MULTIADDR_CODE_IP6 \<noteq> LIBP2P_MULTIADDR_CODE_IP4" "LIBP2P_MULTIADDR_CODE_IP6 \<noteq> LIBP2P_MULTIADDR_CODE_UDP"
  "LIBP2P_MULTIADDR_CODE_IP6 \<noteq> LIBP2P_MULTIADDR_CODE_QUIC_V1" "LIBP2P_MULTIADDR_CODE_IP6 \<noteq> LIBP2P_MULTIADDR_CODE_P2P"
  "LIBP2P_MULTIADDR_CODE_UDP \<noteq> LIBP2P_MULTIADDR_CODE_IP4" "LIBP2P_MULTIADDR_CODE_UDP \<noteq> LIBP2P_MULTIADDR_CODE_IP6"
  "LIBP2P_MULTIADDR_CODE_UDP \<noteq> LIBP2P_MULTIADDR_CODE_QUIC_V1" "LIBP2P_MULTIADDR_CODE_UDP \<noteq> LIBP2P_MULTIADDR_CODE_P2P"
  "LIBP2P_MULTIADDR_CODE_P2P \<noteq> LIBP2P_MULTIADDR_CODE_IP4" "LIBP2P_MULTIADDR_CODE_P2P \<noteq> LIBP2P_MULTIADDR_CODE_IP6"
  "LIBP2P_MULTIADDR_CODE_P2P \<noteq> LIBP2P_MULTIADDR_CODE_UDP" "LIBP2P_MULTIADDR_CODE_P2P \<noteq> LIBP2P_MULTIADDR_CODE_QUIC_V1"
  "LIBP2P_MULTIADDR_CODE_QUIC_V1 \<noteq> LIBP2P_MULTIADDR_CODE_IP4" "LIBP2P_MULTIADDR_CODE_QUIC_V1 \<noteq> LIBP2P_MULTIADDR_CODE_IP6"
  "LIBP2P_MULTIADDR_CODE_QUIC_V1 \<noteq> LIBP2P_MULTIADDR_CODE_UDP" "LIBP2P_MULTIADDR_CODE_QUIC_V1 \<noteq> LIBP2P_MULTIADDR_CODE_P2P"
  by (simp_all add: ma_codes)

lemma port_bytes:
  "unat (push_bit 8 (ucast (a :: byte)) OR ucast (b :: byte) :: u32) = unat a * 256 + unat b"
  using unat_shift_or [of "ucast b :: u32" 8 "ucast a"] byte_bound [of a] byte_bound [of b]
  by (simp add: unat_ucast_byte_u32)

subsection \<open>Printing\<close>

lemma write_value_emit:
  assumes "ma_printable (c, v)"
  shows "multiaddr_write_value c (ma_value c v) st =
    Some (MA_OK, if c = LIBP2P_MULTIADDR_CODE_QUIC_V1 then st else emit (CHR ''/'' # value_text (c, v)) st)"
proof -
  from assms have v: "ma_valid (c, v)" "length v \<le> 128" by (simp_all add: ma_printable_def)
  from v(1) show ?thesis
  proof (cases rule: ma_valid_cases)
    case p2p
    then have "v \<noteq> []" using p2p_value_len by blast
    with p2p format_peer_id_text [of v] v(2) show ?thesis
      by (simp add: multiaddr_write_value_def ma_value_def value_text_def)
  qed (simp_all add: multiaddr_write_value_def ma_value_def value_text_def write_ipv6_emit port_bytes)
qed

lemma to_string_loop_emit:
  "list_all ma_printable cs \<Longrightarrow>
   to_string_loop (cursor (pre @ ma_concat cs) (length pre)) st = Some (MA_OK, emit (ma_text cs) st)"
proof (induction cs arbitrary: pre st)
  case Nil
  have "multiaddr_next_component (cursor pre (length pre)) = (LIBP2P_MULTIADDR_ERR_END, 0, Null 0, cursor pre (length pre))"
    by (simp add: multiaddr_next_component_def)
  then show ?case by (subst to_string_loop.simps) simp
next
  case (Cons cv cs)
  obtain c v where cv: "cv = (c, v)" by (cases cv)
  have pr: "ma_printable (c, v)" using Cons.prems by (simp add: cv)
  then have shape: "ma_shape (c, v)" by (simp add: ma_printable_def ma_valid_def)
  obtain p where p: "multiaddr_find_protocol_by_code c = Some p"
    using shape by (auto simp: ma_shape_def)
  let ?bs = "pre @ ma_concat (cv # cs)" and ?pre' = "pre @ ma_bytes cv"
  have nx: "multiaddr_next_component (cursor ?bs (length pre)) = (MA_OK, c, ma_value c v, cursor ?bs (length ?pre'))"
    using next_component_shift [of "length pre" ?bs] next_component_bytes [OF shape, of "ma_concat cs"]
    by (simp add: cv)
  have "to_string_loop (cursor ?bs (length pre)) st =
      to_string_loop (cursor ?bs (length ?pre')) (emit (comp_text cv) st)"
    using nx
    by (subst to_string_loop.simps)
      (simp add: p libp2p_multiaddr_protocol_info_def write_value_emit [OF pr] comp_text_def cv)
  then show ?case using Cons.IH [of ?pre' "emit (comp_text cv) st"] Cons.prems by simp
qed

lemma to_string_printable:
  assumes "list_all ma_printable cs" and "length (ma_text cs) \<le> SIZE_MAX" and "length (ma_text cs) \<le> length out"
  shows "libp2p_multiaddr_to_string (Buf (ma_concat cs)) (Buf out) =
    Some (MA_OK, length (ma_text cs), Buf (ma_text cs @ drop (length (ma_text cs)) out))"
proof -
  have "list_all ma_valid cs" using assms(1) by (simp add: list_all_iff ma_printable_def)
  then have "libp2p_multiaddr_validate (Buf (ma_concat cs)) = MA_OK" using validate_concat_iff by blast
  then show ?thesis
    using to_string_loop_emit [OF assms(1), of "[]" "(Buf out, 0)"] emit_Buf [of 0 "ma_text cs" out] assms(2,3)
    by (simp add: libp2p_multiaddr_to_string_def del: length_concat)
qed

subsection \<open>Parsing\<close>

lemma name_known:
  "multiaddr_find_protocol_by_name ''ip4'' = multiaddr_find_protocol_by_code LIBP2P_MULTIADDR_CODE_IP4"
  "multiaddr_find_protocol_by_name ''ip6'' = multiaddr_find_protocol_by_code LIBP2P_MULTIADDR_CODE_IP6"
  "multiaddr_find_protocol_by_name ''udp'' = multiaddr_find_protocol_by_code LIBP2P_MULTIADDR_CODE_UDP"
  "multiaddr_find_protocol_by_name ''quic-v1'' = multiaddr_find_protocol_by_code LIBP2P_MULTIADDR_CODE_QUIC_V1"
  "multiaddr_find_protocol_by_name ''p2p'' = multiaddr_find_protocol_by_code LIBP2P_MULTIADDR_CODE_P2P"
  by (simp_all add: multiaddr_find_protocol_by_name_def multiaddr_protocol_table_def
      multiaddr_char_sequence_matches_def upt_conv_Cons)

lemma alias_known:
  "\<not> multiaddr_is_ipfs_alias ''ip4''" "\<not> multiaddr_is_ipfs_alias ''ip6''" "\<not> multiaddr_is_ipfs_alias ''udp''"
  "\<not> multiaddr_is_ipfs_alias ''quic-v1''" "\<not> multiaddr_is_ipfs_alias ''p2p''"
  by (simp_all add: multiaddr_is_ipfs_alias_def)

lemma dotted_set: "c \<in> set (dotted v) \<Longrightarrow> c \<noteq> CHR ''/''"
  by (induction v) (auto dest: dec_text_set)

lemma ipv4_text_set: "c \<in> set (ipv4_text v) \<Longrightarrow> c \<noteq> CHR ''/''"
  using dotted_set [of c v] by (cases "dotted v") (auto simp: ipv4_text_def)

lemma base58_text_set: "c \<in> set (base58_text v) \<Longrightarrow> c \<noteq> CHR ''/''"
proof -
  have "multibase_base58_value (CHR ''/'') = None"
    by (simp add: multibase_base58_value_def multibase_base58btc_alphabet_def)
  moreover have "base58_valid (base58_text v)" by simp
  ultimately show "c \<in> set (base58_text v) \<Longrightarrow> c \<noteq> CHR ''/''"
    by (auto simp: base58_valid_def list_all_iff)
qed

lemma value_text_segment:
  assumes "ma_valid (c, v)" and "d \<in> set (value_text (c, v))"
  shows "d \<noteq> CHR ''/''"
  using assms(1)
proof (cases rule: ma_valid_cases)
  case udp
  then show ?thesis using assms(2) dec_text_set by (auto simp: value_text_def)
qed (use assms(2) ipv4_text_set ipv6_text_set base58_text_set in \<open>auto simp: value_text_def\<close>)

lemma value_text_nonempty:
  assumes "ma_valid (c, v)" and "c \<noteq> LIBP2P_MULTIADDR_CODE_QUIC_V1"
  shows "value_text (c, v) \<noteq> []"
  using assms(1)
proof (cases rule: ma_valid_cases)
  case ip4
  then show ?thesis using parse_ipv4_text [of v]
    by (auto simp: value_text_def multiaddr_parse_ipv4_def parse_ipv4_loop.simps [of 0])
next
  case ip6
  then show ?thesis using ipv6_text_nonempty by (simp add: value_text_def)
next
  case p2p
  then show ?thesis using p2p_text_legacy [of v] by (auto simp: value_text_def multiaddr_is_legacy_peer_id_def)
qed (use assms(2) in \<open>simp_all add: value_text_def\<close>)

lemma parse_component_text:
  assumes "ma_printable (c, v)" and "c \<noteq> LIBP2P_MULTIADDR_CODE_QUIC_V1"
  shows "multiaddr_parse_text_component c (value_text (c, v)) = Some (Inr v)"
proof -
  from assms(1) have v: "ma_valid (c, v)" "length v \<le> 128" by (simp_all add: ma_printable_def)
  from v(1) show ?thesis
  proof (cases rule: ma_valid_cases)
    case udp
    then obtain a b where ab: "v = [a, b]" by (auto simp: length_Suc_conv eval_nat_numeral)
    have "unat a * 256 + unat b \<le> 65535" using byte_bound [of a] byte_bound [of b] by linarith
    moreover have "(unat a * 256 + unat b) div 256 = unat a" "(unat a * 256 + unat b) mod 256 = unat b"
      using byte_bound [of b] by simp_all
    ultimately show ?thesis using udp ab by (simp add: multiaddr_parse_text_component_def value_text_def)
  next
    case p2p
    with parse_peer_id_text v(2) show ?thesis
      by (simp add: multiaddr_parse_text_component_def value_text_def)
  qed (use assms(2) parse_ipv4_text parse_ipv6_text in
      \<open>simp_all add: multiaddr_parse_text_component_def value_text_def\<close>)
qed

lemma slash_segment:
  "(\<And>c. c \<in> set s \<Longrightarrow> c \<noteq> CHR ''/'') \<Longrightarrow> t = [] \<or> hd t = CHR ''/'' \<Longrightarrow>
   multiaddr_read_text_segment (CHR ''/'' # s @ t) = Some (s, t)"
  using takeWhile_segment [of s "\<lambda>d. d \<noteq> CHR ''/''" "CHR ''/''" "tl t"] takeWhile_all [of s "\<lambda>d. d \<noteq> CHR ''/''"]
  by (cases t) auto

lemma ma_text_hd: "ma_text cs = [] \<or> hd (ma_text cs) = CHR ''/''"
  by (cases cs) (simp_all add: comp_text_def)

lemma from_string_append_ok:
  assumes "ma_valid (c, v)" and "start + length (ma_bytes (c, v)) \<le> length buf" and "length buf \<le> SIZE_MAX"
  shows "from_string_append c (ma_value c v) MA_OK (Buf buf) start =
    Some (MA_OK, start + length (ma_bytes (c, v)),
      Buf (take start buf @ ma_bytes (c, v) @ drop (start + length (ma_bytes (c, v))) buf))"
proof -
  have shape: "ma_shape (c, v)" using assms(1) by (simp add: ma_valid_def)
  then obtain p where p: "multiaddr_find_protocol_by_code c = Some p" by (auto simp: ma_shape_def)
  have val: "contents (ma_value c v) = v" "clen (ma_value c v) = length v"
    using shape by (auto simp: ma_value_def ma_shape_def)
  show ?thesis
    using append_component_ok [OF p, of "ma_value c v" start buf] assms val by (simp add: from_string_append_def)
qed

lemma from_string_step:
  assumes pr: "ma_printable (c, v)" and t: "t = [] \<or> hd t = CHR ''/''"
    and fits: "start + length (ma_bytes (c, v)) \<le> length buf" "length buf \<le> SIZE_MAX"
  shows "from_string_loop (comp_text (c, v) @ t) MA_OK start (Buf buf) =
    from_string_loop t MA_OK (start + length (ma_bytes (c, v)))
      (Buf (take start buf @ ma_bytes (c, v) @ drop (start + length (ma_bytes (c, v))) buf))"
proof -
  have valid: "ma_valid (c, v)" using pr by (simp add: ma_printable_def)
  note app = from_string_append_ok [OF valid fits]
  show ?thesis
  proof (cases "c = LIBP2P_MULTIADDR_CODE_QUIC_V1")
    case True
    have "multiaddr_read_text_segment (CHR ''/'' # ''quic-v1'' @ t) = Some (''quic-v1'', t)"
      using t by (intro slash_segment) auto
    with True app show ?thesis
      by (subst from_string_loop.simps) (simp add: comp_text_def name_known alias_known ma_value_def)
  next
    case False
    let ?val = "value_text (c, v)"
    have seg: "multiaddr_read_text_segment (CHR ''/'' # ?val @ t) = Some (?val, t)"
      using t value_text_segment [OF valid] by (intro slash_segment) auto
    have name: "multiaddr_read_text_segment (CHR ''/'' # name_text c @ CHR ''/'' # ?val @ t) =
        Some (name_text c, CHR ''/'' # ?val @ t)"
      using valid by (intro slash_segment) (cases rule: ma_valid_cases, auto)
    have known: "name_text c \<noteq> []" "\<not> multiaddr_is_ipfs_alias (name_text c)"
      "multiaddr_find_protocol_by_name (name_text c) = multiaddr_find_protocol_by_code c"
      "\<exists>p. multiaddr_find_protocol_by_code c = Some p \<and> entry_code p = c"
      using valid False by (cases rule: ma_valid_cases; simp add: name_known alias_known)+
    then obtain p where p: "multiaddr_find_protocol_by_code c = Some p" "entry_code p = c" by blast
    show ?thesis
      using False name seg known(1-3) p app parse_component_text [OF pr False] value_text_nonempty [OF valid False]
      by (subst from_string_loop.simps) (simp add: comp_text_def ma_value_def del: name_text.simps)
  qed
qed

lemma from_string_loop_text:
  "list_all ma_printable cs \<Longrightarrow> length pre + length (ma_concat cs) + length post \<le> SIZE_MAX \<Longrightarrow>
   length room = length (ma_concat cs) \<Longrightarrow>
   from_string_loop (ma_text cs) MA_OK (length pre) (Buf (pre @ room @ post)) =
   Some (MA_OK, length pre + length (ma_concat cs), Buf (pre @ ma_concat cs @ post))"
proof (induction cs arbitrary: pre room)
  case Nil
  then show ?case by (subst from_string_loop.simps) simp
next
  case (Cons cv cs)
  obtain c v where cv: "cv = (c, v)" by (cases cv)
  have "from_string_loop (ma_text (cv # cs)) MA_OK (length pre) (Buf (pre @ room @ post)) =
      from_string_loop (ma_text cs) MA_OK (length (pre @ ma_bytes cv))
        (Buf ((pre @ ma_bytes cv) @ drop (length (ma_bytes cv)) room @ post))"
    using from_string_step [of c v "ma_text cs" "length pre" "pre @ room @ post"] Cons.prems ma_text_hd
    by (simp add: cv)
  also have "\<dots> = Some (MA_OK, length (pre @ ma_bytes cv) + length (ma_concat cs), Buf ((pre @ ma_bytes cv) @ ma_concat cs @ post))"
    using Cons.prems by (intro Cons.IH) simp_all
  finally show ?case by simp
qed

text \<open>
  Claim C5. The text form loses nothing: printing a nonempty valid multiaddr whose peer ids have at most
  128 bytes succeeds when the text fits the buffer, reports the length of the text, and parsing
  the printed text into a buffer that holds the result gives back exactly the bytes of the
  multiaddr. This covers the compression of IPv6 addresses and the \<open>Qm\<close> and \<open>1\<close> forms of peer ids.
\<close>

theorem text_roundtrip:
  assumes "list_all ma_printable cs" and "cs \<noteq> []"
    and "length (ma_text cs) \<le> length out" and "length out \<le> SIZE_MAX"
    and "length (ma_concat cs) \<le> length buf" and "length buf \<le> SIZE_MAX"
  shows "\<exists>n out'. libp2p_multiaddr_to_string (Buf (ma_concat cs)) (Buf out) = Some (MA_OK, n, Buf out') \<and>
    libp2p_multiaddr_from_string (Buf (take n out')) (Buf buf) =
      Some (MA_OK, length (ma_concat cs), Buf (ma_concat cs @ drop (length (ma_concat cs)) buf))"
proof -
  let ?t = "ma_text cs" and ?n = "length (ma_concat cs)"
  have "libp2p_multiaddr_to_string (Buf (ma_concat cs)) (Buf out) =
      Some (MA_OK, length ?t, Buf (?t @ drop (length ?t) out))"
    using assms(1,3,4) by (intro to_string_printable) simp_all
  moreover have "from_string_loop ?t MA_OK 0 (Buf buf) = Some (MA_OK, ?n, Buf (ma_concat cs @ drop ?n buf))"
    using from_string_loop_text [OF assms(1), of "[]" "drop ?n buf" "take ?n buf"] assms(5,6) by simp
  moreover have "?t \<noteq> [] \<and> ?t ! 0 = CHR ''/''" using assms(2) by (cases cs) (simp_all add: comp_text_def)
  ultimately show ?thesis
    by (intro exI [of _ "length ?t"] exI [of _ "?t @ drop (length ?t) out"])
      (simp add: libp2p_multiaddr_from_string_def del: length_concat concat_eq_Nil_conv)
qed

abbreviation quic_text :: string where
  "quic_text \<equiv> ''/udp/4321/quic-v1''"

lemma quic_udp_text: "ma_text quic_udp = quic_text"
  by (simp add: comp_text_def value_text_def dec_text.simps)

lemma quic_udp_length: "length (ma_concat quic_udp) \<le> 20"
proof -
  have "length (uvarint_bytes 273) \<le> 9 \<and> length (uvarint_bytes 461) \<le> 9"
    by (simp add: uvarint_length_9 [symmetric])
  then show ?thesis by (simp add: ma_bytes_def ma_codes)
qed

theorem text_roundtrip_witness:
  "\<exists>n out'. libp2p_multiaddr_to_string (Buf (ma_concat quic_udp)) (Buf (replicate 30 (CHR ''x''))) = Some (MA_OK, n, Buf out') \<and>
    libp2p_multiaddr_from_string (Buf (take n out')) (Buf (replicate 30 0)) =
      Some (MA_OK, length (ma_concat quic_udp), Buf (ma_concat quic_udp @ drop (length (ma_concat quic_udp)) (replicate 30 0)))"
proof (rule text_roundtrip)
  show "list_all ma_printable quic_udp" using quic_udp_valid by (simp add: ma_printable_def)
  show "length (ma_concat quic_udp) \<le> length (replicate 30 (0 :: byte))" using quic_udp_length by simp
  show "length (ma_text quic_udp) \<le> length (replicate 30 (CHR ''x''))" unfolding quic_udp_text by simp
qed (simp_all add: SIZE_MAX_def)

subsection \<open>Every parsed address is valid\<close>

lemma append_component_okD:
  assumes "libp2p_multiaddr_append_component c val (Buf buf) (Some start) = Some (MA_OK, pos', out')"
    and "length buf \<le> SIZE_MAX"
  shows "ma_valid (c, contents val) \<and> start + length (ma_bytes (c, contents val)) \<le> length buf \<and>
    pos' = Some (start + length (ma_bytes (c, contents val))) \<and>
    out' = Buf (take start buf @ ma_bytes (c, contents val) @ drop (start + length (ma_bytes (c, contents val))) buf)"
proof -
  from assms(1) obtain p where p: "multiaddr_find_protocol_by_code c = Some p" and ok: "multiaddr_value_ok p val"
    by (auto simp: libp2p_multiaddr_append_component_def split: option.splits if_splits)
  have v: "ma_valid (c, contents val)" "clen val = length (contents val)" using ok value_ok_iff [OF p] by simp_all
  then have shape: "ma_shape (c, contents val)" by (simp add: ma_valid_def)
  obtain cb where "libp2p_uvarint_encode c (Buf uvarint_scratch) = Some (LIBP2P_UVARINT_OK, length (uvarint_bytes (unat c)), Buf cb)"
    using uvarint_encode_scratch [OF ma_code_small [OF shape]] by blast
  then have fits: "start + length (ma_bytes (c, contents val)) \<le> length buf"
    using assms(1) p ok end_position [OF p shape, of start] v(2)
    by (auto simp: libp2p_multiaddr_append_component_def Let_def not_less split: if_splits)
  show ?thesis using append_component_ok [OF p v fits assms(2)] assms(1) v(1) fits by simp
qed

lemma from_string_append_okD:
  assumes "from_string_append c val MA_OK (Buf buf) start = Some (MA_OK, pos', out')" and "length buf \<le> SIZE_MAX"
  shows "ma_valid (c, contents val) \<and> pos' = start + length (ma_bytes (c, contents val)) \<and> pos' \<le> length buf \<and>
    out' = Buf (take start buf @ ma_bytes (c, contents val) @ drop pos' buf)"
  using assms append_component_okD [of c val buf start]
  by (auto simp: from_string_append_def Option.bind_eq_Some_conv)

lemma parse_text_component_err:
  "multiaddr_parse_text_component c t = Some (Inl e) \<Longrightarrow> e \<noteq> MA_OK"
  by (auto simp: multiaddr_parse_text_component_def Let_def split: if_splits option.splits)

lemma append_continue:
  assumes "do {
      (err, pos', out') \<leftarrow> from_string_append c val result out pos;
      (if err = LIBP2P_MULTIADDR_ERR_BUF_TOO_SMALL
       then from_string_loop rest' LIBP2P_MULTIADDR_ERR_BUF_TOO_SMALL pos' out'
       else if err \<noteq> MA_OK then Some (err, pos', out')
       else from_string_loop rest' result pos' out')
    } = Some (MA_OK, n, out2)"
  shows "\<exists>err pos1 out1. from_string_append c val result out pos = Some (err, pos1, out1) \<and>
    (err = LIBP2P_MULTIADDR_ERR_BUF_TOO_SMALL \<or> err = MA_OK) \<and>
    from_string_loop rest' (if err = MA_OK then result else err) pos1 out1 = Some (MA_OK, n, out2)"
proof -
  obtain err pos1 out1 where "from_string_append c val result out pos = Some (err, pos1, out1)"
    using assms by (cases "from_string_append c val result out pos") auto
  with assms show ?thesis by (intro exI [of _ err] exI [of _ pos1] exI [of _ out1]) (simp split: if_splits)
qed

text \<open>One iteration of a run that succeeds.\<close>

lemma from_string_loop_okE:
  assumes "from_string_loop rest result pos out = Some (MA_OK, n, out')" and "rest \<noteq> []"
  obtains c val err pos1 out1 rest' where "from_string_append c val result out pos = Some (err, pos1, out1)"
    and "err = LIBP2P_MULTIADDR_ERR_BUF_TOO_SMALL \<or> err = MA_OK" and "length rest' < length rest"
    and "from_string_loop rest' (if err = MA_OK then result else err) pos1 out1 = Some (MA_OK, n, out')"
proof -
  note run = assms(1) [unfolded from_string_loop.simps [of rest] if_not_P [OF assms(2)]]
  obtain nm rest1 where seg: "multiaddr_read_text_segment rest = Some (nm, rest1)"
    using run by (cases "multiaddr_read_text_segment rest") auto
  have nm: "nm \<noteq> []" using run seg by auto
  let ?p = "if multiaddr_is_ipfs_alias nm then multiaddr_find_protocol_by_code LIBP2P_MULTIADDR_CODE_P2P
    else multiaddr_find_protocol_by_name nm"
  obtain p where p: "?p = Some p" using run seg nm by (cases ?p) auto
  show thesis
  proof (cases "entry_code p = LIBP2P_MULTIADDR_CODE_QUIC_V1")
    case True
    have "\<exists>err pos1 out1. from_string_append (entry_code p) (Null 0) result out pos = Some (err, pos1, out1) \<and>
        (err = LIBP2P_MULTIADDR_ERR_BUF_TOO_SMALL \<or> err = MA_OK) \<and>
        from_string_loop rest1 (if err = MA_OK then result else err) pos1 out1 = Some (MA_OK, n, out')"
      using run True nm unfolding seg option.case prod.case p by (intro append_continue) simp
    then show thesis using that read_text_segment_less [OF seg] by blast
  next
    case False
    obtain chars rest2 where seg2: "multiaddr_read_text_segment rest1 = Some (chars, rest2)"
      using run False nm unfolding seg option.case prod.case p by (cases "multiaddr_read_text_segment rest1") auto
    have "chars \<noteq> []" using run False nm unfolding seg seg2 option.case prod.case p by auto
    then obtain val where val: "multiaddr_parse_text_component (entry_code p) chars = Some (Inr val)"
      using run False nm parse_text_component_err [of "entry_code p" chars] unfolding seg seg2 option.case prod.case p
      by (cases "multiaddr_parse_text_component (entry_code p) chars"; cases "the (multiaddr_parse_text_component (entry_code p) chars)") auto
    have "\<exists>err pos1 out1. from_string_append (entry_code p) (Buf val) result out pos = Some (err, pos1, out1) \<and>
        (err = LIBP2P_MULTIADDR_ERR_BUF_TOO_SMALL \<or> err = MA_OK) \<and>
        from_string_loop rest2 (if err = MA_OK then result else err) pos1 out1 = Some (MA_OK, n, out')"
      using run False nm \<open>chars \<noteq> []\<close> val unfolding seg seg2 option.case prod.case p by (intro append_continue) simp
    moreover have "length rest2 < length rest"
      using read_text_segment_less [OF seg] read_text_segment_less [OF seg2] by simp
    ultimately show thesis using that by blast
  qed
qed

lemma from_string_loop_small:
  "result \<noteq> MA_OK \<Longrightarrow> from_string_loop rest result pos out \<noteq> Some (MA_OK, n, out')"
proof (induction rest arbitrary: result pos out rule: length_induct)
  case (1 rest)
  show ?case
  proof
    assume ok: "from_string_loop rest result pos out = Some (MA_OK, n, out')"
    then have "rest \<noteq> []" using 1(2) by (auto simp: from_string_loop.simps [of "[]"])
    with ok obtain err pos1 out1 rest' where "length rest' < length rest"
      "from_string_loop rest' (if err = MA_OK then result else err) pos1 out1 = Some (MA_OK, n, out')"
      by (rule from_string_loop_okE)
    with 1 show False by auto
  qed
qed

lemma from_string_loop_valid:
  "from_string_loop rest MA_OK pos (Buf buf) = Some (MA_OK, n, out') \<Longrightarrow> length buf \<le> SIZE_MAX \<Longrightarrow>
   pos \<le> length buf \<Longrightarrow> list_all ma_valid cs \<Longrightarrow> take pos buf = ma_concat cs \<Longrightarrow>
   \<exists>buf' cs'. out' = Buf buf' \<and> length buf' = length buf \<and> n \<le> length buf \<and>
     list_all ma_valid cs' \<and> take n buf' = ma_concat cs'"
proof (induction rest arbitrary: pos buf cs rule: length_induct)
  case (1 rest)
  show ?case
  proof (cases "rest = []")
    case True
    with 1 show ?thesis by (auto simp: from_string_loop.simps [of "[]"])
  next
    case False
    from 1(2) False obtain c val err pos1 out1 rest' where
      app: "from_string_append c val MA_OK (Buf buf) pos = Some (err, pos1, out1)" and
      err: "err = LIBP2P_MULTIADDR_ERR_BUF_TOO_SMALL \<or> err = MA_OK" and less: "length rest' < length rest" and
      loop: "from_string_loop rest' (if err = MA_OK then MA_OK else err) pos1 out1 = Some (MA_OK, n, out')"
      by (rule from_string_loop_okE)
    have "err = MA_OK" using loop from_string_loop_small [of err rest' pos1 out1 n out'] by (auto split: if_splits)
    note a = from_string_append_okD [OF app [unfolded this] 1(3)]
    let ?v = "(c, contents val)" and ?buf = "take pos buf @ ma_bytes (c, contents val) @ drop pos1 buf"
    have len: "length ?buf = length buf" "pos1 \<le> length buf" using a 1(4) by auto
    have "length (ma_concat cs) = pos" using 1(4,6) by (metis length_take min.absorb2)
    then have tk: "take pos1 ?buf = ma_concat (cs @ [?v])" unfolding 1(6) using a by simp
    have run: "from_string_loop rest' MA_OK pos1 (Buf ?buf) = Some (MA_OK, n, out')" using loop \<open>err = MA_OK\<close> a by simp
    have valid: "list_all ma_valid (cs @ [?v])" and small: "length ?buf \<le> SIZE_MAX" and inside: "pos1 \<le> length ?buf"
      unfolding len(1) using a 1(3,5) by simp_all
    from 1(1) [rule_format, OF less run small inside valid tk]
    show ?thesis unfolding len(1) .
  qed
qed

text \<open>
  Claim C20. Only valid addresses come out of the text parser: whenever \<open>libp2p_multiaddr_from_string\<close>
  succeeds on any text, the bytes it reports as written lie inside the buffer and form a multiaddr
  that \<open>libp2p_multiaddr_validate\<close> accepts.
\<close>

theorem from_string_valid:
  assumes "libp2p_multiaddr_from_string (Buf t) (Buf buf) = Some (MA_OK, n, out')" and "length buf \<le> SIZE_MAX"
  shows "\<exists>buf'. out' = Buf buf' \<and> length buf' = length buf \<and> n \<le> length buf \<and>
    libp2p_multiaddr_validate (Buf (take n buf')) = MA_OK"
proof -
  have "from_string_loop t MA_OK 0 (Buf buf) = Some (MA_OK, n, out')"
    using assms(1) by (simp add: libp2p_multiaddr_from_string_def split: if_splits)
  from from_string_loop_valid [OF this assms(2), of "[]"] show ?thesis
    using validate_concat_iff by auto
qed

theorem from_string_valid_witness:
  "\<exists>n buf'. libp2p_multiaddr_from_string (Buf quic_text) (Buf (replicate 30 0)) = Some (MA_OK, n, Buf buf') \<and>
    libp2p_multiaddr_validate (Buf (take n buf')) = MA_OK"
proof -
  let ?n = "length (ma_concat quic_udp)"
  have pr: "list_all ma_printable quic_udp" using quic_udp_valid by (simp add: ma_printable_def)
  have "length [] + ?n + length (replicate (30 - ?n) (0 :: byte)) \<le> SIZE_MAX"
    using quic_udp_length by (simp add: SIZE_MAX_def)
  note run = from_string_loop_text [OF pr, of "[]" "replicate (30 - ?n) 0", OF this, of "replicate ?n 0"]
  have "replicate ?n (0 :: byte) @ replicate (30 - ?n) 0 = replicate 30 0"
    unfolding replicate_add [symmetric] using quic_udp_length by simp
  then have "from_string_loop quic_text MA_OK 0 (Buf (replicate 30 0)) =
      Some (MA_OK, ?n, Buf (ma_concat quic_udp @ replicate (30 - ?n) 0))"
    using run unfolding quic_udp_text by simp
  then have "libp2p_multiaddr_from_string (Buf quic_text) (Buf (replicate 30 0)) =
      Some (MA_OK, ?n, Buf (ma_concat quic_udp @ replicate (30 - ?n) 0))"
    by (simp add: libp2p_multiaddr_from_string_def)
  from this from_string_valid [OF this] show ?thesis by (auto simp: SIZE_MAX_def)
qed

end
