(* ===== verification/Gossipsub_Wire.thy ===== *)
theory Gossipsub_Wire
  imports Uvarint
begin

text \<open>
  The wire layer of gossipsub: \<open>src/src/protocol/gossipsub/gossipsub_util.c\<close> (checked size
  arithmetic, the offsets of the storage slab, error conversions),
  \<open>gossipsub_codec_wire.c\<close> (protobuf keys, varint and length-delimited fields, the limits) and
  the public types of \<open>include/protocol/gossipsub/gossipsub.h\<close> that they use.

  A \<open>libp2p_gossipsub_bytes_t\<close> is a \<open>byte cbuf\<close>, zeroed memory is \<open>Null 0\<close>. A function that fails
  without storing anything its caller reads afterwards returns \<open>Inl\<close> of the error code; a
  writer returns the error code with the position and the contents of the output buffer, or
  \<open>None\<close> when a store would leave the buffer. The writers and readers of this layer are internal:
  every caller hands them the addresses of its own locals and a buffer it has tested, so their
  tests of \<open>out\<close>, \<open>pos\<close> and \<open>total\<close> against \<open>NULL\<close> have no counterpart here.

  The loop over the fields of a protobuf message is the same in every decoder, and is written
  once as \<open>decode_fields\<close>: it reads a key, asks the decoder what to do with that field, and
  performs the action. Each iteration consumes the key, which is its termination argument.
\<close>

subsection \<open>Types and constants\<close>

datatype libp2p_gossipsub_err_t =
    LIBP2P_GOSSIPSUB_OK
  | LIBP2P_GOSSIPSUB_ERR_INVALID_ARG
  | LIBP2P_GOSSIPSUB_ERR_BUF_TOO_SMALL
  | LIBP2P_GOSSIPSUB_ERR_WOULD_BLOCK
  | LIBP2P_GOSSIPSUB_ERR_MALFORMED
  | LIBP2P_GOSSIPSUB_ERR_TRUNCATED
  | LIBP2P_GOSSIPSUB_ERR_LIMIT
  | LIBP2P_GOSSIPSUB_ERR_STATE
  | LIBP2P_GOSSIPSUB_ERR_UNSUPPORTED_VERSION
  | LIBP2P_GOSSIPSUB_ERR_NOT_FOUND
  | LIBP2P_GOSSIPSUB_ERR_DUPLICATE
  | LIBP2P_GOSSIPSUB_ERR_HOST
  | LIBP2P_GOSSIPSUB_ERR_RANDOM
  | LIBP2P_GOSSIPSUB_ERR_INTERNAL

datatype libp2p_gossipsub_protocol_version_t =
    LIBP2P_GOSSIPSUB_VERSION_NONE
  | LIBP2P_GOSSIPSUB_VERSION_11
  | LIBP2P_GOSSIPSUB_VERSION_12

datatype libp2p_host_err_t =
    LIBP2P_HOST_OK
  | LIBP2P_HOST_ERR_INVALID_ARG
  | LIBP2P_HOST_ERR_BUF_TOO_SMALL
  | LIBP2P_HOST_ERR_UNSUPPORTED
  | LIBP2P_HOST_ERR_STATE
  | LIBP2P_HOST_ERR_WOULD_BLOCK
  | LIBP2P_HOST_ERR_LIMIT
  | LIBP2P_HOST_ERR_NOT_FOUND
  | LIBP2P_HOST_ERR_CLOSED
  | LIBP2P_HOST_ERR_ADDR
  | LIBP2P_HOST_ERR_IDENTITY
  | LIBP2P_HOST_ERR_TRANSPORT
  | LIBP2P_HOST_ERR_NEGOTIATION
  | LIBP2P_HOST_ERR_PROTOCOL
  | LIBP2P_HOST_ERR_INTERNAL

type_synonym gbytes = "byte cbuf"
type_synonym 'a gresult = "libp2p_gossipsub_err_t + 'a"
type_synonym gwriter = "(libp2p_gossipsub_err_t \<times> nat \<times> byte list) option"

record libp2p_gossipsub_limits_t =
  max_rpc_bytes :: nat
  max_message_data_bytes :: nat
  max_topic_bytes :: nat
  max_message_id_bytes :: nat
  max_signed_peer_record_bytes :: nat
  max_subscriptions_per_rpc :: nat
  max_publish_per_rpc :: nat
  max_ihave_per_rpc :: nat
  max_iwant_per_rpc :: nat
  max_graft_per_rpc :: nat
  max_prune_per_rpc :: nat
  max_idontwant_per_rpc :: nat
  max_message_ids_per_rpc :: nat
  max_px_peers_per_rpc :: nat

definition LIBP2P_GOSSIPSUB_DEFAULT_MAX_TOPIC_BYTES :: nat where
  "LIBP2P_GOSSIPSUB_DEFAULT_MAX_TOPIC_BYTES = 256"

definition LIBP2P_GOSSIPSUB_DEFAULT_MAX_MESSAGE_ID_BYTES :: nat where
  "LIBP2P_GOSSIPSUB_DEFAULT_MAX_MESSAGE_ID_BYTES = 128"

definition LIBP2P_GOSSIPSUB_DEFAULT_MAX_SIGNED_PEER_REC_BYTES :: nat where
  "LIBP2P_GOSSIPSUB_DEFAULT_MAX_SIGNED_PEER_REC_BYTES = 512"

definition GOSSIPSUB_WIRE_VARINT :: u32 where "GOSSIPSUB_WIRE_VARINT = 0"
definition GOSSIPSUB_WIRE_FIXED64 :: u32 where "GOSSIPSUB_WIRE_FIXED64 = 1"
definition GOSSIPSUB_WIRE_LEN :: u32 where "GOSSIPSUB_WIRE_LEN = 2"
definition GOSSIPSUB_WIRE_FIXED32 :: u32 where "GOSSIPSUB_WIRE_FIXED32 = 5"

lemmas gossipsub_wire_defs =
  GOSSIPSUB_WIRE_VARINT_def GOSSIPSUB_WIRE_FIXED64_def GOSSIPSUB_WIRE_LEN_def
  GOSSIPSUB_WIRE_FIXED32_def

subsection \<open>Size arithmetic and error conversions\<close>

text \<open>The first component is the returned flag, the second the value stored through \<open>out\<close>.\<close>

definition gossipsub_size_add :: "nat \<Rightarrow> nat \<Rightarrow> bool \<times> nat" where
  "gossipsub_size_add a b = (if b > SIZE_MAX - a then (True, SIZE_MAX) else (False, a + b))"

definition gossipsub_size_mul :: "nat \<Rightarrow> nat \<Rightarrow> bool \<times> nat" where
  "gossipsub_size_mul a b =
     (if a \<noteq> 0 \<and> b > SIZE_MAX div a then (True, SIZE_MAX) else (False, a * b))"

definition gossipsub_align_up :: "nat \<Rightarrow> nat \<Rightarrow> nat gresult" where
  "gossipsub_align_up v alignment =
     (if alignment = 0 then Inl LIBP2P_GOSSIPSUB_ERR_INVALID_ARG
      else let remainder = v mod alignment in
        if remainder = 0 then Inr v
        else let adjustment = alignment - remainder in
          if adjustment > SIZE_MAX - v then Inl LIBP2P_GOSSIPSUB_ERR_LIMIT
          else Inr (v + adjustment))"

text \<open>The offset of the reserved block and the advanced cursor.\<close>

definition gossipsub_reserve :: "nat \<Rightarrow> nat \<Rightarrow> nat \<Rightarrow> (nat \<times> nat) gresult" where
  "gossipsub_reserve cursor alignment size_bytes =
     (case gossipsub_align_up cursor alignment of
        Inl e \<Rightarrow> Inl e
      | Inr aligned \<Rightarrow>
          (case gossipsub_size_add aligned size_bytes of
             (True, next) \<Rightarrow> Inl LIBP2P_GOSSIPSUB_ERR_LIMIT
           | (False, next) \<Rightarrow> Inr (aligned, next)))"

definition gossipsub_bytes_present :: "gbytes \<Rightarrow> bool" where
  "gossipsub_bytes_present bytes = (\<not> is_null bytes \<and> clen bytes \<noteq> 0)"

definition gossipsub_bytes_equal :: "gbytes \<Rightarrow> gbytes \<Rightarrow> bool" where
  "gossipsub_bytes_equal left right =
     (\<not> is_null left \<and> \<not> is_null right \<and> clen left = clen right \<and>
      (clen left = 0 \<or> contents left = contents right))"

fun gossipsub_uvarint_err :: "libp2p_uvarint_err_t \<Rightarrow> libp2p_gossipsub_err_t" where
  "gossipsub_uvarint_err LIBP2P_UVARINT_OK = LIBP2P_GOSSIPSUB_OK"
| "gossipsub_uvarint_err LIBP2P_UVARINT_ERR_BUF_TOO_SMALL = LIBP2P_GOSSIPSUB_ERR_BUF_TOO_SMALL"
| "gossipsub_uvarint_err LIBP2P_UVARINT_ERR_TRUNCATED = LIBP2P_GOSSIPSUB_ERR_TRUNCATED"
| "gossipsub_uvarint_err _ = LIBP2P_GOSSIPSUB_ERR_MALFORMED"

fun gossipsub_host_err :: "libp2p_gossipsub_err_t \<Rightarrow> libp2p_host_err_t" where
  "gossipsub_host_err LIBP2P_GOSSIPSUB_OK = LIBP2P_HOST_OK"
| "gossipsub_host_err LIBP2P_GOSSIPSUB_ERR_INVALID_ARG = LIBP2P_HOST_ERR_INVALID_ARG"
| "gossipsub_host_err LIBP2P_GOSSIPSUB_ERR_BUF_TOO_SMALL = LIBP2P_HOST_ERR_BUF_TOO_SMALL"
| "gossipsub_host_err LIBP2P_GOSSIPSUB_ERR_LIMIT = LIBP2P_HOST_ERR_LIMIT"
| "gossipsub_host_err LIBP2P_GOSSIPSUB_ERR_WOULD_BLOCK = LIBP2P_HOST_ERR_WOULD_BLOCK"
| "gossipsub_host_err _ = LIBP2P_HOST_ERR_PROTOCOL"

fun gossipsub_host_to_err :: "libp2p_host_err_t \<Rightarrow> libp2p_gossipsub_err_t" where
  "gossipsub_host_to_err LIBP2P_HOST_OK = LIBP2P_GOSSIPSUB_OK"
| "gossipsub_host_to_err LIBP2P_HOST_ERR_INVALID_ARG = LIBP2P_GOSSIPSUB_ERR_INVALID_ARG"
| "gossipsub_host_to_err LIBP2P_HOST_ERR_BUF_TOO_SMALL = LIBP2P_GOSSIPSUB_ERR_BUF_TOO_SMALL"
| "gossipsub_host_to_err LIBP2P_HOST_ERR_LIMIT = LIBP2P_GOSSIPSUB_ERR_LIMIT"
| "gossipsub_host_to_err LIBP2P_HOST_ERR_WOULD_BLOCK = LIBP2P_GOSSIPSUB_ERR_WOULD_BLOCK"
| "gossipsub_host_to_err LIBP2P_HOST_ERR_NOT_FOUND = LIBP2P_GOSSIPSUB_ERR_NOT_FOUND"
| "gossipsub_host_to_err _ = LIBP2P_GOSSIPSUB_ERR_HOST"

subsection \<open>Writers\<close>

definition gossipsub_key :: "u32 \<Rightarrow> u32 \<Rightarrow> u64" where
  "gossipsub_key field wire = push_bit 3 (ucast field) OR ucast wire"

text \<open>
  The statement \<open>if (result == OK) { result = next; }\<close> after a call that computed a value, and
  after a call that wrote.
\<close>

definition ok_then :: "'a gresult \<Rightarrow> ('a \<Rightarrow> 'b gresult) \<Rightarrow> 'b gresult" where
  "ok_then r f = (case r of Inl e \<Rightarrow> Inl e | Inr x \<Rightarrow> f x)"

definition w_then :: "gwriter \<Rightarrow> (nat \<Rightarrow> byte list \<Rightarrow> gwriter) \<Rightarrow> gwriter" where
  "w_then m f = do {
     (result, pos, out) \<leftarrow> m;
     (if result = LIBP2P_GOSSIPSUB_OK then f pos out else Some (result, pos, out))
   }"

definition gossipsub_write_uvarint :: "u64 \<Rightarrow> byte list \<Rightarrow> nat \<Rightarrow> gwriter" where
  "gossipsub_write_uvarint v out pos =
     (if pos > length out then Some (LIBP2P_GOSSIPSUB_ERR_INVALID_ARG, pos, out)
      else do {
        (err, written, part) \<leftarrow> libp2p_uvarint_encode v (Buf (drop pos out));
        let result = gossipsub_uvarint_err err;
        let out' = take pos out @ contents part;
        Some (result, (if result = LIBP2P_GOSSIPSUB_OK then pos + written else pos), out')
      })"

definition gossipsub_write_len_field :: "u32 \<Rightarrow> gbytes \<Rightarrow> byte list \<Rightarrow> nat \<Rightarrow> gwriter" where
  "gossipsub_write_len_field field data out pos =
     (if is_null data \<and> clen data \<noteq> 0 then Some (LIBP2P_GOSSIPSUB_ERR_INVALID_ARG, pos, out)
      else
        w_then (gossipsub_write_uvarint (gossipsub_key field GOSSIPSUB_WIRE_LEN) out pos)
          (\<lambda>pos out. w_then (gossipsub_write_uvarint (of_nat (clen data)) out pos)
          (\<lambda>pos out.
             if clen data > length out - pos
             then Some (LIBP2P_GOSSIPSUB_ERR_BUF_TOO_SMALL, pos, out)
             else do {
               out' \<leftarrow> memcpy_at out pos (contents data);
               Some (LIBP2P_GOSSIPSUB_OK, pos + clen data, out')
             })))"

definition gossipsub_write_varint_field :: "u32 \<Rightarrow> u64 \<Rightarrow> byte list \<Rightarrow> nat \<Rightarrow> gwriter" where
  "gossipsub_write_varint_field field v out pos =
     w_then (gossipsub_write_uvarint (gossipsub_key field GOSSIPSUB_WIRE_VARINT) out pos)
       (\<lambda>pos out. gossipsub_write_uvarint v out pos)"

definition gossipsub_write_len_prefix :: "u32 \<Rightarrow> nat \<Rightarrow> byte list \<Rightarrow> nat \<Rightarrow> gwriter" where
  "gossipsub_write_len_prefix field data_len out pos =
     w_then (gossipsub_write_uvarint (gossipsub_key field GOSSIPSUB_WIRE_LEN) out pos)
       (\<lambda>pos out. gossipsub_write_uvarint (of_nat data_len) out pos)"

text \<open>The size of a field added to \<open>total\<close>; for a varint field \<open>data_len\<close> is its value.\<close>

definition gossipsub_field_size :: "u32 \<Rightarrow> u32 \<Rightarrow> nat \<Rightarrow> nat \<Rightarrow> nat gresult" where
  "gossipsub_field_size field wire data_len total0 =
     (let head = libp2p_uvarint_size (gossipsub_key field wire) +
                 libp2p_uvarint_size (of_nat data_len)
      in if wire = GOSSIPSUB_WIRE_LEN then
           (case gossipsub_size_add total0 head of
              (True, _) \<Rightarrow> Inl LIBP2P_GOSSIPSUB_ERR_LIMIT
            | (False, next) \<Rightarrow>
                (case gossipsub_size_add next data_len of
                   (True, _) \<Rightarrow> Inl LIBP2P_GOSSIPSUB_ERR_LIMIT
                 | (False, total0') \<Rightarrow> Inr total0'))
         else
           (case gossipsub_size_add total0 head of
              (True, _) \<Rightarrow> Inl LIBP2P_GOSSIPSUB_ERR_LIMIT
            | (False, total0') \<Rightarrow> Inr total0'))"

subsection \<open>Readers\<close>

text \<open>A reader returns the advanced position with what it read.\<close>

definition gossipsub_read_uvarint :: "byte list \<Rightarrow> nat \<Rightarrow> (nat \<times> u64) gresult" where
  "gossipsub_read_uvarint inp pos =
     (if pos > length inp then Inl LIBP2P_GOSSIPSUB_ERR_INVALID_ARG
      else case libp2p_uvarint_decode (Buf (drop pos inp)) of
        (err, v, read_len) \<Rightarrow>
          (let result = gossipsub_uvarint_err err in
           if result = LIBP2P_GOSSIPSUB_OK then Inr (pos + read_len, v) else Inl result))"

definition gossipsub_skip_field :: "u32 \<Rightarrow> byte list \<Rightarrow> nat \<Rightarrow> nat gresult" where
  "gossipsub_skip_field wire inp pos =
     (if pos > length inp then Inl LIBP2P_GOSSIPSUB_ERR_INVALID_ARG
      else if wire = GOSSIPSUB_WIRE_VARINT then
        (case gossipsub_read_uvarint inp pos of Inl e \<Rightarrow> Inl e | Inr (pos', _) \<Rightarrow> Inr pos')
      else if wire = GOSSIPSUB_WIRE_LEN then
        (case gossipsub_read_uvarint inp pos of
           Inl e \<Rightarrow> Inl e
         | Inr (pos', ignored) \<Rightarrow>
             (if unat ignored > length inp - pos' then Inl LIBP2P_GOSSIPSUB_ERR_TRUNCATED
              else Inr (pos' + unat ignored)))
      else if wire = GOSSIPSUB_WIRE_FIXED64 then
        (if length inp - pos < 8 then Inl LIBP2P_GOSSIPSUB_ERR_TRUNCATED else Inr (pos + 8))
      else if wire = GOSSIPSUB_WIRE_FIXED32 then
        (if length inp - pos < 4 then Inl LIBP2P_GOSSIPSUB_ERR_TRUNCATED else Inr (pos + 4))
      else Inl LIBP2P_GOSSIPSUB_ERR_MALFORMED)"

definition gossipsub_read_len_span :: "byte list \<Rightarrow> nat \<Rightarrow> (nat \<times> gbytes) gresult" where
  "gossipsub_read_len_span inp pos =
     (if pos > length inp then Inl LIBP2P_GOSSIPSUB_ERR_INVALID_ARG
      else case gossipsub_read_uvarint inp pos of
        Inl e \<Rightarrow> Inl e
      | Inr (pos', len) \<Rightarrow>
          (if unat len > length inp - pos' then Inl LIBP2P_GOSSIPSUB_ERR_TRUNCATED
           else Inr (pos' + unat len, Buf (take (unat len) (drop pos' inp)))))"

text \<open>
  What the body of a decoder's loop does with a field: skip it and go on as given, read a varint
  or a span and go on with it, or refuse the message before reading.
\<close>

datatype 's field_action =
    Skip_field "'s gresult"
  | Read_uvarint "u64 \<Rightarrow> 's gresult"
  | Read_len_span "gbytes \<Rightarrow> 's gresult"
  | Refuse libp2p_gossipsub_err_t

fun perform :: "'s field_action \<Rightarrow> u32 \<Rightarrow> byte list \<Rightarrow> nat \<Rightarrow> (nat \<times> 's) gresult" where
  "perform (Skip_field r) wire inp pos =
     (case gossipsub_skip_field wire inp pos of
        Inl e \<Rightarrow> Inl e | Inr pos' \<Rightarrow> (case r of Inl e \<Rightarrow> Inl e | Inr s \<Rightarrow> Inr (pos', s)))"
| "perform (Read_uvarint f) wire inp pos =
     (case gossipsub_read_uvarint inp pos of
        Inl e \<Rightarrow> Inl e | Inr (pos', v) \<Rightarrow> (case f v of Inl e \<Rightarrow> Inl e | Inr s \<Rightarrow> Inr (pos', s)))"
| "perform (Read_len_span f) wire inp pos =
     (case gossipsub_read_len_span inp pos of
        Inl e \<Rightarrow> Inl e | Inr (pos', b) \<Rightarrow> (case f b of Inl e \<Rightarrow> Inl e | Inr s \<Rightarrow> Inr (pos', s)))"
| "perform (Refuse e) wire inp pos = Inl e"

lemma read_uvarint_progress:
  "gossipsub_read_uvarint inp pos = Inr (pos', v) \<Longrightarrow> pos < pos' \<and> pos' \<le> length inp"
  by (auto simp: gossipsub_read_uvarint_def Let_def split: if_splits prod.splits
      elim!: gossipsub_uvarint_err.elims
      dest: uvarint_decode_read_bounds uvarint_decode_ok(3))

lemma skip_field_progress:
  "gossipsub_skip_field wire inp pos = Inr pos' \<Longrightarrow> pos < pos' \<and> pos' \<le> length inp"
  by (auto simp: gossipsub_skip_field_def split: if_splits sum.splits
      dest!: read_uvarint_progress)

lemma read_len_span_progress:
  "gossipsub_read_len_span inp pos = Inr (pos', b) \<Longrightarrow> pos < pos' \<and> pos' \<le> length inp"
  by (auto simp: gossipsub_read_len_span_def split: if_splits sum.splits
      dest!: read_uvarint_progress)

lemma perform_progress:
  "perform a wire inp pos = Inr (pos', s) \<Longrightarrow> pos < pos' \<and> pos' \<le> length inp"
  by (cases a) (auto split: sum.splits
      dest: read_uvarint_progress skip_field_progress read_len_span_progress)

text \<open>
  The loop \<open>while ((result == OK) && (pos < in_len))\<close>: \<open>act s field wire\<close> is the action for a field
  when the output has the value \<open>s\<close>. The field number is \<open>(uint32_t)(key >> 3)\<close>, which drops the
  upper bits of the key.
\<close>

function decode_fields ::
  "('s \<Rightarrow> u32 \<Rightarrow> u32 \<Rightarrow> 's field_action) \<Rightarrow> byte list \<Rightarrow> nat \<Rightarrow> 's \<Rightarrow> 's gresult" where
  "decode_fields act inp pos s =
     (if pos < length inp then
        (case gossipsub_read_uvarint inp pos of
           Inl e \<Rightarrow> Inl e
         | Inr (pos1, key) \<Rightarrow>
             (let field = (ucast (drop_bit 3 key) :: u32);
                  wire = (ucast (key AND 7) :: u32)
              in case perform (act s field wire) wire inp pos1 of
                   Inl e \<Rightarrow> Inl e
                 | Inr (pos2, s') \<Rightarrow> decode_fields act inp pos2 s'))
      else Inr s)"
  by pat_completeness auto
termination
  by (relation "measure (\<lambda>(act, inp, pos, s). length inp - pos)")
    (auto dest!: read_uvarint_progress perform_progress)

declare decode_fields.simps [simp del]

subsection \<open>Limits and versions\<close>

definition gossipsub_limits_validate ::
  "libp2p_gossipsub_limits_t option \<Rightarrow> libp2p_gossipsub_err_t" where
  "gossipsub_limits_validate limits =
     (case limits of
        None \<Rightarrow> LIBP2P_GOSSIPSUB_ERR_INVALID_ARG
      | Some l \<Rightarrow>
          if max_rpc_bytes l = 0 \<or> max_message_data_bytes l > max_rpc_bytes l \<or>
             max_topic_bytes l = 0 \<or>
             max_topic_bytes l > LIBP2P_GOSSIPSUB_DEFAULT_MAX_TOPIC_BYTES \<or>
             max_message_id_bytes l = 0 \<or>
             max_message_id_bytes l > LIBP2P_GOSSIPSUB_DEFAULT_MAX_MESSAGE_ID_BYTES \<or>
             max_signed_peer_record_bytes l > LIBP2P_GOSSIPSUB_DEFAULT_MAX_SIGNED_PEER_REC_BYTES \<or>
             max_subscriptions_per_rpc l = 0 \<or> max_publish_per_rpc l = 0 \<or>
             max_ihave_per_rpc l = 0 \<or> max_iwant_per_rpc l = 0 \<or> max_graft_per_rpc l = 0 \<or>
             max_prune_per_rpc l = 0 \<or> max_idontwant_per_rpc l = 0 \<or>
             max_message_ids_per_rpc l = 0
          then LIBP2P_GOSSIPSUB_ERR_LIMIT
          else LIBP2P_GOSSIPSUB_OK)"

definition gossipsub_version_validate ::
  "libp2p_gossipsub_protocol_version_t \<Rightarrow> libp2p_gossipsub_err_t" where
  "gossipsub_version_validate version =
     (if version \<noteq> LIBP2P_GOSSIPSUB_VERSION_11 \<and> version \<noteq> LIBP2P_GOSSIPSUB_VERSION_12
      then LIBP2P_GOSSIPSUB_ERR_UNSUPPORTED_VERSION else LIBP2P_GOSSIPSUB_OK)"

end
