(* ===== verification/Gossipsub_Codec.thy ===== *)
theory Gossipsub_Codec
  imports Gossipsub_Wire
begin

text \<open>
  The RPC codec of gossipsub, from the files \<open>gossipsub_codec_message.c\<close>,
  \<open>gossipsub_codec_control_advert.c\<close>, \<open>gossipsub_codec_control_payload.c\<close>,
  \<open>gossipsub_codec_control.c\<close> and \<open>gossipsub_codec_rpc.c\<close> of \<open>src/src/protocol/gossipsub/\<close>.

  An array with its count is a list; an array of message ids, whose pointer the code tests, is a
  \<open>cbuf\<close> of byte spans. Of the decode storage the model keeps the capacities: the decoders
  fill the caller's arrays front to back within one control section, so that the part of an array
  which a decoded structure refers to holds the values its decoder appended, and they never read
  an array back. A second control section in one body starts again at the front of the arrays
  and also replaces the whole control section of the result, as it does here. What a failing
  decoder leaves behind in the arrays is not described.
\<close>

subsection \<open>Messages\<close>

record libp2p_gossipsub_message_t =
  msg_from :: gbytes
  msg_data :: gbytes
  msg_seqno :: gbytes
  msg_topic :: gbytes
  msg_signature :: gbytes
  msg_key :: gbytes
  raw_message :: gbytes

record libp2p_gossipsub_rpc_subscription_t =
  sub_topic :: gbytes
  sub_subscribe :: byte

record libp2p_gossipsub_peer_info_t =
  pi_peer_id :: gbytes
  pi_signed_peer_record :: gbytes

record libp2p_gossipsub_control_ihave_t =
  ihave_topic :: gbytes
  ihave_message_ids :: "gbytes cbuf"

record libp2p_gossipsub_control_iwant_t =
  iwant_message_ids :: "gbytes cbuf"

record libp2p_gossipsub_control_graft_t =
  graft_topic :: gbytes

record libp2p_gossipsub_control_prune_t =
  prune_topic :: gbytes
  prune_peers :: "libp2p_gossipsub_peer_info_t list"
  prune_backoff_seconds :: u64

record libp2p_gossipsub_control_idontwant_t =
  idontwant_message_ids :: "gbytes cbuf"

record libp2p_gossipsub_rpc_control_t =
  ctl_ihave :: "libp2p_gossipsub_control_ihave_t list"
  ctl_iwant :: "libp2p_gossipsub_control_iwant_t list"
  ctl_graft :: "libp2p_gossipsub_control_graft_t list"
  ctl_prune :: "libp2p_gossipsub_control_prune_t list"
  ctl_idontwant :: "libp2p_gossipsub_control_idontwant_t list"

record libp2p_gossipsub_rpc_t =
  rpc_subscriptions :: "libp2p_gossipsub_rpc_subscription_t list"
  rpc_publish :: "libp2p_gossipsub_message_t list"
  rpc_control :: libp2p_gossipsub_rpc_control_t

record libp2p_gossipsub_rpc_decode_storage_t =
  subscription_capacity :: nat
  publish_capacity :: nat
  ihave_capacity :: nat
  iwant_capacity :: nat
  graft_capacity :: nat
  prune_capacity :: nat
  idontwant_capacity :: nat
  message_id_capacity :: nat
  peer_info_capacity :: nat
  peer_infos_given :: bool

record gossipsub_decode_cursor_t =
  message_id_next :: nat
  peer_info_next :: nat

definition GOSSIPSUB_FIELD_RPC_SUBSCRIPTIONS :: u32 where "GOSSIPSUB_FIELD_RPC_SUBSCRIPTIONS = 1"
definition GOSSIPSUB_FIELD_RPC_PUBLISH :: u32 where "GOSSIPSUB_FIELD_RPC_PUBLISH = 2"
definition GOSSIPSUB_FIELD_RPC_CONTROL :: u32 where "GOSSIPSUB_FIELD_RPC_CONTROL = 3"
definition GOSSIPSUB_FIELD_SUB_SUBSCRIBE :: u32 where "GOSSIPSUB_FIELD_SUB_SUBSCRIBE = 1"
definition GOSSIPSUB_FIELD_SUB_TOPIC :: u32 where "GOSSIPSUB_FIELD_SUB_TOPIC = 2"
definition GOSSIPSUB_FIELD_MSG_FROM :: u32 where "GOSSIPSUB_FIELD_MSG_FROM = 1"
definition GOSSIPSUB_FIELD_MSG_DATA :: u32 where "GOSSIPSUB_FIELD_MSG_DATA = 2"
definition GOSSIPSUB_FIELD_MSG_SEQNO :: u32 where "GOSSIPSUB_FIELD_MSG_SEQNO = 3"
definition GOSSIPSUB_FIELD_MSG_TOPIC :: u32 where "GOSSIPSUB_FIELD_MSG_TOPIC = 4"
definition GOSSIPSUB_FIELD_MSG_SIGNATURE :: u32 where "GOSSIPSUB_FIELD_MSG_SIGNATURE = 5"
definition GOSSIPSUB_FIELD_MSG_KEY :: u32 where "GOSSIPSUB_FIELD_MSG_KEY = 6"
definition GOSSIPSUB_FIELD_CONTROL_IHAVE :: u32 where "GOSSIPSUB_FIELD_CONTROL_IHAVE = 1"
definition GOSSIPSUB_FIELD_CONTROL_IWANT :: u32 where "GOSSIPSUB_FIELD_CONTROL_IWANT = 2"
definition GOSSIPSUB_FIELD_CONTROL_GRAFT :: u32 where "GOSSIPSUB_FIELD_CONTROL_GRAFT = 3"
definition GOSSIPSUB_FIELD_CONTROL_PRUNE :: u32 where "GOSSIPSUB_FIELD_CONTROL_PRUNE = 4"
definition GOSSIPSUB_FIELD_CONTROL_IDONTWANT :: u32 where "GOSSIPSUB_FIELD_CONTROL_IDONTWANT = 5"
definition GOSSIPSUB_FIELD_IHAVE_TOPIC :: u32 where "GOSSIPSUB_FIELD_IHAVE_TOPIC = 1"
definition GOSSIPSUB_FIELD_IHAVE_MESSAGE_IDS :: u32 where "GOSSIPSUB_FIELD_IHAVE_MESSAGE_IDS = 2"
definition GOSSIPSUB_FIELD_IWANT_MESSAGE_IDS :: u32 where "GOSSIPSUB_FIELD_IWANT_MESSAGE_IDS = 1"
definition GOSSIPSUB_FIELD_GRAFT_TOPIC :: u32 where "GOSSIPSUB_FIELD_GRAFT_TOPIC = 1"
definition GOSSIPSUB_FIELD_PRUNE_TOPIC :: u32 where "GOSSIPSUB_FIELD_PRUNE_TOPIC = 1"
definition GOSSIPSUB_FIELD_PRUNE_PEERS :: u32 where "GOSSIPSUB_FIELD_PRUNE_PEERS = 2"
definition GOSSIPSUB_FIELD_PRUNE_BACKOFF :: u32 where "GOSSIPSUB_FIELD_PRUNE_BACKOFF = 3"
definition GOSSIPSUB_FIELD_PEER_INFO_PEER_ID :: u32 where "GOSSIPSUB_FIELD_PEER_INFO_PEER_ID = 1"
definition GOSSIPSUB_FIELD_PEER_INFO_SIGNED_PEER_RECORD :: u32 where
  "GOSSIPSUB_FIELD_PEER_INFO_SIGNED_PEER_RECORD = 2"
definition GOSSIPSUB_FIELD_IDONTWANT_MESSAGE_IDS :: u32 where
  "GOSSIPSUB_FIELD_IDONTWANT_MESSAGE_IDS = 1"

lemmas gossipsub_field_defs =
  GOSSIPSUB_FIELD_RPC_SUBSCRIPTIONS_def GOSSIPSUB_FIELD_RPC_PUBLISH_def
  GOSSIPSUB_FIELD_RPC_CONTROL_def GOSSIPSUB_FIELD_SUB_SUBSCRIBE_def
  GOSSIPSUB_FIELD_SUB_TOPIC_def GOSSIPSUB_FIELD_MSG_FROM_def GOSSIPSUB_FIELD_MSG_DATA_def
  GOSSIPSUB_FIELD_MSG_SEQNO_def GOSSIPSUB_FIELD_MSG_TOPIC_def
  GOSSIPSUB_FIELD_MSG_SIGNATURE_def GOSSIPSUB_FIELD_MSG_KEY_def
  GOSSIPSUB_FIELD_CONTROL_IHAVE_def GOSSIPSUB_FIELD_CONTROL_IWANT_def
  GOSSIPSUB_FIELD_CONTROL_GRAFT_def GOSSIPSUB_FIELD_CONTROL_PRUNE_def
  GOSSIPSUB_FIELD_CONTROL_IDONTWANT_def GOSSIPSUB_FIELD_IHAVE_TOPIC_def
  GOSSIPSUB_FIELD_IHAVE_MESSAGE_IDS_def GOSSIPSUB_FIELD_IWANT_MESSAGE_IDS_def
  GOSSIPSUB_FIELD_GRAFT_TOPIC_def GOSSIPSUB_FIELD_PRUNE_TOPIC_def
  GOSSIPSUB_FIELD_PRUNE_PEERS_def GOSSIPSUB_FIELD_PRUNE_BACKOFF_def
  GOSSIPSUB_FIELD_PEER_INFO_PEER_ID_def GOSSIPSUB_FIELD_PEER_INFO_SIGNED_PEER_RECORD_def
  GOSSIPSUB_FIELD_IDONTWANT_MESSAGE_IDS_def

subsection \<open>The frame of an encoder\<close>

text \<open>
  Every encoder measures first, refuses a null buffer, reports the required size when the buffer
  is short, and otherwise writes from position 0 and reports the final position. The second
  component of the result is the value stored through \<open>written\<close>, if any.
\<close>

type_synonym gencoder = "(libp2p_gossipsub_err_t \<times> nat option \<times> gbytes) option"

definition encode_measured :: "nat gresult \<Rightarrow> gbytes \<Rightarrow> (byte list \<Rightarrow> gwriter) \<Rightarrow> gencoder" where
  "encode_measured required out write =
     (case required of
        Inl e \<Rightarrow> Some (e, None, out)
      | Inr n \<Rightarrow>
          (case out of
             Null m \<Rightarrow> Some (LIBP2P_GOSSIPSUB_ERR_INVALID_ARG, None, out)
           | Buf o' \<Rightarrow>
               (if n > length o' then Some (LIBP2P_GOSSIPSUB_ERR_BUF_TOO_SMALL, Some n, out)
                else do {
                  (result, pos, o'') \<leftarrow> write o';
                  Some (result, (if result = LIBP2P_GOSSIPSUB_OK then Some pos else None), Buf o'')
                })))"

text \<open>The optional fields of a message: measured and written only when present.\<close>

definition present_field_size :: "u32 \<Rightarrow> gbytes \<Rightarrow> nat \<Rightarrow> nat gresult" where
  "present_field_size field bytes total0 =
     (if gossipsub_bytes_present bytes
      then gossipsub_field_size field GOSSIPSUB_WIRE_LEN (clen bytes) total0 else Inr total0)"

definition write_present_field :: "u32 \<Rightarrow> gbytes \<Rightarrow> byte list \<Rightarrow> nat \<Rightarrow> gwriter" where
  "write_present_field field bytes out pos =
     (if gossipsub_bytes_present bytes then gossipsub_write_len_field field bytes out pos
      else Some (LIBP2P_GOSSIPSUB_OK, pos, out))"

definition gossipsub_message_size ::
  "libp2p_gossipsub_limits_t \<Rightarrow> libp2p_gossipsub_message_t \<Rightarrow> nat gresult" where
  "gossipsub_message_size limits m =
     (if is_null (msg_topic m) \<or> clen (msg_topic m) = 0 \<or>
         clen (msg_topic m) > max_topic_bytes limits \<or>
         clen (msg_data m) > max_message_data_bytes limits
      then Inl LIBP2P_GOSSIPSUB_ERR_LIMIT
      else
        ok_then (present_field_size GOSSIPSUB_FIELD_MSG_FROM (msg_from m) 0) (\<lambda>t.
        ok_then (present_field_size GOSSIPSUB_FIELD_MSG_DATA (msg_data m) t) (\<lambda>t.
        ok_then (present_field_size GOSSIPSUB_FIELD_MSG_SEQNO (msg_seqno m) t) (\<lambda>t.
        ok_then (gossipsub_field_size GOSSIPSUB_FIELD_MSG_TOPIC GOSSIPSUB_WIRE_LEN
                   (clen (msg_topic m)) t) (\<lambda>t.
        ok_then (present_field_size GOSSIPSUB_FIELD_MSG_SIGNATURE (msg_signature m) t) (\<lambda>t.
        present_field_size GOSSIPSUB_FIELD_MSG_KEY (msg_key m) t))))))"

definition gossipsub_message_encode ::
  "libp2p_gossipsub_limits_t \<Rightarrow> libp2p_gossipsub_message_t \<Rightarrow> gbytes \<Rightarrow> gencoder" where
  "gossipsub_message_encode limits m out =
     encode_measured (gossipsub_message_size limits m) out (\<lambda>out.
       w_then (write_present_field GOSSIPSUB_FIELD_MSG_FROM (msg_from m) out 0) (\<lambda>pos out.
       w_then (write_present_field GOSSIPSUB_FIELD_MSG_DATA (msg_data m) out pos) (\<lambda>pos out.
       w_then (write_present_field GOSSIPSUB_FIELD_MSG_SEQNO (msg_seqno m) out pos) (\<lambda>pos out.
       w_then (gossipsub_write_len_field GOSSIPSUB_FIELD_MSG_TOPIC (msg_topic m) out pos) (\<lambda>pos out.
       w_then (write_present_field GOSSIPSUB_FIELD_MSG_SIGNATURE (msg_signature m) out pos)
         (\<lambda>pos out.
       write_present_field GOSSIPSUB_FIELD_MSG_KEY (msg_key m) out pos))))))"

definition message_field ::
  "libp2p_gossipsub_limits_t \<Rightarrow> libp2p_gossipsub_message_t \<Rightarrow> u32 \<Rightarrow> u32 \<Rightarrow>
   libp2p_gossipsub_message_t field_action" where
  "message_field limits out field wire =
     (if wire \<noteq> GOSSIPSUB_WIRE_LEN then Skip_field (Inr out)
      else if field = GOSSIPSUB_FIELD_MSG_FROM
      then Read_len_span (\<lambda>b. Inr (out\<lparr>msg_from := b\<rparr>))
      else if field = GOSSIPSUB_FIELD_MSG_DATA
      then Read_len_span (\<lambda>b. if clen b > max_message_data_bytes limits
                              then Inl LIBP2P_GOSSIPSUB_ERR_LIMIT else Inr (out\<lparr>msg_data := b\<rparr>))
      else if field = GOSSIPSUB_FIELD_MSG_SEQNO
      then Read_len_span (\<lambda>b. Inr (out\<lparr>msg_seqno := b\<rparr>))
      else if field = GOSSIPSUB_FIELD_MSG_TOPIC
      then Read_len_span (\<lambda>b. if clen b > max_topic_bytes limits
                              then Inl LIBP2P_GOSSIPSUB_ERR_LIMIT else Inr (out\<lparr>msg_topic := b\<rparr>))
      else if field = GOSSIPSUB_FIELD_MSG_SIGNATURE
      then Read_len_span (\<lambda>b. Inr (out\<lparr>msg_signature := b\<rparr>))
      else if field = GOSSIPSUB_FIELD_MSG_KEY
      then Read_len_span (\<lambda>b. Inr (out\<lparr>msg_key := b\<rparr>))
      else Skip_field (Inr out))"

definition gossipsub_message_decode ::
  "libp2p_gossipsub_limits_t \<Rightarrow> gbytes \<Rightarrow> libp2p_gossipsub_message_t gresult" where
  "gossipsub_message_decode limits inp =
     (case inp of
        Null n \<Rightarrow> Inl LIBP2P_GOSSIPSUB_ERR_INVALID_ARG
      | Buf bs \<Rightarrow>
          ok_then
            (decode_fields (message_field limits) bs 0
              \<lparr>msg_from = Null 0, msg_data = Null 0, msg_seqno = Null 0, msg_topic = Null 0,
               msg_signature = Null 0, msg_key = Null 0, raw_message = Buf bs\<rparr>)
            (\<lambda>out. if is_null (msg_topic out) \<or> clen (msg_topic out) = 0
                   then Inl LIBP2P_GOSSIPSUB_ERR_MALFORMED else Inr out))"

definition gossipsub_sub_size ::
  "libp2p_gossipsub_limits_t \<Rightarrow> libp2p_gossipsub_rpc_subscription_t \<Rightarrow> nat gresult" where
  "gossipsub_sub_size limits sub =
     (if is_null (sub_topic sub) \<or> clen (sub_topic sub) = 0 \<or>
         clen (sub_topic sub) > max_topic_bytes limits
      then Inl LIBP2P_GOSSIPSUB_ERR_LIMIT
      else ok_then (gossipsub_field_size GOSSIPSUB_FIELD_SUB_SUBSCRIBE GOSSIPSUB_WIRE_VARINT
                      (if sub_subscribe sub \<noteq> 0 then 1 else 0) 0)
             (\<lambda>t. gossipsub_field_size GOSSIPSUB_FIELD_SUB_TOPIC GOSSIPSUB_WIRE_LEN
                    (clen (sub_topic sub)) t))"

definition gossipsub_sub_encode ::
  "libp2p_gossipsub_limits_t \<Rightarrow> libp2p_gossipsub_rpc_subscription_t \<Rightarrow> gbytes \<Rightarrow> gencoder" where
  "gossipsub_sub_encode limits sub out =
     encode_measured (gossipsub_sub_size limits sub) out (\<lambda>out.
       w_then (gossipsub_write_varint_field GOSSIPSUB_FIELD_SUB_SUBSCRIBE
                 (if sub_subscribe sub \<noteq> 0 then 1 else 0) out 0) (\<lambda>pos out.
       gossipsub_write_len_field GOSSIPSUB_FIELD_SUB_TOPIC (sub_topic sub) out pos))"

definition sub_field ::
  "libp2p_gossipsub_limits_t \<Rightarrow> libp2p_gossipsub_rpc_subscription_t \<Rightarrow> u32 \<Rightarrow> u32 \<Rightarrow>
   libp2p_gossipsub_rpc_subscription_t field_action" where
  "sub_field limits out field wire =
     (if field = GOSSIPSUB_FIELD_SUB_SUBSCRIBE \<and> wire = GOSSIPSUB_WIRE_VARINT
      then Read_uvarint (\<lambda>v. Inr (out\<lparr>sub_subscribe := if v \<noteq> 0 then 1 else 0\<rparr>))
      else if field = GOSSIPSUB_FIELD_SUB_TOPIC \<and> wire = GOSSIPSUB_WIRE_LEN
      then Read_len_span (\<lambda>b. if clen b > max_topic_bytes limits
                              then Inl LIBP2P_GOSSIPSUB_ERR_LIMIT else Inr (out\<lparr>sub_topic := b\<rparr>))
      else Skip_field (Inr out))"

definition gossipsub_sub_decode ::
  "libp2p_gossipsub_limits_t \<Rightarrow> gbytes \<Rightarrow> libp2p_gossipsub_rpc_subscription_t gresult" where
  "gossipsub_sub_decode limits inp =
     (case inp of
        Null n \<Rightarrow> Inl LIBP2P_GOSSIPSUB_ERR_INVALID_ARG
      | Buf bs \<Rightarrow>
          ok_then (decode_fields (sub_field limits) bs 0 \<lparr>sub_topic = Null 0, sub_subscribe = 0\<rparr>)
            (\<lambda>out. if is_null (sub_topic out) \<or> clen (sub_topic out) = 0
                   then Inl LIBP2P_GOSSIPSUB_ERR_MALFORMED else Inr out))"

subsection \<open>Advertisements: IHAVE, IWANT, IDONTWANT\<close>

fun message_id_sizes ::
  "u32 \<Rightarrow> libp2p_gossipsub_limits_t \<Rightarrow> gbytes list \<Rightarrow> nat \<Rightarrow> nat gresult" where
  "message_id_sizes field limits [] total0 = Inr total0"
| "message_id_sizes field limits (i # is) total0 =
     (if is_null i \<or> clen i = 0 \<or> clen i > max_message_id_bytes limits
      then Inl LIBP2P_GOSSIPSUB_ERR_LIMIT
      else ok_then (gossipsub_field_size field GOSSIPSUB_WIRE_LEN (clen i) total0)
             (message_id_sizes field limits is))"

definition gossipsub_message_id_list_size ::
  "u32 \<Rightarrow> libp2p_gossipsub_limits_t \<Rightarrow> gbytes cbuf \<Rightarrow> nat \<Rightarrow> nat gresult" where
  "gossipsub_message_id_list_size field limits message_ids total0 =
     (if clen message_ids > max_message_ids_per_rpc limits then Inl LIBP2P_GOSSIPSUB_ERR_LIMIT
      else case message_ids of
        Null n \<Rightarrow> (if n = 0 then Inr total0 else Inl LIBP2P_GOSSIPSUB_ERR_LIMIT)
      | Buf is \<Rightarrow> message_id_sizes field limits is total0)"

fun write_message_ids :: "u32 \<Rightarrow> gbytes list \<Rightarrow> byte list \<Rightarrow> nat \<Rightarrow> gwriter" where
  "write_message_ids field [] out pos = Some (LIBP2P_GOSSIPSUB_OK, pos, out)"
| "write_message_ids field (i # is) out pos =
     w_then (gossipsub_write_len_field field i out pos)
       (\<lambda>pos out. write_message_ids field is out pos)"

text \<open>A null array with a nonzero count would be dereferenced; the measuring pass excludes it.\<close>

definition gossipsub_message_id_list_encode ::
  "u32 \<Rightarrow> gbytes cbuf \<Rightarrow> byte list \<Rightarrow> nat \<Rightarrow> gwriter" where
  "gossipsub_message_id_list_encode field message_ids out pos =
     (case message_ids of
        Null n \<Rightarrow> (if n = 0 then Some (LIBP2P_GOSSIPSUB_OK, pos, out) else None)
      | Buf is \<Rightarrow> write_message_ids field is out pos)"

definition gossipsub_ihave_size ::
  "libp2p_gossipsub_limits_t \<Rightarrow> libp2p_gossipsub_control_ihave_t \<Rightarrow> nat gresult" where
  "gossipsub_ihave_size limits ihave =
     (if is_null (ihave_topic ihave) \<or> clen (ihave_topic ihave) = 0 \<or>
         clen (ihave_topic ihave) > max_topic_bytes limits
      then Inl LIBP2P_GOSSIPSUB_ERR_LIMIT
      else ok_then (gossipsub_field_size GOSSIPSUB_FIELD_IHAVE_TOPIC GOSSIPSUB_WIRE_LEN
                      (clen (ihave_topic ihave)) 0)
             (gossipsub_message_id_list_size GOSSIPSUB_FIELD_IHAVE_MESSAGE_IDS limits
                (ihave_message_ids ihave)))"

definition gossipsub_ihave_encode ::
  "libp2p_gossipsub_limits_t \<Rightarrow> libp2p_gossipsub_control_ihave_t \<Rightarrow> gbytes \<Rightarrow> gencoder" where
  "gossipsub_ihave_encode limits ihave out =
     encode_measured (gossipsub_ihave_size limits ihave) out (\<lambda>out.
       w_then (gossipsub_write_len_field GOSSIPSUB_FIELD_IHAVE_TOPIC (ihave_topic ihave) out 0)
         (\<lambda>pos out. gossipsub_message_id_list_encode GOSSIPSUB_FIELD_IHAVE_MESSAGE_IDS
                      (ihave_message_ids ihave) out pos))"

text \<open>
  A message id goes to the next free entry of the caller's array. The state of the two loops
  below is the cursor and the entries filled since the loop began.
\<close>

definition read_message_id ::
  "libp2p_gossipsub_limits_t \<Rightarrow> libp2p_gossipsub_rpc_decode_storage_t \<Rightarrow>
   gossipsub_decode_cursor_t \<Rightarrow> (gossipsub_decode_cursor_t \<Rightarrow> gbytes \<Rightarrow> 's) \<Rightarrow> 's field_action" where
  "read_message_id limits storage cursor store =
     (if message_id_next cursor \<ge> message_id_capacity storage
      then Refuse LIBP2P_GOSSIPSUB_ERR_LIMIT
      else Read_len_span (\<lambda>b.
        if clen b > max_message_id_bytes limits then Inl LIBP2P_GOSSIPSUB_ERR_LIMIT
        else Inr (store (cursor\<lparr>message_id_next := message_id_next cursor + 1\<rparr>) b)))"

type_synonym ihave_state = "gossipsub_decode_cursor_t \<times> gbytes list \<times> gbytes"

fun ihave_field ::
  "libp2p_gossipsub_limits_t \<Rightarrow> libp2p_gossipsub_rpc_decode_storage_t \<Rightarrow> ihave_state \<Rightarrow>
   u32 \<Rightarrow> u32 \<Rightarrow> ihave_state field_action" where
  "ihave_field limits storage (cursor, ids, topic) field wire =
     (if field = GOSSIPSUB_FIELD_IHAVE_TOPIC \<and> wire = GOSSIPSUB_WIRE_LEN
      then Read_len_span (\<lambda>b. Inr (cursor, ids, b))
      else if field = GOSSIPSUB_FIELD_IHAVE_MESSAGE_IDS \<and> wire = GOSSIPSUB_WIRE_LEN
      then read_message_id limits storage cursor (\<lambda>cursor b. (cursor, ids @ [b], topic))
      else Skip_field (Inr (cursor, ids, topic)))"

definition gossipsub_ihave_decode ::
  "libp2p_gossipsub_limits_t \<Rightarrow> gbytes \<Rightarrow> libp2p_gossipsub_rpc_decode_storage_t \<Rightarrow>
   gossipsub_decode_cursor_t \<Rightarrow>
   (gossipsub_decode_cursor_t \<times> libp2p_gossipsub_control_ihave_t) gresult" where
  "gossipsub_ihave_decode limits inp storage cursor =
     (case inp of
        Null n \<Rightarrow> Inl LIBP2P_GOSSIPSUB_ERR_INVALID_ARG
      | Buf bs \<Rightarrow>
          ok_then (decode_fields (ihave_field limits storage) bs 0 (cursor, [], Null 0))
            (\<lambda>(cursor', ids, topic).
               if is_null topic \<or> clen topic = 0 \<or> clen topic > max_topic_bytes limits \<or>
                  message_id_next cursor' - message_id_next cursor > max_message_ids_per_rpc limits
               then Inl LIBP2P_GOSSIPSUB_ERR_LIMIT
               else Inr (cursor', \<lparr>ihave_topic = topic, ihave_message_ids = Buf ids\<rparr>)))"

definition gossipsub_iwant_size ::
  "libp2p_gossipsub_limits_t \<Rightarrow> libp2p_gossipsub_control_iwant_t \<Rightarrow> nat gresult" where
  "gossipsub_iwant_size limits iwant =
     gossipsub_message_id_list_size GOSSIPSUB_FIELD_IWANT_MESSAGE_IDS limits
       (iwant_message_ids iwant) 0"

definition gossipsub_iwant_encode ::
  "libp2p_gossipsub_limits_t \<Rightarrow> libp2p_gossipsub_control_iwant_t \<Rightarrow> gbytes \<Rightarrow> gencoder" where
  "gossipsub_iwant_encode limits iwant out =
     encode_measured (gossipsub_iwant_size limits iwant) out (\<lambda>out.
       gossipsub_message_id_list_encode GOSSIPSUB_FIELD_IWANT_MESSAGE_IDS
         (iwant_message_ids iwant) out 0)"

type_synonym iwant_state = "gossipsub_decode_cursor_t \<times> gbytes list"

fun iwant_field ::
  "libp2p_gossipsub_limits_t \<Rightarrow> libp2p_gossipsub_rpc_decode_storage_t \<Rightarrow> iwant_state \<Rightarrow>
   u32 \<Rightarrow> u32 \<Rightarrow> iwant_state field_action" where
  "iwant_field limits storage (cursor, ids) field wire =
     (if field = GOSSIPSUB_FIELD_IWANT_MESSAGE_IDS \<and> wire = GOSSIPSUB_WIRE_LEN
      then read_message_id limits storage cursor (\<lambda>cursor b. (cursor, ids @ [b]))
      else Skip_field (Inr (cursor, ids)))"

definition gossipsub_iwant_decode ::
  "libp2p_gossipsub_limits_t \<Rightarrow> gbytes \<Rightarrow> libp2p_gossipsub_rpc_decode_storage_t \<Rightarrow>
   gossipsub_decode_cursor_t \<Rightarrow>
   (gossipsub_decode_cursor_t \<times> libp2p_gossipsub_control_iwant_t) gresult" where
  "gossipsub_iwant_decode limits inp storage cursor =
     (case inp of
        Null n \<Rightarrow> Inl LIBP2P_GOSSIPSUB_ERR_INVALID_ARG
      | Buf bs \<Rightarrow>
          ok_then (decode_fields (iwant_field limits storage) bs 0 (cursor, []))
            (\<lambda>(cursor', ids).
               if message_id_next cursor' - message_id_next cursor > max_message_ids_per_rpc limits
               then Inl LIBP2P_GOSSIPSUB_ERR_LIMIT
               else Inr (cursor', \<lparr>iwant_message_ids = Buf ids\<rparr>)))"

definition gossipsub_idontwant_size ::
  "libp2p_gossipsub_protocol_version_t \<Rightarrow> libp2p_gossipsub_limits_t \<Rightarrow>
   libp2p_gossipsub_control_idontwant_t \<Rightarrow> nat gresult" where
  "gossipsub_idontwant_size version limits idontwant =
     (if version \<noteq> LIBP2P_GOSSIPSUB_VERSION_12
      then Inl LIBP2P_GOSSIPSUB_ERR_UNSUPPORTED_VERSION
      else gossipsub_message_id_list_size GOSSIPSUB_FIELD_IDONTWANT_MESSAGE_IDS limits
             (idontwant_message_ids idontwant) 0)"

definition gossipsub_idontwant_encode ::
  "libp2p_gossipsub_protocol_version_t \<Rightarrow> libp2p_gossipsub_limits_t \<Rightarrow>
   libp2p_gossipsub_control_idontwant_t \<Rightarrow> gbytes \<Rightarrow> gencoder" where
  "gossipsub_idontwant_encode version limits idontwant out =
     encode_measured (gossipsub_idontwant_size version limits idontwant) out (\<lambda>out.
       gossipsub_message_id_list_encode GOSSIPSUB_FIELD_IDONTWANT_MESSAGE_IDS
         (idontwant_message_ids idontwant) out 0)"

text \<open>The version is not consulted: IDONTWANT is decoded on a v1.1 stream too.\<close>

definition gossipsub_idontwant_decode ::
  "libp2p_gossipsub_protocol_version_t \<Rightarrow> libp2p_gossipsub_limits_t \<Rightarrow> gbytes \<Rightarrow>
   libp2p_gossipsub_rpc_decode_storage_t \<Rightarrow> gossipsub_decode_cursor_t \<Rightarrow>
   (gossipsub_decode_cursor_t \<times> libp2p_gossipsub_control_idontwant_t) gresult" where
  "gossipsub_idontwant_decode version limits inp storage cursor =
     ok_then (gossipsub_iwant_decode limits inp storage cursor)
       (\<lambda>(cursor', iwant). Inr (cursor', \<lparr>idontwant_message_ids = iwant_message_ids iwant\<rparr>))"

subsection \<open>Mesh control: GRAFT and PRUNE\<close>

text \<open>The size is that of field \<open>GRAFT_TOPIC\<close> whatever \<open>field\<close> is encoded.\<close>

definition gossipsub_topic_control_size ::
  "libp2p_gossipsub_limits_t \<Rightarrow> gbytes \<Rightarrow> nat gresult" where
  "gossipsub_topic_control_size limits topic =
     (if is_null topic \<or> clen topic = 0 \<or> clen topic > max_topic_bytes limits
      then Inl LIBP2P_GOSSIPSUB_ERR_LIMIT
      else gossipsub_field_size GOSSIPSUB_FIELD_GRAFT_TOPIC GOSSIPSUB_WIRE_LEN (clen topic) 0)"

definition gossipsub_topic_control_encode ::
  "libp2p_gossipsub_limits_t \<Rightarrow> gbytes \<Rightarrow> u32 \<Rightarrow> gbytes \<Rightarrow> gencoder" where
  "gossipsub_topic_control_encode limits topic field out =
     encode_measured (gossipsub_topic_control_size limits topic) out
       (\<lambda>out. gossipsub_write_len_field field topic out 0)"

definition graft_field ::
  "libp2p_gossipsub_control_graft_t \<Rightarrow> u32 \<Rightarrow> u32 \<Rightarrow>
   libp2p_gossipsub_control_graft_t field_action" where
  "graft_field out field wire =
     (if field = GOSSIPSUB_FIELD_GRAFT_TOPIC \<and> wire = GOSSIPSUB_WIRE_LEN
      then Read_len_span (\<lambda>b. Inr (out\<lparr>graft_topic := b\<rparr>))
      else Skip_field (Inr out))"

definition gossipsub_graft_decode ::
  "libp2p_gossipsub_limits_t \<Rightarrow> gbytes \<Rightarrow> libp2p_gossipsub_control_graft_t gresult" where
  "gossipsub_graft_decode limits inp =
     (case inp of
        Null n \<Rightarrow> Inl LIBP2P_GOSSIPSUB_ERR_INVALID_ARG
      | Buf bs \<Rightarrow>
          ok_then (decode_fields graft_field bs 0 \<lparr>graft_topic = Null 0\<rparr>)
            (\<lambda>out. if is_null (graft_topic out) \<or> clen (graft_topic out) = 0 \<or>
                      clen (graft_topic out) > max_topic_bytes limits
                   then Inl LIBP2P_GOSSIPSUB_ERR_LIMIT else Inr out))"

definition peer_info_field ::
  "libp2p_gossipsub_limits_t \<Rightarrow> libp2p_gossipsub_peer_info_t \<Rightarrow> u32 \<Rightarrow> u32 \<Rightarrow>
   libp2p_gossipsub_peer_info_t field_action" where
  "peer_info_field limits out field wire =
     (if field = GOSSIPSUB_FIELD_PEER_INFO_PEER_ID \<and> wire = GOSSIPSUB_WIRE_LEN
      then Read_len_span (\<lambda>b. Inr (out\<lparr>pi_peer_id := b\<rparr>))
      else if field = GOSSIPSUB_FIELD_PEER_INFO_SIGNED_PEER_RECORD \<and> wire = GOSSIPSUB_WIRE_LEN
      then Read_len_span (\<lambda>b. if clen b > max_signed_peer_record_bytes limits
                              then Inl LIBP2P_GOSSIPSUB_ERR_LIMIT
                              else Inr (out\<lparr>pi_signed_peer_record := b\<rparr>))
      else Skip_field (Inr out))"

definition gossipsub_peer_info_decode ::
  "libp2p_gossipsub_limits_t \<Rightarrow> gbytes \<Rightarrow> libp2p_gossipsub_peer_info_t gresult" where
  "gossipsub_peer_info_decode limits inp =
     (case inp of
        Null n \<Rightarrow> Inl LIBP2P_GOSSIPSUB_ERR_INVALID_ARG
      | Buf bs \<Rightarrow> decode_fields (peer_info_field limits) bs 0
                    \<lparr>pi_peer_id = Null 0, pi_signed_peer_record = Null 0\<rparr>)"

definition gossipsub_prune_size ::
  "libp2p_gossipsub_limits_t \<Rightarrow> libp2p_gossipsub_control_prune_t \<Rightarrow> nat gresult" where
  "gossipsub_prune_size limits prune =
     (if is_null (prune_topic prune) \<or> clen (prune_topic prune) = 0 \<or>
         clen (prune_topic prune) > max_topic_bytes limits
      then Inl LIBP2P_GOSSIPSUB_ERR_LIMIT
      else ok_then (gossipsub_field_size GOSSIPSUB_FIELD_PRUNE_TOPIC GOSSIPSUB_WIRE_LEN
                      (clen (prune_topic prune)) 0)
             (\<lambda>t. if prune_backoff_seconds prune \<noteq> 0
                  then gossipsub_field_size GOSSIPSUB_FIELD_PRUNE_BACKOFF GOSSIPSUB_WIRE_VARINT
                         (unat (prune_backoff_seconds prune)) t
                  else Inr t))"

definition gossipsub_prune_encode ::
  "libp2p_gossipsub_limits_t \<Rightarrow> libp2p_gossipsub_control_prune_t \<Rightarrow> gbytes \<Rightarrow> gencoder" where
  "gossipsub_prune_encode limits prune out =
     encode_measured (gossipsub_prune_size limits prune) out (\<lambda>out.
       w_then (gossipsub_write_len_field GOSSIPSUB_FIELD_PRUNE_TOPIC (prune_topic prune) out 0)
         (\<lambda>pos out.
            if prune_backoff_seconds prune \<noteq> 0
            then gossipsub_write_varint_field GOSSIPSUB_FIELD_PRUNE_BACKOFF
                   (prune_backoff_seconds prune) out pos
            else Some (LIBP2P_GOSSIPSUB_OK, pos, out)))"

text \<open>The state is the cursor and the output, whose \<open>prune_peers\<close> are the entries filled so far.\<close>

type_synonym prune_state = "gossipsub_decode_cursor_t \<times> libp2p_gossipsub_control_prune_t"

fun prune_field ::
  "libp2p_gossipsub_limits_t \<Rightarrow> libp2p_gossipsub_rpc_decode_storage_t \<Rightarrow> prune_state \<Rightarrow>
   u32 \<Rightarrow> u32 \<Rightarrow> prune_state field_action" where
  "prune_field limits storage (cursor, out) field wire =
     (if field = GOSSIPSUB_FIELD_PRUNE_TOPIC \<and> wire = GOSSIPSUB_WIRE_LEN
      then Read_len_span (\<lambda>b. Inr (cursor, out\<lparr>prune_topic := b\<rparr>))
      else if field = GOSSIPSUB_FIELD_PRUNE_PEERS \<and> wire = GOSSIPSUB_WIRE_LEN
      then (if peer_info_next cursor \<ge> peer_info_capacity storage \<or> \<not> peer_infos_given storage
            then Refuse LIBP2P_GOSSIPSUB_ERR_LIMIT
            else Read_len_span (\<lambda>b.
              ok_then (gossipsub_peer_info_decode limits b)
                (\<lambda>pi. Inr (cursor\<lparr>peer_info_next := peer_info_next cursor + 1\<rparr>,
                           out\<lparr>prune_peers := prune_peers out @ [pi]\<rparr>))))
      else if field = GOSSIPSUB_FIELD_PRUNE_BACKOFF \<and> wire = GOSSIPSUB_WIRE_VARINT
      then Read_uvarint (\<lambda>v. Inr (cursor, out\<lparr>prune_backoff_seconds := v\<rparr>))
      else Skip_field (Inr (cursor, out)))"

definition gossipsub_prune_decode ::
  "libp2p_gossipsub_limits_t \<Rightarrow> gbytes \<Rightarrow> libp2p_gossipsub_rpc_decode_storage_t \<Rightarrow>
   gossipsub_decode_cursor_t \<Rightarrow>
   (gossipsub_decode_cursor_t \<times> libp2p_gossipsub_control_prune_t) gresult" where
  "gossipsub_prune_decode limits inp storage cursor =
     (case inp of
        Null n \<Rightarrow> Inl LIBP2P_GOSSIPSUB_ERR_INVALID_ARG
      | Buf bs \<Rightarrow>
          ok_then
            (decode_fields (prune_field limits storage) bs 0
               (cursor, \<lparr>prune_topic = Null 0, prune_peers = [], prune_backoff_seconds = 0\<rparr>))
            (\<lambda>(cursor', out).
               if is_null (prune_topic out) \<or> clen (prune_topic out) = 0 \<or>
                  clen (prune_topic out) > max_topic_bytes limits \<or>
                  peer_info_next cursor' - peer_info_next cursor > max_px_peers_per_rpc limits
               then Inl LIBP2P_GOSSIPSUB_ERR_LIMIT else Inr (cursor', out)))"

subsection \<open>Control sections\<close>

text \<open>
  The two loops that every repeated submessage is measured and written with: measure the
  element, add (or write) the length-delimited field around it.
\<close>

fun nested_sizes :: "u32 \<Rightarrow> ('a \<Rightarrow> nat gresult) \<Rightarrow> 'a list \<Rightarrow> nat \<Rightarrow> nat gresult" where
  "nested_sizes field size_fn [] total0 = Inr total0"
| "nested_sizes field size_fn (x # xs) total0 =
     ok_then (size_fn x) (\<lambda>nested.
     ok_then (gossipsub_field_size field GOSSIPSUB_WIRE_LEN nested total0)
       (nested_sizes field size_fn xs))"

definition write_nested ::
  "u32 \<Rightarrow> nat gresult \<Rightarrow> (gbytes \<Rightarrow> gencoder) \<Rightarrow> byte list \<Rightarrow> nat \<Rightarrow> gwriter" where
  "write_nested field nested encode_fn out pos =
     (case nested of
        Inl e \<Rightarrow> Some (e, pos, out)
      | Inr n \<Rightarrow>
          w_then (gossipsub_write_len_prefix field n out pos) (\<lambda>pos out. do {
            (result, written, part) \<leftarrow> encode_fn (Buf (drop pos out));
            let out' = take pos out @ contents part;
            Some (result,
              (if result = LIBP2P_GOSSIPSUB_OK then pos + the written else pos), out')
          }))"

fun write_nested_list ::
  "u32 \<Rightarrow> ('a \<Rightarrow> nat gresult) \<Rightarrow> ('a \<Rightarrow> gbytes \<Rightarrow> gencoder) \<Rightarrow> 'a list \<Rightarrow> byte list \<Rightarrow> nat \<Rightarrow> gwriter" where
  "write_nested_list field size_fn encode_fn [] out pos = Some (LIBP2P_GOSSIPSUB_OK, pos, out)"
| "write_nested_list field size_fn encode_fn (x # xs) out pos =
     w_then (write_nested field (size_fn x) (encode_fn x) out pos)
       (\<lambda>pos out. write_nested_list field size_fn encode_fn xs out pos)"

definition gossipsub_control_size ::
  "libp2p_gossipsub_protocol_version_t \<Rightarrow> libp2p_gossipsub_limits_t \<Rightarrow>
   libp2p_gossipsub_rpc_control_t \<Rightarrow> nat gresult" where
  "gossipsub_control_size version limits control =
     (if length (ctl_ihave control) > max_ihave_per_rpc limits \<or>
         length (ctl_iwant control) > max_iwant_per_rpc limits \<or>
         length (ctl_graft control) > max_graft_per_rpc limits \<or>
         length (ctl_prune control) > max_prune_per_rpc limits \<or>
         length (ctl_idontwant control) > max_idontwant_per_rpc limits
      then Inl LIBP2P_GOSSIPSUB_ERR_LIMIT
      else if length (ctl_idontwant control) \<noteq> 0 \<and> version \<noteq> LIBP2P_GOSSIPSUB_VERSION_12
      then Inl LIBP2P_GOSSIPSUB_ERR_UNSUPPORTED_VERSION
      else
        ok_then (nested_sizes GOSSIPSUB_FIELD_CONTROL_IHAVE (gossipsub_ihave_size limits)
                   (ctl_ihave control) 0) (\<lambda>t.
        ok_then (nested_sizes GOSSIPSUB_FIELD_CONTROL_IWANT (gossipsub_iwant_size limits)
                   (ctl_iwant control) t) (\<lambda>t.
        ok_then (nested_sizes GOSSIPSUB_FIELD_CONTROL_GRAFT
                   (\<lambda>g. gossipsub_topic_control_size limits (graft_topic g))
                   (ctl_graft control) t) (\<lambda>t.
        ok_then (nested_sizes GOSSIPSUB_FIELD_CONTROL_PRUNE (gossipsub_prune_size limits)
                   (ctl_prune control) t) (\<lambda>t.
        nested_sizes GOSSIPSUB_FIELD_CONTROL_IDONTWANT (gossipsub_idontwant_size version limits)
          (ctl_idontwant control) t)))))"

definition gossipsub_control_encode ::
  "libp2p_gossipsub_protocol_version_t \<Rightarrow> libp2p_gossipsub_limits_t \<Rightarrow>
   libp2p_gossipsub_rpc_control_t \<Rightarrow> gbytes \<Rightarrow> gencoder" where
  "gossipsub_control_encode version limits control out =
     encode_measured (gossipsub_control_size version limits control) out (\<lambda>out.
       w_then (write_nested_list GOSSIPSUB_FIELD_CONTROL_IHAVE (gossipsub_ihave_size limits)
                 (gossipsub_ihave_encode limits) (ctl_ihave control) out 0) (\<lambda>pos out.
       w_then (write_nested_list GOSSIPSUB_FIELD_CONTROL_IWANT (gossipsub_iwant_size limits)
                 (gossipsub_iwant_encode limits) (ctl_iwant control) out pos) (\<lambda>pos out.
       w_then (write_nested_list GOSSIPSUB_FIELD_CONTROL_GRAFT
                 (\<lambda>g. gossipsub_topic_control_size limits (graft_topic g))
                 (\<lambda>g. gossipsub_topic_control_encode limits (graft_topic g)
                        GOSSIPSUB_FIELD_GRAFT_TOPIC)
                 (ctl_graft control) out pos) (\<lambda>pos out.
       w_then (write_nested_list GOSSIPSUB_FIELD_CONTROL_PRUNE (gossipsub_prune_size limits)
                 (gossipsub_prune_encode limits) (ctl_prune control) out pos) (\<lambda>pos out.
       write_nested_list GOSSIPSUB_FIELD_CONTROL_IDONTWANT (gossipsub_idontwant_size version limits)
         (gossipsub_idontwant_encode version limits) (ctl_idontwant control) out pos)))))"

type_synonym control_state = "gossipsub_decode_cursor_t \<times> libp2p_gossipsub_rpc_control_t"

text \<open>
  The body of the control loop once the field has been read: \<open>nested\<close> is the span of a
  length-delimited field and null for a field of another wire type, which has been skipped.
\<close>

fun control_nested ::
  "libp2p_gossipsub_protocol_version_t \<Rightarrow> libp2p_gossipsub_limits_t \<Rightarrow>
   libp2p_gossipsub_rpc_decode_storage_t \<Rightarrow> control_state \<Rightarrow> u32 \<Rightarrow> gbytes \<Rightarrow>
   control_state gresult" where
  "control_nested version limits storage (cursor, out) field nested =
     (if field = GOSSIPSUB_FIELD_CONTROL_IHAVE then
        (if length (ctl_ihave out) \<ge> ihave_capacity storage then Inl LIBP2P_GOSSIPSUB_ERR_LIMIT
         else ok_then (gossipsub_ihave_decode limits nested storage cursor)
                (\<lambda>(c, x). Inr (c, out\<lparr>ctl_ihave := ctl_ihave out @ [x]\<rparr>)))
      else if field = GOSSIPSUB_FIELD_CONTROL_IWANT then
        (if length (ctl_iwant out) \<ge> iwant_capacity storage then Inl LIBP2P_GOSSIPSUB_ERR_LIMIT
         else ok_then (gossipsub_iwant_decode limits nested storage cursor)
                (\<lambda>(c, x). Inr (c, out\<lparr>ctl_iwant := ctl_iwant out @ [x]\<rparr>)))
      else if field = GOSSIPSUB_FIELD_CONTROL_GRAFT then
        (if length (ctl_graft out) \<ge> graft_capacity storage then Inl LIBP2P_GOSSIPSUB_ERR_LIMIT
         else ok_then (gossipsub_graft_decode limits nested)
                (\<lambda>x. Inr (cursor, out\<lparr>ctl_graft := ctl_graft out @ [x]\<rparr>)))
      else if field = GOSSIPSUB_FIELD_CONTROL_PRUNE then
        (if length (ctl_prune out) \<ge> prune_capacity storage then Inl LIBP2P_GOSSIPSUB_ERR_LIMIT
         else ok_then (gossipsub_prune_decode limits nested storage cursor)
                (\<lambda>(c, x). Inr (c, out\<lparr>ctl_prune := ctl_prune out @ [x]\<rparr>)))
      else if field = GOSSIPSUB_FIELD_CONTROL_IDONTWANT then
        (if length (ctl_idontwant out) \<ge> idontwant_capacity storage
         then Inl LIBP2P_GOSSIPSUB_ERR_LIMIT
         else ok_then (gossipsub_idontwant_decode version limits nested storage cursor)
                (\<lambda>(c, x). Inr (c, out\<lparr>ctl_idontwant := ctl_idontwant out @ [x]\<rparr>)))
      else Inr (cursor, out))"

definition control_field ::
  "libp2p_gossipsub_protocol_version_t \<Rightarrow> libp2p_gossipsub_limits_t \<Rightarrow>
   libp2p_gossipsub_rpc_decode_storage_t \<Rightarrow> control_state \<Rightarrow> u32 \<Rightarrow> u32 \<Rightarrow>
   control_state field_action" where
  "control_field version limits storage st field wire =
     (if wire \<noteq> GOSSIPSUB_WIRE_LEN
      then Skip_field (control_nested version limits storage st field (Null 0))
      else Read_len_span (control_nested version limits storage st field))"

definition empty_control :: libp2p_gossipsub_rpc_control_t where
  "empty_control = \<lparr>ctl_ihave = [], ctl_iwant = [], ctl_graft = [], ctl_prune = [],
     ctl_idontwant = []\<rparr>"

definition gossipsub_control_decode ::
  "libp2p_gossipsub_protocol_version_t \<Rightarrow> libp2p_gossipsub_limits_t \<Rightarrow> gbytes \<Rightarrow>
   libp2p_gossipsub_rpc_decode_storage_t \<Rightarrow> libp2p_gossipsub_rpc_control_t gresult" where
  "gossipsub_control_decode version limits inp storage =
     (case inp of
        Null n \<Rightarrow> Inl LIBP2P_GOSSIPSUB_ERR_INVALID_ARG
      | Buf bs \<Rightarrow>
          ok_then
            (decode_fields (control_field version limits storage) bs 0
               (\<lparr>message_id_next = 0, peer_info_next = 0\<rparr>, empty_control))
            (\<lambda>(cursor, out).
               if length (ctl_ihave out) > max_ihave_per_rpc limits \<or>
                  length (ctl_iwant out) > max_iwant_per_rpc limits \<or>
                  length (ctl_graft out) > max_graft_per_rpc limits \<or>
                  length (ctl_prune out) > max_prune_per_rpc limits \<or>
                  length (ctl_idontwant out) > max_idontwant_per_rpc limits
               then Inl LIBP2P_GOSSIPSUB_ERR_LIMIT else Inr out))"

subsection \<open>RPC bodies and frames\<close>

text \<open>
  The public operations. A null pointer is \<open>None\<close> for an input structure and \<open>False\<close> for the
  flag that says whether the caller gave the output pointer.
\<close>

definition control_present :: "libp2p_gossipsub_rpc_control_t \<Rightarrow> bool" where
  "control_present c =
     (length (ctl_ihave c) \<noteq> 0 \<or> length (ctl_iwant c) \<noteq> 0 \<or> length (ctl_graft c) \<noteq> 0 \<or>
      length (ctl_prune c) \<noteq> 0 \<or> length (ctl_idontwant c) \<noteq> 0)"

definition validate_version_limits ::
  "libp2p_gossipsub_protocol_version_t \<Rightarrow> libp2p_gossipsub_limits_t option \<Rightarrow>
   libp2p_gossipsub_limits_t gresult" where
  "validate_version_limits version limits =
     (let result = gossipsub_version_validate version in
      if result \<noteq> LIBP2P_GOSSIPSUB_OK then Inl result
      else let result = gossipsub_limits_validate limits in
      if result \<noteq> LIBP2P_GOSSIPSUB_OK then Inl result else Inr (the limits))"

definition libp2p_gossipsub_rpc_body_size ::
  "libp2p_gossipsub_protocol_version_t \<Rightarrow> libp2p_gossipsub_limits_t option \<Rightarrow>
   libp2p_gossipsub_rpc_t option \<Rightarrow> bool \<Rightarrow> nat gresult" where
  "libp2p_gossipsub_rpc_body_size version limits rpc out_len_given =
     ok_then (validate_version_limits version limits) (\<lambda>limits.
     case rpc of
       None \<Rightarrow> Inl LIBP2P_GOSSIPSUB_ERR_INVALID_ARG
     | Some rpc \<Rightarrow>
         if \<not> out_len_given then Inl LIBP2P_GOSSIPSUB_ERR_INVALID_ARG
         else if length (rpc_subscriptions rpc) > max_subscriptions_per_rpc limits \<or>
                 length (rpc_publish rpc) > max_publish_per_rpc limits
         then Inl LIBP2P_GOSSIPSUB_ERR_LIMIT
         else
           ok_then (nested_sizes GOSSIPSUB_FIELD_RPC_SUBSCRIPTIONS (gossipsub_sub_size limits)
                      (rpc_subscriptions rpc) 0) (\<lambda>t.
           ok_then (nested_sizes GOSSIPSUB_FIELD_RPC_PUBLISH (gossipsub_message_size limits)
                      (rpc_publish rpc) t) (\<lambda>t.
           ok_then (if control_present (rpc_control rpc)
                    then nested_sizes GOSSIPSUB_FIELD_RPC_CONTROL
                           (gossipsub_control_size version limits) [rpc_control rpc] t
                    else Inr t) (\<lambda>t.
           if t > max_rpc_bytes limits then Inl LIBP2P_GOSSIPSUB_ERR_LIMIT else Inr t))))"

definition libp2p_gossipsub_rpc_body_encode ::
  "libp2p_gossipsub_protocol_version_t \<Rightarrow> libp2p_gossipsub_limits_t option \<Rightarrow>
   libp2p_gossipsub_rpc_t option \<Rightarrow> gbytes \<Rightarrow> bool \<Rightarrow> gencoder" where
  "libp2p_gossipsub_rpc_body_encode version limits rpc out written_given =
     encode_measured
       (ok_then (libp2p_gossipsub_rpc_body_size version limits rpc True)
          (\<lambda>n. if written_given then Inr n else Inl LIBP2P_GOSSIPSUB_ERR_INVALID_ARG))
       out (\<lambda>out.
       let limits = the limits; rpc = the rpc in
       w_then (write_nested_list GOSSIPSUB_FIELD_RPC_SUBSCRIPTIONS (gossipsub_sub_size limits)
                 (gossipsub_sub_encode limits) (rpc_subscriptions rpc) out 0) (\<lambda>pos out.
       w_then (write_nested_list GOSSIPSUB_FIELD_RPC_PUBLISH (gossipsub_message_size limits)
                 (gossipsub_message_encode limits) (rpc_publish rpc) out pos) (\<lambda>pos out.
       if control_present (rpc_control rpc)
       then write_nested GOSSIPSUB_FIELD_RPC_CONTROL
              (gossipsub_control_size version limits (rpc_control rpc))
              (gossipsub_control_encode version limits (rpc_control rpc)) out pos
       else Some (LIBP2P_GOSSIPSUB_OK, pos, out))))"

fun body_nested ::
  "libp2p_gossipsub_protocol_version_t \<Rightarrow> libp2p_gossipsub_limits_t \<Rightarrow>
   libp2p_gossipsub_rpc_decode_storage_t \<Rightarrow> libp2p_gossipsub_rpc_t \<Rightarrow> u32 \<Rightarrow> gbytes \<Rightarrow>
   libp2p_gossipsub_rpc_t gresult" where
  "body_nested version limits storage out field nested =
     (if field = GOSSIPSUB_FIELD_RPC_SUBSCRIPTIONS then
        (if length (rpc_subscriptions out) \<ge> subscription_capacity storage
         then Inl LIBP2P_GOSSIPSUB_ERR_LIMIT
         else ok_then (gossipsub_sub_decode limits nested)
                (\<lambda>x. Inr (out\<lparr>rpc_subscriptions := rpc_subscriptions out @ [x]\<rparr>)))
      else if field = GOSSIPSUB_FIELD_RPC_PUBLISH then
        (if length (rpc_publish out) \<ge> publish_capacity storage
         then Inl LIBP2P_GOSSIPSUB_ERR_LIMIT
         else ok_then (gossipsub_message_decode limits nested)
                (\<lambda>x. Inr (out\<lparr>rpc_publish := rpc_publish out @ [x]\<rparr>)))
      else if field = GOSSIPSUB_FIELD_RPC_CONTROL then
        ok_then (gossipsub_control_decode version limits nested storage)
          (\<lambda>c. Inr (out\<lparr>rpc_control := c\<rparr>))
      else Inr out)"

definition body_field ::
  "libp2p_gossipsub_protocol_version_t \<Rightarrow> libp2p_gossipsub_limits_t \<Rightarrow>
   libp2p_gossipsub_rpc_decode_storage_t \<Rightarrow> libp2p_gossipsub_rpc_t \<Rightarrow> u32 \<Rightarrow> u32 \<Rightarrow>
   libp2p_gossipsub_rpc_t field_action" where
  "body_field version limits storage out field wire =
     (if wire \<noteq> GOSSIPSUB_WIRE_LEN
      then Skip_field (body_nested version limits storage out field (Null 0))
      else Read_len_span (body_nested version limits storage out field))"

definition libp2p_gossipsub_rpc_body_decode ::
  "libp2p_gossipsub_protocol_version_t \<Rightarrow> libp2p_gossipsub_limits_t option \<Rightarrow> gbytes \<Rightarrow>
   libp2p_gossipsub_rpc_decode_storage_t option \<Rightarrow> bool \<Rightarrow> libp2p_gossipsub_rpc_t gresult" where
  "libp2p_gossipsub_rpc_body_decode version limits inp storage out_given =
     ok_then (validate_version_limits version limits) (\<lambda>limits.
     case (inp, storage) of
       (Buf bs, Some storage) \<Rightarrow>
         if \<not> out_given then Inl LIBP2P_GOSSIPSUB_ERR_INVALID_ARG
         else if length bs > max_rpc_bytes limits then Inl LIBP2P_GOSSIPSUB_ERR_LIMIT
         else
           ok_then
             (decode_fields (body_field version limits storage) bs 0
                \<lparr>rpc_subscriptions = [], rpc_publish = [], rpc_control = empty_control\<rparr>)
             (\<lambda>out. if length (rpc_subscriptions out) > max_subscriptions_per_rpc limits \<or>
                       length (rpc_publish out) > max_publish_per_rpc limits
                    then Inl LIBP2P_GOSSIPSUB_ERR_LIMIT else Inr out)
     | _ \<Rightarrow> Inl LIBP2P_GOSSIPSUB_ERR_INVALID_ARG)"

definition libp2p_gossipsub_rpc_frame_size ::
  "libp2p_gossipsub_protocol_version_t \<Rightarrow> libp2p_gossipsub_limits_t option \<Rightarrow>
   libp2p_gossipsub_rpc_t option \<Rightarrow> bool \<Rightarrow> nat gresult" where
  "libp2p_gossipsub_rpc_frame_size version limits rpc out_len_given =
     ok_then (libp2p_gossipsub_rpc_body_size version limits rpc True) (\<lambda>body_len.
       if \<not> out_len_given then Inl LIBP2P_GOSSIPSUB_ERR_INVALID_ARG
       else case gossipsub_size_add (libp2p_uvarint_size (of_nat body_len)) body_len of
         (True, _) \<Rightarrow> Inl LIBP2P_GOSSIPSUB_ERR_LIMIT
       | (False, n) \<Rightarrow> Inr n)"

definition libp2p_gossipsub_rpc_frame_encode ::
  "libp2p_gossipsub_protocol_version_t \<Rightarrow> libp2p_gossipsub_limits_t option \<Rightarrow>
   libp2p_gossipsub_rpc_t option \<Rightarrow> gbytes \<Rightarrow> bool \<Rightarrow> gencoder" where
  "libp2p_gossipsub_rpc_frame_encode version limits rpc out written_given =
     encode_measured
       (ok_then (libp2p_gossipsub_rpc_frame_size version limits rpc True)
          (\<lambda>n. if written_given then Inr n else Inl LIBP2P_GOSSIPSUB_ERR_INVALID_ARG))
       out (\<lambda>out.
       case libp2p_gossipsub_rpc_body_size version limits rpc True of
         Inl e \<Rightarrow> Some (e, 0, out)
       | Inr body_len \<Rightarrow>
           w_then (gossipsub_write_uvarint (of_nat body_len) out 0) (\<lambda>pos out. do {
             (result, written, part) \<leftarrow>
               libp2p_gossipsub_rpc_body_encode version limits rpc (Buf (drop pos out)) True;
             let out' = take pos out @ contents part;
             Some (result,
               (if result = LIBP2P_GOSSIPSUB_OK then pos + the written else pos), out')
           }))"

definition libp2p_gossipsub_rpc_frame_decode ::
  "libp2p_gossipsub_protocol_version_t \<Rightarrow> libp2p_gossipsub_limits_t option \<Rightarrow> gbytes \<Rightarrow>
   libp2p_gossipsub_rpc_decode_storage_t option \<Rightarrow> bool \<Rightarrow> libp2p_gossipsub_rpc_t gresult" where
  "libp2p_gossipsub_rpc_frame_decode version limits inp storage out_given =
     ok_then (validate_version_limits version limits) (\<lambda>l.
     case (inp, storage) of
       (Buf bs, Some st) \<Rightarrow>
         if \<not> out_given then Inl LIBP2P_GOSSIPSUB_ERR_INVALID_ARG
         else ok_then (gossipsub_read_uvarint bs 0) (\<lambda>(pos, body_len).
           if unat body_len > max_rpc_bytes l \<or> unat body_len > length bs - pos
           then Inl LIBP2P_GOSSIPSUB_ERR_TRUNCATED
           else if unat body_len + pos \<noteq> length bs then Inl LIBP2P_GOSSIPSUB_ERR_MALFORMED
           else libp2p_gossipsub_rpc_body_decode version limits
                  (Buf (take (unat body_len) (drop pos bs))) storage out_given)
     | _ \<Rightarrow> Inl LIBP2P_GOSSIPSUB_ERR_INVALID_ARG)"

end
