(* ===== verification/Gossipsub_Wire_Laws.thy ===== *)
theory Gossipsub_Wire_Laws
  imports Gossipsub_Wire
begin

text \<open>
  What the wire layer of gossipsub does, over two reference encodings: \<open>varint_field\<close> and
  \<open>len_field\<close>, the protobuf fields of wire types 0 and 2. Writers are described by \<open>appends\<close>
  (started at any position of a buffer with enough room they add exactly the given bytes and
  leave the rest alone), readers and the field loop by their effect on an input that starts with
  a field.
\<close>

definition varint_field :: "nat \<Rightarrow> nat \<Rightarrow> byte list" where
  "varint_field k v = uvarint_bytes (8 * k) @ uvarint_bytes v"

definition len_field :: "nat \<Rightarrow> byte list \<Rightarrow> byte list" where
  "len_field k bs = uvarint_bytes (8 * k + 2) @ uvarint_bytes (length bs) @ bs"

lemma len_field_nonempty [simp]: "len_field k bs \<noteq> []"
  by (simp add: len_field_def)

lemma varint_field_nonempty [simp]: "varint_field k v \<noteq> []"
  by (simp add: varint_field_def)

lemma length_len_field: "length bs < length (len_field k bs)"
  by (simp add: len_field_def)

subsection \<open>Sizes\<close>

lemma size_add_iff: "gossipsub_size_add a b = (False, c) \<longleftrightarrow> c = a + b \<and> a + b \<le> SIZE_MAX"
  if "a \<le> SIZE_MAX"
  using that by (auto simp: gossipsub_size_add_def)

lemma unat_gossipsub_key:
  assumes "unat wire < 8"
  shows "unat (gossipsub_key field wire) = 8 * unat field + unat wire"
proof -
  have "unat field < 2 ^ 32" using unsigned_less [of field] by simp
  then have "unat (push_bit 3 (ucast field :: u64) OR ucast wire) =
      unat (ucast field :: u64) * 2 ^ 3 + unat (ucast wire :: u64)"
    using assms by (intro unat_shift_or) (simp_all add: unat_ucast_word)
  then show ?thesis by (simp add: gossipsub_key_def unat_ucast_word)
qed

lemma unat_of_nat_size: "n \<le> SIZE_MAX \<Longrightarrow> unat (of_nat n :: u64) = n"
  by (simp add: SIZE_MAX_def unat_of_nat)

lemma field_size_len_iff:
  assumes "total0 \<le> SIZE_MAX" and "k < 2 ^ 29"
  shows "gossipsub_field_size (of_nat k) GOSSIPSUB_WIRE_LEN n total0 = Inr t \<longleftrightarrow>
    t = total0 + (length (uvarint_bytes (8 * k + 2)) + length (uvarint_bytes n) + n) \<and>
    t \<le> SIZE_MAX"
proof (cases "n \<le> SIZE_MAX")
  case True
  have k: "unat (gossipsub_key (of_nat k) GOSSIPSUB_WIRE_LEN) = 8 * k + 2"
    using assms(2) by (simp add: unat_gossipsub_key GOSSIPSUB_WIRE_LEN_def unat_of_nat)
  show ?thesis
    using assms(1) True
    by (auto simp: gossipsub_field_size_def Let_def k unat_of_nat_size gossipsub_size_add_def)
next
  case False
  then show ?thesis
    by (auto simp: gossipsub_field_size_def Let_def gossipsub_size_add_def)
qed

lemma field_size_varint_iff:
  assumes "total0 \<le> SIZE_MAX" and "n \<le> SIZE_MAX" and "k < 2 ^ 29"
  shows "gossipsub_field_size (of_nat k) GOSSIPSUB_WIRE_VARINT n total0 = Inr t \<longleftrightarrow>
    t = total0 + length (varint_field k n) \<and> t \<le> SIZE_MAX"
proof -
  have k: "unat (gossipsub_key (of_nat k) GOSSIPSUB_WIRE_VARINT) = 8 * k"
    using assms(3) by (simp add: unat_gossipsub_key GOSSIPSUB_WIRE_VARINT_def unat_of_nat)
  have "GOSSIPSUB_WIRE_VARINT \<noteq> GOSSIPSUB_WIRE_LEN" by (simp add: gossipsub_wire_defs)
  then show ?thesis
    using assms(1,2)
    by (auto simp: gossipsub_field_size_def Let_def k unat_of_nat_size gossipsub_size_add_def
        varint_field_def)
qed

lemma ok_then_Inr_iff: "ok_then r f = Inr y \<longleftrightarrow> (\<exists>x. r = Inr x \<and> f x = Inr y)"
  by (cases r) (auto simp: ok_then_def)

text \<open>\<open>Inl\<close> always carries an error.\<close>

lemma ok_then_no_ok:
  "r \<noteq> Inl LIBP2P_GOSSIPSUB_OK \<Longrightarrow> (\<And>x. f x \<noteq> Inl LIBP2P_GOSSIPSUB_OK) \<Longrightarrow>
   ok_then r f \<noteq> Inl LIBP2P_GOSSIPSUB_OK"
  by (cases r) (auto simp: ok_then_def)

lemma field_size_no_ok: "gossipsub_field_size field wire n t \<noteq> Inl LIBP2P_GOSSIPSUB_OK"
  by (simp add: gossipsub_field_size_def Let_def split: prod.split bool.split)

lemma ok_then_Inr [simp]: "ok_then (Inr x) f = f x"
  by (simp add: ok_then_def)

lemma ok_then_Inl [simp]: "ok_then (Inl e) f = Inl e"
  by (simp add: ok_then_def)

subsection \<open>Writers\<close>

definition appends :: "(byte list \<Rightarrow> nat \<Rightarrow> gwriter) \<Rightarrow> byte list \<Rightarrow> bool" where
  "appends w bs \<longleftrightarrow>
     (\<forall>a r. length bs \<le> length r \<longrightarrow>
        w (a @ r) (length a) =
          Some (LIBP2P_GOSSIPSUB_OK, length a + length bs, a @ bs @ drop (length bs) r))"

lemma appendsD:
  "appends w bs \<Longrightarrow> length bs \<le> length r \<Longrightarrow>
   w (a @ r) (length a) =
     Some (LIBP2P_GOSSIPSUB_OK, length a + length bs, a @ bs @ drop (length bs) r)"
  by (simp add: appends_def)

lemma appends_start:
  "appends w bs \<Longrightarrow> length bs \<le> length r \<Longrightarrow>
   w r 0 = Some (LIBP2P_GOSSIPSUB_OK, length bs, bs @ drop (length bs) r)"
  using appendsD [of w bs r "[]"] by simp

lemma appends_nil [intro]: "appends (\<lambda>out pos. Some (LIBP2P_GOSSIPSUB_OK, pos, out)) []"
  by (simp add: appends_def)

lemma appends_then [intro]:
  assumes "appends w b" and "appends v c"
  shows "appends (\<lambda>out pos. w_then (w out pos) (\<lambda>pos out. v out pos)) (b @ c)"
  unfolding appends_def
proof (intro allI impI)
  fix a r :: "byte list"
  assume l: "length (b @ c) \<le> length r"
  then have "w (a @ r) (length a) =
      Some (LIBP2P_GOSSIPSUB_OK, length (a @ b), (a @ b) @ drop (length b) r)"
    using appendsD [OF assms(1), of r a] by simp
  moreover have "v ((a @ b) @ drop (length b) r) (length (a @ b)) =
      Some (LIBP2P_GOSSIPSUB_OK, length (a @ b) + length c,
        (a @ b) @ c @ drop (length c) (drop (length b) r))"
    using l by (intro appendsD [OF assms(2)]) simp
  ultimately show "w_then (w (a @ r) (length a)) (\<lambda>pos out. v out pos) =
      Some (LIBP2P_GOSSIPSUB_OK, length a + length (b @ c),
        a @ (b @ c) @ drop (length (b @ c)) r)"
    by (simp add: w_then_def add.commute add.left_commute)
qed

lemma appends_write_uvarint:
  assumes "unat v < 2 ^ 63"
  shows "appends (gossipsub_write_uvarint v) (uvarint_bytes (unat v))"
proof -
  have "libp2p_uvarint_encode v (Buf r) =
      Some (LIBP2P_UVARINT_OK, length (uvarint_bytes (unat v)),
        Buf (uvarint_bytes (unat v) @ drop (length (uvarint_bytes (unat v))) r))"
    if "length (uvarint_bytes (unat v)) \<le> length r" for r
    using uvarint_encode_value [OF assms] that assms
    by (simp add: libp2p_uvarint_encode_def Let_def word_less_nat_alt)
  then show ?thesis by (simp add: appends_def gossipsub_write_uvarint_def)
qed

lemma appends_key:
  assumes "k < 2 ^ 29" and "unat wire < 8"
  shows "appends (gossipsub_write_uvarint (gossipsub_key (of_nat k) wire))
    (uvarint_bytes (8 * k + unat wire))"
proof -
  have "unat (gossipsub_key (of_nat k) wire) = 8 * k + unat wire"
    using assms by (simp add: unat_gossipsub_key unat_of_nat)
  then show ?thesis using appends_write_uvarint [of "gossipsub_key (of_nat k) wire"] assms by simp
qed

lemma appends_key_len:
  "k < 2 ^ 29 \<Longrightarrow>
   appends (gossipsub_write_uvarint (gossipsub_key (of_nat k) GOSSIPSUB_WIRE_LEN))
     (uvarint_bytes (8 * k + 2))"
  using appends_key [of k GOSSIPSUB_WIRE_LEN] by (simp add: GOSSIPSUB_WIRE_LEN_def)

lemma appends_key_varint:
  "k < 2 ^ 29 \<Longrightarrow>
   appends (gossipsub_write_uvarint (gossipsub_key (of_nat k) GOSSIPSUB_WIRE_VARINT))
     (uvarint_bytes (8 * k))"
  using appends_key [of k GOSSIPSUB_WIRE_VARINT] by (simp add: GOSSIPSUB_WIRE_VARINT_def)

lemma appends_of_nat:
  "n < 2 ^ 63 \<Longrightarrow> appends (gossipsub_write_uvarint (of_nat n)) (uvarint_bytes n)"
  using appends_write_uvarint [of "of_nat n"] by (simp add: unat_of_nat)

lemma appends_len_prefix:
  assumes "k < 2 ^ 29" and "n < 2 ^ 63"
  shows "appends (gossipsub_write_len_prefix (of_nat k) n)
    (uvarint_bytes (8 * k + 2) @ uvarint_bytes n)"
  unfolding gossipsub_write_len_prefix_def
  using assms by (intro appends_then appends_key_len appends_of_nat)

lemma appends_varint_field:
  assumes "k < 2 ^ 29" and "unat v < 2 ^ 63"
  shows "appends (gossipsub_write_varint_field (of_nat k) v) (varint_field k (unat v))"
  unfolding gossipsub_write_varint_field_def varint_field_def
  using assms by (intro appends_then appends_key_varint appends_write_uvarint)

lemma appends_copy:
  "appends (\<lambda>out pos. if length bs > length out - pos
     then Some (LIBP2P_GOSSIPSUB_ERR_BUF_TOO_SMALL, pos, out)
     else do {out' \<leftarrow> memcpy_at out pos bs; Some (LIBP2P_GOSSIPSUB_OK, pos + length bs, out')}) bs"
  by (auto simp: appends_def mem_simps)

lemma appends_len_field:
  assumes "k < 2 ^ 29" and "length (contents d) < 2 ^ 63" and "clen d = length (contents d)"
  shows "appends (gossipsub_write_len_field (of_nat k) d) (len_field k (contents d))"
proof -
  have "\<not> (is_null d \<and> clen d \<noteq> 0)" using assms(3) by (cases d) auto
  then show ?thesis
    unfolding gossipsub_write_len_field_def len_field_def assms(3)
    using assms(1,2)
    by (simp only: if_False) (intro appends_then appends_key_len appends_of_nat appends_copy)
qed

subsection \<open>Readers\<close>

definition shift_pos :: "nat \<Rightarrow> (nat \<times> 'a) gresult \<Rightarrow> (nat \<times> 'a) gresult" where
  "shift_pos n r = (case r of Inl e \<Rightarrow> Inl e | Inr (p, x) \<Rightarrow> Inr (n + p, x))"

lemma read_uvarint_shift:
  "gossipsub_read_uvarint (a @ b) (length a + p) = shift_pos (length a) (gossipsub_read_uvarint b p)"
  by (auto simp: gossipsub_read_uvarint_def shift_pos_def Let_def split: prod.splits)

lemma read_len_span_shift:
  "gossipsub_read_len_span (a @ b) (length a + p) = shift_pos (length a) (gossipsub_read_len_span b p)"
  by (auto simp: gossipsub_read_len_span_def read_uvarint_shift shift_pos_def split: sum.splits)

lemma skip_field_shift:
  "gossipsub_skip_field wire (a @ b) (length a + p) =
     (case gossipsub_skip_field wire b p of Inl e \<Rightarrow> Inl e | Inr q \<Rightarrow> Inr (length a + q))"
  by (auto simp: gossipsub_skip_field_def read_uvarint_shift shift_pos_def split: sum.splits)

lemma perform_shift:
  "perform act wire (a @ b) (length a + p) = shift_pos (length a) (perform act wire b p)"
  by (cases act) (auto simp: read_uvarint_shift read_len_span_shift skip_field_shift shift_pos_def
      split: sum.splits)

lemma decode_fields_shift:
  "decode_fields act (a @ b) (length a + p) s = decode_fields act b p s"
proof (induction "length b - p" arbitrary: p s rule: less_induct)
  case less
  show ?case
  proof (cases "p < length b")
    case True
    have IH: "decode_fields act (a @ b) (length a + q) s' = decode_fields act b q s'"
      if "p < q" for q s' using less that True by simp
    show ?thesis
      by (subst (1 2) decode_fields.simps)
        (auto simp: read_uvarint_shift perform_shift shift_pos_def Let_def
          split: sum.splits dest!: read_uvarint_progress perform_progress intro!: IH)
  next
    case False
    then show ?thesis by (simp add: decode_fields.simps)
  qed
qed

lemma decode_fields_rest: "decode_fields act (a @ b) (length a) s = decode_fields act b 0 s"
  using decode_fields_shift [of act a b 0 s] by simp

lemma decode_fields_nil [simp]: "decode_fields act [] 0 s = Inr s"
  by (simp add: decode_fields.simps)

lemma read_uvarint_bytes:
  "n < 2 ^ 63 \<Longrightarrow> gossipsub_read_uvarint (uvarint_bytes n @ r) 0 =
     Inr (length (uvarint_bytes n), of_nat n)"
  by (simp add: gossipsub_read_uvarint_def codec_laws)

lemma read_len_span_bytes:
  assumes "length bs < 2 ^ 63"
  shows "gossipsub_read_len_span (uvarint_bytes (length bs) @ bs @ r) 0 =
    Inr (length (uvarint_bytes (length bs)) + length bs, Buf bs)"
  using assms by (simp add: gossipsub_read_len_span_def read_uvarint_bytes unat_of_nat)

lemma skip_field_bytes:
  assumes "length bs < 2 ^ 63"
  shows "gossipsub_skip_field GOSSIPSUB_WIRE_LEN (uvarint_bytes (length bs) @ bs @ r) 0 =
    Inr (length (uvarint_bytes (length bs)) + length bs)"
  using assms by (simp add: gossipsub_skip_field_def gossipsub_wire_defs read_uvarint_bytes unat_of_nat)

lemma key_split:
  assumes "n < 2 ^ 32"
  shows "(ucast (drop_bit 3 (of_nat n :: u64)) :: u32) = of_nat (n div 8)"
    and "(ucast ((of_nat n :: u64) AND 7) :: u32) = of_nat (n mod 8)"
proof -
  have u: "unat (of_nat n :: u64) = n"
    using assms by (simp add: unat_of_nat)
  have "unat (drop_bit 3 (of_nat n :: u64)) = n div 8"
    unfolding unat_drop_bit_div u by simp
  then show "(ucast (drop_bit 3 (of_nat n :: u64)) :: u32) = of_nat (n div 8)"
    by (metis of_nat_unat)
  have "(of_nat n :: u64) AND 7 = of_nat n AND mask 3"
    by (simp add: mask_eq_exp_minus_1)
  then have "unat ((of_nat n :: u64) AND 7) = n mod 8"
    using unat_and_mask [of "of_nat n :: u64" 3] u by simp
  then show "(ucast ((of_nat n :: u64) AND 7) :: u32) = of_nat (n mod 8)"
    by (metis of_nat_unat)
qed

text \<open>The effect of an action on a length-delimited and on a varint field.\<close>

fun on_span :: "'s field_action \<Rightarrow> byte list \<Rightarrow> 's gresult option" where
  "on_span (Skip_field r) bs = Some r"
| "on_span (Read_len_span f) bs = Some (f (Buf bs))"
| "on_span (Refuse e) bs = Some (Inl e)"
| "on_span (Read_uvarint f) bs = None"

fun on_varint :: "'s field_action \<Rightarrow> u64 \<Rightarrow> 's gresult option" where
  "on_varint (Skip_field r) v = Some r"
| "on_varint (Read_uvarint f) v = Some (f v)"
| "on_varint (Refuse e) v = Some (Inl e)"
| "on_varint (Read_len_span f) v = None"

lemma decode_key:
  assumes "n < 2 ^ 32"
  shows "decode_fields act (uvarint_bytes n @ b) 0 s =
    (case perform (act s (of_nat (n div 8)) (of_nat (n mod 8))) (of_nat (n mod 8)) b 0 of
       Inl e \<Rightarrow> Inl e | Inr (p, s') \<Rightarrow> decode_fields act b p s')"
proof -
  have "n < 2 ^ 63" using assms by simp
  note rk = read_uvarint_bytes [OF this, of b]
  note sh = perform_shift [of _ _ "uvarint_bytes n" b 0, simplified]
  show ?thesis
    using assms
    by (subst decode_fields.simps)
      (auto simp: rk key_split Let_def sh shift_pos_def decode_fields_shift split: sum.splits)
qed

lemma decode_len_field:
  assumes "k < 2 ^ 29" and "length bs < 2 ^ 63"
    and "on_span (act s (of_nat k) GOSSIPSUB_WIRE_LEN) bs = Some res"
  shows "decode_fields act (len_field k bs @ r) 0 s =
    (case res of Inl e \<Rightarrow> Inl e | Inr s' \<Rightarrow> decode_fields act r 0 s')"
proof -
  let ?l = "uvarint_bytes (length bs)"
  have n: "8 * k + 2 < 2 ^ 32" and dm: "(8 * k + 2) div 8 = k" "(8 * k + 2) mod 8 = 2"
    using assms(1) by (simp, presburger, presburger)
  have "decode_fields act (len_field k bs @ r) 0 s =
    (case perform (act s (of_nat k) GOSSIPSUB_WIRE_LEN) GOSSIPSUB_WIRE_LEN (?l @ bs @ r) 0 of
       Inl e \<Rightarrow> Inl e | Inr (p, s') \<Rightarrow> decode_fields act (?l @ bs @ r) p s')"
    using decode_key [OF n, of act "?l @ bs @ r" s]
    unfolding dm by (simp only: len_field_def GOSSIPSUB_WIRE_LEN_def append_assoc of_nat_numeral)
  moreover have "decode_fields act (?l @ bs @ r) (length ?l + length bs) s' = decode_fields act r 0 s'" for s'
    using decode_fields_rest [of act "?l @ bs" r s'] by simp
  ultimately show ?thesis
    using assms(2,3)
    by (cases "act s (of_nat k) GOSSIPSUB_WIRE_LEN")
      (auto simp: read_len_span_bytes skip_field_bytes split: sum.splits)
qed

lemma decode_varint_field:
  assumes "k < 2 ^ 29" and "v < 2 ^ 63"
    and "on_varint (act s (of_nat k) GOSSIPSUB_WIRE_VARINT) (of_nat v) = Some res"
  shows "decode_fields act (varint_field k v @ r) 0 s =
    (case res of Inl e \<Rightarrow> Inl e | Inr s' \<Rightarrow> decode_fields act r 0 s')"
proof -
  let ?l = "uvarint_bytes v"
  have "decode_fields act (varint_field k v @ r) 0 s =
    (case perform (act s (of_nat k) GOSSIPSUB_WIRE_VARINT) GOSSIPSUB_WIRE_VARINT (?l @ r) 0 of
       Inl e \<Rightarrow> Inl e | Inr (p, s') \<Rightarrow> decode_fields act (?l @ r) p s')"
    using decode_key [of "8 * k" act "?l @ r" s] assms(1)
    by (simp add: varint_field_def GOSSIPSUB_WIRE_VARINT_def)
  moreover have "gossipsub_skip_field GOSSIPSUB_WIRE_VARINT (?l @ r) 0 = Inr (length ?l)"
    using assms(2) by (simp add: gossipsub_skip_field_def read_uvarint_bytes)
  ultimately show ?thesis
    using assms(2,3)
    by (cases "act s (of_nat k) GOSSIPSUB_WIRE_VARINT")
      (auto simp: read_uvarint_bytes decode_fields_rest split: sum.splits)
qed

text \<open>What every action keeps, the loop keeps.\<close>

fun keeps :: "('s \<Rightarrow> bool) \<Rightarrow> 's field_action \<Rightarrow> bool" where
  "keeps P (Skip_field r) = (case r of Inl e \<Rightarrow> True | Inr s \<Rightarrow> P s)"
| "keeps P (Read_uvarint f) = (\<forall>v s. f v = Inr s \<longrightarrow> P s)"
| "keeps P (Read_len_span f) = (\<forall>b s. f (Buf b) = Inr s \<longrightarrow> P s)"
| "keeps P (Refuse e) = True"

lemma perform_keeps: "perform a wire inp pos = Inr (p, s) \<Longrightarrow> keeps P a \<Longrightarrow> P s"
  by (cases a) (auto split: sum.splits prod.splits if_splits simp: gossipsub_read_len_span_def)

lemma decode_fields_invariant:
  assumes step: "\<And>s field wire. P s \<Longrightarrow> keeps P (act s field wire)"
  shows "P s \<Longrightarrow> decode_fields act inp pos s = Inr s' \<Longrightarrow> P s'"
proof (induction "length inp - pos" arbitrary: pos s rule: less_induct)
  case less
  show ?case
  proof (cases "pos < length inp")
    case False
    with less.prems show ?thesis by (simp add: decode_fields.simps)
  next
    case True
    from less.prems(2) True obtain pos1 key pos2 s2 where
      r: "gossipsub_read_uvarint inp pos = Inr (pos1, key)" and
      p: "perform (act s (ucast (drop_bit 3 key)) (ucast (key AND 7))) (ucast (key AND 7)) inp pos1
            = Inr (pos2, s2)" and
      d: "decode_fields act inp pos2 s2 = Inr s'"
      by (subst (asm) decode_fields.simps) (auto simp: Let_def split: sum.splits)
    have "length inp - pos2 < length inp - pos"
      using True read_uvarint_progress [OF r] perform_progress [OF p] by linarith
    moreover have "P s2" using perform_keeps [OF p] step [OF less.prems(1)] by blast
    ultimately show ?thesis using less.hyps d by blast
  qed
qed

end
