(* ===== verification/Gossipsub_Encode.thy ===== *)
theory Gossipsub_Encode
  imports Gossipsub_Codec Gossipsub_Wire_Laws
begin

text \<open>
  The gossipsub encoders against a reference encoding. The protobuf image of every structure is
  a function to bytes (\<open>message_bytes\<close>, \<open>control_bytes\<close>, \<open>body_bytes\<close>, \<open>frame_bytes\<close>), the structures
  the encoders accept are described by a predicate (\<open>message_ok\<close>, ..., \<open>rpc_ok\<close>). The locale
  \<open>submessage\<close> is the contract between a size function, an encoder, such a predicate and such an
  image; the loops over repeated submessages are treated once inside it, and every kind of
  submessage interprets it.
\<close>

subsection \<open>The reference encoding\<close>

definition span_ok :: "nat \<Rightarrow> gbytes \<Rightarrow> bool" where
  "span_ok limit b \<longleftrightarrow> \<not> is_null b \<and> clen b \<noteq> 0 \<and> clen b \<le> limit"

definition ids_ok :: "libp2p_gossipsub_limits_t \<Rightarrow> gbytes cbuf \<Rightarrow> bool" where
  "ids_ok l ids \<longleftrightarrow> clen ids \<le> max_message_ids_per_rpc l \<and> (is_null ids \<longrightarrow> clen ids = 0) \<and>
     list_all (span_ok (max_message_id_bytes l)) (contents ids)"

definition message_ok :: "libp2p_gossipsub_limits_t \<Rightarrow> libp2p_gossipsub_message_t \<Rightarrow> bool" where
  "message_ok l m \<longleftrightarrow>
     span_ok (max_topic_bytes l) (msg_topic m) \<and> clen (msg_data m) \<le> max_message_data_bytes l"

definition sub_ok :: "libp2p_gossipsub_limits_t \<Rightarrow> libp2p_gossipsub_rpc_subscription_t \<Rightarrow> bool" where
  "sub_ok l s \<longleftrightarrow> span_ok (max_topic_bytes l) (sub_topic s)"

definition ihave_ok :: "libp2p_gossipsub_limits_t \<Rightarrow> libp2p_gossipsub_control_ihave_t \<Rightarrow> bool" where
  "ihave_ok l h \<longleftrightarrow> span_ok (max_topic_bytes l) (ihave_topic h) \<and> ids_ok l (ihave_message_ids h)"

definition iwant_ok :: "libp2p_gossipsub_limits_t \<Rightarrow> libp2p_gossipsub_control_iwant_t \<Rightarrow> bool" where
  "iwant_ok l w \<longleftrightarrow> ids_ok l (iwant_message_ids w)"

definition graft_ok :: "libp2p_gossipsub_limits_t \<Rightarrow> libp2p_gossipsub_control_graft_t \<Rightarrow> bool" where
  "graft_ok l g \<longleftrightarrow> span_ok (max_topic_bytes l) (graft_topic g)"

definition prune_ok :: "libp2p_gossipsub_limits_t \<Rightarrow> libp2p_gossipsub_control_prune_t \<Rightarrow> bool" where
  "prune_ok l p \<longleftrightarrow> span_ok (max_topic_bytes l) (prune_topic p)"

definition idontwant_ok ::
  "libp2p_gossipsub_protocol_version_t \<Rightarrow> libp2p_gossipsub_limits_t \<Rightarrow>
   libp2p_gossipsub_control_idontwant_t \<Rightarrow> bool" where
  "idontwant_ok v l d \<longleftrightarrow> v = LIBP2P_GOSSIPSUB_VERSION_12 \<and> ids_ok l (idontwant_message_ids d)"

definition control_ok ::
  "libp2p_gossipsub_protocol_version_t \<Rightarrow> libp2p_gossipsub_limits_t \<Rightarrow>
   libp2p_gossipsub_rpc_control_t \<Rightarrow> bool" where
  "control_ok v l c \<longleftrightarrow>
     length (ctl_ihave c) \<le> max_ihave_per_rpc l \<and> list_all (ihave_ok l) (ctl_ihave c) \<and>
     length (ctl_iwant c) \<le> max_iwant_per_rpc l \<and> list_all (iwant_ok l) (ctl_iwant c) \<and>
     length (ctl_graft c) \<le> max_graft_per_rpc l \<and> list_all (graft_ok l) (ctl_graft c) \<and>
     length (ctl_prune c) \<le> max_prune_per_rpc l \<and> list_all (prune_ok l) (ctl_prune c) \<and>
     length (ctl_idontwant c) \<le> max_idontwant_per_rpc l \<and>
     list_all (idontwant_ok v l) (ctl_idontwant c)"

definition present_bytes :: "nat \<Rightarrow> gbytes \<Rightarrow> byte list" where
  "present_bytes k b = (if gossipsub_bytes_present b then len_field k (contents b) else [])"

definition nested_bytes :: "nat \<Rightarrow> ('a \<Rightarrow> byte list) \<Rightarrow> 'a list \<Rightarrow> byte list" where
  "nested_bytes k enc xs = concat (map (\<lambda>x. len_field k (enc x)) xs)"

definition message_bytes :: "libp2p_gossipsub_message_t \<Rightarrow> byte list" where
  "message_bytes m =
     present_bytes 1 (msg_from m) @ present_bytes 2 (msg_data m) @ present_bytes 3 (msg_seqno m) @
     len_field 4 (contents (msg_topic m)) @ present_bytes 5 (msg_signature m) @
     present_bytes 6 (msg_key m)"

definition sub_bytes :: "libp2p_gossipsub_rpc_subscription_t \<Rightarrow> byte list" where
  "sub_bytes s =
     varint_field 1 (if sub_subscribe s \<noteq> 0 then 1 else 0) @ len_field 2 (contents (sub_topic s))"

definition ids_bytes :: "nat \<Rightarrow> gbytes cbuf \<Rightarrow> byte list" where
  "ids_bytes k ids = nested_bytes k contents (contents ids)"

definition ihave_bytes :: "libp2p_gossipsub_control_ihave_t \<Rightarrow> byte list" where
  "ihave_bytes h = len_field 1 (contents (ihave_topic h)) @ ids_bytes 2 (ihave_message_ids h)"

definition iwant_bytes :: "libp2p_gossipsub_control_iwant_t \<Rightarrow> byte list" where
  "iwant_bytes w = ids_bytes 1 (iwant_message_ids w)"

definition graft_bytes :: "libp2p_gossipsub_control_graft_t \<Rightarrow> byte list" where
  "graft_bytes g = len_field 1 (contents (graft_topic g))"

definition prune_bytes :: "libp2p_gossipsub_control_prune_t \<Rightarrow> byte list" where
  "prune_bytes p = len_field 1 (contents (prune_topic p)) @
     (if prune_backoff_seconds p \<noteq> 0 then varint_field 3 (unat (prune_backoff_seconds p)) else [])"

definition idontwant_bytes :: "libp2p_gossipsub_control_idontwant_t \<Rightarrow> byte list" where
  "idontwant_bytes d = ids_bytes 1 (idontwant_message_ids d)"

definition control_bytes :: "libp2p_gossipsub_rpc_control_t \<Rightarrow> byte list" where
  "control_bytes c =
     nested_bytes 1 ihave_bytes (ctl_ihave c) @ nested_bytes 2 iwant_bytes (ctl_iwant c) @
     nested_bytes 3 graft_bytes (ctl_graft c) @ nested_bytes 4 prune_bytes (ctl_prune c) @
     nested_bytes 5 idontwant_bytes (ctl_idontwant c)"

definition body_bytes :: "libp2p_gossipsub_rpc_t \<Rightarrow> byte list" where
  "body_bytes r =
     nested_bytes 1 sub_bytes (rpc_subscriptions r) @
     nested_bytes 2 message_bytes (rpc_publish r) @
     (if control_present (rpc_control r) then len_field 3 (control_bytes (rpc_control r)) else [])"

definition frame_bytes :: "libp2p_gossipsub_rpc_t \<Rightarrow> byte list" where
  "frame_bytes r = uvarint_bytes (length (body_bytes r)) @ body_bytes r"

text \<open>A varint has at most 63 bits, which only the backoff of a PRUNE can exceed.\<close>

definition prune_writable :: "libp2p_gossipsub_control_prune_t \<Rightarrow> bool" where
  "prune_writable p \<longleftrightarrow> unat (prune_backoff_seconds p) < 2 ^ 63"

definition control_writable :: "libp2p_gossipsub_rpc_control_t \<Rightarrow> bool" where
  "control_writable c \<longleftrightarrow> list_all prune_writable (ctl_prune c)"

definition rpc_ok ::
  "libp2p_gossipsub_protocol_version_t \<Rightarrow> libp2p_gossipsub_limits_t \<Rightarrow>
   libp2p_gossipsub_rpc_t \<Rightarrow> bool" where
  "rpc_ok v l r \<longleftrightarrow>
     length (rpc_subscriptions r) \<le> max_subscriptions_per_rpc l \<and>
     list_all (sub_ok l) (rpc_subscriptions r) \<and>
     length (rpc_publish r) \<le> max_publish_per_rpc l \<and>
     list_all (message_ok l) (rpc_publish r) \<and> control_ok v l (rpc_control r)"

subsection \<open>Fields\<close>

lemma present_field_size_iff:
  assumes "total0 \<le> SIZE_MAX" and "k < 2 ^ 29"
  shows "present_field_size (of_nat k) b total0 = Inr t \<longleftrightarrow>
    t = total0 + length (present_bytes k b) \<and> t \<le> SIZE_MAX"
  using field_size_len_iff [OF assms, of "clen b" t] assms(1)
  by (cases b) (auto simp: present_field_size_def present_bytes_def len_field_def
      gossipsub_bytes_present_def add.assoc)

lemma field_size_span_iff:
  assumes "total0 \<le> SIZE_MAX" and "k < 2 ^ 29" and "\<not> is_null b"
  shows "gossipsub_field_size (of_nat k) GOSSIPSUB_WIRE_LEN (clen b) total0 = Inr t \<longleftrightarrow>
    t = total0 + length (len_field k (contents b)) \<and> t \<le> SIZE_MAX"
  using field_size_len_iff [OF assms(1,2), of "clen b" t] assms(3)
  by (cases b) (auto simp: len_field_def add.assoc)

lemma appends_present:
  assumes "k < 2 ^ 29" and "length (present_bytes k b) < 2 ^ 63"
  shows "appends (write_present_field (of_nat k) b) (present_bytes k b)"
proof (cases "gossipsub_bytes_present b")
  case True
  then have "clen b = length (contents b)" by (cases b) (auto simp: gossipsub_bytes_present_def)
  moreover have "length (contents b) < 2 ^ 63"
    using assms(2) length_len_field [of "contents b" k] True by (simp add: present_bytes_def)
  ultimately show ?thesis
    using appends_len_field [OF assms(1), of b] True
    by (simp add: write_present_field_def present_bytes_def appends_def)
next
  case False
  then show ?thesis by (simp add: write_present_field_def present_bytes_def appends_def)
qed

lemma appends_span:
  assumes "k < 2 ^ 29" and "length (len_field k (contents b)) < 2 ^ 63" and "\<not> is_null b"
  shows "appends (gossipsub_write_len_field (of_nat k) b) (len_field k (contents b))"
proof -
  have "clen b = length (contents b)" using assms(3) by (cases b) auto
  then show ?thesis
    using appends_len_field [OF assms(1)] assms(2) length_len_field [of "contents b" k] by simp
qed

lemma encode_measured_ok:
  assumes "appends w bs" and "length bs \<le> length out" and "required = Inr (length bs)"
  shows "encode_measured required (Buf out) (\<lambda>out. w out 0) =
    Some (LIBP2P_GOSSIPSUB_OK, Some (length bs), Buf (bs @ drop (length bs) out))"
  using appends_start [OF assms(1,2)] assms(2,3) by (simp add: encode_measured_def)

subsection \<open>The contract of a submessage\<close>

locale submessage =
  fixes size_fn :: "'a \<Rightarrow> nat gresult"
    and encode_fn :: "'a \<Rightarrow> gbytes \<Rightarrow> gencoder"
    and ok :: "'a \<Rightarrow> bool"
    and writable :: "'a \<Rightarrow> bool"
    and enc :: "'a \<Rightarrow> byte list"
  assumes size_iff: "size_fn x = Inr n \<longleftrightarrow> ok x \<and> n = length (enc x) \<and> n \<le> SIZE_MAX"
    and size_no_ok: "size_fn x \<noteq> Inl LIBP2P_GOSSIPSUB_OK"
    and encode_ok: "ok x \<Longrightarrow> writable x \<Longrightarrow> length (enc x) < 2 ^ 63 \<Longrightarrow>
      length (enc x) \<le> length out \<Longrightarrow>
      encode_fn x (Buf out) = Some (LIBP2P_GOSSIPSUB_OK, Some (length (enc x)),
        Buf (enc x @ drop (length (enc x)) out))"
begin

lemma nested_sizes_iff:
  assumes "k < 2 ^ 29"
  shows "total0 \<le> SIZE_MAX \<Longrightarrow> nested_sizes (of_nat k) size_fn xs total0 = Inr n \<longleftrightarrow>
    list_all ok xs \<and> n = total0 + length (nested_bytes k enc xs) \<and> n \<le> SIZE_MAX"
proof (induction xs arbitrary: total0)
  case Nil
  then show ?case by (auto simp: nested_bytes_def)
next
  case (Cons x xs)
  let ?l = "length (len_field k (enc x))"
  have l: "?l = length (uvarint_bytes (8 * k + 2)) + length (uvarint_bytes (length (enc x))) +
      length (enc x)"
    by (simp add: len_field_def)
  have "nested_sizes (of_nat k) size_fn (x # xs) total0 = Inr n \<longleftrightarrow>
    ok x \<and> length (enc x) \<le> SIZE_MAX \<and> total0 + ?l \<le> SIZE_MAX \<and>
    nested_sizes (of_nat k) size_fn xs (total0 + ?l) = Inr n"
    unfolding l using field_size_len_iff [OF Cons.prems assms]
    by (auto simp: ok_then_Inr_iff size_iff)
  also have "\<dots> \<longleftrightarrow> list_all ok (x # xs) \<and> n = total0 + length (nested_bytes k enc (x # xs)) \<and>
      n \<le> SIZE_MAX"
    using Cons.IH [of "total0 + ?l"] length_len_field [of "enc x" k]
    by (auto simp: nested_bytes_def)
  finally show ?case .
qed

lemma nested_sizes_no_ok: "nested_sizes field size_fn xs t \<noteq> Inl LIBP2P_GOSSIPSUB_OK"
  by (induction xs arbitrary: t)
    (simp_all add: ok_then_no_ok size_no_ok field_size_no_ok)

lemma appends_nested:
  assumes "k < 2 ^ 29" and "ok x" and "writable x" and "length (len_field k (enc x)) < 2 ^ 63"
  shows "appends (write_nested (of_nat k) (size_fn x) (encode_fn x)) (len_field k (enc x))"
proof -
  have n: "length (enc x) < 2 ^ 63" using assms(4) length_len_field [of "enc x" k] by simp
  then have s: "size_fn x = Inr (length (enc x))"
    using assms(2) by (simp add: size_iff SIZE_MAX_def)
  have e: "appends (\<lambda>out pos. do {
            (result, written, part) \<leftarrow> encode_fn x (Buf (drop pos out));
            let out' = take pos out @ contents part;
            Some (result,
              (if result = LIBP2P_GOSSIPSUB_OK then pos + the written else pos), out')
          }) (enc x)"
    using encode_ok [OF assms(2,3) n] by (simp add: appends_def)
  show ?thesis
    using appends_then [OF appends_len_prefix [OF assms(1) n] e]
    unfolding write_nested_def s len_field_def by simp
qed

lemma appends_nested_list:
  assumes "k < 2 ^ 29"
  shows "list_all ok xs \<Longrightarrow> list_all writable xs \<Longrightarrow> length (nested_bytes k enc xs) < 2 ^ 63 \<Longrightarrow>
    appends (write_nested_list (of_nat k) size_fn encode_fn xs) (nested_bytes k enc xs)"
proof (induction xs)
  case Nil
  then show ?case by (simp add: appends_def nested_bytes_def)
next
  case (Cons x xs)
  have "appends (write_nested (of_nat k) (size_fn x) (encode_fn x)) (len_field k (enc x))"
    using Cons.prems by (intro appends_nested assms) (auto simp: nested_bytes_def)
  moreover have "appends (write_nested_list (of_nat k) size_fn encode_fn xs) (nested_bytes k enc xs)"
    using Cons.prems by (intro Cons.IH) (auto simp: nested_bytes_def)
  ultimately have "appends (\<lambda>out pos. w_then (write_nested (of_nat k) (size_fn x) (encode_fn x) out pos)
      (\<lambda>pos out. write_nested_list (of_nat k) size_fn encode_fn xs out pos))
      (len_field k (enc x) @ nested_bytes k enc xs)"
    by (rule appends_then)
  then show ?case by (simp add: appends_def nested_bytes_def)
qed

end

subsection \<open>Lists of message ids\<close>

lemma message_id_sizes_iff:
  assumes "k < 2 ^ 29"
  shows "total0 \<le> SIZE_MAX \<Longrightarrow> message_id_sizes (of_nat k) l is total0 = Inr n \<longleftrightarrow>
    list_all (span_ok (max_message_id_bytes l)) is \<and>
    n = total0 + length (nested_bytes k contents is) \<and> n \<le> SIZE_MAX"
proof (induction "is" arbitrary: total0)
  case Nil
  then show ?case by (auto simp: nested_bytes_def)
next
  case (Cons i "is")
  let ?l = "length (len_field k (contents i))"
  have "message_id_sizes (of_nat k) l (i # is) total0 = Inr n \<longleftrightarrow>
    span_ok (max_message_id_bytes l) i \<and> total0 + ?l \<le> SIZE_MAX \<and>
    message_id_sizes (of_nat k) l is (total0 + ?l) = Inr n"
    using field_size_span_iff [OF Cons.prems assms, of i]
    by (auto simp: ok_then_Inr_iff span_ok_def)
  with Cons.IH [of "total0 + ?l"] show ?case by (auto simp: nested_bytes_def)
qed

lemma message_id_list_size_iff:
  assumes "k < 2 ^ 29" and "total0 \<le> SIZE_MAX"
  shows "gossipsub_message_id_list_size (of_nat k) l ids total0 = Inr n \<longleftrightarrow>
    ids_ok l ids \<and> n = total0 + length (ids_bytes k ids) \<and> n \<le> SIZE_MAX"
  using message_id_sizes_iff [OF assms, of l "contents ids" n] assms(2)
  by (cases ids) (auto simp: gossipsub_message_id_list_size_def ids_ok_def ids_bytes_def
      nested_bytes_def)

lemma message_id_list_size_no_ok:
  "gossipsub_message_id_list_size field l ids t \<noteq> Inl LIBP2P_GOSSIPSUB_OK"
proof -
  have "message_id_sizes field l is t \<noteq> Inl LIBP2P_GOSSIPSUB_OK" for "is" t
    by (induction "is" arbitrary: t) (simp_all add: ok_then_no_ok field_size_no_ok)
  then show ?thesis by (simp add: gossipsub_message_id_list_size_def split: cbuf.split)
qed

lemmas size_no_ok_laws = ok_then_no_ok field_size_no_ok message_id_list_size_no_ok

lemma appends_message_ids:
  assumes "k < 2 ^ 29"
  shows "list_all (span_ok m) is \<Longrightarrow> length (nested_bytes k contents is) < 2 ^ 63 \<Longrightarrow>
    appends (write_message_ids (of_nat k) is) (nested_bytes k contents is)"
proof (induction "is")
  case Nil
  then show ?case by (simp add: appends_def nested_bytes_def)
next
  case (Cons i "is")
  have "appends (gossipsub_write_len_field (of_nat k) i) (len_field k (contents i))"
    using Cons.prems by (intro appends_span assms) (auto simp: nested_bytes_def span_ok_def)
  moreover have "appends (write_message_ids (of_nat k) is) (nested_bytes k contents is)"
    using Cons.prems by (intro Cons.IH) (auto simp: nested_bytes_def)
  ultimately have "appends (\<lambda>out pos. w_then (gossipsub_write_len_field (of_nat k) i out pos)
      (\<lambda>pos out. write_message_ids (of_nat k) is out pos))
      (len_field k (contents i) @ nested_bytes k contents is)"
    by (rule appends_then)
  then show ?case by (simp add: appends_def nested_bytes_def)
qed

lemma appends_ids:
  assumes "k < 2 ^ 29" and "ids_ok l ids" and "length (ids_bytes k ids) < 2 ^ 63"
  shows "appends (gossipsub_message_id_list_encode (of_nat k) ids) (ids_bytes k ids)"
proof (cases ids)
  case (Null n)
  with assms(2) show ?thesis
    by (simp add: gossipsub_message_id_list_encode_def appends_def ids_ok_def ids_bytes_def
        nested_bytes_def)
next
  case (Buf "is")
  then have "appends (write_message_ids (of_nat k) is) (nested_bytes k contents is)"
    using assms by (intro appends_message_ids [where m = "max_message_id_bytes l"])
      (auto simp: ids_ok_def ids_bytes_def)
  with Buf show ?thesis
    by (simp add: gossipsub_message_id_list_encode_def appends_def ids_bytes_def)
qed

subsection \<open>Every submessage keeps the contract\<close>

text \<open>The laws of the fields at the field numbers that occur.\<close>

lemmas present_sizes =
  present_field_size_iff [where k = 1, simplified] present_field_size_iff [where k = 2, simplified]
  present_field_size_iff [where k = 3, simplified] present_field_size_iff [where k = 5, simplified]
  present_field_size_iff [where k = 6, simplified]

lemmas span_sizes =
  field_size_span_iff [where k = 1, simplified] field_size_span_iff [where k = 2, simplified]
  field_size_span_iff [where k = 4, simplified]

lemmas varint_sizes =
  field_size_varint_iff [where k = 1, simplified] field_size_varint_iff [where k = 3, simplified]

lemmas id_sizes =
  message_id_list_size_iff [where k = 1, simplified] message_id_list_size_iff [where k = 2, simplified]

lemmas present_writers =
  appends_present [where k = 1, unfolded of_nat_1]
  appends_present [where k = 2, unfolded of_nat_numeral]
  appends_present [where k = 3, unfolded of_nat_numeral]
  appends_present [where k = 5, unfolded of_nat_numeral]
  appends_present [where k = 6, unfolded of_nat_numeral]

lemmas span_writers =
  appends_span [where k = 1, unfolded of_nat_1]
  appends_span [where k = 2, unfolded of_nat_numeral]
  appends_span [where k = 4, unfolded of_nat_numeral]

lemmas varint_writers =
  appends_varint_field [where k = 1, unfolded of_nat_1]
  appends_varint_field [where k = 3, unfolded of_nat_numeral]

lemmas id_writers =
  appends_ids [where k = 1, unfolded of_nat_1]
  appends_ids [where k = 2, unfolded of_nat_numeral]

lemma message_size_iff:
  "gossipsub_message_size l m = Inr n \<longleftrightarrow>
   message_ok l m \<and> n = length (message_bytes m) \<and> n \<le> SIZE_MAX"
  by (auto simp: gossipsub_message_size_def gossipsub_field_defs ok_then_Inr_iff present_sizes
      span_sizes message_ok_def span_ok_def message_bytes_def add.assoc cong: conj_cong)

lemma message_size_no_ok: "gossipsub_message_size l m \<noteq> Inl LIBP2P_GOSSIPSUB_OK"
  by (simp add: gossipsub_message_size_def present_field_size_def size_no_ok_laws)

lemma message_encode_ok:
  assumes "message_ok l m" and "length (message_bytes m) < 2 ^ 63"
    and "length (message_bytes m) \<le> length out"
  shows "gossipsub_message_encode l m (Buf out) = Some (LIBP2P_GOSSIPSUB_OK,
    Some (length (message_bytes m)), Buf (message_bytes m @ drop (length (message_bytes m)) out))"
proof -
  have s: "gossipsub_message_size l m = Inr (length (message_bytes m))"
    using assms(1,2) by (simp add: message_size_iff SIZE_MAX_def)
  have n: "\<not> is_null (msg_topic m)" using assms(1) by (simp add: message_ok_def span_ok_def)
  note b = assms(2) [unfolded message_bytes_def length_append]
  have "appends (\<lambda>out pos.
     w_then (write_present_field 1 (msg_from m) out pos) (\<lambda>pos out.
     w_then (write_present_field 2 (msg_data m) out pos) (\<lambda>pos out.
     w_then (write_present_field 3 (msg_seqno m) out pos) (\<lambda>pos out.
     w_then (gossipsub_write_len_field 4 (msg_topic m) out pos) (\<lambda>pos out.
     w_then (write_present_field 5 (msg_signature m) out pos) (\<lambda>pos out.
       write_present_field 6 (msg_key m) out pos)))))) (message_bytes m)"
    unfolding message_bytes_def
    using b n by (intro appends_then present_writers span_writers) simp_all
  from encode_measured_ok [OF this assms(3) s] show ?thesis
    by (simp add: gossipsub_message_encode_def gossipsub_field_defs)
qed

lemma sub_size_iff:
  "gossipsub_sub_size l s = Inr n \<longleftrightarrow> sub_ok l s \<and> n = length (sub_bytes s) \<and> n \<le> SIZE_MAX"
proof -
  have "Suc 0 \<le> SIZE_MAX" by (simp add: SIZE_MAX_def)
  then show ?thesis
    by (cases "sub_subscribe s = 0") (auto simp: gossipsub_sub_size_def gossipsub_field_defs
        ok_then_Inr_iff varint_sizes span_sizes sub_ok_def span_ok_def sub_bytes_def
        cong: conj_cong)
qed

lemma sub_size_no_ok: "gossipsub_sub_size l s \<noteq> Inl LIBP2P_GOSSIPSUB_OK"
  by (simp add: gossipsub_sub_size_def size_no_ok_laws)

lemma sub_encode_ok:
  assumes "sub_ok l s" and "length (sub_bytes s) < 2 ^ 63" and "length (sub_bytes s) \<le> length out"
  shows "gossipsub_sub_encode l s (Buf out) = Some (LIBP2P_GOSSIPSUB_OK,
    Some (length (sub_bytes s)), Buf (sub_bytes s @ drop (length (sub_bytes s)) out))"
proof -
  have z: "gossipsub_sub_size l s = Inr (length (sub_bytes s))"
    using assms(1,2) by (simp add: sub_size_iff SIZE_MAX_def)
  have n: "\<not> is_null (sub_topic s)" using assms(1) by (simp add: sub_ok_def span_ok_def)
  let ?v = "if sub_subscribe s \<noteq> 0 then 1 else 0 :: u64"
  have v: "unat ?v = (if sub_subscribe s \<noteq> 0 then 1 else 0)" by simp
  have "appends (\<lambda>out pos. w_then (gossipsub_write_varint_field 1 ?v out pos) (\<lambda>pos out.
      gossipsub_write_len_field 2 (sub_topic s) out pos)) (sub_bytes s)"
    unfolding sub_bytes_def v [symmetric]
    using assms(2) [unfolded sub_bytes_def length_append] n
    by (intro appends_then varint_writers span_writers) simp_all
  from encode_measured_ok [OF this assms(3) z] show ?thesis
    by (simp add: gossipsub_sub_encode_def gossipsub_field_defs split del: if_split)
qed

lemma ihave_size_iff:
  "gossipsub_ihave_size l h = Inr n \<longleftrightarrow>
   ihave_ok l h \<and> n = length (ihave_bytes h) \<and> n \<le> SIZE_MAX"
  by (auto simp: gossipsub_ihave_size_def gossipsub_field_defs ok_then_Inr_iff span_sizes id_sizes
      ihave_ok_def span_ok_def ihave_bytes_def cong: conj_cong)

lemma ihave_size_no_ok: "gossipsub_ihave_size l h \<noteq> Inl LIBP2P_GOSSIPSUB_OK"
  by (simp add: gossipsub_ihave_size_def size_no_ok_laws)

lemma ihave_encode_ok:
  assumes "ihave_ok l h" and "length (ihave_bytes h) < 2 ^ 63"
    and "length (ihave_bytes h) \<le> length out"
  shows "gossipsub_ihave_encode l h (Buf out) = Some (LIBP2P_GOSSIPSUB_OK,
    Some (length (ihave_bytes h)), Buf (ihave_bytes h @ drop (length (ihave_bytes h)) out))"
proof -
  have z: "gossipsub_ihave_size l h = Inr (length (ihave_bytes h))"
    using assms(1,2) by (simp add: ihave_size_iff SIZE_MAX_def)
  have n: "\<not> is_null (ihave_topic h)" and i: "ids_ok l (ihave_message_ids h)"
    using assms(1) by (simp_all add: ihave_ok_def span_ok_def)
  have "appends (\<lambda>out pos. w_then (gossipsub_write_len_field 1 (ihave_topic h) out pos) (\<lambda>pos out.
      gossipsub_message_id_list_encode 2 (ihave_message_ids h) out pos)) (ihave_bytes h)"
    unfolding ihave_bytes_def
    using assms(2) [unfolded ihave_bytes_def length_append] n i
    by (intro appends_then span_writers id_writers) simp_all
  from encode_measured_ok [OF this assms(3) z] show ?thesis
    by (simp add: gossipsub_ihave_encode_def gossipsub_field_defs)
qed

lemma iwant_size_iff:
  "gossipsub_iwant_size l w = Inr n \<longleftrightarrow>
   iwant_ok l w \<and> n = length (iwant_bytes w) \<and> n \<le> SIZE_MAX"
  by (simp add: gossipsub_iwant_size_def gossipsub_field_defs id_sizes iwant_ok_def iwant_bytes_def)

lemma iwant_size_no_ok: "gossipsub_iwant_size l w \<noteq> Inl LIBP2P_GOSSIPSUB_OK"
  by (simp add: gossipsub_iwant_size_def size_no_ok_laws)

lemma iwant_encode_ok:
  assumes "iwant_ok l w" and "length (iwant_bytes w) < 2 ^ 63"
    and "length (iwant_bytes w) \<le> length out"
  shows "gossipsub_iwant_encode l w (Buf out) = Some (LIBP2P_GOSSIPSUB_OK,
    Some (length (iwant_bytes w)), Buf (iwant_bytes w @ drop (length (iwant_bytes w)) out))"
proof -
  have z: "gossipsub_iwant_size l w = Inr (length (iwant_bytes w))"
    using assms(1,2) by (simp add: iwant_size_iff SIZE_MAX_def)
  have "appends (gossipsub_message_id_list_encode 1 (iwant_message_ids w)) (iwant_bytes w)"
    using assms(1,2) unfolding iwant_bytes_def iwant_ok_def by (intro id_writers) simp_all
  from encode_measured_ok [OF this assms(3) z] show ?thesis
    by (simp add: gossipsub_iwant_encode_def gossipsub_field_defs)
qed

lemma graft_size_iff:
  "gossipsub_topic_control_size l (graft_topic g) = Inr n \<longleftrightarrow>
   graft_ok l g \<and> n = length (graft_bytes g) \<and> n \<le> SIZE_MAX"
  by (auto simp: gossipsub_topic_control_size_def gossipsub_field_defs span_sizes graft_ok_def
      span_ok_def graft_bytes_def)

lemma graft_size_no_ok: "gossipsub_topic_control_size l t \<noteq> Inl LIBP2P_GOSSIPSUB_OK"
  by (simp add: gossipsub_topic_control_size_def size_no_ok_laws)

lemma graft_encode_ok:
  assumes "graft_ok l g" and "length (graft_bytes g) < 2 ^ 63"
    and "length (graft_bytes g) \<le> length out"
  shows "gossipsub_topic_control_encode l (graft_topic g) GOSSIPSUB_FIELD_GRAFT_TOPIC (Buf out) =
    Some (LIBP2P_GOSSIPSUB_OK,
      Some (length (graft_bytes g)), Buf (graft_bytes g @ drop (length (graft_bytes g)) out))"
proof -
  have z: "gossipsub_topic_control_size l (graft_topic g) = Inr (length (graft_bytes g))"
    using assms(1,2) by (simp add: graft_size_iff SIZE_MAX_def)
  have "appends (gossipsub_write_len_field 1 (graft_topic g)) (graft_bytes g)"
    using assms(1,2) unfolding graft_bytes_def graft_ok_def span_ok_def
    by (intro span_writers) simp_all
  from encode_measured_ok [OF this assms(3) z] show ?thesis
    by (simp add: gossipsub_topic_control_encode_def gossipsub_field_defs)
qed

lemma prune_size_iff:
  "gossipsub_prune_size l p = Inr n \<longleftrightarrow>
   prune_ok l p \<and> n = length (prune_bytes p) \<and> n \<le> SIZE_MAX"
proof -
  have "unat (prune_backoff_seconds p) \<le> SIZE_MAX"
    using u64_bound [of "prune_backoff_seconds p"] by (simp add: SIZE_MAX_def del: u64_bound)
  then show ?thesis
    by (auto simp: gossipsub_prune_size_def gossipsub_field_defs ok_then_Inr_iff span_sizes
        varint_sizes prune_ok_def span_ok_def prune_bytes_def cong: conj_cong)
qed

lemma prune_size_no_ok: "gossipsub_prune_size l p \<noteq> Inl LIBP2P_GOSSIPSUB_OK"
  by (simp add: gossipsub_prune_size_def size_no_ok_laws)

lemma prune_encode_ok:
  assumes "prune_ok l p" and "prune_writable p" and "length (prune_bytes p) < 2 ^ 63"
    and "length (prune_bytes p) \<le> length out"
  shows "gossipsub_prune_encode l p (Buf out) = Some (LIBP2P_GOSSIPSUB_OK,
    Some (length (prune_bytes p)), Buf (prune_bytes p @ drop (length (prune_bytes p)) out))"
proof -
  have z: "gossipsub_prune_size l p = Inr (length (prune_bytes p))"
    using assms(1,3) by (simp add: prune_size_iff SIZE_MAX_def)
  have n: "\<not> is_null (prune_topic p)" using assms(1) by (simp add: prune_ok_def span_ok_def)
  let ?b = "prune_backoff_seconds p"
  have "appends (\<lambda>out pos. if ?b \<noteq> 0 then gossipsub_write_varint_field 3 ?b out pos
      else Some (LIBP2P_GOSSIPSUB_OK, pos, out)) (if ?b \<noteq> 0 then varint_field 3 (unat ?b) else [])"
    using varint_writers(2) [of ?b] assms(2)
    by (cases "?b = 0") (simp_all add: prune_writable_def appends_def)
  then have "appends (\<lambda>out pos. w_then (gossipsub_write_len_field 1 (prune_topic p) out pos)
      (\<lambda>pos out. if ?b \<noteq> 0 then gossipsub_write_varint_field 3 ?b out pos
        else Some (LIBP2P_GOSSIPSUB_OK, pos, out))) (prune_bytes p)"
    unfolding prune_bytes_def
    using assms(3) [unfolded prune_bytes_def length_append] n
    by (intro appends_then span_writers) simp_all
  from encode_measured_ok [OF this assms(4) z] show ?thesis
    by (simp only: gossipsub_prune_encode_def gossipsub_field_defs)
qed

lemma idontwant_size_iff:
  "gossipsub_idontwant_size v l d = Inr n \<longleftrightarrow>
   idontwant_ok v l d \<and> n = length (idontwant_bytes d) \<and> n \<le> SIZE_MAX"
  by (auto simp: gossipsub_idontwant_size_def gossipsub_field_defs id_sizes idontwant_ok_def
      idontwant_bytes_def)

lemma idontwant_size_no_ok: "gossipsub_idontwant_size v l d \<noteq> Inl LIBP2P_GOSSIPSUB_OK"
  by (simp add: gossipsub_idontwant_size_def size_no_ok_laws)

lemma idontwant_encode_ok:
  assumes "idontwant_ok v l d" and "length (idontwant_bytes d) < 2 ^ 63"
    and "length (idontwant_bytes d) \<le> length out"
  shows "gossipsub_idontwant_encode v l d (Buf out) = Some (LIBP2P_GOSSIPSUB_OK,
    Some (length (idontwant_bytes d)),
    Buf (idontwant_bytes d @ drop (length (idontwant_bytes d)) out))"
proof -
  have z: "gossipsub_idontwant_size v l d = Inr (length (idontwant_bytes d))"
    using assms(1,2) by (simp add: idontwant_size_iff SIZE_MAX_def)
  have "appends (gossipsub_message_id_list_encode 1 (idontwant_message_ids d)) (idontwant_bytes d)"
    using assms(1,2) unfolding idontwant_bytes_def idontwant_ok_def
    by (intro id_writers [where l = l]) simp_all
  from encode_measured_ok [OF this assms(3) z] show ?thesis
    by (simp add: gossipsub_idontwant_encode_def gossipsub_field_defs)
qed

interpretation sub: submessage "gossipsub_sub_size l" "gossipsub_sub_encode l" "sub_ok l"
    "\<lambda>_. True" sub_bytes for l
  by unfold_locales (rule sub_size_iff, rule sub_size_no_ok, rule sub_encode_ok)

interpretation msg: submessage "gossipsub_message_size l" "gossipsub_message_encode l"
    "message_ok l" "\<lambda>_. True" message_bytes for l
  by unfold_locales (rule message_size_iff, rule message_size_no_ok, rule message_encode_ok)

interpretation ihave: submessage "gossipsub_ihave_size l" "gossipsub_ihave_encode l" "ihave_ok l"
    "\<lambda>_. True" ihave_bytes for l
  by unfold_locales (rule ihave_size_iff, rule ihave_size_no_ok, rule ihave_encode_ok)

interpretation iwant: submessage "gossipsub_iwant_size l" "gossipsub_iwant_encode l" "iwant_ok l"
    "\<lambda>_. True" iwant_bytes for l
  by unfold_locales (rule iwant_size_iff, rule iwant_size_no_ok, rule iwant_encode_ok)

interpretation graft: submessage "\<lambda>g. gossipsub_topic_control_size l (graft_topic g)"
    "\<lambda>g. gossipsub_topic_control_encode l (graft_topic g) GOSSIPSUB_FIELD_GRAFT_TOPIC"
    "graft_ok l" "\<lambda>_. True" graft_bytes for l
  by unfold_locales (rule graft_size_iff, rule graft_size_no_ok, rule graft_encode_ok)

interpretation prune: submessage "gossipsub_prune_size l" "gossipsub_prune_encode l" "prune_ok l"
    prune_writable prune_bytes for l
  by unfold_locales (rule prune_size_iff, rule prune_size_no_ok, rule prune_encode_ok)

interpretation idontwant: submessage "gossipsub_idontwant_size v l"
    "gossipsub_idontwant_encode v l" "idontwant_ok v l" "\<lambda>_. True" idontwant_bytes for v l
  by unfold_locales (rule idontwant_size_iff, rule idontwant_size_no_ok, rule idontwant_encode_ok)

subsection \<open>Control sections, bodies and frames\<close>

lemmas nested_size_laws =
  ihave.nested_sizes_iff [where k = 1, simplified] iwant.nested_sizes_iff [where k = 2, simplified]
  graft.nested_sizes_iff [where k = 3, simplified] prune.nested_sizes_iff [where k = 4, simplified]
  idontwant.nested_sizes_iff [where k = 5, simplified]
  sub.nested_sizes_iff [where k = 1, simplified] msg.nested_sizes_iff [where k = 2, simplified]

lemmas nested_writers =
  ihave.appends_nested_list [where k = 1, unfolded of_nat_1]
  iwant.appends_nested_list [where k = 2, unfolded of_nat_numeral]
  graft.appends_nested_list [where k = 3, unfolded of_nat_numeral]
  prune.appends_nested_list [where k = 4, unfolded of_nat_numeral]
  idontwant.appends_nested_list [where k = 5, unfolded of_nat_numeral]
  sub.appends_nested_list [where k = 1, unfolded of_nat_1]
  msg.appends_nested_list [where k = 2, unfolded of_nat_numeral]

lemma list_all_True: "list_all (\<lambda>_. True) xs"
  by (simp add: list_all_iff)

lemma control_size_iff:
  "gossipsub_control_size v l c = Inr n \<longleftrightarrow>
   control_ok v l c \<and> n = length (control_bytes c) \<and> n \<le> SIZE_MAX"
proof -
  have v: "ctl_idontwant c \<noteq> [] \<Longrightarrow> list_all (idontwant_ok v l) (ctl_idontwant c) \<Longrightarrow>
      v = LIBP2P_GOSSIPSUB_VERSION_12"
    by (cases "ctl_idontwant c") (auto simp: idontwant_ok_def)
  show ?thesis
    by (auto simp: gossipsub_control_size_def gossipsub_field_defs ok_then_Inr_iff nested_size_laws
        control_ok_def control_bytes_def add.assoc dest: v cong: conj_cong)
qed

lemmas nested_no_ok =
  ihave.nested_sizes_no_ok iwant.nested_sizes_no_ok graft.nested_sizes_no_ok
  prune.nested_sizes_no_ok idontwant.nested_sizes_no_ok sub.nested_sizes_no_ok
  msg.nested_sizes_no_ok

lemma control_size_no_ok: "gossipsub_control_size v l c \<noteq> Inl LIBP2P_GOSSIPSUB_OK"
  by (simp add: gossipsub_control_size_def ok_then_no_ok nested_no_ok)

lemma control_encode_ok:
  assumes "control_ok v l c" and "control_writable c" and "length (control_bytes c) < 2 ^ 63"
    and "length (control_bytes c) \<le> length out"
  shows "gossipsub_control_encode v l c (Buf out) = Some (LIBP2P_GOSSIPSUB_OK,
    Some (length (control_bytes c)), Buf (control_bytes c @ drop (length (control_bytes c)) out))"
proof -
  have z: "gossipsub_control_size v l c = Inr (length (control_bytes c))"
    using assms(1,3) by (simp add: control_size_iff SIZE_MAX_def)
  note b = assms(3) [unfolded control_bytes_def length_append]
  have "appends (\<lambda>out pos.
     w_then (write_nested_list 1 (gossipsub_ihave_size l) (gossipsub_ihave_encode l)
       (ctl_ihave c) out pos) (\<lambda>pos out.
     w_then (write_nested_list 2 (gossipsub_iwant_size l) (gossipsub_iwant_encode l)
       (ctl_iwant c) out pos) (\<lambda>pos out.
     w_then (write_nested_list 3 (\<lambda>g. gossipsub_topic_control_size l (graft_topic g))
       (\<lambda>g. gossipsub_topic_control_encode l (graft_topic g) GOSSIPSUB_FIELD_GRAFT_TOPIC)
       (ctl_graft c) out pos) (\<lambda>pos out.
     w_then (write_nested_list 4 (gossipsub_prune_size l) (gossipsub_prune_encode l)
       (ctl_prune c) out pos) (\<lambda>pos out.
     write_nested_list 5 (gossipsub_idontwant_size v l) (gossipsub_idontwant_encode v l)
       (ctl_idontwant c) out pos))))) (control_bytes c)"
    unfolding control_bytes_def
    using assms(1,2) [unfolded control_ok_def control_writable_def] b
    by (intro appends_then nested_writers) (simp_all add: list_all_True)
  from encode_measured_ok [OF this assms(4) z] show ?thesis
    by (simp add: gossipsub_control_encode_def gossipsub_field_defs(12-16))
qed

interpretation control: submessage "gossipsub_control_size v l" "gossipsub_control_encode v l"
    "control_ok v l" control_writable control_bytes for v l
  by unfold_locales (rule control_size_iff, rule control_size_no_ok, rule control_encode_ok)

lemma control_absent:
  "\<not> control_present c \<Longrightarrow> control_ok v l c \<and> control_bytes c = [] \<and> control_writable c"
  by (simp add: control_present_def control_ok_def control_bytes_def nested_bytes_def
      control_writable_def)

definition limits_ok :: "libp2p_gossipsub_protocol_version_t \<Rightarrow> libp2p_gossipsub_limits_t \<Rightarrow> bool" where
  "limits_ok v l \<longleftrightarrow> gossipsub_version_validate v = LIBP2P_GOSSIPSUB_OK \<and>
     gossipsub_limits_validate (Some l) = LIBP2P_GOSSIPSUB_OK"

lemma validate_version_limits_iff:
  "validate_version_limits v lo = Inr l \<longleftrightarrow> lo = Some l \<and> limits_ok v l"
  by (cases lo) (auto simp: validate_version_limits_def limits_ok_def Let_def
      gossipsub_limits_validate_def)

lemma body_size_iff:
  assumes "max_rpc_bytes l \<le> SIZE_MAX"
  shows "libp2p_gossipsub_rpc_body_size v (Some l) (Some r) g = Inr n \<longleftrightarrow>
    g \<and> limits_ok v l \<and> rpc_ok v l r \<and> n = length (body_bytes r) \<and> n \<le> max_rpc_bytes l"
proof -
  have c: "nested_sizes 3 (gossipsub_control_size v l) [rpc_control r] t = Inr m \<longleftrightarrow>
      control_ok v l (rpc_control r) \<and> m = t + length (len_field 3 (control_bytes (rpc_control r))) \<and>
      m \<le> SIZE_MAX" if "t \<le> SIZE_MAX" for t m
    using control.nested_sizes_iff [where k = 3, of t v l "[rpc_control r]" m] that
    by (simp add: nested_bytes_def del: nested_sizes.simps)
  show ?thesis
    using assms
    by (cases "control_present (rpc_control r)")
      (auto simp: libp2p_gossipsub_rpc_body_size_def gossipsub_field_defs ok_then_Inr_iff
        validate_version_limits_iff nested_size_laws c rpc_ok_def body_bytes_def
        control_absent add.assoc simp del: nested_sizes.simps cong: conj_cong)
qed

lemma body_encode_ok:
  assumes "limits_ok v l" and "rpc_ok v l r" and "control_writable (rpc_control r)"
    and "max_rpc_bytes l < 2 ^ 63" and "length (body_bytes r) \<le> max_rpc_bytes l"
    and "length (body_bytes r) \<le> length out"
  shows "libp2p_gossipsub_rpc_body_encode v (Some l) (Some r) (Buf out) True =
    Some (LIBP2P_GOSSIPSUB_OK, Some (length (body_bytes r)),
      Buf (body_bytes r @ drop (length (body_bytes r)) out))"
proof -
  have z: "libp2p_gossipsub_rpc_body_size v (Some l) (Some r) True = Inr (length (body_bytes r))"
    using assms by (simp add: body_size_iff SIZE_MAX_def)
  have b: "length (nested_bytes 1 sub_bytes (rpc_subscriptions r)) < 2 ^ 63"
    "length (nested_bytes 2 message_bytes (rpc_publish r)) < 2 ^ 63"
    "control_present (rpc_control r) \<Longrightarrow> length (len_field 3 (control_bytes (rpc_control r))) < 2 ^ 63"
    using assms(4,5) by (simp_all add: body_bytes_def)
  have c: "appends (\<lambda>out pos. if control_present (rpc_control r)
        then write_nested 3 (gossipsub_control_size v l (rpc_control r))
               (gossipsub_control_encode v l (rpc_control r)) out pos
        else Some (LIBP2P_GOSSIPSUB_OK, pos, out))
      (if control_present (rpc_control r) then len_field 3 (control_bytes (rpc_control r)) else [])"
    using control.appends_nested [where k = 3, unfolded of_nat_numeral] assms(2,3) b(3)
    by (cases "control_present (rpc_control r)") (simp_all add: appends_nil rpc_ok_def)
  have "appends (\<lambda>out pos.
      w_then (write_nested_list 1 (gossipsub_sub_size l) (gossipsub_sub_encode l)
        (rpc_subscriptions r) out pos) (\<lambda>pos out.
      w_then (write_nested_list 2 (gossipsub_message_size l) (gossipsub_message_encode l)
        (rpc_publish r) out pos) (\<lambda>pos out.
      if control_present (rpc_control r)
      then write_nested 3 (gossipsub_control_size v l (rpc_control r))
             (gossipsub_control_encode v l (rpc_control r)) out pos
      else Some (LIBP2P_GOSSIPSUB_OK, pos, out)))) (body_bytes r)"
    unfolding body_bytes_def
    using assms(2) [unfolded rpc_ok_def] b(1,2)
    by (intro appends_then nested_writers c) (simp_all add: list_all_True)
  note e = encode_measured_ok [OF this assms(6), of
      "ok_then (libp2p_gossipsub_rpc_body_size v (Some l) (Some r) True) Inr"]
  show ?thesis
    using e z
    by (simp only: libp2p_gossipsub_rpc_body_encode_def gossipsub_field_defs(1-3) Let_def
        option.sel if_True ok_then_Inr)
qed

lemma frame_size_no_ok: "libp2p_gossipsub_rpc_frame_size v l r g \<noteq> Inl LIBP2P_GOSSIPSUB_OK"
proof -
  have "validate_version_limits v l \<noteq> Inl LIBP2P_GOSSIPSUB_OK"
    by (auto simp: validate_version_limits_def Let_def)
  then have "libp2p_gossipsub_rpc_body_size v l r g' \<noteq> Inl LIBP2P_GOSSIPSUB_OK" for g'
    by (simp add: libp2p_gossipsub_rpc_body_size_def nested_no_ok control.nested_sizes_no_ok
        ok_then_no_ok del: nested_sizes.simps split: option.split)
  then show ?thesis
    by (simp add: libp2p_gossipsub_rpc_frame_size_def ok_then_no_ok split: prod.split bool.split)
qed

lemma frame_size_iff:
  assumes "max_rpc_bytes l < 2 ^ 63"
  shows "libp2p_gossipsub_rpc_frame_size v (Some l) (Some r) g = Inr n \<longleftrightarrow>
    g \<and> limits_ok v l \<and> rpc_ok v l r \<and> length (body_bytes r) \<le> max_rpc_bytes l \<and>
    n = length (frame_bytes r)"
proof -
  have m: "max_rpc_bytes l \<le> SIZE_MAX" using assms by (simp add: SIZE_MAX_def)
  have s: "unat (of_nat k :: u64) = k \<and> k \<le> SIZE_MAX - length (uvarint_bytes k)"
    if "k \<le> max_rpc_bytes l" for k
  proof -
    have k: "k < 2 ^ 63" using that assms by simp
    then have "length (uvarint_bytes k) \<le> 9" using uvarint_length_9 by blast
    with k show ?thesis by (simp add: unat_of_nat SIZE_MAX_def)
  qed
  show ?thesis
    by (auto simp: libp2p_gossipsub_rpc_frame_size_def ok_then_Inr_iff body_size_iff [OF m]
        gossipsub_size_add_def frame_bytes_def s dest: s simp flip: not_le)
qed

lemma frame_encode_ok:
  assumes "limits_ok v l" and "rpc_ok v l r" and "control_writable (rpc_control r)"
    and "max_rpc_bytes l < 2 ^ 63" and "length (body_bytes r) \<le> max_rpc_bytes l"
    and "length (frame_bytes r) \<le> length out"
  shows "libp2p_gossipsub_rpc_frame_encode v (Some l) (Some r) (Buf out) True =
    Some (LIBP2P_GOSSIPSUB_OK, Some (length (frame_bytes r)),
      Buf (frame_bytes r @ drop (length (frame_bytes r)) out))"
proof -
  let ?b = "body_bytes r"
  have z: "libp2p_gossipsub_rpc_body_size v (Some l) (Some r) True = Inr (length ?b)"
    using assms by (simp add: body_size_iff SIZE_MAX_def)
  have f: "libp2p_gossipsub_rpc_frame_size v (Some l) (Some r) True = Inr (length (frame_bytes r))"
    using assms by (simp add: frame_size_iff)
  have p: "appends (gossipsub_write_uvarint (of_nat (length ?b))) (uvarint_bytes (length ?b))"
    using assms by (intro appends_of_nat) simp
  have e: "appends (\<lambda>out pos. do {
      (result, written, part) \<leftarrow>
        libp2p_gossipsub_rpc_body_encode v (Some l) (Some r) (Buf (drop pos out)) True;
      let out' = take pos out @ contents part;
      Some (result, (if result = LIBP2P_GOSSIPSUB_OK then pos + the written else pos), out')
    }) ?b"
    using body_encode_ok [OF assms(1-5)] by (simp add: appends_def)
  note w = appends_then [OF p e, folded frame_bytes_def]
  show ?thesis
    using encode_measured_ok [OF w assms(6) f] f z
    by (simp add: libp2p_gossipsub_rpc_frame_encode_def)
qed

end
