(* ===== verification/Gossipsub_Decode.thy ===== *)
theory Gossipsub_Decode
  imports Gossipsub_Encode
begin

text \<open>
  The gossipsub decoders on what the encoders write. An RPC within its limits comes back as its
  wire image \<open>wire_rpc\<close>: absent spans are null, the subscribe flag is 0 or 1, the peer exchange
  entries of a PRUNE are gone (they are never encoded) and every message carries its raw bytes.
  Lists of submessages are decoded by \<open>decode_nested\<close>, with the state of the loop after \<open>j\<close>
  elements in closed form.
\<close>

lemma decode_nested:
  assumes "k < 2 ^ 29"
  shows "(\<And>x. x \<in> set xs \<Longrightarrow> length (enc x) < 2 ^ 63) \<Longrightarrow>
    (\<And>j. j < length xs \<Longrightarrow>
      on_span (act (st j) (of_nat k) GOSSIPSUB_WIRE_LEN) (enc (xs ! j)) = Some (Inr (st (Suc j)))) \<Longrightarrow>
    decode_fields act (nested_bytes k enc xs @ r) 0 (st 0) = decode_fields act r 0 (st (length xs))"
proof (induction xs arbitrary: st)
  case Nil
  then show ?case by (simp add: nested_bytes_def)
next
  case (Cons x xs)
  have "on_span (act (st 0) (of_nat k) GOSSIPSUB_WIRE_LEN) (enc x) = Some (Inr (st 1))"
    using Cons.prems(2) [of 0] by simp
  moreover have "length (enc x) < 2 ^ 63" using Cons.prems(1) by simp
  ultimately have "decode_fields act (nested_bytes k enc (x # xs) @ r) 0 (st 0) =
      decode_fields act (nested_bytes k enc xs @ r) 0 (st 1)"
    using decode_len_field [OF assms, of "enc x" act "st 0" "Inr (st 1)" "nested_bytes k enc xs @ r"]
    by (simp add: nested_bytes_def)
  also have "\<dots> = decode_fields act r 0 (st (length (x # xs)))"
    using Cons.IH [of "\<lambda>j. st (Suc j)"] Cons.prems(1) Cons.prems(2) [of "Suc _"] by simp
  finally show ?case .
qed

lemma nested_member_length:
  "x \<in> set xs \<Longrightarrow> length (nested_bytes k enc xs) < n \<Longrightarrow> length (enc x) < n"
proof (induction xs)
  case (Cons y xs)
  then show ?case using length_len_field [of "enc y" k] by (auto simp: nested_bytes_def)
qed simp

subsection \<open>Wire images\<close>

definition wire_span :: "gbytes \<Rightarrow> gbytes" where
  "wire_span b = (if gossipsub_bytes_present b then b else Null 0)"

definition wire_message :: "libp2p_gossipsub_message_t \<Rightarrow> libp2p_gossipsub_message_t" where
  "wire_message m =
     \<lparr>msg_from = wire_span (msg_from m), msg_data = wire_span (msg_data m),
      msg_seqno = wire_span (msg_seqno m), msg_topic = msg_topic m,
      msg_signature = wire_span (msg_signature m), msg_key = wire_span (msg_key m),
      raw_message = Buf (message_bytes m)\<rparr>"

definition wire_sub ::
  "libp2p_gossipsub_rpc_subscription_t \<Rightarrow> libp2p_gossipsub_rpc_subscription_t" where
  "wire_sub s = s\<lparr>sub_subscribe := if sub_subscribe s \<noteq> 0 then 1 else 0\<rparr>"

definition wire_ihave :: "libp2p_gossipsub_control_ihave_t \<Rightarrow> libp2p_gossipsub_control_ihave_t" where
  "wire_ihave h = h\<lparr>ihave_message_ids := Buf (contents (ihave_message_ids h))\<rparr>"

definition wire_iwant :: "libp2p_gossipsub_control_iwant_t \<Rightarrow> libp2p_gossipsub_control_iwant_t" where
  "wire_iwant w = \<lparr>iwant_message_ids = Buf (contents (iwant_message_ids w))\<rparr>"

definition wire_prune :: "libp2p_gossipsub_control_prune_t \<Rightarrow> libp2p_gossipsub_control_prune_t" where
  "wire_prune p = p\<lparr>prune_peers := []\<rparr>"

definition wire_idontwant ::
  "libp2p_gossipsub_control_idontwant_t \<Rightarrow> libp2p_gossipsub_control_idontwant_t" where
  "wire_idontwant d = \<lparr>idontwant_message_ids = Buf (contents (idontwant_message_ids d))\<rparr>"

definition wire_control :: "libp2p_gossipsub_rpc_control_t \<Rightarrow> libp2p_gossipsub_rpc_control_t" where
  "wire_control c =
     \<lparr>ctl_ihave = map wire_ihave (ctl_ihave c), ctl_iwant = map wire_iwant (ctl_iwant c),
      ctl_graft = ctl_graft c, ctl_prune = map wire_prune (ctl_prune c),
      ctl_idontwant = map wire_idontwant (ctl_idontwant c)\<rparr>"

definition wire_rpc :: "libp2p_gossipsub_rpc_t \<Rightarrow> libp2p_gossipsub_rpc_t" where
  "wire_rpc r =
     \<lparr>rpc_subscriptions = map wire_sub (rpc_subscriptions r),
      rpc_publish = map wire_message (rpc_publish r),
      rpc_control = wire_control (rpc_control r)\<rparr>"

text \<open>The message ids of a control section share one array of the decode storage.\<close>

definition ihave_ids :: "libp2p_gossipsub_control_ihave_t \<Rightarrow> nat" where
  "ihave_ids h = length (contents (ihave_message_ids h))"

definition iwant_ids :: "libp2p_gossipsub_control_iwant_t \<Rightarrow> nat" where
  "iwant_ids w = length (contents (iwant_message_ids w))"

definition idontwant_ids :: "libp2p_gossipsub_control_idontwant_t \<Rightarrow> nat" where
  "idontwant_ids d = length (contents (idontwant_message_ids d))"

definition control_fits ::
  "libp2p_gossipsub_rpc_decode_storage_t \<Rightarrow> libp2p_gossipsub_rpc_control_t \<Rightarrow> bool" where
  "control_fits s c \<longleftrightarrow>
     length (ctl_ihave c) \<le> ihave_capacity s \<and> length (ctl_iwant c) \<le> iwant_capacity s \<and>
     length (ctl_graft c) \<le> graft_capacity s \<and> length (ctl_prune c) \<le> prune_capacity s \<and>
     length (ctl_idontwant c) \<le> idontwant_capacity s \<and>
     sum_list (map ihave_ids (ctl_ihave c)) + sum_list (map iwant_ids (ctl_iwant c)) +
     sum_list (map idontwant_ids (ctl_idontwant c)) \<le> message_id_capacity s"

definition rpc_fits ::
  "libp2p_gossipsub_rpc_decode_storage_t \<Rightarrow> libp2p_gossipsub_rpc_t \<Rightarrow> bool" where
  "rpc_fits s r \<longleftrightarrow>
     length (rpc_subscriptions r) \<le> subscription_capacity s \<and>
     length (rpc_publish r) \<le> publish_capacity s \<and> control_fits s (rpc_control r)"

lemma Buf_contents: "\<not> is_null b \<Longrightarrow> Buf (contents b) = b"
  by (cases b) auto

lemma span_ok_contents:
  "span_ok n b \<Longrightarrow> Buf (contents b) = b \<and> length (contents b) \<le> n \<and> contents b \<noteq> [] \<and>
     clen b = length (contents b)"
  by (cases b) (auto simp: span_ok_def)

lemma wire_span_contents: "gossipsub_bytes_present b \<Longrightarrow> Buf (contents b) = wire_span b"
  by (simp add: gossipsub_bytes_present_def wire_span_def Buf_contents)

subsection \<open>Single messages\<close>

lemma decode_present:
  assumes "k < 2 ^ 29" and "length (present_bytes k b) < 2 ^ 63"
    and "gossipsub_bytes_present b \<Longrightarrow>
      on_span (act s (of_nat k) GOSSIPSUB_WIRE_LEN) (contents b) = Some (Inr s')"
    and "\<not> gossipsub_bytes_present b \<Longrightarrow> s' = s"
  shows "decode_fields act (present_bytes k b @ r) 0 s = decode_fields act r 0 s'"
proof (cases "gossipsub_bytes_present b")
  case True
  then have "length (contents b) < 2 ^ 63"
    using assms(2) length_len_field [of "contents b" k] by (simp add: present_bytes_def)
  with True show ?thesis
    using decode_len_field [OF assms(1), of "contents b" act s "Inr s'" r] assms(3)
    by (simp add: present_bytes_def)
next
  case False
  with assms(4) show ?thesis by (simp add: present_bytes_def)
qed

lemmas decode_present_at =
  decode_present [where k = 1, unfolded of_nat_1]
  decode_present [where k = 2, unfolded of_nat_numeral]
  decode_present [where k = 3, unfolded of_nat_numeral]
  decode_present [where k = 5, unfolded of_nat_numeral]
  decode_present [where k = 6, unfolded of_nat_numeral]

lemma message_fields_decode:
  assumes "message_ok l m" and "length (message_bytes m) < 2 ^ 63"
  shows "decode_fields (message_field l) (message_bytes m) 0
      \<lparr>msg_from = Null 0, msg_data = Null 0, msg_seqno = Null 0, msg_topic = Null 0,
       msg_signature = Null 0, msg_key = Null 0, raw_message = raw\<rparr> =
    Inr ((wire_message m)\<lparr>raw_message := raw\<rparr>)"
proof -
  let ?d = "decode_fields (message_field l)"
  let ?m = "\<lambda>f d s t g k. \<lparr>msg_from = f, msg_data = d, msg_seqno = s, msg_topic = t,
    msg_signature = g, msg_key = k, raw_message = raw\<rparr>"
  note b = assms(2) [unfolded message_bytes_def length_append]
  note t = assms(1) [unfolded message_ok_def]
  have tc: "Buf (contents (msg_topic m)) = msg_topic m"
    "length (contents (msg_topic m)) \<le> max_topic_bytes l"
    using t span_ok_contents by blast+
  have tl: "length (contents (msg_topic m)) < 2 ^ 63"
    using b length_len_field [of "contents (msg_topic m)" 4] by linarith
  let ?N = "Null 0" and ?F = "wire_span (msg_from m)" and ?D = "wire_span (msg_data m)"
    and ?S = "wire_span (msg_seqno m)" and ?T = "msg_topic m" and ?G = "wire_span (msg_signature m)"
    and ?K = "wire_span (msg_key m)"
  have 1: "?d (present_bytes 1 (msg_from m) @ r) 0 (?m ?N ?N ?N ?N ?N ?N) =
      ?d r 0 (?m ?F ?N ?N ?N ?N ?N)" for r
    using b by (intro decode_present_at)
      (simp_all add: message_field_def gossipsub_field_defs wire_span_contents wire_span_def)
  have 2: "?d (present_bytes 2 (msg_data m) @ r) 0 (?m ?F ?N ?N ?N ?N ?N) =
      ?d r 0 (?m ?F ?D ?N ?N ?N ?N)" for r
    using b t by (intro decode_present_at)
      (auto simp: message_field_def gossipsub_field_defs wire_span_contents wire_span_def
        gossipsub_bytes_present_def Buf_contents)
  have 3: "?d (present_bytes 3 (msg_seqno m) @ r) 0 (?m ?F ?D ?N ?N ?N ?N) =
      ?d r 0 (?m ?F ?D ?S ?N ?N ?N)" for r
    using b by (intro decode_present_at)
      (simp_all add: message_field_def gossipsub_field_defs wire_span_contents wire_span_def)
  have 4: "?d (len_field 4 (contents (msg_topic m)) @ r) 0 (?m ?F ?D ?S ?N ?N ?N) =
      ?d r 0 (?m ?F ?D ?S ?T ?N ?N)" for r
    using decode_len_field [of 4 _ "message_field l" "?m ?F ?D ?S ?N ?N ?N"] tl tc
    by (simp add: message_field_def gossipsub_field_defs)
  have 5: "?d (present_bytes 5 (msg_signature m) @ r) 0 (?m ?F ?D ?S ?T ?N ?N) =
      ?d r 0 (?m ?F ?D ?S ?T ?G ?N)" for r
    using b by (intro decode_present_at)
      (simp_all add: message_field_def gossipsub_field_defs wire_span_contents wire_span_def)
  have 6: "?d (present_bytes 6 (msg_key m) @ r) 0 (?m ?F ?D ?S ?T ?G ?N) =
      ?d r 0 (?m ?F ?D ?S ?T ?G ?K)" for r
    using b by (intro decode_present_at)
      (simp_all add: message_field_def gossipsub_field_defs wire_span_contents wire_span_def)
  show ?thesis
    using 1 2 3 4 5 6 [of "[]"] unfolding message_bytes_def wire_message_def by simp
qed

lemma message_decode_bytes:
  assumes "message_ok l m" and "length (message_bytes m) < 2 ^ 63"
  shows "gossipsub_message_decode l (Buf (message_bytes m)) = Inr (wire_message m)"
  using message_fields_decode [OF assms] assms(1)
  by (simp add: gossipsub_message_decode_def wire_message_def span_ok_def message_ok_def)

lemma sub_decode_bytes:
  assumes "sub_ok l s" and "length (sub_bytes s) < 2 ^ 63"
  shows "gossipsub_sub_decode l (Buf (sub_bytes s)) = Inr (wire_sub s)"
proof -
  let ?t = "sub_topic s" and ?f = "if sub_subscribe s \<noteq> 0 then 1 else 0 :: nat"
  let ?w = "(if sub_subscribe s \<noteq> 0 then 1 else 0) :: byte"
  note t = span_ok_contents [OF assms(1) [unfolded sub_ok_def]]
  have tl: "length (contents ?t) < 2 ^ 63"
    using assms(2) length_len_field [of "contents ?t" 2] by (simp add: sub_bytes_def)
  have "decode_fields (sub_field l) (sub_bytes s) 0 \<lparr>sub_topic = Null 0, sub_subscribe = 0\<rparr> =
      decode_fields (sub_field l) (len_field 2 (contents ?t)) 0
        \<lparr>sub_topic = Null 0, sub_subscribe = ?w\<rparr>"
    unfolding sub_bytes_def
    by (subst decode_varint_field [where res = "Inr \<lparr>sub_topic = Null 0, sub_subscribe = ?w\<rparr>"])
      (simp_all add: sub_field_def gossipsub_field_defs gossipsub_wire_defs)
  also have "\<dots> = Inr \<lparr>sub_topic = ?t, sub_subscribe = ?w\<rparr>"
    using decode_len_field [of 2 _ "sub_field l" "\<lparr>sub_topic = Null 0, sub_subscribe = ?w\<rparr>"
        "Inr \<lparr>sub_topic = ?t, sub_subscribe = ?w\<rparr>" "[]"] tl t
    by (simp add: sub_field_def gossipsub_field_defs gossipsub_wire_defs split del: if_split)
  finally show ?thesis
    using assms(1)
    by (simp add: gossipsub_sub_decode_def sub_ok_def span_ok_def wire_sub_def split del: if_split)
qed

subsection \<open>Message ids\<close>

definition advance :: "nat \<Rightarrow> gossipsub_decode_cursor_t \<Rightarrow> gossipsub_decode_cursor_t" where
  "advance n c = c\<lparr>message_id_next := message_id_next c + n\<rparr>"

lemma advance_simps [simp]:
  "message_id_next (advance n c) = message_id_next c + n"
  "peer_info_next (advance n c) = peer_info_next c"
  "advance 0 c = c"
  "advance n (advance m c) = advance (m + n) c"
  by (simp_all add: advance_def)

lemma decode_ids:
  assumes "k < 2 ^ 29" and "ids_ok l ids" and "length (ids_bytes k ids) < 2 ^ 63"
    and "message_id_next c + length (contents ids) \<le> message_id_capacity s"
    and "\<And>c is. act (st c is) (of_nat k) GOSSIPSUB_WIRE_LEN =
           read_message_id l s c (\<lambda>c b. st c (is @ [b]))"
  shows "decode_fields act (ids_bytes k ids @ r) 0 (st c []) =
    decode_fields act r 0 (st (advance (length (contents ids)) c) (contents ids))"
proof -
  let ?is = "contents ids"
  have "decode_fields act (nested_bytes k contents ?is @ r) 0 (st (advance 0 c) (take 0 ?is)) =
    decode_fields act r 0 (st (advance (length ?is) c) (take (length ?is) ?is))"
  proof (rule decode_nested [OF assms(1), where st = "\<lambda>j. st (advance j c) (take j ?is)"])
    show "length (contents i) < 2 ^ 63" if "i \<in> set ?is" for i
      using nested_member_length [OF that] assms(3) by (simp add: ids_bytes_def)
    fix j assume j: "j < length ?is"
    then have "span_ok (max_message_id_bytes l) (?is ! j)"
      using assms(2) by (simp add: ids_ok_def list_all_length)
    from span_ok_contents [OF this] j show
      "on_span (act (st (advance j c) (take j ?is)) (of_nat k) GOSSIPSUB_WIRE_LEN)
         (contents (?is ! j)) = Some (Inr (st (advance (Suc j) c) (take (Suc j) ?is)))"
      using assms(4) by (simp add: assms(5) read_message_id_def take_Suc_conv_app_nth advance_def)
  qed
  then show ?thesis by (simp add: ids_bytes_def)
qed

lemma ids_ok_count: "ids_ok l ids \<Longrightarrow> length (contents ids) \<le> max_message_ids_per_rpc l"
  by (cases ids) (auto simp: ids_ok_def)

lemma ihave_decode_bytes:
  assumes "ihave_ok l h" and "length (ihave_bytes h) < 2 ^ 63"
    and "message_id_next c + ihave_ids h \<le> message_id_capacity s"
  shows "gossipsub_ihave_decode l (Buf (ihave_bytes h)) s c =
    Inr (advance (ihave_ids h) c, wire_ihave h)"
proof -
  let ?t = "ihave_topic h" and ?is = "contents (ihave_message_ids h)"
  have t: "span_ok (max_topic_bytes l) ?t" and i: "ids_ok l (ihave_message_ids h)"
    using assms(1) by (simp_all add: ihave_ok_def)
  have tl: "length (contents ?t) < 2 ^ 63"
    using assms(2) length_len_field [of "contents ?t" 1] by (simp add: ihave_bytes_def)
  have "decode_fields (ihave_field l s) (ihave_bytes h) 0 (c, [], Null 0) =
      decode_fields (ihave_field l s) (ids_bytes 2 (ihave_message_ids h)) 0 (c, [], ?t)"
    unfolding ihave_bytes_def using tl span_ok_contents [OF t]
    by (subst decode_len_field [where res = "Inr (c, [], ?t)"])
      (simp_all add: gossipsub_field_defs)
  also have "\<dots> = Inr (advance (ihave_ids h) c, ?is, ?t)"
    using decode_ids [of 2 l _ c s "ihave_field l s" "\<lambda>c is. (c, is, ?t)" "[]"] i assms(2,3)
    by (simp add: gossipsub_field_defs ihave_ids_def ihave_bytes_def)
  finally show ?thesis
    using t ids_ok_count [OF i]
    by (simp add: gossipsub_ihave_decode_def span_ok_def wire_ihave_def ihave_ids_def)
qed

lemma iwant_decode_ids:
  assumes "ids_ok l ids" and "length (ids_bytes 1 ids) < 2 ^ 63"
    and "message_id_next c + length (contents ids) \<le> message_id_capacity s"
  shows "gossipsub_iwant_decode l (Buf (ids_bytes 1 ids)) s c =
    Inr (advance (length (contents ids)) c, \<lparr>iwant_message_ids = Buf (contents ids)\<rparr>)"
proof -
  have "decode_fields (iwant_field l s) (ids_bytes 1 ids) 0 (c, []) =
      Inr (advance (length (contents ids)) c, contents ids)"
    using decode_ids [of 1 l _ c s "iwant_field l s" "\<lambda>c is. (c, is)" "[]"] assms
    by (simp add: gossipsub_field_defs)
  then show ?thesis
    using ids_ok_count [OF assms(1)] by (simp add: gossipsub_iwant_decode_def)
qed

lemma iwant_decode_bytes:
  "iwant_ok l w \<Longrightarrow> length (iwant_bytes w) < 2 ^ 63 \<Longrightarrow>
   message_id_next c + iwant_ids w \<le> message_id_capacity s \<Longrightarrow>
   gossipsub_iwant_decode l (Buf (iwant_bytes w)) s c = Inr (advance (iwant_ids w) c, wire_iwant w)"
  using iwant_decode_ids by (simp add: iwant_ok_def iwant_bytes_def iwant_ids_def wire_iwant_def)

lemma idontwant_decode_bytes:
  "idontwant_ok v l d \<Longrightarrow> length (idontwant_bytes d) < 2 ^ 63 \<Longrightarrow>
   message_id_next c + idontwant_ids d \<le> message_id_capacity s \<Longrightarrow>
   gossipsub_idontwant_decode v l (Buf (idontwant_bytes d)) s c =
     Inr (advance (idontwant_ids d) c, wire_idontwant d)"
  using iwant_decode_ids [of l "idontwant_message_ids d" c s]
  by (simp add: gossipsub_idontwant_decode_def idontwant_ok_def idontwant_bytes_def
      idontwant_ids_def wire_idontwant_def)

subsection \<open>GRAFT and PRUNE\<close>

lemma graft_decode_bytes:
  assumes "graft_ok l g" and "length (graft_bytes g) < 2 ^ 63"
  shows "gossipsub_graft_decode l (Buf (graft_bytes g)) = Inr g"
proof -
  let ?t = "graft_topic g"
  have t: "span_ok (max_topic_bytes l) ?t" using assms(1) by (simp add: graft_ok_def)
  have tl: "length (contents ?t) < 2 ^ 63"
    using assms(2) length_len_field [of "contents ?t" 1] by (simp add: graft_bytes_def)
  have "decode_fields graft_field (graft_bytes g) 0 \<lparr>graft_topic = Null 0\<rparr> = Inr g"
    using decode_len_field [of 1 _ graft_field "\<lparr>graft_topic = Null 0\<rparr>" "Inr g" "[]"] tl
      span_ok_contents [OF t]
    by (simp add: graft_field_def graft_bytes_def gossipsub_field_defs)
  then show ?thesis using t by (simp add: gossipsub_graft_decode_def span_ok_def)
qed

lemma prune_decode_bytes:
  assumes "prune_ok l p" and "prune_writable p" and "length (prune_bytes p) < 2 ^ 63"
  shows "gossipsub_prune_decode l (Buf (prune_bytes p)) s c = Inr (c, wire_prune p)"
proof -
  let ?t = "prune_topic p" and ?b = "prune_backoff_seconds p"
  let ?p = "\<lambda>t b. \<lparr>prune_topic = t, prune_peers = [], prune_backoff_seconds = b\<rparr>"
  have t: "span_ok (max_topic_bytes l) ?t" using assms(1) by (simp add: prune_ok_def)
  have tl: "length (contents ?t) < 2 ^ 63"
    using assms(3) length_len_field [of "contents ?t" 1] by (simp add: prune_bytes_def)
  have "decode_fields (prune_field l s) (prune_bytes p) 0 (c, ?p (Null 0) 0) =
      decode_fields (prune_field l s) (if ?b \<noteq> 0 then varint_field 3 (unat ?b) else []) 0 (c, ?p ?t 0)"
    unfolding prune_bytes_def using tl span_ok_contents [OF t]
    by (subst decode_len_field [where res = "Inr (c, ?p ?t 0)"])
      (simp_all add: gossipsub_field_defs split del: if_split)
  also have "\<dots> = Inr (c, ?p ?t ?b)"
    using decode_varint_field [of 3 "unat ?b" "prune_field l s" "(c, ?p ?t 0)"
        "Inr (c, ?p ?t ?b)" "[]"] assms(2)
    by (simp add: prune_writable_def gossipsub_field_defs gossipsub_wire_defs)
  finally show ?thesis
    using t by (simp add: gossipsub_prune_decode_def span_ok_def wire_prune_def)
qed

subsection \<open>Control sections and bodies\<close>

lemma sum_take_Suc:
  "j < length xs \<Longrightarrow> sum_list (map f (take (Suc j) xs)) = sum_list (map f (take j xs)) + (f (xs ! j) :: nat)"
  by (simp add: take_Suc_conv_app_nth)

lemma sum_take_le:
  "j < length xs \<Longrightarrow> sum_list (map f (take j xs)) + f (xs ! j) \<le> sum_list (map (f :: 'a \<Rightarrow> nat) xs)"
proof -
  assume j: "j < length xs"
  have "sum_list (map f xs) =
      sum_list (map f (take (Suc j) xs)) + sum_list (map f (drop (Suc j) xs))"
    by (metis append_take_drop_id map_append sum_list_append)
  with sum_take_Suc [OF j, of f] show ?thesis by simp
qed

lemma decode_control_ihave:
  assumes "list_all (ihave_ok l) xs" and "length (nested_bytes 1 ihave_bytes xs) < 2 ^ 63"
    and "length (ctl_ihave out) + length xs \<le> ihave_capacity s"
    and "message_id_next c + sum_list (map ihave_ids xs) \<le> message_id_capacity s"
  shows "decode_fields (control_field v l s) (nested_bytes 1 ihave_bytes xs @ r) 0 (c, out) =
    decode_fields (control_field v l s) r 0
      (advance (sum_list (map ihave_ids xs)) c, out\<lparr>ctl_ihave := ctl_ihave out @ map wire_ihave xs\<rparr>)"
proof -
  let ?st = "\<lambda>j. (advance (sum_list (map ihave_ids (take j xs))) c,
    out\<lparr>ctl_ihave := ctl_ihave out @ map wire_ihave (take j xs)\<rparr>)"
  have "decode_fields (control_field v l s) (nested_bytes 1 ihave_bytes xs @ r) 0 (?st 0) =
    decode_fields (control_field v l s) r 0 (?st (length xs))"
  proof (rule decode_nested [where st = ?st])
    show "length (ihave_bytes x) < 2 ^ 63" if "x \<in> set xs" for x
      using nested_member_length [OF that assms(2)] .
    fix j assume j: "j < length xs"
    have "ihave_ok l (xs ! j)" and "length (ihave_bytes (xs ! j)) < 2 ^ 63"
      using assms(1) j nested_member_length [OF nth_mem [OF j] assms(2)]
      by (auto simp: list_all_length)
    from ihave_decode_bytes [OF this, of "fst (?st j)" s] show
      "on_span (control_field v l s (?st j) (of_nat 1) GOSSIPSUB_WIRE_LEN) (ihave_bytes (xs ! j)) =
        Some (Inr (?st (Suc j)))"
      using assms(3,4) j sum_take_le [OF j, of ihave_ids]
      by (simp add: control_field_def gossipsub_field_defs sum_take_Suc take_Suc_conv_app_nth)
  qed simp
  then show ?thesis by simp
qed

lemma decode_control_iwant:
  assumes "list_all (iwant_ok l) xs" and "length (nested_bytes 2 iwant_bytes xs) < 2 ^ 63"
    and "length (ctl_iwant out) + length xs \<le> iwant_capacity s"
    and "message_id_next c + sum_list (map iwant_ids xs) \<le> message_id_capacity s"
  shows "decode_fields (control_field v l s) (nested_bytes 2 iwant_bytes xs @ r) 0 (c, out) =
    decode_fields (control_field v l s) r 0
      (advance (sum_list (map iwant_ids xs)) c, out\<lparr>ctl_iwant := ctl_iwant out @ map wire_iwant xs\<rparr>)"
proof -
  let ?st = "\<lambda>j. (advance (sum_list (map iwant_ids (take j xs))) c,
    out\<lparr>ctl_iwant := ctl_iwant out @ map wire_iwant (take j xs)\<rparr>)"
  have "decode_fields (control_field v l s) (nested_bytes 2 iwant_bytes xs @ r) 0 (?st 0) =
    decode_fields (control_field v l s) r 0 (?st (length xs))"
  proof (rule decode_nested [where st = ?st])
    show "length (iwant_bytes x) < 2 ^ 63" if "x \<in> set xs" for x
      using nested_member_length [OF that assms(2)] .
    fix j assume j: "j < length xs"
    have "iwant_ok l (xs ! j)" and "length (iwant_bytes (xs ! j)) < 2 ^ 63"
      using assms(1) j nested_member_length [OF nth_mem [OF j] assms(2)]
      by (auto simp: list_all_length)
    from iwant_decode_bytes [OF this, of "fst (?st j)" s] show
      "on_span (control_field v l s (?st j) (of_nat 2) GOSSIPSUB_WIRE_LEN) (iwant_bytes (xs ! j)) =
        Some (Inr (?st (Suc j)))"
      using assms(3,4) j sum_take_le [OF j, of iwant_ids]
      by (simp add: control_field_def gossipsub_field_defs sum_take_Suc take_Suc_conv_app_nth)
  qed simp
  then show ?thesis by simp
qed

lemma decode_control_graft:
  assumes "list_all (graft_ok l) xs" and "length (nested_bytes 3 graft_bytes xs) < 2 ^ 63"
    and "length (ctl_graft out) + length xs \<le> graft_capacity s"
  shows "decode_fields (control_field v l s) (nested_bytes 3 graft_bytes xs @ r) 0 (c, out) =
    decode_fields (control_field v l s) r 0 (c, out\<lparr>ctl_graft := ctl_graft out @ xs\<rparr>)"
proof -
  let ?st = "\<lambda>j. (c, out\<lparr>ctl_graft := ctl_graft out @ take j xs\<rparr>)"
  have "decode_fields (control_field v l s) (nested_bytes 3 graft_bytes xs @ r) 0 (?st 0) =
    decode_fields (control_field v l s) r 0 (?st (length xs))"
  proof (rule decode_nested [where st = ?st])
    show "length (graft_bytes x) < 2 ^ 63" if "x \<in> set xs" for x
      using nested_member_length [OF that assms(2)] .
    fix j assume j: "j < length xs"
    have "graft_ok l (xs ! j)" and "length (graft_bytes (xs ! j)) < 2 ^ 63"
      using assms(1) j nested_member_length [OF nth_mem [OF j] assms(2)]
      by (auto simp: list_all_length)
    from graft_decode_bytes [OF this] show
      "on_span (control_field v l s (?st j) (of_nat 3) GOSSIPSUB_WIRE_LEN) (graft_bytes (xs ! j)) =
        Some (Inr (?st (Suc j)))"
      using assms(3) j by (simp add: control_field_def gossipsub_field_defs take_Suc_conv_app_nth)
  qed simp
  then show ?thesis by simp
qed

lemma decode_control_prune:
  assumes "list_all (prune_ok l) xs" and "list_all prune_writable xs"
    and "length (nested_bytes 4 prune_bytes xs) < 2 ^ 63"
    and "length (ctl_prune out) + length xs \<le> prune_capacity s"
  shows "decode_fields (control_field v l s) (nested_bytes 4 prune_bytes xs @ r) 0 (c, out) =
    decode_fields (control_field v l s) r 0 (c, out\<lparr>ctl_prune := ctl_prune out @ map wire_prune xs\<rparr>)"
proof -
  let ?st = "\<lambda>j. (c, out\<lparr>ctl_prune := ctl_prune out @ map wire_prune (take j xs)\<rparr>)"
  have "decode_fields (control_field v l s) (nested_bytes 4 prune_bytes xs @ r) 0 (?st 0) =
    decode_fields (control_field v l s) r 0 (?st (length xs))"
  proof (rule decode_nested [where st = ?st])
    show "length (prune_bytes x) < 2 ^ 63" if "x \<in> set xs" for x
      using nested_member_length [OF that assms(3)] .
    fix j assume j: "j < length xs"
    have "prune_ok l (xs ! j)" and "prune_writable (xs ! j)"
      and "length (prune_bytes (xs ! j)) < 2 ^ 63"
      using assms(1,2) j nested_member_length [OF nth_mem [OF j] assms(3)]
      by (auto simp: list_all_length)
    from prune_decode_bytes [OF this] show
      "on_span (control_field v l s (?st j) (of_nat 4) GOSSIPSUB_WIRE_LEN) (prune_bytes (xs ! j)) =
        Some (Inr (?st (Suc j)))"
      using assms(4) j by (simp add: control_field_def gossipsub_field_defs take_Suc_conv_app_nth)
  qed simp
  then show ?thesis by simp
qed

lemma decode_control_idontwant:
  assumes "list_all (idontwant_ok v l) xs"
    and "length (nested_bytes 5 idontwant_bytes xs) < 2 ^ 63"
    and "length (ctl_idontwant out) + length xs \<le> idontwant_capacity s"
    and "message_id_next c + sum_list (map idontwant_ids xs) \<le> message_id_capacity s"
  shows "decode_fields (control_field v l s) (nested_bytes 5 idontwant_bytes xs @ r) 0 (c, out) =
    decode_fields (control_field v l s) r 0
      (advance (sum_list (map idontwant_ids xs)) c,
       out\<lparr>ctl_idontwant := ctl_idontwant out @ map wire_idontwant xs\<rparr>)"
proof -
  let ?st = "\<lambda>j. (advance (sum_list (map idontwant_ids (take j xs))) c,
    out\<lparr>ctl_idontwant := ctl_idontwant out @ map wire_idontwant (take j xs)\<rparr>)"
  have "decode_fields (control_field v l s) (nested_bytes 5 idontwant_bytes xs @ r) 0 (?st 0) =
    decode_fields (control_field v l s) r 0 (?st (length xs))"
  proof (rule decode_nested [where st = ?st])
    show "length (idontwant_bytes x) < 2 ^ 63" if "x \<in> set xs" for x
      using nested_member_length [OF that assms(2)] .
    fix j assume j: "j < length xs"
    have "idontwant_ok v l (xs ! j)" and "length (idontwant_bytes (xs ! j)) < 2 ^ 63"
      using assms(1) j nested_member_length [OF nth_mem [OF j] assms(2)]
      by (auto simp: list_all_length)
    from idontwant_decode_bytes [OF this, of "fst (?st j)" s] show
      "on_span (control_field v l s (?st j) (of_nat 5) GOSSIPSUB_WIRE_LEN)
        (idontwant_bytes (xs ! j)) = Some (Inr (?st (Suc j)))"
      using assms(3,4) j sum_take_le [OF j, of idontwant_ids]
      by (simp add: control_field_def gossipsub_field_defs sum_take_Suc take_Suc_conv_app_nth)
  qed simp
  then show ?thesis by simp
qed

lemma control_decode_bytes:
  assumes "control_ok v l c" and "control_writable c" and "control_fits s c"
    and "length (control_bytes c) < 2 ^ 63"
  shows "gossipsub_control_decode v l (Buf (control_bytes c)) s = Inr (wire_control c)"
proof -
  note b = assms(4) [unfolded control_bytes_def length_append]
  note f = assms(1-3) [unfolded control_ok_def control_writable_def control_fits_def]
  let ?n = "sum_list (map ihave_ids (ctl_ihave c)) + sum_list (map iwant_ids (ctl_iwant c)) +
    sum_list (map idontwant_ids (ctl_idontwant c))"
  let ?cur = "\<lparr>message_id_next = 0, peer_info_next = 0\<rparr>"
  have "decode_fields (control_field v l s) (control_bytes c) 0 (?cur, empty_control) =
      Inr (advance ?n ?cur, wire_control c)"
    unfolding control_bytes_def empty_control_def wire_control_def
    using f b decode_control_idontwant [of v l "ctl_idontwant c" _ s _ "[]"]
    by (simp add: decode_control_ihave [unfolded One_nat_def] decode_control_iwant
        decode_control_graft decode_control_prune)
  then show ?thesis
    using f by (simp add: gossipsub_control_decode_def wire_control_def)
qed

lemma decode_body_subs:
  assumes "list_all (sub_ok l) xs" and "length (nested_bytes 1 sub_bytes xs) < 2 ^ 63"
    and "length (rpc_subscriptions out) + length xs \<le> subscription_capacity s"
  shows "decode_fields (body_field v l s) (nested_bytes 1 sub_bytes xs @ r) 0 out =
    decode_fields (body_field v l s) r 0
      (out\<lparr>rpc_subscriptions := rpc_subscriptions out @ map wire_sub xs\<rparr>)"
proof -
  let ?st = "\<lambda>j. out\<lparr>rpc_subscriptions := rpc_subscriptions out @ map wire_sub (take j xs)\<rparr>"
  have "decode_fields (body_field v l s) (nested_bytes 1 sub_bytes xs @ r) 0 (?st 0) =
    decode_fields (body_field v l s) r 0 (?st (length xs))"
  proof (rule decode_nested [where st = ?st])
    show "length (sub_bytes x) < 2 ^ 63" if "x \<in> set xs" for x
      using nested_member_length [OF that assms(2)] .
    fix j assume j: "j < length xs"
    have "sub_ok l (xs ! j)" and "length (sub_bytes (xs ! j)) < 2 ^ 63"
      using assms(1) j nested_member_length [OF nth_mem [OF j] assms(2)]
      by (auto simp: list_all_length)
    from sub_decode_bytes [OF this] show
      "on_span (body_field v l s (?st j) (of_nat 1) GOSSIPSUB_WIRE_LEN) (sub_bytes (xs ! j)) =
        Some (Inr (?st (Suc j)))"
      using assms(3) j by (simp add: body_field_def gossipsub_field_defs take_Suc_conv_app_nth)
  qed simp
  then show ?thesis by simp
qed

lemma decode_body_publish:
  assumes "list_all (message_ok l) xs" and "length (nested_bytes 2 message_bytes xs) < 2 ^ 63"
    and "length (rpc_publish out) + length xs \<le> publish_capacity s"
  shows "decode_fields (body_field v l s) (nested_bytes 2 message_bytes xs @ r) 0 out =
    decode_fields (body_field v l s) r 0 (out\<lparr>rpc_publish := rpc_publish out @ map wire_message xs\<rparr>)"
proof -
  let ?st = "\<lambda>j. out\<lparr>rpc_publish := rpc_publish out @ map wire_message (take j xs)\<rparr>"
  have "decode_fields (body_field v l s) (nested_bytes 2 message_bytes xs @ r) 0 (?st 0) =
    decode_fields (body_field v l s) r 0 (?st (length xs))"
  proof (rule decode_nested [where st = ?st])
    show "length (message_bytes x) < 2 ^ 63" if "x \<in> set xs" for x
      using nested_member_length [OF that assms(2)] .
    fix j assume j: "j < length xs"
    have "message_ok l (xs ! j)" and "length (message_bytes (xs ! j)) < 2 ^ 63"
      using assms(1) j nested_member_length [OF nth_mem [OF j] assms(2)]
      by (auto simp: list_all_length)
    from message_decode_bytes [OF this] show
      "on_span (body_field v l s (?st j) (of_nat 2) GOSSIPSUB_WIRE_LEN) (message_bytes (xs ! j)) =
        Some (Inr (?st (Suc j)))"
      using assms(3) j by (simp add: body_field_def gossipsub_field_defs take_Suc_conv_app_nth)
  qed simp
  then show ?thesis by simp
qed

lemma body_decode_bytes:
  assumes "limits_ok v l" and "rpc_ok v l r" and "control_writable (rpc_control r)"
    and "rpc_fits s r" and "length (body_bytes r) \<le> max_rpc_bytes l" and "max_rpc_bytes l < 2 ^ 63"
  shows "libp2p_gossipsub_rpc_body_decode v (Some l) (Buf (body_bytes r)) (Some s) True =
    Inr (wire_rpc r)"
proof -
  let ?c = "rpc_control r"
  have b: "length (nested_bytes 1 sub_bytes (rpc_subscriptions r)) < 2 ^ 63"
    "length (nested_bytes 2 message_bytes (rpc_publish r)) < 2 ^ 63"
    "control_present ?c \<Longrightarrow> length (control_bytes ?c) < 2 ^ 63"
    using assms(5,6) length_len_field [of "control_bytes ?c" 3] by (simp_all add: body_bytes_def)
  note f = assms(2-4) [unfolded rpc_ok_def rpc_fits_def]
  let ?o = "\<lambda>c. \<lparr>rpc_subscriptions = map wire_sub (rpc_subscriptions r),
    rpc_publish = map wire_message (rpc_publish r), rpc_control = c\<rparr>"
  have c: "decode_fields (body_field v l s)
      (if control_present ?c then len_field 3 (control_bytes ?c) else []) 0 (?o empty_control) =
      Inr (?o (wire_control ?c))"
  proof (cases "control_present ?c")
    case True
    have "gossipsub_control_decode v l (Buf (control_bytes ?c)) s = Inr (wire_control ?c)"
      using f assms(3) b(3) [OF True] by (intro control_decode_bytes) simp_all
    with True show ?thesis
      using decode_len_field [of 3 "control_bytes ?c" "body_field v l s" "?o empty_control"
          "Inr (?o (wire_control ?c))" "[]"] b(3)
      by (simp add: body_field_def gossipsub_field_defs)
  next
    case False
    then have "wire_control ?c = empty_control"
      by (simp add: control_present_def wire_control_def empty_control_def)
    with False show ?thesis by simp
  qed
  have "decode_fields (body_field v l s) (body_bytes r) 0
      \<lparr>rpc_subscriptions = [], rpc_publish = [], rpc_control = empty_control\<rparr> = Inr (wire_rpc r)"
    unfolding body_bytes_def wire_rpc_def
    using f b c by (simp add: decode_body_subs [unfolded One_nat_def] decode_body_publish)
  then show ?thesis
    using f assms(1,5)
    by (simp add: libp2p_gossipsub_rpc_body_decode_def wire_rpc_def
        validate_version_limits_iff [THEN iffD2])
qed

end
