(* ===== verification/Gossipsub_Rpc.thy ===== *)
theory Gossipsub_Rpc
  imports Gossipsub_Decode
begin

text \<open>
  The properties of the gossipsub RPC codec: what a frame encoder writes, that the frame decoder
  reads it back, and what holds of every RPC that the decoder accepts, from whatever bytes.
\<close>

subsection \<open>What every decoded RPC satisfies\<close>

definition id_within :: "libp2p_gossipsub_limits_t \<Rightarrow> gbytes \<Rightarrow> bool" where
  "id_within l i \<longleftrightarrow> \<not> is_null i \<and> clen i \<le> max_message_id_bytes l"

definition ids_within :: "libp2p_gossipsub_limits_t \<Rightarrow> gbytes cbuf \<Rightarrow> bool" where
  "ids_within l ids \<longleftrightarrow> \<not> is_null ids \<and> clen ids \<le> max_message_ids_per_rpc l \<and>
     list_all (id_within l) (contents ids)"

definition ihave_within :: "libp2p_gossipsub_limits_t \<Rightarrow> libp2p_gossipsub_control_ihave_t \<Rightarrow> bool" where
  "ihave_within l h \<longleftrightarrow>
     span_ok (max_topic_bytes l) (ihave_topic h) \<and> ids_within l (ihave_message_ids h)"

definition prune_within :: "libp2p_gossipsub_limits_t \<Rightarrow> libp2p_gossipsub_control_prune_t \<Rightarrow> bool" where
  "prune_within l p \<longleftrightarrow>
     span_ok (max_topic_bytes l) (prune_topic p) \<and>
     length (prune_peers p) \<le> max_px_peers_per_rpc l \<and>
     list_all (\<lambda>i. clen (pi_signed_peer_record i) \<le> max_signed_peer_record_bytes l) (prune_peers p)"

definition control_within ::
  "libp2p_gossipsub_limits_t \<Rightarrow> libp2p_gossipsub_rpc_decode_storage_t \<Rightarrow>
   libp2p_gossipsub_rpc_control_t \<Rightarrow> bool" where
  "control_within l s c \<longleftrightarrow>
     list_all (ihave_within l) (ctl_ihave c) \<and>
     list_all (\<lambda>w. ids_within l (iwant_message_ids w)) (ctl_iwant c) \<and>
     list_all (graft_ok l) (ctl_graft c) \<and> list_all (prune_within l) (ctl_prune c) \<and>
     list_all (\<lambda>d. ids_within l (idontwant_message_ids d)) (ctl_idontwant c) \<and>
     control_fits s c \<and>
     sum_list (map (\<lambda>p. length (prune_peers p)) (ctl_prune c)) \<le> peer_info_capacity s"

definition control_counts :: "libp2p_gossipsub_limits_t \<Rightarrow> libp2p_gossipsub_rpc_control_t \<Rightarrow> bool" where
  "control_counts l c \<longleftrightarrow>
     length (ctl_ihave c) \<le> max_ihave_per_rpc l \<and> length (ctl_iwant c) \<le> max_iwant_per_rpc l \<and>
     length (ctl_graft c) \<le> max_graft_per_rpc l \<and> length (ctl_prune c) \<le> max_prune_per_rpc l \<and>
     length (ctl_idontwant c) \<le> max_idontwant_per_rpc l"

definition rpc_within ::
  "libp2p_gossipsub_limits_t \<Rightarrow> libp2p_gossipsub_rpc_decode_storage_t \<Rightarrow>
   libp2p_gossipsub_rpc_t \<Rightarrow> bool" where
  "rpc_within l s r \<longleftrightarrow>
     length (rpc_subscriptions r) \<le> max_subscriptions_per_rpc l \<and>
     length (rpc_publish r) \<le> max_publish_per_rpc l \<and> rpc_fits s r \<and>
     list_all (sub_ok l) (rpc_subscriptions r) \<and> list_all (message_ok l) (rpc_publish r) \<and>
     control_within l s (rpc_control r) \<and> control_counts l (rpc_control r)"

lemma message_decode_ok:
  assumes "gossipsub_message_decode l inp = Inr m"
  shows "message_ok l m"
proof -
  let ?P = "\<lambda>m. clen (msg_data m) \<le> max_message_data_bytes l \<and> clen (msg_topic m) \<le> max_topic_bytes l"
  obtain bs s where d: "decode_fields (message_field l) bs 0 s = Inr m" and s: "?P s"
    and t: "\<not> is_null (msg_topic m)" "clen (msg_topic m) \<noteq> 0"
    using assms
    by (auto simp: gossipsub_message_decode_def ok_then_Inr_iff split: cbuf.splits if_splits)
  have "?P m"
    by (rule decode_fields_invariant [of ?P, OF _ s d]) (auto simp: message_field_def)
  with t show ?thesis by (simp add: message_ok_def span_ok_def)
qed

lemma sub_decode_ok:
  assumes "gossipsub_sub_decode l inp = Inr m"
  shows "sub_ok l m"
proof -
  let ?P = "\<lambda>m. clen (sub_topic m) \<le> max_topic_bytes l"
  obtain bs s where d: "decode_fields (sub_field l) bs 0 s = Inr m" and s: "?P s"
    and t: "\<not> is_null (sub_topic m)" "clen (sub_topic m) \<noteq> 0"
    using assms by (auto simp: gossipsub_sub_decode_def ok_then_Inr_iff split: cbuf.splits if_splits)
  have "?P m"
    by (rule decode_fields_invariant [of ?P, OF _ s d]) (auto simp: sub_field_def)
  with t show ?thesis by (simp add: sub_ok_def span_ok_def)
qed

lemma graft_decode_ok: "gossipsub_graft_decode l inp = Inr g \<Longrightarrow> graft_ok l g"
  by (auto simp: gossipsub_graft_decode_def ok_then_Inr_iff graft_ok_def span_ok_def
      split: cbuf.splits if_splits)

definition ids_filled ::
  "libp2p_gossipsub_limits_t \<Rightarrow> libp2p_gossipsub_rpc_decode_storage_t \<Rightarrow>
   gossipsub_decode_cursor_t \<Rightarrow> gossipsub_decode_cursor_t \<Rightarrow> gbytes list \<Rightarrow> bool" where
  "ids_filled l s c c' is \<longleftrightarrow>
     c' = advance (length is) c \<and> message_id_next c' \<le> message_id_capacity s \<and>
     list_all (id_within l) is"

lemma keeps_read_message_id:
  assumes "ids_filled l s c c' is"
    and "\<And>c'' b. ids_filled l s c c'' (is @ [b]) \<Longrightarrow> P (store c'' b)"
  shows "keeps P (read_message_id l s c' store)"
  using assms by (auto simp: read_message_id_def ids_filled_def id_within_def advance_def)

lemma ihave_decode_ok:
  assumes "gossipsub_ihave_decode l inp s c = Inr (c', h)"
    and "message_id_next c \<le> message_id_capacity s"
  shows "ihave_within l h \<and> c' = advance (ihave_ids h) c \<and>
    message_id_next c' \<le> message_id_capacity s"
proof -
  let ?P = "\<lambda>(c', is, t). ids_filled l s c c' is"
  obtain bs "is" t where d: "decode_fields (ihave_field l s) bs 0 (c, [], Null 0) = Inr (c', is, t)"
    and h: "h = \<lparr>ihave_topic = t, ihave_message_ids = Buf is\<rparr>" "span_ok (max_topic_bytes l) t"
      "message_id_next c' - message_id_next c \<le> max_message_ids_per_rpc l"
    using assms(1)
    by (auto simp: gossipsub_ihave_decode_def ok_then_Inr_iff span_ok_def
        split: cbuf.splits if_splits prod.splits)
  have i: "?P (c, [], Null 0)" using assms(2) by (simp add: ids_filled_def)
  have "?P (c', is, t)"
    by (rule decode_fields_invariant [of ?P, OF _ i d])
      (auto intro: keeps_read_message_id)
  with h show ?thesis by (auto simp: ids_filled_def ihave_within_def ids_within_def ihave_ids_def)
qed

lemma iwant_decode_ok:
  assumes "gossipsub_iwant_decode l inp s c = Inr (c', w)"
    and "message_id_next c \<le> message_id_capacity s"
  shows "ids_within l (iwant_message_ids w) \<and> c' = advance (iwant_ids w) c \<and>
    message_id_next c' \<le> message_id_capacity s"
proof -
  let ?P = "\<lambda>(c', is). ids_filled l s c c' is"
  obtain bs "is" where d: "decode_fields (iwant_field l s) bs 0 (c, []) = Inr (c', is)"
    and h: "w = \<lparr>iwant_message_ids = Buf is\<rparr>"
      "message_id_next c' - message_id_next c \<le> max_message_ids_per_rpc l"
    using assms(1)
    by (auto simp: gossipsub_iwant_decode_def ok_then_Inr_iff
        split: cbuf.splits if_splits prod.splits)
  have i: "?P (c, [])" using assms(2) by (simp add: ids_filled_def)
  have "?P (c', is)"
    by (rule decode_fields_invariant [of ?P, OF _ i d])
      (auto intro: keeps_read_message_id)
  with h show ?thesis by (auto simp: ids_filled_def ids_within_def iwant_ids_def)
qed

lemma idontwant_decode_ok:
  assumes "gossipsub_idontwant_decode v l inp s c = Inr (c', d)"
    and "message_id_next c \<le> message_id_capacity s"
  shows "ids_within l (idontwant_message_ids d) \<and> c' = advance (idontwant_ids d) c \<and>
    message_id_next c' \<le> message_id_capacity s"
  using assms iwant_decode_ok [of l inp s c]
  by (auto simp: gossipsub_idontwant_decode_def ok_then_Inr_iff idontwant_ids_def iwant_ids_def)

lemma peer_info_decode_ok:
  assumes "gossipsub_peer_info_decode l inp = Inr i"
  shows "clen (pi_signed_peer_record i) \<le> max_signed_peer_record_bytes l"
proof -
  let ?P = "\<lambda>i. clen (pi_signed_peer_record i) \<le> max_signed_peer_record_bytes l"
  obtain bs s where d: "decode_fields (peer_info_field l) bs 0 s = Inr i" and s: "?P s"
    using assms by (auto simp: gossipsub_peer_info_decode_def split: cbuf.splits)
  show ?thesis
    by (rule decode_fields_invariant [of ?P, OF _ s d]) (auto simp: peer_info_field_def)
qed

lemma prune_decode_ok:
  assumes "gossipsub_prune_decode l inp s c = Inr (c', p)"
    and "peer_info_next c \<le> peer_info_capacity s"
  shows "prune_within l p \<and> c' = c\<lparr>peer_info_next := peer_info_next c + length (prune_peers p)\<rparr> \<and>
    peer_info_next c' \<le> peer_info_capacity s"
proof -
  let ?P = "\<lambda>(c', p). c' = c\<lparr>peer_info_next := peer_info_next c + length (prune_peers p)\<rparr> \<and>
    peer_info_next c' \<le> peer_info_capacity s \<and>
    list_all (\<lambda>i. clen (pi_signed_peer_record i) \<le> max_signed_peer_record_bytes l) (prune_peers p)"
  let ?p = "\<lparr>prune_topic = Null 0, prune_peers = [], prune_backoff_seconds = 0\<rparr>"
  obtain bs where d: "decode_fields (prune_field l s) bs 0 (c, ?p) = Inr (c', p)"
    and h: "span_ok (max_topic_bytes l) (prune_topic p)"
      "peer_info_next c' - peer_info_next c \<le> max_px_peers_per_rpc l"
    using assms(1)
    by (auto simp: gossipsub_prune_decode_def ok_then_Inr_iff span_ok_def
        split: cbuf.splits if_splits prod.splits)
  have i: "?P (c, ?p)" using assms(2) by simp
  have "?P (c', p)"
    by (rule decode_fields_invariant [of ?P, OF _ i d])
      (auto simp: ok_then_Inr_iff peer_info_decode_ok)
  with h show ?thesis by (auto simp: prune_within_def)
qed

definition control_invariant ::
  "libp2p_gossipsub_limits_t \<Rightarrow> libp2p_gossipsub_rpc_decode_storage_t \<Rightarrow> control_state \<Rightarrow> bool" where
  "control_invariant l s st \<longleftrightarrow> control_within l s (snd st) \<and>
     message_id_next (fst st) = sum_list (map ihave_ids (ctl_ihave (snd st))) +
       sum_list (map iwant_ids (ctl_iwant (snd st))) +
       sum_list (map idontwant_ids (ctl_idontwant (snd st))) \<and>
     peer_info_next (fst st) = sum_list (map (\<lambda>p. length (prune_peers p)) (ctl_prune (snd st)))"

lemma control_nested_invariant:
  assumes "control_invariant l s st" and "control_nested v l s st field b = Inr st'"
  shows "control_invariant l s st'"
proof -
  obtain c out where st: "st = (c, out)" by (cases st)
  note inv = assms(1) [unfolded st control_invariant_def control_within_def control_fits_def, simplified]
  have c: "message_id_next c \<le> message_id_capacity s" "peer_info_next c \<le> peer_info_capacity s"
    using inv by auto
  from assms(2) st consider
    (ihave) x c' where "gossipsub_ihave_decode l b s c = Inr (c', x)"
      "length (ctl_ihave out) < ihave_capacity s" "st' = (c', out\<lparr>ctl_ihave := ctl_ihave out @ [x]\<rparr>)"
  | (iwant) x c' where "gossipsub_iwant_decode l b s c = Inr (c', x)"
      "length (ctl_iwant out) < iwant_capacity s" "st' = (c', out\<lparr>ctl_iwant := ctl_iwant out @ [x]\<rparr>)"
  | (graft) x where "gossipsub_graft_decode l b = Inr x"
      "length (ctl_graft out) < graft_capacity s" "st' = (c, out\<lparr>ctl_graft := ctl_graft out @ [x]\<rparr>)"
  | (prune) x c' where "gossipsub_prune_decode l b s c = Inr (c', x)"
      "length (ctl_prune out) < prune_capacity s" "st' = (c', out\<lparr>ctl_prune := ctl_prune out @ [x]\<rparr>)"
  | (idontwant) x c' where "gossipsub_idontwant_decode v l b s c = Inr (c', x)"
      "length (ctl_idontwant out) < idontwant_capacity s"
      "st' = (c', out\<lparr>ctl_idontwant := ctl_idontwant out @ [x]\<rparr>)"
  | (other) "st' = st"
    by (auto simp: ok_then_Inr_iff not_le split: if_splits)
  then show ?thesis
  proof cases
    case ihave
    with ihave_decode_ok [OF ihave(1) c(1)] inv show ?thesis
      by (auto simp: control_invariant_def control_within_def control_fits_def)
  next
    case iwant
    with iwant_decode_ok [OF iwant(1) c(1)] inv show ?thesis
      by (auto simp: control_invariant_def control_within_def control_fits_def)
  next
    case graft
    with graft_decode_ok [OF graft(1)] inv show ?thesis
      by (simp add: control_invariant_def control_within_def control_fits_def)
  next
    case prune
    with prune_decode_ok [OF prune(1) c(2)] inv show ?thesis
      by (auto simp: control_invariant_def control_within_def control_fits_def)
  next
    case idontwant
    with idontwant_decode_ok [OF idontwant(1) c(1)] inv show ?thesis
      by (auto simp: control_invariant_def control_within_def control_fits_def)
  next
    case other
    with assms(1) show ?thesis by simp
  qed
qed

lemma control_decode_ok:
  assumes "gossipsub_control_decode v l inp s = Inr c"
  shows "control_within l s c \<and> control_counts l c"
proof -
  let ?P = "control_invariant l s"
  let ?st = "(\<lparr>message_id_next = 0, peer_info_next = 0\<rparr>, empty_control)"
  obtain bs cur where d: "decode_fields (control_field v l s) bs 0 ?st = Inr (cur, c)"
    and n: "control_counts l c"
    using assms by (auto simp: gossipsub_control_decode_def ok_then_Inr_iff control_counts_def
        split: cbuf.splits if_splits prod.splits)
  have i: "?P ?st"
    by (simp add: control_invariant_def control_within_def control_fits_def empty_control_def)
  have "?P (cur, c)"
    by (rule decode_fields_invariant [of ?P, OF _ i d])
      (auto simp: control_field_def split: sum.splits simp del: control_nested.simps
        dest: control_nested_invariant)
  with n show ?thesis by (simp add: control_invariant_def)
qed

lemma body_nested_cases:
  assumes n: "body_nested v l s r0 field b = Inr r'"
  shows "(\<exists>x. gossipsub_sub_decode l b = Inr x \<and>
        length (rpc_subscriptions r0) < subscription_capacity s \<and>
        r' = r0\<lparr>rpc_subscriptions := rpc_subscriptions r0 @ [x]\<rparr>) \<or>
   (\<exists>x. gossipsub_message_decode l b = Inr x \<and>
        length (rpc_publish r0) < publish_capacity s \<and>
        r' = r0\<lparr>rpc_publish := rpc_publish r0 @ [x]\<rparr>) \<or>
   (\<exists>x. gossipsub_control_decode v l b s = Inr x \<and> r' = r0\<lparr>rpc_control := x\<rparr>) \<or> r' = r0"
  using n unfolding body_nested.simps
  by (simp only: ok_then_Inr_iff not_le sum.inject sum.distinct simp_thms ex_simps
      split: if_split_asm; blast)

definition body_invariant ::
  "libp2p_gossipsub_limits_t \<Rightarrow> libp2p_gossipsub_rpc_decode_storage_t \<Rightarrow>
   libp2p_gossipsub_rpc_t \<Rightarrow> bool" where
  "body_invariant l s r \<longleftrightarrow>
     rpc_fits s r \<and> list_all (sub_ok l) (rpc_subscriptions r) \<and>
     list_all (message_ok l) (rpc_publish r) \<and> control_within l s (rpc_control r) \<and>
     control_counts l (rpc_control r)"

lemma body_nested_invariant:
  assumes "body_invariant l s r0" and "body_nested v l s r0 field b = Inr r'"
  shows "body_invariant l s r'"
proof -
  note inv = assms(1) [unfolded body_invariant_def rpc_fits_def]
  from body_nested_cases [OF assms(2)] consider
    (sub) x where "gossipsub_sub_decode l b = Inr x"
      "length (rpc_subscriptions r0) < subscription_capacity s"
      "r' = r0\<lparr>rpc_subscriptions := rpc_subscriptions r0 @ [x]\<rparr>"
  | (msg) x where "gossipsub_message_decode l b = Inr x"
      "length (rpc_publish r0) < publish_capacity s"
      "r' = r0\<lparr>rpc_publish := rpc_publish r0 @ [x]\<rparr>"
  | (ctl) x where "gossipsub_control_decode v l b s = Inr x" "r' = r0\<lparr>rpc_control := x\<rparr>"
  | (other) "r' = r0"
    by blast
  then show ?thesis
  proof cases
    case sub
    with inv sub_decode_ok [OF sub(1)] show ?thesis by (simp add: body_invariant_def rpc_fits_def)
  next
    case msg
    with inv message_decode_ok [OF msg(1)] show ?thesis by (simp add: body_invariant_def rpc_fits_def)
  next
    case ctl
    with inv control_decode_ok [OF ctl(1)] show ?thesis
      by (simp add: body_invariant_def rpc_fits_def control_within_def)
  next
    case other
    with assms(1) show ?thesis by simp
  qed
qed

lemma body_decode_within:
  assumes "libp2p_gossipsub_rpc_body_decode v (Some l) inp (Some s) g = Inr r"
  shows "rpc_within l s r"
proof -
  let ?P = "body_invariant l s"
  let ?r = "\<lparr>rpc_subscriptions = [], rpc_publish = [], rpc_control = empty_control\<rparr>"
  obtain bs where d: "decode_fields (body_field v l s) bs 0 ?r = Inr r"
    and n: "length (rpc_subscriptions r) \<le> max_subscriptions_per_rpc l"
      "length (rpc_publish r) \<le> max_publish_per_rpc l"
    using assms
    by (auto simp: libp2p_gossipsub_rpc_body_decode_def ok_then_Inr_iff validate_version_limits_iff
        split: cbuf.splits if_splits)
  have i: "?P ?r"
    by (simp add: body_invariant_def rpc_fits_def control_within_def control_fits_def
        empty_control_def control_counts_def)
  have "?P r"
    by (rule decode_fields_invariant [of ?P, OF _ i d])
      (auto simp: body_field_def split: sum.splits simp del: body_nested.simps
        dest: body_nested_invariant)
  with n show ?thesis by (simp add: rpc_within_def body_invariant_def)
qed

subsection \<open>Frames\<close>

lemma frame_decode_split:
  "libp2p_gossipsub_rpc_frame_decode v (Some l) (Buf bs) (Some s) True = Inr r \<longleftrightarrow>
   (\<exists>body. bs = uvarint_bytes (length body) @ body \<and> length body < 2 ^ 63 \<and>
      libp2p_gossipsub_rpc_body_decode v (Some l) (Buf body) (Some s) True = Inr r)"
  (is "?L \<longleftrightarrow> ?R")
proof
  assume ?L
  then obtain pos n where lo: "limits_ok v l" and rd: "gossipsub_read_uvarint bs 0 = Inr (pos, n)"
    and e: "unat n + pos = length bs"
    and b: "libp2p_gossipsub_rpc_body_decode v (Some l) (Buf (take (unat n) (drop pos bs))) (Some s)
      True = Inr r"
    by (auto simp: libp2p_gossipsub_rpc_frame_decode_def ok_then_Inr_iff validate_version_limits_iff
        split: if_splits)
  from rd have u: "libp2p_uvarint_decode (Buf bs) = (LIBP2P_UVARINT_OK, n, pos)"
    by (auto simp: gossipsub_read_uvarint_def Let_def split: prod.splits if_splits
        elim!: gossipsub_uvarint_err.elims)
  let ?body = "drop pos bs"
  have "length ?body = unat n" using e by simp
  then show ?R
    using uvarint_decode_ok [OF u] b e by (intro exI [of _ ?body]) (auto simp: append_eq_conv_conj)
next
  assume ?R
  then obtain body where bs: "bs = uvarint_bytes (length body) @ body" and l: "length body < 2 ^ 63"
    and b: "libp2p_gossipsub_rpc_body_decode v (Some l) (Buf body) (Some s) True = Inr r" by blast
  have "validate_version_limits v (Some l) = Inr l \<and> length body \<le> max_rpc_bytes l"
    using b by (auto simp: libp2p_gossipsub_rpc_body_decode_def ok_then_Inr_iff
        validate_version_limits_iff split: if_splits)
  then show ?L
    using b l read_uvarint_bytes [OF l, of body]
    by (simp add: libp2p_gossipsub_rpc_frame_decode_def bs unat_of_nat)
qed

lemma frame_decode_bytes:
  assumes "limits_ok v l" and "rpc_ok v l r" and "control_writable (rpc_control r)"
    and "rpc_fits s r" and "length (body_bytes r) \<le> max_rpc_bytes l" and "max_rpc_bytes l < 2 ^ 63"
  shows "libp2p_gossipsub_rpc_frame_decode v (Some l) (Buf (frame_bytes r)) (Some s) True =
    Inr (wire_rpc r)"
  using body_decode_bytes [OF assms] assms(5,6)
  by (auto simp: frame_decode_split frame_bytes_def)

subsection \<open>Properties\<close>

text \<open>A configuration, decode storage and RPC on which the properties are exercised.\<close>

definition sample_limits :: libp2p_gossipsub_limits_t where
  "sample_limits = \<lparr>max_rpc_bytes = 1024, max_message_data_bytes = 64, max_topic_bytes = 16,
     max_message_id_bytes = 8, max_signed_peer_record_bytes = 0, max_subscriptions_per_rpc = 2,
     max_publish_per_rpc = 2, max_ihave_per_rpc = 2, max_iwant_per_rpc = 2, max_graft_per_rpc = 2,
     max_prune_per_rpc = 2, max_idontwant_per_rpc = 2, max_message_ids_per_rpc = 4,
     max_px_peers_per_rpc = 0\<rparr>"

definition sample_storage :: libp2p_gossipsub_rpc_decode_storage_t where
  "sample_storage = \<lparr>subscription_capacity = 2, publish_capacity = 2, ihave_capacity = 2,
     iwant_capacity = 2, graft_capacity = 2, prune_capacity = 2, idontwant_capacity = 2,
     message_id_capacity = 4, peer_info_capacity = 0, peer_infos_given = False\<rparr>"

definition sample_rpc :: libp2p_gossipsub_rpc_t where
  "sample_rpc =
     \<lparr>rpc_subscriptions = [\<lparr>sub_topic = Buf [97], sub_subscribe = 7\<rparr>],
      rpc_publish = [\<lparr>msg_from = Null 0, msg_data = Buf [1, 2, 3], msg_seqno = Null 0,
        msg_topic = Buf [97], msg_signature = Null 0, msg_key = Null 0, raw_message = Null 0\<rparr>],
      rpc_control = \<lparr>ctl_ihave = [\<lparr>ihave_topic = Buf [97], ihave_message_ids = Buf [Buf [9], Buf [8]]\<rparr>],
        ctl_iwant = [], ctl_graft = [\<lparr>graft_topic = Buf [98]\<rparr>],
        ctl_prune = [\<lparr>prune_topic = Buf [97], prune_peers = [], prune_backoff_seconds = 60\<rparr>],
        ctl_idontwant = [\<lparr>idontwant_message_ids = Buf [Buf [5]]\<rparr>]\<rparr>\<rparr>"

lemma sample_ok:
  "limits_ok LIBP2P_GOSSIPSUB_VERSION_12 sample_limits"
  "rpc_ok LIBP2P_GOSSIPSUB_VERSION_12 sample_limits sample_rpc"
  "control_writable (rpc_control sample_rpc)" "rpc_fits sample_storage sample_rpc"
  by (simp_all add: limits_ok_def gossipsub_version_validate_def gossipsub_limits_validate_def
      sample_limits_def LIBP2P_GOSSIPSUB_DEFAULT_MAX_TOPIC_BYTES_def
      LIBP2P_GOSSIPSUB_DEFAULT_MAX_MESSAGE_ID_BYTES_def rpc_ok_def sample_rpc_def sub_ok_def
      span_ok_def message_ok_def control_ok_def ihave_ok_def ids_ok_def graft_ok_def prune_ok_def
      idontwant_ok_def control_writable_def prune_writable_def rpc_fits_def control_fits_def
      sample_storage_def ihave_ids_def iwant_ids_def idontwant_ids_def)

lemma sample_length: "length (body_bytes sample_rpc) = 47" "length (frame_bytes sample_rpc) = 48"
  by (simp_all add: frame_bytes_def body_bytes_def sample_rpc_def nested_bytes_def sub_bytes_def
      message_bytes_def present_bytes_def gossipsub_bytes_present_def control_present_def
      control_bytes_def ihave_bytes_def graft_bytes_def prune_bytes_def idontwant_bytes_def
      ids_bytes_def len_field_def varint_field_def uvarint_bytes_small)

text \<open>What \<open>libp2p_gossipsub_rpc_frame_encode\<close> writes: for an RPC within the limits it
  stores exactly the protobuf image of the RPC behind its length, leaves the rest of the buffer
  alone and reports that many bytes; a buffer that is too short is untouched and the required size
  is reported; an RPC outside the limits is refused and nothing is stored. No store leaves the
  buffer.\<close>

theorem frame_encode_correct:
  assumes "limits_ok v l" and "max_rpc_bytes l < 2 ^ 63" and "control_writable (rpc_control r)"
  shows "let n = length (frame_bytes r) in
    if rpc_ok v l r \<and> length (body_bytes r) \<le> max_rpc_bytes l
    then libp2p_gossipsub_rpc_frame_encode v (Some l) (Some r) (Buf out) True =
      Some (if n \<le> length out
            then (LIBP2P_GOSSIPSUB_OK, Some n, Buf (frame_bytes r @ drop n out))
            else (LIBP2P_GOSSIPSUB_ERR_BUF_TOO_SMALL, Some n, Buf out))
    else \<exists>e. e \<noteq> LIBP2P_GOSSIPSUB_OK \<and>
      libp2p_gossipsub_rpc_frame_encode v (Some l) (Some r) (Buf out) True = Some (e, None, Buf out)"
proof (cases "rpc_ok v l r \<and> length (body_bytes r) \<le> max_rpc_bytes l")
  case True
  then have "libp2p_gossipsub_rpc_frame_size v (Some l) (Some r) True = Inr (length (frame_bytes r))"
    using assms by (simp add: frame_size_iff)
  with True assms show ?thesis
    using frame_encode_ok [of v l r out]
    by (auto simp: Let_def libp2p_gossipsub_rpc_frame_encode_def encode_measured_def)
next
  case False
  obtain e where "libp2p_gossipsub_rpc_frame_size v (Some l) (Some r) True = Inl e"
    using frame_size_iff [OF assms(2), of v r True] False
    by (cases "libp2p_gossipsub_rpc_frame_size v (Some l) (Some r) True") auto
  with False frame_size_no_ok [of v "Some l" "Some r" True] show ?thesis
    by (auto simp: Let_def libp2p_gossipsub_rpc_frame_encode_def encode_measured_def)
qed

theorem frame_encode_correct_witness:
  "libp2p_gossipsub_rpc_frame_encode LIBP2P_GOSSIPSUB_VERSION_12 (Some sample_limits)
     (Some sample_rpc) (Buf (replicate 64 0)) True =
   Some (LIBP2P_GOSSIPSUB_OK, Some 48, Buf (frame_bytes sample_rpc @ replicate 16 0))"
proof -
  have "max_rpc_bytes sample_limits < 2 ^ 63" and "47 \<le> max_rpc_bytes sample_limits"
    by (simp_all add: sample_limits_def)
  then show ?thesis
    using frame_encode_correct [OF sample_ok(1) _ sample_ok(3), of "replicate 64 0"] sample_ok(2)
    by (simp add: Let_def sample_length)
qed

text \<open>Claim C6. Frames round-trip: an RPC within the limits whose parts fit the decode storage is
  encoded, and decoding the bytes written returns the same RPC up to what the wire does not carry
  (absent spans become null, the subscribe flag becomes 0 or 1, peer exchange entries are dropped,
  and a message gains its raw bytes).\<close>

theorem frame_roundtrip:
  assumes "limits_ok v l" and "max_rpc_bytes l < 2 ^ 63" and "rpc_ok v l r"
    and "control_writable (rpc_control r)" and "rpc_fits s r"
    and "length (body_bytes r) \<le> max_rpc_bytes l" and "length (frame_bytes r) \<le> length out"
  shows "\<exists>n out'. libp2p_gossipsub_rpc_frame_encode v (Some l) (Some r) (Buf out) True =
      Some (LIBP2P_GOSSIPSUB_OK, Some n, Buf out') \<and>
    libp2p_gossipsub_rpc_frame_decode v (Some l) (Buf (take n out')) (Some s) True = Inr (wire_rpc r)"
  using frame_encode_ok [OF assms(1,3,4,2,6,7)] frame_decode_bytes [OF assms(1,3,4,5,6,2)] by auto

theorem frame_roundtrip_witness:
  "\<exists>n out'. libp2p_gossipsub_rpc_frame_encode LIBP2P_GOSSIPSUB_VERSION_12 (Some sample_limits)
      (Some sample_rpc) (Buf (replicate 64 0)) True = Some (LIBP2P_GOSSIPSUB_OK, Some n, Buf out') \<and>
    libp2p_gossipsub_rpc_frame_decode LIBP2P_GOSSIPSUB_VERSION_12 (Some sample_limits)
      (Buf (take n out')) (Some sample_storage) True = Inr (wire_rpc sample_rpc)"
  by (rule frame_roundtrip [OF sample_ok(1) _ sample_ok(2-4)])
    (simp_all only: sample_length, simp_all add: sample_limits_def)

text \<open>Claim C9. Whatever bytes a peer sends, an RPC that \<open>libp2p_gossipsub_rpc_frame_decode\<close> accepts
  obeys the configured limits and the capacities of the caller's arrays: the number of
  subscriptions, messages and control entries, the sizes of topics, data, message ids and signed
  peer records, the total number of message ids and peer exchange entries.\<close>

theorem frame_decode_within:
  assumes "libp2p_gossipsub_rpc_frame_decode v (Some l) (Buf bs) (Some s) True = Inr r"
  shows "rpc_within l s r"
  using assms body_decode_within by (auto simp: frame_decode_split)

theorem frame_decode_within_witness:
  "rpc_within sample_limits sample_storage (wire_rpc sample_rpc)"
proof (rule frame_decode_within)
  show "libp2p_gossipsub_rpc_frame_decode LIBP2P_GOSSIPSUB_VERSION_12 (Some sample_limits)
      (Buf (frame_bytes sample_rpc)) (Some sample_storage) True = Inr (wire_rpc sample_rpc)"
    by (rule frame_decode_bytes [OF sample_ok])
      (simp_all only: sample_length, simp_all add: sample_limits_def)
qed

text \<open>A frame is accepted exactly when it is a minimal varint length followed by exactly
  that many bytes which decode as a body; trailing bytes and short frames are refused.\<close>

theorem frame_decode_iff:
  "libp2p_gossipsub_rpc_frame_decode v (Some l) (Buf bs) (Some s) True = Inr r \<longleftrightarrow>
   (\<exists>body. bs = uvarint_bytes (length body) @ body \<and> length body < 2 ^ 63 \<and>
      libp2p_gossipsub_rpc_body_decode v (Some l) (Buf body) (Some s) True = Inr r)"
  by (rule frame_decode_split)

text \<open>Claim C22. A control section that arrives as a varint is skipped and then decoded as if it
  were a length-delimited field with a null span, so the whole RPC is refused with
  \<open>INVALID_ARG\<close>; the same mismatch inside a message is skipped and ignored.\<close>

theorem control_wire_mismatch:
  assumes "limits_ok v l" and "length (varint_field 3 n) \<le> max_rpc_bytes l" and "n < 2 ^ 63"
    and "message_ok l m" and "length (message_bytes m) < 2 ^ 63"
  shows "libp2p_gossipsub_rpc_body_decode v (Some l) (Buf (varint_field 3 n)) (Some s) True =
      Inl LIBP2P_GOSSIPSUB_ERR_INVALID_ARG \<and>
    (\<exists>m'. gossipsub_message_decode l (Buf (varint_field 3 n @ message_bytes m)) = Inr m' \<and>
       msg_topic m' = msg_topic m)"
proof
  let ?r = "\<lparr>rpc_subscriptions = [], rpc_publish = [], rpc_control = empty_control\<rparr>"
  have "decode_fields (body_field v l s) (varint_field 3 n @ []) 0 ?r =
      Inl LIBP2P_GOSSIPSUB_ERR_INVALID_ARG"
    using assms(3)
    by (subst decode_varint_field [where res = "Inl LIBP2P_GOSSIPSUB_ERR_INVALID_ARG"])
      (simp_all add: body_field_def gossipsub_wire_defs gossipsub_field_defs
        gossipsub_control_decode_def)
  then show "libp2p_gossipsub_rpc_body_decode v (Some l) (Buf (varint_field 3 n)) (Some s) True =
      Inl LIBP2P_GOSSIPSUB_ERR_INVALID_ARG"
    using assms(1,2)
    by (simp add: libp2p_gossipsub_rpc_body_decode_def validate_version_limits_iff [THEN iffD2])
  show "\<exists>m'. gossipsub_message_decode l (Buf (varint_field 3 n @ message_bytes m)) = Inr m' \<and>
      msg_topic m' = msg_topic m"
  proof -
    let ?bs = "varint_field 3 n @ message_bytes m"
    let ?m = "\<lparr>msg_from = Null 0, msg_data = Null 0, msg_seqno = Null 0, msg_topic = Null 0,
      msg_signature = Null 0, msg_key = Null 0, raw_message = Buf ?bs\<rparr>"
    have "decode_fields (message_field l) ?bs 0 ?m =
        decode_fields (message_field l) (message_bytes m) 0 ?m"
      using assms(3) by (subst decode_varint_field [where res = "Inr ?m"])
        (simp_all add: message_field_def gossipsub_wire_defs)
    then show ?thesis
      using message_fields_decode [OF assms(4,5)] assms(4)
      by (simp add: gossipsub_message_decode_def wire_message_def message_ok_def span_ok_def)
  qed
qed

theorem control_wire_mismatch_witness:
  "libp2p_gossipsub_rpc_body_decode LIBP2P_GOSSIPSUB_VERSION_12 (Some sample_limits)
     (Buf [24, 0]) (Some sample_storage) True = Inl LIBP2P_GOSSIPSUB_ERR_INVALID_ARG"
proof -
  have v: "varint_field 3 0 = [24, 0]" by (simp add: varint_field_def uvarint_bytes_small)
  have m: "message_ok sample_limits (rpc_publish sample_rpc ! 0)"
    using sample_ok(2) by (simp add: rpc_ok_def list_all_length sample_rpc_def)
  have "message_bytes (rpc_publish sample_rpc ! 0) = [18, 3, 1, 2, 3, 34, 1, 97]"
    by (simp add: message_bytes_def sample_rpc_def present_bytes_def gossipsub_bytes_present_def
        len_field_def uvarint_bytes_small)
  then show ?thesis
    using control_wire_mismatch [OF sample_ok(1), of 0 "rpc_publish sample_rpc ! 0" sample_storage] m
    by (simp add: v sample_limits_def)
qed

end
