(* ===== verification/Gossipsub_Router.thy ===== *)
theory Gossipsub_Router
  imports Gossipsub_Codec
begin

text \<open>
  The state of the gossipsub router (\<open>src/src/protocol/gossipsub/gossipsub_internal.h\<close>, the
  configuration types of \<open>include/protocol/gossipsub/gossipsub.h\<close>) and the operations on its
  tables in \<open>gossipsub_state.c\<close> that do not enqueue anything: events, topics, peers, topics of
  peers, mesh edges, backoff, the seen, message and IDONTWANT caches; the validation slots of
  \<open>gossipsub_tx.c\<close>.

  A table is a list as long as its configured capacity: a loop over the capacity is a search
  through the list. A byte array with a length field is the list of the bytes in use. The flags
  \<open>used\<close>, \<open>subscribed\<close> and the like are booleans, opaque handles and user pointers are numbers,
  with \<open>None\<close> for \<open>NULL\<close>; a pointer to a table entry is its index. Every operation takes the router
  by reference from callers that have tested it, so the tests of \<open>gossipsub\<close> against \<open>NULL\<close> have no
  counterpart. The application's \<open>random_fn\<close> is a function of the number of calls made so far,
  which the state counts; \<open>message_id_fn\<close> is a function of the message and of the length of the buffer (\<open>None\<close> for a null
  buffer) to its error code, the size it reports and the bytes it stores. An event holds the values
  of its borrowed spans at the time it was queued.
\<close>

subsection \<open>Configuration\<close>

datatype libp2p_gossipsub_validation_mode_t =
  LIBP2P_GOSSIPSUB_VALIDATION_ACCEPT_ALL | LIBP2P_GOSSIPSUB_VALIDATION_REQUIRE_APP

datatype libp2p_host_stream_direction_t =
  LIBP2P_HOST_STREAM_INBOUND | LIBP2P_HOST_STREAM_OUTBOUND

datatype libp2p_host_protocol_event_kind_t =
    LIBP2P_HOST_PROTOCOL_EVENT_READABLE
  | LIBP2P_HOST_PROTOCOL_EVENT_WRITABLE
  | LIBP2P_HOST_PROTOCOL_EVENT_RESET
  | LIBP2P_HOST_PROTOCOL_EVENT_CLOSED

record libp2p_gossipsub_mesh_params_t =
  mp_d :: nat
  mp_d_low :: nat
  mp_d_high :: nat
  mp_d_lazy :: nat
  mp_d_out :: nat
  mp_mcache_len :: nat
  mp_mcache_gossip :: nat
  mp_gossip_factor_ppm :: u32
  mp_heartbeat_interval_us :: u64
  mp_fanout_ttl_us :: u64
  mp_seen_ttl_us :: u64
  mp_prune_backoff_us :: u64
  mp_unsubscribe_backoff_us :: u64
  mp_backoff_slack_us :: u64
  mp_iwant_followup_us :: u64
  mp_enable_flood_publish :: bool
  mp_enable_px :: bool

record libp2p_gossipsub_capacity_t =
  max_topics :: nat
  max_peers :: nat
  max_peer_topics :: nat
  max_mesh_edges :: nat
  max_fanout_edges :: nat
  max_backoff_entries :: nat
  max_streams :: nat
  max_pending_opens :: nat
  max_peer_tx_queue :: nat
  max_tx_rpc_queue :: nat
  tx_buffer_bytes :: nat
  mcache_slots :: nat
  mcache_bytes :: nat
  seen_entries :: nat
  pending_validations :: nat
  idontwant_entries :: nat
  event_capacity :: nat
  max_drive_steps :: nat

record libp2p_gossipsub_config_t =
  cfg_limits :: libp2p_gossipsub_limits_t
  cfg_mesh :: libp2p_gossipsub_mesh_params_t
  cfg_capacity :: libp2p_gossipsub_capacity_t
  cfg_random_fn :: "(nat \<Rightarrow> libp2p_gossipsub_err_t \<times> byte list) option"
  cfg_message_id_fn ::
    "(libp2p_gossipsub_message_t \<Rightarrow> nat option \<Rightarrow> libp2p_gossipsub_err_t \<times> nat \<times> byte list) option"
  cfg_protocol_mask :: u32
  cfg_preferred_protocol :: libp2p_gossipsub_protocol_version_t
  cfg_enable_idontwant :: bool
  cfg_idontwant_min_message_bytes :: nat
  cfg_max_idontwant_per_heartbeat :: nat
  cfg_idontwant_ttl_us :: u64

subsection \<open>Tables\<close>

record gossipsub_topic_state_t =
  t_used :: bool
  t_local_subscribed :: bool
  t_enable_idontwant :: bool
  t_validation_mode :: libp2p_gossipsub_validation_mode_t
  t_idontwant_min_message_bytes :: nat
  t_topic :: "byte list"

record gossipsub_peer_state_t =
  p_used :: bool
  p_explicit_peer :: bool
  p_closed :: bool
  p_conn :: "nat option"
  p_stream :: "nat option"
  p_direction :: libp2p_host_stream_direction_t
  p_version :: libp2p_gossipsub_protocol_version_t
  p_peer_id :: "byte list"
  p_idontwant_sent :: nat
  p_tx_head :: "nat option"
  p_tx_tail :: "nat option"
  p_tx_priority_tail :: "nat option"
  p_tx_queue_depth :: nat
  p_tx_priority_depth :: nat
  p_tx_queue_limit_reported :: bool
  p_tx_ready :: bool
  p_tx_transport_busy :: bool
  p_tx_last_writable_us :: u64
  p_tx_last_offset :: u64
  p_tx_bytes_accepted :: u64
  p_tx_would_block_count :: u64
  p_user_data :: "nat option"

record gossipsub_peer_topic_state_t =
  pt_used :: bool
  pt_peer_index :: nat
  pt_topic_index :: nat
  pt_subscribed :: bool

record gossipsub_mesh_edge_state_t =
  me_used :: bool
  me_peer_index :: nat
  me_topic_index :: nat

record gossipsub_backoff_state_t =
  bo_used :: bool
  bo_peer_index :: nat
  bo_topic_index :: nat
  bo_expires_us :: u64

text \<open>
  The pointer \<open>rx\<close> of a stream is an offset into the block of the small receive buffers or into the
  pool of the large ones; \<open>rx_offset\<close> is \<open>None\<close> for \<open>GOSSIPSUB_RX_NO_OFFSET\<close>.
\<close>

datatype rx_pointer = Rx_small nat | Rx_large nat

record gossipsub_stream_state_t =
  ss_open :: bool
  ss_stream :: "nat option"
  ss_conn :: "nat option"
  ss_direction :: libp2p_host_stream_direction_t
  ss_version :: libp2p_gossipsub_protocol_version_t
  ss_stream_index :: nat
  ss_peer_index :: nat
  ss_rx :: "rx_pointer option"
  ss_rx_len :: nat
  ss_rx_cap :: nat
  ss_rx_offset :: "nat option"

record gossipsub_tx_item_t =
  ti_used :: bool
  ti_priority :: bool
  ti_publish :: bool
  ti_peer_index :: nat
  ti_offset :: nat
  ti_len :: nat
  ti_pos :: nat
  ti_next :: "nat option"
  ti_enqueued_us :: u64
  ti_deadline_us :: u64
  ti_message_id :: "byte list"

record gossipsub_mcache_entry_t =
  mc_used :: bool
  mc_window :: byte
  mc_message_id :: "byte list"
  mc_topic :: "byte list"
  mc_data_offset :: nat
  mc_data_len :: nat

record gossipsub_seen_entry_t =
  se_used :: bool
  se_message_id :: "byte list"
  se_expires_us :: u64

record gossipsub_idontwant_entry_t =
  dw_used :: bool
  dw_message_id :: "byte list"
  dw_peer_index :: nat
  dw_expires_us :: u64

record libp2p_gossipsub_validation =
  va_pending :: bool
  va_peer_index :: nat
  va_mcache_index :: nat
  va_expires_us :: u64

datatype libp2p_gossipsub_event_type_t =
    LIBP2P_GOSSIPSUB_EVENT_NONE
  | LIBP2P_GOSSIPSUB_EVENT_PEER_OPENED
  | LIBP2P_GOSSIPSUB_EVENT_PEER_CLOSED
  | LIBP2P_GOSSIPSUB_EVENT_PEER_FAILED
  | LIBP2P_GOSSIPSUB_EVENT_SUBSCRIPTION
  | LIBP2P_GOSSIPSUB_EVENT_MESSAGE
  | LIBP2P_GOSSIPSUB_EVENT_IDONTWANT
  | LIBP2P_GOSSIPSUB_EVENT_DROPPED
  | LIBP2P_GOSSIPSUB_EVENT_ERROR

datatype libp2p_gossipsub_drop_reason_t =
    LIBP2P_GOSSIPSUB_DROP_RPC_LIMIT
  | LIBP2P_GOSSIPSUB_DROP_MALFORMED_RPC
  | LIBP2P_GOSSIPSUB_DROP_DUPLICATE_MESSAGE
  | LIBP2P_GOSSIPSUB_DROP_UNSUBSCRIBED_TOPIC
  | LIBP2P_GOSSIPSUB_DROP_VALIDATION_REJECTED
  | LIBP2P_GOSSIPSUB_DROP_TX_QUEUE_FULL
  | LIBP2P_GOSSIPSUB_DROP_IDONTWANT_LIMIT
  | LIBP2P_GOSSIPSUB_DROP_IDONTWANT_TX_QUEUE_FULL

record libp2p_gossipsub_event_t =
  ev_type :: libp2p_gossipsub_event_type_t
  ev_peer :: "byte list"
  ev_conn :: "nat option"
  ev_stream :: "nat option"
  ev_direction :: libp2p_host_stream_direction_t
  ev_protocol_version :: libp2p_gossipsub_protocol_version_t
  ev_topic :: gbytes
  ev_message :: libp2p_gossipsub_message_t
  ev_message_id :: gbytes
  ev_idontwant :: libp2p_gossipsub_control_idontwant_t
  ev_validation :: "nat option"
  ev_drop_reason :: libp2p_gossipsub_drop_reason_t
  ev_reason :: libp2p_gossipsub_err_t
  ev_tx_queue_depth :: nat
  ev_tx_queue_capacity :: nat
  ev_user_data :: "nat option"

record libp2p_gossipsub_t =
  g_config :: libp2p_gossipsub_config_t
  g_started :: bool
  g_closing :: bool
  g_next_heartbeat_us :: u64
  g_last_drive_us :: u64
  g_topics :: "gossipsub_topic_state_t list"
  g_peers :: "gossipsub_peer_state_t list"
  g_peer_topics :: "gossipsub_peer_topic_state_t list"
  g_mesh_edges :: "gossipsub_mesh_edge_state_t list"
  g_backoff :: "gossipsub_backoff_state_t list"
  g_streams :: "gossipsub_stream_state_t list"
  g_stream_rx_small :: "byte list"
  g_stream_rx_buffer :: "byte list option"
  g_stream_rx_small_stride :: nat
  g_stream_rx_max_cap :: nat
  g_stream_rx_buffer_used :: nat
  g_tx_queue :: "gossipsub_tx_item_t list"
  g_tx_buffer :: "byte list"
  g_tx_buffer_used :: nat
  g_mcache :: "gossipsub_mcache_entry_t list"
  g_mcache_data :: "byte list"
  g_mcache_data_used :: nat
  g_seen :: "gossipsub_seen_entry_t list"
  g_validations :: "libp2p_gossipsub_validation list"
  g_idontwant :: "gossipsub_idontwant_entry_t list"
  g_events :: "libp2p_gossipsub_event_t list"
  g_topic_count :: nat
  g_peer_count :: nat
  g_mesh_peer_count :: u64
  g_tx_queue_len :: nat
  g_tx_ready_count :: nat
  g_tx_next_peer :: nat
  g_event_head :: nat
  g_event_len :: nat
  g_mcache_next :: nat
  g_random_calls :: nat

text \<open>Zeroed memory, as \<open>memset\<close> leaves an entry.\<close>

definition zero_message :: libp2p_gossipsub_message_t where
  "zero_message = \<lparr>msg_from = Null 0, msg_data = Null 0, msg_seqno = Null 0, msg_topic = Null 0,
     msg_signature = Null 0, msg_key = Null 0, raw_message = Null 0\<rparr>"

definition zero_event :: libp2p_gossipsub_event_t where
  "zero_event = \<lparr>ev_type = LIBP2P_GOSSIPSUB_EVENT_NONE, ev_peer = [], ev_conn = None,
     ev_stream = None, ev_direction = LIBP2P_HOST_STREAM_INBOUND,
     ev_protocol_version = LIBP2P_GOSSIPSUB_VERSION_NONE, ev_topic = Null 0,
     ev_message = zero_message, ev_message_id = Null 0,
     ev_idontwant = \<lparr>idontwant_message_ids = Null 0\<rparr>, ev_validation = None,
     ev_drop_reason = LIBP2P_GOSSIPSUB_DROP_RPC_LIMIT, ev_reason = LIBP2P_GOSSIPSUB_OK,
     ev_tx_queue_depth = 0, ev_tx_queue_capacity = 0, ev_user_data = None\<rparr>"

definition zero_topic :: gossipsub_topic_state_t where
  "zero_topic = \<lparr>t_used = False, t_local_subscribed = False, t_enable_idontwant = False,
     t_validation_mode = LIBP2P_GOSSIPSUB_VALIDATION_ACCEPT_ALL,
     t_idontwant_min_message_bytes = 0, t_topic = []\<rparr>"

text \<open>The three list ends of a peer are set to \<open>GOSSIPSUB_TX_NO_ITEM\<close> wherever a peer is cleared.\<close>

definition zero_peer :: gossipsub_peer_state_t where
  "zero_peer = \<lparr>p_used = False, p_explicit_peer = False, p_closed = False, p_conn = None,
     p_stream = None, p_direction = LIBP2P_HOST_STREAM_INBOUND,
     p_version = LIBP2P_GOSSIPSUB_VERSION_NONE, p_peer_id = [], p_idontwant_sent = 0,
     p_tx_head = None, p_tx_tail = None, p_tx_priority_tail = None, p_tx_queue_depth = 0,
     p_tx_priority_depth = 0, p_tx_queue_limit_reported = False, p_tx_ready = False,
     p_tx_transport_busy = False, p_tx_last_writable_us = 0, p_tx_last_offset = 0,
     p_tx_bytes_accepted = 0, p_tx_would_block_count = 0, p_user_data = None\<rparr>"

definition zero_peer_topic :: gossipsub_peer_topic_state_t where
  "zero_peer_topic = \<lparr>pt_used = False, pt_peer_index = 0, pt_topic_index = 0, pt_subscribed = False\<rparr>"

definition zero_edge :: gossipsub_mesh_edge_state_t where
  "zero_edge = \<lparr>me_used = False, me_peer_index = 0, me_topic_index = 0\<rparr>"

definition zero_backoff :: gossipsub_backoff_state_t where
  "zero_backoff = \<lparr>bo_used = False, bo_peer_index = 0, bo_topic_index = 0, bo_expires_us = 0\<rparr>"

definition zero_mcache_entry :: gossipsub_mcache_entry_t where
  "zero_mcache_entry = \<lparr>mc_used = False, mc_window = 0, mc_message_id = [], mc_topic = [],
     mc_data_offset = 0, mc_data_len = 0\<rparr>"

text \<open>The index of the first entry of a table with a property.\<close>

primrec first_index :: "('a \<Rightarrow> bool) \<Rightarrow> 'a list \<Rightarrow> nat option" where
  "first_index P [] = None"
| "first_index P (x # xs) = (if P x then Some 0 else map_option Suc (first_index P xs))"

subsection \<open>Events and validations\<close>

definition gossipsub_event_push ::
  "libp2p_gossipsub_t \<Rightarrow> libp2p_gossipsub_event_t \<Rightarrow> libp2p_gossipsub_err_t \<times> libp2p_gossipsub_t" where
  "gossipsub_event_push g event =
     (if g_event_len g = length (g_events g) then (LIBP2P_GOSSIPSUB_ERR_WOULD_BLOCK, g)
      else let pos = (g_event_head g + g_event_len g) mod length (g_events g) in
        (LIBP2P_GOSSIPSUB_OK,
         g\<lparr>g_events := (g_events g)[pos := event], g_event_len := g_event_len g + 1\<rparr>))"

definition gossipsub_release_validation :: "nat option \<Rightarrow> libp2p_gossipsub_t \<Rightarrow> libp2p_gossipsub_t" where
  "gossipsub_release_validation v g =
     (case v of
        None \<Rightarrow> g
      | Some i \<Rightarrow> g\<lparr>g_validations := (g_validations g)[i := \<lparr>va_pending = False, va_peer_index = 0,
                     va_mcache_index = 0, va_expires_us = 0\<rparr>]\<rparr>)"

definition gossipsub_alloc_validation ::
  "libp2p_gossipsub_t \<Rightarrow> nat \<Rightarrow> nat \<Rightarrow> u64 \<Rightarrow> nat option \<times> libp2p_gossipsub_t" where
  "gossipsub_alloc_validation g peer_index mcache_index now_us =
     (case first_index (\<lambda>v. \<not> va_pending v) (g_validations g) of
        None \<Rightarrow> (None, g)
      | Some i \<Rightarrow>
          (Some i, g\<lparr>g_validations := (g_validations g)[i := \<lparr>va_pending = True,
             va_peer_index = peer_index, va_mcache_index = mcache_index,
             va_expires_us = now_us + mp_iwant_followup_us (cfg_mesh (g_config g))\<rparr>]\<rparr>))"

definition gossipsub_push_event_or_drop ::
  "libp2p_gossipsub_t \<Rightarrow> libp2p_gossipsub_event_t \<Rightarrow> libp2p_gossipsub_err_t \<times> libp2p_gossipsub_t" where
  "gossipsub_push_event_or_drop g event =
     (case gossipsub_event_push g event of
        (result, g') \<Rightarrow>
          if result = LIBP2P_GOSSIPSUB_ERR_WOULD_BLOCK
          then (LIBP2P_GOSSIPSUB_OK, gossipsub_release_validation (ev_validation event) g')
          else (result, g'))"

definition gossipsub_continue_after_local_limit ::
  "libp2p_gossipsub_err_t \<Rightarrow> libp2p_gossipsub_err_t" where
  "gossipsub_continue_after_local_limit result =
     (if result = LIBP2P_GOSSIPSUB_ERR_LIMIT then LIBP2P_GOSSIPSUB_OK else result)"

definition gossipsub_peer_to_event ::
  "gossipsub_peer_state_t \<Rightarrow> libp2p_gossipsub_event_t \<Rightarrow> libp2p_gossipsub_event_t" where
  "gossipsub_peer_to_event peer event =
     event\<lparr>ev_conn := p_conn peer, ev_stream := p_stream peer, ev_direction := p_direction peer,
           ev_protocol_version := p_version peer, ev_peer := p_peer_id peer,
           ev_user_data := p_user_data peer\<rparr>"

subsection \<open>Topics and peers\<close>

definition gossipsub_find_topic :: "libp2p_gossipsub_t \<Rightarrow> gbytes \<Rightarrow> nat option" where
  "gossipsub_find_topic g topic =
     first_index (\<lambda>t. t_used t \<and> gossipsub_bytes_equal (Buf (t_topic t)) topic) (g_topics g)"

definition gossipsub_find_or_add_topic ::
  "libp2p_gossipsub_t \<Rightarrow> gbytes \<Rightarrow> nat option \<times> libp2p_gossipsub_t" where
  "gossipsub_find_or_add_topic g topic =
     (if is_null topic \<or> clen topic > max_topic_bytes (cfg_limits (g_config g)) then (None, g)
      else case gossipsub_find_topic g topic of
        Some i \<Rightarrow> (Some i, g)
      | None \<Rightarrow>
          (case first_index (\<lambda>t. \<not> t_used t) (g_topics g) of
             None \<Rightarrow> (None, g)
           | Some i \<Rightarrow>
               (Some i, g\<lparr>g_topics := (g_topics g)[i := zero_topic\<lparr>t_used := True,
                  t_enable_idontwant := cfg_enable_idontwant (g_config g),
                  t_idontwant_min_message_bytes := cfg_idontwant_min_message_bytes (g_config g),
                  t_topic := contents topic\<rparr>],
                  g_topic_count := g_topic_count g + 1\<rparr>)))"

definition gossipsub_find_peer :: "libp2p_gossipsub_t \<Rightarrow> gbytes \<Rightarrow> nat option" where
  "gossipsub_find_peer g peer_id =
     first_index (\<lambda>p. p_used p \<and> gossipsub_bytes_equal (Buf (p_peer_id p)) peer_id) (g_peers g)"

text \<open>
  \<open>conn_peer_id\<close> is what \<open>libp2p_host_conn_peer_id\<close> of the host returns for the connection: its
  error code and the bytes it stores.
\<close>

definition gossipsub_peer_from_conn ::
  "libp2p_gossipsub_t \<Rightarrow> nat option \<Rightarrow> libp2p_host_err_t \<times> byte list \<Rightarrow>
   (libp2p_gossipsub_err_t \<times> nat option) \<times> libp2p_gossipsub_t" where
  "gossipsub_peer_from_conn g conn conn_peer_id =
     (if conn = None then ((LIBP2P_GOSSIPSUB_ERR_INVALID_ARG, None), g)
      else let result = gossipsub_host_to_err (fst conn_peer_id); peer_id = snd conn_peer_id in
      if result \<noteq> LIBP2P_GOSSIPSUB_OK then ((result, None), g)
      else
        let (found, g1) =
          (case gossipsub_find_peer g (Buf peer_id) of
             Some i \<Rightarrow> (Some i, g)
           | None \<Rightarrow>
               (case first_index (\<lambda>p. \<not> p_used p) (g_peers g) of
                  None \<Rightarrow> (None, g)
                | Some i \<Rightarrow>
                    (Some i, g\<lparr>g_peers := (g_peers g)[i := zero_peer\<lparr>p_used := True,
                       p_peer_id := peer_id\<rparr>], g_peer_count := g_peer_count g + 1\<rparr>)))
        in case found of
             None \<Rightarrow> ((LIBP2P_GOSSIPSUB_ERR_LIMIT, None), g1)
           | Some i \<Rightarrow>
               ((LIBP2P_GOSSIPSUB_OK, Some i),
                g1\<lparr>g_peers := (g_peers g1)[i := (g_peers g1 ! i)\<lparr>p_conn := conn, p_closed := False\<rparr>]\<rparr>))"

definition gossipsub_find_peer_topic :: "libp2p_gossipsub_t \<Rightarrow> nat \<Rightarrow> nat \<Rightarrow> nat option" where
  "gossipsub_find_peer_topic g peer_index topic_index =
     first_index (\<lambda>e. pt_used e \<and> pt_peer_index e = peer_index \<and> pt_topic_index e = topic_index)
       (g_peer_topics g)"

definition gossipsub_find_or_add_peer_topic ::
  "libp2p_gossipsub_t \<Rightarrow> nat \<Rightarrow> nat \<Rightarrow> nat option \<times> libp2p_gossipsub_t" where
  "gossipsub_find_or_add_peer_topic g peer_index topic_index =
     (case gossipsub_find_peer_topic g peer_index topic_index of
        Some i \<Rightarrow> (Some i, g)
      | None \<Rightarrow>
          (case first_index (\<lambda>e. \<not> pt_used e) (g_peer_topics g) of
             None \<Rightarrow> (None, g)
           | Some i \<Rightarrow>
               (Some i, g\<lparr>g_peer_topics := (g_peer_topics g)[i := \<lparr>pt_used = True,
                  pt_peer_index = peer_index, pt_topic_index = topic_index,
                  pt_subscribed = False\<rparr>]\<rparr>)))"

definition gossipsub_peer_subscribed :: "libp2p_gossipsub_t \<Rightarrow> nat \<Rightarrow> nat \<Rightarrow> bool" where
  "gossipsub_peer_subscribed g peer_index topic_index =
     list_ex (\<lambda>e. pt_used e \<and> pt_peer_index e = peer_index \<and> pt_topic_index e = topic_index \<and>
                  pt_subscribed e) (g_peer_topics g)"

end
