(* ===== verification/Gossipsub_Tables.thy ===== *)
theory Gossipsub_Tables
  imports Gossipsub_Router
begin

text \<open>
  The mesh, backoff, message-cache, seen and IDONTWANT tables of
  \<open>src/src/protocol/gossipsub/gossipsub_state.c\<close>, with the selection of peers by rank.
\<close>

subsection \<open>Mesh edges\<close>

definition gossipsub_mesh_contains :: "libp2p_gossipsub_t \<Rightarrow> nat \<Rightarrow> nat \<Rightarrow> bool" where
  "gossipsub_mesh_contains g peer_index topic_index =
     list_ex (\<lambda>e. me_used e \<and> me_peer_index e = peer_index \<and> me_topic_index e = topic_index)
       (g_mesh_edges g)"

definition gossipsub_mesh_count_topic :: "libp2p_gossipsub_t \<Rightarrow> nat \<Rightarrow> nat" where
  "gossipsub_mesh_count_topic g topic_index =
     length (filter (\<lambda>e. me_used e \<and> me_topic_index e = topic_index) (g_mesh_edges g))"

definition libp2p_gossipsub_mesh_peer_count :: "libp2p_gossipsub_t \<Rightarrow> u64" where
  "libp2p_gossipsub_mesh_peer_count g = g_mesh_peer_count g"

definition gossipsub_mesh_add ::
  "libp2p_gossipsub_t \<Rightarrow> nat \<Rightarrow> nat \<Rightarrow> libp2p_gossipsub_err_t \<times> libp2p_gossipsub_t" where
  "gossipsub_mesh_add g peer_index topic_index =
     (if peer_index \<ge> length (g_peers g) \<or> topic_index \<ge> length (g_topics g)
      then (LIBP2P_GOSSIPSUB_ERR_INVALID_ARG, g)
      else if \<not> p_used (g_peers g ! peer_index) \<or> \<not> t_used (g_topics g ! topic_index)
      then (LIBP2P_GOSSIPSUB_ERR_STATE, g)
      else if \<not> gossipsub_mesh_contains g peer_index topic_index then
        (case first_index (\<lambda>e. \<not> me_used e) (g_mesh_edges g) of
           None \<Rightarrow> (LIBP2P_GOSSIPSUB_ERR_LIMIT, g)
         | Some i \<Rightarrow>
             (LIBP2P_GOSSIPSUB_OK,
              g\<lparr>g_mesh_edges := (g_mesh_edges g)[i := \<lparr>me_used = True, me_peer_index = peer_index,
                   me_topic_index = topic_index\<rparr>],
                g_mesh_peer_count := g_mesh_peer_count g + 1\<rparr>))
      else (LIBP2P_GOSSIPSUB_OK, g))"

definition gossipsub_mesh_remove ::
  "libp2p_gossipsub_t \<Rightarrow> nat \<Rightarrow> nat \<Rightarrow> libp2p_gossipsub_t" where
  "gossipsub_mesh_remove g peer_index topic_index =
     (case first_index
             (\<lambda>e. me_used e \<and> me_peer_index e = peer_index \<and> me_topic_index e = topic_index)
             (g_mesh_edges g) of
        None \<Rightarrow> g
      | Some i \<Rightarrow> g\<lparr>g_mesh_edges := (g_mesh_edges g)[i := zero_edge],
                    g_mesh_peer_count := g_mesh_peer_count g - 1\<rparr>)"

text \<open>The loop that clears every used edge with a property and counts down for each.\<close>

fun mesh_clear ::
  "(gossipsub_mesh_edge_state_t \<Rightarrow> bool) \<Rightarrow> gossipsub_mesh_edge_state_t list \<Rightarrow> u64 \<Rightarrow>
   gossipsub_mesh_edge_state_t list \<times> u64" where
  "mesh_clear P [] count = ([], count)"
| "mesh_clear P (e # es) count =
     (if me_used e \<and> P e
      then case mesh_clear P es (count - 1) of (es', count') \<Rightarrow> (zero_edge # es', count')
      else case mesh_clear P es count of (es', count') \<Rightarrow> (e # es', count'))"

definition gossipsub_mesh_remove_peer :: "libp2p_gossipsub_t \<Rightarrow> nat \<Rightarrow> libp2p_gossipsub_t" where
  "gossipsub_mesh_remove_peer g peer_index =
     (case mesh_clear (\<lambda>e. me_peer_index e = peer_index) (g_mesh_edges g) (g_mesh_peer_count g) of
        (es, count) \<Rightarrow> g\<lparr>g_mesh_edges := es, g_mesh_peer_count := count\<rparr>)"

definition gossipsub_mesh_remove_topic :: "libp2p_gossipsub_t \<Rightarrow> nat \<Rightarrow> libp2p_gossipsub_t" where
  "gossipsub_mesh_remove_topic g topic_index =
     (case mesh_clear (\<lambda>e. me_topic_index e = topic_index) (g_mesh_edges g) (g_mesh_peer_count g) of
        (es, count) \<Rightarrow> g\<lparr>g_mesh_edges := es, g_mesh_peer_count := count\<rparr>)"

subsection \<open>Backoff\<close>

definition gossipsub_u64_add_saturating :: "u64 \<Rightarrow> u64 \<Rightarrow> u64" where
  "gossipsub_u64_add_saturating left right = (if - 1 - left \<ge> right then left + right else - 1)"

definition gossipsub_backoff_expires_us :: "libp2p_gossipsub_t \<Rightarrow> u64 \<Rightarrow> u64 \<Rightarrow> u64" where
  "gossipsub_backoff_expires_us g interval_us now_us =
     gossipsub_u64_add_saturating now_us
       (gossipsub_u64_add_saturating interval_us (mp_backoff_slack_us (cfg_mesh (g_config g))))"

definition gossipsub_backoff_active :: "libp2p_gossipsub_t \<Rightarrow> nat \<Rightarrow> nat \<Rightarrow> u64 \<Rightarrow> bool" where
  "gossipsub_backoff_active g peer_index topic_index now_us =
     (peer_index < length (g_peers g) \<and> topic_index < length (g_topics g) \<and>
      list_ex (\<lambda>b. bo_used b \<and> bo_peer_index b = peer_index \<and> bo_topic_index b = topic_index \<and>
                   bo_expires_us b > now_us) (g_backoff g))"

text \<open>
  The search for a slot: the entry of this peer and topic ends it; otherwise the first free entry
  and the entry that expires first are remembered.
\<close>

fun backoff_scan ::
  "nat \<Rightarrow> nat \<Rightarrow> nat \<Rightarrow> gossipsub_backoff_state_t list \<Rightarrow> nat option \<Rightarrow> (nat \<times> u64) option \<Rightarrow>
   nat option \<times> (nat \<times> u64) option \<times> bool" where
  "backoff_scan p t index [] slot replace = (slot, replace, False)"
| "backoff_scan p t index (b # bs) slot replace =
     (if bo_used b \<and> bo_peer_index b = p \<and> bo_topic_index b = t then (Some index, replace, True)
      else
        let slot' = (if \<not> bo_used b \<and> slot = None then Some index else slot);
            replace' =
              (if bo_used b \<and> (case replace of None \<Rightarrow> True | Some (_, e) \<Rightarrow> bo_expires_us b < e)
               then Some (index, bo_expires_us b) else replace)
        in backoff_scan p t (index + 1) bs slot' replace')"

definition gossipsub_backoff_add ::
  "libp2p_gossipsub_t \<Rightarrow> nat \<Rightarrow> nat \<Rightarrow> u64 \<Rightarrow> u64 \<Rightarrow> libp2p_gossipsub_err_t \<times> libp2p_gossipsub_t" where
  "gossipsub_backoff_add g peer_index topic_index interval_us now_us =
     (if peer_index \<ge> length (g_peers g) \<or> topic_index \<ge> length (g_topics g)
      then (LIBP2P_GOSSIPSUB_ERR_INVALID_ARG, g)
      else
        let expires_us = gossipsub_backoff_expires_us g interval_us now_us in
        case backoff_scan peer_index topic_index 0 (g_backoff g) None None of
          (slot, replace, found_match) \<Rightarrow>
            (case (if slot = None then map_option fst replace else slot) of
               None \<Rightarrow> (LIBP2P_GOSSIPSUB_ERR_LIMIT, g)
             | Some i \<Rightarrow>
                 if \<not> found_match \<or> bo_expires_us (g_backoff g ! i) < expires_us
                 then (LIBP2P_GOSSIPSUB_OK,
                       g\<lparr>g_backoff := (g_backoff g)[i := \<lparr>bo_used = True, bo_peer_index = peer_index,
                          bo_topic_index = topic_index, bo_expires_us = expires_us\<rparr>]\<rparr>)
                 else (LIBP2P_GOSSIPSUB_OK, g)))"

definition gossipsub_backoff_clear_expired :: "libp2p_gossipsub_t \<Rightarrow> u64 \<Rightarrow> libp2p_gossipsub_t" where
  "gossipsub_backoff_clear_expired g now_us =
     g\<lparr>g_backoff := map (\<lambda>b. if bo_used b \<and> bo_expires_us b \<le> now_us then zero_backoff else b)
        (g_backoff g)\<rparr>"

subsection \<open>Ranks\<close>

definition gossipsub_random_u64 ::
  "libp2p_gossipsub_t \<Rightarrow> (libp2p_gossipsub_err_t \<times> u64) \<times> libp2p_gossipsub_t" where
  "gossipsub_random_u64 g =
     (case cfg_random_fn (g_config g) of
        None \<Rightarrow> ((LIBP2P_GOSSIPSUB_ERR_INVALID_ARG, 0), g)
      | Some f \<Rightarrow>
          (case f (g_random_calls g) of
             (result, bytes) \<Rightarrow>
               ((result,
                 if result = LIBP2P_GOSSIPSUB_OK
                 then foldl (\<lambda>v b. push_bit 8 v OR ucast b) 0 (take 8 (bytes @ replicate 8 0))
                 else 0),
                g\<lparr>g_random_calls := g_random_calls g + 1\<rparr>)))"

fun gossipsub_peer_id_cmp :: "byte list \<Rightarrow> byte list \<Rightarrow> int" where
  "gossipsub_peer_id_cmp [] [] = 0"
| "gossipsub_peer_id_cmp [] (b # bs) = - 1"
| "gossipsub_peer_id_cmp (a # as) [] = 1"
| "gossipsub_peer_id_cmp (a # as) (b # bs) =
     (if a < b then - 1 else if a > b then 1 else gossipsub_peer_id_cmp as bs)"

definition GOSSIPSUB_PEER_RANK_OFFSET :: u64 where
  "GOSSIPSUB_PEER_RANK_OFFSET = 1469598103934665603"

definition GOSSIPSUB_PEER_RANK_PRIME :: u64 where
  "GOSSIPSUB_PEER_RANK_PRIME = 1099511628211"

definition gossipsub_peer_rank :: "gossipsub_peer_state_t \<Rightarrow> u64 \<Rightarrow> u64" where
  "gossipsub_peer_rank peer salt =
     foldl (\<lambda>r b. (r XOR ucast b) * GOSSIPSUB_PEER_RANK_PRIME) (GOSSIPSUB_PEER_RANK_OFFSET XOR salt)
       (p_peer_id peer)"

definition gossipsub_rank_before :: "libp2p_gossipsub_t \<Rightarrow> u64 \<Rightarrow> nat \<Rightarrow> u64 \<Rightarrow> nat \<Rightarrow> bool" where
  "gossipsub_rank_before g rank peer_index best_rank best_peer_index =
     (if peer_index < length (g_peers g) \<and> best_peer_index < length (g_peers g) then
        (if rank < best_rank then True
         else if rank > best_rank then False
         else
           let cmp = gossipsub_peer_id_cmp (p_peer_id (g_peers g ! peer_index))
                       (p_peer_id (g_peers g ! best_peer_index))
           in if cmp < 0 then True
              else if cmp > 0 then False
              else peer_index < best_peer_index)
      else False)"

definition gossipsub_rank_after :: "libp2p_gossipsub_t \<Rightarrow> u64 \<Rightarrow> nat \<Rightarrow> u64 \<Rightarrow> nat \<Rightarrow> bool" where
  "gossipsub_rank_after g rank peer_index previous_rank previous_peer_index =
     (if peer_index < length (g_peers g) \<and> previous_peer_index < length (g_peers g) then
        (if rank > previous_rank then True
         else if rank < previous_rank then False
         else
           let cmp = gossipsub_peer_id_cmp (p_peer_id (g_peers g ! peer_index))
                       (p_peer_id (g_peers g ! previous_peer_index))
           in if cmp > 0 then True
              else if cmp < 0 then False
              else peer_index > previous_peer_index)
      else False)"

datatype rank_mode = GOSSIPSUB_RANK_MODE_FILL | GOSSIPSUB_RANK_MODE_TRIM

definition gossipsub_rank_candidate ::
  "libp2p_gossipsub_t \<Rightarrow> nat \<Rightarrow> nat \<Rightarrow> rank_mode \<Rightarrow> bool" where
  "gossipsub_rank_candidate g peer_index topic_index mode =
     (peer_index < length (g_peers g) \<and>
      (case mode of
         GOSSIPSUB_RANK_MODE_TRIM \<Rightarrow> gossipsub_mesh_contains g peer_index topic_index
       | GOSSIPSUB_RANK_MODE_FILL \<Rightarrow>
           p_used (g_peers g ! peer_index) \<and> p_stream (g_peers g ! peer_index) \<noteq> None \<and>
           gossipsub_peer_subscribed g peer_index topic_index \<and>
           \<not> gossipsub_mesh_contains g peer_index topic_index \<and>
           \<not> gossipsub_backoff_active g peer_index topic_index (g_last_drive_us g)))"

text \<open>
  The loop over all peers that keeps the best candidate so far, from \<open>peer_index\<close> for \<open>n\<close> peers;
  \<open>candidate\<close> is the test of the loop, which also sees the rank.
\<close>

fun best_ranked ::
  "libp2p_gossipsub_t \<Rightarrow> u64 \<Rightarrow> (u64 \<Rightarrow> nat \<Rightarrow> bool) \<Rightarrow> nat \<Rightarrow> nat \<Rightarrow> (u64 \<times> nat) option \<Rightarrow>
   (u64 \<times> nat) option" where
  "best_ranked g salt candidate peer_index 0 best = best"
| "best_ranked g salt candidate peer_index (Suc n) best =
     (let rank = gossipsub_peer_rank (g_peers g ! peer_index) salt;
          best' =
            (if candidate rank peer_index \<and>
                (case best of
                   None \<Rightarrow> True
                 | Some (best_rank, best_peer) \<Rightarrow>
                     gossipsub_rank_before g rank peer_index best_rank best_peer)
             then Some (rank, peer_index) else best)
      in best_ranked g salt candidate (peer_index + 1) n best')"

definition gossipsub_ranked_peer :: "libp2p_gossipsub_t \<Rightarrow> nat \<Rightarrow> u64 \<Rightarrow> rank_mode \<Rightarrow> nat" where
  "gossipsub_ranked_peer g topic_index salt mode =
     (case best_ranked g salt (\<lambda>rank p. gossipsub_rank_candidate g p topic_index mode) 0
             (length (g_peers g)) None of
        None \<Rightarrow> length (g_peers g)
      | Some (rank, p) \<Rightarrow> p)"

subsection \<open>Message ids and caches\<close>

text \<open>The error code, the value of \<open>written\<close> and the bytes stored, if any.\<close>

definition gossipsub_compute_message_id ::
  "libp2p_gossipsub_t \<Rightarrow> libp2p_gossipsub_message_t \<Rightarrow> nat option \<Rightarrow>
   libp2p_gossipsub_err_t \<times> nat option \<times> byte list" where
  "gossipsub_compute_message_id g m out_len =
     (let f = the (cfg_message_id_fn (g_config g)) in
      case f m None of
        (result, required, _) \<Rightarrow>
          (let result =
             (if result = LIBP2P_GOSSIPSUB_ERR_BUF_TOO_SMALL then LIBP2P_GOSSIPSUB_OK else result)
           in if result \<noteq> LIBP2P_GOSSIPSUB_OK then (result, None, [])
              else if required = 0 \<or> required > max_message_id_bytes (cfg_limits (g_config g))
              then (LIBP2P_GOSSIPSUB_ERR_LIMIT, Some required, [])
              else case out_len of
                     None \<Rightarrow> (LIBP2P_GOSSIPSUB_ERR_BUF_TOO_SMALL, Some required, [])
                   | Some n \<Rightarrow>
                       if n < required then (LIBP2P_GOSSIPSUB_ERR_BUF_TOO_SMALL, Some required, [])
                       else case f m (Some n) of (result, written, bytes) \<Rightarrow>
                              (result, Some written, bytes)))"

definition gossipsub_seen_contains :: "libp2p_gossipsub_t \<Rightarrow> gbytes \<Rightarrow> u64 \<Rightarrow> bool" where
  "gossipsub_seen_contains g message_id now_us =
     list_ex (\<lambda>s. se_used s \<and> se_expires_us s \<ge> now_us \<and>
                  gossipsub_bytes_equal (Buf (se_message_id s)) message_id) (g_seen g)"

definition gossipsub_seen_add :: "libp2p_gossipsub_t \<Rightarrow> gbytes \<Rightarrow> u64 \<Rightarrow> libp2p_gossipsub_t" where
  "gossipsub_seen_add g message_id now_us =
     (if is_null message_id \<or> length (g_seen g) = 0 \<or>
         clen message_id > max_message_id_bytes (cfg_limits (g_config g))
      then g
      else
        let target =
          (case first_index (\<lambda>s. \<not> se_used s \<or> se_expires_us s < now_us) (g_seen g) of
             Some i \<Rightarrow> i
           | None \<Rightarrow> g_mcache_next g mod length (g_seen g))
        in g\<lparr>g_seen := (g_seen g)[target := \<lparr>se_used = True, se_message_id = contents message_id,
               se_expires_us = now_us + mp_seen_ttl_us (cfg_mesh (g_config g))\<rparr>]\<rparr>)"

definition gossipsub_mcache_find :: "libp2p_gossipsub_t \<Rightarrow> gbytes \<Rightarrow> nat option" where
  "gossipsub_mcache_find g message_id =
     first_index (\<lambda>e. mc_used e \<and> gossipsub_bytes_equal (Buf (mc_message_id e)) message_id)
       (g_mcache g)"

text \<open>The result is the error code with the slot; \<open>None\<close> says that the copy would leave the cache.\<close>

definition gossipsub_mcache_store ::
  "libp2p_gossipsub_t \<Rightarrow> gbytes \<Rightarrow> gbytes \<Rightarrow> gbytes \<Rightarrow>
   ((libp2p_gossipsub_err_t \<times> nat option) \<times> libp2p_gossipsub_t) option" where
  "gossipsub_mcache_store g message_id topic data =
     (let l = cfg_limits (g_config g); bytes = length (g_mcache_data g) in
      if is_null message_id \<or> is_null topic \<or> is_null data \<and> clen data \<noteq> 0
      then Some ((LIBP2P_GOSSIPSUB_ERR_INVALID_ARG, None), g)
      else if clen message_id = 0 \<or> clen message_id > max_message_id_bytes l \<or> clen topic = 0 \<or>
              clen topic > max_topic_bytes l \<or> clen data > bytes
      then Some ((LIBP2P_GOSSIPSUB_ERR_LIMIT, None), g)
      else
        let g1 = (if clen data > bytes - g_mcache_data_used g
                  then g\<lparr>g_mcache := map (\<lambda>_. zero_mcache_entry) (g_mcache g),
                         g_mcache_data_used := 0\<rparr>
                  else g);
            slot = g_mcache_next g1 mod length (g_mcache g1);
            offset = g_mcache_data_used g1
        in do {
          stored \<leftarrow> memcpy_at (g_mcache_data g1) offset (contents data);
          Some ((LIBP2P_GOSSIPSUB_OK, Some slot),
            g1\<lparr>g_mcache := (g_mcache g1)[slot := \<lparr>mc_used = True, mc_window = 0,
                 mc_message_id = contents message_id, mc_topic = contents topic,
                 mc_data_offset = offset, mc_data_len = clen data\<rparr>],
               g_mcache_data := stored,
               g_mcache_data_used := offset + clen data,
               g_mcache_next := size_wrap (g_mcache_next g1 + 1)\<rparr>)
        })"

definition gossipsub_entry_message ::
  "libp2p_gossipsub_t \<Rightarrow> gossipsub_mcache_entry_t \<Rightarrow> libp2p_gossipsub_message_t" where
  "gossipsub_entry_message g entry =
     zero_message\<lparr>msg_topic := Buf (mc_topic entry),
       msg_data := Buf (take (mc_data_len entry) (drop (mc_data_offset entry) (g_mcache_data g)))\<rparr>"

definition gossipsub_peer_idontwant_contains ::
  "libp2p_gossipsub_t \<Rightarrow> nat \<Rightarrow> gbytes \<Rightarrow> u64 \<Rightarrow> bool" where
  "gossipsub_peer_idontwant_contains g peer_index message_id now_us =
     list_ex (\<lambda>d. dw_used d \<and> dw_peer_index d = peer_index \<and> dw_expires_us d \<ge> now_us \<and>
                  gossipsub_bytes_equal (Buf (dw_message_id d)) message_id) (g_idontwant g)"

definition gossipsub_peer_idontwant_add ::
  "libp2p_gossipsub_t \<Rightarrow> nat \<Rightarrow> gbytes \<Rightarrow> u64 \<Rightarrow> libp2p_gossipsub_t" where
  "gossipsub_peer_idontwant_add g peer_index message_id now_us =
     (if is_null message_id \<or> length (g_idontwant g) = 0 \<or>
         clen message_id > max_message_id_bytes (cfg_limits (g_config g))
      then g
      else
        let target =
          (case first_index (\<lambda>d. \<not> dw_used d \<or> dw_expires_us d < now_us) (g_idontwant g) of
             Some i \<Rightarrow> i
           | None \<Rightarrow> g_mcache_next g mod length (g_idontwant g))
        in g\<lparr>g_idontwant := (g_idontwant g)[target := \<lparr>dw_used = True,
               dw_message_id = contents message_id, dw_peer_index = peer_index,
               dw_expires_us = now_us + cfg_idontwant_ttl_us (g_config g)\<rparr>]\<rparr>)"

end
