(* ===== verification/Gossipsub_Config.thy ===== *)
theory Gossipsub_Config
  imports Gossipsub_Router
begin

text \<open>
  Configuration and storage of the router, \<open>src/src/protocol/gossipsub/gossipsub_config.c\<close>: the
  validation of a configuration, the layout of the caller's storage, the defaults and
  \<open>libp2p_gossipsub_init\<close>.

  The sizes of the C structures depend on the compiler and are a parameter. The stream receive
  blocks of the router are as long as the layout says.
\<close>

definition GOSSIPSUB_STORAGE_ALIGN :: nat where "GOSSIPSUB_STORAGE_ALIGN = 8"
definition GOSSIPSUB_STREAM_RX_SMALL_CAP :: nat where "GOSSIPSUB_STREAM_RX_SMALL_CAP = 4096"
definition GOSSIPSUB_STREAM_RX_LARGE_POOL_STREAMS :: nat where
  "GOSSIPSUB_STREAM_RX_LARGE_POOL_STREAMS = 6"
definition LIBP2P_GOSSIPSUB_FRAME_LEN_MAX_BYTES :: nat where
  "LIBP2P_GOSSIPSUB_FRAME_LEN_MAX_BYTES = 10"
definition LIBP2P_GOSSIPSUB_PROTOCOL_MASK_ALL :: u32 where
  "LIBP2P_GOSSIPSUB_PROTOCOL_MASK_ALL = 3"

subsection \<open>Validation\<close>

definition gossipsub_config_validate_storage ::
  "libp2p_gossipsub_config_t option \<Rightarrow> libp2p_gossipsub_err_t" where
  "gossipsub_config_validate_storage config =
     (case config of
        None \<Rightarrow> LIBP2P_GOSSIPSUB_ERR_INVALID_ARG
      | Some cfg \<Rightarrow>
          let result = gossipsub_limits_validate (Some (cfg_limits cfg));
              cap = cfg_capacity cfg; mesh = cfg_mesh cfg in
          if result \<noteq> LIBP2P_GOSSIPSUB_OK then result
          else if max_topics cap = 0 \<or> max_peers cap = 0 \<or> max_peer_topics cap = 0 \<or>
                  max_streams cap = 0 \<or> max_mesh_edges cap = 0 \<or> max_backoff_entries cap = 0 \<or>
                  max_peer_tx_queue cap = 0 \<or> max_tx_rpc_queue cap = 0 \<or> tx_buffer_bytes cap = 0 \<or>
                  mcache_slots cap = 0 \<or> mcache_bytes cap = 0 \<or> seen_entries cap = 0 \<or>
                  pending_validations cap = 0 \<or> idontwant_entries cap = 0 \<or>
                  event_capacity cap = 0 \<or> max_drive_steps cap = 0 \<or> mp_mcache_len mesh = 0 \<or>
                  mp_mcache_len mesh > 255 \<or> mp_mcache_gossip mesh > mp_mcache_len mesh \<or>
                  cfg_protocol_mask cfg = 0 \<or>
                  cfg_protocol_mask cfg AND NOT LIBP2P_GOSSIPSUB_PROTOCOL_MASK_ALL \<noteq> 0 \<or>
                  cfg_idontwant_min_message_bytes cfg > max_message_data_bytes (cfg_limits cfg)
          then LIBP2P_GOSSIPSUB_ERR_LIMIT
          else LIBP2P_GOSSIPSUB_OK)"

definition gossipsub_config_validate_init ::
  "libp2p_gossipsub_config_t option \<Rightarrow> libp2p_gossipsub_err_t" where
  "gossipsub_config_validate_init config =
     (let result = gossipsub_config_validate_storage config in
      if result \<noteq> LIBP2P_GOSSIPSUB_OK then result
      else case config of
             Some cfg \<Rightarrow>
               if cfg_random_fn cfg = None \<or> cfg_message_id_fn cfg = None
               then LIBP2P_GOSSIPSUB_ERR_INVALID_ARG else LIBP2P_GOSSIPSUB_OK
           | None \<Rightarrow> result)"

subsection \<open>Layout of the storage\<close>

record gossipsub_sizes =
  sz_router :: nat
  sz_topic :: nat
  sz_peer :: nat
  sz_peer_topic :: nat
  sz_mesh_edge :: nat
  sz_backoff :: nat
  sz_stream :: nat
  sz_tx_item :: nat
  sz_mcache :: nat
  sz_seen :: nat
  sz_validation :: nat
  sz_idontwant :: nat
  sz_event :: nat

record gossipsub_storage_layout_t =
  router_offset :: nat
  topics_offset :: nat
  peers_offset :: nat
  peer_topics_offset :: nat
  mesh_edges_offset :: nat
  backoff_offset :: nat
  streams_offset :: nat
  stream_rx_offset :: nat
  stream_rx_stride :: nat
  stream_rx_max_cap :: nat
  stream_rx_buffer_offset :: nat
  stream_rx_buffer_cap :: nat
  tx_queue_offset :: nat
  tx_buffer_offset :: nat
  mcache_offset :: nat
  mcache_data_offset :: nat
  seen_offset :: nat
  validations_offset :: nat
  idontwant_offset :: nat
  events_offset :: nat
  layout_total :: nat

text \<open>One block of the layout: the size of an array with the overflow check, then its place.\<close>

definition reserve_array :: "nat \<Rightarrow> nat \<Rightarrow> nat \<Rightarrow> (nat \<times> nat) gresult" where
  "reserve_array cursor count elem_size =
     (case gossipsub_size_mul count elem_size of
        (True, _) \<Rightarrow> Inl LIBP2P_GOSSIPSUB_ERR_LIMIT
      | (False, bytes) \<Rightarrow> gossipsub_reserve cursor GOSSIPSUB_STORAGE_ALIGN bytes)"

text \<open>The pool of large receive buffers, when a frame can be larger than a small buffer.\<close>

definition reserve_pool :: "nat \<Rightarrow> nat \<Rightarrow> nat \<Rightarrow> nat \<Rightarrow> (nat \<times> nat \<times> nat) gresult" where
  "reserve_pool cursor streams stride max_cap =
     (if max_cap > stride then
        let pool_streams = (if streams > GOSSIPSUB_STREAM_RX_LARGE_POOL_STREAMS
                            then GOSSIPSUB_STREAM_RX_LARGE_POOL_STREAMS else streams) in
        (case gossipsub_size_mul pool_streams max_cap of
           (True, _) \<Rightarrow> Inl LIBP2P_GOSSIPSUB_ERR_LIMIT
         | (False, bytes) \<Rightarrow>
             ok_then (gossipsub_reserve cursor GOSSIPSUB_STORAGE_ALIGN bytes)
               (\<lambda>(offset, cursor). Inr (bytes, offset, cursor)))
      else Inr (0, 0, cursor))"

definition gossipsub_storage_layout ::
  "gossipsub_sizes \<Rightarrow> libp2p_gossipsub_config_t option \<Rightarrow> bool \<Rightarrow> gossipsub_storage_layout_t gresult"
where
  "gossipsub_storage_layout s config layout_given =
     (let result = gossipsub_config_validate_storage config in
      if result \<noteq> LIBP2P_GOSSIPSUB_OK then Inl result
      else if \<not> layout_given then Inl LIBP2P_GOSSIPSUB_ERR_INVALID_ARG
      else
        let cap = cfg_capacity (the config) in
        ok_then (gossipsub_reserve 0 GOSSIPSUB_STORAGE_ALIGN (sz_router s)) (\<lambda>(o_router, c).
        ok_then (reserve_array c (max_topics cap) (sz_topic s)) (\<lambda>(o_topics, c).
        ok_then (reserve_array c (max_peers cap) (sz_peer s)) (\<lambda>(o_peers, c).
        ok_then (reserve_array c (max_peer_topics cap) (sz_peer_topic s)) (\<lambda>(o_peer_topics, c).
        ok_then (reserve_array c (max_mesh_edges cap) (sz_mesh_edge s)) (\<lambda>(o_mesh_edges, c).
        ok_then (reserve_array c (max_backoff_entries cap) (sz_backoff s)) (\<lambda>(o_backoff, c).
        ok_then (reserve_array c (max_streams cap) (sz_stream s)) (\<lambda>(o_streams, c).
        case gossipsub_size_add (max_rpc_bytes (cfg_limits (the config)))
               LIBP2P_GOSSIPSUB_FRAME_LEN_MAX_BYTES of
          (True, _) \<Rightarrow> Inl LIBP2P_GOSSIPSUB_ERR_LIMIT
        | (False, max_cap) \<Rightarrow>
        let stride = (if GOSSIPSUB_STREAM_RX_SMALL_CAP > max_cap then max_cap
                      else GOSSIPSUB_STREAM_RX_SMALL_CAP) in
        ok_then (reserve_array c (max_streams cap) stride) (\<lambda>(o_stream_rx, c).
        ok_then (reserve_pool c (max_streams cap) stride max_cap) (\<lambda>(pool, o_pool, c).
        ok_then (reserve_array c (max_tx_rpc_queue cap) (sz_tx_item s)) (\<lambda>(o_tx_queue, c).
        ok_then (gossipsub_reserve c GOSSIPSUB_STORAGE_ALIGN (tx_buffer_bytes cap)) (\<lambda>(o_tx_buffer, c).
        ok_then (reserve_array c (mcache_slots cap) (sz_mcache s)) (\<lambda>(o_mcache, c).
        ok_then (gossipsub_reserve c GOSSIPSUB_STORAGE_ALIGN (mcache_bytes cap)) (\<lambda>(o_mcache_data, c).
        ok_then (reserve_array c (seen_entries cap) (sz_seen s)) (\<lambda>(o_seen, c).
        ok_then (reserve_array c (pending_validations cap) (sz_validation s)) (\<lambda>(o_validations, c).
        ok_then (reserve_array c (idontwant_entries cap) (sz_idontwant s)) (\<lambda>(o_idontwant, c).
        ok_then (reserve_array c (event_capacity cap) (sz_event s)) (\<lambda>(o_events, c).
        Inr \<lparr>router_offset = o_router, topics_offset = o_topics, peers_offset = o_peers,
             peer_topics_offset = o_peer_topics, mesh_edges_offset = o_mesh_edges,
             backoff_offset = o_backoff, streams_offset = o_streams, stream_rx_offset = o_stream_rx,
             stream_rx_stride = stride, stream_rx_max_cap = max_cap,
             stream_rx_buffer_offset = o_pool, stream_rx_buffer_cap = pool,
             tx_queue_offset = o_tx_queue, tx_buffer_offset = o_tx_buffer, mcache_offset = o_mcache,
             mcache_data_offset = o_mcache_data, seen_offset = o_seen,
             validations_offset = o_validations, idontwant_offset = o_idontwant,
             events_offset = o_events, layout_total = c\<rparr>))))))))))))))))))"

definition libp2p_gossipsub_storage_size ::
  "gossipsub_sizes \<Rightarrow> libp2p_gossipsub_config_t option \<Rightarrow> bool \<Rightarrow> nat gresult" where
  "libp2p_gossipsub_storage_size s config out_len_given =
     (if \<not> out_len_given then Inl LIBP2P_GOSSIPSUB_ERR_INVALID_ARG
      else ok_then (gossipsub_storage_layout s config True) (\<lambda>layout. Inr (layout_total layout)))"

definition libp2p_gossipsub_storage_align :: "bool \<Rightarrow> nat gresult" where
  "libp2p_gossipsub_storage_align out_align_given =
     (if \<not> out_align_given then Inl LIBP2P_GOSSIPSUB_ERR_INVALID_ARG
      else Inr GOSSIPSUB_STORAGE_ALIGN)"

subsection \<open>Defaults\<close>

definition default_limits :: libp2p_gossipsub_limits_t where
  "default_limits = \<lparr>max_rpc_bytes = 1048576, max_message_data_bytes = 1048576,
     max_topic_bytes = LIBP2P_GOSSIPSUB_DEFAULT_MAX_TOPIC_BYTES,
     max_message_id_bytes = LIBP2P_GOSSIPSUB_DEFAULT_MAX_MESSAGE_ID_BYTES,
     max_signed_peer_record_bytes = LIBP2P_GOSSIPSUB_DEFAULT_MAX_SIGNED_PEER_REC_BYTES,
     max_subscriptions_per_rpc = 64, max_publish_per_rpc = 16, max_ihave_per_rpc = 32,
     max_iwant_per_rpc = 32, max_graft_per_rpc = 32, max_prune_per_rpc = 32,
     max_idontwant_per_rpc = 32, max_message_ids_per_rpc = 1024, max_px_peers_per_rpc = 32\<rparr>"

definition default_mesh :: libp2p_gossipsub_mesh_params_t where
  "default_mesh = \<lparr>mp_d = 8, mp_d_low = 6, mp_d_high = 12, mp_d_lazy = 6, mp_d_out = 2,
     mp_mcache_len = 6, mp_mcache_gossip = 3, mp_gossip_factor_ppm = 250000,
     mp_heartbeat_interval_us = 700000, mp_fanout_ttl_us = 60000000, mp_seen_ttl_us = 120000000,
     mp_prune_backoff_us = 60000000, mp_unsubscribe_backoff_us = 10000000,
     mp_backoff_slack_us = 1000000, mp_iwant_followup_us = 3000000,
     mp_enable_flood_publish = True, mp_enable_px = False\<rparr>"

definition default_capacity :: libp2p_gossipsub_capacity_t where
  "default_capacity = \<lparr>max_topics = 128, max_peers = 128, max_peer_topics = 4096,
     max_mesh_edges = 1536, max_fanout_edges = 768, max_backoff_entries = 2048, max_streams = 128,
     max_pending_opens = 128, max_peer_tx_queue = 32, max_tx_rpc_queue = 1024,
     tx_buffer_bytes = 2097152, mcache_slots = 1024, mcache_bytes = 4194304, seen_entries = 8192,
     pending_validations = 256, idontwant_entries = 4096, event_capacity = 256,
     max_drive_steps = 256\<rparr>"

definition libp2p_gossipsub_config_default :: "bool \<Rightarrow> libp2p_gossipsub_config_t gresult" where
  "libp2p_gossipsub_config_default config_given =
     (if \<not> config_given then Inl LIBP2P_GOSSIPSUB_ERR_INVALID_ARG
      else Inr \<lparr>cfg_limits = default_limits, cfg_mesh = default_mesh, cfg_capacity = default_capacity,
             cfg_random_fn = None, cfg_message_id_fn = None,
             cfg_protocol_mask = LIBP2P_GOSSIPSUB_PROTOCOL_MASK_ALL,
             cfg_preferred_protocol = LIBP2P_GOSSIPSUB_VERSION_12, cfg_enable_idontwant = True,
             cfg_idontwant_min_message_bytes = 1024, cfg_max_idontwant_per_heartbeat = 64,
             cfg_idontwant_ttl_us = 3000000\<rparr>)"

subsection \<open>Initialisation\<close>

text \<open>
  The router that \<open>libp2p_gossipsub_init\<close> leaves in the storage: zeroed tables, empty lists of
  items. The result is the error code or the router.
\<close>

definition zero_tx_item :: gossipsub_tx_item_t where
  "zero_tx_item = \<lparr>ti_used = False, ti_priority = False, ti_publish = False, ti_peer_index = 0,
     ti_offset = 0, ti_len = 0, ti_pos = 0, ti_next = None, ti_enqueued_us = 0, ti_deadline_us = 0,
     ti_message_id = []\<rparr>"

definition initial_stream :: "nat \<Rightarrow> nat \<Rightarrow> gossipsub_stream_state_t" where
  "initial_stream stride index =
     \<lparr>ss_open = False, ss_stream = None, ss_conn = None, ss_direction = LIBP2P_HOST_STREAM_INBOUND,
      ss_version = LIBP2P_GOSSIPSUB_VERSION_NONE, ss_stream_index = index, ss_peer_index = 0,
      ss_rx = Some (Rx_small (index * stride)), ss_rx_len = 0, ss_rx_cap = stride,
      ss_rx_offset = None\<rparr>"

definition initial_router ::
  "libp2p_gossipsub_config_t \<Rightarrow> gossipsub_storage_layout_t \<Rightarrow> libp2p_gossipsub_t" where
  "initial_router cfg layout =
     (let cap = cfg_capacity cfg in
      \<lparr>g_config = cfg, g_started = False, g_closing = False, g_next_heartbeat_us = 0,
       g_last_drive_us = 0,
       g_topics = replicate (max_topics cap) zero_topic,
       g_peers = replicate (max_peers cap) zero_peer,
       g_peer_topics = replicate (max_peer_topics cap) zero_peer_topic,
       g_mesh_edges = replicate (max_mesh_edges cap) zero_edge,
       g_backoff = replicate (max_backoff_entries cap) zero_backoff,
       g_streams = map (initial_stream (stream_rx_stride layout)) [0..<max_streams cap],
       g_stream_rx_small = replicate (max_streams cap * stream_rx_stride layout) 0,
       g_stream_rx_buffer =
         (if stream_rx_buffer_cap layout \<noteq> 0 then Some (replicate (stream_rx_buffer_cap layout) 0)
          else None),
       g_stream_rx_small_stride = stream_rx_stride layout,
       g_stream_rx_max_cap = stream_rx_max_cap layout,
       g_stream_rx_buffer_used = 0,
       g_tx_queue = replicate (max_tx_rpc_queue cap) zero_tx_item,
       g_tx_buffer = replicate (tx_buffer_bytes cap) 0,
       g_tx_buffer_used = 0,
       g_mcache = replicate (mcache_slots cap) zero_mcache_entry,
       g_mcache_data = replicate (mcache_bytes cap) 0,
       g_mcache_data_used = 0,
       g_seen = replicate (seen_entries cap)
         \<lparr>se_used = False, se_message_id = [], se_expires_us = 0\<rparr>,
       g_validations = replicate (pending_validations cap)
         \<lparr>va_pending = False, va_peer_index = 0, va_mcache_index = 0, va_expires_us = 0\<rparr>,
       g_idontwant = replicate (idontwant_entries cap)
         \<lparr>dw_used = False, dw_message_id = [], dw_peer_index = 0, dw_expires_us = 0\<rparr>,
       g_events = replicate (event_capacity cap) zero_event,
       g_topic_count = 0, g_peer_count = 0, g_mesh_peer_count = 0, g_tx_queue_len = 0,
       g_tx_ready_count = 0, g_tx_next_peer = 0, g_event_head = 0, g_event_len = 0,
       g_mcache_next = 0, g_random_calls = 0\<rparr>)"

definition libp2p_gossipsub_init ::
  "gossipsub_sizes \<Rightarrow> bool \<Rightarrow> nat \<Rightarrow> libp2p_gossipsub_config_t option \<Rightarrow> bool \<Rightarrow>
   libp2p_gossipsub_t gresult" where
  "libp2p_gossipsub_init s storage_given storage_len config out_given =
     (let result = gossipsub_config_validate_init config in
      if result \<noteq> LIBP2P_GOSSIPSUB_OK then Inl result
      else if \<not> storage_given \<or> \<not> out_given then Inl LIBP2P_GOSSIPSUB_ERR_INVALID_ARG
      else ok_then (gossipsub_storage_layout s config True) (\<lambda>layout.
        if storage_len < layout_total layout then Inl LIBP2P_GOSSIPSUB_ERR_BUF_TOO_SMALL
        else Inr (initial_router (the config) layout)))"

subsection \<open>The layout is sound\<close>

text \<open>The blocks of a layout in the order of the storage, each with its offset and its size.\<close>

definition layout_blocks ::
  "gossipsub_sizes \<Rightarrow> libp2p_gossipsub_capacity_t \<Rightarrow> gossipsub_storage_layout_t \<Rightarrow> (nat \<times> nat) list" where
  "layout_blocks s cap L =
     [(router_offset L, sz_router s),
      (topics_offset L, max_topics cap * sz_topic s),
      (peers_offset L, max_peers cap * sz_peer s),
      (peer_topics_offset L, max_peer_topics cap * sz_peer_topic s),
      (mesh_edges_offset L, max_mesh_edges cap * sz_mesh_edge s),
      (backoff_offset L, max_backoff_entries cap * sz_backoff s),
      (streams_offset L, max_streams cap * sz_stream s),
      (stream_rx_offset L, max_streams cap * stream_rx_stride L)] @
     (if stream_rx_max_cap L > stream_rx_stride L
      then [(stream_rx_buffer_offset L, stream_rx_buffer_cap L)] else []) @
     [(tx_queue_offset L, max_tx_rpc_queue cap * sz_tx_item s),
      (tx_buffer_offset L, tx_buffer_bytes cap),
      (mcache_offset L, mcache_slots cap * sz_mcache s),
      (mcache_data_offset L, mcache_bytes cap),
      (seen_offset L, seen_entries cap * sz_seen s),
      (validations_offset L, pending_validations cap * sz_validation s),
      (idontwant_offset L, idontwant_entries cap * sz_idontwant s),
      (events_offset L, event_capacity cap * sz_event s)]"

text \<open>Aligned blocks, one behind the other, from \<open>c\<close> on and within the first \<open>total\<close> bytes.\<close>

fun blocks_within :: "nat \<Rightarrow> (nat \<times> nat) list \<Rightarrow> nat \<Rightarrow> bool" where
  "blocks_within c [] total_bytes \<longleftrightarrow> c \<le> total_bytes"
| "blocks_within c ((offset, bytes) # bs) total_bytes \<longleftrightarrow>
     c \<le> offset \<and> offset mod GOSSIPSUB_STORAGE_ALIGN = 0 \<and> blocks_within (offset + bytes) bs total_bytes"

lemma reserve_block:
  assumes "gossipsub_reserve c GOSSIPSUB_STORAGE_ALIGN n = Inr (offset, c')" and "c \<le> SIZE_MAX"
  shows "c \<le> offset" and "offset mod GOSSIPSUB_STORAGE_ALIGN = 0" and "c' = offset + n" and "c' \<le> SIZE_MAX"
proof -
  have "c mod 8 + (8 - c mod 8) = 8" by simp
  then have "(c + (8 - c mod 8)) mod 8 = 0" by presburger
  then show "c \<le> offset" and "offset mod GOSSIPSUB_STORAGE_ALIGN = 0" and "c' = offset + n" and "c' \<le> SIZE_MAX"
    using assms
    by (auto simp: gossipsub_reserve_def gossipsub_align_up_def gossipsub_size_add_def Let_def
        GOSSIPSUB_STORAGE_ALIGN_def split: sum.splits prod.splits bool.splits if_splits)
qed

lemma reserve_array_block:
  assumes "reserve_array c k n = Inr (offset, c')" and "c \<le> SIZE_MAX"
  shows "c \<le> offset \<and> offset mod GOSSIPSUB_STORAGE_ALIGN = 0 \<and> c' = offset + k * n \<and> c' \<le> SIZE_MAX"
proof -
  have "gossipsub_reserve c GOSSIPSUB_STORAGE_ALIGN (k * n) = Inr (offset, c')"
    using assms(1)
    by (auto simp: reserve_array_def gossipsub_size_mul_def split: prod.splits bool.splits if_splits)
  from reserve_block [OF this assms(2)] show ?thesis by simp
qed

lemma ok_then_reserve:
  assumes "ok_then (gossipsub_reserve c GOSSIPSUB_STORAGE_ALIGN n) f = Inr y" and "c \<le> SIZE_MAX"
    and "\<And>offset. c \<le> offset \<Longrightarrow> offset mod GOSSIPSUB_STORAGE_ALIGN = 0 \<Longrightarrow> offset + n \<le> SIZE_MAX \<Longrightarrow>
      f (offset, offset + n) = Inr y \<Longrightarrow> P"
  shows P
proof -
  obtain offset c' where r: "gossipsub_reserve c GOSSIPSUB_STORAGE_ALIGN n = Inr (offset, c')"
    and f: "f (offset, c') = Inr y"
    using assms(1) by (auto simp: ok_then_def split: sum.splits)
  show P using assms(3) [of offset] reserve_block [OF r assms(2)] f by simp
qed

lemma ok_then_array:
  assumes "ok_then (reserve_array c k n) f = Inr y" and "c \<le> SIZE_MAX"
    and "\<And>offset. c \<le> offset \<Longrightarrow> offset mod GOSSIPSUB_STORAGE_ALIGN = 0 \<Longrightarrow> offset + k * n \<le> SIZE_MAX \<Longrightarrow>
      f (offset, offset + k * n) = Inr y \<Longrightarrow> P"
  shows P
proof -
  obtain offset c' where r: "reserve_array c k n = Inr (offset, c')" and f: "f (offset, c') = Inr y"
    using assms(1) by (auto simp: ok_then_def split: sum.splits)
  show P using assms(3) [of offset] reserve_array_block [OF r assms(2)] f by simp
qed

lemma ok_then_pool:
  assumes "ok_then (reserve_pool c streams stride max_cap) f = Inr y" and "c \<le> SIZE_MAX"
    and "\<And>bytes offset. stride < max_cap \<Longrightarrow> c \<le> offset \<Longrightarrow> offset mod GOSSIPSUB_STORAGE_ALIGN = 0 \<Longrightarrow>
      offset + bytes \<le> SIZE_MAX \<Longrightarrow> f (bytes, offset, offset + bytes) = Inr y \<Longrightarrow> P"
    and "\<not> stride < max_cap \<Longrightarrow> f (0, 0, c) = Inr y \<Longrightarrow> P"
  shows P
proof (cases "stride < max_cap")
  case True
  with assms(1) obtain bytes where
    "ok_then (ok_then (gossipsub_reserve c GOSSIPSUB_STORAGE_ALIGN bytes)
      (\<lambda>(offset, cursor). Inr (bytes, offset, cursor))) f = Inr y"
    by (auto simp: reserve_pool_def Let_def ok_then_def split: prod.splits bool.splits sum.splits)
  then have "ok_then (gossipsub_reserve c GOSSIPSUB_STORAGE_ALIGN bytes)
      (\<lambda>(offset, cursor). f (bytes, offset, cursor)) = Inr y"
    by (auto simp: ok_then_def split: sum.splits)
  with assms(2,3) True show ?thesis by (auto elim!: ok_then_reserve)
next
  case False
  with assms(1,4) show ?thesis by (auto simp: reserve_pool_def ok_then_def)
qed

lemma layout_blocks_within:
  assumes "gossipsub_storage_layout s (Some cfg) True = Inr L"
  shows "blocks_within 0 (layout_blocks s (cfg_capacity cfg) L) (layout_total L)"
    and "layout_total L \<le> SIZE_MAX"
proof -
  let ?P = "blocks_within 0 (layout_blocks s (cfg_capacity cfg) L) (layout_total L) \<and>
    layout_total L \<le> SIZE_MAX"
  have ?P
    using assms
    apply (simp only: gossipsub_storage_layout_def Let_def if_True not_True_eq_False if_False option.sel
        split: if_split_asm)
     apply simp
    apply (erule ok_then_reserve, simp, simp only: prod.case)
    apply (erule ok_then_array, assumption, simp only: prod.case)+
    apply (simp only: gossipsub_size_add_def prod.case bool.case Let_def split: if_split_asm)
     apply simp
    subgoal
      apply (erule ok_then_array, assumption, simp only: prod.case)
      apply (erule (1) ok_then_pool; simp only: prod.case)
      apply ((erule ok_then_array ok_then_reserve, assumption, simp only: prod.case)+,
        drule Inr_inject, hypsubst, simp (no_asm_simp) add: layout_blocks_def)+
      done
    subgoal
      apply (erule ok_then_array, assumption, simp only: prod.case)
      apply (erule (1) ok_then_pool; simp only: prod.case)
      apply ((erule ok_then_array ok_then_reserve, assumption, simp only: prod.case)+,
        drule Inr_inject, hypsubst, simp (no_asm_simp) add: layout_blocks_def)+
      done
    done
  then show "blocks_within 0 (layout_blocks s (cfg_capacity cfg) L) (layout_total L)"
    and "layout_total L \<le> SIZE_MAX" by blast+
qed

lemma blocks_within_mono: "blocks_within c bs n \<Longrightarrow> n \<le> m \<Longrightarrow> blocks_within c bs m"
  by (induction c bs n rule: blocks_within.induct) auto

lemma init_Inr:
  assumes "libp2p_gossipsub_init s storage_given storage_len config out_given = Inr g"
  obtains cfg L where "config = Some cfg" and "gossipsub_config_validate_init config = LIBP2P_GOSSIPSUB_OK"
    and "gossipsub_storage_layout s config True = Inr L" and "layout_total L \<le> storage_len"
    and "g = initial_router cfg L"
  using assms
  by (cases config)
    (auto simp: libp2p_gossipsub_init_def gossipsub_config_validate_init_def ok_then_def
      gossipsub_config_validate_storage_def Let_def split: if_splits sum.splits)

text \<open>Claim C18. When \<open>libp2p_gossipsub_init\<close> succeeds, every table that it carves out of the caller's
  storage is aligned, the tables do not overlap, they all end within the storage, and no size
  computation has overflowed; the size needed is the one that \<open>libp2p_gossipsub_storage_size\<close>
  reports.\<close>

theorem init_storage_sound:
  assumes "libp2p_gossipsub_init s storage_given storage_len (Some cfg) out_given = Inr g"
  shows "\<exists>L. gossipsub_storage_layout s (Some cfg) True = Inr L \<and>
    blocks_within 0 (layout_blocks s (cfg_capacity cfg) L) storage_len \<and>
    libp2p_gossipsub_storage_size s (Some cfg) True = Inr (layout_total L) \<and>
    layout_total L \<le> storage_len \<and> layout_total L \<le> SIZE_MAX"
  using assms
proof (cases rule: init_Inr)
  case (1 cfg' L)
  then have L: "gossipsub_storage_layout s (Some cfg) True = Inr L" by simp
  from layout_blocks_within [OF L] 1(4) have
    "blocks_within 0 (layout_blocks s (cfg_capacity cfg) L) storage_len"
    by (blast intro: blocks_within_mono)
  with L 1(4) layout_blocks_within(2) [OF L] show ?thesis
    by (simp add: libp2p_gossipsub_storage_size_def ok_then_def)
qed

definition sample_config :: libp2p_gossipsub_config_t where
  "sample_config = \<lparr>cfg_limits = default_limits, cfg_mesh = default_mesh,
     cfg_capacity = \<lparr>max_topics = 1, max_peers = 2, max_peer_topics = 2,
       max_mesh_edges = 2, max_fanout_edges = 2, max_backoff_entries = 2, max_streams = 2,
       max_pending_opens = 2, max_peer_tx_queue = 3, max_tx_rpc_queue = 4,
       tx_buffer_bytes = 32, mcache_slots = 2, mcache_bytes = 16, seen_entries = 2,
       pending_validations = 1, idontwant_entries = 2, event_capacity = 2,
       max_drive_steps = 2\<rparr>,
     cfg_random_fn = Some (\<lambda>_. (LIBP2P_GOSSIPSUB_OK, [0, 0, 0, 0, 0, 0, 0, 7])),
     cfg_message_id_fn = Some (\<lambda>m n. (LIBP2P_GOSSIPSUB_OK, 1, [1])),
     cfg_protocol_mask = LIBP2P_GOSSIPSUB_PROTOCOL_MASK_ALL,
     cfg_preferred_protocol = LIBP2P_GOSSIPSUB_VERSION_12, cfg_enable_idontwant = True,
     cfg_idontwant_min_message_bytes = 1024, cfg_max_idontwant_per_heartbeat = 64,
     cfg_idontwant_ttl_us = 3000000\<rparr>"

definition sample_sizes :: gossipsub_sizes where
  "sample_sizes = \<lparr>sz_router = 896, sz_topic = 288, sz_peer = 200, sz_peer_topic = 32,
     sz_mesh_edge = 24, sz_backoff = 32, sz_stream = 120, sz_tx_item = 200, sz_mcache = 424,
     sz_seen = 152, sz_validation = 32, sz_idontwant = 160, sz_event = 328\<rparr>"

definition sample_layout :: gossipsub_storage_layout_t where
  "sample_layout = \<lparr>router_offset = 0, topics_offset = 896, peers_offset = 1184,
     peer_topics_offset = 1584, mesh_edges_offset = 1648, backoff_offset = 1696,
     streams_offset = 1760, stream_rx_offset = 2000, stream_rx_stride = 4096,
     stream_rx_max_cap = 1048586, stream_rx_buffer_offset = 10192, stream_rx_buffer_cap = 2097172,
     tx_queue_offset = 2107368, tx_buffer_offset = 2108168, mcache_offset = 2108200,
     mcache_data_offset = 2109048, seen_offset = 2109064, validations_offset = 2109368,
     idontwant_offset = 2109400, events_offset = 2109720, layout_total = 2110376\<rparr>"

lemmas sample_config_defs = sample_config_def sample_sizes_def default_limits_def default_mesh_def

lemma sample_layout_eq: "gossipsub_storage_layout sample_sizes (Some sample_config) True = Inr sample_layout"
  by (simp add: gossipsub_config_validate_storage_def gossipsub_limits_validate_def sample_config_defs
      sample_layout_def gossipsub_storage_layout_def ok_then_def reserve_array_def reserve_pool_def
      gossipsub_reserve_def gossipsub_align_up_def gossipsub_size_add_def gossipsub_size_mul_def
      GOSSIPSUB_STORAGE_ALIGN_def LIBP2P_GOSSIPSUB_FRAME_LEN_MAX_BYTES_def
      GOSSIPSUB_STREAM_RX_SMALL_CAP_def GOSSIPSUB_STREAM_RX_LARGE_POOL_STREAMS_def
      LIBP2P_GOSSIPSUB_PROTOCOL_MASK_ALL_def LIBP2P_GOSSIPSUB_DEFAULT_MAX_TOPIC_BYTES_def
      LIBP2P_GOSSIPSUB_DEFAULT_MAX_MESSAGE_ID_BYTES_def
      LIBP2P_GOSSIPSUB_DEFAULT_MAX_SIGNED_PEER_REC_BYTES_def SIZE_MAX_def)

lemma sample_init:
  "libp2p_gossipsub_init sample_sizes True 10000000 (Some sample_config) True =
   Inr (initial_router sample_config sample_layout)"
proof -
  have "gossipsub_config_validate_init (Some sample_config) = LIBP2P_GOSSIPSUB_OK"
    by (simp add: gossipsub_config_validate_init_def gossipsub_config_validate_storage_def
        gossipsub_limits_validate_def sample_config_defs LIBP2P_GOSSIPSUB_PROTOCOL_MASK_ALL_def
        LIBP2P_GOSSIPSUB_DEFAULT_MAX_TOPIC_BYTES_def LIBP2P_GOSSIPSUB_DEFAULT_MAX_MESSAGE_ID_BYTES_def
        LIBP2P_GOSSIPSUB_DEFAULT_MAX_SIGNED_PEER_REC_BYTES_def)
  then show ?thesis
    by (simp add: libp2p_gossipsub_init_def sample_layout_eq ok_then_def) (simp add: sample_layout_def)
qed

theorem init_storage_sound_witness:
  "\<exists>L. gossipsub_storage_layout sample_sizes (Some sample_config) True = Inr L \<and>
    blocks_within 0 (layout_blocks sample_sizes (cfg_capacity sample_config) L) 10000000 \<and>
    libp2p_gossipsub_storage_size sample_sizes (Some sample_config) True = Inr (layout_total L) \<and>
    layout_total L \<le> 10000000 \<and> layout_total L \<le> SIZE_MAX"
  by (rule init_storage_sound [OF sample_init])

text \<open>The router of that configuration with its topic and both peers in use, each peer on a stream.\<close>

definition sample_peer :: "nat \<Rightarrow> gossipsub_peer_state_t" where
  "sample_peer n = zero_peer\<lparr>p_used := True, p_conn := Some n, p_stream := Some n,
     p_version := LIBP2P_GOSSIPSUB_VERSION_12, p_peer_id := [of_nat n]\<rparr>"

definition sample_router :: libp2p_gossipsub_t where
  "sample_router = (initial_router sample_config sample_layout)\<lparr>
     g_topics := [zero_topic\<lparr>t_used := True, t_local_subscribed := True, t_topic := [116]\<rparr>],
     g_peers := [sample_peer 1, sample_peer 2],
     g_topic_count := 1, g_peer_count := 2\<rparr>"

lemmas sample_router_defs =
  sample_router_def sample_peer_def initial_router_def sample_layout_def sample_config_defs

end
