(* ===== verification/Gossipsub_Mesh_Laws.thy ===== *)
theory Gossipsub_Mesh_Laws
  imports Gossipsub_Tables Gossipsub_Config "HOL-Library.Multiset"
begin

text \<open>
  The tables of the router as finite sets of keys: a table is a list of slots, a slot is free or
  holds an entry with a key. The locale \<open>slot_table\<close> proves once what storing into a free slot and
  clearing a slot do to the keys; it is interpreted on the mesh edges and the topics of peers.
  The mesh then refines a set of pairs of peer and topic.
\<close>

subsection \<open>The first index with a property\<close>

lemma first_index_None_iff: "first_index P xs = None \<longleftrightarrow> (\<forall>x\<in>set xs. \<not> P x)"
  by (induction xs) auto

lemma first_index_Some:
  "first_index P xs = Some i \<Longrightarrow> i < length xs \<and> P (xs ! i) \<and> (\<forall>j<i. \<not> P (xs ! j))"
proof (induction xs arbitrary: i)
  case (Cons x xs)
  show ?case
  proof (cases "P x")
    case False
    then obtain j where "first_index P xs = Some j" "i = Suc j" using Cons.prems by auto
    with Cons.IH [of j] False show ?thesis by (auto simp: less_Suc_eq_0_disj)
  qed (use Cons.prems in auto)
qed simp

lemmas first_index_length = first_index_Some [THEN conjunct1]
lemmas first_index_holds = first_index_Some [THEN conjunct2, THEN conjunct1]

subsection \<open>Tables of slots\<close>

locale slot_table =
  fixes in_use :: "'e \<Rightarrow> bool" and key :: "'e \<Rightarrow> 'k" and free :: 'e
  assumes free_unused: "\<not> in_use free"
begin

definition keys :: "'e list \<Rightarrow> 'k multiset" where
  "keys xs = image_mset key (filter_mset in_use (mset xs))"

lemma keys_Nil [simp]: "keys [] = {#}"
  and keys_Cons [simp]: "keys (x # xs) = (if in_use x then add_mset (key x) (keys xs) else keys xs)"
  by (auto simp: keys_def)

lemma keys_member: "k \<in># keys xs \<longleftrightarrow> list_ex (\<lambda>e. in_use e \<and> key e = k) xs"
  by (induction xs) auto

lemma keys_count: "length (filter (\<lambda>e. in_use e \<and> Q (key e)) xs) = size (filter_mset Q (keys xs))"
  by (induction xs) auto

lemma keys_size: "size (keys xs) \<le> length xs"
  by (induction xs) auto

lemma keys_full: "size (keys xs) = length xs \<longleftrightarrow> (\<forall>e\<in>set xs. in_use e)"
proof (induction xs)
  case (Cons x xs)
  then show ?case using keys_size [of xs] by auto
qed simp

lemma keys_store:
  assumes "i < length xs" and "\<not> in_use (xs ! i)" and "in_use e"
  shows "keys (xs[i := e]) = add_mset (key e) (keys xs)"
  using assms by (induction xs arbitrary: i) (auto split: nat.split)

lemma keys_clear:
  assumes "i < length xs" and "in_use (xs ! i)"
  shows "add_mset (key (xs ! i)) (keys (xs[i := free])) = keys xs"
  using assms free_unused by (induction xs arbitrary: i) (auto split: nat.split)

end

interpretation edges: slot_table me_used "\<lambda>e. (me_peer_index e, me_topic_index e)" zero_edge
  by unfold_locales (simp add: zero_edge_def)

interpretation peer_topics: slot_table pt_used "\<lambda>e. (pt_peer_index e, pt_topic_index e)" zero_peer_topic
  by unfold_locales (simp add: zero_peer_topic_def)

subsection \<open>The mesh as a set of pairs\<close>

definition mesh_pairs :: "libp2p_gossipsub_t \<Rightarrow> (nat \<times> nat) set" where
  "mesh_pairs g =
     set (map (\<lambda>e. (me_peer_index e, me_topic_index e)) (filter me_used (g_mesh_edges g)))"

text \<open>
  No pair is stored twice, the counter is the number of pairs and every pair has a peer and a topic
  within the tables.
\<close>

definition mesh_ok :: "libp2p_gossipsub_t \<Rightarrow> bool" where
  "mesh_ok g \<longleftrightarrow>
     edges.keys (g_mesh_edges g) = mset_set (mesh_pairs g) \<and>
     g_mesh_peer_count g = of_nat (card (mesh_pairs g)) \<and>
     (\<forall>(p, t) \<in> mesh_pairs g. p < length (g_peers g) \<and> t < length (g_topics g))"

lemma mesh_pairs_keys: "mesh_pairs g = set_mset (edges.keys (g_mesh_edges g))"
  by (auto simp: mesh_pairs_def edges.keys_def)

lemma finite_mesh_pairs [simp]: "finite (mesh_pairs g)"
  by (simp add: mesh_pairs_keys)

lemma mesh_contains_iff: "gossipsub_mesh_contains g p t \<longleftrightarrow> (p, t) \<in> mesh_pairs g"
  by (simp add: gossipsub_mesh_contains_def mesh_pairs_keys edges.keys_member conj_assoc)

lemma mesh_count_topic_card:
  assumes "mesh_ok g"
  shows "gossipsub_mesh_count_topic g t = card {p. (p, t) \<in> mesh_pairs g}"
proof -
  have "gossipsub_mesh_count_topic g t = size (filter_mset (\<lambda>k. snd k = t) (mset_set (mesh_pairs g)))"
    using assms edges.keys_count [of "\<lambda>k. snd k = t" "g_mesh_edges g"]
    by (simp add: gossipsub_mesh_count_topic_def mesh_ok_def)
  also have "\<dots> = card ({k \<in> mesh_pairs g. snd k = t})"
    by simp
  also have "{k \<in> mesh_pairs g. snd k = t} = (\<lambda>p. (p, t)) ` {p. (p, t) \<in> mesh_pairs g}"
    by force
  also have "card \<dots> = card {p. (p, t) \<in> mesh_pairs g}"
    by (simp add: card_image inj_on_def)
  finally show ?thesis .
qed

lemma mesh_size_card:
  assumes "mesh_ok g"
  shows "card (mesh_pairs g) \<le> length (g_mesh_edges g)"
    and "card (mesh_pairs g) < length (g_mesh_edges g) \<longleftrightarrow> (\<exists>e\<in>set (g_mesh_edges g). \<not> me_used e)"
proof -
  have "size (edges.keys (g_mesh_edges g)) = card (mesh_pairs g)"
    using assms by (simp add: mesh_ok_def)
  then show "card (mesh_pairs g) \<le> length (g_mesh_edges g)"
    and "card (mesh_pairs g) < length (g_mesh_edges g) \<longleftrightarrow> (\<exists>e\<in>set (g_mesh_edges g). \<not> me_used e)"
    using edges.keys_size [of "g_mesh_edges g"] edges.keys_full [of "g_mesh_edges g"] by auto
qed

text \<open>The invariant in terms of the keys, for an update of the edges alone.\<close>

lemma mesh_ok_update:
  assumes "edges.keys es = mset_set M" and "c = of_nat (card M)" and "finite M"
    and "\<forall>(p, t) \<in> M. p < length (g_peers g) \<and> t < length (g_topics g)"
  shows "mesh_ok (g\<lparr>g_mesh_edges := es, g_mesh_peer_count := c\<rparr>) \<and>
    mesh_pairs (g\<lparr>g_mesh_edges := es, g_mesh_peer_count := c\<rparr>) = M"
proof -
  have "mesh_pairs (g\<lparr>g_mesh_edges := es, g_mesh_peer_count := c\<rparr>) = M"
    using assms(1,3) by (simp add: mesh_pairs_keys)
  then show ?thesis using assms by (simp add: mesh_ok_def)
qed

lemma mesh_add_refines:
  assumes ok: "mesh_ok g" and r: "gossipsub_mesh_add g p t = (r, g')"
  shows "mesh_ok g'" and "mesh_pairs g' =
    (if p < length (g_peers g) \<and> t < length (g_topics g) \<and> p_used (g_peers g ! p) \<and>
        t_used (g_topics g ! t) \<and> card (mesh_pairs g) < length (g_mesh_edges g)
     then insert (p, t) (mesh_pairs g) else mesh_pairs g)"
proof -
  have "mesh_ok g' \<and> mesh_pairs g' =
    (if p < length (g_peers g) \<and> t < length (g_topics g) \<and> p_used (g_peers g ! p) \<and>
        t_used (g_topics g ! t) \<and> card (mesh_pairs g) < length (g_mesh_edges g)
     then insert (p, t) (mesh_pairs g) else mesh_pairs g)"
  proof (cases "p < length (g_peers g) \<and> t < length (g_topics g) \<and> p_used (g_peers g ! p) \<and>
      t_used (g_topics g ! t) \<and> (p, t) \<notin> mesh_pairs g")
    case False
    then have "g' = g" "p < length (g_peers g) \<and> t < length (g_topics g) \<and> p_used (g_peers g ! p) \<and>
      t_used (g_topics g ! t) \<Longrightarrow> (p, t) \<in> mesh_pairs g"
      using r by (auto simp: gossipsub_mesh_add_def mesh_contains_iff split: if_splits)
    with ok show ?thesis by (auto simp: insert_absorb)
  next
    case new: True
    show ?thesis
    proof (cases "first_index (\<lambda>e. \<not> me_used e) (g_mesh_edges g)")
      case None
      then have "g' = g" using r new by (auto simp: gossipsub_mesh_add_def mesh_contains_iff)
      with ok None show ?thesis by (auto simp: mesh_size_card(2) [OF ok] first_index_None_iff)
    next
      case (Some i)
      define es where "es = (g_mesh_edges g)[i := \<lparr>me_used = True, me_peer_index = p,
        me_topic_index = t\<rparr>]"
      have g': "g' = g\<lparr>g_mesh_edges := es, g_mesh_peer_count := g_mesh_peer_count g + 1\<rparr>"
        using r new Some by (simp add: gossipsub_mesh_add_def mesh_contains_iff es_def)
      have "edges.keys es = mset_set (insert (p, t) (mesh_pairs g))"
        unfolding es_def using ok new first_index_Some [OF Some]
        by (subst edges.keys_store) (auto simp: mesh_ok_def)
      moreover have "\<exists>e\<in>set (g_mesh_edges g). \<not> me_used e"
        using first_index_Some [OF Some] nth_mem by blast
      moreover have "g_mesh_peer_count g + 1 = of_nat (card (insert (p, t) (mesh_pairs g)))"
        using ok new by (simp add: mesh_ok_def)
      moreover have "\<forall>(a, b) \<in> insert (p, t) (mesh_pairs g).
          a < length (g_peers g) \<and> b < length (g_topics g)"
        using ok new by (auto simp: mesh_ok_def)
      ultimately show ?thesis
        using mesh_ok_update [of es "insert (p, t) (mesh_pairs g)" _ g] new
        by (simp add: g' mesh_size_card(2) [OF ok] add.commute)
    qed
  qed
  then show "mesh_ok g'" and "mesh_pairs g' =
    (if p < length (g_peers g) \<and> t < length (g_topics g) \<and> p_used (g_peers g ! p) \<and>
        t_used (g_topics g ! t) \<and> card (mesh_pairs g) < length (g_mesh_edges g)
     then insert (p, t) (mesh_pairs g) else mesh_pairs g)"
    by blast+
qed

lemma mesh_remove_refines:
  assumes ok: "mesh_ok g"
  shows "mesh_ok (gossipsub_mesh_remove g p t) \<and>
    mesh_pairs (gossipsub_mesh_remove g p t) = mesh_pairs g - {(p, t)}"
proof (cases "first_index (\<lambda>e. me_used e \<and> me_peer_index e = p \<and> me_topic_index e = t) (g_mesh_edges g)")
  case None
  then have "(p, t) \<notin> mesh_pairs g" by (auto simp: mesh_pairs_def first_index_None_iff)
  with ok None show ?thesis by (simp add: gossipsub_mesh_remove_def)
next
  case (Some i)
  note i = first_index_Some [OF Some]
  have k: "edges.keys (g_mesh_edges g) = mset_set (mesh_pairs g)" and pt: "(p, t) \<in> mesh_pairs g"
    using ok i by (auto simp: mesh_ok_def mesh_pairs_def intro!: image_eqI [of _ _ "g_mesh_edges g ! i"])
  have "add_mset (p, t) (edges.keys ((g_mesh_edges g)[i := zero_edge])) = mset_set (mesh_pairs g)"
    using edges.keys_clear [of i "g_mesh_edges g"] i k by auto
  also have "\<dots> = add_mset (p, t) (mset_set (mesh_pairs g - {(p, t)}))"
    using pt by (metis finite_mesh_pairs mset_set.remove)
  finally have "edges.keys ((g_mesh_edges g)[i := zero_edge]) = mset_set (mesh_pairs g - {(p, t)})"
    by simp
  moreover have "g_mesh_peer_count g - 1 = of_nat (card (mesh_pairs g - {(p, t)}))"
    using ok pt card_gt_0_iff [of "mesh_pairs g"] by (auto simp: mesh_ok_def of_nat_diff)
  ultimately show ?thesis
    using ok mesh_ok_update [of _ "mesh_pairs g - {(p, t)}" _ g]
    by (auto simp: gossipsub_mesh_remove_def Some mesh_ok_def)
qed

text \<open>The loops that clear by peer or by topic keep the other pairs and count them.\<close>

lemma mesh_clear_keys:
  assumes P: "\<And>e. P e \<longleftrightarrow> Q (me_peer_index e, me_topic_index e)" and r: "mesh_clear P es c = (es', c')"
  shows "edges.keys es' = filter_mset (\<lambda>k. \<not> Q k) (edges.keys es) \<and>
    c' = c - of_nat (size (filter_mset Q (edges.keys es)))"
  using r
proof (induction es arbitrary: c es' c')
  case (Cons e es)
  show ?case
  proof (cases "me_used e \<and> P e")
    case True
    obtain es1 c1 where r1: "mesh_clear P es (c - 1) = (es1, c1)" by fastforce
    with True Cons.prems have "es' = zero_edge # es1" "c' = c1" by auto
    with True Cons.IH [OF r1] show ?thesis by (simp add: zero_edge_def P)
  next
    case False
    obtain es1 c1 where r1: "mesh_clear P es c = (es1, c1)" by fastforce
    with False Cons.prems have "es' = e # es1" "c' = c1" by auto
    with False Cons.IH [OF r1] show ?thesis by (auto simp: P)
  qed
qed simp

lemma mesh_clear_refines:
  assumes ok: "mesh_ok g" and P: "\<And>e. P e \<longleftrightarrow> Q (me_peer_index e, me_topic_index e)"
    and r: "mesh_clear P (g_mesh_edges g) (g_mesh_peer_count g) = (es, c)"
  shows "mesh_ok (g\<lparr>g_mesh_edges := es, g_mesh_peer_count := c\<rparr>) \<and>
    mesh_pairs (g\<lparr>g_mesh_edges := es, g_mesh_peer_count := c\<rparr>) = {k \<in> mesh_pairs g. \<not> Q k}"
proof (rule mesh_ok_update)
  have k: "edges.keys (g_mesh_edges g) = mset_set (mesh_pairs g)" using ok by (simp add: mesh_ok_def)
  have m: "edges.keys es = filter_mset (\<lambda>k. \<not> Q k) (mset_set (mesh_pairs g)) \<and>
      c = of_nat (card (mesh_pairs g)) - of_nat (size (filter_mset Q (mset_set (mesh_pairs g))))"
    using mesh_clear_keys [OF P r] ok by (simp add: k mesh_ok_def)
  have s: "card (mesh_pairs g) = card {k \<in> mesh_pairs g. \<not> Q k} + card {k \<in> mesh_pairs g. Q k}"
    by (subst card_Un_disjoint [symmetric]) (auto intro: arg_cong [where f = card])
  show "edges.keys es = mset_set {k \<in> mesh_pairs g. \<not> Q k}" and "finite {k \<in> mesh_pairs g. \<not> Q k}"
    using m by simp_all
  show "c = of_nat (card {k \<in> mesh_pairs g. \<not> Q k})"
    using m by (simp add: s)
  show "\<forall>(p, t) \<in> {k \<in> mesh_pairs g. \<not> Q k}. p < length (g_peers g) \<and> t < length (g_topics g)"
    using ok by (auto simp: mesh_ok_def)
qed

lemma mesh_remove_peer_refines:
  assumes "mesh_ok g"
  shows "mesh_ok (gossipsub_mesh_remove_peer g p) \<and>
    mesh_pairs (gossipsub_mesh_remove_peer g p) = {k \<in> mesh_pairs g. fst k \<noteq> p}"
  using mesh_clear_refines [OF assms, where P = "\<lambda>e. me_peer_index e = p" and Q = "\<lambda>k. fst k = p"]
  by (cases "mesh_clear (\<lambda>e. me_peer_index e = p) (g_mesh_edges g) (g_mesh_peer_count g)")
    (simp add: gossipsub_mesh_remove_peer_def)

lemma mesh_remove_topic_refines:
  assumes "mesh_ok g"
  shows "mesh_ok (gossipsub_mesh_remove_topic g t) \<and>
    mesh_pairs (gossipsub_mesh_remove_topic g t) = {k \<in> mesh_pairs g. snd k \<noteq> t}"
  using mesh_clear_refines [OF assms, where P = "\<lambda>e. me_topic_index e = t" and Q = "\<lambda>k. snd k = t"]
  by (cases "mesh_clear (\<lambda>e. me_topic_index e = t) (g_mesh_edges g) (g_mesh_peer_count g)")
    (simp add: gossipsub_mesh_remove_topic_def)

subsection \<open>Sequences of operations\<close>

datatype mesh_op = Mesh_add nat nat | Mesh_remove nat nat | Mesh_remove_peer nat | Mesh_remove_topic nat

fun mesh_run :: "mesh_op \<Rightarrow> libp2p_gossipsub_t \<Rightarrow> libp2p_gossipsub_t" where
  "mesh_run (Mesh_add p t) g = snd (gossipsub_mesh_add g p t)"
| "mesh_run (Mesh_remove p t) g = gossipsub_mesh_remove g p t"
| "mesh_run (Mesh_remove_peer p) g = gossipsub_mesh_remove_peer g p"
| "mesh_run (Mesh_remove_topic t) g = gossipsub_mesh_remove_topic g t"

text \<open>The same operations on a set of at most \<open>n\<close> pairs, from the peers and topics in use.\<close>

fun mesh_spec ::
  "nat \<Rightarrow> nat set \<Rightarrow> nat set \<Rightarrow> mesh_op \<Rightarrow> (nat \<times> nat) set \<Rightarrow> (nat \<times> nat) set" where
  "mesh_spec n P T (Mesh_add p t) M = (if p \<in> P \<and> t \<in> T \<and> card M < n then insert (p, t) M else M)"
| "mesh_spec n P T (Mesh_remove p t) M = M - {(p, t)}"
| "mesh_spec n P T (Mesh_remove_peer p) M = {k \<in> M. fst k \<noteq> p}"
| "mesh_spec n P T (Mesh_remove_topic t) M = {k \<in> M. snd k \<noteq> t}"

definition used_peers :: "libp2p_gossipsub_t \<Rightarrow> nat set" where
  "used_peers g = {p. p < length (g_peers g) \<and> p_used (g_peers g ! p)}"

definition used_topics :: "libp2p_gossipsub_t \<Rightarrow> nat set" where
  "used_topics g = {t. t < length (g_topics g) \<and> t_used (g_topics g ! t)}"

lemma mesh_clear_length: "mesh_clear P es c = (es', c') \<Longrightarrow> length es' = length es"
  by (induction P es c arbitrary: es' c' rule: mesh_clear.induct) (auto split: if_splits prod.splits)

lemma mesh_run_frame:
  "g_peers (mesh_run op g) = g_peers g \<and> g_topics (mesh_run op g) = g_topics g \<and>
   length (g_mesh_edges (mesh_run op g)) = length (g_mesh_edges g)"
  by (cases op)
    (auto simp: gossipsub_mesh_add_def gossipsub_mesh_remove_def gossipsub_mesh_remove_peer_def
      gossipsub_mesh_remove_topic_def mesh_clear_length split: option.split prod.split)

lemma mesh_run_refines:
  assumes "mesh_ok g"
  shows "mesh_ok (mesh_run op g) \<and> mesh_pairs (mesh_run op g) =
    mesh_spec (length (g_mesh_edges g)) (used_peers g) (used_topics g) op (mesh_pairs g)"
proof (cases op)
  case (Mesh_add p t)
  obtain r g' where r: "gossipsub_mesh_add g p t = (r, g')" by fastforce
  from mesh_add_refines [OF assms r] show ?thesis
    by (simp add: Mesh_add r used_peers_def used_topics_def)
qed (use assms in \<open>simp_all add: mesh_remove_refines mesh_remove_peer_refines mesh_remove_topic_refines\<close>)

lemma mesh_runs_refine:
  assumes "mesh_ok g"
  shows "mesh_ok (fold mesh_run ops g) \<and> mesh_pairs (fold mesh_run ops g) =
    fold (mesh_spec (length (g_mesh_edges g)) (used_peers g) (used_topics g)) ops (mesh_pairs g)"
  using assms
proof (induction ops arbitrary: g)
  case (Cons op ops)
  from mesh_run_frame [of op g]
  have "used_peers (mesh_run op g) = used_peers g" "used_topics (mesh_run op g) = used_topics g"
    by (simp_all add: used_peers_def used_topics_def)
  with Cons.IH [of "mesh_run op g"] mesh_run_refines [OF Cons.prems, of op] mesh_run_frame [of op g]
  show ?case by simp
qed simp

text \<open>Claim C17. The mesh table refines a set of pairs of peer and topic: whatever sequence of
  additions and removals runs, the table holds exactly the pairs that the same operations on sets
  give (additions are refused when the table is full or the peer or topic is not in use); the
  membership test, the number of peers of a topic and the reported number of mesh peers are those
  of the set.\<close>

theorem mesh_refines_set:
  assumes "mesh_ok g"
  shows "let g' = fold mesh_run ops g in
    mesh_pairs g' =
      fold (mesh_spec (length (g_mesh_edges g)) (used_peers g) (used_topics g)) ops (mesh_pairs g) \<and>
    mesh_ok g' \<and>
    (gossipsub_mesh_contains g' p t \<longleftrightarrow> (p, t) \<in> mesh_pairs g') \<and>
    gossipsub_mesh_count_topic g' t = card {p. (p, t) \<in> mesh_pairs g'} \<and>
    libp2p_gossipsub_mesh_peer_count g' = of_nat (card (mesh_pairs g'))"
  using mesh_runs_refine [OF assms, of ops]
  by (simp add: Let_def mesh_contains_iff mesh_count_topic_card)
    (simp add: libp2p_gossipsub_mesh_peer_count_def mesh_ok_def)

lemma mesh_ok_empty:
  assumes "\<forall>e\<in>set (g_mesh_edges g). \<not> me_used e" and "g_mesh_peer_count g = 0"
  shows "mesh_ok g" and "mesh_pairs g = {}"
proof -
  from assms(1) have "filter me_used (g_mesh_edges g) = []" by (simp add: filter_empty_conv)
  then show m: "mesh_pairs g = {}" by (simp add: mesh_pairs_def)
  then show "mesh_ok g" using assms(2) mesh_pairs_keys [of g] by (simp add: mesh_ok_def)
qed

lemma sample_mesh_ok: "mesh_ok sample_router"
  by (rule mesh_ok_empty) (auto simp: sample_router_defs zero_edge_def Let_def)

theorem mesh_refines_set_witness:
  "let g' = fold mesh_run [Mesh_add 0 0, Mesh_add 1 0, Mesh_add 2 0, Mesh_remove_peer 1] sample_router in
    mesh_pairs g' =
      fold (mesh_spec (length (g_mesh_edges sample_router)) (used_peers sample_router)
          (used_topics sample_router))
        [Mesh_add 0 0, Mesh_add 1 0, Mesh_add 2 0, Mesh_remove_peer 1] (mesh_pairs sample_router) \<and>
    mesh_ok g' \<and>
    (gossipsub_mesh_contains g' 0 0 \<longleftrightarrow> (0, 0) \<in> mesh_pairs g') \<and>
    gossipsub_mesh_count_topic g' 0 = card {p. (p, 0) \<in> mesh_pairs g'} \<and>
    libp2p_gossipsub_mesh_peer_count g' = of_nat (card (mesh_pairs g'))"
  by (rule mesh_refines_set [OF sample_mesh_ok])

end
