(* ===== verification/Gossipsub_Tx.thy ===== *)
theory Gossipsub_Tx
  imports Gossipsub_Tables Gossipsub_Config
begin

text \<open>
  The transmit queue of the router, \<open>src/src/protocol/gossipsub/gossipsub_tx.c\<close>: a pool of items
  whose frames lie in one byte buffer and that are linked into one list per peer, priority items
  first.

  The index \<open>GOSSIPSUB_TX_NO_ITEM\<close> is \<open>None\<close>. A walk along \<open>next\<close> that the code does not bound is a
  \<open>partial_function (option)\<close>: \<open>None\<close> is a walk that never ends or that reads an item outside the
  pool. The same value stands for a write outside the pool or the buffer. The counters of a queue
  are bounded by the capacity of the pool and are natural numbers. The host's stream write is a
  parameter: a function of the host's state, the stream and the bytes offered to its error code, the
  number of bytes it accepted and the new state. The records of the optional tracing tables
  (\<open>gossipsub_autopsy_*\<close>) are left out: no operation of the router reads them.
\<close>

definition GOSSIPSUB_TX_LOCAL_PUBLISH_LIFETIME_US :: u64 where
  "GOSSIPSUB_TX_LOCAL_PUBLISH_LIFETIME_US = 5000000"

definition GOSSIPSUB_TX_FORWARD_LIFETIME_US :: u64 where
  "GOSSIPSUB_TX_FORWARD_LIFETIME_US = 1000000"

text \<open>An assignment to a field of a peer or of an item through its pointer.\<close>

definition upd_peer ::
  "nat \<Rightarrow> (gossipsub_peer_state_t \<Rightarrow> gossipsub_peer_state_t) \<Rightarrow> libp2p_gossipsub_t \<Rightarrow> libp2p_gossipsub_t" where
  "upd_peer i f g = g\<lparr>g_peers := (g_peers g)[i := f (g_peers g ! i)]\<rparr>"

definition upd_item ::
  "nat \<Rightarrow> (gossipsub_tx_item_t \<Rightarrow> gossipsub_tx_item_t) \<Rightarrow> libp2p_gossipsub_t \<Rightarrow> libp2p_gossipsub_t" where
  "upd_item i f g = g\<lparr>g_tx_queue := (g_tx_queue g)[i := f (g_tx_queue g ! i)]\<rparr>"

subsection \<open>Times\<close>

definition gossipsub_tx_effective_now_us :: "libp2p_gossipsub_t \<Rightarrow> u64" where
  "gossipsub_tx_effective_now_us g =
     (if g_last_drive_us g = 0 then g_next_heartbeat_us g else g_last_drive_us g)"

definition gossipsub_tx_deadline :: "u64 \<Rightarrow> u64 \<Rightarrow> u64" where
  "gossipsub_tx_deadline now_us lifetime_us =
     (if lifetime_us \<noteq> 0
      then (if now_us \<le> - 1 - lifetime_us then now_us + lifetime_us else - 1)
      else 0)"

definition gossipsub_tx_backoff_seconds :: "u64 \<Rightarrow> u64" where
  "gossipsub_tx_backoff_seconds backoff_us =
     (let result = backoff_us div 1000000 in
      if backoff_us \<noteq> 0 \<and> backoff_us mod 1000000 \<noteq> 0 \<and> result \<noteq> - 1 then result + 1 else result)"

subsection \<open>Peers and items\<close>

definition gossipsub_tx_is_mesh_route :: "libp2p_gossipsub_t \<Rightarrow> nat \<Rightarrow> nat \<Rightarrow> bool" where
  "gossipsub_tx_is_mesh_route g peer_index topic_index =
     (peer_index < length (g_peers g) \<and>
      (if gossipsub_mesh_contains g peer_index topic_index then True
       else p_explicit_peer (g_peers g ! peer_index) \<and>
            gossipsub_peer_subscribed g peer_index topic_index))"

definition gossipsub_tx_set_peer_ready ::
  "nat \<Rightarrow> bool \<Rightarrow> libp2p_gossipsub_t \<Rightarrow> libp2p_gossipsub_t" where
  "gossipsub_tx_set_peer_ready peer_index ready g =
     (if peer_index < length (g_peers g) then
        let peer = g_peers g ! peer_index;
            can_write = (p_used peer \<and> p_stream peer \<noteq> None \<and> p_tx_queue_depth peer \<noteq> 0);
            next_ready = (ready \<and> can_write)
        in if next_ready \<and> \<not> p_tx_ready peer
           then (upd_peer peer_index (p_tx_ready_update (\<lambda>_. True)) g)
                  \<lparr>g_tx_ready_count := g_tx_ready_count g + 1\<rparr>
           else if \<not> next_ready \<and> p_tx_ready peer
           then (upd_peer peer_index (p_tx_ready_update (\<lambda>_. False)) g)
                  \<lparr>g_tx_ready_count :=
                     (if g_tx_ready_count g \<noteq> 0 then g_tx_ready_count g - 1 else g_tx_ready_count g)\<rparr>
           else upd_peer peer_index (p_tx_ready_update (\<lambda>_. next_ready)) g
      else g)"

definition gossipsub_tx_mark_peer_ready ::
  "libp2p_gossipsub_t \<Rightarrow> nat \<Rightarrow> u64 \<Rightarrow> libp2p_gossipsub_t" where
  "gossipsub_tx_mark_peer_ready g peer_index now_us =
     (if peer_index < length (g_peers g)
      then gossipsub_tx_set_peer_ready peer_index True
             (upd_peer peer_index
                (\<lambda>p. p\<lparr>p_tx_last_writable_us := now_us, p_tx_transport_busy := False\<rparr>) g)
      else g)"

definition gossipsub_tx_item_stale :: "gossipsub_tx_item_t \<Rightarrow> u64 \<Rightarrow> bool" where
  "gossipsub_tx_item_stale item now_us =
     (ti_deadline_us item \<noteq> 0 \<and> ti_pos item = 0 \<and> now_us \<ge> ti_deadline_us item)"

definition gossipsub_tx_find_free :: "libp2p_gossipsub_t \<Rightarrow> nat option" where
  "gossipsub_tx_find_free g = first_index (\<lambda>i. \<not> ti_used i) (g_tx_queue g)"

text \<open>
  The walk that counts a peer's queue again, for at most \<open>n\<close> further items: depth, priority depth,
  tail and priority tail.
\<close>

fun recount_walk ::
  "gossipsub_tx_item_t list \<Rightarrow> nat \<Rightarrow> nat option \<Rightarrow> nat \<times> nat \<times> nat option \<times> nat option \<Rightarrow>
   nat \<times> nat \<times> nat option \<times> nat option" where
  "recount_walk q 0 current acc = acc"
| "recount_walk q (Suc n) None acc = acc"
| "recount_walk q (Suc n) (Some c) (depth, priority_depth, tail, priority_tail) =
     (if c \<ge> length q \<or> \<not> ti_used (q ! c) then (depth, priority_depth, tail, priority_tail)
      else recount_walk q n (ti_next (q ! c))
             (depth + 1, (if ti_priority (q ! c) then priority_depth + 1 else priority_depth),
              Some c, (if ti_priority (q ! c) then Some c else priority_tail)))"

definition gossipsub_tx_recount_peer_queue ::
  "nat \<Rightarrow> libp2p_gossipsub_t \<Rightarrow> libp2p_gossipsub_t" where
  "gossipsub_tx_recount_peer_queue peer_index g =
     (if peer_index < length (g_peers g) then
        case recount_walk (g_tx_queue g) (length (g_tx_queue g)) (p_tx_head (g_peers g ! peer_index))
               (0, 0, None, None) of
          (depth, priority_depth, tail, priority_tail) \<Rightarrow>
            upd_peer peer_index (\<lambda>p. p\<lparr>p_tx_tail := tail, p_tx_priority_tail := priority_tail,
              p_tx_queue_depth := depth, p_tx_priority_depth := priority_depth\<rparr>) g
      else g)"

text \<open>
  Linking an item into its peer's list. The item behind the tail, or behind the priority tail, is
  written through an index of the peer: \<open>None\<close> when that index is outside the pool.
\<close>

definition link_peer_item ::
  "nat \<Rightarrow> nat \<Rightarrow> bool \<Rightarrow> libp2p_gossipsub_t \<Rightarrow> libp2p_gossipsub_t option" where
  "link_peer_item peer_index item_index priority g =
     (let peer = g_peers g ! peer_index in
      if p_tx_queue_depth peer = 0
      then Some (upd_peer peer_index (\<lambda>p. p\<lparr>p_tx_head := Some item_index, p_tx_tail := Some item_index,
                   p_tx_priority_tail := (if priority then Some item_index else None)\<rparr>) g)
      else if \<not> priority
      then (case p_tx_tail peer of
              None \<Rightarrow> None
            | Some t \<Rightarrow>
                if t < length (g_tx_queue g)
                then Some (upd_peer peer_index (p_tx_tail_update (\<lambda>_. Some item_index))
                             (upd_item t (ti_next_update (\<lambda>_. Some item_index)) g))
                else None)
      else (case p_tx_priority_tail peer of
              None \<Rightarrow>
                Some (upd_peer peer_index
                        (\<lambda>p. p\<lparr>p_tx_head := Some item_index, p_tx_priority_tail := Some item_index\<rparr>)
                        (upd_item item_index (ti_next_update (\<lambda>_. p_tx_head peer)) g))
            | Some t \<Rightarrow>
                if t < length (g_tx_queue g)
                then let g1 = upd_item item_index (ti_next_update (\<lambda>_. ti_next (g_tx_queue g ! t))) g;
                         g2 = upd_item t (ti_next_update (\<lambda>_. Some item_index)) g1
                     in Some (upd_peer peer_index
                          (\<lambda>p. p\<lparr>p_tx_tail := (if p_tx_tail p = Some t then Some item_index
                                               else p_tx_tail p),
                                 p_tx_priority_tail := Some item_index\<rparr>) g2)
                else None))"

definition gossipsub_tx_append_peer_item ::
  "libp2p_gossipsub_t \<Rightarrow> nat \<Rightarrow> nat \<Rightarrow> bool \<Rightarrow> libp2p_gossipsub_t option" where
  "gossipsub_tx_append_peer_item g peer_index item_index priority =
     (let was_empty = (p_tx_queue_depth (g_peers g ! peer_index) = 0) in do {
        g1 \<leftarrow> link_peer_item peer_index item_index priority
                (upd_item item_index (ti_priority_update (\<lambda>_. priority)) g);
        let g2 = upd_peer peer_index (\<lambda>p. p\<lparr>p_tx_queue_depth := p_tx_queue_depth p + 1,
                   p_tx_priority_depth :=
                     (if priority then p_tx_priority_depth p + 1 else p_tx_priority_depth p)\<rparr>) g1;
        Some (if was_empty \<and> \<not> p_tx_transport_busy (g_peers g2 ! peer_index)
              then gossipsub_tx_set_peer_ready peer_index True g2 else g2)
      })"

definition gossipsub_tx_commit_reserved ::
  "libp2p_gossipsub_t \<Rightarrow> nat \<Rightarrow> nat \<Rightarrow> bool \<Rightarrow>
   (libp2p_gossipsub_err_t \<times> libp2p_gossipsub_t) option" where
  "gossipsub_tx_commit_reserved g peer_index item_index priority =
     (if peer_index \<ge> length (g_peers g) \<or> item_index \<ge> length (g_tx_queue g)
      then Some (LIBP2P_GOSSIPSUB_ERR_INVALID_ARG, g)
      else let item = g_tx_queue g ! item_index in
        if \<not> ti_used item \<or> ti_peer_index item \<noteq> peer_index \<or> ti_pos item \<noteq> 0
        then Some (LIBP2P_GOSSIPSUB_ERR_STATE, g)
        else map_option (Pair LIBP2P_GOSSIPSUB_OK)
               (gossipsub_tx_append_peer_item g peer_index item_index priority))"

subsection \<open>The frame buffer\<close>

text \<open>The used item with the least offset from \<open>search_offset\<close> on, and that offset.\<close>

fun compact_best ::
  "nat \<Rightarrow> nat \<Rightarrow> gossipsub_tx_item_t list \<Rightarrow> nat option \<times> nat \<Rightarrow> nat option \<times> nat" where
  "compact_best search_offset index [] best = best"
| "compact_best search_offset index (item # items) (best_index, best_offset) =
     compact_best search_offset (index + 1) items
       (if ti_used item \<and> ti_offset item \<ge> search_offset \<and> ti_offset item < best_offset
        then (Some index, ti_offset item) else (best_index, best_offset))"

text \<open>\<open>memmove\<close> within a buffer.\<close>

definition memmove_at :: "'a list \<Rightarrow> nat \<Rightarrow> nat \<Rightarrow> nat \<Rightarrow> 'a list option" where
  "memmove_at b dst src len =
     (if src + len \<le> length b then memcpy_at b dst (take len (drop src b)) else None)"

text \<open>The loop of the compaction, for \<open>n\<close> further items.\<close>

fun compact_loop ::
  "nat \<Rightarrow> gossipsub_tx_item_t list \<Rightarrow> byte list \<Rightarrow> nat \<Rightarrow> nat \<Rightarrow>
   (gossipsub_tx_item_t list \<times> byte list \<times> nat) option" where
  "compact_loop 0 q b cursor search_offset = Some (q, b, cursor)"
| "compact_loop (Suc n) q b cursor search_offset =
     (case compact_best search_offset 0 q (None, SIZE_MAX) of
        (None, _) \<Rightarrow> Some (q, b, cursor)
      | (Some i, _) \<Rightarrow>
          (let item = q ! i; old_offset = ti_offset item; len = ti_len item in do {
             b' \<leftarrow> (if len \<noteq> 0 \<and> old_offset \<noteq> cursor then memmove_at b cursor old_offset len
                    else Some b);
             compact_loop n (q[i := item\<lparr>ti_offset := cursor\<rparr>]) b' (cursor + len)
               (if old_offset + len = old_offset then old_offset + len + 1 else old_offset + len)
           }))"

definition gossipsub_tx_compact_buffer :: "libp2p_gossipsub_t \<Rightarrow> libp2p_gossipsub_t option" where
  "gossipsub_tx_compact_buffer g =
     (if g_tx_queue_len g \<noteq> 0 then do {
        (q, b, cursor) \<leftarrow> compact_loop (g_tx_queue_len g) (g_tx_queue g) (g_tx_buffer g) 0 0;
        Some (g\<lparr>g_tx_queue := q, g_tx_buffer := b, g_tx_buffer_used := cursor\<rparr>)
      } else Some g)"

text \<open>
  The room that is left; the subtraction of two \<open>size_t\<close> values wraps around. The success value of
  \<open>gossipsub_tx_reserve\<close> is the item's index; the frame goes to the offset of the item.
\<close>

definition tx_room :: "libp2p_gossipsub_t \<Rightarrow> nat" where
  "tx_room g =
     (if g_tx_buffer_used g \<le> length (g_tx_buffer g) then length (g_tx_buffer g) - g_tx_buffer_used g
      else length (g_tx_buffer g) + 2 ^ 64 - g_tx_buffer_used g)"

definition gossipsub_tx_reserve ::
  "libp2p_gossipsub_t \<Rightarrow> nat \<Rightarrow> nat \<Rightarrow> u64 \<Rightarrow> (nat gresult \<times> libp2p_gossipsub_t) option" where
  "gossipsub_tx_reserve g peer_index frame_len lifetime_us =
     (let now_us = gossipsub_tx_effective_now_us g in
      if peer_index \<ge> length (g_peers g) then Some (Inl LIBP2P_GOSSIPSUB_ERR_INVALID_ARG, g)
      else if p_tx_queue_depth (g_peers g ! peer_index) \<ge> max_peer_tx_queue (cfg_capacity (g_config g))
      then Some (Inl LIBP2P_GOSSIPSUB_ERR_LIMIT, g)
      else if g_tx_queue_len g \<ge> length (g_tx_queue g) then Some (Inl LIBP2P_GOSSIPSUB_ERR_LIMIT, g)
      else
        let g1 = (if frame_len > tx_room g \<and> g_tx_queue_len g = 0 then g\<lparr>g_tx_buffer_used := 0\<rparr> else g)
        in do {
          g2 \<leftarrow> (if frame_len > tx_room g1 \<and> g_tx_queue_len g1 \<noteq> 0
                 then gossipsub_tx_compact_buffer g1 else Some g1);
          if frame_len > tx_room g2 then Some (Inl LIBP2P_GOSSIPSUB_ERR_LIMIT, g2)
          else case gossipsub_tx_find_free g2 of
            None \<Rightarrow> Some (Inl LIBP2P_GOSSIPSUB_ERR_LIMIT, g2)
          | Some i \<Rightarrow>
              Some (Inr i, g2\<lparr>g_tx_queue := (g_tx_queue g2)[i := zero_tx_item\<lparr>ti_used := True,
                  ti_peer_index := peer_index, ti_offset := g_tx_buffer_used g2,
                  ti_len := frame_len, ti_enqueued_us := now_us,
                  ti_deadline_us := gossipsub_tx_deadline now_us lifetime_us\<rparr>],
                g_tx_buffer_used := g_tx_buffer_used g2 + frame_len,
                g_tx_queue_len := g_tx_queue_len g2 + 1\<rparr>)
        })"

subsection \<open>Removal\<close>

text \<open>
  The walk that looks for an item in its peer's list: \<open>Some None\<close> when it is not there,
  \<open>Some (Some previous)\<close> with the item before it otherwise.
\<close>

partial_function (option) find_previous ::
  "gossipsub_tx_item_t list \<Rightarrow> nat \<Rightarrow> nat option \<Rightarrow> nat option \<Rightarrow> nat option option option" where
  "find_previous q index previous current =
     (if current = None then Some None
      else if current = Some index then Some (Some previous)
      else if the current < length q
      then find_previous q index current (ti_next (q ! the current))
      else None)"

definition unlink_item ::
  "nat \<Rightarrow> nat \<Rightarrow> nat option \<Rightarrow> libp2p_gossipsub_t \<Rightarrow> libp2p_gossipsub_t" where
  "unlink_item peer_index index previous g =
     (let following = ti_next (g_tx_queue g ! index);
          g1 = (case previous of
                  None \<Rightarrow> upd_peer peer_index (p_tx_head_update (\<lambda>_. following)) g
                | Some c \<Rightarrow> upd_item c (ti_next_update (\<lambda>_. following)) g);
          g2 = upd_peer peer_index (\<lambda>p. p\<lparr>p_tx_tail := (if p_tx_tail p = Some index then previous
                                                       else p_tx_tail p),
                 p_tx_queue_depth := (if p_tx_queue_depth p \<noteq> 0 then p_tx_queue_depth p - 1
                                      else p_tx_queue_depth p)\<rparr>) g1;
          g3 = gossipsub_tx_recount_peer_queue peer_index g2
      in if p_tx_queue_depth (g_peers g3 ! peer_index) < max_peer_tx_queue (cfg_capacity (g_config g3))
         then upd_peer peer_index (p_tx_queue_limit_reported_update (\<lambda>_. False)) g3 else g3)"

definition gossipsub_tx_remove :: "libp2p_gossipsub_t \<Rightarrow> nat \<Rightarrow> libp2p_gossipsub_t option" where
  "gossipsub_tx_remove g index =
     (if index < length (g_tx_queue g) \<and> ti_used (g_tx_queue g ! index) then do {
        let peer_index = ti_peer_index (g_tx_queue g ! index);
        g1 \<leftarrow> (if peer_index < length (g_peers g) then do {
                 found \<leftarrow> find_previous (g_tx_queue g) index None (p_tx_head (g_peers g ! peer_index));
                 let g2 = (case found of
                             None \<Rightarrow> g
                           | Some previous \<Rightarrow> unlink_item peer_index index previous g);
                 Some (if p_tx_queue_depth (g_peers g2 ! peer_index) = 0
                       then gossipsub_tx_set_peer_ready peer_index False
                              (upd_peer peer_index (\<lambda>p. p\<lparr>p_tx_head := None, p_tx_tail := None,
                                 p_tx_priority_tail := None, p_tx_priority_depth := 0\<rparr>) g2)
                       else g2)
               } else Some g);
        let g3 = upd_item index (\<lambda>_. zero_tx_item) g1;
        let len = (if g_tx_queue_len g3 \<noteq> 0 then g_tx_queue_len g3 - 1 else g_tx_queue_len g3);
        Some (g3\<lparr>g_tx_queue_len := len,
                 g_tx_buffer_used := (if len = 0 then 0 else g_tx_buffer_used g3)\<rparr>)
      } else Some g)"

definition gossipsub_tx_alloc ::
  "libp2p_gossipsub_t \<Rightarrow> nat \<Rightarrow> nat \<Rightarrow> u64 \<Rightarrow> (nat gresult \<times> libp2p_gossipsub_t) option" where
  "gossipsub_tx_alloc g peer_index frame_len lifetime_us = do {
     (reserved, g1) \<leftarrow> gossipsub_tx_reserve g peer_index frame_len lifetime_us;
     case reserved of
       Inl e \<Rightarrow> Some (Inl e, g1)
     | Inr i \<Rightarrow> do {
         (result, g2) \<leftarrow> gossipsub_tx_commit_reserved g1 peer_index i False;
         if result = LIBP2P_GOSSIPSUB_OK then Some (Inr i, g2)
         else do { g3 \<leftarrow> gossipsub_tx_remove g2 i; Some (Inl result, g3) }
       }
   }"

end
