(* ===== verification/Gossipsub_Tx_Compact.thy ===== *)
theory Gossipsub_Tx_Compact
  imports Gossipsub_Tx
begin

text \<open>
  The compaction of the transmit buffer moves every queued frame to the front of the buffer, in the
  order of the offsets, and loses nothing: every item keeps its bytes, the frames stay disjoint and
  the space in use becomes the sum of their lengths.
\<close>

subsection \<open>Spans of a buffer\<close>

definition span :: "byte list \<Rightarrow> nat \<Rightarrow> nat \<Rightarrow> byte list" where
  "span b offset len = take len (drop offset b)"

lemma length_span [simp]: "offset + len \<le> length b \<Longrightarrow> length (span b offset len) = len"
  by (simp add: span_def)

text \<open>A copy changes the span it goes to and no span that does not meet it.\<close>

lemma span_copied:
  assumes "off + length src \<le> length b" and "b' = take off b @ src @ drop (off + length src) b"
  shows "length b' = length b" and "span b' off (length src) = src"
    and "o' + l \<le> off \<or> off + length src \<le> o' \<Longrightarrow> span b' o' l = span b o' l"
proof -
  show "length b' = length b" and "span b' off (length src) = src" using assms by (simp_all add: span_def)
  assume "o' + l \<le> off \<or> off + length src \<le> o'"
  then show "span b' o' l = span b o' l"
  proof
    assume "o' + l \<le> off"
    with assms show ?thesis by (simp add: span_def drop_take)
  next
    assume "off + length src \<le> o'"
    moreover from this have "drop o' b' = drop o' b"
      using assms by (simp add: drop_append)
    ultimately show ?thesis by (simp add: span_def)
  qed
qed

lemma memmove_at_span:
  assumes "src + len \<le> length b" and "dst + len \<le> length b"
  shows "memmove_at b dst src len = Some (take dst b @ span b src len @ drop (dst + len) b)"
  using assms by (simp add: memmove_at_def memcpy_at_def span_def)

subsection \<open>Items with disjoint spans\<close>

definition item_bytes :: "byte list \<Rightarrow> gossipsub_tx_item_t \<Rightarrow> byte list" where
  "item_bytes b item = span b (ti_offset item) (ti_len item)"

definition apart :: "gossipsub_tx_item_t \<Rightarrow> gossipsub_tx_item_t \<Rightarrow> bool" where
  "apart x y \<longleftrightarrow> ti_offset x + ti_len x \<le> ti_offset y \<or> ti_offset y + ti_len y \<le> ti_offset x"

text \<open>The used items lie below \<open>bound\<close>, are not empty and do not overlap.\<close>

definition spans_ok :: "gossipsub_tx_item_t list \<Rightarrow> nat \<Rightarrow> bool" where
  "spans_ok q bound \<longleftrightarrow>
     (\<forall>i < length q. ti_used (q ! i) \<longrightarrow>
        0 < ti_len (q ! i) \<and> ti_offset (q ! i) + ti_len (q ! i) \<le> bound \<and>
        ti_pos (q ! i) \<le> ti_len (q ! i) \<and>
        (\<forall>j < length q. j \<noteq> i \<longrightarrow> ti_used (q ! j) \<longrightarrow> apart (q ! i) (q ! j)))"

definition used_items :: "gossipsub_tx_item_t list \<Rightarrow> nat set" where
  "used_items q = {i. i < length q \<and> ti_used (q ! i)}"

lemma finite_used_items [simp]: "finite (used_items q)"
  by (simp add: used_items_def)

definition used_bytes :: "gossipsub_tx_item_t list \<Rightarrow> nat" where
  "used_bytes q = (\<Sum>i\<in>used_items q. ti_len (q ! i))"

text \<open>The pool with other offsets.\<close>

definition moved :: "gossipsub_tx_item_t list \<Rightarrow> gossipsub_tx_item_t list \<Rightarrow> bool" where
  "moved q q' \<longleftrightarrow> length q' = length q \<and>
     (\<forall>i < length q. \<exists>n. q' ! i = (q ! i)\<lparr>ti_offset := n\<rparr>)"

lemma same_offset: "\<exists>n. x = x\<lparr>ti_offset := n\<rparr>"
  by (rule exI [of _ "ti_offset x"]) simp

lemma moved_refl [simp]: "moved q q"
  by (simp add: moved_def same_offset)

lemma moved_length: "moved q q' \<Longrightarrow> length q' = length q"
  by (simp add: moved_def)

lemma moved_fields:
  assumes "moved q q'" and "i < length q"
  shows "ti_used (q' ! i) = ti_used (q ! i)" "ti_priority (q' ! i) = ti_priority (q ! i)"
    "ti_publish (q' ! i) = ti_publish (q ! i)" "ti_peer_index (q' ! i) = ti_peer_index (q ! i)"
    "ti_len (q' ! i) = ti_len (q ! i)" "ti_pos (q' ! i) = ti_pos (q ! i)"
    "ti_next (q' ! i) = ti_next (q ! i)" "ti_deadline_us (q' ! i) = ti_deadline_us (q ! i)"
    "ti_message_id (q' ! i) = ti_message_id (q ! i)"
proof -
  from assms obtain n where "q' ! i = (q ! i)\<lparr>ti_offset := n\<rparr>" by (auto simp: moved_def)
  then show "ti_used (q' ! i) = ti_used (q ! i)" "ti_priority (q' ! i) = ti_priority (q ! i)"
    "ti_publish (q' ! i) = ti_publish (q ! i)" "ti_peer_index (q' ! i) = ti_peer_index (q ! i)"
    "ti_len (q' ! i) = ti_len (q ! i)" "ti_pos (q' ! i) = ti_pos (q ! i)"
    "ti_next (q' ! i) = ti_next (q ! i)" "ti_deadline_us (q' ! i) = ti_deadline_us (q ! i)"
    "ti_message_id (q' ! i) = ti_message_id (q ! i)" by simp_all
qed

lemma moved_trans:
  assumes "moved q q1" and "moved q1 q2"
  shows "moved q q2"
proof -
  have "\<exists>n. q2 ! i = (q ! i)\<lparr>ti_offset := n\<rparr>" if i: "i < length q" for i
  proof -
    from assms i obtain n m where "q1 ! i = (q ! i)\<lparr>ti_offset := n\<rparr>" "q2 ! i = (q1 ! i)\<lparr>ti_offset := m\<rparr>"
      unfolding moved_def by metis
    then show ?thesis by auto
  qed
  with assms show ?thesis by (simp add: moved_def)
qed

lemma moved_update:
  assumes "i < length q"
  shows "moved q (q[i := (q ! i)\<lparr>ti_offset := n\<rparr>])"
  using assms by (auto simp: moved_def nth_list_update same_offset)

lemma moved_used_items:
  assumes "moved q q'"
  shows "used_items q' = used_items q"
  using moved_fields(1) [OF assms] moved_length [OF assms] by (auto simp: used_items_def)

lemma moved_used_bytes:
  assumes "moved q q'"
  shows "used_bytes q' = used_bytes q"
  unfolding used_bytes_def moved_used_items [OF assms]
  by (rule sum.cong) (auto simp: used_items_def moved_fields(5) [OF assms])

subsection \<open>The search for the next item\<close>

lemma compact_best_spec:
  assumes "compact_best s k items (bi, bo) = (ri, ro)"
  shows "ro \<le> bo \<and>
    (\<forall>j < length items. ti_used (items ! j) \<and> s \<le> ti_offset (items ! j) \<longrightarrow> ro \<le> ti_offset (items ! j)) \<and>
    (ri = bi \<and> ro = bo \<or>
     (\<exists>j < length items. ri = Some (k + j) \<and> ti_used (items ! j) \<and> s \<le> ti_offset (items ! j) \<and>
        ro = ti_offset (items ! j) \<and> ro < bo))"
  using assms
proof (induction items arbitrary: k bi bo)
  case (Cons item items)
  define bi' where "bi' = (if ti_used item \<and> s \<le> ti_offset item \<and> ti_offset item < bo
    then Some k else bi)"
  define bo' where "bo' = (if ti_used item \<and> s \<le> ti_offset item \<and> ti_offset item < bo
    then ti_offset item else bo)"
  have "compact_best s (k + 1) items (bi', bo') = (ri, ro)"
    using Cons.prems
    by (cases "ti_used item \<and> s \<le> ti_offset item \<and> ti_offset item < bo") (auto simp: bi'_def bo'_def)
  note IH = Cons.IH [OF this]
  have le: "bo' \<le> bo" and hd: "ti_used item \<and> s \<le> ti_offset item \<Longrightarrow> bo' \<le> ti_offset item"
    by (auto simp: bo'_def)
  have 1: "ro \<le> bo" using IH le by linarith
  have 2: "\<forall>j < length (item # items). ti_used ((item # items) ! j) \<and> s \<le> ti_offset ((item # items) ! j) \<longrightarrow>
      ro \<le> ti_offset ((item # items) ! j)"
    using IH hd by (auto simp: less_Suc_eq_0_disj)
  have 3: "ri = bi \<and> ro = bo \<or>
     (\<exists>j < length (item # items). ri = Some (k + j) \<and> ti_used ((item # items) ! j) \<and>
        s \<le> ti_offset ((item # items) ! j) \<and> ro = ti_offset ((item # items) ! j) \<and> ro < bo)"
  proof (cases "ri = bi' \<and> ro = bo'")
    case True
    then show ?thesis by (auto simp: bi'_def bo'_def split: if_splits)
  next
    case False
    with IH obtain j where "j < length items" "ri = Some (k + 1 + j)" "ti_used (items ! j)"
      "s \<le> ti_offset (items ! j)" "ro = ti_offset (items ! j)" "ro < bo'" by auto
    with le show ?thesis by (intro disjI2 exI [of _ "Suc j"]) auto
  qed
  from 1 2 3 show ?case by blast
qed simp

subsection \<open>The loop\<close>

text \<open>
  Before each round the items below \<open>cursor\<close> are in place, the others start at \<open>search_offset\<close> or
  later; \<open>n\<close> items are left.
\<close>

definition compact_inv ::
  "gossipsub_tx_item_t list \<Rightarrow> byte list \<Rightarrow> nat \<Rightarrow> nat \<Rightarrow> nat \<Rightarrow> bool" where
  "compact_inv q b cursor s n \<longleftrightarrow>
     spans_ok q (length b) \<and> cursor \<le> s \<and>
     (\<forall>i\<in>used_items q. ti_offset (q ! i) + ti_len (q ! i) \<le> cursor \<or> s \<le> ti_offset (q ! i)) \<and>
     n = card {i \<in> used_items q. s \<le> ti_offset (q ! i)} \<and>
     cursor = (\<Sum>i\<in>{i \<in> used_items q. ti_offset (q ! i) < s}. ti_len (q ! i))"

lemma compact_step:
  fixes q b i s cursor
  defines "old \<equiv> ti_offset (q ! i)" and "len \<equiv> ti_len (q ! i)"
  assumes inv: "compact_inv q b cursor s (Suc n)"
    and i: "i \<in> used_items q" "s \<le> old"
    and least: "\<And>j. j \<in> used_items q \<Longrightarrow> s \<le> ti_offset (q ! j) \<Longrightarrow> old \<le> ti_offset (q ! j)"
    and q1: "q1 = q[i := (q ! i)\<lparr>ti_offset := cursor\<rparr>]"
    and b1: "b1 = take cursor b @ span b old len @ drop (cursor + len) b"
  shows "compact_inv q1 b1 (cursor + len) (old + len) n" and "moved q q1" and "length b1 = length b"
    and "j \<in> used_items q \<Longrightarrow> item_bytes b1 (q1 ! j) = item_bytes b (q ! j)"
proof -
  have sp: "spans_ok q (length b)" and cs: "cursor \<le> s"
    and split: "\<And>j. j \<in> used_items q \<Longrightarrow>
      ti_offset (q ! j) + ti_len (q ! j) \<le> cursor \<or> s \<le> ti_offset (q ! j)"
    and card: "Suc n = card {i \<in> used_items q. s \<le> ti_offset (q ! i)}"
    and sum: "cursor = (\<Sum>i\<in>{i \<in> used_items q. ti_offset (q ! i) < s}. ti_len (q ! i))"
    using inv by (auto simp: compact_inv_def)
  have il: "i < length q" and iu: "ti_used (q ! i)" using i by (auto simp: used_items_def)
  have len: "0 < len" "old + len \<le> length b" "ti_pos (q ! i) \<le> len"
    using sp il iu by (auto simp: spans_ok_def old_def len_def)
  have pos: "0 < ti_len (q ! j)" if "j \<in> used_items q" for j
    using sp that by (auto simp: spans_ok_def used_items_def)
  have other: "ti_offset (q ! j) + ti_len (q ! j) \<le> cursor \<or> old + len \<le> ti_offset (q ! j)"
    if j: "j \<in> used_items q" "j \<noteq> i" for j
  proof -
    have "apart (q ! i) (q ! j)" using sp i j by (auto simp: spans_ok_def used_items_def)
    with split [OF j(1)] least [OF j(1)] pos [OF j(1)] show ?thesis
      by (auto simp: apart_def old_def len_def)
  qed
  show m: "moved q q1" unfolding q1 by (rule moved_update [OF il])
  note copied = span_copied [of cursor "span b old len" b b1]
  have cl: "cursor + len \<le> length b" using cs i len by linarith
  have sl: "length (span b old len) = len" using len by simp
  show lb: "length b1 = length b" using copied(1) cl b1 sl by simp
  have ni: "q1 ! i = (q ! i)\<lparr>ti_offset := cursor\<rparr>" and nj: "\<And>j. j \<noteq> i \<Longrightarrow> q1 ! j = q ! j"
    using il by (simp_all add: q1)
  have u1: "used_items q1 = used_items q" by (rule moved_used_items [OF m])
  show "item_bytes b1 (q1 ! j) = item_bytes b (q ! j)" if j: "j \<in> used_items q"
  proof (cases "j = i")
    case True
    then show ?thesis using copied(2) cl b1 sl by (simp add: item_bytes_def ni old_def len_def)
  next
    case False
    have "span b1 (ti_offset (q ! j)) (ti_len (q ! j)) = span b (ti_offset (q ! j)) (ti_len (q ! j))"
      by (rule copied(3)) (use cl b1 sl other [OF j False] cs i in auto)
    then show ?thesis by (simp add: item_bytes_def nj False)
  qed
  have "spans_ok q1 (length b1)"
    unfolding spans_ok_def
  proof (intro allI impI)
    fix j assume "j < length q1" "ti_used (q1 ! j)"
    then have j: "j \<in> used_items q" using u1 by (auto simp: used_items_def)
    have "apart (q1 ! j) (q1 ! k)" if k: "k \<in> used_items q" "k \<noteq> j" for k
    proof -
      have old: "apart (q ! j) (q ! k)" using sp j k by (auto simp: spans_ok_def used_items_def)
      consider "j = i" | "k = i" | "j \<noteq> i" "k \<noteq> i" by blast
      then show ?thesis
      proof cases
        case 1
        with other [OF k(1)] k(2) cs i show ?thesis by (auto simp: apart_def ni nj len_def)
      next
        case 2
        with other [OF j] k(2) cs i show ?thesis by (auto simp: apart_def ni nj len_def)
      next
        case 3
        with old show ?thesis by (simp add: nj)
      qed
    qed
    moreover have "0 < ti_len (q1 ! j) \<and> ti_offset (q1 ! j) + ti_len (q1 ! j) \<le> length b1 \<and>
        ti_pos (q1 ! j) \<le> ti_len (q1 ! j)"
      using j sp cl len by (cases "j = i") (auto simp: ni nj lb spans_ok_def used_items_def len_def)
    ultimately show "0 < ti_len (q1 ! j) \<and> ti_offset (q1 ! j) + ti_len (q1 ! j) \<le> length b1 \<and>
        ti_pos (q1 ! j) \<le> ti_len (q1 ! j) \<and>
        (\<forall>k < length q1. k \<noteq> j \<longrightarrow> ti_used (q1 ! k) \<longrightarrow> apart (q1 ! j) (q1 ! k))"
      using u1 by (auto simp: used_items_def)
  qed
  moreover have "ti_offset (q1 ! j) + ti_len (q1 ! j) \<le> cursor + len \<or> old + len \<le> ti_offset (q1 ! j)"
    if "j \<in> used_items q1" for j
    using other [of j] that u1 by (cases "j = i") (auto simp: ni nj len_def)
  moreover have left: "{j \<in> used_items q1. old + len \<le> ti_offset (q1 ! j)} =
      {j \<in> used_items q. s \<le> ti_offset (q ! j)} - {i}"
  proof -
    have "old + len \<le> ti_offset (q1 ! j) \<longleftrightarrow> s \<le> ti_offset (q ! j) \<and> j \<noteq> i" if j: "j \<in> used_items q" for j
      using other [OF j] pos [OF j] len(1) cs i(2) by (cases "j = i") (auto simp: ni nj)
    then show ?thesis using u1 by auto
  qed
  moreover have placed: "{j \<in> used_items q1. ti_offset (q1 ! j) < old + len} =
      insert i {j \<in> used_items q. ti_offset (q ! j) < s}"
  proof -
    have "ti_offset (q1 ! j) < old + len \<longleftrightarrow> ti_offset (q ! j) < s \<or> j = i" if j: "j \<in> used_items q" for j
      using other [OF j] pos [OF j] len(1) cs i(2) by (cases "j = i") (auto simp: ni nj)
    then show ?thesis using u1 i by auto
  qed
  moreover have "n = card ({j \<in> used_items q. s \<le> ti_offset (q ! j)} - {i})"
    using card i by (simp add: old_def)
  moreover have "cursor + len = (\<Sum>j\<in>insert i {j \<in> used_items q. ti_offset (q ! j) < s}. ti_len (q1 ! j))"
  proof -
    have "i \<notin> {j \<in> used_items q. ti_offset (q ! j) < s}" using i by (simp add: old_def)
    moreover have "(\<Sum>j\<in>{j \<in> used_items q. ti_offset (q ! j) < s}. ti_len (q1 ! j)) = cursor"
      unfolding sum by (rule sum.cong) (auto simp: used_items_def moved_fields(5) [OF m])
    ultimately show ?thesis by (simp add: ni len_def)
  qed
  ultimately show "compact_inv q1 b1 (cursor + len) (old + len) n"
    using cs i(2) by (simp add: compact_inv_def)
qed

lemma compact_loop_ok:
  assumes "compact_inv q b cursor s n" and "length b \<le> SIZE_MAX"
  shows "\<exists>q' b'. compact_loop n q b cursor s = Some (q', b', used_bytes q) \<and>
    moved q q' \<and> length b' = length b \<and> spans_ok q' (used_bytes q) \<and>
    (\<forall>j \<in> used_items q. item_bytes b' (q' ! j) = item_bytes b (q ! j))"
  using assms
proof (induction n arbitrary: q b cursor s)
  case 0
  then have low: "ti_offset (q ! i) < s" if "i \<in> used_items q" for i
    using that by (force simp: compact_inv_def)
  then have "{i \<in> used_items q. ti_offset (q ! i) < s} = used_items q" by auto
  with 0 have c: "cursor = used_bytes q" by (simp add: compact_inv_def used_bytes_def)
  have "ti_offset (q ! i) + ti_len (q ! i) \<le> cursor" if "i \<in> used_items q" for i
    using 0 low [OF that] that by (force simp: compact_inv_def)
  then have "spans_ok q cursor"
    using 0 by (auto simp: compact_inv_def spans_ok_def used_items_def)
  with c show ?case by simp
next
  case (Suc n)
  obtain ri ro where best: "compact_best s 0 q (None, SIZE_MAX) = (ri, ro)" by fastforce
  note spec = compact_best_spec [OF best]
  have "Suc n = card {i \<in> used_items q. s \<le> ti_offset (q ! i)}"
    using Suc.prems(1) by (simp only: compact_inv_def)
  then have "{i \<in> used_items q. s \<le> ti_offset (q ! i)} \<noteq> {}" by (metis card.empty nat.distinct(1))
  then obtain k where k: "k \<in> used_items q" "s \<le> ti_offset (q ! k)" by blast
  then have "ro \<le> ti_offset (q ! k)" using spec by (auto simp: used_items_def)
  moreover have "ti_offset (q ! k) < length b"
    using Suc.prems(1) k by (force simp: compact_inv_def spans_ok_def used_items_def)
  ultimately have "ro < SIZE_MAX" using Suc.prems(2) by linarith
  then obtain i where i: "ri = Some i" "i \<in> used_items q" "s \<le> ti_offset (q ! i)"
      "ro = ti_offset (q ! i)"
    using spec by (auto simp: used_items_def)
  let ?old = "ti_offset (q ! i)" and ?len = "ti_len (q ! i)"
  define q1 where "q1 = q[i := (q ! i)\<lparr>ti_offset := cursor\<rparr>]"
  define b1 where "b1 = take cursor b @ span b ?old ?len @ drop (cursor + ?len) b"
  have least: "\<And>j. j \<in> used_items q \<Longrightarrow> s \<le> ti_offset (q ! j) \<Longrightarrow> ?old \<le> ti_offset (q ! j)"
    using spec i(4) by (auto simp: used_items_def)
  note step = compact_step [OF Suc.prems(1) i(2,3) least q1_def b1_def]
  have len: "0 < ?len" "?old + ?len \<le> length b" and cs: "cursor \<le> s"
    using Suc.prems(1) i(2) by (auto simp: compact_inv_def spans_ok_def used_items_def)
  have mv: "(if ?len \<noteq> 0 \<and> ?old \<noteq> cursor then memmove_at b cursor ?old ?len else Some b) = Some b1"
  proof (cases "?old = cursor")
    case True
    then have "b1 = b" using len by (simp add: b1_def span_def) (metis append_take_drop_id drop_drop add.commute)
    with True show ?thesis by simp
  next
    case False
    with len cs i(3) show ?thesis by (simp add: memmove_at_span b1_def)
  qed
  obtain q' b' where IH: "compact_loop n q1 b1 (cursor + ?len) (?old + ?len) = Some (q', b', used_bytes q1)"
      "moved q1 q'" "length b' = length b1" "spans_ok q' (used_bytes q1)"
      "\<forall>j \<in> used_items q1. item_bytes b' (q' ! j) = item_bytes b1 (q1 ! j)"
    using Suc.IH [OF step(1)] step(3) Suc.prems(2) by auto
  have run: "compact_loop (Suc n) q b cursor s = Some (q', b', used_bytes q)"
  proof -
    have "compact_loop (Suc n) q b cursor s =
        Option.bind (Some b1) (\<lambda>b'. compact_loop n q1 b' (cursor + ?len) (?old + ?len))"
      using len(1) by (simp only: compact_loop.simps best i(1) prod.case option.case Let_def mv q1_def)
        simp
    with IH(1) moved_used_bytes [OF step(2)] show ?thesis by simp
  qed
  moreover have "\<forall>j \<in> used_items q. item_bytes b' (q' ! j) = item_bytes b (q ! j)"
    using IH(5) step(4) by (simp add: moved_used_items [OF step(2)])
  ultimately show ?case
    using moved_trans [OF step(2) IH(2)] IH(3,4) step(3) moved_used_bytes [OF step(2)] by simp
qed

text \<open>The compaction as a whole.\<close>

lemma compact_buffer_ok:
  assumes "spans_ok (g_tx_queue g) (length (g_tx_buffer g))" and "length (g_tx_buffer g) \<le> SIZE_MAX"
    and "g_tx_queue_len g = card (used_items (g_tx_queue g))" and "g_tx_queue_len g \<noteq> 0"
  shows "\<exists>q' b'. gossipsub_tx_compact_buffer g =
      Some (g\<lparr>g_tx_queue := q', g_tx_buffer := b', g_tx_buffer_used := used_bytes (g_tx_queue g)\<rparr>) \<and>
    moved (g_tx_queue g) q' \<and> length b' = length (g_tx_buffer g) \<and>
    spans_ok q' (used_bytes (g_tx_queue g)) \<and>
    (\<forall>j \<in> used_items (g_tx_queue g). item_bytes b' (q' ! j) = item_bytes (g_tx_buffer g) (g_tx_queue g ! j))"
proof -
  have "compact_inv (g_tx_queue g) (g_tx_buffer g) 0 0 (g_tx_queue_len g)"
    using assms(1,3) by (simp add: compact_inv_def)
  from compact_loop_ok [OF this assms(2)] obtain q' b' where
    "compact_loop (g_tx_queue_len g) (g_tx_queue g) (g_tx_buffer g) 0 0 =
      Some (q', b', used_bytes (g_tx_queue g))"
    and q': "moved (g_tx_queue g) q' \<and> length b' = length (g_tx_buffer g) \<and>
      spans_ok q' (used_bytes (g_tx_queue g)) \<and> (\<forall>j \<in> used_items (g_tx_queue g).
        item_bytes b' (q' ! j) = item_bytes (g_tx_buffer g) (g_tx_queue g ! j))" by blast
  with assms(4) have "gossipsub_tx_compact_buffer g =
      Some (g\<lparr>g_tx_queue := q', g_tx_buffer := b', g_tx_buffer_used := used_bytes (g_tx_queue g)\<rparr>)"
    by (simp add: gossipsub_tx_compact_buffer_def)
  with q' show ?thesis by blast
qed

end
