(* ===== verification/Gossipsub_Tx_Laws.thy ===== *)
theory Gossipsub_Tx_Laws
  imports Gossipsub_Tx_Compact
begin

text \<open>
  The invariant of the transmit queue: every peer's list is a finite chain of distinct items that
  belong to the peer, priority items first, its ends and depths are the recorded ones, every used
  item is in its peer's list, the frames do not overlap. With it the unbounded walks of the code
  end within the pool.
\<close>

subsection \<open>Chains\<close>

text \<open>The indices from \<open>h\<close> along \<open>nx\<close> are \<open>is\<close>, and then comes \<open>e\<close>.\<close>

fun chain :: "(nat \<Rightarrow> nat option) \<Rightarrow> nat option \<Rightarrow> nat list \<Rightarrow> nat option \<Rightarrow> bool" where
  "chain nx h [] e \<longleftrightarrow> h = e"
| "chain nx h (i # ks) e \<longleftrightarrow> h = Some i \<and> chain nx (nx i) ks e"

lemma chain_append: "chain nx h (xs @ ys) e \<longleftrightarrow> (\<exists>m. chain nx h xs m \<and> chain nx m ys e)"
  by (induction xs arbitrary: h) auto

lemma chain_cong:
  "(\<And>i. i \<in> set ks \<Longrightarrow> nx i = nx' i) \<Longrightarrow> chain nx h ks e \<longleftrightarrow> chain nx' h ks e"
  by (induction ks arbitrary: h) auto

lemma chain_None [simp]: "chain nx None ks None \<longleftrightarrow> ks = []"
  by (cases ks) auto

lemma chain_unique: "chain nx h xs None \<Longrightarrow> chain nx h ys None \<Longrightarrow> xs = ys"
proof (induction xs arbitrary: h ys)
  case (Cons x xs)
  then show ?case by (cases ys) auto
qed simp

lemma chain_insert_after:
  assumes "chain nx h (xs @ t # ys) None" and "distinct (xs @ t # ys)" and "i \<notin> set (xs @ t # ys)"
  shows "chain (nx(i := nx t, t := Some i)) h (xs @ t # i # ys) None"
  using assms by (auto simp: chain_append intro!: exI [of _ "Some t"] elim!: chain_cong [THEN iffD1, rotated])

lemma chain_insert_front:
  assumes "chain nx h ks None" and "i \<notin> set ks"
  shows "chain (nx(i := h)) (Some i) (i # ks) None"
  using assms by (auto elim!: chain_cong [THEN iffD1, rotated])

lemma chain_remove_front: "chain nx h (i # ks) None \<Longrightarrow> chain nx (nx i) ks None"
  by simp

lemma chain_remove_after:
  assumes "chain nx h (xs @ t # i # ys) None" and "distinct (xs @ t # i # ys)"
  shows "chain (nx(t := nx i)) h (xs @ t # ys) None"
  using assms by (auto simp: chain_append intro!: exI [of _ "Some t"] elim!: chain_cong [THEN iffD1, rotated])

subsection \<open>The queue of a peer\<close>

abbreviation next_of :: "gossipsub_tx_item_t list \<Rightarrow> nat \<Rightarrow> nat option" where
  "next_of q i \<equiv> ti_next (q ! i)"

abbreviation prio_of :: "gossipsub_tx_item_t list \<Rightarrow> nat \<Rightarrow> bool" where
  "prio_of q i \<equiv> ti_priority (q ! i)"

definition end_of :: "nat option \<Rightarrow> nat list \<Rightarrow> nat option" where
  "end_of t ks = (if ks = [] then t else Some (last ks))"

definition queue_ok ::
  "gossipsub_tx_item_t list \<Rightarrow> nat \<Rightarrow> gossipsub_peer_state_t \<Rightarrow> nat list \<Rightarrow> bool" where
  "queue_ok q p peer ks \<longleftrightarrow>
     chain (next_of q) (p_tx_head peer) ks None \<and> distinct ks \<and>
     (\<forall>i\<in>set ks. i \<in> used_items q \<and> ti_peer_index (q ! i) = p) \<and>
     ks = filter (prio_of q) ks @ filter (\<lambda>i. \<not> prio_of q i) ks \<and>
     p_tx_queue_depth peer = length ks \<and>
     p_tx_priority_depth peer = length (filter (prio_of q) ks) \<and>
     p_tx_tail peer = end_of None ks \<and>
     p_tx_priority_tail peer = end_of None (filter (prio_of q) ks)"

text \<open>The queue depends on the links and keys of its own items and on the ends of its peer.\<close>

lemma queue_ok_cong:
  assumes "\<And>i. i \<in> set ks \<Longrightarrow> i \<in> used_items q' \<and> ti_peer_index (q' ! i) = ti_peer_index (q ! i) \<and>
      next_of q' i = next_of q i \<and> prio_of q' i = prio_of q i"
    and "p_tx_head peer' = p_tx_head peer" "p_tx_tail peer' = p_tx_tail peer"
      "p_tx_priority_tail peer' = p_tx_priority_tail peer"
      "p_tx_queue_depth peer' = p_tx_queue_depth peer"
      "p_tx_priority_depth peer' = p_tx_priority_depth peer"
    and "queue_ok q p peer ks"
  shows "queue_ok q' p peer' ks"
proof -
  have "filter (prio_of q') ks = filter (prio_of q) ks"
    and "filter (\<lambda>i. \<not> prio_of q' i) ks = filter (\<lambda>i. \<not> prio_of q i) ks"
    using assms(1) by (auto intro: filter_cong)
  moreover have "chain (next_of q') (p_tx_head peer) ks None"
    using assms(7) chain_cong [of ks "next_of q'" "next_of q"] assms(1) by (auto simp: queue_ok_def)
  ultimately show ?thesis using assms by (auto simp: queue_ok_def)
qed

subsection \<open>Walks along a queue\<close>

lemma find_previous_found:
  assumes "chain (next_of q) cur (xs @ index # ys) e" and "index \<notin> set xs" and "\<forall>x\<in>set xs. x < length q"
  shows "find_previous q index prev cur = Some (Some (end_of prev xs))"
  using assms
proof (induction xs arbitrary: prev cur)
  case Nil
  then show ?case by (simp add: find_previous.simps end_of_def)
next
  case (Cons x xs)
  then have "find_previous q index prev cur = find_previous q index (Some x) (next_of q x)"
    by (simp add: find_previous.simps [of _ _ _ "Some x"])
  also have "\<dots> = Some (Some (end_of (Some x) xs))" using Cons by (intro Cons.IH) auto
  finally show ?case by (simp add: end_of_def)
qed

lemma recount_walk_chain:
  assumes "chain (next_of q) h ks None" and "set ks \<subseteq> used_items q" and "length ks \<le> n"
  shows "recount_walk q n h (d, pd, t, pt) =
    (d + length ks, pd + length (filter (prio_of q) ks), end_of t ks, end_of pt (filter (prio_of q) ks))"
  using assms
proof (induction ks arbitrary: h n d pd t pt)
  case Nil
  then show ?case by (cases n) (auto simp: end_of_def)
next
  case (Cons k ks)
  then obtain m where "n = Suc m" by (cases n) auto
  with Cons show ?case by (auto simp: end_of_def used_items_def)
qed

lemma length_le_pool:
  assumes "distinct ks" and "set ks \<subseteq> used_items q"
  shows "length ks \<le> length q"
proof -
  have "set ks \<subseteq> {..<length q}" using assms(2) by (auto simp: used_items_def)
  with assms(1) show ?thesis using card_mono [of "{..<length q}" "set ks"] by (simp add: distinct_card)
qed

text \<open>After the recount the recorded ends and depths are right.\<close>

lemma recount_queue_ok:
  assumes "p < length (g_peers g)" and "chain (next_of (g_tx_queue g)) (p_tx_head (g_peers g ! p)) ks None"
    and "distinct ks" and "\<forall>i\<in>set ks. i \<in> used_items (g_tx_queue g) \<and> ti_peer_index (g_tx_queue g ! i) = p"
    and "ks = filter (prio_of (g_tx_queue g)) ks @ filter (\<lambda>i. \<not> prio_of (g_tx_queue g) i) ks"
  shows "\<exists>f. gossipsub_tx_recount_peer_queue p g = upd_peer p f g \<and>
    queue_ok (g_tx_queue g) p (f (g_peers g ! p)) ks \<and> p_tx_ready (f (g_peers g ! p)) = p_tx_ready (g_peers g ! p)"
proof -
  have "length ks \<le> length (g_tx_queue g)" using assms by (intro length_le_pool) auto
  with assms have "recount_walk (g_tx_queue g) (length (g_tx_queue g)) (p_tx_head (g_peers g ! p)) (0, 0, None, None) =
      (length ks, length (filter (prio_of (g_tx_queue g)) ks), end_of None ks,
       end_of None (filter (prio_of (g_tx_queue g)) ks))"
    by (subst recount_walk_chain) auto
  with assms show ?thesis
    by (intro exI [of _ "\<lambda>x. x\<lparr>p_tx_tail := end_of None ks,
        p_tx_priority_tail := end_of None (filter (prio_of (g_tx_queue g)) ks),
        p_tx_queue_depth := length ks, p_tx_priority_depth := length (filter (prio_of (g_tx_queue g)) ks)\<rparr>"])
      (simp add: gossipsub_tx_recount_peer_queue_def queue_ok_def)
qed

subsection \<open>The invariant\<close>

definition reserved_for :: "gossipsub_tx_item_t list \<Rightarrow> nat option \<Rightarrow> nat \<Rightarrow> nat" where
  "reserved_for q R p = (case R of None \<Rightarrow> 0 | Some r \<Rightarrow> if ti_peer_index (q ! r) = p then 1 else 0)"

text \<open>
  \<open>cs\<close> are the queues of the peers, \<open>R\<close> is an item that is reserved and not yet in its queue.
\<close>

definition lists_ok :: "(nat \<Rightarrow> nat list) \<Rightarrow> nat option \<Rightarrow> libp2p_gossipsub_t \<Rightarrow> bool" where
  "lists_ok cs R g \<longleftrightarrow>
     (\<forall>p < length (g_peers g). queue_ok (g_tx_queue g) p (g_peers g ! p) (cs p) \<and>
        length (cs p) + reserved_for (g_tx_queue g) R p \<le> max_peer_tx_queue (cfg_capacity (g_config g)))"

definition items_ok :: "(nat \<Rightarrow> nat list) \<Rightarrow> nat option \<Rightarrow> nat \<Rightarrow> gossipsub_tx_item_t list \<Rightarrow> bool" where
  "items_ok cs R n q \<longleftrightarrow>
     (\<forall>i\<in>used_items q. ti_peer_index (q ! i) < n \<and> (R = Some i \<or> i \<in> set (cs (ti_peer_index (q ! i))))) \<and>
     (case R of None \<Rightarrow> True
      | Some r \<Rightarrow> r \<in> used_items q \<and> r \<notin> set (cs (ti_peer_index (q ! r))) \<and> ti_pos (q ! r) = 0 \<and>
                  next_of q r = None)"

definition room_ok :: "libp2p_gossipsub_t \<Rightarrow> bool" where
  "room_ok g \<longleftrightarrow>
     g_tx_queue_len g = card (used_items (g_tx_queue g)) \<and>
     spans_ok (g_tx_queue g) (g_tx_buffer_used g) \<and>
     g_tx_buffer_used g \<le> length (g_tx_buffer g) \<and> length (g_tx_buffer g) \<le> SIZE_MAX"

definition schedule_ok :: "libp2p_gossipsub_t \<Rightarrow> bool" where
  "schedule_ok g \<longleftrightarrow>
     g_tx_ready_count g = length (filter p_tx_ready (g_peers g)) \<and>
     g_tx_next_peer g < length (g_peers g)"

definition tx_inv :: "(nat \<Rightarrow> nat list) \<Rightarrow> nat option \<Rightarrow> libp2p_gossipsub_t \<Rightarrow> bool" where
  "tx_inv cs R g \<longleftrightarrow>
     lists_ok cs R g \<and> items_ok cs R (length (g_peers g)) (g_tx_queue g) \<and> room_ok g \<and> schedule_ok g"

end
