(* ===== verification/Gossipsub_Tx_Reserve.thy ===== *)
theory Gossipsub_Tx_Reserve
  imports Gossipsub_Tx_Laws Gossipsub_Mesh_Laws
begin

text \<open>
  Reserving an item and linking it: what \<open>gossipsub_tx_reserve\<close> and \<open>gossipsub_tx_commit_reserved\<close> do
  to the invariant and to the frames in the queues.
\<close>

subsection \<open>Frames and what the transmit queue does not touch\<close>

text \<open>A frame in a queue: its priority, the bytes already written and its bytes.\<close>

type_synonym tx_frame = "bool \<times> nat \<times> byte list"

definition frame_of :: "libp2p_gossipsub_t \<Rightarrow> nat \<Rightarrow> tx_frame" where
  "frame_of g i =
     (ti_priority (g_tx_queue g ! i), ti_pos (g_tx_queue g ! i),
      item_bytes (g_tx_buffer g) (g_tx_queue g ! i))"

fun chain_walk :: "gossipsub_tx_item_t list \<Rightarrow> nat \<Rightarrow> nat option \<Rightarrow> nat list" where
  "chain_walk q 0 h = []"
| "chain_walk q (Suc n) None = []"
| "chain_walk q (Suc n) (Some i) = (if i < length q then i # chain_walk q n (next_of q i) else [])"

text \<open>The queue of a peer, as items and as frames.\<close>

definition tx_chain :: "libp2p_gossipsub_t \<Rightarrow> nat \<Rightarrow> nat list" where
  "tx_chain g p = chain_walk (g_tx_queue g) (length (g_tx_queue g)) (p_tx_head (g_peers g ! p))"

definition tx_view :: "libp2p_gossipsub_t \<Rightarrow> nat \<Rightarrow> tx_frame list" where
  "tx_view g p = map (frame_of g) (tx_chain g p)"

lemma chain_walk_eq:
  assumes "chain (next_of q) h ks None" and "set ks \<subseteq> used_items q" and "length ks \<le> n"
  shows "chain_walk q n h = ks"
  using assms
proof (induction ks arbitrary: h n)
  case Nil
  then show ?case by (cases n) auto
next
  case (Cons k ks)
  then obtain m where "n = Suc m" by (cases n) auto
  with Cons show ?case by (auto simp: used_items_def)
qed

lemma tx_chain_eq:
  assumes "lists_ok cs R g" and "p < length (g_peers g)"
  shows "tx_chain g p = cs p"
proof -
  have q: "queue_ok (g_tx_queue g) p (g_peers g ! p) (cs p)" using assms by (simp add: lists_ok_def)
  then have s: "set (cs p) \<subseteq> used_items (g_tx_queue g)" by (auto simp: queue_ok_def)
  with q show ?thesis
    unfolding tx_chain_def
    by (intro chain_walk_eq length_le_pool) (auto simp: queue_ok_def)
qed

text \<open>The state with everything that belongs to the transmit queue cleared.\<close>

definition peer_core :: "gossipsub_peer_state_t \<Rightarrow> gossipsub_peer_state_t" where
  "peer_core p = p\<lparr>p_tx_head := None, p_tx_tail := None, p_tx_priority_tail := None,
     p_tx_queue_depth := 0, p_tx_priority_depth := 0, p_tx_queue_limit_reported := False,
     p_tx_ready := False, p_tx_transport_busy := False, p_tx_last_writable_us := 0,
     p_tx_last_offset := 0, p_tx_bytes_accepted := 0, p_tx_would_block_count := 0\<rparr>"

definition tx_core :: "libp2p_gossipsub_t \<Rightarrow> libp2p_gossipsub_t" where
  "tx_core g = g\<lparr>g_peers := map peer_core (g_peers g), g_tx_queue := [], g_tx_buffer := [],
     g_tx_buffer_used := 0, g_tx_queue_len := 0, g_tx_ready_count := 0, g_tx_next_peer := 0\<rparr>"

lemma upd_peer_core: "(\<And>x. peer_core (f x) = peer_core x) \<Longrightarrow> tx_core (upd_peer i f g) = tx_core g"
proof -
  assume f: "\<And>x. peer_core (f x) = peer_core x"
  have "map peer_core ((g_peers g)[i := f (g_peers g ! i)]) = map peer_core (g_peers g)"
    by (cases "i < length (g_peers g)") (simp_all add: map_update f list_update_beyond
        list_update_same_conv)
  then show ?thesis by (simp add: tx_core_def upd_peer_def)
qed

lemma upd_item_core [simp]: "tx_core (upd_item i f g) = tx_core g"
  by (simp add: tx_core_def upd_item_def)

lemma tx_core_update [simp]:
  "tx_core (g\<lparr>g_tx_queue := q\<rparr>) = tx_core g" "tx_core (g\<lparr>g_tx_buffer := b\<rparr>) = tx_core g"
  "tx_core (g\<lparr>g_tx_buffer_used := n\<rparr>) = tx_core g" "tx_core (g\<lparr>g_tx_queue_len := n\<rparr>) = tx_core g"
  "tx_core (g\<lparr>g_tx_ready_count := n\<rparr>) = tx_core g" "tx_core (g\<lparr>g_tx_next_peer := n\<rparr>) = tx_core g"
  by (simp_all add: tx_core_def)

subsection \<open>Making room\<close>

lemma used_bytes_le:
  assumes "spans_ok q bound"
  shows "used_bytes q \<le> bound"
proof -
  let ?A = "\<lambda>i. {ti_offset (q ! i) ..< ti_offset (q ! i) + ti_len (q ! i)}"
  have "?A i \<inter> ?A j = {}" if "i \<in> used_items q" "j \<in> used_items q" "i \<noteq> j" for i j
  proof -
    have "apart (q ! i) (q ! j)" using assms that by (auto simp: spans_ok_def used_items_def)
    then show ?thesis by (auto simp: apart_def)
  qed
  then have "card (\<Union>i\<in>used_items q. ?A i) = (\<Sum>i\<in>used_items q. card (?A i))"
    by (intro card_UN_disjoint) auto
  moreover have "(\<Union>i\<in>used_items q. ?A i) \<subseteq> {..<bound}"
    using assms by (fastforce simp: spans_ok_def used_items_def)
  then have "card (\<Union>i\<in>used_items q. ?A i) \<le> bound"
    using card_mono [of "{..<bound}" "\<Union>i\<in>used_items q. ?A i"] by simp
  ultimately show ?thesis by (simp add: used_bytes_def)
qed

text \<open>A state in which frames may have moved within the buffer.\<close>

definition shuffled :: "libp2p_gossipsub_t \<Rightarrow> libp2p_gossipsub_t \<Rightarrow> bool" where
  "shuffled g g' \<longleftrightarrow> (\<exists>q' b' u'. g' = g\<lparr>g_tx_queue := q', g_tx_buffer := b', g_tx_buffer_used := u'\<rparr> \<and>
     moved (g_tx_queue g) q' \<and> length b' = length (g_tx_buffer g) \<and> u' \<le> length b' \<and> spans_ok q' u' \<and>
     (\<forall>i\<in>used_items (g_tx_queue g). item_bytes b' (q' ! i) = item_bytes (g_tx_buffer g) (g_tx_queue g ! i)))"

lemma moved_lists_ok:
  assumes "moved q q'" and "queue_ok q p peer ks"
  shows "queue_ok q' p peer ks"
  by (rule queue_ok_cong [OF _ _ _ _ _ _ assms(2)])
    (use assms in \<open>auto simp: moved_fields [OF assms(1)] moved_length [OF assms(1)] queue_ok_def
      used_items_def\<close>)

lemma shuffled_inv:
  assumes s: "shuffled g g'" and inv: "tx_inv cs None g"
  shows "tx_inv cs None g'" and "g_peers g' = g_peers g" and "tx_core g' = tx_core g"
    and "g_config g' = g_config g"
    and "length (g_tx_queue g') = length (g_tx_queue g)" and "length (g_tx_buffer g') = length (g_tx_buffer g)"
    and "used_items (g_tx_queue g') = used_items (g_tx_queue g)"
    and "used_bytes (g_tx_queue g') = used_bytes (g_tx_queue g)"
    and "i \<in> used_items (g_tx_queue g) \<Longrightarrow> frame_of g' i = frame_of g i"
proof -
  obtain q' b' u' where g': "g' = g\<lparr>g_tx_queue := q', g_tx_buffer := b', g_tx_buffer_used := u'\<rparr>"
    and m: "moved (g_tx_queue g) q'" and b': "length b' = length (g_tx_buffer g)" "u' \<le> length b'"
    and sp: "spans_ok q' u'"
    and same: "\<forall>i\<in>used_items (g_tx_queue g). item_bytes b' (q' ! i) = item_bytes (g_tx_buffer g) (g_tx_queue g ! i)"
    using s unfolding shuffled_def by blast
  show "g_peers g' = g_peers g" and "tx_core g' = tx_core g" and "g_config g' = g_config g"
    by (simp_all add: g')
  show "length (g_tx_queue g') = length (g_tx_queue g)" and "length (g_tx_buffer g') = length (g_tx_buffer g)"
    using moved_length [OF m] b' by (simp_all add: g')
  show u: "used_items (g_tx_queue g') = used_items (g_tx_queue g)"
    and "used_bytes (g_tx_queue g') = used_bytes (g_tx_queue g)"
    using moved_used_items [OF m] moved_used_bytes [OF m] by (simp_all add: g')
  show "frame_of g' i = frame_of g i" if "i \<in> used_items (g_tx_queue g)"
    using that same moved_fields [OF m] by (auto simp: frame_of_def g' used_items_def)
  have "lists_ok cs None g'"
    using inv moved_lists_ok [OF m] by (auto simp: tx_inv_def lists_ok_def g' reserved_for_def)
  moreover have "items_ok cs None (length (g_peers g')) (g_tx_queue g')"
    using inv u moved_fields(4) [OF m] by (auto simp: tx_inv_def items_ok_def g' used_items_def)
  moreover have "room_ok g'"
    using inv b' sp u by (simp add: tx_inv_def room_ok_def g')
  moreover have "schedule_ok g'"
    using inv by (simp add: tx_inv_def schedule_ok_def g')
  ultimately show "tx_inv cs None g'" by (simp add: tx_inv_def)
qed

lemma shuffled_refl: "tx_inv cs None g \<Longrightarrow> shuffled g g"
  unfolding shuffled_def
  by (intro exI [of _ "g_tx_queue g"] exI [of _ "g_tx_buffer g"] exI [of _ "g_tx_buffer_used g"])
    (auto simp: tx_inv_def room_ok_def)

text \<open>The two attempts of \<open>gossipsub_tx_reserve\<close> to find room for a frame of \<open>n\<close> bytes.\<close>

definition make_room :: "nat \<Rightarrow> libp2p_gossipsub_t \<Rightarrow> libp2p_gossipsub_t option" where
  "make_room n g =
     (let g1 = (if n > tx_room g \<and> g_tx_queue_len g = 0 then g\<lparr>g_tx_buffer_used := 0\<rparr> else g)
      in if n > tx_room g1 \<and> g_tx_queue_len g1 \<noteq> 0 then gossipsub_tx_compact_buffer g1 else Some g1)"

lemma make_room_ok:
  assumes inv: "tx_inv cs None g"
  shows "\<exists>g'. make_room n g = Some g' \<and> shuffled g g' \<and>
    (n \<le> tx_room g' \<longleftrightarrow> used_bytes (g_tx_queue g) + n \<le> length (g_tx_buffer g))"
proof -
  have r: "room_ok g" using inv by (simp add: tx_inv_def)
  then have ub: "used_bytes (g_tx_queue g) \<le> g_tx_buffer_used g" and bl: "g_tx_buffer_used g \<le> length (g_tx_buffer g)"
    by (simp_all add: room_ok_def used_bytes_le)
  consider "n \<le> tx_room g" | "n > tx_room g" "g_tx_queue_len g = 0" | "n > tx_room g" "g_tx_queue_len g \<noteq> 0"
    by linarith
  then show ?thesis
  proof cases
    case 1
    then have "make_room n g = Some g" by (simp add: make_room_def)
    moreover have "used_bytes (g_tx_queue g) + n \<le> length (g_tx_buffer g)"
      using 1 ub bl by (simp add: tx_room_def)
    ultimately show ?thesis using 1 shuffled_refl [OF inv] by blast
  next
    case 2
    define g' where "g' = g\<lparr>g_tx_buffer_used := 0\<rparr>"
    have e: "used_items (g_tx_queue g) = {}" using r 2 by (simp add: room_ok_def)
    have "make_room n g = Some g'" using 2 by (simp add: make_room_def g'_def)
    moreover have "spans_ok (g_tx_queue g) 0" using e by (auto simp: spans_ok_def used_items_def)
    then have "shuffled g g'"
      unfolding shuffled_def g'_def
      by (intro exI [of _ "g_tx_queue g"] exI [of _ "g_tx_buffer g"] exI [of _ 0]) simp
    moreover have "used_bytes (g_tx_queue g) = 0" by (simp add: used_bytes_def e)
    ultimately show ?thesis by (auto simp: g'_def tx_room_def)
  next
    case 3
    have "spans_ok (g_tx_queue g) (length (g_tx_buffer g))"
      using r by (fastforce simp: room_ok_def spans_ok_def)
    from compact_buffer_ok [OF this] r 3 obtain q' b' where
      c: "gossipsub_tx_compact_buffer g =
        Some (g\<lparr>g_tx_queue := q', g_tx_buffer := b', g_tx_buffer_used := used_bytes (g_tx_queue g)\<rparr>)"
      and q': "moved (g_tx_queue g) q' \<and> length b' = length (g_tx_buffer g) \<and>
        spans_ok q' (used_bytes (g_tx_queue g)) \<and>
        (\<forall>j \<in> used_items (g_tx_queue g). item_bytes b' (q' ! j) = item_bytes (g_tx_buffer g) (g_tx_queue g ! j))"
      by (auto simp: room_ok_def)
    define g' where
      "g' = g\<lparr>g_tx_queue := q', g_tx_buffer := b', g_tx_buffer_used := used_bytes (g_tx_queue g)\<rparr>"
    have "make_room n g = Some g'" using 3 c by (simp add: make_room_def g'_def)
    moreover have "used_bytes (g_tx_queue g) \<le> length b'" using q' ub bl by simp
    then have "shuffled g g'" unfolding shuffled_def g'_def using q' by blast
    ultimately show ?thesis using q' ub bl by (auto simp: g'_def tx_room_def)
  qed
qed

subsection \<open>Reserving an item\<close>

lemma reserve_unfold:
  "gossipsub_tx_reserve g p n lifetime_us =
     (if p \<ge> length (g_peers g) then Some (Inl LIBP2P_GOSSIPSUB_ERR_INVALID_ARG, g)
      else if p_tx_queue_depth (g_peers g ! p) \<ge> max_peer_tx_queue (cfg_capacity (g_config g)) \<or>
              g_tx_queue_len g \<ge> length (g_tx_queue g)
      then Some (Inl LIBP2P_GOSSIPSUB_ERR_LIMIT, g)
      else Option.bind (make_room n g) (\<lambda>g2.
        if n > tx_room g2 then Some (Inl LIBP2P_GOSSIPSUB_ERR_LIMIT, g2)
        else case gossipsub_tx_find_free g2 of
          None \<Rightarrow> Some (Inl LIBP2P_GOSSIPSUB_ERR_LIMIT, g2)
        | Some i \<Rightarrow>
            Some (Inr i, g2\<lparr>g_tx_queue := (g_tx_queue g2)[i := zero_tx_item\<lparr>ti_used := True,
                ti_peer_index := p, ti_offset := g_tx_buffer_used g2, ti_len := n,
                ti_enqueued_us := gossipsub_tx_effective_now_us g,
                ti_deadline_us := gossipsub_tx_deadline (gossipsub_tx_effective_now_us g) lifetime_us\<rparr>],
              g_tx_buffer_used := g_tx_buffer_used g2 + n,
              g_tx_queue_len := g_tx_queue_len g2 + 1\<rparr>)))"
  by (simp add: gossipsub_tx_reserve_def make_room_def Let_def)

lemma find_free_ok:
  assumes "room_ok g" and "g_tx_queue_len g < length (g_tx_queue g)"
  shows "\<exists>i. gossipsub_tx_find_free g = Some i \<and> i < length (g_tx_queue g) \<and> i \<notin> used_items (g_tx_queue g)"
proof (cases "gossipsub_tx_find_free g")
  case None
  then have "used_items (g_tx_queue g) = {..<length (g_tx_queue g)}"
    by (auto simp: gossipsub_tx_find_free_def first_index_None_iff used_items_def)
  with assms show ?thesis by (simp add: room_ok_def)
next
  case (Some i)
  then show ?thesis
    using first_index_Some [of "\<lambda>i. \<not> ti_used i" "g_tx_queue g" i]
    by (auto simp: gossipsub_tx_find_free_def used_items_def)
qed

text \<open>A new item at the end of the space in use.\<close>

lemma place_item_ok:
  assumes inv: "tx_inv cs None g" and p: "p < length (g_peers g)"
    and room: "length (cs p) < max_peer_tx_queue (cfg_capacity (g_config g))"
    and i: "i < length (g_tx_queue g)" "i \<notin> used_items (g_tx_queue g)"
    and item: "ti_used item" "\<not> ti_priority item" "ti_peer_index item = p" "ti_pos item = 0" "ti_next item = None"
      "ti_offset item = g_tx_buffer_used g" "ti_len item = n" "0 < n" "n \<le> tx_room g"
    and g': "g' = g\<lparr>g_tx_queue := (g_tx_queue g)[i := item], g_tx_buffer_used := g_tx_buffer_used g + n,
      g_tx_queue_len := g_tx_queue_len g + 1\<rparr>"
  shows "tx_inv cs (Some i) g'" and "used_items (g_tx_queue g') = insert i (used_items (g_tx_queue g))"
    and "j \<in> used_items (g_tx_queue g) \<Longrightarrow> frame_of g' j = frame_of g j"
proof -
  let ?q = "g_tx_queue g" and ?q' = "(g_tx_queue g)[i := item]"
  show u: "used_items (g_tx_queue g') = insert i (used_items ?q)"
    using i item(1) by (auto simp: g' used_items_def nth_list_update)
  have keep: "j \<in> used_items ?q \<Longrightarrow> ?q' ! j = ?q ! j" for j using i(2) by (cases "j = i") auto
  show "frame_of g' j = frame_of g j" if "j \<in> used_items ?q"
    using keep [OF that] by (simp add: frame_of_def g')
  have l: "lists_ok cs None g" and it: "items_ok cs None (length (g_peers g)) ?q" and r: "room_ok g"
    and s: "schedule_ok g"
    using inv by (simp_all add: tx_inv_def)
  have ii: "?q' ! i = item" using i by simp
  have "queue_ok ?q' p' (g_peers g ! p') (cs p')" if "p' < length (g_peers g)" for p'
    using l that keep u
    by (intro queue_ok_cong [of "cs p'" ?q' ?q _ "g_peers g ! p'"]) (auto simp: lists_ok_def queue_ok_def g')
  then have "lists_ok cs (Some i) g'"
    using l room by (auto simp: lists_ok_def g' reserved_for_def ii item(3))
  moreover have "items_ok cs (Some i) (length (g_peers g')) (g_tx_queue g')"
  proof -
    have "i \<notin> set (cs p)" using l p i(2) by (auto simp: lists_ok_def queue_ok_def)
    then show ?thesis
      unfolding items_ok_def u using it p keep item ii by (auto simp: items_ok_def g')
  qed
  moreover have "room_ok g'"
  proof -
    have "spans_ok ?q' (g_tx_buffer_used g + n)"
      unfolding spans_ok_def
    proof (intro allI impI)
      fix j assume "j < length ?q'" "ti_used (?q' ! j)"
      then have j: "j = i \<or> j \<in> used_items ?q" using u by (auto simp: g' used_items_def)
      have old: "0 < ti_len (?q ! k) \<and> ti_offset (?q ! k) + ti_len (?q ! k) \<le> g_tx_buffer_used g \<and>
          ti_pos (?q ! k) \<le> ti_len (?q ! k)" if "k \<in> used_items ?q" for k
        using r that by (auto simp: room_ok_def spans_ok_def used_items_def)
      have "apart (?q' ! j) (?q' ! k)" if k: "k < length ?q'" "k \<noteq> j" "ti_used (?q' ! k)" for k
      proof -
        have k': "k = i \<or> k \<in> used_items ?q" using k u by (auto simp: g' used_items_def)
        consider "j = i" "k \<in> used_items ?q" | "k = i" "j \<in> used_items ?q" | "j \<in> used_items ?q" "k \<in> used_items ?q"
          using j k' k(2) by blast
        then show ?thesis
        proof cases
          case 3
          then have "apart (?q ! j) (?q ! k)" using r k(2) by (auto simp: room_ok_def spans_ok_def used_items_def)
          with 3 keep show ?thesis by simp
        qed (use old item ii keep in \<open>auto simp: apart_def\<close>)
      qed
      moreover have "0 < ti_len (?q' ! j) \<and> ti_offset (?q' ! j) + ti_len (?q' ! j) \<le> g_tx_buffer_used g + n \<and>
          ti_pos (?q' ! j) \<le> ti_len (?q' ! j)"
        using j old [of j] keep [of j] item ii by auto
      ultimately show "0 < ti_len (?q' ! j) \<and> ti_offset (?q' ! j) + ti_len (?q' ! j) \<le> g_tx_buffer_used g + n \<and>
          ti_pos (?q' ! j) \<le> ti_len (?q' ! j) \<and>
          (\<forall>k < length ?q'. k \<noteq> j \<longrightarrow> ti_used (?q' ! k) \<longrightarrow> apart (?q' ! j) (?q' ! k))"
        by blast
    qed
    moreover have "card (used_items (g_tx_queue g')) = Suc (card (used_items ?q))"
      unfolding u using i(2) by simp
    ultimately show ?thesis
      using r item(9) by (auto simp: room_ok_def g' tx_room_def)
  qed
  moreover have "schedule_ok g'" using s by (simp add: schedule_ok_def g')
  ultimately show "tx_inv cs (Some i) g'" by (simp add: tx_inv_def)
qed

text \<open>The condition under which there is room for a frame of \<open>n\<close> bytes for a peer.\<close>

definition tx_fits :: "libp2p_gossipsub_t \<Rightarrow> nat \<Rightarrow> nat \<Rightarrow> bool" where
  "tx_fits g p n \<longleftrightarrow>
     p_tx_queue_depth (g_peers g ! p) < max_peer_tx_queue (cfg_capacity (g_config g)) \<and>
     card (used_items (g_tx_queue g)) < length (g_tx_queue g) \<and>
     used_bytes (g_tx_queue g) + n \<le> length (g_tx_buffer g)"

lemma reserve_ok:
  assumes inv: "tx_inv cs None g" and p: "p < length (g_peers g)" and n: "0 < n"
  obtains r g' where "gossipsub_tx_reserve g p n lifetime_us = Some (r, g')"
    and "g_peers g' = g_peers g" and "tx_core g' = tx_core g" and "g_config g' = g_config g"
    and "length (g_tx_queue g') = length (g_tx_queue g)" and "length (g_tx_buffer g') = length (g_tx_buffer g)"
    and "\<forall>j\<in>used_items (g_tx_queue g). frame_of g' j = frame_of g j"
    and "(\<exists>i. r = Inr i) \<longleftrightarrow> tx_fits g p n"
    and "\<forall>e. r = Inl e \<longrightarrow> e = LIBP2P_GOSSIPSUB_ERR_LIMIT \<and> tx_inv cs None g'"
    and "\<forall>i. r = Inr i \<longrightarrow> tx_inv cs (Some i) g' \<and> i \<notin> used_items (g_tx_queue g) \<and>
      ti_peer_index (g_tx_queue g' ! i) = p \<and> ti_len (g_tx_queue g' ! i) = n \<and>
      ti_offset (g_tx_queue g' ! i) + n \<le> length (g_tx_buffer g')"
proof -
  have l: "lists_ok cs None g" and rm: "room_ok g" using inv by (simp_all add: tx_inv_def)
  then have d: "p_tx_queue_depth (g_peers g ! p) = length (cs p)" using p by (simp add: lists_ok_def queue_ok_def)
  show thesis
  proof (cases "p_tx_queue_depth (g_peers g ! p) \<ge> max_peer_tx_queue (cfg_capacity (g_config g)) \<or>
      g_tx_queue_len g \<ge> length (g_tx_queue g)")
    case True
    then have "gossipsub_tx_reserve g p n lifetime_us = Some (Inl LIBP2P_GOSSIPSUB_ERR_LIMIT, g)"
      using p by (simp add: reserve_unfold)
    moreover have "\<not> tx_fits g p n" using True rm by (auto simp: tx_fits_def room_ok_def)
    ultimately show thesis using that inv by auto
  next
    case False
    obtain g2 where g2: "make_room n g = Some g2" "shuffled g g2"
      "n \<le> tx_room g2 \<longleftrightarrow> used_bytes (g_tx_queue g) + n \<le> length (g_tx_buffer g)"
      using make_room_ok [OF inv] by blast
    note sh = shuffled_inv [OF g2(2) inv]
    have ql: "g_tx_queue_len g2 = g_tx_queue_len g" using g2(2) by (auto simp: shuffled_def)
    show thesis
    proof (cases "n \<le> tx_room g2")
      case small: False
      then have "gossipsub_tx_reserve g p n lifetime_us = Some (Inl LIBP2P_GOSSIPSUB_ERR_LIMIT, g2)"
        using False p g2(1) by (simp add: reserve_unfold)
      moreover have "\<not> tx_fits g p n" using small g2(3) by (auto simp: tx_fits_def)
      ultimately show thesis using that sh by auto
    next
      case room: True
      have "room_ok g2" using sh(1) by (simp add: tx_inv_def)
      then obtain i where i: "gossipsub_tx_find_free g2 = Some i" "i < length (g_tx_queue g2)"
        "i \<notin> used_items (g_tx_queue g2)"
        using find_free_ok [of g2] False ql sh(5) by auto
      define item where "item = zero_tx_item\<lparr>ti_used := True,
                ti_peer_index := p, ti_offset := g_tx_buffer_used g2, ti_len := n,
                ti_enqueued_us := gossipsub_tx_effective_now_us g,
                ti_deadline_us := gossipsub_tx_deadline (gossipsub_tx_effective_now_us g) lifetime_us\<rparr>"
      define g' where "g' = g2\<lparr>g_tx_queue := (g_tx_queue g2)[i := item],
        g_tx_buffer_used := g_tx_buffer_used g2 + n, g_tx_queue_len := g_tx_queue_len g2 + 1\<rparr>"
      have run: "gossipsub_tx_reserve g p n lifetime_us = Some (Inr i, g')"
        using False p g2(1) room i(1) by (simp add: reserve_unfold g'_def item_def)
      have fields: "ti_used item" "\<not> ti_priority item" "ti_peer_index item = p" "ti_pos item = 0"
          "ti_next item = None" "ti_offset item = g_tx_buffer_used g2" "ti_len item = n"
        by (simp_all add: item_def zero_tx_item_def)
      have cap: "length (cs p) < max_peer_tx_queue (cfg_capacity (g_config g2))"
        using False d sh(4) by simp
      note placed = place_item_ok [OF sh(1) p [folded sh(2)] cap i(2,3) fields n room g'_def]
      have "tx_fits g p n" using False rm g2(3) room by (simp add: tx_fits_def room_ok_def)
      moreover have "g_tx_buffer_used g2 + n \<le> length (g_tx_buffer g2)"
        using placed(1) by (simp add: tx_inv_def room_ok_def g'_def)
      ultimately show thesis
        using that [OF run] sh placed i fields by (simp add: g'_def)
    qed
  qed
qed

end
