(* ===== verification/Gossipsub_Tx_Link.thy ===== *)
theory Gossipsub_Tx_Link
  imports Gossipsub_Tx_Reserve
begin

text \<open>
  Linking a reserved item into its peer's queue: a normal item goes to the end, a priority item
  behind the last priority item.
\<close>

definition insert_item :: "('a \<Rightarrow> bool) \<Rightarrow> bool \<Rightarrow> 'a \<Rightarrow> 'a list \<Rightarrow> 'a list" where
  "insert_item pr priority x xs =
     (if priority then filter pr xs @ x # filter (\<lambda>y. \<not> pr y) xs else xs @ [x])"

lemma set_insert_item [simp]: "set (insert_item pr b x xs) = insert x (set xs)"
  by (auto simp: insert_item_def)

lemma length_insert_item [simp]: "length (insert_item pr b x xs) = Suc (length xs)"
  using sum_length_filter_compl [of pr xs] by (simp add: insert_item_def)

lemma distinct_insert_item: "distinct xs \<Longrightarrow> x \<notin> set xs \<Longrightarrow> distinct (insert_item pr b x xs)"
  by (auto simp: insert_item_def)

lemma filter_insert_item:
  assumes "pr x = b" and "xs = filter pr xs @ filter (\<lambda>y. \<not> pr y) xs"
  shows "filter pr (insert_item pr b x xs) = (if b then filter pr xs @ [x] else filter pr xs)"
    and "filter (\<lambda>y. \<not> pr y) (insert_item pr b x xs) =
      (if b then filter (\<lambda>y. \<not> pr y) xs else filter (\<lambda>y. \<not> pr y) xs @ [x])"
  using assms(1) by (simp_all add: insert_item_def)

lemma map_insert_item:
  assumes "\<And>y. y \<in> set xs \<Longrightarrow> pr' (f y) = pr y"
  shows "map f (insert_item pr b x xs) = insert_item pr' b (f x) (map f xs)"
proof -
  have "map f (filter pr xs) = filter pr' (map f xs)"
    and "map f (filter (\<lambda>y. \<not> pr y) xs) = filter (\<lambda>y. \<not> pr' y) (map f xs)"
    using assms by (induction xs) auto
  then show ?thesis by (simp add: insert_item_def)
qed

subsection \<open>The pool with other links\<close>

definition relinked :: "gossipsub_tx_item_t list \<Rightarrow> gossipsub_tx_item_t list \<Rightarrow> bool" where
  "relinked q q' \<longleftrightarrow> length q' = length q \<and> (\<forall>i < length q. \<exists>n. q' ! i = (q ! i)\<lparr>ti_next := n\<rparr>)"

lemma same_next: "\<exists>n. x = x\<lparr>ti_next := n\<rparr>"
  by (rule exI [of _ "ti_next x"]) simp

lemma relinked_refl [simp]: "relinked q q"
  by (simp add: relinked_def same_next)

lemma relinked_fields:
  assumes "relinked q q'" and "i < length q"
  shows "ti_used (q' ! i) = ti_used (q ! i)" "ti_priority (q' ! i) = ti_priority (q ! i)"
    "ti_peer_index (q' ! i) = ti_peer_index (q ! i)" "ti_offset (q' ! i) = ti_offset (q ! i)"
    "ti_len (q' ! i) = ti_len (q ! i)" "ti_pos (q' ! i) = ti_pos (q ! i)"
proof -
  from assms obtain n where "q' ! i = (q ! i)\<lparr>ti_next := n\<rparr>" by (auto simp: relinked_def)
  then show "ti_used (q' ! i) = ti_used (q ! i)" "ti_priority (q' ! i) = ti_priority (q ! i)"
    "ti_peer_index (q' ! i) = ti_peer_index (q ! i)" "ti_offset (q' ! i) = ti_offset (q ! i)"
    "ti_len (q' ! i) = ti_len (q ! i)" "ti_pos (q' ! i) = ti_pos (q ! i)" by simp_all
qed

lemma relinked_update:
  "relinked q q' \<Longrightarrow> relinked q (q'[i := (q' ! i)\<lparr>ti_next := n\<rparr>])"
  unfolding relinked_def
proof (intro conjI allI impI)
  assume r: "length q' = length q \<and> (\<forall>i<length q. \<exists>n. q' ! i = (q ! i)\<lparr>ti_next := n\<rparr>)"
  then show "length (q'[i := (q' ! i)\<lparr>ti_next := n\<rparr>]) = length q" by simp
  fix j assume j: "j < length q"
  with r obtain m where m: "q' ! j = (q ! j)\<lparr>ti_next := m\<rparr>" by blast
  show "\<exists>k. q'[i := (q' ! i)\<lparr>ti_next := n\<rparr>] ! j = (q ! j)\<lparr>ti_next := k\<rparr>"
    using m j r by (cases "i = j") auto
qed

lemma relinked_length: "relinked q q' \<Longrightarrow> length q' = length q"
  by (simp add: relinked_def)

lemma relinked_used_items: "relinked q q' \<Longrightarrow> used_items q' = used_items q"
  using relinked_fields(1) relinked_length by (auto simp: used_items_def)

lemma relinked_spans: "relinked q q' \<Longrightarrow> spans_ok q bound \<Longrightarrow> spans_ok q' bound"
  unfolding spans_ok_def by (auto simp: relinked_fields relinked_length apart_def)

subsection \<open>Linking\<close>

text \<open>What \<open>link_peer_item\<close> does to a queue that is in order.\<close>

lemma link_peer_item_ok:
  fixes g p i priority ks
  defines "q \<equiv> g_tx_queue g" and "peer \<equiv> g_peers g ! p"
  defines "ins \<equiv> insert_item (prio_of q) priority i ks"
  assumes ok: "queue_ok q p peer ks" and i: "i < length q" "i \<notin> set ks" "prio_of q i = priority"
    and none: "next_of q i = None"
  shows "\<exists>q' f. link_peer_item p i priority g = Some (upd_peer p f (g\<lparr>g_tx_queue := q'\<rparr>)) \<and>
    relinked q q' \<and> (\<forall>j. j \<notin> insert i (set ks) \<longrightarrow> q' ! j = q ! j) \<and>
    chain (next_of q') (p_tx_head (f peer)) ins None \<and> p_tx_tail (f peer) = end_of None ins \<and>
    p_tx_priority_tail (f peer) = end_of None (filter (prio_of q) ins) \<and>
    p_tx_queue_depth (f peer) = p_tx_queue_depth peer \<and>
    p_tx_priority_depth (f peer) = p_tx_priority_depth peer \<and>
    (\<forall>x. peer_core (f x) = peer_core x \<and> p_tx_ready (f x) = p_tx_ready x)"
proof -
  let ?pr = "prio_of q"
  have kc: "chain (next_of q) (p_tx_head peer) ks None" and kd: "distinct ks"
    and kp: "ks = filter (prio_of q) ks @ filter (\<lambda>i. \<not> prio_of q i) ks"
    and depth: "p_tx_queue_depth peer = length ks"
    and tail: "p_tx_tail peer = end_of None ks"
    and ptail: "p_tx_priority_tail peer = end_of None (filter (prio_of q) ks)"
    using ok unfolding queue_ok_def by blast+
  have kl: "\<forall>j\<in>set ks. j < length q" using ok by (auto simp: queue_ok_def used_items_def)
  have fi: "filter ?pr ins = (if priority then filter ?pr ks @ [i] else filter ?pr ks)"
    unfolding ins_def using filter_insert_item(1) [of ?pr i priority ks] i(3) kp by blast
  consider "ks = []" | "ks \<noteq> []" "\<not> priority" | "ks \<noteq> []" "priority" "filter ?pr ks = []"
    | "priority" "filter ?pr ks \<noteq> []" by blast
  then show ?thesis
  proof cases
    case 1
    define f :: "gossipsub_peer_state_t \<Rightarrow> gossipsub_peer_state_t" where "f = (\<lambda>p. p\<lparr>p_tx_head := Some i, p_tx_tail := Some i,
        p_tx_priority_tail := (if priority then Some i else None)\<rparr>)"
    have "link_peer_item p i priority g = Some (upd_peer p f (g\<lparr>g_tx_queue := q\<rparr>))"
      using 1 depth by (simp add: link_peer_item_def peer_def q_def f_def)
    moreover have "ins = [i]" by (simp add: ins_def insert_item_def 1)
    ultimately show ?thesis
      using none fi 1 by (intro exI [of _ q] exI [of _ f]) (simp add: f_def end_of_def peer_core_def)
  next
    case 2
    obtain xs t where ks: "ks = xs @ [t]" using 2 by (cases ks rule: rev_cases) auto
    then have t: "p_tx_tail peer = Some t" "t < length q" using tail kl by (auto simp: end_of_def)
    define q' where "q' = q[t := (q ! t)\<lparr>ti_next := Some i\<rparr>]"
    define f :: "gossipsub_peer_state_t \<Rightarrow> gossipsub_peer_state_t" where "f = p_tx_tail_update (\<lambda>_. Some i)"
    have "link_peer_item p i priority g = Some (upd_peer p f (g\<lparr>g_tx_queue := q'\<rparr>))"
      using 2 depth t
      by (simp add: link_peer_item_def peer_def q_def f_def q'_def upd_item_def upd_peer_def)
    moreover have "relinked q q'" unfolding q'_def by (rule relinked_update) simp
    moreover have "chain (next_of q') (p_tx_head peer) (ks @ [i]) None"
    proof -
      have "next_of q t = None" using kc ks by (auto simp: chain_append)
      then have "chain ((next_of q)(i := next_of q t, t := Some i)) (p_tx_head peer) (xs @ t # [i]) None"
        using chain_insert_after [of "next_of q" "p_tx_head peer" xs t "[]" i] kc kd ks i by auto
      moreover have "((next_of q)(i := next_of q t, t := Some i)) j = next_of q' j" if "j \<in> set (xs @ t # [i])" for j
        using that ks i t none \<open>next_of q t = None\<close> by (auto simp: q'_def nth_list_update)
      ultimately have "chain (next_of q') (p_tx_head peer) (xs @ t # [i]) None"
        using chain_cong [of "xs @ t # [i]" "(next_of q)(i := next_of q t, t := Some i)" "next_of q'"]
        by blast
      then show ?thesis by (simp add: ks)
    qed
    moreover have "\<forall>j. j \<notin> insert i (set ks) \<longrightarrow> q' ! j = q ! j"
      using ks by (auto simp: q'_def)
    moreover have "ins = ks @ [i]" using 2 by (simp add: ins_def insert_item_def)
    moreover have "p_tx_priority_tail peer = end_of None (filter ?pr ins)" using fi 2 ptail by simp
    ultimately show ?thesis
      by (intro exI [of _ q'] exI [of _ f]) (simp add: f_def end_of_def peer_core_def)
  next
    case 3
    then have pt: "p_tx_priority_tail peer = None" using ptail by (simp add: end_of_def)
    have ins: "ins = i # ks" using 3 kp by (simp add: ins_def insert_item_def)
    define q' where "q' = q[i := (q ! i)\<lparr>ti_next := p_tx_head peer\<rparr>]"
    define f :: "gossipsub_peer_state_t \<Rightarrow> gossipsub_peer_state_t" where "f = (\<lambda>p. p\<lparr>p_tx_head := Some i, p_tx_priority_tail := Some i\<rparr>)"
    have "link_peer_item p i priority g = Some (upd_peer p f (g\<lparr>g_tx_queue := q'\<rparr>))"
      using 3 depth pt
      by (simp add: link_peer_item_def peer_def q_def f_def q'_def upd_item_def upd_peer_def Let_def)
    moreover have "relinked q q'" unfolding q'_def by (rule relinked_update) simp
    moreover have "chain (next_of q') (Some i) (i # ks) None"
    proof -
      have "chain ((next_of q)(i := p_tx_head peer)) (Some i) (i # ks) None"
        using kc i by (intro chain_insert_front) auto
      moreover have "((next_of q)(i := p_tx_head peer)) j = next_of q' j" for j
        using i by (auto simp: q'_def nth_list_update)
      ultimately show ?thesis
        using chain_cong [of "i # ks" "(next_of q)(i := p_tx_head peer)" "next_of q'"] by blast
    qed
    ultimately show ?thesis
      using 3 i fi tail ins
      by (intro exI [of _ q'] exI [of _ f])
        (auto simp: f_def q'_def end_of_def peer_core_def nth_list_update)
  next
    case 4
    obtain xs t where pr: "filter ?pr ks = xs @ [t]" using 4 by (cases "filter ?pr ks" rule: rev_cases) auto
    define ys where "ys = filter (\<lambda>j. \<not> ?pr j) ks"
    have ks: "ks = xs @ t # ys" using kp pr by (simp add: ys_def)
    have ins: "ins = xs @ t # i # ys" using 4 pr by (simp add: ins_def insert_item_def ys_def)
    have t: "p_tx_priority_tail peer = Some t" "t < length q" "t \<noteq> i"
      using ptail pr kl ks i by (auto simp: end_of_def)
    define q' where "q' = (q[i := (q ! i)\<lparr>ti_next := next_of q t\<rparr>])[t := (q ! t)\<lparr>ti_next := Some i\<rparr>]"
    define f :: "gossipsub_peer_state_t \<Rightarrow> gossipsub_peer_state_t" where "f = (\<lambda>p. p\<lparr>p_tx_tail := (if p_tx_tail p = Some t then Some i else p_tx_tail p),
        p_tx_priority_tail := Some i\<rparr>)"
    have "link_peer_item p i priority g = Some (upd_peer p f (g\<lparr>g_tx_queue := q'\<rparr>))"
      using 4 depth t ks i
      by (simp add: link_peer_item_def peer_def q_def f_def q'_def upd_item_def upd_peer_def Let_def)
    moreover have "relinked q q'"
      using relinked_update [OF relinked_update [OF relinked_refl [of q], of i "next_of q t"], of t "Some i"] t
      by (simp add: q'_def)
    moreover have "chain (next_of q') (p_tx_head peer) ins None"
    proof -
      have "chain ((next_of q)(i := next_of q t, t := Some i)) (p_tx_head peer) (xs @ t # i # ys) None"
        using kc kd i ks by (intro chain_insert_after) auto
      moreover have "((next_of q)(i := next_of q t, t := Some i)) j = next_of q' j" for j
        using i t by (auto simp: q'_def nth_list_update)
      ultimately show ?thesis
        unfolding ins
        using chain_cong [of "xs @ t # i # ys" "(next_of q)(i := next_of q t, t := Some i)" "next_of q'"]
        by blast
    qed
    moreover have "p_tx_tail peer = Some t \<longleftrightarrow> ys = []"
      using tail kd ks by (auto simp: end_of_def)
    ultimately show ?thesis
      using 4 i fi tail ins ks pr
      by (intro exI [of _ q'] exI [of _ f])
        (auto simp: f_def q'_def end_of_def peer_core_def nth_list_update)
  qed
qed

end
