(* ===== verification/Gossipsub_Tx_Ops.thy ===== *)
theory Gossipsub_Tx_Ops
  imports Gossipsub_Tx_Link
begin

text \<open>
  The operations on the transmit queue keep its invariant and act on the queues of frames as
  insertion and removal.
\<close>

subsection \<open>Updates of a peer\<close>

text \<open>An update of a peer that keeps the ends of its queue and its readiness.\<close>

definition keeps_queue :: "(gossipsub_peer_state_t \<Rightarrow> gossipsub_peer_state_t) \<Rightarrow> bool" where
  "keeps_queue f \<longleftrightarrow> (\<forall>x. p_tx_head (f x) = p_tx_head x \<and> p_tx_tail (f x) = p_tx_tail x \<and>
     p_tx_priority_tail (f x) = p_tx_priority_tail x \<and> p_tx_queue_depth (f x) = p_tx_queue_depth x \<and>
     p_tx_priority_depth (f x) = p_tx_priority_depth x)"

lemma queue_ok_peer: "keeps_queue f \<Longrightarrow> queue_ok q p (f peer) ks \<longleftrightarrow> queue_ok q p peer ks"
  by (simp add: queue_ok_def keeps_queue_def)

lemma upd_peer_simps [simp]:
  "g_tx_queue (upd_peer p f g) = g_tx_queue g" "g_tx_buffer (upd_peer p f g) = g_tx_buffer g"
  "g_tx_buffer_used (upd_peer p f g) = g_tx_buffer_used g" "g_config (upd_peer p f g) = g_config g"
  "g_tx_queue_len (upd_peer p f g) = g_tx_queue_len g" "g_tx_next_peer (upd_peer p f g) = g_tx_next_peer g"
  "g_tx_ready_count (upd_peer p f g) = g_tx_ready_count g"
  "g_peers (upd_peer p f g) = (g_peers g)[p := f (g_peers g ! p)]"
  by (simp_all add: upd_peer_def)

lemma upd_item_simps [simp]:
  "g_tx_queue (upd_item i h g) = (g_tx_queue g)[i := h (g_tx_queue g ! i)]"
  "g_tx_buffer (upd_item i h g) = g_tx_buffer g"
  "g_tx_buffer_used (upd_item i h g) = g_tx_buffer_used g" "g_config (upd_item i h g) = g_config g"
  "g_tx_queue_len (upd_item i h g) = g_tx_queue_len g" "g_tx_next_peer (upd_item i h g) = g_tx_next_peer g"
  "g_tx_ready_count (upd_item i h g) = g_tx_ready_count g" "g_peers (upd_item i h g) = g_peers g"
  by (simp_all add: upd_item_def)

lemma frame_of_upd_peer [simp]: "frame_of (upd_peer p f g) = frame_of g"
  by (rule ext) (simp add: frame_of_def)

lemma lists_ok_upd_peer:
  assumes "keeps_queue f"
  shows "lists_ok cs R (upd_peer p f g) \<longleftrightarrow> lists_ok cs R g"
proof -
  have "queue_ok q p' ((g_peers g)[p := f (g_peers g ! p)] ! p') ks \<longleftrightarrow> queue_ok q p' (g_peers g ! p') ks"
    if "p' < length (g_peers g)" for q p' ks
    using that by (cases "p' = p") (simp_all add: queue_ok_peer [OF assms])
  then show ?thesis by (simp add: lists_ok_def)
qed

lemma tx_inv_upd_peer:
  assumes "keeps_queue f" and "\<And>x. p_tx_ready (f x) = p_tx_ready x" and "tx_inv cs R g"
  shows "tx_inv cs R (upd_peer p f g)"
proof -
  have "length (filter p_tx_ready ((g_peers g)[p := f (g_peers g ! p)])) = length (filter p_tx_ready (g_peers g))"
    using length_filter_update [of p "g_peers g" p_tx_ready "f (g_peers g ! p)"] assms(2)
    by (cases "p < length (g_peers g)") (auto simp: list_update_beyond split: if_splits)
  with assms(3) show ?thesis
    by (simp add: tx_inv_def lists_ok_upd_peer [OF assms(1)] room_ok_def schedule_ok_def)
qed

lemma set_peer_ready_frame:
  "g_tx_queue (gossipsub_tx_set_peer_ready p b g) = g_tx_queue g"
  "g_tx_buffer (gossipsub_tx_set_peer_ready p b g) = g_tx_buffer g"
  "g_config (gossipsub_tx_set_peer_ready p b g) = g_config g"
  "length (g_peers (gossipsub_tx_set_peer_ready p b g)) = length (g_peers g)"
  "tx_core (gossipsub_tx_set_peer_ready p b g) = tx_core g"
  "frame_of (gossipsub_tx_set_peer_ready p b g) = frame_of g"
  by (auto simp: gossipsub_tx_set_peer_ready_def Let_def peer_core_def frame_of_def fun_eq_iff
      intro!: upd_peer_core)

lemma tx_inv_ready_count:
  "lists_ok cs R (g\<lparr>g_tx_ready_count := n\<rparr>) = lists_ok cs R g"
  "room_ok (g\<lparr>g_tx_ready_count := n\<rparr>) = room_ok g"
  "schedule_ok (g\<lparr>g_tx_ready_count := n\<rparr>) \<longleftrightarrow>
     n = length (filter p_tx_ready (g_peers g)) \<and> g_tx_next_peer g < length (g_peers g)"
  by (simp_all add: lists_ok_def room_ok_def schedule_ok_def)

lemma set_peer_ready_parts:
  "lists_ok cs R (gossipsub_tx_set_peer_ready p b g) \<longleftrightarrow> lists_ok cs R g"
  "room_ok (gossipsub_tx_set_peer_ready p b g) \<longleftrightarrow> room_ok g"
  "schedule_ok g \<Longrightarrow> schedule_ok (gossipsub_tx_set_peer_ready p b g)"
proof -
  have k: "keeps_queue (p_tx_ready_update (\<lambda>_. c))" for c by (simp add: keeps_queue_def)
  show "lists_ok cs R (gossipsub_tx_set_peer_ready p b g) \<longleftrightarrow> lists_ok cs R g"
    and "room_ok (gossipsub_tx_set_peer_ready p b g) \<longleftrightarrow> room_ok g"
    by (simp_all add: gossipsub_tx_set_peer_ready_def Let_def tx_inv_ready_count
        lists_ok_upd_peer [OF k] room_ok_def)
  assume s: "schedule_ok g"
  show "schedule_ok (gossipsub_tx_set_peer_ready p b g)"
  proof (cases "p < length (g_peers g)")
    case True
    have "length (filter p_tx_ready ((g_peers g)[p := p_tx_ready_update (\<lambda>_. c) (g_peers g ! p)])) +
        (if p_tx_ready (g_peers g ! p) then 1 else 0) =
        length (filter p_tx_ready (g_peers g)) + (if c then 1 else 0)" for c
      using length_filter_update [OF True, of p_tx_ready "p_tx_ready_update (\<lambda>_. c) (g_peers g ! p)"]
      by simp
    from this [of True] this [of False] show ?thesis
      using s True
      by (auto simp: gossipsub_tx_set_peer_ready_def Let_def tx_inv_ready_count schedule_ok_def
          split: if_splits)
  qed (use s in \<open>simp add: gossipsub_tx_set_peer_ready_def\<close>)
qed

lemma set_peer_ready_inv:
  assumes "tx_inv cs R g"
  shows "tx_inv cs R (gossipsub_tx_set_peer_ready p b g)"
  using assms by (simp add: tx_inv_def set_peer_ready_parts set_peer_ready_frame)

subsection \<open>Committing a reserved item\<close>

lemma append_peer_item_ok:
  fixes g i priority and cs :: "nat \<Rightarrow> nat list"
  defines "p \<equiv> ti_peer_index (g_tx_queue g ! i)"
  defines "cs' \<equiv> cs(p := insert_item (prio_of (g_tx_queue g)) priority i (cs p))"
  assumes inv: "tx_inv cs (Some i) g"
  shows "\<exists>g'. gossipsub_tx_append_peer_item g p i priority = Some g' \<and> tx_inv cs' None g' \<and>
    tx_core g' = tx_core g \<and> g_config g' = g_config g \<and> length (g_peers g') = length (g_peers g) \<and>
    length (g_tx_queue g') = length (g_tx_queue g) \<and> g_tx_buffer g' = g_tx_buffer g \<and>
    used_items (g_tx_queue g') = used_items (g_tx_queue g) \<and>
    (\<forall>j\<in>used_items (g_tx_queue g). frame_of g' j =
       (if j = i then (priority, snd (frame_of g i)) else frame_of g j))"
proof -
  let ?q = "g_tx_queue g" and ?peer = "g_peers g ! p"
  have l: "lists_ok cs (Some i) g" and it: "items_ok cs (Some i) (length (g_peers g)) ?q"
    and rm: "room_ok g" and sc: "schedule_ok g"
    using inv by (simp_all add: tx_inv_def)
  have i: "i \<in> used_items ?q" "i \<notin> set (cs p)" "next_of ?q i = None" "p < length (g_peers g)"
    using it by (auto simp: items_ok_def p_def)
  then have il: "i < length ?q" by (simp add: used_items_def)
  define q0 where "q0 = ?q[i := (?q ! i)\<lparr>ti_priority := priority\<rparr>]"
  have q0: "q0 ! i = (?q ! i)\<lparr>ti_priority := priority\<rparr>" "\<And>j. j \<noteq> i \<Longrightarrow> q0 ! j = ?q ! j" "length q0 = length ?q"
    using il by (simp_all add: q0_def)
  have u0: "used_items q0 = used_items ?q"
    using il by (auto simp: used_items_def q0_def nth_list_update)
  have f0: "ti_used (q0 ! j) = ti_used (?q ! j)" "ti_peer_index (q0 ! j) = ti_peer_index (?q ! j)"
      "next_of q0 j = next_of ?q j" "ti_pos (q0 ! j) = ti_pos (?q ! j)"
      "ti_offset (q0 ! j) = ti_offset (?q ! j)" "ti_len (q0 ! j) = ti_len (?q ! j)" for j
    using q0 by (cases "j = i"; simp)+
  define g0 where "g0 = upd_item i (ti_priority_update (\<lambda>_. priority)) g"
  have g0: "g_tx_queue g0 = q0" "g_peers g0 = g_peers g" by (simp_all add: g0_def q0_def)
  have ok: "queue_ok ?q p' (g_peers g ! p') (cs p')" if "p' < length (g_peers g)" for p'
    using l that by (simp add: lists_ok_def)
  have same: "j \<in> set (cs p) \<Longrightarrow> q0 ! j = ?q ! j" for j using i(2) q0(2) [of j] by auto
  have used: "j \<in> set (cs p) \<Longrightarrow> j \<in> used_items q0" for j using ok [OF i(4)] by (auto simp: u0 queue_ok_def)
  have ok0: "queue_ok q0 p ?peer (cs p)"
    by (rule queue_ok_cong [OF _ _ _ _ _ _ ok [OF i(4)]]) (simp_all add: same used)
  define ins where "ins = insert_item (prio_of q0) priority i (cs p)"
  have ins: "ins = cs' p"
  proof -
    have "filter (prio_of q0) (cs p) = filter (prio_of ?q) (cs p)"
      "filter (\<lambda>j. \<not> prio_of q0 j) (cs p) = filter (\<lambda>j. \<not> prio_of ?q j) (cs p)"
      by (rule filter_cong [OF refl], simp add: same)+
    then show ?thesis by (simp add: ins_def cs'_def insert_item_def)
  qed
  obtain q1 f where link: "link_peer_item p i priority g0 = Some (upd_peer p f (g0\<lparr>g_tx_queue := q1\<rparr>))"
    and r1: "relinked q0 q1" and out: "\<forall>j. j \<notin> insert i (set (cs p)) \<longrightarrow> q1 ! j = q0 ! j"
    and ch: "chain (next_of q1) (p_tx_head (f ?peer)) ins None"
    and ends: "p_tx_tail (f ?peer) = end_of None ins"
      "p_tx_priority_tail (f ?peer) = end_of None (filter (prio_of q0) ins)"
      "p_tx_queue_depth (f ?peer) = p_tx_queue_depth ?peer"
      "p_tx_priority_depth (f ?peer) = p_tx_priority_depth ?peer"
    and fc: "\<And>x. peer_core (f x) = peer_core x" "\<And>x. p_tx_ready (f x) = p_tx_ready x"
    using link_peer_item_ok [of g0 p "cs p" i priority] ok0 i il q0 f0
    unfolding g0 ins_def by (auto simp: g0)
  define depth where "depth = (\<lambda>x. x\<lparr>p_tx_queue_depth := p_tx_queue_depth x + 1,
    p_tx_priority_depth := (if priority then p_tx_priority_depth x + 1 else p_tx_priority_depth x)\<rparr>
    :: gossipsub_peer_state_t)"
  define g2 where "g2 = upd_peer p depth (upd_peer p f (g0\<lparr>g_tx_queue := q1\<rparr>))"
  have g2: "g_tx_queue g2 = q1" "g_peers g2 = (g_peers g)[p := depth (f ?peer)]"
      "g_config g2 = g_config g" "g_tx_buffer g2 = g_tx_buffer g"
      "g_tx_buffer_used g2 = g_tx_buffer_used g" "g_tx_queue_len g2 = g_tx_queue_len g"
      "g_tx_ready_count g2 = g_tx_ready_count g" "g_tx_next_peer g2 = g_tx_next_peer g"
    using i(4) by (simp_all add: g2_def g0_def)
  have r1f: "ti_used (q1 ! j) = ti_used (?q ! j)" "prio_of q1 j = prio_of q0 j"
      "ti_peer_index (q1 ! j) = ti_peer_index (?q ! j)" "ti_offset (q1 ! j) = ti_offset (?q ! j)"
      "ti_len (q1 ! j) = ti_len (?q ! j)" "ti_pos (q1 ! j) = ti_pos (?q ! j)" if "j < length ?q" for j
    using relinked_fields [OF r1] that q0(3) f0 by simp_all
  have u1: "used_items q1 = used_items ?q" using relinked_used_items [OF r1] u0 by simp
  have lq: "length q1 = length ?q" using relinked_length [OF r1] q0(3) by simp
  have kp: "cs p = filter (prio_of q0) (cs p) @ filter (\<lambda>j. \<not> prio_of q0 j) (cs p)"
    using ok0 unfolding queue_ok_def by blast
  have part: "filter (prio_of q0) ins = (if priority then filter (prio_of q0) (cs p) @ [i] else filter (prio_of q0) (cs p))"
      "filter (\<lambda>j. \<not> prio_of q0 j) ins =
        (if priority then filter (\<lambda>j. \<not> prio_of q0 j) (cs p) else filter (\<lambda>j. \<not> prio_of q0 j) (cs p) @ [i])"
    unfolding ins_def using filter_insert_item [of "prio_of q0" i priority "cs p"] kp q0(1) by auto
  have inl: "j < length ?q" if "j \<in> set ins" for j
    using that ok [OF i(4)] il by (auto simp: ins_def queue_ok_def used_items_def)
  have fq: "filter (prio_of q1) ins = filter (prio_of q0) ins"
      "filter (\<lambda>j. \<not> prio_of q1 j) ins = filter (\<lambda>j. \<not> prio_of q0 j) ins"
    using r1f(2) inl by (auto intro!: filter_cong)
  have "queue_ok q1 p (depth (f ?peer)) ins"
    unfolding queue_ok_def fq
  proof (intro conjI)
    show "distinct ins" using ok [OF i(4)] i(2) by (auto simp: ins_def queue_ok_def intro!: distinct_insert_item)
    show "\<forall>j\<in>set ins. j \<in> used_items q1 \<and> ti_peer_index (q1 ! j) = p"
      using ok [OF i(4)] i(1) u1 r1f(3) by (auto simp: ins_def queue_ok_def used_items_def p_def)
    show "ins = filter (prio_of q0) ins @ filter (\<lambda>j. \<not> prio_of q0 j) ins"
    proof (cases priority)
      case True
      with part show ?thesis by (simp add: ins_def insert_item_def)
    next
      case False
      with part kp show ?thesis by (simp add: ins_def insert_item_def)
    qed
    show "p_tx_queue_depth (depth (f ?peer)) = length ins"
      using ends ok [OF i(4)] by (simp add: depth_def ins_def queue_ok_def)
    show "p_tx_priority_depth (depth (f ?peer)) = length (filter (prio_of q0) ins)"
      using ends ok0 part by (simp add: depth_def queue_ok_def)
  qed (use ch ends in \<open>simp_all add: depth_def\<close>)
  moreover have "queue_ok q1 p' (g_peers g ! p') (cs p')" if p': "p' < length (g_peers g)" "p' \<noteq> p" for p'
  proof (rule queue_ok_cong [OF _ _ _ _ _ _ ok [OF p'(1)]])
    fix j assume j: "j \<in> set (cs p')"
    then have "j \<in> used_items ?q" "ti_peer_index (?q ! j) = p'" using ok [OF p'(1)] by (auto simp: queue_ok_def)
    moreover from this have "j \<notin> insert i (set (cs p))"
      using ok [OF i(4)] p'(2) by (auto simp: queue_ok_def p_def)
    ultimately show "j \<in> used_items q1 \<and> ti_peer_index (q1 ! j) = ti_peer_index (?q ! j) \<and>
        next_of q1 j = next_of ?q j \<and> prio_of q1 j = prio_of ?q j"
      using out q0(2) u1 by auto
  qed simp_all
  moreover have "length (cs' p') \<le> max_peer_tx_queue (cfg_capacity (g_config g))" if "p' < length (g_peers g)" for p'
    using l that by (auto simp: lists_ok_def reserved_for_def cs'_def p_def split: if_splits)
  ultimately have "lists_ok cs' None g2"
    using i(4) by (auto simp: lists_ok_def g2 reserved_for_def ins cs'_def nth_list_update)
  moreover have "items_ok cs' None (length (g_peers g2)) (g_tx_queue g2)"
  proof -
    have "ti_peer_index (q1 ! j) < length (g_peers g) \<and> j \<in> set (cs' (ti_peer_index (q1 ! j)))"
      if j: "j \<in> used_items q1" for j
    proof -
      have e: "ti_peer_index (q1 ! j) = ti_peer_index (?q ! j)" using j lq r1f(3) [of j] by (simp add: used_items_def)
      have "ti_peer_index (?q ! j) < length (g_peers g) \<and> (i = j \<or> j \<in> set (cs (ti_peer_index (?q ! j))))"
        using it j u1 by (auto simp: items_ok_def)
      then show ?thesis unfolding e by (auto simp: cs'_def p_def)
    qed
    then show ?thesis by (simp add: items_ok_def g2)
  qed
  moreover have "room_ok g2"
  proof -
    have "spans_ok q0 (g_tx_buffer_used g)"
      using rm f0 q0(3) by (auto simp: room_ok_def spans_ok_def apart_def)
    then have "spans_ok q1 (g_tx_buffer_used g)" by (rule relinked_spans [OF r1])
    with rm u1 show ?thesis by (simp add: room_ok_def g2)
  qed
  moreover have "schedule_ok g2"
    using sc length_filter_update [OF i(4), of p_tx_ready "depth (f ?peer)"] fc(2)
    by (auto simp: schedule_ok_def g2 depth_def split: if_splits)
  ultimately have inv2: "tx_inv cs' None g2" by (simp add: tx_inv_def)
  define g' where "g' = (if p_tx_queue_depth ?peer = 0 \<and> \<not> p_tx_transport_busy (g_peers g2 ! p)
    then gossipsub_tx_set_peer_ready p True g2 else g2)"
  have "gossipsub_tx_append_peer_item g p i priority = Some g'"
    using link by (simp add: gossipsub_tx_append_peer_item_def g'_def g2_def depth_def Let_def flip: g0_def)
  moreover have "tx_core g2 = tx_core g"
    using fc(1) by (simp add: g2_def upd_peer_core depth_def peer_core_def g0_def)
  moreover have "frame_of g2 j = (if j = i then (priority, snd (frame_of g i)) else frame_of g j)"
    if "j \<in> used_items ?q" for j
    using that r1f q0 by (auto simp: frame_of_def g2 item_bytes_def used_items_def)
  ultimately show ?thesis
    using inv2 u1 lq
    by (auto simp: g'_def set_peer_ready_frame set_peer_ready_inv g2)
qed

lemma commit_reserved_ok:
  assumes inv: "tx_inv cs (Some i) g" and p: "ti_peer_index (g_tx_queue g ! i) = p"
  obtains g' where "gossipsub_tx_commit_reserved g p i priority = Some (LIBP2P_GOSSIPSUB_OK, g')"
    and "tx_inv (cs(p := insert_item (prio_of (g_tx_queue g)) priority i (cs p))) None g'"
    and "tx_core g' = tx_core g" and "g_config g' = g_config g" and "length (g_peers g') = length (g_peers g)"
    and "length (g_tx_queue g') = length (g_tx_queue g)" and "g_tx_buffer g' = g_tx_buffer g"
    and "\<forall>j\<in>used_items (g_tx_queue g). frame_of g' j =
       (if j = i then (priority, snd (frame_of g i)) else frame_of g j)"
proof -
  have "p < length (g_peers g) \<and> i < length (g_tx_queue g) \<and> ti_used (g_tx_queue g ! i) \<and>
      ti_pos (g_tx_queue g ! i) = 0"
    using inv p by (auto simp: tx_inv_def items_ok_def used_items_def)
  with append_peer_item_ok [OF inv, of priority] p show thesis
    by (auto simp: gossipsub_tx_commit_reserved_def intro: that)
qed

subsection \<open>Removing an item\<close>

lemma recount_frame:
  "tx_core (gossipsub_tx_recount_peer_queue p g) = tx_core g"
  by (auto simp: gossipsub_tx_recount_peer_queue_def peer_core_def intro!: upd_peer_core split: prod.split)

lemma unlink_core: "tx_core (unlink_item p i previous g) = tx_core g"
  by (auto simp: unlink_item_def Let_def recount_frame upd_peer_core peer_core_def split: option.split)

lemma unlink_ok:
  fixes g p i xs ys
  defines "q \<equiv> g_tx_queue g" and "g' \<equiv> unlink_item p i (end_of None xs) g"
  assumes ok: "queue_ok q p (g_peers g ! p) (xs @ i # ys)" and p: "p < length (g_peers g)"
  shows "\<exists>q1 peer'. g_tx_queue g' = q1 \<and> g_peers g' = (g_peers g)[p := peer'] \<and>
    relinked q q1 \<and> (\<forall>j. j \<notin> set xs \<longrightarrow> q1 ! j = q ! j) \<and>
    queue_ok q1 p peer' (xs @ ys) \<and> p_tx_ready peer' = p_tx_ready (g_peers g ! p) \<and>
    g_config g' = g_config g \<and> g_tx_buffer g' = g_tx_buffer g \<and> g_tx_buffer_used g' = g_tx_buffer_used g \<and>
    g_tx_queue_len g' = g_tx_queue_len g \<and> g_tx_next_peer g' = g_tx_next_peer g \<and>
    g_tx_ready_count g' = g_tx_ready_count g"
proof -
  let ?peer = "g_peers g ! p"
  have ch: "chain (next_of q) (p_tx_head ?peer) (xs @ i # ys) None" and d: "distinct (xs @ i # ys)"
    and us: "\<forall>j\<in>set (xs @ i # ys). j \<in> used_items q \<and> ti_peer_index (q ! j) = p"
    and part: "xs @ i # ys = filter (prio_of q) (xs @ i # ys) @ filter (\<lambda>j. \<not> prio_of q j) (xs @ i # ys)"
    using ok unfolding queue_ok_def by blast+
  define q1 where "q1 = (if xs = [] then q else q[last xs := (q ! last xs)\<lparr>ti_next := next_of q i\<rparr>])"
  define h1 where "h1 = (if xs = [] then next_of q i else p_tx_head ?peer)"
  define f where "f = (\<lambda>x. x\<lparr>p_tx_head := (if xs = [] then next_of q i else p_tx_head x),
     p_tx_tail := (if p_tx_tail x = Some i then end_of None xs else p_tx_tail x),
     p_tx_queue_depth := (if p_tx_queue_depth x \<noteq> 0 then p_tx_queue_depth x - 1 else p_tx_queue_depth x)\<rparr>
     :: gossipsub_peer_state_t)"
  define g2 where "g2 = upd_peer p f (g\<lparr>g_tx_queue := q1\<rparr>)"
  have r1: "relinked q q1" by (auto simp: q1_def relinked_update)
  have out: "\<forall>j. j \<notin> set xs \<longrightarrow> q1 ! j = q ! j"
    by (cases xs rule: rev_cases) (auto simp: q1_def)
  have c1: "chain (next_of q1) h1 (xs @ ys) None"
  proof (cases xs rule: rev_cases)
    case Nil
    with ch show ?thesis by (simp add: q1_def h1_def)
  next
    case (snoc zs t)
    have t: "t < length q" using us snoc by (auto simp: used_items_def)
    have "chain ((next_of q)(t := next_of q i)) (p_tx_head ?peer) (zs @ t # ys) None"
      using ch d snoc by (intro chain_remove_after) auto
    moreover have "((next_of q)(t := next_of q i)) j = next_of q1 j" for j
      using t snoc by (auto simp: q1_def nth_list_update)
    ultimately show ?thesis
      using chain_cong [of "zs @ t # ys" "(next_of q)(t := next_of q i)" "next_of q1"] snoc
      by (simp add: h1_def)
  qed
  have un: "unlink_item p i (end_of None xs) g =
      (let g3 = gossipsub_tx_recount_peer_queue p g2 in
       if p_tx_queue_depth (g_peers g3 ! p) < max_peer_tx_queue (cfg_capacity (g_config g3))
       then upd_peer p (p_tx_queue_limit_reported_update (\<lambda>_. False)) g3 else g3)"
    using p
    by (cases "xs = []")
      (simp_all add: unlink_item_def g2_def f_def q1_def end_of_def q_def upd_peer_def upd_item_def Let_def)
  have used1: "used_items q1 = used_items q" by (rule relinked_used_items [OF r1])
  have e1: "prio_of q1 j = prio_of q j" "ti_peer_index (q1 ! j) = ti_peer_index (q ! j)" if "j < length q" for j
    using relinked_fields [OF r1 that] by simp_all
  have inl: "j < length q" if "j \<in> set (xs @ i # ys)" for j using us that by (auto simp: used_items_def)
  have fx: "filter (prio_of q1) zs = filter (prio_of q) zs"
      "filter (\<lambda>j. \<not> prio_of q1 j) zs = filter (\<lambda>j. \<not> prio_of q j) zs"
    if "set zs \<subseteq> set (xs @ i # ys)" for zs
    by (rule filter_cong [OF refl], use that inl e1(1) in blast)+
  have part1: "xs @ ys = filter (prio_of q1) (xs @ ys) @ filter (\<lambda>j. \<not> prio_of q1 j) (xs @ ys)"
  proof -
    have "filter (\<lambda>j. j \<noteq> i) xs = xs" "filter (\<lambda>j. j \<noteq> i) ys = ys" using d by (auto intro!: filter_True)
    then have dd: "filter (\<lambda>j. j \<noteq> i) (xs @ i # ys) = xs @ ys" by simp
    have fd: "filter (\<lambda>j. j \<noteq> i) (filter P (xs @ i # ys)) = filter P (xs @ ys)" for P
    proof -
      have "filter (\<lambda>j. j \<noteq> i) (filter P zs) = filter P (filter (\<lambda>j. j \<noteq> i) zs)" for zs
        by (simp add: conj_commute)
      then show ?thesis by (simp only: dd)
    qed
    have "filter (\<lambda>j. j \<noteq> i) (xs @ i # ys) =
        filter (\<lambda>j. j \<noteq> i) (filter (prio_of q) (xs @ i # ys) @ filter (\<lambda>j. \<not> prio_of q j) (xs @ i # ys))"
      by (rule arg_cong [OF part])
    also have "\<dots> = filter (\<lambda>j. j \<noteq> i) (filter (prio_of q) (xs @ i # ys)) @
        filter (\<lambda>j. j \<noteq> i) (filter (\<lambda>j. \<not> prio_of q j) (xs @ i # ys))"
      by (rule filter_append)
    finally have part0: "xs @ ys = filter (prio_of q) (xs @ ys) @ filter (\<lambda>j. \<not> prio_of q j) (xs @ ys)"
      by (simp only: dd fd)
    have sub: "set (xs @ ys) \<subseteq> set (xs @ i # ys)" by auto
    show ?thesis unfolding fx [OF sub] by (rule part0)
  qed
  have "p < length (g_peers g2)" "p_tx_head (g_peers g2 ! p) = h1" "g_tx_queue g2 = q1"
    using p by (simp_all add: g2_def f_def h1_def)
  moreover have "\<forall>j\<in>set (xs @ ys). j \<in> used_items q1 \<and> ti_peer_index (q1 ! j) = p"
    using us used1 e1(2) inl by auto
  ultimately obtain f3 where f3: "gossipsub_tx_recount_peer_queue p g2 = upd_peer p f3 g2"
      "queue_ok q1 p (f3 (g_peers g2 ! p)) (xs @ ys)"
      "p_tx_ready (f3 (g_peers g2 ! p)) = p_tx_ready (g_peers g2 ! p)"
    using recount_queue_ok [of p g2 "xs @ ys"] c1 d part1 by auto
  define lim where "lim = p_tx_queue_limit_reported_update (\<lambda>_. False) (f3 (f ?peer))"
  have k: "keeps_queue (p_tx_queue_limit_reported_update (\<lambda>_. False))" by (simp add: keeps_queue_def)
  have gp: "g_peers g2 ! p = f ?peer" using p by (simp add: g2_def)
  have "queue_ok q1 p (f3 (f ?peer)) (xs @ ys)" "p_tx_ready (f3 (f ?peer)) = p_tx_ready ?peer"
    using f3 by (simp_all add: gp) (simp add: f_def)
  moreover have "queue_ok q1 p lim (xs @ ys)"
    using calculation(1) queue_ok_peer [OF k] by (simp add: lim_def)
  moreover have "g' = upd_peer p f3 g2 \<or> g' = upd_peer p (p_tx_queue_limit_reported_update (\<lambda>_. False)) (upd_peer p f3 g2)"
    using un by (auto simp: g'_def f3(1) Let_def)
  ultimately show ?thesis
  proof (elim disjE)
    assume "g' = upd_peer p f3 g2" "queue_ok q1 p (f3 (f ?peer)) (xs @ ys)"
      "p_tx_ready (f3 (f ?peer)) = p_tx_ready ?peer"
    then show ?thesis
      using r1 out p by (intro exI [of _ q1] exI [of _ "f3 (f ?peer)"]) (simp add: g2_def)
  next
    assume "g' = upd_peer p (p_tx_queue_limit_reported_update (\<lambda>_. False)) (upd_peer p f3 g2)"
      "queue_ok q1 p lim (xs @ ys)" "p_tx_ready (f3 (f ?peer)) = p_tx_ready ?peer"
    then show ?thesis
      using r1 out p by (intro exI [of _ q1] exI [of _ lim]) (simp add: g2_def lim_def)
  qed
qed

lemma clear_item_ok:
  assumes l: "lists_ok cs None g" and it: "\<And>j. j \<in> used_items (g_tx_queue g) \<Longrightarrow> j \<noteq> i \<Longrightarrow>
      ti_peer_index (g_tx_queue g ! j) < length (g_peers g) \<and> j \<in> set (cs (ti_peer_index (g_tx_queue g ! j)))"
    and rm: "room_ok g" and sc: "schedule_ok g"
    and i: "i \<in> used_items (g_tx_queue g)" "\<And>p. p < length (g_peers g) \<Longrightarrow> i \<notin> set (cs p)"
    and g': "g' = (let g3 = upd_item i (\<lambda>_. zero_tx_item) g;
        len = (if g_tx_queue_len g3 \<noteq> 0 then g_tx_queue_len g3 - 1 else g_tx_queue_len g3)
      in g3\<lparr>g_tx_queue_len := len, g_tx_buffer_used := (if len = 0 then 0 else g_tx_buffer_used g3)\<rparr>)"
  shows "tx_inv cs None g'" and "used_items (g_tx_queue g') = used_items (g_tx_queue g) - {i}"
    and "j \<noteq> i \<Longrightarrow> frame_of g' j = frame_of g j"
proof -
  let ?q = "g_tx_queue g"
  define q' where "q' = ?q[i := zero_tx_item]"
  have il: "i < length ?q" using i(1) by (simp add: used_items_def)
  have q': "q' ! i = zero_tx_item" "\<And>j. j \<noteq> i \<Longrightarrow> q' ! j = ?q ! j" "length q' = length ?q"
    using il by (simp_all add: q'_def)
  have u: "used_items q' = used_items ?q - {i}"
  proof -
    have "ti_used (q' ! j) \<longleftrightarrow> ti_used (?q ! j) \<and> j \<noteq> i" for j
      using q' by (cases "j = i") (auto simp: zero_tx_item_def)
    then show ?thesis using q'(3) by (auto simp: used_items_def)
  qed
  have n: "g_tx_queue_len g = card (used_items ?q)" "card (used_items ?q) \<noteq> 0"
    using rm i(1) by (auto simp: room_ok_def)
  define len where "len = card (used_items q')"
  have len: "g_tx_queue_len g - 1 = len" "g_tx_queue_len g \<noteq> 0" using n i(1) by (simp_all add: len_def u)
  have g'': "g' = g\<lparr>g_tx_queue := q', g_tx_queue_len := len,
      g_tx_buffer_used := (if len = 0 then 0 else g_tx_buffer_used g)\<rparr>"
    using len by (simp add: g' Let_def upd_item_def q'_def)
  show "used_items (g_tx_queue g') = used_items ?q - {i}" by (simp add: g'' u)
  show "frame_of g' j = frame_of g j" if "j \<noteq> i" using that q' by (simp add: g'' frame_of_def)
  have "queue_ok q' p (g_peers g ! p) (cs p)" if p: "p < length (g_peers g)" for p
  proof -
    have ok: "queue_ok ?q p (g_peers g ! p) (cs p)" using l p by (simp add: lists_ok_def)
    have ne: "j \<noteq> i" if "j \<in> set (cs p)" for j using i(2) [OF p] that by blast
    show ?thesis
      by (rule queue_ok_cong [OF _ _ _ _ _ _ ok])
        (use ok ne in \<open>auto simp: q' u queue_ok_def\<close>)
  qed
  then have "lists_ok cs None g'" using l by (simp add: lists_ok_def g'' reserved_for_def)
  moreover have "items_ok cs None (length (g_peers g')) (g_tx_queue g')"
    using it q' by (auto simp: items_ok_def g'' u)
  moreover have "room_ok g'"
  proof (cases "len = 0")
    case True
    then have "used_items q' = {}" by (simp add: len_def)
    then have "spans_ok q' 0" by (auto simp: spans_ok_def used_items_def)
    then show ?thesis using rm True by (simp add: room_ok_def g'' len_def)
  next
    case False
    have "spans_ok q' (g_tx_buffer_used g)"
      unfolding spans_ok_def
    proof (intro allI impI)
      fix j assume "j < length q'" "ti_used (q' ! j)"
      then have "j \<in> used_items q'" by (simp add: used_items_def)
      then have j: "j \<noteq> i" "j < length ?q" "ti_used (?q ! j)" using u by (auto simp: used_items_def)
      have "apart (q' ! j) (q' ! k)" if "k < length q'" "k \<noteq> j" "ti_used (q' ! k)" for k
      proof -
        have "k \<in> used_items q'" using that by (simp add: used_items_def)
        then have "k \<noteq> i" "k < length ?q" "ti_used (?q ! k)" using u by (auto simp: used_items_def)
        with j that rm q'(2) show ?thesis by (simp add: room_ok_def spans_ok_def)
      qed
      with j rm q'(2) show "0 < ti_len (q' ! j) \<and> ti_offset (q' ! j) + ti_len (q' ! j) \<le> g_tx_buffer_used g \<and>
          ti_pos (q' ! j) \<le> ti_len (q' ! j) \<and>
          (\<forall>k < length q'. k \<noteq> j \<longrightarrow> ti_used (q' ! k) \<longrightarrow> apart (q' ! j) (q' ! k))"
        by (simp add: room_ok_def spans_ok_def)
    qed
    then show ?thesis using rm False by (simp add: room_ok_def g'' len_def)
  qed
  moreover have "schedule_ok g'" using sc by (simp add: schedule_ok_def g'')
  ultimately show "tx_inv cs None g'" by (simp add: tx_inv_def)
qed

text \<open>Removing a queued item: the walk finds it, and every other frame stays as it is.\<close>

lemma remove_ok:
  fixes g i and cs :: "nat \<Rightarrow> nat list"
  defines "p \<equiv> ti_peer_index (g_tx_queue g ! i)"
  assumes inv: "tx_inv cs None g" and i: "i \<in> used_items (g_tx_queue g)"
  obtains g' where "gossipsub_tx_remove g i = Some g'" and "tx_inv (cs(p := removeAll i (cs p))) None g'"
    and "tx_core g' = tx_core g" and "g_config g' = g_config g" and "length (g_peers g') = length (g_peers g)"
    and "length (g_tx_queue g') = length (g_tx_queue g)" and "g_tx_buffer g' = g_tx_buffer g"
    and "used_items (g_tx_queue g') = used_items (g_tx_queue g) - {i}"
    and "\<forall>j\<in>used_items (g_tx_queue g) - {i}. frame_of g' j = frame_of g j"
proof -
  let ?q = "g_tx_queue g" and ?peer = "g_peers g ! p"
  have l: "lists_ok cs None g" and it: "items_ok cs None (length (g_peers g)) ?q" and rm: "room_ok g"
    and sc: "schedule_ok g"
    using inv by (simp_all add: tx_inv_def)
  have il: "i < length ?q" "ti_used (?q ! i)" using i by (simp_all add: used_items_def)
  have p: "p < length (g_peers g)" and ip: "i \<in> set (cs p)" using it i by (auto simp: items_ok_def p_def)
  have ok: "queue_ok ?q p' (g_peers g ! p') (cs p')" if "p' < length (g_peers g)" for p'
    using l that by (simp add: lists_ok_def)
  obtain xs ys where cp: "cs p = xs @ i # ys" and ix: "i \<notin> set xs" using split_list_first [OF ip] by blast
  have iy: "i \<notin> set ys" using ok [OF p] cp by (simp add: queue_ok_def)
  have rm1: "removeAll i (cs p) = xs @ ys" using cp ix iy by simp
  have "\<forall>x\<in>set xs. x < length ?q" using ok [OF p] cp by (auto simp: queue_ok_def used_items_def)
  moreover have "chain (next_of ?q) (p_tx_head ?peer) (xs @ i # ys) None"
    using ok [OF p] unfolding cp queue_ok_def by blast
  ultimately have found: "find_previous ?q i None (p_tx_head ?peer) = Some (Some (end_of None xs))"
    using find_previous_found ix by blast
  define g1 where "g1 = unlink_item p i (end_of None xs) g"
  obtain q1 peer' where g1: "g_tx_queue g1 = q1" "g_peers g1 = (g_peers g)[p := peer']"
    and r1: "relinked ?q q1" and out: "\<forall>j. j \<notin> set xs \<longrightarrow> q1 ! j = ?q ! j"
    and ok1: "queue_ok q1 p peer' (xs @ ys)" and rd: "p_tx_ready peer' = p_tx_ready ?peer"
    and same: "g_config g1 = g_config g" "g_tx_buffer g1 = g_tx_buffer g" "g_tx_buffer_used g1 = g_tx_buffer_used g"
      "g_tx_queue_len g1 = g_tx_queue_len g" "g_tx_next_peer g1 = g_tx_next_peer g"
      "g_tx_ready_count g1 = g_tx_ready_count g"
    using unlink_ok [of g p xs i ys] ok [OF p] p unfolding cp g1_def by blast
  have c1: "tx_core g1 = tx_core g" by (simp add: g1_def unlink_core)
  have lq: "length q1 = length ?q" by (rule relinked_length [OF r1])
  have u1: "used_items q1 = used_items ?q" by (rule relinked_used_items [OF r1])
  have e1: "ti_peer_index (q1 ! j) = ti_peer_index (?q ! j)" "frame_of g1 j = frame_of g j" if "j < length ?q" for j
    using relinked_fields [OF r1 that] by (simp_all add: frame_of_def g1 same item_bytes_def)
  let ?cs = "cs(p := xs @ ys)"
  have "queue_ok q1 p' (g_peers g ! p') (cs p')" if p': "p' < length (g_peers g)" "p' \<noteq> p" for p'
  proof (rule queue_ok_cong [OF _ _ _ _ _ _ ok [OF p'(1)]])
    fix j assume "j \<in> set (cs p')"
    then have "j \<in> used_items ?q" "ti_peer_index (?q ! j) = p'" using ok [OF p'(1)] by (auto simp: queue_ok_def)
    moreover from this have "j \<notin> set xs" using ok [OF p] p'(2) cp by (auto simp: queue_ok_def)
    ultimately show "j \<in> used_items q1 \<and> ti_peer_index (q1 ! j) = ti_peer_index (?q ! j) \<and>
        next_of q1 j = next_of ?q j \<and> prio_of q1 j = prio_of ?q j"
      using out u1 by auto
  qed simp_all
  then have l1: "lists_ok ?cs None g1"
    using ok1 p l
    by (auto simp: lists_ok_def g1 same reserved_for_def nth_list_update cp dest!: spec [of _ p])
  have room1: "room_ok g1"
    using rm relinked_spans [OF r1] u1 by (simp add: room_ok_def g1 same)
  have sc1: "schedule_ok g1"
    using sc length_filter_update [OF p, of p_tx_ready peer'] rd
    by (auto simp: schedule_ok_def g1 same split: if_splits)
  define ends where "ends = (\<lambda>x. x\<lparr>p_tx_head := None, p_tx_tail := None, p_tx_priority_tail := None,
     p_tx_priority_depth := 0\<rparr> :: gossipsub_peer_state_t)"
  define g2 where "g2 = (if p_tx_queue_depth (g_peers g1 ! p) = 0
    then gossipsub_tx_set_peer_ready p False (upd_peer p ends g1) else g1)"
  have noop: "upd_peer p ends g1 = g1" if "p_tx_queue_depth (g_peers g1 ! p) = 0"
  proof -
    have "xs @ ys = []" using that ok1 p by (simp add: g1 queue_ok_def)
    then have "ends peer' = peer'" using ok1 by (simp add: queue_ok_def end_of_def ends_def)
    then show ?thesis using p g1 by (simp add: upd_peer_def)
  qed
  have g2: "g2 = g1 \<or> g2 = gossipsub_tx_set_peer_ready p False g1" using noop by (auto simp: g2_def)
  have l2: "lists_ok ?cs None g2" and room2: "room_ok g2" and sc2: "schedule_ok g2" and c2: "tx_core g2 = tx_core g"
    and q2: "g_tx_queue g2 = q1" "g_tx_buffer g2 = g_tx_buffer g" "g_config g2 = g_config g"
      "length (g_peers g2) = length (g_peers g)" "frame_of g2 = frame_of g1"
    using g2 l1 room1 sc1 c1 g1 same by (auto simp: set_peer_ready_parts set_peer_ready_frame)
  define g' where "g' = (let g3 = upd_item i (\<lambda>_. zero_tx_item) g2;
        len = (if g_tx_queue_len g3 \<noteq> 0 then g_tx_queue_len g3 - 1 else g_tx_queue_len g3)
      in g3\<lparr>g_tx_queue_len := len, g_tx_buffer_used := (if len = 0 then 0 else g_tx_buffer_used g3)\<rparr>)"
  have run: "gossipsub_tx_remove g i = Some g'"
    using il p found
    by (simp add: gossipsub_tx_remove_def g'_def g2_def g1_def ends_def Let_def flip: p_def)
  have cov: "ti_peer_index (g_tx_queue g2 ! j) < length (g_peers g2) \<and> j \<in> set (?cs (ti_peer_index (g_tx_queue g2 ! j)))"
    if "j \<in> used_items (g_tx_queue g2)" "j \<noteq> i" for j
  proof -
    have j: "j \<in> used_items ?q" "j < length ?q" using that u1 by (auto simp: q2 used_items_def)
    then have "ti_peer_index (?q ! j) < length (g_peers g)" "j \<in> set (cs (ti_peer_index (?q ! j)))"
      using it by (auto simp: items_ok_def)
    moreover have "set (cs p) = insert i (set (xs @ ys))" by (auto simp: cp)
    ultimately show ?thesis using that(2) by (auto simp: q2 e1(1) [OF j(2)])
  qed
  have notin: "i \<notin> set (?cs p')" if "p' < length (g_peers g2)" for p'
  proof (cases "p' = p")
    case False
    then show ?thesis using ok [of p'] that by (auto simp: q2 queue_ok_def p_def)
  qed (use ix iy in simp)
  have i2: "i \<in> used_items (g_tx_queue g2)" using i u1 by (simp add: q2)
  note cl = clear_item_ok [where cs = ?cs, OF l2 _ room2 sc2 i2 _ g'_def]
  show thesis
  proof (rule that [OF run])
    show "tx_inv (cs(p := removeAll i (cs p))) None g'" unfolding rm1 by (rule cl(1) [OF cov notin])
    show "used_items (g_tx_queue g') = used_items ?q - {i}" using cl(2) [OF cov notin] u1 by (simp add: q2)
    show "\<forall>j\<in>used_items ?q - {i}. frame_of g' j = frame_of g j"
      using cl(3) [OF cov notin] e1(2) by (simp add: q2 used_items_def)
  qed (simp_all add: g'_def Let_def c2 q2 lq)
qed

end
