(* ===== verification/Gossipsub_Send.thy ===== *)
theory Gossipsub_Send
  imports Gossipsub_Tx
begin

text \<open>
  The second half of \<open>src/src/protocol/gossipsub/gossipsub_tx.c\<close>: encoding an RPC into the transmit
  queue, the messages the router sends, expiry of queued items, writing the queues to the host's
  streams and forwarding a cached message.
\<close>

subsection \<open>Queueing an RPC\<close>

definition empty_rpc :: libp2p_gossipsub_rpc_t where
  "empty_rpc = \<lparr>rpc_subscriptions = [], rpc_publish = [], rpc_control = empty_control\<rparr>"

text \<open>Encoding into the reserved part of the buffer: the error code, the size and the router.\<close>

definition encode_reserved ::
  "libp2p_gossipsub_t \<Rightarrow> libp2p_gossipsub_protocol_version_t \<Rightarrow> libp2p_gossipsub_rpc_t \<Rightarrow> nat \<Rightarrow> nat \<Rightarrow>
   (libp2p_gossipsub_err_t \<times> libp2p_gossipsub_t) option" where
  "encode_reserved g version rpc offset frame_len = do {
     (result, written, part) \<leftarrow>
       libp2p_gossipsub_rpc_frame_encode version (Some (cfg_limits (g_config g))) (Some rpc)
         (Buf (take frame_len (drop offset (g_tx_buffer g)))) True;
     Some (if result = LIBP2P_GOSSIPSUB_OK \<and> written \<noteq> Some frame_len
           then LIBP2P_GOSSIPSUB_ERR_INTERNAL else result,
           g\<lparr>g_tx_buffer := take offset (g_tx_buffer g) @ contents part @
                drop (offset + frame_len) (g_tx_buffer g)\<rparr>)
   }"

definition gossipsub_enqueue_rpc_with_lifetime ::
  "libp2p_gossipsub_t \<Rightarrow> nat \<Rightarrow> libp2p_gossipsub_rpc_t \<Rightarrow> u64 \<Rightarrow> bool \<Rightarrow>
   (nat gresult \<times> libp2p_gossipsub_t) option" where
  "gossipsub_enqueue_rpc_with_lifetime g peer_index rpc lifetime_us priority =
     (if peer_index \<ge> length (g_peers g) then Some (Inl LIBP2P_GOSSIPSUB_ERR_INVALID_ARG, g)
      else let peer = g_peers g ! peer_index in
      if \<not> p_used peer \<or> p_stream peer = None then Some (Inl LIBP2P_GOSSIPSUB_ERR_STATE, g)
      else case libp2p_gossipsub_rpc_frame_size (p_version peer) (Some (cfg_limits (g_config g)))
                  (Some rpc) True of
        Inl e \<Rightarrow> Some (Inl e, g)
      | Inr frame_len \<Rightarrow> do {
          (reserved, g1) \<leftarrow> gossipsub_tx_reserve g peer_index frame_len lifetime_us;
          case reserved of
            Inl e \<Rightarrow> Some (Inl e, g1)
          | Inr i \<Rightarrow> do {
              (result, g2) \<leftarrow> encode_reserved g1 (p_version peer) rpc (ti_offset (g_tx_queue g1 ! i))
                                frame_len;
              (result, g3) \<leftarrow> (if result = LIBP2P_GOSSIPSUB_OK
                              then gossipsub_tx_commit_reserved g2 peer_index i priority
                              else Some (result, g2));
              if result = LIBP2P_GOSSIPSUB_OK then Some (Inr i, g3)
              else do { g4 \<leftarrow> gossipsub_tx_remove g3 i; Some (Inl result, g4) }
            }
        })"

text \<open>The error code of a call whose index the caller does not ask for.\<close>

definition err_of :: "'a gresult \<Rightarrow> libp2p_gossipsub_err_t" where
  "err_of r = (case r of Inl e \<Rightarrow> e | Inr _ \<Rightarrow> LIBP2P_GOSSIPSUB_OK)"

type_synonym gstep = "(libp2p_gossipsub_err_t \<times> libp2p_gossipsub_t) option"

definition gossipsub_enqueue_rpc :: "libp2p_gossipsub_t \<Rightarrow> nat \<Rightarrow> libp2p_gossipsub_rpc_t \<Rightarrow> gstep" where
  "gossipsub_enqueue_rpc g peer_index rpc =
     map_option (map_prod err_of id) (gossipsub_enqueue_rpc_with_lifetime g peer_index rpc 0 False)"

definition gossipsub_enqueue_priority_rpc ::
  "libp2p_gossipsub_t \<Rightarrow> nat \<Rightarrow> libp2p_gossipsub_rpc_t \<Rightarrow> gstep" where
  "gossipsub_enqueue_priority_rpc g peer_index rpc =
     map_option (map_prod err_of id) (gossipsub_enqueue_rpc_with_lifetime g peer_index rpc 0 True)"

definition gossipsub_enqueue_normal_rpc_with_lifetime ::
  "libp2p_gossipsub_t \<Rightarrow> nat \<Rightarrow> libp2p_gossipsub_rpc_t \<Rightarrow> u64 \<Rightarrow> gstep" where
  "gossipsub_enqueue_normal_rpc_with_lifetime g peer_index rpc lifetime_us =
     map_option (map_prod err_of id)
       (gossipsub_enqueue_rpc_with_lifetime g peer_index rpc lifetime_us False)"

subsection \<open>The messages of the router\<close>

definition gossipsub_enqueue_subscription ::
  "libp2p_gossipsub_t \<Rightarrow> nat \<Rightarrow> gossipsub_topic_state_t \<Rightarrow> byte \<Rightarrow> gstep" where
  "gossipsub_enqueue_subscription g peer_index topic subscribe =
     gossipsub_enqueue_priority_rpc g peer_index
       (empty_rpc\<lparr>rpc_subscriptions := [\<lparr>sub_topic = Buf (t_topic topic), sub_subscribe = subscribe\<rparr>]\<rparr>)"

definition gossipsub_enqueue_idontwant :: "libp2p_gossipsub_t \<Rightarrow> nat \<Rightarrow> gbytes \<Rightarrow> gstep" where
  "gossipsub_enqueue_idontwant g peer_index message_id =
     gossipsub_enqueue_rpc g peer_index
       (empty_rpc\<lparr>rpc_control := empty_control
          \<lparr>ctl_idontwant := [\<lparr>idontwant_message_ids = Buf [message_id]\<rparr>]\<rparr>\<rparr>)"

definition gossipsub_enqueue_iwant :: "libp2p_gossipsub_t \<Rightarrow> nat \<Rightarrow> gbytes \<Rightarrow> gstep" where
  "gossipsub_enqueue_iwant g peer_index message_id =
     gossipsub_enqueue_rpc g peer_index
       (empty_rpc\<lparr>rpc_control := empty_control
          \<lparr>ctl_iwant := [\<lparr>iwant_message_ids = Buf [message_id]\<rparr>]\<rparr>\<rparr>)"

definition gossipsub_enqueue_ihave ::
  "libp2p_gossipsub_t \<Rightarrow> nat \<Rightarrow> gossipsub_topic_state_t \<Rightarrow> gbytes list \<Rightarrow> gstep" where
  "gossipsub_enqueue_ihave g peer_index topic message_ids =
     (if message_ids = [] then Some (LIBP2P_GOSSIPSUB_ERR_INVALID_ARG, g)
      else gossipsub_enqueue_normal_rpc_with_lifetime g peer_index
             (empty_rpc\<lparr>rpc_control := empty_control
                \<lparr>ctl_ihave := [\<lparr>ihave_topic = Buf (t_topic topic), ihave_message_ids = Buf message_ids\<rparr>]\<rparr>\<rparr>)
             GOSSIPSUB_TX_FORWARD_LIFETIME_US)"

definition gossipsub_enqueue_graft ::
  "libp2p_gossipsub_t \<Rightarrow> nat \<Rightarrow> gossipsub_topic_state_t \<Rightarrow> gstep" where
  "gossipsub_enqueue_graft g peer_index topic =
     gossipsub_enqueue_priority_rpc g peer_index
       (empty_rpc\<lparr>rpc_control := empty_control\<lparr>ctl_graft := [\<lparr>graft_topic = Buf (t_topic topic)\<rparr>]\<rparr>\<rparr>)"

definition gossipsub_enqueue_prune_with_backoff ::
  "libp2p_gossipsub_t \<Rightarrow> nat \<Rightarrow> gossipsub_topic_state_t \<Rightarrow> u64 \<Rightarrow> gstep" where
  "gossipsub_enqueue_prune_with_backoff g peer_index topic backoff_us =
     gossipsub_enqueue_priority_rpc g peer_index
       (empty_rpc\<lparr>rpc_control := empty_control\<lparr>ctl_prune := [\<lparr>prune_topic = Buf (t_topic topic),
          prune_peers = [], prune_backoff_seconds = gossipsub_tx_backoff_seconds backoff_us\<rparr>]\<rparr>\<rparr>)"

definition gossipsub_enqueue_prune ::
  "libp2p_gossipsub_t \<Rightarrow> nat \<Rightarrow> gossipsub_topic_state_t \<Rightarrow> gstep" where
  "gossipsub_enqueue_prune g peer_index topic =
     gossipsub_enqueue_prune_with_backoff g peer_index topic
       (mp_prune_backoff_us (cfg_mesh (g_config g)))"

definition gossipsub_enqueue_publish_entry_with_lifetime ::
  "libp2p_gossipsub_t \<Rightarrow> nat \<Rightarrow> gossipsub_mcache_entry_t \<Rightarrow> u64 \<Rightarrow> bool \<Rightarrow> gstep" where
  "gossipsub_enqueue_publish_entry_with_lifetime g peer_index entry lifetime_us priority = do {
     (r, g1) \<leftarrow> gossipsub_enqueue_rpc_with_lifetime g peer_index
                  (empty_rpc\<lparr>rpc_publish := [gossipsub_entry_message g entry]\<rparr>) lifetime_us priority;
     Some (case r of
             Inl e \<Rightarrow> (e, g1)
           | Inr i \<Rightarrow>
               (LIBP2P_GOSSIPSUB_OK,
                upd_item i (\<lambda>item. item\<lparr>ti_publish := True, ti_message_id := mc_message_id entry\<rparr>) g1))
   }"

definition gossipsub_enqueue_publish_entry ::
  "libp2p_gossipsub_t \<Rightarrow> nat \<Rightarrow> gossipsub_mcache_entry_t \<Rightarrow> gstep" where
  "gossipsub_enqueue_publish_entry g peer_index entry =
     gossipsub_enqueue_publish_entry_with_lifetime g peer_index entry
       GOSSIPSUB_TX_FORWARD_LIFETIME_US False"

definition gossipsub_enqueue_local_publish_entry ::
  "libp2p_gossipsub_t \<Rightarrow> nat \<Rightarrow> gossipsub_mcache_entry_t \<Rightarrow> gstep" where
  "gossipsub_enqueue_local_publish_entry g peer_index entry =
     gossipsub_enqueue_publish_entry_with_lifetime g peer_index entry
       GOSSIPSUB_TX_LOCAL_PUBLISH_LIFETIME_US True"

definition gossipsub_enqueue_idontwant_for_entry ::
  "libp2p_gossipsub_t \<Rightarrow> nat \<Rightarrow> gossipsub_topic_state_t \<Rightarrow> gossipsub_mcache_entry_t \<Rightarrow> gstep" where
  "gossipsub_enqueue_idontwant_for_entry g peer_index topic entry =
     (if peer_index \<ge> length (g_peers g) then Some (LIBP2P_GOSSIPSUB_ERR_INVALID_ARG, g)
      else if p_version (g_peers g ! peer_index) = LIBP2P_GOSSIPSUB_VERSION_12 \<and>
              cfg_enable_idontwant (g_config g) \<and> t_enable_idontwant topic \<and>
              mc_data_len entry \<ge> t_idontwant_min_message_bytes topic \<and>
              p_idontwant_sent (g_peers g ! peer_index) <
                cfg_max_idontwant_per_heartbeat (g_config g)
      then do {
        (result, g1) \<leftarrow> gossipsub_enqueue_idontwant g peer_index (Buf (mc_message_id entry));
        Some (result,
          if result = LIBP2P_GOSSIPSUB_OK
          then upd_peer peer_index (\<lambda>p. p\<lparr>p_idontwant_sent := p_idontwant_sent p + 1\<rparr>) g1 else g1)
      }
      else Some (LIBP2P_GOSSIPSUB_OK, g))"

text \<open>The two loops over all peers, over the indices still to be visited.\<close>

definition tx_full_event ::
  "libp2p_gossipsub_t \<Rightarrow> nat \<Rightarrow> gossipsub_topic_state_t \<Rightarrow> gossipsub_mcache_entry_t \<Rightarrow>
   libp2p_gossipsub_event_t" where
  "tx_full_event g peer_index topic entry =
     gossipsub_peer_to_event (g_peers g ! peer_index)
       (zero_event\<lparr>ev_type := LIBP2P_GOSSIPSUB_EVENT_DROPPED,
          ev_drop_reason := LIBP2P_GOSSIPSUB_DROP_IDONTWANT_TX_QUEUE_FULL,
          ev_reason := LIBP2P_GOSSIPSUB_ERR_LIMIT, ev_topic := Buf (t_topic topic),
          ev_message_id := Buf (mc_message_id entry),
          ev_tx_queue_depth := p_tx_queue_depth (g_peers g ! peer_index),
          ev_tx_queue_capacity := max_peer_tx_queue (cfg_capacity (g_config g))\<rparr>)"

fun idontwant_received_loop ::
  "gossipsub_topic_state_t \<Rightarrow> gossipsub_mcache_entry_t \<Rightarrow> nat \<Rightarrow> nat list \<Rightarrow> libp2p_gossipsub_t \<Rightarrow> gstep"
where
  "idontwant_received_loop topic entry topic_index [] g = Some (LIBP2P_GOSSIPSUB_OK, g)"
| "idontwant_received_loop topic entry topic_index (p # ps) g =
     (if p_used (g_peers g ! p) \<and> p_stream (g_peers g ! p) \<noteq> None \<and>
         gossipsub_mesh_contains g p topic_index
      then do {
        (enqueue_result, g1) \<leftarrow> gossipsub_enqueue_idontwant_for_entry g p topic entry;
        if enqueue_result = LIBP2P_GOSSIPSUB_ERR_LIMIT then
          (if \<not> p_tx_queue_limit_reported (g_peers g1 ! p)
           then case gossipsub_push_event_or_drop g1 (tx_full_event g1 p topic entry) of
                  (event_result, g2) \<Rightarrow>
                    idontwant_received_loop topic entry topic_index ps
                      (if event_result = LIBP2P_GOSSIPSUB_OK
                       then upd_peer p (p_tx_queue_limit_reported_update (\<lambda>_. True)) g2 else g2)
           else idontwant_received_loop topic entry topic_index ps g1)
        else if enqueue_result = LIBP2P_GOSSIPSUB_OK
        then idontwant_received_loop topic entry topic_index ps g1
        else Some (enqueue_result, g1)
      }
      else idontwant_received_loop topic entry topic_index ps g)"

definition gossipsub_enqueue_idontwant_for_received_entry ::
  "libp2p_gossipsub_t \<Rightarrow> gossipsub_topic_state_t \<Rightarrow> gossipsub_mcache_entry_t \<Rightarrow> gstep" where
  "gossipsub_enqueue_idontwant_for_received_entry g topic entry =
     (case gossipsub_find_topic g (Buf (mc_topic entry)) of
        None \<Rightarrow> Some (LIBP2P_GOSSIPSUB_ERR_NOT_FOUND, g)
      | Some topic_index \<Rightarrow>
          idontwant_received_loop topic entry topic_index [0..<length (g_peers g)] g)"

fun forward_loop ::
  "nat \<Rightarrow> gossipsub_mcache_entry_t \<Rightarrow> nat \<Rightarrow> nat list \<Rightarrow> libp2p_gossipsub_t \<Rightarrow> gstep" where
  "forward_loop source_peer entry topic_index [] g = Some (LIBP2P_GOSSIPSUB_OK, g)"
| "forward_loop source_peer entry topic_index (p # ps) g =
     (if p \<noteq> source_peer \<and> p_used (g_peers g ! p) \<and> p_stream (g_peers g ! p) \<noteq> None \<and>
         gossipsub_tx_is_mesh_route g p topic_index \<and>
         \<not> gossipsub_peer_idontwant_contains g p (Buf (mc_message_id entry))
             (gossipsub_tx_effective_now_us g)
      then do {
        (r1, g1) \<leftarrow> gossipsub_enqueue_idontwant_for_entry g p (g_topics g ! topic_index) entry;
        (r2, g2) \<leftarrow> (if r1 = LIBP2P_GOSSIPSUB_OK \<or> r1 = LIBP2P_GOSSIPSUB_ERR_LIMIT
                    then gossipsub_enqueue_publish_entry g1 p entry else Some (r1, g1));
        if r2 = LIBP2P_GOSSIPSUB_ERR_LIMIT \<or> r2 = LIBP2P_GOSSIPSUB_OK
        then forward_loop source_peer entry topic_index ps g2
        else Some (r2, g2)
      }
      else forward_loop source_peer entry topic_index ps g)"

definition gossipsub_forward_entry ::
  "libp2p_gossipsub_t \<Rightarrow> nat \<Rightarrow> gossipsub_mcache_entry_t \<Rightarrow> gstep" where
  "gossipsub_forward_entry g source_peer_index entry =
     (case gossipsub_find_topic g (Buf (mc_topic entry)) of
        None \<Rightarrow> Some (LIBP2P_GOSSIPSUB_ERR_NOT_FOUND, g)
      | Some topic_index \<Rightarrow>
          forward_loop source_peer_index entry topic_index [0..<length (g_peers g)] g)"

end
