(* ===== verification/Gossipsub_Tx_Queue.thy ===== *)
theory Gossipsub_Tx_Queue
  imports Gossipsub_Tx_Ops Gossipsub_Send Gossipsub_Encode
begin

text \<open>
  The transmit queue as an abstract data type: per peer a list of frames, priority frames first.
  Enqueuing an RPC inserts the frame of the RPC into its peer's list and changes nothing else,
  whatever moves within the buffer; removing an item deletes its frame.
\<close>

definition tx_ok :: "libp2p_gossipsub_t \<Rightarrow> bool" where
  "tx_ok g \<longleftrightarrow> tx_inv (tx_chain g) None g"

lemma tx_inv_chain:
  assumes "tx_inv cs None g"
  shows "tx_ok g" and "p < length (g_peers g) \<Longrightarrow> tx_chain g p = cs p"
proof -
  have l: "lists_ok cs None g" using assms by (simp add: tx_inv_def)
  show e: "tx_chain g p = cs p" if "p < length (g_peers g)" for p
    by (rule tx_chain_eq [OF l that])
  show "tx_ok g"
    using assms e unfolding tx_ok_def tx_inv_def lists_ok_def items_ok_def by auto
qed

lemma tx_okD: "tx_ok g \<Longrightarrow> tx_inv (tx_chain g) None g"
  by (simp add: tx_ok_def)

lemma chain_used:
  assumes "tx_ok g" and "p < length (g_peers g)"
  shows "set (tx_chain g p) \<subseteq> used_items (g_tx_queue g)" and "distinct (tx_chain g p)"
    and "i \<in> set (tx_chain g p) \<Longrightarrow> ti_peer_index (g_tx_queue g ! i) = p"
    and "p_tx_queue_depth (g_peers g ! p) = length (tx_chain g p)"
    and "p_tx_head (g_peers g ! p) = (case tx_chain g p of [] \<Rightarrow> None | i # _ \<Rightarrow> Some i)"
    and "chain (next_of (g_tx_queue g)) (p_tx_head (g_peers g ! p)) (tx_chain g p) None"
proof -
  have q: "queue_ok (g_tx_queue g) p (g_peers g ! p) (tx_chain g p)"
    using assms by (auto simp: tx_ok_def tx_inv_def lists_ok_def)
  then show "set (tx_chain g p) \<subseteq> used_items (g_tx_queue g)" and "distinct (tx_chain g p)"
    and "i \<in> set (tx_chain g p) \<Longrightarrow> ti_peer_index (g_tx_queue g ! i) = p"
    and "p_tx_queue_depth (g_peers g ! p) = length (tx_chain g p)"
    and c: "chain (next_of (g_tx_queue g)) (p_tx_head (g_peers g ! p)) (tx_chain g p) None"
    unfolding queue_ok_def by blast+
  from c show "p_tx_head (g_peers g ! p) = (case tx_chain g p of [] \<Rightarrow> None | i # _ \<Rightarrow> Some i)"
    by (cases "tx_chain g p") auto
qed

subsection \<open>The view after an operation\<close>

lemma tx_view_same:
  assumes "tx_ok g" and "tx_inv (tx_chain g) None g'" and "length (g_peers g') = length (g_peers g)"
    and "\<And>j. j \<in> used_items (g_tx_queue g) \<Longrightarrow> frame_of g' j = frame_of g j" and "p < length (g_peers g)"
  shows "tx_view g' p = tx_view g p"
proof -
  have "tx_chain g' p = tx_chain g p" using tx_inv_chain(2) [OF assms(2)] assms(3,5) by simp
  with chain_used(1) [OF assms(1,5)] assms(4) show ?thesis by (auto simp: tx_view_def)
qed

lemma tx_view_inserted:
  assumes ok: "tx_ok g" and i: "i \<notin> used_items (g_tx_queue g)" and p: "p < length (g_peers g)"
    and n: "length (g_peers g') = length (g_peers g)"
    and inv: "tx_inv ((tx_chain g)(p := insert_item (prio_of q) b i (tx_chain g p))) None g'"
    and q: "\<And>j. j \<in> used_items (g_tx_queue g) \<Longrightarrow> prio_of q j = fst (frame_of g j)"
    and old: "\<And>j. j \<in> used_items (g_tx_queue g) \<Longrightarrow> frame_of g' j = frame_of g j"
    and new: "frame_of g' i = (b, r)"
  shows "tx_view g' p = insert_item fst b (b, r) (tx_view g p)"
    and "p' < length (g_peers g) \<Longrightarrow> p' \<noteq> p \<Longrightarrow> tx_view g' p' = tx_view g p'"
proof -
  have c: "tx_chain g' p' = ((tx_chain g)(p := insert_item (prio_of q) b i (tx_chain g p))) p'"
    if "p' < length (g_peers g)" for p'
    using tx_inv_chain(2) [OF inv] that n by simp
  have u: "j \<in> set (tx_chain g p') \<Longrightarrow> j \<in> used_items (g_tx_queue g)" if "p' < length (g_peers g)" for j p'
    using chain_used(1) [OF ok that] by blast
  have same: "map (frame_of g') (tx_chain g p') = map (frame_of g) (tx_chain g p')" if "p' < length (g_peers g)" for p'
    using u [OF that] old by auto
  show "tx_view g' p' = tx_view g p'" if "p' < length (g_peers g)" "p' \<noteq> p"
    using c [OF that(1)] that(2) same [OF that(1)] by (simp add: tx_view_def)
  have "map (frame_of g') (insert_item (prio_of q) b i (tx_chain g p)) =
      insert_item fst b (frame_of g' i) (map (frame_of g') (tx_chain g p))"
    by (rule map_insert_item) (use u [OF p] q old in simp)
  then show "tx_view g' p = insert_item fst b (b, r) (tx_view g p)"
    using c [OF p] same [OF p] by (simp add: tx_view_def new)
qed

subsection \<open>Encoding into the reserved space\<close>

lemma frame_bytes_pos: "0 < length (frame_bytes r)"
  using uvarint_length_le_iff [of 1 0] by (simp add: frame_bytes_def)

lemma encode_reserved_ok:
  assumes inv: "tx_inv cs (Some i) g" and lim: "limits_ok v (cfg_limits (g_config g))"
    and ok: "rpc_ok v (cfg_limits (g_config g)) r" and w: "control_writable (rpc_control r)"
    and m: "max_rpc_bytes (cfg_limits (g_config g)) < 2 ^ 63"
    and b: "length (body_bytes r) \<le> max_rpc_bytes (cfg_limits (g_config g))"
    and n: "ti_len (g_tx_queue g ! i) = length (frame_bytes r)"
  obtains g' where "encode_reserved g v r (ti_offset (g_tx_queue g ! i)) (length (frame_bytes r)) =
      Some (LIBP2P_GOSSIPSUB_OK, g')"
    and "tx_inv cs (Some i) g'" and "tx_core g' = tx_core g" and "g_config g' = g_config g"
    and "g_peers g' = g_peers g" and "g_tx_queue g' = g_tx_queue g"
    and "frame_of g' i = (fst (frame_of g i), fst (snd (frame_of g i)), frame_bytes r)"
    and "\<forall>j\<in>used_items (g_tx_queue g) - {i}. frame_of g' j = frame_of g j"
    and "length (g_tx_buffer g') = length (g_tx_buffer g)"
proof -
  let ?o = "ti_offset (g_tx_queue g ! i)" and ?n = "length (frame_bytes r)"
  have rm: "room_ok g" and i: "i \<in> used_items (g_tx_queue g)"
    using inv by (auto simp: tx_inv_def items_ok_def)
  have fit: "?o + ?n \<le> length (g_tx_buffer g)"
    using rm i n by (force simp: room_ok_def spans_ok_def used_items_def)
  define b' where "b' = take ?o (g_tx_buffer g) @ frame_bytes r @ drop (?o + ?n) (g_tx_buffer g)"
  define g' where "g' = g\<lparr>g_tx_buffer := b'\<rparr>"
  have len: "length (take ?n (drop ?o (g_tx_buffer g))) = ?n" using fit by simp
  have run: "encode_reserved g v r ?o ?n = Some (LIBP2P_GOSSIPSUB_OK, g')"
    using frame_encode_ok [OF lim ok w m b, of "take ?n (drop ?o (g_tx_buffer g))"] len
    by (simp add: encode_reserved_def g'_def b'_def)
  note copied = span_copied [OF fit b'_def]
  have apart: "apart (g_tx_queue g ! i) (g_tx_queue g ! j)" if "j \<in> used_items (g_tx_queue g)" "j \<noteq> i" for j
    using rm i that by (auto simp: room_ok_def spans_ok_def used_items_def)
  show thesis
  proof (rule that [OF run])
    show "frame_of g' i = (fst (frame_of g i), fst (snd (frame_of g i)), frame_bytes r)"
      using copied(2) n by (simp add: frame_of_def g'_def item_bytes_def)
    have "frame_of g' j = frame_of g j" if j: "j \<in> used_items (g_tx_queue g)" "j \<noteq> i" for j
    proof -
      have "span b' (ti_offset (g_tx_queue g ! j)) (ti_len (g_tx_queue g ! j)) =
          span (g_tx_buffer g) (ti_offset (g_tx_queue g ! j)) (ti_len (g_tx_queue g ! j))"
        by (rule copied(3)) (use apart [OF j] n in \<open>auto simp: apart_def\<close>)
      then show ?thesis by (simp add: frame_of_def g'_def item_bytes_def)
    qed
    then show "\<forall>j\<in>used_items (g_tx_queue g) - {i}. frame_of g' j = frame_of g j" by blast
    show "tx_inv cs (Some i) g'"
      using inv copied(1) by (simp add: tx_inv_def g'_def lists_ok_def room_ok_def schedule_ok_def)
  qed (simp_all add: g'_def copied(1))
qed

subsection \<open>Enqueuing\<close>

text \<open>The condition under which an RPC is accepted for a peer.\<close>

definition enqueue_possible :: "libp2p_gossipsub_t \<Rightarrow> nat \<Rightarrow> libp2p_gossipsub_rpc_t \<Rightarrow> bool" where
  "enqueue_possible g p rpc \<longleftrightarrow>
     p < length (g_peers g) \<and> p_used (g_peers g ! p) \<and> p_stream (g_peers g ! p) \<noteq> None \<and>
     limits_ok (p_version (g_peers g ! p)) (cfg_limits (g_config g)) \<and>
     rpc_ok (p_version (g_peers g ! p)) (cfg_limits (g_config g)) rpc \<and>
     length (body_bytes rpc) \<le> max_rpc_bytes (cfg_limits (g_config g)) \<and>
     tx_fits g p (length (frame_bytes rpc))"

lemma enqueue_ok:
  assumes ok: "tx_ok g" and m: "max_rpc_bytes (cfg_limits (g_config g)) < 2 ^ 63"
    and w: "control_writable (rpc_control rpc)"
  obtains r g' where "gossipsub_enqueue_rpc_with_lifetime g p rpc lifetime_us priority = Some (r, g')"
    and "tx_ok g'" and "tx_core g' = tx_core g" and "g_config g' = g_config g"
    and "length (g_peers g') = length (g_peers g)"
    and "length (g_tx_queue g') = length (g_tx_queue g)" and "length (g_tx_buffer g') = length (g_tx_buffer g)"
    and "(\<exists>i. r = Inr i) \<longleftrightarrow> enqueue_possible g p rpc"
    and "\<forall>e. r = Inl e \<longrightarrow> e \<noteq> LIBP2P_GOSSIPSUB_OK \<and> (\<forall>p' < length (g_peers g). tx_view g' p' = tx_view g p')"
    and "\<forall>i. r = Inr i \<longrightarrow> i < length (g_tx_queue g') \<and>
      tx_view g' p = insert_item fst priority (priority, 0, frame_bytes rpc) (tx_view g p) \<and>
      (\<forall>p' < length (g_peers g). p' \<noteq> p \<longrightarrow> tx_view g' p' = tx_view g p')"
proof -
  let ?peer = "g_peers g ! p" and ?l = "cfg_limits (g_config g)" and ?n = "length (frame_bytes rpc)"
  let ?run = "gossipsub_enqueue_rpc_with_lifetime g p rpc lifetime_us priority"
  note inv = tx_okD [OF ok]
  consider (bad) "\<not> (p < length (g_peers g) \<and> p_used ?peer \<and> p_stream ?peer \<noteq> None)"
    | (size) e where "p < length (g_peers g)" "p_used ?peer" "p_stream ?peer \<noteq> None"
        "libp2p_gossipsub_rpc_frame_size (p_version ?peer) (Some ?l) (Some rpc) True = Inl e"
    | (good) n where "p < length (g_peers g)" "p_used ?peer" "p_stream ?peer \<noteq> None"
        "libp2p_gossipsub_rpc_frame_size (p_version ?peer) (Some ?l) (Some rpc) True = Inr n"
    by (cases "libp2p_gossipsub_rpc_frame_size (p_version ?peer) (Some ?l) (Some rpc) True") blast+
  then show thesis
  proof cases
    case bad
    then have "?run = Some (Inl (if p < length (g_peers g) then LIBP2P_GOSSIPSUB_ERR_STATE
        else LIBP2P_GOSSIPSUB_ERR_INVALID_ARG), g)"
      by (auto simp: gossipsub_enqueue_rpc_with_lifetime_def Let_def)
    then obtain e where "?run = Some (Inl e, g)" "e \<noteq> LIBP2P_GOSSIPSUB_OK"
      by (auto split: if_splits)
    with bad ok that show thesis by (auto simp: enqueue_possible_def)
  next
    case size
    have "?run = Some (Inl e, g)" using size by (auto simp: gossipsub_enqueue_rpc_with_lifetime_def Let_def)
    moreover have "e \<noteq> LIBP2P_GOSSIPSUB_OK" using size(4) frame_size_no_ok by metis
    moreover have "\<not> enqueue_possible g p rpc"
      using size(4) frame_size_iff [OF m, of "p_version ?peer" rpc True ?n] by (auto simp: enqueue_possible_def)
    ultimately show thesis using ok that by auto
  next
    case good
    then have lim: "limits_ok (p_version ?peer) ?l" and rok: "rpc_ok (p_version ?peer) ?l rpc"
      and b: "length (body_bytes rpc) \<le> max_rpc_bytes ?l" and n: "n = ?n"
      using frame_size_iff [OF m] by blast+
    have possible: "enqueue_possible g p rpc \<longleftrightarrow> tx_fits g p ?n"
      using good lim rok b by (simp add: enqueue_possible_def)
    obtain r1 g1 where rs: "gossipsub_tx_reserve g p ?n lifetime_us = Some (r1, g1)"
      and s1: "g_peers g1 = g_peers g" "tx_core g1 = tx_core g" "g_config g1 = g_config g"
        "length (g_tx_queue g1) = length (g_tx_queue g)" "length (g_tx_buffer g1) = length (g_tx_buffer g)"
      and f1: "\<forall>j\<in>used_items (g_tx_queue g). frame_of g1 j = frame_of g j"
      and iff1: "(\<exists>i. r1 = Inr i) \<longleftrightarrow> tx_fits g p ?n"
      and e1: "\<forall>e. r1 = Inl e \<longrightarrow> e = LIBP2P_GOSSIPSUB_ERR_LIMIT \<and> tx_inv (tx_chain g) None g1"
      and i1: "\<forall>i. r1 = Inr i \<longrightarrow> tx_inv (tx_chain g) (Some i) g1 \<and> i \<notin> used_items (g_tx_queue g) \<and>
        ti_peer_index (g_tx_queue g1 ! i) = p \<and> ti_len (g_tx_queue g1 ! i) = ?n \<and>
        ti_offset (g_tx_queue g1 ! i) + ?n \<le> length (g_tx_buffer g1)"
      by (rule reserve_ok [OF inv good(1) frame_bytes_pos [of rpc], of lifetime_us])
    show thesis
    proof (cases r1)
      case (Inl e)
      have "?run = Some (Inl e, g1)"
        using good rs Inl by (auto simp: gossipsub_enqueue_rpc_with_lifetime_def Let_def n)
      moreover have "tx_view g1 p' = tx_view g p'" if "p' < length (g_peers g)" for p'
        using e1 [rule_format, OF Inl] s1 f1 that by (intro tx_view_same [OF ok]) auto
      moreover have "\<not> enqueue_possible g p rpc" using Inl iff1 possible by auto
      ultimately show thesis using that e1 [rule_format, OF Inl] s1 tx_inv_chain(1) by auto
    next
      case (Inr i)
      note i = i1 [rule_format, OF Inr]
      have lim1: "limits_ok (p_version ?peer) (cfg_limits (g_config g1))"
        "rpc_ok (p_version ?peer) (cfg_limits (g_config g1)) rpc"
        "max_rpc_bytes (cfg_limits (g_config g1)) < 2 ^ 63"
        "length (body_bytes rpc) \<le> max_rpc_bytes (cfg_limits (g_config g1))"
        using lim rok m b s1 by simp_all
      have ii: "tx_inv (tx_chain g) (Some i) g1" "ti_len (g_tx_queue g1 ! i) = ?n" using i by simp_all
      obtain g2 where enc: "encode_reserved g1 (p_version ?peer) rpc (ti_offset (g_tx_queue g1 ! i)) ?n =
            Some (LIBP2P_GOSSIPSUB_OK, g2)"
        and inv2: "tx_inv (tx_chain g) (Some i) g2"
        and s2: "tx_core g2 = tx_core g1" "g_config g2 = g_config g1" "g_peers g2 = g_peers g1"
          "g_tx_queue g2 = g_tx_queue g1" "length (g_tx_buffer g2) = length (g_tx_buffer g1)"
        and f2: "frame_of g2 i = (fst (frame_of g1 i), fst (snd (frame_of g1 i)), frame_bytes rpc)"
          "\<forall>j\<in>used_items (g_tx_queue g1) - {i}. frame_of g2 j = frame_of g1 j"
        by (rule encode_reserved_ok [OF ii(1) lim1(1,2) w lim1(3,4) ii(2)])
      have pi: "ti_peer_index (g_tx_queue g2 ! i) = p" using i s2 by simp
      obtain g3 where com: "gossipsub_tx_commit_reserved g2 p i priority = Some (LIBP2P_GOSSIPSUB_OK, g3)"
        and inv3: "tx_inv ((tx_chain g)(p := insert_item (prio_of (g_tx_queue g2)) priority i (tx_chain g p))) None g3"
        and s3: "tx_core g3 = tx_core g2" "g_config g3 = g_config g2" "length (g_peers g3) = length (g_peers g2)"
          "length (g_tx_queue g3) = length (g_tx_queue g2)" "g_tx_buffer g3 = g_tx_buffer g2"
        and f3: "\<forall>j\<in>used_items (g_tx_queue g2). frame_of g3 j =
          (if j = i then (priority, snd (frame_of g2 i)) else frame_of g2 j)"
        by (rule commit_reserved_ok [OF inv2 pi, of priority])
      have run: "?run = Some (Inr i, g3)"
        using good rs Inr enc com by (auto simp: gossipsub_enqueue_rpc_with_lifetime_def Let_def n)
      have u1: "i \<in> used_items (g_tx_queue g1)" and pos0: "fst (snd (frame_of g1 i)) = 0"
        using ii(1) by (auto simp: tx_inv_def items_ok_def frame_of_def)
      have sub: "j \<in> used_items (g_tx_queue g1) \<and> j \<noteq> i" if j: "j \<in> used_items (g_tx_queue g)" for j
      proof -
        have "ti_peer_index (g_tx_queue g ! j) < length (g_peers g)"
          "j \<in> set (tx_chain g (ti_peer_index (g_tx_queue g ! j)))"
          using inv j by (auto simp: tx_inv_def items_ok_def)
        then have "j \<in> used_items (g_tx_queue g1)"
          using ii(1) s1(1) by (auto simp: tx_inv_def lists_ok_def queue_ok_def)
        with i j show ?thesis by auto
      qed
      have old: "frame_of g3 j = frame_of g j" if "j \<in> used_items (g_tx_queue g)" for j
        using sub [OF that] f3 f2(2) f1 that s2 by simp
      have new: "frame_of g3 i = (priority, 0, frame_bytes rpc)"
        using f3 f2(1) u1 pos0 s2 by simp
      have pr: "prio_of (g_tx_queue g2) j = fst (frame_of g j)" if "j \<in> used_items (g_tx_queue g)" for j
        using f1 that s2 by (simp add: frame_of_def)
      have notin: "i \<notin> used_items (g_tx_queue g)" using i by simp
      have n3: "length (g_peers g3) = length (g_peers g)" using s1 s2 s3 by simp
      note view = tx_view_inserted [OF ok notin good(1) n3 inv3 pr old new]
      show thesis
      proof (rule that [OF run])
        show "tx_ok g3" by (rule tx_inv_chain(1) [OF inv3])
        show "(\<exists>k. (Inr i :: nat gresult) = Inr k) \<longleftrightarrow> enqueue_possible g p rpc" using Inr iff1 possible by auto
        have "k < length (g_tx_queue g3) \<and>
            tx_view g3 p = insert_item fst priority (priority, 0, frame_bytes rpc) (tx_view g p) \<and>
            (\<forall>p' < length (g_peers g). p' \<noteq> p \<longrightarrow> tx_view g3 p' = tx_view g p')"
          if "(Inr i :: nat gresult) = Inr k" for k
          using view u1 that s2 s3 by (auto simp: used_items_def)
        then show "\<forall>k. (Inr i :: nat gresult) = Inr k \<longrightarrow> k < length (g_tx_queue g3) \<and>
            tx_view g3 p = insert_item fst priority (priority, 0, frame_bytes rpc) (tx_view g p) \<and>
            (\<forall>p' < length (g_peers g). p' \<noteq> p \<longrightarrow> tx_view g3 p' = tx_view g p')" by blast
      qed (use s1 s2 s3 in simp_all)
    qed
  qed
qed

end
