(* ===== verification/Gossipsub_Tx_Refine.thy ===== *)
theory Gossipsub_Tx_Refine
  imports Gossipsub_Tx_Queue
begin

text \<open>
  The transmit queue refines one list of frames per peer; the empty queue that initialisation leaves
  satisfies the invariant.
\<close>

subsection \<open>Empty queues\<close>

definition idle_peer :: "gossipsub_peer_state_t \<Rightarrow> bool" where
  "idle_peer p \<longleftrightarrow> p_tx_head p = None \<and> p_tx_tail p = None \<and> p_tx_priority_tail p = None \<and>
     p_tx_queue_depth p = 0 \<and> p_tx_priority_depth p = 0 \<and> \<not> p_tx_ready p"

lemma tx_ok_empty:
  assumes "\<forall>i\<in>set (g_tx_queue g). \<not> ti_used i" and "\<forall>p\<in>set (g_peers g). idle_peer p"
    and "g_tx_queue_len g = 0" and "g_tx_ready_count g = 0" and "g_tx_next_peer g < length (g_peers g)"
    and "g_tx_buffer_used g \<le> length (g_tx_buffer g)" and "length (g_tx_buffer g) \<le> SIZE_MAX"
  shows "tx_ok g"
proof (rule tx_inv_chain(1) [of "\<lambda>_. []"])
  have u: "used_items (g_tx_queue g) = {}" using assms(1) by (auto simp: used_items_def)
  have q: "queue_ok (g_tx_queue g) p (g_peers g ! p) []" if "p < length (g_peers g)" for p
    using assms(2) that by (simp add: queue_ok_def idle_peer_def end_of_def)
  have "filter p_tx_ready (g_peers g) = []"
    using assms(2) by (simp add: filter_empty_conv idle_peer_def)
  then show "tx_inv (\<lambda>_. []) None g"
    using assms q u
    by (auto simp: tx_inv_def lists_ok_def items_ok_def room_ok_def schedule_ok_def reserved_for_def
        spans_ok_def used_items_def)
qed

lemma initial_tx_ok:
  assumes "0 < max_peers (cfg_capacity cfg)" and "tx_buffer_bytes (cfg_capacity cfg) \<le> SIZE_MAX"
  shows "tx_ok (initial_router cfg L)"
  by (rule tx_ok_empty)
    (use assms in \<open>auto simp: initial_router_def Let_def zero_tx_item_def idle_peer_def zero_peer_def\<close>)

lemma sample_tx_ok: "tx_ok sample_router"
  by (rule tx_ok_empty)
    (auto simp: sample_router_defs Let_def zero_tx_item_def idle_peer_def zero_peer_def SIZE_MAX_def)

subsection \<open>Enqueuing\<close>

text \<open>Claim C8. Enqueuing an RPC refines insertion into the list of frames of its peer: it always
  returns, it succeeds exactly when the RPC is within its limits and there is a slot, an item and
  room in the buffer, and then the peer's list has the encoded frame behind its priority frames or at
  its end while no other list changes, even when the frames have been moved together in the buffer;
  a refusal leaves every list as it was. Nothing outside the queue is changed and the invariant of
  the queue is kept.\<close>

theorem enqueue_refines:
  assumes "tx_ok g" and "max_rpc_bytes (cfg_limits (g_config g)) < 2 ^ 63"
    and "control_writable (rpc_control rpc)"
  shows "\<exists>r g'. gossipsub_enqueue_rpc_with_lifetime g p rpc lifetime_us priority = Some (r, g') \<and>
    tx_ok g' \<and> tx_core g' = tx_core g \<and>
    ((\<exists>i. r = Inr i) \<longleftrightarrow> enqueue_possible g p rpc) \<and>
    (\<forall>p' < length (g_peers g). tx_view g' p' =
       (if enqueue_possible g p rpc \<and> p' = p
        then insert_item fst priority (priority, 0, frame_bytes rpc) (tx_view g p)
        else tx_view g p'))"
proof -
  obtain r g' where run: "gossipsub_enqueue_rpc_with_lifetime g p rpc lifetime_us priority = Some (r, g')"
    and g': "tx_ok g'" "tx_core g' = tx_core g"
    and iff: "(\<exists>i. r = Inr i) \<longleftrightarrow> enqueue_possible g p rpc"
    and e: "\<forall>e. r = Inl e \<longrightarrow> e \<noteq> LIBP2P_GOSSIPSUB_OK \<and> (\<forall>p' < length (g_peers g). tx_view g' p' = tx_view g p')"
    and i: "\<forall>i. r = Inr i \<longrightarrow> i < length (g_tx_queue g') \<and>
      tx_view g' p = insert_item fst priority (priority, 0, frame_bytes rpc) (tx_view g p) \<and>
      (\<forall>p' < length (g_peers g). p' \<noteq> p \<longrightarrow> tx_view g' p' = tx_view g p')"
    by (rule enqueue_ok [OF assms])
  have "\<forall>p' < length (g_peers g). tx_view g' p' =
       (if enqueue_possible g p rpc \<and> p' = p
        then insert_item fst priority (priority, 0, frame_bytes rpc) (tx_view g p)
        else tx_view g p')"
    using iff e i by (cases r) auto
  with run g' iff show ?thesis by blast
qed

definition sample_graft :: libp2p_gossipsub_rpc_t where
  "sample_graft = empty_rpc\<lparr>rpc_control := empty_control\<lparr>ctl_graft := [\<lparr>graft_topic = Buf [116]\<rparr>]\<rparr>\<rparr>"

theorem enqueue_refines_witness:
  "\<exists>r g'. gossipsub_enqueue_rpc_with_lifetime sample_router 0 sample_graft 0 True = Some (r, g') \<and>
    tx_ok g' \<and> tx_core g' = tx_core sample_router \<and>
    ((\<exists>i. r = Inr i) \<longleftrightarrow> enqueue_possible sample_router 0 sample_graft) \<and>
    (\<forall>p' < length (g_peers sample_router). tx_view g' p' =
       (if enqueue_possible sample_router 0 sample_graft \<and> p' = 0
        then insert_item fst True (True, 0, frame_bytes sample_graft) (tx_view sample_router 0)
        else tx_view sample_router p'))"
  by (rule enqueue_refines [OF sample_tx_ok])
    (simp_all add: sample_router_defs Let_def sample_graft_def empty_rpc_def empty_control_def
      control_writable_def)

end
