(* ===== verification/Gossipsub_Flush.thy ===== *)
theory Gossipsub_Flush
  imports Gossipsub_Send
begin

text \<open>
  The operations of \<open>src/src/protocol/gossipsub/gossipsub_tx.c\<close> that walk the queues of the peers:
  the next deadline, dropping of stale, unwanted and orphaned items, and writing to the streams.
\<close>

subsection \<open>Deadlines and expiry\<close>

partial_function (option) deadline_walk ::
  "gossipsub_tx_item_t list \<Rightarrow> nat option \<Rightarrow> u64 \<Rightarrow> u64 option" where
  "deadline_walk q item_index result =
     (if item_index = None \<or> the item_index \<ge> length q then Some result
      else deadline_walk q (ti_next (q ! the item_index))
             (let item = q ! the item_index in
              if ti_used item \<and> ti_pos item = 0 \<and> ti_deadline_us item \<noteq> 0 \<and>
                 ti_deadline_us item < result
              then ti_deadline_us item else result))"

fun deadline_peers ::
  "gossipsub_tx_item_t list \<Rightarrow> gossipsub_peer_state_t list \<Rightarrow> u64 \<Rightarrow> u64 option" where
  "deadline_peers q [] result = Some result"
| "deadline_peers q (p # ps) result = do {
     result \<leftarrow> deadline_walk q (p_tx_head p) result;
     deadline_peers q ps result
   }"

definition gossipsub_tx_next_deadline :: "libp2p_gossipsub_t \<Rightarrow> u64 \<Rightarrow> u64 option" where
  "gossipsub_tx_next_deadline g current_deadline =
     deadline_peers (g_tx_queue g) (g_peers g) current_deadline"

partial_function (option) stale_walk ::
  "u64 \<Rightarrow> nat option \<Rightarrow> libp2p_gossipsub_t \<Rightarrow> nat \<Rightarrow> (nat \<times> libp2p_gossipsub_t) option" where
  "stale_walk now_us item_index g dropped =
     (if item_index = None \<or> the item_index \<ge> length (g_tx_queue g) \<or>
         \<not> ti_used (g_tx_queue g ! the item_index)
      then Some (dropped, g)
      else if gossipsub_tx_item_stale (g_tx_queue g ! the item_index) now_us
      then Option.bind (gossipsub_tx_remove g (the item_index))
             (\<lambda>g'. stale_walk now_us (ti_next (g_tx_queue g ! the item_index)) g' (dropped + 1))
      else stale_walk now_us (ti_next (g_tx_queue g ! the item_index)) g dropped)"

fun stale_peers ::
  "u64 \<Rightarrow> nat list \<Rightarrow> libp2p_gossipsub_t \<Rightarrow> nat \<Rightarrow> (nat \<times> libp2p_gossipsub_t) option" where
  "stale_peers now_us [] g dropped = Some (dropped, g)"
| "stale_peers now_us (p # ps) g dropped = do {
     (dropped, g) \<leftarrow> stale_walk now_us (p_tx_head (g_peers g ! p)) g dropped;
     stale_peers now_us ps g dropped
   }"

definition gossipsub_tx_drop_stale ::
  "libp2p_gossipsub_t \<Rightarrow> u64 \<Rightarrow> (nat \<times> libp2p_gossipsub_t) option" where
  "gossipsub_tx_drop_stale g now_us = stale_peers now_us [0..<length (g_peers g)] g 0"

subsection \<open>Unwanted and orphaned items\<close>

partial_function (option) unwanted_walk ::
  "byte list \<Rightarrow> nat option \<Rightarrow> libp2p_gossipsub_t \<Rightarrow> libp2p_gossipsub_t option" where
  "unwanted_walk message_id item_index g =
     (if item_index = None then Some g
      else if the item_index \<ge> length (g_tx_queue g) then None
      else if ti_publish (g_tx_queue g ! the item_index) \<and> ti_pos (g_tx_queue g ! the item_index) = 0 \<and>
              ti_message_id (g_tx_queue g ! the item_index) = message_id
      then Option.bind (gossipsub_tx_remove g (the item_index))
             (unwanted_walk message_id (ti_next (g_tx_queue g ! the item_index)))
      else unwanted_walk message_id (ti_next (g_tx_queue g ! the item_index)) g)"

definition gossipsub_drop_queued_publish ::
  "libp2p_gossipsub_t \<Rightarrow> nat \<Rightarrow> gbytes \<Rightarrow> libp2p_gossipsub_t option" where
  "gossipsub_drop_queued_publish g peer_index message_id =
     (if \<not> is_null message_id \<and> peer_index < length (g_peers g)
      then unwanted_walk (contents message_id) (p_tx_head (g_peers g ! peer_index)) g
      else Some g)"

partial_function (option) orphan_loop ::
  "nat \<Rightarrow> libp2p_gossipsub_t \<Rightarrow> libp2p_gossipsub_t option" where
  "orphan_loop peer_index g =
     (if p_tx_head (g_peers g ! peer_index) = None then Some g
      else Option.bind (gossipsub_tx_remove g (the (p_tx_head (g_peers g ! peer_index))))
             (orphan_loop peer_index))"

definition gossipsub_drop_queued_peer ::
  "libp2p_gossipsub_t \<Rightarrow> nat \<Rightarrow> libp2p_gossipsub_t option" where
  "gossipsub_drop_queued_peer g peer_index =
     (if peer_index < length (g_peers g)
      then map_option
             (\<lambda>g. upd_peer peer_index (p_tx_transport_busy_update (\<lambda>_. False))
                    (gossipsub_tx_set_peer_ready peer_index False g))
             (orphan_loop peer_index g)
      else Some g)"

subsection \<open>Writing to the streams\<close>

text \<open>
  The variables of the loop of \<open>gossipsub_flush_peer\<close>, with the host and the router; \<open>host_write\<close>
  is \<open>libp2p_host_stream_write\<close>.
\<close>

type_synonym 'h host_write =
  "'h \<Rightarrow> nat \<Rightarrow> byte list \<Rightarrow> (libp2p_host_err_t \<times> nat) \<times> 'h"

record 'h flush_state =
  fl_router :: libp2p_gossipsub_t
  fl_host :: 'h
  fl_result :: libp2p_gossipsub_err_t
  fl_bytes_written :: nat
  fl_keep_writing :: bool
  fl_peer_blocked :: bool
  fl_made_progress :: bool
  fl_rpcs_sent :: nat

definition flush_block :: "nat \<Rightarrow> 'h flush_state \<Rightarrow> 'h flush_state" where
  "flush_block peer_index s =
     s\<lparr>fl_router := gossipsub_tx_set_peer_ready peer_index False
         (upd_peer peer_index (\<lambda>p. p\<lparr>p_tx_would_block_count := p_tx_would_block_count p + 1,
            p_tx_transport_busy := True\<rparr>) (fl_router s)),
       fl_peer_blocked := True, fl_keep_writing := False\<rparr>"

text \<open>The bytes of the head item that are not written yet; \<open>None\<close> when they leave the buffer.\<close>

definition flush_bytes :: "libp2p_gossipsub_t \<Rightarrow> gossipsub_tx_item_t \<Rightarrow> byte list option" where
  "flush_bytes g item =
     (let remaining = (if ti_pos item \<le> ti_len item then ti_len item - ti_pos item
                       else ti_len item + 2 ^ 64 - ti_pos item)
      in if ti_offset item + ti_pos item + remaining \<le> length (g_tx_buffer g)
         then Some (take remaining (drop (ti_offset item + ti_pos item) (g_tx_buffer g))) else None)"

definition flush_accept :: "nat \<Rightarrow> nat \<Rightarrow> nat \<Rightarrow> 'h flush_state \<Rightarrow> 'h flush_state" where
  "flush_accept peer_index item_index accepted s =
     (if accepted \<noteq> 0 then
        let pos = ti_pos (g_tx_queue (fl_router s) ! item_index) + accepted in
        s\<lparr>fl_made_progress := True, fl_bytes_written := fl_bytes_written s + accepted,
          fl_router := upd_peer peer_index (\<lambda>p. p\<lparr>p_tx_last_offset := of_nat pos,
              p_tx_bytes_accepted := p_tx_bytes_accepted p + of_nat accepted\<rparr>)
            (upd_item item_index (ti_pos_update (\<lambda>_. pos)) (fl_router s))\<rparr>
      else s)"

definition flush_step ::
  "'h host_write \<Rightarrow> nat \<Rightarrow> u64 \<Rightarrow> 'h flush_state \<Rightarrow> 'h flush_state option" where
  "flush_step host_write peer_index now_us s =
     (let g = fl_router s; peer = g_peers g ! peer_index in
      case p_tx_head peer of
        None \<Rightarrow> Some (s\<lparr>fl_router := gossipsub_tx_set_peer_ready peer_index False g,
                      fl_keep_writing := False\<rparr>)
      | Some i \<Rightarrow>
          if i \<ge> length (g_tx_queue g) \<or> \<not> ti_used (g_tx_queue g ! i)
          then Some (s\<lparr>fl_router := gossipsub_tx_set_peer_ready peer_index False g,
                       fl_keep_writing := False\<rparr>)
          else if gossipsub_tx_item_stale (g_tx_queue g ! i) now_us
          then map_option (\<lambda>g'. s\<lparr>fl_router := g', fl_made_progress := True\<rparr>)
                 (gossipsub_tx_remove g i)
          else do {
            bytes \<leftarrow> flush_bytes g (g_tx_queue g ! i);
            case host_write (fl_host s) (the (p_stream peer)) bytes of
              ((host_result, accepted), h) \<Rightarrow>
                let result = gossipsub_host_to_err host_result;
                    s1 = s\<lparr>fl_host := h,
                           fl_result := (if result = LIBP2P_GOSSIPSUB_ERR_WOULD_BLOCK
                                         then LIBP2P_GOSSIPSUB_OK else result)\<rparr>
                in if result = LIBP2P_GOSSIPSUB_ERR_WOULD_BLOCK then Some (flush_block peer_index s1)
                   else if result \<noteq> LIBP2P_GOSSIPSUB_OK then Some s1
                   else
                     let s2 = flush_accept peer_index i accepted s1;
                         item = g_tx_queue (fl_router s2) ! i
                     in if ti_pos item = ti_len item
                        then map_option
                               (\<lambda>g'. s2\<lparr>fl_router := g', fl_rpcs_sent := fl_rpcs_sent s2 + 1\<rparr>)
                               (gossipsub_tx_remove (fl_router s2) i)
                        else if accepted = 0 then Some (flush_block peer_index s2)
                        else Some s2
          })"

partial_function (option) flush_loop ::
  "'h host_write \<Rightarrow> nat \<Rightarrow> u64 \<Rightarrow> 'h flush_state \<Rightarrow> 'h flush_state option" where
  "flush_loop host_write peer_index now_us s =
     (if fl_result s = LIBP2P_GOSSIPSUB_OK \<and>
         p_tx_queue_depth (g_peers (fl_router s) ! peer_index) \<noteq> 0 \<and> fl_keep_writing s
      then Option.bind (flush_step host_write peer_index now_us s)
             (flush_loop host_write peer_index now_us)
      else Some s)"

text \<open>
  Flushing one peer: the error code, the host, whether bytes were written or items dropped, the
  number of RPCs sent and the router.
\<close>

definition gossipsub_flush_peer ::
  "'h host_write \<Rightarrow> libp2p_gossipsub_t \<Rightarrow> 'h \<Rightarrow> nat \<Rightarrow> u64 \<Rightarrow> bool \<Rightarrow> nat \<Rightarrow>
   (libp2p_gossipsub_err_t \<times> 'h \<times> bool \<times> nat \<times> libp2p_gossipsub_t) option" where
  "gossipsub_flush_peer host_write g h peer_index now_us made_progress rpcs_sent =
     (if peer_index \<ge> length (g_peers g)
      then Some (LIBP2P_GOSSIPSUB_ERR_INVALID_ARG, h, made_progress, rpcs_sent, g)
      else if p_stream (g_peers g ! peer_index) = None
      then Some (LIBP2P_GOSSIPSUB_OK, h, made_progress, rpcs_sent,
                 gossipsub_tx_set_peer_ready peer_index False g)
      else do {
        s \<leftarrow> flush_loop host_write peer_index now_us
               \<lparr>fl_router = g, fl_host = h, fl_result = LIBP2P_GOSSIPSUB_OK, fl_bytes_written = 0,
                fl_keep_writing = True, fl_peer_blocked = False, fl_made_progress = made_progress,
                fl_rpcs_sent = rpcs_sent\<rparr>;
        let g' = fl_router s;
        let peer = g_peers g' ! peer_index;
        let g'' = (if p_tx_queue_depth peer \<noteq> 0
                   then gossipsub_tx_set_peer_ready peer_index
                          (if fl_peer_blocked s then False
                           else if fl_bytes_written s \<noteq> 0 then True else p_tx_ready peer) g'
                   else g');
        Some (fl_result s, fl_host s, fl_made_progress s, fl_rpcs_sent s, g'')
      })"

text \<open>
  The round over the ready peers, for \<open>n\<close> further visits. The code indexes the peers with
  \<open>tx_next_peer\<close> unchecked.
\<close>

fun flush_round ::
  "'h host_write \<Rightarrow> u64 \<Rightarrow> nat \<Rightarrow> libp2p_gossipsub_t \<Rightarrow> 'h \<Rightarrow> bool \<Rightarrow> nat \<Rightarrow>
   (libp2p_gossipsub_err_t \<times> 'h \<times> bool \<times> nat \<times> libp2p_gossipsub_t) option" where
  "flush_round host_write now_us 0 g h made_progress rpcs_sent =
     Some (LIBP2P_GOSSIPSUB_OK, h, made_progress, rpcs_sent, g)"
| "flush_round host_write now_us (Suc n) g h made_progress rpcs_sent =
     (if g_tx_ready_count g = 0 then Some (LIBP2P_GOSSIPSUB_OK, h, made_progress, rpcs_sent, g)
      else if g_tx_next_peer g \<ge> length (g_peers g) then None
      else
        let p = g_tx_next_peer g; peer = g_peers g ! p;
            g1 = g\<lparr>g_tx_next_peer := (p + 1) mod length (g_peers g)\<rparr>
        in if p_tx_ready peer \<and> p_tx_queue_depth peer \<noteq> 0 then do {
             (result, h2, progress, sent, g2) \<leftarrow>
               gossipsub_flush_peer host_write g1 h p now_us False rpcs_sent;
             if result = LIBP2P_GOSSIPSUB_OK
             then flush_round host_write now_us n g2 h2 (made_progress \<or> progress) sent
             else Some (result, h2, made_progress \<or> progress, sent, g2)
           }
           else flush_round host_write now_us n g1 h made_progress rpcs_sent)"

definition gossipsub_flush_ready_peers ::
  "'h host_write \<Rightarrow> libp2p_gossipsub_t \<Rightarrow> 'h \<Rightarrow> u64 \<Rightarrow> bool \<Rightarrow> nat \<Rightarrow>
   (libp2p_gossipsub_err_t \<times> 'h \<times> bool \<times> nat \<times> libp2p_gossipsub_t) option" where
  "gossipsub_flush_ready_peers host_write g h now_us made_progress rpcs_sent =
     flush_round host_write now_us (length (g_peers g)) g h made_progress rpcs_sent"

subsection \<open>Statistics\<close>

record libp2p_gossipsub_tx_peer_stats_t =
  st_used :: bool
  st_ready :: bool
  st_current_publish :: bool
  st_queue_depth :: nat
  st_current_pos :: nat
  st_current_len :: nat
  st_oldest_age_us :: u64
  st_last_writable_us :: u64
  st_last_tx_offset :: u64
  st_bytes_accepted :: u64
  st_would_block_count :: u64

definition libp2p_gossipsub_tx_peer_stats ::
  "libp2p_gossipsub_t \<Rightarrow> nat \<Rightarrow> u64 \<Rightarrow> libp2p_gossipsub_tx_peer_stats_t gresult" where
  "libp2p_gossipsub_tx_peer_stats g peer_index now_us =
     (if peer_index \<ge> length (g_peers g) then Inl LIBP2P_GOSSIPSUB_ERR_INVALID_ARG
      else
        let peer = g_peers g ! peer_index;
            base = \<lparr>st_used = p_used peer, st_ready = p_tx_ready peer, st_current_publish = False,
              st_queue_depth = p_tx_queue_depth peer, st_current_pos = 0, st_current_len = 0,
              st_oldest_age_us = 0, st_last_writable_us = p_tx_last_writable_us peer,
              st_last_tx_offset = p_tx_last_offset peer,
              st_bytes_accepted = p_tx_bytes_accepted peer,
              st_would_block_count = p_tx_would_block_count peer\<rparr>
        in case p_tx_head peer of
             None \<Rightarrow> Inr base
           | Some i \<Rightarrow>
               if i < length (g_tx_queue g) \<and> ti_used (g_tx_queue g ! i)
               then let item = g_tx_queue g ! i in
                 Inr (base\<lparr>st_current_publish := ti_publish item, st_current_pos := ti_pos item,
                   st_current_len := ti_len item,
                   st_oldest_age_us := (if now_us \<ge> ti_enqueued_us item
                                        then now_us - ti_enqueued_us item else 0)\<rparr>)
               else Inr base)"

end
