(* ===== verification/Gossipsub_Tx_Drop.thy ===== *)
theory Gossipsub_Tx_Drop
  imports Gossipsub_Tx_Refine Gossipsub_Flush
begin

text \<open>
  The walks along the queues that drop items: on a router with sound queues they end, and they
  remove exactly the items they test for. What removal leaves alone is collected first.
\<close>

subsection \<open>What a removal leaves alone\<close>

definition only_peer :: "nat \<Rightarrow> libp2p_gossipsub_t \<Rightarrow> libp2p_gossipsub_t \<Rightarrow> bool" where
  "only_peer p g g' \<longleftrightarrow> length (g_peers g') = length (g_peers g) \<and>
     (\<forall>p'. p' \<noteq> p \<longrightarrow> g_peers g' ! p' = g_peers g ! p')"

lemma only_peer_refl [simp]: "only_peer p g g"
  by (simp add: only_peer_def)

lemma only_peer_trans: "only_peer p g g' \<Longrightarrow> only_peer p g' g'' \<Longrightarrow> only_peer p g g''"
  by (simp add: only_peer_def)

lemma only_peer_same: "g_peers g' = g_peers g \<Longrightarrow> only_peer p g g'"
  by (simp add: only_peer_def)

lemma only_peer_upd_peer: "only_peer p g h \<Longrightarrow> only_peer p g (upd_peer p f h)"
  by (simp add: only_peer_def)

lemma only_peer_upd_item: "only_peer p g h \<Longrightarrow> only_peer p g (upd_item i f h)"
  by (simp add: only_peer_def)

lemma only_peer_set_ready: "only_peer p g h \<Longrightarrow> only_peer p g (gossipsub_tx_set_peer_ready p b h)"
  by (simp add: gossipsub_tx_set_peer_ready_def only_peer_def Let_def)

lemma only_peer_recount: "only_peer p g h \<Longrightarrow> only_peer p g (gossipsub_tx_recount_peer_queue p h)"
  by (simp add: gossipsub_tx_recount_peer_queue_def only_peer_upd_peer split: prod.split)

lemma only_peer_unlink: "only_peer p g h \<Longrightarrow> only_peer p g (unlink_item p i previous h)"
  by (simp add: unlink_item_def Let_def only_peer_upd_peer only_peer_upd_item only_peer_recount
      split: option.split)

lemma remove_only_peer:
  assumes "gossipsub_tx_remove g i = Some g'"
  shows "only_peer (ti_peer_index (g_tx_queue g ! i)) g g'"
proof (cases "i < length (g_tx_queue g) \<and> ti_used (g_tx_queue g ! i)")
  case True
  have *: "only_peer p g (g3\<lparr>g_tx_queue_len := n, g_tx_buffer_used := m\<rparr>)" if "only_peer p g g3" for p g3 n m
    using that by (simp add: only_peer_def)
  from True assms show ?thesis
    by (auto simp: gossipsub_tx_remove_def Let_def intro!: * only_peer_upd_item only_peer_set_ready
        only_peer_upd_peer only_peer_unlink split: if_splits option.splits bind_splits)
qed (use assms in \<open>auto simp: gossipsub_tx_remove_def\<close>)

text \<open>The items other than the removed one change in nothing but their link.\<close>

definition relinked_at :: "libp2p_gossipsub_t \<Rightarrow> libp2p_gossipsub_t \<Rightarrow> nat \<Rightarrow> bool" where
  "relinked_at g g' j \<longleftrightarrow> (\<exists>n. g_tx_queue g' ! j = (g_tx_queue g ! j)\<lparr>ti_next := n\<rparr>)"

lemma relinked_at_refl [simp]: "relinked_at g g j"
  using same_next [of "g_tx_queue g ! j"] by (simp add: relinked_at_def)

lemma relinked_at_trans: "relinked_at g g' j \<Longrightarrow> relinked_at g' g'' j \<Longrightarrow> relinked_at g g'' j"
  by (auto simp: relinked_at_def)

lemma relinked_at_same: "g_tx_queue g' = g_tx_queue g \<Longrightarrow> relinked_at g g' j"
  using same_next [of "g_tx_queue g ! j"] by (simp add: relinked_at_def)

lemma recount_queue: "g_tx_queue (gossipsub_tx_recount_peer_queue p g) = g_tx_queue g"
  by (simp add: gossipsub_tx_recount_peer_queue_def split: prod.split)

lemma unlink_relinked: "relinked_at g (unlink_item p i previous g) j"
proof (cases previous)
  case (Some c)
  have "relinked_at g (upd_item c (ti_next_update (\<lambda>_. n)) g) j" for n
    using same_next [of "g_tx_queue g ! j"]
    by (cases "c = j"; cases "c < length (g_tx_queue g)")
      (auto simp: relinked_at_def list_update_beyond)
  then show ?thesis
    by (simp add: unlink_item_def Let_def Some relinked_at_def recount_queue)
qed (auto simp: unlink_item_def Let_def recount_queue intro: relinked_at_same)

lemma remove_relinked:
  assumes "gossipsub_tx_remove g i = Some g'" and "j \<noteq> i"
  shows "relinked_at g g' j"
proof (cases "i < length (g_tx_queue g) \<and> ti_used (g_tx_queue g ! i)")
  case True
  have *: "relinked_at g ((upd_item i (\<lambda>_. zero_tx_item) g1)\<lparr>g_tx_queue_len := n, g_tx_buffer_used := m\<rparr>) j"
    if "relinked_at g g1 j" for g1 n m
    using that assms(2) by (simp add: relinked_at_def)
  have **: "relinked_at g (gossipsub_tx_set_peer_ready p b (upd_peer p f g1)) j"
    if "relinked_at g g1 j" for g1 p b f
    using that by (simp add: relinked_at_def set_peer_ready_frame)
  from True assms show ?thesis
    by (auto simp: gossipsub_tx_remove_def Let_def intro!: * ** unlink_relinked
        split: if_splits option.splits bind_splits)
qed (use assms in \<open>auto simp: gossipsub_tx_remove_def\<close>)

subsection \<open>Dropping a set of items of one peer\<close>

definition dropped :: "nat set \<Rightarrow> nat \<Rightarrow> libp2p_gossipsub_t \<Rightarrow> libp2p_gossipsub_t \<Rightarrow> bool" where
  "dropped A p g g' \<longleftrightarrow> tx_core g' = tx_core g \<and> g_config g' = g_config g \<and>
     length (g_tx_queue g') = length (g_tx_queue g) \<and> g_tx_buffer g' = g_tx_buffer g \<and>
     used_items (g_tx_queue g') = used_items (g_tx_queue g) - A \<and>
     (\<forall>j\<in>used_items (g_tx_queue g) - A. relinked_at g g' j) \<and> only_peer p g g'"

lemma dropped_refl: "dropped {} p g g"
  by (simp add: dropped_def)

lemma dropped_trans:
  assumes "dropped A p g g'" and "dropped B p g' g''"
  shows "dropped (A \<union> B) p g g''"
  using assms unfolding dropped_def by (auto intro: relinked_at_trans only_peer_trans)

lemma dropped_item:
  assumes "dropped A p g g'" and "j \<in> used_items (g_tx_queue g) - A"
  shows "frame_of g' j = frame_of g j" and "ti_peer_index (g_tx_queue g' ! j) = ti_peer_index (g_tx_queue g ! j)"
    and "gossipsub_tx_item_stale (g_tx_queue g' ! j) now_us = gossipsub_tx_item_stale (g_tx_queue g ! j) now_us"
    and "ti_publish (g_tx_queue g' ! j) = ti_publish (g_tx_queue g ! j)"
    and "ti_message_id (g_tx_queue g' ! j) = ti_message_id (g_tx_queue g ! j)"
    and "ti_pos (g_tx_queue g' ! j) = ti_pos (g_tx_queue g ! j)"
    and "ti_len (g_tx_queue g' ! j) = ti_len (g_tx_queue g ! j)"
    and "ti_offset (g_tx_queue g' ! j) = ti_offset (g_tx_queue g ! j)"
proof -
  obtain n where "g_tx_queue g' ! j = (g_tx_queue g ! j)\<lparr>ti_next := n\<rparr>" and "g_tx_buffer g' = g_tx_buffer g"
    using assms unfolding dropped_def relinked_at_def by blast
  then show "frame_of g' j = frame_of g j" and "ti_peer_index (g_tx_queue g' ! j) = ti_peer_index (g_tx_queue g ! j)"
    and "gossipsub_tx_item_stale (g_tx_queue g' ! j) now_us = gossipsub_tx_item_stale (g_tx_queue g ! j) now_us"
    and "ti_publish (g_tx_queue g' ! j) = ti_publish (g_tx_queue g ! j)"
    and "ti_message_id (g_tx_queue g' ! j) = ti_message_id (g_tx_queue g ! j)"
    and "ti_pos (g_tx_queue g' ! j) = ti_pos (g_tx_queue g ! j)"
    and "ti_len (g_tx_queue g' ! j) = ti_len (g_tx_queue g ! j)"
    and "ti_offset (g_tx_queue g' ! j) = ti_offset (g_tx_queue g ! j)"
    by (simp_all add: frame_of_def item_bytes_def gossipsub_tx_item_stale_def)
qed

lemma inv_queue:
  assumes "tx_inv cs None g" and "p < length (g_peers g)"
  shows "queue_ok (g_tx_queue g) p (g_peers g ! p) (cs p)"
  using assms by (simp add: tx_inv_def lists_ok_def)

lemma inv_item:
  assumes "tx_inv cs None g" and "p < length (g_peers g)" and "i \<in> set (cs p)"
  shows "i \<in> used_items (g_tx_queue g)" and "i < length (g_tx_queue g)" and "ti_used (g_tx_queue g ! i)"
    and "ti_peer_index (g_tx_queue g ! i) = p"
  using inv_queue [OF assms(1,2)] assms(3) by (auto simp: queue_ok_def used_items_def)

lemma remove_dropped:
  assumes inv: "tx_inv cs None g" and p: "p < length (g_peers g)" and i: "i \<in> set (cs p)"
  obtains g' where "gossipsub_tx_remove g i = Some g'" and "tx_inv (cs(p := removeAll i (cs p))) None g'"
    and "dropped {i} p g g'"
proof -
  note it = inv_item [OF inv p i]
  obtain g' where r: "gossipsub_tx_remove g i = Some g'"
    and v: "tx_inv (cs(ti_peer_index (g_tx_queue g ! i) := removeAll i (cs (ti_peer_index (g_tx_queue g ! i))))) None g'"
    and s: "tx_core g' = tx_core g" "g_config g' = g_config g" "length (g_tx_queue g') = length (g_tx_queue g)"
      "g_tx_buffer g' = g_tx_buffer g" "used_items (g_tx_queue g') = used_items (g_tx_queue g) - {i}"
    by (rule remove_ok [OF inv it(1)])
  have "dropped {i} p g g'"
    unfolding dropped_def using s remove_relinked [OF r] remove_only_peer [OF r] it(4) by auto
  with that r v it(4) show thesis by simp
qed

subsection \<open>The rest of a queue\<close>

definition first_of :: "nat list \<Rightarrow> nat option" where
  "first_of ks = (case ks of [] \<Rightarrow> None | k # _ \<Rightarrow> Some k)"

lemma first_of_simps [simp]: "first_of [] = None" "first_of (k # ks) = Some k"
  by (simp_all add: first_of_def)

lemma chain_first: "chain nx h ks None \<Longrightarrow> h = first_of ks"
  by (cases ks) auto

lemma chain_next: "chain nx h (xs @ k # ks) None \<Longrightarrow> nx k = first_of ks"
  by (auto simp: chain_append dest: chain_first)

lemma inv_next:
  assumes "tx_inv cs None g" and "p < length (g_peers g)" and "cs p = xs @ k # ks"
  shows "ti_next (g_tx_queue g ! k) = first_of ks"
proof -
  have "chain (next_of (g_tx_queue g)) (p_tx_head (g_peers g ! p)) (cs p) None"
    using inv_queue [OF assms(1,2)] unfolding queue_ok_def by blast
  then show ?thesis unfolding assms(3) by (rule chain_next)
qed

lemma inv_split:
  assumes "tx_inv cs None g" and "p < length (g_peers g)" and "cs p = xs @ k # ks"
  shows "removeAll k (cs p) = xs @ ks" and "k \<notin> set xs" and "k \<notin> set ks"
proof -
  have "distinct (cs p)" using inv_queue [OF assms(1,2)] unfolding queue_ok_def by blast
  then show "removeAll k (cs p) = xs @ ks" and "k \<notin> set xs" and "k \<notin> set ks"
    unfolding assms(3) by auto
qed

text \<open>One round of a walk that drops the item at the front of the rest.\<close>

lemma drop_front:
  assumes inv: "tx_inv cs None g" and p: "p < length (g_peers g)" and c: "cs p = xs @ k # ks"
  obtains g' where "gossipsub_tx_remove g k = Some g'" and "tx_inv (cs(p := xs @ ks)) None g'"
    and "dropped {k} p g g'" and "length (g_peers g') = length (g_peers g)"
proof -
  have k: "k \<in> set (cs p)" using c by simp
  obtain g' where g': "gossipsub_tx_remove g k = Some g'" "tx_inv (cs(p := removeAll k (cs p))) None g'"
    "dropped {k} p g g'"
    by (rule remove_dropped [OF inv p k])
  have "length (g_peers g') = length (g_peers g)" using g'(3) by (simp add: dropped_def only_peer_def)
  with that g' inv_split(1) [OF inv p c] show thesis by simp
qed

subsection \<open>Stale items\<close>

abbreviation stale_at :: "libp2p_gossipsub_t \<Rightarrow> u64 \<Rightarrow> nat \<Rightarrow> bool" where
  "stale_at g now_us i \<equiv> gossipsub_tx_item_stale (g_tx_queue g ! i) now_us"

lemma stale_walk_ok:
  assumes "tx_inv cs None g" and "p < length (g_peers g)" and "cs p = xs @ ks"
  shows "\<exists>g'. stale_walk now_us (first_of ks) g d = Some (d + length (filter (stale_at g now_us) ks), g') \<and>
    tx_inv (cs(p := xs @ filter (\<lambda>i. \<not> stale_at g now_us i) ks)) None g' \<and>
    dropped (set (filter (stale_at g now_us) ks)) p g g'"
  using assms
proof (induction ks arbitrary: g cs xs d)
  case Nil
  then have "cs(p := xs) = cs" by auto
  with Nil show ?case by (simp add: stale_walk.simps dropped_refl)
next
  case (Cons k ks)
  note it = inv_item [OF Cons.prems(1,2)] and nx = inv_next [OF Cons.prems]
  have k: "k < length (g_tx_queue g)" "ti_used (g_tx_queue g ! k)" using it [of k] Cons.prems(3) by simp_all
  show ?case
  proof (cases "stale_at g now_us k")
    case False
    have "cs p = (xs @ [k]) @ ks" using Cons.prems(3) by simp
    from Cons.IH [OF Cons.prems(1,2) this, of d] False k nx show ?thesis
      by (simp add: stale_walk.simps [of now_us "Some k"])
  next
    case True
    obtain g1 where r: "gossipsub_tx_remove g k = Some g1" and inv1: "tx_inv (cs(p := xs @ ks)) None g1"
      and d1: "dropped {k} p g g1" and n1: "length (g_peers g1) = length (g_peers g)"
      by (rule drop_front [OF Cons.prems])
    have st: "stale_at g1 now_us j = stale_at g now_us j" if "j \<in> set ks" for j
      using dropped_item(3) [OF d1] that it [of j] inv_split(3) [OF Cons.prems] Cons.prems(3) by auto
    have f: "filter (stale_at g1 now_us) ks = filter (stale_at g now_us) ks"
      "filter (\<lambda>i. \<not> stale_at g1 now_us i) ks = filter (\<lambda>i. \<not> stale_at g now_us i) ks"
      using st by (auto intro: filter_cong)
    have "p < length (g_peers g1)" "(cs(p := xs @ ks)) p = xs @ ks" using n1 Cons.prems(2) by simp_all
    from Cons.IH [OF inv1 this, of "d + 1"] obtain g' where
      w: "stale_walk now_us (first_of ks) g1 (d + 1) = Some (d + 1 + length (filter (stale_at g now_us) ks), g')"
      and inv': "tx_inv (cs(p := xs @ filter (\<lambda>i. \<not> stale_at g now_us i) ks)) None g'"
      and d': "dropped (set (filter (stale_at g now_us) ks)) p g1 g'"
      unfolding f by (auto simp del: fun_upd_apply)
    have "dropped (insert k (set (filter (stale_at g now_us) ks))) p g g'"
      using dropped_trans [OF d1 d'] by simp
    moreover have "stale_walk now_us (first_of (k # ks)) g d =
        Some (d + length (filter (stale_at g now_us) (k # ks)), g')"
      using True k nx r w by (simp add: stale_walk.simps [of now_us "Some k"])
    ultimately show ?thesis using True inv' by (simp del: fun_upd_apply)
  qed
qed

text \<open>The walks keep every other peer's queue; the indices of a peer's items are its own.\<close>

lemma inv_head:
  assumes "tx_inv cs None g" and "p < length (g_peers g)"
  shows "p_tx_head (g_peers g ! p) = first_of (cs p)"
  using inv_queue [OF assms] by (auto simp: queue_ok_def intro: chain_first)

lemma inv_disjoint:
  assumes "tx_inv cs None g" and "p < length (g_peers g)" and "p' < length (g_peers g)" and "p \<noteq> p'"
    and "i \<in> set (cs p)"
  shows "i \<notin> set (cs p')"
  using inv_item(4) [OF assms(1,2,5)] inv_item(4) [OF assms(1,3)] assms(4) by auto

definition kept :: "libp2p_gossipsub_t \<Rightarrow> libp2p_gossipsub_t \<Rightarrow> bool" where
  "kept g g' \<longleftrightarrow> tx_core g' = tx_core g \<and> g_config g' = g_config g \<and>
     length (g_tx_queue g') = length (g_tx_queue g) \<and> g_tx_buffer g' = g_tx_buffer g \<and>
     used_items (g_tx_queue g') \<subseteq> used_items (g_tx_queue g) \<and>
     (\<forall>j\<in>used_items (g_tx_queue g'). relinked_at g g' j) \<and>
     length (g_peers g') = length (g_peers g)"

lemma kept_refl: "kept g g"
  by (simp add: kept_def)

lemma kept_trans: "kept g g' \<Longrightarrow> kept g' g'' \<Longrightarrow> kept g g''"
  unfolding kept_def by (intro conjI ballI) (auto, meson relinked_at_trans subsetD)

lemma dropped_kept: "dropped A p g g' \<Longrightarrow> kept g g'"
  by (auto simp: dropped_def kept_def only_peer_def)

lemma kept_item:
  assumes "kept g g'" and "j \<in> used_items (g_tx_queue g')"
  shows "frame_of g' j = frame_of g j" and "stale_at g' now_us j = stale_at g now_us j"
proof -
  obtain n where "g_tx_queue g' ! j = (g_tx_queue g ! j)\<lparr>ti_next := n\<rparr>" and "g_tx_buffer g' = g_tx_buffer g"
    using assms unfolding kept_def relinked_at_def by blast
  then show "frame_of g' j = frame_of g j" and "stale_at g' now_us j = stale_at g now_us j"
    by (simp_all add: frame_of_def item_bytes_def gossipsub_tx_item_stale_def)
qed

lemma stale_peers_ok:
  assumes "tx_inv cs None g" and "set ps \<subseteq> {..<length (g_peers g)}" and "distinct ps"
  shows "\<exists>g'. stale_peers now_us ps g d =
      Some (d + (\<Sum>p\<leftarrow>ps. length (filter (stale_at g now_us) (cs p))), g') \<and>
    tx_inv (\<lambda>p. if p \<in> set ps then filter (\<lambda>i. \<not> stale_at g now_us i) (cs p) else cs p) None g' \<and> kept g g' \<and>
    (\<forall>p. cs p = [] \<longrightarrow> g_peers g' ! p = g_peers g ! p)"
  using assms
proof (induction ps arbitrary: g cs d)
  case Nil
  then show ?case by (simp add: kept_refl)
next
  case (Cons p ps)
  have p: "p < length (g_peers g)" using Cons.prems(2) by simp
  let ?S = "stale_at g now_us" and ?cs = "cs(p := filter (\<lambda>i. \<not> stale_at g now_us i) (cs p))"
  obtain g1 where w: "stale_walk now_us (first_of (cs p)) g d = Some (d + length (filter ?S (cs p)), g1)"
    and inv1: "tx_inv ?cs None g1" and d1: "dropped (set (filter ?S (cs p))) p g g1"
    using stale_walk_ok [OF Cons.prems(1) p, of "[]" "cs p" now_us d] by auto
  note k1 = dropped_kept [OF d1]
  have n1: "length (g_peers g1) = length (g_peers g)" using k1 by (simp add: kept_def)
  have eq: "stale_at g1 now_us j = ?S j" if "j \<in> set (cs p')" "p' \<in> set ps" for j p'
  proof -
    have p': "p' < length (g_peers g)" "p' \<noteq> p" using that(2) Cons.prems(2,3) by auto
    have "j \<in> set (?cs p')" using that p' by simp
    from kept_item(2) [OF k1 inv_item(1) [OF inv1 _ this]] p' n1 show ?thesis by simp
  qed
  have f: "filter (stale_at g1 now_us) (cs p') = filter ?S (cs p')"
    "filter (\<lambda>i. \<not> stale_at g1 now_us i) (cs p') = filter (\<lambda>i. \<not> ?S i) (cs p')" if "p' \<in> set ps" for p'
    using eq [OF _ that] by (auto intro: filter_cong)
  have ne: "p' \<noteq> p" if "p' \<in> set ps" for p' using that Cons.prems(3) by auto
  have "set ps \<subseteq> {..<length (g_peers g1)}" "distinct ps" using Cons.prems(2,3) n1 by auto
  from Cons.IH [OF inv1 this, of "d + length (filter ?S (cs p))"] obtain g' where
    w': "stale_peers now_us ps g1 (d + length (filter ?S (cs p))) =
      Some (d + length (filter ?S (cs p)) + (\<Sum>p\<leftarrow>ps. length (filter (stale_at g1 now_us) (?cs p))), g')"
    and inv': "tx_inv (\<lambda>p. if p \<in> set ps then filter (\<lambda>i. \<not> stale_at g1 now_us i) (?cs p) else ?cs p) None g'"
    and k': "kept g1 g'" and e': "\<forall>p. ?cs p = [] \<longrightarrow> g_peers g' ! p = g_peers g1 ! p" by blast
  have e1: "g_peers g1 ! p' = g_peers g ! p'" if "cs p' = []" for p'
  proof (cases "p' = p")
    case True
    with w that have "g1 = g" by (simp add: stale_walk.simps)
    then show ?thesis by simp
  qed (use d1 in \<open>simp add: dropped_def only_peer_def\<close>)
  have "\<forall>p. cs p = [] \<longrightarrow> g_peers g' ! p = g_peers g ! p"
  proof (intro allI impI)
    fix q assume "cs q = []"
    then have "?cs q = []" by (cases "q = p") auto
    with e' e1 [OF \<open>cs q = []\<close>] show "g_peers g' ! q = g_peers g ! q" by metis
  qed
  moreover have "(\<Sum>p\<leftarrow>ps. length (filter (stale_at g1 now_us) (?cs p))) = (\<Sum>p\<leftarrow>ps. length (filter ?S (cs p)))"
    using ne f by (intro arg_cong [where f = sum_list]) auto
  moreover have "(\<lambda>p. if p \<in> set ps then filter (\<lambda>i. \<not> stale_at g1 now_us i) (?cs p) else ?cs p) =
      (\<lambda>p'. if p' \<in> set (p # ps) then filter (\<lambda>i. \<not> ?S i) (cs p') else cs p')"
    using ne f by (intro ext) auto
  ultimately show ?case
    using w w' inv' kept_trans [OF k1 k'] inv_head [OF Cons.prems(1) p] by (simp add: add.assoc)
qed

lemma drop_stale_ok:
  assumes "tx_ok g"
  obtains g' where "gossipsub_tx_drop_stale g now_us =
      Some (\<Sum>p\<leftarrow>[0..<length (g_peers g)]. length (filter (stale_at g now_us) (tx_chain g p)), g')"
    and "tx_ok g'" and "kept g g'"
    and "\<forall>p < length (g_peers g). tx_chain g' p = filter (\<lambda>i. \<not> stale_at g now_us i) (tx_chain g p)"
    and "\<forall>p. tx_chain g p = [] \<longrightarrow> g_peers g' ! p = g_peers g ! p"
proof -
  let ?n = "length (g_peers g)"
  let ?cs = "\<lambda>p. if p \<in> set [0..<?n] then filter (\<lambda>i. \<not> stale_at g now_us i) (tx_chain g p) else tx_chain g p"
  have "set [0..<?n] \<subseteq> {..<?n}" "distinct [0..<?n]" by auto
  from stale_peers_ok [OF tx_okD [OF assms] this, of now_us 0] obtain g' where
    w: "stale_peers now_us [0..<?n] g 0 =
      Some (\<Sum>p\<leftarrow>[0..<?n]. length (filter (stale_at g now_us) (tx_chain g p)), g')"
    and inv: "tx_inv ?cs None g'" and k: "kept g g'"
    and e: "\<forall>p. tx_chain g p = [] \<longrightarrow> g_peers g' ! p = g_peers g ! p"
    by auto
  have "tx_chain g' p = filter (\<lambda>i. \<not> stale_at g now_us i) (tx_chain g p)" if "p < ?n" for p
    using tx_inv_chain(2) [OF inv] k that by (simp add: kept_def)
  with w k e tx_inv_chain(1) [OF inv] that show thesis by (auto simp: gossipsub_tx_drop_stale_def)
qed

subsection \<open>Unwanted items\<close>

definition unwanted :: "byte list \<Rightarrow> gossipsub_tx_item_t \<Rightarrow> bool" where
  "unwanted message_id item \<longleftrightarrow>
     ti_publish item \<and> ti_pos item = 0 \<and> ti_message_id item = message_id"

lemma unwanted_walk_ok:
  assumes "tx_inv cs None g" and "p < length (g_peers g)" and "cs p = xs @ ks"
  shows "\<exists>g'. unwanted_walk message_id (first_of ks) g = Some g' \<and>
    tx_inv (cs(p := xs @ filter (\<lambda>i. \<not> unwanted message_id (g_tx_queue g ! i)) ks)) None g' \<and>
    dropped (set (filter (\<lambda>i. unwanted message_id (g_tx_queue g ! i)) ks)) p g g'"
  using assms
proof (induction ks arbitrary: g cs xs)
  case Nil
  then have "cs(p := xs) = cs" by auto
  with Nil show ?case by (simp add: unwanted_walk.simps dropped_refl)
next
  case (Cons k ks)
  let ?U = "\<lambda>g i. unwanted message_id (g_tx_queue g ! i)"
  note it = inv_item [OF Cons.prems(1,2)] and nx = inv_next [OF Cons.prems]
  have k: "k < length (g_tx_queue g)" using it(2) [of k] Cons.prems(3) by simp
  show ?case
  proof (cases "?U g k")
    case False
    have "cs p = (xs @ [k]) @ ks" using Cons.prems(3) by simp
    moreover have "unwanted_walk message_id (first_of (k # ks)) g = unwanted_walk message_id (first_of ks) g"
      using False k nx by (auto simp: unwanted_walk.simps [of message_id "Some k"] unwanted_def)
    ultimately show ?thesis using Cons.IH [OF Cons.prems(1,2)] False by (simp del: fun_upd_apply)
  next
    case True
    obtain g1 where r: "gossipsub_tx_remove g k = Some g1" and inv1: "tx_inv (cs(p := xs @ ks)) None g1"
      and d1: "dropped {k} p g g1" and n1: "length (g_peers g1) = length (g_peers g)"
      by (rule drop_front [OF Cons.prems])
    have st: "?U g1 j = ?U g j" if "j \<in> set ks" for j
    proof -
      have "j \<in> used_items (g_tx_queue g) - {k}"
        using that it(1) [of j] inv_split(3) [OF Cons.prems] Cons.prems(3) by auto
      from dropped_item(4,5,6) [OF d1 this] show ?thesis by (simp add: unwanted_def)
    qed
    have f: "filter (?U g1) ks = filter (?U g) ks"
      "filter (\<lambda>i. \<not> ?U g1 i) ks = filter (\<lambda>i. \<not> ?U g i) ks"
      using st by (auto intro: filter_cong)
    have "p < length (g_peers g1)" "(cs(p := xs @ ks)) p = xs @ ks" using n1 Cons.prems(2) by simp_all
    from Cons.IH [OF inv1 this] obtain g' where
      w: "unwanted_walk message_id (first_of ks) g1 = Some g'"
      and inv': "tx_inv (cs(p := xs @ filter (\<lambda>i. \<not> ?U g i) ks)) None g'"
      and d': "dropped (set (filter (?U g) ks)) p g1 g'"
      unfolding f by (auto simp del: fun_upd_apply)
    have "dropped (insert k (set (filter (?U g) ks))) p g g'"
      using dropped_trans [OF d1 d'] by simp
    moreover have "unwanted_walk message_id (first_of (k # ks)) g = Some g'"
      using True k nx r w by (simp add: unwanted_walk.simps [of message_id "Some k"] unwanted_def)
    ultimately show ?thesis using True inv' by (simp del: fun_upd_apply)
  qed
qed

lemma drop_queued_publish_ok:
  assumes "tx_ok g"
  obtains g' where "gossipsub_drop_queued_publish g p message_id = Some g'"
    and "tx_ok g'" and "kept g g'" and "only_peer p g g'"
    and "p < length (g_peers g) \<and> \<not> is_null message_id \<longrightarrow>
      tx_chain g' p = filter (\<lambda>i. \<not> unwanted (contents message_id) (g_tx_queue g ! i)) (tx_chain g p)"
    and "\<forall>p' < length (g_peers g). p' \<noteq> p \<longrightarrow> tx_chain g' p' = tx_chain g p'"
proof (cases "p < length (g_peers g) \<and> \<not> is_null message_id")
  case True
  note inv = tx_okD [OF assms]
  from unwanted_walk_ok [OF inv, of p "[]" "tx_chain g p" "contents message_id"] True obtain g' where
    w: "unwanted_walk (contents message_id) (first_of (tx_chain g p)) g = Some g'"
    and i: "tx_inv ((tx_chain g)(p :=
      filter (\<lambda>i. \<not> unwanted (contents message_id) (g_tx_queue g ! i)) (tx_chain g p))) None g'"
    and d: "dropped (set (filter (\<lambda>i. unwanted (contents message_id) (g_tx_queue g ! i)) (tx_chain g p))) p g g'"
    by (auto simp del: fun_upd_apply)
  have "only_peer p g g'" and "length (g_peers g') = length (g_peers g)"
    using d by (auto simp: dropped_def only_peer_def)
  with True w i that [OF _ tx_inv_chain(1) [OF i] dropped_kept [OF d]] tx_inv_chain(2) [OF i] inv_head [OF inv]
  show thesis by (auto simp: gossipsub_drop_queued_publish_def)
qed (use assms that kept_refl in \<open>auto simp: gossipsub_drop_queued_publish_def\<close>)

subsection \<open>Orphaned items\<close>

lemma orphan_loop_ok:
  assumes "tx_inv cs None g" and "p < length (g_peers g)"
  shows "\<exists>g'. orphan_loop p g = Some g' \<and> tx_inv (cs(p := [])) None g' \<and> dropped (set (cs p)) p g g'"
  using assms
proof (induction "cs p" arbitrary: g cs)
  case Nil
  then have "cs(p := []) = cs" by auto
  with Nil show ?case using inv_head [OF Nil(2,3)] by (simp add: orphan_loop.simps dropped_refl)
next
  case (Cons k ks)
  have c: "cs p = [] @ k # ks" using Cons.hyps(2) by simp
  obtain g1 where r: "gossipsub_tx_remove g k = Some g1" and inv1: "tx_inv (cs(p := [] @ ks)) None g1"
    and d1: "dropped {k} p g g1" and n1: "length (g_peers g1) = length (g_peers g)"
    by (rule drop_front [OF Cons.prems c])
  have "ks = (cs(p := [] @ ks)) p" "p < length (g_peers g1)" using n1 Cons.prems(2) by simp_all
  from Cons.hyps(1) [OF this(1) inv1 this(2)] obtain g' where
    w: "orphan_loop p g1 = Some g'" and i: "tx_inv (cs(p := [])) None g'" and d: "dropped (set ks) p g1 g'"
    by (auto simp del: fun_upd_apply simp: fun_upd_same)
  have "orphan_loop p g = Some g'"
    using inv_head [OF Cons.prems] c r w by (simp add: orphan_loop.simps [of p g])
  with i dropped_trans [OF d1 d] c show ?case by auto
qed

lemma drop_queued_peer_ok:
  assumes "tx_ok g"
  obtains g' where "gossipsub_drop_queued_peer g p = Some g'"
    and "tx_ok g'" and "tx_core g' = tx_core g" and "g_config g' = g_config g" and "only_peer p g g'"
    and "length (g_tx_queue g') = length (g_tx_queue g)" and "g_tx_buffer g' = g_tx_buffer g"
    and "p < length (g_peers g) \<longrightarrow> tx_chain g' p = [] \<and> \<not> p_tx_ready (g_peers g' ! p)"
    and "\<forall>p' < length (g_peers g). p' \<noteq> p \<longrightarrow> tx_chain g' p' = tx_chain g p'"
proof (cases "p < length (g_peers g)")
  case True
  note inv = tx_okD [OF assms]
  from orphan_loop_ok [OF inv True] obtain g1 where
    w: "orphan_loop p g = Some g1" and i1: "tx_inv ((tx_chain g)(p := [])) None g1"
    and d: "dropped (set (tx_chain g p)) p g g1"
    by blast
  let ?busy = "p_tx_transport_busy_update (\<lambda>_. False)"
  define g' where "g' = upd_peer p ?busy (gossipsub_tx_set_peer_ready p False g1)"
  have run: "gossipsub_drop_queued_peer g p = Some g'"
    using True w by (simp add: gossipsub_drop_queued_peer_def g'_def)
  have i': "tx_inv ((tx_chain g)(p := [])) None g'"
    unfolding g'_def
    by (rule tx_inv_upd_peer [OF _ _ set_peer_ready_inv [OF i1]]) (simp_all add: keeps_queue_def)
  have n: "length (g_peers g') = length (g_peers g)"
    using d by (simp add: g'_def set_peer_ready_frame dropped_def only_peer_def)
  have o: "only_peer p g g'"
    using d unfolding g'_def dropped_def by (auto intro: only_peer_upd_peer only_peer_set_ready)
  have "\<not> p_tx_ready (g_peers (gossipsub_tx_set_peer_ready p False g1) ! p)"
    using True d by (auto simp: gossipsub_tx_set_peer_ready_def Let_def dropped_def only_peer_def)
  then have "\<not> p_tx_ready (g_peers g' ! p)"
    using n True by (simp add: g'_def)
  with True that [OF run tx_inv_chain(1) [OF i']] tx_inv_chain(2) [OF i'] d o n show thesis
    by (auto simp: g'_def set_peer_ready_frame dropped_def upd_peer_core peer_core_def)
qed (use assms that in \<open>auto simp: gossipsub_drop_queued_peer_def\<close>)

end
