(* ===== verification/Gossipsub_Tx_Write.thy ===== *)
theory Gossipsub_Tx_Write
  imports Gossipsub_Tx_Drop
begin

text \<open>
  Writing the queues to the streams: the bytes that a flush gives to the host are a prefix of the
  bytes that were pending for the peer, in the order of its queue, and what is left is the rest.
\<close>

subsection \<open>Updates that leave the queues alone\<close>

lemma tx_ok_same:
  assumes "tx_ok g" and "tx_inv (tx_chain g) None g'" and "length (g_peers g') = length (g_peers g)"
  shows "tx_ok g'" and "p < length (g_peers g) \<Longrightarrow> tx_chain g' p = tx_chain g p"
  using tx_inv_chain [OF assms(2)] assms(3) by simp_all

lemma tx_chain_upd_peer:
  "keeps_queue f \<Longrightarrow> tx_chain (upd_peer p f g) p' = tx_chain g p'"
  by (cases "p' = p"; cases "p < length (g_peers g)")
    (auto simp: tx_chain_def keeps_queue_def list_update_beyond)

lemma tx_ok_upd_peer:
  assumes "keeps_queue f" and "\<And>x. p_tx_ready (f x) = p_tx_ready x" and "tx_ok g"
  shows "tx_ok (upd_peer p f g)"
proof -
  have "tx_chain (upd_peer p f g) = tx_chain g" by (rule ext) (rule tx_chain_upd_peer [OF assms(1)])
  with tx_inv_upd_peer [OF assms(1,2) tx_okD [OF assms(3)], of p] show ?thesis by (simp add: tx_ok_def)
qed

lemma set_peer_ready_chain: "tx_chain (gossipsub_tx_set_peer_ready p b g) p' = tx_chain g p'"
proof -
  have k: "keeps_queue (p_tx_ready_update (\<lambda>_. c))" for c by (simp add: keeps_queue_def)
  have "tx_chain (h\<lparr>g_tx_ready_count := n\<rparr>) p' = tx_chain h p'" for h n by (simp add: tx_chain_def)
  with k show ?thesis
    by (simp add: gossipsub_tx_set_peer_ready_def Let_def tx_chain_upd_peer)
qed

lemma tx_ok_set_ready: "tx_ok g \<Longrightarrow> tx_ok (gossipsub_tx_set_peer_ready p b g)"
proof -
  assume "tx_ok g"
  then have "tx_inv (tx_chain g) None (gossipsub_tx_set_peer_ready p b g)"
    by (simp add: tx_okD set_peer_ready_inv)
  moreover have "tx_chain (gossipsub_tx_set_peer_ready p b g) = tx_chain g"
    by (rule ext) (rule set_peer_ready_chain)
  ultimately show ?thesis by (simp add: tx_ok_def)
qed

subsection \<open>Advancing an item\<close>

text \<open>An update of an item that keeps its place in the queue and in the buffer.\<close>

definition keeps_place :: "gossipsub_tx_item_t \<Rightarrow> gossipsub_tx_item_t \<Rightarrow> bool" where
  "keeps_place x y \<longleftrightarrow> ti_used y = ti_used x \<and> ti_peer_index y = ti_peer_index x \<and> ti_next y = ti_next x \<and>
     ti_priority y = ti_priority x \<and> ti_offset y = ti_offset x \<and> ti_len y = ti_len x"

lemma tx_inv_upd_item:
  assumes inv: "tx_inv cs None g" and f: "keeps_place (g_tx_queue g ! k) (f (g_tx_queue g ! k))"
    and pos: "ti_used (g_tx_queue g ! k) \<Longrightarrow> k < length (g_tx_queue g) \<Longrightarrow>
      ti_pos (f (g_tx_queue g ! k)) \<le> ti_len (g_tx_queue g ! k)"
  shows "tx_inv cs None (upd_item k f g)"
proof -
  let ?q = "(g_tx_queue g)[k := f (g_tx_queue g ! k)]"
  have f: "ti_used (?q ! j) = ti_used (g_tx_queue g ! j)" "ti_peer_index (?q ! j) = ti_peer_index (g_tx_queue g ! j)"
      "next_of ?q j = next_of (g_tx_queue g) j" "prio_of ?q j = prio_of (g_tx_queue g) j"
      "ti_offset (?q ! j) = ti_offset (g_tx_queue g ! j)" "ti_len (?q ! j) = ti_len (g_tx_queue g ! j)" for j
    using f by (cases "j = k"; cases "k < length (g_tx_queue g)"; simp add: keeps_place_def list_update_beyond)+
  have u: "used_items ?q = used_items (g_tx_queue g)" by (simp add: used_items_def f)
  have "queue_ok ?q p (g_peers g ! p) (cs p)" if p: "p < length (g_peers g)" for p
    by (rule queue_ok_cong [OF _ _ _ _ _ _ inv_queue [OF inv p]])
      (use inv_item(1) [OF inv p] in \<open>simp_all add: f u\<close>)
  then have "lists_ok cs None (upd_item k f g)"
    using inv by (simp add: tx_inv_def lists_ok_def reserved_for_def)
  moreover have "items_ok cs None (length (g_peers g)) ?q"
    using inv by (simp add: tx_inv_def items_ok_def u f)
  moreover have "spans_ok ?q (g_tx_buffer_used g)"
    unfolding spans_ok_def
  proof (intro allI impI)
    fix j assume j: "j < length ?q" "ti_used (?q ! j)"
    have "ti_pos (?q ! j) \<le> ti_len (?q ! j)"
    proof (cases "j = k")
      case True
      with j f(1,6) [of k] pos show ?thesis by simp
    next
      case False
      with inv j show ?thesis by (auto simp: tx_inv_def room_ok_def spans_ok_def)
    qed
    moreover have "apart (?q ! j) (?q ! i) \<longleftrightarrow> apart (g_tx_queue g ! j) (g_tx_queue g ! i)" for i
      by (simp add: apart_def f)
    ultimately show "0 < ti_len (?q ! j) \<and> ti_offset (?q ! j) + ti_len (?q ! j) \<le> g_tx_buffer_used g \<and>
        ti_pos (?q ! j) \<le> ti_len (?q ! j) \<and>
        (\<forall>i < length ?q. i \<noteq> j \<longrightarrow> ti_used (?q ! i) \<longrightarrow> apart (?q ! j) (?q ! i))"
      using inv j by (simp add: tx_inv_def room_ok_def spans_ok_def f)
  qed
  ultimately show ?thesis
    using inv by (simp add: tx_inv_def room_ok_def schedule_ok_def u)
qed

lemma tx_inv_advance:
  assumes "tx_inv cs None g" and "pos \<le> ti_len (g_tx_queue g ! k)"
  shows "tx_inv cs None (upd_item k (ti_pos_update (\<lambda>_. pos)) g)"
  by (rule tx_inv_upd_item) (use assms in \<open>simp_all add: keeps_place_def\<close>)

lemma inv_span:
  assumes "tx_inv cs None g" and "p < length (g_peers g)" and "k \<in> set (cs p)"
  shows "0 < ti_len (g_tx_queue g ! k)" and "ti_pos (g_tx_queue g ! k) \<le> ti_len (g_tx_queue g ! k)"
    and "ti_offset (g_tx_queue g ! k) + ti_len (g_tx_queue g ! k) \<le> length (g_tx_buffer g)"
proof -
  have "room_ok g" using assms(1) by (simp add: tx_inv_def)
  with inv_item(2,3) [OF assms] show "0 < ti_len (g_tx_queue g ! k)"
    and "ti_pos (g_tx_queue g ! k) \<le> ti_len (g_tx_queue g ! k)"
    and "ti_offset (g_tx_queue g ! k) + ti_len (g_tx_queue g ! k) \<le> length (g_tx_buffer g)"
    by (auto simp: room_ok_def spans_ok_def)
qed

subsection \<open>The bytes that are pending\<close>

text \<open>The bytes of a frame that are not written yet; what is pending for a peer are those of its items that are not stale.\<close>

definition rest_of :: "libp2p_gossipsub_t \<Rightarrow> nat \<Rightarrow> byte list" where
  "rest_of g i = drop (ti_pos (g_tx_queue g ! i)) (item_bytes (g_tx_buffer g) (g_tx_queue g ! i))"

definition pending_of :: "u64 \<Rightarrow> libp2p_gossipsub_t \<Rightarrow> nat list \<Rightarrow> byte list" where
  "pending_of now_us g ks = concat (map (rest_of g) (filter (\<lambda>i. \<not> stale_at g now_us i) ks))"

definition pending :: "u64 \<Rightarrow> libp2p_gossipsub_t \<Rightarrow> nat \<Rightarrow> byte list" where
  "pending now_us g p = pending_of now_us g (tx_chain g p)"

lemma pending_of_Nil [simp]: "pending_of now_us g [] = []"
  by (simp add: pending_of_def)

lemma pending_of_Cons [simp]:
  "pending_of now_us g (k # ks) =
     (if stale_at g now_us k then pending_of now_us g ks else rest_of g k @ pending_of now_us g ks)"
  by (simp add: pending_of_def)

lemma pending_of_cong:
  assumes "\<And>j. j \<in> set ks \<Longrightarrow> rest_of g' j = rest_of g j \<and> stale_at g' now_us j = stale_at g now_us j"
  shows "pending_of now_us g' ks = pending_of now_us g ks"
  using assms by (induction ks) auto

lemma flush_bytes_rest:
  assumes "tx_inv cs None g" and "p < length (g_peers g)" and "k \<in> set (cs p)"
  shows "flush_bytes g (g_tx_queue g ! k) = Some (rest_of g k)"
    and "length (rest_of g k) = ti_len (g_tx_queue g ! k) - ti_pos (g_tx_queue g ! k)"
  using inv_span [OF assms]
  by (simp_all add: flush_bytes_def Let_def rest_of_def item_bytes_def span_def drop_take add.commute)

text \<open>The work that a queue is: every step of a flush that goes on makes it smaller.\<close>

definition work_of :: "libp2p_gossipsub_t \<Rightarrow> nat list \<Rightarrow> nat" where
  "work_of g ks = (\<Sum>i\<leftarrow>ks. 1 + ti_len (g_tx_queue g ! i) - ti_pos (g_tx_queue g ! i))"

lemma work_of_cong:
  assumes "\<And>j. j \<in> set ks \<Longrightarrow> ti_len (g_tx_queue g' ! j) = ti_len (g_tx_queue g ! j) \<and>
    ti_pos (g_tx_queue g' ! j) = ti_pos (g_tx_queue g ! j)"
  shows "work_of g' ks = work_of g ks"
  using assms by (induction ks) (auto simp: work_of_def)

subsection \<open>The host\<close>

text \<open>
  What the flush relies on: the host accepts at most the bytes it is offered, and the bytes it has
  accepted for a stream are those of the successful writes, in order.
\<close>

definition stream_host :: "'h host_write \<Rightarrow> ('h \<Rightarrow> nat \<Rightarrow> byte list) \<Rightarrow> bool" where
  "stream_host host_write sent \<longleftrightarrow>
     (\<forall>h s bytes r n h'. host_write h s bytes = ((r, n), h') \<longrightarrow>
        n \<le> length bytes \<and>
        (\<forall>s'. sent h' s' = (if s' = s \<and> gossipsub_host_to_err r = LIBP2P_GOSSIPSUB_OK
                            then sent h s @ take n bytes else sent h s')))"

lemma stream_hostD:
  assumes "stream_host host_write sent" and "host_write h s bytes = ((r, n), h')"
  shows "n \<le> length bytes"
    and "gossipsub_host_to_err r = LIBP2P_GOSSIPSUB_OK \<Longrightarrow> sent h' s = sent h s @ take n bytes"
    and "gossipsub_host_to_err r \<noteq> LIBP2P_GOSSIPSUB_OK \<Longrightarrow> sent h' s = sent h s"
    and "s' \<noteq> s \<Longrightarrow> sent h' s' = sent h s'"
  using assms unfolding stream_host_def by (metis (no_types, lifting))+

subsection \<open>One step of a flush\<close>

text \<open>What a part of a flush of peer \<open>p\<close> on stream \<open>st\<close> has done.\<close>

definition flushed ::
  "('h \<Rightarrow> nat \<Rightarrow> byte list) \<Rightarrow> u64 \<Rightarrow> nat \<Rightarrow> nat \<Rightarrow> libp2p_gossipsub_t \<Rightarrow> 'h \<Rightarrow> libp2p_gossipsub_t \<Rightarrow> 'h \<Rightarrow> bool"
where
  "flushed sent now_us p st g h g' h' \<longleftrightarrow>
     tx_ok g' \<and> tx_core g' = tx_core g \<and> g_config g' = g_config g \<and> only_peer p g g' \<and>
     length (g_tx_queue g') = length (g_tx_queue g) \<and> g_tx_buffer g' = g_tx_buffer g \<and>
     (\<forall>p' < length (g_peers g). p' \<noteq> p \<longrightarrow> tx_view g' p' = tx_view g p') \<and>
     (\<forall>s. s \<noteq> st \<longrightarrow> sent h' s = sent h s) \<and>
     (\<exists>w. sent h' st = sent h st @ w \<and> pending now_us g p = w @ pending now_us g' p)"

lemma flushed_refl: "tx_ok g \<Longrightarrow> flushed sent now_us p st g h g h"
  by (simp add: flushed_def)

lemma flushed_trans:
  assumes "flushed sent now_us p st g h g' h'" and "flushed sent now_us p st g' h' g'' h''"
  shows "flushed sent now_us p st g h g'' h''"
proof -
  obtain w w' where "sent h' st = sent h st @ w" "pending now_us g p = w @ pending now_us g' p"
    "sent h'' st = sent h' st @ w'" "pending now_us g' p = w' @ pending now_us g'' p"
    using assms unfolding flushed_def by blast
  then have "\<exists>w. sent h'' st = sent h st @ w \<and> pending now_us g p = w @ pending now_us g'' p"
    by (intro exI [of _ "w @ w'"]) simp
  moreover have "length (g_peers g') = length (g_peers g)" using assms(1) by (simp add: flushed_def only_peer_def)
  ultimately show ?thesis
    using assms only_peer_trans [of p g g' g''] unfolding flushed_def by simp
qed

text \<open>Updates of the peer that leave its queue alone flush nothing.\<close>

lemma flushed_same:
  assumes "tx_ok g'" and "tx_core g' = tx_core g" and "g_config g' = g_config g" and "only_peer p g g'"
    and "g_tx_queue g' = g_tx_queue g" and "g_tx_buffer g' = g_tx_buffer g" and "tx_chain g' = tx_chain g"
  shows "flushed sent now_us p st g h g' h"
proof -
  have "tx_view g' = tx_view g"
    using assms by (auto simp: fun_eq_iff tx_view_def frame_of_def)
  moreover have "pending now_us g' p = pending now_us g p"
    unfolding pending_def assms(7) by (rule pending_of_cong) (simp add: assms(5,6) rest_of_def)
  ultimately show ?thesis using assms by (simp add: flushed_def)
qed

lemma flushed_set_ready:
  "tx_ok g \<Longrightarrow> flushed sent now_us p st g h (gossipsub_tx_set_peer_ready p b g) h"
  by (rule flushed_same)
    (simp_all add: tx_ok_set_ready set_peer_ready_frame set_peer_ready_chain only_peer_set_ready fun_eq_iff)

lemma flushed_upd_peer:
  assumes "keeps_queue f" and "\<And>x. p_tx_ready (f x) = p_tx_ready x" and "\<And>x. peer_core (f x) = peer_core x"
    and "tx_ok g"
  shows "flushed sent now_us p st g h (upd_peer p f g) h"
  by (rule flushed_same)
    (use assms in \<open>simp_all add: tx_ok_upd_peer upd_peer_core only_peer_upd_peer tx_chain_upd_peer fun_eq_iff\<close>)

text \<open>Removing the head.\<close>

lemma flush_remove:
  assumes ok: "tx_ok g" and p: "p < length (g_peers g)" and c: "tx_chain g p = k # ks"
  obtains g' where "gossipsub_tx_remove g k = Some g'" and "tx_ok g'" and "tx_chain g' p = ks"
    and "dropped {k} p g g'" and "work_of g' ks = work_of g ks"
    and "pending_of now_us g' ks = pending_of now_us g ks"
    and "\<forall>p' < length (g_peers g). p' \<noteq> p \<longrightarrow> tx_view g' p' = tx_view g p'"
proof -
  note inv = tx_okD [OF ok]
  have c': "tx_chain g p = [] @ k # ks" using c by simp
  obtain g' where r: "gossipsub_tx_remove g k = Some g'" and i: "tx_inv ((tx_chain g)(p := [] @ ks)) None g'"
    and d: "dropped {k} p g g'" and n: "length (g_peers g') = length (g_peers g)"
    by (rule drop_front [OF inv p c'])
  have u: "j \<in> used_items (g_tx_queue g) - {k}" if "j \<in> set ks" for j
    using inv_item(1) [OF inv p] inv_split(3) [OF inv p c'] that c by auto
  have e: "ti_len (g_tx_queue g' ! j) = ti_len (g_tx_queue g ! j)" "ti_pos (g_tx_queue g' ! j) = ti_pos (g_tx_queue g ! j)"
    "rest_of g' j = rest_of g j" "stale_at g' now_us j = stale_at g now_us j" if "j \<in> set ks" for j
    using dropped_item [OF d u [OF that]] d
    by (simp_all add: rest_of_def item_bytes_def dropped_def)
  have ch: "tx_chain g' p' = ((tx_chain g)(p := ks)) p'" if "p' < length (g_peers g)" for p'
    using tx_inv_chain(2) [OF i] that n by simp
  have "tx_view g' p' = tx_view g p'" if p': "p' < length (g_peers g)" "p' \<noteq> p" for p'
  proof -
    have "frame_of g' j = frame_of g j" if "j \<in> set (tx_chain g p')" for j
    proof (rule dropped_item(1) [OF d])
      have "j \<noteq> k" using inv_disjoint [OF inv p'(1) p p'(2) that] c by auto
      then show "j \<in> used_items (g_tx_queue g) - {k}" using inv_item(1) [OF inv p'(1) that] by simp
    qed
    then show ?thesis using ch [OF p'(1)] p'(2) by (simp add: tx_view_def)
  qed
  moreover have "work_of g' ks = work_of g ks" by (rule work_of_cong) (simp add: e)
  moreover have "pending_of now_us g' ks = pending_of now_us g ks" by (rule pending_of_cong) (simp add: e)
  ultimately show thesis using that [OF r tx_inv_chain(1) [OF i] _ d] ch [OF p] by simp
qed

lemma flushed_removed:
  assumes "tx_ok g'" and "dropped {k} p g g'"
    and "\<forall>p' < length (g_peers g). p' \<noteq> p \<longrightarrow> tx_view g' p' = tx_view g p'"
    and "pending now_us g p = pending now_us g' p"
  shows "flushed sent now_us p st g h g' h"
  using assms by (auto simp: flushed_def dropped_def)

text \<open>Advancing the head by \<open>n\<close> bytes.\<close>

definition advance :: "nat \<Rightarrow> nat \<Rightarrow> nat \<Rightarrow> libp2p_gossipsub_t \<Rightarrow> libp2p_gossipsub_t" where
  "advance p k n g =
     (if n \<noteq> 0 then
        let pos = ti_pos (g_tx_queue g ! k) + n in
        upd_peer p (\<lambda>p. p\<lparr>p_tx_last_offset := of_nat pos,
            p_tx_bytes_accepted := p_tx_bytes_accepted p + of_nat n\<rparr>)
          (upd_item k (ti_pos_update (\<lambda>_. pos)) g)
      else g)"

lemma advance_ok:
  assumes ok: "tx_ok g" and p: "p < length (g_peers g)" and c: "tx_chain g p = k # ks"
    and k: "\<not> stale_at g now_us k" and n: "n \<le> length (rest_of g k)"
  shows "tx_ok (advance p k n g)" and "tx_chain (advance p k n g) = tx_chain g"
    and "tx_core (advance p k n g) = tx_core g" and "g_config (advance p k n g) = g_config g"
    and "only_peer p g (advance p k n g)" and "g_tx_buffer (advance p k n g) = g_tx_buffer g"
    and "length (g_tx_queue (advance p k n g)) = length (g_tx_queue g)"
    and "ti_pos (g_tx_queue (advance p k n g) ! k) = ti_pos (g_tx_queue g ! k) + n"
    and "ti_len (g_tx_queue (advance p k n g) ! k) = ti_len (g_tx_queue g ! k)"
    and "work_of (advance p k n g) (k # ks) + n = work_of g (k # ks)"
    and "pending now_us g p = take n (rest_of g k) @ pending now_us (advance p k n g) p"
    and "\<forall>p' < length (g_peers g). p' \<noteq> p \<longrightarrow> tx_view (advance p k n g) p' = tx_view g p'"
    and "\<not> stale_at (advance p k n g) now_us k"
proof -
  note inv = tx_okD [OF ok]
  have kc: "k \<in> set (tx_chain g p)" using c by simp
  note kl = inv_item(2) [OF inv p kc] and len = flush_bytes_rest(2) [OF inv p kc] and sp = inv_span [OF inv p kc]
  let ?pos = "ti_pos (g_tx_queue g ! k) + n" and ?g = "advance p k n g"
  let ?f = "\<lambda>p. p\<lparr>p_tx_last_offset := of_nat ?pos, p_tx_bytes_accepted := p_tx_bytes_accepted p + of_nat n\<rparr>"
  have f: "keeps_queue ?f" "\<And>x. p_tx_ready (?f x) = p_tx_ready x" "\<And>x. peer_core (?f x) = peer_core x"
    by (simp_all add: keeps_queue_def peer_core_def)
  have q: "g_tx_queue ?g = (g_tx_queue g)[k := (g_tx_queue g ! k)\<lparr>ti_pos := ?pos\<rparr>]"
    using same_next by (auto simp: advance_def Let_def)
  show buf: "g_tx_buffer ?g = g_tx_buffer g" and "g_config ?g = g_config g"
    and lq: "length (g_tx_queue ?g) = length (g_tx_queue g)" and "only_peer p g ?g"
    by (simp_all add: advance_def Let_def only_peer_upd_peer only_peer_upd_item)
  show "tx_core ?g = tx_core g"
    using upd_peer_core [OF f(3)] by (simp add: advance_def Let_def peer_core_def)
  have qk: "g_tx_queue ?g ! k = (g_tx_queue g ! k)\<lparr>ti_pos := ?pos\<rparr>" using q kl by simp
  have qj: "g_tx_queue ?g ! j = g_tx_queue g ! j" if "j \<noteq> k" for j using q that by simp
  show "ti_pos (g_tx_queue ?g ! k) = ?pos" "ti_len (g_tx_queue ?g ! k) = ti_len (g_tx_queue g ! k)"
    using qk by simp_all
  show st: "\<not> stale_at ?g now_us k" using k by (auto simp: qk gossipsub_tx_item_stale_def)
  have pl: "?pos \<le> ti_len (g_tx_queue g ! k)" using n len sp(2) by simp
  have "tx_inv (tx_chain g) None (upd_item k (ti_pos_update (\<lambda>_. ?pos)) g)"
    by (rule tx_inv_advance [OF inv pl])
  from tx_inv_upd_peer [OF f(1,2) this, of p] have i: "tx_inv (tx_chain g) None ?g"
    using inv by (simp add: advance_def Let_def)
  have nx: "next_of (g_tx_queue ?g) j = next_of (g_tx_queue g) j" for j
    by (cases "j = k") (simp_all add: qk qj)
  have w: "chain_walk (g_tx_queue ?g) m h = chain_walk (g_tx_queue g) m h" for m h
  proof (induction m arbitrary: h)
    case (Suc m)
    then show ?case by (cases h) (simp_all add: lq nx)
  qed simp
  have "p_tx_head (g_peers ?g ! p') = p_tx_head (g_peers g ! p')" for p'
    by (cases "p' = p") (auto simp: advance_def Let_def p)
  then show ch: "tx_chain ?g = tx_chain g" by (simp add: fun_eq_iff tx_chain_def lq w)
  show "tx_ok ?g" by (rule tx_inv_chain(1) [OF i])
  have ks: "k \<notin> set ks" using inv_split(3) [OF inv p, of "[]" k ks] c by simp
  have e: "rest_of ?g j = rest_of g j \<and> stale_at ?g now_us j = stale_at g now_us j \<and>
      ti_len (g_tx_queue ?g ! j) = ti_len (g_tx_queue g ! j) \<and>
      ti_pos (g_tx_queue ?g ! j) = ti_pos (g_tx_queue g ! j)" if "j \<in> set ks" for j
  proof -
    have "j \<noteq> k" using that ks by blast
    from qj [OF this] show ?thesis by (simp add: rest_of_def buf)
  qed
  have "work_of ?g ks = work_of g ks" by (rule work_of_cong) (use e in blast)
  then show "work_of ?g (k # ks) + n = work_of g (k # ks)"
    using pl by (simp add: work_of_def qk)
  have "pending_of now_us ?g ks = pending_of now_us g ks" by (rule pending_of_cong) (use e in blast)
  moreover have "rest_of g k = take n (rest_of g k) @ rest_of ?g k"
  proof -
    have "rest_of ?g k = drop n (rest_of g k)" by (simp add: rest_of_def qk buf item_bytes_def add.commute)
    then show ?thesis by simp
  qed
  ultimately show "pending now_us g p = take n (rest_of g k) @ pending now_us ?g p"
    using k st by (simp add: pending_def ch c flip: append_assoc)
  show "\<forall>p' < length (g_peers g). p' \<noteq> p \<longrightarrow> tx_view ?g p' = tx_view g p'"
  proof (intro allI impI)
    fix p' assume p': "p' < length (g_peers g)" "p' \<noteq> p"
    have "j \<noteq> k" if "j \<in> set (tx_chain g p')" for j
      using inv_disjoint [OF inv p'(1) p p'(2) that] kc by auto
    then show "tx_view ?g p' = tx_view g p'"
      by (simp add: tx_view_def ch frame_of_def qj buf)
  qed
qed

end
