(* ===== verification/Gossipsub_Tx_Flush.thy ===== *)
theory Gossipsub_Tx_Flush
  imports Gossipsub_Tx_Write Gossipsub_Tx_Refine
begin

text \<open>
  A flush refines the writing of a prefix of the pending bytes: it always returns, and when it
  returns without an error either the queue of the peer is written or the peer is blocked.
\<close>

subsection \<open>One write\<close>

lemma flush_accept_router:
  "fl_router (flush_accept p k n s) = advance p k n (fl_router s)"
  "fl_host (flush_accept p k n s) = fl_host s" "fl_result (flush_accept p k n s) = fl_result s"
  "fl_keep_writing (flush_accept p k n s) = fl_keep_writing s"
  "fl_peer_blocked (flush_accept p k n s) = fl_peer_blocked s"
  by (simp_all add: flush_accept_def advance_def Let_def)

lemma flush_block_fields:
  "fl_host (flush_block p s) = fl_host s" "fl_result (flush_block p s) = fl_result s"
  "\<not> fl_keep_writing (flush_block p s)" "fl_peer_blocked (flush_block p s)"
  by (simp_all add: flush_block_def)

lemma set_ready_busy:
  "p_tx_transport_busy (g_peers (gossipsub_tx_set_peer_ready p b g) ! i) = p_tx_transport_busy (g_peers g ! i)"
  by (cases "i = p"; cases "p < length (g_peers g)")
    (auto simp: gossipsub_tx_set_peer_ready_def Let_def list_update_beyond)

lemma flush_block_ok:
  assumes "tx_ok (fl_router s)" and "p < length (g_peers (fl_router s))"
  shows "flushed sent now_us p st (fl_router s) h (fl_router (flush_block p s)) h"
    and "p_tx_transport_busy (g_peers (fl_router (flush_block p s)) ! p)"
proof -
  let ?f = "\<lambda>p. p\<lparr>p_tx_would_block_count := p_tx_would_block_count p + 1, p_tx_transport_busy := True\<rparr>"
  have f: "keeps_queue ?f" "\<And>x. p_tx_ready (?f x) = p_tx_ready x" "\<And>x. peer_core (?f x) = peer_core x"
    by (simp_all add: keeps_queue_def peer_core_def)
  show "flushed sent now_us p st (fl_router s) h (fl_router (flush_block p s)) h"
    using flushed_trans [OF flushed_upd_peer [OF f assms(1)] flushed_set_ready [OF tx_ok_upd_peer [OF f(1,2) assms(1)]]]
    by (simp add: flush_block_def)
  show "p_tx_transport_busy (g_peers (fl_router (flush_block p s)) ! p)"
    using assms(2) by (simp add: flush_block_def set_ready_busy)
qed

text \<open>The head of a queue that is not empty, and what a removal leaves.\<close>

lemma inv_depth:
  assumes "tx_inv cs None g" and "p < length (g_peers g)"
  shows "p_tx_queue_depth (g_peers g ! p) = length (cs p)"
  using inv_queue [OF assms] unfolding queue_ok_def by blast

lemma flushed_head_removed:
  assumes ok: "tx_ok g" and p: "p < length (g_peers g)" and c: "tx_chain g p = k # ks"
    and fin: "stale_at g now_us k \<or> ti_pos (g_tx_queue g ! k) = ti_len (g_tx_queue g ! k)"
  obtains g' where "gossipsub_tx_remove g k = Some g'"
    and "flushed sent now_us p st g h g' h"
    and "work_of g' (tx_chain g' p) < work_of g (tx_chain g p)"
proof -
  note inv = tx_okD [OF ok]
  have kc: "k \<in> set (tx_chain g p)" using c by simp
  obtain g' where r: "gossipsub_tx_remove g k = Some g'" and ok': "tx_ok g'" and c': "tx_chain g' p = ks"
    and d: "dropped {k} p g g'" and w: "work_of g' ks = work_of g ks"
    and pe: "pending_of now_us g' ks = pending_of now_us g ks"
    and o: "\<forall>p' < length (g_peers g). p' \<noteq> p \<longrightarrow> tx_view g' p' = tx_view g p'"
    by (rule flush_remove [OF ok p c])
  have "pending now_us g p = pending_of now_us g ks"
    using fin flush_bytes_rest(2) [OF inv p kc] by (auto simp: pending_def c)
  with pe have "pending now_us g p = pending now_us g' p" by (simp add: pending_def c')
  from that [OF r flushed_removed [OF ok' d o this]] w inv_span(2) [OF inv p kc]
  show thesis by (simp add: c c' work_of_def)
qed

lemma flushed_advance:
  assumes "tx_ok g" and "p < length (g_peers g)" and "tx_chain g p = k # ks"
    and "\<not> stale_at g now_us k" and "n \<le> length (rest_of g k)"
    and "sent h' st = sent h st @ take n (rest_of g k)" and "\<And>s'. s' \<noteq> st \<Longrightarrow> sent h' s' = sent h s'"
  shows "flushed sent now_us p st g h (advance p k n g) h'"
  using advance_ok [OF assms(1-5)] assms(6,7) by (auto simp: flushed_def)

lemma flushed_error:
  assumes "tx_ok g" and "\<And>s'. sent h' s' = sent h s'"
  shows "flushed sent now_us p st g h g h'"
  using assms by (simp add: flushed_def)

text \<open>A step of the loop.\<close>

lemma flush_step_ok:
  fixes s :: "'h flush_state"
  assumes host: "stream_host host_write sent" and ok: "tx_ok (fl_router s)"
    and p: "p < length (g_peers (fl_router s))" and st: "p_stream (g_peers (fl_router s) ! p) = Some st"
    and depth: "p_tx_queue_depth (g_peers (fl_router s) ! p) \<noteq> 0"
    and flags: "fl_result s = LIBP2P_GOSSIPSUB_OK" "fl_keep_writing s" "\<not> fl_peer_blocked s"
  obtains s' where "flush_step host_write p now_us s = Some s'"
    and "flushed sent now_us p st (fl_router s) (fl_host s) (fl_router s') (fl_host s')"
    and "fl_keep_writing s' \<longleftrightarrow> \<not> fl_peer_blocked s'"
    and "fl_peer_blocked s' \<Longrightarrow> fl_result s' = LIBP2P_GOSSIPSUB_OK \<and>
      p_tx_transport_busy (g_peers (fl_router s') ! p)"
    and "fl_keep_writing s' \<Longrightarrow> fl_result s' = LIBP2P_GOSSIPSUB_OK \<Longrightarrow>
      work_of (fl_router s') (tx_chain (fl_router s') p) < work_of (fl_router s) (tx_chain (fl_router s) p)"
proof -
  let ?g = "fl_router s"
  note inv = tx_okD [OF ok]
  obtain k ks where c: "tx_chain ?g p = k # ks"
    using depth inv_depth [OF inv p] by (cases "tx_chain ?g p") auto
  have kc: "k \<in> set (tx_chain ?g p)" using c by simp
  have hd: "p_tx_head (g_peers ?g ! p) = Some k" using inv_head [OF inv p] c by simp
  note k = inv_item [OF inv p kc] and fb = flush_bytes_rest [OF inv p kc] and sp = inv_span [OF inv p kc]
  show thesis
  proof (cases "stale_at ?g now_us k")
    case True
    obtain g' where "gossipsub_tx_remove ?g k = Some g'"
      and "flushed sent now_us p st ?g (fl_host s) g' (fl_host s)"
      and "work_of g' (tx_chain g' p) < work_of ?g (tx_chain ?g p)"
      by (rule flushed_head_removed [OF ok p c]) (use True in auto)
    with True flags hd k show thesis
      by (intro that [of "s\<lparr>fl_router := g', fl_made_progress := True\<rparr>"])
        (simp_all add: flush_step_def Let_def)
  next
    case fresh: False
    obtain r n h where w: "host_write (fl_host s) st (rest_of ?g k) = ((r, n), h)"
      by (metis prod.exhaust)
    note hw = stream_hostD [OF host w]
    let ?r = "gossipsub_host_to_err r"
    let ?s1 = "s\<lparr>fl_host := h, fl_result :=
      (if ?r = LIBP2P_GOSSIPSUB_ERR_WOULD_BLOCK then LIBP2P_GOSSIPSUB_OK else ?r)\<rparr>"
    let ?s2 = "flush_accept p k n ?s1"
    have step: "flush_step host_write p now_us s =
       (if ?r = LIBP2P_GOSSIPSUB_ERR_WOULD_BLOCK then Some (flush_block p ?s1)
        else if ?r \<noteq> LIBP2P_GOSSIPSUB_OK then Some ?s1
        else if ti_pos (g_tx_queue (fl_router ?s2) ! k) = ti_len (g_tx_queue (fl_router ?s2) ! k)
        then map_option (\<lambda>g'. ?s2\<lparr>fl_router := g', fl_rpcs_sent := fl_rpcs_sent ?s2 + 1\<rparr>)
               (gossipsub_tx_remove (fl_router ?s2) k)
        else if n = 0 then Some (flush_block p ?s2) else Some ?s2)"
      using fresh hd k fb(1) st w by (simp add: flush_step_def Let_def)
    show thesis
    proof (cases "?r = LIBP2P_GOSSIPSUB_OK")
      case False
      have "sent h s' = sent (fl_host s) s'" for s' using hw False by (cases "s' = st") auto
      then have e: "flushed sent now_us p st ?g (fl_host s) ?g h" by (intro flushed_error ok)
      show thesis
      proof (cases "?r = LIBP2P_GOSSIPSUB_ERR_WOULD_BLOCK")
        case True
        have "flushed sent now_us p st ?g (fl_host s) (fl_router (flush_block p ?s1)) h"
          by (rule flushed_trans [OF e flush_block_ok(1) [of ?s1, simplified, OF ok p, simplified]])
        with step True flush_block_ok(2) [of ?s1 p] ok p show thesis
          by (intro that [of "flush_block p ?s1"]) (simp_all add: flush_block_fields)
      next
        case other: False
        with step e flags False show thesis by (intro that [of ?s1]) simp_all
      qed
    next
      case True
      define g2 where "g2 = advance p k n ?g"
      have n: "n \<le> length (rest_of ?g k)" by (rule hw(1))
      note a = advance_ok [OF ok p c fresh n, folded g2_def]
      have e: "flushed sent now_us p st ?g (fl_host s) g2 h"
        unfolding g2_def by (rule flushed_advance [where sent = sent, OF ok p c fresh n hw(2) [OF True] hw(4)])
      have r2: "fl_router ?s2 = g2" by (simp add: flush_accept_router g2_def)
      have p2: "p < length (g_peers g2)" using e p by (simp add: flushed_def only_peer_def)
      have c2: "tx_chain g2 p = k # ks" using a(2) c by simp
      have w2: "work_of g2 (tx_chain g2 p) + n = work_of ?g (tx_chain ?g p)" using a(10) c c2 by simp
      show thesis
      proof (cases "ti_pos (g_tx_queue g2 ! k) = ti_len (g_tx_queue g2 ! k)")
        case eq: True
        obtain g' where "gossipsub_tx_remove g2 k = Some g'" and "flushed sent now_us p st g2 h g' h"
          and "work_of g' (tx_chain g' p) < work_of g2 (tx_chain g2 p)"
          by (rule flushed_head_removed [OF a(1) p2 c2]) (use eq in auto)
        with True eq step r2 flags w2 flushed_trans [OF e] show thesis
          by (intro that [of "?s2\<lparr>fl_router := g', fl_rpcs_sent := fl_rpcs_sent ?s2 + 1\<rparr>"])
            (simp_all add: flush_accept_router)
      next
        case more: False
        show thesis
        proof (cases "n = 0")
          case True
          have "flushed sent now_us p st ?g (fl_host s) (fl_router (flush_block p ?s2)) h"
            using flushed_trans [OF e, of "fl_router (flush_block p ?s2)" h] flush_block_ok(1) [of ?s2 p sent now_us st h] a(1) p2 r2
            by simp
          with \<open>?r = LIBP2P_GOSSIPSUB_OK\<close> True more step r2 flags a(1) p2 flush_block_ok(2) [of ?s2 p]
          show thesis
            by (intro that [of "flush_block p ?s2"]) (simp_all add: flush_block_fields flush_accept_router)
        next
          case False
          with True more step r2 flags e w2 show thesis
            by (intro that [of ?s2]) (simp_all add: flush_accept_router)
        qed
      qed
    qed
  qed
qed

subsection \<open>The loop\<close>

lemma core_stream:
  assumes "tx_core g' = tx_core g" and "p < length (g_peers g)"
  shows "p < length (g_peers g')" and "p_stream (g_peers g' ! p) = p_stream (g_peers g ! p)"
proof -
  have m: "map peer_core (g_peers g') = map peer_core (g_peers g)"
    using arg_cong [OF assms(1), of g_peers] by (simp add: tx_core_def)
  then show l: "p < length (g_peers g')" using assms(2) by (metis length_map)
  have "peer_core (g_peers g' ! p) = peer_core (g_peers g ! p)"
    using m l assms(2) by (metis nth_map)
  from arg_cong [OF this, of p_stream] show "p_stream (g_peers g' ! p) = p_stream (g_peers g ! p)"
    by (simp add: peer_core_def)
qed

lemma flush_loop_ok:
  assumes host: "stream_host host_write sent" and "tx_ok (fl_router s)"
    and "p < length (g_peers (fl_router s))" and "p_stream (g_peers (fl_router s) ! p) = Some st"
    and "fl_keep_writing s \<longleftrightarrow> \<not> fl_peer_blocked s"
    and "fl_peer_blocked s \<Longrightarrow> p_tx_transport_busy (g_peers (fl_router s) ! p)"
  shows "\<exists>s'. flush_loop host_write p now_us s = Some s' \<and>
    flushed sent now_us p st (fl_router s) (fl_host s) (fl_router s') (fl_host s') \<and>
    (fl_peer_blocked s' \<longrightarrow> p_tx_transport_busy (g_peers (fl_router s') ! p)) \<and>
    (fl_result s' = LIBP2P_GOSSIPSUB_OK \<longrightarrow> fl_peer_blocked s' \<or> tx_chain (fl_router s') p = [])"
  using assms(2-)
proof (induction "work_of (fl_router s) (tx_chain (fl_router s) p)" arbitrary: s rule: less_induct)
  case less
  let ?goes = "fl_result s = LIBP2P_GOSSIPSUB_OK \<and>
    p_tx_queue_depth (g_peers (fl_router s) ! p) \<noteq> 0 \<and> fl_keep_writing s"
  have e: "p_tx_queue_depth (g_peers (fl_router s) ! p) = length (tx_chain (fl_router s) p)"
    by (rule inv_depth [OF tx_okD]) (use less.prems in auto)
  show ?case
  proof (cases ?goes)
    case False
    then have "flush_loop host_write p now_us s = Some s" by (auto simp: flush_loop.simps)
    with False e less.prems flushed_refl show ?thesis by (intro exI [of _ s]) auto
  next
    case True
    obtain s1 where step: "flush_step host_write p now_us s = Some s1"
      and f: "flushed sent now_us p st (fl_router s) (fl_host s) (fl_router s1) (fl_host s1)"
      and k: "fl_keep_writing s1 \<longleftrightarrow> \<not> fl_peer_blocked s1"
      and b: "fl_peer_blocked s1 \<Longrightarrow> fl_result s1 = LIBP2P_GOSSIPSUB_OK \<and>
        p_tx_transport_busy (g_peers (fl_router s1) ! p)"
      and w: "fl_keep_writing s1 \<Longrightarrow> fl_result s1 = LIBP2P_GOSSIPSUB_OK \<Longrightarrow>
        work_of (fl_router s1) (tx_chain (fl_router s1) p) < work_of (fl_router s) (tx_chain (fl_router s) p)"
      by (rule flush_step_ok [OF host less.prems(1-3), of now_us]) (use True less.prems(4) in auto)
    have ok1: "tx_ok (fl_router s1)" and core: "tx_core (fl_router s1) = tx_core (fl_router s)"
      using f by (simp_all add: flushed_def)
    note cs = core_stream [OF core less.prems(2)]
    have run: "flush_loop host_write p now_us s = flush_loop host_write p now_us s1"
      using True step by (simp add: flush_loop.simps [of host_write p now_us s])
    show ?thesis
    proof (cases "fl_keep_writing s1 \<and> fl_result s1 = LIBP2P_GOSSIPSUB_OK")
      case True
      from less.hyps [OF w ok1 cs(1) _ k] True k cs(2) less.prems(3) obtain s' where
        "flush_loop host_write p now_us s1 = Some s'"
        and "flushed sent now_us p st (fl_router s1) (fl_host s1) (fl_router s') (fl_host s')"
        and "fl_peer_blocked s' \<longrightarrow> p_tx_transport_busy (g_peers (fl_router s') ! p)"
        and "fl_result s' = LIBP2P_GOSSIPSUB_OK \<longrightarrow> fl_peer_blocked s' \<or> tx_chain (fl_router s') p = []"
        by auto
      with run flushed_trans [OF f] show ?thesis by (intro exI [of _ s']) auto
    next
      case False
      then have "flush_loop host_write p now_us s1 = Some s1" by (auto simp: flush_loop.simps)
      with False run f b k show ?thesis by (intro exI [of _ s1]) auto
    qed
  qed
qed

lemma flush_peer_ok:
  assumes "tx_ok g" and "stream_host host_write sent"
    and "p < length (g_peers g)" and "p_stream (g_peers g ! p) = Some st"
  obtains r h' progress n g' where "gossipsub_flush_peer host_write g h p now_us made_progress rpcs_sent =
      Some (r, h', progress, n, g')"
    and "flushed sent now_us p st g h g' h'"
    and "r = LIBP2P_GOSSIPSUB_OK \<longrightarrow> tx_view g' p = [] \<or>
       p_tx_transport_busy (g_peers g' ! p) \<and> \<not> p_tx_ready (g_peers g' ! p)"
proof -
  let ?s = "\<lparr>fl_router = g, fl_host = h, fl_result = LIBP2P_GOSSIPSUB_OK, fl_bytes_written = 0,
    fl_keep_writing = True, fl_peer_blocked = False, fl_made_progress = made_progress,
    fl_rpcs_sent = rpcs_sent\<rparr>"
  obtain s where loop: "flush_loop host_write p now_us ?s = Some s"
    and f: "flushed sent now_us p st g h (fl_router s) (fl_host s)"
    and b: "fl_peer_blocked s \<Longrightarrow> p_tx_transport_busy (g_peers (fl_router s) ! p)"
    and r: "fl_result s = LIBP2P_GOSSIPSUB_OK \<Longrightarrow> fl_peer_blocked s \<or> tx_chain (fl_router s) p = []"
    using flush_loop_ok [of host_write sent ?s p st now_us] assms by auto
  let ?peer = "g_peers (fl_router s) ! p"
  define g' where "g' = (if p_tx_queue_depth ?peer \<noteq> 0
    then gossipsub_tx_set_peer_ready p (if fl_peer_blocked s then False
      else if fl_bytes_written s \<noteq> 0 then True else p_tx_ready ?peer) (fl_router s)
    else fl_router s)"
  have run: "gossipsub_flush_peer host_write g h p now_us made_progress rpcs_sent =
      Some (fl_result s, fl_host s, fl_made_progress s, fl_rpcs_sent s, g')"
    using assms(3,4) loop by (simp add: gossipsub_flush_peer_def g'_def Let_def)
  have ok: "tx_ok (fl_router s)" and p: "p < length (g_peers (fl_router s))"
    using f assms(3) by (simp_all add: flushed_def only_peer_def)
  have f': "flushed sent now_us p st g h g' (fl_host s)"
    unfolding g'_def using f flushed_trans [OF f flushed_set_ready [OF ok]] by simp
  have d: "p_tx_queue_depth ?peer = length (tx_chain (fl_router s) p)"
    by (rule inv_depth [OF tx_okD [OF ok] p])
  have "p_tx_transport_busy (g_peers g' ! p) \<and> \<not> p_tx_ready (g_peers g' ! p)"
    if "fl_peer_blocked s" "tx_chain (fl_router s) p \<noteq> []"
    using that b d p by (auto simp: g'_def set_ready_busy gossipsub_tx_set_peer_ready_def Let_def)
  moreover have "tx_view g' p = []" if "tx_chain (fl_router s) p = []"
    using that d by (simp add: g'_def tx_view_def)
  ultimately show thesis
    using that [OF run f'] r by blast
qed

text \<open>Claim C3. Flushing the queue of one peer always returns and refines writing to its stream: the
  bytes that the host accepts for the stream are, in order, a prefix of the bytes that were pending in
  the queue of the peer (the unwritten bytes of its frames, less the frames whose time has run out),
  and exactly the rest is still pending afterwards; no byte goes to another stream, no other peer's
  queue changes, and nothing outside the queue does. A flush that reports no error either leaves
  nothing in the queue, or marks the transport busy and the peer not ready.\<close>

theorem flush_refines:
  assumes "tx_ok g" and "stream_host host_write sent"
    and "p < length (g_peers g)" and "p_stream (g_peers g ! p) = Some st"
  shows "\<exists>r h' progress n g'. gossipsub_flush_peer host_write g h p now_us made_progress rpcs_sent =
      Some (r, h', progress, n, g') \<and>
    tx_ok g' \<and> tx_core g' = tx_core g \<and>
    (\<exists>w. sent h' st = sent h st @ w \<and> pending now_us g p = w @ pending now_us g' p) \<and>
    (\<forall>s. s \<noteq> st \<longrightarrow> sent h' s = sent h s) \<and>
    (\<forall>p' < length (g_peers g). p' \<noteq> p \<longrightarrow> tx_view g' p' = tx_view g p') \<and>
    (r = LIBP2P_GOSSIPSUB_OK \<longrightarrow> tx_view g' p = [] \<or>
       p_tx_transport_busy (g_peers g' ! p) \<and> \<not> p_tx_ready (g_peers g' ! p))"
proof -
  obtain r h' progress n g' where run: "gossipsub_flush_peer host_write g h p now_us made_progress rpcs_sent =
      Some (r, h', progress, n, g')" and f: "flushed sent now_us p st g h g' h'"
    and e: "r = LIBP2P_GOSSIPSUB_OK \<longrightarrow> tx_view g' p = [] \<or>
       p_tx_transport_busy (g_peers g' ! p) \<and> \<not> p_tx_ready (g_peers g' ! p)"
    by (rule flush_peer_ok [OF assms, of h now_us made_progress rpcs_sent])
  with run f e show ?thesis unfolding flushed_def by blast
qed

text \<open>An instance: a host that takes up to five bytes of every write, and a queue with one GRAFT.\<close>

definition sip_write :: "(nat \<Rightarrow> byte list) host_write" where
  "sip_write h s bytes = ((LIBP2P_HOST_OK, min 5 (length bytes)), h(s := h s @ take 5 bytes))"

lemma sip_stream_host: "stream_host sip_write (\<lambda>h s. h s)"
  by (auto simp: stream_host_def sip_write_def min_def)

lemma sample_fields:
  "g_peers sample_router = [sample_peer 1, sample_peer 2]" "g_config sample_router = sample_config"
  "g_tx_queue sample_router = replicate 4 zero_tx_item" "g_tx_buffer sample_router = replicate 32 0"
  by (simp_all add: sample_router_def initial_router_def Let_def sample_config_def)

lemma sample_graft_possible: "enqueue_possible sample_router 0 sample_graft"
proof -
  have "limits_ok LIBP2P_GOSSIPSUB_VERSION_12 default_limits"
    by (simp add: limits_ok_def default_limits_def gossipsub_version_validate_def gossipsub_limits_validate_def
        LIBP2P_GOSSIPSUB_DEFAULT_MAX_TOPIC_BYTES_def LIBP2P_GOSSIPSUB_DEFAULT_MAX_MESSAGE_ID_BYTES_def)
  moreover have "rpc_ok LIBP2P_GOSSIPSUB_VERSION_12 default_limits sample_graft"
    by (simp add: rpc_ok_def default_limits_def sample_graft_def empty_rpc_def empty_control_def
        control_ok_def graft_ok_def span_ok_def LIBP2P_GOSSIPSUB_DEFAULT_MAX_TOPIC_BYTES_def)
  moreover have "length (body_bytes sample_graft) = 7" by code_simp
  moreover have "frame_bytes sample_graft = [7, 26, 5, 26, 3, 10, 1, 116]" by code_simp
  moreover have "max_rpc_bytes default_limits = 1048576" by (simp add: default_limits_def)
  moreover have "used_items (replicate 4 zero_tx_item) = {}"
    by (auto simp: used_items_def zero_tx_item_def)
  ultimately show ?thesis
    by (simp add: enqueue_possible_def sample_fields sample_peer_def zero_peer_def tx_fits_def
        used_bytes_def sample_config_def zero_tx_item_def)
qed

lemma sample_writable:
  "max_rpc_bytes (cfg_limits (g_config sample_router)) < 2 ^ 63" "control_writable (rpc_control sample_graft)"
  by (simp_all add: sample_fields sample_config_def default_limits_def sample_graft_def empty_rpc_def
      empty_control_def control_writable_def)

lemma sample_enqueued:
  obtains i g0 where
    "gossipsub_enqueue_rpc_with_lifetime sample_router 0 sample_graft 0 b = Some (Inr i, g0)"
    and "tx_ok g0" and "tx_core g0 = tx_core sample_router" and "g_config g0 = g_config sample_router"
    and "tx_view g0 0 = [(b, 0, frame_bytes sample_graft)]" and "tx_view g0 1 = []"
    and "length (g_tx_queue g0) = 4" and "length (g_tx_buffer g0) = 32"
proof -
  obtain r g0 where run: "gossipsub_enqueue_rpc_with_lifetime sample_router 0 sample_graft 0 b = Some (r, g0)"
    and g0: "tx_ok g0" "tx_core g0 = tx_core sample_router" "g_config g0 = g_config sample_router"
    and l: "length (g_tx_queue g0) = length (g_tx_queue sample_router)"
      "length (g_tx_buffer g0) = length (g_tx_buffer sample_router)"
    and iff: "(\<exists>i. r = Inr i) \<longleftrightarrow> enqueue_possible sample_router 0 sample_graft"
    and v: "\<forall>i. r = Inr i \<longrightarrow> i < length (g_tx_queue g0) \<and>
      tx_view g0 0 = insert_item fst b (b, 0, frame_bytes sample_graft) (tx_view sample_router 0) \<and>
      (\<forall>p' < length (g_peers sample_router). p' \<noteq> 0 \<longrightarrow> tx_view g0 p' = tx_view sample_router p')"
    by (rule enqueue_ok [OF sample_tx_ok sample_writable])
  obtain i where r: "r = Inr i" using iff sample_graft_possible by blast
  have "tx_view sample_router 0 = []" "tx_view sample_router 1 = []"
    by (simp_all add: tx_view_def tx_chain_def sample_fields sample_peer_def zero_peer_def numeral_eq_Suc)
  with r v have "tx_view g0 0 = [(b, 0, frame_bytes sample_graft)]" "tx_view g0 1 = []"
    by (simp_all add: insert_item_def sample_fields)
  with run g0 l r that show thesis by (simp add: sample_fields)
qed

theorem flush_refines_witness:
  "\<exists>i g0. gossipsub_enqueue_rpc_with_lifetime sample_router 0 sample_graft 0 True = Some (Inr i, g0) \<and>
    tx_view g0 0 = [(True, 0, frame_bytes sample_graft)] \<and>
    (\<exists>r h' progress n g'. gossipsub_flush_peer sip_write g0 (\<lambda>_. []) 0 9 False 0 =
      Some (r, h', progress, n, g') \<and>
    tx_ok g' \<and> tx_core g' = tx_core g0 \<and>
    (\<exists>w. h' 1 = [] @ w \<and> pending 9 g0 0 = w @ pending 9 g' 0) \<and>
    (\<forall>s. s \<noteq> 1 \<longrightarrow> h' s = []) \<and>
    (\<forall>p' < length (g_peers g0). p' \<noteq> 0 \<longrightarrow> tx_view g' p' = tx_view g0 p') \<and>
    (r = LIBP2P_GOSSIPSUB_OK \<longrightarrow> tx_view g' 0 = [] \<or>
       p_tx_transport_busy (g_peers g' ! 0) \<and> \<not> p_tx_ready (g_peers g' ! 0)))"
proof -
  obtain i g0 where run: "gossipsub_enqueue_rpc_with_lifetime sample_router 0 sample_graft 0 True = Some (Inr i, g0)"
    and g0: "tx_ok g0" "tx_core g0 = tx_core sample_router"
    and view: "tx_view g0 0 = [(True, 0, frame_bytes sample_graft)]"
    by (rule sample_enqueued)
  have "0 < length (g_peers sample_router)" by (simp add: sample_fields)
  from core_stream [OF g0(2) this] have "0 < length (g_peers g0)" "p_stream (g_peers g0 ! 0) = Some 1"
    by (simp_all add: sample_fields sample_peer_def)
  from flush_refines [OF g0(1) sip_stream_host this, of "\<lambda>_. []" 9 False 0] run view
  show ?thesis by blast
qed

subsection \<open>Expiry\<close>

text \<open>Dropping the stale items always returns and removes exactly the frames whose deadline
  has passed and of which nothing has been written: every queue keeps its other frames in their
  order, the count is the number of frames removed, what is pending does not change, nothing outside
  the queue does, and the invariant of the queue is kept.\<close>

theorem drop_stale_refines:
  assumes "tx_ok g"
  shows "\<exists>n g'. gossipsub_tx_drop_stale g now_us = Some (n, g') \<and>
    tx_ok g' \<and> tx_core g' = tx_core g \<and>
    (\<forall>p < length (g_peers g).
      tx_view g' p = map (frame_of g) (filter (\<lambda>i. \<not> stale_at g now_us i) (tx_chain g p)) \<and>
      pending now_us g' p = pending now_us g p) \<and>
    n = (\<Sum>p\<leftarrow>[0..<length (g_peers g)]. length (tx_view g p) - length (tx_view g' p))"
proof -
  obtain g' where run: "gossipsub_tx_drop_stale g now_us =
      Some (\<Sum>p\<leftarrow>[0..<length (g_peers g)]. length (filter (stale_at g now_us) (tx_chain g p)), g')"
    and ok: "tx_ok g'" and k: "kept g g'"
    and c: "\<forall>p < length (g_peers g). tx_chain g' p = filter (\<lambda>i. \<not> stale_at g now_us i) (tx_chain g p)"
    by (rule drop_stale_ok [OF assms])
  have e: "frame_of g' j = frame_of g j" "stale_at g' now_us j = stale_at g now_us j"
    "rest_of g' j = rest_of g j" if "p < length (g_peers g)" "j \<in> set (tx_chain g' p)" for p j
  proof -
    have u: "j \<in> used_items (g_tx_queue g')"
      using inv_item(1) [OF tx_okD [OF ok] _ that(2)] that(1) k by (simp add: kept_def)
    from kept_item [OF k u] show "frame_of g' j = frame_of g j" "stale_at g' now_us j = stale_at g now_us j"
      by simp_all
    then show "rest_of g' j = rest_of g j" by (simp add: rest_of_def frame_of_def)
  qed
  have "tx_view g' p = map (frame_of g) (filter (\<lambda>i. \<not> stale_at g now_us i) (tx_chain g p)) \<and>
      pending now_us g' p = pending now_us g p" if p: "p < length (g_peers g)" for p
  proof
    show "tx_view g' p = map (frame_of g) (filter (\<lambda>i. \<not> stale_at g now_us i) (tx_chain g p))"
      using c p e(1) [OF p] by (simp add: tx_view_def)
    have "pending now_us g' p = pending_of now_us g (tx_chain g' p)"
      unfolding pending_def by (rule pending_of_cong) (use e(2,3) [OF p] in blast)
    also have "\<dots> = pending now_us g p" using c p by (simp add: pending_def pending_of_def)
    finally show "pending now_us g' p = pending now_us g p" .
  qed
  moreover have "length (filter (stale_at g now_us) (tx_chain g p)) = length (tx_view g p) - length (tx_view g' p)"
    if "p < length (g_peers g)" for p
    using c that sum_length_filter_compl [of "stale_at g now_us" "tx_chain g p"] by (simp add: tx_view_def)
  then have "(\<Sum>p\<leftarrow>[0..<length (g_peers g)]. length (filter (stale_at g now_us) (tx_chain g p))) =
      (\<Sum>p\<leftarrow>[0..<length (g_peers g)]. length (tx_view g p) - length (tx_view g' p))"
    by (intro arg_cong [where f = sum_list] map_cong) auto
  ultimately show ?thesis using run ok k unfolding kept_def by blast
qed

theorem drop_stale_refines_witness:
  "\<exists>n g'. gossipsub_tx_drop_stale sample_router 5 = Some (n, g') \<and>
    tx_ok g' \<and> tx_core g' = tx_core sample_router \<and>
    (\<forall>p < length (g_peers sample_router).
      tx_view g' p = map (frame_of sample_router)
        (filter (\<lambda>i. \<not> stale_at sample_router 5 i) (tx_chain sample_router p)) \<and>
      pending 5 g' p = pending 5 sample_router p) \<and>
    n = (\<Sum>p\<leftarrow>[0..<length (g_peers sample_router)]. length (tx_view sample_router p) - length (tx_view g' p))"
  by (rule drop_stale_refines [OF sample_tx_ok])

subsection \<open>Priority and partly written frames\<close>

text \<open>Claim C23. A flaw of the queue: when nothing in the queue of a peer has priority, a priority RPC
  goes in front of everything, of a frame too of which some bytes are on the stream already. The
  next bytes written are then those of the new frame and the rest of the interrupted frame follows
  them, so the peer sees the new frame in the middle of the old one.\<close>

theorem priority_interrupts_frame:
  assumes "tx_ok g" and "max_rpc_bytes (cfg_limits (g_config g)) < 2 ^ 63"
    and "control_writable (rpc_control rpc)" and "enqueue_possible g p rpc"
    and "tx_view g p = (False, pos, bytes) # vs" and "0 < pos" and "\<forall>v\<in>set vs. \<not> fst v"
  shows "\<exists>i g'. gossipsub_enqueue_rpc_with_lifetime g p rpc lifetime_us True = Some (Inr i, g') \<and>
    tx_view g' p = (True, 0, frame_bytes rpc) # (False, pos, bytes) # vs"
proof -
  obtain r g' where run: "gossipsub_enqueue_rpc_with_lifetime g p rpc lifetime_us True = Some (r, g')"
    and iff: "(\<exists>i. r = Inr i) \<longleftrightarrow> enqueue_possible g p rpc"
    and v: "\<forall>i. r = Inr i \<longrightarrow> i < length (g_tx_queue g') \<and>
      tx_view g' p = insert_item fst True (True, 0, frame_bytes rpc) (tx_view g p) \<and>
      (\<forall>p' < length (g_peers g). p' \<noteq> p \<longrightarrow> tx_view g' p' = tx_view g p')"
    by (rule enqueue_ok [OF assms(1-3)])
  obtain i where i: "r = Inr i" using iff assms(4) by blast
  have "filter fst vs = []" "filter (\<lambda>v. \<not> fst v) vs = vs"
    using assms(7) by (auto simp: filter_empty_conv filter_id_conv)
  with run v i assms(5) show ?thesis by (simp add: insert_item_def)
qed

text \<open>An instance: the first three bytes of a GRAFT are written.\<close>

lemma sample_core:
  assumes "tx_core g = tx_core sample_router"
  shows "length (g_peers g) = 2" "g_config g = sample_config" "p_used (g_peers g ! 0)"
    "p_stream (g_peers g ! 0) = Some 1" "p_version (g_peers g ! 0) = LIBP2P_GOSSIPSUB_VERSION_12"
proof -
  have m: "map peer_core (g_peers g) = map peer_core (g_peers sample_router)"
    using arg_cong [OF assms, of g_peers] by (simp add: tx_core_def)
  then show l: "length (g_peers g) = 2" using map_eq_imp_length_eq [OF m] by (simp add: sample_fields)
  show "g_config g = sample_config"
    using arg_cong [OF assms, of g_config] by (simp add: tx_core_def sample_fields)
  have "peer_core (g_peers g ! 0) = peer_core (sample_peer 1)"
    using m l by (cases "g_peers g") (auto simp: sample_fields)
  from arg_cong [OF this, of p_used] arg_cong [OF this, of p_stream] arg_cong [OF this, of p_version]
  show "p_used (g_peers g ! 0)" "p_stream (g_peers g ! 0) = Some 1"
    "p_version (g_peers g ! 0) = LIBP2P_GOSSIPSUB_VERSION_12"
    by (simp_all add: peer_core_def sample_peer_def)
qed

lemma one_frame_room:
  assumes ok: "tx_ok g" and n: "length (g_peers g) = 2" and c: "tx_chain g 0 = [k]" "tx_chain g 1 = []"
  shows "used_items (g_tx_queue g) = {k}" and "p_tx_queue_depth (g_peers g ! 0) = 1"
proof -
  note inv = tx_okD [OF ok]
  have "i = k" if "i \<in> used_items (g_tx_queue g)" for i
  proof -
    have "ti_peer_index (g_tx_queue g ! i) < 2" and "i \<in> set (tx_chain g (ti_peer_index (g_tx_queue g ! i)))"
      using inv that n by (auto simp: tx_inv_def items_ok_def)
    then show ?thesis using c by (auto simp: less_Suc_eq numeral_2_eq_2)
  qed
  moreover have "k \<in> used_items (g_tx_queue g)" using inv_item(1) [OF inv, of 0 k] n c by simp
  ultimately show "used_items (g_tx_queue g) = {k}" by blast
  show "p_tx_queue_depth (g_peers g ! 0) = 1" using inv_depth [OF inv, of 0] n c by simp
qed

lemma sample_interrupted:
  obtains g where "tx_ok g" and "g_config g = sample_config"
    and "enqueue_possible g 0 sample_graft" and "tx_view g 0 = [(False, 3, frame_bytes sample_graft)]"
proof -
  obtain i g0 where g0: "tx_ok g0" "tx_core g0 = tx_core sample_router" "g_config g0 = g_config sample_router"
    and v: "tx_view g0 0 = [(False, 0, frame_bytes sample_graft)]" "tx_view g0 1 = []"
    and l: "length (g_tx_queue g0) = 4" "length (g_tx_buffer g0) = 32"
    by (rule sample_enqueued [of False])
  note inv = tx_okD [OF g0(1)] and c = sample_core [OF g0(2)]
  obtain k where k: "tx_chain g0 0 = [k]" and fk: "frame_of g0 k = (False, 0, frame_bytes sample_graft)"
    using v(1) by (auto simp: tx_view_def)
  have n1: "tx_chain g0 1 = []" using v(2) by (simp add: tx_view_def)
  have p: "0 < length (g_peers g0)" and kc: "k \<in> set (tx_chain g0 0)" using c k by simp_all
  have f8: "length (frame_bytes sample_graft) = 8" by code_simp
  have len: "ti_len (g_tx_queue g0 ! k) = 8" "ti_pos (g_tx_queue g0 ! k) = 0"
    using flush_bytes_rest(2) [OF inv p kc] fk f8 inv_span(1) [OF inv p kc] by (auto simp: rest_of_def frame_of_def)
  let ?g = "advance 0 k 3 g0"
  have n: "3 \<le> length (rest_of g0 k)" using flush_bytes_rest(2) [OF inv p kc] len by simp
  have st: "\<not> stale_at g0 0 k" by (auto simp: gossipsub_tx_item_stale_def)
  note a = advance_ok [OF g0(1) p k st n]
  have core: "tx_core ?g = tx_core sample_router" using a(3) g0(2) by simp
  note c' = sample_core [OF core]
  have kl: "k < length (g_tx_queue g0)" using inv_item(2) [OF inv p kc] .
  have view: "tx_view ?g 0 = [(False, 3, frame_bytes sample_graft)]"
    using a(2) k fk kl by (simp add: tx_view_def frame_of_def item_bytes_def advance_def Let_def)
  have room: "used_items (g_tx_queue ?g) = {k}" "p_tx_queue_depth (g_peers ?g ! 0) = 1"
    using one_frame_room [OF a(1) c'(1), of k] a(2) k n1 by simp_all
  have "used_bytes (g_tx_queue ?g) = 8"
    using a(9) len by (simp add: used_bytes_def room)
  then have "enqueue_possible ?g 0 sample_graft"
    using sample_graft_possible c' room l a(6,7) f8
    by (simp add: enqueue_possible_def tx_fits_def sample_fields sample_peer_def zero_peer_def)
      (simp add: sample_config_def)
  from that [OF a(1) c'(2) this view] show thesis .
qed

theorem priority_interrupts_frame_witness:
  "\<exists>g i g'. tx_view g 0 = [(False, 3, frame_bytes sample_graft)] \<and>
    gossipsub_enqueue_rpc_with_lifetime g 0 sample_graft 0 True = Some (Inr i, g') \<and>
    tx_view g' 0 = [(True, 0, frame_bytes sample_graft), (False, 3, frame_bytes sample_graft)]"
proof -
  obtain g where g: "tx_ok g" "g_config g = sample_config" "enqueue_possible g 0 sample_graft"
    and v: "tx_view g 0 = [(False, 3, frame_bytes sample_graft)]"
    by (rule sample_interrupted)
  have m: "max_rpc_bytes (cfg_limits (g_config g)) < 2 ^ 63"
    using sample_writable(1) g(2) by (simp add: sample_fields)
  from priority_interrupts_frame [OF g(1) m sample_writable(2) g(3) v, of 0] v show ?thesis by auto
qed

end
