(* ===== verification/Gossipsub_Rx_Buffer.thy ===== *)
theory Gossipsub_Rx_Buffer
  imports Gossipsub_Tx
begin

text \<open>
  The receive buffers of the streams, the first part of
  \<open>src/src/protocol/gossipsub/gossipsub_rx.c\<close>: every stream has a small buffer of its own and
  takes a segment of a shared pool while a frame does not fit; the pool is compacted like the
  transmit buffer. A pointer to a stream state is its index. \<open>None\<close> stands for an access outside
  the block of small buffers or outside the pool.
\<close>

definition GOSSIPSUB_STREAM_RX_READ_CHUNK :: nat where "GOSSIPSUB_STREAM_RX_READ_CHUNK = 65536"

text \<open>The difference of two \<open>size_t\<close> values.\<close>

definition size_diff :: "nat \<Rightarrow> nat \<Rightarrow> nat" where
  "size_diff a b = (if b \<le> a then a - b else a + 2 ^ 64 - b)"

definition upd_stream ::
  "nat \<Rightarrow> (gossipsub_stream_state_t \<Rightarrow> gossipsub_stream_state_t) \<Rightarrow> libp2p_gossipsub_t \<Rightarrow>
   libp2p_gossipsub_t" where
  "upd_stream s f g = g\<lparr>g_streams := (g_streams g)[s := f (g_streams g ! s)]\<rparr>"

definition stream_rx_buffer_cap_of :: "libp2p_gossipsub_t \<Rightarrow> nat" where
  "stream_rx_buffer_cap_of g = (case g_stream_rx_buffer g of None \<Rightarrow> 0 | Some b \<Rightarrow> length b)"

text \<open>Reading and writing \<open>n\<close> bytes from position \<open>pos\<close> of a receive pointer on.\<close>

definition rx_load :: "libp2p_gossipsub_t \<Rightarrow> rx_pointer option \<Rightarrow> nat \<Rightarrow> nat \<Rightarrow> byte list option" where
  "rx_load g rx pos n =
     (case rx of
        None \<Rightarrow> None
      | Some (Rx_small offset) \<Rightarrow>
          (if offset + pos + n \<le> length (g_stream_rx_small g)
           then Some (take n (drop (offset + pos) (g_stream_rx_small g))) else None)
      | Some (Rx_large offset) \<Rightarrow>
          (case g_stream_rx_buffer g of
             None \<Rightarrow> None
           | Some b \<Rightarrow> if offset + pos + n \<le> length b then Some (take n (drop (offset + pos) b)) else None))"

definition rx_store ::
  "libp2p_gossipsub_t \<Rightarrow> rx_pointer option \<Rightarrow> nat \<Rightarrow> byte list \<Rightarrow> libp2p_gossipsub_t option" where
  "rx_store g rx pos bytes =
     (case rx of
        None \<Rightarrow> None
      | Some (Rx_small offset) \<Rightarrow>
          map_option (\<lambda>b. g\<lparr>g_stream_rx_small := b\<rparr>)
            (memcpy_at (g_stream_rx_small g) (offset + pos) bytes)
      | Some (Rx_large offset) \<Rightarrow>
          (case g_stream_rx_buffer g of
             None \<Rightarrow> None
           | Some b \<Rightarrow> map_option (\<lambda>b. g\<lparr>g_stream_rx_buffer := Some b\<rparr>)
                        (memcpy_at b (offset + pos) bytes)))"

subsection \<open>Capacities\<close>

definition gossipsub_stream_rx_small :: "libp2p_gossipsub_t \<Rightarrow> nat \<Rightarrow> rx_pointer option" where
  "gossipsub_stream_rx_small g s =
     (if ss_stream_index (g_streams g ! s) < length (g_streams g)
      then Some (Rx_small (ss_stream_index (g_streams g ! s) * g_stream_rx_small_stride g)) else None)"

definition gossipsub_stream_rx_is_large :: "gossipsub_stream_state_t \<Rightarrow> bool" where
  "gossipsub_stream_rx_is_large stream_state = (ss_rx_offset stream_state \<noteq> None)"

partial_function (option) next_cap_loop :: "nat \<Rightarrow> nat \<Rightarrow> nat \<Rightarrow> nat option" where
  "next_cap_loop required retained_limit result =
     (if result < required \<and> result < retained_limit
      then next_cap_loop required retained_limit
             (if result > retained_limit div 2 then retained_limit else result * 2)
      else Some result)"

definition gossipsub_stream_rx_next_cap :: "nat \<Rightarrow> nat \<Rightarrow> nat \<Rightarrow> nat option" where
  "gossipsub_stream_rx_next_cap current_cap required retained_limit = do {
     let min_cap = (if GOSSIPSUB_STREAM_RX_SMALL_CAP > retained_limit then retained_limit
                    else GOSSIPSUB_STREAM_RX_SMALL_CAP);
     result \<leftarrow> next_cap_loop required retained_limit
                (if current_cap < min_cap then min_cap else current_cap);
     let result = (if result < required then required else result);
     Some (if result > retained_limit then retained_limit else result)
   }"

subsection \<open>Compaction of the pool\<close>

definition gossipsub_stream_rx_active_count :: "libp2p_gossipsub_t \<Rightarrow> nat \<Rightarrow> nat" where
  "gossipsub_stream_rx_active_count g tail_index =
     length (filter (\<lambda>i. i \<noteq> tail_index \<and> gossipsub_stream_rx_is_large (g_streams g ! i))
       [0..<length (g_streams g)])"

definition gossipsub_stream_rx_move_large ::
  "nat \<Rightarrow> libp2p_gossipsub_t \<Rightarrow> nat \<Rightarrow> (libp2p_gossipsub_t \<times> nat) option" where
  "gossipsub_stream_rx_move_large s g cursor =
     (let ss = g_streams g ! s; cap = stream_rx_buffer_cap_of g in
      case (g_stream_rx_buffer g, ss_rx_offset ss) of
        (Some b, Some old_offset) \<Rightarrow>
          if cursor \<le> cap \<and> old_offset \<le> cap \<and> ss_rx_cap ss \<le> cap - old_offset \<and>
             ss_rx_cap ss \<le> cap - cursor
          then do {
            b' \<leftarrow> (if ss_rx_cap ss \<noteq> 0 \<and> old_offset \<noteq> cursor
                   then memmove_at b cursor old_offset (ss_rx_cap ss) else Some b);
            Some (upd_stream s (\<lambda>x. x\<lparr>ss_rx_offset := Some cursor, ss_rx := Some (Rx_large cursor)\<rparr>)
                    (g\<lparr>g_stream_rx_buffer := Some b'\<rparr>),
                  cursor + ss_rx_cap ss)
          }
          else Some (g, cursor)
      | _ \<Rightarrow> Some (g, cursor))"

text \<open>The large stream with the least offset from \<open>search_offset\<close> on, and that offset.\<close>

fun rx_compact_best ::
  "nat \<Rightarrow> nat \<Rightarrow> nat \<Rightarrow> gossipsub_stream_state_t list \<Rightarrow> nat option \<times> nat \<Rightarrow> nat option \<times> nat" where
  "rx_compact_best tail_index search_offset index [] best = best"
| "rx_compact_best tail_index search_offset index (ss # streams) (best_index, best_offset) =
     rx_compact_best tail_index search_offset (index + 1) streams
       (case ss_rx_offset ss of
          None \<Rightarrow> (best_index, best_offset)
        | Some offset \<Rightarrow>
            if index \<noteq> tail_index \<and> offset \<ge> search_offset \<and> offset < best_offset
            then (Some index, offset) else (best_index, best_offset))"

text \<open>The loop of the compaction, for \<open>n\<close> further streams.\<close>

fun rx_compact_loop ::
  "nat \<Rightarrow> nat \<Rightarrow> libp2p_gossipsub_t \<Rightarrow> nat \<Rightarrow> nat \<Rightarrow> (libp2p_gossipsub_t \<times> nat) option" where
  "rx_compact_loop tail_index 0 g cursor search_offset = Some (g, cursor)"
| "rx_compact_loop tail_index (Suc n) g cursor search_offset =
     (case rx_compact_best tail_index search_offset 0 (g_streams g) (None, SIZE_MAX) of
        (None, _) \<Rightarrow> Some (g, cursor)
      | (Some s, old_offset) \<Rightarrow> do {
          (g', cursor') \<leftarrow> gossipsub_stream_rx_move_large s g cursor;
          let cap = ss_rx_cap (g_streams g' ! s);
          let search = (if cap \<le> SIZE_MAX - old_offset then old_offset + cap else SIZE_MAX);
          rx_compact_loop tail_index n g' cursor'
            (if search = old_offset \<and> search < SIZE_MAX then search + 1 else search)
        })"

definition gossipsub_stream_rx_compact ::
  "nat \<Rightarrow> libp2p_gossipsub_t \<Rightarrow> libp2p_gossipsub_t option" where
  "gossipsub_stream_rx_compact tail_index g =
     (if g_stream_rx_buffer g = None then Some g
      else do {
        (g1, cursor) \<leftarrow>
          rx_compact_loop tail_index (gossipsub_stream_rx_active_count g tail_index) g 0 0;
        (g2, cursor) \<leftarrow> (if tail_index < length (g_streams g1)
                        then gossipsub_stream_rx_move_large tail_index g1 cursor
                        else Some (g1, cursor));
        Some (g2\<lparr>g_stream_rx_buffer_used := cursor\<rparr>)
      })"

text \<open>The calls in the router compact all streams.\<close>

definition rx_compact_all :: "libp2p_gossipsub_t \<Rightarrow> libp2p_gossipsub_t option" where
  "rx_compact_all g = gossipsub_stream_rx_compact (length (g_streams g)) g"

subsection \<open>Operations on the buffer of a stream\<close>

definition gossipsub_stream_rx_reset :: "nat \<Rightarrow> libp2p_gossipsub_t \<Rightarrow> libp2p_gossipsub_t option" where
  "gossipsub_stream_rx_reset s g =
     rx_compact_all (upd_stream s (\<lambda>x. x\<lparr>ss_rx_offset := None, ss_rx := gossipsub_stream_rx_small g s,
       ss_rx_len := 0, ss_rx_cap := g_stream_rx_small_stride g\<rparr>) g)"

text \<open>A new segment at the end of the pool that takes over the bytes received so far.\<close>

definition rx_new_segment :: "nat \<Rightarrow> nat \<Rightarrow> libp2p_gossipsub_t \<Rightarrow> libp2p_gossipsub_t option" where
  "rx_new_segment s new_cap g = do {
     let offset = g_stream_rx_buffer_used g;
     let ss = g_streams g ! s;
     g1 \<leftarrow> (if ss_rx_len ss \<noteq> 0 then do {
              bytes \<leftarrow> rx_load g (ss_rx ss) 0 (ss_rx_len ss);
              rx_store g (Some (Rx_large offset)) 0 bytes
            } else Some g);
     Some ((upd_stream s (\<lambda>x. x\<lparr>ss_rx_offset := Some offset, ss_rx := Some (Rx_large offset),
              ss_rx_cap := new_cap\<rparr>) g1)
           \<lparr>g_stream_rx_buffer_used := g_stream_rx_buffer_used g1 + new_cap\<rparr>)
   }"

definition rx_grow_large ::
  "nat \<Rightarrow> nat \<Rightarrow> libp2p_gossipsub_t \<Rightarrow> (libp2p_gossipsub_err_t \<times> libp2p_gossipsub_t) option" where
  "rx_grow_large s new_cap g =
     (let ss = g_streams g ! s; cap = stream_rx_buffer_cap_of g; offset = the (ss_rx_offset ss) in
      if offset > cap \<or> ss_rx_cap ss > cap - offset \<or> new_cap < ss_rx_cap ss
      then Some (LIBP2P_GOSSIPSUB_ERR_INTERNAL, g)
      else if offset + ss_rx_cap ss = g_stream_rx_buffer_used g
      then
        (if new_cap - ss_rx_cap ss \<le> size_diff cap (g_stream_rx_buffer_used g)
         then Some (LIBP2P_GOSSIPSUB_OK,
                (upd_stream s (ss_rx_cap_update (\<lambda>_. new_cap)) g)
                  \<lparr>g_stream_rx_buffer_used := offset + new_cap\<rparr>)
         else Some (LIBP2P_GOSSIPSUB_ERR_WOULD_BLOCK, g))
      else if new_cap \<le> size_diff cap (g_stream_rx_buffer_used g)
      then map_option (Pair LIBP2P_GOSSIPSUB_OK)
             (Option.bind (rx_new_segment s new_cap g) rx_compact_all)
      else Some (LIBP2P_GOSSIPSUB_ERR_WOULD_BLOCK, g))"

definition gossipsub_stream_rx_reserve ::
  "nat \<Rightarrow> nat \<Rightarrow> libp2p_gossipsub_t \<Rightarrow> (libp2p_gossipsub_err_t \<times> libp2p_gossipsub_t) option" where
  "gossipsub_stream_rx_reserve s required g =
     (let ss = g_streams g ! s in
      if ss_rx ss = None then Some (LIBP2P_GOSSIPSUB_ERR_INVALID_ARG, g)
      else if required > g_stream_rx_max_cap g then Some (LIBP2P_GOSSIPSUB_ERR_LIMIT, g)
      else if required \<le> ss_rx_cap ss then Some (LIBP2P_GOSSIPSUB_OK, g)
      else do {
        new_cap \<leftarrow> gossipsub_stream_rx_next_cap (ss_rx_cap ss) required (g_stream_rx_max_cap g);
        if g_stream_rx_buffer g = None \<or> new_cap < required \<or> new_cap > stream_rx_buffer_cap_of g
        then Some (LIBP2P_GOSSIPSUB_ERR_LIMIT, g)
        else do {
          g1 \<leftarrow> rx_compact_all g;
          if gossipsub_stream_rx_is_large ss then rx_grow_large s new_cap g1
          else if new_cap \<le> size_diff (stream_rx_buffer_cap_of g1) (g_stream_rx_buffer_used g1)
          then map_option (Pair LIBP2P_GOSSIPSUB_OK) (rx_new_segment s new_cap g1)
          else Some (LIBP2P_GOSSIPSUB_ERR_WOULD_BLOCK, g1)
        }
      })"

definition gossipsub_stream_rx_shrink :: "nat \<Rightarrow> libp2p_gossipsub_t \<Rightarrow> libp2p_gossipsub_t option" where
  "gossipsub_stream_rx_shrink s g =
     (let ss = g_streams g ! s; small = gossipsub_stream_rx_small g s in
      if small \<noteq> None \<and> gossipsub_stream_rx_is_large ss \<and>
         ss_rx_len ss \<le> g_stream_rx_small_stride g
      then do {
        g1 \<leftarrow> (if ss_rx_len ss \<noteq> 0 then do {
                 bytes \<leftarrow> rx_load g (ss_rx ss) 0 (ss_rx_len ss);
                 rx_store g small 0 bytes
               } else Some g);
        rx_compact_all (upd_stream s (\<lambda>x. x\<lparr>ss_rx := small, ss_rx_cap := g_stream_rx_small_stride g,
          ss_rx_offset := None\<rparr>) g1)
      }
      else Some g)"

end
