(* ===== verification/Gossipsub_Mesh.thy ===== *)
theory Gossipsub_Mesh
  imports Gossipsub_Flush
begin

text \<open>
  The heartbeat: filling and trimming the meshes and gossiping about cached messages
  (\<open>src/src/protocol/gossipsub/gossipsub_state.c\<close>), ageing of the caches and the driver
  (\<open>gossipsub_host.c\<close>).

  A loop that counts towards a target is recursive in the number of rounds that are left. The result
  is \<open>None\<close> only where an operation of the transmit queue has no result.
\<close>

subsection \<open>Filling and trimming a mesh\<close>

text \<open>The loop of \<open>gossipsub_mesh_fill_topic\<close>; \<open>n\<close> edges are missing.\<close>

fun fill_loop :: "nat \<Rightarrow> u64 \<Rightarrow> bool \<Rightarrow> nat \<Rightarrow> libp2p_gossipsub_t \<Rightarrow> gstep" where
  "fill_loop topic_index salt queue_graft 0 g = Some (LIBP2P_GOSSIPSUB_OK, g)"
| "fill_loop topic_index salt queue_graft (Suc n) g =
     (let peer_index = gossipsub_ranked_peer g topic_index salt GOSSIPSUB_RANK_MODE_FILL in
      if peer_index \<ge> length (g_peers g) then Some (LIBP2P_GOSSIPSUB_OK, g)
      else case gossipsub_mesh_add g peer_index topic_index of
        (added, g1) \<Rightarrow>
          if added \<noteq> LIBP2P_GOSSIPSUB_OK then Some (added, g1)
          else if \<not> queue_graft then fill_loop topic_index salt queue_graft n g1
          else do {
            (queued, g2) \<leftarrow> gossipsub_enqueue_graft g1 peer_index (g_topics g1 ! topic_index);
            if queued = LIBP2P_GOSSIPSUB_OK then fill_loop topic_index salt queue_graft n g2
            else Some (queued, gossipsub_mesh_remove g2 peer_index topic_index)
          })"

definition gossipsub_mesh_fill_topic :: "libp2p_gossipsub_t \<Rightarrow> nat \<Rightarrow> nat \<Rightarrow> bool \<Rightarrow> gstep" where
  "gossipsub_mesh_fill_topic g topic_index target queue_graft =
     (if topic_index \<ge> length (g_topics g) then Some (LIBP2P_GOSSIPSUB_ERR_INVALID_ARG, g)
      else if \<not> t_used (g_topics g ! topic_index) then Some (LIBP2P_GOSSIPSUB_ERR_STATE, g)
      else
        let count = gossipsub_mesh_count_topic g topic_index in
        if count < target then
          (case gossipsub_random_u64 g of
             ((result, salt), g1) \<Rightarrow>
               if result = LIBP2P_GOSSIPSUB_OK
               then fill_loop topic_index salt queue_graft (target - count) g1
               else Some (result, g1))
        else Some (LIBP2P_GOSSIPSUB_OK, g))"

text \<open>The loop of \<open>gossipsub_mesh_trim_topic\<close>; \<open>n\<close> edges are to go.\<close>

fun trim_loop :: "nat \<Rightarrow> u64 \<Rightarrow> bool \<Rightarrow> nat \<Rightarrow> libp2p_gossipsub_t \<Rightarrow> gstep" where
  "trim_loop topic_index salt queue_prune 0 g = Some (LIBP2P_GOSSIPSUB_OK, g)"
| "trim_loop topic_index salt queue_prune (Suc n) g =
     (let peer_index = gossipsub_ranked_peer g topic_index salt GOSSIPSUB_RANK_MODE_TRIM in
      if peer_index \<ge> length (g_peers g) then Some (LIBP2P_GOSSIPSUB_OK, g)
      else do {
        (queued, g1) \<leftarrow> (if queue_prune
                        then gossipsub_enqueue_prune g peer_index (g_topics g ! topic_index)
                        else Some (LIBP2P_GOSSIPSUB_OK, g));
        case (if queued = LIBP2P_GOSSIPSUB_OK \<and> queue_prune
              then gossipsub_backoff_add g1 peer_index topic_index
                     (mp_prune_backoff_us (cfg_mesh (g_config g1))) (g_last_drive_us g1)
              else (queued, g1)) of
          (result, g2) \<Rightarrow>
            if result = LIBP2P_GOSSIPSUB_OK
            then trim_loop topic_index salt queue_prune n
                   (gossipsub_mesh_remove g2 peer_index topic_index)
            else Some (result, g2)
      })"

definition gossipsub_mesh_trim_topic :: "libp2p_gossipsub_t \<Rightarrow> nat \<Rightarrow> nat \<Rightarrow> bool \<Rightarrow> gstep" where
  "gossipsub_mesh_trim_topic g topic_index target queue_prune =
     (if topic_index \<ge> length (g_topics g) then Some (LIBP2P_GOSSIPSUB_ERR_INVALID_ARG, g)
      else
        let count = gossipsub_mesh_count_topic g topic_index in
        if count > target then
          (case gossipsub_random_u64 g of
             ((result, salt), g1) \<Rightarrow>
               if result = LIBP2P_GOSSIPSUB_OK
               then trim_loop topic_index salt queue_prune (count - target) g1
               else Some (result, g1))
        else Some (LIBP2P_GOSSIPSUB_OK, g))"

text \<open>A loop over topics that stops at the first error; it visits the subscribed ones.\<close>

fun subscribed_topics ::
  "(nat \<Rightarrow> libp2p_gossipsub_t \<Rightarrow> gstep) \<Rightarrow> nat list \<Rightarrow> libp2p_gossipsub_t \<Rightarrow> gstep" where
  "subscribed_topics f [] g = Some (LIBP2P_GOSSIPSUB_OK, g)"
| "subscribed_topics f (t # ts) g =
     (if t_used (g_topics g ! t) \<and> t_local_subscribed (g_topics g ! t) then do {
        (result, g1) \<leftarrow> f t g;
        if result = LIBP2P_GOSSIPSUB_OK then subscribed_topics f ts g1 else Some (result, g1)
      }
      else subscribed_topics f ts g)"

definition heartbeat_topic :: "nat \<Rightarrow> libp2p_gossipsub_t \<Rightarrow> gstep" where
  "heartbeat_topic topic_index g =
     (let count = gossipsub_mesh_count_topic g topic_index; mesh = cfg_mesh (g_config g) in
      if count < mp_d_low mesh then gossipsub_mesh_fill_topic g topic_index (mp_d mesh) True
      else if count > mp_d_high mesh then gossipsub_mesh_trim_topic g topic_index (mp_d mesh) True
      else Some (LIBP2P_GOSSIPSUB_OK, g))"

definition gossipsub_mesh_heartbeat :: "libp2p_gossipsub_t \<Rightarrow> gstep" where
  "gossipsub_mesh_heartbeat g = subscribed_topics heartbeat_topic [0..<length (g_topics g)] g"

subsection \<open>Gossip\<close>

definition LIBP2P_GOSSIPSUB_DEFAULT_MAX_MESSAGE_IDS_PER_RPC :: nat where
  "LIBP2P_GOSSIPSUB_DEFAULT_MAX_MESSAGE_IDS_PER_RPC = 1024"

definition GOSSIPSUB_GOSSIP_FACTOR_DENOMINATOR :: nat where
  "GOSSIPSUB_GOSSIP_FACTOR_DENOMINATOR = 1000000"

definition gossipsub_gossip_id_limit :: "libp2p_gossipsub_t \<Rightarrow> nat" where
  "gossipsub_gossip_id_limit g =
     (let result = max_message_ids_per_rpc (cfg_limits (g_config g)) in
      if result > LIBP2P_GOSSIPSUB_DEFAULT_MAX_MESSAGE_IDS_PER_RPC
      then LIBP2P_GOSSIPSUB_DEFAULT_MAX_MESSAGE_IDS_PER_RPC else result)"

definition gossipsub_collect_gossip_ids ::
  "libp2p_gossipsub_t \<Rightarrow> gossipsub_topic_state_t \<Rightarrow> nat \<Rightarrow> gbytes list" where
  "gossipsub_collect_gossip_ids g topic out_capacity =
     (if mp_mcache_gossip (cfg_mesh (g_config g)) = 0 then []
      else take out_capacity
        (map (\<lambda>e. Buf (mc_message_id e))
          (filter (\<lambda>e. mc_used e \<and> unat (mc_window e) < mp_mcache_gossip (cfg_mesh (g_config g)) \<and>
                       gossipsub_bytes_equal (Buf (mc_topic e)) (Buf (t_topic topic)))
             (g_mcache g))))"

definition gossipsub_peer_gossip_eligible :: "libp2p_gossipsub_t \<Rightarrow> nat \<Rightarrow> nat \<Rightarrow> bool" where
  "gossipsub_peer_gossip_eligible g peer_index topic_index =
     (peer_index < length (g_peers g) \<and>
      p_used (g_peers g ! peer_index) \<and> p_stream (g_peers g ! peer_index) \<noteq> None \<and>
      \<not> p_explicit_peer (g_peers g ! peer_index) \<and>
      gossipsub_peer_subscribed g peer_index topic_index \<and>
      \<not> gossipsub_mesh_contains g peer_index topic_index)"

definition gossipsub_gossip_eligible_count :: "libp2p_gossipsub_t \<Rightarrow> nat \<Rightarrow> nat" where
  "gossipsub_gossip_eligible_count g topic_index =
     length (filter (\<lambda>p. gossipsub_peer_gossip_eligible g p topic_index) [0..<length (g_peers g)])"

definition gossipsub_gossip_target :: "libp2p_gossipsub_t \<Rightarrow> nat \<Rightarrow> nat" where
  "gossipsub_gossip_target g eligible_count =
     (if eligible_count = 0 then 0
      else
        let ppm = unat (mp_gossip_factor_ppm (cfg_mesh (g_config g)));
            factor =
              (if ppm = 0 then 0
               else if eligible_count > SIZE_MAX div ppm then eligible_count
               else
                 let product = eligible_count * ppm;
                     factor = product div GOSSIPSUB_GOSSIP_FACTOR_DENOMINATOR
                 in if product mod GOSSIPSUB_GOSSIP_FACTOR_DENOMINATOR \<noteq> 0 then factor + 1 else factor);
            d_lazy = mp_d_lazy (cfg_mesh (g_config g));
            result = (if factor > d_lazy then factor else d_lazy)
        in if result > eligible_count then eligible_count else result)"

definition gossipsub_gossip_rank_candidate :: "libp2p_gossipsub_t \<Rightarrow> nat \<Rightarrow> nat \<Rightarrow> bool" where
  "gossipsub_gossip_rank_candidate g peer_index topic_index =
     gossipsub_peer_gossip_eligible g peer_index topic_index"

text \<open>The loop of \<open>gossipsub_emit_topic_gossip\<close>, for \<open>n\<close> further peers.\<close>

fun gossip_loop ::
  "nat \<Rightarrow> u64 \<Rightarrow> gbytes list \<Rightarrow> (u64 \<times> nat) option \<Rightarrow> nat \<Rightarrow> libp2p_gossipsub_t \<Rightarrow> gstep" where
  "gossip_loop topic_index salt ids previous 0 g = Some (LIBP2P_GOSSIPSUB_OK, g)"
| "gossip_loop topic_index salt ids previous (Suc n) g =
     (case best_ranked g salt
             (\<lambda>rank p. gossipsub_gossip_rank_candidate g p topic_index \<and>
                (case previous of
                   None \<Rightarrow> True
                 | Some (previous_rank, previous_peer) \<Rightarrow>
                     gossipsub_rank_after g rank p previous_rank previous_peer))
             0 (length (g_peers g)) None of
        None \<Rightarrow> Some (LIBP2P_GOSSIPSUB_OK, g)
      | Some (best_rank, best_peer) \<Rightarrow> do {
          (result, g1) \<leftarrow> gossipsub_enqueue_ihave g best_peer (g_topics g ! topic_index) ids;
          if result = LIBP2P_GOSSIPSUB_OK
          then gossip_loop topic_index salt ids (Some (best_rank, best_peer)) n g1
          else Some (result, g1)
        })"

definition gossipsub_emit_topic_gossip :: "nat \<Rightarrow> libp2p_gossipsub_t \<Rightarrow> gstep" where
  "gossipsub_emit_topic_gossip topic_index g =
     (if topic_index \<ge> length (g_topics g) then Some (LIBP2P_GOSSIPSUB_ERR_INVALID_ARG, g)
      else
        let ids = gossipsub_collect_gossip_ids g (g_topics g ! topic_index)
                    (gossipsub_gossip_id_limit g);
            eligible_count = gossipsub_gossip_eligible_count g topic_index;
            target = gossipsub_gossip_target g eligible_count
        in if ids \<noteq> [] \<and> target \<noteq> 0 \<and> target < eligible_count then
             (case gossipsub_random_u64 g of
                ((result, salt), g1) \<Rightarrow>
                  if result = LIBP2P_GOSSIPSUB_OK
                  then gossip_loop topic_index salt ids None target g1
                  else Some (result, g1))
           else gossip_loop topic_index 0 ids None target g)"

definition gossipsub_emit_gossip :: "libp2p_gossipsub_t \<Rightarrow> gstep" where
  "gossipsub_emit_gossip g =
     subscribed_topics gossipsub_emit_topic_gossip [0..<length (g_topics g)] g"

subsection \<open>The heartbeat\<close>

definition age_entry :: "nat \<Rightarrow> gossipsub_mcache_entry_t \<Rightarrow> gossipsub_mcache_entry_t" where
  "age_entry mcache_len e =
     (if mc_used e then
        (if unat (mc_window e) \<ge> mcache_len then e\<lparr>mc_used := False\<rparr>
         else e\<lparr>mc_window := mc_window e + 1\<rparr>)
      else e)"

definition expire_caches :: "u64 \<Rightarrow> libp2p_gossipsub_t \<Rightarrow> libp2p_gossipsub_t" where
  "expire_caches now_us g =
     g\<lparr>g_mcache := map (age_entry (mp_mcache_len (cfg_mesh (g_config g)))) (g_mcache g),
       g_seen := map (\<lambda>s. if se_used s \<and> se_expires_us s < now_us then s\<lparr>se_used := False\<rparr> else s)
         (g_seen g),
       g_idontwant := map (\<lambda>d. if dw_used d \<and> dw_expires_us d < now_us then d\<lparr>dw_used := False\<rparr>
                               else d) (g_idontwant g),
       g_validations := map (\<lambda>v. if va_pending v \<and> va_expires_us v < now_us
           then \<lparr>va_pending = False, va_peer_index = 0, va_mcache_index = 0, va_expires_us = 0\<rparr> else v)
         (g_validations g)\<rparr>"

definition gossipsub_heartbeat :: "libp2p_gossipsub_t \<Rightarrow> u64 \<Rightarrow> libp2p_gossipsub_t option" where
  "gossipsub_heartbeat g now_us = do {
     let g1 = g\<lparr>g_peers := map (\<lambda>p. if p_used p then p\<lparr>p_idontwant_sent := 0\<rparr> else p) (g_peers g)\<rparr>;
     let g2 = gossipsub_backoff_clear_expired g1 now_us;
     (_, g3) \<leftarrow> gossipsub_mesh_heartbeat g2;
     (_, g4) \<leftarrow> gossipsub_emit_gossip g3;
     let g5 = expire_caches now_us g4;
     Some (g5\<lparr>g_next_heartbeat_us := now_us + mp_heartbeat_interval_us (cfg_mesh (g_config g5))\<rparr>)
   }"

text \<open>The calls that take the host only check that it is there.\<close>

definition libp2p_gossipsub_start :: "libp2p_gossipsub_t \<Rightarrow> u64 \<Rightarrow> libp2p_gossipsub_t" where
  "libp2p_gossipsub_start g now_us =
     g\<lparr>g_started := True, g_closing := False, g_last_drive_us := now_us,
       g_next_heartbeat_us := now_us + mp_heartbeat_interval_us (cfg_mesh (g_config g))\<rparr>"

definition libp2p_gossipsub_next_deadline :: "libp2p_gossipsub_t \<Rightarrow> u64 option" where
  "libp2p_gossipsub_next_deadline g =
     (if \<not> g_started g then Some 0 else gossipsub_tx_next_deadline g (g_next_heartbeat_us g))"

text \<open>
  One drive: the error code, the host, the fields \<open>heartbeats\<close>, \<open>rpcs_sent\<close> and \<open>made_progress\<close> of
  the result, and the router.
\<close>

definition libp2p_gossipsub_drive ::
  "'h host_write \<Rightarrow> libp2p_gossipsub_t \<Rightarrow> 'h \<Rightarrow> u64 \<Rightarrow>
   (libp2p_gossipsub_err_t \<times> 'h \<times> nat \<times> nat \<times> bool \<times> libp2p_gossipsub_t) option" where
  "libp2p_gossipsub_drive host_write g h now_us = do {
     (stale_dropped, g1) \<leftarrow> gossipsub_tx_drop_stale g now_us;
     let g2 = g1\<lparr>g_last_drive_us := now_us\<rparr>;
     let beat = (g_started g2 \<and> now_us \<ge> g_next_heartbeat_us g2);
     g3 \<leftarrow> (if beat then gossipsub_heartbeat g2 now_us else Some g2);
     (result, h', made_progress, rpcs_sent, g4) \<leftarrow>
       gossipsub_flush_ready_peers host_write g3 h now_us (beat \<or> stale_dropped \<noteq> 0) 0;
     Some (result, h', if beat then 1 else 0, rpcs_sent, made_progress, g4)
   }"

end
