(* ===== verification/Gossipsub_Rx.thy ===== *)
theory Gossipsub_Rx
  imports Gossipsub_Rx_Buffer Gossipsub_Mesh
begin

text \<open>
  The receive path, the second part of \<open>src/src/protocol/gossipsub/gossipsub_rx.c\<close>: processing of
  the parts of an RPC, decoding of the frames that have arrived on a stream, reading from a stream.

  A loop that stops at the first error is \<open>each\<close> over the elements still to come. \<open>None\<close> stands for
  an access outside a buffer, a walk or loop without an end, and a null array that is said to have
  elements.
\<close>

subsection \<open>Steps in sequence\<close>

definition step_then :: "gstep \<Rightarrow> (libp2p_gossipsub_t \<Rightarrow> gstep) \<Rightarrow> gstep" where
  "step_then s f = do {
     (result, g) \<leftarrow> s;
     if result = LIBP2P_GOSSIPSUB_OK then f g else Some (result, g)
   }"

fun each :: "('a \<Rightarrow> libp2p_gossipsub_t \<Rightarrow> gstep) \<Rightarrow> 'a list \<Rightarrow> libp2p_gossipsub_t \<Rightarrow> gstep" where
  "each f [] g = Some (LIBP2P_GOSSIPSUB_OK, g)"
| "each f (x # xs) g = step_then (f x g) (each f xs)"

definition cbuf_list :: "'a cbuf \<Rightarrow> 'a list option" where
  "cbuf_list b = (case b of Buf xs \<Rightarrow> Some xs | Null n \<Rightarrow> if n = 0 then Some [] else None)"

definition local_limit_ok :: "gstep \<Rightarrow> gstep" where
  "local_limit_ok = map_option (map_prod gossipsub_continue_after_local_limit id)"

subsection \<open>Subscriptions\<close>

definition gossipsub_rx_prune_backoff_us :: "libp2p_gossipsub_t \<Rightarrow> u64 \<Rightarrow> u64" where
  "gossipsub_rx_prune_backoff_us g backoff_seconds =
     (if backoff_seconds \<noteq> 0
      then if backoff_seconds > - 1 div 1000000 then - 1 else backoff_seconds * 1000000
      else mp_prune_backoff_us (cfg_mesh (g_config g)))"

definition gossipsub_process_subscription ::
  "nat \<Rightarrow> libp2p_gossipsub_rpc_subscription_t \<Rightarrow> libp2p_gossipsub_t \<Rightarrow> gstep" where
  "gossipsub_process_subscription peer_index sub g =
     (if peer_index \<ge> length (g_peers g) then Some (LIBP2P_GOSSIPSUB_ERR_INVALID_ARG, g)
      else case gossipsub_find_or_add_topic g (sub_topic sub) of
        (None, g1) \<Rightarrow> local_limit_ok (Some (LIBP2P_GOSSIPSUB_ERR_LIMIT, g1))
      | (Some topic_index, g1) \<Rightarrow>
          (case gossipsub_find_or_add_peer_topic g1 peer_index topic_index of
             (None, g2) \<Rightarrow> local_limit_ok (Some (LIBP2P_GOSSIPSUB_ERR_LIMIT, g2))
           | (Some edge, g2) \<Rightarrow>
               let topic = g_topics g2 ! topic_index;
                   subscribe = (sub_subscribe sub \<noteq> 0);
                   g3 = g2\<lparr>g_peer_topics := (g_peer_topics g2)
                          [edge := (g_peer_topics g2 ! edge)\<lparr>pt_subscribed := subscribe\<rparr>]\<rparr>;
                   event = gossipsub_peer_to_event (g_peers g3 ! peer_index)
                             (zero_event\<lparr>ev_type := LIBP2P_GOSSIPSUB_EVENT_SUBSCRIPTION\<rparr>)
                           \<lparr>ev_topic := Buf (t_topic topic)\<rparr>
               in local_limit_ok (step_then (Some (gossipsub_push_event_or_drop g3 event)) (\<lambda>g4.
                    if subscribe \<and> t_local_subscribed topic \<and>
                       gossipsub_mesh_count_topic g4 topic_index < mp_d_low (cfg_mesh (g_config g4))
                    then gossipsub_mesh_fill_topic g4 topic_index (mp_d (cfg_mesh (g_config g4))) True
                    else if \<not> subscribe
                    then Some (LIBP2P_GOSSIPSUB_OK, gossipsub_mesh_remove g4 peer_index topic_index)
                    else Some (LIBP2P_GOSSIPSUB_OK, g4)))))"

subsection \<open>Messages\<close>

text \<open>
  The message id that the application wrote to an array of \<open>n\<close> zeroed bytes, with the size it
  reported.
\<close>

definition written_id :: "nat \<Rightarrow> nat option \<times> byte list \<Rightarrow> gbytes option" where
  "written_id n r =
     (case r of
        (None, bytes) \<Rightarrow> Some (Buf [])
      | (Some written, bytes) \<Rightarrow>
          if written \<le> n \<and> length bytes \<le> n
          then Some (Buf (take written (bytes @ replicate (n - length bytes) 0))) else None)"

definition dropped_event ::
  "libp2p_gossipsub_t \<Rightarrow> nat \<Rightarrow> libp2p_gossipsub_drop_reason_t \<Rightarrow> gbytes \<Rightarrow> libp2p_gossipsub_event_t" where
  "dropped_event g peer_index reason message_id =
     gossipsub_peer_to_event (g_peers g ! peer_index)
       (zero_event\<lparr>ev_type := LIBP2P_GOSSIPSUB_EVENT_DROPPED, ev_drop_reason := reason\<rparr>)
     \<lparr>ev_message_id := message_id\<rparr>"

definition message_event ::
  "libp2p_gossipsub_t \<Rightarrow> nat \<Rightarrow> gossipsub_mcache_entry_t \<Rightarrow> libp2p_gossipsub_event_t" where
  "message_event g peer_index entry =
     gossipsub_peer_to_event (g_peers g ! peer_index)
       (zero_event\<lparr>ev_type := LIBP2P_GOSSIPSUB_EVENT_MESSAGE\<rparr>)
     \<lparr>ev_topic := Buf (mc_topic entry), ev_message_id := Buf (mc_message_id entry),
      ev_message := gossipsub_entry_message g entry\<rparr>"

text \<open>What is done with a message that is in the cache at \<open>mcache_index\<close>.\<close>

definition deliver_entry :: "nat \<Rightarrow> nat \<Rightarrow> nat \<Rightarrow> u64 \<Rightarrow> libp2p_gossipsub_t \<Rightarrow> gstep" where
  "deliver_entry peer_index topic_index mcache_index now_us g =
     (let topic = g_topics g ! topic_index; entry = g_mcache g ! mcache_index in
      step_then (gossipsub_enqueue_idontwant_for_received_entry g topic entry) (\<lambda>g1.
        let event = message_event g1 peer_index entry in
        if t_validation_mode topic = LIBP2P_GOSSIPSUB_VALIDATION_REQUIRE_APP then
          (case gossipsub_alloc_validation g1 peer_index mcache_index now_us of
             (None, g2) \<Rightarrow> Some (LIBP2P_GOSSIPSUB_OK, g2)
           | (Some v, g2) \<Rightarrow> Some (gossipsub_push_event_or_drop g2 (event\<lparr>ev_validation := Some v\<rparr>)))
        else step_then (Some (gossipsub_push_event_or_drop g1 event))
               (\<lambda>g2. gossipsub_forward_entry g2 peer_index entry)))"

definition gossipsub_process_message ::
  "nat \<Rightarrow> libp2p_gossipsub_message_t \<Rightarrow> u64 \<Rightarrow> libp2p_gossipsub_t \<Rightarrow> gstep" where
  "gossipsub_process_message peer_index message now_us g =
     (if peer_index \<ge> length (g_peers g) then Some (LIBP2P_GOSSIPSUB_ERR_INVALID_ARG, g)
      else case gossipsub_compute_message_id g message
                  (Some LIBP2P_GOSSIPSUB_DEFAULT_MAX_MESSAGE_ID_BYTES) of
        (result, stored) \<Rightarrow>
          if result \<noteq> LIBP2P_GOSSIPSUB_OK then local_limit_ok (Some (result, g))
          else do {
            message_id \<leftarrow> written_id LIBP2P_GOSSIPSUB_DEFAULT_MAX_MESSAGE_ID_BYTES stored;
            local_limit_ok
              (if gossipsub_seen_contains g message_id now_us
               then step_then
                 (Some (gossipsub_push_event_or_drop g
                    (dropped_event g peer_index LIBP2P_GOSSIPSUB_DROP_DUPLICATE_MESSAGE message_id)))
                 (\<lambda>g1. Some (LIBP2P_GOSSIPSUB_ERR_DUPLICATE, g1))
               else
                 let g1 = gossipsub_seen_add g message_id now_us;
                     found = gossipsub_find_topic g1 (msg_topic message)
                 in if found = None \<or> \<not> t_local_subscribed (g_topics g1 ! the found)
                    then Some (gossipsub_push_event_or_drop g1
                      ((dropped_event g1 peer_index LIBP2P_GOSSIPSUB_DROP_UNSUBSCRIBED_TOPIC message_id)
                         \<lparr>ev_topic := msg_topic message\<rparr>))
                    else do {
                      ((result, slot), g2) \<leftarrow>
                        gossipsub_mcache_store g1 message_id (msg_topic message) (msg_data message);
                      if result = LIBP2P_GOSSIPSUB_OK
                      then deliver_entry peer_index (the found) (the slot) now_us g2
                      else Some (result, g2)
                    })
          })"

subsection \<open>Control messages\<close>

definition process_idontwant_id ::
  "nat \<Rightarrow> libp2p_gossipsub_control_idontwant_t \<Rightarrow> u64 \<Rightarrow> gbytes \<Rightarrow> libp2p_gossipsub_t \<Rightarrow> gstep" where
  "process_idontwant_id peer_index idontwant now_us message_id g = do {
     g1 \<leftarrow> gossipsub_drop_queued_publish (gossipsub_peer_idontwant_add g peer_index message_id now_us)
             peer_index message_id;
     Some (gossipsub_push_event_or_drop g1
       (gossipsub_peer_to_event (g_peers g1 ! peer_index)
          (zero_event\<lparr>ev_type := LIBP2P_GOSSIPSUB_EVENT_IDONTWANT\<rparr>)
        \<lparr>ev_message_id := message_id, ev_idontwant := idontwant\<rparr>))
   }"

definition gossipsub_process_idontwant ::
  "nat \<Rightarrow> u64 \<Rightarrow> libp2p_gossipsub_control_idontwant_t \<Rightarrow> libp2p_gossipsub_t \<Rightarrow> gstep" where
  "gossipsub_process_idontwant peer_index now_us idontwant g =
     (if peer_index \<ge> length (g_peers g) then Some (LIBP2P_GOSSIPSUB_ERR_INVALID_ARG, g)
      else do {
        ids \<leftarrow> cbuf_list (idontwant_message_ids idontwant);
        each (process_idontwant_id peer_index idontwant now_us) ids g
      })"

text \<open>The refusal of a graft: a prune message and a backoff.\<close>

definition refuse_graft :: "nat \<Rightarrow> nat \<Rightarrow> u64 \<Rightarrow> libp2p_gossipsub_t \<Rightarrow> gstep" where
  "refuse_graft peer_index topic_index now_us g =
     step_then (gossipsub_enqueue_prune g peer_index (g_topics g ! topic_index)) (\<lambda>g1.
       Some (gossipsub_backoff_add g1 peer_index topic_index
               (mp_prune_backoff_us (cfg_mesh (g_config g1))) now_us))"

definition process_graft ::
  "nat \<Rightarrow> u64 \<Rightarrow> libp2p_gossipsub_control_graft_t \<Rightarrow> libp2p_gossipsub_t \<Rightarrow> gstep" where
  "process_graft peer_index now_us graft g =
     local_limit_ok
       (case gossipsub_find_or_add_topic g (graft_topic graft) of
          (None, g1) \<Rightarrow> Some (LIBP2P_GOSSIPSUB_ERR_LIMIT, g1)
        | (Some topic_index, g1) \<Rightarrow>
            if \<not> t_local_subscribed (g_topics g1 ! topic_index) \<or>
               gossipsub_backoff_active g1 peer_index topic_index now_us
            then refuse_graft peer_index topic_index now_us g1
            else if gossipsub_mesh_contains g1 peer_index topic_index \<or>
                    gossipsub_mesh_count_topic g1 topic_index < mp_d_high (cfg_mesh (g_config g1))
            then Some (gossipsub_mesh_add g1 peer_index topic_index)
            else refuse_graft peer_index topic_index now_us g1)"

definition process_prune ::
  "nat \<Rightarrow> u64 \<Rightarrow> libp2p_gossipsub_control_prune_t \<Rightarrow> libp2p_gossipsub_t \<Rightarrow> gstep" where
  "process_prune peer_index now_us prune g =
     local_limit_ok
       (case gossipsub_find_topic g (prune_topic prune) of
          None \<Rightarrow> Some (LIBP2P_GOSSIPSUB_OK, g)
        | Some topic_index \<Rightarrow>
            Some (gossipsub_backoff_add (gossipsub_mesh_remove g peer_index topic_index)
                    peer_index topic_index
                    (gossipsub_rx_prune_backoff_us g (prune_backoff_seconds prune)) now_us))"

definition process_iwant_id :: "nat \<Rightarrow> gbytes \<Rightarrow> libp2p_gossipsub_t \<Rightarrow> gstep" where
  "process_iwant_id peer_index message_id g =
     (case gossipsub_mcache_find g message_id of
        None \<Rightarrow> Some (LIBP2P_GOSSIPSUB_OK, g)
      | Some i \<Rightarrow> local_limit_ok (gossipsub_enqueue_publish_entry g peer_index (g_mcache g ! i)))"

definition process_iwant ::
  "nat \<Rightarrow> libp2p_gossipsub_control_iwant_t \<Rightarrow> libp2p_gossipsub_t \<Rightarrow> gstep" where
  "process_iwant peer_index iwant g = do {
     ids \<leftarrow> cbuf_list (iwant_message_ids iwant);
     each (process_iwant_id peer_index) ids g
   }"

definition process_ihave_id :: "nat \<Rightarrow> u64 \<Rightarrow> gbytes \<Rightarrow> libp2p_gossipsub_t \<Rightarrow> gstep" where
  "process_ihave_id peer_index now_us message_id g =
     (if gossipsub_seen_contains g message_id now_us then Some (LIBP2P_GOSSIPSUB_OK, g)
      else local_limit_ok (gossipsub_enqueue_iwant g peer_index message_id))"

definition process_ihave ::
  "nat \<Rightarrow> u64 \<Rightarrow> libp2p_gossipsub_control_ihave_t \<Rightarrow> libp2p_gossipsub_t \<Rightarrow> gstep" where
  "process_ihave peer_index now_us ihave g = do {
     ids \<leftarrow> cbuf_list (ihave_message_ids ihave);
     each (process_ihave_id peer_index now_us) ids g
   }"

subsection \<open>An RPC\<close>

definition process_publish ::
  "nat \<Rightarrow> u64 \<Rightarrow> libp2p_gossipsub_message_t \<Rightarrow> libp2p_gossipsub_t \<Rightarrow> gstep" where
  "process_publish peer_index now_us message g =
     map_option
       (map_prod (\<lambda>r. if r = LIBP2P_GOSSIPSUB_ERR_DUPLICATE then LIBP2P_GOSSIPSUB_OK else r) id)
       (gossipsub_process_message peer_index message now_us g)"

definition gossipsub_process_rpc ::
  "nat \<Rightarrow> libp2p_gossipsub_rpc_t \<Rightarrow> u64 \<Rightarrow> libp2p_gossipsub_t \<Rightarrow> gstep" where
  "gossipsub_process_rpc p rpc now_us g =
     (let control = rpc_control rpc in
      if p \<ge> length (g_peers g) then Some (LIBP2P_GOSSIPSUB_ERR_INVALID_ARG, g)
      else
        step_then (each (gossipsub_process_subscription p) (rpc_subscriptions rpc) g) (\<lambda>g.
        step_then (each (process_publish p now_us) (rpc_publish rpc) g) (\<lambda>g.
        step_then (each (gossipsub_process_idontwant p now_us) (ctl_idontwant control) g) (\<lambda>g.
        step_then (each (process_graft p now_us) (ctl_graft control) g) (\<lambda>g.
        step_then (each (process_prune p now_us) (ctl_prune control) g) (\<lambda>g.
        step_then (each (process_iwant p) (ctl_iwant control) g) (\<lambda>g.
        each (process_ihave p now_us) (ctl_ihave control) g)))))))"

subsection \<open>Decoding what has arrived\<close>

definition rx_decode_storage :: libp2p_gossipsub_rpc_decode_storage_t where
  "rx_decode_storage = \<lparr>subscription_capacity = 64, publish_capacity = 16, ihave_capacity = 32,
     iwant_capacity = 32, graft_capacity = 32, prune_capacity = 32, idontwant_capacity = 32,
     message_id_capacity = 1024, peer_info_capacity = 32, peer_infos_given = True\<rparr>"

text \<open>The frame at the start of the buffer is done: the rest moves to the front.\<close>

definition consume_frame :: "nat \<Rightarrow> nat \<Rightarrow> libp2p_gossipsub_t \<Rightarrow> libp2p_gossipsub_t option" where
  "consume_frame s pos g =
     (let ss = g_streams g ! s in
      if pos < ss_rx_len ss then do {
        bytes \<leftarrow> rx_load g (ss_rx ss) pos (ss_rx_len ss - pos);
        g1 \<leftarrow> rx_store g (ss_rx ss) 0 bytes;
        Some (upd_stream s (ss_rx_len_update (\<lambda>_. ss_rx_len ss - pos)) g1)
      }
      else Some (upd_stream s (ss_rx_len_update (\<lambda>_. 0)) g))"

text \<open>One round of the loop: the value of \<open>keep_decoding\<close>, the error code and the router.\<close>

definition decode_step ::
  "nat \<Rightarrow> u64 \<Rightarrow> libp2p_gossipsub_t \<Rightarrow> (bool \<times> libp2p_gossipsub_err_t \<times> libp2p_gossipsub_t) option" where
  "decode_step s now_us g =
     (let ss = g_streams g ! s; limits = cfg_limits (g_config g) in do {
        bytes \<leftarrow> rx_load g (ss_rx ss) 0 (ss_rx_len ss);
        case gossipsub_read_uvarint bytes 0 of
          Inl e \<Rightarrow>
            Some (if e = LIBP2P_GOSSIPSUB_ERR_TRUNCATED then (False, LIBP2P_GOSSIPSUB_OK, g)
                  else (True, e, g))
        | Inr (header_len, body_len) \<Rightarrow>
            if unat body_len > max_rpc_bytes limits then Some (True, LIBP2P_GOSSIPSUB_ERR_LIMIT, g)
            else if ss_rx_len ss - header_len < unat body_len
            then Some (False, LIBP2P_GOSSIPSUB_OK, g)
            else
              (case libp2p_gossipsub_rpc_body_decode (ss_version ss) (Some limits)
                      (Buf (take (unat body_len) (drop header_len bytes)))
                      (Some rx_decode_storage) True of
                 Inl e \<Rightarrow> Some (True, e, g)
               | Inr rpc \<Rightarrow> do {
                   (result, g1) \<leftarrow> gossipsub_process_rpc (ss_peer_index ss) rpc now_us g;
                   if result = LIBP2P_GOSSIPSUB_OK
                   then map_option (\<lambda>g2. (True, LIBP2P_GOSSIPSUB_OK, g2))
                          (consume_frame s (header_len + unat body_len) g1)
                   else Some (True, result, g1)
                 })
      })"

partial_function (option) decode_loop ::
  "nat \<Rightarrow> u64 \<Rightarrow> bool \<times> libp2p_gossipsub_err_t \<times> libp2p_gossipsub_t \<Rightarrow> gstep" where
  "decode_loop s now_us st =
     (if fst (snd st) = LIBP2P_GOSSIPSUB_OK \<and> ss_rx_len (g_streams (snd (snd st)) ! s) \<noteq> 0 \<and> fst st
      then Option.bind (decode_step s now_us (snd (snd st))) (decode_loop s now_us)
      else Some (snd st))"

definition gossipsub_stream_decode_available :: "nat \<Rightarrow> u64 \<Rightarrow> libp2p_gossipsub_t \<Rightarrow> gstep" where
  "gossipsub_stream_decode_available s now_us g =
     step_then (decode_loop s now_us (True, LIBP2P_GOSSIPSUB_OK, g))
       (\<lambda>g. map_option (Pair LIBP2P_GOSSIPSUB_OK) (gossipsub_stream_rx_shrink s g))"

subsection \<open>Reading from a stream\<close>

text \<open>
  \<open>host_read\<close> is \<open>libp2p_host_stream_read\<close>: for a stream and a capacity the error code, the bytes
  stored (whose number is \<open>*read_len\<close>) and \<open>*fin\<close>. The variables \<open>read_len\<close>, \<open>fin\<close> and
  \<open>keep_reading\<close> live across the rounds of the loop.
\<close>

type_synonym 'h host_read =
  "'h \<Rightarrow> nat option \<Rightarrow> nat \<Rightarrow> (libp2p_host_err_t \<times> byte list \<times> bool) \<times> 'h"

record 'h read_state =
  rd_router :: libp2p_gossipsub_t
  rd_host :: 'h
  rd_result :: libp2p_gossipsub_err_t
  rd_read_len :: nat
  rd_fin :: bool
  rd_keep_reading :: bool

text \<open>The capacity for the next read, after growing the buffer when it is full.\<close>

definition read_reserve ::
  "nat \<Rightarrow> libp2p_gossipsub_t \<Rightarrow> (libp2p_gossipsub_err_t \<times> nat \<times> libp2p_gossipsub_t) option" where
  "read_reserve s g =
     (let ss = g_streams g ! s;
          rx_limit = size_wrap (max_rpc_bytes (cfg_limits (g_config g)) +
                       LIBP2P_GOSSIPSUB_FRAME_LEN_MAX_BYTES)
      in if ss_rx_len ss \<ge> rx_limit then Some (LIBP2P_GOSSIPSUB_ERR_LIMIT, 0, g)
         else if size_diff (ss_rx_cap ss) (ss_rx_len ss) = 0 then do {
           (result, g1) \<leftarrow> gossipsub_stream_rx_reserve s
             (if rx_limit - ss_rx_len ss > GOSSIPSUB_STREAM_RX_READ_CHUNK
              then ss_rx_len ss + GOSSIPSUB_STREAM_RX_READ_CHUNK else rx_limit) g;
           Some (result,
             if result = LIBP2P_GOSSIPSUB_OK
             then size_diff (ss_rx_cap (g_streams g1 ! s)) (ss_rx_len (g_streams g1 ! s)) else 0, g1)
         }
         else Some (LIBP2P_GOSSIPSUB_OK, size_diff (ss_rx_cap ss) (ss_rx_len ss), g))"

text \<open>The end of a round, entered with \<open>result\<close> OK: the length is advanced by \<open>read_len\<close>.\<close>

definition read_finish :: "nat \<Rightarrow> u64 \<Rightarrow> 'h read_state \<Rightarrow> 'h read_state option" where
  "read_finish s now_us st = do {
     let n = rd_read_len st;
     let g = upd_stream s (\<lambda>x. x\<lparr>ss_rx_len := ss_rx_len x + n\<rparr>) (rd_router st);
     (result, g1) \<leftarrow> (if n \<noteq> 0 then gossipsub_stream_decode_available s now_us g
                     else Some (LIBP2P_GOSSIPSUB_OK, g));
     Some (st\<lparr>rd_router := g1, rd_result := result,
              rd_keep_reading := (if rd_fin st \<or> n = 0 then False else rd_keep_reading st)\<rparr>)
   }"

definition read_step :: "'h host_read \<Rightarrow> nat \<Rightarrow> u64 \<Rightarrow> 'h read_state \<Rightarrow> 'h read_state option" where
  "read_step host_read s now_us st = do {
     (reserved, capacity, g) \<leftarrow> read_reserve s (rd_router st);
     if reserved = LIBP2P_GOSSIPSUB_ERR_WOULD_BLOCK
     then read_finish s now_us (st\<lparr>rd_router := g, rd_keep_reading := False\<rparr>)
     else if reserved \<noteq> LIBP2P_GOSSIPSUB_OK then Some (st\<lparr>rd_router := g, rd_result := reserved\<rparr>)
     else
       (case host_read (rd_host st) (ss_stream (g_streams g ! s))
               (if capacity > GOSSIPSUB_STREAM_RX_READ_CHUNK then GOSSIPSUB_STREAM_RX_READ_CHUNK
                else capacity) of
          ((host_result, bytes, fin), h) \<Rightarrow> do {
            g1 \<leftarrow> rx_store g (ss_rx (g_streams g ! s)) (ss_rx_len (g_streams g ! s)) bytes;
            let st1 = st\<lparr>rd_router := g1, rd_host := h, rd_read_len := length bytes, rd_fin := fin\<rparr>;
            let result = gossipsub_host_to_err host_result;
            if result = LIBP2P_GOSSIPSUB_ERR_WOULD_BLOCK
            then read_finish s now_us (st1\<lparr>rd_keep_reading := False\<rparr>)
            else if result = LIBP2P_GOSSIPSUB_OK then read_finish s now_us st1
            else Some (st1\<lparr>rd_result := result\<rparr>)
          })
   }"

partial_function (option) read_loop ::
  "'h host_read \<Rightarrow> nat \<Rightarrow> u64 \<Rightarrow> 'h read_state \<Rightarrow> 'h read_state option" where
  "read_loop host_read s now_us st =
     (if rd_result st = LIBP2P_GOSSIPSUB_OK \<and> rd_keep_reading st
      then Option.bind (read_step host_read s now_us st) (read_loop host_read s now_us)
      else Some st)"

definition gossipsub_stream_read ::
  "'h host_read \<Rightarrow> nat \<Rightarrow> u64 \<Rightarrow> libp2p_gossipsub_t \<Rightarrow> 'h \<Rightarrow>
   (libp2p_gossipsub_err_t \<times> 'h \<times> libp2p_gossipsub_t) option" where
  "gossipsub_stream_read host_read s now_us g h =
     map_option (\<lambda>st. (rd_result st, rd_host st, rd_router st))
       (read_loop host_read s now_us
          \<lparr>rd_router = g\<lparr>g_last_drive_us := now_us\<rparr>, rd_host = h, rd_result = LIBP2P_GOSSIPSUB_OK,
           rd_read_len = 0, rd_fin = False, rd_keep_reading = True\<rparr>)"

end
