(* ===== verification/Gossipsub_Api.thy ===== *)
theory Gossipsub_Api
  imports Gossipsub_Rx
begin

text \<open>
  The calls of the application, \<open>src/src/protocol/gossipsub/gossipsub_api.c\<close>: subscribing,
  publishing, reporting a validation, fetching events.
\<close>

subsection \<open>Subscriptions\<close>

record libp2p_gossipsub_topic_config_t =
  tc_topic :: gbytes
  tc_validation_mode :: libp2p_gossipsub_validation_mode_t
  tc_enable_idontwant :: bool
  tc_idontwant_min_message_bytes :: nat

text \<open>The loop over the peers that tells each open one about a topic.\<close>

definition announce_topic :: "nat \<Rightarrow> byte \<Rightarrow> nat \<Rightarrow> libp2p_gossipsub_t \<Rightarrow> gstep" where
  "announce_topic topic_index subscribe peer_index g =
     (if p_used (g_peers g ! peer_index) \<and> p_stream (g_peers g ! peer_index) \<noteq> None
      then gossipsub_enqueue_subscription g peer_index (g_topics g ! topic_index) subscribe
      else Some (LIBP2P_GOSSIPSUB_OK, g))"

definition libp2p_gossipsub_subscribe ::
  "libp2p_gossipsub_t \<Rightarrow> libp2p_gossipsub_topic_config_t \<Rightarrow> gstep" where
  "libp2p_gossipsub_subscribe g topic =
     (let limits = cfg_limits (g_config g) in
      if is_null (tc_topic topic) \<or> clen (tc_topic topic) = 0 \<or>
         clen (tc_topic topic) > max_topic_bytes limits \<or>
         tc_idontwant_min_message_bytes topic > max_message_data_bytes limits
      then Some (LIBP2P_GOSSIPSUB_ERR_INVALID_ARG, g)
      else case gossipsub_find_or_add_topic g (tc_topic topic) of
        (None, g1) \<Rightarrow> Some (LIBP2P_GOSSIPSUB_ERR_LIMIT, g1)
      | (Some topic_index, g1) \<Rightarrow>
          let g2 = g1\<lparr>g_topics := (g_topics g1)[topic_index := (g_topics g1 ! topic_index)
                 \<lparr>t_local_subscribed := True, t_validation_mode := tc_validation_mode topic,
                  t_enable_idontwant := tc_enable_idontwant topic,
                  t_idontwant_min_message_bytes :=
                    (if tc_idontwant_min_message_bytes topic = 0
                     then cfg_idontwant_min_message_bytes (g_config g1)
                     else tc_idontwant_min_message_bytes topic)\<rparr>]\<rparr>
          in step_then (each (announce_topic topic_index 1) [0..<length (g_peers g2)] g2)
               (\<lambda>g3. gossipsub_mesh_fill_topic g3 topic_index (mp_d (cfg_mesh (g_config g3))) True))"

definition libp2p_gossipsub_unsubscribe :: "libp2p_gossipsub_t \<Rightarrow> gbytes \<Rightarrow> gstep" where
  "libp2p_gossipsub_unsubscribe g topic =
     (if is_null topic \<or> clen topic = 0 then Some (LIBP2P_GOSSIPSUB_ERR_INVALID_ARG, g)
      else case gossipsub_find_topic g topic of
        None \<Rightarrow> Some (LIBP2P_GOSSIPSUB_ERR_NOT_FOUND, g)
      | Some topic_index \<Rightarrow>
          step_then (gossipsub_mesh_trim_topic g topic_index 0 True) (\<lambda>g1.
            let g2 = gossipsub_mesh_remove_topic g1 topic_index;
                g3 = g2\<lparr>g_topics := (g_topics g2)[topic_index :=
                  (g_topics g2 ! topic_index)\<lparr>t_local_subscribed := False\<rparr>]\<rparr>
            in each (announce_topic topic_index 0) [0..<length (g_peers g3)] g3))"

subsection \<open>Publishing\<close>

record libp2p_gossipsub_publish_t =
  pb_topic :: gbytes
  pb_data :: gbytes
  pb_message_id :: gbytes

text \<open>The id of the message to publish: the error code and the id.\<close>

definition publish_message_id ::
  "libp2p_gossipsub_t \<Rightarrow> libp2p_gossipsub_publish_t \<Rightarrow> (libp2p_gossipsub_err_t \<times> gbytes) option" where
  "publish_message_id g publish =
     (if gossipsub_bytes_present (pb_message_id publish)
      then Some (if clen (pb_message_id publish) > max_message_id_bytes (cfg_limits (g_config g))
                 then (LIBP2P_GOSSIPSUB_ERR_LIMIT, Buf [])
                 else (LIBP2P_GOSSIPSUB_OK, pb_message_id publish))
      else
        (case gossipsub_compute_message_id g
                (zero_message\<lparr>msg_topic := pb_topic publish, msg_data := pb_data publish\<rparr>)
                (Some LIBP2P_GOSSIPSUB_DEFAULT_MAX_MESSAGE_ID_BYTES) of
           (result, stored) \<Rightarrow>
             if result = LIBP2P_GOSSIPSUB_OK
             then map_option (Pair LIBP2P_GOSSIPSUB_OK)
                    (written_id LIBP2P_GOSSIPSUB_DEFAULT_MAX_MESSAGE_ID_BYTES stored)
             else Some (result, Buf [])))"

definition publish_to_peer ::
  "nat \<Rightarrow> gossipsub_mcache_entry_t \<Rightarrow> nat \<Rightarrow> libp2p_gossipsub_t \<Rightarrow> gstep" where
  "publish_to_peer topic_index entry p g =
     (let peer = g_peers g ! p; subscribed = gossipsub_peer_subscribed g p topic_index in
      if p_used peer \<and> p_stream peer \<noteq> None \<and>
         (mp_enable_flood_publish (cfg_mesh (g_config g)) \<and> subscribed \<or>
          gossipsub_mesh_contains g p topic_index \<or> p_explicit_peer peer \<and> subscribed)
      then do {
        (r1, g1) \<leftarrow> gossipsub_enqueue_idontwant_for_entry g p (g_topics g ! topic_index) entry;
        (r2, g2) \<leftarrow> (if r1 = LIBP2P_GOSSIPSUB_OK \<or> r1 = LIBP2P_GOSSIPSUB_ERR_LIMIT
                    then gossipsub_enqueue_local_publish_entry g1 p entry else Some (r1, g1));
        Some (if r2 = LIBP2P_GOSSIPSUB_ERR_LIMIT then LIBP2P_GOSSIPSUB_OK else r2, g2)
      }
      else Some (LIBP2P_GOSSIPSUB_OK, g))"

text \<open>
  The error code with the values stored in \<open>*written\<close> and in \<open>out_message_id\<close>, each if it is
  stored; \<open>out_len\<close> is the length of that buffer, \<open>None\<close> for a null pointer.
\<close>

definition libp2p_gossipsub_publish ::
  "libp2p_gossipsub_t \<Rightarrow> libp2p_gossipsub_publish_t \<Rightarrow> nat option \<Rightarrow>
   ((libp2p_gossipsub_err_t \<times> nat option \<times> byte list option) \<times> libp2p_gossipsub_t) option" where
  "libp2p_gossipsub_publish g publish out_len =
     (let limits = cfg_limits (g_config g) in
      if is_null (pb_topic publish) \<or> clen (pb_topic publish) = 0 \<or>
         clen (pb_topic publish) > max_topic_bytes limits \<or>
         is_null (pb_data publish) \<and> clen (pb_data publish) \<noteq> 0 \<or>
         clen (pb_data publish) > max_message_data_bytes limits
      then Some ((LIBP2P_GOSSIPSUB_ERR_INVALID_ARG, None, None), g)
      else do {
        (result, message_id) \<leftarrow> publish_message_id g publish;
        if result \<noteq> LIBP2P_GOSSIPSUB_OK then Some ((result, None, None), g)
        else if out_len \<noteq> None \<and> the out_len < clen message_id
        then Some ((LIBP2P_GOSSIPSUB_ERR_BUF_TOO_SMALL, Some (clen message_id), None), g)
        else do {
          let out = (if out_len = None then None else Some (contents message_id));
          (result, g') \<leftarrow>
            (case gossipsub_find_or_add_topic g (pb_topic publish) of
               (None, g1) \<Rightarrow> Some (LIBP2P_GOSSIPSUB_ERR_LIMIT, g1)
             | (Some topic_index, g1) \<Rightarrow> do {
                 ((result, slot), g2) \<leftarrow>
                   gossipsub_mcache_store g1 message_id (pb_topic publish) (pb_data publish);
                 if result \<noteq> LIBP2P_GOSSIPSUB_OK then Some (result, g2)
                 else each (publish_to_peer topic_index (g_mcache g2 ! the slot))
                        [0..<length (g_peers g2)]
                        (gossipsub_seen_add g2 message_id (g_next_heartbeat_us g2))
               });
          Some ((result, Some (clen message_id), out), g')
        }
      })"

subsection \<open>Validation and events\<close>

datatype libp2p_gossipsub_validation_result_t =
    LIBP2P_GOSSIPSUB_VALIDATION_ACCEPT
  | LIBP2P_GOSSIPSUB_VALIDATION_REJECT
  | LIBP2P_GOSSIPSUB_VALIDATION_IGNORE

definition libp2p_gossipsub_report_validation ::
  "libp2p_gossipsub_t \<Rightarrow> nat option \<Rightarrow> libp2p_gossipsub_validation_result_t \<Rightarrow> gstep" where
  "libp2p_gossipsub_report_validation g validation result_value =
     (case validation of
        None \<Rightarrow> Some (LIBP2P_GOSSIPSUB_ERR_INVALID_ARG, g)
      | Some v \<Rightarrow>
          let va = g_validations g ! v in
          if \<not> va_pending va \<or> va_mcache_index va \<ge> length (g_mcache g)
          then Some (LIBP2P_GOSSIPSUB_ERR_INVALID_ARG, g)
          else
            let entry = g_mcache g ! va_mcache_index va in
            map_option (map_prod id (gossipsub_release_validation (Some v)))
              (if \<not> mc_used entry then Some (LIBP2P_GOSSIPSUB_ERR_STATE, g)
               else if result_value = LIBP2P_GOSSIPSUB_VALIDATION_ACCEPT
               then gossipsub_forward_entry g (va_peer_index va) entry
               else Some (LIBP2P_GOSSIPSUB_OK, g)))"

definition libp2p_gossipsub_next_event ::
  "libp2p_gossipsub_t \<Rightarrow> libp2p_gossipsub_event_t gresult \<times> libp2p_gossipsub_t" where
  "libp2p_gossipsub_next_event g =
     (if g_event_len g = 0 then (Inl LIBP2P_GOSSIPSUB_ERR_WOULD_BLOCK, g)
      else (Inr (g_events g ! g_event_head g),
            g\<lparr>g_event_head := (g_event_head g + 1) mod length (g_events g),
              g_event_len := g_event_len g - 1\<rparr>))"

subsection \<open>Peers\<close>

definition libp2p_gossipsub_set_peer_explicit ::
  "libp2p_gossipsub_t \<Rightarrow> gbytes \<Rightarrow> bool \<Rightarrow> libp2p_gossipsub_err_t \<times> libp2p_gossipsub_t" where
  "libp2p_gossipsub_set_peer_explicit g peer_id is_explicit =
     (if is_null peer_id \<or> clen peer_id = 0 then (LIBP2P_GOSSIPSUB_ERR_INVALID_ARG, g)
      else case gossipsub_find_peer g peer_id of
        None \<Rightarrow> (LIBP2P_GOSSIPSUB_ERR_NOT_FOUND, g)
      | Some p \<Rightarrow> (LIBP2P_GOSSIPSUB_OK, upd_peer p (p_explicit_peer_update (\<lambda>_. is_explicit)) g))"

definition libp2p_gossipsub_peer_protocol_version ::
  "libp2p_gossipsub_t \<Rightarrow> gbytes \<Rightarrow> libp2p_gossipsub_protocol_version_t gresult" where
  "libp2p_gossipsub_peer_protocol_version g peer_id =
     (if is_null peer_id \<or> clen peer_id = 0 then Inl LIBP2P_GOSSIPSUB_ERR_INVALID_ARG
      else case gossipsub_find_peer g peer_id of
        None \<Rightarrow> Inl LIBP2P_GOSSIPSUB_ERR_NOT_FOUND
      | Some p \<Rightarrow> Inr (p_version (g_peers g ! p)))"

end
