(* ===== verification/Gossipsub_Host.thy ===== *)
theory Gossipsub_Host
  imports Gossipsub_Api
begin

text \<open>
  The router as a protocol of the host, \<open>src/src/protocol/gossipsub/gossipsub_host.c\<close>: streams that
  open, become readable or writable and close, connections that close, shutting down.

  What the host offers is a record of functions on its state. The user data of a host stream is the
  index of a stream state of the router, \<open>None\<close> for \<open>NULL\<close>.
\<close>

record 'h host_ops =
  host_stream_conn :: "'h \<Rightarrow> nat \<Rightarrow> libp2p_host_err_t \<times> nat option"
  host_conn_peer_id :: "'h \<Rightarrow> nat option \<Rightarrow> libp2p_host_err_t \<times> byte list"
  host_set_user_data :: "'h \<Rightarrow> nat \<Rightarrow> nat option \<Rightarrow> libp2p_host_err_t \<times> 'h"
  host_user_data :: "'h \<Rightarrow> nat \<Rightarrow> libp2p_host_err_t \<times> nat option"
  host_stream_read :: "'h host_read"
  host_stream_reset :: "'h \<Rightarrow> nat \<Rightarrow> u64 \<Rightarrow> libp2p_host_err_t \<times> 'h"
  host_open_stream ::
    "'h \<Rightarrow> nat \<Rightarrow> string \<Rightarrow> string option \<Rightarrow> nat option \<Rightarrow> (libp2p_host_err_t \<times> nat option) \<times> 'h"

subsection \<open>Protocols\<close>

definition LIBP2P_GOSSIPSUB_PROTOCOL_ID_V11 :: string where
  "LIBP2P_GOSSIPSUB_PROTOCOL_ID_V11 = ''/meshsub/1.1.0''"

definition LIBP2P_GOSSIPSUB_PROTOCOL_ID_V12 :: string where
  "LIBP2P_GOSSIPSUB_PROTOCOL_ID_V12 = ''/meshsub/1.2.0''"

definition protocol_v11 :: "libp2p_gossipsub_t \<Rightarrow> bool" where
  "protocol_v11 g = (cfg_protocol_mask (g_config g) AND 1 \<noteq> 0)"

definition protocol_v12 :: "libp2p_gossipsub_t \<Rightarrow> bool" where
  "protocol_v12 g = (cfg_protocol_mask (g_config g) AND 2 \<noteq> 0)"

text \<open>The error code, \<open>*written\<close> and the entries stored, as ids with the version of their user data.\<close>

definition libp2p_gossipsub_protocols ::
  "libp2p_gossipsub_t \<Rightarrow> nat option \<Rightarrow>
   libp2p_gossipsub_err_t \<times> nat \<times> (string \<times> libp2p_gossipsub_protocol_version_t) list" where
  "libp2p_gossipsub_protocols g out_capacity =
     (let entries =
        (if protocol_v12 g
         then [(LIBP2P_GOSSIPSUB_PROTOCOL_ID_V12, LIBP2P_GOSSIPSUB_VERSION_12)] else []) @
        (if protocol_v11 g
         then [(LIBP2P_GOSSIPSUB_PROTOCOL_ID_V11, LIBP2P_GOSSIPSUB_VERSION_11)] else [])
      in if out_capacity = None \<or> the out_capacity < length entries
         then (LIBP2P_GOSSIPSUB_ERR_BUF_TOO_SMALL, length entries, [])
         else (LIBP2P_GOSSIPSUB_OK, length entries, entries))"

definition libp2p_gossipsub_open_peer ::
  "'h host_ops \<Rightarrow> libp2p_gossipsub_t \<Rightarrow> 'h \<Rightarrow> nat option \<Rightarrow> libp2p_gossipsub_protocol_version_t \<Rightarrow>
   nat option \<Rightarrow> (libp2p_gossipsub_err_t \<times> nat option) \<times> 'h" where
  "libp2p_gossipsub_open_peer ops g h conn preferred_version user_data =
     (case conn of
        None \<Rightarrow> ((LIBP2P_GOSSIPSUB_ERR_INVALID_ARG, None), h)
      | Some c \<Rightarrow>
          let version = (if preferred_version = LIBP2P_GOSSIPSUB_VERSION_NONE
                         then cfg_preferred_protocol (g_config g) else preferred_version);
              open_stream = (\<lambda>protocol_id fallback.
                case host_open_stream ops h c protocol_id fallback user_data of
                  ((err, out), h') \<Rightarrow> ((gossipsub_host_to_err err, out), h'))
          in if version = LIBP2P_GOSSIPSUB_VERSION_12
             then open_stream LIBP2P_GOSSIPSUB_PROTOCOL_ID_V12
                    (if protocol_v11 g then Some LIBP2P_GOSSIPSUB_PROTOCOL_ID_V11 else None)
             else if version = LIBP2P_GOSSIPSUB_VERSION_11
             then open_stream LIBP2P_GOSSIPSUB_PROTOCOL_ID_V11 None
             else ((LIBP2P_GOSSIPSUB_ERR_UNSUPPORTED_VERSION, None), h))"

subsection \<open>Streams of the router\<close>

definition gossipsub_alloc_stream ::
  "libp2p_gossipsub_t \<Rightarrow> (nat option \<times> libp2p_gossipsub_t) option" where
  "gossipsub_alloc_stream g =
     (case first_index (\<lambda>ss. \<not> ss_open ss) (g_streams g) of
        None \<Rightarrow> Some (None, g)
      | Some s \<Rightarrow>
          map_option (\<lambda>g. (Some s, upd_stream s (ss_open_update (\<lambda>_. True)) g))
            (gossipsub_stream_rx_reset s g))"

definition free_stream :: "nat \<Rightarrow> libp2p_gossipsub_t \<Rightarrow> libp2p_gossipsub_t option" where
  "free_stream s g =
     map_option (upd_stream s (\<lambda>x. x\<lparr>ss_open := False, ss_stream := None, ss_conn := None\<rparr>))
       (gossipsub_stream_rx_reset s g)"

text \<open>The loops of \<open>libp2p_gossipsub_deinit\<close> and \<open>libp2p_gossipsub_close\<close>.\<close>

fun reset_streams :: "nat list \<Rightarrow> libp2p_gossipsub_t \<Rightarrow> libp2p_gossipsub_t option" where
  "reset_streams [] g = Some g"
| "reset_streams (s # ss) g = Option.bind (gossipsub_stream_rx_reset s g) (reset_streams ss)"

definition libp2p_gossipsub_deinit :: "libp2p_gossipsub_t \<Rightarrow> libp2p_gossipsub_t option" where
  "libp2p_gossipsub_deinit g =
     map_option (\<lambda>g. g\<lparr>g_mesh_peer_count := 0, g_started := False, g_closing := True\<rparr>)
       (reset_streams [0..<length (g_streams g)] g)"

fun close_streams ::
  "'h host_ops \<Rightarrow> u64 \<Rightarrow> gossipsub_stream_state_t list \<Rightarrow> 'h \<Rightarrow> libp2p_gossipsub_err_t \<times> 'h" where
  "close_streams ops app_error_code [] h = (LIBP2P_GOSSIPSUB_OK, h)"
| "close_streams ops app_error_code (ss # streams) h =
     (if ss_open ss \<and> ss_stream ss \<noteq> None then
        (case host_stream_reset ops h (the (ss_stream ss)) app_error_code of
           (err, h') \<Rightarrow>
             if gossipsub_host_to_err err = LIBP2P_GOSSIPSUB_OK
             then close_streams ops app_error_code streams h'
             else (gossipsub_host_to_err err, h'))
      else close_streams ops app_error_code streams h)"

definition libp2p_gossipsub_close ::
  "'h host_ops \<Rightarrow> libp2p_gossipsub_t \<Rightarrow> 'h \<Rightarrow> u64 \<Rightarrow>
   libp2p_gossipsub_err_t \<times> 'h \<times> libp2p_gossipsub_t" where
  "libp2p_gossipsub_close ops g h app_error_code =
     (case close_streams ops app_error_code (g_streams g) h of
        (result, h') \<Rightarrow> (result, h', g\<lparr>g_closing := True\<rparr>))"

subsection \<open>Events of the host\<close>

definition closed_event ::
  "libp2p_gossipsub_t \<Rightarrow> nat \<Rightarrow> libp2p_gossipsub_event_t" where
  "closed_event g peer_index =
     gossipsub_peer_to_event (g_peers g ! peer_index)
       (zero_event\<lparr>ev_type := LIBP2P_GOSSIPSUB_EVENT_PEER_CLOSED\<rparr>)
     \<lparr>ev_conn := None, ev_stream := None\<rparr>"

text \<open>The peer loses its queue and its place in the meshes; \<open>f\<close> is what its entry is set to.\<close>

definition drop_peer ::
  "nat \<Rightarrow> libp2p_gossipsub_event_t \<Rightarrow> (gossipsub_peer_state_t \<Rightarrow> gossipsub_peer_state_t) \<Rightarrow>
   libp2p_gossipsub_t \<Rightarrow> libp2p_gossipsub_t option" where
  "drop_peer peer_index event f g =
     map_option (\<lambda>g. upd_peer peer_index f (gossipsub_mesh_remove_peer g peer_index))
       (gossipsub_drop_queued_peer (snd (gossipsub_push_event_or_drop g event)) peer_index)"

fun close_conn_peers :: "nat option \<Rightarrow> nat list \<Rightarrow> libp2p_gossipsub_t \<Rightarrow> libp2p_gossipsub_t option" where
  "close_conn_peers conn [] g = Some g"
| "close_conn_peers conn (p # ps) g =
     (if p_used (g_peers g ! p) \<and> p_conn (g_peers g ! p) = conn
      then Option.bind
        (drop_peer p (closed_event g p)
           (\<lambda>x. x\<lparr>p_closed := True, p_stream := None, p_conn := None, p_tx_transport_busy := False\<rparr>) g)
        (close_conn_peers conn ps)
      else close_conn_peers conn ps g)"

fun close_conn_streams :: "nat option \<Rightarrow> nat list \<Rightarrow> libp2p_gossipsub_t \<Rightarrow> libp2p_gossipsub_t option" where
  "close_conn_streams conn [] g = Some g"
| "close_conn_streams conn (s # ss) g =
     (if ss_open (g_streams g ! s) \<and> ss_conn (g_streams g ! s) = conn
      then Option.bind (free_stream s g) (close_conn_streams conn ss)
      else close_conn_streams conn ss g)"

text \<open>The events that the router handles; every other type is \<open>Host_event_other\<close>.\<close>

datatype host_event =
  Host_event_conn_closed "nat option" | Host_event_stream_open_failed libp2p_host_err_t | Host_event_other

definition libp2p_gossipsub_handle_host_event :: "libp2p_gossipsub_t \<Rightarrow> host_event \<Rightarrow> gstep" where
  "libp2p_gossipsub_handle_host_event g event =
     (case event of
        Host_event_conn_closed conn \<Rightarrow>
          map_option (Pair LIBP2P_GOSSIPSUB_OK)
            (Option.bind (close_conn_peers conn [0..<length (g_peers g)] g)
               (close_conn_streams conn [0..<length (g_streams g)]))
      | Host_event_stream_open_failed reason \<Rightarrow>
          Some (gossipsub_push_event_or_drop g
            (zero_event\<lparr>ev_type := LIBP2P_GOSSIPSUB_EVENT_PEER_FAILED,
               ev_reason := gossipsub_host_to_err reason\<rparr>))
      | Host_event_other \<Rightarrow> Some (LIBP2P_GOSSIPSUB_OK, g))"

subsection \<open>Callbacks of the protocol\<close>

text \<open>
  A new stream gets a stream state; an outbound one becomes the writer of its peer when the peer has
  none. The result says whether it did.
\<close>

definition attach_stream ::
  "nat \<Rightarrow> nat option \<Rightarrow> libp2p_host_stream_direction_t \<Rightarrow> libp2p_gossipsub_protocol_version_t \<Rightarrow>
   nat \<Rightarrow> nat \<Rightarrow> libp2p_gossipsub_t \<Rightarrow> bool \<times> libp2p_gossipsub_t" where
  "attach_stream stream conn direction version peer_index s g =
     (let g1 = upd_stream s (\<lambda>x. x\<lparr>ss_stream := Some stream, ss_conn := conn,
                 ss_direction := direction, ss_version := version, ss_peer_index := peer_index\<rparr>) g
      in if direction = LIBP2P_HOST_STREAM_OUTBOUND \<and> p_stream (g_peers g1 ! peer_index) = None
         then (True, upd_peer peer_index (\<lambda>p. p\<lparr>p_stream := Some stream, p_direction := direction,
                 p_version := version, p_tx_transport_busy := False\<rparr>) g1)
         else (False, g1))"

definition announce_local_topic :: "nat \<Rightarrow> nat \<Rightarrow> libp2p_gossipsub_t \<Rightarrow> gstep" where
  "announce_local_topic peer_index topic_index g =
     (if t_used (g_topics g ! topic_index) \<and> t_local_subscribed (g_topics g ! topic_index)
      then local_limit_ok
             (gossipsub_enqueue_subscription g peer_index (g_topics g ! topic_index) 1)
      else Some (LIBP2P_GOSSIPSUB_OK, g))"

definition opened_event ::
  "libp2p_gossipsub_t \<Rightarrow> nat \<Rightarrow> nat \<Rightarrow> libp2p_host_stream_direction_t \<Rightarrow>
   libp2p_gossipsub_protocol_version_t \<Rightarrow> libp2p_gossipsub_event_t" where
  "opened_event g peer_index stream direction version =
     gossipsub_peer_to_event (g_peers g ! peer_index)
       (zero_event\<lparr>ev_type := LIBP2P_GOSSIPSUB_EVENT_PEER_OPENED\<rparr>)
     \<lparr>ev_stream := Some stream, ev_direction := direction, ev_protocol_version := version\<rparr>"

text \<open>The error code before its translation for the host, the host and the router.\<close>

definition protocol_open ::
  "'h host_ops \<Rightarrow> libp2p_gossipsub_t \<Rightarrow> 'h \<Rightarrow> nat \<Rightarrow> libp2p_host_stream_direction_t \<Rightarrow>
   libp2p_gossipsub_protocol_version_t \<Rightarrow> (libp2p_gossipsub_err_t \<times> 'h \<times> libp2p_gossipsub_t) option"
where
  "protocol_open ops g h stream direction version =
     (let (conn_err, conn) = host_stream_conn ops h stream in
      if gossipsub_host_to_err conn_err \<noteq> LIBP2P_GOSSIPSUB_OK
      then Some (gossipsub_host_to_err conn_err, h, g)
      else case gossipsub_peer_from_conn g conn (host_conn_peer_id ops h conn) of
        ((result, peer), g1) \<Rightarrow>
          if result \<noteq> LIBP2P_GOSSIPSUB_OK then Some (result, h, g1)
          else do {
            (slot, g2) \<leftarrow> gossipsub_alloc_stream g1;
            if slot = None then Some (LIBP2P_GOSSIPSUB_ERR_LIMIT, h, g2)
            else
              let p = the peer;
                  (selected_writer, g3) =
                    attach_stream stream conn direction version p (the slot) g2;
                  (data_err, h') = host_set_user_data ops h stream slot
              in if gossipsub_host_to_err data_err \<noteq> LIBP2P_GOSSIPSUB_OK
                 then Some (gossipsub_host_to_err data_err, h', g3)
                 else map_option (\<lambda>(result, g4). (result, h', g4))
                   (step_then
                      (Some (gossipsub_push_event_or_drop g3
                         (opened_event g3 p stream direction version)))
                      (\<lambda>g4. if selected_writer
                            then each (announce_local_topic p) [0..<length (g_topics g4)] g4
                            else Some (LIBP2P_GOSSIPSUB_OK, g4)))
          })"

definition gossipsub_protocol_on_open ::
  "'h host_ops \<Rightarrow> libp2p_gossipsub_t \<Rightarrow> 'h \<Rightarrow> nat option \<Rightarrow> libp2p_host_stream_direction_t \<Rightarrow>
   libp2p_gossipsub_protocol_version_t \<Rightarrow> (libp2p_host_err_t \<times> 'h \<times> libp2p_gossipsub_t) option" where
  "gossipsub_protocol_on_open ops g h stream direction version =
     map_option (map_prod gossipsub_host_err id)
       (case stream of
          None \<Rightarrow> Some (LIBP2P_GOSSIPSUB_ERR_INVALID_ARG, h, g)
        | Some st \<Rightarrow> protocol_open ops g h st direction version)"

definition stream_writable :: "nat \<Rightarrow> libp2p_gossipsub_t \<Rightarrow> libp2p_gossipsub_t" where
  "stream_writable s g =
     (let ss = g_streams g ! s in
      if p_stream (g_peers g ! ss_peer_index ss) = ss_stream ss
      then gossipsub_tx_mark_peer_ready g (ss_peer_index ss) (g_last_drive_us g) else g)"

definition stream_closed ::
  "'h host_ops \<Rightarrow> nat \<Rightarrow> bool \<Rightarrow> nat \<Rightarrow> libp2p_gossipsub_t \<Rightarrow> 'h \<Rightarrow> ('h \<times> libp2p_gossipsub_t) option" where
  "stream_closed ops stream was_reset s g h =
     (let ss = g_streams g ! s; p = ss_peer_index ss;
          h1 = snd (host_set_user_data ops h stream None);
          h2 = (if was_reset then snd (host_stream_reset ops h1 stream 0) else h1)
      in do {
        g1 \<leftarrow> (if p_stream (g_peers g ! p) = ss_stream ss
               then drop_peer p ((closed_event g p)\<lparr>ev_direction := ss_direction ss,
                        ev_protocol_version := ss_version ss\<rparr>)
                      (\<lambda>x. x\<lparr>p_stream := None, p_tx_transport_busy := False\<rparr>) g
               else Some g);
        g2 \<leftarrow> free_stream s g1;
        Some (h2, g2)
      })"

definition protocol_event ::
  "'h host_ops \<Rightarrow> libp2p_gossipsub_t \<Rightarrow> 'h \<Rightarrow> nat \<Rightarrow> libp2p_host_protocol_event_kind_t \<Rightarrow>
   (libp2p_gossipsub_err_t \<times> 'h \<times> libp2p_gossipsub_t) option" where
  "protocol_event ops g h stream kind =
     (case host_user_data ops h stream of
        (err, user_data) \<Rightarrow>
          if gossipsub_host_to_err err \<noteq> LIBP2P_GOSSIPSUB_OK
          then Some (gossipsub_host_to_err err, h, g)
          else case user_data of
            None \<Rightarrow>
              Some (if kind = LIBP2P_HOST_PROTOCOL_EVENT_RESET \<or>
                       kind = LIBP2P_HOST_PROTOCOL_EVENT_CLOSED
                    then LIBP2P_GOSSIPSUB_OK else LIBP2P_GOSSIPSUB_ERR_STATE, h, g)
          | Some s \<Rightarrow>
              (case kind of
                 LIBP2P_HOST_PROTOCOL_EVENT_READABLE \<Rightarrow>
                   gossipsub_stream_read (host_stream_read ops) s (g_last_drive_us g) g h
               | LIBP2P_HOST_PROTOCOL_EVENT_WRITABLE \<Rightarrow>
                   Some (LIBP2P_GOSSIPSUB_OK, h, stream_writable s g)
               | _ \<Rightarrow>
                   map_option (Pair LIBP2P_GOSSIPSUB_OK)
                     (stream_closed ops stream (kind = LIBP2P_HOST_PROTOCOL_EVENT_RESET) s g h)))"

definition gossipsub_protocol_on_event ::
  "'h host_ops \<Rightarrow> libp2p_gossipsub_t \<Rightarrow> 'h \<Rightarrow> nat option \<Rightarrow> libp2p_host_protocol_event_kind_t \<Rightarrow>
   (libp2p_host_err_t \<times> 'h \<times> libp2p_gossipsub_t) option" where
  "gossipsub_protocol_on_event ops g h stream kind =
     map_option (map_prod gossipsub_host_err id)
       (case stream of
          None \<Rightarrow> Some (LIBP2P_GOSSIPSUB_ERR_INVALID_ARG, h, g)
        | Some st \<Rightarrow> protocol_event ops g h st kind)"

end
