(* ===== verification/Gossipsub_Invariant.thy ===== *)
theory Gossipsub_Invariant
  imports Gossipsub_Mesh_Laws Gossipsub_Tx_Flush Gossipsub_Host
begin

text \<open>
  The invariant of the whole router: its tables keep their capacities, topics and peers are stored
  once, the mesh, the event queue and the message cache are sound, the transmit queues too and the
  peers that are not in use have none. The primitive operations keep it.
\<close>

subsection \<open>Tables with unique keys\<close>

context slot_table begin

definition unique :: "'e list \<Rightarrow> bool" where
  "unique xs \<longleftrightarrow> keys xs = mset_set (set_mset (keys xs))"

lemma unique_store:
  assumes "unique xs" and "i < length xs" and "\<not> in_use (xs ! i)" and "in_use e" and "key e \<notin># keys xs"
  shows "unique (xs[i := e])"
proof -
  have "keys (xs[i := e]) = add_mset (key e) (keys xs)" by (rule keys_store [OF assms(2-4)])
  moreover have "mset_set (insert (key e) (set_mset (keys xs))) = add_mset (key e) (mset_set (set_mset (keys xs)))"
    using assms(5) by simp
  ultimately show ?thesis using assms(1) by (simp add: unique_def)
qed

lemma keys_replace:
  assumes "in_use e = in_use (xs ! i)" and "key e = key (xs ! i)"
  shows "keys (xs[i := e]) = keys xs"
  using assms by (induction xs arbitrary: i) (auto split: nat.split)

lemma unique_replace:
  assumes "in_use e = in_use (xs ! i)" and "key e = key (xs ! i)"
  shows "unique (xs[i := e]) \<longleftrightarrow> unique xs"
  using keys_replace [OF assms] by (simp add: unique_def)

lemma unique_empty: "\<forall>e\<in>set xs. \<not> in_use e \<Longrightarrow> unique xs \<and> keys xs = {#}"
  by (induction xs) (auto simp: unique_def)

lemma keys_map: "(\<And>x. in_use (f x) = in_use x \<and> key (f x) = key x) \<Longrightarrow> keys (map f xs) = keys xs"
  by (induction xs) auto

text \<open>What uniqueness says of the slots.\<close>

lemma unique_slots:
  assumes "unique xs" and "i < length xs" and "j < length xs" and "in_use (xs ! i)" and "in_use (xs ! j)"
    and "key (xs ! i) = key (xs ! j)"
  shows "i = j"
proof (rule ccontr)
  assume "i \<noteq> j"
  let ?ys = "xs[i := free]"
  have "add_mset (key (xs ! i)) (keys ?ys) = keys xs" by (rule keys_clear [OF assms(2,4)])
  moreover have "key (xs ! i) \<in># keys ?ys"
    using assms \<open>i \<noteq> j\<close> by (auto simp: keys_member list_ex_length intro!: exI [of _ j])
  ultimately have "count (keys xs) (key (xs ! i)) \<ge> 2" by (metis Suc_1 Suc_le_mono count_add_mset count_greater_eq_one_iff)
  then show False
    using assms(1) unfolding unique_def by (metis One_nat_def Suc_1 count_mset_set(1) count_mset_set(2)
      count_mset_set(3) finite_set_mset not_less_eq_eq order_refl zero_le)
qed

end

interpretation topics: slot_table t_used t_topic zero_topic
  by unfold_locales (simp add: zero_topic_def)

interpretation peers: slot_table p_used p_peer_id zero_peer
  by unfold_locales (simp add: zero_peer_def)

subsection \<open>The invariant\<close>

definition sizes_ok :: "libp2p_gossipsub_config_t \<Rightarrow> libp2p_gossipsub_t \<Rightarrow> bool" where
  "sizes_ok cfg g \<longleftrightarrow> (let cap = cfg_capacity cfg in
     length (g_topics g) = max_topics cap \<and> length (g_peers g) = max_peers cap \<and>
     length (g_peer_topics g) = max_peer_topics cap \<and> length (g_mesh_edges g) = max_mesh_edges cap \<and>
     length (g_backoff g) = max_backoff_entries cap \<and> length (g_streams g) = max_streams cap \<and>
     length (g_mcache g) = mcache_slots cap \<and> length (g_mcache_data g) = mcache_bytes cap \<and>
     length (g_seen g) = seen_entries cap \<and> length (g_validations g) = pending_validations cap \<and>
     length (g_idontwant g) = idontwant_entries cap \<and> length (g_events g) = event_capacity cap)"

text \<open>Topics, peers and the topics of peers are stored once, and the counters count them.\<close>

definition names_ok :: "libp2p_gossipsub_t \<Rightarrow> bool" where
  "names_ok g \<longleftrightarrow>
     topics.unique (g_topics g) \<and> g_topic_count g = size (topics.keys (g_topics g)) \<and>
     peers.unique (g_peers g) \<and> g_peer_count g = size (peers.keys (g_peers g)) \<and>
     peer_topics.unique (g_peer_topics g)"

definition events_ok :: "libp2p_gossipsub_t \<Rightarrow> bool" where
  "events_ok g \<longleftrightarrow> g_event_head g < length (g_events g) \<and> g_event_len g \<le> length (g_events g)"

text \<open>The data of every cached message lies in the part of the cache that is in use.\<close>

definition mcache_ok :: "libp2p_gossipsub_t \<Rightarrow> bool" where
  "mcache_ok g \<longleftrightarrow> g_mcache g \<noteq> [] \<and> g_mcache_data_used g \<le> length (g_mcache_data g) \<and>
     (\<forall>e\<in>set (g_mcache g). mc_used e \<longrightarrow> mc_data_offset e + mc_data_len e \<le> g_mcache_data_used g)"

definition core_ok :: "libp2p_gossipsub_config_t \<Rightarrow> libp2p_gossipsub_t \<Rightarrow> bool" where
  "core_ok cfg g \<longleftrightarrow> g_config g = cfg \<and> max_rpc_bytes (cfg_limits cfg) < 2 ^ 63 \<and> sizes_ok cfg g \<and> names_ok g \<and> mesh_ok g \<and> events_ok g \<and>
     mcache_ok g"

definition queues_ok :: "libp2p_gossipsub_config_t \<Rightarrow> libp2p_gossipsub_t \<Rightarrow> bool" where
  "queues_ok cfg g \<longleftrightarrow> tx_ok g \<and> length (g_tx_queue g) = max_tx_rpc_queue (cfg_capacity cfg) \<and>
     length (g_tx_buffer g) = tx_buffer_bytes (cfg_capacity cfg) \<and>
     (\<forall>p < length (g_peers g). \<not> p_used (g_peers g ! p) \<longrightarrow> idle_peer (g_peers g ! p))"

definition router_ok :: "libp2p_gossipsub_config_t \<Rightarrow> libp2p_gossipsub_t \<Rightarrow> bool" where
  "router_ok cfg g \<longleftrightarrow> core_ok cfg g \<and> queues_ok cfg g"

lemma router_okD:
  assumes "router_ok cfg g"
  shows "core_ok cfg g" "queues_ok cfg g" "g_config g = cfg" "tx_ok g" "mesh_ok g"
    "length (g_peers g) = max_peers (cfg_capacity cfg)" "length (g_streams g) = max_streams (cfg_capacity cfg)"
  using assms by (simp_all add: router_ok_def core_ok_def queues_ok_def sizes_ok_def Let_def)

subsection \<open>Updates\<close>

text \<open>The two parts look at different fields; the transmit queue changes nothing of the core.\<close>

lemma tx_ok_cong:
  assumes "g_config g' = g_config g" and "g_peers g' = g_peers g" and "g_tx_queue g' = g_tx_queue g"
    and "g_tx_buffer g' = g_tx_buffer g" and "g_tx_buffer_used g' = g_tx_buffer_used g"
    and "g_tx_queue_len g' = g_tx_queue_len g" and "g_tx_ready_count g' = g_tx_ready_count g"
    and "g_tx_next_peer g' = g_tx_next_peer g"
  shows "tx_ok g' = tx_ok g" and "tx_chain g' = tx_chain g"
proof -
  show "tx_chain g' = tx_chain g" using assms by (simp add: fun_eq_iff tx_chain_def)
  then show "tx_ok g' = tx_ok g"
    using assms by (simp add: tx_ok_def tx_inv_def lists_ok_def room_ok_def schedule_ok_def)
qed

lemma queues_ok_cong:
  assumes "g_config g' = g_config g" and "g_peers g' = g_peers g" and "g_tx_queue g' = g_tx_queue g"
    and "g_tx_buffer g' = g_tx_buffer g" and "g_tx_buffer_used g' = g_tx_buffer_used g"
    and "g_tx_queue_len g' = g_tx_queue_len g" and "g_tx_ready_count g' = g_tx_ready_count g"
    and "g_tx_next_peer g' = g_tx_next_peer g"
  shows "queues_ok cfg g' = queues_ok cfg g"
  using tx_ok_cong(1) [OF assms] assms by (simp add: queues_ok_def)

lemma queues_ok_update [simp]:
  "queues_ok cfg (g\<lparr>g_topics := x1, g_topic_count := n\<rparr>) = queues_ok cfg g"
  "queues_ok cfg (g\<lparr>g_topics := x1\<rparr>) = queues_ok cfg g"
  "queues_ok cfg (g\<lparr>g_peer_topics := x2\<rparr>) = queues_ok cfg g"
  "queues_ok cfg (g\<lparr>g_mesh_edges := x3, g_mesh_peer_count := c\<rparr>) = queues_ok cfg g"
  "queues_ok cfg (g\<lparr>g_backoff := x4\<rparr>) = queues_ok cfg g"
  "queues_ok cfg (g\<lparr>g_streams := x5\<rparr>) = queues_ok cfg g"
  "queues_ok cfg (g\<lparr>g_stream_rx_small := x6\<rparr>) = queues_ok cfg g"
  "queues_ok cfg (g\<lparr>g_stream_rx_buffer := x7\<rparr>) = queues_ok cfg g"
  "queues_ok cfg (g\<lparr>g_stream_rx_buffer_used := n\<rparr>) = queues_ok cfg g"
  "queues_ok cfg (g\<lparr>g_seen := x8\<rparr>) = queues_ok cfg g"
  "queues_ok cfg (g\<lparr>g_validations := x9\<rparr>) = queues_ok cfg g"
  "queues_ok cfg (g\<lparr>g_idontwant := x10\<rparr>) = queues_ok cfg g"
  "queues_ok cfg (g\<lparr>g_events := x11, g_event_len := n\<rparr>) = queues_ok cfg g"
  "queues_ok cfg (g\<lparr>g_event_head := m, g_event_len := n\<rparr>) = queues_ok cfg g"
  "queues_ok cfg (g\<lparr>g_random_calls := n\<rparr>) = queues_ok cfg g"
  "queues_ok cfg (g\<lparr>g_last_drive_us := t\<rparr>) = queues_ok cfg g"
  "queues_ok cfg (g\<lparr>g_next_heartbeat_us := t\<rparr>) = queues_ok cfg g"
  "queues_ok cfg (g\<lparr>g_closing := b\<rparr>) = queues_ok cfg g"
  by (rule queues_ok_cong; simp)+

lemma core_ok_tx:
  assumes "tx_core g' = tx_core g"
  shows "core_ok cfg g' = core_ok cfg g"
proof -
  have "peers.keys (map peer_core ps) = peers.keys ps" for ps
    by (rule peers.keys_map) (simp add: peer_core_def)
  then have "core_ok cfg (tx_core g) = core_ok cfg g" for g
    by (simp add: core_ok_def sizes_ok_def names_ok_def events_ok_def mcache_ok_def mesh_ok_def mesh_pairs_def
        topics.unique_def peers.unique_def peer_topics.unique_def tx_core_def Let_def)
  then show ?thesis using assms by metis
qed

lemma core_ok_update [simp]:
  "core_ok cfg (g\<lparr>g_stream_rx_small := x6\<rparr>) = core_ok cfg g"
  "core_ok cfg (g\<lparr>g_stream_rx_buffer := x7\<rparr>) = core_ok cfg g"
  "core_ok cfg (g\<lparr>g_stream_rx_buffer_used := n\<rparr>) = core_ok cfg g"
  "core_ok cfg (g\<lparr>g_random_calls := n\<rparr>) = core_ok cfg g"
  "core_ok cfg (g\<lparr>g_last_drive_us := t\<rparr>) = core_ok cfg g"
  "core_ok cfg (g\<lparr>g_next_heartbeat_us := t\<rparr>) = core_ok cfg g"
  "core_ok cfg (g\<lparr>g_closing := b\<rparr>) = core_ok cfg g"
  "length x5 = length (g_streams g) \<Longrightarrow> core_ok cfg (g\<lparr>g_streams := x5\<rparr>) = core_ok cfg g"
  "length x4 = length (g_backoff g) \<Longrightarrow> core_ok cfg (g\<lparr>g_backoff := x4\<rparr>) = core_ok cfg g"
  "length x8 = length (g_seen g) \<Longrightarrow> core_ok cfg (g\<lparr>g_seen := x8\<rparr>) = core_ok cfg g"
  "length x9 = length (g_validations g) \<Longrightarrow> core_ok cfg (g\<lparr>g_validations := x9\<rparr>) = core_ok cfg g"
  "length x10 = length (g_idontwant g) \<Longrightarrow> core_ok cfg (g\<lparr>g_idontwant := x10\<rparr>) = core_ok cfg g"
  by (simp_all add: core_ok_def sizes_ok_def names_ok_def events_ok_def mcache_ok_def mesh_ok_def
      mesh_pairs_def Let_def)

lemma router_ok_update [simp]:
  "router_ok cfg (g\<lparr>g_stream_rx_small := x6\<rparr>) = router_ok cfg g"
  "router_ok cfg (g\<lparr>g_stream_rx_buffer := x7\<rparr>) = router_ok cfg g"
  "router_ok cfg (g\<lparr>g_stream_rx_buffer_used := n\<rparr>) = router_ok cfg g"
  "router_ok cfg (g\<lparr>g_random_calls := n\<rparr>) = router_ok cfg g"
  "router_ok cfg (g\<lparr>g_last_drive_us := t\<rparr>) = router_ok cfg g"
  "router_ok cfg (g\<lparr>g_next_heartbeat_us := t\<rparr>) = router_ok cfg g"
  "router_ok cfg (g\<lparr>g_closing := b\<rparr>) = router_ok cfg g"
  "length x5 = length (g_streams g) \<Longrightarrow> router_ok cfg (g\<lparr>g_streams := x5\<rparr>) = router_ok cfg g"
  "length x4 = length (g_backoff g) \<Longrightarrow> router_ok cfg (g\<lparr>g_backoff := x4\<rparr>) = router_ok cfg g"
  "length x8 = length (g_seen g) \<Longrightarrow> router_ok cfg (g\<lparr>g_seen := x8\<rparr>) = router_ok cfg g"
  "length x9 = length (g_validations g) \<Longrightarrow> router_ok cfg (g\<lparr>g_validations := x9\<rparr>) = router_ok cfg g"
  "length x10 = length (g_idontwant g) \<Longrightarrow> router_ok cfg (g\<lparr>g_idontwant := x10\<rparr>) = router_ok cfg g"
  by (simp_all add: router_ok_def)

text \<open>An update of a peer that keeps its queue, its use and its id.\<close>

definition keeps_peer :: "(gossipsub_peer_state_t \<Rightarrow> gossipsub_peer_state_t) \<Rightarrow> bool" where
  "keeps_peer f \<longleftrightarrow> keeps_queue f \<and>
     (\<forall>x. p_tx_ready (f x) = p_tx_ready x \<and> p_used (f x) = p_used x \<and> p_peer_id (f x) = p_peer_id x)"

lemma keeps_peer_idle: "keeps_peer f \<Longrightarrow> idle_peer (f x) = idle_peer x"
  by (simp add: keeps_peer_def keeps_queue_def idle_peer_def)

lemma core_ok_peers:
  assumes "length ps = length (g_peers g)" and "peers.keys ps = peers.keys (g_peers g)"
  shows "core_ok cfg (g\<lparr>g_peers := ps\<rparr>) = core_ok cfg g"
  using assms by (simp add: core_ok_def sizes_ok_def names_ok_def events_ok_def mcache_ok_def mesh_ok_def
      mesh_pairs_def peers.unique_def Let_def)

lemma router_ok_upd_peer:
  assumes "keeps_peer f" and "router_ok cfg g"
  shows "router_ok cfg (upd_peer p f g)"
proof -
  have "peers.keys ((g_peers g)[p := f (g_peers g ! p)]) = peers.keys (g_peers g)"
    by (rule peers.keys_replace) (use assms(1) in \<open>simp_all add: keeps_peer_def\<close>)
  then have "core_ok cfg (upd_peer p f g)"
    using assms(2) core_ok_peers by (simp add: upd_peer_def router_ok_def)
  moreover have "tx_ok (upd_peer p f g)"
    by (rule tx_ok_upd_peer) (use assms in \<open>simp_all add: keeps_peer_def router_okD\<close>)
  moreover have "\<not> p_used (g_peers (upd_peer p f g) ! j) \<longrightarrow> idle_peer (g_peers (upd_peer p f g) ! j)"
    if "j < length (g_peers g)" for j
    using that assms keeps_peer_idle [OF assms(1)]
    by (cases "j = p") (simp_all add: router_ok_def queues_ok_def keeps_peer_def)
  ultimately show ?thesis
    using assms(2) by (simp add: router_ok_def queues_ok_def)
qed

lemma mesh_ok_tables:
  "length ts = length (g_topics g) \<Longrightarrow> mesh_ok (g\<lparr>g_topics := ts\<rparr>) = mesh_ok g"
  "length ts = length (g_topics g) \<Longrightarrow> mesh_ok (g\<lparr>g_topics := ts, g_topic_count := n\<rparr>) = mesh_ok g"
  "mesh_ok (g\<lparr>g_peer_topics := pts\<rparr>) = mesh_ok g"
  "mesh_ok (g\<lparr>g_events := es, g_event_len := n\<rparr>) = mesh_ok g"
  "mesh_ok (g\<lparr>g_event_head := m, g_event_len := n\<rparr>) = mesh_ok g"
  by (simp_all add: mesh_ok_def mesh_pairs_def)

lemmas core_defs = router_ok_def core_ok_def sizes_ok_def names_ok_def events_ok_def mcache_ok_def
  mesh_ok_tables Let_def

subsection \<open>Events and validations\<close>

lemma event_push_ok:
  assumes "router_ok cfg g"
  shows "router_ok cfg (snd (gossipsub_push_event_or_drop g event))"
  using assms
  by (auto simp: gossipsub_push_event_or_drop_def gossipsub_event_push_def gossipsub_release_validation_def
      Let_def split: option.split)
    (auto simp: core_defs)

lemma next_event_ok:
  assumes "router_ok cfg g"
  shows "router_ok cfg (snd (libp2p_gossipsub_next_event g))"
proof -
  have "events_ok g" using assms by (simp add: router_ok_def core_ok_def)
  then have "(g_event_head g + 1) mod length (g_events g) < length (g_events g)"
    by (intro mod_less_divisor) (auto simp: events_ok_def)
  with assms show ?thesis
    by (auto simp: libp2p_gossipsub_next_event_def core_defs)
qed

lemma alloc_validation_ok:
  assumes "router_ok cfg g"
  shows "router_ok cfg (snd (gossipsub_alloc_validation g p m now_us))"
  using assms by (simp add: gossipsub_alloc_validation_def split: option.split)

lemma release_validation_ok: "router_ok cfg g \<Longrightarrow> router_ok cfg (gossipsub_release_validation v g)"
  by (simp add: gossipsub_release_validation_def split: option.split)

subsection \<open>Topics and peers\<close>

lemma bytes_equal_contents:
  "\<not> is_null b \<Longrightarrow> gossipsub_bytes_equal (Buf a) b \<longleftrightarrow> a = contents b"
  by (cases b) (auto simp: gossipsub_bytes_equal_def)

lemma find_or_add_topic_ok:
  assumes "router_ok cfg g"
  shows "router_ok cfg (snd (gossipsub_find_or_add_topic g topic))"
proof (cases "is_null topic \<or> clen topic > max_topic_bytes (cfg_limits (g_config g)) \<or>
    gossipsub_find_topic g topic \<noteq> None \<or> first_index (\<lambda>t. \<not> t_used t) (g_topics g) = None")
  case False
  let ?t = "zero_topic\<lparr>t_used := True, t_enable_idontwant := cfg_enable_idontwant (g_config g),
    t_idontwant_min_message_bytes := cfg_idontwant_min_message_bytes (g_config g), t_topic := contents topic\<rparr>"
  obtain i where i: "first_index (\<lambda>t. \<not> t_used t) (g_topics g) = Some i" using False by blast
  note il = first_index_Some [OF i]
  let ?ts = "(g_topics g)[i := ?t]"
  have n: "\<not> is_null topic" and f: "\<forall>t\<in>set (g_topics g). t_used t \<longrightarrow> t_topic t \<noteq> contents topic"
    using False by (auto simp: gossipsub_find_topic_def first_index_None_iff bytes_equal_contents)
  have new: "contents topic \<notin># topics.keys (g_topics g)"
    using f by (auto simp: topics.keys_member list_ex_iff)
  have k: "topics.keys ?ts = add_mset (contents topic) (topics.keys (g_topics g))"
    using topics.keys_store [of i "g_topics g" ?t] il by simp
  have u: "topics.unique ?ts"
    using topics.unique_store [of "g_topics g" i ?t] assms il new
    by (simp add: router_ok_def core_ok_def names_ok_def)
  have "core_ok cfg (g\<lparr>g_topics := ?ts, g_topic_count := g_topic_count g + 1\<rparr>)"
    using assms k u by (simp add: core_defs)
  moreover have "gossipsub_find_or_add_topic g topic =
      (Some i, g\<lparr>g_topics := ?ts, g_topic_count := g_topic_count g + 1\<rparr>)"
    using False i by (auto simp: gossipsub_find_or_add_topic_def)
  ultimately show ?thesis using assms by (simp add: router_ok_def)
qed (use assms in \<open>auto simp: gossipsub_find_or_add_topic_def split: option.split\<close>)

text \<open>An update of a topic that keeps its use and its name.\<close>

lemma update_topic_ok:
  assumes "router_ok cfg g" and "t_used t = t_used (g_topics g ! i)" and "t_topic t = t_topic (g_topics g ! i)"
  shows "router_ok cfg (g\<lparr>g_topics := (g_topics g)[i := t]\<rparr>)"
  using assms topics.keys_replace [OF assms(2,3)]
  by (simp add: core_defs topics.unique_def)

lemma update_peer_topics_ok:
  assumes "router_ok cfg g" and "length pts = length (g_peer_topics g)" and "peer_topics.unique pts"
  shows "router_ok cfg (g\<lparr>g_peer_topics := pts\<rparr>)"
  using assms by (simp add: core_defs)

lemma find_or_add_peer_topic_ok:
  assumes "router_ok cfg g"
  shows "router_ok cfg (snd (gossipsub_find_or_add_peer_topic g p t))"
proof (cases "gossipsub_find_peer_topic g p t = None \<and> first_index (\<lambda>e. \<not> pt_used e) (g_peer_topics g) \<noteq> None")
  case True
  then obtain i where i: "first_index (\<lambda>e. \<not> pt_used e) (g_peer_topics g) = Some i" by blast
  let ?e = "\<lparr>pt_used = True, pt_peer_index = p, pt_topic_index = t, pt_subscribed = False\<rparr>"
  have "(p, t) \<notin># peer_topics.keys (g_peer_topics g)"
    using True by (auto simp: gossipsub_find_peer_topic_def first_index_None_iff peer_topics.keys_member list_ex_iff)
  then have "peer_topics.unique ((g_peer_topics g)[i := ?e])"
    using peer_topics.unique_store [of "g_peer_topics g" i ?e] first_index_Some [OF i] assms
    by (simp add: router_ok_def core_ok_def names_ok_def)
  with True i update_peer_topics_ok [OF assms] show ?thesis
    by (simp add: gossipsub_find_or_add_peer_topic_def)
qed (use assms in \<open>auto simp: gossipsub_find_or_add_peer_topic_def split: option.split\<close>)

text \<open>A peer that is not in use may be replaced by any other with an empty queue.\<close>

lemma tx_ok_replace_idle:
  assumes "tx_ok g" and "idle_peer (g_peers g ! p)" and "idle_peer x"
  shows "tx_ok (g\<lparr>g_peers := (g_peers g)[p := x]\<rparr>)"
proof -
  let ?f = "\<lambda>y. if idle_peer y then x else y"
  have "keeps_queue ?f" "\<And>y. p_tx_ready (?f y) = p_tx_ready y"
    using assms(3) by (auto simp: keeps_queue_def idle_peer_def)
  from tx_ok_upd_peer [OF this assms(1), of p] show ?thesis
    using assms(2) by (simp add: upd_peer_def)
qed

lemma update_peers_ok:
  assumes "core_ok cfg g" and "length ps = length (g_peers g)" and "peers.unique ps"
    and "n = size (peers.keys ps)"
  shows "core_ok cfg (g\<lparr>g_peers := ps, g_peer_count := n\<rparr>)"
  using assms by (simp add: core_defs) (auto simp: mesh_ok_def mesh_pairs_def)

lemma add_peer_ok:
  assumes ok: "router_ok cfg g" and f: "gossipsub_find_peer g (Buf peer_id) = None"
    and i: "first_index (\<lambda>p. \<not> p_used p) (g_peers g) = Some i"
  shows "router_ok cfg (g\<lparr>g_peers := (g_peers g)[i := zero_peer\<lparr>p_used := True, p_peer_id := peer_id\<rparr>],
    g_peer_count := g_peer_count g + 1\<rparr>)"
proof -
  let ?p = "zero_peer\<lparr>p_used := True, p_peer_id := peer_id\<rparr>"
  note il = first_index_Some [OF i]
  have "\<forall>p\<in>set (g_peers g). p_used p \<longrightarrow> p_peer_id p \<noteq> peer_id"
    using f by (auto simp: gossipsub_find_peer_def first_index_None_iff bytes_equal_contents)
  then have new: "peer_id \<notin># peers.keys (g_peers g)" by (auto simp: peers.keys_member list_ex_iff)
  have idle: "idle_peer (g_peers g ! i)" and ip: "idle_peer ?p"
    using ok il by (simp_all add: router_ok_def queues_ok_def idle_peer_def zero_peer_def)
  have "core_ok cfg (g\<lparr>g_peers := (g_peers g)[i := ?p], g_peer_count := g_peer_count g + 1\<rparr>)"
    using ok il new peers.unique_store [of "g_peers g" i ?p] peers.keys_store [of i "g_peers g" ?p]
    by (intro update_peers_ok) (simp_all add: router_ok_def core_ok_def names_ok_def)
  moreover have "tx_ok (g\<lparr>g_peers := (g_peers g)[i := ?p], g_peer_count := g_peer_count g + 1\<rparr>)"
    using tx_ok_replace_idle [OF router_okD(4) [OF ok] idle ip]
    by (subst tx_ok_cong(1) [of _ "g\<lparr>g_peers := (g_peers g)[i := ?p]\<rparr>"]) simp_all
  ultimately show ?thesis
    using ok il ip by (auto simp: router_ok_def queues_ok_def nth_list_update)
qed

lemma peer_from_conn_ok:
  assumes "router_ok cfg g"
  shows "router_ok cfg (snd (gossipsub_peer_from_conn g conn r))"
proof -
  let ?find = "case gossipsub_find_peer g (Buf (snd r)) of
      Some i \<Rightarrow> (Some i, g)
    | None \<Rightarrow>
        (case first_index (\<lambda>p. \<not> p_used p) (g_peers g) of
           None \<Rightarrow> (None, g)
         | Some i \<Rightarrow>
             (Some i, g\<lparr>g_peers := (g_peers g)[i := zero_peer\<lparr>p_used := True, p_peer_id := snd r\<rparr>],
                g_peer_count := g_peer_count g + 1\<rparr>))"
  obtain found g1 where f: "?find = (found, g1)" by fastforce
  have "router_ok cfg g1"
    using f assms add_peer_ok [OF assms] by (auto split: option.splits)
  then have "router_ok cfg (upd_peer i (\<lambda>x. x\<lparr>p_conn := conn, p_closed := False\<rparr>) g1)" for i
    by (intro router_ok_upd_peer) (simp_all add: keeps_peer_def keeps_queue_def)
  with assms f \<open>router_ok cfg g1\<close> show ?thesis
    by (auto simp: gossipsub_peer_from_conn_def Let_def upd_peer_def split: option.split)
qed

subsection \<open>Mesh, backoff and random numbers\<close>

lemma mesh_update_ok:
  assumes ok: "router_ok cfg g" and m: "mesh_ok g'"
    and u: "g' = g \<or> (\<exists>es c. g' = g\<lparr>g_mesh_edges := es, g_mesh_peer_count := c\<rparr> \<and>
      length es = length (g_mesh_edges g))"
  shows "router_ok cfg g'"
proof -
  consider "g' = g" | es c where "g' = g\<lparr>g_mesh_edges := es, g_mesh_peer_count := c\<rparr>"
    "length es = length (g_mesh_edges g)"
    using u by blast
  then show ?thesis
  proof cases
    case 2
    with ok m show ?thesis by (simp add: core_defs)
  qed (simp add: ok)
qed

lemma mesh_add_ok:
  assumes "router_ok cfg g"
  shows "router_ok cfg (snd (gossipsub_mesh_add g p t))"
proof -
  obtain r g' where a: "gossipsub_mesh_add g p t = (r, g')" by fastforce
  have "router_ok cfg g'"
    by (rule mesh_update_ok [OF assms mesh_add_refines(1) [OF router_okD(5) [OF assms] a]])
      (use a in \<open>auto simp: gossipsub_mesh_add_def split: if_splits option.splits\<close>)
  then show ?thesis by (simp add: a)
qed

lemma mesh_remove_router_ok:
  assumes "router_ok cfg g"
  shows "router_ok cfg (gossipsub_mesh_remove g p t)"
  by (rule mesh_update_ok [OF assms mesh_remove_refines [OF router_okD(5) [OF assms], THEN conjunct1]])
    (auto simp: gossipsub_mesh_remove_def split: option.split)

lemma mesh_remove_peer_ok:
  assumes "router_ok cfg g"
  shows "router_ok cfg (gossipsub_mesh_remove_peer g p)"
  by (rule mesh_update_ok [OF assms mesh_remove_peer_refines [OF router_okD(5) [OF assms], THEN conjunct1]])
    (auto simp: gossipsub_mesh_remove_peer_def dest: mesh_clear_length split: prod.split)

lemma mesh_remove_topic_ok:
  assumes "router_ok cfg g"
  shows "router_ok cfg (gossipsub_mesh_remove_topic g t)"
  by (rule mesh_update_ok [OF assms mesh_remove_topic_refines [OF router_okD(5) [OF assms], THEN conjunct1]])
    (auto simp: gossipsub_mesh_remove_topic_def dest: mesh_clear_length split: prod.split)

lemma backoff_add_ok:
  assumes "router_ok cfg g"
  shows "router_ok cfg (snd (gossipsub_backoff_add g p t interval now_us))"
  using assms by (auto simp: gossipsub_backoff_add_def Let_def split: prod.split option.split)

lemma backoff_clear_ok: "router_ok cfg g \<Longrightarrow> router_ok cfg (gossipsub_backoff_clear_expired g now_us)"
  by (simp add: gossipsub_backoff_clear_expired_def)

lemma random_ok:
  assumes "router_ok cfg g"
  shows "router_ok cfg (snd (gossipsub_random_u64 g))"
  using assms by (simp add: gossipsub_random_u64_def split: option.split prod.split)

subsection \<open>Caches\<close>

lemma seen_add_ok: "router_ok cfg g \<Longrightarrow> router_ok cfg (gossipsub_seen_add g message_id now_us)"
  by (simp add: gossipsub_seen_add_def Let_def)

lemma idontwant_add_ok:
  "router_ok cfg g \<Longrightarrow> router_ok cfg (gossipsub_peer_idontwant_add g p message_id now_us)"
  by (simp add: gossipsub_peer_idontwant_add_def Let_def)

lemma update_mcache_ok:
  assumes "router_ok cfg g" and "length m = length (g_mcache g)" and "length d = length (g_mcache_data g)"
    and "u \<le> length d" and "\<forall>e\<in>set m. mc_used e \<longrightarrow> mc_data_offset e + mc_data_len e \<le> u"
  shows "router_ok cfg (g\<lparr>g_mcache := m, g_mcache_data := d, g_mcache_data_used := u, g_mcache_next := n\<rparr>)"
proof -
  let ?g = "g\<lparr>g_mcache := m, g_mcache_data := d, g_mcache_data_used := u, g_mcache_next := n\<rparr>"
  have "queues_ok cfg ?g = queues_ok cfg g" by (rule queues_ok_cong) simp_all
  moreover have "mesh_ok ?g = mesh_ok g" by (simp add: mesh_ok_def mesh_pairs_def)
  moreover have "m \<noteq> []" using assms(1,2) by (auto simp: router_ok_def core_ok_def mcache_ok_def)
  ultimately show ?thesis using assms by (simp add: core_defs)
qed

lemma mcache_store_ok:
  assumes ok: "router_ok cfg g"
  obtains r slot g' where "gossipsub_mcache_store g message_id topic data = Some ((r, slot), g')"
    and "router_ok cfg g'" and "r = LIBP2P_GOSSIPSUB_OK \<longrightarrow> (\<exists>i < length (g_mcache g'). slot = Some i)"
proof (cases "is_null message_id \<or> is_null topic \<or> is_null data \<and> clen data \<noteq> 0 \<or>
    clen message_id = 0 \<or> clen message_id > max_message_id_bytes (cfg_limits (g_config g)) \<or>
    clen topic = 0 \<or> clen topic > max_topic_bytes (cfg_limits (g_config g)) \<or>
    clen data > length (g_mcache_data g)")
  case True
  then have "gossipsub_mcache_store g message_id topic data =
      Some ((if is_null message_id \<or> is_null topic \<or> is_null data \<and> clen data \<noteq> 0
             then LIBP2P_GOSSIPSUB_ERR_INVALID_ARG else LIBP2P_GOSSIPSUB_ERR_LIMIT, None), g)"
    by (auto simp: gossipsub_mcache_store_def)
  from that [OF this ok] show thesis by simp
next
  case False
  define g1 where "g1 = (if clen data > length (g_mcache_data g) - g_mcache_data_used g
    then g\<lparr>g_mcache := map (\<lambda>_. zero_mcache_entry) (g_mcache g), g_mcache_data_used := 0\<rparr> else g)"
  let ?slot = "g_mcache_next g1 mod length (g_mcache g1)" and ?o = "g_mcache_data_used g1"
  let ?e = "\<lparr>mc_used = True, mc_window = 0, mc_message_id = contents message_id,
    mc_topic = contents topic, mc_data_offset = ?o, mc_data_len = clen data\<rparr>"
  have m: "mcache_ok g" using ok by (simp add: router_ok_def core_ok_def)
  have s: "g_mcache_data g1 = g_mcache_data g" "length (g_mcache g1) = length (g_mcache g)"
    by (simp_all add: g1_def)
  have fits: "?o + clen data \<le> length (g_mcache_data g)"
    using m False by (auto simp: g1_def mcache_ok_def)
  have len: "length (contents data) = clen data" using False by (cases data) auto
  have w: "\<forall>e\<in>set (g_mcache g1). mc_used e \<longrightarrow> mc_data_offset e + mc_data_len e \<le> ?o"
    using m by (auto simp: g1_def mcache_ok_def zero_mcache_entry_def)
  obtain stored where st: "memcpy_at (g_mcache_data g1) ?o (contents data) = Some stored"
    and ls: "length stored = length (g_mcache_data g)"
    using fits len s by (auto simp: memcpy_at_def)
  let ?g = "g\<lparr>g_mcache := (g_mcache g1)[?slot := ?e], g_mcache_data := stored,
    g_mcache_data_used := ?o + clen data, g_mcache_next := size_wrap (g_mcache_next g1 + 1)\<rparr>"
  have run: "gossipsub_mcache_store g message_id topic data = Some ((LIBP2P_GOSSIPSUB_OK, Some ?slot), ?g)"
    using False st by (auto simp: gossipsub_mcache_store_def Let_def g1_def)
  have "\<forall>e\<in>set ((g_mcache g1)[?slot := ?e]). mc_used e \<longrightarrow> mc_data_offset e + mc_data_len e \<le> ?o + clen data"
    using w by (auto dest!: set_update_subset_insert [THEN subsetD] intro: trans_le_add1)
  then have "router_ok cfg ?g"
    by (intro update_mcache_ok [OF ok]) (use fits ls s in simp_all)
  moreover have "?slot < length (g_mcache g)" using m s by (simp add: mcache_ok_def)
  ultimately show thesis using that [OF run] s by simp
qed

lemma expire_caches_ok:
  assumes ok: "router_ok cfg g"
  shows "router_ok cfg (expire_caches now_us g)"
proof -
  let ?m = "map (age_entry (mp_mcache_len (cfg_mesh (g_config g)))) (g_mcache g)"
  have m: "mcache_ok g" using ok by (simp add: router_ok_def core_ok_def)
  then have "\<forall>e\<in>set ?m. mc_used e \<longrightarrow> mc_data_offset e + mc_data_len e \<le> g_mcache_data_used g"
    by (auto simp: mcache_ok_def age_entry_def split: if_splits)
  then have r: "router_ok cfg (g\<lparr>g_mcache := ?m, g_mcache_data := g_mcache_data g,
      g_mcache_data_used := g_mcache_data_used g, g_mcache_next := g_mcache_next g\<rparr>)"
    by (intro update_mcache_ok [OF ok]) (use m in \<open>auto simp: mcache_ok_def\<close>)
  moreover have "g\<lparr>g_mcache := ?m, g_mcache_data := g_mcache_data g,
      g_mcache_data_used := g_mcache_data_used g, g_mcache_next := g_mcache_next g\<rparr> = g\<lparr>g_mcache := ?m\<rparr>"
    by simp
  ultimately have "router_ok cfg (g\<lparr>g_mcache := ?m\<rparr>)" by simp
  then show ?thesis by (simp add: expire_caches_def)
qed

subsection \<open>The initial router\<close>

lemma initial_router_ok:
  assumes "0 < max_peers (cfg_capacity cfg)" and "0 < mcache_slots (cfg_capacity cfg)"
    and "0 < event_capacity (cfg_capacity cfg)" and "tx_buffer_bytes (cfg_capacity cfg) \<le> SIZE_MAX"
    and "max_rpc_bytes (cfg_limits cfg) < 2 ^ 63"
  shows "router_ok cfg (initial_router cfg L)"
proof -
  let ?g = "initial_router cfg L"
  have "mesh_ok ?g"
    by (rule mesh_ok_empty) (simp_all add: initial_router_def Let_def zero_edge_def)
  moreover have "names_ok ?g"
    using topics.unique_empty [of "g_topics ?g"] peers.unique_empty [of "g_peers ?g"]
      peer_topics.unique_empty [of "g_peer_topics ?g"]
    by (auto simp: names_ok_def initial_router_def Let_def zero_topic_def zero_peer_def zero_peer_topic_def)
  moreover have "events_ok ?g" "mcache_ok ?g" "sizes_ok cfg ?g" "g_config ?g = cfg"
    using assms by (auto simp: events_ok_def mcache_ok_def sizes_ok_def initial_router_def Let_def
        zero_mcache_entry_def)
  moreover have "queues_ok cfg ?g"
    using initial_tx_ok [OF assms(1,4)]
    by (auto simp: queues_ok_def initial_router_def Let_def idle_peer_def zero_peer_def)
  ultimately show ?thesis using assms(5) by (simp add: router_ok_def core_ok_def)
qed

end
