(* ===== verification/Gossipsub_Steps.thy ===== *)
theory Gossipsub_Steps
  imports Gossipsub_Invariant
begin

text \<open>
  The steps of the router return and keep its invariant: rules for steps in sequence, then the
  operations that queue messages, the heartbeat and the driver.
\<close>

subsection \<open>Sound steps\<close>

text \<open>A step that has a result and leaves a sound router.\<close>

definition sound :: "libp2p_gossipsub_config_t \<Rightarrow> ('r \<times> libp2p_gossipsub_t) option \<Rightarrow> bool" where
  "sound cfg s \<longleftrightarrow> (\<exists>r g. s = Some (r, g) \<and> router_ok cfg g)"

named_theorems sound_intros \<open>the operations that are sound steps\<close>

lemma sound_Some [simp]: "sound cfg (Some x) \<longleftrightarrow> router_ok cfg (snd x)"
  by (cases x) (simp add: sound_def)

lemma sound_map_prod [simp]: "sound cfg (map_option (map_prod f id) s) \<longleftrightarrow> sound cfg s"
  by (cases s) (auto simp: sound_def)

lemma sound_bind:
  assumes "sound cfg s" and "\<And>r g. s = Some (r, g) \<Longrightarrow> router_ok cfg g \<Longrightarrow> sound cfg (f (r, g))"
  shows "sound cfg (Option.bind s f)"
  using assms by (auto simp: sound_def)

lemma sound_then:
  assumes "sound cfg s" and "\<And>g. router_ok cfg g \<Longrightarrow> sound cfg (f g)"
  shows "sound cfg (step_then s f)"
  using assms by (auto simp: step_then_def intro!: sound_bind)

lemma sound_each:
  assumes "\<And>x g. x \<in> set xs \<Longrightarrow> router_ok cfg g \<Longrightarrow> sound cfg (f x g)" and "router_ok cfg g"
  shows "sound cfg (each f xs g)"
  using assms by (induction xs arbitrary: g) (auto intro!: sound_then)

lemma sound_local_limit [simp]: "sound cfg (local_limit_ok s) \<longleftrightarrow> sound cfg s"
  by (simp add: local_limit_ok_def)

lemma soundE:
  assumes "sound cfg s"
  obtains r g where "s = Some (r, g)" and "router_ok cfg g"
  using assms by (auto simp: sound_def)

subsection \<open>Queueing\<close>

lemma reserve_peers:
  assumes "gossipsub_tx_reserve g p n lifetime = Some (r, g')"
  shows "g_peers g' = g_peers g" and "\<And>i. r = Inr i \<Longrightarrow> ti_peer_index (g_tx_queue g' ! i) = p"
proof -
  have c: "g_peers g2 = g_peers g1" if "gossipsub_tx_compact_buffer g1 = Some g2" for g1 g2
    using that by (auto simp: gossipsub_tx_compact_buffer_def split: if_splits bind_splits)
  have f: "i < length (g_tx_queue g2)" if "gossipsub_tx_find_free g2 = Some i" for g2 i
    using that by (auto simp: gossipsub_tx_find_free_def dest: first_index_Some)
  show "g_peers g' = g_peers g"
    using assms by (auto simp: gossipsub_tx_reserve_def Let_def dest!: c split: if_splits bind_splits option.splits)
  show "ti_peer_index (g_tx_queue g' ! i) = p" if "r = Inr i" for i
    using assms that by (auto simp: gossipsub_tx_reserve_def Let_def dest!: f split: if_splits bind_splits option.splits)
qed

lemma encode_reserved_peers:
  assumes "encode_reserved g version rpc off n = Some (r, g')"
  shows "g_peers g' = g_peers g" and "g_tx_queue g' = g_tx_queue g"
  using assms by (auto simp: encode_reserved_def split: bind_splits)

lemma commit_only_peer:
  assumes "gossipsub_tx_commit_reserved g p i priority = Some (r, g')"
  shows "only_peer p g g'" and "r \<noteq> LIBP2P_GOSSIPSUB_OK \<Longrightarrow> g' = g"
proof -
  have l: "only_peer p h h'" if "link_peer_item p i priority h = Some h'" for h h'
    using that by (auto simp: link_peer_item_def Let_def intro!: only_peer_upd_peer only_peer_upd_item
        split: if_splits option.splits)
  have a: "only_peer p g h'" if "gossipsub_tx_append_peer_item g p i priority = Some h'" for h'
    using that l by (auto simp: gossipsub_tx_append_peer_item_def Let_def
        intro!: only_peer_set_ready only_peer_upd_peer
        intro: only_peer_trans [OF only_peer_upd_item [OF only_peer_refl]] split: if_splits bind_splits)
  show "only_peer p g g'" and "r \<noteq> LIBP2P_GOSSIPSUB_OK \<Longrightarrow> g' = g"
    using assms a by (auto simp: gossipsub_tx_commit_reserved_def Let_def split: if_splits)
qed

lemma enqueue_only_peer:
  assumes run: "gossipsub_enqueue_rpc_with_lifetime g p rpc lifetime priority = Some (r, g')"
  shows "only_peer p g g'" and "\<not> p_used (g_peers g ! p) \<Longrightarrow> g' = g"
proof -
  show "only_peer p g g'"
  proof (cases "g' = g")
    case False
    then obtain n reserved g1 where res: "gossipsub_tx_reserve g p n lifetime = Some (reserved, g1)"
      and rest: "(case reserved of Inl e \<Rightarrow> Some (Inl e, g1)
        | Inr i \<Rightarrow> do {
            (result, g2) \<leftarrow> encode_reserved g1 (p_version (g_peers g ! p)) rpc (ti_offset (g_tx_queue g1 ! i)) n;
            (result, g3) \<leftarrow> (if result = LIBP2P_GOSSIPSUB_OK
                            then gossipsub_tx_commit_reserved g2 p i priority else Some (result, g2));
            if result = LIBP2P_GOSSIPSUB_OK then Some (Inr i, g3)
            else do { g4 \<leftarrow> gossipsub_tx_remove g3 i; Some (Inl result, g4) }
          }) = Some (r, g')"
      using run by (auto simp: gossipsub_enqueue_rpc_with_lifetime_def Let_def split: if_splits sum.splits bind_splits)
    note rp = reserve_peers [OF res]
    show ?thesis
    proof (cases reserved)
      case (Inl e)
      with rest rp show ?thesis by (auto intro: only_peer_same)
    next
      case (Inr i)
      obtain r2 g2 r3 g3 where e: "encode_reserved g1 (p_version (g_peers g ! p)) rpc (ti_offset (g_tx_queue g1 ! i)) n =
          Some (r2, g2)"
        and c: "(if r2 = LIBP2P_GOSSIPSUB_OK then gossipsub_tx_commit_reserved g2 p i priority else Some (r2, g2)) =
          Some (r3, g3)"
        and f: "(if r3 = LIBP2P_GOSSIPSUB_OK then Some (Inr i, g3)
          else do { g4 \<leftarrow> gossipsub_tx_remove g3 i; Some (Inl r3, g4) }) = Some (r, g')"
        using rest Inr by (auto split: bind_splits)
      note ep = encode_reserved_peers [OF e]
      have g2: "only_peer p g g2" using ep(1) rp(1) by (intro only_peer_same) simp
      have g3: "only_peer p g g3" and q: "r3 \<noteq> LIBP2P_GOSSIPSUB_OK \<Longrightarrow> g3 = g2"
        using c g2 only_peer_trans [OF g2] commit_only_peer by (auto split: if_splits)
      show ?thesis
      proof (cases "r3 = LIBP2P_GOSSIPSUB_OK")
        case False
        then obtain g4 where "gossipsub_tx_remove g2 i = Some g4" "g' = g4"
          using f q by (auto split: bind_splits)
        with remove_only_peer [of g2 i g4] ep(2) rp(2) [OF Inr] only_peer_trans [OF g2] show ?thesis by simp
      qed (use f g3 in auto)
    qed
  qed simp
  show "\<not> p_used (g_peers g ! p) \<Longrightarrow> g' = g"
    using run by (auto simp: gossipsub_enqueue_rpc_with_lifetime_def Let_def split: if_splits)
qed

text \<open>A change of the queue that touches one used peer.\<close>

lemma router_ok_tx:
  assumes ok: "router_ok cfg g" and "tx_ok g'" and "tx_core g' = tx_core g"
    and "length (g_tx_queue g') = length (g_tx_queue g)" and "length (g_tx_buffer g') = length (g_tx_buffer g)"
    and "length (g_peers g') = length (g_peers g)"
    and "\<And>p. p < length (g_peers g) \<Longrightarrow> \<not> p_used (g_peers g ! p) \<Longrightarrow> idle_peer (g_peers g' ! p)"
  shows "router_ok cfg g'"
proof -
  have m: "map peer_core (g_peers g') = map peer_core (g_peers g)"
    using arg_cong [OF assms(3), of g_peers] by (simp add: tx_core_def)
  have "p_used (g_peers g' ! p) = p_used (g_peers g ! p)" if "p < length (g_peers g)" for p
  proof -
    have "peer_core (g_peers g' ! p) = peer_core (g_peers g ! p)"
      using m that assms(6) by (metis nth_map)
    from arg_cong [OF this, of p_used] show ?thesis by (simp add: peer_core_def)
  qed
  then show ?thesis
    using assms core_ok_tx [OF assms(3), of cfg] by (simp add: router_ok_def queues_ok_def)
qed

lemma router_ok_only_peer:
  assumes "router_ok cfg g" and "tx_ok g'" and "tx_core g' = tx_core g"
    and "length (g_tx_queue g') = length (g_tx_queue g)" and "length (g_tx_buffer g') = length (g_tx_buffer g)"
    and "only_peer p g g'" and "\<not> p_used (g_peers g ! p) \<Longrightarrow> idle_peer (g_peers g ! p) \<Longrightarrow> idle_peer (g_peers g' ! p)"
  shows "router_ok cfg g'"
proof (rule router_ok_tx [OF assms(1-5)])
  show "length (g_peers g') = length (g_peers g)" using assms(6) by (simp add: only_peer_def)
  fix p' assume p': "p' < length (g_peers g)" "\<not> p_used (g_peers g ! p')"
  then have "idle_peer (g_peers g ! p')" using assms(1) by (simp add: router_ok_def queues_ok_def)
  with assms(6,7) p' show "idle_peer (g_peers g' ! p')" by (cases "p' = p") (auto simp: only_peer_def)
qed

lemma enqueue_sound [sound_intros]:
  assumes ok: "router_ok cfg g" and w: "control_writable (rpc_control rpc)"
  shows "sound cfg (gossipsub_enqueue_rpc_with_lifetime g p rpc lifetime priority)"
proof -
  have m: "max_rpc_bytes (cfg_limits (g_config g)) < 2 ^ 63"
    using ok by (simp add: router_ok_def core_ok_def)
  obtain r g' where run: "gossipsub_enqueue_rpc_with_lifetime g p rpc lifetime priority = Some (r, g')"
    and g': "tx_ok g'" "tx_core g' = tx_core g" "length (g_tx_queue g') = length (g_tx_queue g)"
      "length (g_tx_buffer g') = length (g_tx_buffer g)"
    by (rule enqueue_ok [OF router_okD(4) [OF ok] m w])
  have "router_ok cfg g'"
    by (rule router_ok_only_peer [OF ok g' enqueue_only_peer(1) [OF run]])
      (use enqueue_only_peer(2) [OF run] in simp)
  with run show ?thesis by simp
qed

subsection \<open>The messages of the router\<close>

lemma enqueue_rpc_sound [sound_intros]:
  assumes "router_ok cfg g" and "control_writable (rpc_control rpc)"
  shows "sound cfg (gossipsub_enqueue_rpc g p rpc)"
    and "sound cfg (gossipsub_enqueue_priority_rpc g p rpc)"
    and "sound cfg (gossipsub_enqueue_normal_rpc_with_lifetime g p rpc lifetime)"
  by (simp_all add: gossipsub_enqueue_rpc_def gossipsub_enqueue_priority_rpc_def
      gossipsub_enqueue_normal_rpc_with_lifetime_def enqueue_sound assms)

lemma backoff_seconds_small: "unat (gossipsub_tx_backoff_seconds us) < 2 ^ 63"
proof -
  have u: "unat us < 2 ^ 64"
    using unsigned_less [where 'a = nat and w = us] by simp
  have "unat us div 1000000 < 2 ^ 62"
    by (rule less_mult_imp_div_less, rule less_le_trans [OF u]) simp
  then have "unat (us div 1000000) < 2 ^ 62" by (simp add: unat_div)
  then have "unat (us div 1000000 + 1) < 2 ^ 63"
    by (subst unat_add_lem [THEN iffD1]) simp_all
  with \<open>unat (us div 1000000) < 2 ^ 62\<close> show ?thesis
    by (auto simp: gossipsub_tx_backoff_seconds_def Let_def)
qed

lemma enqueue_messages_sound [sound_intros]:
  assumes "router_ok cfg g"
  shows "sound cfg (gossipsub_enqueue_subscription g p topic subscribe)"
    and "sound cfg (gossipsub_enqueue_idontwant g p message_id)"
    and "sound cfg (gossipsub_enqueue_iwant g p message_id)"
    and "sound cfg (gossipsub_enqueue_ihave g p topic ids)"
    and "sound cfg (gossipsub_enqueue_graft g p topic)"
    and "sound cfg (gossipsub_enqueue_prune g p topic)"
  using assms backoff_seconds_small
  by (simp_all add: gossipsub_enqueue_subscription_def gossipsub_enqueue_idontwant_def
      gossipsub_enqueue_iwant_def gossipsub_enqueue_ihave_def gossipsub_enqueue_graft_def
      gossipsub_enqueue_prune_def gossipsub_enqueue_prune_with_backoff_def enqueue_rpc_sound
      empty_rpc_def empty_control_def control_writable_def prune_writable_def)

lemma upd_item_ok:
  assumes "router_ok cfg g" and "keeps_place (g_tx_queue g ! i) (f (g_tx_queue g ! i))"
    and "ti_pos (f (g_tx_queue g ! i)) = ti_pos (g_tx_queue g ! i)"
  shows "router_ok cfg (upd_item i f g)"
proof -
  note inv = tx_okD [OF router_okD(4) [OF assms(1)]]
  have "ti_pos (f (g_tx_queue g ! i)) \<le> ti_len (g_tx_queue g ! i)"
    if "ti_used (g_tx_queue g ! i)" "i < length (g_tx_queue g)"
    using inv that assms(3) by (simp add: tx_inv_def room_ok_def spans_ok_def)
  then have "tx_ok (upd_item i f g)"
    by (intro tx_inv_chain(1) [OF tx_inv_upd_item [where f = f, OF inv assms(2)]])
  then show ?thesis
    by (rule router_ok_only_peer [OF assms(1), where p = 0]) (simp_all add: only_peer_def)
qed

lemma enqueue_publish_entry_sound [sound_intros]:
  assumes "router_ok cfg g"
  shows "sound cfg (gossipsub_enqueue_publish_entry_with_lifetime g p entry lifetime priority)"
    and "sound cfg (gossipsub_enqueue_publish_entry g p entry)"
    and "sound cfg (gossipsub_enqueue_local_publish_entry g p entry)"
proof -
  show "sound cfg (gossipsub_enqueue_publish_entry_with_lifetime g p entry lifetime priority)" for lifetime priority
    unfolding gossipsub_enqueue_publish_entry_with_lifetime_def
    by (rule sound_bind)
      (auto simp: assms enqueue_sound empty_rpc_def empty_control_def control_writable_def keeps_place_def
        intro!: upd_item_ok split: sum.split)
  then show "sound cfg (gossipsub_enqueue_publish_entry g p entry)"
    and "sound cfg (gossipsub_enqueue_local_publish_entry g p entry)"
    by (simp_all add: gossipsub_enqueue_publish_entry_def gossipsub_enqueue_local_publish_entry_def)
qed

lemma upd_peer_fields_ok:
  assumes "router_ok cfg g"
  shows "router_ok cfg (upd_peer p (\<lambda>x. x\<lparr>p_idontwant_sent := h x\<rparr>) g)"
    and "router_ok cfg (upd_peer p (p_tx_queue_limit_reported_update k) g)"
    and "router_ok cfg (upd_peer p (p_explicit_peer_update k) g)"
    and "router_ok cfg (upd_peer p (p_tx_transport_busy_update k) g)"
  by (rule router_ok_upd_peer [OF _ assms]; simp add: keeps_peer_def keeps_queue_def)+

lemma enqueue_idontwant_for_entry_sound [sound_intros]:
  assumes "router_ok cfg g"
  shows "sound cfg (gossipsub_enqueue_idontwant_for_entry g p topic entry)"
  using assms
  by (auto simp: gossipsub_enqueue_idontwant_for_entry_def upd_peer_fields_ok
      intro!: sound_bind enqueue_messages_sound)

lemma idontwant_received_sound [sound_intros]:
  assumes "router_ok cfg g"
  shows "sound cfg (gossipsub_enqueue_idontwant_for_received_entry g topic entry)"
proof -
  have "sound cfg (idontwant_received_loop topic entry t ps g)" if "router_ok cfg g" for t ps g
    using that
  proof (induction ps arbitrary: g)
    case (Cons p ps)
    have "sound cfg (case gossipsub_push_event_or_drop g1 e of (r, g2) \<Rightarrow>
        idontwant_received_loop topic entry t ps
          (if r = LIBP2P_GOSSIPSUB_OK then upd_peer p (p_tx_queue_limit_reported_update (\<lambda>_. True)) g2 else g2))"
      if "router_ok cfg g1" for g1 e
      using event_push_ok [OF that, of e] by (auto simp: split_beta intro!: Cons.IH upd_peer_fields_ok)
    with Cons show ?case
      by (auto intro!: sound_bind enqueue_idontwant_for_entry_sound)
  qed simp
  with assms show ?thesis
    by (simp add: gossipsub_enqueue_idontwant_for_received_entry_def split: option.split)
qed

lemma forward_entry_sound [sound_intros]:
  assumes "router_ok cfg g"
  shows "sound cfg (gossipsub_forward_entry g source entry)"
proof -
  have "sound cfg (forward_loop source entry t ps g)" if "router_ok cfg g" for t ps g
    using that
    by (induction ps arbitrary: g)
      (auto intro!: sound_bind enqueue_idontwant_for_entry_sound enqueue_publish_entry_sound)
  with assms show ?thesis
    by (simp add: gossipsub_forward_entry_def split: option.split)
qed

subsection \<open>The heartbeat\<close>

lemma fill_sound [sound_intros]:
  assumes "router_ok cfg g"
  shows "sound cfg (gossipsub_mesh_fill_topic g t target queue_graft)"
proof -
  have "sound cfg (fill_loop t salt queue_graft n g)" if "router_ok cfg g" for salt n g
    using that
  proof (induction n arbitrary: g)
    case (Suc n)
    let ?p = "gossipsub_ranked_peer g t salt GOSSIPSUB_RANK_MODE_FILL"
    obtain r g1 where a: "gossipsub_mesh_add g ?p t = (r, g1)" by fastforce
    have "router_ok cfg g1" using mesh_add_ok [OF Suc.prems, of ?p t] a by simp
    then show ?case
      using Suc a by (auto simp: Let_def mesh_remove_router_ok intro!: sound_bind enqueue_messages_sound)
  qed simp
  with assms random_ok [OF assms] show ?thesis
    by (auto simp: gossipsub_mesh_fill_topic_def Let_def split_beta)
qed

lemma trim_sound [sound_intros]:
  assumes "router_ok cfg g"
  shows "sound cfg (gossipsub_mesh_trim_topic g t target queue_prune)"
proof -
  have "sound cfg (trim_loop t salt b n g)" if "router_ok cfg g" for salt b n g
    using that
  proof (induction n arbitrary: b g)
    case (Suc n)
    have b: "router_ok cfg (snd (gossipsub_backoff_add g p t' i now_us))" if "router_ok cfg g" for g p t' i now_us
      by (rule backoff_add_ok [OF that])
    show ?case
      using Suc.prems b
      by (cases b)
        (auto simp: Let_def split_beta intro!: sound_bind enqueue_messages_sound Suc.IH mesh_remove_router_ok)
  qed simp
  with assms random_ok [OF assms] show ?thesis
    by (auto simp: gossipsub_mesh_trim_topic_def Let_def split_beta)
qed

lemma subscribed_topics_sound:
  assumes "\<And>t g. router_ok cfg g \<Longrightarrow> sound cfg (f t g)" and "router_ok cfg g"
  shows "sound cfg (subscribed_topics f ts g)"
  using assms(2) by (induction ts arbitrary: g) (auto intro!: sound_bind assms(1))

lemma gossip_sound [sound_intros]:
  assumes "router_ok cfg g"
  shows "sound cfg (gossipsub_emit_topic_gossip t g)"
proof -
  have "sound cfg (gossip_loop t salt ids previous n g)" if "router_ok cfg g" for salt ids previous n g
    using that
    by (induction n arbitrary: g previous)
      (auto intro!: sound_bind enqueue_messages_sound split: option.split)
  with assms random_ok [OF assms] show ?thesis
    by (auto simp: gossipsub_emit_topic_gossip_def Let_def split_beta)
qed

lemma mesh_heartbeat_sound:
  assumes "router_ok cfg g"
  shows "sound cfg (gossipsub_mesh_heartbeat g)" and "sound cfg (gossipsub_emit_gossip g)"
  unfolding gossipsub_mesh_heartbeat_def gossipsub_emit_gossip_def
  by (rule subscribed_topics_sound; auto simp: heartbeat_topic_def Let_def fill_sound trim_sound gossip_sound assms)+

lemma reset_idontwant_ok:
  assumes "router_ok cfg g"
  shows "router_ok cfg (g\<lparr>g_peers := map (\<lambda>p. if p_used p then p\<lparr>p_idontwant_sent := 0\<rparr> else p) (g_peers g)\<rparr>)"
proof -
  define f :: "gossipsub_peer_state_t \<Rightarrow> gossipsub_peer_state_t"
    where "f p = (if p_used p then p\<lparr>p_idontwant_sent := 0\<rparr> else p)" for p
  have f: "queue_ok q p (f x) ks = queue_ok q p x ks" "idle_peer (f x) = idle_peer x"
    "p_tx_ready (f x) = p_tx_ready x" "p_tx_head (f x) = p_tx_head x" "p_used (f x) = p_used x"
    "p_peer_id (f x) = p_peer_id x" for q p x ks
    by (simp_all add: f_def queue_ok_def idle_peer_def)
  let ?g = "g\<lparr>g_peers := map f (g_peers g)\<rparr>"
  have "peers.keys (map f (g_peers g)) = peers.keys (g_peers g)"
    by (rule peers.keys_map) (simp add: f)
  then have c: "core_ok cfg ?g" using assms core_ok_peers by (simp add: router_ok_def)
  have "filter p_tx_ready (map f ps) = map f (filter p_tx_ready ps)" for ps
    by (induction ps) (auto simp: f)
  then have "tx_inv (tx_chain g) None ?g"
    using tx_okD [OF router_okD(4) [OF assms]] f
    by (simp add: tx_inv_def lists_ok_def room_ok_def schedule_ok_def)
  then have "tx_ok ?g" by (rule tx_inv_chain(1))
  then have "router_ok cfg ?g"
    using c assms f by (simp add: router_ok_def queues_ok_def)
  then show ?thesis by (simp add: f_def [abs_def])
qed

lemma heartbeat_sound:
  assumes "router_ok cfg g"
  obtains g' where "gossipsub_heartbeat g now_us = Some g'" and "router_ok cfg g'"
proof -
  let ?g1 = "g\<lparr>g_peers := map (\<lambda>p. if p_used p then p\<lparr>p_idontwant_sent := 0\<rparr> else p) (g_peers g)\<rparr>"
  have "router_ok cfg (gossipsub_backoff_clear_expired ?g1 now_us)"
    by (rule backoff_clear_ok [OF reset_idontwant_ok [OF assms]])
  then obtain r3 g3 where h: "gossipsub_mesh_heartbeat (gossipsub_backoff_clear_expired ?g1 now_us) = Some (r3, g3)"
    and g3: "router_ok cfg g3"
    by (rule soundE [OF mesh_heartbeat_sound(1)])
  obtain r4 g4 where e: "gossipsub_emit_gossip g3 = Some (r4, g4)" and g4: "router_ok cfg g4"
    by (rule soundE [OF mesh_heartbeat_sound(2) [OF g3]])
  have "router_ok cfg (expire_caches now_us g4)" by (rule expire_caches_ok [OF g4])
  with h e that show thesis by (simp add: gossipsub_heartbeat_def Let_def)
qed

subsection \<open>Expiry and writing\<close>

lemma idle_chain: "idle_peer (g_peers g ! p) \<Longrightarrow> tx_chain g p = []"
  by (cases "length (g_tx_queue g)") (simp_all add: tx_chain_def idle_peer_def)

lemma drop_stale_router_ok:
  assumes ok: "router_ok cfg g"
  obtains n g' where "gossipsub_tx_drop_stale g now_us = Some (n, g')" and "router_ok cfg g'"
proof -
  obtain n g' where run: "gossipsub_tx_drop_stale g now_us = Some (n, g')"
    and t: "tx_ok g'" and k: "kept g g'"
    and e: "\<forall>p. tx_chain g p = [] \<longrightarrow> g_peers g' ! p = g_peers g ! p"
    by (rule drop_stale_ok [OF router_okD(4) [OF ok]])
  have "router_ok cfg g'"
  proof (rule router_ok_tx [OF ok t])
    fix p assume "p < length (g_peers g)" "\<not> p_used (g_peers g ! p)"
    then have "idle_peer (g_peers g ! p)" using ok by (simp add: router_ok_def queues_ok_def)
    with e idle_chain show "idle_peer (g_peers g' ! p)" by simp
  qed (use k in \<open>simp_all add: kept_def\<close>)
  with run that show thesis by blast
qed

lemma set_ready_ok:
  assumes ok: "router_ok cfg g"
  shows "router_ok cfg (gossipsub_tx_set_peer_ready p b g)"
proof (rule router_ok_only_peer [OF ok tx_ok_set_ready [OF router_okD(4) [OF ok]]])
  show "only_peer p g (gossipsub_tx_set_peer_ready p b g)" by (rule only_peer_set_ready) simp
  assume "\<not> p_used (g_peers g ! p)" and "idle_peer (g_peers g ! p)"
  then show "idle_peer (g_peers (gossipsub_tx_set_peer_ready p b g) ! p)"
    by (auto simp: gossipsub_tx_set_peer_ready_def Let_def idle_peer_def)
qed (simp_all add: set_peer_ready_frame)

lemma next_peer_ok:
  assumes ok: "router_ok cfg g" and "n < length (g_peers g)"
  shows "router_ok cfg (g\<lparr>g_tx_next_peer := n\<rparr>)"
proof (rule router_ok_only_peer [OF ok, where p = 0])
  have "tx_inv (tx_chain g) None (g\<lparr>g_tx_next_peer := n\<rparr>)"
    using tx_okD [OF router_okD(4) [OF ok]] assms(2)
    by (simp add: tx_inv_def lists_ok_def room_ok_def schedule_ok_def)
  then show "tx_ok (g\<lparr>g_tx_next_peer := n\<rparr>)" by (rule tx_inv_chain(1))
qed (simp_all add: only_peer_def)

lemma flush_peer_sound:
  assumes ok: "router_ok cfg g" and host: "stream_host host_write sent"
    and p: "p < length (g_peers g)" and r: "p_tx_ready (g_peers g ! p)"
  obtains x h' y n g' where "gossipsub_flush_peer host_write g h p now_us made_progress rpcs_sent =
      Some (x, h', y, n, g')" and "router_ok cfg g'"
proof -
  have u: "p_used (g_peers g ! p)"
    using ok p r by (auto simp: router_ok_def queues_ok_def idle_peer_def)
  show thesis
  proof (cases "p_stream (g_peers g ! p)")
    case None
    have "router_ok cfg (gossipsub_tx_set_peer_ready p False g)" by (rule set_ready_ok [OF ok])
    with None p that show thesis by (simp add: gossipsub_flush_peer_def)
  next
    case (Some st)
    obtain x h' y n g' where run: "gossipsub_flush_peer host_write g h p now_us made_progress rpcs_sent =
        Some (x, h', y, n, g')" and f: "flushed sent now_us p st g h g' h'"
      by (rule flush_peer_ok [OF router_okD(4) [OF ok] host p Some, of h now_us made_progress rpcs_sent])
    have "router_ok cfg g'"
      by (rule router_ok_only_peer [OF ok]) (use f u in \<open>auto simp: flushed_def\<close>)
    with run that show thesis by blast
  qed
qed

lemma flush_round_sound:
  assumes host: "stream_host host_write sent" and "router_ok cfg g"
  shows "\<exists>x h' y m g'. flush_round host_write now_us n g h made_progress rpcs_sent = Some (x, h', y, m, g') \<and>
    router_ok cfg g'"
  using assms(2)
proof (induction n arbitrary: g h made_progress rpcs_sent)
  case (Suc n)
  let ?p = "g_tx_next_peer g"
  let ?g1 = "g\<lparr>g_tx_next_peer := (?p + 1) mod length (g_peers g)\<rparr>"
  have p: "?p < length (g_peers g)"
    using tx_okD [OF router_okD(4) [OF Suc.prems]] by (simp add: tx_inv_def schedule_ok_def)
  have ok1: "router_ok cfg ?g1" by (rule next_peer_ok [OF Suc.prems], rule mod_less_divisor) (use p in auto)
  show ?case
  proof (cases "g_tx_ready_count g = 0 \<or> \<not> (p_tx_ready (g_peers g ! ?p) \<and> p_tx_queue_depth (g_peers g ! ?p) \<noteq> 0)")
    case True
    with Suc.IH [OF ok1] Suc.prems p show ?thesis by (auto simp: Let_def)
  next
    case False
    obtain x h' y m g' where run: "gossipsub_flush_peer host_write ?g1 h ?p now_us False rpcs_sent = Some (x, h', y, m, g')"
      and ok2: "router_ok cfg g'"
      by (rule flush_peer_sound [OF ok1 host, of ?p h now_us False rpcs_sent]) (use p False in auto)
    with False p Suc.IH [OF ok2] show ?thesis by (auto simp: Let_def)
  qed
qed simp

lemma drive_sound:
  assumes ok: "router_ok cfg g" and host: "stream_host host_write sent"
  obtains r h' beats n progress g' where
    "libp2p_gossipsub_drive host_write g h now_us = Some (r, h', beats, n, progress, g')" and "router_ok cfg g'"
proof -
  obtain k g1 where d: "gossipsub_tx_drop_stale g now_us = Some (k, g1)" and ok1: "router_ok cfg g1"
    by (rule drop_stale_router_ok [OF ok])
  let ?g2 = "g1\<lparr>g_last_drive_us := now_us\<rparr>"
  let ?beat = "g_started ?g2 \<and> now_us \<ge> g_next_heartbeat_us ?g2"
  have ok2: "router_ok cfg ?g2" using ok1 by simp
  obtain g' where h: "gossipsub_heartbeat ?g2 now_us = Some g'" and "router_ok cfg g'"
    by (rule heartbeat_sound [OF ok2])
  then obtain g3 where b: "(if ?beat then gossipsub_heartbeat ?g2 now_us else Some ?g2) = Some g3"
    and ok3: "router_ok cfg g3"
    using ok2 by (cases ?beat) auto
  obtain r h' y n g4 where "gossipsub_flush_ready_peers host_write g3 h now_us (?beat \<or> k \<noteq> 0) 0 =
      Some (r, h', y, n, g4)" and "router_ok cfg g4"
    using flush_round_sound [OF host ok3] unfolding gossipsub_flush_ready_peers_def by blast
  with d b that show thesis unfolding libp2p_gossipsub_drive_def by (simp add: Let_def)
qed

end
