(* ===== verification/Gossipsub_Reach.thy ===== *)
theory Gossipsub_Reach
  imports Gossipsub_Steps
begin

text \<open>
  Every call of the application and of the host preserves the invariant of the router; so it holds in
  every state that is reachable from initialisation.
\<close>

subsection \<open>Steps that keep the invariant\<close>

text \<open>A step that leaves a sound router when it has a result.\<close>

definition preserves :: "libp2p_gossipsub_config_t \<Rightarrow> ('r \<times> libp2p_gossipsub_t) option \<Rightarrow> bool" where
  "preserves cfg s \<longleftrightarrow> (\<forall>r g. s = Some (r, g) \<longrightarrow> router_ok cfg g)"

lemma keeps_Some [simp]: "preserves cfg (Some x) \<longleftrightarrow> router_ok cfg (snd x)"
  by (cases x) (simp add: preserves_def)

lemma sound_keeps: "sound cfg s \<Longrightarrow> preserves cfg s"
  by (auto simp: sound_def preserves_def)

lemma keeps_map_prod [simp]: "preserves cfg (map_option (map_prod f id) s) \<longleftrightarrow> preserves cfg s"
  by (cases s) (auto simp: preserves_def)

lemma keeps_local_limit [simp]: "preserves cfg (local_limit_ok s) \<longleftrightarrow> preserves cfg s"
  by (simp add: local_limit_ok_def)

lemma keeps_bind:
  assumes "preserves cfg s" and "\<And>r g. s = Some (r, g) \<Longrightarrow> router_ok cfg g \<Longrightarrow> preserves cfg (f (r, g))"
  shows "preserves cfg (Option.bind s f)"
  using assms by (auto simp: preserves_def bind_eq_Some_conv)

lemma keeps_value:
  assumes "\<And>x. s = Some x \<Longrightarrow> preserves cfg (f x)"
  shows "preserves cfg (Option.bind s f)"
  using assms by (cases s) (auto simp: preserves_def)

lemma keeps_then:
  assumes "preserves cfg s" and "\<And>g. router_ok cfg g \<Longrightarrow> preserves cfg (f g)"
  shows "preserves cfg (step_then s f)"
  using assms by (auto simp: step_then_def intro!: keeps_bind)

lemma keeps_each:
  assumes "\<And>x g. router_ok cfg g \<Longrightarrow> preserves cfg (f x g)" and "router_ok cfg g"
  shows "preserves cfg (each f xs g)"
  using assms by (induction xs arbitrary: g) (auto intro!: keeps_then)

subsection \<open>Receiving an RPC\<close>

lemma push_event [simp]:
  "router_ok cfg g \<Longrightarrow> router_ok cfg (snd (gossipsub_push_event_or_drop g event))"
  by (rule event_push_ok)

lemma process_subscription_sound:
  assumes "router_ok cfg g"
  shows "sound cfg (gossipsub_process_subscription p sub g)"
proof -
  obtain found g1 where f: "gossipsub_find_or_add_topic g (sub_topic sub) = (found, g1)" by fastforce
  have g1: "router_ok cfg g1" using find_or_add_topic_ok [OF assms, of "sub_topic sub"] f by simp
  show ?thesis
  proof (cases found)
    case None
    with assms f g1 show ?thesis by (simp add: gossipsub_process_subscription_def)
  next
    case (Some t)
    obtain edge g2 where e: "gossipsub_find_or_add_peer_topic g1 p t = (edge, g2)" by fastforce
    have g2: "router_ok cfg g2" using find_or_add_peer_topic_ok [OF g1, of p t] e by simp
    have "peer_topics.unique ((g_peer_topics g2)[i := (g_peer_topics g2 ! i)\<lparr>pt_subscribed := b\<rparr>])" for i b
      using g2 by (subst peer_topics.unique_replace) (simp_all add: router_ok_def core_ok_def names_ok_def)
    then have g3: "router_ok cfg (g2\<lparr>g_peer_topics := (g_peer_topics g2)[i := (g_peer_topics g2 ! i)\<lparr>pt_subscribed := b\<rparr>]\<rparr>)"
      for i b by (intro update_peer_topics_ok [OF g2]) simp_all
    show ?thesis
      using assms f e Some g2 g3
      by (auto simp: gossipsub_process_subscription_def Let_def mesh_remove_router_ok
          intro!: sound_then fill_sound split: option.split)
  qed
qed

lemma deliver_sound:
  assumes "router_ok cfg g"
  shows "sound cfg (deliver_entry p t m now_us g)"
  unfolding deliver_entry_def Let_def
proof (rule sound_then [OF idontwant_received_sound [OF assms]])
  fix g1 assume g1: "router_ok cfg g1"
  obtain v g2 where v: "gossipsub_alloc_validation g1 p m now_us = (v, g2)" by fastforce
  have "router_ok cfg g2" using alloc_validation_ok [OF g1, of p m now_us] v by simp
  with g1 v show "sound cfg (if t_validation_mode (g_topics g ! t) = LIBP2P_GOSSIPSUB_VALIDATION_REQUIRE_APP
      then (case gossipsub_alloc_validation g1 p m now_us of
         (None, g2) \<Rightarrow> Some (LIBP2P_GOSSIPSUB_OK, g2)
       | (Some v, g2) \<Rightarrow> Some (gossipsub_push_event_or_drop g2
           (message_event g1 p (g_mcache g ! m)\<lparr>ev_validation := Some v\<rparr>)))
      else step_then (Some (gossipsub_push_event_or_drop g1 (message_event g1 p (g_mcache g ! m))))
             (\<lambda>g2. gossipsub_forward_entry g2 p (g_mcache g ! m)))"
    by (auto intro!: sound_then forward_entry_sound split: option.split)
qed

lemma process_message_keeps:
  assumes "router_ok cfg g"
  shows "preserves cfg (gossipsub_process_message p message now_us g)"
proof -
  have store: "preserves cfg (Option.bind (gossipsub_mcache_store g1 i topic data)
      (\<lambda>((result, slot), g2). if result = LIBP2P_GOSSIPSUB_OK
        then deliver_entry p t (the slot) now_us g2 else Some (result, g2)))"
    if g1: "router_ok cfg g1" for g1 i topic data t
  proof -
    obtain r slot g2 where "gossipsub_mcache_store g1 i topic data = Some ((r, slot), g2)" and "router_ok cfg g2"
      by (rule mcache_store_ok [OF g1])
    then show ?thesis by (auto intro: sound_keeps deliver_sound)
  qed
  show ?thesis
    using assms
    by (auto simp: gossipsub_process_message_def Let_def seen_add_ok
        intro!: keeps_value keeps_then store split: prod.split)
qed

text \<open>Removing from the queues.\<close>

lemma drop_queued_publish_router_ok:
  assumes ok: "router_ok cfg g"
  obtains g' where "gossipsub_drop_queued_publish g p message_id = Some g'" and "router_ok cfg g'"
proof (cases "p < length (g_peers g) \<and> \<not> p_used (g_peers g ! p)")
  case True
  then have "p_tx_head (g_peers g ! p) = None"
    using ok by (simp add: router_ok_def queues_ok_def idle_peer_def)
  then have "gossipsub_drop_queued_publish g p message_id = Some g"
    by (simp add: gossipsub_drop_queued_publish_def unwanted_walk.simps)
  with ok that show thesis by blast
next
  case False
  obtain g' where run: "gossipsub_drop_queued_publish g p message_id = Some g'"
    and t: "tx_ok g'" and k: "kept g g'" and o: "only_peer p g g'"
    by (rule drop_queued_publish_ok [OF router_okD(4) [OF ok]])
  have "router_ok cfg g'"
  proof (cases "p < length (g_peers g)")
    case True
    with False k show ?thesis
      by (intro router_ok_only_peer [OF ok t _ _ _ o]) (simp_all add: kept_def)
  next
    case False
    then have "g' = g" using run by (simp add: gossipsub_drop_queued_publish_def)
    then show ?thesis using ok by simp
  qed
  with run that show thesis by blast
qed

lemma idle_of_chain:
  assumes "tx_ok g" and "p < length (g_peers g)" and "tx_chain g p = []" and "\<not> p_tx_ready (g_peers g ! p)"
  shows "idle_peer (g_peers g ! p)"
  using inv_queue [OF tx_okD [OF assms(1)] assms(2)] assms(3,4)
  by (simp add: queue_ok_def idle_peer_def end_of_def)

lemma drop_queued_peer_router_ok:
  assumes ok: "router_ok cfg g"
  obtains g' where "gossipsub_drop_queued_peer g p = Some g'" and "router_ok cfg g'"
proof -
  obtain g' where run: "gossipsub_drop_queued_peer g p = Some g'"
    and t: "tx_ok g'" and c: "tx_core g' = tx_core g" and o: "only_peer p g g'"
    and l: "length (g_tx_queue g') = length (g_tx_queue g)" and b: "g_tx_buffer g' = g_tx_buffer g"
    and e: "p < length (g_peers g) \<longrightarrow> tx_chain g' p = [] \<and> \<not> p_tx_ready (g_peers g' ! p)"
    by (rule drop_queued_peer_ok [OF router_okD(4) [OF ok]])
  have "router_ok cfg g'"
  proof (cases "p < length (g_peers g)")
    case True
    have "idle_peer (g_peers g' ! p)"
      by (rule idle_of_chain [OF t]) (use True e o in \<open>simp_all add: only_peer_def\<close>)
    then show ?thesis by (intro router_ok_only_peer [OF ok t c l _ o]) (simp_all add: b)
  next
    case False
    then have "g' = g" using run by (simp add: gossipsub_drop_queued_peer_def)
    then show ?thesis using ok by simp
  qed
  with run that show thesis by blast
qed

text \<open>Control messages.\<close>

lemma process_idontwant_keeps:
  assumes "router_ok cfg g"
  shows "preserves cfg (gossipsub_process_idontwant p now_us d g)"
proof -
  have "preserves cfg (process_idontwant_id p d now_us i g)" if g: "router_ok cfg g" for i g
  proof -
    obtain g' where "gossipsub_drop_queued_publish (gossipsub_peer_idontwant_add g p i now_us) p i = Some g'"
      and "router_ok cfg g'"
      by (rule drop_queued_publish_router_ok [OF idontwant_add_ok [OF g]])
    then show ?thesis by (simp add: process_idontwant_id_def)
  qed
  with assms show ?thesis
    by (auto simp: gossipsub_process_idontwant_def intro!: keeps_value keeps_each)
qed

lemma refuse_graft_sound:
  assumes "router_ok cfg g"
  shows "sound cfg (refuse_graft p t now_us g)"
  unfolding refuse_graft_def
  by (rule sound_then) (auto simp: assms backoff_add_ok enqueue_messages_sound)

lemma process_graft_sound:
  assumes "router_ok cfg g"
  shows "sound cfg (process_graft p now_us graft g)"
proof -
  obtain found g1 where f: "gossipsub_find_or_add_topic g (graft_topic graft) = (found, g1)" by fastforce
  have "router_ok cfg g1" using find_or_add_topic_ok [OF assms, of "graft_topic graft"] f by simp
  with f show ?thesis
    by (auto simp: process_graft_def refuse_graft_sound mesh_add_ok split: option.split)
qed

lemma process_control_keeps:
  assumes "router_ok cfg g"
  shows "preserves cfg (process_prune p now_us prune g)"
    and "preserves cfg (process_iwant p iwant g)" and "preserves cfg (process_ihave p now_us ihave g)"
  using assms
  by (auto simp: process_prune_def process_iwant_def process_iwant_id_def process_ihave_def process_ihave_id_def
      backoff_add_ok mesh_remove_router_ok
      intro!: keeps_value keeps_each enqueue_messages_sound [THEN sound_keeps]
        enqueue_publish_entry_sound [THEN sound_keeps]
      split: option.split)

lemma process_rpc_keeps:
  assumes "router_ok cfg g"
  shows "preserves cfg (gossipsub_process_rpc p rpc now_us g)"
  using assms
  by (auto simp: gossipsub_process_rpc_def Let_def process_publish_def
      intro!: keeps_then keeps_each process_message_keeps process_idontwant_keeps process_control_keeps
        sound_keeps [OF process_subscription_sound] sound_keeps [OF process_graft_sound])

subsection \<open>Receive buffers\<close>

lemma upd_stream_ok [simp]: "router_ok cfg (upd_stream s f g) = router_ok cfg g"
  by (simp add: upd_stream_def)

lemma rx_store_ok: "rx_store g rx pos bytes = Some g' \<Longrightarrow> router_ok cfg g' = router_ok cfg g"
  by (auto simp: rx_store_def split: option.splits rx_pointer.splits)

lemma rx_move_ok: "gossipsub_stream_rx_move_large s g c = Some (g', c') \<Longrightarrow> router_ok cfg g' = router_ok cfg g"
  by (auto simp: gossipsub_stream_rx_move_large_def Let_def split: option.splits if_splits bind_splits)

lemma rx_compact_loop_ok:
  "rx_compact_loop tail n g c search = Some (g', c') \<Longrightarrow> router_ok cfg g' = router_ok cfg g"
proof (induction n arbitrary: g c search)
  case (Suc n)
  then show ?case
    by (auto simp: Let_def dest!: rx_move_ok [where cfg = cfg] split: option.splits prod.splits bind_splits)
qed simp

lemma rx_compact_ok: "rx_compact_all g = Some g' \<Longrightarrow> router_ok cfg g' = router_ok cfg g"
  by (auto simp: rx_compact_all_def gossipsub_stream_rx_compact_def
      dest!: rx_compact_loop_ok [where cfg = cfg] rx_move_ok [where cfg = cfg] split: if_splits bind_splits)

lemma rx_reset_ok: "gossipsub_stream_rx_reset s g = Some g' \<Longrightarrow> router_ok cfg g' = router_ok cfg g"
  by (auto simp: gossipsub_stream_rx_reset_def dest!: rx_compact_ok [where cfg = cfg])

lemma rx_new_segment_ok: "rx_new_segment s n g = Some g' \<Longrightarrow> router_ok cfg g' = router_ok cfg g"
  by (auto simp: rx_new_segment_def Let_def dest!: rx_store_ok [where cfg = cfg] split: if_splits bind_splits)

lemma rx_reserve_ok: "gossipsub_stream_rx_reserve s n g = Some (r, g') \<Longrightarrow> router_ok cfg g' = router_ok cfg g"
  by (auto simp: gossipsub_stream_rx_reserve_def rx_grow_large_def Let_def
      dest!: rx_compact_ok [where cfg = cfg] rx_new_segment_ok [where cfg = cfg] split: if_splits bind_splits)

lemma rx_shrink_ok: "gossipsub_stream_rx_shrink s g = Some g' \<Longrightarrow> router_ok cfg g' = router_ok cfg g"
  by (auto simp: gossipsub_stream_rx_shrink_def Let_def
      dest!: rx_compact_ok [where cfg = cfg] rx_store_ok [where cfg = cfg] split: if_splits bind_splits)

lemma consume_frame_ok: "consume_frame s pos g = Some g' \<Longrightarrow> router_ok cfg g' = router_ok cfg g"
  by (auto simp: consume_frame_def Let_def dest!: rx_store_ok [where cfg = cfg] split: if_splits bind_splits)

text \<open>The loops that decode and read, as invariants of their states.\<close>

lemma decode_step_ok:
  assumes "router_ok cfg g" and "decode_step s now_us g = Some (b, r, g')"
  shows "router_ok cfg g'"
proof -
  have p: "router_ok cfg g1" if "gossipsub_process_rpc p rpc now_us g = Some (r1, g1)" for p rpc r1 g1
    using process_rpc_keeps [OF assms(1), of p rpc now_us] that by (simp add: preserves_def)
  show ?thesis
    using assms
    by (auto simp: decode_step_def Let_def dest!: p consume_frame_ok [where cfg = cfg]
        split: if_splits bind_splits sum.splits prod.splits)
qed

lemma decode_loop_ok:
  assumes "decode_loop s now_us st = Some y"
  shows "router_ok cfg (snd (snd st)) \<longrightarrow> router_ok cfg (snd y)"
  using assms
proof (rule decode_loop.raw_induct [rotated, where P = "\<lambda>s now_us st y. router_ok cfg (snd (snd st)) \<longrightarrow> router_ok cfg (snd y)"])
  fix loop s now_us st y
  assume IH: "\<And>s now_us st y. loop s now_us st = Some y \<Longrightarrow>
      router_ok cfg (snd (snd st)) \<longrightarrow> router_ok cfg (snd y)"
    and run: "(if fst (snd st) = LIBP2P_GOSSIPSUB_OK \<and> ss_rx_len (g_streams (snd (snd st)) ! s) \<noteq> 0 \<and> fst st
      then Option.bind (decode_step s now_us (snd (snd st))) (loop s now_us) else Some (snd st)) = Some y"
  show "router_ok cfg (snd (snd st)) \<longrightarrow> router_ok cfg (snd y)"
  proof
    assume ok: "router_ok cfg (snd (snd st))"
    show "router_ok cfg (snd y)"
      using run ok by (auto split: if_splits bind_splits dest!: IH decode_step_ok [OF ok])
  qed
qed

lemma decode_available_keeps:
  assumes "router_ok cfg g"
  shows "preserves cfg (gossipsub_stream_decode_available s now_us g)"
  unfolding gossipsub_stream_decode_available_def
proof (rule keeps_then)
  show "preserves cfg (decode_loop s now_us (True, LIBP2P_GOSSIPSUB_OK, g))"
    using decode_loop_ok [of s now_us "(True, LIBP2P_GOSSIPSUB_OK, g)" _ cfg] assms by (auto simp: preserves_def)
  show "preserves cfg (map_option (Pair LIBP2P_GOSSIPSUB_OK) (gossipsub_stream_rx_shrink s g))"
    if "router_ok cfg g" for g
    using that by (auto simp: preserves_def dest: rx_shrink_ok)
qed

lemma read_finish_ok:
  assumes "read_finish s now_us st = Some st'" and "router_ok cfg (rd_router st)"
  shows "router_ok cfg (rd_router st')"
proof -
  let ?g = "upd_stream s (\<lambda>x. x\<lparr>ss_rx_len := ss_rx_len x + rd_read_len st\<rparr>) (rd_router st)"
  have "preserves cfg (gossipsub_stream_decode_available s now_us ?g)"
    by (rule decode_available_keeps) (simp add: assms(2))
  with assms show ?thesis
    by (auto simp: read_finish_def Let_def preserves_def split: if_splits bind_splits)
qed

lemma read_step_ok:
  assumes run: "read_step host_read s now_us st = Some st'" and ok: "router_ok cfg (rd_router st)"
  shows "router_ok cfg (rd_router st')"
proof -
  obtain r c g where res: "read_reserve s (rd_router st) = Some (r, c, g)"
    using run by (auto simp: read_step_def split: bind_splits)
  then have g: "router_ok cfg g"
    using ok by (auto simp: read_reserve_def Let_def split: if_splits bind_splits dest: rx_reserve_ok)
  show ?thesis
  proof (cases "r = LIBP2P_GOSSIPSUB_OK")
    case False
    with run res g show ?thesis
      by (auto simp: read_step_def split: if_splits dest: read_finish_ok)
  next
    case True
    let ?m = "if c > GOSSIPSUB_STREAM_RX_READ_CHUNK then GOSSIPSUB_STREAM_RX_READ_CHUNK else c"
    obtain hr bytes fin h where hr: "host_read (rd_host st) (ss_stream (g_streams g ! s)) ?m = ((hr, bytes, fin), h)"
      by (metis prod.exhaust)
    obtain g1 where st: "rx_store g (ss_rx (g_streams g ! s)) (ss_rx_len (g_streams g ! s)) bytes = Some g1"
      using run True res hr by (auto simp: read_step_def split: bind_splits)
    have "router_ok cfg g1" using rx_store_ok [OF st] g by simp
    with run True res hr st show ?thesis
      by (auto simp: read_step_def Let_def split: if_splits dest!: read_finish_ok [where cfg = cfg])
  qed
qed

lemma read_loop_ok:
  assumes "read_loop host_read s now_us st = Some st'"
  shows "router_ok cfg (rd_router st) \<longrightarrow> router_ok cfg (rd_router st')"
  using assms
proof (rule read_loop.raw_induct [rotated, where
      P = "\<lambda>host_read s now_us st st'. router_ok cfg (rd_router st) \<longrightarrow> router_ok cfg (rd_router st')"])
  fix loop host_read s now_us st st'
  assume IH: "\<And>host_read s now_us st st'. loop host_read s now_us st = Some st' \<Longrightarrow>
      router_ok cfg (rd_router st) \<longrightarrow> router_ok cfg (rd_router st')"
    and run: "(if rd_result st = LIBP2P_GOSSIPSUB_OK \<and> rd_keep_reading st
      then Option.bind (read_step host_read s now_us st) (loop host_read s now_us) else Some st) = Some st'"
  show "router_ok cfg (rd_router st) \<longrightarrow> router_ok cfg (rd_router st')"
    using run IH by (auto split: if_splits bind_splits dest: read_step_ok)
qed

lemma stream_read_ok:
  assumes "gossipsub_stream_read host_read s now_us g h = Some (r, h', g')" and "router_ok cfg g"
  shows "router_ok cfg g'"
  using assms read_loop_ok by (fastforce simp: gossipsub_stream_read_def)

subsection \<open>The calls of the application\<close>

lemma announce_topic_sound:
  assumes "router_ok cfg g"
  shows "sound cfg (announce_topic t b p g)"
  using assms by (simp add: announce_topic_def enqueue_messages_sound)

lemma subscribe_sound:
  assumes "router_ok cfg g"
  shows "sound cfg (libp2p_gossipsub_subscribe g topic)"
proof -
  obtain found g1 where f: "gossipsub_find_or_add_topic g (tc_topic topic) = (found, g1)" by fastforce
  have "router_ok cfg g1" using find_or_add_topic_ok [OF assms, of "tc_topic topic"] f by simp
  with assms f show ?thesis
    by (auto simp: libp2p_gossipsub_subscribe_def Let_def
        intro!: sound_then sound_each announce_topic_sound fill_sound update_topic_ok split: option.split)
qed

lemma unsubscribe_sound:
  assumes "router_ok cfg g"
  shows "sound cfg (libp2p_gossipsub_unsubscribe g topic)"
  using assms
  by (auto simp: libp2p_gossipsub_unsubscribe_def Let_def
      intro!: sound_then sound_each announce_topic_sound trim_sound update_topic_ok mesh_remove_topic_ok
      split: option.split)

lemma sound_release:
  "sound cfg s \<Longrightarrow> sound cfg (map_option (map_prod id (gossipsub_release_validation w)) s)"
  using release_validation_ok by (auto simp: sound_def)

lemma report_validation_sound:
  assumes "router_ok cfg g"
  shows "sound cfg (libp2p_gossipsub_report_validation g v result)"
  using assms unfolding libp2p_gossipsub_report_validation_def Let_def
  by (cases v) (auto intro!: sound_release forward_entry_sound release_validation_ok)

lemma publish_to_peer_sound:
  assumes "router_ok cfg g"
  shows "sound cfg (publish_to_peer t entry p g)"
  using assms
  by (auto simp: publish_to_peer_def Let_def
      intro!: sound_bind enqueue_idontwant_for_entry_sound enqueue_publish_entry_sound)

lemma publish_keeps:
  assumes "router_ok cfg g"
  shows "preserves cfg (libp2p_gossipsub_publish g publish out_len)"
proof -
  obtain found g1 where f: "gossipsub_find_or_add_topic g (pb_topic publish) = (found, g1)" by fastforce
  have g1: "router_ok cfg g1" using find_or_add_topic_ok [OF assms, of "pb_topic publish"] f by simp
  have "preserves cfg (do {
      ((result, slot), g2) \<leftarrow> gossipsub_mcache_store g1 i topic data;
      if result \<noteq> LIBP2P_GOSSIPSUB_OK then Some (result, g2)
      else each (publish_to_peer t (g_mcache g2 ! the slot)) [0..<length (g_peers g2)]
             (gossipsub_seen_add g2 i (g_next_heartbeat_us g2))})" for i topic data t
  proof -
    obtain r slot g2 where "gossipsub_mcache_store g1 i topic data = Some ((r, slot), g2)" and "router_ok cfg g2"
      by (rule mcache_store_ok [OF g1])
    then show ?thesis by (auto intro!: keeps_each publish_to_peer_sound [THEN sound_keeps] seen_add_ok)
  qed
  then have "preserves cfg (case gossipsub_find_or_add_topic g (pb_topic publish) of
      (None, g1) \<Rightarrow> Some (LIBP2P_GOSSIPSUB_ERR_LIMIT, g1)
    | (Some topic_index, g1) \<Rightarrow> do {
        ((result, slot), g2) \<leftarrow> gossipsub_mcache_store g1 i (pb_topic publish) (pb_data publish);
        if result \<noteq> LIBP2P_GOSSIPSUB_OK then Some (result, g2)
        else each (publish_to_peer topic_index (g_mcache g2 ! the slot)) [0..<length (g_peers g2)]
               (gossipsub_seen_add g2 i (g_next_heartbeat_us g2))})" for i
    using f g1 by (auto split: option.split)
  then show ?thesis
    using assms unfolding libp2p_gossipsub_publish_def Let_def
    by (auto intro!: keeps_value [where s = "publish_message_id g publish"] keeps_bind)
qed

lemma set_peer_explicit_ok:
  assumes "router_ok cfg g"
  shows "router_ok cfg (snd (libp2p_gossipsub_set_peer_explicit g peer_id b))"
  using assms upd_peer_fields_ok(3) [OF assms]
  by (auto simp: libp2p_gossipsub_set_peer_explicit_def split: option.split)

lemma start_ok: "router_ok cfg g \<Longrightarrow> router_ok cfg (libp2p_gossipsub_start g now_us)"
proof -
  assume ok: "router_ok cfg g"
  let ?g = "libp2p_gossipsub_start g now_us"
  have "queues_ok cfg ?g = queues_ok cfg g"
    by (rule queues_ok_cong) (simp_all add: libp2p_gossipsub_start_def)
  moreover have "mesh_ok ?g = mesh_ok g"
    by (simp add: libp2p_gossipsub_start_def mesh_ok_def mesh_pairs_def)
  ultimately show ?thesis using ok by (simp add: core_defs) (simp add: libp2p_gossipsub_start_def)
qed

subsection \<open>The calls of the host\<close>

lemma alloc_stream_keeps:
  assumes "router_ok cfg g"
  shows "preserves cfg (gossipsub_alloc_stream g)"
  using assms by (auto simp: gossipsub_alloc_stream_def preserves_def dest!: rx_reset_ok [where cfg = cfg] split: option.splits)

lemma free_stream_ok: "free_stream s g = Some g' \<Longrightarrow> router_ok cfg g' = router_ok cfg g"
  by (auto simp: free_stream_def dest!: rx_reset_ok [where cfg = cfg])

lemma attach_stream_ok:
  assumes "router_ok cfg g"
  shows "router_ok cfg (snd (attach_stream stream conn direction version p s g))"
proof -
  have "router_ok cfg (upd_peer p (\<lambda>p. p\<lparr>p_stream := Some stream, p_direction := direction,
      p_version := version, p_tx_transport_busy := False\<rparr>) (upd_stream s f g))" for f
    by (rule router_ok_upd_peer) (simp_all add: keeps_peer_def keeps_queue_def assms)
  with assms show ?thesis by (auto simp: attach_stream_def Let_def)
qed

lemma drop_peer_sound:
  assumes ok: "router_ok cfg g" and f: "keeps_peer f"
  obtains g' where "drop_peer p event f g = Some g'" and "router_ok cfg g'"
proof -
  obtain g1 where d: "gossipsub_drop_queued_peer (snd (gossipsub_push_event_or_drop g event)) p = Some g1"
    and g1: "router_ok cfg g1"
    by (rule drop_queued_peer_router_ok [OF push_event [OF ok]])
  have "router_ok cfg (upd_peer p f (gossipsub_mesh_remove_peer g1 p))"
    by (rule router_ok_upd_peer [OF f mesh_remove_peer_ok [OF g1]])
  with d that show thesis by (simp add: drop_peer_def)
qed

lemma close_conn_peers_ok:
  assumes "router_ok cfg g"
  obtains g' where "close_conn_peers conn ps g = Some g'" and "router_ok cfg g'"
proof -
  have "\<exists>g'. close_conn_peers conn ps g = Some g' \<and> router_ok cfg g'"
    using assms
  proof (induction ps arbitrary: g)
    case (Cons p ps)
    let ?f = "\<lambda>x. x\<lparr>p_closed := True, p_stream := None, p_conn := None, p_tx_transport_busy := False\<rparr>"
    have "keeps_peer ?f" by (simp add: keeps_peer_def keeps_queue_def)
    then obtain g1 where "drop_peer p (closed_event g p) ?f g = Some g1" and "router_ok cfg g1"
      by (rule drop_peer_sound [OF Cons.prems])
    with Cons.IH Cons.prems show ?case by auto
  qed simp
  with that show thesis by blast
qed

lemma close_conn_streams_ok:
  "close_conn_streams conn ss g = Some g' \<Longrightarrow> router_ok cfg g' = router_ok cfg g"
  by (induction ss arbitrary: g) (auto dest!: free_stream_ok [where cfg = cfg] split: if_splits bind_splits)

lemma host_event_keeps:
  assumes "router_ok cfg g"
  shows "preserves cfg (libp2p_gossipsub_handle_host_event g event)"
proof (cases event)
  case (Host_event_conn_closed conn)
  obtain g1 where "close_conn_peers conn [0..<length (g_peers g)] g = Some g1" and "router_ok cfg g1"
    by (rule close_conn_peers_ok [OF assms])
  then show ?thesis
    using Host_event_conn_closed
    by (auto simp: libp2p_gossipsub_handle_host_event_def preserves_def dest!: close_conn_streams_ok [where cfg = cfg])
qed (use assms in \<open>auto simp: libp2p_gossipsub_handle_host_event_def\<close>)

lemma announce_local_topic_sound:
  assumes "router_ok cfg g"
  shows "sound cfg (announce_local_topic p t g)"
  using assms by (simp add: announce_local_topic_def enqueue_messages_sound)

lemma protocol_open_ok:
  assumes ok: "router_ok cfg g" and run: "protocol_open ops g h stream direction version = Some (r, h', g')"
  shows "router_ok cfg g'"
proof -
  obtain e conn where c: "host_stream_conn ops h stream = (e, conn)" by fastforce
  obtain res peer g1 where p: "gossipsub_peer_from_conn g conn (host_conn_peer_id ops h conn) = ((res, peer), g1)"
    by (metis prod.exhaust)
  have g1: "router_ok cfg g1"
    using peer_from_conn_ok [OF ok, of conn "host_conn_peer_id ops h conn"] p by simp
  show ?thesis
  proof (cases "gossipsub_host_to_err e = LIBP2P_GOSSIPSUB_OK \<and> res = LIBP2P_GOSSIPSUB_OK")
    case False
    with run c p ok g1 show ?thesis by (auto simp: protocol_open_def split: if_splits)
  next
    case True
    obtain slot g2 where a: "gossipsub_alloc_stream g1 = Some (slot, g2)"
      using run True c p by (auto simp: protocol_open_def split: bind_splits)
    have g2: "router_ok cfg g2" using alloc_stream_keeps [OF g1] a by (simp add: preserves_def)
    obtain w g3 where t: "attach_stream stream conn direction version (the peer) (the slot) g2 = (w, g3)" by fastforce
    have g3: "router_ok cfg g3"
      using attach_stream_ok [OF g2, of stream conn direction version "the peer" "the slot"] t by simp
    let ?event = "opened_event g3 (the peer) stream direction version"
    have "sound cfg (step_then (Some (gossipsub_push_event_or_drop g3 ?event))
        (\<lambda>g4. if w then each (announce_local_topic (the peer)) [0..<length (g_topics g4)] g4
               else Some (LIBP2P_GOSSIPSUB_OK, g4)))"
      using g3 by (auto intro!: sound_then sound_each announce_local_topic_sound)
    then have s: "router_ok cfg g4" if "step_then (Some (gossipsub_push_event_or_drop g3 ?event))
        (\<lambda>g4. if w then each (announce_local_topic (the peer)) [0..<length (g_topics g4)] g4
               else Some (LIBP2P_GOSSIPSUB_OK, g4)) = Some (r4, g4)" for r4 g4
      using that by simp
    show ?thesis
      using run True c p a t g2 g3
      by (auto simp: protocol_open_def Let_def dest!: s split: if_splits prod.splits)
  qed
qed

lemma stream_writable_ok:
  assumes "router_ok cfg g"
  shows "router_ok cfg (stream_writable s g)"
proof -
  have "router_ok cfg (upd_peer p (\<lambda>p. p\<lparr>p_tx_last_writable_us := t, p_tx_transport_busy := False\<rparr>) g)" for p t
    by (rule router_ok_upd_peer) (simp_all add: keeps_peer_def keeps_queue_def assms)
  with assms show ?thesis
    by (simp add: stream_writable_def Let_def gossipsub_tx_mark_peer_ready_def set_ready_ok)
qed

lemma stream_closed_ok:
  assumes ok: "router_ok cfg g" and run: "stream_closed ops stream b s g h = Some (h', g')"
  shows "router_ok cfg g'"
proof -
  let ?f = "\<lambda>x. x\<lparr>p_stream := None, p_tx_transport_busy := False\<rparr>"
  have f: "keeps_peer ?f" by (simp add: keeps_peer_def keeps_queue_def)
  have d: "router_ok cfg g1" if "drop_peer p e ?f g = Some g1" for p e g1
    by (rule drop_peer_sound [OF ok f, of p e]) (use that in simp)
  show ?thesis
    using run ok
    by (auto simp: stream_closed_def Let_def dest!: d free_stream_ok [where cfg = cfg] split: if_splits bind_splits)
qed

lemma protocol_event_ok:
  assumes ok: "router_ok cfg g" and run: "protocol_event ops g h stream kind = Some (r, h', g')"
  shows "router_ok cfg g'"
proof -
  obtain e s where u: "host_user_data ops h stream = (e, s)" by fastforce
  show ?thesis
    using run ok u
    by (cases kind)
      (auto simp: protocol_event_def dest!: stream_read_ok [OF _ ok] stream_closed_ok [OF ok]
        intro: stream_writable_ok split: if_splits option.splits)
qed

subsection \<open>Reachable states\<close>

text \<open>
  The states of a router that \<open>libp2p_gossipsub_init\<close> has set up: the calls of the application and
  the callbacks of the host, in any order, with the state of the host, which also changes by itself.
\<close>

inductive router_step ::
  "'h host_ops \<Rightarrow> 'h host_write \<Rightarrow> libp2p_gossipsub_t \<times> 'h \<Rightarrow> libp2p_gossipsub_t \<times> 'h \<Rightarrow> bool"
  for ops :: "'h host_ops" and host_write :: "'h host_write"
where
  Start: "router_step ops host_write (g, h) (libp2p_gossipsub_start g now_us, h)"
| Drive: "libp2p_gossipsub_drive host_write g h now_us = Some (r, h', beats, rpcs_sent, progress, g') \<Longrightarrow>
    router_step ops host_write (g, h) (g', h')"
| Subscribe: "libp2p_gossipsub_subscribe g topic = Some (r, g') \<Longrightarrow>
    router_step ops host_write (g, h) (g', h)"
| Unsubscribe: "libp2p_gossipsub_unsubscribe g name = Some (r, g') \<Longrightarrow>
    router_step ops host_write (g, h) (g', h)"
| Publish: "libp2p_gossipsub_publish g publish out_len = Some (r, g') \<Longrightarrow>
    router_step ops host_write (g, h) (g', h)"
| Report_validation: "libp2p_gossipsub_report_validation g validation value = Some (r, g') \<Longrightarrow>
    router_step ops host_write (g, h) (g', h)"
| Next_event: "libp2p_gossipsub_next_event g = (r, g') \<Longrightarrow> router_step ops host_write (g, h) (g', h)"
| Set_explicit: "libp2p_gossipsub_set_peer_explicit g peer_id is_explicit = (r, g') \<Longrightarrow>
    router_step ops host_write (g, h) (g', h)"
| Close: "libp2p_gossipsub_close ops g h app_error_code = (r, h', g') \<Longrightarrow>
    router_step ops host_write (g, h) (g', h')"
| Host_event: "libp2p_gossipsub_handle_host_event g event = Some (r, g') \<Longrightarrow>
    router_step ops host_write (g, h) (g', h)"
| On_open: "gossipsub_protocol_on_open ops g h stream direction version = Some (r, h', g') \<Longrightarrow>
    router_step ops host_write (g, h) (g', h')"
| On_event: "gossipsub_protocol_on_event ops g h stream kind = Some (r, h', g') \<Longrightarrow>
    router_step ops host_write (g, h) (g', h')"
| Host: "router_step ops host_write (g, h) (g, h')"

lemma router_step_ok:
  assumes "router_step ops host_write (g, h) (g', h')" and host: "stream_host host_write sent"
    and ok: "router_ok cfg g"
  shows "router_ok cfg g'"
  using assms(1)
proof cases
  case (Drive now_us r beats n progress)
  with drive_sound [OF ok host, of h now_us] show ?thesis by (metis option.inject prod.inject)
next
  case (Next_event r)
  with next_event_ok [OF ok] show ?thesis by simp
next
  case (Set_explicit peer_id b r)
  with set_peer_explicit_ok [OF ok, of peer_id b] show ?thesis by simp
next
  case (Close c r)
  with ok show ?thesis by (auto simp: libp2p_gossipsub_close_def split: prod.splits)
next
  case (On_open stream direction version r)
  with protocol_open_ok [OF ok] ok show ?thesis
    by (cases stream) (auto simp: gossipsub_protocol_on_open_def)
next
  case (On_event stream kind r)
  with protocol_event_ok [OF ok] ok show ?thesis
    by (cases stream) (auto simp: gossipsub_protocol_on_event_def)
qed (use ok start_ok [OF ok] sound_keeps [OF subscribe_sound [OF ok]] sound_keeps [OF unsubscribe_sound [OF ok]]
  publish_keeps [OF ok] sound_keeps [OF report_validation_sound [OF ok]] host_event_keeps [OF ok]
  in \<open>auto simp: preserves_def\<close>)

lemma block_end: "blocks_within c bs n \<Longrightarrow> (offset, bytes) \<in> set bs \<Longrightarrow> offset + bytes \<le> n"
proof (induction c bs n rule: blocks_within.induct)
  case (2 c offset' bytes' bs n)
  have "c \<le> n" if "blocks_within c bs n" for c
    using that by (induction c bs n rule: blocks_within.induct) auto
  with 2 show ?case by auto
qed simp

lemma init_router_ok:
  assumes "libp2p_gossipsub_init s storage_given storage_len (Some cfg) out_given = Inr g"
    and "max_rpc_bytes (cfg_limits cfg) < 2 ^ 63"
  shows "router_ok cfg g"
  using assms(1)
proof (cases rule: init_Inr)
  case (1 cfg' L)
  have "blocks_within 0 (layout_blocks s (cfg_capacity cfg) L) (layout_total L)" and "layout_total L \<le> SIZE_MAX"
    using layout_blocks_within 1 by blast+
  moreover have "(tx_buffer_offset L, tx_buffer_bytes (cfg_capacity cfg)) \<in>
      set (layout_blocks s (cfg_capacity cfg) L)"
    by (simp add: layout_blocks_def)
  ultimately have "tx_buffer_bytes (cfg_capacity cfg) \<le> SIZE_MAX"
    by (metis block_end add_leD2 order.trans)
  moreover have "0 < max_peers (cfg_capacity cfg)" "0 < mcache_slots (cfg_capacity cfg)"
    "0 < event_capacity (cfg_capacity cfg)"
    using 1(1,2) by (auto simp: gossipsub_config_validate_init_def gossipsub_config_validate_storage_def Let_def
        split: if_splits)
  ultimately show ?thesis using 1 assms(2) initial_router_ok by blast
qed

lemma reachable_ok:
  assumes "libp2p_gossipsub_init s storage_given storage_len (Some cfg) out_given = Inr g0"
    and "max_rpc_bytes (cfg_limits cfg) < 2 ^ 63" and host: "stream_host host_write sent"
    and "(router_step ops host_write)\<^sup>*\<^sup>* (g0, h0) (g, h)"
  shows "router_ok cfg g"
  using assms(4)
proof (induction "(g, h)" arbitrary: g h rule: rtranclp_induct)
  case base
  with init_router_ok [OF assms(1,2)] show ?case by simp
next
  case (step y)
  then show ?case using router_step_ok [OF _ host] by (cases y) auto
qed

text \<open>Claim C2. From a successful \<open>libp2p_gossipsub_init\<close> on, whatever the application calls and the
  host and the peers do, in any order, the router keeps its invariant: its tables keep their
  capacities, no two topics in use have the same name and no two peers the same id, the counters of
  topics and peers count them, every mesh edge joins a peer and a topic within the tables, none is
  stored twice and the mesh counter is their number, the event queue stays within its ring, every
  cached message lies in the part of the cache that is in use, the transmit queue is a sound set of
  finite queues over its pool and buffer, and a peer that is not in use has no queue.\<close>

theorem reachable_router_ok:
  assumes "libp2p_gossipsub_init s storage_given storage_len (Some cfg) out_given = Inr g0"
    and "max_rpc_bytes (cfg_limits cfg) < 2 ^ 63" and "stream_host host_write sent"
    and "(router_step ops host_write)\<^sup>*\<^sup>* (g0, h0) (g, h)"
  shows "router_ok cfg g"
  by (rule reachable_ok [OF assms])

text \<open>An instance: a host that knows one connection, and a router that is started and subscribes.\<close>

definition sample_ops :: "(nat \<Rightarrow> byte list) host_ops" where
  "sample_ops = \<lparr>host_stream_conn = (\<lambda>h s. (LIBP2P_HOST_OK, Some 7)),
     host_conn_peer_id = (\<lambda>h c. (LIBP2P_HOST_OK, [1, 2])),
     host_set_user_data = (\<lambda>h s d. (LIBP2P_HOST_OK, h)), host_user_data = (\<lambda>h s. (LIBP2P_HOST_OK, None)),
     host_stream_read = (\<lambda>h s n. ((LIBP2P_HOST_OK, [], True), h)),
     host_stream_reset = (\<lambda>h s c. (LIBP2P_HOST_OK, h)),
     host_open_stream = (\<lambda>h c p f u. ((LIBP2P_HOST_OK, None), h))\<rparr>"

definition sample_topic :: libp2p_gossipsub_topic_config_t where
  "sample_topic = \<lparr>tc_topic = Buf [116], tc_validation_mode = LIBP2P_GOSSIPSUB_VALIDATION_ACCEPT_ALL,
     tc_enable_idontwant = True, tc_idontwant_min_message_bytes = 0\<rparr>"

lemma sample_init_ok: "router_ok sample_config (initial_router sample_config sample_layout)"
  by (rule init_router_ok [OF sample_init]) (simp add: sample_config_def default_limits_def)

theorem reachable_router_ok_witness:
  "\<exists>g r. libp2p_gossipsub_subscribe
      (libp2p_gossipsub_start (initial_router sample_config sample_layout) 5) sample_topic = Some (r, g) \<and>
    router_ok sample_config g"
proof -
  let ?g0 = "initial_router sample_config sample_layout"
  let ?g1 = "libp2p_gossipsub_start ?g0 5"
  obtain r g where sub: "libp2p_gossipsub_subscribe ?g1 sample_topic = Some (r, g)"
    by (rule soundE [OF subscribe_sound [OF start_ok [OF sample_init_ok]]])
  have "(router_step sample_ops sip_write)\<^sup>*\<^sup>* (?g0, \<lambda>_. []) (?g1, \<lambda>_. [])"
    by (rule r_into_rtranclp) (rule router_step.Start)
  also have "(router_step sample_ops sip_write)\<^sup>*\<^sup>* (?g1, \<lambda>_. []) (g, \<lambda>_. [])"
    by (rule r_into_rtranclp) (rule router_step.Subscribe [OF sub])
  finally have reach: "(router_step sample_ops sip_write)\<^sup>*\<^sup>* (?g0, \<lambda>_. []) (g, \<lambda>_. [])" .
  have "router_ok sample_config g"
    by (rule reachable_router_ok [OF sample_init _ sip_stream_host reach])
      (simp add: sample_config_def default_limits_def)
  with sub show ?thesis by blast
qed

subsection \<open>The calls return\<close>

lemma deadline_walk_returns:
  assumes inv: "tx_inv cs None g" and p: "p < length (g_peers g)" and "cs p = xs @ ks"
  shows "\<exists>r. deadline_walk (g_tx_queue g) (first_of ks) result = Some r"
  using assms(3)
proof (induction ks arbitrary: xs result)
  case (Cons k ks)
  have "k < length (g_tx_queue g)" using inv_item(2) [OF inv p, of k] Cons.prems by simp
  moreover have "cs p = (xs @ [k]) @ ks" using Cons.prems by simp
  ultimately show ?case
    using Cons.IH inv_next [OF inv p Cons.prems] by (simp add: deadline_walk.simps [of _ "Some k"])
qed (simp add: deadline_walk.simps)

lemma next_deadline_returns:
  assumes ok: "router_ok cfg g"
  shows "\<exists>r. libp2p_gossipsub_next_deadline g = Some r"
proof -
  note inv = tx_okD [OF router_okD(4) [OF ok]]
  have "\<exists>r. deadline_peers (g_tx_queue g) ps result = Some r" if "set ps \<subseteq> set (g_peers g)" for ps result
    using that
  proof (induction ps arbitrary: result)
    case (Cons x ps)
    then obtain p where p: "p < length (g_peers g)" "x = g_peers g ! p" by (auto simp: in_set_conv_nth)
    from deadline_walk_returns [OF inv p(1), of "[]"] inv_head [OF inv p(1)] p(2)
    obtain r where "deadline_walk (g_tx_queue g) (p_tx_head x) result = Some r" by auto
    with Cons show ?case by simp
  qed simp
  then show ?thesis
    by (simp add: libp2p_gossipsub_next_deadline_def gossipsub_tx_next_deadline_def)
qed

text \<open>Claim C14. In every state that is reachable from initialisation the driver returns, although it
  walks linked queues without a bound, compacts the buffer, fills and trims the meshes, gossips and
  writes until the streams block; the next deadline, subscribing, unsubscribing and reporting a
  validation return as well, and no such call touches memory outside the tables. The state they leave
  is sound again.\<close>

theorem calls_return:
  assumes "libp2p_gossipsub_init s storage_given storage_len (Some cfg) out_given = Inr g0"
    and "max_rpc_bytes (cfg_limits cfg) < 2 ^ 63" and "stream_host host_write sent"
    and "(router_step ops host_write)\<^sup>*\<^sup>* (g0, h0) (g, h)"
  shows "(\<exists>r h' beats n progress g'. router_ok cfg g' \<and>
      libp2p_gossipsub_drive host_write g h now_us = Some (r, h', beats, n, progress, g')) \<and>
    (\<exists>r. libp2p_gossipsub_next_deadline g = Some r) \<and>
    (\<exists>r g'. libp2p_gossipsub_subscribe g topic = Some (r, g') \<and> router_ok cfg g') \<and>
    (\<exists>r g'. libp2p_gossipsub_unsubscribe g name = Some (r, g') \<and> router_ok cfg g') \<and>
    (\<exists>r g'. libp2p_gossipsub_report_validation g v result = Some (r, g') \<and> router_ok cfg g')"
proof -
  note ok = reachable_ok [OF assms]
  have "\<exists>r h' beats n progress g'. router_ok cfg g' \<and>
      libp2p_gossipsub_drive host_write g h now_us = Some (r, h', beats, n, progress, g')"
    by (rule drive_sound [OF ok assms(3), of h now_us]) blast
  then show ?thesis
    using next_deadline_returns [OF ok] subscribe_sound [OF ok] unsubscribe_sound [OF ok]
      report_validation_sound [OF ok]
    by (simp add: sound_def)
qed

theorem calls_return_witness:
  "(\<exists>r h' beats n progress g'. router_ok sample_config g' \<and>
      libp2p_gossipsub_drive sip_write (initial_router sample_config sample_layout) (\<lambda>_. []) 9 =
        Some (r, h', beats, n, progress, g')) \<and>
    (\<exists>r. libp2p_gossipsub_next_deadline (initial_router sample_config sample_layout) = Some r)"
proof -
  have "max_rpc_bytes (cfg_limits sample_config) < 2 ^ 63"
    by (simp add: sample_config_def default_limits_def)
  from calls_return [OF sample_init this sip_stream_host rtranclp.rtrancl_refl [of "router_step sample_ops sip_write"]]
  show ?thesis by blast
qed

end
