(* ===== verification/Gossipsub_Mesh_Degree.thy ===== *)
theory Gossipsub_Mesh_Degree
  imports Gossipsub_Steps
begin

text \<open>
  What the heartbeat does to the mesh of a topic: it is filled up to its target degree with eligible
  peers, or cut down to it.
\<close>

subsection \<open>The best candidate\<close>

text \<open>The candidate remembered after a further peer.\<close>

definition better ::
  "libp2p_gossipsub_t \<Rightarrow> (u64 \<Rightarrow> nat \<Rightarrow> bool) \<Rightarrow> u64 \<Rightarrow> nat \<Rightarrow> (u64 \<times> nat) option \<Rightarrow> (u64 \<times> nat) option"
where
  "better g c r i best =
     (if c r i \<and> (case best of None \<Rightarrow> True | Some (b, q) \<Rightarrow> gossipsub_rank_before g r i b q)
      then Some (r, i) else best)"

lemma best_ranked_Suc:
  "best_ranked g salt c i (Suc n) best =
     best_ranked g salt c (i + 1) n (better g c (gossipsub_peer_rank (g_peers g ! i) salt) i best)"
  by (simp add: Let_def better_def)

lemma best_ranked_None:
  "best_ranked g salt c i n best = None \<Longrightarrow>
     best = None \<and> (\<forall>p. i \<le> p \<and> p < i + n \<longrightarrow> \<not> c (gossipsub_peer_rank (g_peers g ! p) salt) p)"
proof (induction n arbitrary: i best)
  case (Suc n)
  let ?r = "gossipsub_peer_rank (g_peers g ! i) salt"
  note n = Suc.IH [OF Suc.prems [unfolded best_ranked_Suc]]
  then have e: "best = None" "\<not> c ?r i" by (auto simp: better_def split: if_splits)
  have "\<not> c (gossipsub_peer_rank (g_peers g ! p) salt) p" if "i \<le> p" "p < i + Suc n" for p
    using n that e(2) by (cases "p = i") auto
  with e show ?case by blast
qed auto

lemma best_ranked_Some:
  "best_ranked g salt c i n best = Some (r, p) \<Longrightarrow>
     best = Some (r, p) \<or> i \<le> p \<and> p < i + n \<and> c r p"
proof (induction n arbitrary: i best)
  case (Suc n)
  from Suc.IH [OF Suc.prems [unfolded best_ranked_Suc]] show ?case
    by (auto simp: better_def split: if_splits)
qed simp

lemma ranked_peer:
  assumes "p = gossipsub_ranked_peer g t salt mode"
  shows "p < length (g_peers g) \<Longrightarrow> gossipsub_rank_candidate g p t mode"
    and "length (g_peers g) \<le> p \<Longrightarrow> \<not> gossipsub_rank_candidate g q t mode"
proof -
  let ?b = "best_ranked g salt (\<lambda>rank p. gossipsub_rank_candidate g p t mode) 0 (length (g_peers g)) None"
  have some: "q < length (g_peers g) \<and> gossipsub_rank_candidate g q t mode" if "?b = Some (r, q)" for r q
    using best_ranked_Some [OF that] by simp
  show "p < length (g_peers g) \<Longrightarrow> gossipsub_rank_candidate g p t mode"
    using assms some by (auto simp: gossipsub_ranked_peer_def split: option.splits)
  show "\<not> gossipsub_rank_candidate g q t mode" if "length (g_peers g) \<le> p"
  proof (cases "?b")
    case None
    from best_ranked_None [OF None] show ?thesis by (auto simp: gossipsub_rank_candidate_def)
  next
    case (Some x)
    then show ?thesis using assms that some by (cases x) (auto simp: gossipsub_ranked_peer_def)
  qed
qed

subsection \<open>Queueing does not change the mesh\<close>

lemma mesh_pairs_core:
  assumes "tx_core g' = tx_core g"
  shows "mesh_pairs g' = mesh_pairs g"
proof -
  have "g_mesh_edges (tx_core h) = g_mesh_edges h" for h by (simp add: tx_core_def)
  with assms have "g_mesh_edges g' = g_mesh_edges g" by metis
  then show ?thesis by (simp add: mesh_pairs_def)
qed

lemma queued_core:
  assumes "router_ok cfg g" and "control_writable (rpc_control rpc)"
    and "gossipsub_enqueue_priority_rpc g p rpc = Some (r, g')"
  shows "tx_core g' = tx_core g"
proof -
  have m: "max_rpc_bytes (cfg_limits (g_config g)) < 2 ^ 63"
    using assms(1) by (simp add: router_ok_def core_ok_def)
  show ?thesis
    by (rule enqueue_ok [OF router_okD(4) [OF assms(1)] m assms(2), of p 0 True])
      (use assms(3) in \<open>auto simp: gossipsub_enqueue_priority_rpc_def\<close>)
qed

lemma graft_prune_core:
  assumes "router_ok cfg g"
  shows "gossipsub_enqueue_graft g p topic = Some (r, g') \<Longrightarrow> tx_core g' = tx_core g"
    and "gossipsub_enqueue_prune g p topic = Some (r, g') \<Longrightarrow> tx_core g' = tx_core g"
  using backoff_seconds_small
  by (auto simp: gossipsub_enqueue_graft_def gossipsub_enqueue_prune_def gossipsub_enqueue_prune_with_backoff_def
      empty_rpc_def empty_control_def control_writable_def prune_writable_def
      intro!: queued_core [OF assms])

lemma backoff_add_mesh: "mesh_pairs (snd (gossipsub_backoff_add g p t i now_us)) = mesh_pairs g"
  by (auto simp: gossipsub_backoff_add_def Let_def mesh_pairs_def split: prod.split option.split)

text \<open>The peers in the mesh of a topic.\<close>

definition mesh_of :: "libp2p_gossipsub_t \<Rightarrow> nat \<Rightarrow> nat set" where
  "mesh_of g t = {p. (p, t) \<in> mesh_pairs g}"

lemma finite_mesh_of [simp]: "finite (mesh_of g t)"
proof -
  have "mesh_of g t = fst ` {k \<in> mesh_pairs g. snd k = t}" by (force simp: mesh_of_def)
  then show ?thesis by simp
qed

lemma mesh_count: "router_ok cfg g \<Longrightarrow> gossipsub_mesh_count_topic g t = card (mesh_of g t)"
  by (simp add: mesh_of_def mesh_count_topic_card router_okD(5))

subsection \<open>Trimming\<close>

lemma trim_loop_mesh:
  assumes "router_ok cfg g" and "trim_loop t salt b n g = Some (LIBP2P_GOSSIPSUB_OK, g')"
    and "n \<le> card (mesh_of g t)"
  shows "mesh_of g' t \<subseteq> mesh_of g t \<and> card (mesh_of g' t) + n = card (mesh_of g t) \<and>
    (\<forall>t'. t' \<noteq> t \<longrightarrow> mesh_of g' t' = mesh_of g t')"
  using assms
proof (induction n arbitrary: g)
  case (Suc n)
  let ?p = "gossipsub_ranked_peer g t salt GOSSIPSUB_RANK_MODE_TRIM"
  obtain q where "q \<in> mesh_of g t" using Suc.prems(3) by (cases "mesh_of g t = {}") auto
  then have "gossipsub_rank_candidate g q t GOSSIPSUB_RANK_MODE_TRIM"
    using router_okD(5) [OF Suc.prems(1)]
    by (auto simp: gossipsub_rank_candidate_def mesh_contains_iff mesh_of_def mesh_ok_def)
  then have p: "?p < length (g_peers g)" using ranked_peer(2) [OF refl, of g t salt GOSSIPSUB_RANK_MODE_TRIM q] by fastforce
  from ranked_peer(1) [OF refl this] have pm: "?p \<in> mesh_of g t"
    by (simp add: gossipsub_rank_candidate_def mesh_contains_iff mesh_of_def)
  obtain queued g1 where q: "(if b then gossipsub_enqueue_prune g ?p (g_topics g ! t)
      else Some (LIBP2P_GOSSIPSUB_OK, g)) = Some (queued, g1)"
    using Suc.prems(2) p by (auto simp: Let_def split: bind_splits)
  have g1: "router_ok cfg g1" "mesh_pairs g1 = mesh_pairs g"
    using q soundE [OF enqueue_messages_sound(6) [OF Suc.prems(1)]] Suc.prems(1)
      mesh_pairs_core [OF graft_prune_core(2) [OF Suc.prems(1)]]
    by (auto split: if_splits) (metis option.inject prod.inject)
  let ?x = "if queued = LIBP2P_GOSSIPSUB_OK \<and> b
    then gossipsub_backoff_add g1 ?p t (mp_prune_backoff_us (cfg_mesh (g_config g1))) (g_last_drive_us g1)
    else (queued, g1)"
  obtain r g2 where x: "?x = (r, g2)" by fastforce
  have g2: "router_ok cfg g2" "mesh_pairs g2 = mesh_pairs g"
    using x g1 backoff_add_ok [OF g1(1)] backoff_add_mesh by (auto split: if_splits) (metis snd_conv)+
  let ?g3 = "gossipsub_mesh_remove g2 ?p t"
  have run: "trim_loop t salt b n ?g3 = Some (LIBP2P_GOSSIPSUB_OK, g')"
    using Suc.prems(2) p q x by (auto simp: Let_def split: if_splits)
  have g3: "router_ok cfg ?g3" and m3: "mesh_pairs ?g3 = mesh_pairs g - {(?p, t)}"
    using mesh_remove_router_ok [OF g2(1)] mesh_remove_refines [OF router_okD(5) [OF g2(1)]] g2(2) by simp_all
  have t3: "mesh_of ?g3 t = mesh_of g t - {?p}" and o3: "\<And>t'. t' \<noteq> t \<Longrightarrow> mesh_of ?g3 t' = mesh_of g t'"
    using m3 by (auto simp: mesh_of_def)
  have c3: "Suc (card (mesh_of ?g3 t)) = card (mesh_of g t)"
    unfolding t3 by (rule card_Suc_Diff1) (simp_all add: pm)
  from Suc.IH [OF g3 run] c3 Suc.prems(3) t3 o3 show ?case by auto
qed simp

lemma trim_mesh:
  assumes ok: "router_ok cfg g" and run: "gossipsub_mesh_trim_topic g t target b = Some (LIBP2P_GOSSIPSUB_OK, g')"
  shows "mesh_of g' t \<subseteq> mesh_of g t \<and> card (mesh_of g' t) = min (card (mesh_of g t)) target \<and>
    (\<forall>t'. t' \<noteq> t \<longrightarrow> mesh_of g' t' = mesh_of g t')"
proof (cases "card (mesh_of g t) > target")
  case False
  then have "g' = g" using run mesh_count [OF ok] by (auto simp: gossipsub_mesh_trim_topic_def Let_def split: if_splits)
  with False show ?thesis by auto
next
  case True
  obtain r salt g1 where rnd: "gossipsub_random_u64 g = ((r, salt), g1)" by (metis prod.exhaust)
  have g1: "router_ok cfg g1" using random_ok [OF ok] rnd by simp
  have "mesh_pairs g1 = mesh_pairs g"
    using rnd by (auto simp: gossipsub_random_u64_def mesh_pairs_def split: option.splits prod.splits)
  then have m1: "mesh_of g1 = mesh_of g" by (simp add: fun_eq_iff mesh_of_def)
  have loop: "trim_loop t salt b (card (mesh_of g t) - target) g1 = Some (LIBP2P_GOSSIPSUB_OK, g')"
    using run True rnd mesh_count [OF ok] by (auto simp: gossipsub_mesh_trim_topic_def Let_def split: if_splits)
  have "card (mesh_of g t) - target \<le> card (mesh_of g1 t)" by (simp add: m1)
  from trim_loop_mesh [OF g1 loop this] True show ?thesis by (auto simp: m1)
qed

subsection \<open>Filling\<close>

text \<open>The peers that may be grafted: in use, with a stream, subscribed and not in backoff.\<close>

definition eligible :: "libp2p_gossipsub_t \<Rightarrow> nat \<Rightarrow> nat set" where
  "eligible g t = {p. p < length (g_peers g) \<and> p_used (g_peers g ! p) \<and> p_stream (g_peers g ! p) \<noteq> None \<and>
     gossipsub_peer_subscribed g p t \<and> \<not> gossipsub_backoff_active g p t (g_last_drive_us g)}"

lemma fill_candidate: "gossipsub_rank_candidate g p t GOSSIPSUB_RANK_MODE_FILL \<longleftrightarrow> p \<in> eligible g t - mesh_of g t"
  by (auto simp: gossipsub_rank_candidate_def eligible_def mesh_of_def mesh_contains_iff)

lemma eligible_core:
  assumes "tx_core g' = tx_core g"
  shows "eligible g' t = eligible g t"
proof -
  have p: "p_used (peer_core x) = p_used x" "p_stream (peer_core x) = p_stream x" for x
    by (simp_all add: peer_core_def)
  have "eligible (tx_core h) t = eligible h t" for h
    by (auto simp: eligible_def tx_core_def gossipsub_peer_subscribed_def gossipsub_backoff_active_def p)
  with assms show ?thesis by metis
qed

lemma eligible_mesh [simp]:
  "eligible (g\<lparr>g_mesh_edges := es, g_mesh_peer_count := c\<rparr>) t = eligible g t"
  "eligible (g\<lparr>g_random_calls := n\<rparr>) t = eligible g t"
  by (simp_all add: eligible_def gossipsub_peer_subscribed_def gossipsub_backoff_active_def)

lemma mesh_add_new:
  assumes ok: "router_ok cfg g" and "gossipsub_mesh_add g p t = (LIBP2P_GOSSIPSUB_OK, g')" and "p \<notin> mesh_of g t"
  shows "mesh_pairs g' = insert (p, t) (mesh_pairs g)" and "eligible g' t = eligible g t"
proof -
  note m = router_okD(5) [OF ok]
  have n: "\<not> gossipsub_mesh_contains g p t" using assms(3) by (simp add: mesh_contains_iff mesh_of_def)
  have c: "p < length (g_peers g) \<and> t < length (g_topics g) \<and> p_used (g_peers g ! p) \<and> t_used (g_topics g ! t)"
    using assms(2) by (auto simp: gossipsub_mesh_add_def split: if_splits)
  obtain i where i: "first_index (\<lambda>e. \<not> me_used e) (g_mesh_edges g) = Some i"
    using assms(2) n c by (auto simp: gossipsub_mesh_add_def split: if_splits option.splits)
  have "\<exists>e\<in>set (g_mesh_edges g). \<not> me_used e" using first_index_Some [OF i] nth_mem by blast
  then have "card (mesh_pairs g) < length (g_mesh_edges g)" by (simp add: mesh_size_card(2) [OF m])
  with mesh_add_refines(2) [OF m assms(2)] c show "mesh_pairs g' = insert (p, t) (mesh_pairs g)" by simp
  show "eligible g' t = eligible g t" using assms(2) n i c by (auto simp: gossipsub_mesh_add_def)
qed

lemma fill_loop_mesh:
  assumes "router_ok cfg g" and "fill_loop t salt b n g = Some (LIBP2P_GOSSIPSUB_OK, g')"
  shows "mesh_of g t \<subseteq> mesh_of g' t \<and> mesh_of g' t \<subseteq> mesh_of g t \<union> eligible g t \<and>
    card (mesh_of g' t) \<le> card (mesh_of g t) + n \<and>
    (card (mesh_of g' t) < card (mesh_of g t) + n \<longrightarrow> eligible g t \<subseteq> mesh_of g' t) \<and>
    (\<forall>t'. t' \<noteq> t \<longrightarrow> mesh_of g' t' = mesh_of g t')"
  using assms
proof (induction n arbitrary: g)
  case (Suc n)
  let ?p = "gossipsub_ranked_peer g t salt GOSSIPSUB_RANK_MODE_FILL"
  show ?case
  proof (cases "?p < length (g_peers g)")
    case False
    then have "\<not> gossipsub_rank_candidate g q t GOSSIPSUB_RANK_MODE_FILL" for q
      using ranked_peer(2) [OF refl, of g t salt GOSSIPSUB_RANK_MODE_FILL q] by simp
    then have "eligible g t \<subseteq> mesh_of g t" by (auto simp: fill_candidate)
    moreover have "g' = g" using Suc.prems(2) False by (simp add: Let_def)
    ultimately show ?thesis by auto
  next
    case True
    from ranked_peer(1) [OF refl this] have c: "?p \<in> eligible g t" "?p \<notin> mesh_of g t"
      by (simp_all add: fill_candidate)
    obtain r g1 where a: "gossipsub_mesh_add g ?p t = (r, g1)" by fastforce
    have r: "r = LIBP2P_GOSSIPSUB_OK" using Suc.prems(2) True a by (auto simp: Let_def split: if_splits)
    have ok1: "router_ok cfg g1" using mesh_add_ok [OF Suc.prems(1), of ?p t] a by simp
    note m1 = mesh_add_new [OF Suc.prems(1) a [unfolded r] c(2)]
    obtain g2 where g2: "router_ok cfg g2" "mesh_pairs g2 = mesh_pairs g1" "eligible g2 t = eligible g1 t"
      and run: "fill_loop t salt b n g2 = Some (LIBP2P_GOSSIPSUB_OK, g')"
    proof (cases b)
      case False
      with that [OF ok1 refl refl] Suc.prems(2) True a r show thesis by (simp add: Let_def)
    next
      case b: True
      obtain q g2 where q: "gossipsub_enqueue_graft g1 ?p (g_topics g1 ! t) = Some (q, g2)" and ok2: "router_ok cfg g2"
        by (rule soundE [OF enqueue_messages_sound(5) [OF ok1]])
      note core = graft_prune_core(1) [OF ok1 q]
      have "fill_loop t salt b n g2 = Some (LIBP2P_GOSSIPSUB_OK, g')"
        using Suc.prems(2) True a r b q by (auto simp: Let_def split: if_splits)
      from that [OF ok2 mesh_pairs_core [OF core] eligible_core [OF core] this] show thesis .
    qed
    have t2: "mesh_of g2 t = insert ?p (mesh_of g t)" and o2: "\<And>t'. t' \<noteq> t \<Longrightarrow> mesh_of g2 t' = mesh_of g t'"
      using g2(2) m1(1) by (auto simp: mesh_of_def)
    have "card (mesh_of g2 t) = Suc (card (mesh_of g t))" using c(2) by (simp add: t2)
    with Suc.IH [OF g2(1) run] c t2 o2 g2(3) m1(2) show ?thesis by auto
  qed
qed simp

lemma fill_mesh:
  assumes ok: "router_ok cfg g" and run: "gossipsub_mesh_fill_topic g t target b = Some (LIBP2P_GOSSIPSUB_OK, g')"
  shows "mesh_of g t \<subseteq> mesh_of g' t \<and> mesh_of g' t \<subseteq> mesh_of g t \<union> eligible g t \<and>
    card (mesh_of g' t) \<le> max (card (mesh_of g t)) target \<and>
    (card (mesh_of g' t) < target \<longrightarrow> mesh_of g' t = mesh_of g t \<union> eligible g t) \<and>
    (\<forall>t'. t' \<noteq> t \<longrightarrow> mesh_of g' t' = mesh_of g t')"
proof (cases "card (mesh_of g t) < target")
  case False
  then have "g' = g" using run mesh_count [OF ok] by (auto simp: gossipsub_mesh_fill_topic_def Let_def split: if_splits)
  with False show ?thesis by auto
next
  case True
  obtain r salt g1 where rnd: "gossipsub_random_u64 g = ((r, salt), g1)" by (metis prod.exhaust)
  have g1: "router_ok cfg g1" using random_ok [OF ok] rnd by simp
  have "mesh_pairs g1 = mesh_pairs g" and e1: "eligible g1 t = eligible g t"
    using rnd by (auto simp: gossipsub_random_u64_def mesh_pairs_def split: option.splits prod.splits)
  then have m1: "mesh_of g1 = mesh_of g" by (simp add: fun_eq_iff mesh_of_def)
  have loop: "fill_loop t salt b (target - card (mesh_of g t)) g1 = Some (LIBP2P_GOSSIPSUB_OK, g')"
    using run True rnd mesh_count [OF ok] by (auto simp: gossipsub_mesh_fill_topic_def Let_def split: if_splits)
  from fill_loop_mesh [OF g1 loop] True e1 show ?thesis by (auto simp: m1)
qed

subsection \<open>The heartbeat of a topic\<close>

text \<open>Claim C7. The heartbeat of a topic always returns and, when it reports no error, keeps the mesh of
  the topic within its bounds. Below the low watermark it keeps the mesh and grafts eligible peers
  only (in use, with a stream, subscribed, not in backoff) up to the target degree, and it stops short
  of the target only when every eligible peer is in the mesh; above the high watermark it cuts the
  mesh down to exactly the target degree; in between it changes nothing. The meshes of all other
  topics stay as they are.\<close>

theorem heartbeat_degree:
  assumes ok: "router_ok cfg g"
  shows "\<exists>r g'. heartbeat_topic t g = Some (r, g') \<and> router_ok cfg g' \<and>
    (r = LIBP2P_GOSSIPSUB_OK \<longrightarrow>
      (let m = mesh_of g t; m' = mesh_of g' t; d = mp_d (cfg_mesh cfg) in
        if card m < mp_d_low (cfg_mesh cfg)
        then m \<subseteq> m' \<and> m' \<subseteq> m \<union> eligible g t \<and> card m' \<le> max (card m) d \<and>
             (card m' < d \<longrightarrow> m' = m \<union> eligible g t)
        else if card m > mp_d_high (cfg_mesh cfg) then m' \<subseteq> m \<and> card m' = min (card m) d
        else m' = m) \<and>
      (\<forall>t'. t' \<noteq> t \<longrightarrow> mesh_of g' t' = mesh_of g t'))"
proof -
  have "sound cfg (heartbeat_topic t g)"
    using ok by (simp add: heartbeat_topic_def Let_def fill_sound trim_sound)
  then obtain r g' where run: "heartbeat_topic t g = Some (r, g')" and g': "router_ok cfg g'"
    by (rule soundE)
  note d = run [unfolded heartbeat_topic_def Let_def mesh_count [OF ok] router_okD(3) [OF ok]]
  show ?thesis
  proof (cases "r = LIBP2P_GOSSIPSUB_OK")
    case True
    with run g' d fill_mesh [OF ok, of t "mp_d (cfg_mesh cfg)" True g']
      trim_mesh [OF ok, of t "mp_d (cfg_mesh cfg)" True g']
    show ?thesis by (auto simp: Let_def split: if_splits)
  qed (use run g' in blast)
qed

text \<open>An instance: a router with two peers, of which one is subscribed to the topic.\<close>

definition sample_subscribed :: libp2p_gossipsub_t where
  "sample_subscribed = sample_router\<lparr>g_peer_topics := [\<lparr>pt_used = True, pt_peer_index = 0,
     pt_topic_index = 0, pt_subscribed = True\<rparr>, zero_peer_topic]\<rparr>"

lemma sample_subscribed_ok: "router_ok sample_config sample_subscribed"
proof -
  have "router_ok sample_config sample_router"
  proof -
    have "sizes_ok sample_config sample_router" "events_ok sample_router" "mcache_ok sample_router"
      by (simp_all add: sizes_ok_def events_ok_def mcache_ok_def sample_router_defs Let_def zero_mcache_entry_def)
    moreover have "names_ok sample_router"
      by (simp add: names_ok_def sample_router_defs Let_def topics.unique_def peers.unique_def
          peer_topics.unique_def zero_topic_def zero_peer_def zero_peer_topic_def numeral_2_eq_2)
    moreover have "queues_ok sample_config sample_router"
      by (simp add: queues_ok_def sample_tx_ok sample_fields sample_config_def sample_peer_def less_Suc_eq numeral_2_eq_2)
    ultimately show ?thesis
      using sample_mesh_ok sample_writable(1) by (simp add: router_ok_def core_ok_def sample_fields)
  qed
  then show ?thesis
    unfolding sample_subscribed_def
    by (rule update_peer_topics_ok)
      (simp_all add: sample_router_defs Let_def peer_topics.unique_def zero_peer_topic_def)
qed

theorem heartbeat_degree_witness:
  "\<exists>r g'. heartbeat_topic 0 sample_subscribed = Some (r, g') \<and> router_ok sample_config g' \<and>
    (r = LIBP2P_GOSSIPSUB_OK \<longrightarrow>
      (let m = mesh_of sample_subscribed 0; m' = mesh_of g' 0; d = mp_d (cfg_mesh sample_config) in
        if card m < mp_d_low (cfg_mesh sample_config)
        then m \<subseteq> m' \<and> m' \<subseteq> m \<union> eligible sample_subscribed 0 \<and> card m' \<le> max (card m) d \<and>
             (card m' < d \<longrightarrow> m' = m \<union> eligible sample_subscribed 0)
        else if card m > mp_d_high (cfg_mesh sample_config) then m' \<subseteq> m \<and> card m' = min (card m) d
        else m' = m) \<and>
      (\<forall>t'. t' \<noteq> 0 \<longrightarrow> mesh_of g' t' = mesh_of sample_subscribed t'))"
  by (rule heartbeat_degree [OF sample_subscribed_ok])

end
