(* ===== verification/Peer_Id.thy ===== *)
theory Peer_Id
  imports Multibase_Text Multihash
begin

text \<open>
  \<open>src/src/peer_id/peer_id.c\<close>: the protobuf form of secp256k1 keys, signing and verifying, and peer
  ids with their two text forms. The curve arithmetic and SHA-256 come from libsecp256k1, which is
  not part of the repository: the record \<open>secp256k1\<close> holds the functions that the code calls, and
  every operation takes it as an argument. \<open>'k\<close> and \<open>'s\<close> stand for \<open>secp256k1_pubkey\<close> and
  \<open>secp256k1_ecdsa_signature\<close>, whose contents the code never looks at.

  Clearing secrets and destroying contexts has no effect on any result and is left out. A result
  \<open>written\<close> is the value behind the pointer; a function that may leave it untouched takes its old
  value.
\<close>

subsection \<open>The library behind\<close>

record ('k, 's) secp256k1 =
  secp256k1_context_preallocated_size :: nat
  secp256k1_context_preallocated_create :: bool \<comment> \<open>whether a context is returned\<close>
  secp256k1_ec_seckey_verify :: "byte list \<Rightarrow> bool"
  secp256k1_ec_pubkey_parse :: "byte list \<Rightarrow> 'k option"
  secp256k1_ec_pubkey_serialize :: "'k \<Rightarrow> bool \<Rightarrow> nat \<Rightarrow> bool \<times> byte list"
    \<comment> \<open>for a key, compression and the room: the success and the bytes stored\<close>
  secp256k1_ec_pubkey_create :: "byte list \<Rightarrow> 'k option"
  secp256k1_ecdsa_sign :: "byte list \<Rightarrow> byte list \<Rightarrow> 's option" \<comment> \<open>of a hash with a secret\<close>
  secp256k1_ecdsa_signature_serialize_der :: "nat \<Rightarrow> 's \<Rightarrow> byte list option" \<comment> \<open>for the room\<close>
  secp256k1_ecdsa_signature_parse_der :: "byte list \<Rightarrow> 's option"
  secp256k1_ecdsa_verify :: "'s \<Rightarrow> byte list \<Rightarrow> 'k \<Rightarrow> bool"
  secp256k1_sha256 :: "byte list \<Rightarrow> byte list" \<comment> \<open>initialize, write and finalize\<close>

subsection \<open>Constants and errors\<close>

datatype libp2p_peer_id_err_t =
    LIBP2P_PEER_ID_OK
  | LIBP2P_PEER_ID_ERR_BUF_TOO_SMALL
  | LIBP2P_PEER_ID_ERR_INVALID_PRIVATE_KEY
  | LIBP2P_PEER_ID_ERR_INVALID_PUBLIC_KEY
  | LIBP2P_PEER_ID_ERR_INVALID_KEY_ENCODING
  | LIBP2P_PEER_ID_ERR_INVALID_MESSAGE_HASH
  | LIBP2P_PEER_ID_ERR_INVALID_SIGNATURE
  | LIBP2P_PEER_ID_ERR_INVALID_PEER_ID
  | LIBP2P_PEER_ID_ERR_UNSUPPORTED_ENCODING
  | LIBP2P_PEER_ID_ERR_NO_INLINE_PUBLIC_KEY

definition LIBP2P_PEER_ID_SECP256K1_PRIVATE_KEY_BYTES :: nat where
  "LIBP2P_PEER_ID_SECP256K1_PRIVATE_KEY_BYTES = 32"
definition LIBP2P_PEER_ID_SECP256K1_COMPRESSED_PUBLIC_KEY_BYTES :: nat where
  "LIBP2P_PEER_ID_SECP256K1_COMPRESSED_PUBLIC_KEY_BYTES = 33"
definition LIBP2P_PEER_ID_SECP256K1_UNCOMPRESSED_PUBLIC_KEY_BYTES :: nat where
  "LIBP2P_PEER_ID_SECP256K1_UNCOMPRESSED_PUBLIC_KEY_BYTES = 65"
definition LIBP2P_PEER_ID_SECP256K1_PRIVATE_KEY_MESSAGE_BYTES :: nat where
  "LIBP2P_PEER_ID_SECP256K1_PRIVATE_KEY_MESSAGE_BYTES = 36"
definition LIBP2P_PEER_ID_SECP256K1_PUBLIC_KEY_MESSAGE_MAX_BYTES :: nat where
  "LIBP2P_PEER_ID_SECP256K1_PUBLIC_KEY_MESSAGE_MAX_BYTES = 69"
definition LIBP2P_PEER_ID_SHA2_256_BYTES :: nat where
  "LIBP2P_PEER_ID_SHA2_256_BYTES = 32"
definition LIBP2P_PEER_ID_SECP256K1_SIGNATURE_MAX_BYTES :: nat where
  "LIBP2P_PEER_ID_SECP256K1_SIGNATURE_MAX_BYTES = 72"
definition LIBP2P_PEER_ID_INLINE_KEY_MAX_BYTES :: nat where
  "LIBP2P_PEER_ID_INLINE_KEY_MAX_BYTES = 42"
definition LIBP2P_PEER_ID_MAX_BYTES :: nat where
  "LIBP2P_PEER_ID_MAX_BYTES = 39"
definition LIBP2P_PEER_ID_TEXT_MAX_BYTES :: nat where
  "LIBP2P_PEER_ID_TEXT_MAX_BYTES = 96"
definition LIBP2P_PEER_ID_SECP256K1_CONTEXT_STORAGE_BYTES :: nat where
  "LIBP2P_PEER_ID_SECP256K1_CONTEXT_STORAGE_BYTES = 4096"
definition LIBP2P_PEER_ID_PROTOBUF_KEY_TYPE_TAG :: byte where
  "LIBP2P_PEER_ID_PROTOBUF_KEY_TYPE_TAG = 0x08"
definition LIBP2P_PEER_ID_PROTOBUF_KEY_DATA_TAG :: byte where
  "LIBP2P_PEER_ID_PROTOBUF_KEY_DATA_TAG = 0x12"
definition LIBP2P_PEER_ID_SECP256K1_KEY_TYPE :: u64 where
  "LIBP2P_PEER_ID_SECP256K1_KEY_TYPE = 0x02"
definition LIBP2P_PEER_ID_CID_VERSION_1 :: u64 where
  "LIBP2P_PEER_ID_CID_VERSION_1 = 0x01"
definition LIBP2P_PEER_ID_CID_CODEC_LIBP2P_KEY :: u64 where
  "LIBP2P_PEER_ID_CID_CODEC_LIBP2P_KEY = 0x72"

lemmas peer_id_constants =
  LIBP2P_PEER_ID_SECP256K1_PRIVATE_KEY_BYTES_def LIBP2P_PEER_ID_SECP256K1_COMPRESSED_PUBLIC_KEY_BYTES_def
  LIBP2P_PEER_ID_SECP256K1_UNCOMPRESSED_PUBLIC_KEY_BYTES_def
  LIBP2P_PEER_ID_SECP256K1_PRIVATE_KEY_MESSAGE_BYTES_def
  LIBP2P_PEER_ID_SECP256K1_PUBLIC_KEY_MESSAGE_MAX_BYTES_def LIBP2P_PEER_ID_SHA2_256_BYTES_def
  LIBP2P_PEER_ID_SECP256K1_SIGNATURE_MAX_BYTES_def LIBP2P_PEER_ID_INLINE_KEY_MAX_BYTES_def
  LIBP2P_PEER_ID_MAX_BYTES_def LIBP2P_PEER_ID_TEXT_MAX_BYTES_def
  LIBP2P_PEER_ID_PROTOBUF_KEY_TYPE_TAG_def LIBP2P_PEER_ID_PROTOBUF_KEY_DATA_TAG_def
  LIBP2P_PEER_ID_SECP256K1_KEY_TYPE_def LIBP2P_PEER_ID_CID_VERSION_1_def
  LIBP2P_PEER_ID_CID_CODEC_LIBP2P_KEY_def LIBP2P_MULTIHASH_CODE_IDENTITY_def
  LIBP2P_MULTIHASH_CODE_SHA2_256_def

definition peer_id_public_key_length_is_supported :: "nat \<Rightarrow> bool" where
  "peer_id_public_key_length_is_supported public_key_len \<longleftrightarrow>
     public_key_len = LIBP2P_PEER_ID_SECP256K1_COMPRESSED_PUBLIC_KEY_BYTES \<or>
     public_key_len = LIBP2P_PEER_ID_SECP256K1_UNCOMPRESSED_PUBLIC_KEY_BYTES"

fun peer_id_multibase_err_to_peer_id :: "libp2p_multibase_err_t \<Rightarrow> libp2p_peer_id_err_t" where
  "peer_id_multibase_err_to_peer_id LIBP2P_MULTIBASE_OK = LIBP2P_PEER_ID_OK"
| "peer_id_multibase_err_to_peer_id LIBP2P_MULTIBASE_ERR_BUF_TOO_SMALL = LIBP2P_PEER_ID_ERR_BUF_TOO_SMALL"
| "peer_id_multibase_err_to_peer_id LIBP2P_MULTIBASE_ERR_UNSUPPORTED_BASE =
     LIBP2P_PEER_ID_ERR_UNSUPPORTED_ENCODING"
| "peer_id_multibase_err_to_peer_id LIBP2P_MULTIBASE_ERR_RESERVED_PREFIX =
     LIBP2P_PEER_ID_ERR_UNSUPPORTED_ENCODING"
| "peer_id_multibase_err_to_peer_id _ = LIBP2P_PEER_ID_ERR_INVALID_PEER_ID"

fun peer_id_multihash_err_to_peer_id :: "libp2p_multihash_err_t \<Rightarrow> libp2p_peer_id_err_t" where
  "peer_id_multihash_err_to_peer_id LIBP2P_MULTIHASH_OK = LIBP2P_PEER_ID_OK"
| "peer_id_multihash_err_to_peer_id LIBP2P_MULTIHASH_ERR_BUF_TOO_SMALL = LIBP2P_PEER_ID_ERR_BUF_TOO_SMALL"
| "peer_id_multihash_err_to_peer_id LIBP2P_MULTIHASH_ERR_UNSUPPORTED_CODE =
     LIBP2P_PEER_ID_ERR_UNSUPPORTED_ENCODING"
| "peer_id_multihash_err_to_peer_id _ = LIBP2P_PEER_ID_ERR_INVALID_PEER_ID"

subsection \<open>Keys\<close>

text \<open>The loop that copies \<open>n\<close> bytes from position \<open>offset\<close> of one array to the front of another.\<close>

definition copy_from :: "byte list \<Rightarrow> byte list \<Rightarrow> nat \<Rightarrow> nat \<Rightarrow> byte list option" where
  "copy_from out inp offset n =
     (if offset + n \<le> length inp then memcpy_at out 0 (take n (drop offset inp)) else None)"

definition peer_id_sha256 :: "('k, 's) secp256k1 \<Rightarrow> byte cbuf \<Rightarrow> byte list" where
  "peer_id_sha256 lib message = secp256k1_sha256 lib (contents message)"

definition peer_id_create_context :: "('k, 's) secp256k1 \<Rightarrow> libp2p_peer_id_err_t" where
  "peer_id_create_context lib =
     (if secp256k1_context_preallocated_size lib > LIBP2P_PEER_ID_SECP256K1_CONTEXT_STORAGE_BYTES
      then LIBP2P_PEER_ID_ERR_INVALID_KEY_ENCODING
      else if secp256k1_context_preallocated_create lib then LIBP2P_PEER_ID_OK
      else LIBP2P_PEER_ID_ERR_INVALID_KEY_ENCODING)"

definition peer_id_key_message_size :: "nat \<Rightarrow> nat" where
  "peer_id_key_message_size key_len =
     (let type_size = libp2p_uvarint_size LIBP2P_PEER_ID_SECP256K1_KEY_TYPE;
          length_size = libp2p_uvarint_size (of_nat key_len)
      in size_wrap (2 + type_size + length_size + key_len))"

definition peer_id_validate_private_key ::
  "('k, 's) secp256k1 \<Rightarrow> byte cbuf \<Rightarrow> libp2p_peer_id_err_t" where
  "peer_id_validate_private_key lib private_key =
     (if is_null private_key \<or> clen private_key \<noteq> LIBP2P_PEER_ID_SECP256K1_PRIVATE_KEY_BYTES
      then LIBP2P_PEER_ID_ERR_INVALID_PRIVATE_KEY
      else
        let result = peer_id_create_context lib
        in if result = LIBP2P_PEER_ID_OK \<and> \<not> secp256k1_ec_seckey_verify lib (contents private_key)
           then LIBP2P_PEER_ID_ERR_INVALID_PRIVATE_KEY else result)"

definition peer_id_parse_public_key ::
  "('k, 's) secp256k1 \<Rightarrow> byte cbuf \<Rightarrow> libp2p_peer_id_err_t \<times> 'k option" where
  "peer_id_parse_public_key lib public_key =
     (if is_null public_key \<or> \<not> peer_id_public_key_length_is_supported (clen public_key)
      then (LIBP2P_PEER_ID_ERR_INVALID_PUBLIC_KEY, None)
      else case secp256k1_ec_pubkey_parse lib (contents public_key) of
             None \<Rightarrow> (LIBP2P_PEER_ID_ERR_INVALID_PUBLIC_KEY, None)
           | Some parsed_pubkey \<Rightarrow> (LIBP2P_PEER_ID_OK, Some parsed_pubkey))"

definition peer_id_serialize_public_key ::
  "('k, 's) secp256k1 \<Rightarrow> 'k \<Rightarrow> bool \<Rightarrow> byte cbuf \<Rightarrow>
   (libp2p_peer_id_err_t \<times> nat \<times> byte cbuf) option" where
  "peer_id_serialize_public_key lib public_key compressed out =
     (let required = (if compressed then LIBP2P_PEER_ID_SECP256K1_COMPRESSED_PUBLIC_KEY_BYTES
                      else LIBP2P_PEER_ID_SECP256K1_UNCOMPRESSED_PUBLIC_KEY_BYTES)
      in if is_null out \<or> clen out < required
         then Some (LIBP2P_PEER_ID_ERR_BUF_TOO_SMALL, required, out)
         else
           (case secp256k1_ec_pubkey_serialize lib public_key compressed required of
              (ok, bytes) \<Rightarrow> do {
                out' \<leftarrow> memcpy_at (contents out) 0 bytes;
                (if \<not> ok \<or> length bytes \<noteq> required
                 then Some (LIBP2P_PEER_ID_ERR_INVALID_PUBLIC_KEY, required, Buf out')
                 else Some (LIBP2P_PEER_ID_OK, length bytes, Buf out'))
              }))"

definition peer_id_encode_key_message ::
  "byte list \<Rightarrow> byte cbuf \<Rightarrow> (libp2p_peer_id_err_t \<times> nat \<times> byte cbuf) option" where
  "peer_id_encode_key_message key_bytes out =
     (let required = peer_id_key_message_size (length key_bytes)
      in if is_null out \<or> clen out < required
         then Some (LIBP2P_PEER_ID_ERR_BUF_TOO_SMALL, required, out)
         else do {
           out1 \<leftarrow> wr (contents out) 0 LIBP2P_PEER_ID_PROTOBUF_KEY_TYPE_TAG;
           out2 \<leftarrow> wr out1 1 (ucast LIBP2P_PEER_ID_SECP256K1_KEY_TYPE);
           out3 \<leftarrow> wr out2 2 LIBP2P_PEER_ID_PROTOBUF_KEY_DATA_TAG;
           (err, length_written, length_buf) \<leftarrow>
             libp2p_uvarint_encode (of_nat (length key_bytes)) (Buf uvarint_scratch);
           (if err \<noteq> LIBP2P_UVARINT_OK
            then Some (LIBP2P_PEER_ID_ERR_INVALID_KEY_ENCODING, required, Buf out3)
            else do {
              out4 \<leftarrow> memcpy_at out3 3 (take length_written (contents length_buf));
              out5 \<leftarrow> memcpy_at out4 (3 + length_written) key_bytes;
              Some (LIBP2P_PEER_ID_OK, required, Buf out5)
            })
         })"

text \<open>The result is the error code, the offset of the key and its length.\<close>

definition peer_id_decode_key_message ::
  "byte cbuf \<Rightarrow> (libp2p_peer_id_err_t \<times> nat \<times> nat) option" where
  "peer_id_decode_key_message inp =
     (if is_null inp then Some (LIBP2P_PEER_ID_ERR_INVALID_KEY_ENCODING, 0, 0)
      else if clen inp < 4 then Some (LIBP2P_PEER_ID_ERR_INVALID_KEY_ENCODING, 0, 0)
      else do {
        tag \<leftarrow> rd (contents inp) 0;
        (if tag \<noteq> LIBP2P_PEER_ID_PROTOBUF_KEY_TYPE_TAG
         then Some (LIBP2P_PEER_ID_ERR_INVALID_KEY_ENCODING, 0, 0)
         else
           case libp2p_uvarint_decode (Buf (drop 1 (contents inp))) of
             (err, parsed_type, type_read) \<Rightarrow>
               if err \<noteq> LIBP2P_UVARINT_OK
               then Some (LIBP2P_PEER_ID_ERR_INVALID_KEY_ENCODING, 0, 0)
               else
                 let offset = 1 + type_read
                 in if offset \<ge> clen inp then Some (LIBP2P_PEER_ID_ERR_INVALID_KEY_ENCODING, 0, 0)
                    else do {
                      data_tag \<leftarrow> rd (contents inp) offset;
                      (if data_tag \<noteq> LIBP2P_PEER_ID_PROTOBUF_KEY_DATA_TAG
                       then Some (LIBP2P_PEER_ID_ERR_INVALID_KEY_ENCODING, 0, 0)
                       else if parsed_type \<noteq> LIBP2P_PEER_ID_SECP256K1_KEY_TYPE
                       then Some (LIBP2P_PEER_ID_ERR_UNSUPPORTED_ENCODING, 0, 0)
                       else
                         case libp2p_uvarint_decode (Buf (drop (offset + 1) (contents inp))) of
                           (err2, parsed_length, length_read) \<Rightarrow>
                             if err2 \<noteq> LIBP2P_UVARINT_OK
                             then Some (LIBP2P_PEER_ID_ERR_INVALID_KEY_ENCODING, 0, 0)
                             else if unat parsed_length > SIZE_MAX
                             then Some (LIBP2P_PEER_ID_ERR_INVALID_KEY_ENCODING, 0, 0)
                             else
                               let start = offset + 1 + length_read
                               in if start > clen inp \<or> clen inp - start \<noteq> unat parsed_length
                                  then Some (LIBP2P_PEER_ID_ERR_INVALID_KEY_ENCODING, 0, 0)
                                  else Some (LIBP2P_PEER_ID_OK, start, unat parsed_length))
                    })
      })"

text \<open>The result is the error code and the value behind \<open>out_len\<close>, whose old value is \<open>old\<close>.\<close>

definition libp2p_peer_id_public_key_encoded_size :: "nat \<Rightarrow> nat \<Rightarrow> libp2p_peer_id_err_t \<times> nat" where
  "libp2p_peer_id_public_key_encoded_size public_key_len old =
     (if \<not> peer_id_public_key_length_is_supported public_key_len
      then (LIBP2P_PEER_ID_ERR_INVALID_PUBLIC_KEY, old)
      else (LIBP2P_PEER_ID_OK, peer_id_key_message_size public_key_len))"

definition libp2p_peer_id_public_key_encode ::
  "('k, 's) secp256k1 \<Rightarrow> byte cbuf \<Rightarrow> byte cbuf \<Rightarrow> nat \<Rightarrow>
   (libp2p_peer_id_err_t \<times> nat \<times> byte cbuf) option" where
  "libp2p_peer_id_public_key_encode lib public_key out old =
     (case peer_id_parse_public_key lib public_key of
        (result, parsed_pubkey) \<Rightarrow>
          if result = LIBP2P_PEER_ID_OK then peer_id_encode_key_message (contents public_key) out
          else Some (result, old, out))"

definition libp2p_peer_id_public_key_decode ::
  "('k, 's) secp256k1 \<Rightarrow> byte cbuf \<Rightarrow> byte cbuf \<Rightarrow>
   (libp2p_peer_id_err_t \<times> nat \<times> byte cbuf) option" where
  "libp2p_peer_id_public_key_decode lib inp out = do {
     (result, offset, key_len) \<leftarrow> peer_id_decode_key_message inp;
     (if result \<noteq> LIBP2P_PEER_ID_OK then Some (result, 0, out)
      else if is_null out \<or> clen out < key_len
      then Some (LIBP2P_PEER_ID_ERR_BUF_TOO_SMALL, key_len, out)
      else
        case peer_id_parse_public_key lib (Buf (take key_len (drop offset (contents inp)))) of
          (result2, parsed_pubkey) \<Rightarrow>
            if result2 \<noteq> LIBP2P_PEER_ID_OK then Some (result2, key_len, out)
            else do {
              out' \<leftarrow> copy_from (contents out) (contents inp) offset key_len;
              Some (LIBP2P_PEER_ID_OK, key_len, Buf out')
            })
   }"

definition libp2p_peer_id_private_key_encode ::
  "('k, 's) secp256k1 \<Rightarrow> byte cbuf \<Rightarrow> byte cbuf \<Rightarrow>
   (libp2p_peer_id_err_t \<times> nat \<times> byte cbuf) option" where
  "libp2p_peer_id_private_key_encode lib private_key out =
     (let result = peer_id_validate_private_key lib private_key
      in if result \<noteq> LIBP2P_PEER_ID_OK then Some (result, 0, out)
         else if is_null out \<or> clen out < LIBP2P_PEER_ID_SECP256K1_PRIVATE_KEY_MESSAGE_BYTES
         then Some (LIBP2P_PEER_ID_ERR_BUF_TOO_SMALL, LIBP2P_PEER_ID_SECP256K1_PRIVATE_KEY_MESSAGE_BYTES,
                    out)
         else peer_id_encode_key_message (contents private_key) out)"

definition libp2p_peer_id_private_key_decode ::
  "('k, 's) secp256k1 \<Rightarrow> byte cbuf \<Rightarrow> byte cbuf \<Rightarrow>
   (libp2p_peer_id_err_t \<times> nat \<times> byte cbuf) option" where
  "libp2p_peer_id_private_key_decode lib inp out = do {
     (result, offset, key_len) \<leftarrow> peer_id_decode_key_message inp;
     (if result \<noteq> LIBP2P_PEER_ID_OK then Some (result, 0, out)
      else if key_len \<noteq> LIBP2P_PEER_ID_SECP256K1_PRIVATE_KEY_BYTES
      then Some (LIBP2P_PEER_ID_ERR_INVALID_KEY_ENCODING, 0, out)
      else if is_null out \<or> clen out < key_len
      then Some (LIBP2P_PEER_ID_ERR_BUF_TOO_SMALL, key_len, out)
      else
        let result2 = peer_id_validate_private_key lib
              (Buf (take key_len (drop offset (contents inp))))
        in if result2 \<noteq> LIBP2P_PEER_ID_OK then Some (result2, key_len, out)
           else do {
             out' \<leftarrow> copy_from (contents out) (contents inp) offset key_len;
             Some (LIBP2P_PEER_ID_OK, key_len, Buf out')
           })
   }"

definition libp2p_peer_id_public_key_from_private_key ::
  "('k, 's) secp256k1 \<Rightarrow> byte cbuf \<Rightarrow> bool \<Rightarrow> byte cbuf \<Rightarrow>
   (libp2p_peer_id_err_t \<times> nat \<times> byte cbuf) option" where
  "libp2p_peer_id_public_key_from_private_key lib private_key compressed out =
     (let required = (if compressed then LIBP2P_PEER_ID_SECP256K1_COMPRESSED_PUBLIC_KEY_BYTES
                      else LIBP2P_PEER_ID_SECP256K1_UNCOMPRESSED_PUBLIC_KEY_BYTES);
          result = peer_id_validate_private_key lib private_key
      in if result \<noteq> LIBP2P_PEER_ID_OK then Some (result, required, out)
         else if is_null out \<or> clen out < required
         then Some (LIBP2P_PEER_ID_ERR_BUF_TOO_SMALL, required, out)
         else
           let result2 = peer_id_create_context lib
           in if result2 \<noteq> LIBP2P_PEER_ID_OK then Some (result2, required, out)
              else
                (case secp256k1_ec_pubkey_create lib (contents private_key) of
                   None \<Rightarrow> Some (LIBP2P_PEER_ID_ERR_INVALID_PRIVATE_KEY, required, out)
                 | Some public_key \<Rightarrow> peer_id_serialize_public_key lib public_key compressed out))"

subsection \<open>Signatures\<close>

definition libp2p_peer_id_sign_hash ::
  "('k, 's) secp256k1 \<Rightarrow> byte cbuf \<Rightarrow> byte cbuf \<Rightarrow> byte cbuf \<Rightarrow>
   (libp2p_peer_id_err_t \<times> nat \<times> byte cbuf) option" where
  "libp2p_peer_id_sign_hash lib private_key message_hash out =
     (let result = (if is_null message_hash \<or> clen message_hash \<noteq> LIBP2P_PEER_ID_SHA2_256_BYTES
                    then LIBP2P_PEER_ID_ERR_INVALID_MESSAGE_HASH
                    else peer_id_validate_private_key lib private_key)
      in if result \<noteq> LIBP2P_PEER_ID_OK then Some (result, 0, out)
         else
           let result2 = peer_id_create_context lib
           in if result2 \<noteq> LIBP2P_PEER_ID_OK then Some (result2, 0, out)
              else
                (case secp256k1_ecdsa_sign lib (contents message_hash) (contents private_key) of
                   None \<Rightarrow> Some (LIBP2P_PEER_ID_ERR_INVALID_PRIVATE_KEY, 0, out)
                 | Some signature \<Rightarrow>
                     (case secp256k1_ecdsa_signature_serialize_der lib
                             LIBP2P_PEER_ID_SECP256K1_SIGNATURE_MAX_BYTES signature of
                        None \<Rightarrow> Some (LIBP2P_PEER_ID_ERR_INVALID_SIGNATURE, 0, out)
                      | Some der \<Rightarrow> do {
                          signature_bytes \<leftarrow>
                            memcpy_at (replicate LIBP2P_PEER_ID_SECP256K1_SIGNATURE_MAX_BYTES 0) 0 der;
                          (if is_null out \<or> clen out < length der
                           then Some (LIBP2P_PEER_ID_ERR_BUF_TOO_SMALL, length der, out)
                           else do {
                             out' \<leftarrow> copy_from (contents out) signature_bytes 0 (length der);
                             Some (LIBP2P_PEER_ID_OK, length der, Buf out')
                           })
                        })))"

definition libp2p_peer_id_verify_hash ::
  "('k, 's) secp256k1 \<Rightarrow> byte cbuf \<Rightarrow> byte cbuf \<Rightarrow> byte cbuf \<Rightarrow> libp2p_peer_id_err_t" where
  "libp2p_peer_id_verify_hash lib public_key message_hash signature =
     (if is_null message_hash \<or> clen message_hash \<noteq> LIBP2P_PEER_ID_SHA2_256_BYTES
      then LIBP2P_PEER_ID_ERR_INVALID_MESSAGE_HASH
      else if is_null signature \<or> clen signature = 0 then LIBP2P_PEER_ID_ERR_INVALID_SIGNATURE
      else
        case peer_id_parse_public_key lib public_key of
          (result, None) \<Rightarrow> result
        | (result, Some parsed_pubkey) \<Rightarrow>
            (case secp256k1_ecdsa_signature_parse_der lib (contents signature) of
               None \<Rightarrow> LIBP2P_PEER_ID_ERR_INVALID_SIGNATURE
             | Some parsed_signature \<Rightarrow>
                 if \<not> secp256k1_ecdsa_verify lib parsed_signature (contents message_hash) parsed_pubkey
                 then LIBP2P_PEER_ID_ERR_INVALID_SIGNATURE else LIBP2P_PEER_ID_OK))"

definition libp2p_peer_id_sign_message ::
  "('k, 's) secp256k1 \<Rightarrow> byte cbuf \<Rightarrow> byte cbuf \<Rightarrow> byte cbuf \<Rightarrow>
   (libp2p_peer_id_err_t \<times> nat \<times> byte cbuf) option" where
  "libp2p_peer_id_sign_message lib private_key message out =
     libp2p_peer_id_sign_hash lib private_key (Buf (peer_id_sha256 lib message)) out"

definition libp2p_peer_id_verify_message ::
  "('k, 's) secp256k1 \<Rightarrow> byte cbuf \<Rightarrow> byte cbuf \<Rightarrow> byte cbuf \<Rightarrow> libp2p_peer_id_err_t" where
  "libp2p_peer_id_verify_message lib public_key message signature =
     libp2p_peer_id_verify_hash lib public_key (Buf (peer_id_sha256 lib message)) signature"

subsection \<open>Binary peer ids\<close>

definition peer_id_validate_binary_peer_id ::
  "('k, 's) secp256k1 \<Rightarrow> byte cbuf \<Rightarrow> libp2p_peer_id_err_t option" where
  "peer_id_validate_binary_peer_id lib peer_id =
     (case libp2p_multihash_read_header peer_id of
        (multihash_err, code, digest_len, digest_offset) \<Rightarrow>
          let result = peer_id_multihash_err_to_peer_id multihash_err
          in if result \<noteq> LIBP2P_PEER_ID_OK then Some result
             else if size_wrap (digest_offset + digest_len) \<noteq> clen peer_id
             then Some LIBP2P_PEER_ID_ERR_INVALID_PEER_ID
             else if code = LIBP2P_MULTIHASH_CODE_IDENTITY then
               (if digest_len > LIBP2P_PEER_ID_INLINE_KEY_MAX_BYTES
                then Some LIBP2P_PEER_ID_ERR_INVALID_PEER_ID
                else
                  let digest = take digest_len (drop digest_offset (contents peer_id))
                  in do {
                       (result2, key_offset, key_len) \<leftarrow> peer_id_decode_key_message (Buf digest);
                       Some (if result2 \<noteq> LIBP2P_PEER_ID_OK then result2
                             else fst (peer_id_parse_public_key lib
                                         (Buf (take key_len (drop key_offset digest)))))
                     })
             else if code = LIBP2P_MULTIHASH_CODE_SHA2_256 then
               Some (if digest_len \<noteq> LIBP2P_PEER_ID_SHA2_256_BYTES
                     then LIBP2P_PEER_ID_ERR_INVALID_PEER_ID else LIBP2P_PEER_ID_OK)
             else Some LIBP2P_PEER_ID_ERR_UNSUPPORTED_ENCODING)"

definition libp2p_peer_id_size_from_secp256k1_public_key ::
  "nat \<Rightarrow> libp2p_peer_id_err_t \<times> nat" where
  "libp2p_peer_id_size_from_secp256k1_public_key public_key_len =
     (case libp2p_peer_id_public_key_encoded_size public_key_len 0 of
        (result, encoded_key_len) \<Rightarrow>
          if result \<noteq> LIBP2P_PEER_ID_OK then (result, 0)
          else
            case (if encoded_key_len \<le> LIBP2P_PEER_ID_INLINE_KEY_MAX_BYTES
                  then libp2p_multihash_size LIBP2P_MULTIHASH_CODE_IDENTITY encoded_key_len
                  else libp2p_multihash_size LIBP2P_MULTIHASH_CODE_SHA2_256
                         LIBP2P_PEER_ID_SHA2_256_BYTES) of
              (err, out_len) \<Rightarrow> (peer_id_multihash_err_to_peer_id err, out_len))"

definition libp2p_peer_id_from_secp256k1_public_key ::
  "('k, 's) secp256k1 \<Rightarrow> byte cbuf \<Rightarrow> byte cbuf \<Rightarrow>
   (libp2p_peer_id_err_t \<times> nat \<times> byte cbuf) option" where
  "libp2p_peer_id_from_secp256k1_public_key lib public_key out = do {
     (result, encoded_key_len, encoded_key) \<leftarrow>
       libp2p_peer_id_public_key_encode lib public_key
         (Buf (replicate LIBP2P_PEER_ID_SECP256K1_PUBLIC_KEY_MESSAGE_MAX_BYTES 0)) 0;
     (if result \<noteq> LIBP2P_PEER_ID_OK then Some (result, 0, out)
      else
        let key_message = take encoded_key_len (contents encoded_key)
        in do {
             (err, written, out') \<leftarrow>
               (if encoded_key_len \<le> LIBP2P_PEER_ID_INLINE_KEY_MAX_BYTES
                then libp2p_multihash_encode LIBP2P_MULTIHASH_CODE_IDENTITY (Buf key_message) out
                else libp2p_multihash_encode LIBP2P_MULTIHASH_CODE_SHA2_256
                       (Buf (peer_id_sha256 lib (Buf key_message))) out);
             Some (peer_id_multihash_err_to_peer_id err, written, out')
           })
   }"

definition libp2p_peer_id_extract_secp256k1_public_key ::
  "('k, 's) secp256k1 \<Rightarrow> byte cbuf \<Rightarrow> byte cbuf \<Rightarrow>
   (libp2p_peer_id_err_t \<times> nat \<times> byte cbuf) option" where
  "libp2p_peer_id_extract_secp256k1_public_key lib peer_id out =
     (case libp2p_multihash_read_header peer_id of
        (multihash_err, code, digest_len, digest_offset) \<Rightarrow>
          let result = peer_id_multihash_err_to_peer_id multihash_err
          in if result \<noteq> LIBP2P_PEER_ID_OK then Some (result, 0, out)
             else if size_wrap (digest_offset + digest_len) \<noteq> clen peer_id
             then Some (LIBP2P_PEER_ID_ERR_INVALID_PEER_ID, 0, out)
             else if code = LIBP2P_MULTIHASH_CODE_SHA2_256
             then Some (LIBP2P_PEER_ID_ERR_NO_INLINE_PUBLIC_KEY, 0, out)
             else if code \<noteq> LIBP2P_MULTIHASH_CODE_IDENTITY
             then Some (LIBP2P_PEER_ID_ERR_UNSUPPORTED_ENCODING, 0, out)
             else if digest_len > LIBP2P_PEER_ID_INLINE_KEY_MAX_BYTES
             then Some (LIBP2P_PEER_ID_ERR_INVALID_PEER_ID, 0, out)
             else libp2p_peer_id_public_key_decode lib
                    (Buf (take digest_len (drop digest_offset (contents peer_id)))) out)"

subsection \<open>Text\<close>

definition peer_id_decode_legacy_text ::
  "char cbuf \<Rightarrow> byte cbuf \<Rightarrow> (libp2p_peer_id_err_t \<times> nat \<times> byte cbuf) option" where
  "peer_id_decode_legacy_text inp out =
     (if is_null inp \<or> clen inp = 0 \<or> clen inp > LIBP2P_PEER_ID_TEXT_MAX_BYTES
      then Some (LIBP2P_PEER_ID_ERR_INVALID_PEER_ID, 0, out)
      else do {
        (multibase_err, base, written, out') \<leftarrow>
          libp2p_multibase_decode (Buf (CHR ''z'' # contents inp)) out;
        Some (peer_id_multibase_err_to_peer_id multibase_err, written, out')
      })"

definition peer_id_decode_cid_text ::
  "('k, 's) secp256k1 \<Rightarrow> char cbuf \<Rightarrow> byte cbuf \<Rightarrow>
   (libp2p_peer_id_err_t \<times> nat \<times> byte cbuf) option" where
  "peer_id_decode_cid_text lib inp out =
     (if is_null inp \<or> clen inp = 0 then Some (LIBP2P_PEER_ID_ERR_INVALID_PEER_ID, 0, out)
      else do {
        (multibase_err, base, decoded_len, decoded) \<leftarrow>
          libp2p_multibase_decode inp (Buf (replicate (LIBP2P_PEER_ID_INLINE_KEY_MAX_BYTES + 8) 0));
        (let result = peer_id_multibase_err_to_peer_id multibase_err;
             cid = take decoded_len (contents decoded)
         in if result \<noteq> LIBP2P_PEER_ID_OK then Some (result, 0, out)
            else
              case libp2p_uvarint_decode (Buf cid) of
                (err, version, version_read) \<Rightarrow>
                  if err \<noteq> LIBP2P_UVARINT_OK then Some (LIBP2P_PEER_ID_ERR_INVALID_PEER_ID, 0, out)
                  else if version \<noteq> LIBP2P_PEER_ID_CID_VERSION_1
                  then Some (LIBP2P_PEER_ID_ERR_UNSUPPORTED_ENCODING, 0, out)
                  else if version_read > decoded_len
                  then Some (LIBP2P_PEER_ID_ERR_INVALID_PEER_ID, 0, out)
                  else
                    case libp2p_uvarint_decode (Buf (drop version_read cid)) of
                      (err2, codec, codec_read) \<Rightarrow>
                        if err2 \<noteq> LIBP2P_UVARINT_OK
                        then Some (LIBP2P_PEER_ID_ERR_INVALID_PEER_ID, 0, out)
                        else if codec \<noteq> LIBP2P_PEER_ID_CID_CODEC_LIBP2P_KEY
                        then Some (LIBP2P_PEER_ID_ERR_UNSUPPORTED_ENCODING, 0, out)
                        else
                          let peer_id_offset = version_read + codec_read;
                              peer_id_len = decoded_len - peer_id_offset
                          in do {
                               result2 \<leftarrow> peer_id_validate_binary_peer_id lib
                                 (Buf (drop peer_id_offset cid));
                               (if result2 \<noteq> LIBP2P_PEER_ID_OK then Some (result2, 0, out)
                                else if is_null out \<or> clen out < peer_id_len
                                then Some (LIBP2P_PEER_ID_ERR_BUF_TOO_SMALL, peer_id_len, out)
                                else do {
                                  out' \<leftarrow> copy_from (contents out) cid peer_id_offset peer_id_len;
                                  Some (LIBP2P_PEER_ID_OK, peer_id_len, Buf out')
                                })
                             })
      })"

text \<open>The test for the legacy form: the first character is read only of a non-empty text.\<close>

definition peer_id_is_legacy_text :: "string \<Rightarrow> bool" where
  "peer_id_is_legacy_text t \<longleftrightarrow>
     t ! 0 = CHR ''1'' \<or> length t \<ge> 2 \<and> t ! 0 = CHR ''Q'' \<and> t ! 1 = CHR ''m''"

definition libp2p_peer_id_from_string ::
  "('k, 's) secp256k1 \<Rightarrow> char cbuf \<Rightarrow> byte cbuf \<Rightarrow>
   (libp2p_peer_id_err_t \<times> nat \<times> byte cbuf) option" where
  "libp2p_peer_id_from_string lib inp out =
     (if is_null inp \<or> clen inp = 0 then Some (LIBP2P_PEER_ID_ERR_INVALID_PEER_ID, 0, out)
      else do {
        (result, decoded_len, decoded) \<leftarrow>
          (if peer_id_is_legacy_text (contents inp)
           then peer_id_decode_legacy_text inp (Buf (replicate LIBP2P_PEER_ID_MAX_BYTES 0))
           else peer_id_decode_cid_text lib inp (Buf (replicate LIBP2P_PEER_ID_MAX_BYTES 0)));
        (if result \<noteq> LIBP2P_PEER_ID_OK then Some (result, 0, out)
         else do {
           result2 \<leftarrow> peer_id_validate_binary_peer_id lib (Buf (take decoded_len (contents decoded)));
           (if result2 \<noteq> LIBP2P_PEER_ID_OK then Some (result2, 0, out)
            else if is_null out \<or> clen out < decoded_len
            then Some (LIBP2P_PEER_ID_ERR_BUF_TOO_SMALL, decoded_len, out)
            else do {
              out' \<leftarrow> copy_from (contents out) (contents decoded) 0 decoded_len;
              Some (LIBP2P_PEER_ID_OK, decoded_len, Buf out')
            })
         })
      })"

definition libp2p_peer_id_to_string ::
  "('k, 's) secp256k1 \<Rightarrow> byte cbuf \<Rightarrow> char cbuf \<Rightarrow>
   (libp2p_peer_id_err_t \<times> nat \<times> char cbuf) option" where
  "libp2p_peer_id_to_string lib peer_id out = do {
     result \<leftarrow> peer_id_validate_binary_peer_id lib peer_id;
     (if result \<noteq> LIBP2P_PEER_ID_OK then Some (result, 0, out)
      else do {
        (multibase_err, encoded_len, encoded) \<leftarrow>
          libp2p_multibase_encode LIBP2P_MULTIBASE_BASE58BTC peer_id
            (Buf (replicate LIBP2P_PEER_ID_TEXT_MAX_BYTES (CHR 0x00)));
        (let result2 = peer_id_multibase_err_to_peer_id multibase_err
         in if result2 \<noteq> LIBP2P_PEER_ID_OK then Some (result2, 0, out)
            else if encoded_len = 0 then Some (LIBP2P_PEER_ID_ERR_INVALID_PEER_ID, 0, out)
            else if is_null out \<or> clen out < encoded_len - 1
            then Some (LIBP2P_PEER_ID_ERR_BUF_TOO_SMALL, encoded_len - 1, out)
            else do {
              out' \<leftarrow> memcpy_at (contents out) 0 (take (encoded_len - 1) (drop 1 (contents encoded)));
              Some (LIBP2P_PEER_ID_OK, encoded_len - 1, Buf out')
            })
      })
   }"

end
