(* ===== verification/Peer_Id_Laws.thy ===== *)
theory Peer_Id_Laws
  imports Peer_Id Multiaddr_Text_Roundtrip
begin

text \<open>
  Peer ids as data. \<open>key_message k\<close> is the protobuf form of a key; the encoder writes it and the
  decoder accepts nothing else. A valid binary peer id is the identity multihash of the key message of
  a compressed key or a sha2-256 multihash; its texts are the base58 form and two CID forms, and parsing
  accepts exactly these.
\<close>

subsection \<open>Key messages\<close>

definition key_message :: "byte list \<Rightarrow> byte list" where
  "key_message k = [0x08, 0x02, 0x12] @ uvarint_bytes (length k) @ k"

lemma length_key_message: "length (key_message k) = 3 + length (uvarint_bytes (length k)) + length k"
  by (simp add: key_message_def)

lemma key_message_short:
  assumes "length k < 128"
  shows "key_message k = 0x08 # 0x02 # 0x12 # of_nat (length k) # k"
  using assms by (simp add: key_message_def uvarint_bytes_small)

lemma key_message_inj: "key_message k = key_message k' \<Longrightarrow> length k < 128 \<Longrightarrow> length k' < 128 \<Longrightarrow> k = k'"
  by (simp add: key_message_short)

lemma key_message_size:
  assumes "length k < 2 ^ 62"
  shows "peer_id_key_message_size (length k) = length (key_message k)"
proof -
  have "length (uvarint_bytes (length k)) \<le> 9" using assms uvarint_length_9 [of "length k"] by simp
  moreover have "uvarint_bytes 2 = [2]" by (simp add: uvarint_bytes_small)
  ultimately show ?thesis
    using assms
    by (simp add: peer_id_key_message_size_def LIBP2P_PEER_ID_SECP256K1_KEY_TYPE_def unat_of_nat_63
        length_key_message SIZE_MAX_def)
qed

lemma encode_key_message_ok:
  assumes k: "length k < 2 ^ 62"
  shows "peer_id_encode_key_message k out =
    Some (if is_null out \<or> clen out < length (key_message k)
          then (LIBP2P_PEER_ID_ERR_BUF_TOO_SMALL, length (key_message k), out)
          else (LIBP2P_PEER_ID_OK, length (key_message k),
                Buf (key_message k @ drop (length (key_message k)) (contents out))))"
proof (cases "is_null out \<or> clen out < length (key_message k)")
  case True
  then show ?thesis by (simp add: peer_id_encode_key_message_def key_message_size [OF k] Let_def)
next
  case False
  then obtain xs where out: "out = Buf xs" and len: "length (key_message k) \<le> length xs"
    by (cases out) auto
  let ?u = "uvarint_bytes (length k)"
  have k63: "length k < 2 ^ 63" using k by simp
  have "unat (of_nat (length k) :: u64) < 2 ^ 63" using k63 by (simp add: unat_of_nat_63)
  from uvarint_encode_scratch [OF this] obtain ub where
    u: "libp2p_uvarint_encode (of_nat (length k)) (Buf uvarint_scratch) =
      Some (LIBP2P_UVARINT_OK, length ?u, Buf ub)" "take (length ?u) ub = ?u"
    using unat_of_nat_63 [OF k63] by auto
  from len obtain a b c rest where xs: "xs = a # b # c # rest"
    by (cases xs; cases "tl xs"; cases "tl (tl xs)") (auto simp: length_key_message)
  with len have rest: "length ?u + length k \<le> length rest" by (simp add: length_key_message)
  have 4: "memcpy_at (0x08 # 0x02 # 0x12 # rest) 3 ?u =
      Some (0x08 # 0x02 # 0x12 # ?u @ drop (length ?u) rest)"
    using rest by (simp add: memcpy_at_def numeral_3_eq_3)
  have 5: "memcpy_at (0x08 # 0x02 # 0x12 # ?u @ drop (length ?u) rest) (3 + length ?u) k =
      Some (key_message k @ drop (length (key_message k)) xs)"
    using rest by (simp add: memcpy_at_def key_message_def xs numeral_3_eq_3 ac_simps)
  show ?thesis
    using False 5
    by (simp add: peer_id_encode_key_message_def key_message_size [OF k] Let_def out xs u 4 wr_def
        peer_id_constants)
qed

lemma decode_key_message_ok:
  assumes "peer_id_decode_key_message (Buf bs) = Some (LIBP2P_PEER_ID_OK, off, n)"
  shows "off + n = length bs" and "bs = key_message (drop off bs)"
proof -
  from assms obtain ty tr ln lr where
    4: "4 \<le> length bs" and tag: "bs ! 0 = 0x08" and
    t: "libp2p_uvarint_decode (Buf (drop 1 bs)) = (LIBP2P_UVARINT_OK, ty, tr)" and
    in_range: "1 + tr < length bs" and dt: "bs ! (1 + tr) = 0x12" and ty: "ty = 2" and
    l: "libp2p_uvarint_decode (Buf (drop (1 + tr + 1) bs)) = (LIBP2P_UVARINT_OK, ln, lr)" and
    off: "off = 1 + tr + 1 + lr" and n: "n = unat ln" and
    start: "off \<le> length bs" and len: "length bs - off = n"
    by (auto simp: peer_id_decode_key_message_def rd_def Let_def peer_id_constants
        split: if_splits prod.splits)
  show "off + n = length bs" using start len by simp
  note ut = uvarint_decode_ok [OF t] and ul = uvarint_decode_ok [OF l]
  have tr: "tr = 1" using ut(2) ty by (simp add: uvarint_bytes_small)
  obtain a b c d rest where bs: "bs = a # b # c # d # rest"
    using 4 by (cases bs; cases "tl bs"; cases "tl (tl bs)"; cases "tl (tl (tl bs))") auto
  have two: "bs = 0x08 # 0x02 # 0x12 # drop 3 bs"
    using ut(5) ty tr tag dt by (simp add: bs uvarint_bytes_small)
  have three: "1 + tr + 1 = 3" using tr by simp
  have "drop 3 bs = uvarint_bytes (unat ln) @ drop lr (drop 3 bs)"
    using ul(5) unfolding three .
  moreover have "length (drop off bs) = unat ln" using len n by simp
  moreover have "off = lr + 3" using off three by linarith
  ultimately have "key_message (drop off bs) = 0x08 # 0x02 # 0x12 # drop 3 bs"
    by (simp add: key_message_def)
  then show "bs = key_message (drop off bs)" using two by simp
qed

lemma decode_key_message_bytes:
  assumes "length k < 2 ^ 63"
  shows "peer_id_decode_key_message (Buf (key_message k)) =
    Some (LIBP2P_PEER_ID_OK, length (key_message k) - length k, length k)"
proof -
  have "uvarint_bytes 2 = [2]" by (simp add: uvarint_bytes_small)
  then have "libp2p_uvarint_decode (Buf (0x02 # rest)) = (LIBP2P_UVARINT_OK, 2, 1)" for rest
    using uvarint_decode_bytes [of 2 rest] by simp
  moreover have "libp2p_uvarint_decode (Buf (uvarint_bytes (length k) @ k)) =
      (LIBP2P_UVARINT_OK, of_nat (length k), length (uvarint_bytes (length k)))"
    using uvarint_decode_bytes [of "length k" k] assms by simp
  moreover have "0 < length (uvarint_bytes (length k))" by simp
  ultimately show ?thesis
    using assms
    by (simp add: peer_id_decode_key_message_def rd_def key_message_def peer_id_constants
        unat_of_nat_63 SIZE_MAX_def Let_def)
qed

lemma decode_key_message_iff:
  "peer_id_decode_key_message (Buf bs) = Some (LIBP2P_PEER_ID_OK, off, n) \<longleftrightarrow>
   (\<exists>k. bs = key_message k \<and> length k < 2 ^ 63 \<and> off = length bs - length k \<and> n = length k)"
proof
  assume d: "peer_id_decode_key_message (Buf bs) = Some (LIBP2P_PEER_ID_OK, off, n)"
  note ok = decode_key_message_ok [OF d]
  from d have "n < 2 ^ 63" and "off \<le> length bs"
    by (auto simp: peer_id_decode_key_message_def rd_def Let_def
        dest!: uvarint_decode_ok(1) split: if_splits prod.splits)
  then show "\<exists>k. bs = key_message k \<and> length k < 2 ^ 63 \<and> off = length bs - length k \<and> n = length k"
    using ok by (intro exI [of _ "drop off bs"]) auto
qed (auto simp: decode_key_message_bytes)

lemma decode_key_message_total: "\<exists>r. peer_id_decode_key_message inp = Some r"
  by (cases inp) (auto simp: peer_id_decode_key_message_def rd_def Let_def split: prod.split)

lemma parse_public_key_ok:
  "peer_id_parse_public_key lib key = (LIBP2P_PEER_ID_OK, pk) \<longleftrightarrow>
   \<not> is_null key \<and> clen key \<in> {33, 65} \<and> pk \<noteq> None \<and> secp256k1_ec_pubkey_parse lib (contents key) = pk"
  by (auto simp: peer_id_parse_public_key_def peer_id_public_key_length_is_supported_def peer_id_constants
      split: option.split)

subsection \<open>Binary peer ids\<close>

definition peer_id_valid :: "('k, 's) secp256k1 \<Rightarrow> byte list \<Rightarrow> bool" where
  "peer_id_valid lib b \<longleftrightarrow>
     (\<exists>k. length k = 33 \<and> secp256k1_ec_pubkey_parse lib k \<noteq> None \<and> b = multihash_bytes (0, key_message k)) \<or>
     (\<exists>d. length d = 32 \<and> b = multihash_bytes (0x12, d))"

lemma multihash_err_ok [simp]:
  "peer_id_multihash_err_to_peer_id e = LIBP2P_PEER_ID_OK \<longleftrightarrow> e = LIBP2P_MULTIHASH_OK"
  by (cases e) simp_all

lemma multibase_err_ok [simp]:
  "peer_id_multibase_err_to_peer_id e = LIBP2P_PEER_ID_OK \<longleftrightarrow> e = LIBP2P_MULTIBASE_OK"
  by (cases e) simp_all

lemma multihash_key_message:
  assumes "length k = 33"
  shows "multihash_bytes (0, key_message k) = 0x00 # 37 # 0x08 # 0x02 # 0x12 # 33 # k"
  using assms by (simp add: multihash_bytes_def key_message_short uvarint_bytes_small)

lemma multihash_sha256:
  assumes "length d = 32"
  shows "multihash_bytes (0x12, d) = 0x12 # 0x20 # d"
  using assms by (simp add: multihash_bytes_def uvarint_bytes_small)

lemma peer_id_valid_length: "peer_id_valid lib b \<Longrightarrow> length b \<in> {34, 39}"
  by (auto simp: peer_id_valid_def multihash_key_message multihash_sha256)

lemma peer_id_valid_multihash:
  assumes "peer_id_valid lib b"
  shows "\<exists>c d. b = multihash_bytes (c, d) \<and> multihash_valid (c, d)"
  using assms unfolding peer_id_valid_def
proof (elim disjE exE conjE)
  fix k assume "length k = 33" "b = multihash_bytes (0, key_message k)"
  then show ?thesis
    by (intro exI [where x = 0] exI [where x = "key_message k"]) (simp add: multihash_valid_iff key_message_short)
next
  fix d :: "byte list" assume "length d = 32" "b = multihash_bytes (0x12, d)"
  then show ?thesis by (intro exI [where x = "0x12"] exI [where x = d]) (simp add: multihash_valid_iff)
qed

lemma read_header_multihash:
  assumes "multihash_valid (c, d)"
  shows "libp2p_multihash_read_header (Buf (multihash_bytes (c, d))) =
    (LIBP2P_MULTIHASH_OK, c, length d, length (multihash_bytes (c, d)) - length d)"
  using assms multihash_read_header_bytes [of c "length d" d]
  by (auto simp: multihash_bytes_def multihash_valid_iff)

lemma read_header_exact:
  assumes h: "libp2p_multihash_read_header (Buf b) = (LIBP2P_MULTIHASH_OK, c, n, off)"
    and fit: "size_wrap (off + n) = length b"
  shows "off + n = length b" and "b = multihash_bytes (c, drop off b)"
proof -
  note hd = multihash_read_header_ok [OF h]
  have "off \<le> 18"
    using hd(1,2,4) uvarint_length_9 [of "unat c"] uvarint_length_9 [of n] by linarith
  then show len: "off + n = length b" using hd(2) fit by (simp add: SIZE_MAX_def)
  then have "length (drop off b) = n" by simp
  then show "b = multihash_bytes (c, drop off b)" using hd(5) by (simp add: multihash_bytes_def)
qed

lemma validate_binary_ok:
  assumes "peer_id_validate_binary_peer_id lib (Buf b) = Some LIBP2P_PEER_ID_OK"
  shows "peer_id_valid lib b"
proof -
  from assms obtain c n off where
    h: "libp2p_multihash_read_header (Buf b) = (LIBP2P_MULTIHASH_OK, c, n, off)" and
    fit: "size_wrap (off + n) = length b"
    by (auto simp: peer_id_validate_binary_peer_id_def Let_def split: prod.splits if_splits)
  note ex = read_header_exact [OF h fit]
  have digest: "take n (drop off b) = drop off b" using ex(1) by simp
  show ?thesis
  proof (cases "c = 0")
    case True
    with assms h fit obtain ko kl where n: "n \<le> 42"
      and d: "peer_id_decode_key_message (Buf (drop off b)) = Some (LIBP2P_PEER_ID_OK, ko, kl)"
      and p': "fst (peer_id_parse_public_key lib (Buf (take kl (drop ko (drop off b))))) = LIBP2P_PEER_ID_OK"
      by (auto simp: peer_id_validate_binary_peer_id_def Let_def digest peer_id_constants bind_eq_Some_conv
          simp del: drop_drop split: prod.splits if_splits)
    from p' obtain pk where
      p: "peer_id_parse_public_key lib (Buf (take kl (drop ko (drop off b)))) = (LIBP2P_PEER_ID_OK, pk)"
      by (metis prod.collapse)
    from d obtain k where k: "drop off b = key_message k" "ko = length (key_message k) - length k"
      "kl = length k" by (metis decode_key_message_iff)
    have "drop ko (key_message k) = k" unfolding k(2) by (simp add: key_message_def numeral_3_eq_3)
    with p have pk: "length k \<in> {33, 65}" "secp256k1_ec_pubkey_parse lib k \<noteq> None"
      unfolding parse_public_key_ok k(1) by (auto simp: k(3))
    moreover have "length (key_message k) \<le> 42" using n ex(1) k(1) by (metis add_diff_cancel_left' length_drop)
    ultimately have "length k = 33" by (auto simp: length_key_message)
    then show ?thesis using ex(2) pk k(1) True unfolding peer_id_valid_def by auto
  next
    case False
    with assms h fit have "c = 0x12" and "n = 32"
      by (auto simp: peer_id_validate_binary_peer_id_def Let_def peer_id_constants split: if_splits)
    moreover from \<open>n = 32\<close> ex(1) have "length (drop off b) = 32" by simp
    ultimately show ?thesis using ex(2) unfolding peer_id_valid_def by blast
  qed
qed

lemma validate_binary_valid:
  assumes "peer_id_valid lib b"
  shows "peer_id_validate_binary_peer_id lib (Buf b) = Some LIBP2P_PEER_ID_OK"
  using assms unfolding peer_id_valid_def
proof (elim disjE exE conjE)
  fix k assume k: "length k = 33" "secp256k1_ec_pubkey_parse lib k \<noteq> None"
    and b: "b = multihash_bytes (0, key_message k)"
  have v: "multihash_valid (0, key_message k)" using k by (simp add: multihash_valid_iff key_message_short)
  have lens: "length (key_message k) = 37" "length (multihash_bytes (0, key_message k)) = 39"
    using k by (simp_all add: key_message_short, simp add: multihash_bytes_def uvarint_bytes_small)
  have drops: "drop 2 (multihash_bytes (0, key_message k)) = key_message k" "drop 4 (key_message k) = k"
    using k by (simp_all add: multihash_bytes_def key_message_short uvarint_bytes_small)
  have p: "peer_id_parse_public_key lib (Buf k) = (LIBP2P_PEER_ID_OK, secp256k1_ec_pubkey_parse lib k)"
    using k by (simp add: parse_public_key_ok)
  show ?thesis
    using k
    by (simp add: peer_id_validate_binary_peer_id_def b read_header_multihash [OF v] lens drops p
        decode_key_message_bytes peer_id_constants SIZE_MAX_def)
next
  fix d :: "byte list" assume d: "length d = 32" and b: "b = multihash_bytes (0x12, d)"
  have "multihash_valid (0x12, d)" using d by (simp add: multihash_valid_iff)
  from read_header_multihash [OF this] have
    "libp2p_multihash_read_header (Buf (0x12 # 0x20 # d)) = (LIBP2P_MULTIHASH_OK, 0x12, 32, 2)"
    using d by (simp add: multihash_sha256)
  then show ?thesis
    using d by (simp add: peer_id_validate_binary_peer_id_def b multihash_sha256
        peer_id_constants SIZE_MAX_def)
qed

lemma validate_binary_iff:
  "peer_id_validate_binary_peer_id lib (Buf b) = Some LIBP2P_PEER_ID_OK \<longleftrightarrow> peer_id_valid lib b"
  using validate_binary_ok validate_binary_valid by blast

lemma validate_binary_total: "\<exists>r. peer_id_validate_binary_peer_id lib b = Some r"
proof (cases "libp2p_multihash_read_header b")
  case (fields e c n off)
  then show ?thesis
    using decode_key_message_total [of "Buf (take n (drop off (contents b)))"]
    by (auto simp: peer_id_validate_binary_peer_id_def Let_def split: prod.split)
qed

subsection \<open>The laws of the library behind\<close>

text \<open>
  What the code relies on of libsecp256k1: a digest has 32 bytes; the serialisation of a key that was
  made from a valid secret has the documented length and parses to that key; a DER signature has
  between 1 and 72 bytes and parses to the signature; a signature made with a secret verifies under
  its key.
\<close>

definition secp256k1_ok :: "('k, 's) secp256k1 \<Rightarrow> bool" where
  "secp256k1_ok lib \<longleftrightarrow>
     (\<forall>m. length (secp256k1_sha256 lib m) = 32) \<and>
     (\<forall>sk pk compressed. secp256k1_ec_pubkey_create lib sk = Some pk \<longrightarrow>
        (let n = (if compressed then 33 else 65)
         in \<exists>bytes. secp256k1_ec_pubkey_serialize lib pk compressed n = (True, bytes) \<and>
              length bytes = n \<and> secp256k1_ec_pubkey_parse lib bytes = Some pk)) \<and>
     (\<forall>s der. secp256k1_ecdsa_signature_serialize_der lib 72 s = Some der \<longrightarrow>
        0 < length der \<and> length der \<le> 72 \<and> secp256k1_ecdsa_signature_parse_der lib der = Some s) \<and>
     (\<forall>sk pk h s. secp256k1_ec_pubkey_create lib sk = Some pk \<longrightarrow> secp256k1_ecdsa_sign lib h sk = Some s \<longrightarrow>
        secp256k1_ecdsa_verify lib s h pk)"

text \<open>A library of no cryptographic value that satisfies the laws; it serves the examples.\<close>

definition sample_secp256k1 :: "(byte list, byte list) secp256k1" where
  "sample_secp256k1 =
     \<lparr>secp256k1_context_preallocated_size = 208,
      secp256k1_context_preallocated_create = True,
      secp256k1_ec_seckey_verify = (\<lambda>sk. sk \<noteq> replicate 32 0),
      secp256k1_ec_pubkey_parse = (\<lambda>b. if hd b \<in> {2, 4} then Some (take 32 (tl b)) else None),
      secp256k1_ec_pubkey_serialize =
        (\<lambda>pk compressed n. (True, if compressed then 2 # pk else 4 # pk @ pk)),
      secp256k1_ec_pubkey_create = (\<lambda>sk. if length sk = 32 then Some sk else None),
      secp256k1_ecdsa_sign = (\<lambda>h sk. Some sk),
      secp256k1_ecdsa_signature_serialize_der = (\<lambda>n s. if length s = 32 then Some s else None),
      secp256k1_ecdsa_signature_parse_der = Some,
      secp256k1_ecdsa_verify = (\<lambda>s h pk. s = pk),
      secp256k1_sha256 = (\<lambda>m. replicate 32 (of_nat (length m)))\<rparr>"

lemma sample_secp256k1_ok: "secp256k1_ok sample_secp256k1"
  by (auto simp: secp256k1_ok_def sample_secp256k1_def split: if_splits)

end
