(* ===== verification/Peer_Id_Text.thy ===== *)
theory Peer_Id_Text
  imports Peer_Id_Laws
begin

text \<open>
  What the operations on peer ids do: the text forms are parsed and printed exactly, a derived
  peer id is valid and gives an inlined key back, and a signature that was made with a secret
  verifies under its public key.
\<close>

subsection \<open>Decoding of text\<close>

definition is_text_of :: "string \<Rightarrow> byte list \<Rightarrow> bool" where
  "is_text_of t b \<longleftrightarrow>
     t = base58_text b \<or> (\<exists>base. multibase_supported base \<and> t = multibase_text base (0x01 # 0x72 # b))"

lemma multibase_decode_total:
  assumes "length t \<le> PTRDIFF_MAX"
  shows "\<exists>e base n d. libp2p_multibase_decode (Buf t) (Buf out) = Some (e, base, n, Buf d) \<and>
    length d = length out \<and> (e = LIBP2P_MULTIBASE_OK \<longrightarrow> base \<noteq> None)"
proof (cases t)
  case Nil
  then show ?thesis by simp
next
  case (Cons c cs)
  then have "length cs \<le> PTRDIFF_MAX" using assms by simp
  from decode_base64_correct [OF this, of out c] obtain o1 where o1: "length o1 = length out" and
    u: "multibase_decode_base64url (c # cs) (Buf out) =
    Some (if length cs mod 4 = 1 then (LIBP2P_MULTIBASE_ERR_INVALID_LENGTH, 0, Buf out)
          else if \<not> base64_valid cs
          then (LIBP2P_MULTIBASE_ERR_INVALID_CHARACTER, length (base64_bytes cs), Buf o1)
          else if length (base64_bytes cs) \<le> length out
          then (LIBP2P_MULTIBASE_OK, length (base64_bytes cs),
                Buf (base64_bytes cs @ drop (length (base64_bytes cs)) out))
          else (LIBP2P_MULTIBASE_ERR_BUF_TOO_SMALL, length (base64_bytes cs), Buf out))" by blast
  from decode_base58_correct [of out cs c] obtain o2 tail where
    o2: "length o2 = length out" "length tail = length out - length (base58_bytes cs)" and
    z: "multibase_decode_base58btc (c # cs) (Buf out) =
    Some (if \<not> base58_valid cs then (LIBP2P_MULTIBASE_ERR_INVALID_CHARACTER, length cs, Buf o2)
          else if length (base58_bytes cs) \<le> length out
          then (LIBP2P_MULTIBASE_OK, length (base58_bytes cs), Buf (base58_bytes cs @ tail))
          else (LIBP2P_MULTIBASE_ERR_BUF_TOO_SMALL, length cs, Buf o2))" by blast
  show ?thesis
  proof (cases "c = CHR ''z''")
    case True
    then show ?thesis using o2
      by (cases "base58_valid cs"; cases "length (base58_bytes cs) \<le> length out")
        (simp_all add: Cons z [unfolded True] multibase_base_from_prefix_def)
  next
    case False
    show ?thesis
    proof (cases "c = CHR ''u''")
      case True
      then show ?thesis using o1
        by (cases "length cs mod 4 = 1"; cases "base64_valid cs"; cases "length (base64_bytes cs) \<le> length out")
          (simp_all add: Cons u [unfolded True] multibase_base_from_prefix_def)
    qed (use False in \<open>simp add: Cons multibase_base_from_prefix_def\<close>)
  qed
qed

lemma multibase_decode_OK:
  assumes "length t \<le> PTRDIFF_MAX"
    and d: "libp2p_multibase_decode (Buf t) (Buf out) = Some (LIBP2P_MULTIBASE_OK, base, n, Buf d)"
  shows "\<exists>b. base = Some b \<and> multibase_supported b \<and> t = multibase_text b (take n d) \<and> n \<le> length out \<and>
    length d = length out"
proof -
  from multibase_decode_total [OF assms(1), of out] d obtain b where b: "base = Some b"
    and len: "length d = length out" by auto
  with d multibase_decode_iff [OF assms(1), of out b n "take n d"] show ?thesis by auto
qed

lemma multibase_decode_text:
  assumes "multibase_supported base" and "length (multibase_text base b) \<le> PTRDIFF_MAX"
    and "length b \<le> length out"
  shows "\<exists>d. libp2p_multibase_decode (Buf (multibase_text base b)) (Buf out) =
      Some (LIBP2P_MULTIBASE_OK, Some base, length b, Buf d) \<and>
    take (length b) d = b \<and> length d = length out"
  using multibase_decode_iff [OF assms(2), of out base "length b" b] assms by simp

definition decode_text ::
  "('k, 's) secp256k1 \<Rightarrow> string \<Rightarrow> (libp2p_peer_id_err_t \<times> nat \<times> byte cbuf) option" where
  "decode_text lib t =
     (if peer_id_is_legacy_text t
      then peer_id_decode_legacy_text (Buf t) (Buf (replicate LIBP2P_PEER_ID_MAX_BYTES 0))
      else peer_id_decode_cid_text lib (Buf t) (Buf (replicate LIBP2P_PEER_ID_MAX_BYTES 0)))"

lemma decode_legacy_total:
  "\<exists>e n d. peer_id_decode_legacy_text (Buf t) (Buf out) = Some (e, n, Buf d) \<and> length d = length out \<and>
     (e = LIBP2P_PEER_ID_OK \<longrightarrow> n \<le> length out \<and> t = base58_text (take n d))"
proof (cases "t = [] \<or> length t > 96")
  case True
  then show ?thesis by (auto simp: peer_id_decode_legacy_text_def peer_id_constants)
next
  case False
  then have len: "length (CHR ''z'' # t) \<le> PTRDIFF_MAX" by (simp add: PTRDIFF_MAX_def)
  from multibase_decode_total [OF len, of out] obtain e base n d where
    d: "libp2p_multibase_decode (Buf (CHR ''z'' # t)) (Buf out) = Some (e, base, n, Buf d)" "length d = length out"
    by blast
  have "n \<le> length out \<and> t = base58_text (take n d)" if "e = LIBP2P_MULTIBASE_OK"
  proof -
    from multibase_decode_OK [OF len d(1) [unfolded that]] obtain b where
      "CHR ''z'' # t = multibase_text b (take n d)" "n \<le> length out" "multibase_supported b" by blast
    then show ?thesis by (cases b) auto
  qed
  then show ?thesis using False d by (simp add: peer_id_decode_legacy_text_def peer_id_constants)
qed

lemma cid_prefix:
  assumes "libp2p_uvarint_decode (Buf cid) = (LIBP2P_UVARINT_OK, 1, r)"
    and "libp2p_uvarint_decode (Buf (drop r cid)) = (LIBP2P_UVARINT_OK, 0x72, r')"
  shows "r = 1 \<and> r' = 1 \<and> cid = 0x01 # 0x72 # drop 2 cid"
  using uvarint_decode_ok(2,5) [OF assms(1)] uvarint_decode_ok(2,5) [OF assms(2)]
  by (simp add: uvarint_bytes_small drop_Suc) (metis numeral_2_eq_2 drop_Suc drop_0 list.sel(3))

lemma decode_cid_total:
  assumes "length t \<le> PTRDIFF_MAX"
  shows "\<exists>e n d. peer_id_decode_cid_text lib (Buf t) (Buf out) = Some (e, n, Buf d) \<and> length d = length out \<and>
     (e = LIBP2P_PEER_ID_OK \<longrightarrow> n \<le> length out \<and> is_text_of t (take n d))"
proof -
  from multibase_decode_total [OF assms, of "replicate 50 0"] obtain e base n d where
    d: "libp2p_multibase_decode (Buf t) (Buf (replicate 50 0)) = Some (e, base, n, Buf d)" "length d = 50"
    by auto
  let ?cid = "take n d"
  obtain e1 v r where u1: "libp2p_uvarint_decode (Buf ?cid) = (e1, v, r)" by (rule prod_cases3)
  obtain e2 c r2 where u2: "libp2p_uvarint_decode (Buf (drop r ?cid)) = (e2, c, r2)" by (rule prod_cases3)
  show ?thesis
  proof (cases "t \<noteq> [] \<and> e = LIBP2P_MULTIBASE_OK \<and> e1 = LIBP2P_UVARINT_OK \<and> v = 1 \<and> r \<le> n \<and>
      e2 = LIBP2P_UVARINT_OK \<and> c = 0x72")
    case False
    then show ?thesis
      using d u1 u2 by (auto simp: peer_id_decode_cid_text_def peer_id_constants Let_def)
  next
    case True
    then have ok: "e = LIBP2P_MULTIBASE_OK" "e1 = LIBP2P_UVARINT_OK" "v = 1" "e2 = LIBP2P_UVARINT_OK" "c = 0x72"
      by auto
    from multibase_decode_OK [OF assms d(1) [unfolded ok]] obtain b where
      b: "multibase_supported b" "t = multibase_text b ?cid" "n \<le> 50" by auto
    from cid_prefix [OF u1 [unfolded ok] u2 [unfolded ok]] have
      r: "r = 1" "r2 = 1" and cid: "?cid = 0x01 # 0x72 # drop 2 ?cid" by auto
    have n: "length ?cid = n" using b(3) d(2) by simp
    with cid have n2: "2 \<le> n" by (metis One_nat_def Suc_le_mono le0 length_Cons numeral_2_eq_2)
    obtain v2 where v2: "peer_id_validate_binary_peer_id lib (Buf (drop 2 ?cid)) = Some v2"
      using validate_binary_total by blast
    let ?id = "drop 2 ?cid"
    have len: "length ?id = n - 2" using n by simp
    show ?thesis
    proof (cases "v2 = LIBP2P_PEER_ID_OK \<and> n - 2 \<le> length out")
      case False
      then show ?thesis
        using True d u1 u2 v2 r by (auto simp: peer_id_decode_cid_text_def peer_id_constants numeral_2_eq_2 Let_def)
    next
      case v: True
      have "copy_from out ?cid 2 (n - 2) = Some (?id @ drop (n - 2) out)"
        using v n n2 len by (simp add: copy_from_def memcpy_at_def)
      moreover have "is_text_of t ?id" unfolding is_text_of_def using b cid by metis
      ultimately show ?thesis
        using True d u1 u2 v2 r v len by (simp add: peer_id_decode_cid_text_def peer_id_constants numeral_2_eq_2 Let_def)
    qed
  qed
qed

lemma decode_text_total:
  assumes "length t \<le> PTRDIFF_MAX"
  shows "\<exists>e n d. decode_text lib t = Some (e, n, Buf d) \<and> length d = 39 \<and>
     (e = LIBP2P_PEER_ID_OK \<longrightarrow> n \<le> 39 \<and> is_text_of t (take n d))"
proof (cases "peer_id_is_legacy_text t")
  case True
  then show ?thesis using decode_legacy_total [of t "replicate 39 0"]
    by (auto simp: decode_text_def peer_id_constants is_text_of_def)
next
  case False
  then show ?thesis using decode_cid_total [OF assms, of lib "replicate 39 0"]
    by (simp add: decode_text_def peer_id_constants)
qed

lemma base58_text_nil: "base58_text [] = []"
  by (simp add: base58_text_def)

lemma valid_legacy_text:
  assumes "peer_id_valid lib b"
  shows "peer_id_is_legacy_text (base58_text b)" and "length (base58_text b) \<le> 54"
    and "base58_text b \<noteq> []"
proof -
  from peer_id_valid_multihash [OF assms] obtain c d where cd: "multihash_valid (c, d)" "b = multihash_bytes (c, d)"
    by blast
  have "p2p_value b" unfolding p2p_value_def using cd by blast
  then have "multiaddr_is_legacy_peer_id (base58_text b)" by (rule p2p_text_legacy)
  then show "peer_id_is_legacy_text (base58_text b)" and "base58_text b \<noteq> []"
    by (auto simp: multiaddr_is_legacy_peer_id_def peer_id_is_legacy_text_def)
  have "b \<noteq> []" and "length b \<le> 39" using peer_id_valid_length [OF assms] by auto
  moreover from this have "length b * 138 div 100 \<le> 39 * 138 div 100" by (intro div_le_mono) simp
  ultimately show "length (base58_text b) \<le> 54" using base58_text_bound [of b] by simp
qed

lemma decode_text_valid:
  assumes v: "peer_id_valid lib b" and t: "is_text_of t b" and len: "length t \<le> PTRDIFF_MAX"
  shows "\<exists>d. decode_text lib t = Some (LIBP2P_PEER_ID_OK, length b, Buf d) \<and> take (length b) d = b \<and>
    length d = 39"
proof (cases "t = base58_text b")
  case True
  note legacy = valid_legacy_text [OF v]
  have "length (multibase_text LIBP2P_MULTIBASE_BASE58BTC b) \<le> PTRDIFF_MAX"
    using legacy(2) by (simp add: PTRDIFF_MAX_def)
  then obtain d where
    "libp2p_multibase_decode (Buf (multibase_text LIBP2P_MULTIBASE_BASE58BTC b)) (Buf (replicate 39 0)) =
      Some (LIBP2P_MULTIBASE_OK, Some LIBP2P_MULTIBASE_BASE58BTC, length b, Buf d)"
    "take (length b) d = b" "length d = 39"
    using multibase_decode_text [of LIBP2P_MULTIBASE_BASE58BTC b "replicate 39 0"] peer_id_valid_length [OF v] by auto
  then show ?thesis
    using True legacy by (simp add: decode_text_def peer_id_decode_legacy_text_def peer_id_constants)
next
  case False
  with t obtain base where base: "multibase_supported base" and tb: "t = multibase_text base (0x01 # 0x72 # b)"
    unfolding is_text_of_def by blast
  have b39: "length b \<le> 39" using peer_id_valid_length [OF v] by auto
  have ne: "t \<noteq> []" and "\<not> peer_id_is_legacy_text t"
    using base unfolding tb by (cases base; simp add: peer_id_is_legacy_text_def)+
  moreover obtain d where
    d: "libp2p_multibase_decode (Buf t) (Buf (replicate 50 0)) =
      Some (LIBP2P_MULTIBASE_OK, Some base, length b + 2, Buf d)"
    "take (length b + 2) d = 0x01 # 0x72 # b"
    using multibase_decode_text [OF base len [unfolded tb], of "replicate 50 0"] b39 tb by auto
  moreover have "libp2p_uvarint_decode (Buf (0x01 # rest)) = (LIBP2P_UVARINT_OK, 1, 1)" for rest
    using uvarint_decode_bytes [of 1 rest] by (simp add: uvarint_bytes_small)
  moreover have "libp2p_uvarint_decode (Buf (0x72 # rest)) = (LIBP2P_UVARINT_OK, 0x72, 1)" for rest
    using uvarint_decode_bytes [of "0x72" rest] by (simp add: uvarint_bytes_small)
  moreover have "copy_from (replicate 39 0) (0x01 # 0x72 # b) 2 (length b) =
      Some (b @ drop (length b) (replicate 39 0))"
    using b39 by (simp add: copy_from_def memcpy_at_def)
  ultimately show ?thesis
    using b39 validate_binary_valid [OF v]
    by (simp add: decode_text_def peer_id_decode_cid_text_def peer_id_constants numeral_2_eq_2 Let_def)
qed

lemma from_string_unfold:
  "libp2p_peer_id_from_string lib (Buf t) out =
    (if t = [] then Some (LIBP2P_PEER_ID_ERR_INVALID_PEER_ID, 0, out)
     else do {
        (result, decoded_len, decoded) \<leftarrow> decode_text lib t;
        (if result \<noteq> LIBP2P_PEER_ID_OK then Some (result, 0, out)
         else do {
           result2 \<leftarrow> peer_id_validate_binary_peer_id lib (Buf (take decoded_len (contents decoded)));
           (if result2 \<noteq> LIBP2P_PEER_ID_OK then Some (result2, 0, out)
            else if is_null out \<or> clen out < decoded_len
            then Some (LIBP2P_PEER_ID_ERR_BUF_TOO_SMALL, decoded_len, out)
            else do {
              out' \<leftarrow> copy_from (contents out) (contents decoded) 0 decoded_len;
              Some (LIBP2P_PEER_ID_OK, decoded_len, Buf out')
            })
         })
     })"
  by (simp add: libp2p_peer_id_from_string_def decode_text_def)

text \<open>
  \<open>libp2p_peer_id_from_string\<close> accepts exactly the texts of valid peer ids: the base58 form and the
  CID form in both bases. On such a text it stores the peer id at the front of the output, or reports
  the size that is missing; on every other text it returns an error and stores nothing. In no case
  does it leave a buffer.
\<close>

theorem peer_id_from_string_correct:
  assumes len: "length t \<le> PTRDIFF_MAX"
  shows "(\<exists>b. peer_id_valid lib b \<and> is_text_of t b \<and> libp2p_peer_id_from_string lib (Buf t) out =
      Some (if is_null out \<or> clen out < length b
            then (LIBP2P_PEER_ID_ERR_BUF_TOO_SMALL, length b, out)
            else (LIBP2P_PEER_ID_OK, length b, Buf (b @ drop (length b) (contents out))))) \<or>
    (\<nexists>b. peer_id_valid lib b \<and> is_text_of t b) \<and>
    (\<exists>e. e \<noteq> LIBP2P_PEER_ID_OK \<and> libp2p_peer_id_from_string lib (Buf t) out = Some (e, 0, out))"
proof (cases "\<exists>b. peer_id_valid lib b \<and> is_text_of t b")
  case True
  then obtain b where v: "peer_id_valid lib b" and t: "is_text_of t b" by blast
  from decode_text_valid [OF v t len] obtain d where
    d: "decode_text lib t = Some (LIBP2P_PEER_ID_OK, length b, Buf d)" "take (length b) d = b" "length d = 39"
    by blast
  have b39: "length b \<le> 39" using peer_id_valid_length [OF v] by auto
  have "t \<noteq> []"
  proof
    assume "t = []"
    then show False using t valid_legacy_text(3) [OF v] unfolding is_text_of_def
      by (metis libp2p_multibase_t.exhaust list.distinct(1) multibase_supported.simps(1) multibase_text.simps(1,2))
  qed
  moreover have "copy_from xs d 0 (length b) = Some (b @ drop (length b) xs)" if "length b \<le> length xs" for xs
    using that d b39 by (simp add: copy_from_def memcpy_at_def)
  ultimately have "libp2p_peer_id_from_string lib (Buf t) out =
      Some (if is_null out \<or> clen out < length b
            then (LIBP2P_PEER_ID_ERR_BUF_TOO_SMALL, length b, out)
            else (LIBP2P_PEER_ID_OK, length b, Buf (b @ drop (length b) (contents out))))"
    using validate_binary_valid [OF v] d by (cases out) (simp_all add: from_string_unfold)
  with v t show ?thesis by blast
next
  case False
  from decode_text_total [OF len, of lib] obtain e n d where
    d: "decode_text lib t = Some (e, n, Buf d)" and ok: "e = LIBP2P_PEER_ID_OK \<longrightarrow> is_text_of t (take n d)" by blast
  obtain r where r: "peer_id_validate_binary_peer_id lib (Buf (take n d)) = Some r"
    using validate_binary_total by blast
  have "e \<noteq> LIBP2P_PEER_ID_OK \<or> r \<noteq> LIBP2P_PEER_ID_OK"
    using False ok validate_binary_ok [of lib "take n d"] r by auto
  then have "\<exists>e. e \<noteq> LIBP2P_PEER_ID_OK \<and> libp2p_peer_id_from_string lib (Buf t) out = Some (e, 0, out)"
    by (auto simp: from_string_unfold d r)
  with False show ?thesis by blast
qed

text \<open>Witness: the CID form of a sha2-256 peer id.\<close>

theorem peer_id_from_string_correct_witness:
  "\<exists>b. peer_id_valid sample_secp256k1 b \<and> libp2p_peer_id_from_string sample_secp256k1
      (Buf (multibase_text LIBP2P_MULTIBASE_BASE64URL (0x01 # 0x72 # 0x12 # 0x20 # replicate 32 7))) (Buf []) =
    Some (LIBP2P_PEER_ID_ERR_BUF_TOO_SMALL, length b, Buf [])"
proof -
  let ?b = "0x12 # 0x20 # replicate 32 7"
  let ?t = "multibase_text LIBP2P_MULTIBASE_BASE64URL (0x01 # 0x72 # ?b)"
  have len: "length ?t \<le> PTRDIFF_MAX" by (simp add: length_base64_text PTRDIFF_MAX_def)
  have "peer_id_valid sample_secp256k1 ?b"
    unfolding peer_id_valid_def using multihash_sha256 [of "replicate 32 7"]
    by (intro disjI2 exI [where x = "replicate 32 7"]) simp
  moreover have "is_text_of ?t ?b" unfolding is_text_of_def by (intro disjI2 exI [where x = LIBP2P_MULTIBASE_BASE64URL]) simp
  ultimately show ?thesis
    using peer_id_from_string_correct [OF len, of sample_secp256k1 "Buf []"] peer_id_valid_length [of sample_secp256k1] by force
qed

subsection \<open>Printing\<close>

lemma encode_peer_id_text:
  assumes "peer_id_valid lib b"
  shows "\<exists>tail. libp2p_multibase_encode LIBP2P_MULTIBASE_BASE58BTC (Buf b) (Buf (replicate 96 (CHR 0x00))) =
    Some (LIBP2P_MULTIBASE_OK, Suc (length (base58_text b)), Buf (CHR ''z'' # base58_text b @ tail))"
  using encode_base58_correct [of b "replicate 96 (CHR 0x00)"] valid_legacy_text(2) [OF assms] by auto

lemma to_string_valid:
  assumes v: "peer_id_valid lib b"
  shows "libp2p_peer_id_to_string lib (Buf b) out =
    Some (if is_null out \<or> clen out < length (base58_text b)
          then (LIBP2P_PEER_ID_ERR_BUF_TOO_SMALL, length (base58_text b), out)
          else (LIBP2P_PEER_ID_OK, length (base58_text b),
                Buf (base58_text b @ drop (length (base58_text b)) (contents out))))"
proof -
  from encode_peer_id_text [OF v] obtain tail where
    "libp2p_multibase_encode LIBP2P_MULTIBASE_BASE58BTC (Buf b) (Buf (replicate 96 (CHR 0x00))) =
      Some (LIBP2P_MULTIBASE_OK, Suc (length (base58_text b)), Buf (CHR ''z'' # base58_text b @ tail))" by blast
  then show ?thesis
    using validate_binary_valid [OF v]
    by (cases out) (simp_all add: libp2p_peer_id_to_string_def peer_id_constants memcpy_at_def
        del: libp2p_multibase_encode.simps)
qed

text \<open>
  \<open>libp2p_peer_id_to_string\<close> prints exactly the valid peer ids, and parsing the printed text gives
  the same bytes back, whatever follows them in the buffers.
\<close>

theorem peer_id_text_roundtrip:
  "(peer_id_valid lib b \<longrightarrow>
     (\<exists>t. t \<noteq> [] \<and> length t \<le> 54 \<and>
       (\<forall>out. length t \<le> length out \<longrightarrow> libp2p_peer_id_to_string lib (Buf b) (Buf out) =
          Some (LIBP2P_PEER_ID_OK, length t, Buf (t @ drop (length t) out))) \<and>
       (\<forall>out. length b \<le> length out \<longrightarrow> libp2p_peer_id_from_string lib (Buf t) (Buf out) =
          Some (LIBP2P_PEER_ID_OK, length b, Buf (b @ drop (length b) out))))) \<and>
   (\<not> peer_id_valid lib b \<longrightarrow>
     (\<exists>e. e \<noteq> LIBP2P_PEER_ID_OK \<and> libp2p_peer_id_to_string lib (Buf b) out = Some (e, 0, out)))"
proof (cases "peer_id_valid lib b")
  case True
  note legacy = valid_legacy_text [OF True]
  have len: "length (base58_text b) \<le> PTRDIFF_MAX" using legacy(2) by (simp add: PTRDIFF_MAX_def)
  have "is_text_of (base58_text b) b" by (simp add: is_text_of_def)
  from decode_text_valid [OF True this len] obtain d where
    d: "decode_text lib (base58_text b) = Some (LIBP2P_PEER_ID_OK, length b, Buf d)"
    "take (length b) d = b" "length d = 39" by blast
  have "libp2p_peer_id_from_string lib (Buf (base58_text b)) (Buf out) =
      Some (LIBP2P_PEER_ID_OK, length b, Buf (b @ drop (length b) out))" if "length b \<le> length out" for out
    using that d legacy(3) validate_binary_valid [OF True] peer_id_valid_length [OF True]
    by (auto simp: from_string_unfold copy_from_def memcpy_at_def)
  then show ?thesis
    using True legacy to_string_valid [OF True] by (intro conjI impI exI [where x = "base58_text b"]) auto
next
  case False
  obtain r where "peer_id_validate_binary_peer_id lib (Buf b) = Some r" using validate_binary_total by blast
  with False validate_binary_ok [of lib b] show ?thesis by (auto simp: libp2p_peer_id_to_string_def)
qed

theorem peer_id_text_roundtrip_witness:
  "\<exists>t. (\<forall>out. length t \<le> length out \<longrightarrow>
      libp2p_peer_id_to_string sample_secp256k1 (Buf (0x12 # 0x20 # replicate 32 7)) (Buf out) =
        Some (LIBP2P_PEER_ID_OK, length t, Buf (t @ drop (length t) out))) \<and>
    libp2p_peer_id_from_string sample_secp256k1 (Buf t) (Buf (replicate 34 0)) =
      Some (LIBP2P_PEER_ID_OK, 34, Buf (0x12 # 0x20 # replicate 32 7))"
proof -
  have "peer_id_valid sample_secp256k1 (0x12 # 0x20 # replicate 32 7)"
    unfolding peer_id_valid_def using multihash_sha256 [of "replicate 32 7"]
    by (intro disjI2 exI [where x = "replicate 32 7"]) simp
  then show ?thesis using peer_id_text_roundtrip [of sample_secp256k1 "0x12 # 0x20 # replicate 32 7"] by fastforce
qed

text \<open>
  A base58 text of more than 39 bytes does not fit the decoding buffer of
  \<open>libp2p_peer_id_from_string\<close>. The function then reports BUF_TOO_SMALL, however large the buffer of the
  caller is, and asks for 0 bytes, although its documentation promises INVALID_PEER_ID for malformed
  peer ids and the required size with BUF_TOO_SMALL.
\<close>

theorem peer_id_long_text_buf_too_small:
  assumes "39 < length b" and "length (base58_text b) \<le> 96" and "peer_id_is_legacy_text (base58_text b)"
  shows "libp2p_peer_id_from_string lib (Buf (base58_text b)) out =
    Some (LIBP2P_PEER_ID_ERR_BUF_TOO_SMALL, 0, out)"
proof -
  have ne: "base58_text b \<noteq> []"
    using assms(1) base58_bytes_text [of b] base58_bytes_text [of "[]"] by (metis base58_bytes_text list.size(3) not_less_zero base58_text_nil)
  obtain w o' where "multibase_decode_base58btc (CHR ''z'' # base58_text b) (Buf (replicate 39 0)) =
      Some (LIBP2P_MULTIBASE_ERR_BUF_TOO_SMALL, w, Buf o')"
    using decode_base58_correct [of "replicate 39 0" "base58_text b" "CHR ''z''"] assms(1) by auto
  then show ?thesis
    using assms(2,3) ne
    by (simp add: libp2p_peer_id_from_string_def peer_id_decode_legacy_text_def peer_id_constants
        multibase_base_from_prefix_def)
qed

theorem peer_id_long_text_buf_too_small_witness:
  "libp2p_peer_id_from_string sample_secp256k1 (Buf (base58_text (replicate 40 0))) (Buf (replicate 100 0)) =
    Some (LIBP2P_PEER_ID_ERR_BUF_TOO_SMALL, 0, Buf (replicate 100 0))"
proof (rule peer_id_long_text_buf_too_small)
  show "length (base58_text (replicate 40 0)) \<le> 96"
    using base58_text_bound [of "replicate 40 0"] by simp
  show "peer_id_is_legacy_text (base58_text (replicate 40 0))"
    by (simp add: peer_id_is_legacy_text_def base58_text_def numeral_eq_Suc)
qed simp

end
