(* ===== verification/Peer_Id_Keys.thy ===== *)
theory Peer_Id_Keys
  imports Peer_Id_Text
begin

text \<open>
  Keys, derived peer ids and signatures. Everything that concerns the curve is stated for every library
  that obeys \<open>secp256k1_ok\<close>.
\<close>

subsection \<open>The protobuf form of keys\<close>

lemma key_message_data: "drop (length (key_message k) - length k) (key_message k) = k"
  by (simp add: key_message_def numeral_3_eq_3)

lemma copy_from_key_message:
  "length k \<le> length out \<Longrightarrow>
   copy_from out (key_message k) (length (key_message k) - length k) (length k) = Some (k @ drop (length k) out)"
  by (simp add: copy_from_def memcpy_at_def key_message_data) (simp add: length_key_message)

lemma public_key_decode_message:
  assumes "length k < 2 ^ 63"
  shows "libp2p_peer_id_public_key_decode lib (Buf (key_message k)) out =
    Some (if is_null out \<or> clen out < length k then (LIBP2P_PEER_ID_ERR_BUF_TOO_SMALL, length k, out)
          else if length k \<in> {33, 65} \<and> secp256k1_ec_pubkey_parse lib k \<noteq> None
          then (LIBP2P_PEER_ID_OK, length k, Buf (k @ drop (length k) (contents out)))
          else (LIBP2P_PEER_ID_ERR_INVALID_PUBLIC_KEY, length k, out))"
  using copy_from_key_message [of k "contents out"]
  by (cases out)
    (auto simp: libp2p_peer_id_public_key_decode_def decode_key_message_bytes [OF assms] key_message_data
      peer_id_parse_public_key_def peer_id_public_key_length_is_supported_def
      peer_id_constants split: option.split)

text \<open>
  Claim C29. The protobuf codec of public keys is exact: encoding a key that the library accepts stores
  its key message, or reports the size that is missing, and decoding succeeds exactly on the key messages
  of such keys and gives the key back.
\<close>

theorem public_key_codec:
  "libp2p_peer_id_public_key_encode lib (Buf k) out old =
     Some (if length k \<in> {33, 65} \<and> secp256k1_ec_pubkey_parse lib k \<noteq> None
           then if is_null out \<or> clen out < length (key_message k)
                then (LIBP2P_PEER_ID_ERR_BUF_TOO_SMALL, length (key_message k), out)
                else (LIBP2P_PEER_ID_OK, length (key_message k),
                      Buf (key_message k @ drop (length (key_message k)) (contents out)))
           else (LIBP2P_PEER_ID_ERR_INVALID_PUBLIC_KEY, old, out)) \<and>
   (libp2p_peer_id_public_key_decode lib (Buf m) (Buf xs) = Some (LIBP2P_PEER_ID_OK, n, Buf ys) \<longleftrightarrow>
     (\<exists>k. m = key_message k \<and> length k \<in> {33, 65} \<and> secp256k1_ec_pubkey_parse lib k \<noteq> None \<and>
        n = length k \<and> n \<le> length xs \<and> ys = k @ drop n xs))"
proof (intro conjI iffI)
  show "libp2p_peer_id_public_key_encode lib (Buf k) out old =
     Some (if length k \<in> {33, 65} \<and> secp256k1_ec_pubkey_parse lib k \<noteq> None
           then if is_null out \<or> clen out < length (key_message k)
                then (LIBP2P_PEER_ID_ERR_BUF_TOO_SMALL, length (key_message k), out)
                else (LIBP2P_PEER_ID_OK, length (key_message k),
                      Buf (key_message k @ drop (length (key_message k)) (contents out)))
           else (LIBP2P_PEER_ID_ERR_INVALID_PUBLIC_KEY, old, out))"
    by (auto simp: libp2p_peer_id_public_key_encode_def peer_id_parse_public_key_def encode_key_message_ok
        peer_id_public_key_length_is_supported_def peer_id_constants split: option.split)
next
  assume d: "libp2p_peer_id_public_key_decode lib (Buf m) (Buf xs) = Some (LIBP2P_PEER_ID_OK, n, Buf ys)"
  then obtain off kl where "peer_id_decode_key_message (Buf m) = Some (LIBP2P_PEER_ID_OK, off, kl)"
    by (auto simp: libp2p_peer_id_public_key_decode_def bind_eq_Some_conv split: if_splits)
  then obtain k where "m = key_message k" "length k < 2 ^ 63" by (auto simp: decode_key_message_iff)
  with d show "\<exists>k. m = key_message k \<and> length k \<in> {33, 65} \<and> secp256k1_ec_pubkey_parse lib k \<noteq> None \<and>
        n = length k \<and> n \<le> length xs \<and> ys = k @ drop n xs"
    by (intro exI [of _ k]) (auto simp: public_key_decode_message split: if_splits)
qed (auto simp: public_key_decode_message)

subsection \<open>Derived peer ids\<close>

definition peer_id_of :: "('k, 's) secp256k1 \<Rightarrow> byte list \<Rightarrow> byte list" where
  "peer_id_of lib k =
     (if length k = 33 then multihash_bytes (0, key_message k)
      else multihash_bytes (0x12, secp256k1_sha256 lib (key_message k)))"

lemma key_message_lengths:
  "length k = 33 \<Longrightarrow> length (key_message k) = 37" "length k = 65 \<Longrightarrow> length (key_message k) = 69"
  "length k = 32 \<Longrightarrow> length (key_message k) = 36"
  by (simp_all add: key_message_short)

lemma peer_id_of_valid:
  assumes "secp256k1_ok lib" and "length k \<in> {33, 65}" and "secp256k1_ec_pubkey_parse lib k \<noteq> None"
  shows "peer_id_valid lib (peer_id_of lib k)" and "length (peer_id_of lib k) = (if length k = 33 then 39 else 34)"
proof -
  have "length (secp256k1_sha256 lib (key_message k)) = 32" using assms(1) by (simp add: secp256k1_ok_def)
  then show "peer_id_valid lib (peer_id_of lib k)" and "length (peer_id_of lib k) = (if length k = 33 then 39 else 34)"
    using assms(2,3) unfolding peer_id_valid_def peer_id_of_def
    by (auto simp: multihash_sha256 multihash_key_message)
qed

lemma from_public_key:
  assumes ok: "secp256k1_ok lib" and k: "length k \<in> {33, 65}" "secp256k1_ec_pubkey_parse lib k \<noteq> None"
  shows "libp2p_peer_id_from_secp256k1_public_key lib (Buf k) out =
    Some (if is_null out \<or> clen out < length (peer_id_of lib k)
          then (LIBP2P_PEER_ID_ERR_BUF_TOO_SMALL, length (peer_id_of lib k), out)
          else (LIBP2P_PEER_ID_OK, length (peer_id_of lib k),
                Buf (peer_id_of lib k @ drop (length (peer_id_of lib k)) (contents out))))"
proof -
  have sha: "length (secp256k1_sha256 lib (key_message k)) = 32" using ok by (simp add: secp256k1_ok_def)
  have enc: "libp2p_peer_id_public_key_encode lib (Buf k) (Buf (replicate 69 0)) 0 =
      Some (LIBP2P_PEER_ID_OK, length (key_message k),
        Buf (key_message k @ drop (length (key_message k)) (replicate 69 0)))"
    using k key_message_lengths [of k]
    by (auto simp: libp2p_peer_id_public_key_encode_def peer_id_parse_public_key_def encode_key_message_ok
        peer_id_public_key_length_is_supported_def peer_id_constants split: option.split)
  have v: "multihash_validate_code_and_length 0 (length (key_message k)) = LIBP2P_MULTIHASH_OK"
    "multihash_validate_code_and_length 0x12 32 = LIBP2P_MULTIHASH_OK"
    using k(1) key_message_lengths [of k] by (auto simp: multihash_validate_iff)
  show ?thesis
    using k(1) key_message_lengths [of k] enc v sha
    by (auto simp: libp2p_peer_id_from_secp256k1_public_key_def peer_id_constants multihash_encode_correct
        peer_id_of_def peer_id_sha256_def Let_def)
qed

lemma extract_public_key:
  assumes ok: "secp256k1_ok lib" and k: "length k \<in> {33, 65}" "secp256k1_ec_pubkey_parse lib k \<noteq> None"
  shows "libp2p_peer_id_extract_secp256k1_public_key lib (Buf (peer_id_of lib k)) out =
    Some (if length k = 65 then (LIBP2P_PEER_ID_ERR_NO_INLINE_PUBLIC_KEY, 0, out)
          else if is_null out \<or> clen out < 33 then (LIBP2P_PEER_ID_ERR_BUF_TOO_SMALL, 33, out)
          else (LIBP2P_PEER_ID_OK, 33, Buf (k @ drop 33 (contents out))))"
proof -
  have sha: "length (secp256k1_sha256 lib (key_message k)) = 32" using ok by (simp add: secp256k1_ok_def)
  show ?thesis
  proof (cases "length k = 33")
    case True
    have v: "multihash_valid (0, key_message k)" using True by (simp add: multihash_valid_iff key_message_short)
    have l: "length (multihash_bytes (0, key_message k)) = 39" using True by (simp only: multihash_key_message) simp
    have d: "drop 2 (multihash_bytes (0, key_message k)) = key_message k"
      using True by (simp add: multihash_bytes_def key_message_short uvarint_bytes_small)
    show ?thesis
      using True k l d public_key_decode_message [of k lib out]
      by (simp add: libp2p_peer_id_extract_secp256k1_public_key_def peer_id_of_def read_header_multihash [OF v]
          key_message_lengths peer_id_constants SIZE_MAX_def Let_def)
  next
    case False
    have v: "multihash_valid (0x12, secp256k1_sha256 lib (key_message k))" using sha by (simp add: multihash_valid_iff)
    have l: "length (multihash_bytes (0x12, secp256k1_sha256 lib (key_message k))) = 34"
      using sha by (simp only: multihash_sha256) simp
    show ?thesis
      using False k l sha
      by (simp add: libp2p_peer_id_extract_secp256k1_public_key_def peer_id_of_def read_header_multihash [OF v]
          peer_id_constants SIZE_MAX_def Let_def)
  qed
qed

text \<open>
  The peer id that is derived from a public key is valid and has the size that
  \<open>libp2p_peer_id_size_from_secp256k1_public_key\<close> announces. From the peer id of a compressed key the key can be
  extracted again, an uncompressed key is hashed and the extraction says so.
\<close>

theorem peer_id_derive_extract:
  assumes "secp256k1_ok lib" and "length k \<in> {33, 65}" and "secp256k1_ec_pubkey_parse lib k \<noteq> None"
  shows "\<exists>b. peer_id_valid lib b \<and>
    libp2p_peer_id_size_from_secp256k1_public_key (length k) = (LIBP2P_PEER_ID_OK, length b) \<and>
    (\<forall>out. libp2p_peer_id_from_secp256k1_public_key lib (Buf k) out =
       Some (if is_null out \<or> clen out < length b then (LIBP2P_PEER_ID_ERR_BUF_TOO_SMALL, length b, out)
             else (LIBP2P_PEER_ID_OK, length b, Buf (b @ drop (length b) (contents out))))) \<and>
    (\<forall>out. libp2p_peer_id_extract_secp256k1_public_key lib (Buf b) out =
       Some (if length k = 65 then (LIBP2P_PEER_ID_ERR_NO_INLINE_PUBLIC_KEY, 0, out)
             else if is_null out \<or> clen out < 33 then (LIBP2P_PEER_ID_ERR_BUF_TOO_SMALL, 33, out)
             else (LIBP2P_PEER_ID_OK, 33, Buf (k @ drop 33 (contents out)))))"
proof -
  have v: "multihash_validate_code_and_length 0 37 = LIBP2P_MULTIHASH_OK"
    "multihash_validate_code_and_length 0x12 32 = LIBP2P_MULTIHASH_OK" by (simp_all add: multihash_validate_iff)
  have "peer_id_key_message_size (length k) = (if length k = 33 then 37 else 69)"
    using assms(2) key_message_size [of k] key_message_lengths [of k] by auto
  then have "libp2p_peer_id_size_from_secp256k1_public_key (length k) =
      (LIBP2P_PEER_ID_OK, length (peer_id_of lib k))"
    using assms(2) peer_id_of_valid(2) [OF assms] multihash_size_ok [OF v(1)] multihash_size_ok [OF v(2)]
    by (auto simp: libp2p_peer_id_size_from_secp256k1_public_key_def libp2p_peer_id_public_key_encoded_size_def
        peer_id_public_key_length_is_supported_def peer_id_constants uvarint_bytes_small)
  with from_public_key [OF assms] extract_public_key [OF assms] peer_id_of_valid(1) [OF assms] show ?thesis
    by (intro exI [of _ "peer_id_of lib k"]) simp
qed

theorem peer_id_derive_extract_witness:
  "\<exists>b. peer_id_valid sample_secp256k1 b \<and>
    libp2p_peer_id_from_secp256k1_public_key sample_secp256k1 (Buf (2 # replicate 32 9)) (Buf []) =
      Some (LIBP2P_PEER_ID_ERR_BUF_TOO_SMALL, length b, Buf []) \<and>
    libp2p_peer_id_extract_secp256k1_public_key sample_secp256k1 (Buf b) (Buf (replicate 33 0)) =
      Some (LIBP2P_PEER_ID_OK, 33, Buf (2 # replicate 32 9))"
proof -
  have "secp256k1_ec_pubkey_parse sample_secp256k1 (2 # replicate 32 9) \<noteq> None"
    by (simp add: sample_secp256k1_def)
  from peer_id_derive_extract [OF sample_secp256k1_ok _ this] obtain b where
    b: "peer_id_valid sample_secp256k1 b"
    "\<forall>out. libp2p_peer_id_from_secp256k1_public_key sample_secp256k1 (Buf (2 # replicate 32 9)) out =
       Some (if is_null out \<or> clen out < length b then (LIBP2P_PEER_ID_ERR_BUF_TOO_SMALL, length b, out)
             else (LIBP2P_PEER_ID_OK, length b, Buf (b @ drop (length b) (contents out))))"
    "\<forall>out. libp2p_peer_id_extract_secp256k1_public_key sample_secp256k1 (Buf b) out =
       Some (if is_null out \<or> clen out < 33 then (LIBP2P_PEER_ID_ERR_BUF_TOO_SMALL, 33, out)
             else (LIBP2P_PEER_ID_OK, 33, Buf (2 # replicate 32 9 @ drop 33 (contents out))))" by auto
  moreover have "0 < length b" using peer_id_valid_length [OF b(1)] by auto
  ultimately show ?thesis by (intro exI [of _ b]) simp
qed

subsection \<open>Signatures\<close>

lemma sign_hash_ok:
  assumes "secp256k1_ok lib"
    and s: "libp2p_peer_id_sign_hash lib (Buf sk) (Buf h) (Buf out) = Some (LIBP2P_PEER_ID_OK, m, Buf sig)"
  shows "\<exists>s der. secp256k1_ecdsa_sign lib h sk = Some s \<and> take m sig = der \<and> length der = m \<and> 0 < m \<and>
    secp256k1_ecdsa_signature_parse_der lib der = Some s \<and> length h = 32"
proof -
  from s obtain s der where sg: "secp256k1_ecdsa_sign lib h sk = Some s" and
    der: "secp256k1_ecdsa_signature_serialize_der lib 72 s = Some der" and h: "length h = 32" and
    m: "m = length der" and fit: "length der \<le> length out" and
    cp: "memcpy_at (replicate 72 0) 0 der \<bind> (\<lambda>sb. copy_from out sb 0 (length der)) = Some sig"
    by (auto simp: libp2p_peer_id_sign_hash_def Let_def peer_id_constants bind_eq_Some_conv
        split: if_splits option.splits)
  from assms(1) der have d: "0 < length der" "length der \<le> 72"
    "secp256k1_ecdsa_signature_parse_der lib der = Some s" unfolding secp256k1_ok_def by blast+
  have "memcpy_at (replicate 72 0) 0 der = Some (der @ replicate (72 - length der) 0)"
    using d by (simp add: memcpy_at_def)
  with cp have "copy_from out (der @ replicate (72 - length der) 0) 0 (length der) = Some sig" by simp
  then have "take m sig = der" using fit by (auto simp: memcpy_at_def copy_from_def m split: if_splits)
  with sg d h m show ?thesis by auto
qed

lemma serialized_key:
  assumes "secp256k1_ok lib" and "secp256k1_ec_pubkey_create lib sk = Some pk"
  shows "\<exists>bytes. secp256k1_ec_pubkey_serialize lib pk compressed (if compressed then 33 else 65) = (True, bytes) \<and>
    length bytes = (if compressed then 33 else 65) \<and> secp256k1_ec_pubkey_parse lib bytes = Some pk"
  using assms unfolding secp256k1_ok_def Let_def by blast

lemma public_key_from_private_ok:
  assumes "secp256k1_ok lib" and
    "libp2p_peer_id_public_key_from_private_key lib (Buf sk) compressed (Buf out) =
       Some (LIBP2P_PEER_ID_OK, n, Buf pk)"
  shows "\<exists>key. secp256k1_ec_pubkey_create lib sk = Some key \<and> n = (if compressed then 33 else 65) \<and>
    length (take n pk) = n \<and> secp256k1_ec_pubkey_parse lib (take n pk) = Some key"
proof -
  define r where "r = (if compressed then 33 else 65 :: nat)"
  from assms(2) obtain key where key: "secp256k1_ec_pubkey_create lib sk = Some key" and
    ser: "peer_id_serialize_public_key lib key compressed (Buf out) = Some (LIBP2P_PEER_ID_OK, n, Buf pk)"
    by (auto simp: libp2p_peer_id_public_key_from_private_key_def Let_def split: if_splits option.splits)
  from serialized_key [OF assms(1) key, of compressed, folded r_def] obtain bytes where b: "secp256k1_ec_pubkey_serialize lib key compressed r = (True, bytes)"
    "length bytes = r" "secp256k1_ec_pubkey_parse lib bytes = Some key"
    by blast
  have req: "(if compressed then LIBP2P_PEER_ID_SECP256K1_COMPRESSED_PUBLIC_KEY_BYTES
      else LIBP2P_PEER_ID_SECP256K1_UNCOMPRESSED_PUBLIC_KEY_BYTES) = r" by (simp add: peer_id_constants r_def)
  from ser b(1,2) have "n = r" and "memcpy_at out 0 bytes = Some pk"
    unfolding peer_id_serialize_public_key_def Let_def req
    by (auto simp: bind_eq_Some_conv split: if_splits)
  with b key show ?thesis by (auto simp: memcpy_at_def r_def split: if_splits)
qed

text \<open>
  Claim C24. Whenever a message is signed with a secret, the signature verifies for that message under
  the public key that is derived from the secret, in both serialisations of the key; all buffers are those
  that the calls filled.
\<close>

theorem signed_message_verifies:
  assumes "secp256k1_ok lib"
    and "libp2p_peer_id_public_key_from_private_key lib (Buf sk) compressed (Buf out) =
           Some (LIBP2P_PEER_ID_OK, n, Buf pk)"
    and "libp2p_peer_id_sign_message lib (Buf sk) message (Buf out') = Some (LIBP2P_PEER_ID_OK, m, Buf sig)"
  shows "libp2p_peer_id_verify_message lib (Buf (take n pk)) message (Buf (take m sig)) = LIBP2P_PEER_ID_OK"
proof -
  from public_key_from_private_ok [OF assms(1,2)] obtain key where
    key: "secp256k1_ec_pubkey_create lib sk = Some key" "n \<in> {33, 65}" "length (take n pk) = n"
    "secp256k1_ec_pubkey_parse lib (take n pk) = Some key" by auto
  define h where "h = peer_id_sha256 lib message"
  from sign_hash_ok [OF assms(1) assms(3) [unfolded libp2p_peer_id_sign_message_def]] obtain s where
    s: "secp256k1_ecdsa_sign lib h sk = Some s" "length (take m sig) = m" "0 < m"
    "secp256k1_ecdsa_signature_parse_der lib (take m sig) = Some s" "length h = 32"
    unfolding h_def by blast
  from assms(1) key(1) s(1) have v: "secp256k1_ecdsa_verify lib s h key" unfolding secp256k1_ok_def by blast
  have "peer_id_parse_public_key lib (Buf (take n pk)) = (LIBP2P_PEER_ID_OK, Some key)"
    using key by (simp only: parse_public_key_ok) simp
  then show ?thesis
    using s v by (simp add: libp2p_peer_id_verify_message_def libp2p_peer_id_verify_hash_def
        h_def [symmetric] peer_id_constants del: length_take)
qed

theorem signed_message_verifies_witness:
  "\<exists>pk sig. libp2p_peer_id_public_key_from_private_key sample_secp256k1 (Buf (replicate 32 1)) True
      (Buf (replicate 33 0)) = Some (LIBP2P_PEER_ID_OK, 33, Buf pk) \<and>
    libp2p_peer_id_sign_message sample_secp256k1 (Buf (replicate 32 1)) (Buf [1, 2, 3]) (Buf (replicate 72 0)) =
      Some (LIBP2P_PEER_ID_OK, 32, Buf sig) \<and>
    libp2p_peer_id_verify_message sample_secp256k1 (Buf (take 33 pk)) (Buf [1, 2, 3]) (Buf (take 32 sig)) =
      LIBP2P_PEER_ID_OK"
proof -
  have ne: "replicate 32 (1 :: byte) \<noteq> replicate 32 0" by (simp add: numeral_eq_Suc)
  have pk: "libp2p_peer_id_public_key_from_private_key sample_secp256k1 (Buf (replicate 32 1)) True
      (Buf (replicate 33 0)) = Some (LIBP2P_PEER_ID_OK, 33, Buf (2 # replicate 32 1))"
    using ne by (simp add: libp2p_peer_id_public_key_from_private_key_def peer_id_validate_private_key_def
        peer_id_create_context_def peer_id_serialize_public_key_def sample_secp256k1_def peer_id_constants
        LIBP2P_PEER_ID_SECP256K1_CONTEXT_STORAGE_BYTES_def memcpy_at_def Let_def)
  have sig: "libp2p_peer_id_sign_message sample_secp256k1 (Buf (replicate 32 1)) (Buf [1, 2, 3])
      (Buf (replicate 72 0)) = Some (LIBP2P_PEER_ID_OK, 32, Buf (replicate 32 1 @ replicate 40 0))"
    using ne by (simp add: libp2p_peer_id_sign_message_def libp2p_peer_id_sign_hash_def
        peer_id_validate_private_key_def peer_id_create_context_def peer_id_sha256_def sample_secp256k1_def
        peer_id_constants LIBP2P_PEER_ID_SECP256K1_CONTEXT_STORAGE_BYTES_def memcpy_at_def copy_from_def Let_def)
  from signed_message_verifies [OF sample_secp256k1_ok pk sig] pk sig show ?thesis by blast
qed

end
