(* ===== verification/Protocol_Host.thy ===== *)
theory Protocol_Host
  imports Gossipsub_Wire Gossipsub_Router
begin

text \<open>
  What the ping and identify protocols share: the operations of the host on streams
  (\<open>src/include/libp2p/libp2p_host.h\<close>), as functions on the state of the host, and the search of a slot in a
  table. Streams, connections and user data are numbers, \<open>None\<close> is the null pointer.
\<close>

record 'h stream_host =
  host_read :: "'h \<Rightarrow> nat option \<Rightarrow> nat \<Rightarrow> (libp2p_host_err_t \<times> byte list \<times> bool) \<times> 'h"
    \<comment> \<open>\<open>libp2p_host_stream_read\<close> for a capacity: the code, the bytes stored and \<open>*fin\<close>\<close>
  host_write :: "'h \<Rightarrow> nat option \<Rightarrow> byte list \<Rightarrow> bool \<Rightarrow> (libp2p_host_err_t \<times> nat) \<times> 'h"
    \<comment> \<open>\<open>libp2p_host_stream_write\<close> with its flag \<open>fin\<close>: the code and \<open>*accepted\<close>\<close>
  host_finish :: "'h \<Rightarrow> nat option \<Rightarrow> libp2p_host_err_t \<times> 'h"
  host_reset :: "'h \<Rightarrow> nat option \<Rightarrow> u64 \<Rightarrow> libp2p_host_err_t \<times> 'h"
  host_set_user_data :: "'h \<Rightarrow> nat option \<Rightarrow> nat option \<Rightarrow> libp2p_host_err_t \<times> 'h"
  host_open :: "'h \<Rightarrow> nat option \<Rightarrow> string \<Rightarrow> nat option \<Rightarrow> (libp2p_host_err_t \<times> nat option) \<times> 'h"
    \<comment> \<open>\<open>libp2p_host_open_stream\<close>: the code and \<open>*out_open\<close>\<close>

text \<open>The loops over the slots: the first index from \<open>i\<close> on whose slot satisfies a test.\<close>

fun find_slot_loop :: "('s \<Rightarrow> bool) \<Rightarrow> 's list \<Rightarrow> nat \<Rightarrow> nat option" where
  "find_slot_loop test [] i = None"
| "find_slot_loop test (s # ss) i = (if test s then Some i else find_slot_loop test ss (i + 1))"

lemma find_loop_Some:
  "find_slot_loop test ss k = Some i \<Longrightarrow> k \<le> i \<and> i < k + length ss \<and> test (ss ! (i - k))"
proof (induction ss arbitrary: k)
  case (Cons s ss)
  show ?case
  proof (cases "test s")
    case False
    with Cons.prems have "find_slot_loop test ss (k + 1) = Some i" by simp
    from Cons.IH [OF this] have "k < i" "i < k + Suc (length ss)" "test (ss ! (i - Suc k))" by simp_all
    then show ?thesis by (simp add: nth_Cons')
  qed (use Cons.prems in simp)
qed simp

subsection \<open>What the protocols rely on\<close>

text \<open>
  \<open>reads h t\<close> and \<open>writes h t\<close> are the bytes that the host delivered from stream \<open>t\<close> and accepted for it. The
  host never delivers more than fits and never accepts more than it is given.
\<close>

definition stream_host_ok ::
  "('h, 'm) stream_host_scheme \<Rightarrow> ('h \<Rightarrow> nat \<Rightarrow> byte list) \<Rightarrow> ('h \<Rightarrow> nat \<Rightarrow> byte list) \<Rightarrow> bool" where
  "stream_host_ok ops reads writes \<longleftrightarrow>
     (\<forall>h t n e bs fin h'. host_read ops h (Some t) n = ((e, bs, fin), h') \<longrightarrow>
        length bs \<le> n \<and> writes h' = writes h \<and>
        reads h' = (if e = LIBP2P_HOST_OK then (reads h)(t := reads h t @ bs) else reads h)) \<and>
     (\<forall>h t d f e k h'. host_write ops h (Some t) d f = ((e, k), h') \<longrightarrow>
        reads h' = reads h \<and> (e = LIBP2P_HOST_OK \<longrightarrow> k \<le> length d) \<and>
        writes h' = (if e = LIBP2P_HOST_OK then (writes h)(t := writes h t @ take k d) else writes h)) \<and>
     (\<forall>h s. reads (snd (host_finish ops h s)) = reads h \<and> writes (snd (host_finish ops h s)) = writes h) \<and>
     (\<forall>h s c. reads (snd (host_reset ops h s c)) = reads h \<and> writes (snd (host_reset ops h s c)) = writes h) \<and>
     (\<forall>h s u. reads (snd (host_set_user_data ops h s u)) = reads h \<and>
        writes (snd (host_set_user_data ops h s u)) = writes h) \<and>
     (\<forall>h c i u. reads (snd (host_open ops h c i u)) = reads h \<and> writes (snd (host_open ops h c i u)) = writes h)"

lemma stream_read_law:
  assumes "stream_host_ok ops reads writes" and "host_read ops h (Some t) n = ((e, bs, fin), h')"
  shows "length bs \<le> n \<and> writes h' = writes h \<and>
    reads h' = (if e = LIBP2P_HOST_OK then (reads h)(t := reads h t @ bs) else reads h)"
  by (rule assms(1) [unfolded stream_host_ok_def, THEN conjunct1, rule_format, OF assms(2)])

lemma stream_write_law:
  assumes "stream_host_ok ops reads writes" and "host_write ops h (Some t) d f = ((e, k), h')"
  shows "reads h' = reads h \<and> (e = LIBP2P_HOST_OK \<longrightarrow> k \<le> length d) \<and>
    writes h' = (if e = LIBP2P_HOST_OK then (writes h)(t := writes h t @ take k d) else writes h)"
  by (rule assms(1) [unfolded stream_host_ok_def, THEN conjunct2, THEN conjunct1, rule_format, OF assms(2)])

lemma stream_quiet_laws:
  assumes "stream_host_ok ops reads writes"
  shows "reads (snd (host_finish ops h s)) = reads h" "writes (snd (host_finish ops h s)) = writes h"
    and "reads (snd (host_reset ops h s c)) = reads h" "writes (snd (host_reset ops h s c)) = writes h"
    and "reads (snd (host_set_user_data ops h s u)) = reads h"
      "writes (snd (host_set_user_data ops h s u)) = writes h"
    and "reads (snd (host_open ops h s i u)) = reads h" "writes (snd (host_open ops h s i u)) = writes h"
  using assms by (simp_all add: stream_host_ok_def)

subsection \<open>Slots and their streams\<close>

text \<open>
  The active slots have different streams, and each is in the relation \<open>wire\<close> to what was read (\<open>r\<close>) and
  written (\<open>w\<close>) on its own.
\<close>

definition slots_wire ::
  "('s \<Rightarrow> bool) \<Rightarrow> ('s \<Rightarrow> nat option) \<Rightarrow> ('s \<Rightarrow> byte list \<Rightarrow> byte list \<Rightarrow> bool) \<Rightarrow>
   (nat \<Rightarrow> byte list) \<Rightarrow> (nat \<Rightarrow> byte list) \<Rightarrow> 's list \<Rightarrow> bool" where
  "slots_wire act str wire r w ss \<longleftrightarrow>
     (\<forall>i < length ss. act (ss ! i) \<longrightarrow> (\<exists>t. str (ss ! i) = Some t \<and> wire (ss ! i) (r t) (w t))) \<and>
     (\<forall>i < length ss. \<forall>j < length ss. i \<noteq> j \<longrightarrow> act (ss ! i) \<longrightarrow> act (ss ! j) \<longrightarrow> str (ss ! i) \<noteq> str (ss ! j))"

lemma slots_wire_active:
  assumes "slots_wire act str wire r w ss" and "i < length ss" and "act (ss ! i)"
  obtains t where "str (ss ! i) = Some t" and "wire (ss ! i) (r t) (w t)"
  using assms unfolding slots_wire_def by blast

lemma slots_wire_inactive: "(\<And>s. s \<in> set ss \<Longrightarrow> \<not> act s) \<Longrightarrow> slots_wire act str wire r w ss"
  by (simp add: slots_wire_def)

text \<open>One slot changes: nothing is recorded for other streams, and the slot stays right for its own.\<close>

lemma slots_wire_change:
  assumes w: "slots_wire act str wire r w ss" and i: "i < length ss"
    and stay: "act s' \<Longrightarrow> act (ss ! i) \<and> str s' = str (ss ! i) \<and> wire s' (r' (the (str s'))) (w' (the (str s')))"
    and other: "\<And>t. \<not> (act (ss ! i) \<and> str (ss ! i) = Some t) \<Longrightarrow> r' t = r t \<and> w' t = w t"
  shows "slots_wire act str wire r' w' (ss[i := s'])"
proof -
  have at: "ss[i := s'] ! j = (if j = i then s' else ss ! j)" if "j < length ss" for j using that by simp
  have 1: "\<exists>t. str (ss[i := s'] ! j) = Some t \<and> wire (ss[i := s'] ! j) (r' t) (w' t)"
    if j: "j < length ss" "act (ss[i := s'] ! j)" for j
  proof (cases "j = i")
    case True
    with j i have a: "act s'" by simp
    from stay [OF this] w i obtain t where "str s' = Some t" unfolding slots_wire_def by metis
    with stay [OF a] True i show ?thesis by (intro exI [of _ t]) auto
  next
    case False
    with j have a: "act (ss ! j)" by simp
    from slots_wire_active [OF w j(1) a] obtain t where t: "str (ss ! j) = Some t" "wire (ss ! j) (r t) (w t)" .
    have "\<not> (act (ss ! i) \<and> str (ss ! i) = Some t)"
      using w a j(1) i False t(1) unfolding slots_wire_def by metis
    from other [OF this] t False show ?thesis by auto
  qed
  have 2: "str (ss[i := s'] ! j) \<noteq> str (ss[i := s'] ! k)"
    if "j < length ss" "k < length ss" "j \<noteq> k" "act (ss[i := s'] ! j)" "act (ss[i := s'] ! k)" for j k
    using that w at stay i unfolding slots_wire_def by (smt (verit, ccfv_threshold))
  from 1 2 show ?thesis by (simp add: slots_wire_def)
qed

text \<open>A slot takes a new stream \<open>t\<close>.\<close>

lemma slots_wire_activate:
  assumes w: "slots_wire act str wire r w ss" and i: "i < length ss" and t: "str s' = Some t"
    and wire: "wire s' (r t) (w t)" and fresh: "\<And>s. s \<in> set ss \<Longrightarrow> act s \<Longrightarrow> str s \<noteq> Some t"
  shows "slots_wire act str wire r w (ss[i := s'])"
proof -
  have f: "str (ss ! j) \<noteq> Some t" if "j < length ss" "act (ss ! j)" for j using fresh that by simp
  have "\<exists>u. str (ss[i := s'] ! j) = Some u \<and> wire (ss[i := s'] ! j) (r u) (w u)"
    if "j < length ss" "act (ss[i := s'] ! j)" for j
    using that w t wire by (cases "j = i") (simp_all add: slots_wire_def)
  moreover have "str (ss[i := s'] ! j) \<noteq> str (ss[i := s'] ! k)"
    if "j < length ss" "k < length ss" "j \<noteq> k" "act (ss[i := s'] ! j)" "act (ss[i := s'] ! k)" for j k
    using that w t f [of j] f [of k] by (cases "j = i"; cases "k = i") (auto simp: slots_wire_def)
  ultimately show ?thesis by (simp add: slots_wire_def)
qed

text \<open>The host works on streams that are not in use.\<close>

lemma slots_wire_host:
  assumes w: "slots_wire act str wire r w ss"
    and same: "\<And>s t. s \<in> set ss \<Longrightarrow> act s \<Longrightarrow> str s = Some t \<Longrightarrow> r' t = r t \<and> w' t = w t"
  shows "slots_wire act str wire r' w' ss"
proof -
  have "\<exists>t. str (ss ! i) = Some t \<and> wire (ss ! i) (r' t) (w' t)" if i: "i < length ss" "act (ss ! i)" for i
  proof -
    from slots_wire_active [OF w i] obtain t where t: "str (ss ! i) = Some t" "wire (ss ! i) (r t) (w t)" .
    with same [of "ss ! i" t] i show ?thesis by simp
  qed
  with w show ?thesis unfolding slots_wire_def by blast
qed

subsection \<open>A host in memory\<close>

text \<open>Streams with bytes to deliver and a flag for their end; every write is accepted.\<close>

record memory_host =
  mh_incoming :: "nat \<Rightarrow> byte list"
  mh_fin :: "nat \<Rightarrow> bool"
  mh_reads :: "nat \<Rightarrow> byte list"
  mh_writes :: "nat \<Rightarrow> byte list"

definition memory_ops :: "memory_host stream_host" where
  "memory_ops = \<lparr>
     host_read = (\<lambda>h s n. case s of
       None \<Rightarrow> ((LIBP2P_HOST_ERR_INVALID_ARG, [], False), h)
     | Some t \<Rightarrow>
         if mh_incoming h t = [] \<and> \<not> mh_fin h t then ((LIBP2P_HOST_ERR_WOULD_BLOCK, [], False), h)
         else ((LIBP2P_HOST_OK, take n (mh_incoming h t), mh_fin h t),
               h\<lparr>mh_reads := (mh_reads h)(t := mh_reads h t @ take n (mh_incoming h t)),
                 mh_incoming := (mh_incoming h)(t := drop n (mh_incoming h t))\<rparr>)),
     host_write = (\<lambda>h s d f. case s of
       None \<Rightarrow> ((LIBP2P_HOST_ERR_INVALID_ARG, 0), h)
     | Some t \<Rightarrow> ((LIBP2P_HOST_OK, length d), h\<lparr>mh_writes := (mh_writes h)(t := mh_writes h t @ d)\<rparr>)),
     host_finish = (\<lambda>h s. (LIBP2P_HOST_OK, h)),
     host_reset = (\<lambda>h s c. (LIBP2P_HOST_OK, h)),
     host_set_user_data = (\<lambda>h s u. (LIBP2P_HOST_OK, h)),
     host_open = (\<lambda>h c i u. ((LIBP2P_HOST_OK, u), h))\<rparr>"

definition memory_start :: "(nat \<Rightarrow> byte list) \<Rightarrow> (nat \<Rightarrow> bool) \<Rightarrow> memory_host" where
  "memory_start d f = \<lparr>mh_incoming = d, mh_fin = f, mh_reads = (\<lambda>_. []), mh_writes = (\<lambda>_. [])\<rparr>"

lemma memory_stream_host_ok: "stream_host_ok memory_ops mh_reads mh_writes"
  by (auto simp: stream_host_ok_def memory_ops_def split: option.splits if_splits)

end
