(* ===== verification/Ping.thy ===== *)
theory Ping
  imports Protocol_Host
begin

text \<open>
  \<open>src/src/protocol/ping/ping.c\<close>: the ping protocol. A slot holds the state of one stream; the initiator
  writes 32 random bytes and waits for them to come back, the responder returns what it reads in
  pieces of 32 bytes. Results go to the application through a queue of events.

  What the protocol uses of the host is the record \<open>stream_host\<close> of \<open>Protocol_Host\<close>, and the two
  callbacks of the configuration act on the state of the host too. Streams, connections and user data are
  numbers, \<open>None\<close> is the null pointer; a pointer to a slot is its index. The host passes itself to
  the callbacks, so the tests for a null host are left out. A result \<open>None\<close> means an access outside the
  payload buffers.
\<close>

subsection \<open>The state\<close>

definition LIBP2P_PING_PROTOCOL_ID :: string where
  "LIBP2P_PING_PROTOCOL_ID = ''/ipfs/ping/1.0.0''"
definition LIBP2P_PING_PAYLOAD_BYTES :: nat where
  "LIBP2P_PING_PAYLOAD_BYTES = 32"
definition LIBP2P_PING_MAX_STREAMS :: nat where
  "LIBP2P_PING_MAX_STREAMS = 16"
definition LIBP2P_PING_EVENT_CAPACITY :: nat where
  "LIBP2P_PING_EVENT_CAPACITY = 16"

lemmas ping_constants = LIBP2P_PING_PAYLOAD_BYTES_def LIBP2P_PING_MAX_STREAMS_def LIBP2P_PING_EVENT_CAPACITY_def

datatype libp2p_ping_err_t =
    LIBP2P_PING_OK
  | LIBP2P_PING_ERR_INVALID_ARG
  | LIBP2P_PING_ERR_BUF_TOO_SMALL
  | LIBP2P_PING_ERR_LIMIT
  | LIBP2P_PING_ERR_STATE
  | LIBP2P_PING_ERR_MISMATCH
  | LIBP2P_PING_ERR_HOST
  | LIBP2P_PING_ERR_RANDOM

record 'h libp2p_ping_config_t =
  random_fn :: "('h \<Rightarrow> nat \<Rightarrow> (libp2p_ping_err_t \<times> byte list) \<times> 'h) option"
    \<comment> \<open>for a length: the code and the bytes stored\<close>
  time_fn :: "('h \<Rightarrow> (libp2p_ping_err_t \<times> u64) \<times> 'h) option"

datatype libp2p_ping_event_type_t =
    LIBP2P_PING_EVENT_NONE | LIBP2P_PING_EVENT_PONG | LIBP2P_PING_EVENT_CLOSED | LIBP2P_PING_EVENT_ERROR

record libp2p_ping_event_t =
  pe_type :: libp2p_ping_event_type_t
  pe_stream :: "nat option"
  pe_direction :: libp2p_host_stream_direction_t
  pe_payload :: "byte list"
  pe_rtt_us :: u64
  pe_reason :: libp2p_ping_err_t
  pe_user_data :: "nat option"

datatype libp2p_ping_slot_state_t =
    LIBP2P_PING_SLOT_FREE
  | LIBP2P_PING_SLOT_OPENING
  | LIBP2P_PING_SLOT_INITIATOR_WRITING
  | LIBP2P_PING_SLOT_INITIATOR_READING
  | LIBP2P_PING_SLOT_INITIATOR_IDLE
  | LIBP2P_PING_SLOT_RESPONDER_READING
  | LIBP2P_PING_SLOT_RESPONDER_WRITING
  | LIBP2P_PING_SLOT_EVENTED

record libp2p_ping_stream_state_t =
  ps_state :: libp2p_ping_slot_state_t
  ps_direction :: libp2p_host_stream_direction_t
  ps_conn :: "nat option"
  ps_stream :: "nat option"
  ps_user_data :: "nat option"
  ps_tx :: "byte list"
  ps_rx :: "byte list"
  ps_tx_pos :: nat
  ps_rx_len :: nat
  ps_timer_started :: bool
  ps_started_us :: u64

record libp2p_ping_queued_event_t =
  qe_event :: libp2p_ping_event_t
  qe_slot_index :: nat

record 'h libp2p_ping_t =
  pg_config :: "'h libp2p_ping_config_t"
  pg_streams :: "libp2p_ping_stream_state_t list"
  pg_events :: "libp2p_ping_queued_event_t list"
  pg_event_head :: nat
  pg_event_len :: nat

text \<open>What \<open>memset\<close> leaves.\<close>

definition zero_slot :: libp2p_ping_stream_state_t where
  "zero_slot = \<lparr>ps_state = LIBP2P_PING_SLOT_FREE, ps_direction = LIBP2P_HOST_STREAM_INBOUND,
     ps_conn = None, ps_stream = None, ps_user_data = None,
     ps_tx = replicate LIBP2P_PING_PAYLOAD_BYTES 0, ps_rx = replicate LIBP2P_PING_PAYLOAD_BYTES 0,
     ps_tx_pos = 0, ps_rx_len = 0, ps_timer_started = False, ps_started_us = 0\<rparr>"

definition zero_ping_event :: libp2p_ping_event_t where
  "zero_ping_event = \<lparr>pe_type = LIBP2P_PING_EVENT_NONE, pe_stream = None,
     pe_direction = LIBP2P_HOST_STREAM_INBOUND, pe_payload = replicate LIBP2P_PING_PAYLOAD_BYTES 0,
     pe_rtt_us = 0, pe_reason = LIBP2P_PING_OK, pe_user_data = None\<rparr>"

definition upd_slot ::
  "nat \<Rightarrow> (libp2p_ping_stream_state_t \<Rightarrow> libp2p_ping_stream_state_t) \<Rightarrow> 'h libp2p_ping_t \<Rightarrow> 'h libp2p_ping_t" where
  "upd_slot i f p = p\<lparr>pg_streams := (pg_streams p)[i := f (pg_streams p ! i)]\<rparr>"

fun ping_host_err :: "libp2p_ping_err_t \<Rightarrow> libp2p_host_err_t" where
  "ping_host_err LIBP2P_PING_OK = LIBP2P_HOST_OK"
| "ping_host_err LIBP2P_PING_ERR_INVALID_ARG = LIBP2P_HOST_ERR_INVALID_ARG"
| "ping_host_err LIBP2P_PING_ERR_BUF_TOO_SMALL = LIBP2P_HOST_ERR_BUF_TOO_SMALL"
| "ping_host_err LIBP2P_PING_ERR_LIMIT = LIBP2P_HOST_ERR_LIMIT"
| "ping_host_err LIBP2P_PING_ERR_STATE = LIBP2P_HOST_ERR_STATE"
| "ping_host_err _ = LIBP2P_HOST_ERR_PROTOCOL"

fun ping_host_to_err :: "libp2p_host_err_t \<Rightarrow> libp2p_ping_err_t" where
  "ping_host_to_err LIBP2P_HOST_OK = LIBP2P_PING_OK"
| "ping_host_to_err LIBP2P_HOST_ERR_INVALID_ARG = LIBP2P_PING_ERR_INVALID_ARG"
| "ping_host_to_err LIBP2P_HOST_ERR_BUF_TOO_SMALL = LIBP2P_PING_ERR_BUF_TOO_SMALL"
| "ping_host_to_err LIBP2P_HOST_ERR_LIMIT = LIBP2P_PING_ERR_LIMIT"
| "ping_host_to_err LIBP2P_HOST_ERR_STATE = LIBP2P_PING_ERR_STATE"
| "ping_host_to_err _ = LIBP2P_PING_ERR_HOST"

definition ping_now :: "'h libp2p_ping_t \<Rightarrow> 'h \<Rightarrow> (libp2p_ping_err_t \<times> u64) \<times> 'h" where
  "ping_now p h =
     (case time_fn (pg_config p) of
        None \<Rightarrow> ((LIBP2P_PING_OK, 0), h)
      | Some f \<Rightarrow> f h)"

subsection \<open>Slots and events\<close>

definition ping_event_push ::
  "'h libp2p_ping_t \<Rightarrow> nat \<Rightarrow> libp2p_ping_event_t \<Rightarrow> libp2p_ping_err_t \<times> 'h libp2p_ping_t" where
  "ping_event_push p slot_index event =
     (if pg_event_len p = LIBP2P_PING_EVENT_CAPACITY then (LIBP2P_PING_ERR_LIMIT, p)
      else
        let pos = (pg_event_head p + pg_event_len p) mod LIBP2P_PING_EVENT_CAPACITY
        in (LIBP2P_PING_OK,
            p\<lparr>pg_events := (pg_events p)[pos := \<lparr>qe_event = event, qe_slot_index = slot_index\<rparr>],
              pg_event_len := pg_event_len p + 1\<rparr>))"

definition ping_alloc_slot :: "'h libp2p_ping_t \<Rightarrow> (nat \<times> 'h libp2p_ping_t) option" where
  "ping_alloc_slot p =
     (case find_slot_loop (\<lambda>s. ps_state s = LIBP2P_PING_SLOT_FREE) (pg_streams p) 0 of
        None \<Rightarrow> None
      | Some i \<Rightarrow> Some (i, upd_slot i (\<lambda>_. zero_slot) p))"

definition ping_find_stream :: "'h libp2p_ping_t \<Rightarrow> nat option \<Rightarrow> nat option" where
  "ping_find_stream p stream =
     (if stream = None then None
      else find_slot_loop (\<lambda>s. ps_state s \<noteq> LIBP2P_PING_SLOT_FREE \<and> ps_stream s = stream) (pg_streams p) 0)"

definition ping_find_opening :: "'h libp2p_ping_t \<Rightarrow> nat option" where
  "ping_find_opening p =
     find_slot_loop (\<lambda>s. ps_state s = LIBP2P_PING_SLOT_OPENING) (pg_streams p) 0"

definition ping_conn_has_outbound :: "'h libp2p_ping_t \<Rightarrow> nat option \<Rightarrow> bool" where
  "ping_conn_has_outbound p conn \<longleftrightarrow>
     conn \<noteq> None \<and>
     find_slot_loop (\<lambda>s. ps_state s \<noteq> LIBP2P_PING_SLOT_FREE \<and> ps_state s \<noteq> LIBP2P_PING_SLOT_EVENTED \<and>
        ps_direction s = LIBP2P_HOST_STREAM_OUTBOUND \<and> ps_conn s = conn) (pg_streams p) 0 \<noteq> None"

definition ping_prepare_payload ::
  "'h libp2p_ping_t \<Rightarrow> nat \<Rightarrow> 'h \<Rightarrow> (libp2p_ping_err_t \<times> 'h libp2p_ping_t \<times> 'h) option" where
  "ping_prepare_payload p i h =
     (case random_fn (pg_config p) of
        None \<Rightarrow> Some (LIBP2P_PING_ERR_INVALID_ARG, p, h)
      | Some f \<Rightarrow>
          (case f h LIBP2P_PING_PAYLOAD_BYTES of
             ((result, bytes), h') \<Rightarrow> do {
               tx \<leftarrow> memcpy_at (ps_tx (pg_streams p ! i)) 0 bytes;
               (let p1 = upd_slot i (ps_tx_update (\<lambda>_. tx)) p
                in if result = LIBP2P_PING_OK
                   then Some (LIBP2P_PING_OK,
                          upd_slot i (\<lambda>s. s\<lparr>ps_tx_pos := 0, ps_rx_len := 0, ps_timer_started := False\<rparr>) p1, h')
                   else Some (LIBP2P_PING_ERR_RANDOM, p1, h'))
             }))"

definition ping_fail_stream ::
  "'h stream_host \<Rightarrow> 'h libp2p_ping_t \<Rightarrow> nat \<Rightarrow> libp2p_ping_err_t \<Rightarrow> 'h \<Rightarrow>
   libp2p_host_err_t \<times> 'h libp2p_ping_t \<times> 'h" where
  "ping_fail_stream ops p i reason h =
     (if i \<ge> LIBP2P_PING_MAX_STREAMS then (ping_host_err LIBP2P_PING_ERR_INVALID_ARG, p, h)
      else
        let slot = pg_streams p ! i;
            event = zero_ping_event\<lparr>pe_type := LIBP2P_PING_EVENT_ERROR, pe_stream := ps_stream slot,
              pe_direction := ps_direction slot, pe_reason := reason, pe_user_data := ps_user_data slot\<rparr>;
            (err, p1) = ping_event_push p i event;
            p2 = upd_slot i (\<lambda>s. s\<lparr>ps_conn := None, ps_state := LIBP2P_PING_SLOT_EVENTED\<rparr>) p1
        in if ps_stream slot \<noteq> None then
             let h1 = snd (host_set_user_data ops h (ps_stream slot) None);
                 h2 = snd (host_reset ops h1 (ps_stream slot) 0)
             in (ping_host_err err, upd_slot i (ps_stream_update (\<lambda>_. None)) p2, h2)
           else (ping_host_err err, p2, h))"

definition ping_emit_closed :: "'h libp2p_ping_t \<Rightarrow> nat \<Rightarrow> libp2p_host_err_t \<times> 'h libp2p_ping_t" where
  "ping_emit_closed p i =
     (if i \<ge> LIBP2P_PING_MAX_STREAMS then (ping_host_err LIBP2P_PING_ERR_INVALID_ARG, p)
      else
        let slot = pg_streams p ! i;
            event = zero_ping_event\<lparr>pe_type := LIBP2P_PING_EVENT_CLOSED, pe_stream := ps_stream slot,
              pe_direction := ps_direction slot, pe_user_data := ps_user_data slot\<rparr>;
            (result, p1) = ping_event_push p i event
        in (ping_host_err result,
            upd_slot i (\<lambda>s. s\<lparr>ps_conn := None, ps_state := LIBP2P_PING_SLOT_EVENTED\<rparr>) p1))"

definition ping_emit_pong :: "'h libp2p_ping_t \<Rightarrow> nat \<Rightarrow> u64 \<Rightarrow> libp2p_host_err_t \<times> 'h libp2p_ping_t" where
  "ping_emit_pong p i now_us =
     (if i \<ge> LIBP2P_PING_MAX_STREAMS then (ping_host_err LIBP2P_PING_ERR_INVALID_ARG, p)
      else
        let slot = pg_streams p ! i;
            event = zero_ping_event\<lparr>pe_type := LIBP2P_PING_EVENT_PONG, pe_stream := ps_stream slot,
              pe_direction := ps_direction slot, pe_payload := ps_rx slot,
              pe_rtt_us := (if now_us \<ge> ps_started_us slot then now_us - ps_started_us slot else 0),
              pe_reason := LIBP2P_PING_OK, pe_user_data := ps_user_data slot\<rparr>;
            (result, p1) = ping_event_push p i event
        in (ping_host_err result,
            if result = LIBP2P_PING_OK
            then upd_slot i (\<lambda>s. s\<lparr>ps_state := LIBP2P_PING_SLOT_INITIATOR_IDLE, ps_rx_len := 0,
                   ps_tx_pos := 0, ps_timer_started := False\<rparr>) p1
            else p1))"

subsection \<open>Writing and reading\<close>

definition ping_write_stream ::
  "'h stream_host \<Rightarrow> 'h libp2p_ping_t \<Rightarrow> nat \<Rightarrow> 'h \<Rightarrow> (libp2p_host_err_t \<times> 'h libp2p_ping_t \<times> 'h) option" where
  "ping_write_stream ops p i h =
     (let slot = pg_streams p ! i
      in if i \<ge> LIBP2P_PING_MAX_STREAMS then Some (LIBP2P_HOST_ERR_INVALID_ARG, p, h)
         else if ps_tx_pos slot \<ge> LIBP2P_PING_PAYLOAD_BYTES then Some (LIBP2P_HOST_OK, p, h)
         else if length (ps_tx slot) < LIBP2P_PING_PAYLOAD_BYTES then None
         else
           case host_write ops h (ps_stream slot)
                  (drop (ps_tx_pos slot) (take LIBP2P_PING_PAYLOAD_BYTES (ps_tx slot))) False of
             ((host_err, accepted), h1) \<Rightarrow>
               if host_err = LIBP2P_HOST_ERR_WOULD_BLOCK then Some (LIBP2P_HOST_OK, p, h1)
               else if host_err = LIBP2P_HOST_OK then
                 let outbound = (ps_direction slot = LIBP2P_HOST_STREAM_OUTBOUND);
                     (err, p1, h2) =
                       (if accepted \<noteq> 0 \<and> \<not> ps_timer_started slot \<and> outbound
                        then case ping_now p h1 of
                               ((err, now), h2) \<Rightarrow>
                                 (err, upd_slot i (\<lambda>s. s\<lparr>ps_started_us := now,
                                    ps_timer_started := (err = LIBP2P_PING_OK)\<rparr>) p, h2)
                        else (LIBP2P_PING_OK, p, h1))
                 in if err \<noteq> LIBP2P_PING_OK then Some (ping_host_err err, p1, h2)
                    else
                      let pos = ps_tx_pos slot + accepted;
                          p2 = upd_slot i (ps_tx_pos_update (\<lambda>_. pos)) p1;
                          p3 = (if pos = LIBP2P_PING_PAYLOAD_BYTES
                                then if outbound
                                     then upd_slot i (\<lambda>s. s\<lparr>ps_state := LIBP2P_PING_SLOT_INITIATOR_READING,
                                            ps_rx_len := 0\<rparr>) p2
                                     else upd_slot i (\<lambda>s. s\<lparr>ps_state := LIBP2P_PING_SLOT_RESPONDER_READING,
                                            ps_tx_pos := 0, ps_rx_len := 0\<rparr>) p2
                                else p2)
                      in Some (LIBP2P_HOST_OK, p3, h2)
               else Some (ping_fail_stream ops p i (ping_host_to_err host_err) h1))"

text \<open>The part that both readers share: a read into the rest of the receive buffer.\<close>

definition ping_read ::
  "'h stream_host \<Rightarrow> 'h libp2p_ping_t \<Rightarrow> nat \<Rightarrow> 'h \<Rightarrow>
   ((libp2p_host_err_t \<times> nat \<times> bool) \<times> 'h libp2p_ping_t \<times> 'h) option" where
  "ping_read ops p i h =
     (let slot = pg_streams p ! i
      in if ps_rx_len slot > LIBP2P_PING_PAYLOAD_BYTES then None
         else
           case host_read ops h (ps_stream slot) (LIBP2P_PING_PAYLOAD_BYTES - ps_rx_len slot) of
             ((host_err, bytes, fin), h1) \<Rightarrow> do {
               rx \<leftarrow> memcpy_at (ps_rx slot) (ps_rx_len slot) bytes;
               Some ((host_err, length bytes, fin), upd_slot i (ps_rx_update (\<lambda>_. rx)) p, h1)
             })"

definition ping_read_responder ::
  "'h stream_host \<Rightarrow> 'h libp2p_ping_t \<Rightarrow> nat \<Rightarrow> 'h \<Rightarrow> (libp2p_host_err_t \<times> 'h libp2p_ping_t \<times> 'h) option" where
  "ping_read_responder ops p i h =
     (if i \<ge> LIBP2P_PING_MAX_STREAMS then Some (LIBP2P_HOST_ERR_INVALID_ARG, p, h)
      else do {
        ((host_err, read_len, fin), p1, h1) \<leftarrow> ping_read ops p i h;
        (if host_err = LIBP2P_HOST_ERR_WOULD_BLOCK then Some (LIBP2P_HOST_OK, p1, h1)
         else if host_err = LIBP2P_HOST_OK then
           let p2 = upd_slot i (ps_rx_len_update (\<lambda>n. n + read_len)) p1;
               slot = pg_streams p2 ! i
           in if ps_rx_len slot = LIBP2P_PING_PAYLOAD_BYTES then do {
                tx \<leftarrow> memcpy_at (ps_tx slot) 0 (ps_rx slot);
                ping_write_stream ops
                  (upd_slot i (\<lambda>s. s\<lparr>ps_tx := tx, ps_tx_pos := 0,
                     ps_state := LIBP2P_PING_SLOT_RESPONDER_WRITING\<rparr>) p2) i h1
              }
              else if fin then
                (if ps_rx_len slot = 0
                 then let h2 = snd (host_finish ops h1 (ps_stream slot));
                          (err, p3) = ping_emit_closed p2 i
                      in Some (err, p3, h2)
                 else Some (ping_fail_stream ops p2 i LIBP2P_PING_ERR_STATE h1))
              else Some (LIBP2P_HOST_OK, p2, h1)
         else Some (ping_fail_stream ops p1 i (ping_host_to_err host_err) h1))
      })"

definition ping_read_initiator ::
  "'h stream_host \<Rightarrow> 'h libp2p_ping_t \<Rightarrow> nat \<Rightarrow> 'h \<Rightarrow> (libp2p_host_err_t \<times> 'h libp2p_ping_t \<times> 'h) option" where
  "ping_read_initiator ops p i h =
     (if i \<ge> LIBP2P_PING_MAX_STREAMS then Some (LIBP2P_HOST_ERR_INVALID_ARG, p, h)
      else do {
        ((host_err, read_len, fin), p1, h1) \<leftarrow> ping_read ops p i h;
        (if host_err = LIBP2P_HOST_ERR_WOULD_BLOCK then Some (LIBP2P_HOST_OK, p1, h1)
         else if host_err = LIBP2P_HOST_OK then
           let p2 = upd_slot i (ps_rx_len_update (\<lambda>n. n + read_len)) p1;
               slot = pg_streams p2 ! i
           in if ps_rx_len slot = LIBP2P_PING_PAYLOAD_BYTES then
                (if ps_rx slot = ps_tx slot
                 then case ping_now p2 h1 of
                        ((err, now_us), h2) \<Rightarrow>
                          if err = LIBP2P_PING_OK
                          then case ping_emit_pong p2 i now_us of (host_err2, p3) \<Rightarrow> Some (host_err2, p3, h2)
                          else Some (ping_fail_stream ops p2 i err h2)
                 else Some (ping_fail_stream ops p2 i LIBP2P_PING_ERR_MISMATCH h1))
              else if fin then Some (ping_fail_stream ops p2 i LIBP2P_PING_ERR_STATE h1)
              else Some (LIBP2P_HOST_OK, p2, h1)
         else Some (ping_fail_stream ops p1 i (ping_host_to_err host_err) h1))
      })"

subsection \<open>Callbacks of the host\<close>

text \<open>The slot for a stream that opens, with the code of preparing its payload.\<close>

definition ping_open_slot ::
  "'h libp2p_ping_t \<Rightarrow> libp2p_host_stream_direction_t \<Rightarrow> 'h \<Rightarrow>
   (libp2p_ping_err_t \<times> nat option \<times> 'h libp2p_ping_t \<times> 'h) option" where
  "ping_open_slot p direction h =
     (if direction = LIBP2P_HOST_STREAM_OUTBOUND
      then (case ping_find_opening p of
              Some i \<Rightarrow> Some (LIBP2P_PING_OK, Some i, p, h)
            | None \<Rightarrow>
                (case ping_alloc_slot p of
                   None \<Rightarrow> Some (LIBP2P_PING_OK, None, p, h)
                 | Some (i, p1) \<Rightarrow> do {
                     (result, p2, h1) \<leftarrow> ping_prepare_payload p1 i h;
                     Some (result, Some i, p2, h1)
                   }))
      else (case ping_alloc_slot p of
              None \<Rightarrow> Some (LIBP2P_PING_OK, None, p, h)
            | Some (i, p1) \<Rightarrow> Some (LIBP2P_PING_OK, Some i, p1, h)))"

definition ping_on_open ::
  "'h stream_host \<Rightarrow> 'h libp2p_ping_t \<Rightarrow> nat option \<Rightarrow> libp2p_host_stream_direction_t \<Rightarrow> 'h \<Rightarrow>
   (libp2p_host_err_t \<times> 'h libp2p_ping_t \<times> 'h) option" where
  "ping_on_open ops p stream direction h =
     (if stream = None then Some (ping_host_err LIBP2P_PING_ERR_INVALID_ARG, p, h)
      else do {
        (result, slot_index, p1, h1) \<leftarrow> ping_open_slot p direction h;
        (if result \<noteq> LIBP2P_PING_OK then Some (ping_host_err result, p1, h1)
         else
           case slot_index of
             None \<Rightarrow> Some (ping_host_err LIBP2P_PING_ERR_LIMIT, p1, h1)
           | Some i \<Rightarrow>
               let outbound = (direction = LIBP2P_HOST_STREAM_OUTBOUND);
                   p2 = upd_slot i (\<lambda>s. s\<lparr>ps_stream := stream, ps_direction := direction,
                          ps_state := (if outbound then LIBP2P_PING_SLOT_INITIATOR_WRITING
                                       else LIBP2P_PING_SLOT_RESPONDER_READING)\<rparr>) p1;
                   (err, h2) = host_set_user_data ops h1 stream (Some i);
                   result2 = ping_host_to_err err
               in if result2 = LIBP2P_PING_OK \<and> outbound then ping_write_stream ops p2 i h2
                  else Some (ping_host_err result2, p2, h2))
      })"

definition ping_on_event ::
  "'h stream_host \<Rightarrow> 'h libp2p_ping_t \<Rightarrow> nat option \<Rightarrow> libp2p_host_protocol_event_kind_t \<Rightarrow> 'h \<Rightarrow>
   (libp2p_host_err_t \<times> 'h libp2p_ping_t \<times> 'h) option" where
  "ping_on_event ops p stream kind h =
     (if stream = None then Some (LIBP2P_HOST_ERR_INVALID_ARG, p, h)
      else case ping_find_stream p stream of
        None \<Rightarrow>
          Some (if kind = LIBP2P_HOST_PROTOCOL_EVENT_RESET \<or> kind = LIBP2P_HOST_PROTOCOL_EVENT_CLOSED
                then LIBP2P_HOST_OK else LIBP2P_HOST_ERR_INVALID_ARG, p, h)
      | Some i \<Rightarrow>
          (case host_set_user_data ops h stream (Some i) of
             (err, h1) \<Rightarrow>
               if err \<noteq> LIBP2P_HOST_OK then Some (LIBP2P_HOST_ERR_INVALID_ARG, p, h1)
               else
                 let state = ps_state (pg_streams p ! i)
                 in case kind of
                      LIBP2P_HOST_PROTOCOL_EVENT_READABLE \<Rightarrow>
                        if state = LIBP2P_PING_SLOT_INITIATOR_READING then ping_read_initiator ops p i h1
                        else if state = LIBP2P_PING_SLOT_RESPONDER_READING then ping_read_responder ops p i h1
                        else Some (LIBP2P_HOST_OK, p, h1)
                    | LIBP2P_HOST_PROTOCOL_EVENT_WRITABLE \<Rightarrow>
                        if state = LIBP2P_PING_SLOT_INITIATOR_WRITING \<or>
                           state = LIBP2P_PING_SLOT_RESPONDER_WRITING
                        then ping_write_stream ops p i h1 else Some (LIBP2P_HOST_OK, p, h1)
                    | LIBP2P_HOST_PROTOCOL_EVENT_RESET \<Rightarrow>
                        Some (ping_fail_stream ops p i LIBP2P_PING_ERR_HOST h1)
                    | LIBP2P_HOST_PROTOCOL_EVENT_CLOSED \<Rightarrow>
                        (case ping_emit_closed p i of (err2, p1) \<Rightarrow> Some (err2, p1, h1))))"

subsection \<open>Calls of the application\<close>

definition libp2p_ping_config_default :: "'h libp2p_ping_config_t" where
  "libp2p_ping_config_default = \<lparr>random_fn = None, time_fn = None\<rparr>"

text \<open>\<open>None\<close> stands for INVALID_ARG, which a configuration without random function gets.\<close>

definition libp2p_ping_init :: "'h libp2p_ping_config_t \<Rightarrow> 'h libp2p_ping_t option" where
  "libp2p_ping_init config =
     (if random_fn config = None then None
      else Some \<lparr>pg_config = config, pg_streams = replicate LIBP2P_PING_MAX_STREAMS zero_slot,
                 pg_events = replicate LIBP2P_PING_EVENT_CAPACITY \<lparr>qe_event = zero_ping_event, qe_slot_index = 0\<rparr>,
                 pg_event_head = 0, pg_event_len = 0\<rparr>)"

text \<open>The id that \<open>libp2p_ping_protocol\<close> registers; the other fields are the two callbacks.\<close>

definition libp2p_ping_protocol :: string where
  "libp2p_ping_protocol = LIBP2P_PING_PROTOCOL_ID"

definition libp2p_ping_initiate ::
  "'h stream_host \<Rightarrow> 'h libp2p_ping_t \<Rightarrow> nat option \<Rightarrow> nat option \<Rightarrow> 'h \<Rightarrow>
   ((libp2p_ping_err_t \<times> nat option) \<times> 'h libp2p_ping_t \<times> 'h) option" where
  "libp2p_ping_initiate ops p conn user_data h =
     (if conn = None then Some ((LIBP2P_PING_ERR_INVALID_ARG, None), p, h)
      else if ping_conn_has_outbound p conn then Some ((LIBP2P_PING_ERR_LIMIT, None), p, h)
      else case ping_alloc_slot p of
             None \<Rightarrow> Some ((LIBP2P_PING_ERR_LIMIT, None), p, h)
           | Some (i, p1) \<Rightarrow> do {
               (result, p2, h1) \<leftarrow> ping_prepare_payload p1 i h;
               (if result \<noteq> LIBP2P_PING_OK then Some ((result, None), p2, h1)
                else
                  let p3 = upd_slot i (\<lambda>s. s\<lparr>ps_state := LIBP2P_PING_SLOT_OPENING,
                             ps_direction := LIBP2P_HOST_STREAM_OUTBOUND, ps_conn := conn,
                             ps_user_data := user_data\<rparr>) p2;
                      ((host_err, out_open), h2) = host_open ops h1 conn LIBP2P_PING_PROTOCOL_ID (Some i);
                      result2 = ping_host_to_err host_err
                  in Some ((result2, out_open),
                           (if result2 \<noteq> LIBP2P_PING_OK then upd_slot i (\<lambda>_. zero_slot) p3 else p3), h2))
             })"

definition libp2p_ping_send ::
  "'h libp2p_ping_t \<Rightarrow> nat option \<Rightarrow> 'h \<Rightarrow> (libp2p_ping_err_t \<times> 'h libp2p_ping_t \<times> 'h) option" where
  "libp2p_ping_send p stream h =
     (case ping_find_stream p stream of
        None \<Rightarrow> Some (LIBP2P_PING_ERR_INVALID_ARG, p, h)
      | Some i \<Rightarrow>
          let slot = pg_streams p ! i
          in if ps_direction slot \<noteq> LIBP2P_HOST_STREAM_OUTBOUND \<or>
                ps_state slot \<noteq> LIBP2P_PING_SLOT_INITIATOR_IDLE
             then Some (LIBP2P_PING_ERR_STATE, p, h)
             else do {
               (result, p1, h1) \<leftarrow> ping_prepare_payload p i h;
               Some (result,
                     (if result = LIBP2P_PING_OK
                      then upd_slot i (ps_state_update (\<lambda>_. LIBP2P_PING_SLOT_INITIATOR_WRITING)) p1
                      else p1), h1)
             })"

definition libp2p_ping_next_event ::
  "'h libp2p_ping_t \<Rightarrow> libp2p_ping_err_t \<times> libp2p_ping_event_t \<times> 'h libp2p_ping_t" where
  "libp2p_ping_next_event p =
     (if pg_event_len p = 0 then (LIBP2P_PING_ERR_STATE, zero_ping_event, p)
      else
        let q = pg_events p ! pg_event_head p;
            p1 = p\<lparr>pg_event_head := (pg_event_head p + 1) mod LIBP2P_PING_EVENT_CAPACITY,
                   pg_event_len := pg_event_len p - 1\<rparr>
        in (LIBP2P_PING_OK, qe_event q,
            if qe_slot_index q < LIBP2P_PING_MAX_STREAMS \<and>
               (pe_type (qe_event q) = LIBP2P_PING_EVENT_CLOSED \<or> pe_type (qe_event q) = LIBP2P_PING_EVENT_ERROR)
            then upd_slot (qe_slot_index q) (\<lambda>_. zero_slot) p1 else p1))"

end
