(* ===== verification/Ping_Laws.thy ===== *)
theory Ping_Laws
  imports Ping
begin

text \<open>
  What the ping protocol guarantees. The invariant of its state is proved for every operation together
  with the relation between a slot and the bytes that went over its stream: a responder returns what
  it read, in order, and an initiator counts an answer only when it equals what was sent.
\<close>

subsection \<open>What the protocol relies on\<close>

text \<open>The host is as in \<open>stream_host_ok\<close>, the random function fills the buffer, the clock does not fail.\<close>

definition ping_host_ok ::
  "'h stream_host \<Rightarrow> 'h libp2p_ping_config_t \<Rightarrow> ('h \<Rightarrow> nat \<Rightarrow> byte list) \<Rightarrow> ('h \<Rightarrow> nat \<Rightarrow> byte list) \<Rightarrow> bool" where
  "ping_host_ok ops cfg reads writes \<longleftrightarrow> stream_host_ok ops reads writes \<and>
     (\<forall>f h n e bs h'. random_fn cfg = Some f \<longrightarrow> f h n = ((e, bs), h') \<longrightarrow>
        length bs \<le> n \<and> (e = LIBP2P_PING_OK \<longrightarrow> length bs = n) \<and> reads h' = reads h \<and> writes h' = writes h) \<and>
     (\<forall>f h e now h'. time_fn cfg = Some f \<longrightarrow> f h = ((e, now), h') \<longrightarrow>
        e = LIBP2P_PING_OK \<and> reads h' = reads h \<and> writes h' = writes h)"

lemma ping_stream_host: "ping_host_ok ops cfg reads writes \<Longrightarrow> stream_host_ok ops reads writes"
  by (simp add: ping_host_ok_def)

lemmas host_read_law = stream_read_law [OF ping_stream_host]
lemmas host_write_law = stream_write_law [OF ping_stream_host]
lemmas quiet_laws = stream_quiet_laws [OF ping_stream_host]

lemma random_law:
  assumes "ping_host_ok ops cfg reads writes" and "random_fn cfg = Some f" and "f h n = ((e, bs), h')"
  shows "length bs \<le> n \<and> (e = LIBP2P_PING_OK \<longrightarrow> length bs = n) \<and> reads h' = reads h \<and> writes h' = writes h"
  by (rule assms(1) [unfolded ping_host_ok_def, THEN conjunct2, THEN conjunct1, rule_format, OF assms(2,3)])

lemma clock_law:
  assumes "ping_host_ok ops cfg reads writes" and "time_fn cfg = Some f" and "f h = ((e, now), h')"
  shows "e = LIBP2P_PING_OK \<and> reads h' = reads h \<and> writes h' = writes h"
  by (rule assms(1) [unfolded ping_host_ok_def, THEN conjunct2, THEN conjunct2, rule_format, OF assms(2,3)])

subsection \<open>The invariant\<close>

fun slot_state_ok :: "libp2p_ping_slot_state_t \<Rightarrow> libp2p_ping_stream_state_t \<Rightarrow> bool" where
  "slot_state_ok LIBP2P_PING_SLOT_OPENING s =
     (ps_direction s = LIBP2P_HOST_STREAM_OUTBOUND \<and> ps_tx_pos s = 0)"
| "slot_state_ok LIBP2P_PING_SLOT_INITIATOR_WRITING s =
     (ps_direction s = LIBP2P_HOST_STREAM_OUTBOUND \<and> ps_tx_pos s < 32 \<and>
      (0 < ps_tx_pos s \<longrightarrow> ps_timer_started s))"
| "slot_state_ok LIBP2P_PING_SLOT_INITIATOR_READING s =
     (ps_direction s = LIBP2P_HOST_STREAM_OUTBOUND \<and> ps_tx_pos s = 32 \<and> ps_timer_started s)"
| "slot_state_ok LIBP2P_PING_SLOT_INITIATOR_IDLE s = (ps_direction s = LIBP2P_HOST_STREAM_OUTBOUND)"
| "slot_state_ok LIBP2P_PING_SLOT_RESPONDER_READING s =
     (ps_direction s = LIBP2P_HOST_STREAM_INBOUND \<and> ps_rx_len s < 32)"
| "slot_state_ok LIBP2P_PING_SLOT_RESPONDER_WRITING s =
     (ps_direction s = LIBP2P_HOST_STREAM_INBOUND \<and> ps_tx_pos s < 32 \<and> ps_rx_len s = 32 \<and> ps_tx s = ps_rx s)"
| "slot_state_ok _ s = True"

definition slot_ok :: "libp2p_ping_stream_state_t \<Rightarrow> bool" where
  "slot_ok s \<longleftrightarrow> length (ps_tx s) = 32 \<and> length (ps_rx s) = 32 \<and> ps_rx_len s \<le> 32 \<and> slot_state_ok (ps_state s) s"

definition ping_ok :: "'h libp2p_ping_t \<Rightarrow> bool" where
  "ping_ok p \<longleftrightarrow> length (pg_streams p) = 16 \<and> length (pg_events p) = 16 \<and> pg_event_head p < 16 \<and>
     pg_event_len p \<le> 16 \<and> (\<forall>s \<in> set (pg_streams p). slot_ok s) \<and> random_fn (pg_config p) \<noteq> None"

definition active :: "libp2p_ping_stream_state_t \<Rightarrow> bool" where
  "active s \<longleftrightarrow> ps_state s \<notin> {LIBP2P_PING_SLOT_FREE, LIBP2P_PING_SLOT_OPENING, LIBP2P_PING_SLOT_EVENTED}"

text \<open>How the bytes read \<open>r\<close> and written \<open>w\<close> on the stream of a slot are related.\<close>

fun state_wire :: "libp2p_ping_slot_state_t \<Rightarrow> libp2p_ping_stream_state_t \<Rightarrow> byte list \<Rightarrow> byte list \<Rightarrow> bool" where
  "state_wire LIBP2P_PING_SLOT_INITIATOR_WRITING s r w = (w = r @ take (ps_tx_pos s) (ps_tx s))"
| "state_wire LIBP2P_PING_SLOT_INITIATOR_READING s r w =
     (\<exists>e. w = e @ ps_tx s \<and> r = e @ take (ps_rx_len s) (ps_rx s))"
| "state_wire LIBP2P_PING_SLOT_INITIATOR_IDLE s r w = (w = r)"
| "state_wire LIBP2P_PING_SLOT_RESPONDER_READING s r w = (r = w @ take (ps_rx_len s) (ps_rx s))"
| "state_wire LIBP2P_PING_SLOT_RESPONDER_WRITING s r w = (r = w @ drop (ps_tx_pos s) (ps_tx s))"
| "state_wire _ s r w = True"

abbreviation slot_wire :: "libp2p_ping_stream_state_t \<Rightarrow> byte list \<Rightarrow> byte list \<Rightarrow> bool" where
  "slot_wire s \<equiv> state_wire (ps_state s) s"

definition wire_ok ::
  "('h \<Rightarrow> nat \<Rightarrow> byte list) \<Rightarrow> ('h \<Rightarrow> nat \<Rightarrow> byte list) \<Rightarrow> 'h libp2p_ping_t \<Rightarrow> 'h \<Rightarrow> bool" where
  "wire_ok reads writes p h = slots_wire active ps_stream (\<lambda>s. slot_wire s) (reads h) (writes h) (pg_streams p)"

text \<open>\<open>slot_change p i s' p'\<close>: the state \<open>p'\<close> differs from \<open>p\<close> in slot \<open>i\<close>, which is \<open>s'\<close>, and in the events.\<close>

definition slot_change :: "'h libp2p_ping_t \<Rightarrow> nat \<Rightarrow> libp2p_ping_stream_state_t \<Rightarrow> 'h libp2p_ping_t \<Rightarrow> bool" where
  "slot_change p i s' p' \<longleftrightarrow> pg_streams p' = (pg_streams p)[i := s'] \<and> pg_config p' = pg_config p \<and>
     length (pg_events p') = length (pg_events p) \<and> pg_event_head p' < 16 \<and> pg_event_len p' \<le> 16"

lemma slot_change_upd:
  "slot_change p i s p1 \<Longrightarrow> slot_change p i (f (pg_streams p1 ! i)) (upd_slot i f p1)"
  by (simp add: slot_change_def upd_slot_def)

lemma slot_change_refl: "ping_ok p \<Longrightarrow> slot_change p i (pg_streams p ! i) p"
  by (simp add: slot_change_def ping_ok_def)

lemma slot_change_at: "ping_ok p \<Longrightarrow> i < 16 \<Longrightarrow> slot_change p i s p1 \<Longrightarrow> pg_streams p1 ! i = s"
  by (simp add: slot_change_def ping_ok_def)

lemma slot_change_trans: "slot_change p i s p1 \<Longrightarrow> slot_change p1 i s' p2 \<Longrightarrow> slot_change p i s' p2"
  by (simp add: slot_change_def)

lemma slot_at_ok: "ping_ok p \<Longrightarrow> i < 16 \<Longrightarrow> slot_ok (pg_streams p ! i)"
  by (simp add: ping_ok_def)

lemma ping_ok_change: "ping_ok p \<Longrightarrow> slot_change p i s' p' \<Longrightarrow> slot_ok s' \<Longrightarrow> ping_ok p'"
  by (auto simp: ping_ok_def slot_change_def dest!: set_update_subset_insert [THEN subsetD])

lemma wire_ok_change:
  assumes "wire_ok reads writes p h" and "ping_ok p" "i < 16" and "slot_change p i s' p'"
    and "active s' \<Longrightarrow> active (pg_streams p ! i) \<and> ps_stream s' = ps_stream (pg_streams p ! i) \<and>
      slot_wire s' (reads h' (the (ps_stream s'))) (writes h' (the (ps_stream s')))"
    and "\<And>t. \<not> (active (pg_streams p ! i) \<and> ps_stream (pg_streams p ! i) = Some t) \<Longrightarrow>
      reads h' t = reads h t \<and> writes h' t = writes h t"
  shows "wire_ok reads writes p' h'"
  using slots_wire_change [OF assms(1) [unfolded wire_ok_def] _ assms(5,6)] assms(2-4)
  by (simp add: wire_ok_def slot_change_def ping_ok_def)

definition ping_inv ::
  "'h libp2p_ping_config_t \<Rightarrow> ('h \<Rightarrow> nat \<Rightarrow> byte list) \<Rightarrow> ('h \<Rightarrow> nat \<Rightarrow> byte list) \<Rightarrow>
   'h libp2p_ping_t \<Rightarrow> 'h \<Rightarrow> bool" where
  "ping_inv cfg reads writes p h \<longleftrightarrow> ping_ok p \<and> pg_config p = cfg \<and> wire_ok reads writes p h"

lemma ping_inv_change:
  assumes "ping_inv cfg reads writes p h" and "i < 16" and "slot_change p i s' p'" and "slot_ok s'"
    and "active s' \<Longrightarrow> active (pg_streams p ! i) \<and> ps_stream s' = ps_stream (pg_streams p ! i) \<and>
      slot_wire s' (reads h' (the (ps_stream s'))) (writes h' (the (ps_stream s')))"
    and "\<And>t. \<not> (active (pg_streams p ! i) \<and> ps_stream (pg_streams p ! i) = Some t) \<Longrightarrow>
      reads h' t = reads h t \<and> writes h' t = writes h t"
  shows "ping_inv cfg reads writes p' h'"
proof -
  from assms(1) have ok: "ping_ok p" and w: "wire_ok reads writes p h" and "pg_config p = cfg"
    by (simp_all add: ping_inv_def)
  moreover have "wire_ok reads writes p' h'" by (rule wire_ok_change [OF w ok assms(2,3,5,6)])
  ultimately show ?thesis
    using ping_ok_change [OF ok assms(3,4)] assms(3) by (simp add: ping_inv_def slot_change_def)
qed

lemma ping_inv_quiet:
  "ping_inv cfg reads writes p h \<Longrightarrow> reads h' = reads h \<Longrightarrow> writes h' = writes h \<Longrightarrow> ping_inv cfg reads writes p h'"
  by (simp add: ping_inv_def wire_ok_def)

lemma ping_inv_slot: "ping_inv cfg reads writes p h \<Longrightarrow> i < 16 \<Longrightarrow> slot_ok (pg_streams p ! i)"
  by (simp add: ping_inv_def slot_at_ok)

lemma ping_inv_active:
  assumes "ping_inv cfg reads writes p h" and "i < 16" and "active (pg_streams p ! i)"
  obtains t where "ps_stream (pg_streams p ! i) = Some t"
    and "slot_wire (pg_streams p ! i) (reads h t) (writes h t)"
  using slots_wire_active [of active ps_stream "\<lambda>s. slot_wire s" "reads h" "writes h" "pg_streams p" i] assms
  by (auto simp: ping_inv_def ping_ok_def wire_ok_def)

lemma ping_inv_deactivate:
  assumes "ping_inv cfg reads writes p h" and "i < 16" and "slot_change p i s' p'" and "slot_ok s'"
    and "\<not> active s'" and "reads h' = reads h \<and> writes h' = writes h"
  shows "ping_inv cfg reads writes p' h'"
  using assms by (intro ping_inv_change [OF assms(1-4)]) auto

subsection \<open>Events\<close>

lemma event_push_change:
  assumes "ping_ok p"
  shows "slot_change p i (pg_streams p ! i) (snd (ping_event_push p j e))"
  using assms by (auto simp: slot_change_def ping_event_push_def ping_ok_def ping_constants Let_def)

lemma slot_ok_evented:
  "slot_ok s \<Longrightarrow> slot_ok (s\<lparr>ps_conn := c, ps_state := LIBP2P_PING_SLOT_EVENTED\<rparr>)"
  "slot_ok s \<Longrightarrow> slot_ok (s\<lparr>ps_conn := c, ps_state := LIBP2P_PING_SLOT_EVENTED, ps_stream := x\<rparr>)"
  by (simp_all add: slot_ok_def)

lemma fail_stream_inv:
  assumes H: "ping_host_ok ops cfg reads writes" and inv: "ping_inv cfg reads writes p h" and i: "i < 16"
    and f: "ping_fail_stream ops p i reason h = (e, p', h')"
  shows "ping_inv cfg reads writes p' h'"
proof -
  have ok: "ping_ok p" using inv by (simp add: ping_inv_def)
  obtain err p1 where push: "ping_event_push p i (zero_ping_event\<lparr>pe_type := LIBP2P_PING_EVENT_ERROR,
      pe_stream := ps_stream (pg_streams p ! i), pe_direction := ps_direction (pg_streams p ! i),
      pe_reason := reason, pe_user_data := ps_user_data (pg_streams p ! i)\<rparr>) = (err, p1)"
    by (rule prod.exhaust)
  have c1: "slot_change p i (pg_streams p ! i) p1" using event_push_change [OF ok, of i i] push by (metis snd_conv)
  note at = slot_change_at [OF ok i]
  let ?p2 = "upd_slot i (\<lambda>s. s\<lparr>ps_conn := None, ps_state := LIBP2P_PING_SLOT_EVENTED\<rparr>) p1"
  have c2: "slot_change p i ((pg_streams p ! i)\<lparr>ps_conn := None, ps_state := LIBP2P_PING_SLOT_EVENTED\<rparr>) ?p2"
    using slot_change_upd [OF c1, of "\<lambda>s. s\<lparr>ps_conn := None, ps_state := LIBP2P_PING_SLOT_EVENTED\<rparr>"] at [OF c1]
    by simp
  have c3: "slot_change p i ((pg_streams p ! i)\<lparr>ps_conn := None, ps_state := LIBP2P_PING_SLOT_EVENTED,
      ps_stream := None\<rparr>) (upd_slot i (ps_stream_update (\<lambda>_. None)) ?p2)"
    using slot_change_upd [OF c2, of "ps_stream_update (\<lambda>_. None)"] at [OF c2] by simp
  note f' = f [unfolded ping_fail_stream_def Let_def push prod.case]
  have q: "reads h' = reads h \<and> writes h' = writes h"
    and p': "p' = (if ps_stream (pg_streams p ! i) = None then ?p2
               else upd_slot i (ps_stream_update (\<lambda>_. None)) ?p2)"
    using f' i by (auto simp: ping_constants quiet_laws [OF H] split: if_splits)
  show ?thesis
  proof (cases "ps_stream (pg_streams p ! i)")
    case None
    with p' have "p' = ?p2" by simp
    with q ping_inv_slot [OF inv i] show ?thesis
      by (intro ping_inv_deactivate [OF inv i c2 [folded \<open>p' = ?p2\<close>]]) (simp_all add: slot_ok_evented active_def)
  next
    case (Some t)
    with p' have p3: "p' = upd_slot i (ps_stream_update (\<lambda>_. None)) ?p2" by simp
    show ?thesis
      using q ping_inv_slot [OF inv i]
      by (intro ping_inv_deactivate [OF inv i c3 [folded p3]]) (simp_all add: slot_ok_evented active_def)
  qed
qed

lemma emit_closed_inv:
  assumes inv: "ping_inv cfg reads writes p h" and i: "i < 16" and f: "ping_emit_closed p i = (e, p')"
  shows "ping_inv cfg reads writes p' h"
proof -
  have ok: "ping_ok p" using inv by (simp add: ping_inv_def)
  from f i obtain ev where p': "p' = upd_slot i (\<lambda>s. s\<lparr>ps_conn := None, ps_state := LIBP2P_PING_SLOT_EVENTED\<rparr>)
      (snd (ping_event_push p i ev))"
    by (auto simp: ping_emit_closed_def ping_constants Let_def case_prod_unfold)
  have c1: "slot_change p i (pg_streams p ! i) (snd (ping_event_push p i ev))" by (rule event_push_change [OF ok])
  have c2: "slot_change p i ((pg_streams p ! i)\<lparr>ps_conn := None, ps_state := LIBP2P_PING_SLOT_EVENTED\<rparr>) p'"
    using slot_change_upd [OF c1, of "\<lambda>s. s\<lparr>ps_conn := None, ps_state := LIBP2P_PING_SLOT_EVENTED\<rparr>"]
      slot_change_at [OF ok i c1] p' by simp
  show ?thesis
    using ping_inv_slot [OF inv i]
    by (intro ping_inv_deactivate [OF inv i c2]) (simp_all add: slot_ok_evented active_def)
qed

lemma emit_pong_inv:
  assumes inv: "ping_inv cfg reads writes p h" and i: "i < 16" and f: "ping_emit_pong p i now = (e, p')"
    and reading: "ps_state (pg_streams p ! i) = LIBP2P_PING_SLOT_INITIATOR_READING"
    and full: "ps_rx_len (pg_streams p ! i) = 32" and same: "ps_rx (pg_streams p ! i) = ps_tx (pg_streams p ! i)"
  shows "ping_inv cfg reads writes p' h"
proof -
  have ok: "ping_ok p" using inv by (simp add: ping_inv_def)
  have s: "slot_ok (pg_streams p ! i)" by (rule ping_inv_slot [OF inv i])
  have "active (pg_streams p ! i)" using reading by (simp add: active_def)
  from ping_inv_active [OF inv i this] obtain t where t: "ps_stream (pg_streams p ! i) = Some t"
    and w: "slot_wire (pg_streams p ! i) (reads h t) (writes h t)" by blast
  from f i obtain ev r p1 where push: "ping_event_push p i ev = (r, p1)" and
    p': "p' = (if r = LIBP2P_PING_OK then upd_slot i (\<lambda>s. s\<lparr>ps_state := LIBP2P_PING_SLOT_INITIATOR_IDLE,
      ps_rx_len := 0, ps_tx_pos := 0, ps_timer_started := False\<rparr>) p1 else p1)"
    by (auto simp: ping_emit_pong_def ping_constants Let_def split: prod.splits)
  have c1: "slot_change p i (pg_streams p ! i) p1" using event_push_change [OF ok, of i i ev] push by (metis snd_conv)
  show ?thesis
  proof (cases "r = LIBP2P_PING_OK")
    case True
    have c2: "slot_change p i ((pg_streams p ! i)\<lparr>ps_state := LIBP2P_PING_SLOT_INITIATOR_IDLE,
      ps_rx_len := 0, ps_tx_pos := 0, ps_timer_started := False\<rparr>) p'"
      using slot_change_upd [OF c1, of "\<lambda>s. s\<lparr>ps_state := LIBP2P_PING_SLOT_INITIATOR_IDLE,
          ps_rx_len := 0, ps_tx_pos := 0, ps_timer_started := False\<rparr>"] slot_change_at [OF ok i c1] p' True by simp
    show ?thesis
      using s reading full same t w
      by (intro ping_inv_change [OF inv i c2]) (auto simp: slot_ok_def active_def)
  next
    case False
    with p' c1 have c2: "slot_change p i (pg_streams p ! i) p'" by simp
    show ?thesis using s t w by (intro ping_inv_change [OF inv i c2]) auto
  qed
qed

subsection \<open>Writing\<close>

lemma ping_now_ok:
  assumes "ping_host_ok ops cfg reads writes" and "pg_config p = cfg" and "ping_now p h = ((e, now), h')"
  shows "e = LIBP2P_PING_OK \<and> reads h' = reads h \<and> writes h' = writes h"
  using assms clock_law [OF assms(1)] by (auto simp: ping_now_def split: option.splits)

text \<open>A step that succeeds in the model and keeps the invariant.\<close>

definition ping_keeps ::
  "'h libp2p_ping_config_t \<Rightarrow> ('h \<Rightarrow> nat \<Rightarrow> byte list) \<Rightarrow> ('h \<Rightarrow> nat \<Rightarrow> byte list) \<Rightarrow>
   ('a \<times> 'h libp2p_ping_t \<times> 'h) option \<Rightarrow> bool" where
  "ping_keeps cfg reads writes m \<longleftrightarrow> (\<exists>e p' h'. m = Some (e, p', h') \<and> ping_inv cfg reads writes p' h')"

lemma ping_keeps_Some:
  "ping_inv cfg reads writes p h \<Longrightarrow> ping_keeps cfg reads writes (Some (e, p, h))"
  by (simp add: ping_keeps_def)

lemma ping_keeps_fail:
  assumes "ping_host_ok ops cfg reads writes" and "ping_inv cfg reads writes p h" and "i < 16"
  shows "ping_keeps cfg reads writes (Some (ping_fail_stream ops p i reason h))"
  using fail_stream_inv [OF assms] by (cases "ping_fail_stream ops p i reason h") (simp add: ping_keeps_def)

lemma write_stream_keeps:
  assumes H: "ping_host_ok ops cfg reads writes" and inv: "ping_inv cfg reads writes p h" and i: "i < 16"
    and writing: "ps_state (pg_streams p ! i) \<in>
      {LIBP2P_PING_SLOT_INITIATOR_WRITING, LIBP2P_PING_SLOT_RESPONDER_WRITING}"
  shows "ping_keeps cfg reads writes (ping_write_stream ops p i h)"
proof -
  define s where "s = pg_streams p ! i"
  have ok: "ping_ok p" and cfg: "pg_config p = cfg" using inv by (simp_all add: ping_inv_def)
  have len: "i < length (pg_streams p)" using ok i by (simp add: ping_ok_def)
  have so: "slot_ok s" unfolding s_def by (rule ping_inv_slot [OF inv i])
  have act: "active (pg_streams p ! i)" using writing by (auto simp: active_def)
  from ping_inv_active [OF inv i act] obtain t where t: "ps_stream s = Some t"
    and w: "slot_wire s (reads h t) (writes h t)" unfolding s_def by blast
  have pos: "ps_tx_pos s < 32" and tx: "length (ps_tx s) = 32"
    using so writing unfolding s_def by (auto simp: slot_ok_def)
  define data where "data = drop (ps_tx_pos s) (ps_tx s)"
  obtain e k h1 where hw: "host_write ops h (Some t) data False = ((e, k), h1)" by (metis prod.exhaust)
  note law = host_write_law [OF H hw]
  have unf: "ping_write_stream ops p i h =
    (if e = LIBP2P_HOST_ERR_WOULD_BLOCK then Some (LIBP2P_HOST_OK, p, h1)
     else if e = LIBP2P_HOST_OK then
       let outbound = (ps_direction s = LIBP2P_HOST_STREAM_OUTBOUND);
           (err, p1, h2) =
             (if k \<noteq> 0 \<and> \<not> ps_timer_started s \<and> outbound
              then case ping_now p h1 of
                     ((err, now), h2) \<Rightarrow>
                       (err, upd_slot i (\<lambda>s. s\<lparr>ps_started_us := now,
                          ps_timer_started := (err = LIBP2P_PING_OK)\<rparr>) p, h2)
              else (LIBP2P_PING_OK, p, h1))
       in if err \<noteq> LIBP2P_PING_OK then Some (ping_host_err err, p1, h2)
          else
            let pos = ps_tx_pos s + k;
                p2 = upd_slot i (ps_tx_pos_update (\<lambda>_. pos)) p1;
                p3 = (if pos = LIBP2P_PING_PAYLOAD_BYTES
                      then if outbound
                           then upd_slot i (\<lambda>s. s\<lparr>ps_state := LIBP2P_PING_SLOT_INITIATOR_READING,
                                  ps_rx_len := 0\<rparr>) p2
                           else upd_slot i (\<lambda>s. s\<lparr>ps_state := LIBP2P_PING_SLOT_RESPONDER_READING,
                                  ps_tx_pos := 0, ps_rx_len := 0\<rparr>) p2
                      else p2)
            in Some (LIBP2P_HOST_OK, p3, h2)
     else Some (ping_fail_stream ops p i (ping_host_to_err e) h1))"
    using i pos tx t hw by (simp add: ping_write_stream_def ping_constants s_def [symmetric] data_def Let_def)
  show ?thesis
  proof (cases "e = LIBP2P_HOST_OK")
    case False
    then have q: "ping_inv cfg reads writes p h1" using law by (intro ping_inv_quiet [OF inv]) simp_all
    with False show ?thesis by (auto simp: unf intro: ping_keeps_Some [OF q] ping_keeps_fail [OF H q i])
  next
    case True
    define outbound where "outbound \<longleftrightarrow> ps_direction s = LIBP2P_HOST_STREAM_OUTBOUND"
    define started where "started \<longleftrightarrow> k \<noteq> 0 \<and> \<not> ps_timer_started s \<and> outbound"
    obtain e2 now h2 where n: "ping_now p h1 = ((e2, now), h2)" by (metis prod.exhaust)
    note clock = ping_now_ok [OF H cfg n]
    define h' where "h' = (if started then h2 else h1)"
    define s1 where "s1 = (if started then s\<lparr>ps_started_us := now, ps_timer_started := True\<rparr> else s)"
    define s' where "s' = (let s2 = s1\<lparr>ps_tx_pos := ps_tx_pos s + k\<rparr>
      in if ps_tx_pos s + k = 32
         then if outbound then s2\<lparr>ps_state := LIBP2P_PING_SLOT_INITIATOR_READING, ps_rx_len := 0\<rparr>
              else s2\<lparr>ps_state := LIBP2P_PING_SLOT_RESPONDER_READING, ps_tx_pos := 0, ps_rx_len := 0\<rparr>
         else s2)"
    have k': "k \<le> length data" using law True by simp
    then have "k \<le> 32 - ps_tx_pos s" using tx by (simp add: data_def)
    then have k: "ps_tx_pos s + k \<le> 32" using pos by arith
    have run: "ping_write_stream ops p i h = Some (LIBP2P_HOST_OK, p\<lparr>pg_streams := (pg_streams p)[i := s']\<rparr>, h')"
      using True clock n len
      by (cases started; cases outbound; cases "ps_tx_pos s + k = 32")
        (simp_all add: unf h'_def s'_def s1_def upd_slot_def s_def [symmetric] ping_constants Let_def,
         auto simp: outbound_def started_def)
    have change: "slot_change p i s' (p\<lparr>pg_streams := (pg_streams p)[i := s']\<rparr>)"
      using ok by (simp add: slot_change_def ping_ok_def)
    have dir: "outbound \<longleftrightarrow> ps_state s = LIBP2P_PING_SLOT_INITIATOR_WRITING"
      using so writing unfolding outbound_def s_def by (auto simp: slot_ok_def)
    have so': "slot_ok s'"
      using so writing k pos dir unfolding s'_def s1_def started_def s_def [symmetric]
      by (auto simp: slot_ok_def Let_def)
    have logs: "reads h' = reads h" "writes h' = (writes h)(t := writes h t @ take k data)"
      using law True clock by (simp_all add: h'_def)
    have full: "ps_tx_pos s + k = 32 \<Longrightarrow> take k data = data" using tx by (simp add: data_def)
    have upto: "take (ps_tx_pos s) (ps_tx s) @ take k data = take (ps_tx_pos s + k) (ps_tx s)"
      by (simp add: data_def take_add)
    have after: "drop (ps_tx_pos s) (ps_tx s) = take k data @ drop (ps_tx_pos s + k) (ps_tx s)"
      unfolding data_def by (metis append_take_drop_id drop_drop add.commute)
    have wire: "slot_wire s' (reads h' t) (writes h' t)"
      using writing w dir full upto after tx unfolding s'_def s1_def logs s_def [symmetric]
      by (auto simp: Let_def)
    have "ps_stream s' = Some t" using t by (simp add: s'_def s1_def Let_def)
    moreover have "active s'" using act dir writing by (auto simp: s'_def s1_def Let_def active_def s_def [symmetric])
    ultimately have "ping_inv cfg reads writes (p\<lparr>pg_streams := (pg_streams p)[i := s']\<rparr>) h'"
      using so' wire t logs act by (intro ping_inv_change [OF inv i change]) (auto simp: s_def [symmetric])
    then show ?thesis unfolding run by (rule ping_keeps_Some)
  qed
qed

subsection \<open>Reading\<close>

lemma read_law:
  assumes H: "ping_host_ok ops cfg reads writes" and inv: "ping_inv cfg reads writes p h" and i: "i < 16"
    and t: "ps_stream (pg_streams p ! i) = Some t"
  shows "\<exists>e bs fin h1. ping_read ops p i h = Some ((e, length bs, fin),
      upd_slot i (ps_rx_update (\<lambda>_. take (ps_rx_len (pg_streams p ! i)) (ps_rx (pg_streams p ! i)) @ bs @
        drop (ps_rx_len (pg_streams p ! i) + length bs) (ps_rx (pg_streams p ! i)))) p, h1) \<and>
    ps_rx_len (pg_streams p ! i) + length bs \<le> 32 \<and> writes h1 = writes h \<and>
    reads h1 = (if e = LIBP2P_HOST_OK then (reads h)(t := reads h t @ bs) else reads h)"
proof -
  have so: "slot_ok (pg_streams p ! i)" by (rule ping_inv_slot [OF inv i])
  obtain e bs fin h1 where r: "host_read ops h (Some t) (32 - ps_rx_len (pg_streams p ! i)) = ((e, bs, fin), h1)"
    by (metis prod.exhaust)
  note law = host_read_law [OF H r]
  have "length bs \<le> 32 - ps_rx_len (pg_streams p ! i)" and "ps_rx_len (pg_streams p ! i) \<le> 32"
    using law so by (simp_all add: slot_ok_def)
  then have fits: "ps_rx_len (pg_streams p ! i) + length bs \<le> 32" by arith
  then have "memcpy_at (ps_rx (pg_streams p ! i)) (ps_rx_len (pg_streams p ! i)) bs =
      Some (take (ps_rx_len (pg_streams p ! i)) (ps_rx (pg_streams p ! i)) @ bs @
        drop (ps_rx_len (pg_streams p ! i) + length bs) (ps_rx (pg_streams p ! i)))"
    using so by (simp add: memcpy_at_def slot_ok_def)
  with r so t law fits show ?thesis
    by (intro exI [of _ e] exI [of _ bs] exI [of _ fin] exI [of _ h1])
      (simp add: ping_read_def ping_constants slot_ok_def upd_slot_def Let_def)
qed

text \<open>The states after a read: with the new contents only, and with the new length too.\<close>

lemma rx_len_update: "ps_rx_len_update (\<lambda>n. n + m) s = s\<lparr>ps_rx_len := ps_rx_len s + m\<rparr>"
  by (cases s) simp

lemma reading_change:
  assumes ok: "ping_ok p" and i: "i < 16"
  shows "slot_change p i ((pg_streams p ! i)\<lparr>ps_rx := rx\<rparr>) (upd_slot i (ps_rx_update (\<lambda>_. rx)) p)"
    and "slot_change p i ((pg_streams p ! i)\<lparr>ps_rx := rx, ps_rx_len := ps_rx_len (pg_streams p ! i) + m\<rparr>)
      (upd_slot i (ps_rx_len_update (\<lambda>n. n + m)) (upd_slot i (ps_rx_update (\<lambda>_. rx)) p))"
  using slot_change_refl [OF ok] ok i
  by (simp_all add: slot_change_def upd_slot_def ping_ok_def rx_len_update)

lemma reading_inv:
  assumes H: "ping_host_ok ops cfg reads writes" and inv: "ping_inv cfg reads writes p h" and i: "i < 16"
    and reading: "ps_state (pg_streams p ! i) \<in>
      {LIBP2P_PING_SLOT_INITIATOR_READING, LIBP2P_PING_SLOT_RESPONDER_READING}"
    and t: "ps_stream (pg_streams p ! i) = Some t"
    and rx: "rx = take (ps_rx_len (pg_streams p ! i)) (ps_rx (pg_streams p ! i)) @ bs @
        drop (ps_rx_len (pg_streams p ! i) + length bs) (ps_rx (pg_streams p ! i))"
    and n: "n = ps_rx_len (pg_streams p ! i) + length bs" "n \<le> 32"
    and w: "writes h1 = writes h"
  shows "reads h1 = reads h \<Longrightarrow> ping_inv cfg reads writes (upd_slot i (ps_rx_update (\<lambda>_. rx)) p) h1"
    and "reads h1 = (reads h)(t := reads h t @ bs) \<Longrightarrow>
      n < 32 \<or> ps_state (pg_streams p ! i) = LIBP2P_PING_SLOT_INITIATOR_READING \<Longrightarrow>
      ping_inv cfg reads writes
        (upd_slot i (ps_rx_len_update (\<lambda>n. n + length bs)) (upd_slot i (ps_rx_update (\<lambda>_. rx)) p)) h1"
    and "length rx = 32"
    and "take n rx = take (ps_rx_len (pg_streams p ! i)) (ps_rx (pg_streams p ! i)) @ bs"
proof -
  have ok: "ping_ok p" using inv by (simp add: ping_inv_def)
  have so: "slot_ok (pg_streams p ! i)" by (rule ping_inv_slot [OF inv i])
  show len: "length rx = 32" using so n rx by (simp add: slot_ok_def)
  show new: "take n rx = take (ps_rx_len (pg_streams p ! i)) (ps_rx (pg_streams p ! i)) @ bs"
    using so n rx by (simp add: slot_ok_def)
  have old: "take (ps_rx_len (pg_streams p ! i)) rx = take (ps_rx_len (pg_streams p ! i)) (ps_rx (pg_streams p ! i))"
    using so rx by (simp add: slot_ok_def)
  have act: "active (pg_streams p ! i)" using reading by (auto simp: active_def)
  from ping_inv_active [OF inv i act] t have wire: "slot_wire (pg_streams p ! i) (reads h t) (writes h t)" by auto
  show "ping_inv cfg reads writes (upd_slot i (ps_rx_update (\<lambda>_. rx)) p) h1" if "reads h1 = reads h"
    using so len old wire reading t that w
    by (intro ping_inv_change [OF inv i reading_change(1) [OF ok i]]) (auto simp: slot_ok_def active_def)
  show "ping_inv cfg reads writes
        (upd_slot i (ps_rx_len_update (\<lambda>n. n + length bs)) (upd_slot i (ps_rx_update (\<lambda>_. rx)) p)) h1"
    if "reads h1 = (reads h)(t := reads h t @ bs)"
      "n < 32 \<or> ps_state (pg_streams p ! i) = LIBP2P_PING_SLOT_INITIATOR_READING"
    using so len new wire reading t that w n
    by (intro ping_inv_change [OF inv i reading_change(2) [OF ok i]]) (auto simp: slot_ok_def active_def)
qed

text \<open>The two readers after their read, over opaque intermediate states.\<close>

lemma read_responder_after:
  assumes "ping_read ops p i h = Some ((LIBP2P_HOST_OK, n, fin), p1, h1)" and "i < 16"
    and "upd_slot i (ps_rx_len_update (\<lambda>m. m + n)) p1 = p2"
  shows "ping_read_responder ops p i h =
    (if ps_rx_len (pg_streams p2 ! i) = 32 then
       Option.bind (memcpy_at (ps_tx (pg_streams p2 ! i)) 0 (ps_rx (pg_streams p2 ! i)))
         (\<lambda>tx. ping_write_stream ops (upd_slot i (\<lambda>s. s\<lparr>ps_tx := tx, ps_tx_pos := 0,
            ps_state := LIBP2P_PING_SLOT_RESPONDER_WRITING\<rparr>) p2) i h1)
     else if fin then
       if ps_rx_len (pg_streams p2 ! i) = 0
       then (case ping_emit_closed p2 i of (e, p3) \<Rightarrow>
          Some (e, p3, snd (host_finish ops h1 (ps_stream (pg_streams p2 ! i)))))
       else Some (ping_fail_stream ops p2 i LIBP2P_PING_ERR_STATE h1)
     else Some (LIBP2P_HOST_OK, p2, h1))"
  using assms(2) by (simp add: ping_read_responder_def assms(1,3) ping_constants Let_def)

lemma read_initiator_after:
  assumes "ping_read ops p i h = Some ((LIBP2P_HOST_OK, n, fin), p1, h1)" and "i < 16"
    and "upd_slot i (ps_rx_len_update (\<lambda>m. m + n)) p1 = p2"
    and "ping_now p2 h1 = ((LIBP2P_PING_OK, now), h2)"
  shows "ping_read_initiator ops p i h =
    (if ps_rx_len (pg_streams p2 ! i) = 32 then
       if ps_rx (pg_streams p2 ! i) = ps_tx (pg_streams p2 ! i)
       then (case ping_emit_pong p2 i now of (e3, p3) \<Rightarrow> Some (e3, p3, h2))
       else Some (ping_fail_stream ops p2 i LIBP2P_PING_ERR_MISMATCH h1)
     else if fin then Some (ping_fail_stream ops p2 i LIBP2P_PING_ERR_STATE h1)
     else Some (LIBP2P_HOST_OK, p2, h1))"
  using assms(2) by (simp add: ping_read_initiator_def assms(1,3,4) ping_constants Let_def)

lemma read_responder_keeps:
  assumes H: "ping_host_ok ops cfg reads writes" and inv: "ping_inv cfg reads writes p h" and i: "i < 16"
    and reading: "ps_state (pg_streams p ! i) = LIBP2P_PING_SLOT_RESPONDER_READING"
  shows "ping_keeps cfg reads writes (ping_read_responder ops p i h)"
proof -
  have ok: "ping_ok p" using inv by (simp add: ping_inv_def)
  have so: "slot_ok (pg_streams p ! i)" by (rule ping_inv_slot [OF inv i])
  have len: "i < length (pg_streams p)" using ok i by (simp add: ping_ok_def)
  have "active (pg_streams p ! i)" using reading by (simp add: active_def)
  from ping_inv_active [OF inv i this] obtain t where t: "ps_stream (pg_streams p ! i) = Some t"
    and wire: "slot_wire (pg_streams p ! i) (reads h t) (writes h t)" by blast
  from read_law [OF H inv i t] obtain e bs fin h1 rx where
    rx: "rx = take (ps_rx_len (pg_streams p ! i)) (ps_rx (pg_streams p ! i)) @ bs @
        drop (ps_rx_len (pg_streams p ! i) + length bs) (ps_rx (pg_streams p ! i))" and
    r: "ping_read ops p i h = Some ((e, length bs, fin), upd_slot i (ps_rx_update (\<lambda>_. rx)) p, h1)" and
    fits: "ps_rx_len (pg_streams p ! i) + length bs \<le> 32" and
    logs: "writes h1 = writes h" "reads h1 = (if e = LIBP2P_HOST_OK then (reads h)(t := reads h t @ bs) else reads h)"
    by metis
  have "ps_state (pg_streams p ! i) \<in> {LIBP2P_PING_SLOT_INITIATOR_READING, LIBP2P_PING_SLOT_RESPONDER_READING}"
    using reading by simp
  note inv' = reading_inv [OF H inv i this t rx refl fits logs(1)]
  define p2 where "p2 = upd_slot i (ps_rx_len_update (\<lambda>n. n + length bs)) (upd_slot i (ps_rx_update (\<lambda>_. rx)) p)"
  have slot2: "pg_streams p2 ! i = (pg_streams p ! i)\<lparr>ps_rx := rx, ps_rx_len := ps_rx_len (pg_streams p ! i) + length bs\<rparr>"
    using len by (simp add: p2_def upd_slot_def)
  consider (fail) "e \<noteq> LIBP2P_HOST_OK"
    | (full) "e = LIBP2P_HOST_OK" "ps_rx_len (pg_streams p ! i) + length bs = 32"
    | (part) "e = LIBP2P_HOST_OK" "ps_rx_len (pg_streams p ! i) + length bs < 32"
    using fits by linarith
  then show ?thesis
  proof cases
    case fail
    then have q: "ping_inv cfg reads writes (upd_slot i (ps_rx_update (\<lambda>_. rx)) p) h1" using inv'(1) logs by simp
    show ?thesis using fail i
      by (auto simp: ping_read_responder_def ping_constants r intro: ping_keeps_Some [OF q] ping_keeps_fail [OF H q i])
  next
    case full
    define s3 where "s3 = (pg_streams p ! i)\<lparr>ps_rx := rx, ps_rx_len := 32, ps_tx := rx, ps_tx_pos := 0,
      ps_state := LIBP2P_PING_SLOT_RESPONDER_WRITING\<rparr>"
    have cp: "memcpy_at (ps_tx (pg_streams p ! i)) 0 rx = Some rx"
      using so inv'(3) by (simp add: memcpy_at_def slot_ok_def)
    define p3 where "p3 = upd_slot i (\<lambda>s. s\<lparr>ps_tx := rx, ps_tx_pos := 0,
      ps_state := LIBP2P_PING_SLOT_RESPONDER_WRITING\<rparr>) p2"
    have change: "slot_change p i s3 p3"
      using ok len full by (simp add: slot_change_def p3_def p2_def s3_def upd_slot_def ping_ok_def rx_len_update)
    have "take 32 rx = rx" using inv'(3) by simp
    with inv'(4) full have rx': "rx = take (ps_rx_len (pg_streams p ! i)) (ps_rx (pg_streams p ! i)) @ bs" by simp
    have "ping_inv cfg reads writes p3 h1"
      using so inv'(3) reading wire t logs full rx'
      by (intro ping_inv_change [OF inv i change]) (auto simp: s3_def slot_ok_def active_def)
    moreover have "ps_state (pg_streams p3 ! i) \<in>
        {LIBP2P_PING_SLOT_INITIATOR_WRITING, LIBP2P_PING_SLOT_RESPONDER_WRITING}"
      using slot_change_at [OF ok i change] by (simp add: s3_def)
    ultimately have "ping_keeps cfg reads writes (ping_write_stream ops p3 i h1)"
      by (rule write_stream_keeps [OF H _ i])
    then show ?thesis
      using full i cp slot2
      by (simp add: ping_read_responder_def ping_constants r p2_def [symmetric] p3_def Let_def)
  next
    case part
    then have q: "ping_inv cfg reads writes p2 h1" unfolding p2_def using inv'(2) logs by simp
    have fin: "ping_inv cfg reads writes p2 (snd (host_finish ops h1 x))" for x
      by (rule ping_inv_quiet [OF q]) (simp_all add: quiet_laws [OF H])
    obtain e3 p3 where closed: "ping_emit_closed p2 i = (e3, p3)" by (rule prod.exhaust)
    have "ping_inv cfg reads writes p3 (snd (host_finish ops h1 x))" for x
      by (rule emit_closed_inv [OF fin i closed])
    then show ?thesis
      using part(2) unfolding read_responder_after [OF r [unfolded part(1)] i p2_def [symmetric]] closed
      by (auto simp: slot2 intro: ping_keeps_Some ping_keeps_Some [OF q] ping_keeps_fail [OF H q i])
  qed
qed

lemma read_initiator_keeps:
  assumes H: "ping_host_ok ops cfg reads writes" and inv: "ping_inv cfg reads writes p h" and i: "i < 16"
    and reading: "ps_state (pg_streams p ! i) = LIBP2P_PING_SLOT_INITIATOR_READING"
  shows "ping_keeps cfg reads writes (ping_read_initiator ops p i h)"
proof -
  have ok: "ping_ok p" and cfg: "pg_config p = cfg" using inv by (simp_all add: ping_inv_def)
  have len: "i < length (pg_streams p)" using ok i by (simp add: ping_ok_def)
  have "active (pg_streams p ! i)" using reading by (simp add: active_def)
  from ping_inv_active [OF inv i this] obtain t where t: "ps_stream (pg_streams p ! i) = Some t" by blast
  from read_law [OF H inv i t] obtain e bs fin h1 rx where
    rx: "rx = take (ps_rx_len (pg_streams p ! i)) (ps_rx (pg_streams p ! i)) @ bs @
        drop (ps_rx_len (pg_streams p ! i) + length bs) (ps_rx (pg_streams p ! i))" and
    r: "ping_read ops p i h = Some ((e, length bs, fin), upd_slot i (ps_rx_update (\<lambda>_. rx)) p, h1)" and
    fits: "ps_rx_len (pg_streams p ! i) + length bs \<le> 32" and
    logs: "writes h1 = writes h" "reads h1 = (if e = LIBP2P_HOST_OK then (reads h)(t := reads h t @ bs) else reads h)"
    by metis
  have "ps_state (pg_streams p ! i) \<in> {LIBP2P_PING_SLOT_INITIATOR_READING, LIBP2P_PING_SLOT_RESPONDER_READING}"
    using reading by simp
  note inv' = reading_inv [OF H inv i this t rx refl fits logs(1)]
  define p2 where "p2 = upd_slot i (ps_rx_len_update (\<lambda>n. n + length bs)) (upd_slot i (ps_rx_update (\<lambda>_. rx)) p)"
  have slot2: "pg_streams p2 ! i = (pg_streams p ! i)\<lparr>ps_rx := rx, ps_rx_len := ps_rx_len (pg_streams p ! i) + length bs\<rparr>"
    using len by (simp add: p2_def upd_slot_def)
  show ?thesis
  proof (cases "e = LIBP2P_HOST_OK")
    case False
    then have q: "ping_inv cfg reads writes (upd_slot i (ps_rx_update (\<lambda>_. rx)) p) h1" using inv'(1) logs by simp
    show ?thesis using False i
      by (auto simp: ping_read_initiator_def ping_constants r intro: ping_keeps_Some [OF q] ping_keeps_fail [OF H q i])
  next
    case True
    then have q: "ping_inv cfg reads writes p2 h1" unfolding p2_def using inv'(2) logs reading by simp
    obtain e2 now h2 where n: "ping_now p2 h1 = ((e2, now), h2)" by (metis prod.exhaust)
    have "pg_config p2 = cfg" using q by (simp add: ping_inv_def)
    note c = ping_now_ok [OF H this n]
    then have clock: "e2 = LIBP2P_PING_OK" and q2: "ping_inv cfg reads writes p2 h2"
      by (simp_all add: ping_inv_quiet [OF q])
    note unf = read_initiator_after [OF r [unfolded True] i p2_def [symmetric] n [unfolded clock]]
    obtain e3 p3 where pong: "ping_emit_pong p2 i now = (e3, p3)" by (rule prod.exhaust)
    have "ping_inv cfg reads writes p3 h2"
      if "ps_rx_len (pg_streams p ! i) + length bs = 32" "rx = ps_tx (pg_streams p ! i)"
      using that slot2 reading by (intro emit_pong_inv [OF q2 i pong]) simp_all
    then show ?thesis
      unfolding unf pong slot2
      by (auto intro: ping_keeps_Some ping_keeps_Some [OF q] ping_keeps_fail [OF H q i])
  qed
qed

end
