(* ===== verification/Ping_Reach.thy ===== *)
theory Ping_Reach
  imports Ping_Laws
begin

text \<open>
  Every operation of the ping protocol keeps the invariant, so every reachable state satisfies it, and no
  access leaves the payload buffers. At the end the properties of reachable states and two sequences of
  calls in which a slot goes to the wrong stream.
\<close>

subsection \<open>Finding slots\<close>

lemma find_slot:
  assumes "ping_inv cfg reads writes p h" and "find_slot_loop test (pg_streams p) 0 = Some i"
  shows "i < 16 \<and> test (pg_streams p ! i)"
  using find_loop_Some [OF assms(2)] assms(1) by (simp add: ping_inv_def ping_ok_def)

lemma zero_slot_ok: "slot_ok zero_slot" and zero_slot_inactive: "\<not> active zero_slot"
  by (simp_all add: slot_ok_def active_def zero_slot_def ping_constants)

lemma alloc_law:
  assumes inv: "ping_inv cfg reads writes p h" and a: "ping_alloc_slot p = Some (i, p1)"
  shows "i < 16 \<and> ping_inv cfg reads writes p1 h \<and> pg_streams p1 ! i = zero_slot \<and>
    pg_streams p1 = (pg_streams p)[i := zero_slot]"
proof -
  from a have find: "find_slot_loop (\<lambda>s. ps_state s = LIBP2P_PING_SLOT_FREE) (pg_streams p) 0 = Some i"
    and p1: "p1 = upd_slot i (\<lambda>_. zero_slot) p"
    by (auto simp: ping_alloc_slot_def split: option.splits)
  have i: "i < 16" using find_slot [OF inv find] by simp
  have ok: "ping_ok p" using inv by (simp add: ping_inv_def)
  have c: "slot_change p i zero_slot p1"
    using slot_change_upd [OF slot_change_refl [OF ok], of i "\<lambda>_. zero_slot"] by (simp add: p1)
  have "ping_inv cfg reads writes p1 h"
    by (rule ping_inv_deactivate [OF inv i c zero_slot_ok zero_slot_inactive]) simp
  with i c slot_change_at [OF ok i c] show ?thesis by (simp add: slot_change_def)
qed

subsection \<open>The payload\<close>

text \<open>The slot of a payload is not sending; afterwards it is the same up to the new payload.\<close>

lemma prepare_law:
  assumes H: "ping_host_ok ops cfg reads writes" and inv: "ping_inv cfg reads writes p h" and i: "i < 16"
    and idle: "ps_state (pg_streams p ! i) \<in> {LIBP2P_PING_SLOT_FREE, LIBP2P_PING_SLOT_INITIATOR_IDLE}"
  shows "\<exists>e p1 h1 tx. ping_prepare_payload p i h = Some (e, p1, h1) \<and> length tx = 32 \<and>
    ping_inv cfg reads writes p1 h1 \<and> reads h1 = reads h \<and> writes h1 = writes h \<and>
    slot_change p i (if e = LIBP2P_PING_OK
      then (pg_streams p ! i)\<lparr>ps_tx := tx, ps_tx_pos := 0, ps_rx_len := 0, ps_timer_started := False\<rparr>
      else (pg_streams p ! i)\<lparr>ps_tx := tx\<rparr>) p1"
proof -
  have ok: "ping_ok p" and cfg: "pg_config p = cfg" using inv by (simp_all add: ping_inv_def)
  then obtain f where f: "random_fn cfg = Some f" by (auto simp: ping_ok_def)
  obtain e bs h1 where r: "f h 32 = ((e, bs), h1)" by (metis prod.exhaust)
  note law = random_law [OF H f r]
  have so: "slot_ok (pg_streams p ! i)" by (rule ping_inv_slot [OF inv i])
  define tx where "tx = bs @ drop (length bs) (ps_tx (pg_streams p ! i))"
  have tx: "length tx = 32" and cp: "memcpy_at (ps_tx (pg_streams p ! i)) 0 bs = Some tx"
    using law so by (simp_all add: tx_def slot_ok_def memcpy_at_def)
  define p1 where "p1 = upd_slot i (ps_tx_update (\<lambda>_. tx)) p"
  define p2 where "p2 = upd_slot i (\<lambda>s. s\<lparr>ps_tx_pos := 0, ps_rx_len := 0, ps_timer_started := False\<rparr>) p1"
  have c1: "slot_change p i ((pg_streams p ! i)\<lparr>ps_tx := tx\<rparr>) p1"
    using slot_change_upd [OF slot_change_refl [OF ok], of i "ps_tx_update (\<lambda>_. tx)"] by (simp add: p1_def)
  have c2: "slot_change p i ((pg_streams p ! i)\<lparr>ps_tx := tx, ps_tx_pos := 0, ps_rx_len := 0, ps_timer_started := False\<rparr>) p2"
    using slot_change_upd [OF c1, of "\<lambda>s. s\<lparr>ps_tx_pos := 0, ps_rx_len := 0, ps_timer_started := False\<rparr>"]
      slot_change_at [OF ok i c1] by (simp add: p2_def)
  have run: "ping_prepare_payload p i h = Some (if e = LIBP2P_PING_OK then (LIBP2P_PING_OK, p2, h1)
      else (LIBP2P_PING_ERR_RANDOM, p1, h1))"
    using cfg f r cp by (simp add: ping_prepare_payload_def ping_constants p1_def p2_def Let_def)
  have q: "ping_inv cfg reads writes p2 h1 \<and> ping_inv cfg reads writes p1 h1"
  proof (cases "ps_state (pg_streams p ! i) = LIBP2P_PING_SLOT_FREE")
    case True
    then show ?thesis using law so tx
      by (intro conjI ping_inv_deactivate [OF inv i c1] ping_inv_deactivate [OF inv i c2])
        (simp_all add: slot_ok_def active_def)
  next
    case False
    with idle have st: "ps_state (pg_streams p ! i) = LIBP2P_PING_SLOT_INITIATOR_IDLE" by simp
    then have a: "active (pg_streams p ! i)" by (simp add: active_def)
    from ping_inv_active [OF inv i a] st obtain t where "ps_stream (pg_streams p ! i) = Some t"
      "writes h t = reads h t" by auto
    with st law so tx a show ?thesis
      by (intro conjI ping_inv_change [OF inv i c1] ping_inv_change [OF inv i c2]) (simp_all add: slot_ok_def)
  qed
  show ?thesis
  proof (cases "e = LIBP2P_PING_OK")
    case True
    then show ?thesis using run q law tx c2 by auto
  next
    case False
    then show ?thesis using run q law tx c1
      by (intro exI [of _ LIBP2P_PING_ERR_RANDOM] exI [of _ p1] exI [of _ h1] exI [of _ tx]) simp
  qed
qed

subsection \<open>Streams that open\<close>

text \<open>A stream is new: nothing went over it and no active slot has it.\<close>

definition fresh_stream ::
  "('h \<Rightarrow> nat \<Rightarrow> byte list) \<Rightarrow> ('h \<Rightarrow> nat \<Rightarrow> byte list) \<Rightarrow> 'h libp2p_ping_t \<Rightarrow> 'h \<Rightarrow> nat \<Rightarrow> bool" where
  "fresh_stream reads writes p h t \<longleftrightarrow> reads h t = [] \<and> writes h t = [] \<and>
     (\<forall>s \<in> set (pg_streams p). active s \<longrightarrow> ps_stream s \<noteq> Some t)"

lemma ping_inv_activate:
  assumes inv: "ping_inv cfg reads writes p h" and i: "i < 16" and c: "slot_change p i s' p'" and so: "slot_ok s'"
    and t: "ps_stream s' = Some t" and wire: "slot_wire s' [] []" and fresh: "fresh_stream reads writes p h t"
    and idle: "\<not> active (pg_streams p ! i)"
  shows "ping_inv cfg reads writes p' h"
proof -
  from inv have ok: "ping_ok p" and w: "wire_ok reads writes p h" and cfg: "pg_config p = cfg"
    by (simp_all add: ping_inv_def)
  have "wire_ok reads writes p' h"
    using slots_wire_activate [OF w [unfolded wire_ok_def], of i s' t] c t wire fresh ok i
    by (simp add: wire_ok_def slot_change_def ping_ok_def fresh_stream_def)
  with ping_ok_change [OF ok c so] c cfg show ?thesis by (simp add: ping_inv_def slot_change_def)
qed

lemma fresh_stream_quiet:
  "fresh_stream reads writes p h t \<Longrightarrow> reads h' = reads h \<Longrightarrow> writes h' = writes h \<Longrightarrow>
   slot_change p i s p' \<Longrightarrow> \<not> active s \<Longrightarrow> fresh_stream reads writes p' h' t"
  by (auto simp: fresh_stream_def slot_change_def dest!: set_update_subset_insert [THEN subsetD])

lemma find_opening_law:
  assumes inv: "ping_inv cfg reads writes p h" and o: "ping_find_opening p = Some i"
  shows "i < 16 \<and> \<not> active (pg_streams p ! i) \<and> ps_tx_pos (pg_streams p ! i) = 0"
proof -
  from find_slot [OF inv o [unfolded ping_find_opening_def]] have "i < 16"
    and "ps_state (pg_streams p ! i) = LIBP2P_PING_SLOT_OPENING" by simp_all
  with ping_inv_slot [OF inv \<open>i < 16\<close>] show ?thesis by (simp add: slot_ok_def active_def)
qed

text \<open>The slot that an opening stream gets: inactive, with an empty receive buffer and nothing sent.\<close>

lemma open_slot_law:
  assumes H: "ping_host_ok ops cfg reads writes" and inv: "ping_inv cfg reads writes p h"
    and fresh: "fresh_stream reads writes p h t"
  shows "\<exists>e o1 p1 h1. ping_open_slot p d h = Some (e, o1, p1, h1) \<and> ping_inv cfg reads writes p1 h1 \<and>
    fresh_stream reads writes p1 h1 t \<and>
    (e = LIBP2P_PING_OK \<longrightarrow> (\<forall>i. o1 = Some i \<longrightarrow> i < 16 \<and> \<not> active (pg_streams p1 ! i) \<and>
       ps_tx_pos (pg_streams p1 ! i) = 0 \<and> (d \<noteq> LIBP2P_HOST_STREAM_OUTBOUND \<longrightarrow> ps_rx_len (pg_streams p1 ! i) = 0)))"
proof (cases "ping_alloc_slot p")
  case None
  then show ?thesis
    using inv fresh find_opening_law [OF inv] by (auto simp: ping_open_slot_def split: option.splits)
next
  case (Some a)
  obtain i p1 where a: "ping_alloc_slot p = Some (i, p1)" using Some by (cases a) simp
  note law = alloc_law [OF inv a]
  have i: "i < 16" and inv1: "ping_inv cfg reads writes p1 h" and z: "pg_streams p1 ! i = zero_slot" using law by auto
  have fresh1: "fresh_stream reads writes p1 h t"
    using fresh law zero_slot_inactive
    by (auto simp: fresh_stream_def dest!: set_update_subset_insert [THEN subsetD])
  have "ps_state (pg_streams p1 ! i) \<in> {LIBP2P_PING_SLOT_FREE, LIBP2P_PING_SLOT_INITIATOR_IDLE}"
    by (simp add: z zero_slot_def)
  from prepare_law [OF H inv1 i this, unfolded z] obtain e p2 h2 tx where
    pr: "ping_prepare_payload p1 i h = Some (e, p2, h2)" and inv2: "ping_inv cfg reads writes p2 h2"
    and log: "reads h2 = reads h" "writes h2 = writes h" and
    c: "slot_change p1 i (if e = LIBP2P_PING_OK
      then zero_slot\<lparr>ps_tx := tx, ps_tx_pos := 0, ps_rx_len := 0, ps_timer_started := False\<rparr>
      else zero_slot\<lparr>ps_tx := tx\<rparr>) p2"
    by blast
  have ok1: "ping_ok p1" using inv1 by (simp add: ping_inv_def)
  note at = slot_change_at [OF ok1 i c]
  have idle2: "\<not> active (pg_streams p2 ! i) \<and> ps_tx_pos (pg_streams p2 ! i) = 0"
    using at by (auto simp: active_def zero_slot_def)
  have fresh2: "fresh_stream reads writes p2 h2 t"
    by (rule fresh_stream_quiet [OF fresh1 log c]) (simp add: active_def zero_slot_def)
  show ?thesis
  proof (cases "d = LIBP2P_HOST_STREAM_OUTBOUND \<and> ping_find_opening p \<noteq> None")
    case True
    then show ?thesis
      using inv fresh find_opening_law [OF inv] by (auto simp: ping_open_slot_def)
  next
    case False
    show ?thesis
    proof (cases "d = LIBP2P_HOST_STREAM_OUTBOUND")
      case True
      with False a pr inv2 fresh2 idle2 i show ?thesis by (simp add: ping_open_slot_def)
    next
      case inbound: False
      with a inv1 fresh1 z zero_slot_inactive i show ?thesis
        by (simp add: ping_open_slot_def) (simp add: zero_slot_def)
    qed
  qed
qed

lemma on_open_keeps:
  assumes H: "ping_host_ok ops cfg reads writes" and inv: "ping_inv cfg reads writes p h"
    and fresh: "fresh_stream reads writes p h t"
  shows "ping_keeps cfg reads writes (ping_on_open ops p (Some t) d h)"
proof -
  from open_slot_law [OF H inv fresh, of d] obtain e o1 p1 h1 where
    o: "ping_open_slot p d h = Some (e, o1, p1, h1)" and inv1: "ping_inv cfg reads writes p1 h1" and
    fresh1: "fresh_stream reads writes p1 h1 t" and
    slot: "e = LIBP2P_PING_OK \<Longrightarrow> \<forall>i. o1 = Some i \<longrightarrow> i < 16 \<and> \<not> active (pg_streams p1 ! i) \<and>
       ps_tx_pos (pg_streams p1 ! i) = 0 \<and> (d \<noteq> LIBP2P_HOST_STREAM_OUTBOUND \<longrightarrow> ps_rx_len (pg_streams p1 ! i) = 0)"
    by blast
  show ?thesis
  proof (cases "e = LIBP2P_PING_OK \<and> o1 \<noteq> None")
    case False
    then show ?thesis by (auto simp: ping_on_open_def o intro: ping_keeps_Some [OF inv1])
  next
    case True
    then obtain i where e: "e = LIBP2P_PING_OK" and o1: "o1 = Some i" by auto
    with slot have i: "i < 16" and idle: "\<not> active (pg_streams p1 ! i)" and pos: "ps_tx_pos (pg_streams p1 ! i) = 0"
      and rx: "d \<noteq> LIBP2P_HOST_STREAM_OUTBOUND \<Longrightarrow> ps_rx_len (pg_streams p1 ! i) = 0" by auto
    have ok1: "ping_ok p1" using inv1 by (simp add: ping_inv_def)
    have so: "slot_ok (pg_streams p1 ! i)" by (rule ping_inv_slot [OF inv1 i])
    define f where "f = (\<lambda>s :: libp2p_ping_stream_state_t. s\<lparr>ps_stream := Some t, ps_direction := d,
      ps_state := (if d = LIBP2P_HOST_STREAM_OUTBOUND then LIBP2P_PING_SLOT_INITIATOR_WRITING
                   else LIBP2P_PING_SLOT_RESPONDER_READING)\<rparr>)"
    define p2 where "p2 = upd_slot i f p1"
    have c: "slot_change p1 i (f (pg_streams p1 ! i)) p2"
      unfolding p2_def by (rule slot_change_upd [OF slot_change_refl [OF ok1]])
    have "d = LIBP2P_HOST_STREAM_OUTBOUND \<or> d = LIBP2P_HOST_STREAM_INBOUND" by (cases d) simp_all
    with so pos rx have "slot_ok (f (pg_streams p1 ! i)) \<and> slot_wire (f (pg_streams p1 ! i)) [] []"
      by (auto simp: f_def slot_ok_def)
    then have inv2: "ping_inv cfg reads writes p2 h1"
      by (intro ping_inv_activate [OF inv1 i c _ _ _ fresh1 idle]) (simp_all add: f_def)
    obtain err h2 where u: "host_set_user_data ops h1 (Some t) (Some i) = (err, h2)" by (rule prod.exhaust)
    have inv3: "ping_inv cfg reads writes p2 h2"
      using quiet_laws(5,6) [OF H, of h1 "Some t" "Some i"] u by (intro ping_inv_quiet [OF inv2]) simp_all
    have "ping_on_open ops p (Some t) d h =
      (if ping_host_to_err err = LIBP2P_PING_OK \<and> d = LIBP2P_HOST_STREAM_OUTBOUND then ping_write_stream ops p2 i h2
       else Some (ping_host_err (ping_host_to_err err), p2, h2))"
      by (simp add: ping_on_open_def o e o1 u p2_def f_def)
    moreover have "ping_keeps cfg reads writes (ping_write_stream ops p2 i h2)" if "d = LIBP2P_HOST_STREAM_OUTBOUND"
      using slot_change_at [OF ok1 i c] that by (intro write_stream_keeps [OF H inv3 i]) (simp add: f_def)
    ultimately show ?thesis by (auto intro: ping_keeps_Some [OF inv3])
  qed
qed

subsection \<open>Events and calls\<close>

lemma on_event_keeps:
  assumes H: "ping_host_ok ops cfg reads writes" and inv: "ping_inv cfg reads writes p h"
  shows "ping_keeps cfg reads writes (ping_on_event ops p stream kind h)"
proof (cases "stream = None \<or> ping_find_stream p stream = None")
  case True
  then show ?thesis by (auto simp: ping_on_event_def intro: ping_keeps_Some [OF inv])
next
  case False
  then obtain i where s: "stream \<noteq> None" and find: "ping_find_stream p stream = Some i" by auto
  have i: "i < 16" using find s find_slot [OF inv] by (auto simp: ping_find_stream_def)
  obtain err h1 where u: "host_set_user_data ops h stream (Some i) = (err, h1)" by (rule prod.exhaust)
  have q: "ping_inv cfg reads writes p h1"
    using quiet_laws(5,6) [OF H, of h stream "Some i"] u by (intro ping_inv_quiet [OF inv]) simp_all
  obtain e2 p2 where closed: "ping_emit_closed p i = (e2, p2)" by (rule prod.exhaust)
  note keeps = ping_keeps_Some ping_keeps_Some [OF q] ping_keeps_Some [OF emit_closed_inv [OF q i closed]]
    ping_keeps_fail [OF H q i] write_stream_keeps [OF H q i] read_responder_keeps [OF H q i]
    read_initiator_keeps [OF H q i]
  show ?thesis
    by (cases kind) (auto simp: ping_on_event_def s find u closed Let_def intro: keeps)
qed

lemma initiate_keeps:
  assumes H: "ping_host_ok ops cfg reads writes" and inv: "ping_inv cfg reads writes p h"
  shows "ping_keeps cfg reads writes (libp2p_ping_initiate ops p conn user_data h)"
proof (cases "conn = None \<or> ping_conn_has_outbound p conn \<or> ping_alloc_slot p = None")
  case True
  then show ?thesis by (auto simp: libp2p_ping_initiate_def intro: ping_keeps_Some [OF inv])
next
  case False
  then obtain i p1 where pre: "conn \<noteq> None" "\<not> ping_conn_has_outbound p conn"
    and a: "ping_alloc_slot p = Some (i, p1)" by auto
  note law = alloc_law [OF inv a]
  have i: "i < 16" and inv1: "ping_inv cfg reads writes p1 h" and z: "pg_streams p1 ! i = zero_slot" using law by auto
  have "ps_state (pg_streams p1 ! i) \<in> {LIBP2P_PING_SLOT_FREE, LIBP2P_PING_SLOT_INITIATOR_IDLE}"
    by (simp add: z zero_slot_def)
  from prepare_law [OF H inv1 i this, unfolded z] obtain e p2 h2 tx where
    pr: "ping_prepare_payload p1 i h = Some (e, p2, h2)" and inv2: "ping_inv cfg reads writes p2 h2" and
    c: "slot_change p1 i (if e = LIBP2P_PING_OK
      then zero_slot\<lparr>ps_tx := tx, ps_tx_pos := 0, ps_rx_len := 0, ps_timer_started := False\<rparr>
      else zero_slot\<lparr>ps_tx := tx\<rparr>) p2" by blast
  show ?thesis
  proof (cases "e = LIBP2P_PING_OK")
    case False
    with pre a pr show ?thesis by (auto simp: libp2p_ping_initiate_def intro: ping_keeps_Some [OF inv2])
  next
    case True
    have ok1: "ping_ok p1" and ok2: "ping_ok p2" using inv1 inv2 by (simp_all add: ping_inv_def)
    define f where "f = (\<lambda>s :: libp2p_ping_stream_state_t. s\<lparr>ps_state := LIBP2P_PING_SLOT_OPENING,
      ps_direction := LIBP2P_HOST_STREAM_OUTBOUND, ps_conn := conn, ps_user_data := user_data\<rparr>)"
    define p3 where "p3 = upd_slot i f p2"
    have c3: "slot_change p2 i (f (pg_streams p2 ! i)) p3"
      unfolding p3_def by (rule slot_change_upd [OF slot_change_refl [OF ok2]])
    have "slot_ok (f (pg_streams p2 ! i)) \<and> \<not> active (f (pg_streams p2 ! i))"
      using slot_change_at [OF ok1 i c] ping_inv_slot [OF inv2 i] True
      by (simp add: f_def slot_ok_def active_def)
    then have inv3: "ping_inv cfg reads writes p3 h2"
      by (intro ping_inv_deactivate [OF inv2 i c3]) simp_all
    have c4: "slot_change p3 i zero_slot (upd_slot i (\<lambda>_. zero_slot) p3)"
      using slot_change_upd [OF slot_change_refl, of p3 i "\<lambda>_. zero_slot"] inv3 by (simp add: ping_inv_def)
    have inv4: "ping_inv cfg reads writes (upd_slot i (\<lambda>_. zero_slot) p3) h2"
      by (rule ping_inv_deactivate [OF inv3 i c4 zero_slot_ok zero_slot_inactive]) simp
    obtain e4 o4 h4 where o: "host_open ops h2 conn LIBP2P_PING_PROTOCOL_ID (Some i) = ((e4, o4), h4)"
      by (metis prod.exhaust)
    have log: "reads h4 = reads h2" "writes h4 = writes h2"
      using quiet_laws(7,8) [OF H, of h2 conn LIBP2P_PING_PROTOCOL_ID "Some i"] o by simp_all
    have "libp2p_ping_initiate ops p conn user_data h = Some ((ping_host_to_err e4, o4),
        if ping_host_to_err e4 \<noteq> LIBP2P_PING_OK then upd_slot i (\<lambda>_. zero_slot) p3 else p3, h4)"
      using pre a pr True o by (auto simp: libp2p_ping_initiate_def p3_def f_def Let_def)
    then show ?thesis
      by (simp add: ping_keeps_Some [OF ping_inv_quiet [OF inv3 log]] ping_keeps_Some [OF ping_inv_quiet [OF inv4 log]])
  qed
qed

lemma send_keeps:
  assumes H: "ping_host_ok ops cfg reads writes" and inv: "ping_inv cfg reads writes p h"
  shows "ping_keeps cfg reads writes (libp2p_ping_send p stream h)"
proof (cases "ping_find_stream p stream")
  case None
  then show ?thesis by (simp add: libp2p_ping_send_def ping_keeps_Some [OF inv])
next
  case (Some i)
  then have i: "i < 16" using find_slot [OF inv] by (auto simp: ping_find_stream_def split: if_splits)
  show ?thesis
  proof (cases "ps_direction (pg_streams p ! i) = LIBP2P_HOST_STREAM_OUTBOUND \<and>
      ps_state (pg_streams p ! i) = LIBP2P_PING_SLOT_INITIATOR_IDLE")
    case False
    with Some show ?thesis by (auto simp: libp2p_ping_send_def Let_def intro: ping_keeps_Some [OF inv])
  next
    case True
    then have "ps_state (pg_streams p ! i) \<in> {LIBP2P_PING_SLOT_FREE, LIBP2P_PING_SLOT_INITIATOR_IDLE}" by simp
    from prepare_law [OF H inv i this] obtain e p1 h1 tx where
      pr: "ping_prepare_payload p i h = Some (e, p1, h1)" and inv1: "ping_inv cfg reads writes p1 h1" and
      c: "slot_change p i (if e = LIBP2P_PING_OK
        then (pg_streams p ! i)\<lparr>ps_tx := tx, ps_tx_pos := 0, ps_rx_len := 0, ps_timer_started := False\<rparr>
        else (pg_streams p ! i)\<lparr>ps_tx := tx\<rparr>) p1" by blast
    show ?thesis
    proof (cases "e = LIBP2P_PING_OK")
      case False
      with Some True pr show ?thesis by (simp add: libp2p_ping_send_def Let_def ping_keeps_Some [OF inv1])
    next
      case ok: True
      define s where "s = pg_streams p1 ! i"
      have okp: "ping_ok p" and ok1: "ping_ok p1" using inv inv1 by (simp_all add: ping_inv_def)
      have s: "s = (pg_streams p ! i)\<lparr>ps_tx := tx, ps_tx_pos := 0, ps_rx_len := 0, ps_timer_started := False\<rparr>"
        using slot_change_at [OF okp i c] ok by (simp add: s_def)
      have st: "ps_state s = LIBP2P_PING_SLOT_INITIATOR_IDLE" and a: "active s" using s True by (simp_all add: active_def)
      from ping_inv_active [OF inv1 i a [unfolded s_def], folded s_def] obtain t where
        t: "ps_stream s = Some t" "slot_wire s (reads h1 t) (writes h1 t)" by blast
      define p2 where "p2 = upd_slot i (ps_state_update (\<lambda>_. LIBP2P_PING_SLOT_INITIATOR_WRITING)) p1"
      have c2: "slot_change p1 i (s\<lparr>ps_state := LIBP2P_PING_SLOT_INITIATOR_WRITING\<rparr>) p2"
        unfolding p2_def s_def by (rule slot_change_upd [OF slot_change_refl [OF ok1]])
      have "slot_ok s" unfolding s_def by (rule ping_inv_slot [OF inv1 i])
      then have "slot_ok (s\<lparr>ps_state := LIBP2P_PING_SLOT_INITIATOR_WRITING\<rparr>)"
        using s True by (simp add: slot_ok_def)
      then have "ping_inv cfg reads writes p2 h1"
        using t st a s by (intro ping_inv_change [OF inv1 i c2]) (simp_all add: s_def [symmetric])
      with Some True pr ok show ?thesis
        by (simp add: libp2p_ping_send_def Let_def p2_def ping_keeps_Some)
    qed
  qed
qed

lemma next_event_keeps:
  assumes inv: "ping_inv cfg reads writes p h" and n: "libp2p_ping_next_event p = (e, ev, p')"
  shows "ping_inv cfg reads writes p' h"
proof (cases "pg_event_len p = 0")
  case True
  with inv n show ?thesis by (simp add: libp2p_ping_next_event_def)
next
  case False
  define p1 where "p1 = p\<lparr>pg_event_head := (pg_event_head p + 1) mod LIBP2P_PING_EVENT_CAPACITY,
    pg_event_len := pg_event_len p - 1\<rparr>"
  define i where "i = qe_slot_index (pg_events p ! pg_event_head p)"
  have inv1: "ping_inv cfg reads writes p1 h"
    using inv by (auto simp: p1_def ping_inv_def ping_ok_def wire_ok_def ping_constants)
  then have ok1: "ping_ok p1" by (simp add: ping_inv_def)
  have c: "slot_change p1 i zero_slot (upd_slot i (\<lambda>_. zero_slot) p1)"
    using slot_change_upd [OF slot_change_refl [OF ok1], of i "\<lambda>_. zero_slot"] by simp
  have "p' = p1 \<or> i < 16 \<and> p' = upd_slot i (\<lambda>_. zero_slot) p1"
    using n False by (auto simp: libp2p_ping_next_event_def p1_def i_def ping_constants Let_def split: if_splits)
  then show ?thesis
    using inv1 ping_inv_deactivate [OF inv1 _ c zero_slot_ok zero_slot_inactive] by auto
qed

subsection \<open>Reachable states\<close>

text \<open>
  The states after any sequence of calls, from a fresh protocol. Between the calls the host does other
  work, which leaves the bytes of the streams in use alone; a stream number may be used again.
\<close>

inductive ping_reach ::
  "'h stream_host \<Rightarrow> 'h libp2p_ping_config_t \<Rightarrow> ('h \<Rightarrow> nat \<Rightarrow> byte list) \<Rightarrow> ('h \<Rightarrow> nat \<Rightarrow> byte list) \<Rightarrow>
   'h libp2p_ping_t \<Rightarrow> 'h \<Rightarrow> bool" for ops cfg reads writes where
  reach_init: "libp2p_ping_init cfg = Some p \<Longrightarrow> ping_reach ops cfg reads writes p h"
| reach_host: "ping_reach ops cfg reads writes p h \<Longrightarrow>
    (\<And>s t. s \<in> set (pg_streams p) \<Longrightarrow> active s \<Longrightarrow> ps_stream s = Some t \<Longrightarrow>
      reads h' t = reads h t \<and> writes h' t = writes h t) \<Longrightarrow> ping_reach ops cfg reads writes p h'"
| reach_open: "ping_reach ops cfg reads writes p h \<Longrightarrow> fresh_stream reads writes p h t \<Longrightarrow>
    ping_on_open ops p (Some t) d h = Some (e, p', h') \<Longrightarrow> ping_reach ops cfg reads writes p' h'"
| reach_event: "ping_reach ops cfg reads writes p h \<Longrightarrow>
    ping_on_event ops p s kind h = Some (e, p', h') \<Longrightarrow> ping_reach ops cfg reads writes p' h'"
| reach_initiate: "ping_reach ops cfg reads writes p h \<Longrightarrow>
    libp2p_ping_initiate ops p conn u h = Some (r, p', h') \<Longrightarrow> ping_reach ops cfg reads writes p' h'"
| reach_send: "ping_reach ops cfg reads writes p h \<Longrightarrow>
    libp2p_ping_send p s h = Some (e, p', h') \<Longrightarrow> ping_reach ops cfg reads writes p' h'"
| reach_next: "ping_reach ops cfg reads writes p h \<Longrightarrow>
    libp2p_ping_next_event p = (e, ev, p') \<Longrightarrow> ping_reach ops cfg reads writes p' h"

lemma ping_keeps_inv: "ping_keeps cfg reads writes m \<Longrightarrow> m = Some (e, p', h') \<Longrightarrow> ping_inv cfg reads writes p' h'"
  by (simp add: ping_keeps_def)

lemma init_inv: "libp2p_ping_init cfg = Some p \<Longrightarrow> ping_inv cfg reads writes p h"
  using zero_slot_inactive zero_slot_ok
  by (auto simp: libp2p_ping_init_def ping_inv_def ping_ok_def wire_ok_def ping_constants intro!: slots_wire_inactive split: if_splits)

lemma host_inv:
  assumes "ping_inv cfg reads writes p h"
    and "\<And>s t. s \<in> set (pg_streams p) \<Longrightarrow> active s \<Longrightarrow> ps_stream s = Some t \<Longrightarrow>
      reads h' t = reads h t \<and> writes h' t = writes h t"
  shows "ping_inv cfg reads writes p h'"
  using assms slots_wire_host [of active ps_stream "\<lambda>s. slot_wire s" "reads h" "writes h" "pg_streams p"]
  by (simp add: ping_inv_def wire_ok_def)

lemma reach_inv:
  assumes H: "ping_host_ok ops cfg reads writes" and r: "ping_reach ops cfg reads writes p h"
  shows "ping_inv cfg reads writes p h"
  using r
proof induction
  case (reach_host p h h')
  show ?case by (rule host_inv [OF reach_host.IH reach_host.hyps(2)])
qed (blast intro: init_inv next_event_keeps ping_keeps_inv [OF on_open_keeps [OF H]]
  ping_keeps_inv [OF on_event_keeps [OF H]] ping_keeps_inv [OF initiate_keeps [OF H]]
  ping_keeps_inv [OF send_keeps [OF H]])+

lemma reach_slot:
  assumes "ping_host_ok ops cfg reads writes" and "ping_reach ops cfg reads writes p h" and "i < 16"
    and "active (pg_streams p ! i)" and "ps_stream (pg_streams p ! i) = Some t"
  shows "slot_ok (pg_streams p ! i)" and "slot_wire (pg_streams p ! i) (reads h t) (writes h t)"
proof -
  note inv = reach_inv [OF assms(1,2)]
  show "slot_ok (pg_streams p ! i)" by (rule ping_inv_slot [OF inv assms(3)])
  from ping_inv_active [OF inv assms(3,4)] assms(5)
  show "slot_wire (pg_streams p ! i) (reads h t) (writes h t)" by auto
qed

subsection \<open>The host in memory\<close>

text \<open>The clock goes on by 7 for each byte read from stream 0.\<close>

definition memory_cfg :: "memory_host libp2p_ping_config_t" where
  "memory_cfg = \<lparr>random_fn = Some (\<lambda>h n. ((LIBP2P_PING_OK, replicate n 7), h)),
     time_fn = Some (\<lambda>h. ((LIBP2P_PING_OK, of_nat (100 + 7 * length (mh_reads h 0))), h))\<rparr>"

lemma memory_host_ok: "ping_host_ok memory_ops memory_cfg mh_reads mh_writes"
  using memory_stream_host_ok by (auto simp: ping_host_ok_def memory_cfg_def)

end
