(* ===== verification/Ping_Properties.thy ===== *)
theory Ping_Properties
  imports Ping_Reach
begin

text \<open>
  The properties of the ping protocol: no call fails in the model, a responder returns what it reads, an
  initiator accepts only what it sent, and two sequences of calls in which a slot goes to the wrong
  stream. The witnesses run the protocol on the host in memory.
\<close>

subsection \<open>Runs\<close>

text \<open>An inbound stream 0 opens, brings bytes and then becomes readable.\<close>

definition responder_run :: "byte list \<Rightarrow> (memory_host libp2p_ping_t \<times> memory_host) option" where
  "responder_run bytes = do {
     p0 \<leftarrow> libp2p_ping_init memory_cfg;
     (e1, p1, h1) \<leftarrow> ping_on_open memory_ops p0 (Some 0) LIBP2P_HOST_STREAM_INBOUND
       (memory_start (\<lambda>_. bytes) (\<lambda>_. False));
     (e2, p2, h2) \<leftarrow> ping_on_event memory_ops p1 (Some 0) LIBP2P_HOST_PROTOCOL_EVENT_READABLE h1;
     Some (p2, h2)
   }"

lemma responder_run_reach:
  assumes "responder_run bytes = Some (p, h)"
  shows "ping_reach memory_ops memory_cfg mh_reads mh_writes p h"
proof -
  let ?h0 = "memory_start (\<lambda>_. bytes) (\<lambda>_. False)"
  from assms obtain p0 e1 p1 h1 e2 where
    a: "libp2p_ping_init memory_cfg = Some p0" and
    b: "ping_on_open memory_ops p0 (Some 0) LIBP2P_HOST_STREAM_INBOUND ?h0 = Some (e1, p1, h1)" and
    c: "ping_on_event memory_ops p1 (Some 0) LIBP2P_HOST_PROTOCOL_EVENT_READABLE h1 = Some (e2, p, h)"
    by (auto simp: responder_run_def bind_eq_Some_conv)
  have "fresh_stream mh_reads mh_writes p0 ?h0 0"
    using a by (auto simp: fresh_stream_def memory_start_def libp2p_ping_init_def zero_slot_inactive split: if_splits)
  from reach_event [OF reach_open [OF reach_init [OF a] this b] c] show ?thesis .
qed

lemma responder_run_part:
  "case responder_run [1, 2, 3] of None \<Rightarrow> False
   | Some (p, h) \<Rightarrow> ps_state (pg_streams p ! 0) = LIBP2P_PING_SLOT_RESPONDER_READING \<and>
       ps_direction (pg_streams p ! 0) = LIBP2P_HOST_STREAM_INBOUND \<and>
       ps_stream (pg_streams p ! 0) = Some 0 \<and> mh_reads h 0 = [1, 2, 3] \<and> mh_writes h 0 = []"
  by code_simp

text \<open>An outbound stream 0 is asked for, opens and sends; the peer answers \<open>bytes\<close>.\<close>

definition initiator_run :: "byte list \<Rightarrow> (memory_host libp2p_ping_t \<times> memory_host) option" where
  "initiator_run bytes = do {
     p0 \<leftarrow> libp2p_ping_init memory_cfg;
     (e1, p1, h1) \<leftarrow> libp2p_ping_initiate memory_ops p0 (Some 5) None (memory_start (\<lambda>_. bytes) (\<lambda>_. False));
     (e2, p2, h2) \<leftarrow> ping_on_open memory_ops p1 (Some 0) LIBP2P_HOST_STREAM_OUTBOUND h1;
     Some (p2, h2)
   }"

lemma initiator_run_part:
  "case initiator_run (replicate 32 7) of None \<Rightarrow> False
   | Some (p, h) \<Rightarrow> ps_state (pg_streams p ! 0) = LIBP2P_PING_SLOT_INITIATOR_READING \<and>
       ps_direction (pg_streams p ! 0) = LIBP2P_HOST_STREAM_OUTBOUND \<and> ps_rx_len (pg_streams p ! 0) = 0 \<and>
       ps_stream (pg_streams p ! 0) = Some 0 \<and> mh_writes h 0 = replicate 32 7 \<and> mh_reads h 0 = [] \<and>
       ps_tx (pg_streams p ! 0) = replicate 32 7 \<and> ps_started_us (pg_streams p ! 0) = 100 \<and>
       fst (the (time_fn memory_cfg) (snd (host_read memory_ops h (Some 0) 32))) = (LIBP2P_PING_OK, 324) \<and>
       fst (host_read memory_ops h (Some 0) 32) = (LIBP2P_HOST_OK, replicate 32 7, False) \<and>
       pg_event_len p = 0"
  by code_simp

lemma initiator_run_fresh:
  "case libp2p_ping_init memory_cfg of None \<Rightarrow> False
   | Some p0 \<Rightarrow>
       (case libp2p_ping_initiate memory_ops p0 (Some 5) None
               (memory_start (\<lambda>_. replicate 32 7) (\<lambda>_. False)) of
          None \<Rightarrow> False
        | Some (e, p1, h1) \<Rightarrow>
            list_all (\<lambda>s. \<not> active s) (pg_streams p1) \<and> mh_reads h1 0 = [] \<and> mh_writes h1 0 = [])"
  by code_simp

lemma initiator_run_reach:
  assumes "initiator_run (replicate 32 7) = Some (p, h)"
  shows "ping_reach memory_ops memory_cfg mh_reads mh_writes p h"
proof -
  let ?h0 = "memory_start (\<lambda>_. replicate 32 7) (\<lambda>_. False)"
  from assms obtain p0 e1 p1 h1 e2 where
    a: "libp2p_ping_init memory_cfg = Some p0" and
    b: "libp2p_ping_initiate memory_ops p0 (Some 5) None ?h0 = Some (e1, p1, h1)" and
    c: "ping_on_open memory_ops p1 (Some 0) LIBP2P_HOST_STREAM_OUTBOUND h1 = Some (e2, p, h)"
    by (auto simp: initiator_run_def bind_eq_Some_conv)
  have "fresh_stream mh_reads mh_writes p1 h1 0"
    using initiator_run_fresh a b by (simp add: fresh_stream_def list_all_iff)
  from reach_open [OF reach_initiate [OF reach_init [OF a] b] this c] show ?thesis .
qed

subsection \<open>Properties\<close>

text \<open>
  Claim C30. In every reachable state the slots and the event queue are well formed, and every call of the
  application and every callback of the host returns, with an error code where it has one to report, and no
  access leaves the payload buffers.
\<close>

theorem ping_reachable_safe:
  assumes "ping_host_ok ops cfg reads writes" and "ping_reach ops cfg reads writes p h"
  shows "ping_ok p \<and> ping_on_event ops p stream kind h \<noteq> None \<and>
    libp2p_ping_initiate ops p conn user_data h \<noteq> None \<and> libp2p_ping_send p stream h \<noteq> None \<and>
    (fresh_stream reads writes p h t \<longrightarrow> ping_on_open ops p (Some t) direction h \<noteq> None)"
proof -
  note inv = reach_inv [OF assms]
  show ?thesis
    using inv on_event_keeps [OF assms(1) inv, of stream kind] initiate_keeps [OF assms(1) inv, of conn user_data]
      send_keeps [OF assms(1) inv, of stream] on_open_keeps [OF assms(1) inv, of t direction]
    by (auto simp: ping_inv_def ping_keeps_def)
qed

lemma ping_reachable_safe_witness:
  "case responder_run [1, 2, 3] of None \<Rightarrow> False
   | Some (p, h) \<Rightarrow> ping_on_event memory_ops p (Some 0) LIBP2P_HOST_PROTOCOL_EVENT_READABLE h \<noteq> None"
  using responder_run_part ping_reachable_safe [OF memory_host_ok responder_run_reach [of "[1, 2, 3]"]]
  by (simp split: option.splits prod.splits)

text \<open>
  Claim C31. A responder echoes: the bytes accepted for its stream are the first of those read from it, in
  order, and at most 32 are outstanding.
\<close>

theorem ping_responder_echoes:
  assumes "ping_host_ok ops cfg reads writes" and "ping_reach ops cfg reads writes p h" and "i < 16"
    and "active (pg_streams p ! i)" and "ps_direction (pg_streams p ! i) = LIBP2P_HOST_STREAM_INBOUND"
    and "ps_stream (pg_streams p ! i) = Some t"
  shows "\<exists>rest. reads h t = writes h t @ rest \<and> length rest \<le> 32"
  using reach_slot [OF assms(1-4,6)] assms(4,5)
  by (cases "ps_state (pg_streams p ! i)") (auto simp: slot_ok_def active_def)

lemma ping_responder_echoes_witness:
  "case responder_run [1, 2, 3] of None \<Rightarrow> False
   | Some (p, h) \<Rightarrow> \<exists>rest. mh_reads h 0 = mh_writes h 0 @ rest \<and> length rest \<le> 32"
  using responder_run_part
    ping_responder_echoes [OF memory_host_ok responder_run_reach [of "[1, 2, 3]"], where i = 0 and t = 0]
  by (auto simp: active_def split: option.splits prod.splits)

text \<open>
  Claim C32. An initiator counts a ping as answered only when exactly its bytes came back: before the ping
  in progress the bytes written and the bytes read are the same, and an idle initiator has no ping in
  progress.
\<close>

theorem ping_initiator_matches:
  assumes "ping_host_ok ops cfg reads writes" and "ping_reach ops cfg reads writes p h" and "i < 16"
    and "active (pg_streams p ! i)" and "ps_direction (pg_streams p ! i) = LIBP2P_HOST_STREAM_OUTBOUND"
    and "ps_stream (pg_streams p ! i) = Some t"
  shows "\<exists>answered sent got. writes h t = answered @ sent \<and> reads h t = answered @ got \<and>
    length sent \<le> 32 \<and> length got \<le> 32 \<and>
    (ps_state (pg_streams p ! i) = LIBP2P_PING_SLOT_INITIATOR_IDLE \<longrightarrow> sent = [] \<and> got = []) \<and>
    (ps_state (pg_streams p ! i) = LIBP2P_PING_SLOT_INITIATOR_READING \<longrightarrow> sent = ps_tx (pg_streams p ! i))"
proof -
  note ok = reach_slot [OF assms(1-4,6)]
  consider (w) "ps_state (pg_streams p ! i) = LIBP2P_PING_SLOT_INITIATOR_WRITING"
    | (r) "ps_state (pg_streams p ! i) = LIBP2P_PING_SLOT_INITIATOR_READING"
    | (d) "ps_state (pg_streams p ! i) = LIBP2P_PING_SLOT_INITIATOR_IDLE"
    using ok(1) assms(4,5) by (cases "ps_state (pg_streams p ! i)") (auto simp: slot_ok_def active_def)
  then show ?thesis
  proof cases
    case w
    with ok show ?thesis
      by (intro exI [of _ "reads h t"] exI [of _ "take (ps_tx_pos (pg_streams p ! i)) (ps_tx (pg_streams p ! i))"]
          exI [of _ "[]"]) (simp add: slot_ok_def)
  next
    case r
    with ok(2) obtain a where a: "writes h t = a @ ps_tx (pg_streams p ! i)"
      "reads h t = a @ take (ps_rx_len (pg_streams p ! i)) (ps_rx (pg_streams p ! i))" by auto
    show ?thesis
      by (rule exI [of _ a], rule exI [of _ "ps_tx (pg_streams p ! i)"],
          rule exI [of _ "take (ps_rx_len (pg_streams p ! i)) (ps_rx (pg_streams p ! i))"])
        (use a r ok(1) in \<open>simp add: slot_ok_def\<close>)
  next
    case d
    with ok show ?thesis
      by (intro exI [of _ "reads h t"] exI [of _ "[]"] exI [of _ "[]"]) simp
  qed
qed

lemma ping_initiator_matches_witness:
  "case initiator_run (replicate 32 7) of None \<Rightarrow> False
   | Some (p, h) \<Rightarrow> \<exists>answered sent got. mh_writes h 0 = answered @ sent \<and> mh_reads h 0 = answered @ got \<and>
       length sent \<le> 32 \<and> length got \<le> 32"
  using initiator_run_part
    ping_initiator_matches [OF memory_host_ok initiator_run_reach, where i = 0 and t = 0]
  by (fastforce simp: active_def split: option.splits prod.splits)








subsection \<open>Slots that go to the wrong stream\<close>








text \<open>The application asks for a stream on connection 5 and one on connection 6, which opens first.\<close>

definition crossed_open_run :: "memory_host libp2p_ping_t option" where
  "crossed_open_run = do {
     p0 \<leftarrow> libp2p_ping_init memory_cfg;
     (e1, p1, h1) \<leftarrow> libp2p_ping_initiate memory_ops p0 (Some 5) (Some 50) (memory_start (\<lambda>_. []) (\<lambda>_. False));
     (e2, p2, h2) \<leftarrow> libp2p_ping_initiate memory_ops p1 (Some 6) (Some 60) h1;
     (e3, p3, h3) \<leftarrow> ping_on_open memory_ops p2 (Some 106) LIBP2P_HOST_STREAM_OUTBOUND h2;
     Some p3
   }"

text \<open>
  An outbound stream gets the first slot that waits for one, whatever its connection: the stream
  of connection 6 is recorded with connection 5 and its user data.
\<close>

theorem ping_crossed_open:
  "case crossed_open_run of None \<Rightarrow> False
   | Some p \<Rightarrow> ps_stream (pg_streams p ! 0) = Some 106 \<and> ps_conn (pg_streams p ! 0) = Some 5 \<and>
       ps_user_data (pg_streams p ! 0) = Some 50 \<and> ps_state (pg_streams p ! 1) = LIBP2P_PING_SLOT_OPENING \<and>
       ps_conn (pg_streams p ! 1) = Some 6"
  by code_simp

end
