(* ===== verification/Identify_Message.thy ===== *)
theory Identify_Message
  imports Uvarint
begin

text \<open>
  The message of the identify protocol, from \<open>src/src/protocol/identify/identify.c\<close> and its header: size,
  encoder, decoder and the frame with its length prefix.

  A \<open>libp2p_identify_bytes_t\<close> that is to be encoded is a \<open>byte cbuf\<close>. The decoder does not copy: the bytes
  of a decoded message lie in the input, and a decoded \<open>libp2p_identify_bytes_t\<close> is \<open>Some (p, n)\<close>, a
  position and a length, or \<open>None\<close> for the null pointer. So the type of messages has the type of its byte
  strings as a parameter. The arrays have their full size, the counts say how much of them is used.
  A result \<open>None\<close> means an access outside of an array or through a null pointer.
\<close>

subsection \<open>Types and constants\<close>

definition IDENTIFY_FIELD_PUBLIC_KEY :: u32 where "IDENTIFY_FIELD_PUBLIC_KEY = 1"
definition IDENTIFY_FIELD_LISTEN_ADDRS :: u32 where "IDENTIFY_FIELD_LISTEN_ADDRS = 2"
definition IDENTIFY_FIELD_PROTOCOLS :: u32 where "IDENTIFY_FIELD_PROTOCOLS = 3"
definition IDENTIFY_FIELD_OBSERVED_ADDR :: u32 where "IDENTIFY_FIELD_OBSERVED_ADDR = 4"
definition IDENTIFY_FIELD_PROTOCOL_VERSION :: u32 where "IDENTIFY_FIELD_PROTOCOL_VERSION = 5"
definition IDENTIFY_FIELD_AGENT_VERSION :: u32 where "IDENTIFY_FIELD_AGENT_VERSION = 6"
definition IDENTIFY_WIRE_LEN :: u32 where "IDENTIFY_WIRE_LEN = 2"

definition LIBP2P_IDENTIFY_MAX_MESSAGE_BYTES :: nat where "LIBP2P_IDENTIFY_MAX_MESSAGE_BYTES = 2048"
definition LIBP2P_IDENTIFY_MAX_LISTEN_ADDRS :: nat where "LIBP2P_IDENTIFY_MAX_LISTEN_ADDRS = 8"
definition LIBP2P_IDENTIFY_MAX_PROTOCOLS :: nat where "LIBP2P_IDENTIFY_MAX_PROTOCOLS = 16"

lemmas identify_fields = IDENTIFY_FIELD_PUBLIC_KEY_def IDENTIFY_FIELD_LISTEN_ADDRS_def
  IDENTIFY_FIELD_PROTOCOLS_def IDENTIFY_FIELD_OBSERVED_ADDR_def IDENTIFY_FIELD_PROTOCOL_VERSION_def
  IDENTIFY_FIELD_AGENT_VERSION_def

lemmas identify_limits = LIBP2P_IDENTIFY_MAX_MESSAGE_BYTES_def LIBP2P_IDENTIFY_MAX_LISTEN_ADDRS_def
  LIBP2P_IDENTIFY_MAX_PROTOCOLS_def

datatype libp2p_identify_err_t =
    LIBP2P_IDENTIFY_OK
  | LIBP2P_IDENTIFY_ERR_INVALID_ARG
  | LIBP2P_IDENTIFY_ERR_BUF_TOO_SMALL
  | LIBP2P_IDENTIFY_ERR_MALFORMED
  | LIBP2P_IDENTIFY_ERR_TRUNCATED
  | LIBP2P_IDENTIFY_ERR_LIMIT
  | LIBP2P_IDENTIFY_ERR_STATE
  | LIBP2P_IDENTIFY_ERR_HOST

record 'b libp2p_identify_message_t =
  im_protocol_version :: 'b
  im_agent_version :: 'b
  im_public_key :: 'b
  im_observed_addr :: 'b
  im_listen_addrs :: "'b list"
  im_listen_addr_count :: nat
  im_protocols :: "'b list"
  im_protocol_count :: nat

type_synonym identify_local = "byte cbuf libp2p_identify_message_t"
type_synonym identify_view = "(nat \<times> nat) option"
type_synonym identify_decoded = "identify_view libp2p_identify_message_t"
type_synonym identify_writer = "(libp2p_identify_err_t \<times> nat \<times> byte list) option"

text \<open>A message after \<open>memset\<close>, where \<open>z\<close> is a zeroed byte string.\<close>

definition zero_identify_message :: "'b \<Rightarrow> 'b libp2p_identify_message_t" where
  "zero_identify_message z = \<lparr>im_protocol_version = z, im_agent_version = z, im_public_key = z, im_observed_addr = z,
     im_listen_addrs = replicate LIBP2P_IDENTIFY_MAX_LISTEN_ADDRS z, im_listen_addr_count = 0,
     im_protocols = replicate LIBP2P_IDENTIFY_MAX_PROTOCOLS z, im_protocol_count = 0\<rparr>"

subsection \<open>Sizes and conversions\<close>

definition identify_size_add :: "nat \<Rightarrow> nat \<Rightarrow> bool \<times> nat" where
  "identify_size_add a b = (if b > SIZE_MAX - a then (True, SIZE_MAX) else (False, a + b))"

definition identify_bytes_present :: "byte cbuf \<Rightarrow> bool" where
  "identify_bytes_present bytes = (\<not> is_null bytes \<and> clen bytes \<noteq> 0)"

fun identify_uvarint_err :: "libp2p_uvarint_err_t \<Rightarrow> libp2p_identify_err_t" where
  "identify_uvarint_err LIBP2P_UVARINT_OK = LIBP2P_IDENTIFY_OK"
| "identify_uvarint_err LIBP2P_UVARINT_ERR_BUF_TOO_SMALL = LIBP2P_IDENTIFY_ERR_BUF_TOO_SMALL"
| "identify_uvarint_err LIBP2P_UVARINT_ERR_TRUNCATED = LIBP2P_IDENTIFY_ERR_TRUNCATED"
| "identify_uvarint_err _ = LIBP2P_IDENTIFY_ERR_MALFORMED"

definition identify_key :: "u32 \<Rightarrow> u64" where
  "identify_key field = push_bit 3 (ucast field) OR ucast IDENTIFY_WIRE_LEN"

text \<open>
  The error code and \<open>*total\<close>. The size of the key and of the length are at most 10 bytes each, so their
  sum does not wrap. When the second addition overflows, \<open>*total\<close> is \<open>SIZE_MAX\<close>.
\<close>

definition identify_field_size :: "u32 \<Rightarrow> nat \<Rightarrow> nat \<Rightarrow> libp2p_identify_err_t \<times> nat" where
  "identify_field_size field data_len total0 =
     (case identify_size_add total0
             (libp2p_uvarint_size (identify_key field) + libp2p_uvarint_size (of_nat data_len)) of
        (True, _) \<Rightarrow> (LIBP2P_IDENTIFY_ERR_LIMIT, total0)
      | (False, next) \<Rightarrow>
          (case identify_size_add next data_len of
             (overflow, total1) \<Rightarrow>
               (if overflow then LIBP2P_IDENTIFY_ERR_LIMIT else LIBP2P_IDENTIFY_OK, total1)))"

definition identify_message_validate_local :: "identify_local option \<Rightarrow> libp2p_identify_err_t" where
  "identify_message_validate_local message =
     (case message of
        None \<Rightarrow> LIBP2P_IDENTIFY_ERR_INVALID_ARG
      | Some m \<Rightarrow>
          if \<not> identify_bytes_present (im_protocol_version m) \<or>
             \<not> identify_bytes_present (im_agent_version m) \<or>
             \<not> identify_bytes_present (im_public_key m) \<or>
             im_listen_addr_count m > LIBP2P_IDENTIFY_MAX_LISTEN_ADDRS \<or>
             im_protocol_count m > LIBP2P_IDENTIFY_MAX_PROTOCOLS
          then LIBP2P_IDENTIFY_ERR_INVALID_ARG
          else if list_all identify_bytes_present (take (im_listen_addr_count m) (im_listen_addrs m)) \<and>
                  list_all identify_bytes_present (take (im_protocol_count m) (im_protocols m))
          then LIBP2P_IDENTIFY_OK else LIBP2P_IDENTIFY_ERR_INVALID_ARG)"

text \<open>A step under \<open>result == OK\<close>, the optional fields and the loops over the arrays.\<close>

definition size_then ::
  "libp2p_identify_err_t \<times> nat \<Rightarrow> (nat \<Rightarrow> libp2p_identify_err_t \<times> nat) \<Rightarrow> libp2p_identify_err_t \<times> nat" where
  "size_then r f = (case r of (result, total1) \<Rightarrow> if result = LIBP2P_IDENTIFY_OK then f total1 else (result, total1))"

definition size_present :: "u32 \<Rightarrow> byte cbuf \<Rightarrow> nat \<Rightarrow> libp2p_identify_err_t \<times> nat" where
  "size_present field bytes total0 =
     (if identify_bytes_present bytes then identify_field_size field (clen bytes) total0
      else (LIBP2P_IDENTIFY_OK, total0))"

fun size_array :: "u32 \<Rightarrow> byte cbuf list \<Rightarrow> nat \<Rightarrow> libp2p_identify_err_t \<times> nat" where
  "size_array field [] total0 = (LIBP2P_IDENTIFY_OK, total0)"
| "size_array field (b # bs) total0 =
     (if \<not> identify_bytes_present b then (LIBP2P_IDENTIFY_ERR_INVALID_ARG, total0)
      else size_then (identify_field_size field (clen b) total0) (size_array field bs))"

text \<open>The error code and \<open>*out_len\<close>, which is left alone for a null message.\<close>

definition libp2p_identify_message_size ::
  "identify_local option \<Rightarrow> nat \<Rightarrow> libp2p_identify_err_t \<times> nat" where
  "libp2p_identify_message_size message old =
     (case message of
        None \<Rightarrow> (LIBP2P_IDENTIFY_ERR_INVALID_ARG, old)
      | Some m \<Rightarrow>
          if im_listen_addr_count m > LIBP2P_IDENTIFY_MAX_LISTEN_ADDRS \<or>
             im_protocol_count m > LIBP2P_IDENTIFY_MAX_PROTOCOLS
          then (LIBP2P_IDENTIFY_ERR_INVALID_ARG, 0)
          else
            case size_then (size_present IDENTIFY_FIELD_PUBLIC_KEY (im_public_key m) 0)
              (\<lambda>total0. size_then (size_array IDENTIFY_FIELD_LISTEN_ADDRS
                                   (take (im_listen_addr_count m) (im_listen_addrs m)) total0)
              (\<lambda>total1. size_then (size_array IDENTIFY_FIELD_PROTOCOLS
                                   (take (im_protocol_count m) (im_protocols m)) total1)
              (\<lambda>total2. size_then (size_present IDENTIFY_FIELD_OBSERVED_ADDR (im_observed_addr m) total2)
              (\<lambda>total3. size_then (size_present IDENTIFY_FIELD_PROTOCOL_VERSION (im_protocol_version m) total3)
              (\<lambda>total4. size_present IDENTIFY_FIELD_AGENT_VERSION (im_agent_version m) total4))))) of
              (result, total5) \<Rightarrow> (result, if result = LIBP2P_IDENTIFY_OK then total5 else 0))"

subsection \<open>The encoder\<close>

definition identify_write_uvarint :: "u64 \<Rightarrow> byte list \<Rightarrow> nat \<Rightarrow> identify_writer" where
  "identify_write_uvarint v out pos =
     (if pos > length out then Some (LIBP2P_IDENTIFY_ERR_INVALID_ARG, pos, out)
      else do {
        (err, written, part) \<leftarrow> libp2p_uvarint_encode v (Buf (drop pos out));
        let result = identify_uvarint_err err;
        Some (result, (if result = LIBP2P_IDENTIFY_OK then pos + written else pos),
              take pos out @ contents part)
      })"

definition write_then :: "identify_writer \<Rightarrow> (nat \<Rightarrow> byte list \<Rightarrow> identify_writer) \<Rightarrow> identify_writer" where
  "write_then m f = do {
     (result, pos, out) \<leftarrow> m;
     (if result = LIBP2P_IDENTIFY_OK then f pos out else Some (result, pos, out))
   }"

definition identify_write_field :: "u32 \<Rightarrow> byte cbuf \<Rightarrow> byte list \<Rightarrow> nat \<Rightarrow> identify_writer" where
  "identify_write_field field data out pos =
     (if is_null data then Some (LIBP2P_IDENTIFY_ERR_INVALID_ARG, pos, out)
      else
        write_then (identify_write_uvarint (identify_key field) out pos)
          (\<lambda>pos out. write_then (identify_write_uvarint (of_nat (clen data)) out pos)
          (\<lambda>pos out.
             if clen data > length out - pos then Some (LIBP2P_IDENTIFY_ERR_BUF_TOO_SMALL, pos, out)
             else do {
               out' \<leftarrow> memcpy_at out pos (contents data);
               Some (LIBP2P_IDENTIFY_OK, pos + clen data, out')
             })))"

definition write_present :: "u32 \<Rightarrow> byte cbuf \<Rightarrow> nat \<Rightarrow> byte list \<Rightarrow> identify_writer" where
  "write_present field bytes pos out =
     (if identify_bytes_present bytes then identify_write_field field bytes out pos
      else Some (LIBP2P_IDENTIFY_OK, pos, out))"

fun write_array :: "u32 \<Rightarrow> byte cbuf list \<Rightarrow> nat \<Rightarrow> byte list \<Rightarrow> identify_writer" where
  "write_array field [] pos out = Some (LIBP2P_IDENTIFY_OK, pos, out)"
| "write_array field (b # bs) pos out =
     write_then (identify_write_field field b out pos) (write_array field bs)"

text \<open>
  The error code, \<open>*written\<close> and the contents of the output. The loops read the counts of the message
  also when the size function has refused it, so a null message ends in an access through it.
\<close>

definition libp2p_identify_message_encode ::
  "identify_local option \<Rightarrow> byte cbuf \<Rightarrow> (libp2p_identify_err_t \<times> nat \<times> byte cbuf) option" where
  "libp2p_identify_message_encode message out =
     (case message of
        None \<Rightarrow> None
      | Some m \<Rightarrow>
          case libp2p_identify_message_size message 0 of
            (result, required) \<Rightarrow>
              if result \<noteq> LIBP2P_IDENTIFY_OK then Some (result, 0, out)
              else if is_null out \<or> clen out < required
              then Some (LIBP2P_IDENTIFY_ERR_BUF_TOO_SMALL, required, out)
              else do {
                (result, pos, out') \<leftarrow>
                  write_then (write_present IDENTIFY_FIELD_PUBLIC_KEY (im_public_key m) 0 (contents out))
                  (\<lambda>pos out. write_then (write_array IDENTIFY_FIELD_LISTEN_ADDRS
                                           (take (im_listen_addr_count m) (im_listen_addrs m)) pos out)
                  (\<lambda>pos out. write_then (write_array IDENTIFY_FIELD_PROTOCOLS
                                           (take (im_protocol_count m) (im_protocols m)) pos out)
                  (\<lambda>pos out. write_then (write_present IDENTIFY_FIELD_OBSERVED_ADDR (im_observed_addr m) pos out)
                  (\<lambda>pos out. write_then (write_present IDENTIFY_FIELD_PROTOCOL_VERSION (im_protocol_version m) pos out)
                  (\<lambda>pos out. write_present IDENTIFY_FIELD_AGENT_VERSION (im_agent_version m) pos out)))));
                Some (result, required, Buf out')
              })"

subsection \<open>The decoder\<close>

text \<open>What the loop does with the bytes of a field: the error code and the message.\<close>

definition identify_store_field ::
  "u32 \<Rightarrow> identify_view \<Rightarrow> identify_decoded \<Rightarrow> (libp2p_identify_err_t \<times> identify_decoded) option" where
  "identify_store_field field bytes m =
     (if field = IDENTIFY_FIELD_PUBLIC_KEY then Some (LIBP2P_IDENTIFY_OK, m\<lparr>im_public_key := bytes\<rparr>)
      else if field = IDENTIFY_FIELD_LISTEN_ADDRS then
        (if im_listen_addr_count m = LIBP2P_IDENTIFY_MAX_LISTEN_ADDRS then Some (LIBP2P_IDENTIFY_ERR_LIMIT, m)
         else do {
           addrs \<leftarrow> wr (im_listen_addrs m) (im_listen_addr_count m) bytes;
           Some (LIBP2P_IDENTIFY_OK,
                 m\<lparr>im_listen_addrs := addrs, im_listen_addr_count := im_listen_addr_count m + 1\<rparr>)
         })
      else if field = IDENTIFY_FIELD_PROTOCOLS then
        (if im_protocol_count m = LIBP2P_IDENTIFY_MAX_PROTOCOLS then Some (LIBP2P_IDENTIFY_ERR_LIMIT, m)
         else do {
           protocols \<leftarrow> wr (im_protocols m) (im_protocol_count m) bytes;
           Some (LIBP2P_IDENTIFY_OK,
                 m\<lparr>im_protocols := protocols, im_protocol_count := im_protocol_count m + 1\<rparr>)
         })
      else if field = IDENTIFY_FIELD_OBSERVED_ADDR then Some (LIBP2P_IDENTIFY_OK, m\<lparr>im_observed_addr := bytes\<rparr>)
      else if field = IDENTIFY_FIELD_PROTOCOL_VERSION
      then Some (LIBP2P_IDENTIFY_OK, m\<lparr>im_protocol_version := bytes\<rparr>)
      else if field = IDENTIFY_FIELD_AGENT_VERSION then Some (LIBP2P_IDENTIFY_OK, m\<lparr>im_agent_version := bytes\<rparr>)
      else Some (LIBP2P_IDENTIFY_OK, m))"

text \<open>
  The loop over the fields: \<open>inp\<close> is what is left of the input, whose first byte has position \<open>at\<close>. Every
  round consumes at least the key.
\<close>

function identify_decode_loop ::
  "byte list \<Rightarrow> nat \<Rightarrow> identify_decoded \<Rightarrow> (libp2p_identify_err_t \<times> identify_decoded) option" where
  "identify_decode_loop inp at m =
     (if inp = [] then Some (LIBP2P_IDENTIFY_OK, m)
      else
        case libp2p_uvarint_decode (Buf inp) of
          (err, key, read) \<Rightarrow>
            if err \<noteq> LIBP2P_UVARINT_OK then Some (identify_uvarint_err err, m)
            else
              let field = (ucast (drop_bit 3 key) :: u32)
              in if field = 0 \<or> (ucast (key AND 7) :: u32) \<noteq> IDENTIFY_WIRE_LEN
                 then Some (LIBP2P_IDENTIFY_ERR_MALFORMED, m)
                 else
                   case libp2p_uvarint_decode (Buf (drop read inp)) of
                     (err2, len, read2) \<Rightarrow>
                       if err2 \<noteq> LIBP2P_UVARINT_OK then Some (identify_uvarint_err err2, m)
                       else
                         let pos = read + read2
                         in if unat len > length inp - pos then Some (LIBP2P_IDENTIFY_ERR_TRUNCATED, m)
                            else
                              case identify_store_field field (Some (at + pos, unat len)) m of
                                None \<Rightarrow> None
                              | Some (result, m') \<Rightarrow>
                                  if result = LIBP2P_IDENTIFY_OK
                                  then identify_decode_loop (drop (pos + unat len) inp) (at + pos + unat len) m'
                                  else Some (result, m'))"
  by pat_completeness auto

termination
  by (relation "measure (\<lambda>(inp, at, m). length inp)") (auto dest!: uvarint_decode_read_bounds(1) [OF sym])

declare identify_decode_loop.simps [simp del]

text \<open>\<open>at\<close> is the position of the input; the message \<open>old\<close> stays when the input is missing.\<close>

definition libp2p_identify_message_decode ::
  "byte cbuf \<Rightarrow> nat \<Rightarrow> identify_decoded \<Rightarrow> (libp2p_identify_err_t \<times> identify_decoded) option" where
  "libp2p_identify_message_decode inp at old =
     (if is_null inp \<or> clen inp = 0 then Some (LIBP2P_IDENTIFY_ERR_INVALID_ARG, old)
      else identify_decode_loop (contents inp) at (zero_identify_message None))"

text \<open>The frame at the start of a receive buffer, with positions counted from that start.\<close>

definition identify_frame_decode ::
  "byte list \<Rightarrow> identify_decoded \<Rightarrow> (libp2p_identify_err_t \<times> identify_decoded) option" where
  "identify_frame_decode inp old =
     (case libp2p_uvarint_decode (Buf inp) of
        (err, body_len, prefix_len) \<Rightarrow>
          if err \<noteq> LIBP2P_UVARINT_OK then Some (identify_uvarint_err err, old)
          else if unat body_len > LIBP2P_IDENTIFY_MAX_MESSAGE_BYTES then Some (LIBP2P_IDENTIFY_ERR_LIMIT, old)
          else if body_len = 0 \<or> unat body_len > length inp - prefix_len
          then Some (LIBP2P_IDENTIFY_ERR_TRUNCATED, old)
          else libp2p_identify_message_decode (Buf (take (unat body_len) (drop prefix_len inp))) prefix_len old)"

end
