(* ===== verification/Identify.thy ===== *)
theory Identify
  imports Identify_Message Protocol_Host
begin

text \<open>
  \<open>src/src/protocol/identify/identify.c\<close>: the identify and identify push protocols. A slot holds the state
  of one stream with its receive and send buffers. Who is asked, or pushes, sends one frame, a message that
  is put together from the configuration and from what the host says of itself; the other side collects the
  frame and hands the message to the application in an event.

  The operations of the host are the record \<open>identify_host\<close>. A null pointer is \<open>None\<close>, a pointer to a slot
  is its index. A decoded message lies in the receive buffer of its slot, so the positions in it are counted
  from the start of that buffer. The null pointer tests for the host and for the protocol itself are left
  out; a result \<open>None\<close> means an access outside of an array.
\<close>

record 'h identify_host = "'h stream_host" +
  host_listen_multiaddr :: "'h \<Rightarrow> nat \<Rightarrow> libp2p_host_err_t \<times> byte list"
    \<comment> \<open>for a capacity: the code and the bytes stored\<close>
  host_registered_protocols :: "'h \<Rightarrow> libp2p_host_err_t \<times> byte cbuf cbuf"
    \<comment> \<open>the code and the array of ids with its count\<close>
  host_stream_conn :: "'h \<Rightarrow> nat option \<Rightarrow> libp2p_host_err_t \<times> nat option"
  host_conn_remote_multiaddr :: "'h \<Rightarrow> nat option \<Rightarrow> nat \<Rightarrow> libp2p_host_err_t \<times> byte list"

subsection \<open>The state\<close>

definition LIBP2P_IDENTIFY_PROTOCOL_ID :: string where
  "LIBP2P_IDENTIFY_PROTOCOL_ID = ''/ipfs/id/1.0.0''"
definition LIBP2P_IDENTIFY_PUSH_PROTOCOL_ID :: string where
  "LIBP2P_IDENTIFY_PUSH_PROTOCOL_ID = ''/ipfs/id/push/1.0.0''"
definition LIBP2P_IDENTIFY_MAX_STREAMS :: nat where "LIBP2P_IDENTIFY_MAX_STREAMS = 16"
definition LIBP2P_IDENTIFY_EVENT_CAPACITY :: nat where "LIBP2P_IDENTIFY_EVENT_CAPACITY = 16"
definition IDENTIFY_MULTIADDR_BYTES :: nat where "IDENTIFY_MULTIADDR_BYTES = 256"

lemmas identify_constants = LIBP2P_IDENTIFY_MAX_STREAMS_def LIBP2P_IDENTIFY_EVENT_CAPACITY_def
  IDENTIFY_MULTIADDR_BYTES_def identify_limits

record libp2p_identify_config_t =
  local_message :: identify_local

datatype libp2p_identify_event_type_t =
    LIBP2P_IDENTIFY_EVENT_NONE | LIBP2P_IDENTIFY_EVENT_RECEIVED | LIBP2P_IDENTIFY_EVENT_SENT
  | LIBP2P_IDENTIFY_EVENT_CLOSED | LIBP2P_IDENTIFY_EVENT_ERROR

record libp2p_identify_event_t =
  ie_type :: libp2p_identify_event_type_t
  ie_stream :: "nat option"
  ie_direction :: libp2p_host_stream_direction_t
  ie_message :: identify_decoded
  ie_reason :: libp2p_identify_err_t
  ie_user_data :: "nat option"

datatype libp2p_identify_slot_state_t =
    LIBP2P_IDENTIFY_SLOT_FREE
  | LIBP2P_IDENTIFY_SLOT_OPENING_IDENTIFY
  | LIBP2P_IDENTIFY_SLOT_OPENING_PUSH
  | LIBP2P_IDENTIFY_SLOT_READING
  | LIBP2P_IDENTIFY_SLOT_WRITING
  | LIBP2P_IDENTIFY_SLOT_EVENTED

datatype libp2p_identify_stream_kind_t = LIBP2P_IDENTIFY_STREAM_IDENTIFY | LIBP2P_IDENTIFY_STREAM_PUSH

record libp2p_identify_stream_state_t =
  is_state :: libp2p_identify_slot_state_t
  is_kind :: libp2p_identify_stream_kind_t
  is_direction :: libp2p_host_stream_direction_t
  is_stream :: "nat option"
  is_user_data :: "nat option"
  is_rx :: "byte list"
  is_rx_len :: nat
  is_tx :: "byte list"
  is_tx_len :: nat
  is_tx_pos :: nat
  is_decoded :: identify_decoded

record libp2p_identify_queued_event_t =
  iq_event :: libp2p_identify_event_t
  iq_slot_index :: nat

record libp2p_identify_t =
  id_config :: libp2p_identify_config_t
  id_streams :: "libp2p_identify_stream_state_t list"
  id_events :: "libp2p_identify_queued_event_t list"
  id_event_head :: nat
  id_event_len :: nat

text \<open>What \<open>memset\<close> leaves.\<close>

definition zero_identify_slot :: libp2p_identify_stream_state_t where
  "zero_identify_slot = \<lparr>is_state = LIBP2P_IDENTIFY_SLOT_FREE, is_kind = LIBP2P_IDENTIFY_STREAM_IDENTIFY,
     is_direction = LIBP2P_HOST_STREAM_INBOUND, is_stream = None, is_user_data = None,
     is_rx = replicate LIBP2P_IDENTIFY_MAX_MESSAGE_BYTES 0, is_rx_len = 0,
     is_tx = replicate LIBP2P_IDENTIFY_MAX_MESSAGE_BYTES 0, is_tx_len = 0, is_tx_pos = 0,
     is_decoded = zero_identify_message None\<rparr>"

definition zero_identify_event :: libp2p_identify_event_t where
  "zero_identify_event = \<lparr>ie_type = LIBP2P_IDENTIFY_EVENT_NONE, ie_stream = None,
     ie_direction = LIBP2P_HOST_STREAM_INBOUND, ie_message = zero_identify_message None,
     ie_reason = LIBP2P_IDENTIFY_OK, ie_user_data = None\<rparr>"

definition upd_identify_slot ::
  "nat \<Rightarrow> (libp2p_identify_stream_state_t \<Rightarrow> libp2p_identify_stream_state_t) \<Rightarrow> libp2p_identify_t \<Rightarrow>
   libp2p_identify_t" where
  "upd_identify_slot i f p = p\<lparr>id_streams := (id_streams p)[i := f (id_streams p ! i)]\<rparr>"

fun identify_host_err :: "libp2p_identify_err_t \<Rightarrow> libp2p_host_err_t" where
  "identify_host_err LIBP2P_IDENTIFY_OK = LIBP2P_HOST_OK"
| "identify_host_err LIBP2P_IDENTIFY_ERR_INVALID_ARG = LIBP2P_HOST_ERR_INVALID_ARG"
| "identify_host_err LIBP2P_IDENTIFY_ERR_BUF_TOO_SMALL = LIBP2P_HOST_ERR_BUF_TOO_SMALL"
| "identify_host_err LIBP2P_IDENTIFY_ERR_LIMIT = LIBP2P_HOST_ERR_LIMIT"
| "identify_host_err LIBP2P_IDENTIFY_ERR_STATE = LIBP2P_HOST_ERR_STATE"
| "identify_host_err _ = LIBP2P_HOST_ERR_PROTOCOL"

fun identify_host_to_err :: "libp2p_host_err_t \<Rightarrow> libp2p_identify_err_t" where
  "identify_host_to_err LIBP2P_HOST_OK = LIBP2P_IDENTIFY_OK"
| "identify_host_to_err LIBP2P_HOST_ERR_INVALID_ARG = LIBP2P_IDENTIFY_ERR_INVALID_ARG"
| "identify_host_to_err LIBP2P_HOST_ERR_BUF_TOO_SMALL = LIBP2P_IDENTIFY_ERR_BUF_TOO_SMALL"
| "identify_host_to_err LIBP2P_HOST_ERR_LIMIT = LIBP2P_IDENTIFY_ERR_LIMIT"
| "identify_host_to_err LIBP2P_HOST_ERR_STATE = LIBP2P_IDENTIFY_ERR_STATE"
| "identify_host_to_err _ = LIBP2P_IDENTIFY_ERR_HOST"

subsection \<open>Slots and events\<close>

definition identify_event_push ::
  "libp2p_identify_t \<Rightarrow> nat \<Rightarrow> libp2p_identify_event_t \<Rightarrow> libp2p_identify_err_t \<times> libp2p_identify_t" where
  "identify_event_push p slot_index event =
     (if id_event_len p = LIBP2P_IDENTIFY_EVENT_CAPACITY then (LIBP2P_IDENTIFY_ERR_LIMIT, p)
      else
        let pos = (id_event_head p + id_event_len p) mod LIBP2P_IDENTIFY_EVENT_CAPACITY
        in (LIBP2P_IDENTIFY_OK,
            p\<lparr>id_events := (id_events p)[pos := \<lparr>iq_event = event, iq_slot_index = slot_index\<rparr>],
              id_event_len := id_event_len p + 1\<rparr>))"

definition identify_alloc_slot :: "libp2p_identify_t \<Rightarrow> (nat \<times> libp2p_identify_t) option" where
  "identify_alloc_slot p =
     (case find_slot_loop (\<lambda>s. is_state s = LIBP2P_IDENTIFY_SLOT_FREE) (id_streams p) 0 of
        None \<Rightarrow> None
      | Some i \<Rightarrow> Some (i, upd_identify_slot i (\<lambda>_. zero_identify_slot) p))"

definition identify_find_stream :: "libp2p_identify_t \<Rightarrow> nat option \<Rightarrow> nat option" where
  "identify_find_stream p stream =
     (if stream = None then None
      else find_slot_loop (\<lambda>s. is_state s \<noteq> LIBP2P_IDENTIFY_SLOT_FREE \<and> is_stream s = stream) (id_streams p) 0)"

definition identify_find_opening :: "libp2p_identify_t \<Rightarrow> libp2p_identify_slot_state_t \<Rightarrow> nat option" where
  "identify_find_opening p state = find_slot_loop (\<lambda>s. is_state s = state) (id_streams p) 0"

definition identify_slot_is_reading :: "libp2p_identify_t \<Rightarrow> nat \<Rightarrow> bool" where
  "identify_slot_is_reading p i \<longleftrightarrow>
     i < LIBP2P_IDENTIFY_MAX_STREAMS \<and> is_state (id_streams p ! i) = LIBP2P_IDENTIFY_SLOT_READING"

subsection \<open>The message that is sent\<close>

text \<open>
  The two buffers for addresses are local arrays of \<open>IDENTIFY_MULTIADDR_BYTES\<close> zeros; a byte string that
  points into one is the bytes stored there. The result has the message as far as it was built.
\<close>

definition identify_build_tx_message ::
  "'h identify_host \<Rightarrow> libp2p_identify_t \<Rightarrow> 'h \<Rightarrow> nat option \<Rightarrow>
   (libp2p_identify_err_t \<times> identify_local) option" where
  "identify_build_tx_message ops p h stream =
     (let m0 = (local_message (id_config p))\<lparr>
                 im_listen_addrs := replicate LIBP2P_IDENTIFY_MAX_LISTEN_ADDRS (Null 0),
                 im_protocols := replicate LIBP2P_IDENTIFY_MAX_PROTOCOLS (Null 0),
                 im_observed_addr := Null 0, im_listen_addr_count := 0, im_protocol_count := 0\<rparr>;
          (err, addr) = host_listen_multiaddr ops h IDENTIFY_MULTIADDR_BYTES;
          result = identify_host_to_err err
      in do {
        _ \<leftarrow> memcpy_at (replicate IDENTIFY_MULTIADDR_BYTES 0) 0 addr;
        (if result \<noteq> LIBP2P_IDENTIFY_OK then Some (result, m0)
         else
           let m1 = m0\<lparr>im_listen_addrs := (im_listen_addrs m0)[0 := Buf addr], im_listen_addr_count := 1\<rparr>;
               (err2, protocols) = host_registered_protocols ops h;
               result2 = identify_host_to_err err2
           in if result2 \<noteq> LIBP2P_IDENTIFY_OK then Some (result2, m1)
              else if clen protocols > LIBP2P_IDENTIFY_MAX_PROTOCOLS then Some (LIBP2P_IDENTIFY_ERR_LIMIT, m1)
              else if clen protocols \<noteq> 0 \<and> is_null protocols then Some (LIBP2P_IDENTIFY_ERR_INVALID_ARG, m1)
              else do {
                ids \<leftarrow> memcpy_at (im_protocols m1) 0 (contents protocols);
                (let m2 = m1\<lparr>im_protocols := ids, im_protocol_count := clen protocols\<rparr>;
                     (err3, conn) = host_stream_conn ops h stream;
                     result3 = identify_host_to_err err3
                 in if result3 \<noteq> LIBP2P_IDENTIFY_OK then Some (result3, m2)
                    else
                      let (err4, observed) = host_conn_remote_multiaddr ops h conn IDENTIFY_MULTIADDR_BYTES;
                          result4 = identify_host_to_err err4
                      in do {
                        _ \<leftarrow> memcpy_at (replicate IDENTIFY_MULTIADDR_BYTES 0) 0 observed;
                        (if result4 \<noteq> LIBP2P_IDENTIFY_OK then Some (result4, m2)
                         else
                           let m3 = m2\<lparr>im_observed_addr := Buf observed\<rparr>
                           in if im_listen_addr_count m3 = 0 \<or> im_protocol_count m3 = 0
                              then Some (LIBP2P_IDENTIFY_ERR_INVALID_ARG, m3)
                              else Some (identify_message_validate_local (Some m3), m3))
                      })
              })
      })"

text \<open>The frame in the send buffer. \<open>*written\<close> of the encoder is the length of the send buffer in use.\<close>

definition identify_prepare_tx ::
  "'h identify_host \<Rightarrow> libp2p_identify_t \<Rightarrow> nat \<Rightarrow> 'h \<Rightarrow>
   (libp2p_identify_err_t \<times> libp2p_identify_t) option" where
  "identify_prepare_tx ops p i h = do {
     (result, message) \<leftarrow> identify_build_tx_message ops p h (is_stream (id_streams p ! i));
     (if result \<noteq> LIBP2P_IDENTIFY_OK then Some (result, p)
      else
        case libp2p_identify_message_size (Some message) 0 of
          (result2, body_len) \<Rightarrow>
            if result2 \<noteq> LIBP2P_IDENTIFY_OK then Some (result2, p)
            else do {
              (err, prefix_len, tx0) \<leftarrow> libp2p_uvarint_encode (of_nat body_len) (Buf (is_tx (id_streams p ! i)));
              (let tx = contents tx0; p1 = upd_identify_slot i (is_tx_update (\<lambda>_. tx)) p
               in if err \<noteq> LIBP2P_UVARINT_OK then Some (LIBP2P_IDENTIFY_ERR_BUF_TOO_SMALL, p1)
                  else if prefix_len > length tx \<or> body_len > length tx - prefix_len
                  then Some (LIBP2P_IDENTIFY_ERR_BUF_TOO_SMALL, p1)
                  else do {
                    (result3, written, body) \<leftarrow>
                      libp2p_identify_message_encode (Some message) (Buf (drop prefix_len tx));
                    (let p2 = upd_identify_slot i
                           (\<lambda>s. s\<lparr>is_tx := take prefix_len tx @ contents body, is_tx_len := written\<rparr>) p1
                     in if result3 \<noteq> LIBP2P_IDENTIFY_OK then Some (result3, p2)
                        else Some (LIBP2P_IDENTIFY_OK, upd_identify_slot i
                           (\<lambda>s. s\<lparr>is_tx_len := is_tx_len s + prefix_len, is_tx_pos := 0\<rparr>) p2))
                  })
            })
   }"

subsection \<open>Ends of a stream\<close>

definition identify_fail_stream ::
  "'h identify_host \<Rightarrow> libp2p_identify_t \<Rightarrow> nat \<Rightarrow> libp2p_identify_err_t \<Rightarrow> 'h \<Rightarrow>
   libp2p_host_err_t \<times> libp2p_identify_t \<times> 'h" where
  "identify_fail_stream ops p i reason h =
     (if i \<ge> LIBP2P_IDENTIFY_MAX_STREAMS then (identify_host_err LIBP2P_IDENTIFY_ERR_INVALID_ARG, p, h)
      else
        let slot = id_streams p ! i;
            event = zero_identify_event\<lparr>ie_type := LIBP2P_IDENTIFY_EVENT_ERROR, ie_stream := is_stream slot,
              ie_direction := is_direction slot, ie_reason := reason, ie_user_data := is_user_data slot\<rparr>;
            (err, p1) = identify_event_push p i event;
            p2 = upd_identify_slot i (is_state_update (\<lambda>_. LIBP2P_IDENTIFY_SLOT_EVENTED)) p1
        in if is_stream slot \<noteq> None then
             let h1 = snd (host_set_user_data ops h (is_stream slot) None);
                 h2 = snd (host_reset ops h1 (is_stream slot) 0)
             in (identify_host_err err, upd_identify_slot i (is_stream_update (\<lambda>_. None)) p2, h2)
           else (identify_host_err err, p2, h))"

definition identify_emit_simple ::
  "libp2p_identify_t \<Rightarrow> nat \<Rightarrow> libp2p_identify_event_type_t \<Rightarrow> libp2p_host_err_t \<times> libp2p_identify_t" where
  "identify_emit_simple p i type =
     (if i \<ge> LIBP2P_IDENTIFY_MAX_STREAMS then (identify_host_err LIBP2P_IDENTIFY_ERR_INVALID_ARG, p)
      else
        let slot = id_streams p ! i;
            event = zero_identify_event\<lparr>ie_type := type, ie_stream := is_stream slot,
              ie_direction := is_direction slot, ie_reason := LIBP2P_IDENTIFY_OK,
              ie_user_data := is_user_data slot\<rparr>;
            (result, p1) = identify_event_push p i event
        in (identify_host_err result,
            upd_identify_slot i (is_state_update (\<lambda>_. LIBP2P_IDENTIFY_SLOT_EVENTED)) p1))"

text \<open>The branch of \<open>identify_read_stream\<close>, there twice, for a message that is complete.\<close>

definition identify_emit_received ::
  "'h identify_host \<Rightarrow> libp2p_identify_t \<Rightarrow> nat \<Rightarrow> 'h \<Rightarrow> libp2p_host_err_t \<times> libp2p_identify_t \<times> 'h" where
  "identify_emit_received ops p i h =
     (let slot = id_streams p ! i;
          event = zero_identify_event\<lparr>ie_type := LIBP2P_IDENTIFY_EVENT_RECEIVED, ie_stream := is_stream slot,
            ie_direction := is_direction slot, ie_message := is_decoded slot,
            ie_reason := LIBP2P_IDENTIFY_OK, ie_user_data := is_user_data slot\<rparr>;
          (err, p1) = identify_event_push p i event
      in (identify_host_err err,
          upd_identify_slot i (is_state_update (\<lambda>_. LIBP2P_IDENTIFY_SLOT_EVENTED)) p1,
          snd (host_finish ops h (is_stream slot))))"

subsection \<open>Reading and writing\<close>

definition identify_read_stream ::
  "'h identify_host \<Rightarrow> libp2p_identify_t \<Rightarrow> nat \<Rightarrow> 'h \<Rightarrow> (libp2p_host_err_t \<times> libp2p_identify_t \<times> 'h) option" where
  "identify_read_stream ops p i h =
     (let slot = id_streams p ! i
      in if i \<ge> LIBP2P_IDENTIFY_MAX_STREAMS then Some (LIBP2P_HOST_ERR_INVALID_ARG, p, h)
         else if is_rx_len slot = LIBP2P_IDENTIFY_MAX_MESSAGE_BYTES
         then Some (identify_fail_stream ops p i LIBP2P_IDENTIFY_ERR_LIMIT h)
         else if is_rx_len slot > LIBP2P_IDENTIFY_MAX_MESSAGE_BYTES then None
         else
           case host_read ops h (is_stream slot) (LIBP2P_IDENTIFY_MAX_MESSAGE_BYTES - is_rx_len slot) of
             ((host_err, bytes, fin), h1) \<Rightarrow> do {
               rx \<leftarrow> memcpy_at (is_rx slot) (is_rx_len slot) bytes;
               (let p1 = upd_identify_slot i (is_rx_update (\<lambda>_. rx)) p
                in if host_err = LIBP2P_HOST_ERR_WOULD_BLOCK then Some (LIBP2P_HOST_OK, p1, h1)
                   else if host_err = LIBP2P_HOST_OK then
                     let rx_len = is_rx_len slot + length bytes;
                         p2 = upd_identify_slot i (is_rx_len_update (\<lambda>_. rx_len)) p1
                     in if length bytes \<noteq> 0 \<or> fin then do {
                          (err, decoded) \<leftarrow> identify_frame_decode (take rx_len rx) (is_decoded slot);
                          (let p3 = upd_identify_slot i (is_decoded_update (\<lambda>_. decoded)) p2
                           in if err = LIBP2P_IDENTIFY_OK then Some (identify_emit_received ops p3 i h1)
                              else if length bytes \<noteq> 0 \<and> err = LIBP2P_IDENTIFY_ERR_TRUNCATED
                              then Some (LIBP2P_HOST_OK, p3, h1)
                              else Some (identify_fail_stream ops p3 i err h1))
                        }
                        else Some (LIBP2P_HOST_OK, p2, h1)
                   else Some (identify_fail_stream ops p1 i (identify_host_to_err host_err) h1))
             })"

definition identify_write_stream ::
  "'h identify_host \<Rightarrow> libp2p_identify_t \<Rightarrow> nat \<Rightarrow> 'h \<Rightarrow> (libp2p_host_err_t \<times> libp2p_identify_t \<times> 'h) option" where
  "identify_write_stream ops p i h =
     (let slot = id_streams p ! i
      in if i \<ge> LIBP2P_IDENTIFY_MAX_STREAMS then Some (LIBP2P_HOST_ERR_INVALID_ARG, p, h)
         else if is_tx_pos slot \<ge> is_tx_len slot then Some (LIBP2P_HOST_OK, p, h)
         else if is_tx_len slot > length (is_tx slot) then None
         else
           case host_write ops h (is_stream slot) (drop (is_tx_pos slot) (take (is_tx_len slot) (is_tx slot))) False of
             ((host_err, accepted), h1) \<Rightarrow>
               if host_err = LIBP2P_HOST_ERR_WOULD_BLOCK then Some (LIBP2P_HOST_OK, p, h1)
               else if host_err = LIBP2P_HOST_OK then
                 let pos = is_tx_pos slot + accepted;
                     p1 = upd_identify_slot i (is_tx_pos_update (\<lambda>_. pos)) p
                 in if pos = is_tx_len slot then
                      let h2 = snd (host_finish ops h1 (is_stream slot));
                          (err, p2) = identify_emit_simple p1 i LIBP2P_IDENTIFY_EVENT_SENT
                      in Some (err, p2, h2)
                    else Some (LIBP2P_HOST_OK, p1, h1)
               else Some (identify_fail_stream ops p i (identify_host_to_err host_err) h1))"

subsection \<open>Callbacks of the host\<close>

definition identify_open_slot ::
  "libp2p_identify_t \<Rightarrow> libp2p_host_stream_direction_t \<Rightarrow> libp2p_identify_stream_kind_t \<Rightarrow>
   (nat \<times> libp2p_identify_t) option" where
  "identify_open_slot p direction kind =
     (if direction = LIBP2P_HOST_STREAM_OUTBOUND
      then (case identify_find_opening p
                   (if kind = LIBP2P_IDENTIFY_STREAM_PUSH then LIBP2P_IDENTIFY_SLOT_OPENING_PUSH
                    else LIBP2P_IDENTIFY_SLOT_OPENING_IDENTIFY) of
              Some i \<Rightarrow> Some (i, p)
            | None \<Rightarrow> identify_alloc_slot p)
      else identify_alloc_slot p)"

definition identify_open_common ::
  "'h identify_host \<Rightarrow> libp2p_identify_t \<Rightarrow> nat option \<Rightarrow> libp2p_host_stream_direction_t \<Rightarrow>
   libp2p_identify_stream_kind_t \<Rightarrow> 'h \<Rightarrow> (libp2p_host_err_t \<times> libp2p_identify_t \<times> 'h) option" where
  "identify_open_common ops p stream direction kind h =
     (if stream = None then Some (identify_host_err LIBP2P_IDENTIFY_ERR_INVALID_ARG, p, h)
      else case identify_open_slot p direction kind of
        None \<Rightarrow> Some (identify_host_err LIBP2P_IDENTIFY_ERR_LIMIT, p, h)
      | Some (i, p1) \<Rightarrow>
          let p2 = upd_identify_slot i
                (\<lambda>s. s\<lparr>is_kind := kind, is_direction := direction, is_stream := stream\<rparr>) p1;
              (host_err, h1) = host_set_user_data ops h stream (Some i);
              err = identify_host_to_err host_err
          in if err \<noteq> LIBP2P_IDENTIFY_OK then Some (identify_host_err err, p2, h1)
             else if direction = LIBP2P_HOST_STREAM_INBOUND \<and> kind = LIBP2P_IDENTIFY_STREAM_IDENTIFY \<or>
                     direction = LIBP2P_HOST_STREAM_OUTBOUND \<and> kind = LIBP2P_IDENTIFY_STREAM_PUSH
             then do {
               (err2, p3) \<leftarrow> identify_prepare_tx ops p2 i h1;
               (if err2 \<noteq> LIBP2P_IDENTIFY_OK then Some (identify_host_err err2, p3, h1)
                else identify_write_stream ops
                       (upd_identify_slot i (is_state_update (\<lambda>_. LIBP2P_IDENTIFY_SLOT_WRITING)) p3) i h1)
             }
             else
               Some (LIBP2P_HOST_OK,
                     upd_identify_slot i (is_state_update (\<lambda>_. LIBP2P_IDENTIFY_SLOT_READING)) p2,
                     if direction = LIBP2P_HOST_STREAM_OUTBOUND \<and> kind = LIBP2P_IDENTIFY_STREAM_IDENTIFY
                     then snd (host_finish ops h1 stream) else h1))"

definition identify_on_open ::
  "'h identify_host \<Rightarrow> libp2p_identify_t \<Rightarrow> nat option \<Rightarrow> libp2p_host_stream_direction_t \<Rightarrow> 'h \<Rightarrow>
   (libp2p_host_err_t \<times> libp2p_identify_t \<times> 'h) option" where
  "identify_on_open ops p stream direction h =
     identify_open_common ops p stream direction LIBP2P_IDENTIFY_STREAM_IDENTIFY h"

definition identify_push_on_open ::
  "'h identify_host \<Rightarrow> libp2p_identify_t \<Rightarrow> nat option \<Rightarrow> libp2p_host_stream_direction_t \<Rightarrow> 'h \<Rightarrow>
   (libp2p_host_err_t \<times> libp2p_identify_t \<times> 'h) option" where
  "identify_push_on_open ops p stream direction h =
     identify_open_common ops p stream direction LIBP2P_IDENTIFY_STREAM_PUSH h"

definition identify_on_event ::
  "'h identify_host \<Rightarrow> libp2p_identify_t \<Rightarrow> nat option \<Rightarrow> libp2p_host_protocol_event_kind_t \<Rightarrow> 'h \<Rightarrow>
   (libp2p_host_err_t \<times> libp2p_identify_t \<times> 'h) option" where
  "identify_on_event ops p stream kind h =
     (if stream = None then Some (LIBP2P_HOST_ERR_INVALID_ARG, p, h)
      else case identify_find_stream p stream of
        None \<Rightarrow> Some (LIBP2P_HOST_OK, p, h)
      | Some i \<Rightarrow>
          (case host_set_user_data ops h stream (Some i) of
             (err, h1) \<Rightarrow>
               if err \<noteq> LIBP2P_HOST_OK then Some (LIBP2P_HOST_ERR_INVALID_ARG, p, h1)
               else
                 let state = is_state (id_streams p ! i)
                 in case kind of
                      LIBP2P_HOST_PROTOCOL_EVENT_READABLE \<Rightarrow>
                        if state = LIBP2P_IDENTIFY_SLOT_READING then identify_read_stream ops p i h1
                        else Some (LIBP2P_HOST_OK, p, h1)
                    | LIBP2P_HOST_PROTOCOL_EVENT_WRITABLE \<Rightarrow>
                        if state = LIBP2P_IDENTIFY_SLOT_WRITING then identify_write_stream ops p i h1
                        else Some (LIBP2P_HOST_OK, p, h1)
                    | LIBP2P_HOST_PROTOCOL_EVENT_RESET \<Rightarrow>
                        Some (identify_fail_stream ops p i LIBP2P_IDENTIFY_ERR_HOST h1)
                    | LIBP2P_HOST_PROTOCOL_EVENT_CLOSED \<Rightarrow>
                        if state = LIBP2P_IDENTIFY_SLOT_READING then do {
                          (result, p1, h2) \<leftarrow> identify_read_stream ops p i h1;
                          (if result = LIBP2P_HOST_OK \<and> identify_slot_is_reading p1 i
                           then (case identify_emit_simple p1 i LIBP2P_IDENTIFY_EVENT_CLOSED of
                                   (err2, p2) \<Rightarrow> Some (err2, p2, h2))
                           else Some (result, p1, h2))
                        }
                        else (case identify_emit_simple p i LIBP2P_IDENTIFY_EVENT_CLOSED of
                                (err2, p1) \<Rightarrow> Some (err2, p1, h1))))"

subsection \<open>Calls of the application\<close>

definition libp2p_identify_config_default :: libp2p_identify_config_t where
  "libp2p_identify_config_default = \<lparr>local_message = zero_identify_message (Null 0)\<rparr>"

definition libp2p_identify_init :: "libp2p_identify_config_t \<Rightarrow> libp2p_identify_err_t + libp2p_identify_t" where
  "libp2p_identify_init config =
     (let result = identify_message_validate_local (Some (local_message config))
      in if result \<noteq> LIBP2P_IDENTIFY_OK then Inl result
         else Inr \<lparr>id_config = config,
                   id_streams = replicate LIBP2P_IDENTIFY_MAX_STREAMS zero_identify_slot,
                   id_events = replicate LIBP2P_IDENTIFY_EVENT_CAPACITY
                     \<lparr>iq_event = zero_identify_event, iq_slot_index = 0\<rparr>,
                   id_event_head = 0, id_event_len = 0\<rparr>)"

text \<open>The ids that are registered; the other fields are the callbacks.\<close>

definition libp2p_identify_protocol :: string where
  "libp2p_identify_protocol = LIBP2P_IDENTIFY_PROTOCOL_ID"

definition libp2p_identify_push_protocol :: string where
  "libp2p_identify_push_protocol = LIBP2P_IDENTIFY_PUSH_PROTOCOL_ID"

definition identify_open_outbound ::
  "'h identify_host \<Rightarrow> libp2p_identify_t \<Rightarrow> nat option \<Rightarrow> nat option \<Rightarrow> libp2p_identify_slot_state_t \<Rightarrow>
   string \<Rightarrow> 'h \<Rightarrow> (libp2p_identify_err_t \<times> nat option) \<times> libp2p_identify_t \<times> 'h" where
  "identify_open_outbound ops p conn user_data opening_state protocol_id h =
     (if conn = None then ((LIBP2P_IDENTIFY_ERR_INVALID_ARG, None), p, h)
      else case identify_alloc_slot p of
        None \<Rightarrow> ((LIBP2P_IDENTIFY_ERR_LIMIT, None), p, h)
      | Some (i, p1) \<Rightarrow>
          let p2 = upd_identify_slot i (\<lambda>s. s\<lparr>is_state := opening_state, is_user_data := user_data\<rparr>) p1;
              ((host_err, out_open), h1) = host_open ops h conn protocol_id (Some i);
              result = identify_host_to_err host_err
          in ((result, out_open),
              (if result \<noteq> LIBP2P_IDENTIFY_OK then upd_identify_slot i (\<lambda>_. zero_identify_slot) p2 else p2), h1))"

definition libp2p_identify_query ::
  "'h identify_host \<Rightarrow> libp2p_identify_t \<Rightarrow> nat option \<Rightarrow> nat option \<Rightarrow> 'h \<Rightarrow>
   (libp2p_identify_err_t \<times> nat option) \<times> libp2p_identify_t \<times> 'h" where
  "libp2p_identify_query ops p conn user_data h =
     identify_open_outbound ops p conn user_data LIBP2P_IDENTIFY_SLOT_OPENING_IDENTIFY LIBP2P_IDENTIFY_PROTOCOL_ID h"

definition libp2p_identify_push ::
  "'h identify_host \<Rightarrow> libp2p_identify_t \<Rightarrow> nat option \<Rightarrow> nat option \<Rightarrow> 'h \<Rightarrow>
   (libp2p_identify_err_t \<times> nat option) \<times> libp2p_identify_t \<times> 'h" where
  "libp2p_identify_push ops p conn user_data h =
     identify_open_outbound ops p conn user_data LIBP2P_IDENTIFY_SLOT_OPENING_PUSH
       LIBP2P_IDENTIFY_PUSH_PROTOCOL_ID h"

definition libp2p_identify_next_event ::
  "libp2p_identify_t \<Rightarrow> libp2p_identify_err_t \<times> libp2p_identify_event_t \<times> libp2p_identify_t" where
  "libp2p_identify_next_event p =
     (if id_event_len p = 0 then (LIBP2P_IDENTIFY_ERR_STATE, zero_identify_event, p)
      else
        let q = id_events p ! id_event_head p;
            p1 = p\<lparr>id_event_head := (id_event_head p + 1) mod LIBP2P_IDENTIFY_EVENT_CAPACITY,
                   id_event_len := id_event_len p - 1\<rparr>
        in (LIBP2P_IDENTIFY_OK, iq_event q,
            if iq_slot_index q < LIBP2P_IDENTIFY_MAX_STREAMS
            then upd_identify_slot (iq_slot_index q) (\<lambda>_. zero_identify_slot) p1 else p1))"

end
