(* ===== verification/Identify_Laws.thy ===== *)
theory Identify_Laws
  imports Identify_Message Gossipsub_Wire_Laws
begin

text \<open>
  The message codec of identify over a reference: \<open>identify_image\<close> is the protobuf image of a message and
  \<open>local_bytes\<close> its byte strings. The encoder stores the image, and what the decoder returns for the image,
  read through its positions, are the byte strings again. A frame that is cut off is TRUNCATED.
\<close>

subsection \<open>The reference\<close>

definition present_field :: "nat \<Rightarrow> byte cbuf \<Rightarrow> byte list" where
  "present_field k b = (if identify_bytes_present b then len_field k (contents b) else [])"

definition array_fields :: "nat \<Rightarrow> byte cbuf list \<Rightarrow> byte list" where
  "array_fields k bs = concat (map (\<lambda>b. len_field k (contents b)) bs)"

definition identify_image :: "identify_local \<Rightarrow> byte list" where
  "identify_image m = present_field 1 (im_public_key m) @
     array_fields 2 (take (im_listen_addr_count m) (im_listen_addrs m)) @
     array_fields 3 (take (im_protocol_count m) (im_protocols m)) @
     present_field 4 (im_observed_addr m) @ present_field 5 (im_protocol_version m) @
     present_field 6 (im_agent_version m)"

definition identify_frame :: "identify_local \<Rightarrow> byte list" where
  "identify_frame m = uvarint_bytes (length (identify_image m)) @ identify_image m"

definition message_ok :: "identify_local \<Rightarrow> bool" where
  "message_ok m \<longleftrightarrow> im_listen_addr_count m \<le> 8 \<and> im_protocol_count m \<le> 16 \<and>
     length (im_listen_addrs m) = 8 \<and> length (im_protocols m) = 16 \<and>
     list_all identify_bytes_present (take (im_listen_addr_count m) (im_listen_addrs m)) \<and>
     list_all identify_bytes_present (take (im_protocol_count m) (im_protocols m))"

definition local_bytes :: "identify_local \<Rightarrow> byte list libp2p_identify_message_t" where
  "local_bytes m = \<lparr>im_protocol_version = contents (im_protocol_version m),
     im_agent_version = contents (im_agent_version m), im_public_key = contents (im_public_key m),
     im_observed_addr = contents (im_observed_addr m),
     im_listen_addrs = map contents (take (im_listen_addr_count m) (im_listen_addrs m)),
     im_listen_addr_count = im_listen_addr_count m,
     im_protocols = map contents (take (im_protocol_count m) (im_protocols m)),
     im_protocol_count = im_protocol_count m\<rparr>"

lemma present_Buf: "identify_bytes_present b \<Longrightarrow> \<exists>xs. b = Buf xs \<and> xs \<noteq> []"
  by (cases b) (auto simp: identify_bytes_present_def)

subsection \<open>Sizes\<close>

lemma unat_identify_key: "k < 2 ^ 29 \<Longrightarrow> unat (identify_key (of_nat k)) = 8 * k + 2"
  using unat_gossipsub_key [of GOSSIPSUB_WIRE_LEN "of_nat k"]
  by (simp add: identify_key_def gossipsub_key_def IDENTIFY_WIRE_LEN_def GOSSIPSUB_WIRE_LEN_def unat_of_nat)

lemma identify_field_numbers:
  "IDENTIFY_FIELD_PUBLIC_KEY = of_nat 1" "IDENTIFY_FIELD_LISTEN_ADDRS = of_nat 2"
  "IDENTIFY_FIELD_PROTOCOLS = of_nat 3" "IDENTIFY_FIELD_OBSERVED_ADDR = of_nat 4"
  "IDENTIFY_FIELD_PROTOCOL_VERSION = of_nat 5" "IDENTIFY_FIELD_AGENT_VERSION = of_nat 6"
  by (simp_all add: identify_fields)

lemma field_size_fits:
  assumes "k < 2 ^ 29" and "total0 + length (len_field k bs) \<le> SIZE_MAX"
  shows "identify_field_size (of_nat k) (length bs) total0 =
    (LIBP2P_IDENTIFY_OK, total0 + length (len_field k bs))"
proof -
  have "length bs \<le> SIZE_MAX" using assms(2) by (simp add: len_field_def)
  then show ?thesis
    using assms(2)
    by (auto simp: identify_field_size_def unat_identify_key [OF assms(1)] identify_size_add_def len_field_def
        unat_of_nat_size)
qed

lemma size_present_fits:
  assumes "k < 2 ^ 29" and "total0 + length (present_field k b) \<le> SIZE_MAX"
  shows "size_present (of_nat k) b total0 = (LIBP2P_IDENTIFY_OK, total0 + length (present_field k b))"
proof (cases "identify_bytes_present b")
  case True
  then obtain xs where "b = Buf xs" using present_Buf by blast
  then show ?thesis using True assms field_size_fits [of k total0 xs]
    by (simp add: size_present_def present_field_def)
qed (simp add: size_present_def present_field_def)

lemma size_then_OK [simp]: "size_then (LIBP2P_IDENTIFY_OK, t) f = f t"
  by (simp add: size_then_def)

lemma size_array_fits:
  "k < 2 ^ 29 \<Longrightarrow> list_all identify_bytes_present bs \<Longrightarrow> total0 + length (array_fields k bs) \<le> SIZE_MAX \<Longrightarrow>
   size_array (of_nat k) bs total0 = (LIBP2P_IDENTIFY_OK, total0 + length (array_fields k bs))"
proof (induction bs arbitrary: total0)
  case (Cons b bs)
  then have "identify_bytes_present b" by simp
  then obtain xs where "b = Buf xs" using present_Buf by blast
  with Cons field_size_fits [of k total0 xs] show ?case by (simp add: array_fields_def add.assoc)
qed (simp add: array_fields_def)

lemma message_size_fits:
  assumes "message_ok m" and "length (identify_image m) \<le> SIZE_MAX"
  shows "libp2p_identify_message_size (Some m) old = (LIBP2P_IDENTIFY_OK, length (identify_image m))"
  using assms
  unfolding libp2p_identify_message_size_def identify_field_numbers message_ok_def
  by (simp add: identify_limits identify_image_def add.assoc
      size_present_fits [of 1, simplified] size_present_fits [of 4, simplified]
      size_present_fits [of 5, simplified] size_present_fits [of 6, simplified]
      size_array_fits [of 2, simplified] size_array_fits [of 3, simplified])

text \<open>The size function succeeds only with the right size.\<close>

lemma size_then_iff:
  "size_then r f = (LIBP2P_IDENTIFY_OK, t) \<longleftrightarrow> (\<exists>t0. r = (LIBP2P_IDENTIFY_OK, t0) \<and> f t0 = (LIBP2P_IDENTIFY_OK, t))"
  by (cases r) (auto simp: size_then_def)

lemma field_size_sound:
  assumes "identify_field_size (of_nat k) (length bs) t0 = (LIBP2P_IDENTIFY_OK, t)" and "k < 2 ^ 29" and "t0 \<le> SIZE_MAX"
  shows "t = t0 + length (len_field k bs) \<and> t \<le> SIZE_MAX"
proof (cases "length bs \<le> SIZE_MAX")
  case True
  with assms show ?thesis
    by (auto simp: identify_field_size_def unat_identify_key identify_size_add_def len_field_def unat_of_nat_size
        split: if_splits)
next
  case False
  with assms show ?thesis by (auto simp: identify_field_size_def identify_size_add_def split: if_splits)
qed

lemma size_present_sound:
  assumes "size_present (of_nat k) b t0 = (LIBP2P_IDENTIFY_OK, t)" and "k < 2 ^ 29" and "t0 \<le> SIZE_MAX"
  shows "t = t0 + length (present_field k b) \<and> t \<le> SIZE_MAX"
proof (cases "identify_bytes_present b")
  case True
  then obtain xs where b: "b = Buf xs" using present_Buf by blast
  have "identify_field_size (of_nat k) (length xs) t0 = (LIBP2P_IDENTIFY_OK, t)"
    using assms(1) True by (simp add: size_present_def b)
  from field_size_sound [OF this assms(2,3)] True show ?thesis by (simp add: present_field_def b)
qed (use assms in \<open>simp add: size_present_def present_field_def\<close>)

lemma size_array_sound:
  "size_array (of_nat k) bs t0 = (LIBP2P_IDENTIFY_OK, t) \<Longrightarrow> k < 2 ^ 29 \<Longrightarrow> t0 \<le> SIZE_MAX \<Longrightarrow>
   t = t0 + length (array_fields k bs) \<and> t \<le> SIZE_MAX"
proof (induction bs arbitrary: t0)
  case (Cons b bs)
  then have "identify_bytes_present b" by (auto split: if_splits)
  then obtain xs where b: "b = Buf xs" using present_Buf by blast
  from Cons.prems(1) \<open>identify_bytes_present b\<close> obtain t1 where
    t1: "identify_field_size (of_nat k) (length xs) t0 = (LIBP2P_IDENTIFY_OK, t1)"
    "size_array (of_nat k) bs t1 = (LIBP2P_IDENTIFY_OK, t)" by (auto simp: b size_then_iff)
  from field_size_sound [OF t1(1) Cons.prems(2,3)] Cons.IH [OF t1(2) Cons.prems(2)]
  show ?case by (simp add: array_fields_def b)
qed (simp add: array_fields_def)

lemma message_size_sound:
  assumes "libp2p_identify_message_size (Some m) old = (LIBP2P_IDENTIFY_OK, t)"
  shows "t = length (identify_image m) \<and> t \<le> SIZE_MAX"
proof -
  let ?as = "take (im_listen_addr_count m) (im_listen_addrs m)" and ?ps = "take (im_protocol_count m) (im_protocols m)"
  from assms obtain t1 t2 t3 t4 t5 where
    1: "size_present IDENTIFY_FIELD_PUBLIC_KEY (im_public_key m) 0 = (LIBP2P_IDENTIFY_OK, t1)" and
    2: "size_array IDENTIFY_FIELD_LISTEN_ADDRS ?as t1 = (LIBP2P_IDENTIFY_OK, t2)" and
    3: "size_array IDENTIFY_FIELD_PROTOCOLS ?ps t2 = (LIBP2P_IDENTIFY_OK, t3)" and
    4: "size_present IDENTIFY_FIELD_OBSERVED_ADDR (im_observed_addr m) t3 = (LIBP2P_IDENTIFY_OK, t4)" and
    5: "size_present IDENTIFY_FIELD_PROTOCOL_VERSION (im_protocol_version m) t4 = (LIBP2P_IDENTIFY_OK, t5)" and
    6: "size_present IDENTIFY_FIELD_AGENT_VERSION (im_agent_version m) t5 = (LIBP2P_IDENTIFY_OK, t)"
    by (auto simp: libp2p_identify_message_size_def size_then_iff split: if_splits prod.splits)
  note s1 = size_present_sound [OF 1 [unfolded identify_field_numbers], simplified]
  note s2 = size_array_sound [OF 2 [unfolded identify_field_numbers], simplified]
  note s3 = size_array_sound [OF 3 [unfolded identify_field_numbers], simplified]
  note s4 = size_present_sound [OF 4 [unfolded identify_field_numbers], simplified]
  note s5 = size_present_sound [OF 5 [unfolded identify_field_numbers], simplified]
  note s6 = size_present_sound [OF 6 [unfolded identify_field_numbers], simplified]
  from s1 s2 s3 s4 s5 s6 show ?thesis by (simp add: identify_image_def)
qed

subsection \<open>The encoder\<close>

text \<open>A writer that adds exactly \<open>bs\<close>, started at any position with enough room.\<close>

definition adds :: "(nat \<Rightarrow> byte list \<Rightarrow> identify_writer) \<Rightarrow> byte list \<Rightarrow> bool" where
  "adds w bs \<longleftrightarrow> (\<forall>a r. length bs \<le> length r \<longrightarrow>
     w (length a) (a @ r) = Some (LIBP2P_IDENTIFY_OK, length a + length bs, a @ bs @ drop (length bs) r))"

lemma addsD:
  "adds w bs \<Longrightarrow> length bs \<le> length r \<Longrightarrow>
   w (length a) (a @ r) = Some (LIBP2P_IDENTIFY_OK, length a + length bs, a @ bs @ drop (length bs) r)"
  by (simp add: adds_def)

lemma adds_nil [intro]: "adds (\<lambda>pos out. Some (LIBP2P_IDENTIFY_OK, pos, out)) []"
  by (simp add: adds_def)

lemma adds_then [intro]:
  assumes "adds w b" and "adds v c"
  shows "adds (\<lambda>pos out. write_then (w pos out) (\<lambda>pos out. v pos out)) (b @ c)"
  unfolding adds_def
proof (intro allI impI)
  fix a r :: "byte list"
  assume l: "length (b @ c) \<le> length r"
  then have "w (length a) (a @ r) = Some (LIBP2P_IDENTIFY_OK, length (a @ b), (a @ b) @ drop (length b) r)"
    using addsD [OF assms(1), of r a] by simp
  moreover have "v (length (a @ b)) ((a @ b) @ drop (length b) r) =
      Some (LIBP2P_IDENTIFY_OK, length (a @ b) + length c, (a @ b) @ c @ drop (length c) (drop (length b) r))"
    using l by (intro addsD [OF assms(2)]) simp
  ultimately show "write_then (w (length a) (a @ r)) (\<lambda>pos out. v pos out) =
      Some (LIBP2P_IDENTIFY_OK, length a + length (b @ c), a @ (b @ c) @ drop (length (b @ c)) r)"
    by (simp add: write_then_def add.commute add.left_commute)
qed

lemma adds_uvarint:
  assumes "unat v < 2 ^ 63"
  shows "adds (\<lambda>pos out. identify_write_uvarint v out pos) (uvarint_bytes (unat v))"
  using uvarint_encode_value [OF assms] by (simp add: adds_def identify_write_uvarint_def)

lemma adds_copy:
  "adds (\<lambda>pos out. if length bs > length out - pos then Some (LIBP2P_IDENTIFY_ERR_BUF_TOO_SMALL, pos, out)
     else do {out' \<leftarrow> memcpy_at out pos bs; Some (LIBP2P_IDENTIFY_OK, pos + length bs, out')}) bs"
  by (auto simp: adds_def mem_simps)

lemma adds_field:
  assumes "k < 2 ^ 29" and "length xs < 2 ^ 63"
  shows "adds (\<lambda>pos out. identify_write_field (of_nat k) (Buf xs) out pos) (len_field k xs)"
proof -
  have k: "adds (\<lambda>pos out. identify_write_uvarint (identify_key (of_nat k)) out pos) (uvarint_bytes (8 * k + 2))"
    using adds_uvarint [of "identify_key (of_nat k)"] assms(1) by (simp add: unat_identify_key)
  have n: "adds (\<lambda>pos out. identify_write_uvarint (of_nat (length xs)) out pos) (uvarint_bytes (length xs))"
    using adds_uvarint [of "of_nat (length xs)"] assms(2) by (simp add: unat_of_nat)
  show ?thesis
    unfolding identify_write_field_def len_field_def
    by (simp only: is_null.simps if_False clen.simps contents.simps) (intro adds_then k n adds_copy)
qed

lemma adds_present:
  assumes "k < 2 ^ 29" and "length (present_field k b) < 2 ^ 63"
  shows "adds (write_present (of_nat k) b) (present_field k b)"
proof (cases "identify_bytes_present b")
  case True
  then obtain xs where b: "b = Buf xs" using present_Buf by blast
  have "length xs < 2 ^ 63" using assms(2) True length_len_field [of xs k] by (simp add: b present_field_def)
  from adds_field [OF assms(1) this] show ?thesis
    using True by (simp add: adds_def write_present_def present_field_def b)
qed (simp add: adds_def write_present_def present_field_def)

lemma adds_array:
  "k < 2 ^ 29 \<Longrightarrow> list_all identify_bytes_present bs \<Longrightarrow> length (array_fields k bs) < 2 ^ 63 \<Longrightarrow>
   adds (write_array (of_nat k) bs) (array_fields k bs)"
proof (induction bs)
  case Nil
  then show ?case by (simp add: adds_def array_fields_def)
next
  case (Cons b bs)
  then have "identify_bytes_present b" by simp
  then obtain xs where b: "b = Buf xs" using present_Buf by blast
  have "length xs < 2 ^ 63" using Cons.prems(3) length_len_field [of xs k] by (simp add: b array_fields_def)
  from adds_then [OF adds_field [OF Cons.prems(1) this] Cons.IH] Cons.prems
  show ?case by (simp add: adds_def b array_fields_def)
qed

lemma message_encode_fits:
  assumes ok: "message_ok m" and small: "length (identify_image m) < 2 ^ 63"
  shows "libp2p_identify_message_encode (Some m) out =
    Some (if is_null out \<or> clen out < length (identify_image m)
          then (LIBP2P_IDENTIFY_ERR_BUF_TOO_SMALL, length (identify_image m), out)
          else (LIBP2P_IDENTIFY_OK, length (identify_image m),
                Buf (identify_image m @ drop (length (identify_image m)) (contents out))))"
proof -
  note size = message_size_fits [OF ok, of 0]
  have "adds (\<lambda>pos out. write_then (write_present IDENTIFY_FIELD_PUBLIC_KEY (im_public_key m) pos out)
      (\<lambda>pos out. write_then (write_array IDENTIFY_FIELD_LISTEN_ADDRS
                   (take (im_listen_addr_count m) (im_listen_addrs m)) pos out)
      (\<lambda>pos out. write_then (write_array IDENTIFY_FIELD_PROTOCOLS
                   (take (im_protocol_count m) (im_protocols m)) pos out)
      (\<lambda>pos out. write_then (write_present IDENTIFY_FIELD_OBSERVED_ADDR (im_observed_addr m) pos out)
      (\<lambda>pos out. write_then (write_present IDENTIFY_FIELD_PROTOCOL_VERSION (im_protocol_version m) pos out)
      (\<lambda>pos out. write_present IDENTIFY_FIELD_AGENT_VERSION (im_agent_version m) pos out))))))
    (identify_image m)"
    using ok small unfolding identify_image_def identify_field_numbers message_ok_def
    by (intro adds_then adds_present adds_array) simp_all
  from addsD [OF this, of "contents out" "[]"] show ?thesis
    using size small
    by (cases out) (simp_all add: libp2p_identify_message_encode_def SIZE_MAX_def)
qed

subsection \<open>The decoder\<close>

fun view_bytes :: "byte list \<Rightarrow> identify_view \<Rightarrow> byte list" where
  "view_bytes full None = []"
| "view_bytes full (Some (p, n)) = take n (drop p full)"

text \<open>A decoded message read through its positions.\<close>

definition read_message :: "byte list \<Rightarrow> identify_decoded \<Rightarrow> byte list libp2p_identify_message_t" where
  "read_message full d = \<lparr>im_protocol_version = view_bytes full (im_protocol_version d),
     im_agent_version = view_bytes full (im_agent_version d), im_public_key = view_bytes full (im_public_key d),
     im_observed_addr = view_bytes full (im_observed_addr d),
     im_listen_addrs = map (view_bytes full) (take (im_listen_addr_count d) (im_listen_addrs d)),
     im_listen_addr_count = im_listen_addr_count d,
     im_protocols = map (view_bytes full) (take (im_protocol_count d) (im_protocols d)),
     im_protocol_count = im_protocol_count d\<rparr>"

fun view_in :: "nat \<Rightarrow> identify_view \<Rightarrow> bool" where
  "view_in n None = True"
| "view_in n (Some (p, l)) = (p + l \<le> n)"

text \<open>Arrays of full size, counts within them, and all bytes in the first \<open>n\<close> of the input.\<close>

definition decoded_ok :: "nat \<Rightarrow> identify_decoded \<Rightarrow> bool" where
  "decoded_ok n d \<longleftrightarrow> length (im_listen_addrs d) = 8 \<and> length (im_protocols d) = 16 \<and>
     im_listen_addr_count d \<le> 8 \<and> im_protocol_count d \<le> 16 \<and>
     view_in n (im_protocol_version d) \<and> view_in n (im_agent_version d) \<and> view_in n (im_public_key d) \<and>
     view_in n (im_observed_addr d) \<and> list_all (view_in n) (im_listen_addrs d) \<and>
     list_all (view_in n) (im_protocols d)"

lemma decoded_ok_zero [simp]: "decoded_ok n (zero_identify_message None)"
  by (simp add: decoded_ok_def zero_identify_message_def identify_limits list_all_iff)

lemma list_all_update: "list_all P xs \<Longrightarrow> P x \<Longrightarrow> list_all P (xs[i := x])"
  by (auto simp: list_all_iff dest!: set_update_subset_insert [THEN subsetD])

lemma store_field_ok:
  assumes "decoded_ok n d" and "view_in n v"
  shows "\<exists>e d'. identify_store_field field v d = Some (e, d') \<and> decoded_ok n d'"
  using assms
  by (auto simp: identify_store_field_def decoded_ok_def identify_limits wr_in list_all_update)

lemma identify_decode_loop_ok:
  "decoded_ok n d \<Longrightarrow> at + length inp \<le> n \<Longrightarrow>
   \<exists>e d'. identify_decode_loop inp at d = Some (e, d') \<and> decoded_ok n d'"
proof (induction inp at d rule: identify_decode_loop.induct)
  case (1 inp at d)
  show ?case
  proof (cases "inp = []")
    case True
    with 1(2) show ?thesis by (simp add: identify_decode_loop.simps)
  next
    case nonempty: False
    obtain err key r where k: "libp2p_uvarint_decode (Buf inp) = (err, key, r)" by (metis prod_cases3)
    obtain err2 len r2 where l: "libp2p_uvarint_decode (Buf (drop r inp)) = (err2, len, r2)" by (metis prod_cases3)
    show ?thesis
    proof (cases "err = LIBP2P_UVARINT_OK \<and> err2 = LIBP2P_UVARINT_OK \<and>
        (ucast (drop_bit 3 key) :: u32) \<noteq> 0 \<and> (ucast (key AND 7) :: u32) = IDENTIFY_WIRE_LEN \<and>
        unat len \<le> length inp - (r + r2)")
      case False
      with 1(2) nonempty k l show ?thesis by (auto simp: identify_decode_loop.simps [of inp] Let_def)
    next
      case True
      note b = uvarint_decode_ok(3) [OF k [unfolded conjunct1 [OF True]]]
      have l': "libp2p_uvarint_decode (Buf (drop r inp)) = (LIBP2P_UVARINT_OK, len, r2)" using l True by simp
      have "r2 \<le> length inp - r" using uvarint_decode_ok(3) [OF l'] by simp
      with b True 1(3) have pos: "at + (r + r2) + unat len \<le> n" "r + r2 + unat len \<le> length inp" by auto
      then obtain e d' where st: "identify_store_field (ucast (drop_bit 3 key)) (Some (at + (r + r2), unat len)) d =
          Some (e, d')" "decoded_ok n d'" using store_field_ok [OF 1(2)] by (metis view_in.simps(2))
      show ?thesis
      proof (cases "e = LIBP2P_IDENTIFY_OK")
        case False
        with st True nonempty k l show ?thesis by (simp add: identify_decode_loop.simps [of inp] Let_def)
      next
        case e: True
        have "\<exists>e d''. identify_decode_loop (drop (r + r2 + unat len) inp) (at + (r + r2) + unat len) d' = Some (e, d'')
            \<and> decoded_ok n d''"
          using 1(1) [OF nonempty k [symmetric] refl _ refl _ l [symmetric] refl _ refl _ st(1) refl e] True st(2) pos 1(3)
          by simp
        with st True nonempty k l e show ?thesis by (simp add: identify_decode_loop.simps [of inp] Let_def)
      qed
    qed
  qed
qed

lemma decode_loop_step:
  assumes "libp2p_uvarint_decode (Buf inp) = (LIBP2P_UVARINT_OK, key, r)"
    and "libp2p_uvarint_decode (Buf (drop r inp)) = (LIBP2P_UVARINT_OK, len, r2)"
    and "(ucast (drop_bit 3 key) :: u32) = field" and "field \<noteq> 0"
    and "(ucast (key AND 7) :: u32) = IDENTIFY_WIRE_LEN" and "inp \<noteq> []"
    and "unat len \<le> length inp - (r + r2)"
    and "identify_store_field field (Some (at + (r + r2), unat len)) d = Some (LIBP2P_IDENTIFY_OK, d')"
  shows "identify_decode_loop inp at d =
    identify_decode_loop (drop (r + r2 + unat len) inp) (at + (r + r2) + unat len) d'"
  using assms by (subst identify_decode_loop.simps) (simp add: Let_def)

text \<open>One field in front of the rest.\<close>

lemma decode_one_field:
  assumes "0 < k" "k < 2 ^ 29" and "length bs < 2 ^ 63"
    and "identify_store_field (of_nat k) (Some (at + (length (len_field k bs) - length bs), length bs)) d =
      Some (LIBP2P_IDENTIFY_OK, d')"
  shows "identify_decode_loop (len_field k bs @ rest) at d = identify_decode_loop rest (at + length (len_field k bs)) d'"
proof -
  let ?key = "uvarint_bytes (8 * k + 2)" and ?len = "uvarint_bytes (length bs)"
  have n: "8 * k + 2 < 2 ^ 32" and dm: "(8 * k + 2) div 8 = k" "(8 * k + 2) mod 8 = 2"
    using assms(2) by (simp, presburger, presburger)
  have f: "(ucast (drop_bit 3 (of_nat (8 * k + 2) :: u64)) :: u32) = of_nat k"
    and w: "(ucast ((of_nat (8 * k + 2) :: u64) AND 7) :: u32) = IDENTIFY_WIRE_LEN"
    using key_split [OF n] unfolding dm by (simp_all add: IDENTIFY_WIRE_LEN_def)
  have k0: "(of_nat k :: u32) \<noteq> 0"
  proof
    assume "(of_nat k :: u32) = 0"
    then have "unat (of_nat k :: u32) = 0" by simp
    then show False using assms(1,2) by (simp add: unat_of_nat)
  qed
  have e: "len_field k bs @ rest = ?key @ ?len @ bs @ rest" by (simp add: len_field_def)
  have d1: "libp2p_uvarint_decode (Buf (?key @ ?len @ bs @ rest)) = (LIBP2P_UVARINT_OK, of_nat (8 * k + 2), length ?key)"
    using n by (intro uvarint_decode_bytes) simp
  have d2: "libp2p_uvarint_decode (Buf (drop (length ?key) (?key @ ?len @ bs @ rest))) =
      (LIBP2P_UVARINT_OK, of_nat (length bs), length ?len)"
    using uvarint_decode_bytes [OF assms(3), of "bs @ rest"] by simp
  have u: "unat (of_nat (length bs) :: u64) = length bs" using assms(3) by (simp add: unat_of_nat)
  have pos: "length (len_field k bs) - length bs = length ?key + length ?len"
    "length (len_field k bs) = length ?key + length ?len + length bs" by (simp_all add: len_field_def)
  have fit: "unat (of_nat (length bs) :: u64) \<le> length (?key @ ?len @ bs @ rest) - (length ?key + length ?len)"
    using u by simp
  have st: "identify_store_field (of_nat k) (Some (at + (length ?key + length ?len),
      unat (of_nat (length bs) :: u64))) d = Some (LIBP2P_IDENTIFY_OK, d')"
    using assms(4) unfolding pos(1) u .
  have "?key @ ?len @ bs @ rest \<noteq> []" by simp
  from decode_loop_step [OF d1 d2 f k0 w this fit st] show ?thesis
    unfolding e pos(2) u by (simp add: add.assoc)
qed

text \<open>
  \<open>absorbs C img F\<close>: in front of any rest, the loop reads \<open>img\<close>, and the bytes of the message, which
  satisfied \<open>C\<close>, change by \<open>F\<close>.
\<close>

definition absorbs ::
  "(byte list libp2p_identify_message_t \<Rightarrow> bool) \<Rightarrow> byte list \<Rightarrow>
   (byte list libp2p_identify_message_t \<Rightarrow> byte list libp2p_identify_message_t) \<Rightarrow> bool" where
  "absorbs C img F \<longleftrightarrow> (\<forall>full at d r. drop at full = img @ r \<longrightarrow> at \<le> length full \<longrightarrow>
     decoded_ok (length full) d \<longrightarrow> C (read_message full d) \<longrightarrow>
     (\<exists>d'. identify_decode_loop (img @ r) at d = identify_decode_loop r (at + length img) d' \<and>
        decoded_ok (length full) d' \<and> read_message full d' = F (read_message full d)))"

lemma absorbsD:
  assumes "absorbs C img F" and "drop at full = img @ r" and "at \<le> length full"
    and "decoded_ok (length full) d" and "C (read_message full d)"
  obtains d' where "identify_decode_loop (img @ r) at d = identify_decode_loop r (at + length img) d'"
    and "decoded_ok (length full) d'" and "read_message full d' = F (read_message full d)"
  using assms unfolding absorbs_def by blast

lemma absorbs_nil: "absorbs C [] (\<lambda>M. M)"
  by (auto simp: absorbs_def)

lemma absorbs_append:
  assumes a: "absorbs C f F" and b: "absorbs D g G" and C: "\<And>M. C M \<Longrightarrow> D (F M)"
  shows "absorbs C (f @ g) (\<lambda>M. G (F M))"
  unfolding absorbs_def
proof (intro allI impI)
  fix full at d r
  assume f: "drop at full = (f @ g) @ r" and at: "at \<le> length full" and ok: "decoded_ok (length full) d"
    and c: "C (read_message full d)"
  from f have f1: "drop at full = f @ (g @ r)" by simp
  from absorbsD [OF a f1 at ok c] obtain d1 where
    1: "identify_decode_loop (f @ g @ r) at d = identify_decode_loop (g @ r) (at + length f) d1"
    "decoded_ok (length full) d1" "read_message full d1 = F (read_message full d)" by blast
  have f2: "drop (at + length f) full = g @ r" using f1 by (metis add.commute append_eq_conv_conj drop_drop)
  have at2: "at + length f \<le> length full"
    using f1 at by (metis add_le_cancel_left le_add_diff_inverse length_append length_drop le_add1)
  have c2: "D (read_message full d1)" using C [OF c] 1(3) by simp
  from absorbsD [OF b f2 at2 1(2) c2] obtain d2 where
    "identify_decode_loop (g @ r) (at + length f) d1 = identify_decode_loop r (at + length f + length g) d2"
    "decoded_ok (length full) d2" "read_message full d2 = G (read_message full d1)" by blast
  with 1 show "\<exists>d'. identify_decode_loop ((f @ g) @ r) at d = identify_decode_loop r (at + length (f @ g)) d' \<and>
      decoded_ok (length full) d' \<and> read_message full d' = G (F (read_message full d))"
    by (intro exI [of _ d2]) (simp add: add.assoc)
qed

text \<open>A field is absorbed if storing its view has the effect \<open>F\<close>.\<close>

lemma absorbs_field:
  assumes k: "0 < k" "k < 2 ^ 29" and small: "length bs < 2 ^ 63"
    and store: "\<And>full v d. decoded_ok (length full) d \<Longrightarrow> view_in (length full) v \<Longrightarrow> C (read_message full d) \<Longrightarrow>
      \<exists>d'. identify_store_field (of_nat k) v d = Some (LIBP2P_IDENTIFY_OK, d') \<and>
        read_message full d' = F (view_bytes full v) (read_message full d)"
  shows "absorbs C (len_field k bs) (F bs)"
  unfolding absorbs_def
proof (intro allI impI)
  fix full at d r
  assume f: "drop at full = len_field k bs @ r" and at: "at \<le> length full" and ok: "decoded_ok (length full) d"
    and c: "C (read_message full d)"
  define h where "h = length (len_field k bs) - length bs"
  have len: "length full = at + length (len_field k bs) + length r"
    using f at by (metis add.assoc le_add_diff_inverse length_append length_drop)
  have h: "h + length bs = length (len_field k bs)" by (simp add: h_def len_field_def)
  have "drop h (len_field k bs) = bs" by (simp add: h_def len_field_def)
  then have bytes: "view_bytes full (Some (at + h, length bs)) = bs"
    using f h by (simp add: add.commute [of at h] flip: drop_drop)
  have v: "view_in (length full) (Some (at + h, length bs))" using len h by simp
  from store [OF ok v c] obtain d' where
    st: "identify_store_field (of_nat k) (Some (at + h, length bs)) d = Some (LIBP2P_IDENTIFY_OK, d')" and
    rd: "read_message full d' = F bs (read_message full d)" unfolding bytes by blast
  have "decoded_ok (length full) d'" using store_field_ok [OF ok v, of "of_nat k"] st by auto
  with rd decode_one_field [OF k small, of at d d' r] st
  show "\<exists>d'. identify_decode_loop (len_field k bs @ r) at d = identify_decode_loop r (at + length (len_field k bs)) d' \<and>
      decoded_ok (length full) d' \<and> read_message full d' = F bs (read_message full d)"
    by (auto simp: h_def)
qed

lemma absorbs_present:
  assumes k: "0 < k" "k < 2 ^ 29" and small: "length (contents b) < 2 ^ 63"
    and "\<And>full v d. \<exists>d'. identify_store_field (of_nat k) v d = Some (LIBP2P_IDENTIFY_OK, d') \<and>
        read_message full d' = F (view_bytes full v) (read_message full d)"
  shows "absorbs C (present_field k b) (\<lambda>M. if identify_bytes_present b then F (contents b) M else M)"
proof (cases "identify_bytes_present b")
  case True
  then show ?thesis using absorbs_field [of k "contents b" C F] assms by (simp add: present_field_def)
qed (simp add: present_field_def absorbs_nil)

lemma take_Suc_update: "n < length xs \<Longrightarrow> take (Suc n) (xs[n := x]) = take n xs @ [x]"
  by (simp add: take_Suc_conv_app_nth)

lemma absorbs_addr:
  assumes "length bs < 2 ^ 63"
  shows "absorbs (\<lambda>M. im_listen_addr_count M < 8) (len_field 2 bs)
    (\<lambda>M. M\<lparr>im_listen_addrs := im_listen_addrs M @ [bs], im_listen_addr_count := im_listen_addr_count M + 1\<rparr>)"
  using assms
  by (intro absorbs_field)
    (auto simp: identify_store_field_def identify_fields identify_limits decoded_ok_def read_message_def wr_in
      take_Suc_update)

lemma absorbs_protocol:
  assumes "length bs < 2 ^ 63"
  shows "absorbs (\<lambda>M. im_protocol_count M < 16) (len_field 3 bs)
    (\<lambda>M. M\<lparr>im_protocols := im_protocols M @ [bs], im_protocol_count := im_protocol_count M + 1\<rparr>)"
  using assms
  by (intro absorbs_field)
    (auto simp: identify_store_field_def identify_fields identify_limits decoded_ok_def read_message_def wr_in
      take_Suc_update)

lemma absorbs_weaken: "absorbs D f F \<Longrightarrow> (\<And>M. C M \<Longrightarrow> D M) \<Longrightarrow> absorbs C f F"
  by (simp add: absorbs_def)

lemma absorbs_addrs:
  "length (array_fields 2 bs) < 2 ^ 63 \<Longrightarrow>
   absorbs (\<lambda>M. im_listen_addr_count M + length bs \<le> 8) (array_fields 2 bs)
    (\<lambda>M. M\<lparr>im_listen_addrs := im_listen_addrs M @ map contents bs,
           im_listen_addr_count := im_listen_addr_count M + length bs\<rparr>)"
proof (induction bs)
  case (Cons b bs)
  have "length (contents b) < 2 ^ 63"
    using Cons.prems length_len_field [of "contents b" 2] by (simp add: array_fields_def)
  note 1 = absorbs_weaken [OF absorbs_addr [OF this], of "\<lambda>M. im_listen_addr_count M + length (b # bs) \<le> 8"]
  have "length (array_fields 2 bs) < 2 ^ 63" using Cons.prems by (simp add: array_fields_def)
  from absorbs_append [OF 1 Cons.IH [OF this]] show ?case by (simp add: array_fields_def)
qed (simp add: array_fields_def absorbs_nil)

lemma absorbs_protocols:
  "length (array_fields 3 bs) < 2 ^ 63 \<Longrightarrow>
   absorbs (\<lambda>M. im_protocol_count M + length bs \<le> 16) (array_fields 3 bs)
    (\<lambda>M. M\<lparr>im_protocols := im_protocols M @ map contents bs,
           im_protocol_count := im_protocol_count M + length bs\<rparr>)"
proof (induction bs)
  case (Cons b bs)
  have "length (contents b) < 2 ^ 63"
    using Cons.prems length_len_field [of "contents b" 3] by (simp add: array_fields_def)
  note 1 = absorbs_weaken [OF absorbs_protocol [OF this], of "\<lambda>M. im_protocol_count M + length (b # bs) \<le> 16"]
  have "length (array_fields 3 bs) < 2 ^ 63" using Cons.prems by (simp add: array_fields_def)
  from absorbs_append [OF 1 Cons.IH [OF this]] show ?case by (simp add: array_fields_def)
qed (simp add: array_fields_def absorbs_nil)

subsection \<open>Messages and frames\<close>

definition blank_message :: "byte list libp2p_identify_message_t" where
  "blank_message = \<lparr>im_protocol_version = [], im_agent_version = [], im_public_key = [], im_observed_addr = [],
     im_listen_addrs = [], im_listen_addr_count = 0, im_protocols = [], im_protocol_count = 0\<rparr>"

lemma read_zero [simp]: "read_message full (zero_identify_message None) = blank_message"
  by (simp add: read_message_def zero_identify_message_def blank_message_def)

lemma absent_contents: "\<not> identify_bytes_present b \<Longrightarrow> contents b = []"
  by (cases b) (auto simp: identify_bytes_present_def)

lemma present_small: "length (present_field k b) < 2 ^ 63 \<Longrightarrow> length (contents b) < 2 ^ 63"
  using length_len_field [of "contents b" k]
  by (cases "identify_bytes_present b") (simp_all add: present_field_def absent_contents)

lemma absorbs_cong: "absorbs C f F \<Longrightarrow> (\<And>M. C M \<Longrightarrow> F M = G M) \<Longrightarrow> absorbs C f G"
  unfolding absorbs_def by metis

lemma absorbs_single:
  assumes "length (present_field k b) < 2 ^ 63" and "0 < k" "k < 2 ^ 29"
    and "\<And>v d. identify_store_field (of_nat k) v d = Some (LIBP2P_IDENTIFY_OK, u v d)"
    and "\<And>full v d. read_message full (u v d) = F (view_bytes full v) (read_message full d)"
  shows "absorbs C (present_field k b) (\<lambda>M. if identify_bytes_present b then F (contents b) M else M)"
  using absorbs_present [OF assms(2,3) present_small [OF assms(1)], of F C] assms(4,5) by blast

lemma absorbs_singles:
  "length (present_field 1 b) < 2 ^ 63 \<Longrightarrow>
     absorbs C (present_field 1 b) (\<lambda>M. if identify_bytes_present b then M\<lparr>im_public_key := contents b\<rparr> else M)"
  "length (present_field 4 b) < 2 ^ 63 \<Longrightarrow>
     absorbs C (present_field 4 b) (\<lambda>M. if identify_bytes_present b then M\<lparr>im_observed_addr := contents b\<rparr> else M)"
  "length (present_field 5 b) < 2 ^ 63 \<Longrightarrow>
     absorbs C (present_field 5 b) (\<lambda>M. if identify_bytes_present b then M\<lparr>im_protocol_version := contents b\<rparr> else M)"
  "length (present_field 6 b) < 2 ^ 63 \<Longrightarrow>
     absorbs C (present_field 6 b) (\<lambda>M. if identify_bytes_present b then M\<lparr>im_agent_version := contents b\<rparr> else M)"
proof -
  show "absorbs C (present_field 1 b) (\<lambda>M. if identify_bytes_present b then M\<lparr>im_public_key := contents b\<rparr> else M)"
    if "length (present_field 1 b) < 2 ^ 63"
    by (rule absorbs_single [OF that, where u = "\<lambda>v d. d\<lparr>im_public_key := v\<rparr>"])
      (simp_all add: identify_store_field_def identify_fields read_message_def)
  show "absorbs C (present_field 4 b) (\<lambda>M. if identify_bytes_present b then M\<lparr>im_observed_addr := contents b\<rparr> else M)"
    if "length (present_field 4 b) < 2 ^ 63"
    by (rule absorbs_single [OF that, where u = "\<lambda>v d. d\<lparr>im_observed_addr := v\<rparr>"])
      (simp_all add: identify_store_field_def identify_fields read_message_def)
  show "absorbs C (present_field 5 b) (\<lambda>M. if identify_bytes_present b then M\<lparr>im_protocol_version := contents b\<rparr> else M)"
    if "length (present_field 5 b) < 2 ^ 63"
    by (rule absorbs_single [OF that, where u = "\<lambda>v d. d\<lparr>im_protocol_version := v\<rparr>"])
      (simp_all add: identify_store_field_def identify_fields read_message_def)
  show "absorbs C (present_field 6 b) (\<lambda>M. if identify_bytes_present b then M\<lparr>im_agent_version := contents b\<rparr> else M)"
    if "length (present_field 6 b) < 2 ^ 63"
    by (rule absorbs_single [OF that, where u = "\<lambda>v d. d\<lparr>im_agent_version := v\<rparr>"])
      (simp_all add: identify_store_field_def identify_fields read_message_def)
qed

text \<open>The same for one message \<open>M\<close>.\<close>

definition reads_to ::
  "byte list \<Rightarrow> byte list libp2p_identify_message_t \<Rightarrow> byte list libp2p_identify_message_t \<Rightarrow> bool" where
  "reads_to img M M' = absorbs (\<lambda>M0. M0 = M) img (\<lambda>_. M')"

lemma reads_to_append: "reads_to f M M1 \<Longrightarrow> reads_to g M1 M2 \<Longrightarrow> reads_to (f @ g) M M2"
  unfolding reads_to_def by (erule (1) absorbs_append) (rule refl)

lemma reads_to_absorbs: "absorbs C f F \<Longrightarrow> C M \<Longrightarrow> F M = M' \<Longrightarrow> reads_to f M M'"
  unfolding reads_to_def using absorbs_cong [OF absorbs_weaken, of C f F "\<lambda>M0. M0 = M" "\<lambda>_. M'"] by auto

lemma update_absent:
  "im_public_key M = [] \<Longrightarrow> M = M\<lparr>im_public_key := []\<rparr>"
  "im_observed_addr M = [] \<Longrightarrow> M = M\<lparr>im_observed_addr := []\<rparr>"
  "im_protocol_version M = [] \<Longrightarrow> M = M\<lparr>im_protocol_version := []\<rparr>"
  "im_agent_version M = [] \<Longrightarrow> M = M\<lparr>im_agent_version := []\<rparr>"
  by (cases M; simp)+

lemma reads_to_singles:
  "length (present_field 1 b) < 2 ^ 63 \<Longrightarrow> im_public_key M = [] \<Longrightarrow>
     reads_to (present_field 1 b) M (M\<lparr>im_public_key := contents b\<rparr>)"
  "length (present_field 4 b) < 2 ^ 63 \<Longrightarrow> im_observed_addr M = [] \<Longrightarrow>
     reads_to (present_field 4 b) M (M\<lparr>im_observed_addr := contents b\<rparr>)"
  "length (present_field 5 b) < 2 ^ 63 \<Longrightarrow> im_protocol_version M = [] \<Longrightarrow>
     reads_to (present_field 5 b) M (M\<lparr>im_protocol_version := contents b\<rparr>)"
  "length (present_field 6 b) < 2 ^ 63 \<Longrightarrow> im_agent_version M = [] \<Longrightarrow>
     reads_to (present_field 6 b) M (M\<lparr>im_agent_version := contents b\<rparr>)"
  using absorbs_singles [of b "\<lambda>_. True"] absent_contents [of b] update_absent [of M]
  by (auto intro: reads_to_absorbs)

lemma image_read:
  assumes ok: "message_ok m" and small: "length (identify_image m) < 2 ^ 63"
  shows "reads_to (identify_image m) blank_message (local_bytes m)"
proof -
  let ?as = "take (im_listen_addr_count m) (im_listen_addrs m)" and ?ps = "take (im_protocol_count m) (im_protocols m)"
  have len: "length ?as = im_listen_addr_count m" "length ?ps = im_protocol_count m" "im_listen_addr_count m \<le> 8"
    "im_protocol_count m \<le> 16" using ok by (simp_all add: message_ok_def)
  have s: "length (present_field 1 (im_public_key m)) < 2 ^ 63" "length (array_fields 2 ?as) < 2 ^ 63"
    "length (array_fields 3 ?ps) < 2 ^ 63" "length (present_field 4 (im_observed_addr m)) < 2 ^ 63"
    "length (present_field 5 (im_protocol_version m)) < 2 ^ 63" "length (present_field 6 (im_agent_version m)) < 2 ^ 63"
    using small by (simp_all add: identify_image_def)
  define M1 where "M1 = blank_message\<lparr>im_public_key := contents (im_public_key m)\<rparr>"
  define M2 where "M2 = M1\<lparr>im_listen_addrs := map contents ?as, im_listen_addr_count := im_listen_addr_count m\<rparr>"
  define M3 where "M3 = M2\<lparr>im_protocols := map contents ?ps, im_protocol_count := im_protocol_count m\<rparr>"
  define M4 where "M4 = M3\<lparr>im_observed_addr := contents (im_observed_addr m)\<rparr>"
  define M5 where "M5 = M4\<lparr>im_protocol_version := contents (im_protocol_version m)\<rparr>"
  have 1: "reads_to (present_field 1 (im_public_key m)) blank_message M1"
    unfolding M1_def by (rule reads_to_singles(1) [OF s(1)]) (simp add: blank_message_def)
  have 2: "reads_to (array_fields 2 ?as) M1 M2"
    by (rule reads_to_absorbs [OF absorbs_addrs [OF s(2)]]) (simp_all only: M2_def M1_def len blank_message_def, simp_all add: len)
  have 3: "reads_to (array_fields 3 ?ps) M2 M3"
    by (rule reads_to_absorbs [OF absorbs_protocols [OF s(3)]])
      (simp_all only: M3_def M2_def M1_def len blank_message_def, simp_all add: len)
  have 4: "reads_to (present_field 4 (im_observed_addr m)) M3 M4"
    unfolding M4_def by (rule reads_to_singles(2) [OF s(4)]) (simp add: M3_def M2_def M1_def blank_message_def)
  have 5: "reads_to (present_field 5 (im_protocol_version m)) M4 M5"
    unfolding M5_def
    by (rule reads_to_singles(3) [OF s(5)]) (simp add: M4_def M3_def M2_def M1_def blank_message_def)
  have 6: "reads_to (present_field 6 (im_agent_version m)) M5 (M5\<lparr>im_agent_version := contents (im_agent_version m)\<rparr>)"
    by (rule reads_to_singles(4) [OF s(6)]) (simp add: M5_def M4_def M3_def M2_def M1_def blank_message_def)
  have "M5\<lparr>im_agent_version := contents (im_agent_version m)\<rparr> = local_bytes m"
    by (simp add: M5_def M4_def M3_def M2_def M1_def blank_message_def local_bytes_def)
  with 6 have 6: "reads_to (present_field 6 (im_agent_version m)) M5 (local_bytes m)" by simp
  show ?thesis unfolding identify_image_def
    by (rule reads_to_append [OF 1 reads_to_append [OF 2 reads_to_append [OF 3 reads_to_append [OF 4
          reads_to_append [OF 5 6]]]]])
qed

text \<open>Bytes behind the positions of a message do not matter.\<close>

lemma view_bytes_take: "view_in n v \<Longrightarrow> view_bytes (take n full) v = view_bytes full v"
  by (cases v) (auto simp: drop_take min_def)

lemma list_all_take: "list_all P xs \<Longrightarrow> list_all P (take k xs)"
  by (auto simp: list_all_iff dest: in_set_takeD)

lemma map_view_bytes_take:
  "list_all (view_in n) vs \<Longrightarrow> map (view_bytes (take n full)) vs = map (view_bytes full) vs"
  by (induction vs) (simp_all add: view_bytes_take)

lemma read_message_take: "decoded_ok n d \<Longrightarrow> read_message (take n full) d = read_message full d"
  by (simp add: read_message_def decoded_ok_def view_bytes_take map_view_bytes_take list_all_take)

lemma image_decoded:
  assumes ok: "message_ok m" and small: "length (identify_image m) < 2 ^ 63"
    and f: "drop at full = identify_image m @ r" and at: "at \<le> length full"
  shows "\<exists>d. identify_decode_loop (identify_image m) at (zero_identify_message None) = Some (LIBP2P_IDENTIFY_OK, d) \<and>
    decoded_ok (at + length (identify_image m)) d \<and> read_message full d = local_bytes m"
proof -
  let ?n = "at + length (identify_image m)"
  have len: "?n \<le> length full"
    using f at by (metis add_le_cancel_left le_add1 le_add_diff_inverse length_append length_drop)
  have cut: "drop at (take ?n full) = identify_image m @ []" using f by (simp add: drop_take)
  have at': "at \<le> length (take ?n full)" using len by simp
  from absorbsD [OF image_read [OF ok small, unfolded reads_to_def] cut at' decoded_ok_zero read_zero] obtain d where
    d: "identify_decode_loop (identify_image m @ []) at (zero_identify_message None) = identify_decode_loop [] ?n d"
    "decoded_ok (length (take ?n full)) d" "read_message (take ?n full) d = local_bytes m" by blast
  have "identify_decode_loop [] ?n d = Some (LIBP2P_IDENTIFY_OK, d)" by (simp add: identify_decode_loop.simps)
  with d len read_message_take [of ?n d full] show ?thesis by auto
qed

lemma frame_decoded:
  assumes ok: "message_ok m" and small: "length (identify_image m) \<le> 2048" and ne: "identify_image m \<noteq> []"
  shows "\<exists>d. identify_frame_decode (identify_frame m @ r) old = Some (LIBP2P_IDENTIFY_OK, d) \<and>
    decoded_ok (length (identify_frame m)) d \<and> read_message (identify_frame m @ r) d = local_bytes m"
proof -
  let ?p = "uvarint_bytes (length (identify_image m))"
  have s: "length (identify_image m) < 2 ^ 63" using small by simp
  have dec: "libp2p_uvarint_decode (Buf (identify_frame m @ r)) =
      (LIBP2P_UVARINT_OK, of_nat (length (identify_image m)), length ?p)"
    using uvarint_decode_bytes [OF s, of "identify_image m @ r"] by (simp add: identify_frame_def)
  have u: "unat (of_nat (length (identify_image m)) :: u64) = length (identify_image m)"
    using s by (simp add: unat_of_nat)
  have nz: "(of_nat (length (identify_image m)) :: u64) \<noteq> 0" using u ne by (metis length_0_conv unat_0)
  have "drop (length ?p) (identify_frame m @ r) = identify_image m @ r" by (simp add: identify_frame_def)
  from image_decoded [OF ok s this] obtain d where
    "identify_decode_loop (identify_image m) (length ?p) (zero_identify_message None) = Some (LIBP2P_IDENTIFY_OK, d)"
    "decoded_ok (length ?p + length (identify_image m)) d" "read_message (identify_frame m @ r) d = local_bytes m"
    by (auto simp: identify_frame_def)
  then show ?thesis
    using dec u nz ne small
    by (simp add: identify_frame_decode_def identify_limits libp2p_identify_message_decode_def identify_frame_def)
qed

lemma uvarint_prefix_truncated:
  assumes "k < length (uvarint_bytes n)" and "n < 2 ^ 63"
  shows "fst (libp2p_uvarint_decode (Buf (take k (uvarint_bytes n)))) = LIBP2P_UVARINT_ERR_TRUNCATED"
proof -
  have big: "i < length (uvarint_bytes n) - 1 \<Longrightarrow> 128 \<le> unat (uvarint_bytes n ! i)" for i
  proof (induction n arbitrary: i rule: uvarint_bytes.induct)
    case (1 n)
    show ?case
    proof (cases "n < 128")
      case True
      with 1(2) show ?thesis by (simp add: uvarint_bytes_small)
    next
      case False
      have "n mod 128 + 128 < 256" by simp
      then have b: "unat (of_nat (n mod 128 + 128) :: byte) = n mod 128 + 128"
        using unat_of_nat [of "n mod 128 + 128", where 'a = 8] by (simp del: of_nat_add)
      show ?thesis
        using 1(1) [OF False] 1(2) b False by (cases i) (simp_all add: uvarint_bytes_big)
    qed
  qed
  have tw: "takeWhile (\<lambda>b. 128 \<le> unat b) (take k (uvarint_bytes n)) = take k (uvarint_bytes n)"
    using big assms(1) by (auto simp: takeWhile_eq_all_conv in_set_conv_nth)
  have "k < 9" using assms uvarint_length_9 [of n] by simp
  then show ?thesis
    using uvarint_decode_loop_err [of 0 "take k (uvarint_bytes n)" 0 0, unfolded tw Let_def] assms(1)
    by (simp add: libp2p_uvarint_decode.simps)
qed

text \<open>A frame that has not arrived in full.\<close>

lemma frame_truncated:
  assumes "length (identify_image m) \<le> 2048" and k: "k < length (identify_frame m)"
  shows "identify_frame_decode (take k (identify_frame m)) old = Some (LIBP2P_IDENTIFY_ERR_TRUNCATED, old)"
proof -
  let ?p = "uvarint_bytes (length (identify_image m))"
  have s: "length (identify_image m) < 2 ^ 63" using assms(1) by simp
  show ?thesis
  proof (cases "k < length ?p")
    case True
    then have "fst (libp2p_uvarint_decode (Buf (take k ?p))) = LIBP2P_UVARINT_ERR_TRUNCATED"
      by (rule uvarint_prefix_truncated [OF _ s])
    then show ?thesis
      using True by (cases "libp2p_uvarint_decode (Buf (take k ?p))") (simp add: identify_frame_decode_def identify_frame_def)
  next
    case False
    then have t: "take k (identify_frame m) = ?p @ take (k - length ?p) (identify_image m)"
      by (simp add: identify_frame_def)
    have u: "unat (of_nat (length (identify_image m)) :: u64) = length (identify_image m)"
      using s by (simp add: unat_of_nat)
    show ?thesis
      using k assms(1) False unfolding t
      by (simp add: identify_frame_decode_def uvarint_decode_bytes [OF s] u identify_limits identify_frame_def)
        (auto simp: min_def)
  qed
qed

end
