(* ===== verification/Identify_Invariant.thy ===== *)
theory Identify_Invariant
  imports Identify Identify_Laws
begin

text \<open>
  The invariant of the identify protocol and that every call and callback keeps it: the buffers and counts,
  the positions of decoded messages, and for the streams in use that a reader has exactly what it read and
  a writer has sent the start of the frame of a message of its own.
\<close>

subsection \<open>What the protocol relies on\<close>

definition identify_host_ok ::
  "'h identify_host \<Rightarrow> ('h \<Rightarrow> nat \<Rightarrow> byte list) \<Rightarrow> ('h \<Rightarrow> nat \<Rightarrow> byte list) \<Rightarrow> bool" where
  "identify_host_ok ops reads writes \<longleftrightarrow> stream_host_ok ops reads writes \<and>
     (\<forall>h n. length (snd (host_listen_multiaddr ops h n)) \<le> n) \<and>
     (\<forall>h c n. length (snd (host_conn_remote_multiaddr ops h c n)) \<le> n)"

lemma identify_stream_host: "identify_host_ok ops reads writes \<Longrightarrow> stream_host_ok ops reads writes"
  by (simp add: identify_host_ok_def)

lemmas identify_quiet = stream_quiet_laws [OF identify_stream_host]

subsection \<open>The invariant\<close>

text \<open>A message that the protocol may send: complete, with the fields of the configuration.\<close>

definition message_from :: "libp2p_identify_config_t \<Rightarrow> identify_local \<Rightarrow> bool" where
  "message_from cfg m \<longleftrightarrow> message_ok m \<and> identify_image m \<noteq> [] \<and>
     im_protocol_version m = im_protocol_version (local_message cfg) \<and>
     im_agent_version m = im_agent_version (local_message cfg) \<and>
     im_public_key m = im_public_key (local_message cfg)"

definition id_slot_ok :: "libp2p_identify_stream_state_t \<Rightarrow> bool" where
  "id_slot_ok s \<longleftrightarrow> length (is_rx s) = 2048 \<and> length (is_tx s) = 2048 \<and> is_rx_len s \<le> 2048 \<and>
     is_tx_len s \<le> 2048 \<and> decoded_ok 2048 (is_decoded s) \<and>
     (is_state s \<in> {LIBP2P_IDENTIFY_SLOT_OPENING_IDENTIFY, LIBP2P_IDENTIFY_SLOT_OPENING_PUSH} \<longrightarrow> is_rx_len s = 0)"

definition id_events_ok :: "libp2p_identify_t \<Rightarrow> bool" where
  "id_events_ok p \<longleftrightarrow> length (id_events p) = 16 \<and> id_event_head p < 16 \<and> id_event_len p \<le> 16 \<and>
     (\<forall>q \<in> set (id_events p). decoded_ok 2048 (ie_message (iq_event q)))"

definition id_ok :: "libp2p_identify_t \<Rightarrow> bool" where
  "id_ok p \<longleftrightarrow> length (id_streams p) = 16 \<and> id_events_ok p \<and> (\<forall>s \<in> set (id_streams p). id_slot_ok s)"

definition id_active :: "libp2p_identify_stream_state_t \<Rightarrow> bool" where
  "id_active s \<longleftrightarrow> is_state s \<in> {LIBP2P_IDENTIFY_SLOT_READING, LIBP2P_IDENTIFY_SLOT_WRITING}"

definition id_wire ::
  "libp2p_identify_config_t \<Rightarrow> libp2p_identify_stream_state_t \<Rightarrow> byte list \<Rightarrow> byte list \<Rightarrow> bool" where
  "id_wire cfg s r w \<longleftrightarrow>
     (is_state s = LIBP2P_IDENTIFY_SLOT_READING \<longrightarrow> r = take (is_rx_len s) (is_rx s)) \<and>
     (is_state s = LIBP2P_IDENTIFY_SLOT_WRITING \<longrightarrow> (\<exists>m. message_from cfg m \<and>
        take (is_tx_len s) (is_tx s) = identify_frame m \<and> is_tx_pos s \<le> is_tx_len s \<and>
        w = take (is_tx_pos s) (identify_frame m)))"

definition id_inv ::
  "libp2p_identify_config_t \<Rightarrow> ('h \<Rightarrow> nat \<Rightarrow> byte list) \<Rightarrow> ('h \<Rightarrow> nat \<Rightarrow> byte list) \<Rightarrow> libp2p_identify_t \<Rightarrow> 'h \<Rightarrow> bool" where
  "id_inv cfg reads writes p h \<longleftrightarrow> id_ok p \<and> id_config p = cfg \<and>
     slots_wire id_active is_stream (id_wire cfg) (reads h) (writes h) (id_streams p)"

text \<open>\<open>id_change p i s' p'\<close>: slot \<open>i\<close> becomes \<open>s'\<close>, and the events may change.\<close>

definition id_change :: "libp2p_identify_t \<Rightarrow> nat \<Rightarrow> libp2p_identify_stream_state_t \<Rightarrow> libp2p_identify_t \<Rightarrow> bool" where
  "id_change p i s' p' \<longleftrightarrow> id_streams p' = (id_streams p)[i := s'] \<and> id_config p' = id_config p \<and> id_events_ok p'"

lemma id_change_upd:
  "id_change p i s p1 \<Longrightarrow> id_change p i (f (id_streams p1 ! i)) (upd_identify_slot i f p1)"
  by (simp add: id_change_def upd_identify_slot_def id_events_ok_def)

lemma id_change_refl: "id_ok p \<Longrightarrow> id_change p i (id_streams p ! i) p"
  by (simp add: id_change_def id_ok_def)

lemma id_change_at: "id_ok p \<Longrightarrow> i < 16 \<Longrightarrow> id_change p i s p1 \<Longrightarrow> id_streams p1 ! i = s"
  by (simp add: id_change_def id_ok_def)

lemma id_change_step:
  "id_ok p \<Longrightarrow> i < 16 \<Longrightarrow> id_change p i s p1 \<Longrightarrow> id_change p i (f s) (upd_identify_slot i f p1)"
  using id_change_upd [of p i s p1 f] id_change_at [of p i s p1] by simp

lemma id_slot_at: "id_inv cfg reads writes p h \<Longrightarrow> i < 16 \<Longrightarrow> id_slot_ok (id_streams p ! i)"
  by (simp add: id_inv_def id_ok_def)

lemma id_inv_ok: "id_inv cfg reads writes p h \<Longrightarrow> id_ok p"
  by (simp add: id_inv_def)

lemma id_ok_change: "id_ok p \<Longrightarrow> id_change p i s' p' \<Longrightarrow> id_slot_ok s' \<Longrightarrow> id_ok p'"
  by (auto simp: id_ok_def id_change_def dest!: set_update_subset_insert [THEN subsetD])

lemma id_inv_change:
  assumes "id_inv cfg reads writes p h" and "i < 16" and "id_change p i s' p'" and "id_slot_ok s'"
    and "id_active s' \<Longrightarrow> id_active (id_streams p ! i) \<and> is_stream s' = is_stream (id_streams p ! i) \<and>
      id_wire cfg s' (reads h' (the (is_stream s'))) (writes h' (the (is_stream s')))"
    and "\<And>t. \<not> (id_active (id_streams p ! i) \<and> is_stream (id_streams p ! i) = Some t) \<Longrightarrow>
      reads h' t = reads h t \<and> writes h' t = writes h t"
  shows "id_inv cfg reads writes p' h'"
proof -
  have ok: "id_ok p" and w: "slots_wire id_active is_stream (id_wire cfg) (reads h) (writes h) (id_streams p)"
    and i: "i < length (id_streams p)" using assms(1,2) by (simp_all add: id_inv_def id_ok_def)
  from slots_wire_change [OF w i assms(5,6)] ok id_ok_change [OF ok assms(3,4)] assms(1,3)
  show ?thesis by (simp add: id_inv_def id_change_def)
qed

lemma id_inv_quiet:
  "id_inv cfg reads writes p h \<Longrightarrow> reads h' = reads h \<Longrightarrow> writes h' = writes h \<Longrightarrow> id_inv cfg reads writes p h'"
  by (simp add: id_inv_def)

lemma id_inv_active:
  assumes "id_inv cfg reads writes p h" and "i < 16" and "id_active (id_streams p ! i)"
  obtains t where "is_stream (id_streams p ! i) = Some t"
    and "id_wire cfg (id_streams p ! i) (reads h t) (writes h t)"
  using slots_wire_active [of id_active is_stream "id_wire cfg" "reads h" "writes h" "id_streams p" i] assms
  by (auto simp: id_inv_def id_ok_def)

lemma id_inv_deactivate:
  assumes "id_inv cfg reads writes p h" and "i < 16" and "id_change p i s' p'" and "id_slot_ok s'"
    and "\<not> id_active s'" and "reads h' = reads h \<and> writes h' = writes h"
  shows "id_inv cfg reads writes p' h'"
  using assms by (intro id_inv_change [OF assms(1-4)]) auto

subsection \<open>Events\<close>

lemma id_push_change:
  assumes "id_ok p" and "decoded_ok 2048 (ie_message e)"
  shows "id_change p i (id_streams p ! i) (snd (identify_event_push p j e))"
  using assms
  by (auto simp: id_change_def identify_event_push_def id_ok_def id_events_ok_def identify_constants Let_def
      dest!: set_update_subset_insert [THEN subsetD])

text \<open>A slot that gets an event: pushed, in state EVENTED.\<close>

lemma id_evented_change:
  assumes ok: "id_ok p" and i: "i < 16" and e: "decoded_ok 2048 (ie_message e)"
  shows "id_change p i ((id_streams p ! i)\<lparr>is_state := LIBP2P_IDENTIFY_SLOT_EVENTED\<rparr>)
    (upd_identify_slot i (is_state_update (\<lambda>_. LIBP2P_IDENTIFY_SLOT_EVENTED)) (snd (identify_event_push p j e)))"
  using id_change_step [OF ok i id_push_change [OF ok e], of "is_state_update (\<lambda>_. LIBP2P_IDENTIFY_SLOT_EVENTED)" j]
  by simp

lemma evented_slot_ok:
  "id_slot_ok s \<Longrightarrow> id_slot_ok (s\<lparr>is_state := LIBP2P_IDENTIFY_SLOT_EVENTED\<rparr>)"
  "id_slot_ok s \<Longrightarrow> id_slot_ok (s\<lparr>is_state := LIBP2P_IDENTIFY_SLOT_EVENTED, is_stream := x\<rparr>)"
  by (simp_all add: id_slot_ok_def)

lemma zero_event_message [simp]: "ie_message zero_identify_event = zero_identify_message None"
  by (simp add: zero_identify_event_def)

text \<open>A step that succeeds in the model and keeps the invariant.\<close>

definition id_keeps ::
  "libp2p_identify_config_t \<Rightarrow> ('h \<Rightarrow> nat \<Rightarrow> byte list) \<Rightarrow> ('h \<Rightarrow> nat \<Rightarrow> byte list) \<Rightarrow>
   ('a \<times> libp2p_identify_t \<times> 'h) option \<Rightarrow> bool" where
  "id_keeps cfg reads writes m \<longleftrightarrow> (\<exists>e p' h'. m = Some (e, p', h') \<and> id_inv cfg reads writes p' h')"

lemma id_keeps_Some: "id_inv cfg reads writes p h \<Longrightarrow> id_keeps cfg reads writes (Some (e, p, h))"
  by (simp add: id_keeps_def)

lemma id_fail_keeps:
  assumes H: "identify_host_ok ops reads writes" and inv: "id_inv cfg reads writes p h" and i: "i < 16"
  shows "id_keeps cfg reads writes (Some (identify_fail_stream ops p i reason h))"
proof -
  note ok = id_inv_ok [OF inv] and so = id_slot_at [OF inv i]
  define ev where "ev = zero_identify_event\<lparr>ie_type := LIBP2P_IDENTIFY_EVENT_ERROR,
    ie_stream := is_stream (id_streams p ! i), ie_direction := is_direction (id_streams p ! i),
    ie_reason := reason, ie_user_data := is_user_data (id_streams p ! i)\<rparr>"
  define p2 where "p2 = upd_identify_slot i (is_state_update (\<lambda>_. LIBP2P_IDENTIFY_SLOT_EVENTED))
    (snd (identify_event_push p i ev))"
  have c2: "id_change p i ((id_streams p ! i)\<lparr>is_state := LIBP2P_IDENTIFY_SLOT_EVENTED\<rparr>) p2"
    unfolding p2_def by (rule id_evented_change [OF ok i]) (simp add: ev_def)
  note c3 = id_change_step [OF ok i c2, of "is_stream_update (\<lambda>_. None)"]
  have q2: "id_inv cfg reads writes p2 h" if "\<not> is_stream (id_streams p ! i) \<noteq> None"
    using evented_slot_ok(1) [OF so] by (intro id_inv_deactivate [OF inv i c2]) (simp_all add: id_active_def)
  have q3: "id_inv cfg reads writes (upd_identify_slot i (is_stream_update (\<lambda>_. None)) p2) h'"
    if "reads h' = reads h \<and> writes h' = writes h" for h'
    using evented_slot_ok(2) [OF so] that by (intro id_inv_deactivate [OF inv i c3]) (simp_all add: id_active_def)
  obtain e p1 where push: "identify_event_push p i ev = (e, p1)" by (rule prod.exhaust)
  show ?thesis
    using i q2 q3
    by (auto simp: identify_fail_stream_def identify_constants Let_def ev_def [symmetric] push p2_def
        identify_quiet [OF H] intro!: id_keeps_Some)
qed

lemma id_emit_keeps:
  assumes inv: "id_inv cfg reads writes p h" and i: "i < 16" and f: "identify_emit_simple p i type = (e, p')"
  shows "id_inv cfg reads writes p' h"
proof -
  note ok = id_inv_ok [OF inv] and so = id_slot_at [OF inv i]
  have "\<exists>ev. decoded_ok 2048 (ie_message ev) \<and> p' = upd_identify_slot i
      (is_state_update (\<lambda>_. LIBP2P_IDENTIFY_SLOT_EVENTED)) (snd (identify_event_push p i ev))"
    using f i by (intro exI conjI) (auto simp: identify_emit_simple_def identify_constants Let_def case_prod_unfold)
  then obtain ev where "decoded_ok 2048 (ie_message ev)" and p': "p' = upd_identify_slot i
      (is_state_update (\<lambda>_. LIBP2P_IDENTIFY_SLOT_EVENTED)) (snd (identify_event_push p i ev))" by blast
  from id_evented_change [OF ok i this(1), of i] p'
  have c: "id_change p i ((id_streams p ! i)\<lparr>is_state := LIBP2P_IDENTIFY_SLOT_EVENTED\<rparr>) p'" by simp
  show ?thesis
    using evented_slot_ok(1) [OF so] by (intro id_inv_deactivate [OF inv i c]) (simp_all add: id_active_def)
qed

lemma id_received_keeps:
  assumes H: "identify_host_ok ops reads writes" and inv: "id_inv cfg reads writes p h" and i: "i < 16"
  shows "id_keeps cfg reads writes (Some (identify_emit_received ops p i h))"
proof -
  note ok = id_inv_ok [OF inv] and so = id_slot_at [OF inv i]
  define ev where "ev = zero_identify_event\<lparr>ie_type := LIBP2P_IDENTIFY_EVENT_RECEIVED,
    ie_stream := is_stream (id_streams p ! i), ie_direction := is_direction (id_streams p ! i),
    ie_message := is_decoded (id_streams p ! i), ie_reason := LIBP2P_IDENTIFY_OK,
    ie_user_data := is_user_data (id_streams p ! i)\<rparr>"
  have "decoded_ok 2048 (ie_message ev)" using so by (simp add: ev_def id_slot_ok_def)
  note c = id_evented_change [OF ok i this, of i]
  obtain e p1 where push: "identify_event_push p i ev = (e, p1)" by (rule prod.exhaust)
  have "id_inv cfg reads writes (upd_identify_slot i (is_state_update (\<lambda>_. LIBP2P_IDENTIFY_SLOT_EVENTED)) p1)
      (snd (host_finish ops h s))" for s
    using evented_slot_ok(1) [OF so] push
    by (intro id_inv_deactivate [OF inv i c [unfolded push snd_conv]]) (simp_all add: id_active_def identify_quiet [OF H])
  then show ?thesis
    by (simp add: identify_emit_received_def Let_def ev_def [symmetric] push id_keeps_Some)
qed

subsection \<open>Writing\<close>

text \<open>Simplification of both branches of a conditional without its condition.\<close>

lemma if_branches_cong: "b = c \<Longrightarrow> x = u \<Longrightarrow> y = v \<Longrightarrow> (if b then x else y) = (if c then u else v)"
  by simp

lemma id_write_keeps:
  assumes H: "identify_host_ok ops reads writes" and inv: "id_inv cfg reads writes p h" and i: "i < 16"
    and writing: "is_state (id_streams p ! i) = LIBP2P_IDENTIFY_SLOT_WRITING"
  shows "id_keeps cfg reads writes (identify_write_stream ops p i h)"
proof -
  define s where "s = id_streams p ! i"
  note ok = id_inv_ok [OF inv]
  have so: "id_slot_ok s" unfolding s_def by (rule id_slot_at [OF inv i])
  have act: "id_active (id_streams p ! i)" using writing by (simp add: id_active_def)
  from id_inv_active [OF inv i act] obtain t where t: "is_stream s = Some t"
    and wire: "id_wire cfg s (reads h t) (writes h t)" unfolding s_def by blast
  from wire writing obtain m where m: "message_from cfg m" "take (is_tx_len s) (is_tx s) = identify_frame m"
    "is_tx_pos s \<le> is_tx_len s" "writes h t = take (is_tx_pos s) (identify_frame m)"
    by (auto simp: id_wire_def s_def)
  define data where "data = drop (is_tx_pos s) (take (is_tx_len s) (is_tx s))"
  obtain e k h1 where w: "host_write ops h (Some t) data False = ((e, k), h1)" by (metis prod.exhaust)
  note law = stream_write_law [OF identify_stream_host [OF H] w]
  show ?thesis
  proof (cases "is_tx_pos s \<ge> is_tx_len s \<or> e = LIBP2P_HOST_ERR_WOULD_BLOCK \<or> e \<noteq> LIBP2P_HOST_OK")
    case True
    have q: "id_inv cfg reads writes p h1" if "e \<noteq> LIBP2P_HOST_OK"
      using law that by (intro id_inv_quiet [OF inv]) simp_all
    show ?thesis
      using True i so w t q inv
      by (auto simp: identify_write_stream_def identify_constants Let_def s_def [symmetric] data_def [symmetric]
          id_slot_ok_def intro: id_keeps_Some id_fail_keeps [OF H _ i])
  next
    case False
    then have e: "e = LIBP2P_HOST_OK" and room: "is_tx_pos s < is_tx_len s" by auto
    have len: "length data = is_tx_len s - is_tx_pos s" using so by (simp add: data_def id_slot_ok_def)
    have "k \<le> length data" using law e by simp
    with len room have k: "is_tx_pos s + k \<le> is_tx_len s" by arith
    define s1 where "s1 = s\<lparr>is_tx_pos := is_tx_pos s + k\<rparr>"
    define p1 where "p1 = upd_identify_slot i (is_tx_pos_update (\<lambda>_. is_tx_pos s + k)) p"
    have c: "id_change p i s1 p1"
      using id_change_upd [OF id_change_refl [OF ok], of i "is_tx_pos_update (\<lambda>_. is_tx_pos s + k)"]
      by (simp add: p1_def s1_def s_def)
    have "take (is_tx_pos s) (identify_frame m) @ take k data = take (is_tx_pos s + k) (identify_frame m)"
      by (simp add: data_def m(2) take_add)
    then have "id_wire cfg s1 (reads h1 t) (writes h1 t)"
      using law e m writing k unfolding id_wire_def by (auto simp: s1_def s_def)
    then have inv1: "id_inv cfg reads writes p1 h1"
      using law e t so act
      by (intro id_inv_change [OF inv i c]) (auto simp: s1_def s_def id_slot_ok_def id_active_def)
    have fin: "id_inv cfg reads writes p1 (snd (host_finish ops h1 x))" for x
      by (rule id_inv_quiet [OF inv1]) (simp_all add: identify_quiet [OF H])
    obtain e2 p2 where emit: "identify_emit_simple p1 i LIBP2P_IDENTIFY_EVENT_SENT = (e2, p2)" by (rule prod.exhaust)
    have "identify_write_stream ops p i h =
      (if is_tx_pos s + k = is_tx_len s then Some (e2, p2, snd (host_finish ops h1 (Some t)))
       else Some (LIBP2P_HOST_OK, p1, h1))"
      using room i so w e t emit
      by (simp add: identify_write_stream_def identify_constants Let_def s_def [symmetric] data_def [symmetric]
          p1_def [symmetric] id_slot_ok_def cong: if_branches_cong del: if_split)
    then show ?thesis by (auto intro: id_keeps_Some [OF inv1] id_keeps_Some [OF id_emit_keeps [OF fin i emit]])
  qed
qed

subsection \<open>Reading\<close>

lemma decoded_ok_mono: "decoded_ok n d \<Longrightarrow> n \<le> k \<Longrightarrow> decoded_ok k d"
proof -
  assume a: "decoded_ok n d" and le: "n \<le> k"
  have v: "view_in n v \<Longrightarrow> view_in k v" for v using le by (cases v) auto
  from a v show "decoded_ok k d" by (auto simp: decoded_ok_def list_all_iff)
qed

lemma frame_decode_ok:
  assumes "decoded_ok 2048 old" and "length inp \<le> 2048"
  shows "\<exists>e d. identify_frame_decode inp old = Some (e, d) \<and> decoded_ok 2048 d"
proof -
  obtain err len r where u: "libp2p_uvarint_decode (Buf inp) = (err, len, r)" by (metis prod_cases3)
  show ?thesis
  proof (cases "err = LIBP2P_UVARINT_OK \<and> unat len \<le> 2048 \<and> len \<noteq> 0 \<and> unat len \<le> length inp - r")
    case False
    with u assms(1) show ?thesis by (auto simp: identify_frame_decode_def identify_limits)
  next
    case True
    then have "r \<le> length inp" using uvarint_decode_ok(3) u by blast
    then have "r + length (take (unat len) (drop r inp)) \<le> 2048" using assms(2) by simp
    from identify_decode_loop_ok [OF decoded_ok_zero this] obtain e d where
      "identify_decode_loop (take (unat len) (drop r inp)) r (zero_identify_message None) = Some (e, d)"
      "decoded_ok 2048 d" by blast
    with True u assms(1) show ?thesis
      by (auto simp: identify_frame_decode_def identify_limits libp2p_identify_message_decode_def)
  qed
qed

text \<open>The state after the bytes of a read have been stored, and what follows.\<close>

definition after_read :: "libp2p_identify_t \<Rightarrow> nat \<Rightarrow> byte list \<Rightarrow> nat \<Rightarrow> libp2p_identify_t" where
  "after_read p i rx n = upd_identify_slot i (is_rx_len_update (\<lambda>_. n)) (upd_identify_slot i (is_rx_update (\<lambda>_. rx)) p)"

lemma read_after:
  assumes "i < 16" and "is_rx_len (id_streams p ! i) < 2048" and "length (is_rx (id_streams p ! i)) = 2048"
    and "host_read ops h (is_stream (id_streams p ! i)) (2048 - is_rx_len (id_streams p ! i)) =
      ((LIBP2P_HOST_OK, bs, fin), h1)"
    and "memcpy_at (is_rx (id_streams p ! i)) (is_rx_len (id_streams p ! i)) bs = Some rx"
    and "is_rx_len (id_streams p ! i) + length bs = n"
  shows "identify_read_stream ops p i h =
    (if length bs \<noteq> 0 \<or> fin then
       case identify_frame_decode (take n rx) (is_decoded (id_streams p ! i)) of
         None \<Rightarrow> None
       | Some (err, decoded) \<Rightarrow>
           let p3 = upd_identify_slot i (is_decoded_update (\<lambda>_. decoded)) (after_read p i rx n)
           in if err = LIBP2P_IDENTIFY_OK then Some (identify_emit_received ops p3 i h1)
              else if length bs \<noteq> 0 \<and> err = LIBP2P_IDENTIFY_ERR_TRUNCATED then Some (LIBP2P_HOST_OK, p3, h1)
              else Some (identify_fail_stream ops p3 i err h1)
     else Some (LIBP2P_HOST_OK, after_read p i rx n, h1))"
  using assms(1,2) unfolding assms(6) [symmetric] after_read_def
  by (simp add: identify_read_stream_def identify_constants Let_def assms(4,5))
    (auto split: option.split)

lemma id_read_law:
  assumes H: "identify_host_ok ops reads writes" and inv: "id_inv cfg reads writes p h" and i: "i < 16"
    and t: "is_stream (id_streams p ! i) = Some t" and room: "is_rx_len (id_streams p ! i) < 2048"
  shows "\<exists>e bs fin h1 rx. host_read ops h (Some t) (2048 - is_rx_len (id_streams p ! i)) = ((e, bs, fin), h1) \<and>
    memcpy_at (is_rx (id_streams p ! i)) (is_rx_len (id_streams p ! i)) bs = Some rx \<and> length rx = 2048 \<and>
    is_rx_len (id_streams p ! i) + length bs \<le> 2048 \<and>
    take (is_rx_len (id_streams p ! i)) rx = take (is_rx_len (id_streams p ! i)) (is_rx (id_streams p ! i)) \<and>
    take (is_rx_len (id_streams p ! i) + length bs) rx =
      take (is_rx_len (id_streams p ! i)) (is_rx (id_streams p ! i)) @ bs \<and>
    writes h1 = writes h \<and> reads h1 = (if e = LIBP2P_HOST_OK then (reads h)(t := reads h t @ bs) else reads h)"
proof -
  define s where "s = id_streams p ! i"
  have so: "id_slot_ok s" unfolding s_def by (rule id_slot_at [OF inv i])
  obtain e bs fin h1 where r: "host_read ops h (Some t) (2048 - is_rx_len s) = ((e, bs, fin), h1)"
    by (metis prod.exhaust)
  note law = stream_read_law [OF identify_stream_host [OF H] r]
  have fits: "is_rx_len s + length bs \<le> 2048" using law room unfolding s_def by auto
  have "memcpy_at (is_rx s) (is_rx_len s) bs =
      Some (take (is_rx_len s) (is_rx s) @ bs @ drop (is_rx_len s + length bs) (is_rx s))"
    using so fits by (simp add: memcpy_at_def id_slot_ok_def)
  then show ?thesis
    unfolding s_def [symmetric] using r law fits so
    by (intro exI [of _ e] exI [of _ bs] exI [of _ fin] exI [of _ h1]
        exI [of _ "take (is_rx_len s) (is_rx s) @ bs @ drop (is_rx_len s + length bs) (is_rx s)"])
      (simp add: id_slot_ok_def)
qed

lemma after_read_change:
  "id_ok p \<Longrightarrow> i < 16 \<Longrightarrow> id_change p i ((id_streams p ! i)\<lparr>is_rx := rx, is_rx_len := n\<rparr>) (after_read p i rx n)"
  unfolding after_read_def
  using id_change_step [OF _ _ id_change_step [OF _ _ id_change_refl, of p i "is_rx_update (\<lambda>_. rx)"],
      of "is_rx_len_update (\<lambda>_. n)"]
  by simp

lemma id_read_keeps:
  assumes H: "identify_host_ok ops reads writes" and inv: "id_inv cfg reads writes p h" and i: "i < 16"
    and reading: "is_state (id_streams p ! i) = LIBP2P_IDENTIFY_SLOT_READING"
  shows "id_keeps cfg reads writes (identify_read_stream ops p i h)"
proof (cases "is_rx_len (id_streams p ! i) < 2048")
  case False
  then have "is_rx_len (id_streams p ! i) = 2048" using id_slot_at [OF inv i] by (simp add: id_slot_ok_def)
  then show ?thesis
    using i id_fail_keeps [OF H inv i] by (simp add: identify_read_stream_def identify_constants Let_def)
next
  case room: True
  note ok = id_inv_ok [OF inv]
  have so: "id_slot_ok (id_streams p ! i)" by (rule id_slot_at [OF inv i])
  have act: "id_active (id_streams p ! i)" using reading by (simp add: id_active_def)
  from id_inv_active [OF inv i act] obtain t where t: "is_stream (id_streams p ! i) = Some t"
    and wire: "id_wire cfg (id_streams p ! i) (reads h t) (writes h t)" by blast
  from id_read_law [OF H inv i t room] obtain e bs fin h1 rx where
    r: "host_read ops h (Some t) (2048 - is_rx_len (id_streams p ! i)) = ((e, bs, fin), h1)" and
    cp: "memcpy_at (is_rx (id_streams p ! i)) (is_rx_len (id_streams p ! i)) bs = Some rx" and
    rx: "length rx = 2048" "is_rx_len (id_streams p ! i) + length bs \<le> 2048"
      "take (is_rx_len (id_streams p ! i)) rx = take (is_rx_len (id_streams p ! i)) (is_rx (id_streams p ! i))"
      "take (is_rx_len (id_streams p ! i) + length bs) rx =
        take (is_rx_len (id_streams p ! i)) (is_rx (id_streams p ! i)) @ bs" and
    log: "writes h1 = writes h" "reads h1 = (if e = LIBP2P_HOST_OK then (reads h)(t := reads h t @ bs) else reads h)"
    by metis
  have r': "host_read ops h (is_stream (id_streams p ! i)) (2048 - is_rx_len (id_streams p ! i)) = ((e, bs, fin), h1)"
    using r t by simp
  show ?thesis
  proof (cases "e = LIBP2P_HOST_OK")
    case False
    define p1 where "p1 = upd_identify_slot i (is_rx_update (\<lambda>_. rx)) p"
    have c: "id_change p i ((id_streams p ! i)\<lparr>is_rx := rx\<rparr>) p1"
      unfolding p1_def by (rule id_change_step [OF ok i id_change_refl [OF ok]])
    have q: "id_inv cfg reads writes p1 h1"
      using so rx wire reading t log False act
      by (intro id_inv_change [OF inv i c]) (auto simp: id_slot_ok_def id_wire_def id_active_def)
    show ?thesis
      using False i room
      by (auto simp: identify_read_stream_def identify_constants Let_def r' cp p1_def [symmetric]
          intro: id_keeps_Some [OF q] id_fail_keeps [OF H q i])
  next
    case True
    define n where "n = is_rx_len (id_streams p ! i) + length bs"
    define p2 where "p2 = after_read p i rx n"
    note c = after_read_change [OF ok i, where rx = rx and n = n]
    have q: "id_inv cfg reads writes p2 h1"
      unfolding p2_def
      using so rx wire reading t log True act
      by (intro id_inv_change [OF inv i c]) (auto simp: id_slot_ok_def id_wire_def id_active_def n_def)
    note ok2 = id_inv_ok [OF q]
    have n: "length (take n rx) \<le> 2048" using rx by (simp add: n_def)
    have "decoded_ok 2048 (is_decoded (id_streams p ! i))" using so by (simp add: id_slot_ok_def)
    from frame_decode_ok [OF this n] obtain e3 d where
      d: "identify_frame_decode (take n rx) (is_decoded (id_streams p ! i)) = Some (e3, d)" "decoded_ok 2048 d" by blast
    define p3 where "p3 = upd_identify_slot i (is_decoded_update (\<lambda>_. d)) p2"
    have c3: "id_change p2 i ((id_streams p2 ! i)\<lparr>is_decoded := d\<rparr>) p3"
      unfolding p3_def by (rule id_change_step [OF ok2 i id_change_refl [OF ok2]])
    have at2: "id_streams p2 ! i = (id_streams p ! i)\<lparr>is_rx := rx, is_rx_len := n\<rparr>"
      unfolding p2_def by (rule id_change_at [OF ok i c])
    have act2: "id_active (id_streams p2 ! i)" using at2 act by (simp add: id_active_def)
    from id_inv_active [OF q i act2] obtain u where u: "is_stream (id_streams p2 ! i) = Some u"
      "id_wire cfg (id_streams p2 ! i) (reads h1 u) (writes h1 u)" by blast
    have q3: "id_inv cfg reads writes p3 h1"
      using id_slot_at [OF q i] d(2) u act2
      by (intro id_inv_change [OF q i c3]) (auto simp: id_slot_ok_def id_wire_def id_active_def)
    have "length (is_rx (id_streams p ! i)) = 2048" using so by (simp add: id_slot_ok_def)
    note run = read_after [OF i room this r' [unfolded True] cp n_def [symmetric]]
    show ?thesis
      unfolding run d(1) p2_def [symmetric] Let_def
      by (auto simp: p3_def [symmetric] intro: id_keeps_Some [OF q] id_keeps_Some [OF q3] id_fail_keeps [OF H q3 i]
          id_received_keeps [OF H q3 i])
  qed
qed

end
