(* ===== verification/Identify_Reach.thy ===== *)
theory Identify_Reach
  imports Identify_Invariant
begin

text \<open>
  Every call and every callback of the identify protocol keeps the invariant, so every reachable state
  satisfies it and no access leaves a buffer.
\<close>

subsection \<open>The message that is sent\<close>

lemma build_law:
  assumes H: "identify_host_ok ops reads writes"
  shows "\<exists>e m. identify_build_tx_message ops p h stream = Some (e, m) \<and>
    (e = LIBP2P_IDENTIFY_OK \<longrightarrow> message_from (id_config p) m)"
proof -
  obtain e1 addr where a: "host_listen_multiaddr ops h 256 = (e1, addr)" by (rule prod.exhaust)
  obtain e2 ids where p: "host_registered_protocols ops h = (e2, ids)" by (rule prod.exhaust)
  obtain e3 conn where c: "host_stream_conn ops h stream = (e3, conn)" by (rule prod.exhaust)
  obtain e4 obs where o: "host_conn_remote_multiaddr ops h conn 256 = (e4, obs)" by (rule prod.exhaust)
  have la: "length addr \<le> 256" and lo: "length obs \<le> 256"
    using H a o unfolding identify_host_ok_def by (metis snd_conv)+
  have ma: "memcpy_at (replicate 256 (0 :: byte)) 0 addr \<noteq> None" "memcpy_at (replicate 256 (0 :: byte)) 0 obs \<noteq> None"
    using la lo by (simp_all add: memcpy_at_def)
  have cp: "clen ids \<le> 16 \<Longrightarrow> \<exists>xs. memcpy_at (replicate 16 (Null 0)) 0 (contents ids) = Some xs \<and> length xs = 16"
    by (cases ids) (auto simp: memcpy_at_def)
  have img: "identify_bytes_present (im_public_key m) \<Longrightarrow> identify_image m \<noteq> []" for m
    by (simp add: identify_image_def present_field_def)
  show ?thesis
  proof (cases "clen ids \<le> 16")
    case False
    then show ?thesis using a p ma
      by (auto simp: identify_build_tx_message_def identify_constants Let_def)
  next
    case True
    from cp [OF this] obtain xs where xs: "memcpy_at (replicate 16 (Null 0)) 0 (contents ids) = Some xs"
      "length xs = 16" by blast
    define m0 where "m0 = (local_message (id_config p))\<lparr>im_listen_addrs := replicate 8 (Null 0),
      im_protocols := replicate 16 (Null 0), im_observed_addr := Null 0, im_listen_addr_count := 0,
      im_protocol_count := 0\<rparr>"
    define m1 where "m1 = m0\<lparr>im_listen_addrs := (im_listen_addrs m0)[0 := Buf addr], im_listen_addr_count := 1\<rparr>"
    define m2 where "m2 = m1\<lparr>im_protocols := xs, im_protocol_count := clen ids\<rparr>"
    define m3 where "m3 = m2\<lparr>im_observed_addr := Buf obs\<rparr>"
    have pr: "im_protocols m1 = replicate 16 (Null 0)" by (simp add: m1_def m0_def)
    have m3: "message_from (id_config p) m3" if "identify_message_validate_local (Some m3) = LIBP2P_IDENTIFY_OK"
      using that xs(2) True img [of m3]
      by (simp add: identify_message_validate_local_def message_from_def message_ok_def m3_def m2_def m1_def m0_def
          split: if_splits)
    obtain y where y: "memcpy_at (replicate 256 (0 :: byte)) 0 addr = Some y" using ma(1) by blast
    obtain z where z: "memcpy_at (replicate 256 (0 :: byte)) 0 obs = Some z" using ma(2) by blast
    have run: "identify_build_tx_message ops p h stream =
      (if identify_host_to_err e1 \<noteq> LIBP2P_IDENTIFY_OK then Some (identify_host_to_err e1, m0)
       else if identify_host_to_err e2 \<noteq> LIBP2P_IDENTIFY_OK then Some (identify_host_to_err e2, m1)
       else if clen ids \<noteq> 0 \<and> is_null ids then Some (LIBP2P_IDENTIFY_ERR_INVALID_ARG, m1)
       else if identify_host_to_err e3 \<noteq> LIBP2P_IDENTIFY_OK then Some (identify_host_to_err e3, m2)
       else if identify_host_to_err e4 \<noteq> LIBP2P_IDENTIFY_OK then Some (identify_host_to_err e4, m2)
       else if im_listen_addr_count m3 = 0 \<or> im_protocol_count m3 = 0 then Some (LIBP2P_IDENTIFY_ERR_INVALID_ARG, m3)
       else Some (identify_message_validate_local (Some m3), m3))"
      using True
      by (simp only: identify_build_tx_message_def identify_constants m0_def [symmetric] Let_def a p c o y z
          prod.case bind.bind_lunit m1_def [symmetric] pr xs(1) m2_def [symmetric] m3_def [symmetric] not_less [symmetric] if_False simp_thms)
    show ?thesis unfolding run using m3 by auto
  qed
qed

text \<open>The length prefix that the send buffer of a slot gets.\<close>

lemma prefix_law:
  assumes "n \<le> SIZE_MAX" and "length tx = 2048"
  shows "\<exists>tx1. libp2p_uvarint_encode (of_nat n) (Buf tx) =
      Some (if n < 2 ^ 63 then LIBP2P_UVARINT_OK else LIBP2P_UVARINT_ERR_OVERFLOW, length (uvarint_bytes n), Buf tx1) \<and>
    length tx1 = 2048 \<and> (n < 2 ^ 63 \<longrightarrow> take (length (uvarint_bytes n)) tx1 = uvarint_bytes n)"
proof -
  have u: "unat (of_nat n :: u64) = n" using assms(1) by (rule unat_of_nat_size)
  note enc = uvarint_encode_correct [of "of_nat n" "Buf tx", unfolded u Let_def]
  have a9: "n < 2 ^ 63 \<Longrightarrow> length (uvarint_bytes n) \<le> 9" using uvarint_length_9 [of n] by simp
  show ?thesis
    by (rule exI [of _ "if n < 2 ^ 63 then uvarint_bytes n @ drop (length (uvarint_bytes n)) tx else tx"])
      (cases "n < 2 ^ 63"; use enc a9 assms(2) in simp)
qed

text \<open>Only slots change.\<close>

definition same_events :: "libp2p_identify_t \<Rightarrow> libp2p_identify_t \<Rightarrow> bool" where
  "same_events p p' \<longleftrightarrow> id_events p' = id_events p \<and> id_event_head p' = id_event_head p \<and>
     id_event_len p' = id_event_len p"

lemma same_events_upd [simp]: "same_events p (upd_identify_slot i f p') = same_events p p'"
  by (simp add: same_events_def upd_identify_slot_def)

lemma same_events_refl [simp]: "same_events p p"
  by (simp add: same_events_def)

lemma same_events_trans: "same_events p p' \<Longrightarrow> same_events p' p'' \<Longrightarrow> same_events p p''"
  by (simp add: same_events_def)

text \<open>A message whose frame fits is put into the send buffer.\<close>

lemma prepare_ready:
  assumes inv: "id_inv cfg reads writes p h" and i: "i < 16"
    and b: "identify_build_tx_message ops p h' (is_stream (id_streams p ! i)) = Some (LIBP2P_IDENTIFY_OK, m)"
    and mok: "message_ok m" and fits: "length (identify_frame m) \<le> 2048"
  shows "\<exists>p' a. identify_prepare_tx ops p i h' = Some (LIBP2P_IDENTIFY_OK, p') \<and>
    id_change p i ((id_streams p ! i)\<lparr>is_tx := a, is_tx_len := length (identify_frame m), is_tx_pos := 0\<rparr>) p' \<and>
    length a = 2048 \<and> take (length (identify_frame m)) a = identify_frame m \<and> same_events p p'"
proof -
  define s where "s = id_streams p ! i"
  define n where "n = length (identify_image m)"
  define a where "a = length (uvarint_bytes n)"
  note ok = id_inv_ok [OF inv]
  have tx: "length (is_tx s) = 2048" using id_slot_at [OF inv i] by (simp add: id_slot_ok_def s_def)
  have len: "length (identify_frame m) = a + n" by (simp add: identify_frame_def a_def n_def)
  have small: "n < 2 ^ 63" "n \<le> SIZE_MAX" "a \<le> 2048" "n \<le> 2048 - a" using fits len by (simp_all add: SIZE_MAX_def)
  from prefix_law [OF small(2) tx] small(1) obtain tx1 where
    enc: "libp2p_uvarint_encode (of_nat n) (Buf (is_tx s)) = Some (LIBP2P_UVARINT_OK, a, Buf tx1)" and
    tx1: "length tx1 = 2048" "take a tx1 = uvarint_bytes n" by (auto simp: a_def)
  have size: "libp2p_identify_message_size (Some m) 0 = (LIBP2P_IDENTIFY_OK, n)"
    unfolding n_def by (rule message_size_fits [OF mok]) (use small in \<open>simp add: n_def\<close>)
  have men: "libp2p_identify_message_encode (Some m) (Buf (drop a tx1)) =
      Some (LIBP2P_IDENTIFY_OK, n, Buf (identify_image m @ drop n (drop a tx1)))"
    using message_encode_fits [OF mok small(1) [unfolded n_def], of "Buf (drop a tx1)"] tx1 small by (simp add: n_def)
  define tx2 where "tx2 = take a tx1 @ identify_image m @ drop n (drop a tx1)"
  define p1 where "p1 = upd_identify_slot i (is_tx_update (\<lambda>_. tx1)) p"
  define p2 where "p2 = upd_identify_slot i (\<lambda>s. s\<lparr>is_tx := tx2, is_tx_len := n\<rparr>) p1"
  define p3 where "p3 = upd_identify_slot i (\<lambda>s. s\<lparr>is_tx_len := is_tx_len s + a, is_tx_pos := 0\<rparr>) p2"
  have "id_change p i (s\<lparr>is_tx := tx1\<rparr>) p1"
    using id_change_step [OF ok i id_change_refl [OF ok]] by (simp add: p1_def s_def)
  from id_change_step [OF ok i this, of "\<lambda>s. s\<lparr>is_tx := tx2, is_tx_len := n\<rparr>"]
  have "id_change p i (s\<lparr>is_tx := tx2, is_tx_len := n\<rparr>) p2" by (simp add: p2_def)
  from id_change_step [OF ok i this, of "\<lambda>s. s\<lparr>is_tx_len := is_tx_len s + a, is_tx_pos := 0\<rparr>"]
  have c: "id_change p i (s\<lparr>is_tx := tx2, is_tx_len := a + n, is_tx_pos := 0\<rparr>) p3"
    by (simp add: p3_def add.commute)
  have run: "identify_prepare_tx ops p i h' = Some (LIBP2P_IDENTIFY_OK, p3)"
    using b size enc tx1(1) small men
    by (simp add: identify_prepare_tx_def s_def [symmetric] p1_def p2_def p3_def Let_def tx2_def)
  have "length tx2 = 2048" "take (a + n) tx2 = identify_frame m"
    using tx1 small by (simp_all add: tx2_def identify_frame_def n_def a_def)
  moreover have "same_events p p3" by (simp add: p1_def p2_def p3_def)
  ultimately show ?thesis using run c unfolding s_def [symmetric] len by blast
qed

text \<open>The slot changes in its send buffer only.\<close>

lemma identify_prepare_law:
  assumes H: "identify_host_ok ops reads writes" and inv: "id_inv cfg reads writes p h" and i: "i < 16"
  shows "\<exists>e p' a b c. identify_prepare_tx ops p i h' = Some (e, p') \<and>
    id_change p i ((id_streams p ! i)\<lparr>is_tx := a, is_tx_len := b, is_tx_pos := c\<rparr>) p' \<and>
    length a = 2048 \<and> b \<le> 2048 \<and>
    (e = LIBP2P_IDENTIFY_OK \<longrightarrow> c = 0 \<and> (\<exists>m. message_from cfg m \<and> take b a = identify_frame m))"
proof -
  define s where "s = id_streams p ! i"
  note ok = id_inv_ok [OF inv]
  have so: "id_slot_ok s" unfolding s_def by (rule id_slot_at [OF inv i])
  have cfg: "id_config p = cfg" using inv by (simp add: id_inv_def)
  have same: "id_change p i (s\<lparr>is_tx := is_tx s, is_tx_len := is_tx_len s, is_tx_pos := is_tx_pos s\<rparr>) p"
    using id_change_refl [OF ok, of i] by (simp add: s_def)
  have none: ?thesis if "identify_prepare_tx ops p i h' = Some (e, p)" "e \<noteq> LIBP2P_IDENTIFY_OK" for e
    unfolding s_def [symmetric]
    by (rule exI [of _ e], rule exI [of _ p], rule exI [of _ "is_tx s"], rule exI [of _ "is_tx_len s"],
        rule exI [of _ "is_tx_pos s"]) (use same so that in \<open>simp add: id_slot_ok_def\<close>)
  from build_law [OF H, of p h' "is_stream s"] obtain e m where
    b: "identify_build_tx_message ops p h' (is_stream s) = Some (e, m)"
    "e = LIBP2P_IDENTIFY_OK \<Longrightarrow> message_from cfg m" using cfg by blast
  obtain e2 n where n: "libp2p_identify_message_size (Some m) 0 = (e2, n)" by (rule prod.exhaust)
  consider "\<not> (e = LIBP2P_IDENTIFY_OK \<and> e2 = LIBP2P_IDENTIFY_OK)"
    | "e = LIBP2P_IDENTIFY_OK" "e2 = LIBP2P_IDENTIFY_OK" "length (identify_frame m) \<le> 2048"
    | "e = LIBP2P_IDENTIFY_OK" "e2 = LIBP2P_IDENTIFY_OK" "\<not> length (identify_frame m) \<le> 2048" by blast
  then show ?thesis
  proof cases
    case 1
    then show ?thesis using none [of e] none [of e2] b n by (auto simp: identify_prepare_tx_def s_def)
  next
    case 2
    with b have m: "message_from cfg m" "message_ok m" by (simp_all add: message_from_def)
    from prepare_ready [OF inv i b(1) [unfolded 2(1) s_def] m(2) 2(3)] m(1) 2(3) show ?thesis by blast
  next
    case 3
    have len: "n = length (identify_image m)" "n \<le> SIZE_MAX" using message_size_sound n 3(2) by auto
    define a where "a = length (uvarint_bytes n)"
    have tx: "length (is_tx s) = 2048" using so by (simp add: id_slot_ok_def)
    from prefix_law [OF len(2) tx] obtain tx1 where
      enc: "libp2p_uvarint_encode (of_nat n) (Buf (is_tx s)) =
        Some (if n < 2 ^ 63 then LIBP2P_UVARINT_OK else LIBP2P_UVARINT_ERR_OVERFLOW, a, Buf tx1)" and
      tx1: "length tx1 = 2048" by (auto simp: a_def)
    define p1 where "p1 = upd_identify_slot i (is_tx_update (\<lambda>_. tx1)) p"
    have c1: "id_change p i (s\<lparr>is_tx := tx1\<rparr>) p1"
      using id_change_step [OF ok i id_change_refl [OF ok]] by (simp add: p1_def s_def)
    have "2048 < a + n" using 3(3) len(1) by (simp add: identify_frame_def a_def)
    then have "identify_prepare_tx ops p i h' = Some (LIBP2P_IDENTIFY_ERR_BUF_TOO_SMALL, p1)"
      using b(1) 3(1,2) n enc tx1 by (auto simp: identify_prepare_tx_def s_def [symmetric] p1_def Let_def)
    then show ?thesis
      unfolding s_def [symmetric] using c1 tx1 so
      by (intro exI [of _ LIBP2P_IDENTIFY_ERR_BUF_TOO_SMALL] exI [of _ p1] exI [of _ tx1]
          exI [of _ "is_tx_len s"] exI [of _ "is_tx_pos s"]) (simp add: id_slot_ok_def)
  qed
qed

subsection \<open>Streams that open\<close>

definition fresh_identify ::
  "('h \<Rightarrow> nat \<Rightarrow> byte list) \<Rightarrow> ('h \<Rightarrow> nat \<Rightarrow> byte list) \<Rightarrow> libp2p_identify_t \<Rightarrow> 'h \<Rightarrow> nat \<Rightarrow> bool" where
  "fresh_identify reads writes p h t \<longleftrightarrow> reads h t = [] \<and> writes h t = [] \<and>
     (\<forall>s \<in> set (id_streams p). id_active s \<longrightarrow> is_stream s \<noteq> Some t)"

lemma fresh_identify_change:
  "fresh_identify reads writes p h t \<Longrightarrow> reads h' = reads h \<Longrightarrow> writes h' = writes h \<Longrightarrow>
   id_change p i s p' \<Longrightarrow> \<not> id_active s \<Longrightarrow> fresh_identify reads writes p' h' t"
  by (auto simp: fresh_identify_def id_change_def dest!: set_update_subset_insert [THEN subsetD])

lemma id_inv_activate:
  assumes inv: "id_inv cfg reads writes p h" and i: "i < 16" and c: "id_change p i s' p'" and so: "id_slot_ok s'"
    and t: "is_stream s' = Some t" and wire: "id_wire cfg s' [] []" and fresh: "fresh_identify reads writes p h t"
  shows "id_inv cfg reads writes p' h"
proof -
  from inv have ok: "id_ok p" and w: "slots_wire id_active is_stream (id_wire cfg) (reads h) (writes h) (id_streams p)"
    and cfg: "id_config p = cfg" by (simp_all add: id_inv_def)
  have "slots_wire id_active is_stream (id_wire cfg) (reads h) (writes h) (id_streams p')"
    using slots_wire_activate [OF w, of i s' t] c t wire fresh ok i
    by (simp add: id_change_def id_ok_def fresh_identify_def)
  with id_ok_change [OF ok c so] c cfg show ?thesis by (simp add: id_inv_def id_change_def)
qed

lemma zero_identify_slot_ok: "id_slot_ok zero_identify_slot" and zero_identify_inactive: "\<not> id_active zero_identify_slot"
  by (simp_all add: id_slot_ok_def id_active_def zero_identify_slot_def identify_limits)

lemma id_find_slot:
  "id_inv cfg reads writes p h \<Longrightarrow> find_slot_loop test (id_streams p) 0 = Some i \<Longrightarrow> i < 16 \<and> test (id_streams p ! i)"
  using find_loop_Some [of test "id_streams p" 0 i] by (simp add: id_inv_def id_ok_def)

lemma id_alloc_law:
  assumes inv: "id_inv cfg reads writes p h" and a: "identify_alloc_slot p = Some (i, p1)"
  shows "i < 16 \<and> id_inv cfg reads writes p1 h \<and> id_streams p1 ! i = zero_identify_slot \<and>
    id_change p i zero_identify_slot p1"
proof -
  from a have find: "find_slot_loop (\<lambda>s. is_state s = LIBP2P_IDENTIFY_SLOT_FREE) (id_streams p) 0 = Some i"
    and p1: "p1 = upd_identify_slot i (\<lambda>_. zero_identify_slot) p"
    by (auto simp: identify_alloc_slot_def split: option.splits)
  have i: "i < 16" using id_find_slot [OF inv find] by simp
  note ok = id_inv_ok [OF inv]
  have c: "id_change p i zero_identify_slot p1"
    using id_change_step [OF ok i id_change_refl [OF ok], of "\<lambda>_. zero_identify_slot"] by (simp add: p1)
  have "id_inv cfg reads writes p1 h"
    by (rule id_inv_deactivate [OF inv i c zero_identify_slot_ok zero_identify_inactive]) simp
  with i c id_change_at [OF ok i c] show ?thesis by simp
qed

lemma identify_open_slot_law:
  assumes inv: "id_inv cfg reads writes p h" and o: "identify_open_slot p d k = Some (i, p1)"
    and fresh: "fresh_identify reads writes p h t"
  shows "i < 16 \<and> id_inv cfg reads writes p1 h \<and> fresh_identify reads writes p1 h t \<and>
    \<not> id_active (id_streams p1 ! i) \<and> is_rx_len (id_streams p1 ! i) = 0"
proof (cases "identify_alloc_slot p = Some (i, p1)")
  case True
  note law = id_alloc_law [OF inv True]
  then have "fresh_identify reads writes p1 h t"
    using fresh_identify_change [OF fresh refl refl _ zero_identify_inactive] by blast
  moreover have "is_rx_len zero_identify_slot = 0" by (simp add: zero_identify_slot_def)
  ultimately show ?thesis using law zero_identify_inactive by simp
next
  case False
  define st where "st = (if k = LIBP2P_IDENTIFY_STREAM_PUSH then LIBP2P_IDENTIFY_SLOT_OPENING_PUSH
    else LIBP2P_IDENTIFY_SLOT_OPENING_IDENTIFY)"
  have "d = LIBP2P_HOST_STREAM_OUTBOUND" using o False by (simp add: identify_open_slot_def split: if_splits)
  with o have "(case identify_find_opening p st of Some j \<Rightarrow> Some (j, p) | None \<Rightarrow> identify_alloc_slot p) = Some (i, p1)"
    by (simp add: identify_open_slot_def st_def)
  with False have "identify_find_opening p st = Some i" and p1: "p1 = p" by (simp_all split: option.splits)
  moreover have "st \<in> {LIBP2P_IDENTIFY_SLOT_OPENING_IDENTIFY, LIBP2P_IDENTIFY_SLOT_OPENING_PUSH}" by (simp add: st_def)
  ultimately have st: "st \<in> {LIBP2P_IDENTIFY_SLOT_OPENING_IDENTIFY, LIBP2P_IDENTIFY_SLOT_OPENING_PUSH}"
    "identify_find_opening p st = Some i" by blast+
  from id_find_slot [OF inv st(2) [unfolded identify_find_opening_def]] have i: "i < 16" "is_state (id_streams p ! i) = st"
    by simp_all
  have "\<not> id_active (id_streams p ! i)" using i(2) st(1) by (auto simp: id_active_def)
  moreover have "is_rx_len (id_streams p ! i) = 0"
    using id_slot_at [OF inv i(1)] i(2) st(1) unfolding id_slot_ok_def by blast
  ultimately show ?thesis using i(1) p1 inv fresh by blast
qed

lemma id_open_keeps:
  assumes H: "identify_host_ok ops reads writes" and inv: "id_inv cfg reads writes p h"
    and fresh: "fresh_identify reads writes p h t"
  shows "id_keeps cfg reads writes (identify_open_common ops p (Some t) d k h)"
proof (cases "identify_open_slot p d k")
  case None
  then show ?thesis by (simp add: identify_open_common_def id_keeps_Some [OF inv])
next
  case (Some a)
  then obtain i p1 where o: "identify_open_slot p d k = Some (i, p1)" by (cases a) simp
  note law = identify_open_slot_law [OF inv o fresh]
  have i: "i < 16" and inv1: "id_inv cfg reads writes p1 h" and fresh1: "fresh_identify reads writes p1 h t"
    and idle: "\<not> id_active (id_streams p1 ! i)" and empty: "is_rx_len (id_streams p1 ! i) = 0" using law by auto
  note ok1 = id_inv_ok [OF inv1]
  have so: "id_slot_ok (id_streams p1 ! i)" by (rule id_slot_at [OF inv1 i])
  define s2 where "s2 = (id_streams p1 ! i)\<lparr>is_kind := k, is_direction := d, is_stream := Some t\<rparr>"
  define p2 where "p2 = upd_identify_slot i (\<lambda>s. s\<lparr>is_kind := k, is_direction := d, is_stream := Some t\<rparr>) p1"
  have c2: "id_change p1 i s2 p2"
    unfolding p2_def s2_def by (rule id_change_step [OF ok1 i id_change_refl [OF ok1]])
  have s2: "id_slot_ok s2" "\<not> id_active s2" using so idle by (simp_all add: s2_def id_slot_ok_def id_active_def)
  have inv2: "id_inv cfg reads writes p2 h" by (rule id_inv_deactivate [OF inv1 i c2 s2]) simp
  have fresh2: "fresh_identify reads writes p2 h t" by (rule fresh_identify_change [OF fresh1 refl refl c2 s2(2)])
  obtain e h1 where u: "host_set_user_data ops h (Some t) (Some i) = (e, h1)" by (rule prod.exhaust)
  have log: "reads h1 = reads h" "writes h1 = writes h"
    using identify_quiet(5,6) [OF H, of h "Some t" "Some i"] u by simp_all
  have inv3: "id_inv cfg reads writes p2 h1" by (rule id_inv_quiet [OF inv2 log])
  note ok2 = id_inv_ok [OF inv2] and at2 = id_change_at [OF ok1 i c2]
  have fresh3: "fresh_identify reads writes p2 h1 t" using fresh2 log by (simp add: fresh_identify_def)
  show ?thesis
  proof (cases "identify_host_to_err e = LIBP2P_IDENTIFY_OK")
    case False
    then show ?thesis by (simp add: identify_open_common_def o u p2_def [symmetric] id_keeps_Some [OF inv3])
  next
    case e: True
    show ?thesis
    proof (cases "d = LIBP2P_HOST_STREAM_INBOUND \<and> k = LIBP2P_IDENTIFY_STREAM_IDENTIFY \<or>
        d = LIBP2P_HOST_STREAM_OUTBOUND \<and> k = LIBP2P_IDENTIFY_STREAM_PUSH")
      case False
      define p3 where "p3 = upd_identify_slot i (is_state_update (\<lambda>_. LIBP2P_IDENTIFY_SLOT_READING)) p2"
      have c3: "id_change p2 i (s2\<lparr>is_state := LIBP2P_IDENTIFY_SLOT_READING\<rparr>) p3"
        unfolding p3_def at2 [symmetric] by (rule id_change_step [OF ok2 i id_change_refl [OF ok2]])
      have q: "id_inv cfg reads writes p3 h1"
        using s2(1) empty
        by (intro id_inv_activate [OF inv3 i c3 _ _ _ fresh3]) (simp_all add: id_slot_ok_def s2_def id_wire_def)
      have "id_inv cfg reads writes p3 (snd (host_finish ops h1 x))" for x
        by (rule id_inv_quiet [OF q]) (simp_all add: identify_quiet [OF H])
      with q False e show ?thesis
        by (auto simp: identify_open_common_def o u p2_def [symmetric] p3_def [symmetric] intro!: id_keeps_Some)
    next
      case sends: True
      from identify_prepare_law [OF H inv3 i, of h1] obtain e3 p3 a b c where
        pr: "identify_prepare_tx ops p2 i h1 = Some (e3, p3)" and
        c3: "id_change p2 i (s2\<lparr>is_tx := a, is_tx_len := b, is_tx_pos := c\<rparr>) p3" and
        ab: "length a = 2048" "b \<le> 2048" and
        ready: "e3 = LIBP2P_IDENTIFY_OK \<Longrightarrow> c = 0 \<and> (\<exists>m. message_from cfg m \<and> take b a = identify_frame m)"
        unfolding at2 by blast
      define s3 where "s3 = s2\<lparr>is_tx := a, is_tx_len := b, is_tx_pos := c\<rparr>"
      have s3: "id_slot_ok s3" "\<not> id_active s3" using s2 ab by (simp_all add: s3_def id_slot_ok_def id_active_def)
      have inv4: "id_inv cfg reads writes p3 h1" by (rule id_inv_deactivate [OF inv3 i c3 [folded s3_def] s3]) simp
      show ?thesis
      proof (cases "e3 = LIBP2P_IDENTIFY_OK")
        case False
        then show ?thesis
          using sends e by (simp add: identify_open_common_def o u p2_def [symmetric] pr id_keeps_Some [OF inv4])
      next
        case True
        from ready [OF this] obtain m where m: "c = 0" "message_from cfg m" "take b a = identify_frame m" by blast
        note ok3 = id_inv_ok [OF inv4] and at3 = id_change_at [OF ok2 i c3 [folded s3_def]]
        define p4 where "p4 = upd_identify_slot i (is_state_update (\<lambda>_. LIBP2P_IDENTIFY_SLOT_WRITING)) p3"
        have c4: "id_change p3 i (s3\<lparr>is_state := LIBP2P_IDENTIFY_SLOT_WRITING\<rparr>) p4"
          unfolding p4_def at3 [symmetric] by (rule id_change_step [OF ok3 i id_change_refl [OF ok3]])
        have fresh4: "fresh_identify reads writes p3 h1 t"
          by (rule fresh_identify_change [OF fresh3 refl refl c3 [folded s3_def] s3(2)])
        have inv5: "id_inv cfg reads writes p4 h1"
          using s3(1) m
          by (intro id_inv_activate [OF inv4 i c4 _ _ _ fresh4]) (auto simp: id_slot_ok_def s3_def s2_def id_wire_def)
        have "is_state (id_streams p4 ! i) = LIBP2P_IDENTIFY_SLOT_WRITING" using id_change_at [OF ok3 i c4] by simp
        from id_write_keeps [OF H inv5 i this] show ?thesis
          using sends e True by (simp add: identify_open_common_def o u p2_def [symmetric] pr p4_def)
      qed
    qed
  qed
qed

subsection \<open>Events and calls\<close>

lemma id_event_keeps:
  assumes H: "identify_host_ok ops reads writes" and inv: "id_inv cfg reads writes p h"
  shows "id_keeps cfg reads writes (identify_on_event ops p stream kind h)"
proof (cases "stream = None \<or> identify_find_stream p stream = None")
  case True
  then show ?thesis by (auto simp: identify_on_event_def intro: id_keeps_Some [OF inv])
next
  case False
  then obtain i where s: "stream \<noteq> None" and find: "identify_find_stream p stream = Some i" by auto
  have i: "i < 16" using find s id_find_slot [OF inv] by (auto simp: identify_find_stream_def)
  obtain err h1 where u: "host_set_user_data ops h stream (Some i) = (err, h1)" by (rule prod.exhaust)
  have q: "id_inv cfg reads writes p h1"
    using identify_quiet(5,6) [OF H, of h stream "Some i"] u by (intro id_inv_quiet [OF inv]) simp_all
  obtain e2 p2 where closed: "identify_emit_simple p i LIBP2P_IDENTIFY_EVENT_CLOSED = (e2, p2)" by (rule prod.exhaust)
  note keeps = id_keeps_Some id_keeps_Some [OF q] id_keeps_Some [OF id_emit_keeps [OF q i closed]]
    id_fail_keeps [OF H q i] id_write_keeps [OF H q i] id_read_keeps [OF H q i]
  have after: "id_keeps cfg reads writes (Option.bind (identify_read_stream ops p i h1)
      (\<lambda>(result, p1, h2). if result = LIBP2P_HOST_OK \<and> identify_slot_is_reading p1 i
        then (case identify_emit_simple p1 i LIBP2P_IDENTIFY_EVENT_CLOSED of (err2, p2) \<Rightarrow> Some (err2, p2, h2))
        else Some (result, p1, h2)))" if reading: "is_state (id_streams p ! i) = LIBP2P_IDENTIFY_SLOT_READING"
  proof -
    from id_read_keeps [OF H q i reading] obtain r p1 h2 where r: "identify_read_stream ops p i h1 = Some (r, p1, h2)"
      "id_inv cfg reads writes p1 h2" by (auto simp: id_keeps_def)
    obtain e3 p3 where e: "identify_emit_simple p1 i LIBP2P_IDENTIFY_EVENT_CLOSED = (e3, p3)" by (rule prod.exhaust)
    show ?thesis using r e id_emit_keeps [OF r(2) i e] by (auto intro!: id_keeps_Some)
  qed
  show ?thesis
    by (cases kind) (auto simp: identify_on_event_def s find u closed Let_def intro: keeps after)
qed

lemma id_outbound_keeps:
  assumes H: "identify_host_ok ops reads writes" and inv: "id_inv cfg reads writes p h"
    and st: "st \<in> {LIBP2P_IDENTIFY_SLOT_OPENING_IDENTIFY, LIBP2P_IDENTIFY_SLOT_OPENING_PUSH}"
    and r: "identify_open_outbound ops p conn user_data st pid h = (r, p', h')"
  shows "id_inv cfg reads writes p' h'"
proof (cases "conn = None \<or> identify_alloc_slot p = None")
  case True
  with r inv show ?thesis by (auto simp: identify_open_outbound_def split: if_splits)
next
  case False
  then obtain i p1 where conn: "conn \<noteq> None" and a: "identify_alloc_slot p = Some (i, p1)" by auto
  note law = id_alloc_law [OF inv a]
  have i: "i < 16" and inv1: "id_inv cfg reads writes p1 h" and z: "id_streams p1 ! i = zero_identify_slot"
    using law by auto
  note ok1 = id_inv_ok [OF inv1]
  define s2 where "s2 = zero_identify_slot\<lparr>is_state := st, is_user_data := user_data\<rparr>"
  define p2 where "p2 = upd_identify_slot i (\<lambda>s. s\<lparr>is_state := st, is_user_data := user_data\<rparr>) p1"
  have c2: "id_change p1 i s2 p2"
    unfolding p2_def s2_def z [symmetric] by (rule id_change_step [OF ok1 i id_change_refl [OF ok1]])
  have "id_slot_ok s2" "\<not> id_active s2"
    using zero_identify_slot_ok st by (auto simp: s2_def id_slot_ok_def id_active_def zero_identify_slot_def)
  then have inv2: "id_inv cfg reads writes p2 h" by (intro id_inv_deactivate [OF inv1 i c2]) simp_all
  note ok2 = id_inv_ok [OF inv2]
  have c3: "id_change p2 i zero_identify_slot (upd_identify_slot i (\<lambda>_. zero_identify_slot) p2)"
    by (rule id_change_step [OF ok2 i id_change_refl [OF ok2]])
  have inv3: "id_inv cfg reads writes (upd_identify_slot i (\<lambda>_. zero_identify_slot) p2) h"
    by (rule id_inv_deactivate [OF inv2 i c3 zero_identify_slot_ok zero_identify_inactive]) simp
  obtain e o4 h4 where o: "host_open ops h conn pid (Some i) = ((e, o4), h4)" by (metis prod.exhaust)
  have log: "reads h4 = reads h" "writes h4 = writes h"
    using identify_quiet(7,8) [OF H, of h conn pid "Some i"] o by simp_all
  have "p' = (if identify_host_to_err e \<noteq> LIBP2P_IDENTIFY_OK then upd_identify_slot i (\<lambda>_. zero_identify_slot) p2
      else p2)" and "h' = h4"
    using r conn a o by (auto simp: identify_open_outbound_def p2_def Let_def)
  then show ?thesis using id_inv_quiet [OF inv2 log] id_inv_quiet [OF inv3 log] by simp
qed

lemma id_next_keeps:
  assumes inv: "id_inv cfg reads writes p h" and n: "libp2p_identify_next_event p = (e, ev, p')"
  shows "id_inv cfg reads writes p' h"
proof (cases "id_event_len p = 0")
  case True
  with inv n show ?thesis by (simp add: libp2p_identify_next_event_def)
next
  case False
  define p1 where "p1 = p\<lparr>id_event_head := (id_event_head p + 1) mod LIBP2P_IDENTIFY_EVENT_CAPACITY,
    id_event_len := id_event_len p - 1\<rparr>"
  define i where "i = iq_slot_index (id_events p ! id_event_head p)"
  have inv1: "id_inv cfg reads writes p1 h"
    using inv by (auto simp: p1_def id_inv_def id_ok_def id_events_ok_def identify_constants)
  note ok1 = id_inv_ok [OF inv1]
  have "p' = p1 \<or> i < 16 \<and> p' = upd_identify_slot i (\<lambda>_. zero_identify_slot) p1"
    using n False by (auto simp: libp2p_identify_next_event_def p1_def i_def identify_constants Let_def split: if_splits)
  then show ?thesis
  proof
    assume c: "i < 16 \<and> p' = upd_identify_slot i (\<lambda>_. zero_identify_slot) p1"
    then have "id_change p1 i zero_identify_slot p'" 
      using id_change_step [OF ok1 _ id_change_refl [OF ok1], of i "\<lambda>_. zero_identify_slot"] by simp
    from id_inv_deactivate [OF inv1 _ this zero_identify_slot_ok zero_identify_inactive] c show ?thesis by simp
  qed (use inv1 in simp)
qed

subsection \<open>Reachable states\<close>

text \<open>
  The states after any sequence of calls, from a fresh protocol. Between the calls the host does other
  work, which leaves the bytes of the streams in use alone; a stream number may be used again.
\<close>

inductive identify_reach ::
  "'h identify_host \<Rightarrow> libp2p_identify_config_t \<Rightarrow> ('h \<Rightarrow> nat \<Rightarrow> byte list) \<Rightarrow> ('h \<Rightarrow> nat \<Rightarrow> byte list) \<Rightarrow>
   libp2p_identify_t \<Rightarrow> 'h \<Rightarrow> bool" for ops cfg reads writes where
  id_reach_init: "libp2p_identify_init cfg = Inr p \<Longrightarrow> identify_reach ops cfg reads writes p h"
| id_reach_host: "identify_reach ops cfg reads writes p h \<Longrightarrow>
    (\<And>s t. s \<in> set (id_streams p) \<Longrightarrow> id_active s \<Longrightarrow> is_stream s = Some t \<Longrightarrow>
      reads h' t = reads h t \<and> writes h' t = writes h t) \<Longrightarrow> identify_reach ops cfg reads writes p h'"
| id_reach_open: "identify_reach ops cfg reads writes p h \<Longrightarrow> fresh_identify reads writes p h t \<Longrightarrow>
    identify_on_open ops p (Some t) d h = Some (e, p', h') \<Longrightarrow> identify_reach ops cfg reads writes p' h'"
| id_reach_push_open: "identify_reach ops cfg reads writes p h \<Longrightarrow> fresh_identify reads writes p h t \<Longrightarrow>
    identify_push_on_open ops p (Some t) d h = Some (e, p', h') \<Longrightarrow> identify_reach ops cfg reads writes p' h'"
| id_reach_event: "identify_reach ops cfg reads writes p h \<Longrightarrow>
    identify_on_event ops p s kind h = Some (e, p', h') \<Longrightarrow> identify_reach ops cfg reads writes p' h'"
| id_reach_query: "identify_reach ops cfg reads writes p h \<Longrightarrow>
    libp2p_identify_query ops p conn u h = (r, p', h') \<Longrightarrow> identify_reach ops cfg reads writes p' h'"
| id_reach_push: "identify_reach ops cfg reads writes p h \<Longrightarrow>
    libp2p_identify_push ops p conn u h = (r, p', h') \<Longrightarrow> identify_reach ops cfg reads writes p' h'"
| id_reach_next: "identify_reach ops cfg reads writes p h \<Longrightarrow>
    libp2p_identify_next_event p = (e, ev, p') \<Longrightarrow> identify_reach ops cfg reads writes p' h"

lemma id_keeps_inv: "id_keeps cfg reads writes m \<Longrightarrow> m = Some (e, p', h') \<Longrightarrow> id_inv cfg reads writes p' h'"
  by (simp add: id_keeps_def)

lemma id_init_inv: "libp2p_identify_init cfg = Inr p \<Longrightarrow> id_inv cfg reads writes p h"
  using zero_identify_inactive zero_identify_slot_ok
  by (auto simp: libp2p_identify_init_def id_inv_def id_ok_def id_events_ok_def identify_constants Let_def
      intro!: slots_wire_inactive split: if_splits)

lemma id_host_inv:
  assumes "id_inv cfg reads writes p h"
    and "\<And>s t. s \<in> set (id_streams p) \<Longrightarrow> id_active s \<Longrightarrow> is_stream s = Some t \<Longrightarrow>
      reads h' t = reads h t \<and> writes h' t = writes h t"
  shows "id_inv cfg reads writes p h'"
  using assms slots_wire_host [of id_active is_stream "id_wire cfg" "reads h" "writes h" "id_streams p"]
  by (simp add: id_inv_def)

lemma id_reach_inv:
  assumes H: "identify_host_ok ops reads writes" and r: "identify_reach ops cfg reads writes p h"
  shows "id_inv cfg reads writes p h"
  using r
proof induction
  case (id_reach_host p h h')
  show ?case by (rule id_host_inv [OF id_reach_host.IH id_reach_host.hyps(2)])
next
  case (id_reach_open p h t d e p' h')
  show ?case
    by (rule id_keeps_inv [OF id_open_keeps [OF H id_reach_open.IH id_reach_open.hyps(2)]
          id_reach_open.hyps(3) [unfolded identify_on_open_def]])
next
  case (id_reach_push_open p h t d e p' h')
  show ?case
    by (rule id_keeps_inv [OF id_open_keeps [OF H id_reach_push_open.IH id_reach_push_open.hyps(2)]
          id_reach_push_open.hyps(3) [unfolded identify_push_on_open_def]])
next
  case (id_reach_query p h conn u r p' h')
  show ?case
    by (rule id_outbound_keeps [OF H id_reach_query.IH _ id_reach_query.hyps(2) [unfolded libp2p_identify_query_def]])
      simp
next
  case (id_reach_push p h conn u r p' h')
  show ?case
    by (rule id_outbound_keeps [OF H id_reach_push.IH _ id_reach_push.hyps(2) [unfolded libp2p_identify_push_def]])
      simp
qed (blast intro: id_init_inv id_next_keeps id_keeps_inv [OF id_event_keeps [OF H]])+

end
