(* ===== verification/Identify_Properties.thy ===== *)
theory Identify_Properties
  imports Identify_Reach
begin

text \<open>
  The properties of the identify protocol: the message codec, the frames that are sent and received, and
  what the application finds when it takes the event of a received message. The witnesses run the protocol
  on the host in memory.
\<close>

subsection \<open>A host that knows its addresses\<close>

definition identify_memory_ops :: "memory_host identify_host" where
  "identify_memory_ops = \<lparr>host_read = host_read memory_ops, host_write = host_write memory_ops,
     host_finish = host_finish memory_ops, host_reset = host_reset memory_ops,
     host_set_user_data = host_set_user_data memory_ops, host_open = host_open memory_ops,
     host_listen_multiaddr = (\<lambda>h n. (LIBP2P_HOST_OK, take n [4, 127, 0, 0, 1])),
     host_registered_protocols = (\<lambda>h. (LIBP2P_HOST_OK, Buf [Buf [47, 105], Buf [47, 112]])),
     host_stream_conn = (\<lambda>h s. (LIBP2P_HOST_OK, s)),
     host_conn_remote_multiaddr = (\<lambda>h c n. (LIBP2P_HOST_OK, take n [4, 10, 0, 0, 1]))\<rparr>"

lemma identify_memory_ok: "identify_host_ok identify_memory_ops mh_reads mh_writes"
  using memory_stream_host_ok
  by (simp add: identify_host_ok_def stream_host_ok_def identify_memory_ops_def)

definition sample_message :: identify_local where
  "sample_message = (zero_identify_message (Null 0))\<lparr>im_protocol_version := Buf [1], im_agent_version := Buf [2, 3],
     im_public_key := Buf [4, 5, 6]\<rparr>"

definition sample_config :: libp2p_identify_config_t where
  "sample_config = \<lparr>local_message = sample_message\<rparr>"

text \<open>An inbound stream 0 of the push protocol opens and brings \<open>bytes\<close>.\<close>

definition push_run :: "byte list \<Rightarrow> (libp2p_identify_t \<times> memory_host) option" where
  "push_run bytes =
     (case libp2p_identify_init sample_config of
        Inl e \<Rightarrow> None
      | Inr p0 \<Rightarrow> do {
          (e1, p1, h1) \<leftarrow> identify_push_on_open identify_memory_ops p0 (Some 0) LIBP2P_HOST_STREAM_INBOUND
            (memory_start (\<lambda>_. bytes) (\<lambda>_. False));
          Some (p1, h1)
        })"

lemma start_state:
  "\<exists>p. libp2p_identify_init sample_config = Inr p \<and> id_config p = sample_config \<and>
     id_streams p = replicate 16 zero_identify_slot \<and> id_event_len p = 0 \<and>
     (\<forall>(h :: memory_host) t. mh_reads h t = [] \<longrightarrow> mh_writes h t = [] \<longrightarrow> fresh_identify mh_reads mh_writes p h t)"
proof -
  have "identify_message_validate_local (Some sample_message) = LIBP2P_IDENTIFY_OK" by code_simp
  then show ?thesis
    using zero_identify_inactive
    by (simp add: libp2p_identify_init_def sample_config_def identify_constants fresh_identify_def Let_def)
qed

lemma push_run_reach:
  assumes "push_run bytes = Some (p, h)"
  shows "identify_reach identify_memory_ops sample_config mh_reads mh_writes p h"
proof -
  let ?h0 = "memory_start (\<lambda>_. bytes) (\<lambda>_. False)"
  from assms obtain p0 e1 where
    a: "libp2p_identify_init sample_config = Inr p0" and
    b: "identify_push_on_open identify_memory_ops p0 (Some 0) LIBP2P_HOST_STREAM_INBOUND ?h0 = Some (e1, p, h)"
    by (auto simp: push_run_def bind_eq_Some_conv split: sum.splits)
  have "fresh_identify mh_reads mh_writes p0 ?h0 0"
    using a by (auto simp: fresh_identify_def memory_start_def libp2p_identify_init_def zero_identify_inactive
        Let_def split: if_splits)
  from id_reach_push_open [OF id_reach_init [OF a] this b] show ?thesis .
qed

text \<open>The push stream is read from the start.\<close>

lemma find_first_slot: "test z \<Longrightarrow> find_slot_loop test (replicate 16 z) 0 = Some 0"
  by (simp add: eval_nat_numeral)

lemma push_run_state:
  "\<exists>p h. push_run bytes = Some (p, h) \<and> is_state (id_streams p ! 0) = LIBP2P_IDENTIFY_SLOT_READING \<and>
     is_stream (id_streams p ! 0) = Some 0 \<and> is_rx_len (id_streams p ! 0) = 0 \<and> mh_incoming h 0 = bytes \<and>
     mh_reads h 0 = [] \<and> id_event_len p = 0"
proof -
  have "identify_message_validate_local (Some sample_message) = LIBP2P_IDENTIFY_OK" by code_simp
  then show ?thesis
    by (simp add: push_run_def libp2p_identify_init_def sample_config_def identify_push_on_open_def
        identify_open_common_def identify_open_slot_def identify_alloc_slot_def identify_constants
        find_first_slot zero_identify_slot_def upd_identify_slot_def identify_memory_ops_def memory_ops_def
        memory_start_def Let_def)
qed

subsection \<open>Events and one round of a slot\<close>

text \<open>The event that was pushed last, after \<open>p\<close> had its events.\<close>

definition pushed_event :: "libp2p_identify_t \<Rightarrow> libp2p_identify_t \<Rightarrow> libp2p_identify_queued_event_t" where
  "pushed_event p p' = id_events p' ! ((id_event_head p + id_event_len p) mod 16)"

lemma pushed_event_law:
  assumes "id_ok p" and "id_event_len p < 16" and "identify_event_push p i ev = (e, p')"
  shows "e = LIBP2P_IDENTIFY_OK \<and> id_event_len p' = id_event_len p + 1 \<and> id_event_head p' = id_event_head p \<and>
    pushed_event p p' = \<lparr>iq_event = ev, iq_slot_index = i\<rparr> \<and> id_streams p' = id_streams p"
  using assms by (auto simp: identify_event_push_def identify_constants Let_def pushed_event_def id_ok_def id_events_ok_def)

lemma pushed_event_upd [simp]:
  "pushed_event p (upd_identify_slot i f p') = pushed_event p p'"
  "id_event_len (upd_identify_slot i f p') = id_event_len p'"
  "id_event_head (upd_identify_slot i f p') = id_event_head p'"
  by (simp_all add: pushed_event_def upd_identify_slot_def)

lemma slot_at_upd [simp]:
  "i < length (id_streams p) \<Longrightarrow> id_streams (upd_identify_slot i f p) ! i = f (id_streams p ! i)"
  by (simp add: upd_identify_slot_def)

lemma pushed_event_same: "same_events p q \<Longrightarrow> pushed_event p p' = pushed_event q p'"
  by (simp add: pushed_event_def same_events_def)

lemma emit_simple_law:
  assumes "id_ok p" and "id_event_len p < 16" and "i < 16"
  shows "\<exists>p'. identify_emit_simple p i type = (LIBP2P_HOST_OK, p') \<and> id_event_len p' = id_event_len p + 1 \<and>
    ie_type (iq_event (pushed_event p p')) = type \<and>
    ie_stream (iq_event (pushed_event p p')) = is_stream (id_streams p ! i) \<and>
    is_state (id_streams p' ! i) = LIBP2P_IDENTIFY_SLOT_EVENTED"
proof -
  define ev where "ev = zero_identify_event\<lparr>ie_type := type, ie_stream := is_stream (id_streams p ! i),
    ie_direction := is_direction (id_streams p ! i), ie_reason := LIBP2P_IDENTIFY_OK,
    ie_user_data := is_user_data (id_streams p ! i)\<rparr>"
  obtain e p1 where push: "identify_event_push p i ev = (e, p1)" by (rule prod.exhaust)
  note law = pushed_event_law [OF assms(1,2) push]
  have run: "identify_emit_simple p i type =
      (LIBP2P_HOST_OK, upd_identify_slot i (is_state_update (\<lambda>_. LIBP2P_IDENTIFY_SLOT_EVENTED)) p1)"
    using assms(3) push law by (simp add: identify_emit_simple_def identify_constants Let_def ev_def [symmetric])
  have "id_streams p1 = id_streams p" "length (id_streams p) = 16" using law assms(1) by (simp_all add: id_ok_def)
  with run law assms(3) show ?thesis by (simp add: ev_def)
qed

lemma emit_received_law:
  assumes "id_ok p" and "id_event_len p < 16" and "i < 16"
  shows "\<exists>p' h'. identify_emit_received ops p i h = (LIBP2P_HOST_OK, p', h') \<and>
    id_event_len p' = id_event_len p + 1 \<and> id_event_head p' = id_event_head p \<and>
    iq_slot_index (pushed_event p p') = i \<and> ie_type (iq_event (pushed_event p p')) = LIBP2P_IDENTIFY_EVENT_RECEIVED \<and>
    ie_stream (iq_event (pushed_event p p')) = is_stream (id_streams p ! i) \<and>
    ie_message (iq_event (pushed_event p p')) = is_decoded (id_streams p ! i) \<and>
    id_streams p' ! i = (id_streams p ! i)\<lparr>is_state := LIBP2P_IDENTIFY_SLOT_EVENTED\<rparr>"
proof -
  define ev where "ev = zero_identify_event\<lparr>ie_type := LIBP2P_IDENTIFY_EVENT_RECEIVED,
    ie_stream := is_stream (id_streams p ! i), ie_direction := is_direction (id_streams p ! i),
    ie_message := is_decoded (id_streams p ! i), ie_reason := LIBP2P_IDENTIFY_OK,
    ie_user_data := is_user_data (id_streams p ! i)\<rparr>"
  obtain e p1 where push: "identify_event_push p i ev = (e, p1)" by (rule prod.exhaust)
  note law = pushed_event_law [OF assms(1,2) push]
  have run: "identify_emit_received ops p i h =
      (LIBP2P_HOST_OK, upd_identify_slot i (is_state_update (\<lambda>_. LIBP2P_IDENTIFY_SLOT_EVENTED)) p1,
       snd (host_finish ops h (is_stream (id_streams p ! i))))"
    using push law by (simp add: identify_emit_received_def Let_def ev_def [symmetric])
  have "id_streams p1 = id_streams p" "length (id_streams p) = 16" using law assms(1) by (simp_all add: id_ok_def)
  with run law assms(3) show ?thesis by (simp add: ev_def)
qed

text \<open>An inbound identify stream makes its slot write the frame.\<close>

lemma id_ok_pos: "id_ok p \<Longrightarrow> i < 16 \<Longrightarrow> id_ok (upd_identify_slot i (is_tx_pos_update (\<lambda>_. n)) p)"
  by (rule id_ok_change [OF _ id_change_step [OF _ _ id_change_refl]]) (simp_all add: id_ok_def id_slot_ok_def)

lemma open_to_write:
  assumes H: "identify_host_ok ops reads writes" and inv: "id_inv cfg reads writes p h"
    and alloc: "identify_alloc_slot p = Some (i, p1)"
    and u: "host_set_user_data ops h (Some t) (Some i) = (LIBP2P_HOST_OK, h1)"
    and b: "identify_build_tx_message ops p h1 (Some t) = Some (LIBP2P_IDENTIFY_OK, m)"
    and fits: "length (identify_frame m) \<le> 2048"
  shows "\<exists>p4. identify_on_open ops p (Some t) LIBP2P_HOST_STREAM_INBOUND h = identify_write_stream ops p4 i h1 \<and>
    id_ok p4 \<and> same_events p p4 \<and> is_state (id_streams p4 ! i) = LIBP2P_IDENTIFY_SLOT_WRITING \<and>
    is_stream (id_streams p4 ! i) = Some t \<and> is_tx_pos (id_streams p4 ! i) = 0 \<and>
    is_tx_len (id_streams p4 ! i) = length (identify_frame m) \<and> length (is_tx (id_streams p4 ! i)) = 2048 \<and>
    take (length (identify_frame m)) (is_tx (id_streams p4 ! i)) = identify_frame m"
proof -
  from build_law [OF H, of p h1 "Some t"] b have mok: "message_ok m" by (auto simp: message_from_def)
  note law = id_alloc_law [OF inv alloc]
  then have i: "i < 16" and inv1: "id_inv cfg reads writes p1 h" and z: "id_streams p1 ! i = zero_identify_slot"
    by auto
  note ok1 = id_inv_ok [OF inv1]
  define s2 where "s2 = zero_identify_slot\<lparr>is_kind := LIBP2P_IDENTIFY_STREAM_IDENTIFY,
    is_direction := LIBP2P_HOST_STREAM_INBOUND, is_stream := Some t\<rparr>"
  define p2 where "p2 = upd_identify_slot i (\<lambda>s. s\<lparr>is_kind := LIBP2P_IDENTIFY_STREAM_IDENTIFY,
    is_direction := LIBP2P_HOST_STREAM_INBOUND, is_stream := Some t\<rparr>) p1"
  have c2: "id_change p1 i s2 p2"
    unfolding p2_def s2_def z [symmetric] by (rule id_change_step [OF ok1 i id_change_refl [OF ok1]])
  have so: "id_slot_ok s2" "\<not> id_active s2"
    using zero_identify_slot_ok zero_identify_inactive by (simp_all add: s2_def id_slot_ok_def id_active_def)
  have inv2: "id_inv cfg reads writes p2 h" by (rule id_inv_deactivate [OF inv1 i c2 so]) simp
  note ok2 = id_inv_ok [OF inv2] and at2 = id_change_at [OF ok1 i c2]
  have "id_config p2 = id_config p" using c2 law by (simp add: id_change_def)
  then have "identify_build_tx_message ops p2 h1 (is_stream (id_streams p2 ! i)) = Some (LIBP2P_IDENTIFY_OK, m)"
    using b by (simp add: identify_build_tx_message_def at2 s2_def)
  from prepare_ready [OF inv2 i this mok fits] obtain p3 a where
    prep: "identify_prepare_tx ops p2 i h1 = Some (LIBP2P_IDENTIFY_OK, p3)" and
    c3: "id_change p2 i (s2\<lparr>is_tx := a, is_tx_len := length (identify_frame m), is_tx_pos := 0\<rparr>) p3" and
    a: "length a = 2048" "take (length (identify_frame m)) a = identify_frame m" and same3: "same_events p2 p3"
    unfolding at2 by blast
  define p4 where "p4 = upd_identify_slot i (is_state_update (\<lambda>_. LIBP2P_IDENTIFY_SLOT_WRITING)) p3"
  define s4 where "s4 = s2\<lparr>is_tx := a, is_tx_len := length (identify_frame m), is_tx_pos := 0,
    is_state := LIBP2P_IDENTIFY_SLOT_WRITING\<rparr>"
  have c4: "id_change p2 i s4 p4"
    using id_change_step [OF ok2 i c3, of "is_state_update (\<lambda>_. LIBP2P_IDENTIFY_SLOT_WRITING)"]
    by (simp add: p4_def s4_def)
  have "id_slot_ok s4" using so(1) a fits by (simp add: id_slot_ok_def s4_def)
  note ok4 = id_ok_change [OF ok2 c4 this] and at4 = id_change_at [OF ok2 i c4]
  from alloc have "p1 = upd_identify_slot i (\<lambda>_. zero_identify_slot) p"
    by (auto simp: identify_alloc_slot_def split: option.splits)
  then have "same_events p p2" by (simp add: p2_def)
  from same_events_trans [OF this same3] have same: "same_events p p4" by (simp add: p4_def)
  have "identify_on_open ops p (Some t) LIBP2P_HOST_STREAM_INBOUND h = identify_write_stream ops p4 i h1"
    using alloc u prep
    by (simp add: identify_on_open_def identify_open_common_def identify_open_slot_def p2_def [symmetric]
        p4_def [symmetric])
  with ok4 same a show ?thesis by (intro exI [of _ p4]) (simp add: at4 s4_def s2_def)
qed

text \<open>The same with the host in memory.\<close>

definition sample_answer :: identify_local where
  "sample_answer = sample_message\<lparr>im_listen_addrs := Buf [4, 127, 0, 0, 1] # replicate 7 (Null 0),
     im_listen_addr_count := 1, im_protocols := Buf [47, 105] # Buf [47, 112] # replicate 14 (Null 0),
     im_protocol_count := 2, im_observed_addr := Buf [4, 10, 0, 0, 1]\<rparr>"

text \<open>A host that does not accept bytes for now: the slot keeps its frame.\<close>

definition identify_blocked_ops :: "memory_host identify_host" where
  "identify_blocked_ops = identify_memory_ops\<lparr>host_write := \<lambda>h s d f. ((LIBP2P_HOST_ERR_WOULD_BLOCK, 0), h)\<rparr>"

lemma identify_blocked_ok: "identify_host_ok identify_blocked_ops mh_reads mh_writes"
  using identify_memory_ok by (simp add: identify_host_ok_def stream_host_ok_def identify_blocked_ops_def)

lemma build_sample:
  assumes "ops = identify_memory_ops \<or> ops = identify_blocked_ops" and "id_config p = sample_config"
  shows "identify_build_tx_message ops p h stream = Some (LIBP2P_IDENTIFY_OK, sample_answer)"
proof -
  have "identify_message_validate_local (Some sample_answer) = LIBP2P_IDENTIFY_OK" by code_simp
  then show ?thesis
    using assms
    by (elim disjE)
      (simp_all add: identify_build_tx_message_def identify_blocked_ops_def identify_memory_ops_def
        identify_constants memcpy_at_def sample_config_def sample_answer_def sample_message_def Let_def
        eval_nat_numeral)
qed

lemma sample_answer_frame: "length (identify_frame sample_answer) = 35"
  by (simp add: identify_frame_def identify_image_def present_field_def array_fields_def sample_answer_def
      sample_message_def zero_identify_message_def identify_bytes_present_def len_field_def uvarint_bytes_small)

lemma sample_open:
  assumes "ops = identify_memory_ops \<or> ops = identify_blocked_ops"
    and "id_streams p = replicate 16 zero_identify_slot" and "id_config p = sample_config"
  shows "identify_alloc_slot p = Some (0, upd_identify_slot 0 (\<lambda>_. zero_identify_slot) p)"
    and "host_set_user_data ops h (Some 0) (Some 0) = (LIBP2P_HOST_OK, h)"
    and "identify_build_tx_message ops p h (Some 0) = Some (LIBP2P_IDENTIFY_OK, sample_answer)"
proof -
  show "identify_alloc_slot p = Some (0, upd_identify_slot 0 (\<lambda>_. zero_identify_slot) p)"
    using assms(2) by (simp add: identify_alloc_slot_def find_first_slot zero_identify_slot_def)
  show "host_set_user_data ops h (Some 0) (Some 0) = (LIBP2P_HOST_OK, h)"
    using assms(1) by (auto simp: identify_blocked_ops_def identify_memory_ops_def memory_ops_def)
  show "identify_build_tx_message ops p h (Some 0) = Some (LIBP2P_IDENTIFY_OK, sample_answer)"
    by (rule build_sample [OF assms(1,3)])
qed

lemma blocked_run:
  "\<exists>p h. identify_reach identify_blocked_ops sample_config mh_reads mh_writes p h \<and>
     is_state (id_streams p ! 0) = LIBP2P_IDENTIFY_SLOT_WRITING \<and> is_stream (id_streams p ! 0) = Some 0"
proof -
  let ?h = "memory_start (\<lambda>_. []) (\<lambda>_. False)"
  from start_state obtain p where p: "libp2p_identify_init sample_config = Inr p" "id_config p = sample_config"
    "id_streams p = replicate 16 zero_identify_slot" and
    fresh: "\<And>(h :: memory_host) t. mh_reads h t = [] \<Longrightarrow> mh_writes h t = [] \<Longrightarrow> fresh_identify mh_reads mh_writes p h t"
    by blast
  have f: "fresh_identify mh_reads mh_writes p ?h 0" by (rule fresh) (simp_all add: memory_start_def)
  note steps = sample_open [of identify_blocked_ops p, OF disjI2 [OF refl] p(3,2)]
  note r = id_reach_init [OF p(1), of identify_blocked_ops mh_reads mh_writes ?h]
  from open_to_write [OF identify_blocked_ok id_reach_inv [OF identify_blocked_ok r] steps] obtain p4 where
    o: "identify_on_open identify_blocked_ops p (Some 0) LIBP2P_HOST_STREAM_INBOUND ?h =
      identify_write_stream identify_blocked_ops p4 0 ?h" and
    p4: "is_state (id_streams p4 ! 0) = LIBP2P_IDENTIFY_SLOT_WRITING" "is_stream (id_streams p4 ! 0) = Some 0"
      "is_tx_pos (id_streams p4 ! 0) = 0" "is_tx_len (id_streams p4 ! 0) = 35"
      "length (is_tx (id_streams p4 ! 0)) = 2048"
    by (auto simp: sample_answer_frame)
  have "identify_on_open identify_blocked_ops p (Some 0) LIBP2P_HOST_STREAM_INBOUND ?h = Some (LIBP2P_HOST_OK, p4, ?h)"
    unfolding o using p4 by (simp add: identify_write_stream_def identify_constants Let_def identify_blocked_ops_def)
  from id_reach_open [OF r f this] p4 show ?thesis by blast
qed

text \<open>A read while the bytes are the start of a frame, or all of it.\<close>

lemma receive_law:
  assumes "identify_host_ok ops reads writes" and inv: "id_inv cfg reads writes p h" and "i < 16"
    and "is_state (id_streams p ! i) = LIBP2P_IDENTIFY_SLOT_READING" and "is_stream (id_streams p ! i) = Some t"
    and "host_read ops h (Some t) (2048 - is_rx_len (id_streams p ! i)) = ((LIBP2P_HOST_OK, bs, fin), h1)"
    and "bs \<noteq> []" and "message_ok m" and "identify_image m \<noteq> []" and "length (identify_frame m) \<le> 2048"
    and "reads h t @ bs = take n (identify_frame m)" and "id_event_len p < 16"
  shows "\<exists>p' h'. identify_read_stream ops p i h = Some (LIBP2P_HOST_OK, p', h') \<and>
    (if n < length (identify_frame m)
     then is_state (id_streams p' ! i) = LIBP2P_IDENTIFY_SLOT_READING \<and> id_event_len p' = id_event_len p
     else id_event_len p' = id_event_len p + 1 \<and> id_event_head p' = id_event_head p \<and> iq_slot_index (pushed_event p p') = i \<and>
       ie_type (iq_event (pushed_event p p')) = LIBP2P_IDENTIFY_EVENT_RECEIVED \<and>
       ie_stream (iq_event (pushed_event p p')) = Some t \<and>
       read_message (is_rx (id_streams p' ! i)) (ie_message (iq_event (pushed_event p p'))) = local_bytes m)"
proof -
  note ok = id_inv_ok [OF inv]
  define s where "s = id_streams p ! i"
  have so: "id_slot_ok s" unfolding s_def by (rule id_slot_at [OF inv assms(3)])
  have "id_active (id_streams p ! i)" using assms(4) by (simp add: id_active_def)
  from id_inv_active [OF inv assms(3) this] assms(4,5) have wire: "reads h t = take (is_rx_len s) (is_rx s)"
    unfolding id_wire_def s_def by auto
  then have wire_len: "length (reads h t) = is_rx_len s" using so by (simp add: id_slot_ok_def)
  have "length (reads h t @ bs) \<le> 2048" unfolding assms(11) using assms(10) by simp
  with wire_len have room: "is_rx_len (id_streams p ! i) < 2048" using assms(7) by (cases bs) (simp_all add: s_def)
  from id_read_law [OF assms(1) inv assms(3,5) room] assms(6) obtain rx where
    cp: "memcpy_at (is_rx s) (is_rx_len s) bs = Some rx" and
    rx: "length rx = 2048" "take (is_rx_len s + length bs) rx = reads h t @ bs"
    unfolding s_def [symmetric] wire by auto
  define k where "k = is_rx_len s + length bs"
  have rlen: "length (is_rx (id_streams p ! i)) = 2048" using so by (simp add: id_slot_ok_def s_def)
  have pre: "take k rx = take n (identify_frame m)" using rx(2) assms(11) by (simp add: k_def)
  have small: "length (identify_image m) \<le> 2048" using assms(10) by (simp add: identify_frame_def)
  note run = read_after [OF assms(3) room rlen, unfolded assms(5), OF assms(6) cp [unfolded s_def], of k, folded s_def]
  define p1 where "p1 = after_read p i rx k"
  have p1: "id_change p i (s\<lparr>is_rx := rx, is_rx_len := k\<rparr>) p1"
    unfolding s_def p1_def by (rule after_read_change [OF ok assms(3)])
  have same: "same_events p p1" by (simp add: p1_def after_read_def)
  show ?thesis
  proof (cases "n < length (identify_frame m)")
    case True
    define p3 where "p3 = upd_identify_slot i (is_decoded_update (\<lambda>_. is_decoded s)) p1"
    note fr = frame_truncated [OF small True, of "is_decoded s", folded pre]
    have "identify_read_stream ops p i h = Some (LIBP2P_HOST_OK, p3, h1)"
      using run fr assms(7) by (simp add: k_def p3_def p1_def)
    moreover have "is_state (id_streams p3 ! i) = LIBP2P_IDENTIFY_SLOT_READING"
      using id_change_at [OF ok assms(3) id_change_step [OF ok assms(3) p1, of "is_decoded_update (\<lambda>_. is_decoded s)"]]
        assms(4) by (simp add: p3_def s_def)
    moreover have "same_events p p3" using same by (simp add: p3_def)
    ultimately show ?thesis using True by (simp add: same_events_def)
  next
    case False
    then have full: "take k rx = identify_frame m" using pre by simp
    have "k = length (reads h t @ bs)" using wire_len by (simp add: k_def)
    then have k: "k = length (identify_frame m)" using assms(11) False by simp
    then have full': "take (length (identify_frame m)) rx = identify_frame m" using full by simp
    from frame_decoded [OF assms(8) small assms(9), of "[]" "is_decoded s"] obtain d where
      d: "identify_frame_decode (take k rx) (is_decoded s) = Some (LIBP2P_IDENTIFY_OK, d)"
        "decoded_ok k d" "read_message (take k rx) d = local_bytes m" by (auto simp: full' k)
    define p3 where "p3 = upd_identify_slot i (is_decoded_update (\<lambda>_. d)) p1"
    have p3: "id_change p i (s\<lparr>is_rx := rx, is_rx_len := k, is_decoded := d\<rparr>) p3"
      using id_change_step [OF ok assms(3) p1, of "is_decoded_update (\<lambda>_. d)"] by (simp add: p3_def)
    have k2048: "k \<le> 2048" using assms(10) k by simp
    have "id_slot_ok (s\<lparr>is_rx := rx, is_rx_len := k, is_decoded := d\<rparr>)"
      using so rx(1) k2048 decoded_ok_mono [OF d(2) k2048] assms(4) by (simp add: id_slot_ok_def s_def)
    note ok3 = id_ok_change [OF ok p3 this] and at3 = id_change_at [OF ok assms(3) p3]
    have same3: "same_events p p3" using same by (simp add: p3_def)
    then have "id_event_len p3 < 16" using assms(12) by (simp add: same_events_def)
    from emit_received_law [OF ok3 this assms(3), of ops h1, unfolded at3] obtain p' h' where
      emit: "identify_emit_received ops p3 i h1 = (LIBP2P_HOST_OK, p', h')" and
      after: "id_event_len p' = id_event_len p3 + 1" "id_event_head p' = id_event_head p3" "iq_slot_index (pushed_event p3 p') = i"
        "ie_type (iq_event (pushed_event p3 p')) = LIBP2P_IDENTIFY_EVENT_RECEIVED"
        "ie_stream (iq_event (pushed_event p3 p')) = Some t" "ie_message (iq_event (pushed_event p3 p')) = d"
        "is_rx (id_streams p' ! i) = rx" using assms(5) by (auto simp: s_def)
    have "identify_read_stream ops p i h = Some (LIBP2P_HOST_OK, p', h')"
      using run d(1) assms(7) emit by (simp add: k_def p3_def p1_def)
    moreover have "read_message rx d = local_bytes m" using d(3) read_message_take [OF d(2), of rx] by simp
    ultimately show ?thesis
      using False after pushed_event_same [OF same3, of p'] same3 by (simp add: same_events_def)
  qed
qed

subsection \<open>Properties\<close>

text \<open>
  Claim C35. Encoding a message and decoding the bytes gives its byte strings back: the encoder stores
  exactly the announced number of bytes at the front of the buffer, or says how many it needs, and the
  positions that the decoder returns for the stored bytes lie in them and hold the strings of the message.
\<close>

theorem identify_message_roundtrip:
  assumes ok: "message_ok m" and size: "libp2p_identify_message_size (Some m) 0 = (LIBP2P_IDENTIFY_OK, n)"
    and small: "0 < n" "n < 2 ^ 63"
  shows "\<exists>img. length img = n \<and>
    libp2p_identify_message_encode (Some m) out =
      Some (if is_null out \<or> clen out < n then (LIBP2P_IDENTIFY_ERR_BUF_TOO_SMALL, n, out)
            else (LIBP2P_IDENTIFY_OK, n, Buf (img @ drop n (contents out)))) \<and>
    (\<exists>d. libp2p_identify_message_decode (Buf img) 0 old = Some (LIBP2P_IDENTIFY_OK, d) \<and> decoded_ok n d \<and>
       read_message img d = local_bytes m)"
proof -
  have n: "n = length (identify_image m)" using message_size_sound [OF size] by simp
  with small have s: "length (identify_image m) < 2 ^ 63" and ne: "identify_image m \<noteq> []" by auto
  have "drop 0 (identify_image m) = identify_image m @ []" by simp
  from image_decoded [OF ok s this] obtain d where
    d: "identify_decode_loop (identify_image m) 0 (zero_identify_message None) = Some (LIBP2P_IDENTIFY_OK, d)"
      "decoded_ok n d" "read_message (identify_image m) d = local_bytes m"
    unfolding n by auto
  have "libp2p_identify_message_decode (Buf (identify_image m)) 0 old = Some (LIBP2P_IDENTIFY_OK, d)"
    using d(1) ne by (simp add: libp2p_identify_message_decode_def)
  with d(2,3) have "\<exists>d. libp2p_identify_message_decode (Buf (identify_image m)) 0 old = Some (LIBP2P_IDENTIFY_OK, d) \<and>
      decoded_ok n d \<and> read_message (identify_image m) d = local_bytes m"
    by (intro exI conjI)
  with message_encode_fits [OF ok s, of out, folded n] n [symmetric] show ?thesis
    by (intro exI [of _ "identify_image m"] conjI)
qed

lemma sample_message_ok: "message_ok sample_message"
  by (simp add: message_ok_def sample_message_def zero_identify_message_def identify_limits)

lemma sample_image: "identify_image sample_message = [10, 3, 4, 5, 6, 42, 1, 1, 50, 2, 2, 3]"
  by (simp add: identify_image_def present_field_def array_fields_def sample_message_def zero_identify_message_def
      identify_limits identify_bytes_present_def len_field_def uvarint_bytes_small)

lemma sample_message_size:
  "libp2p_identify_message_size (Some sample_message) 0 = (LIBP2P_IDENTIFY_OK, 12)"
  using message_size_fits [OF sample_message_ok, of 0] by (simp add: sample_image SIZE_MAX_def)

lemma identify_message_roundtrip_witness:
  "\<exists>img d. libp2p_identify_message_decode (Buf img) 0 (zero_identify_message None) = Some (LIBP2P_IDENTIFY_OK, d) \<and>
     read_message img d = local_bytes sample_message"
  using identify_message_roundtrip [OF sample_message_ok sample_message_size, of "Null 0" "zero_identify_message None"]
  by auto

text \<open>
  Whatever bytes arrive, decoding a message returns, and every position in the result lies in the
  input, with at most 8 addresses and 16 protocols.
\<close>

theorem identify_decode_inside:
  assumes "decoded_ok k old"
  shows "\<exists>e d. libp2p_identify_message_decode (Buf inp) 0 old = Some (e, d) \<and>
    decoded_ok (if inp = [] then k else length inp) d"
  using assms identify_decode_loop_ok [OF decoded_ok_zero, of 0 inp "length inp"]
  by (auto simp: libp2p_identify_message_decode_def)

lemma identify_decode_inside_witness:
  "\<exists>e d. libp2p_identify_message_decode (Buf [0x0A, 0x03, 1, 2, 3]) 0 (zero_identify_message None) = Some (e, d) \<and>
     decoded_ok (length [0x0A, 0x03, 1, 2, 3 :: byte]) d"
  using identify_decode_inside [of 0 "zero_identify_message None" "[0x0A, 0x03, 1, 2, 3]"] by simp

text \<open>
  Claim C36. In every reachable state the slots, the events and the positions in decoded messages are well
  formed, and every callback of the host succeeds without leaving a buffer.
\<close>

theorem identify_reachable_safe:
  assumes "identify_host_ok ops reads writes" and "identify_reach ops cfg reads writes p h"
  shows "id_ok p \<and> identify_on_event ops p stream kind h \<noteq> None \<and>
    (fresh_identify reads writes p h t \<longrightarrow>
       identify_on_open ops p (Some t) direction h \<noteq> None \<and> identify_push_on_open ops p (Some t) direction h \<noteq> None)"
proof -
  note inv = id_reach_inv [OF assms]
  have "identify_open_common ops p (Some t) direction k h \<noteq> None" if "fresh_identify reads writes p h t" for k
    using id_open_keeps [OF assms(1) inv that, of direction k] unfolding id_keeps_def by blast
  moreover have "identify_on_event ops p stream kind h \<noteq> None"
    using id_event_keeps [OF assms(1) inv, of stream kind] unfolding id_keeps_def by blast
  ultimately show ?thesis
    using id_inv_ok [OF inv] by (simp add: identify_on_open_def identify_push_on_open_def)
qed

lemma identify_reachable_safe_witness:
  "\<exists>p h. push_run [1, 2, 3] = Some (p, h) \<and>
     identify_on_event identify_memory_ops p (Some 0) LIBP2P_HOST_PROTOCOL_EVENT_READABLE h \<noteq> None"
proof -
  obtain p h where run: "push_run [1, 2, 3] = Some (p, h)" using push_run_state by blast
  from identify_reachable_safe [OF identify_memory_ok push_run_reach [OF run]] run show ?thesis by blast
qed

text \<open>
  Claim C37. A sender sends its own message: on the stream of a slot that writes, the bytes accepted so far
  followed by the pending bytes of the slot are the frame of a complete message with the public key, the
  agent and the version of the configuration.
\<close>

theorem identify_sends_frame:
  assumes "identify_host_ok ops reads writes" and "identify_reach ops cfg reads writes p h" and "i < 16"
    and "is_state (id_streams p ! i) = LIBP2P_IDENTIFY_SLOT_WRITING" and "is_stream (id_streams p ! i) = Some t"
  shows "\<exists>m. message_from cfg m \<and> writes h t @
    drop (is_tx_pos (id_streams p ! i)) (take (is_tx_len (id_streams p ! i)) (is_tx (id_streams p ! i))) =
      identify_frame m"
proof -
  note inv = id_reach_inv [OF assms(1,2)]
  have "id_active (id_streams p ! i)" using assms(4) by (simp add: id_active_def)
  from id_inv_active [OF inv assms(3) this] assms(5)
  have "id_wire cfg (id_streams p ! i) (reads h t) (writes h t)" by auto
  then have "\<exists>m. message_from cfg m \<and>
      take (is_tx_len (id_streams p ! i)) (is_tx (id_streams p ! i)) = identify_frame m \<and>
      writes h t = take (is_tx_pos (id_streams p ! i)) (identify_frame m)"
    using assms(4) unfolding id_wire_def by blast
  then show ?thesis by (metis append_take_drop_id)
qed

lemma identify_sends_frame_witness:
  "\<exists>p h m. identify_reach identify_blocked_ops sample_config mh_reads mh_writes p h \<and>
     is_state (id_streams p ! 0) = LIBP2P_IDENTIFY_SLOT_WRITING \<and> message_from sample_config m \<and>
     mh_writes h 0 @ drop (is_tx_pos (id_streams p ! 0)) (take (is_tx_len (id_streams p ! 0)) (is_tx (id_streams p ! 0))) =
       identify_frame m"
proof -
  from blocked_run obtain p h where
    run: "identify_reach identify_blocked_ops sample_config mh_reads mh_writes p h"
      "is_state (id_streams p ! 0) = LIBP2P_IDENTIFY_SLOT_WRITING" "is_stream (id_streams p ! 0) = Some 0" by blast
  from identify_sends_frame [OF identify_blocked_ok run(1) _ run(2,3)] run show ?thesis by auto
qed

text \<open>
  Claim C38. The receiver gets the message of the peer. Let the frame of a message have at most 2048 bytes, the
  size of the receive buffer, and let the event queue have room. While the bytes read on the stream of a slot
  are the start of the frame, the slot goes on reading, and with the read that completes the frame the
  application gets an event whose positions, looked up in the receive buffer of the slot, hold the strings that the peer sent.
\<close>

theorem identify_receives:
  assumes "identify_host_ok ops reads writes" and "identify_reach ops cfg reads writes p h" and "i < 16"
    and "is_state (id_streams p ! i) = LIBP2P_IDENTIFY_SLOT_READING" and "is_stream (id_streams p ! i) = Some t"
    and "host_read ops h (Some t) (2048 - is_rx_len (id_streams p ! i)) = ((LIBP2P_HOST_OK, bs, fin), h1)"
    and "bs \<noteq> []" and "message_ok m" and "identify_image m \<noteq> []" and "length (identify_frame m) \<le> 2048"
    and "reads h t @ bs = take n (identify_frame m)" and "id_event_len p < 16"
  shows "\<exists>p' h'. identify_read_stream ops p i h = Some (LIBP2P_HOST_OK, p', h') \<and>
    (if n < length (identify_frame m)
     then is_state (id_streams p' ! i) = LIBP2P_IDENTIFY_SLOT_READING \<and> id_event_len p' = id_event_len p
     else id_event_len p' = id_event_len p + 1 \<and> iq_slot_index (pushed_event p p') = i \<and>
       ie_type (iq_event (pushed_event p p')) = LIBP2P_IDENTIFY_EVENT_RECEIVED \<and>
       ie_stream (iq_event (pushed_event p p')) = Some t \<and>
       read_message (is_rx (id_streams p' ! i)) (ie_message (iq_event (pushed_event p p'))) = local_bytes m)"
  using receive_law [OF assms(1) id_reach_inv [OF assms(1,2)] assms(3-12)] by auto

lemma identify_receives_witness:
  "\<exists>p h p' h'. push_run (identify_frame sample_message) = Some (p, h) \<and>
     identify_read_stream identify_memory_ops p 0 h = Some (LIBP2P_HOST_OK, p', h') \<and>
     read_message (is_rx (id_streams p' ! 0)) (ie_message (iq_event (pushed_event p p'))) = local_bytes sample_message"
proof -
  let ?f = "identify_frame sample_message"
  from push_run_state [of ?f] obtain p h where
    run: "push_run ?f = Some (p, h)" and st: "is_state (id_streams p ! 0) = LIBP2P_IDENTIFY_SLOT_READING"
      "is_stream (id_streams p ! 0) = Some 0" "is_rx_len (id_streams p ! 0) = 0" "mh_incoming h 0 = ?f"
      "mh_reads h 0 = []" "id_event_len p = 0" by blast
  have f: "length ?f = 13" "?f \<noteq> []" by (simp_all add: identify_frame_def sample_image uvarint_bytes_small)
  obtain h1 where "host_read identify_memory_ops h (Some 0) 2048 = ((LIBP2P_HOST_OK, ?f, mh_fin h 0), h1)"
    using f st by (simp add: identify_memory_ops_def memory_ops_def)
  with identify_receives [OF identify_memory_ok push_run_reach [OF run] _ st(1,2), of ?f "mh_fin h 0" h1
      sample_message 13] st f sample_message_ok run
  show ?thesis by (auto simp: sample_image)
qed

text \<open>
  Claim C39. The answer to an identify request is complete: when a stream opens, a slot is free for it, the host
  can say its addresses and protocols, the frame of the message fits the send buffer of 2048 bytes, the host
  accepts it in one write and the event queue has room, exactly this frame is sent on the stream and the
  application gets the event that it was.
\<close>

theorem identify_answers:
  assumes "identify_host_ok ops reads writes" and "identify_reach ops cfg reads writes p h"
    and "fresh_identify reads writes p h t" and "identify_alloc_slot p = Some (i, p1)"
    and "host_set_user_data ops h (Some t) (Some i) = (LIBP2P_HOST_OK, h1)"
    and "identify_build_tx_message ops p h1 (Some t) = Some (LIBP2P_IDENTIFY_OK, m)"
    and "length (identify_frame m) \<le> 2048"
    and "host_write ops h1 (Some t) (identify_frame m) False = ((LIBP2P_HOST_OK, length (identify_frame m)), h2)"
    and "id_event_len p < 16"
  shows "\<exists>p' h'. identify_on_open ops p (Some t) LIBP2P_HOST_STREAM_INBOUND h = Some (LIBP2P_HOST_OK, p', h') \<and>
    message_from cfg m \<and> writes h' t = identify_frame m \<and> id_event_len p' = id_event_len p + 1 \<and>
    ie_type (iq_event (pushed_event p p')) = LIBP2P_IDENTIFY_EVENT_SENT \<and>
    ie_stream (iq_event (pushed_event p p')) = Some t"
proof -
  note H = assms(1) and inv = id_reach_inv [OF assms(1,2)]
  have cfg: "id_config p = cfg" using inv by (simp add: id_inv_def)
  from build_law [OF H, of p h1 "Some t"] assms(6) have m: "message_from cfg m" by (auto simp: cfg)
  then have nn: "length (identify_frame m) \<noteq> 0" by (simp add: message_from_def identify_frame_def)
  have i: "i < 16" using id_alloc_law [OF inv assms(4)] by simp
  from open_to_write [OF H inv assms(4-7)] obtain p4 where
    opened: "identify_on_open ops p (Some t) LIBP2P_HOST_STREAM_INBOUND h = identify_write_stream ops p4 i h1" and
    p4: "id_ok p4" "same_events p p4" "is_stream (id_streams p4 ! i) = Some t" "is_tx_pos (id_streams p4 ! i) = 0"
      "is_tx_len (id_streams p4 ! i) = length (identify_frame m)" "length (is_tx (id_streams p4 ! i)) = 2048"
      "take (length (identify_frame m)) (is_tx (id_streams p4 ! i)) = identify_frame m" by blast
  define p5 where "p5 = upd_identify_slot i (is_tx_pos_update (\<lambda>_. length (identify_frame m))) p4"
  have len: "length (id_streams p4) = 16" using p4(1) by (simp add: id_ok_def)
  have same: "same_events p p5" using p4(2) by (simp add: p5_def)
  then have "id_event_len p5 < 16" using assms(9) by (simp add: same_events_def)
  from emit_simple_law [OF id_ok_pos [OF p4(1) i, of "length (identify_frame m)", folded p5_def] this i,
      of LIBP2P_IDENTIFY_EVENT_SENT] obtain p' where
    emit: "identify_emit_simple p5 i LIBP2P_IDENTIFY_EVENT_SENT = (LIBP2P_HOST_OK, p')"
      "id_event_len p' = id_event_len p5 + 1" "ie_type (iq_event (pushed_event p5 p')) = LIBP2P_IDENTIFY_EVENT_SENT"
      "ie_stream (iq_event (pushed_event p5 p')) = Some t" using p4(3) i len by (auto simp: p5_def)
  have sent: "identify_write_stream ops p4 i h1 = Some (LIBP2P_HOST_OK, p', snd (host_finish ops h2 (Some t)))"
    using i nn assms(7,8) emit(1) p4
    by (simp add: identify_write_stream_def identify_constants Let_def p5_def [symmetric])
  have "writes (snd (host_finish ops h2 (Some t))) t = identify_frame m"
    using stream_write_law [OF identify_stream_host [OF H] assms(8)] assms(3)
      identify_quiet(5,6) [OF H, of h "Some t" "Some i"] assms(5)
    by (simp add: identify_quiet [OF H] fresh_identify_def)
  with opened sent m emit same pushed_event_same [OF same, of p'] show ?thesis
    by (simp add: same_events_def)
qed

lemma identify_answers_witness:
  "\<exists>p p' h'. libp2p_identify_init sample_config = Inr p \<and>
     identify_on_open identify_memory_ops p (Some 0) LIBP2P_HOST_STREAM_INBOUND
       (memory_start (\<lambda>_. []) (\<lambda>_. False)) = Some (LIBP2P_HOST_OK, p', h') \<and>
     mh_writes h' 0 = identify_frame sample_answer"
proof -
  let ?h = "memory_start (\<lambda>_. []) (\<lambda>_. False)"
  from start_state obtain p where p: "libp2p_identify_init sample_config = Inr p" "id_config p = sample_config"
    "id_streams p = replicate 16 zero_identify_slot" "id_event_len p = 0" and
    fresh: "\<And>(h :: memory_host) t. mh_reads h t = [] \<Longrightarrow> mh_writes h t = [] \<Longrightarrow> fresh_identify mh_reads mh_writes p h t"
    by blast
  have f: "fresh_identify mh_reads mh_writes p ?h 0" by (rule fresh) (simp_all add: memory_start_def)
  obtain h2 where "host_write identify_memory_ops ?h (Some 0) (identify_frame sample_answer) False =
      ((LIBP2P_HOST_OK, length (identify_frame sample_answer)), h2)"
    by (simp add: identify_memory_ops_def memory_ops_def)
  from identify_answers [OF identify_memory_ok id_reach_init [OF p(1)] f
      sample_open [of identify_memory_ops p, OF disjI1 [OF refl] p(3,2)] _ this] p
  show ?thesis by (auto simp: sample_answer_frame)
qed

text \<open>
  Claim C40. Taking the event of a received message destroys the message: the slot that the event came from is
  cleared in the same call, and whatever the positions in the event point at is zero in the receive buffer
  that the application could look at afterwards.
\<close>

theorem identify_next_event_zeroes:
  assumes "identify_host_ok ops reads writes" and "identify_reach ops cfg reads writes p h"
    and "libp2p_identify_next_event p = (LIBP2P_IDENTIFY_OK, ev, p')"
    and "i = iq_slot_index (id_events p ! id_event_head p)" and "i < 16"
  shows "ev = iq_event (id_events p ! id_event_head p) \<and> decoded_ok 2048 (ie_message ev) \<and>
    (\<forall>k n. k + n \<le> 2048 \<longrightarrow> view_bytes (is_rx (id_streams p' ! i)) (Some (k, n)) = replicate n 0)"
proof -
  note ok = id_inv_ok [OF id_reach_inv [OF assms(1,2)]]
  then have "length (id_streams p) = 16" "id_events_ok p" by (simp_all add: id_ok_def)
  with assms(3-5) have z: "id_streams p' ! i = zero_identify_slot"
    and ev: "ev = iq_event (id_events p ! id_event_head p)" and ok: "decoded_ok 2048 (ie_message ev)"
    by (auto simp: libp2p_identify_next_event_def identify_constants upd_identify_slot_def Let_def id_events_ok_def
        split: if_splits)
  from ev ok z show ?thesis by (auto simp: zero_identify_slot_def identify_limits)
qed

lemma identify_next_event_zeroes_witness:
  "\<exists>p h p1 h1 ev p2. push_run (identify_frame sample_message) = Some (p, h) \<and>
     identify_on_event identify_memory_ops p (Some 0) LIBP2P_HOST_PROTOCOL_EVENT_READABLE h =
       Some (LIBP2P_HOST_OK, p1, h1) \<and> libp2p_identify_next_event p1 = (LIBP2P_IDENTIFY_OK, ev, p2) \<and>
     im_public_key (read_message (is_rx (id_streams p1 ! 0)) (ie_message ev)) = [4, 5, 6] \<and>
     im_public_key (read_message (is_rx (id_streams p2 ! 0)) (ie_message ev)) = [0, 0, 0]"
proof -
  let ?f = "identify_frame sample_message"
  from push_run_state [of ?f] obtain p h where
    run: "push_run ?f = Some (p, h)" and st: "is_state (id_streams p ! 0) = LIBP2P_IDENTIFY_SLOT_READING"
      "is_stream (id_streams p ! 0) = Some 0" "is_rx_len (id_streams p ! 0) = 0" "mh_incoming h 0 = ?f"
      "mh_reads h 0 = []" "id_event_len p = 0" by blast
  note reach = push_run_reach [OF run] and inv = id_reach_inv [OF identify_memory_ok push_run_reach [OF run]]
  have f: "length ?f = 13" "?f \<noteq> []" by (simp_all add: identify_frame_def sample_image uvarint_bytes_small)
  obtain h1 where rd: "host_read identify_memory_ops h (Some 0) 2048 = ((LIBP2P_HOST_OK, ?f, mh_fin h 0), h1)"
    using f st by (simp add: identify_memory_ops_def memory_ops_def)
  with receive_law [OF identify_memory_ok inv _ st(1,2), of ?f "mh_fin h 0" h1 sample_message 13] st f sample_message_ok
  obtain p1 h2 where r: "identify_read_stream identify_memory_ops p 0 h = Some (LIBP2P_HOST_OK, p1, h2)"
    "id_event_len p1 = 1" "id_event_head p1 = id_event_head p" "iq_slot_index (pushed_event p p1) = 0"
    "read_message (is_rx (id_streams p1 ! 0)) (ie_message (iq_event (pushed_event p p1))) = local_bytes sample_message"
    by (auto simp: sample_image)
  have len: "length (id_streams p) = 16" "id_event_head p < 16"
    using id_inv_ok [OF inv] by (simp_all add: id_ok_def id_events_ok_def)
  have "identify_find_stream p (Some 0) = Some 0"
    using st len by (cases "id_streams p") (simp_all add: identify_find_stream_def)
  then have on: "identify_on_event identify_memory_ops p (Some 0) LIBP2P_HOST_PROTOCOL_EVENT_READABLE h =
      Some (LIBP2P_HOST_OK, p1, h2)"
    using st r(1) by (simp add: identify_on_event_def identify_memory_ops_def memory_ops_def)
  note reach1 = id_reach_event [OF reach on]
  obtain e ev p2 where n: "libp2p_identify_next_event p1 = (e, ev, p2)" by (metis prod_cases3)
  with r(2) have e: "e = LIBP2P_IDENTIFY_OK" by (auto simp: libp2p_identify_next_event_def Let_def)
  have q: "id_events p1 ! id_event_head p1 = pushed_event p p1"
    using r(3) st(6) len by (simp add: pushed_event_def)
  have z0: "(0 :: nat) < 16" by simp
  note z = identify_next_event_zeroes [OF identify_memory_ok reach1 n [unfolded e] refl, unfolded q r(4), OF z0]
  then have ev: "ev = iq_event (pushed_event p p1)" "decoded_ok 2048 (ie_message ev)" by blast+
  have key: "im_public_key (read_message (is_rx (id_streams p1 ! 0)) (ie_message ev)) = [4, 5, 6]"
    using r(5) by (simp add: ev(1) local_bytes_def sample_message_def)
  have "length (is_rx (id_streams p1 ! 0)) = 2048"
    using id_slot_at [OF id_reach_inv [OF identify_memory_ok reach1], of 0] by (simp add: id_slot_ok_def)
  with key ev(2) obtain k where "im_public_key (ie_message ev) = Some (k, 3)" "k + 3 \<le> 2048"
    by (cases "im_public_key (ie_message ev)")
      (auto simp: read_message_def decoded_ok_def dest: arg_cong [of _ "[4, 5, 6]" length])
  with z have "im_public_key (read_message (is_rx (id_streams p2 ! 0)) (ie_message ev)) = [0, 0, 0]"
    by (simp add: read_message_def eval_nat_numeral)
  with run on n e key show ?thesis by blast
qed

end
