(* ===== verification/Host.thy ===== *)
theory Host
  imports Multistream Protocol_Host
begin

text \<open>
  The state of the host (\<open>src/src/libp2p/libp2p_host_internal.h\<close>, \<open>src/include/libp2p/libp2p_host.h\<close>) and the
  functions on its tables that neither call the transport nor a protocol (\<open>libp2p_host_core.c\<close>,
  \<open>libp2p_host_dial.c\<close>, parts of \<open>libp2p_host_streams.c\<close> and \<open>libp2p_host_protocols.c\<close>).

  A pointer into a table of the host is the index of the slot, \<open>None\<close> is the null pointer; handles of the
  transport (\<open>void *\<close>) and user data are numbers. The capacity of a table is the length of its list. The back
  pointers to the host are flags, there is one host. The transport is the record \<open>host_transport\<close> of the functions
  of its vtable on a state \<open>'t\<close>, and the callbacks of the registered protocols are functions on the host,
  which has the state \<open>'a\<close> of the application in \<open>lh_app\<close>, so that they may call the host. The counters of the
  drive call in progress (\<open>local_result\<close>) are the component \<open>lh_result\<close>. Null pointer tests for the host itself
  and for out parameters are left out.
\<close>

subsection \<open>Types\<close>

datatype host_state_t = HOST_STATE_INIT | HOST_STATE_STARTED | HOST_STATE_CLOSING | HOST_STATE_CLOSED

datatype host_dial_state_t = HOST_DIAL_FREE | HOST_DIAL_PENDING | HOST_DIAL_EVENTED

datatype host_open_state_t =
  HOST_OPEN_FREE | HOST_OPEN_WAIT_TRANSPORT | HOST_OPEN_NEGOTIATING | HOST_OPEN_EVENTED

datatype host_stream_state_t =
    HOST_STREAM_FREE | HOST_STREAM_NEGOTIATING | HOST_STREAM_OPEN | HOST_STREAM_CLOSING | HOST_STREAM_CLOSED

datatype host_negotiation_state_t =
    HOST_NEG_NONE
  | HOST_NEG_OUT_SEND_MS
  | HOST_NEG_OUT_SEND_PROTOCOL
  | HOST_NEG_OUT_READ_MS
  | HOST_NEG_OUT_READ_PROTOCOL
  | HOST_NEG_IN_READ_MS
  | HOST_NEG_IN_READ_PROTOCOL
  | HOST_NEG_IN_SEND_PROTOCOL
  | HOST_NEG_IN_SEND_NA
  | HOST_NEG_IN_SEND_LS
  | HOST_NEG_DONE
  | HOST_NEG_FAILED

datatype libp2p_host_event_type_t =
    LIBP2P_HOST_EVENT_NONE
  | LIBP2P_HOST_EVENT_CONN_ESTABLISHED
  | LIBP2P_HOST_EVENT_CONN_CLOSED
  | LIBP2P_HOST_EVENT_DIAL_FAILED
  | LIBP2P_HOST_EVENT_STREAM_OPENED
  | LIBP2P_HOST_EVENT_STREAM_OPEN_FAILED
  | LIBP2P_HOST_EVENT_HOST_CLOSED

datatype libp2p_host_transport_event_type_t =
    LIBP2P_HOST_TRANSPORT_EVENT_NONE
  | LIBP2P_HOST_TRANSPORT_EVENT_CONN_ESTABLISHED
  | LIBP2P_HOST_TRANSPORT_EVENT_CONN_CLOSED
  | LIBP2P_HOST_TRANSPORT_EVENT_DIAL_FAILED
  | LIBP2P_HOST_TRANSPORT_EVENT_STREAM_INCOMING
  | LIBP2P_HOST_TRANSPORT_EVENT_STREAM_READABLE
  | LIBP2P_HOST_TRANSPORT_EVENT_STREAM_WRITABLE
  | LIBP2P_HOST_TRANSPORT_EVENT_STREAM_RESET
  | LIBP2P_HOST_TRANSPORT_EVENT_STREAM_CLOSED

record libp2p_host_conn =
  hc_host :: bool
  hc_transport_conn :: "nat option"
  hc_stream_count :: nat
  hc_open_count :: nat
  hc_active :: bool
  hc_closed :: bool
  hc_close_event_pending :: bool
  hc_local_close_requested :: bool

record libp2p_host_stream_open =
  ho_host :: bool
  ho_state :: host_open_state_t
  ho_conn :: "nat option"
  ho_transport_conn :: "nat option"
  ho_transport_stream :: "nat option"
  ho_protocol :: "nat option"
  ho_fallback_protocol :: "nat option"
  ho_user_data :: "nat option"

record libp2p_host_dial =
  hd_host :: bool
  hd_state :: host_dial_state_t
  hd_transport_attempt :: "nat option"
  hd_user_data :: "nat option"

record libp2p_host_stream =
  hs_host :: bool
  hs_conn :: "nat option"
  hs_transport_stream :: "nat option"
  hs_protocol :: "nat option"
  hs_fallback_protocol :: "nat option"
  hs_open_attempt :: "nat option"
  hs_user_data :: "nat option"
  hs_state :: host_stream_state_t
  hs_neg_state :: host_negotiation_state_t
  hs_direction :: libp2p_host_stream_direction_t
  hs_pending_readable :: bool
  hs_pending_writable :: bool
  hs_pending_reset :: bool
  hs_pending_closed :: bool
  hs_outbound_multistream_ready :: bool
  hs_outbound_open_event_queued :: bool
  hs_outbound_fail_event_queued :: bool
  hs_in_frame :: "byte list"
  hs_in_len :: nat
  hs_payload :: "byte list"
  hs_payload_len :: nat
  hs_out_frame :: "byte list"
  hs_out_len :: nat
  hs_out_pos :: nat

record libp2p_host_protocol_t =
  hp_id :: "byte cbuf"
  hp_on_open :: bool
    \<comment> \<open>not a null pointer\<close>
  hp_on_event :: bool

record libp2p_host_event_t =
  he_type :: libp2p_host_event_type_t
  he_conn :: "nat option"
  he_stream :: "nat option"
  he_dial :: "nat option"
  he_stream_open :: "nat option"
  he_user_data :: "nat option"
  he_reason :: libp2p_host_err_t
  he_locally_initiated :: bool
  he_app_error_code :: u64
  he_transport_error_code :: u64

record libp2p_host_transport_event_t =
  te_type :: libp2p_host_transport_event_type_t
  te_conn :: "nat option"
  te_stream :: "nat option"
  te_attempt :: "nat option"
  te_user_data :: "nat option"
  te_reason :: libp2p_host_err_t
  te_app_error_code :: u64
  te_transport_error_code :: u64

record libp2p_host_drive_result_t =
  dr_transport_events :: nat
  dr_negotiation_steps :: nat
  dr_protocol_events :: nat
  dr_host_events :: nat
  dr_made_progress :: bool

record ('t, 'a) libp2p_host =
  lh_magic :: u32
  lh_state :: host_state_t
  lh_max_streams_per_conn :: nat
  lh_max_negotiation_steps :: nat
  lh_transport :: 't
  lh_protocols :: "libp2p_host_protocol_t list"
    \<comment> \<open>the first \<open>protocol_count\<close> entries\<close>
  lh_ms_protocols :: "byte cbuf list"
  lh_protocol_capacity :: nat
  lh_events :: "libp2p_host_event_t list"
  lh_event_head :: nat
  lh_event_len :: nat
  lh_conns :: "libp2p_host_conn list"
  lh_streams :: "libp2p_host_stream list"
  lh_dials :: "libp2p_host_dial list"
  lh_opens :: "libp2p_host_stream_open list"
  lh_open_cursor :: nat
  lh_negotiation_cursor :: nat
  lh_protocol_cursor :: nat
  lh_host_closed_event_queued :: bool
  lh_close_app_error_code :: u64
  lh_result :: libp2p_host_drive_result_t
  lh_app :: 'a

text \<open>The functions of \<open>libp2p_host_transport_vtable_t\<close>; only \<open>conn_release\<close> may be missing.\<close>

record 't host_transport =
  tr_drive :: "'t \<Rightarrow> u64 \<Rightarrow> u32 \<Rightarrow> libp2p_host_err_t \<times> 't"
  tr_next_event :: "'t \<Rightarrow> (libp2p_host_err_t \<times> libp2p_host_transport_event_t) \<times> 't"
  tr_dial :: "'t \<Rightarrow> byte cbuf \<Rightarrow> nat option \<Rightarrow> (libp2p_host_err_t \<times> nat option) \<times> 't"
  tr_open_stream :: "'t \<Rightarrow> nat option \<Rightarrow> (libp2p_host_err_t \<times> nat option) \<times> 't"
  tr_conn_peer_id :: "'t \<Rightarrow> nat option \<Rightarrow> nat \<Rightarrow> libp2p_host_err_t \<times> byte list"
  tr_conn_close :: "'t \<Rightarrow> nat option \<Rightarrow> u64 \<Rightarrow> libp2p_host_err_t \<times> 't"
  tr_conn_release :: "('t \<Rightarrow> nat option \<Rightarrow> libp2p_host_err_t \<times> 't) option"
  tr_stream_read :: "'t \<Rightarrow> nat option \<Rightarrow> nat \<Rightarrow> (libp2p_host_err_t \<times> byte list \<times> bool) \<times> 't"
  tr_stream_write :: "'t \<Rightarrow> nat option \<Rightarrow> byte list \<Rightarrow> bool \<Rightarrow> (libp2p_host_err_t \<times> nat) \<times> 't"
  tr_stream_finish :: "'t \<Rightarrow> nat option \<Rightarrow> libp2p_host_err_t \<times> 't"
  tr_stream_reset :: "'t \<Rightarrow> nat option \<Rightarrow> u64 \<Rightarrow> libp2p_host_err_t \<times> 't"
  tr_stream_stop_sending :: "'t \<Rightarrow> nat option \<Rightarrow> u64 \<Rightarrow> libp2p_host_err_t \<times> 't"

text \<open>The code around the host: its transport and the callbacks of the protocol with a given index.\<close>

record ('t, 'a) host_env =
  env_transport :: "'t host_transport"
  env_on_open :: "nat \<Rightarrow> ('t, 'a) libp2p_host \<Rightarrow> nat \<Rightarrow> libp2p_host_stream_direction_t \<Rightarrow>
    libp2p_host_err_t \<times> ('t, 'a) libp2p_host"
  env_on_event :: "nat \<Rightarrow> ('t, 'a) libp2p_host \<Rightarrow> nat \<Rightarrow> libp2p_host_protocol_event_kind_t \<Rightarrow>
    libp2p_host_err_t \<times> ('t, 'a) libp2p_host"

subsection \<open>Constants\<close>

definition HOST_MAGIC :: u32 where "HOST_MAGIC = 0x6c703248"
definition HOST_NEGOTIATION_FRAME_CAP :: nat where
  "HOST_NEGOTIATION_FRAME_CAP = LIBP2P_MULTISTREAM_SELECT_MAX_ENCODED_MESSAGE_BYTES"
definition HOST_NEGOTIATION_PAYLOAD_CAP :: nat where
  "HOST_NEGOTIATION_PAYLOAD_CAP = LIBP2P_MULTISTREAM_SELECT_MAX_PAYLOAD_BYTES"
definition LIBP2P_HOST_READY_ALL :: u32 where "LIBP2P_HOST_READY_ALL = 15"

text \<open>What \<open>memset\<close> leaves.\<close>

definition zero_host_conn :: libp2p_host_conn where
  "zero_host_conn = \<lparr>hc_host = False, hc_transport_conn = None, hc_stream_count = 0, hc_open_count = 0,
     hc_active = False, hc_closed = False, hc_close_event_pending = False, hc_local_close_requested = False\<rparr>"

definition zero_host_open :: libp2p_host_stream_open where
  "zero_host_open = \<lparr>ho_host = False, ho_state = HOST_OPEN_FREE, ho_conn = None, ho_transport_conn = None,
     ho_transport_stream = None, ho_protocol = None, ho_fallback_protocol = None, ho_user_data = None\<rparr>"

definition zero_host_dial :: libp2p_host_dial where
  "zero_host_dial = \<lparr>hd_host = False, hd_state = HOST_DIAL_FREE, hd_transport_attempt = None, hd_user_data = None\<rparr>"

definition zero_host_stream :: libp2p_host_stream where
  "zero_host_stream = \<lparr>hs_host = False, hs_conn = None, hs_transport_stream = None, hs_protocol = None,
     hs_fallback_protocol = None, hs_open_attempt = None, hs_user_data = None, hs_state = HOST_STREAM_FREE,
     hs_neg_state = HOST_NEG_NONE, hs_direction = LIBP2P_HOST_STREAM_INBOUND, hs_pending_readable = False,
     hs_pending_writable = False, hs_pending_reset = False, hs_pending_closed = False,
     hs_outbound_multistream_ready = False, hs_outbound_open_event_queued = False,
     hs_outbound_fail_event_queued = False, hs_in_frame = replicate HOST_NEGOTIATION_FRAME_CAP 0, hs_in_len = 0,
     hs_payload = replicate HOST_NEGOTIATION_PAYLOAD_CAP 0, hs_payload_len = 0,
     hs_out_frame = replicate HOST_NEGOTIATION_FRAME_CAP 0, hs_out_len = 0, hs_out_pos = 0\<rparr>"

definition zero_host_event :: libp2p_host_event_t where
  "zero_host_event = \<lparr>he_type = LIBP2P_HOST_EVENT_NONE, he_conn = None, he_stream = None, he_dial = None,
     he_stream_open = None, he_user_data = None, he_reason = LIBP2P_HOST_OK, he_locally_initiated = False,
     he_app_error_code = 0, he_transport_error_code = 0\<rparr>"

definition zero_drive_result :: libp2p_host_drive_result_t where
  "zero_drive_result = \<lparr>dr_transport_events = 0, dr_negotiation_steps = 0, dr_protocol_events = 0,
     dr_host_events = 0, dr_made_progress = False\<rparr>"

text \<open>Access to a slot through a pointer to it.\<close>

definition upd_conn ::
  "nat \<Rightarrow> (libp2p_host_conn \<Rightarrow> libp2p_host_conn) \<Rightarrow> ('t, 'a) libp2p_host \<Rightarrow> ('t, 'a) libp2p_host" where
  "upd_conn i f h = h\<lparr>lh_conns := (lh_conns h)[i := f (lh_conns h ! i)]\<rparr>"

definition upd_open ::
  "nat \<Rightarrow> (libp2p_host_stream_open \<Rightarrow> libp2p_host_stream_open) \<Rightarrow> ('t, 'a) libp2p_host \<Rightarrow>
   ('t, 'a) libp2p_host" where
  "upd_open i f h = h\<lparr>lh_opens := (lh_opens h)[i := f (lh_opens h ! i)]\<rparr>"

definition upd_dial ::
  "nat \<Rightarrow> (libp2p_host_dial \<Rightarrow> libp2p_host_dial) \<Rightarrow> ('t, 'a) libp2p_host \<Rightarrow> ('t, 'a) libp2p_host" where
  "upd_dial i f h = h\<lparr>lh_dials := (lh_dials h)[i := f (lh_dials h ! i)]\<rparr>"

definition upd_host_stream ::
  "nat \<Rightarrow> (libp2p_host_stream \<Rightarrow> libp2p_host_stream) \<Rightarrow> ('t, 'a) libp2p_host \<Rightarrow> ('t, 'a) libp2p_host" where
  "upd_host_stream i f h = h\<lparr>lh_streams := (lh_streams h)[i := f (lh_streams h ! i)]\<rparr>"

definition upd_result ::
  "(libp2p_host_drive_result_t \<Rightarrow> libp2p_host_drive_result_t) \<Rightarrow> ('t, 'a) libp2p_host \<Rightarrow> ('t, 'a) libp2p_host" where
  "upd_result f h = h\<lparr>lh_result := f (lh_result h)\<rparr>"

text \<open>A call of the transport that is made for its effect: \<open>(void)transport->f(...)\<close>.\<close>

definition transport_call ::
  "('t \<Rightarrow> libp2p_host_err_t \<times> 't) \<Rightarrow> ('t, 'a) libp2p_host \<Rightarrow> libp2p_host_err_t \<times> ('t, 'a) libp2p_host" where
  "transport_call f h = (case f (lh_transport h) of (err, t) \<Rightarrow> (err, h\<lparr>lh_transport := t\<rparr>))"

subsection \<open>Validation and events\<close>

definition host_validate_any :: "('t, 'a) libp2p_host \<Rightarrow> libp2p_host_err_t" where
  "host_validate_any h = (if lh_magic h \<noteq> HOST_MAGIC then LIBP2P_HOST_ERR_INVALID_ARG else LIBP2P_HOST_OK)"

definition host_validate_started :: "('t, 'a) libp2p_host \<Rightarrow> libp2p_host_err_t" where
  "host_validate_started h =
     (let result = host_validate_any h
      in if result = LIBP2P_HOST_OK
         then (if lh_state h = HOST_STATE_CLOSED then LIBP2P_HOST_ERR_CLOSED
               else if lh_state h \<noteq> HOST_STATE_STARTED \<and> lh_state h \<noteq> HOST_STATE_CLOSING
               then LIBP2P_HOST_ERR_STATE else LIBP2P_HOST_OK)
         else result)"

definition host_event_push ::
  "libp2p_host_event_t \<Rightarrow> ('t, 'a) libp2p_host \<Rightarrow> libp2p_host_err_t \<times> ('t, 'a) libp2p_host" where
  "host_event_push event h =
     (if length (lh_events h) = 0 then (LIBP2P_HOST_ERR_INVALID_ARG, h)
      else if lh_event_len h = length (lh_events h) then (LIBP2P_HOST_ERR_LIMIT, h)
      else
        let pos = (lh_event_head h + lh_event_len h) mod length (lh_events h)
        in (LIBP2P_HOST_OK,
            upd_result (\<lambda>r. r\<lparr>dr_host_events := dr_host_events r + 1, dr_made_progress := True\<rparr>)
              (h\<lparr>lh_events := (lh_events h)[pos := event], lh_event_len := lh_event_len h + 1\<rparr>)))"

subsection \<open>Dials\<close>

definition host_dial_find :: "('t, 'a) libp2p_host \<Rightarrow> nat option \<Rightarrow> nat option" where
  "host_dial_find h transport_attempt =
     (if transport_attempt = None then None
      else find_slot_loop (\<lambda>d. hd_state d = HOST_DIAL_PENDING \<and> hd_transport_attempt d = transport_attempt)
             (lh_dials h) 0)"

definition host_dial_mark_evented :: "nat \<Rightarrow> ('t, 'a) libp2p_host \<Rightarrow> ('t, 'a) libp2p_host" where
  "host_dial_mark_evented i h = upd_dial i (hd_state_update (\<lambda>_. HOST_DIAL_EVENTED)) h"

definition host_dial_alloc :: "('t, 'a) libp2p_host \<Rightarrow> (nat \<times> ('t, 'a) libp2p_host) option" where
  "host_dial_alloc h =
     (case find_slot_loop (\<lambda>d. hd_state d = HOST_DIAL_FREE) (lh_dials h) 0 of
        None \<Rightarrow> None
      | Some i \<Rightarrow> Some (i, upd_dial i
          (\<lambda>_. zero_host_dial\<lparr>hd_host := True, hd_state := HOST_DIAL_PENDING\<rparr>) h))"

definition libp2p_host_dial_multiaddr ::
  "('t, 'a) host_env \<Rightarrow> byte cbuf \<Rightarrow> nat option \<Rightarrow> ('t, 'a) libp2p_host \<Rightarrow>
   (libp2p_host_err_t \<times> nat option) \<times> ('t, 'a) libp2p_host" where
  "libp2p_host_dial_multiaddr env multiaddr user_data h =
     (let result = host_validate_started h
      in if result \<noteq> LIBP2P_HOST_OK then ((result, None), h)
         else if is_null multiaddr \<or> clen multiaddr = 0 then ((LIBP2P_HOST_ERR_INVALID_ARG, None), h)
         else if lh_state h = HOST_STATE_CLOSING then ((LIBP2P_HOST_ERR_CLOSED, None), h)
         else case host_dial_alloc h of
           None \<Rightarrow> ((LIBP2P_HOST_ERR_LIMIT, None), h)
         | Some (i, h1) \<Rightarrow>
             (case tr_dial (env_transport env) (lh_transport h1) multiaddr user_data of
                ((err, attempt), t) \<Rightarrow>
                  let h2 = h1\<lparr>lh_transport := t\<rparr>
                  in if err = LIBP2P_HOST_OK
                     then ((LIBP2P_HOST_OK, Some i),
                           upd_dial i (\<lambda>d. d\<lparr>hd_transport_attempt := attempt, hd_user_data := user_data\<rparr>) h2)
                     else ((err, None), upd_dial i (hd_state_update (\<lambda>_. HOST_DIAL_FREE)) h2)))"

end
