(* ===== verification/Host_Config.thy ===== *)
theory Host_Config
  imports Host Peer_Id
begin

text \<open>
  Configuration and storage of the host, the first part of \<open>src/src/libp2p/libp2p_host_core.c\<close>: the arithmetic
  of sizes, the validation of a configuration, the layout of the caller's storage, the defaults and
  \<open>libp2p_host_init\<close>. The sizes of the C structures depend on the compiler and are a parameter. The lemmas show
  that the blocks of a layout are aligned and disjoint, and that no size overflows.
\<close>

definition HOST_STORAGE_ALIGN :: nat where "HOST_STORAGE_ALIGN = 8"
definition HOST_TRANSPORT_ABI_VERSION :: nat where "HOST_TRANSPORT_ABI_VERSION = 2"
definition LIBP2P_HOST_DEFAULT_MAX_PROTOCOLS :: nat where "LIBP2P_HOST_DEFAULT_MAX_PROTOCOLS = 8"
definition LIBP2P_HOST_DEFAULT_MAX_CONNECTIONS :: nat where "LIBP2P_HOST_DEFAULT_MAX_CONNECTIONS = 64"
definition LIBP2P_HOST_DEFAULT_MAX_STREAMS_PER_CONN :: nat where "LIBP2P_HOST_DEFAULT_MAX_STREAMS_PER_CONN = 128"
definition LIBP2P_HOST_DEFAULT_MAX_PENDING_DIALS :: nat where "LIBP2P_HOST_DEFAULT_MAX_PENDING_DIALS = 16"
definition LIBP2P_HOST_DEFAULT_MAX_PENDING_STREAM_OPENS :: nat where
  "LIBP2P_HOST_DEFAULT_MAX_PENDING_STREAM_OPENS = 64"
definition LIBP2P_HOST_DEFAULT_EVENT_CAPACITY :: nat where "LIBP2P_HOST_DEFAULT_EVENT_CAPACITY = 128"
definition LIBP2P_HOST_DEFAULT_MAX_NEGOTIATION_STEPS :: nat where "LIBP2P_HOST_DEFAULT_MAX_NEGOTIATION_STEPS = 32"

subsection \<open>Sizes\<close>

text \<open>Whether the result overflows, and the result.\<close>

definition host_size_add_overflow :: "nat \<Rightarrow> nat \<Rightarrow> bool \<times> nat" where
  "host_size_add_overflow a b = (if b > SIZE_MAX - a then (True, SIZE_MAX) else (False, a + b))"

definition host_size_mul_overflow :: "nat \<Rightarrow> nat \<Rightarrow> bool \<times> nat" where
  "host_size_mul_overflow a b = (if a \<noteq> 0 \<and> b > SIZE_MAX div a then (True, SIZE_MAX) else (False, a * b))"

definition host_align_up_size :: "nat \<Rightarrow> nat \<Rightarrow> libp2p_host_err_t + nat" where
  "host_align_up_size value alignment =
     (if alignment = 0 then Inl LIBP2P_HOST_ERR_INVALID_ARG
      else
        let remainder = value mod alignment in
        if remainder = 0 then Inr value
        else
          let adjustment = alignment - remainder in
          if adjustment > SIZE_MAX - value then Inl LIBP2P_HOST_ERR_LIMIT else Inr (value + adjustment))"

definition host_ok_then :: "libp2p_host_err_t + 'x \<Rightarrow> ('x \<Rightarrow> libp2p_host_err_t + 'y) \<Rightarrow> libp2p_host_err_t + 'y" where
  "host_ok_then r f = (case r of Inl e \<Rightarrow> Inl e | Inr x \<Rightarrow> f x)"

text \<open>The offset and the cursor behind the block.\<close>

definition host_reserve :: "nat \<Rightarrow> nat \<Rightarrow> nat \<Rightarrow> libp2p_host_err_t + nat \<times> nat" where
  "host_reserve cursor alignment bytes =
     host_ok_then (host_align_up_size cursor alignment) (\<lambda>aligned.
       case host_size_add_overflow aligned bytes of
         (True, _) \<Rightarrow> Inl LIBP2P_HOST_ERR_LIMIT
       | (False, next_cursor) \<Rightarrow> Inr (aligned, next_cursor))"

text \<open>A table: its size with the overflow check, then its place.\<close>

definition host_reserve_table :: "nat \<Rightarrow> nat \<Rightarrow> nat \<Rightarrow> libp2p_host_err_t + nat \<times> nat" where
  "host_reserve_table cursor count elem_size =
     (case host_size_mul_overflow count elem_size of
        (True, _) \<Rightarrow> Inl LIBP2P_HOST_ERR_LIMIT
      | (False, bytes) \<Rightarrow> host_reserve cursor HOST_STORAGE_ALIGN bytes)"

subsection \<open>Configuration\<close>

text \<open>
  The parts of the vtable that the initialisation uses. \<open>tv_functions\<close> says of each function that
  \<open>host_vtable_validate\<close> tests, in its order, whether it is there. The sizes are the answers for the
  configuration of the transport.
\<close>

record 't libp2p_host_transport_vtable_t =
  tv_abi_version :: nat
  tv_functions :: "bool list"
  tv_storage_size :: "libp2p_host_err_t \<times> nat"
  tv_storage_align :: "libp2p_host_err_t \<times> nat"
  tv_init :: "nat \<Rightarrow> byte cbuf \<Rightarrow> libp2p_host_err_t \<times> 't"

record libp2p_host_identity_t =
  hi_peer_id :: "byte cbuf"
  hi_public_key_message :: "byte cbuf"
  hi_sign_fn :: bool
    \<comment> \<open>not a null pointer\<close>

record 't libp2p_host_config_t =
  hg_identity :: libp2p_host_identity_t
  hg_listen_multiaddr :: "byte cbuf"
  hg_transport :: "'t libp2p_host_transport_vtable_t option"
  hg_max_protocols :: nat
  hg_max_connections :: nat
  hg_max_streams_per_conn :: nat
  hg_max_pending_dials :: nat
  hg_max_pending_stream_opens :: nat
  hg_event_capacity :: nat
  hg_max_negotiation_steps :: nat

definition host_vtable_validate :: "'t libp2p_host_transport_vtable_t option \<Rightarrow> libp2p_host_err_t" where
  "host_vtable_validate transport =
     (case transport of
        None \<Rightarrow> LIBP2P_HOST_ERR_INVALID_ARG
      | Some tv \<Rightarrow>
          if tv_abi_version tv \<noteq> HOST_TRANSPORT_ABI_VERSION then LIBP2P_HOST_ERR_UNSUPPORTED
          else if \<not> list_all (\<lambda>given. given) (tv_functions tv) then LIBP2P_HOST_ERR_INVALID_ARG
          else LIBP2P_HOST_OK)"

definition host_config_validate :: "'t libp2p_host_config_t option \<Rightarrow> libp2p_host_err_t" where
  "host_config_validate config =
     (case config of
        None \<Rightarrow> LIBP2P_HOST_ERR_INVALID_ARG
      | Some g \<Rightarrow>
          let ident = hg_identity g
          in if is_null (hi_peer_id ident) \<or> clen (hi_peer_id ident) = 0 \<or>
                clen (hi_peer_id ident) > LIBP2P_PEER_ID_MAX_BYTES \<or>
                is_null (hi_public_key_message ident) \<or> clen (hi_public_key_message ident) = 0 \<or>
                clen (hi_public_key_message ident) > LIBP2P_PEER_ID_SECP256K1_PUBLIC_KEY_MESSAGE_MAX_BYTES \<or>
                \<not> hi_sign_fn ident \<or> is_null (hg_listen_multiaddr g) \<or> clen (hg_listen_multiaddr g) = 0 \<or>
                hg_max_protocols g = 0 \<or> hg_max_connections g = 0 \<or> hg_max_streams_per_conn g = 0 \<or>
                hg_max_pending_dials g = 0 \<or> hg_max_pending_stream_opens g = 0 \<or>
                hg_event_capacity g \<le> hg_max_pending_stream_opens g \<or> hg_max_negotiation_steps g = 0
             then LIBP2P_HOST_ERR_INVALID_ARG
             else host_vtable_validate (hg_transport g))"

definition libp2p_host_config_default :: "'t libp2p_host_config_t" where
  "libp2p_host_config_default =
     \<lparr>hg_identity = \<lparr>hi_peer_id = Null 0, hi_public_key_message = Null 0, hi_sign_fn = False\<rparr>,
      hg_listen_multiaddr = Null 0, hg_transport = None,
      hg_max_protocols = LIBP2P_HOST_DEFAULT_MAX_PROTOCOLS,
      hg_max_connections = LIBP2P_HOST_DEFAULT_MAX_CONNECTIONS,
      hg_max_streams_per_conn = LIBP2P_HOST_DEFAULT_MAX_STREAMS_PER_CONN,
      hg_max_pending_dials = LIBP2P_HOST_DEFAULT_MAX_PENDING_DIALS,
      hg_max_pending_stream_opens = LIBP2P_HOST_DEFAULT_MAX_PENDING_STREAM_OPENS,
      hg_event_capacity = LIBP2P_HOST_DEFAULT_EVENT_CAPACITY,
      hg_max_negotiation_steps = LIBP2P_HOST_DEFAULT_MAX_NEGOTIATION_STEPS\<rparr>"

subsection \<open>Layout\<close>

record host_sizes =
  hz_host :: nat
  hz_protocol :: nat
  hz_ms_protocol :: nat
  hz_event :: nat
  hz_conn :: nat
  hz_stream :: nat
  hz_dial :: nat
  hz_open :: nat

record host_layout_t =
  hl_host_offset :: nat
  hl_protocols_offset :: nat
  hl_ms_protocols_offset :: nat
  hl_events_offset :: nat
  hl_conns_offset :: nat
  hl_streams_offset :: nat
  hl_dials_offset :: nat
  hl_opens_offset :: nat
  hl_transport_offset :: nat
  hl_total_len :: nat
  hl_transport_len :: nat
  hl_transport_align :: nat
  hl_stream_capacity :: nat

definition host_layout_compute ::
  "host_sizes \<Rightarrow> 't libp2p_host_config_t option \<Rightarrow> libp2p_host_err_t + host_layout_t" where
  "host_layout_compute z config =
     (let result = host_config_validate config
      in if result \<noteq> LIBP2P_HOST_OK then Inl result
         else
           let g = the config; tv = the (hg_transport g);
               (size_err, transport_len) = tv_storage_size tv;
               (align_err, transport_align) = tv_storage_align tv
           in if size_err \<noteq> LIBP2P_HOST_OK then Inl size_err
              else if align_err \<noteq> LIBP2P_HOST_OK then Inl align_err
              else if transport_len = 0 \<or> transport_align = 0 then Inl LIBP2P_HOST_ERR_INVALID_ARG
              else case host_size_mul_overflow (hg_max_connections g) (hg_max_streams_per_conn g) of
                (True, _) \<Rightarrow> Inl LIBP2P_HOST_ERR_LIMIT
              | (False, stream_capacity) \<Rightarrow>
                host_ok_then (host_reserve 0 HOST_STORAGE_ALIGN (hz_host z)) (\<lambda>(o_host, c).
                host_ok_then (host_reserve_table c (hg_max_protocols g) (hz_protocol z)) (\<lambda>(o_protocols, c).
                host_ok_then (host_reserve_table c (hg_max_protocols g) (hz_ms_protocol z)) (\<lambda>(o_ms, c).
                host_ok_then (host_reserve_table c (hg_event_capacity g) (hz_event z)) (\<lambda>(o_events, c).
                host_ok_then (host_reserve_table c (hg_max_connections g) (hz_conn z)) (\<lambda>(o_conns, c).
                host_ok_then (host_reserve_table c stream_capacity (hz_stream z)) (\<lambda>(o_streams, c).
                host_ok_then (host_reserve_table c (hg_max_pending_dials g) (hz_dial z)) (\<lambda>(o_dials, c).
                host_ok_then (host_reserve_table c (hg_max_pending_stream_opens g) (hz_open z)) (\<lambda>(o_opens, c).
                host_ok_then (host_reserve c transport_align transport_len) (\<lambda>(o_transport, c).
                Inr \<lparr>hl_host_offset = o_host, hl_protocols_offset = o_protocols, hl_ms_protocols_offset = o_ms,
                     hl_events_offset = o_events, hl_conns_offset = o_conns, hl_streams_offset = o_streams,
                     hl_dials_offset = o_dials, hl_opens_offset = o_opens, hl_transport_offset = o_transport,
                     hl_total_len = c, hl_transport_len = transport_len, hl_transport_align = transport_align,
                     hl_stream_capacity = stream_capacity\<rparr>))))))))))"

definition libp2p_host_storage_size ::
  "host_sizes \<Rightarrow> 't libp2p_host_config_t option \<Rightarrow> libp2p_host_err_t + nat" where
  "libp2p_host_storage_size z config = host_ok_then (host_layout_compute z config) (\<lambda>layout. Inr (hl_total_len layout))"

text \<open>The alignment stored in \<open>*out_align\<close>, which is not null.\<close>

definition libp2p_host_storage_align :: nat where
  "libp2p_host_storage_align = HOST_STORAGE_ALIGN"

subsection \<open>Initialisation\<close>

text \<open>The host with zeroed tables that the initialisation leaves in the storage.\<close>

definition initial_host :: "'t libp2p_host_config_t \<Rightarrow> host_layout_t \<Rightarrow> 't \<Rightarrow> 'a \<Rightarrow> ('t, 'a) libp2p_host" where
  "initial_host g layout t app =
     \<lparr>lh_magic = HOST_MAGIC, lh_state = HOST_STATE_INIT, lh_max_streams_per_conn = hg_max_streams_per_conn g,
      lh_max_negotiation_steps = hg_max_negotiation_steps g, lh_transport = t, lh_protocols = [],
      lh_ms_protocols = [], lh_protocol_capacity = hg_max_protocols g,
      lh_events = replicate (hg_event_capacity g) zero_host_event, lh_event_head = 0, lh_event_len = 0,
      lh_conns = replicate (hg_max_connections g) zero_host_conn,
      lh_streams = replicate (hl_stream_capacity layout) zero_host_stream,
      lh_dials = replicate (hg_max_pending_dials g) zero_host_dial,
      lh_opens = replicate (hg_max_pending_stream_opens g) zero_host_open, lh_open_cursor = 0,
      lh_negotiation_cursor = 0, lh_protocol_cursor = 0, lh_host_closed_event_queued = False,
      lh_close_app_error_code = 0, lh_result = zero_drive_result, lh_app = app\<rparr>"

definition libp2p_host_init ::
  "host_sizes \<Rightarrow> bool \<Rightarrow> nat \<Rightarrow> 't libp2p_host_config_t option \<Rightarrow> 'a \<Rightarrow> libp2p_host_err_t + ('t, 'a) libp2p_host" where
  "libp2p_host_init z storage_given storage_len config app =
     host_ok_then (host_layout_compute z config) (\<lambda>layout.
       if \<not> storage_given \<or> storage_len < hl_total_len layout then Inl LIBP2P_HOST_ERR_INVALID_ARG
       else
         let g = the config
         in case tv_init (the (hg_transport g)) (hl_transport_len layout) (hg_listen_multiaddr g) of
              (result, t) \<Rightarrow>
                if result = LIBP2P_HOST_OK then Inr (initial_host g layout t app) else Inl result)"

subsection \<open>The layout is sound\<close>

text \<open>The blocks of a layout in the order of the storage: offset, size and alignment.\<close>

definition host_layout_blocks ::
  "host_sizes \<Rightarrow> 't libp2p_host_config_t \<Rightarrow> host_layout_t \<Rightarrow> (nat \<times> nat \<times> nat) list" where
  "host_layout_blocks z g L =
     [(hl_host_offset L, hz_host z, HOST_STORAGE_ALIGN),
      (hl_protocols_offset L, hg_max_protocols g * hz_protocol z, HOST_STORAGE_ALIGN),
      (hl_ms_protocols_offset L, hg_max_protocols g * hz_ms_protocol z, HOST_STORAGE_ALIGN),
      (hl_events_offset L, hg_event_capacity g * hz_event z, HOST_STORAGE_ALIGN),
      (hl_conns_offset L, hg_max_connections g * hz_conn z, HOST_STORAGE_ALIGN),
      (hl_streams_offset L, hl_stream_capacity L * hz_stream z, HOST_STORAGE_ALIGN),
      (hl_dials_offset L, hg_max_pending_dials g * hz_dial z, HOST_STORAGE_ALIGN),
      (hl_opens_offset L, hg_max_pending_stream_opens g * hz_open z, HOST_STORAGE_ALIGN),
      (hl_transport_offset L, hl_transport_len L, hl_transport_align L)]"

text \<open>Aligned blocks, one behind the other, from \<open>c\<close> on and within the first \<open>n\<close> bytes.\<close>

fun host_blocks_within :: "nat \<Rightarrow> (nat \<times> nat \<times> nat) list \<Rightarrow> nat \<Rightarrow> bool" where
  "host_blocks_within c [] n \<longleftrightarrow> c \<le> n"
| "host_blocks_within c ((offset, bytes, alignment) # bs) n \<longleftrightarrow>
     c \<le> offset \<and> offset mod alignment = 0 \<and> host_blocks_within (offset + bytes) bs n"

lemma host_align_up:
  assumes "host_align_up_size c a = Inr x" and "c \<le> SIZE_MAX"
  shows "c \<le> x \<and> x mod a = 0 \<and> x \<le> SIZE_MAX"
proof (cases "c mod a = 0")
  case True
  with assms show ?thesis by (simp add: host_align_up_size_def split: if_splits)
next
  case False
  with assms(1) have a: "0 < a" by (simp add: host_align_up_size_def split: if_splits)
  with False assms(1) have x: "x = c + (a - c mod a)" "\<not> SIZE_MAX - c < a - c mod a"
    by (simp_all add: host_align_up_size_def Let_def split: if_splits)
  have "c + (a - c mod a) = a * (c div a) + a"
    using mult_div_mod_eq [of a c] mod_less_divisor [OF a, of c] by linarith
  then have "(c + (a - c mod a)) mod a = 0" by simp
  with x assms(2) show ?thesis by simp
qed

lemma host_then_reserve:
  assumes "host_ok_then (host_reserve c a n) f = Inr y" and "c \<le> SIZE_MAX"
    and "\<And>offset. c \<le> offset \<Longrightarrow> offset mod a = 0 \<Longrightarrow> offset + n \<le> SIZE_MAX \<Longrightarrow> f (offset, offset + n) = Inr y \<Longrightarrow> P"
  shows P
proof -
  from assms(1) obtain offset where al: "host_align_up_size c a = Inr offset"
    and "\<not> SIZE_MAX - offset < n" and f: "f (offset, offset + n) = Inr y"
    by (auto simp: host_ok_then_def host_reserve_def host_size_add_overflow_def split: sum.splits if_splits)
  have "offset + n \<le> SIZE_MAX" using host_align_up [OF al assms(2)] \<open>\<not> SIZE_MAX - offset < n\<close> by linarith
  with host_align_up [OF al assms(2)] assms(3) [of offset] f show P by simp
qed

lemma host_then_table:
  assumes "host_ok_then (host_reserve_table c k n) f = Inr y" and "c \<le> SIZE_MAX"
    and "\<And>offset. c \<le> offset \<Longrightarrow> offset mod HOST_STORAGE_ALIGN = 0 \<Longrightarrow> offset + k * n \<le> SIZE_MAX \<Longrightarrow>
      f (offset, offset + k * n) = Inr y \<Longrightarrow> P"
  shows P
proof -
  from assms(1) have "host_ok_then (host_reserve c HOST_STORAGE_ALIGN (k * n)) f = Inr y"
    by (auto simp: host_reserve_table_def host_size_mul_overflow_def host_ok_then_def split: if_splits)
  from host_then_reserve [OF this assms(2)] assms(3) show P by blast
qed

lemma host_layout_within:
  assumes "host_layout_compute z (Some g) = Inr L"
  shows "host_blocks_within 0 (host_layout_blocks z g L) (hl_total_len L) \<and> hl_total_len L \<le> SIZE_MAX \<and>
    hl_stream_capacity L = hg_max_connections g * hg_max_streams_per_conn g \<and> hl_stream_capacity L \<le> SIZE_MAX"
proof -
  let ?tv = "the (hg_transport g)"
  obtain e1 tl where size: "tv_storage_size ?tv = (e1, tl)" by (cases "tv_storage_size ?tv")
  obtain e2 ta where align: "tv_storage_align ?tv = (e2, ta)" by (cases "tv_storage_align ?tv")
  obtain ov sc where mul: "host_size_mul_overflow (hg_max_connections g) (hg_max_streams_per_conn g) = (ov, sc)"
    by (cases "host_size_mul_overflow (hg_max_connections g) (hg_max_streams_per_conn g)")
  have sc: "sc = hg_max_connections g * hg_max_streams_per_conn g \<and> sc \<le> SIZE_MAX" if "\<not> ov"
  proof -
    let ?a = "hg_max_connections g" and ?b = "hg_max_streams_per_conn g"
    from mul that have sc: "sc = ?a * ?b" and le: "?a = 0 \<or> ?b \<le> SIZE_MAX div ?a"
      by (auto simp: host_size_mul_overflow_def split: if_splits)
    from le have "?a * ?b \<le> ?a * (SIZE_MAX div ?a)" by (metis mult_0 mult_le_mono2 order_refl)
    then have "?a * ?b \<le> SIZE_MAX" by (rule order_trans) (rule times_div_less_eq_dividend)
    with sc show ?thesis by simp
  qed
  show ?thesis
    using assms unfolding host_layout_compute_def Let_def option.sel size align mul prod.case
    apply (cases ov)
    subgoal by (simp split: if_splits)
    apply (simp only: bool.case sum.distinct False_implies_equals split: if_split_asm)
    apply (erule host_then_reserve, simp, simp only: prod.case)
    apply (erule host_then_table, assumption, simp only: prod.case)+
    apply (erule host_then_reserve, assumption, simp only: prod.case)
    apply (drule Inr_inject, hypsubst, simp (no_asm_simp) add: host_layout_blocks_def)
    using sc by blast
qed


lemma host_init_Inr:
  assumes "libp2p_host_init z storage_given storage_len config app = Inr h"
  obtains g L t where "config = Some g" and "host_config_validate config = LIBP2P_HOST_OK"
    and "host_layout_compute z config = Inr L" and "hl_total_len L \<le> storage_len" and "h = initial_host g L t app"
  using assms
  by (cases config) (auto simp: libp2p_host_init_def host_ok_then_def host_layout_compute_def
      host_config_validate_def Let_def split: if_splits sum.splits prod.splits)

end
