(* ===== verification/Host_Streams.thy ===== *)
theory Host_Streams
  imports Host
begin

text \<open>
  \<open>src/src/libp2p/libp2p_host_streams.c\<close>, and the search and the open callback of \<open>libp2p_host_protocols.c\<close>:
  the tables of connections, streams and stream opens, the multistream-select negotiation on a stream, one
  step at a time, and the stream functions for protocols. A result \<open>None\<close> means an access outside of a buffer.
\<close>

subsection \<open>Connections\<close>

fun host_ms_err :: "libp2p_multistream_select_err_t \<Rightarrow> libp2p_host_err_t" where
  "host_ms_err LIBP2P_MULTISTREAM_SELECT_OK = LIBP2P_HOST_OK"
| "host_ms_err LIBP2P_MULTISTREAM_SELECT_ERR_BUF_TOO_SMALL = LIBP2P_HOST_ERR_BUF_TOO_SMALL"
| "host_ms_err LIBP2P_MULTISTREAM_SELECT_ERR_NOT_AVAILABLE = LIBP2P_HOST_ERR_NOT_FOUND"
| "host_ms_err LIBP2P_MULTISTREAM_SELECT_ERR_WOULD_BLOCK = LIBP2P_HOST_ERR_WOULD_BLOCK"
| "host_ms_err _ = LIBP2P_HOST_ERR_NEGOTIATION"

definition host_conn_find :: "('t, 'a) libp2p_host \<Rightarrow> nat option \<Rightarrow> nat option" where
  "host_conn_find h transport_conn =
     (if transport_conn = None then None
      else find_slot_loop (\<lambda>c. hc_active c \<and> hc_transport_conn c = transport_conn) (lh_conns h) 0)"

definition host_conn_alloc ::
  "nat option \<Rightarrow> ('t, 'a) libp2p_host \<Rightarrow> (libp2p_host_err_t \<times> nat option) \<times> ('t, 'a) libp2p_host" where
  "host_conn_alloc transport_conn h =
     (if transport_conn = None then ((LIBP2P_HOST_ERR_INVALID_ARG, None), h)
      else case host_conn_find h transport_conn of
        Some c \<Rightarrow> ((LIBP2P_HOST_OK, Some c), h)
      | None \<Rightarrow>
          (case find_slot_loop (\<lambda>c. \<not> hc_active c) (lh_conns h) 0 of
             None \<Rightarrow> ((LIBP2P_HOST_ERR_LIMIT, None), h)
           | Some c \<Rightarrow>
               ((LIBP2P_HOST_OK, Some c),
                upd_conn c (\<lambda>_. zero_host_conn\<lparr>hc_host := True, hc_transport_conn := transport_conn,
                  hc_active := True\<rparr>) h)))"

definition host_conn_validate_usable :: "('t, 'a) libp2p_host \<Rightarrow> nat option \<Rightarrow> libp2p_host_err_t" where
  "host_conn_validate_usable h conn =
     (case conn of
        None \<Rightarrow> LIBP2P_HOST_ERR_INVALID_ARG
      | Some c \<Rightarrow>
          let k = lh_conns h ! c
          in if \<not> hc_host k then LIBP2P_HOST_ERR_INVALID_ARG
             else if \<not> hc_active k \<or> hc_closed k \<or> hc_transport_conn k = None then LIBP2P_HOST_ERR_CLOSED
             else LIBP2P_HOST_OK)"

definition host_conn_try_recycle ::
  "('t, 'a) host_env \<Rightarrow> nat option \<Rightarrow> ('t, 'a) libp2p_host \<Rightarrow> libp2p_host_err_t \<times> ('t, 'a) libp2p_host" where
  "host_conn_try_recycle env conn h =
     (case conn of
        None \<Rightarrow> (LIBP2P_HOST_OK, h)
      | Some c \<Rightarrow>
          let k = lh_conns h ! c
          in if hc_active k \<and> hc_closed k \<and> \<not> hc_close_event_pending k \<and> hc_stream_count k = 0 \<and>
                hc_open_count k = 0
             then
               let (result, released, h1) =
                 (case tr_conn_release (env_transport env) of
                    Some release \<Rightarrow>
                      if hc_host k \<and> hc_transport_conn k \<noteq> None then
                        (case transport_call (\<lambda>t. release t (hc_transport_conn k)) h of
                           (err, h1) \<Rightarrow>
                             if err = LIBP2P_HOST_ERR_WOULD_BLOCK then (LIBP2P_HOST_OK, False, h1)
                             else (err, True, h1))
                      else (LIBP2P_HOST_OK, True, h)
                  | None \<Rightarrow> (LIBP2P_HOST_OK, True, h))
               in (result,
                   if result = LIBP2P_HOST_OK \<and> released then upd_conn c (\<lambda>_. zero_host_conn) h1 else h1)
             else (LIBP2P_HOST_OK, h))"

fun recycle_quiet_loop ::
  "('t, 'a) host_env \<Rightarrow> nat list \<Rightarrow> ('t, 'a) libp2p_host \<Rightarrow> libp2p_host_err_t \<times> ('t, 'a) libp2p_host" where
  "recycle_quiet_loop env [] h = (LIBP2P_HOST_OK, h)"
| "recycle_quiet_loop env (i # is) h =
     (case host_conn_try_recycle env (Some i) h of
        (result, h1) \<Rightarrow>
          if result = LIBP2P_HOST_OK then recycle_quiet_loop env is h1 else (result, h1))"

definition host_conn_recycle_quiet ::
  "('t, 'a) host_env \<Rightarrow> ('t, 'a) libp2p_host \<Rightarrow> libp2p_host_err_t \<times> ('t, 'a) libp2p_host" where
  "host_conn_recycle_quiet env h = recycle_quiet_loop env [0..<length (lh_conns h)] h"

subsection \<open>Streams and stream opens\<close>

definition host_stream_find :: "('t, 'a) libp2p_host \<Rightarrow> nat option \<Rightarrow> nat option" where
  "host_stream_find h transport_stream =
     (if transport_stream = None then None
      else find_slot_loop (\<lambda>s. hs_state s \<noteq> HOST_STREAM_FREE \<and> hs_transport_stream s = transport_stream)
             (lh_streams h) 0)"

definition host_stream_alloc ::
  "nat option \<Rightarrow> nat option \<Rightarrow> libp2p_host_stream_direction_t \<Rightarrow> nat option \<Rightarrow> nat option \<Rightarrow>
   ('t, 'a) libp2p_host \<Rightarrow> (libp2p_host_err_t \<times> nat option) \<times> ('t, 'a) libp2p_host" where
  "host_stream_alloc conn transport_stream direction protocol open_attempt h =
     (case conn of
        None \<Rightarrow> ((LIBP2P_HOST_ERR_INVALID_ARG, None), h)
      | Some c \<Rightarrow>
          if transport_stream = None then ((LIBP2P_HOST_ERR_INVALID_ARG, None), h)
          else if hc_stream_count (lh_conns h ! c) \<ge> lh_max_streams_per_conn h
          then ((LIBP2P_HOST_ERR_LIMIT, None), h)
          else
            (case find_slot_loop (\<lambda>s. hs_state s = HOST_STREAM_FREE) (lh_streams h) 0 of
               None \<Rightarrow> ((LIBP2P_HOST_ERR_LIMIT, None), h)
             | Some i \<Rightarrow>
                 ((LIBP2P_HOST_OK, Some i),
                  upd_conn c (\<lambda>k. k\<lparr>hc_stream_count := hc_stream_count k + 1\<rparr>)
                    (upd_host_stream i (\<lambda>_. zero_host_stream\<lparr>hs_host := True, hs_conn := conn,
                       hs_transport_stream := transport_stream, hs_protocol := protocol,
                       hs_fallback_protocol := (case open_attempt of
                          None \<Rightarrow> None | Some p \<Rightarrow> ho_fallback_protocol (lh_opens h ! p)),
                       hs_open_attempt := open_attempt, hs_direction := direction,
                       hs_state := HOST_STREAM_NEGOTIATING,
                       hs_neg_state := (if direction = LIBP2P_HOST_STREAM_OUTBOUND then HOST_NEG_OUT_SEND_MS
                                        else HOST_NEG_IN_READ_MS)\<rparr>) h))))"

definition host_open_release :: "nat option \<Rightarrow> ('t, 'a) libp2p_host \<Rightarrow> ('t, 'a) libp2p_host" where
  "host_open_release open h =
     (case open of
        None \<Rightarrow> h
      | Some p \<Rightarrow>
          if ho_state (lh_opens h ! p) \<noteq> HOST_OPEN_FREE then
            let h1 = (case ho_conn (lh_opens h ! p) of
                        None \<Rightarrow> h
                      | Some c \<Rightarrow>
                          if hc_open_count (lh_conns h ! c) \<noteq> 0
                          then upd_conn c (\<lambda>k. k\<lparr>hc_open_count := hc_open_count k - 1\<rparr>) h else h)
            in upd_open p (\<lambda>_. zero_host_open) h1
          else h)"

definition host_stream_release ::
  "('t, 'a) host_env \<Rightarrow> nat \<Rightarrow> ('t, 'a) libp2p_host \<Rightarrow> ('t, 'a) libp2p_host" where
  "host_stream_release env i h =
     (let s = lh_streams h ! i
      in if hs_state s \<noteq> HOST_STREAM_FREE then
           let h1 = (case hs_conn s of
                       None \<Rightarrow> h
                     | Some c \<Rightarrow>
                         if hc_stream_count (lh_conns h ! c) \<noteq> 0
                         then upd_conn c (\<lambda>k. k\<lparr>hc_stream_count := hc_stream_count k - 1\<rparr>) h else h);
               h2 = (case hs_open_attempt s of
                       None \<Rightarrow> h1
                     | Some p \<Rightarrow>
                         if ho_state (lh_opens h1 ! p) \<noteq> HOST_OPEN_EVENTED then host_open_release (Some p) h1
                         else h1);
               h3 = upd_host_stream i (\<lambda>_. zero_host_stream) h2
           in snd (host_conn_try_recycle env (hs_conn s) h3)
         else h)"

definition host_open_alloc :: "('t, 'a) libp2p_host \<Rightarrow> (nat \<times> ('t, 'a) libp2p_host) option" where
  "host_open_alloc h =
     (case find_slot_loop (\<lambda>p. ho_state p = HOST_OPEN_FREE) (lh_opens h) 0 of
        None \<Rightarrow> None
      | Some p \<Rightarrow> Some (p, upd_open p (\<lambda>_. zero_host_open\<lparr>ho_host := True\<rparr>) h))"

subsection \<open>Frames of the negotiation\<close>

definition host_bytes_equal :: "byte list \<Rightarrow> nat \<Rightarrow> byte cbuf \<Rightarrow> bool" where
  "host_bytes_equal a a_len b \<longleftrightarrow> a_len = clen b \<and> \<not> is_null b \<and> take a_len a = contents b"

definition host_protocol_find :: "('t, 'a) libp2p_host \<Rightarrow> byte cbuf \<Rightarrow> libp2p_host_err_t \<times> nat option" where
  "host_protocol_find h pid =
     (if is_null pid \<or> clen pid = 0 then (LIBP2P_HOST_ERR_INVALID_ARG, None)
      else case find_slot_loop (\<lambda>p. clen (hp_id p) = clen pid \<and> contents (hp_id p) = contents pid)
             (lh_protocols h) 0 of
        None \<Rightarrow> (LIBP2P_HOST_ERR_NOT_FOUND, None)
      | Some k \<Rightarrow> (LIBP2P_HOST_OK, Some k))"

definition host_stream_prepare_message ::
  "nat \<Rightarrow> byte cbuf \<Rightarrow> ('t, 'a) libp2p_host \<Rightarrow> (libp2p_host_err_t \<times> ('t, 'a) libp2p_host) option" where
  "host_stream_prepare_message i payload h =
     (if is_null payload \<and> clen payload \<noteq> 0 then Some (LIBP2P_HOST_ERR_INVALID_ARG, h)
      else do {
        (err, written, frame) \<leftarrow>
          libp2p_multistream_select_message_encode payload (Buf (hs_out_frame (lh_streams h ! i)));
        Some (host_ms_err err,
              upd_host_stream i (\<lambda>s. s\<lparr>hs_out_frame := contents frame, hs_out_len := written, hs_out_pos := 0\<rparr>) h)
      })"

definition host_stream_prepare_ls ::
  "nat \<Rightarrow> ('t, 'a) libp2p_host \<Rightarrow> (libp2p_host_err_t \<times> ('t, 'a) libp2p_host) option" where
  "host_stream_prepare_ls i h = do {
     (err, written, payload) \<leftarrow> libp2p_multistream_select_ls_response_payload_encode
       (Buf (lh_ms_protocols h)) (Buf (hs_payload (lh_streams h ! i)));
     (let h1 = upd_host_stream i (\<lambda>s. s\<lparr>hs_payload := contents payload, hs_payload_len := written\<rparr>) h
      in if err = LIBP2P_MULTISTREAM_SELECT_OK
         then host_stream_prepare_message i (Buf (take written (contents payload))) h1
         else Some (host_ms_err err, h1))
   }"

text \<open>The error code, whether \<open>*made_progress\<close> was set, and the host.\<close>

definition host_stream_send_prepared ::
  "('t, 'a) host_env \<Rightarrow> nat \<Rightarrow> ('t, 'a) libp2p_host \<Rightarrow>
   (libp2p_host_err_t \<times> bool \<times> ('t, 'a) libp2p_host) option" where
  "host_stream_send_prepared env i h =
     (let s = lh_streams h ! i
      in if hs_out_pos s \<ge> hs_out_len s then Some (LIBP2P_HOST_OK, False, h)
         else if hs_out_len s > length (hs_out_frame s) then None
         else
           case tr_stream_write (env_transport env) (lh_transport h) (hs_transport_stream s)
                  (drop (hs_out_pos s) (take (hs_out_len s) (hs_out_frame s))) False of
             ((result, accepted), t) \<Rightarrow>
               let h1 = h\<lparr>lh_transport := t\<rparr>
               in if result = LIBP2P_HOST_OK then
                    let pos = hs_out_pos s + accepted
                    in if pos = hs_out_len s
                       then Some (LIBP2P_HOST_OK, accepted \<noteq> 0,
                                  upd_host_stream i (\<lambda>s. s\<lparr>hs_out_len := 0, hs_out_pos := 0\<rparr>) h1)
                       else Some (if accepted = 0 then LIBP2P_HOST_ERR_WOULD_BLOCK else LIBP2P_HOST_OK,
                                  accepted \<noteq> 0, upd_host_stream i (hs_out_pos_update (\<lambda>_. pos)) h1)
                  else Some (result, False, h1))"

text \<open>The branch of \<open>host_stream_read_message\<close>, there twice, that takes a message out of the input.\<close>

definition host_stream_take_message ::
  "nat \<Rightarrow> nat \<Rightarrow> nat \<Rightarrow> byte list \<Rightarrow> ('t, 'a) libp2p_host \<Rightarrow> ('t, 'a) libp2p_host option" where
  "host_stream_take_message i written consumed payload h =
     (let s = lh_streams h ! i
      in do {
        frame \<leftarrow> (if consumed < hs_in_len s
                  then memcpy_at (hs_in_frame s) 0 (drop consumed (take (hs_in_len s) (hs_in_frame s)))
                  else Some (hs_in_frame s));
        Some (upd_host_stream i (\<lambda>s. s\<lparr>hs_payload := payload, hs_payload_len := written, hs_in_frame := frame,
                hs_in_len := hs_in_len s - consumed\<rparr>) h)
      })"

text \<open>The error code, \<open>*made_progress\<close>, \<open>*out_message_ready\<close> and the host.\<close>

definition host_stream_read_message ::
  "('t, 'a) host_env \<Rightarrow> nat \<Rightarrow> ('t, 'a) libp2p_host \<Rightarrow>
   (libp2p_host_err_t \<times> bool \<times> bool \<times> ('t, 'a) libp2p_host) option" where
  "host_stream_read_message env i h =
     (let s = lh_streams h ! i
      in do {
        (decode_err, written, consumed, payload) \<leftarrow>
          (if hs_in_len s \<noteq> 0
           then libp2p_multistream_select_message_decode (Buf (take (hs_in_len s) (hs_in_frame s)))
                  (Buf (hs_payload s))
           else Some (LIBP2P_MULTISTREAM_SELECT_ERR_TRUNCATED, 0, 0, Buf (hs_payload s)));
        (if decode_err = LIBP2P_MULTISTREAM_SELECT_OK then do {
           h1 \<leftarrow> host_stream_take_message i written consumed (contents payload) h;
           Some (LIBP2P_HOST_OK, True, True, h1)
         }
         else if decode_err = LIBP2P_MULTISTREAM_SELECT_ERR_TRUNCATED then
           (if hs_in_len s = length (hs_in_frame s) then Some (LIBP2P_HOST_ERR_NEGOTIATION, False, False, h)
            else
              case tr_stream_read (env_transport env) (lh_transport h) (hs_transport_stream s)
                     (length (hs_in_frame s) - hs_in_len s) of
                ((result, bytes, fin), t) \<Rightarrow> do {
                  frame \<leftarrow> memcpy_at (hs_in_frame s) (hs_in_len s) bytes;
                  (let h1 = upd_host_stream i (hs_in_frame_update (\<lambda>_. frame)) (h\<lparr>lh_transport := t\<rparr>)
                   in if result = LIBP2P_HOST_OK then
                        let h2 = upd_host_stream i (\<lambda>s. s\<lparr>hs_in_len := hs_in_len s + length bytes\<rparr>) h1;
                            progress = (length bytes \<noteq> 0)
                        in if length bytes = 0 \<and> fin then Some (LIBP2P_HOST_ERR_NEGOTIATION, progress, False, h2)
                           else do {
                             (decode_err2, written2, consumed2, payload2) \<leftarrow>
                               libp2p_multistream_select_message_decode
                                 (Buf (take (hs_in_len s + length bytes) frame)) (Buf (hs_payload s));
                             (if decode_err2 = LIBP2P_MULTISTREAM_SELECT_OK then do {
                                h3 \<leftarrow> host_stream_take_message i written2 consumed2 (contents payload2) h2;
                                Some (LIBP2P_HOST_OK, True, True, h3)
                              }
                              else if decode_err2 = LIBP2P_MULTISTREAM_SELECT_ERR_TRUNCATED
                              then Some (LIBP2P_HOST_ERR_WOULD_BLOCK, progress, False, h2)
                              else Some (host_ms_err decode_err2, progress, False, h2))
                           }
                      else Some (result, False, False, h1))
                })
         else Some (host_ms_err decode_err, False, False, h))
      })"

subsection \<open>Ends of a negotiation\<close>

definition host_protocol_open ::
  "('t, 'a) host_env \<Rightarrow> nat \<Rightarrow> ('t, 'a) libp2p_host \<Rightarrow> libp2p_host_err_t \<times> ('t, 'a) libp2p_host" where
  "host_protocol_open env i h =
     (case hs_protocol (lh_streams h ! i) of
        None \<Rightarrow> (LIBP2P_HOST_ERR_INVALID_ARG, h)
      | Some k \<Rightarrow>
          if \<not> hp_on_open (lh_protocols h ! k) then (LIBP2P_HOST_ERR_INVALID_ARG, h)
          else
            case env_on_open env k h i (hs_direction (lh_streams h ! i)) of
              (out, h1) \<Rightarrow>
                (out, upd_result (\<lambda>r. r\<lparr>dr_protocol_events := dr_protocol_events r + 1,
                        dr_made_progress := True\<rparr>) h1))"

definition host_stream_fail_negotiation ::
  "('t, 'a) host_env \<Rightarrow> nat \<Rightarrow> libp2p_host_err_t \<Rightarrow> libp2p_host_transport_event_t option \<Rightarrow>
   ('t, 'a) libp2p_host \<Rightarrow> libp2p_host_err_t \<times> ('t, 'a) libp2p_host" where
  "host_stream_fail_negotiation env i reason termination_event h =
     (let h1 = upd_host_stream i (hs_neg_state_update (\<lambda>_. HOST_NEG_FAILED)) h;
          s = lh_streams h1 ! i;
          h2 = (if (case termination_event of None \<Rightarrow> True
                    | Some e \<Rightarrow> te_type e = LIBP2P_HOST_TRANSPORT_EVENT_STREAM_RESET)
                then snd (transport_call (\<lambda>t. tr_stream_reset (env_transport env) t (hs_transport_stream s) 0) h1)
                else h1)
      in if hs_direction s = LIBP2P_HOST_STREAM_OUTBOUND \<and> \<not> hs_outbound_fail_event_queued s then
           let event = zero_host_event\<lparr>he_type := LIBP2P_HOST_EVENT_STREAM_OPEN_FAILED, he_conn := hs_conn s,
                 he_stream_open := hs_open_attempt s, he_reason := reason,
                 he_app_error_code := (case termination_event of None \<Rightarrow> 0 | Some e \<Rightarrow> te_app_error_code e),
                 he_transport_error_code :=
                   (case termination_event of None \<Rightarrow> 0 | Some e \<Rightarrow> te_transport_error_code e),
                 he_user_data := (case hs_open_attempt s of None \<Rightarrow> None
                                  | Some p \<Rightarrow> ho_user_data (lh_opens h2 ! p))\<rparr>;
               h3 = (case hs_open_attempt s of None \<Rightarrow> h2
                     | Some p \<Rightarrow> upd_open p (ho_state_update (\<lambda>_. HOST_OPEN_EVENTED)) h2);
               h4 = upd_host_stream i (hs_outbound_fail_event_queued_update (\<lambda>_. True)) h3;
               (err, h5) = host_event_push event h4;
               h6 = (if err \<noteq> LIBP2P_HOST_OK then host_open_release (hs_open_attempt s) h5 else h5)
           in (err, host_stream_release env i h6)
         else (LIBP2P_HOST_OK, host_stream_release env i h2))"

definition host_stream_complete_negotiation ::
  "('t, 'a) host_env \<Rightarrow> nat \<Rightarrow> ('t, 'a) libp2p_host \<Rightarrow> libp2p_host_err_t \<times> ('t, 'a) libp2p_host" where
  "host_stream_complete_negotiation env i h =
     (let h1 = upd_host_stream i (\<lambda>s. s\<lparr>hs_neg_state := HOST_NEG_DONE, hs_state := HOST_STREAM_OPEN\<rparr>) h
      in case host_protocol_open env i h1 of
        (err, h2) \<Rightarrow>
          if err \<noteq> LIBP2P_HOST_OK
          then host_stream_fail_negotiation env i LIBP2P_HOST_ERR_PROTOCOL None h2
          else
            let h3 = upd_host_stream i (\<lambda>s. s\<lparr>hs_pending_writable := True, hs_pending_readable := True\<rparr>) h2;
                s = lh_streams h3 ! i
            in if hs_direction s = LIBP2P_HOST_STREAM_OUTBOUND \<and> \<not> hs_outbound_open_event_queued s then
                 let event = zero_host_event\<lparr>he_type := LIBP2P_HOST_EVENT_STREAM_OPENED, he_conn := hs_conn s,
                       he_stream := Some i, he_stream_open := hs_open_attempt s,
                       he_user_data := (case hs_open_attempt s of None \<Rightarrow> None
                                        | Some p \<Rightarrow> ho_user_data (lh_opens h3 ! p))\<rparr>;
                     h4 = (case hs_open_attempt s of None \<Rightarrow> h3
                           | Some p \<Rightarrow> upd_open p (ho_state_update (\<lambda>_. HOST_OPEN_EVENTED)) h3);
                     h5 = upd_host_stream i (hs_outbound_open_event_queued_update (\<lambda>_. True)) h4;
                     (err2, h6) = host_event_push event h5
                 in (err2,
                     if err2 \<noteq> LIBP2P_HOST_OK \<and> hs_open_attempt s \<noteq> None
                     then upd_host_stream i (hs_open_attempt_update (\<lambda>_. None))
                            (host_open_release (hs_open_attempt s) h6)
                     else h6)
               else (LIBP2P_HOST_OK, h3))"

subsection \<open>Steps of a negotiation\<close>

text \<open>A step under \<open>err == OK\<close> that keeps the progress flag so far.\<close>

definition after_ok ::
  "(libp2p_host_err_t \<times> ('t, 'a) libp2p_host) option \<Rightarrow> bool \<Rightarrow>
   (('t, 'a) libp2p_host \<Rightarrow> (libp2p_host_err_t \<times> bool \<times> ('t, 'a) libp2p_host) option) \<Rightarrow>
   (libp2p_host_err_t \<times> bool \<times> ('t, 'a) libp2p_host) option" where
  "after_ok m progress f = do {
     (err, h) \<leftarrow> m;
     (if err = LIBP2P_HOST_OK then f h else Some (err, progress, h))
   }"

text \<open>Sending what is prepared; when all of it is out, \<open>f\<close>.\<close>

definition send_then ::
  "('t, 'a) host_env \<Rightarrow> nat \<Rightarrow>
   (bool \<Rightarrow> ('t, 'a) libp2p_host \<Rightarrow> libp2p_host_err_t \<times> bool \<times> ('t, 'a) libp2p_host) \<Rightarrow>
   ('t, 'a) libp2p_host \<Rightarrow> (libp2p_host_err_t \<times> bool \<times> ('t, 'a) libp2p_host) option" where
  "send_then env i f h = do {
     (err, progress, h1) \<leftarrow> host_stream_send_prepared env i h;
     Some (if err = LIBP2P_HOST_OK \<and> hs_out_len (lh_streams h1 ! i) = 0 then f progress h1
           else (err, progress, h1))
   }"

definition set_neg_state ::
  "nat \<Rightarrow> host_negotiation_state_t \<Rightarrow> ('t, 'a) libp2p_host \<Rightarrow> ('t, 'a) libp2p_host" where
  "set_neg_state i st h = upd_host_stream i (hs_neg_state_update (\<lambda>_. st)) h"

text \<open>A message that is read; when one is there, \<open>f\<close>.\<close>

definition read_then ::
  "('t, 'a) host_env \<Rightarrow> nat \<Rightarrow>
   (('t, 'a) libp2p_host \<Rightarrow> (libp2p_host_err_t \<times> ('t, 'a) libp2p_host) option) \<Rightarrow>
   ('t, 'a) libp2p_host \<Rightarrow> (libp2p_host_err_t \<times> bool \<times> ('t, 'a) libp2p_host) option" where
  "read_then env i f h = do {
     (err, progress, ready, h1) \<leftarrow> host_stream_read_message env i h;
     (if err = LIBP2P_HOST_OK \<and> ready then do {
        (err2, h2) \<leftarrow> f h1;
        Some (err2, progress, h2)
      }
      else Some (err, progress, h1))
   }"

definition payload_is :: "('t, 'a) libp2p_host \<Rightarrow> nat \<Rightarrow> byte cbuf \<Rightarrow> bool" where
  "payload_is h i expected =
     host_bytes_equal (hs_payload (lh_streams h ! i)) (hs_payload_len (lh_streams h ! i)) expected"

text \<open>The error code, whether progress was made, and the host.\<close>

definition host_stream_outbound_step ::
  "('t, 'a) host_env \<Rightarrow> nat \<Rightarrow> ('t, 'a) libp2p_host \<Rightarrow>
   (libp2p_host_err_t \<times> bool \<times> ('t, 'a) libp2p_host) option" where
  "host_stream_outbound_step env i h =
     (let s = lh_streams h ! i
      in case hs_neg_state s of
        HOST_NEG_OUT_SEND_MS \<Rightarrow>
          after_ok (if hs_out_len s = 0
                    then host_stream_prepare_message i (Buf LIBP2P_MULTISTREAM_SELECT_PROTOCOL_ID) h
                    else Some (LIBP2P_HOST_OK, h)) False
            (send_then env i (\<lambda>_ h1. (LIBP2P_HOST_OK, True, set_neg_state i HOST_NEG_OUT_SEND_PROTOCOL h1)))
      | HOST_NEG_OUT_SEND_PROTOCOL \<Rightarrow>
          (case hs_protocol s of
             None \<Rightarrow> Some (LIBP2P_HOST_ERR_NEGOTIATION, False, h)
           | Some k \<Rightarrow>
               if is_null (hp_id (lh_protocols h ! k)) then Some (LIBP2P_HOST_ERR_NEGOTIATION, False, h)
               else
                 after_ok (if hs_out_len s = 0
                           then host_stream_prepare_message i (hp_id (lh_protocols h ! k)) h
                           else Some (LIBP2P_HOST_OK, h)) False
                   (send_then env i (\<lambda>_ h1. (LIBP2P_HOST_OK, True, set_neg_state i
                      (if hs_outbound_multistream_ready s then HOST_NEG_OUT_READ_PROTOCOL
                       else HOST_NEG_OUT_READ_MS) h1))))
      | HOST_NEG_OUT_READ_MS \<Rightarrow>
          read_then env i (\<lambda>h1. Some
            (if payload_is h1 i (Buf LIBP2P_MULTISTREAM_SELECT_PROTOCOL_ID)
             then (LIBP2P_HOST_OK, upd_host_stream i (\<lambda>s. s\<lparr>hs_outbound_multistream_ready := True,
                     hs_neg_state := HOST_NEG_OUT_READ_PROTOCOL\<rparr>) h1)
             else (LIBP2P_HOST_ERR_NEGOTIATION, h1))) h
      | HOST_NEG_OUT_READ_PROTOCOL \<Rightarrow>
          read_then env i (\<lambda>h1.
            let s1 = lh_streams h1 ! i
            in Some
              (if (case hs_protocol s1 of None \<Rightarrow> False | Some k \<Rightarrow> payload_is h1 i (hp_id (lh_protocols h1 ! k)))
               then host_stream_complete_negotiation env i h1
               else if payload_is h1 i (Buf LIBP2P_MULTISTREAM_SELECT_NA) then
                 (if hs_fallback_protocol s1 \<noteq> None then
                    let h2 = upd_host_stream i (\<lambda>s. s\<lparr>hs_protocol := hs_fallback_protocol s,
                               hs_fallback_protocol := None, hs_payload_len := 0,
                               hs_neg_state := HOST_NEG_OUT_SEND_PROTOCOL\<rparr>) h1
                    in (LIBP2P_HOST_OK,
                        case hs_open_attempt s1 of None \<Rightarrow> h2
                        | Some p \<Rightarrow> upd_open p (\<lambda>o'. o'\<lparr>ho_protocol := hs_fallback_protocol s1,
                                     ho_fallback_protocol := None\<rparr>) h2)
                  else host_stream_fail_negotiation env i LIBP2P_HOST_ERR_UNSUPPORTED None h1)
               else (LIBP2P_HOST_ERR_NEGOTIATION, h1))) h
      | _ \<Rightarrow> Some (LIBP2P_HOST_ERR_STATE, False, h))"

definition host_stream_inbound_step ::
  "('t, 'a) host_env \<Rightarrow> nat \<Rightarrow> ('t, 'a) libp2p_host \<Rightarrow>
   (libp2p_host_err_t \<times> bool \<times> ('t, 'a) libp2p_host) option" where
  "host_stream_inbound_step env i h =
     (case hs_neg_state (lh_streams h ! i) of
        HOST_NEG_IN_READ_MS \<Rightarrow>
          read_then env i (\<lambda>h1.
            if payload_is h1 i (Buf LIBP2P_MULTISTREAM_SELECT_PROTOCOL_ID) then do {
              (err, h2) \<leftarrow> host_stream_prepare_message i (Buf LIBP2P_MULTISTREAM_SELECT_PROTOCOL_ID) h1;
              Some (err, if err = LIBP2P_HOST_OK then set_neg_state i HOST_NEG_IN_SEND_PROTOCOL h2 else h2)
            }
            else Some (LIBP2P_HOST_ERR_NEGOTIATION, h1)) h
      | HOST_NEG_IN_SEND_PROTOCOL \<Rightarrow>
          send_then env i (\<lambda>progress h1.
            if hs_protocol (lh_streams h1 ! i) \<noteq> None then
              (case host_stream_complete_negotiation env i h1 of (err, h2) \<Rightarrow> (err, progress, h2))
            else (LIBP2P_HOST_OK, True, set_neg_state i HOST_NEG_IN_READ_PROTOCOL h1)) h
      | HOST_NEG_IN_READ_PROTOCOL \<Rightarrow>
          read_then env i (\<lambda>h1.
            let s1 = lh_streams h1 ! i
            in if payload_is h1 i (Buf LIBP2P_MULTISTREAM_SELECT_LS) then do {
                 (err, h2) \<leftarrow> host_stream_prepare_ls i h1;
                 Some (err, if err = LIBP2P_HOST_OK then set_neg_state i HOST_NEG_IN_SEND_LS h2 else h2)
               }
               else
                 case host_protocol_find h1 (Buf (take (hs_payload_len s1) (hs_payload s1))) of
                   (find_err, protocol) \<Rightarrow>
                     (case protocol of
                        Some k \<Rightarrow> do {
                          (err, h2) \<leftarrow> host_stream_prepare_message i (hp_id (lh_protocols h1 ! k))
                            (upd_host_stream i (hs_protocol_update (\<lambda>_. protocol)) h1);
                          Some (err, if err = LIBP2P_HOST_OK then set_neg_state i HOST_NEG_IN_SEND_PROTOCOL h2
                                     else h2)
                        }
                      | None \<Rightarrow> do {
                          (err, h2) \<leftarrow> host_stream_prepare_message i (Buf LIBP2P_MULTISTREAM_SELECT_NA) h1;
                          Some (err, if err = LIBP2P_HOST_OK then set_neg_state i HOST_NEG_IN_SEND_NA h2 else h2)
                        })) h
      | HOST_NEG_IN_SEND_NA \<Rightarrow>
          send_then env i (\<lambda>_ h1. (LIBP2P_HOST_OK, True, set_neg_state i HOST_NEG_IN_READ_PROTOCOL h1)) h
      | HOST_NEG_IN_SEND_LS \<Rightarrow>
          send_then env i (\<lambda>_ h1. (LIBP2P_HOST_OK, True, set_neg_state i HOST_NEG_IN_READ_PROTOCOL h1)) h
      | _ \<Rightarrow> Some (LIBP2P_HOST_ERR_STATE, False, h))"

text \<open>The error code, whether \<open>*out_progress\<close> was set, and the host.\<close>

definition host_stream_negotiation_step ::
  "('t, 'a) host_env \<Rightarrow> nat \<Rightarrow> ('t, 'a) libp2p_host \<Rightarrow>
   (libp2p_host_err_t \<times> bool \<times> ('t, 'a) libp2p_host) option" where
  "host_stream_negotiation_step env i h =
     (let h1 = upd_result (\<lambda>r. r\<lparr>dr_negotiation_steps := dr_negotiation_steps r + 1\<rparr>) h
      in do {
        (err, made_progress, h2) \<leftarrow>
          (if hs_direction (lh_streams h1 ! i) = LIBP2P_HOST_STREAM_OUTBOUND
           then host_stream_outbound_step env i h1 else host_stream_inbound_step env i h1);
        (let (err2, failed, h3) =
               (if err = LIBP2P_HOST_ERR_WOULD_BLOCK then (LIBP2P_HOST_OK, False, h2)
                else if err \<noteq> LIBP2P_HOST_OK then
                  (case host_stream_fail_negotiation env i err None h2 of (e, h3) \<Rightarrow> (e, True, h3))
                else (LIBP2P_HOST_OK, False, h2))
         in Some (err2, failed \<or> made_progress,
                  if made_progress then upd_result (dr_made_progress_update (\<lambda>_. True)) h3 else h3))
      })"

text \<open>
  The loop of \<open>host_stream_negotiation_one\<close>: \<open>n\<close> slots are left to check. The result has the error code and
  \<open>*out_progress\<close>.
\<close>

fun negotiation_one_loop ::
  "('t, 'a) host_env \<Rightarrow> nat \<Rightarrow> ('t, 'a) libp2p_host \<Rightarrow>
   (libp2p_host_err_t \<times> bool \<times> ('t, 'a) libp2p_host) option" where
  "negotiation_one_loop env 0 h = Some (LIBP2P_HOST_OK, False, h)"
| "negotiation_one_loop env (Suc n) h =
     (if dr_negotiation_steps (lh_result h) < lh_max_negotiation_steps h then
        let index = lh_negotiation_cursor h mod length (lh_streams h);
            h1 = h\<lparr>lh_negotiation_cursor := (lh_negotiation_cursor h + 1) mod length (lh_streams h)\<rparr>
        in if hs_state (lh_streams h1 ! index) = HOST_STREAM_NEGOTIATING then do {
             (err, progress, h2) \<leftarrow> host_stream_negotiation_step env index h1;
             (if progress \<or> err \<noteq> LIBP2P_HOST_OK then Some (err, progress, h2)
              else negotiation_one_loop env n h2)
           }
           else negotiation_one_loop env n h1
      else Some (LIBP2P_HOST_OK, False, h))"

definition host_stream_negotiation_one ::
  "('t, 'a) host_env \<Rightarrow> ('t, 'a) libp2p_host \<Rightarrow>
   (libp2p_host_err_t \<times> bool \<times> ('t, 'a) libp2p_host) option" where
  "host_stream_negotiation_one env h =
     (if dr_negotiation_steps (lh_result h) \<ge> lh_max_negotiation_steps h then Some (LIBP2P_HOST_OK, False, h)
      else negotiation_one_loop env (length (lh_streams h)) h)"

subsection \<open>Opening streams\<close>

text \<open>The branches of \<open>host_stream_open_retry_one\<close> that report a failure.\<close>

definition host_open_failed ::
  "nat \<Rightarrow> libp2p_host_err_t \<Rightarrow> ('t, 'a) libp2p_host \<Rightarrow> libp2p_host_err_t \<times> bool \<times> ('t, 'a) libp2p_host" where
  "host_open_failed p reason h =
     (let open' = lh_opens h ! p;
          event = zero_host_event\<lparr>he_type := LIBP2P_HOST_EVENT_STREAM_OPEN_FAILED, he_conn := ho_conn open',
            he_stream_open := Some p, he_user_data := ho_user_data open', he_reason := reason\<rparr>;
          (err, h1) = host_event_push event (upd_open p (ho_state_update (\<lambda>_. HOST_OPEN_EVENTED)) h)
      in if err \<noteq> LIBP2P_HOST_OK then (err, False, host_open_release (Some p) h1) else (err, True, h1))"

definition host_open_retry ::
  "('t, 'a) host_env \<Rightarrow> nat \<Rightarrow> ('t, 'a) libp2p_host \<Rightarrow> libp2p_host_err_t \<times> bool \<times> ('t, 'a) libp2p_host" where
  "host_open_retry env p h =
     (case tr_open_stream (env_transport env) (lh_transport h) (ho_transport_conn (lh_opens h ! p)) of
        ((err, transport_stream), t) \<Rightarrow>
          let h1 = h\<lparr>lh_transport := t\<rparr>
          in if err = LIBP2P_HOST_OK then
               let h2 = upd_open p (\<lambda>o'. o'\<lparr>ho_transport_stream := transport_stream,
                          ho_state := HOST_OPEN_NEGOTIATING\<rparr>) h1;
                   ((err2, stream), h3) = host_stream_alloc (ho_conn (lh_opens h2 ! p)) transport_stream
                          LIBP2P_HOST_STREAM_OUTBOUND (ho_protocol (lh_opens h2 ! p)) (Some p) h2
               in if err2 = LIBP2P_HOST_OK
                  then (LIBP2P_HOST_OK, True, upd_result (dr_made_progress_update (\<lambda>_. True)) h3)
                  else host_open_failed p err2
                         (snd (transport_call (\<lambda>t. tr_stream_reset (env_transport env) t transport_stream 0) h3))
             else if err = LIBP2P_HOST_ERR_WOULD_BLOCK then (LIBP2P_HOST_OK, False, h1)
             else host_open_failed p err h1)"

text \<open>\<open>n\<close> slots are left to check; the result has the error code, \<open>*out_progress\<close> and what is left.\<close>

fun host_stream_open_retry_one ::
  "('t, 'a) host_env \<Rightarrow> nat \<Rightarrow> ('t, 'a) libp2p_host \<Rightarrow> libp2p_host_err_t \<times> bool \<times> nat \<times> ('t, 'a) libp2p_host" where
  "host_stream_open_retry_one env 0 h = (LIBP2P_HOST_OK, False, 0, h)"
| "host_stream_open_retry_one env (Suc n) h =
     (let index = lh_open_cursor h mod length (lh_opens h);
          h1 = h\<lparr>lh_open_cursor := (lh_open_cursor h + 1) mod length (lh_opens h)\<rparr>
      in if ho_state (lh_opens h1 ! index) = HOST_OPEN_WAIT_TRANSPORT then
           (case host_open_retry env index h1 of
              (err, progress, h2) \<Rightarrow>
                if progress \<or> err \<noteq> LIBP2P_HOST_OK then (err, progress, n, h2)
                else host_stream_open_retry_one env n h2)
         else host_stream_open_retry_one env n h1)"

definition host_open_stream_with_optional_fallback ::
  "('t, 'a) host_env \<Rightarrow> nat option \<Rightarrow> byte cbuf \<Rightarrow> byte cbuf \<Rightarrow> nat option \<Rightarrow> ('t, 'a) libp2p_host \<Rightarrow>
   (libp2p_host_err_t \<times> nat option) \<times> ('t, 'a) libp2p_host" where
  "host_open_stream_with_optional_fallback env conn protocol_id fallback_protocol_id user_data h =
     (let result = host_validate_started h
      in if result \<noteq> LIBP2P_HOST_OK then ((result, None), h)
         else case conn of
           None \<Rightarrow> ((LIBP2P_HOST_ERR_INVALID_ARG, None), h)
         | Some c \<Rightarrow>
             if \<not> hc_host (lh_conns h ! c) \<or> is_null protocol_id \<or> clen protocol_id = 0 \<or>
                is_null fallback_protocol_id \<and> clen fallback_protocol_id \<noteq> 0 \<or>
                \<not> is_null fallback_protocol_id \<and> clen fallback_protocol_id = 0
             then ((LIBP2P_HOST_ERR_INVALID_ARG, None), h)
             else if lh_state h = HOST_STATE_CLOSING then ((LIBP2P_HOST_ERR_CLOSED, None), h)
             else
               let usable = host_conn_validate_usable h conn;
                   (find_err, protocol) = host_protocol_find h protocol_id;
                   (fallback_err, fallback) =
                     (if is_null fallback_protocol_id then (LIBP2P_HOST_OK, None)
                      else host_protocol_find h fallback_protocol_id)
               in if usable \<noteq> LIBP2P_HOST_OK then ((usable, None), h)
                  else if find_err \<noteq> LIBP2P_HOST_OK then ((find_err, None), h)
                  else if fallback_err \<noteq> LIBP2P_HOST_OK then ((fallback_err, None), h)
                  else case host_open_alloc h of
                    None \<Rightarrow> ((LIBP2P_HOST_ERR_LIMIT, None), h)
                  | Some (p, h1) \<Rightarrow>
                      let tc = hc_transport_conn (lh_conns h1 ! c);
                          h2 = upd_conn c (\<lambda>k. k\<lparr>hc_open_count := hc_open_count k + 1\<rparr>)
                            (upd_open p (\<lambda>o'. o'\<lparr>ho_conn := conn, ho_transport_conn := tc,
                               ho_protocol := protocol, ho_fallback_protocol := fallback,
                               ho_user_data := user_data, ho_state := HOST_OPEN_WAIT_TRANSPORT\<rparr>) h1)
                      in case tr_open_stream (env_transport env) (lh_transport h2) tc of
                        ((err, transport_stream), t) \<Rightarrow>
                          let h3 = h2\<lparr>lh_transport := t\<rparr>
                          in if err = LIBP2P_HOST_OK then
                               let h4 = upd_open p (\<lambda>o'. o'\<lparr>ho_transport_stream := transport_stream,
                                          ho_state := HOST_OPEN_NEGOTIATING\<rparr>) h3;
                                   ((err2, stream), h5) = host_stream_alloc conn transport_stream
                                          LIBP2P_HOST_STREAM_OUTBOUND protocol (Some p) h4
                               in if err2 \<noteq> LIBP2P_HOST_OK
                                  then ((err2, None), host_open_release (Some p) (snd (transport_call
                                         (\<lambda>t. tr_stream_reset (env_transport env) t transport_stream 0) h5)))
                                  else ((LIBP2P_HOST_OK, Some p), h5)
                             else if err = LIBP2P_HOST_ERR_WOULD_BLOCK then ((LIBP2P_HOST_OK, Some p), h3)
                             else ((err, None), host_open_release (Some p) h3))"

definition libp2p_host_open_stream ::
  "('t, 'a) host_env \<Rightarrow> nat option \<Rightarrow> byte cbuf \<Rightarrow> nat option \<Rightarrow> ('t, 'a) libp2p_host \<Rightarrow>
   (libp2p_host_err_t \<times> nat option) \<times> ('t, 'a) libp2p_host" where
  "libp2p_host_open_stream env conn protocol_id user_data h =
     host_open_stream_with_optional_fallback env conn protocol_id (Null 0) user_data h"

definition libp2p_host_open_stream_with_fallback ::
  "('t, 'a) host_env \<Rightarrow> nat option \<Rightarrow> byte cbuf \<Rightarrow> byte cbuf \<Rightarrow> nat option \<Rightarrow> ('t, 'a) libp2p_host \<Rightarrow>
   (libp2p_host_err_t \<times> nat option) \<times> ('t, 'a) libp2p_host" where
  "libp2p_host_open_stream_with_fallback env conn protocol_id fallback_protocol_id user_data h =
     host_open_stream_with_optional_fallback env conn protocol_id fallback_protocol_id user_data h"

definition libp2p_host_stream_open_cancel ::
  "('t, 'a) host_env \<Rightarrow> nat option \<Rightarrow> nat option \<Rightarrow> ('t, 'a) libp2p_host \<Rightarrow>
   libp2p_host_err_t \<times> ('t, 'a) libp2p_host" where
  "libp2p_host_stream_open_cancel env open expected_user_data h =
     (let result = host_validate_started h
      in if result \<noteq> LIBP2P_HOST_OK then (result, h)
         else case open of
           None \<Rightarrow> (LIBP2P_HOST_ERR_INVALID_ARG, h)
         | Some p \<Rightarrow>
             if expected_user_data = None then (LIBP2P_HOST_ERR_INVALID_ARG, h)
             else
               let o' = lh_opens h ! p
               in if \<not> ho_host o' \<or> ho_user_data o' \<noteq> expected_user_data \<or> ho_state o' = HOST_OPEN_FREE
                  then (LIBP2P_HOST_ERR_NOT_FOUND, h)
                  else if ho_state o' = HOST_OPEN_EVENTED then (LIBP2P_HOST_ERR_STATE, h)
                  else if ho_state o' = HOST_OPEN_WAIT_TRANSPORT
                  then (LIBP2P_HOST_OK, snd (host_conn_try_recycle env (ho_conn o') (host_open_release open h)))
                  else
                    case find_slot_loop (\<lambda>s. hs_state s \<noteq> HOST_STREAM_FREE \<and> hs_open_attempt s = open)
                           (lh_streams h) 0 of
                      None \<Rightarrow> (LIBP2P_HOST_ERR_STATE, h)
                    | Some i \<Rightarrow>
                        let h1 = snd (transport_call (\<lambda>t. tr_stream_reset (env_transport env) t
                              (hs_transport_stream (lh_streams h ! i)) 0) h);
                            h2 = upd_host_stream i (hs_open_attempt_update (\<lambda>_. None)) h1;
                            h3 = host_open_release open (host_stream_release env i h2)
                        in (LIBP2P_HOST_OK, snd (host_conn_try_recycle env (ho_conn o') h3)))"

subsection \<open>Streams in use\<close>

definition libp2p_host_stream_set_user_data ::
  "nat option \<Rightarrow> nat option \<Rightarrow> ('t, 'a) libp2p_host \<Rightarrow> libp2p_host_err_t \<times> ('t, 'a) libp2p_host" where
  "libp2p_host_stream_set_user_data stream user_data h =
     (case stream of
        None \<Rightarrow> (LIBP2P_HOST_ERR_INVALID_ARG, h)
      | Some i \<Rightarrow> (LIBP2P_HOST_OK, upd_host_stream i (hs_user_data_update (\<lambda>_. user_data)) h))"

definition libp2p_host_stream_direction ::
  "nat option \<Rightarrow> ('t, 'a) libp2p_host \<Rightarrow> libp2p_host_err_t + libp2p_host_stream_direction_t" where
  "libp2p_host_stream_direction stream h =
     (case stream of None \<Rightarrow> Inl LIBP2P_HOST_ERR_INVALID_ARG | Some i \<Rightarrow> Inr (hs_direction (lh_streams h ! i)))"

definition libp2p_host_stream_conn ::
  "nat option \<Rightarrow> ('t, 'a) libp2p_host \<Rightarrow> libp2p_host_err_t + nat option" where
  "libp2p_host_stream_conn stream h =
     (case stream of None \<Rightarrow> Inl LIBP2P_HOST_ERR_INVALID_ARG | Some i \<Rightarrow> Inr (hs_conn (lh_streams h ! i)))"

definition libp2p_host_stream_user_data ::
  "nat option \<Rightarrow> ('t, 'a) libp2p_host \<Rightarrow> libp2p_host_err_t + nat option" where
  "libp2p_host_stream_user_data stream h =
     (case stream of None \<Rightarrow> Inl LIBP2P_HOST_ERR_INVALID_ARG | Some i \<Rightarrow> Inr (hs_user_data (lh_streams h ! i)))"

text \<open>
  The error code, the caller's buffer afterwards, \<open>*read_len\<close>, \<open>*fin\<close> and the host. The buffer \<open>out\<close> has
  the length \<open>out_len\<close>, so a copy past it is \<open>None\<close>. A read of the transport stores its bytes in the buffer
  whatever the code it returns. \<open>read_len\<close> and \<open>fin\<close> are not null.
\<close>

definition libp2p_host_stream_read ::
  "('t, 'a) host_env \<Rightarrow> nat option \<Rightarrow> byte cbuf \<Rightarrow> ('t, 'a) libp2p_host \<Rightarrow>
   ((libp2p_host_err_t \<times> byte cbuf \<times> nat \<times> bool) \<times> ('t, 'a) libp2p_host) option" where
  "libp2p_host_stream_read env stream out h =
     (let result = host_validate_started h
      in if result \<noteq> LIBP2P_HOST_OK then Some ((result, out, 0, False), h)
         else case stream of
           None \<Rightarrow> Some ((LIBP2P_HOST_ERR_INVALID_ARG, out, 0, False), h)
         | Some i \<Rightarrow>
             let s = lh_streams h ! i
             in if \<not> hs_host s \<or> hs_state s \<noteq> HOST_STREAM_OPEN
                then Some ((LIBP2P_HOST_ERR_INVALID_ARG, out, 0, False), h)
                else if is_null out then Some ((LIBP2P_HOST_ERR_INVALID_ARG, out, 0, False), h)
                else if hs_in_len s \<noteq> 0 then
                  let count = min (hs_in_len s) (clen out);
                      remaining = hs_in_len s - count
                  in if count \<noteq> 0 then do {
                       stored \<leftarrow> memcpy_at (contents out) 0 (take count (hs_in_frame s));
                       frame \<leftarrow> (if remaining \<noteq> 0
                                 then memcpy_at (hs_in_frame s) 0 (take remaining (drop count (hs_in_frame s)))
                                 else Some (hs_in_frame s));
                       Some ((LIBP2P_HOST_OK, Buf stored, count, False),
                             upd_host_stream i (\<lambda>s. s\<lparr>hs_in_frame := frame, hs_in_len := remaining\<rparr>) h)
                     }
                     else Some ((LIBP2P_HOST_OK, out, count, False), h)
                else
                  (case tr_stream_read (env_transport env) (lh_transport h) (hs_transport_stream s) (clen out) of
                     ((err, bytes, fin), t) \<Rightarrow> do {
                       stored \<leftarrow> memcpy_at (contents out) 0 bytes;
                       Some ((err, Buf stored, length bytes, fin), h\<lparr>lh_transport := t\<rparr>)
                     }))"

definition libp2p_host_stream_write ::
  "('t, 'a) host_env \<Rightarrow> nat option \<Rightarrow> byte list \<Rightarrow> bool \<Rightarrow> ('t, 'a) libp2p_host \<Rightarrow>
   (libp2p_host_err_t \<times> nat) \<times> ('t, 'a) libp2p_host" where
  "libp2p_host_stream_write env stream data fin h =
     (let result = host_validate_started h
      in if result \<noteq> LIBP2P_HOST_OK then ((result, 0), h)
         else case stream of
           None \<Rightarrow> ((LIBP2P_HOST_ERR_INVALID_ARG, 0), h)
         | Some i \<Rightarrow>
             let s = lh_streams h ! i
             in if \<not> hs_host s \<or> hs_state s \<noteq> HOST_STREAM_OPEN then ((LIBP2P_HOST_ERR_INVALID_ARG, 0), h)
                else case tr_stream_write (env_transport env) (lh_transport h) (hs_transport_stream s) data fin of
                  (r, t) \<Rightarrow> (r, h\<lparr>lh_transport := t\<rparr>))"

text \<open>Finishing, resetting and stopping pass the stream on to the transport.\<close>

definition host_stream_pass ::
  "('t \<Rightarrow> nat option \<Rightarrow> libp2p_host_err_t \<times> 't) \<Rightarrow> nat option \<Rightarrow> ('t, 'a) libp2p_host \<Rightarrow>
   libp2p_host_err_t \<times> ('t, 'a) libp2p_host" where
  "host_stream_pass f stream h =
     (let result = host_validate_started h
      in if result \<noteq> LIBP2P_HOST_OK then (result, h)
         else case stream of
           None \<Rightarrow> (LIBP2P_HOST_ERR_INVALID_ARG, h)
         | Some i \<Rightarrow>
             if \<not> hs_host (lh_streams h ! i) then (LIBP2P_HOST_ERR_INVALID_ARG, h)
             else transport_call (\<lambda>t. f t (hs_transport_stream (lh_streams h ! i))) h)"

definition libp2p_host_stream_finish ::
  "('t, 'a) host_env \<Rightarrow> nat option \<Rightarrow> ('t, 'a) libp2p_host \<Rightarrow> libp2p_host_err_t \<times> ('t, 'a) libp2p_host" where
  "libp2p_host_stream_finish env stream h = host_stream_pass (tr_stream_finish (env_transport env)) stream h"

definition libp2p_host_stream_reset ::
  "('t, 'a) host_env \<Rightarrow> nat option \<Rightarrow> u64 \<Rightarrow> ('t, 'a) libp2p_host \<Rightarrow>
   libp2p_host_err_t \<times> ('t, 'a) libp2p_host" where
  "libp2p_host_stream_reset env stream app_error_code h =
     host_stream_pass (\<lambda>t s. tr_stream_reset (env_transport env) t s app_error_code) stream h"

definition libp2p_host_stream_stop_sending ::
  "('t, 'a) host_env \<Rightarrow> nat option \<Rightarrow> u64 \<Rightarrow> ('t, 'a) libp2p_host \<Rightarrow>
   libp2p_host_err_t \<times> ('t, 'a) libp2p_host" where
  "libp2p_host_stream_stop_sending env stream app_error_code h =
     host_stream_pass (\<lambda>t s. tr_stream_stop_sending (env_transport env) t s app_error_code) stream h"

end
