(* ===== verification/Host_Drive.thy ===== *)
theory Host_Drive
  imports Host_Streams
begin

text \<open>
  \<open>src/src/libp2p/libp2p_host_drive.c\<close>, the dispatch of \<open>libp2p_host_protocols.c\<close> and the calls of the
  application in \<open>libp2p_host_core.c\<close>: the events of the transport, the round of work of
  \<open>libp2p_host_drive\<close>, closing, and the ring of events for the application.
\<close>

subsection \<open>Protocol callbacks\<close>

definition host_protocol_call_event ::
  "('t, 'a) host_env \<Rightarrow> nat \<Rightarrow> libp2p_host_protocol_event_kind_t \<Rightarrow> ('t, 'a) libp2p_host \<Rightarrow>
   libp2p_host_err_t \<times> ('t, 'a) libp2p_host" where
  "host_protocol_call_event env i kind h =
     (let (out, h1) =
        (case hs_protocol (lh_streams h ! i) of
           None \<Rightarrow> (LIBP2P_HOST_OK, h)
         | Some k \<Rightarrow>
             if hp_on_event (lh_protocols h ! k) then
               (case env_on_event env k h i kind of
                  (out, h1) \<Rightarrow>
                    (out, upd_result (\<lambda>r. r\<lparr>dr_protocol_events := dr_protocol_events r + 1,
                            dr_made_progress := True\<rparr>) h1))
             else (LIBP2P_HOST_OK, h))
      in (out,
          if out \<noteq> LIBP2P_HOST_OK
          then host_stream_release env i (snd (transport_call
                 (\<lambda>t. tr_stream_reset (env_transport env) t (hs_transport_stream (lh_streams h1 ! i)) 0) h1))
          else h1))"

text \<open>The error code and \<open>*out_progress\<close>; \<open>n\<close> slots are left to check.\<close>

fun protocol_event_loop ::
  "('t, 'a) host_env \<Rightarrow> nat \<Rightarrow> ('t, 'a) libp2p_host \<Rightarrow> libp2p_host_err_t \<times> bool \<times> ('t, 'a) libp2p_host" where
  "protocol_event_loop env 0 h = (LIBP2P_HOST_OK, False, h)"
| "protocol_event_loop env (Suc n) h =
     (let index = lh_protocol_cursor h mod length (lh_streams h);
          h1 = h\<lparr>lh_protocol_cursor := (lh_protocol_cursor h + 1) mod length (lh_streams h)\<rparr>;
          s = lh_streams h1 ! index
      in if hs_state s = HOST_STREAM_OPEN then
           if hs_pending_reset s then
             (case host_protocol_call_event env index LIBP2P_HOST_PROTOCOL_EVENT_RESET
                     (upd_host_stream index (hs_pending_reset_update (\<lambda>_. False)) h1) of
                (err, h2) \<Rightarrow> (err, True, h2))
           else if hs_pending_closed s then
             (case host_protocol_call_event env index LIBP2P_HOST_PROTOCOL_EVENT_CLOSED
                     (upd_host_stream index (hs_pending_closed_update (\<lambda>_. False)) h1) of
                (err, h2) \<Rightarrow> (err, True, host_stream_release env index h2))
           else if hs_pending_readable s then
             (case host_protocol_call_event env index LIBP2P_HOST_PROTOCOL_EVENT_READABLE
                     (upd_host_stream index (hs_pending_readable_update (\<lambda>_. False)) h1) of
                (err, h2) \<Rightarrow> (err, True, h2))
           else if hs_pending_writable s then
             (case host_protocol_call_event env index LIBP2P_HOST_PROTOCOL_EVENT_WRITABLE
                     (upd_host_stream index (hs_pending_writable_update (\<lambda>_. False)) h1) of
                (err, h2) \<Rightarrow> (err, True, h2))
           else protocol_event_loop env n h1
         else protocol_event_loop env n h1)"

definition host_protocol_event_one ::
  "('t, 'a) host_env \<Rightarrow> ('t, 'a) libp2p_host \<Rightarrow> libp2p_host_err_t \<times> bool \<times> ('t, 'a) libp2p_host" where
  "host_protocol_event_one env h = protocol_event_loop env (length (lh_streams h)) h"

subsection \<open>Events of the transport\<close>

definition event_attempt :: "libp2p_host_transport_event_t \<Rightarrow> nat option" where
  "event_attempt e = (if te_attempt e \<noteq> None then te_attempt e else te_conn e)"

definition host_transport_event_conn_established ::
  "libp2p_host_transport_event_t \<Rightarrow> ('t, 'a) libp2p_host \<Rightarrow> libp2p_host_err_t \<times> ('t, 'a) libp2p_host" where
  "host_transport_event_conn_established e h =
     (case host_conn_alloc (te_conn e) h of
        ((err, conn), h1) \<Rightarrow>
          if err \<noteq> LIBP2P_HOST_OK then (err, h1)
          else
            let dial = host_dial_find h1 (event_attempt e);
                event = zero_host_event\<lparr>he_type := LIBP2P_HOST_EVENT_CONN_ESTABLISHED, he_conn := conn,
                  he_dial := dial,
                  he_user_data := (case dial of Some d \<Rightarrow> hd_user_data (lh_dials h1 ! d)
                                   | None \<Rightarrow> te_user_data e)\<rparr>;
                h2 = (case dial of Some d \<Rightarrow> host_dial_mark_evented d h1 | None \<Rightarrow> h1)
            in host_event_push event h2)"

fun fail_waiting_loop ::
  "nat \<Rightarrow> nat list \<Rightarrow> ('t, 'a) libp2p_host \<Rightarrow> libp2p_host_err_t \<times> ('t, 'a) libp2p_host" where
  "fail_waiting_loop c [] h = (LIBP2P_HOST_OK, h)"
| "fail_waiting_loop c (p # ps) h =
     (if ho_state (lh_opens h ! p) = HOST_OPEN_WAIT_TRANSPORT \<and> ho_conn (lh_opens h ! p) = Some c then
        let event = zero_host_event\<lparr>he_type := LIBP2P_HOST_EVENT_STREAM_OPEN_FAILED, he_conn := Some c,
              he_stream_open := Some p, he_user_data := ho_user_data (lh_opens h ! p),
              he_reason := LIBP2P_HOST_ERR_CLOSED\<rparr>;
            (err, h1) = host_event_push event (upd_open p (ho_state_update (\<lambda>_. HOST_OPEN_EVENTED)) h)
        in if err \<noteq> LIBP2P_HOST_OK then (err, host_open_release (Some p) h1) else fail_waiting_loop c ps h1
      else fail_waiting_loop c ps h)"

definition host_conn_fail_waiting_opens ::
  "nat \<Rightarrow> ('t, 'a) libp2p_host \<Rightarrow> libp2p_host_err_t \<times> ('t, 'a) libp2p_host" where
  "host_conn_fail_waiting_opens c h = fail_waiting_loop c [0..<length (lh_opens h)] h"

fun close_streams_loop ::
  "('t, 'a) host_env \<Rightarrow> nat \<Rightarrow> nat list \<Rightarrow> ('t, 'a) libp2p_host \<Rightarrow> libp2p_host_err_t \<times> ('t, 'a) libp2p_host" where
  "close_streams_loop env c [] h = (LIBP2P_HOST_OK, h)"
| "close_streams_loop env c (i # is) h =
     (let s = lh_streams h ! i;
          (err, h1) =
            (if hs_state s \<noteq> HOST_STREAM_FREE \<and> hs_conn s = Some c then
               if hs_state s = HOST_STREAM_NEGOTIATING
               then host_stream_fail_negotiation env i LIBP2P_HOST_ERR_CLOSED None h
               else if hs_state s = HOST_STREAM_OPEN
               then (LIBP2P_HOST_OK, upd_host_stream i (hs_pending_closed_update (\<lambda>_. True)) h)
               else (LIBP2P_HOST_OK, host_stream_release env i h)
             else (LIBP2P_HOST_OK, h))
      in if err \<noteq> LIBP2P_HOST_OK then (err, h1) else close_streams_loop env c is h1)"

definition host_conn_close_streams ::
  "('t, 'a) host_env \<Rightarrow> nat \<Rightarrow> ('t, 'a) libp2p_host \<Rightarrow> libp2p_host_err_t \<times> ('t, 'a) libp2p_host" where
  "host_conn_close_streams env c h = close_streams_loop env c [0..<length (lh_streams h)] h"

text \<open>The failure of a dial, which two handlers report.\<close>

definition host_dial_failed ::
  "nat \<Rightarrow> libp2p_host_transport_event_t \<Rightarrow> ('t, 'a) libp2p_host \<Rightarrow> libp2p_host_err_t \<times> ('t, 'a) libp2p_host" where
  "host_dial_failed d e h =
     host_event_push
       (zero_host_event\<lparr>he_type := LIBP2P_HOST_EVENT_DIAL_FAILED, he_dial := Some d,
          he_user_data := hd_user_data (lh_dials h ! d),
          he_reason := (if te_reason e = LIBP2P_HOST_OK then LIBP2P_HOST_ERR_TRANSPORT else te_reason e),
          he_app_error_code := te_app_error_code e, he_transport_error_code := te_transport_error_code e\<rparr>)
       (host_dial_mark_evented d h)"

definition host_transport_event_conn_closed ::
  "('t, 'a) host_env \<Rightarrow> libp2p_host_transport_event_t \<Rightarrow> ('t, 'a) libp2p_host \<Rightarrow>
   libp2p_host_err_t \<times> ('t, 'a) libp2p_host" where
  "host_transport_event_conn_closed env e h =
     (case host_conn_find h (te_conn e) of
        Some c \<Rightarrow>
          if hc_closed (lh_conns h ! c) then (LIBP2P_HOST_OK, h)
          else
            let (err, h1) = host_conn_fail_waiting_opens c h;
                (err2, h2) = (if err = LIBP2P_HOST_OK then host_conn_close_streams env c h1 else (err, h1))
            in if err2 \<noteq> LIBP2P_HOST_OK then (err2, h2)
               else
                 let event = zero_host_event\<lparr>he_type := LIBP2P_HOST_EVENT_CONN_CLOSED, he_conn := Some c,
                       he_reason := te_reason e,
                       he_locally_initiated := hc_local_close_requested (lh_conns h2 ! c),
                       he_app_error_code := te_app_error_code e,
                       he_transport_error_code := te_transport_error_code e\<rparr>
                 in host_event_push event
                      (upd_conn c (\<lambda>k. k\<lparr>hc_closed := True, hc_close_event_pending := True\<rparr>) h2)
      | None \<Rightarrow>
          (case host_dial_find h (event_attempt e) of
             Some d \<Rightarrow> host_dial_failed d e h
           | None \<Rightarrow> (LIBP2P_HOST_OK, h)))"

definition host_transport_event_dial_failed ::
  "libp2p_host_transport_event_t \<Rightarrow> ('t, 'a) libp2p_host \<Rightarrow> libp2p_host_err_t \<times> ('t, 'a) libp2p_host" where
  "host_transport_event_dial_failed e h =
     (case host_dial_find h (te_attempt e) of
        Some d \<Rightarrow> host_dial_failed d e h
      | None \<Rightarrow> (LIBP2P_HOST_OK, h))"

definition host_transport_event_stream_incoming ::
  "('t, 'a) host_env \<Rightarrow> libp2p_host_transport_event_t \<Rightarrow> ('t, 'a) libp2p_host \<Rightarrow>
   libp2p_host_err_t \<times> ('t, 'a) libp2p_host" where
  "host_transport_event_stream_incoming env e h =
     (let conn = host_conn_find h (te_conn e);
          reset = (\<lambda>h. snd (transport_call (\<lambda>t. tr_stream_reset (env_transport env) t (te_stream e) 0) h))
      in if conn = None then (LIBP2P_HOST_ERR_STATE, h)
         else if host_conn_validate_usable h conn \<noteq> LIBP2P_HOST_OK then (LIBP2P_HOST_OK, reset h)
         else case host_stream_alloc conn (te_stream e) LIBP2P_HOST_STREAM_INBOUND None None h of
           ((err, stream), h1) \<Rightarrow>
             (LIBP2P_HOST_OK, if err \<noteq> LIBP2P_HOST_OK then reset h1 else h1))"

definition host_transport_event_stream_mark ::
  "('t, 'a) host_env \<Rightarrow> libp2p_host_transport_event_t \<Rightarrow> ('t, 'a) libp2p_host \<Rightarrow>
   libp2p_host_err_t \<times> ('t, 'a) libp2p_host" where
  "host_transport_event_stream_mark env e h =
     (case host_stream_find h (te_stream e) of
        None \<Rightarrow> (LIBP2P_HOST_OK, h)
      | Some i \<Rightarrow>
          let negotiating = (hs_state (lh_streams h ! i) = HOST_STREAM_NEGOTIATING);
              reason = (if te_reason e = LIBP2P_HOST_OK then LIBP2P_HOST_ERR_CLOSED else te_reason e)
          in case te_type e of
               LIBP2P_HOST_TRANSPORT_EVENT_STREAM_READABLE \<Rightarrow>
                 (LIBP2P_HOST_OK, upd_host_stream i (hs_pending_readable_update (\<lambda>_. True)) h)
             | LIBP2P_HOST_TRANSPORT_EVENT_STREAM_WRITABLE \<Rightarrow>
                 (LIBP2P_HOST_OK, upd_host_stream i (hs_pending_writable_update (\<lambda>_. True)) h)
             | LIBP2P_HOST_TRANSPORT_EVENT_STREAM_RESET \<Rightarrow>
                 if negotiating then host_stream_fail_negotiation env i reason (Some e) h
                 else (LIBP2P_HOST_OK, upd_host_stream i (hs_pending_reset_update (\<lambda>_. True)) h)
             | LIBP2P_HOST_TRANSPORT_EVENT_STREAM_CLOSED \<Rightarrow>
                 if negotiating then host_stream_fail_negotiation env i reason (Some e) h
                 else (LIBP2P_HOST_OK, upd_host_stream i (hs_pending_closed_update (\<lambda>_. True)) h)
             | _ \<Rightarrow> (LIBP2P_HOST_OK, h))"

definition host_transport_event_process ::
  "('t, 'a) host_env \<Rightarrow> libp2p_host_transport_event_t \<Rightarrow> ('t, 'a) libp2p_host \<Rightarrow>
   libp2p_host_err_t \<times> ('t, 'a) libp2p_host" where
  "host_transport_event_process env e h =
     (case te_type e of
        LIBP2P_HOST_TRANSPORT_EVENT_CONN_ESTABLISHED \<Rightarrow> host_transport_event_conn_established e h
      | LIBP2P_HOST_TRANSPORT_EVENT_CONN_CLOSED \<Rightarrow> host_transport_event_conn_closed env e h
      | LIBP2P_HOST_TRANSPORT_EVENT_DIAL_FAILED \<Rightarrow> host_transport_event_dial_failed e h
      | LIBP2P_HOST_TRANSPORT_EVENT_STREAM_INCOMING \<Rightarrow> host_transport_event_stream_incoming env e h
      | LIBP2P_HOST_TRANSPORT_EVENT_NONE \<Rightarrow> (LIBP2P_HOST_OK, h)
      | _ \<Rightarrow> host_transport_event_stream_mark env e h)"

definition host_transport_event_one ::
  "('t, 'a) host_env \<Rightarrow> ('t, 'a) libp2p_host \<Rightarrow> libp2p_host_err_t \<times> bool \<times> ('t, 'a) libp2p_host" where
  "host_transport_event_one env h =
     (case tr_next_event (env_transport env) (lh_transport h) of
        ((err, e), t) \<Rightarrow>
          let h1 = h\<lparr>lh_transport := t\<rparr>
          in if err = LIBP2P_HOST_OK then
               (case host_transport_event_process env e
                       (upd_result (\<lambda>r. r\<lparr>dr_transport_events := dr_transport_events r + 1,
                          dr_made_progress := True\<rparr>) h1) of
                  (err2, h2) \<Rightarrow> (err2, True, h2))
             else if err = LIBP2P_HOST_ERR_WOULD_BLOCK then (LIBP2P_HOST_OK, False, h1)
             else (LIBP2P_HOST_ERR_TRANSPORT, False, h1))"

definition host_transport_event_capacity_available :: "('t, 'a) libp2p_host \<Rightarrow> bool" where
  "host_transport_event_capacity_available h \<longleftrightarrow> length (lh_events h) - lh_event_len h > length (lh_opens h)"

subsection \<open>Driving\<close>

definition host_has_active_work :: "('t, 'a) libp2p_host \<Rightarrow> bool" where
  "host_has_active_work h \<longleftrightarrow>
     list_ex (\<lambda>c. hc_active c \<and> \<not> hc_closed c) (lh_conns h) \<or>
     list_ex (\<lambda>s. hs_state s \<noteq> HOST_STREAM_FREE \<and> hs_state s \<noteq> HOST_STREAM_CLOSED) (lh_streams h) \<or>
     list_ex (\<lambda>d. hd_state d = HOST_DIAL_PENDING) (lh_dials h) \<or>
     list_ex (\<lambda>p. ho_state p = HOST_OPEN_WAIT_TRANSPORT \<or> ho_state p = HOST_OPEN_NEGOTIATING) (lh_opens h)"

definition host_close_maybe_complete ::
  "('t, 'a) libp2p_host \<Rightarrow> libp2p_host_err_t \<times> bool \<times> ('t, 'a) libp2p_host" where
  "host_close_maybe_complete h =
     (if lh_state h = HOST_STATE_CLOSING \<and> \<not> lh_host_closed_event_queued h \<and> \<not> host_has_active_work h then
        (case host_event_push (zero_host_event\<lparr>he_type := LIBP2P_HOST_EVENT_HOST_CLOSED\<rparr>) h of
           (err, h1) \<Rightarrow>
             if err = LIBP2P_HOST_OK
             then (err, True, h1\<lparr>lh_host_closed_event_queued := True, lh_state := HOST_STATE_CLOSED\<rparr>)
             else (err, False, h1))
      else (LIBP2P_HOST_OK, False, h))"

text \<open>
  One round of the loop of \<open>libp2p_host_drive\<close>: \<open>slots\<close> is how many stream opens are still to be checked in
  this call. The result has the error code, whether any of the five parts made progress, and \<open>slots\<close>.
\<close>

definition drive_round ::
  "('t, 'a) host_env \<Rightarrow> nat \<Rightarrow> ('t, 'a) libp2p_host \<Rightarrow>
   (libp2p_host_err_t \<times> bool \<times> nat \<times> ('t, 'a) libp2p_host) option" where
  "drive_round env slots h =
     (let (err1, p1, h1) = (if host_transport_event_capacity_available h then host_transport_event_one env h
                            else (LIBP2P_HOST_OK, False, h));
          (err2, p2, slots2, h2) =
            (if err1 = LIBP2P_HOST_OK \<and> lh_event_len h1 < length (lh_events h1) \<and> slots \<noteq> 0
             then host_stream_open_retry_one env slots h1 else (err1, False, slots, h1))
      in do {
        (err3, p3, h3) \<leftarrow>
          (if err2 = LIBP2P_HOST_OK \<and> lh_event_len h2 < length (lh_events h2) \<and>
              dr_negotiation_steps (lh_result h2) < lh_max_negotiation_steps h2
           then host_stream_negotiation_one env h2 else Some (err2, False, h2));
        (let (err4, p4, h4) = (if err3 = LIBP2P_HOST_OK then host_protocol_event_one env h3 else (err3, False, h3));
             (err5, h5) = (if err4 = LIBP2P_HOST_OK then host_conn_recycle_quiet env h4 else (err4, h4));
             (err6, p6, h6) = (if err5 = LIBP2P_HOST_OK \<and> lh_event_len h5 < length (lh_events h5)
                               then host_close_maybe_complete h5 else (err5, False, h5))
         in Some (err6, p1 \<or> p2 \<or> p3 \<or> p4 \<or> p6, slots2, h6))
      })"

text \<open>The loop, for at most \<open>n\<close> rounds.\<close>

fun drive_loop ::
  "('t, 'a) host_env \<Rightarrow> nat \<Rightarrow> nat \<Rightarrow> ('t, 'a) libp2p_host \<Rightarrow>
   (libp2p_host_err_t \<times> ('t, 'a) libp2p_host) option" where
  "drive_loop env 0 slots h = Some (LIBP2P_HOST_OK, h)"
| "drive_loop env (Suc n) slots h = do {
     (err, progress, slots', h') \<leftarrow> drive_round env slots h;
     (if progress \<and> err = LIBP2P_HOST_OK then drive_loop env n slots' h' else Some (err, h'))
   }"

definition libp2p_host_drive ::
  "('t, 'a) host_env \<Rightarrow> u64 \<Rightarrow> u32 \<Rightarrow> ('t, 'a) libp2p_host \<Rightarrow>
   (libp2p_host_err_t \<times> libp2p_host_drive_result_t \<times> ('t, 'a) libp2p_host) option" where
  "libp2p_host_drive env now_us ready h0 =
     (let h = upd_result (\<lambda>_. zero_drive_result) h0;
          err0 = host_validate_started h;
          err1 = (if err0 = LIBP2P_HOST_OK \<and> ready AND NOT LIBP2P_HOST_READY_ALL \<noteq> 0
                  then LIBP2P_HOST_ERR_INVALID_ARG else err0);
          (err, h1) = (if err1 = LIBP2P_HOST_OK \<and> host_transport_event_capacity_available h
                       then transport_call (\<lambda>t. tr_drive (env_transport env) t now_us ready) h else (err1, h))
      in do {
        (err2, h2) \<leftarrow>
          (if err = LIBP2P_HOST_OK
           then drive_loop env ((length (lh_events h1) + length (lh_streams h1) + length (lh_opens h1) +
                                 lh_max_negotiation_steps h1 + 8) mod 2 ^ 64) (length (lh_opens h1)) h1
           else Some (err, h1));
        Some (err2, lh_result h2, h2)
      })"

subsection \<open>Calls of the application\<close>

definition libp2p_host_handle ::
  "libp2p_host_protocol_t option \<Rightarrow> ('t, 'a) libp2p_host \<Rightarrow> libp2p_host_err_t \<times> ('t, 'a) libp2p_host" where
  "libp2p_host_handle protocol h =
     (let result = host_validate_any h
      in if result \<noteq> LIBP2P_HOST_OK then (result, h)
         else case protocol of
           None \<Rightarrow> (LIBP2P_HOST_ERR_INVALID_ARG, h)
         | Some p \<Rightarrow>
             if lh_state h \<noteq> HOST_STATE_INIT then (LIBP2P_HOST_ERR_STATE, h)
             else if is_null (hp_id p) \<or> clen (hp_id p) = 0 \<or> clen (hp_id p) > HOST_NEGOTIATION_PAYLOAD_CAP \<or>
                     \<not> hp_on_open p
             then (LIBP2P_HOST_ERR_INVALID_ARG, h)
             else if length (lh_protocols h) = lh_protocol_capacity h then (LIBP2P_HOST_ERR_LIMIT, h)
             else (LIBP2P_HOST_OK, h\<lparr>lh_protocols := lh_protocols h @ [p]\<rparr>))"

definition libp2p_host_start :: "('t, 'a) libp2p_host \<Rightarrow> libp2p_host_err_t \<times> ('t, 'a) libp2p_host" where
  "libp2p_host_start h =
     (let result = host_validate_any h
      in if result \<noteq> LIBP2P_HOST_OK then (result, h)
         else if lh_state h \<noteq> HOST_STATE_INIT then (LIBP2P_HOST_ERR_STATE, h)
         else (LIBP2P_HOST_OK, h\<lparr>lh_ms_protocols := map hp_id (lh_protocols h), lh_state := HOST_STATE_STARTED\<rparr>))"

fun close_conns_loop ::
  "('t, 'a) host_env \<Rightarrow> u64 \<Rightarrow> nat list \<Rightarrow> ('t, 'a) libp2p_host \<Rightarrow>
   libp2p_host_err_t \<times> ('t, 'a) libp2p_host" where
  "close_conns_loop env code [] h = (LIBP2P_HOST_OK, h)"
| "close_conns_loop env code (c # cs) h =
     (let k = lh_conns h ! c
      in if hc_active k \<and> \<not> hc_closed k \<and> hc_transport_conn k \<noteq> None then
           (case transport_call (\<lambda>t. tr_conn_close (env_transport env) t (hc_transport_conn k) code) h of
              (result, h1) \<Rightarrow>
                if result = LIBP2P_HOST_OK
                then close_conns_loop env code cs (upd_conn c (hc_local_close_requested_update (\<lambda>_. True)) h1)
                else (result, h1))
         else close_conns_loop env code cs h)"

definition libp2p_host_close ::
  "('t, 'a) host_env \<Rightarrow> u64 \<Rightarrow> ('t, 'a) libp2p_host \<Rightarrow> libp2p_host_err_t \<times> ('t, 'a) libp2p_host" where
  "libp2p_host_close env app_error_code h =
     (let result = host_validate_started h
      in if result \<noteq> LIBP2P_HOST_OK then (result, h)
         else if lh_state h = HOST_STATE_CLOSING then (LIBP2P_HOST_OK, h)
         else close_conns_loop env app_error_code [0..<length (lh_conns h)]
                (h\<lparr>lh_state := HOST_STATE_CLOSING, lh_close_app_error_code := app_error_code\<rparr>))"

definition libp2p_host_conn_close ::
  "('t, 'a) host_env \<Rightarrow> nat option \<Rightarrow> u64 \<Rightarrow> ('t, 'a) libp2p_host \<Rightarrow>
   libp2p_host_err_t \<times> ('t, 'a) libp2p_host" where
  "libp2p_host_conn_close env conn app_error_code h =
     (let result = host_validate_started h;
          usable = host_conn_validate_usable h conn
      in if result \<noteq> LIBP2P_HOST_OK then (result, h)
         else if usable \<noteq> LIBP2P_HOST_OK then (usable, h)
         else case conn of
           None \<Rightarrow> (LIBP2P_HOST_ERR_INVALID_ARG, h)
         | Some c \<Rightarrow>
             (case transport_call (\<lambda>t. tr_conn_close (env_transport env) t
                     (hc_transport_conn (lh_conns h ! c)) app_error_code) h of
                (err, h1) \<Rightarrow>
                  (err, if err = LIBP2P_HOST_OK
                        then upd_conn c (hc_local_close_requested_update (\<lambda>_. True)) h1 else h1)))"

text \<open>The code, the event and the host.\<close>

definition libp2p_host_next_event ::
  "('t, 'a) host_env \<Rightarrow> ('t, 'a) libp2p_host \<Rightarrow>
   (libp2p_host_err_t \<times> libp2p_host_event_t) \<times> ('t, 'a) libp2p_host" where
  "libp2p_host_next_event env h =
     (let result = host_validate_any h
      in if result \<noteq> LIBP2P_HOST_OK then ((result, zero_host_event), h)
         else if lh_event_len h = 0 then ((LIBP2P_HOST_ERR_WOULD_BLOCK, zero_host_event), h)
         else
           let e = lh_events h ! lh_event_head h;
               h1 = h\<lparr>lh_event_head := (lh_event_head h + 1) mod length (lh_events h),
                      lh_event_len := lh_event_len h - 1\<rparr>;
               h2 = (case he_dial e of None \<Rightarrow> h1 | Some d \<Rightarrow> upd_dial d (hd_state_update (\<lambda>_. HOST_DIAL_FREE)) h1);
               (result3, h3) =
                 (case he_stream_open e of
                    None \<Rightarrow> (LIBP2P_HOST_OK, h2)
                  | Some p \<Rightarrow>
                      let open_conn = ho_conn (lh_opens h2 ! p);
                          h3 = (if he_type e = LIBP2P_HOST_EVENT_STREAM_OPEN_FAILED then host_open_release (Some p) h2
                                else if he_type e = LIBP2P_HOST_EVENT_STREAM_OPENED then
                                  host_open_release (Some p)
                                    (case he_stream e of
                                       None \<Rightarrow> h2
                                     | Some i \<Rightarrow>
                                         if hs_open_attempt (lh_streams h2 ! i) = Some p
                                         then upd_host_stream i (hs_open_attempt_update (\<lambda>_. None)) h2 else h2)
                                else h2)
                      in if open_conn \<noteq> None then host_conn_try_recycle env open_conn h3
                         else (LIBP2P_HOST_OK, h3))
           in if result3 = LIBP2P_HOST_OK \<and> he_type e = LIBP2P_HOST_EVENT_CONN_CLOSED then
                (case he_conn e of
                   None \<Rightarrow> ((result3, e), h3)
                 | Some c \<Rightarrow>
                     (case host_conn_try_recycle env (Some c)
                             (upd_conn c (hc_close_event_pending_update (\<lambda>_. False)) h3) of
                        (result4, h4) \<Rightarrow> ((result4, e), h4)))
              else ((result3, e), h3))"

end
