(* ===== verification/Host_Laws.thy ===== *)
theory Host_Laws
  imports Host_Drive Multistream_Frames
begin

text \<open>
  The invariant of the tables of the host, \<open>host_ok\<close>, and the laws of the primitive changes: every handle in a
  table is in range, a connection counts exactly the streams and opens that name it and has no more streams
  than the configuration allows, a connection that a stream or an open names is in use, the ring of events is well formed and all buffers of the negotiation keep their sizes.
\<close>

subsection \<open>Counting\<close>

definition streams_of :: "libp2p_host_stream list \<Rightarrow> nat \<Rightarrow> nat" where
  "streams_of ss c = length (filter (\<lambda>s. hs_state s \<noteq> HOST_STREAM_FREE \<and> hs_conn s = Some c) ss)"

definition opens_of :: "libp2p_host_stream_open list \<Rightarrow> nat \<Rightarrow> nat" where
  "opens_of os c = length (filter (\<lambda>p. ho_state p \<noteq> HOST_OPEN_FREE \<and> ho_conn p = Some c) os)"

lemma streams_of_update:
  "i < length ss \<Longrightarrow>
   streams_of (ss[i := s]) c +
     (if hs_state (ss ! i) \<noteq> HOST_STREAM_FREE \<and> hs_conn (ss ! i) = Some c then 1 else 0) =
   streams_of ss c + (if hs_state s \<noteq> HOST_STREAM_FREE \<and> hs_conn s = Some c then 1 else 0)"
  unfolding streams_of_def by (rule length_filter_update)

lemma opens_of_update:
  "i < length os \<Longrightarrow>
   opens_of (os[i := p]) c +
     (if ho_state (os ! i) \<noteq> HOST_OPEN_FREE \<and> ho_conn (os ! i) = Some c then 1 else 0) =
   opens_of os c + (if ho_state p \<noteq> HOST_OPEN_FREE \<and> ho_conn p = Some c then 1 else 0)"
  unfolding opens_of_def by (rule length_filter_update)

subsection \<open>The invariant\<close>

text \<open>The sizes of the tables and the protocols: what no call after the start changes.\<close>

definition host_shape ::
  "('t, 'a) libp2p_host \<Rightarrow> (nat \<times> nat \<times> nat \<times> nat \<times> nat) \<times> libp2p_host_protocol_t list \<times> byte cbuf list \<times> nat \<times> nat"
where
  "host_shape h =
     ((length (lh_conns h), length (lh_streams h), length (lh_dials h), length (lh_opens h), length (lh_events h)),
      lh_protocols h, lh_ms_protocols h, lh_max_negotiation_steps h, lh_max_streams_per_conn h)"

definition protocol_id_within :: "byte cbuf \<Rightarrow> bool" where
  "protocol_id_within b \<longleftrightarrow> \<not> is_null b \<and> 0 < clen b \<and> clen b \<le> HOST_NEGOTIATION_PAYLOAD_CAP"

definition index_within :: "nat option \<Rightarrow> nat \<Rightarrow> bool" where
  "index_within x n \<longleftrightarrow> (case x of None \<Rightarrow> True | Some i \<Rightarrow> i < n)"

definition buffers_ok :: "libp2p_host_stream \<Rightarrow> bool" where
  "buffers_ok s \<longleftrightarrow>
     length (hs_in_frame s) = HOST_NEGOTIATION_FRAME_CAP \<and> hs_in_len s \<le> HOST_NEGOTIATION_FRAME_CAP \<and>
     length (hs_payload s) = HOST_NEGOTIATION_PAYLOAD_CAP \<and> hs_payload_len s \<le> HOST_NEGOTIATION_PAYLOAD_CAP \<and>
     length (hs_out_frame s) = HOST_NEGOTIATION_FRAME_CAP \<and> hs_out_len s \<le> HOST_NEGOTIATION_FRAME_CAP \<and>
     hs_out_pos s \<le> hs_out_len s"

definition stream_ok :: "('t, 'a) libp2p_host \<Rightarrow> libp2p_host_stream \<Rightarrow> bool" where
  "stream_ok h s \<longleftrightarrow>
     buffers_ok s \<and> index_within (hs_conn s) (length (lh_conns h)) \<and>
     index_within (hs_open_attempt s) (length (lh_opens h)) \<and>
     index_within (hs_protocol s) (length (lh_protocols h)) \<and>
     index_within (hs_fallback_protocol s) (length (lh_protocols h)) \<and>
     (hs_state s \<noteq> HOST_STREAM_FREE \<longrightarrow> hs_host s \<and> hs_conn s \<noteq> None \<and> hs_transport_stream s \<noteq> None)"

definition open_ok :: "('t, 'a) libp2p_host \<Rightarrow> libp2p_host_stream_open \<Rightarrow> bool" where
  "open_ok h p \<longleftrightarrow>
     index_within (ho_conn p) (length (lh_conns h)) \<and> index_within (ho_protocol p) (length (lh_protocols h)) \<and>
     index_within (ho_fallback_protocol p) (length (lh_protocols h)) \<and>
     (ho_state p = HOST_OPEN_FREE \<longrightarrow> ho_conn p = None)"

definition conn_ok :: "('t, 'a) libp2p_host \<Rightarrow> nat \<Rightarrow> bool" where
  "conn_ok h c \<longleftrightarrow>
     hc_stream_count (lh_conns h ! c) = streams_of (lh_streams h) c \<and>
     hc_open_count (lh_conns h ! c) = opens_of (lh_opens h) c \<and>
     streams_of (lh_streams h) c \<le> lh_max_streams_per_conn h \<and>
     (if hc_active (lh_conns h ! c) then hc_host (lh_conns h ! c) \<and> hc_transport_conn (lh_conns h ! c) \<noteq> None
      else streams_of (lh_streams h) c = 0 \<and> opens_of (lh_opens h) c = 0)"

definition event_ok :: "('t, 'a) libp2p_host \<Rightarrow> libp2p_host_event_t \<Rightarrow> bool" where
  "event_ok h e \<longleftrightarrow>
     index_within (he_conn e) (length (lh_conns h)) \<and> index_within (he_stream e) (length (lh_streams h)) \<and>
     index_within (he_dial e) (length (lh_dials h)) \<and> index_within (he_stream_open e) (length (lh_opens h))"

definition host_ok :: "('t, 'a) libp2p_host \<Rightarrow> bool" where
  "host_ok h \<longleftrightarrow>
     (lh_event_head h < length (lh_events h) \<and> lh_event_len h \<le> length (lh_events h)) \<and>
     list_all (event_ok h) (lh_events h) \<and> list_all (stream_ok h) (lh_streams h) \<and>
     list_all (open_ok h) (lh_opens h) \<and> (\<forall>c < length (lh_conns h). conn_ok h c) \<and>
     list_all (\<lambda>p. protocol_id_within (hp_id p) \<and> hp_on_open p) (lh_protocols h) \<and> list_all protocol_id_within (lh_ms_protocols h)"

text \<open>A change keeps the host sound.\<close>

definition host_keeps :: "('t, 'a) libp2p_host \<Rightarrow> ('t, 'a) libp2p_host \<Rightarrow> bool" where
  "host_keeps h h' \<longleftrightarrow> (host_ok h \<longrightarrow> host_ok h' \<and> host_shape h' = host_shape h)"

named_theorems host_keep_laws

lemma host_keeps_refl [simp, intro!]: "host_keeps h h"
  by (simp add: host_keeps_def)

lemma host_keeps_trans: "host_keeps a b \<Longrightarrow> host_keeps b c \<Longrightarrow> host_keeps a c"
  by (simp add: host_keeps_def)

lemma host_keepsD: "host_keeps h h' \<Longrightarrow> host_ok h \<Longrightarrow> host_ok h' \<and> host_shape h' = host_shape h"
  by (simp add: host_keeps_def)

lemma index_within_simps [simp]:
  "index_within None n" "index_within (Some i) n \<longleftrightarrow> i < n"
  by (simp_all add: index_within_def)

lemma host_ok_stream: "host_ok h \<Longrightarrow> i < length (lh_streams h) \<Longrightarrow> stream_ok h (lh_streams h ! i)"
  by (simp add: host_ok_def list_all_length)

lemma host_ok_open: "host_ok h \<Longrightarrow> p < length (lh_opens h) \<Longrightarrow> open_ok h (lh_opens h ! p)"
  by (simp add: host_ok_def list_all_length)

lemma host_ok_conn: "host_ok h \<Longrightarrow> c < length (lh_conns h) \<Longrightarrow> conn_ok h c"
  by (simp add: host_ok_def)

lemma host_ok_event: "host_ok h \<Longrightarrow> k < length (lh_events h) \<Longrightarrow> event_ok h (lh_events h ! k)"
  by (simp add: host_ok_def list_all_length)

lemma host_ok_protocol:
  "host_ok h \<Longrightarrow> k < length (lh_protocols h) \<Longrightarrow> protocol_id_within (hp_id (lh_protocols h ! k)) \<and> hp_on_open (lh_protocols h ! k)"
  by (simp add: host_ok_def list_all_length)


subsection \<open>Fields outside the tables\<close>

lemma host_ok_cong:
  assumes "lh_conns h' = lh_conns h" "lh_streams h' = lh_streams h" "lh_dials h' = lh_dials h"
    "lh_opens h' = lh_opens h" "lh_protocols h' = lh_protocols h" "lh_ms_protocols h' = lh_ms_protocols h"
    "lh_events h' = lh_events h" "lh_event_head h' = lh_event_head h" "lh_event_len h' = lh_event_len h"
    "lh_max_streams_per_conn h' = lh_max_streams_per_conn h"
  shows "host_ok h' = host_ok h"
proof -
  have "event_ok h' = event_ok h" "stream_ok h' = stream_ok h" "open_ok h' = open_ok h" "conn_ok h' = conn_ok h"
    by (simp_all add: fun_eq_iff event_ok_def stream_ok_def open_ok_def conn_ok_def assms)
  then show ?thesis by (simp add: host_ok_def assms)
qed

lemma host_keeps_cong:
  assumes "lh_conns h' = lh_conns h" "lh_streams h' = lh_streams h" "lh_dials h' = lh_dials h"
    "lh_opens h' = lh_opens h" "lh_protocols h' = lh_protocols h" "lh_ms_protocols h' = lh_ms_protocols h"
    "lh_events h' = lh_events h" "lh_event_head h' = lh_event_head h" "lh_event_len h' = lh_event_len h"
    "lh_max_streams_per_conn h' = lh_max_streams_per_conn h"
    "lh_max_negotiation_steps h' = lh_max_negotiation_steps h"
  shows "host_keeps h h'"
  using host_ok_cong [OF assms(1-10)] by (simp add: host_keeps_def host_shape_def assms)

lemma keep_transport [host_keep_laws]: "host_keeps h (h\<lparr>lh_transport := t\<rparr>)"
  by (rule host_keeps_cong) simp_all

lemma keep_result [host_keep_laws]: "host_keeps h (upd_result f h)"
  unfolding upd_result_def by (rule host_keeps_cong) simp_all

lemma keep_state [host_keep_laws]: "host_keeps h (h\<lparr>lh_state := x\<rparr>)"
  by (rule host_keeps_cong) simp_all

lemma keep_app [host_keep_laws]: "host_keeps h (h\<lparr>lh_app := x\<rparr>)"
  by (rule host_keeps_cong) simp_all

lemma keep_cursors [host_keep_laws]:
  "host_keeps h (h\<lparr>lh_open_cursor := x\<rparr>)" "host_keeps h (h\<lparr>lh_negotiation_cursor := x\<rparr>)"
  "host_keeps h (h\<lparr>lh_protocol_cursor := x\<rparr>)"
  by (rule host_keeps_cong; simp)+

lemma keep_transport_call [host_keep_laws]: "host_keeps h (snd (transport_call f h))"
  unfolding transport_call_def by (simp add: keep_transport split: prod.split)

subsection \<open>Changes of a slot\<close>

lemma list_all_update_within: "list_all P xs \<Longrightarrow> (i < length xs \<Longrightarrow> P y) \<Longrightarrow> list_all P (xs[i := y])"
  by (cases "i < length xs") (auto simp: list_all_length nth_list_update)

lemma host_ok_tables:
  assumes ok: "host_ok h"
    and same: "lh_events h' = lh_events h" "lh_event_head h' = lh_event_head h" "lh_event_len h' = lh_event_len h"
      "length (lh_dials h') = length (lh_dials h)" "lh_protocols h' = lh_protocols h"
      "lh_ms_protocols h' = lh_ms_protocols h" "lh_max_negotiation_steps h' = lh_max_negotiation_steps h"
      "lh_max_streams_per_conn h' = lh_max_streams_per_conn h"
      "length (lh_conns h') = length (lh_conns h)" "length (lh_streams h') = length (lh_streams h)"
      "length (lh_opens h') = length (lh_opens h)"
    and streams: "list_all (stream_ok h) (lh_streams h')" and opens: "list_all (open_ok h) (lh_opens h')"
    and conns: "\<And>c. c < length (lh_conns h) \<Longrightarrow> conn_ok h' c"
  shows "host_ok h' \<and> host_shape h' = host_shape h"
proof -
  have "event_ok h' = event_ok h" "stream_ok h' = stream_ok h" "open_ok h' = open_ok h"
    by (simp_all add: fun_eq_iff event_ok_def stream_ok_def open_ok_def same)
  with ok streams opens conns show ?thesis by (simp add: host_ok_def host_shape_def same)
qed

lemma keep_upd_stream:
  assumes "host_ok h \<Longrightarrow> i < length (lh_streams h) \<Longrightarrow> stream_ok h (f (lh_streams h ! i)) \<and>
      (\<forall>c. (hs_state (f (lh_streams h ! i)) \<noteq> HOST_STREAM_FREE \<and> hs_conn (f (lh_streams h ! i)) = Some c) =
           (hs_state (lh_streams h ! i) \<noteq> HOST_STREAM_FREE \<and> hs_conn (lh_streams h ! i) = Some c))"
  shows "host_keeps h (upd_host_stream i f h)"
proof (cases "i < length (lh_streams h)")
  case True
  let ?h = "upd_host_stream i f h"
  {
    assume ok: "host_ok h"
    note a = assms [OF ok True]
    have "streams_of (lh_streams ?h) c = streams_of (lh_streams h) c" for c
      using streams_of_update [OF True, of "f (lh_streams h ! i)" c] a by (simp add: upd_host_stream_def)
    then have "conn_ok ?h = conn_ok h"
      by (simp add: fun_eq_iff conn_ok_def) (simp add: upd_host_stream_def)
    moreover have "list_all (stream_ok h) (lh_streams ?h)"
      using ok a by (simp add: host_ok_def upd_host_stream_def list_all_update_within)
    ultimately have "host_ok ?h \<and> host_shape ?h = host_shape h"
      using ok by (intro host_ok_tables) (simp_all add: host_ok_def, simp_all add: upd_host_stream_def)
  }
  then show ?thesis by (simp add: host_keeps_def)
qed (rule host_keeps_cong; simp add: upd_host_stream_def list_update_beyond)

lemma keep_upd_open:
  assumes "host_ok h \<Longrightarrow> i < length (lh_opens h) \<Longrightarrow> open_ok h (f (lh_opens h ! i)) \<and>
      (\<forall>c. (ho_state (f (lh_opens h ! i)) \<noteq> HOST_OPEN_FREE \<and> ho_conn (f (lh_opens h ! i)) = Some c) =
           (ho_state (lh_opens h ! i) \<noteq> HOST_OPEN_FREE \<and> ho_conn (lh_opens h ! i) = Some c))"
  shows "host_keeps h (upd_open i f h)"
proof (cases "i < length (lh_opens h)")
  case True
  let ?h = "upd_open i f h"
  {
    assume ok: "host_ok h"
    note a = assms [OF ok True]
    have "opens_of (lh_opens ?h) c = opens_of (lh_opens h) c" for c
      using opens_of_update [OF True, of "f (lh_opens h ! i)" c] a by (simp add: upd_open_def)
    then have "conn_ok ?h = conn_ok h"
      by (simp add: fun_eq_iff conn_ok_def) (simp add: upd_open_def)
    moreover have "list_all (open_ok h) (lh_opens ?h)"
      using ok a by (simp add: host_ok_def upd_open_def list_all_update_within)
    ultimately have "host_ok ?h \<and> host_shape ?h = host_shape h"
      using ok by (intro host_ok_tables) (simp_all add: host_ok_def, simp_all add: upd_open_def)
  }
  then show ?thesis by (simp add: host_keeps_def)
qed (rule host_keeps_cong; simp add: upd_open_def list_update_beyond)

lemma keep_upd_dial [host_keep_laws]: "host_keeps h (upd_dial i f h)"
proof -
  let ?h = "upd_dial i f h"
  have "event_ok ?h = event_ok h" "stream_ok ?h = stream_ok h" "open_ok ?h = open_ok h" "conn_ok ?h = conn_ok h"
    by (simp_all add: fun_eq_iff event_ok_def stream_ok_def open_ok_def conn_ok_def upd_dial_def)
  then show ?thesis by (simp add: host_keeps_def host_ok_def host_shape_def) (simp add: upd_dial_def)
qed

lemma keep_conn_flags:
  assumes "\<And>k. hc_stream_count (f k) = hc_stream_count k" "\<And>k. hc_open_count (f k) = hc_open_count k"
    "\<And>k. hc_active (f k) = hc_active k" "\<And>k. hc_host (f k) = hc_host k"
    "\<And>k. hc_transport_conn (f k) = hc_transport_conn k"
  shows "host_keeps h (upd_conn c f h)"
proof -
  let ?h = "upd_conn c f h"
  have "event_ok ?h = event_ok h" "stream_ok ?h = stream_ok h" "open_ok ?h = open_ok h"
    by (simp_all add: fun_eq_iff event_ok_def stream_ok_def open_ok_def upd_conn_def)
  moreover have "conn_ok ?h k = conn_ok h k" if "k < length (lh_conns h)" for k
    using that by (cases "k = c") (simp_all add: conn_ok_def upd_conn_def assms)
  ultimately show ?thesis
    by (simp add: host_keeps_def host_ok_def host_shape_def) (simp add: upd_conn_def)
qed

lemma keep_event_push:
  assumes "host_ok h \<Longrightarrow> event_ok h e"
  shows "host_keeps h (snd (host_event_push e h))"
proof (cases "length (lh_events h) = 0 \<or> lh_event_len h = length (lh_events h)")
  case True
  then show ?thesis by (auto simp: host_event_push_def)
next
  case False
  let ?pos = "(lh_event_head h + lh_event_len h) mod length (lh_events h)"
  let ?h = "h\<lparr>lh_events := (lh_events h)[?pos := e], lh_event_len := lh_event_len h + 1\<rparr>"
  have "host_keeps h ?h"
    unfolding host_keeps_def
  proof
    assume ok: "host_ok h"
    have "event_ok ?h = event_ok h" "stream_ok ?h = stream_ok h" "open_ok ?h = open_ok h" "conn_ok ?h = conn_ok h"
      by (simp_all add: fun_eq_iff event_ok_def stream_ok_def open_ok_def conn_ok_def)
    with ok False assms [OF ok] show "host_ok ?h \<and> host_shape ?h = host_shape h"
      by (simp add: host_ok_def host_shape_def list_all_update_within)
  qed
  from host_keeps_trans [OF this keep_result] False show ?thesis
    by (auto simp: host_event_push_def Let_def)
qed


subsection \<open>Searches\<close>

lemma find_slot_Some: "find_slot_loop test ss 0 = Some i \<Longrightarrow> i < length ss \<and> test (ss ! i)"
  using find_loop_Some [of test ss 0 i] by simp

lemma conn_find_Some:
  "host_conn_find h tc = Some c \<Longrightarrow>
   c < length (lh_conns h) \<and> hc_active (lh_conns h ! c) \<and> hc_transport_conn (lh_conns h ! c) = tc \<and> tc \<noteq> None"
  by (cases tc) (auto simp: host_conn_find_def dest: find_slot_Some)

lemma stream_find_Some:
  "host_stream_find h ts = Some i \<Longrightarrow> i < length (lh_streams h) \<and> hs_state (lh_streams h ! i) \<noteq> HOST_STREAM_FREE"
  by (auto simp: host_stream_find_def split: if_splits dest!: find_slot_Some)

lemma dial_find_Some: "host_dial_find h a = Some d \<Longrightarrow> d < length (lh_dials h)"
  by (auto simp: host_dial_find_def split: if_splits dest!: find_slot_Some)

lemma protocol_find_Some: "host_protocol_find h pid = (err, Some k) \<Longrightarrow> k < length (lh_protocols h)"
  by (auto simp: host_protocol_find_def split: if_splits option.splits dest!: find_slot_Some)

subsection \<open>Connections, streams and opens\<close>

lemma zero_slots_ok [simp]: "open_ok h zero_host_open" "stream_ok h zero_host_stream"
  by (simp_all add: open_ok_def zero_host_open_def stream_ok_def zero_host_stream_def buffers_ok_def)

lemma keep_conn_alloc:
  assumes "host_conn_alloc tc h = (r, h')"
  shows "host_keeps h h'" and "host_ok h \<Longrightarrow> index_within (snd r) (length (lh_conns h))"
proof -
  let ?found = "find_slot_loop (\<lambda>c. \<not> hc_active c) (lh_conns h) 0"
  have "host_keeps h h' \<and> (host_ok h \<longrightarrow> index_within (snd r) (length (lh_conns h)))"
  proof (cases "tc = None \<or> host_conn_find h tc \<noteq> None \<or> ?found = None")
    case True
    then have "h' = h \<and> (snd r = None \<or> snd r = host_conn_find h tc)"
      using assms by (cases "host_conn_find h tc") (auto simp: host_conn_alloc_def split: if_splits)
    then show ?thesis using conn_find_Some [of h tc] by (cases "host_conn_find h tc") auto
  next
    case False
    then obtain c where c: "?found = Some c" by blast
    with False assms have r: "snd r = Some c" and
      eq: "h' = upd_conn c (\<lambda>_. zero_host_conn\<lparr>hc_host := True, hc_transport_conn := tc, hc_active := True\<rparr>) h"
      by (auto simp: host_conn_alloc_def)
    note c = find_slot_Some [OF c]
    {
      assume ok: "host_ok h"
      have "conn_ok h' k" if "k < length (lh_conns h)" for k
        using host_ok_conn [OF ok that] c False that
        by (cases "k = c") (simp_all add: conn_ok_def eq upd_conn_def zero_host_conn_def)
      with ok have "host_ok h' \<and> host_shape h' = host_shape h"
        by (intro host_ok_tables) (simp_all add: host_ok_def eq, simp_all add: upd_conn_def)
    }
    with c r show ?thesis by (simp add: host_keeps_def)
  qed
  then show "host_keeps h h'" "host_ok h \<Longrightarrow> index_within (snd r) (length (lh_conns h))" by simp_all
qed

lemma keep_open_release:
  assumes "index_within p (length (lh_opens h))"
  shows "host_keeps h (host_open_release p h)"
proof (cases "\<exists>i. p = Some i \<and> ho_state (lh_opens h ! i) \<noteq> HOST_OPEN_FREE")
  case False
  then show ?thesis by (auto simp: host_open_release_def split: option.split)
next
  case True
  then obtain i where p: "p = Some i" "ho_state (lh_opens h ! i) \<noteq> HOST_OPEN_FREE" by blast
  with assms have i: "i < length (lh_opens h)" by simp
  show ?thesis
  proof (cases "ho_conn (lh_opens h ! i)")
    case None
    then have "host_open_release p h = upd_open i (\<lambda>_. zero_host_open) h" by (simp add: host_open_release_def p)
    moreover have "host_keeps h (upd_open i (\<lambda>_. zero_host_open) h)"
      by (rule keep_upd_open) (simp add: None, simp add: zero_host_open_def)
    ultimately show ?thesis by simp
  next
    case c: (Some c)
    {
      assume ok: "host_ok h"
      from host_ok_open [OF ok i] c have len: "c < length (lh_conns h)" by (simp add: open_ok_def)
      from host_ok_conn [OF ok len] opens_of_update [OF i, of zero_host_open c] p c
      have pos: "hc_open_count (lh_conns h ! c) \<noteq> 0" by (simp add: conn_ok_def zero_host_open_def)
      let ?h = "host_open_release (Some i) h"
      have eq: "?h = upd_open i (\<lambda>_. zero_host_open) (upd_conn c (\<lambda>k. k\<lparr>hc_open_count := hc_open_count k - 1\<rparr>) h)"
        by (simp add: host_open_release_def p(2) c pos)
      have "conn_ok ?h k" if "k < length (lh_conns h)" for k
        using host_ok_conn [OF ok that] opens_of_update [OF i, of zero_host_open k] p(2) c pos that
        by (cases "k = c") (auto simp: conn_ok_def eq upd_conn_def upd_open_def zero_host_open_def split: if_splits)
      with ok have "host_ok ?h \<and> host_shape ?h = host_shape h"
        by (intro host_ok_tables)
          (simp_all add: host_ok_def eq, simp_all add: upd_conn_def upd_open_def list_all_update_within)
    }
    then show ?thesis by (simp add: host_keeps_def p(1))
  qed
qed

lemma keep_try_recycle:
  assumes "index_within conn (length (lh_conns h))"
  shows "host_keeps h (snd (host_conn_try_recycle env conn h))"
proof (cases "\<exists>c. conn = Some c \<and> hc_active (lh_conns h ! c) \<and> hc_closed (lh_conns h ! c) \<and>
    \<not> hc_close_event_pending (lh_conns h ! c) \<and> hc_stream_count (lh_conns h ! c) = 0 \<and>
    hc_open_count (lh_conns h ! c) = 0")
  case False
  then have "host_conn_try_recycle env conn h = (LIBP2P_HOST_OK, h)"
    by (cases conn) (auto simp: host_conn_try_recycle_def Let_def)
  then show ?thesis by simp
next
  case True
  then obtain c where c: "conn = Some c" "hc_stream_count (lh_conns h ! c) = 0" "hc_open_count (lh_conns h ! c) = 0"
    by blast
  with assms have len: "c < length (lh_conns h)" by simp
  have free: "host_keeps h (upd_conn c (\<lambda>_. zero_host_conn) (h\<lparr>lh_transport := t\<rparr>))" for t
  proof -
    {
      assume ok: "host_ok h"
      let ?h = "upd_conn c (\<lambda>_. zero_host_conn) (h\<lparr>lh_transport := t\<rparr>)"
      have "conn_ok ?h k" if "k < length (lh_conns h)" for k
        using host_ok_conn [OF ok that] c that
        by (cases "k = c") (auto simp: conn_ok_def upd_conn_def zero_host_conn_def split: if_splits)
      with ok have "host_ok ?h \<and> host_shape ?h = host_shape h"
        by (intro host_ok_tables) (simp_all add: host_ok_def, simp_all add: upd_conn_def)
    }
    then show ?thesis by (simp add: host_keeps_def)
  qed
  have same: "h\<lparr>lh_transport := lh_transport h\<rparr> = h" by simp
  have "\<exists>t. snd (host_conn_try_recycle env conn h) = h\<lparr>lh_transport := t\<rparr> \<or>
      snd (host_conn_try_recycle env conn h) = upd_conn c (\<lambda>_. zero_host_conn) (h\<lparr>lh_transport := t\<rparr>)"
    unfolding host_conn_try_recycle_def c(1) transport_call_def
    by (auto simp: Let_def same split: prod.split option.split intro: exI [of _ "lh_transport h"])
  then show ?thesis using free keep_transport [of h] by metis
qed

lemma open_release_upd_stream:
  "upd_host_stream i g (host_open_release p h) = host_open_release p (upd_host_stream i g h)"
  by (cases p) (auto simp: host_open_release_def Let_def upd_host_stream_def upd_conn_def upd_open_def split: option.split)

lemma open_release_other [simp]:
  "lh_streams (host_open_release p h) = lh_streams h" "length (lh_conns (host_open_release p h)) = length (lh_conns h)"
  "lh_events (host_open_release p h) = lh_events h" "lh_event_head (host_open_release p h) = lh_event_head h"
  "lh_event_len (host_open_release p h) = lh_event_len h"
  "length (lh_opens (host_open_release p h)) = length (lh_opens h)" "lh_dials (host_open_release p h) = lh_dials h"
  "lh_protocols (host_open_release p h) = lh_protocols h"
  by (cases p; simp add: host_open_release_def Let_def upd_conn_def upd_open_def split: option.split)+

lemma keep_stream_release:
  assumes "i < length (lh_streams h)"
  shows "host_keeps h (host_stream_release env i h)"
proof (cases "hs_state (lh_streams h ! i) = HOST_STREAM_FREE")
  case True
  then show ?thesis by (simp add: host_stream_release_def)
next
  case False
  let ?s = "lh_streams h ! i"
  {
    assume ok: "host_ok h"
    note s = host_ok_stream [OF ok assms]
    from s False obtain c where c: "hs_conn ?s = Some c" "c < length (lh_conns h)" by (auto simp: stream_ok_def)
    from host_ok_conn [OF ok c(2)] streams_of_update [OF assms, of zero_host_stream c] False c
    have pos: "hc_stream_count (lh_conns h ! c) \<noteq> 0" by (simp add: conn_ok_def zero_host_stream_def)
    define dec where "dec = upd_conn c (\<lambda>k. k\<lparr>hc_stream_count := hc_stream_count k - 1\<rparr>) h"
    let ?h = "upd_host_stream i (\<lambda>_. zero_host_stream) dec"
    have conn: "conn_ok ?h k" if "k < length (lh_conns h)" for k
      using host_ok_conn [OF ok that] streams_of_update [OF assms, of zero_host_stream k] False c pos that
      by (cases "k = c")
        (auto simp: conn_ok_def dec_def upd_conn_def upd_host_stream_def zero_host_stream_def split: if_splits)
    have "host_ok ?h \<and> host_shape ?h = host_shape h"
      by (rule host_ok_tables [OF ok _ _ _ _ _ _ _ _ _ _ _ _ _ conn])
        (use ok in \<open>simp_all add: host_ok_def dec_def upd_conn_def upd_host_stream_def list_all_update_within\<close>)
    then have keep1: "host_keeps h ?h" by (simp add: host_keeps_def)
    define rel where "rel =
      (case hs_open_attempt ?s of None \<Rightarrow> dec
       | Some p \<Rightarrow> if ho_state (lh_opens dec ! p) \<noteq> HOST_OPEN_EVENTED then host_open_release (Some p) dec else dec)"
    have "upd_host_stream i (\<lambda>_. zero_host_stream) rel =
      (case hs_open_attempt ?s of None \<Rightarrow> ?h
       | Some p \<Rightarrow> if ho_state (lh_opens dec ! p) \<noteq> HOST_OPEN_EVENTED then host_open_release (Some p) ?h else ?h)"
      by (simp add: rel_def open_release_upd_stream split: option.split)
    moreover have "host_keeps ?h \<dots>"
      using s by (auto simp: stream_ok_def dec_def upd_conn_def upd_host_stream_def split: option.split
          intro!: keep_open_release)
    ultimately have "host_keeps h (upd_host_stream i (\<lambda>_. zero_host_stream) rel)"
      using keep1 host_keeps_trans by metis
    moreover have "length (lh_conns (upd_host_stream i (\<lambda>_. zero_host_stream) rel)) = length (lh_conns h)"
      by (simp add: rel_def dec_def upd_host_stream_def upd_conn_def split: option.split)
    moreover have "host_stream_release env i h =
      snd (host_conn_try_recycle env (Some c) (upd_host_stream i (\<lambda>_. zero_host_stream) rel))"
      using False c pos by (simp add: host_stream_release_def Let_def rel_def dec_def cong: option.case_cong if_cong)
    ultimately have "host_keeps h (host_stream_release env i h)"
      using keep_try_recycle [of "Some c"] c(2) host_keeps_trans by (metis index_within_simps(2))
    with ok have "host_ok (host_stream_release env i h) \<and> host_shape (host_stream_release env i h) = host_shape h"
      by (simp add: host_keeps_def)
  }
  then show ?thesis by (simp add: host_keeps_def)
qed

lemma keep_stream_alloc:
  assumes "host_ok h \<Longrightarrow> (\<forall>c. conn = Some c \<longrightarrow> c < length (lh_conns h) \<and> hc_active (lh_conns h ! c)) \<and>
      index_within protocol (length (lh_protocols h)) \<and> index_within open_attempt (length (lh_opens h))"
  shows "host_keeps h (snd (host_stream_alloc conn ts dir protocol open_attempt h))"
proof -
  let ?found = "find_slot_loop (\<lambda>s. hs_state s = HOST_STREAM_FREE) (lh_streams h) 0"
  let ?r = "host_stream_alloc conn ts dir protocol open_attempt h"
  show ?thesis
  proof (cases "conn = None \<or> ts = None \<or> hc_stream_count (lh_conns h ! the conn) \<ge> lh_max_streams_per_conn h \<or>
      ?found = None")
    case True
    then have "snd ?r = h" by (auto simp: host_stream_alloc_def split: option.split)
    then show ?thesis by simp
  next
    case False
    then obtain c i where ci: "conn = Some c" "?found = Some i" by auto
    note i = find_slot_Some [OF ci(2)]
    have room: "hc_stream_count (lh_conns h ! c) < lh_max_streams_per_conn h" using False ci by auto
    let ?new = "zero_host_stream\<lparr>hs_host := True, hs_conn := conn, hs_transport_stream := ts, hs_protocol := protocol,
       hs_fallback_protocol := (case open_attempt of None \<Rightarrow> None | Some p \<Rightarrow> ho_fallback_protocol (lh_opens h ! p)),
       hs_open_attempt := open_attempt, hs_direction := dir, hs_state := HOST_STREAM_NEGOTIATING,
       hs_neg_state := (if dir = LIBP2P_HOST_STREAM_OUTBOUND then HOST_NEG_OUT_SEND_MS else HOST_NEG_IN_READ_MS)\<rparr>"
    define h' where "h' = snd ?r"
    have eq: "h' = upd_conn c (\<lambda>k. k\<lparr>hc_stream_count := hc_stream_count k + 1\<rparr>) (upd_host_stream i (\<lambda>_. ?new) h)"
      using False ci by (auto simp: host_stream_alloc_def h'_def)
    {
      assume ok: "host_ok h"
      note a = assms [OF ok]
      have new: "stream_ok h ?new"
        using a False ci host_ok_open [OF ok]
        by (auto simp: stream_ok_def zero_host_stream_def buffers_ok_def open_ok_def split: option.split)
      have conn: "conn_ok h' k" if "k < length (lh_conns h)" for k
        using host_ok_conn [OF ok that] streams_of_update [of i "lh_streams h" ?new k] i a ci that room
        by (cases "k = c")
          (auto simp: conn_ok_def eq upd_conn_def upd_host_stream_def zero_host_stream_def split: if_splits)
      have "host_ok h' \<and> host_shape h' = host_shape h"
        by (rule host_ok_tables [OF ok _ _ _ _ _ _ _ _ _ _ _ _ _ conn])
          (use ok new in \<open>simp_all add: host_ok_def eq upd_conn_def upd_host_stream_def list_all_update_within\<close>)
    }
    then show ?thesis by (simp add: host_keeps_def h'_def)
  qed
qed


text \<open>A free open is taken for a connection in use.\<close>

lemma keep_open_take:
  assumes p: "p < length (lh_opens h)" "ho_state (lh_opens h ! p) = HOST_OPEN_FREE"
    and c: "c < length (lh_conns h)" "hc_active (lh_conns h ! c)"
    and new: "open_ok h new" "ho_state new \<noteq> HOST_OPEN_FREE" "ho_conn new = Some c"
  shows "host_keeps h (upd_conn c (\<lambda>k. k\<lparr>hc_open_count := hc_open_count k + 1\<rparr>) (upd_open p (\<lambda>_. new) h))"
proof -
  {
    assume ok: "host_ok h"
    let ?h = "upd_conn c (\<lambda>k. k\<lparr>hc_open_count := hc_open_count k + 1\<rparr>) (upd_open p (\<lambda>_. new) h)"
    have "conn_ok ?h k" if "k < length (lh_conns h)" for k
      using host_ok_conn [OF ok that] opens_of_update [OF p(1), of new k] p(2) c new that
      by (cases "k = c") (auto simp: conn_ok_def upd_conn_def upd_open_def split: if_splits)
    with ok new(1) have "host_ok ?h \<and> host_shape ?h = host_shape h"
      by (intro host_ok_tables)
        (simp_all add: host_ok_def, simp_all add: upd_conn_def upd_open_def list_all_update_within)
  }
  then show ?thesis by (simp add: host_keeps_def)
qed

end
