(* ===== verification/Host_Steps.thy ===== *)
theory Host_Steps
  imports Host_Laws
begin

text \<open>
  The functions of \<open>libp2p_host_streams.c\<close> keep the tables of the host sound: the frames of the negotiation,
  its ends, its steps, and opening and cancelling a stream.
\<close>

subsection \<open>The code around the host\<close>

text \<open>A read delivers no more than fits, a write accepts no more than it is given.\<close>

definition transport_bounded :: "'t host_transport \<Rightarrow> bool" where
  "transport_bounded tr \<longleftrightarrow>
     (\<forall>t s n e bs fin t'. tr_stream_read tr t s n = ((e, bs, fin), t') \<longrightarrow> length bs \<le> n) \<and>
     (\<forall>t s d fin e k t'. tr_stream_write tr t s d fin = ((e, k), t') \<longrightarrow> k \<le> length d)"

text \<open>The callbacks of the protocols keep the host sound.\<close>

definition env_keeps :: "('t, 'a) host_env \<Rightarrow> bool" where
  "env_keeps env \<longleftrightarrow> transport_bounded (env_transport env) \<and>
     (\<forall>k h i dir. host_keeps h (snd (env_on_open env k h i dir))) \<and>
     (\<forall>k h i kind. host_keeps h (snd (env_on_event env k h i kind)))"

lemma host_shape_lengths:
  assumes "host_shape h' = host_shape h"
  shows "length (lh_conns h') = length (lh_conns h)" "length (lh_streams h') = length (lh_streams h)"
    "length (lh_opens h') = length (lh_opens h)" "length (lh_dials h') = length (lh_dials h)"
    "length (lh_events h') = length (lh_events h)" "lh_protocols h' = lh_protocols h"
    "lh_max_negotiation_steps h' = lh_max_negotiation_steps h"
    "lh_max_streams_per_conn h' = lh_max_streams_per_conn h"
  using assms by (simp_all add: host_shape_def)

subsection \<open>Frames\<close>

text \<open>A step on the stream in slot \<open>i\<close> returns, keeps the host sound and the state of the stream.\<close>

definition stream_step :: "nat \<Rightarrow> ('t, 'a) libp2p_host \<Rightarrow> ('t, 'a) libp2p_host \<Rightarrow> bool" where
  "stream_step i h h' \<longleftrightarrow> host_keeps h h' \<and> hs_state (lh_streams h' ! i) = hs_state (lh_streams h ! i)"

lemma stream_step_refl [simp]: "stream_step i h h"
  by (simp add: stream_step_def)

lemma stream_step_trans: "stream_step i a b \<Longrightarrow> stream_step i b c \<Longrightarrow> stream_step i a c"
  unfolding stream_step_def using host_keeps_trans by metis

lemma stream_step_update:
  assumes "host_ok h \<Longrightarrow> i < length (lh_streams h) \<Longrightarrow> stream_ok h (f (lh_streams h ! i))"
    and "i < length (lh_streams h) \<Longrightarrow> hs_state (f (lh_streams h ! i)) = hs_state (lh_streams h ! i)"
    and "i < length (lh_streams h) \<Longrightarrow> hs_conn (f (lh_streams h ! i)) = hs_conn (lh_streams h ! i)"
  shows "stream_step i h (upd_host_stream i f h)"
proof -
  have "host_keeps h (upd_host_stream i f h)" by (rule keep_upd_stream) (use assms in simp)
  moreover have "hs_state (lh_streams (upd_host_stream i f h) ! i) = hs_state (lh_streams h ! i)"
    using assms(2) by (cases "i < length (lh_streams h)") (simp_all add: upd_host_stream_def list_update_beyond)
  ultimately show ?thesis by (simp add: stream_step_def)
qed

lemma stream_step_transport: "stream_step i h (h\<lparr>lh_transport := t\<rparr>)"
  by (simp add: stream_step_def keep_transport)

lemma caps [simp]: "HOST_NEGOTIATION_FRAME_CAP = 1026" "HOST_NEGOTIATION_PAYLOAD_CAP = 1023"
  by (simp_all add: HOST_NEGOTIATION_FRAME_CAP_def HOST_NEGOTIATION_PAYLOAD_CAP_def ms_limits)

lemma message_encode_total:
  "\<exists>e w out'. libp2p_multistream_select_message_encode (Buf p) (Buf out) = Some (e, w, Buf out') \<and>
     w \<le> 1026 \<and> length out' = length out"
proof (cases "ms_valid p")
  case False
  with message_size_invalid [OF False] show ?thesis
    by (simp add: libp2p_multistream_select_message_encode_def)
next
  case True
  show ?thesis
  proof (cases "length (ms_frame p) \<le> length out")
    case fits: True
    with message_encode_valid [OF True fits] ms_frame_bound [OF True] show ?thesis by simp
  next
    case False
    with message_size_valid [OF True] ms_frame_bound [OF True] show ?thesis
      by (simp add: libp2p_multistream_select_message_encode_def)
  qed
qed

lemma prepare_message_keeps:
  assumes "host_ok h" and "i < length (lh_streams h)"
  shows "\<exists>e h'. host_stream_prepare_message i (Buf p) h = Some (e, h') \<and> stream_step i h h'"
proof -
  obtain e w out' where enc: "libp2p_multistream_select_message_encode (Buf p)
      (Buf (hs_out_frame (lh_streams h ! i))) = Some (e, w, Buf out')" and
    w: "w \<le> 1026" "length out' = length (hs_out_frame (lh_streams h ! i))"
    using message_encode_total [of p "hs_out_frame (lh_streams h ! i)"] by blast
  have "stream_step i h (upd_host_stream i (\<lambda>s. s\<lparr>hs_out_frame := out', hs_out_len := w, hs_out_pos := 0\<rparr>) h)"
    using host_ok_stream [OF assms] w by (intro stream_step_update) (simp_all add: stream_ok_def buffers_ok_def)
  then show ?thesis by (simp add: host_stream_prepare_message_def enc)
qed

lemma prepare_message_id_keeps:
  assumes "host_ok h" and "i < length (lh_streams h)" and "\<not> is_null b"
  shows "\<exists>e h'. host_stream_prepare_message i b h = Some (e, h') \<and> stream_step i h h'"
  using prepare_message_keeps [OF assms(1,2)] assms(3) by (cases b) simp_all

lemma ls_size_loop_total:
  "ids_valid ids \<Longrightarrow> required \<le> 1023 \<Longrightarrow>
   (\<exists>e r. ls_payload_size_loop (map Buf ids) required = (e, r) \<and> e \<noteq> MS_OK) \<or>
   required + length (ls_bytes ids) \<le> 1023"
proof (induction ids arbitrary: required)
  case (Cons p ids)
  show ?case
  proof (cases "required + length (ms_frame p) \<le> 1023")
    case True
    with Cons.prems Cons.IH [of "required + length (ms_frame p)"] show ?thesis
      by (auto simp: message_size_valid ms_limits not_less)
  next
    case False
    with Cons.prems(2) have "1023 - required < length (ms_frame p)" by simp
    with Cons.prems show ?thesis by (simp add: message_size_valid ms_limits)
  qed
qed simp

lemma ids_within_Buf:
  assumes "list_all protocol_id_within bs"
  obtains ids where "bs = map Buf ids" and "ids_valid ids"
proof
  have "b = Buf (contents b)" if "protocol_id_within b" for b using that by (cases b) (simp_all add: protocol_id_within_def)
  with assms show "bs = map Buf (map contents bs)"
    by (induction bs) simp_all
  have "contents b \<noteq> [] \<and> ms_valid (contents b)" if "protocol_id_within b" for b
    using that by (cases b) (simp_all add: protocol_id_within_def ms_valid_def)
  with assms show "ids_valid (map contents bs)"
    by (induction bs) (simp_all add: ids_valid_def)
qed

lemma ls_encode_total:
  assumes "list_all protocol_id_within bs" and "length out = 1023"
  shows "\<exists>e w out'. libp2p_multistream_select_ls_response_payload_encode (Buf bs) (Buf out) = Some (e, w, Buf out') \<and>
    w \<le> 1023 \<and> length out' = 1023"
proof -
  obtain ids where ids: "bs = map Buf ids" "ids_valid ids" by (rule ids_within_Buf [OF assms(1)])
  show ?thesis
  proof (cases "length (ls_bytes ids) \<le> 1023")
    case True
    with ls_encode_fits [OF ids(2), of out] assms(2) ids(1) show ?thesis by simp
  next
    case False
    with ls_size_loop_total [OF ids(2), of 0] obtain e r where
      "ls_payload_size_loop (map Buf ids) 0 = (e, r)" "e \<noteq> MS_OK" by auto
    with ids assms(2) show ?thesis
      by (simp add: libp2p_multistream_select_ls_response_payload_encode_def
          libp2p_multistream_select_ls_response_payload_size_def)
  qed
qed

lemma prepare_ls_keeps:
  assumes "host_ok h" and "i < length (lh_streams h)"
  shows "\<exists>e h'. host_stream_prepare_ls i h = Some (e, h') \<and> stream_step i h h'"
proof -
  note s = host_ok_stream [OF assms]
  have len: "length (hs_payload (lh_streams h ! i)) = 1023" using s by (simp add: stream_ok_def buffers_ok_def)
  have "list_all protocol_id_within (lh_ms_protocols h)" using assms(1) by (simp add: host_ok_def)
  from ls_encode_total [OF this len] obtain e w out' where
    enc: "libp2p_multistream_select_ls_response_payload_encode (Buf (lh_ms_protocols h))
      (Buf (hs_payload (lh_streams h ! i))) = Some (e, w, Buf out')" and w: "w \<le> 1023" "length out' = 1023" by blast
  let ?h = "upd_host_stream i (\<lambda>s. s\<lparr>hs_payload := out', hs_payload_len := w\<rparr>) h"
  have step: "stream_step i h ?h"
    using s w by (intro stream_step_update) (simp_all add: stream_ok_def buffers_ok_def)
  then have ok: "host_ok ?h" using assms(1) by (simp add: stream_step_def host_keeps_def)
  from prepare_message_keeps [OF ok, of i "take w out'"] assms(2)
  obtain e2 h2 where "host_stream_prepare_message i (Buf (take w out')) ?h = Some (e2, h2)" "stream_step i ?h h2"
    by (auto simp: upd_host_stream_def)
  with step stream_step_trans show ?thesis
    by (auto simp: host_stream_prepare_ls_def enc Let_def)
qed

lemma send_prepared_keeps:
  assumes env: "transport_bounded (env_transport env)" and "host_ok h" and "i < length (lh_streams h)"
  shows "\<exists>e b h'. host_stream_send_prepared env i h = Some (e, b, h') \<and> stream_step i h h'"
proof -
  let ?s = "lh_streams h ! i"
  note s = host_ok_stream [OF assms(2,3), unfolded stream_ok_def buffers_ok_def caps]
  obtain result k t where sent: "tr_stream_write (env_transport env) (lh_transport h) (hs_transport_stream ?s)
      (drop (hs_out_pos ?s) (take (hs_out_len ?s) (hs_out_frame ?s))) False = ((result, k), t)"
    by (metis prod.exhaust)
  then have "k \<le> length (drop (hs_out_pos ?s) (take (hs_out_len ?s) (hs_out_frame ?s)))"
    using env unfolding transport_bounded_def by blast
  with s have k: "hs_out_pos ?s + k \<le> hs_out_len ?s" by auto
  let ?h = "h\<lparr>lh_transport := t\<rparr>"
  have s': "stream_ok ?h = stream_ok h" by (simp add: fun_eq_iff stream_ok_def)
  have 1: "stream_step i ?h (upd_host_stream i (\<lambda>s. s\<lparr>hs_out_len := 0, hs_out_pos := 0\<rparr>) ?h)"
    using s by (intro stream_step_update) (simp_all add: s', simp add: stream_ok_def buffers_ok_def)
  have 2: "stream_step i ?h (upd_host_stream i (hs_out_pos_update (\<lambda>_. hs_out_pos ?s + k)) ?h)"
    using s k by (intro stream_step_update) (simp_all add: s', simp add: stream_ok_def buffers_ok_def)
  show ?thesis
    using s k sent 1 2 stream_step_transport [of i h t] stream_step_trans [of i h ?h]
    by (auto simp: host_stream_send_prepared_def Let_def)
qed


subsection \<open>Reading\<close>

text \<open>The bytes of a stream that are read and not taken yet.\<close>

definition stream_input :: "libp2p_host_stream \<Rightarrow> byte list" where
  "stream_input s = take (hs_in_len s) (hs_in_frame s)"

text \<open>The bytes \<open>bs\<close> of an input are stored, and a payload may be stored.\<close>

definition input_change :: "nat \<Rightarrow> ('t, 'a) libp2p_host \<Rightarrow> byte list \<Rightarrow> ('t, 'a) libp2p_host \<Rightarrow> bool" where
  "input_change i h bs h' \<longleftrightarrow>
     stream_step i h h' \<and> stream_input (lh_streams h' ! i) = bs \<and>
     hs_transport_stream (lh_streams h' ! i) = hs_transport_stream (lh_streams h ! i) \<and>
     hs_protocol (lh_streams h' ! i) = hs_protocol (lh_streams h ! i)"

lemma take_message_takes:
  assumes ok: "host_ok h" "i < length (lh_streams h)"
    and fl: "fl \<le> hs_in_len (lh_streams h ! i)" and w: "w \<le> 1023" "length payload = 1023"
  shows "\<exists>h'. host_stream_take_message i w fl payload h = Some h' \<and>
    input_change i h (drop fl (stream_input (lh_streams h ! i))) h' \<and>
    hs_payload (lh_streams h' ! i) = payload \<and> hs_payload_len (lh_streams h' ! i) = w \<and>
    lh_transport h' = lh_transport h"
proof -
  let ?s = "lh_streams h ! i"
  note s = host_ok_stream [OF ok]
  then have len: "length (hs_in_frame ?s) = 1026" "hs_in_len ?s \<le> 1026" by (simp_all add: stream_ok_def buffers_ok_def)
  let ?copy = "if fl < hs_in_len ?s
    then memcpy_at (hs_in_frame ?s) 0 (drop fl (take (hs_in_len ?s) (hs_in_frame ?s))) else Some (hs_in_frame ?s)"
  define frame where "frame = (if fl < hs_in_len ?s
    then drop fl (stream_input ?s) @ drop (hs_in_len ?s - fl) (hs_in_frame ?s) else hs_in_frame ?s)"
  have frame: "?copy = Some frame" "length frame = 1026"
      "take (hs_in_len ?s - fl) frame = drop fl (stream_input ?s)"
    using len fl by (simp_all add: frame_def stream_input_def memcpy_at_0 min_def)
  let ?h = "upd_host_stream i (\<lambda>s. s\<lparr>hs_payload := payload, hs_payload_len := w, hs_in_frame := frame,
                hs_in_len := hs_in_len ?s - fl\<rparr>) h"
  have "stream_step i h ?h"
    using s w frame(2) len by (intro stream_step_update) (simp_all add: stream_ok_def buffers_ok_def)
  moreover have "host_stream_take_message i w fl payload h = Some ?h"
    by (simp add: host_stream_take_message_def Let_def frame(1) upd_host_stream_def)
  moreover have "lh_streams ?h ! i = (lh_streams h ! i)\<lparr>hs_payload := payload, hs_payload_len := w,
      hs_in_frame := frame, hs_in_len := hs_in_len ?s - fl\<rparr>" "lh_transport ?h = lh_transport h"
    using ok(2) by (simp_all add: upd_host_stream_def)
  ultimately show ?thesis using frame(3) by (simp add: input_change_def stream_input_def)
qed

text \<open>
  What reading a message does: bytes \<open>bs\<close> come from the transport, and they are kept behind the bytes that
  were there, except for a frame at the front when a message is ready.
\<close>

definition read_effect ::
  "nat \<Rightarrow> ('t, 'a) libp2p_host \<Rightarrow> libp2p_host_err_t \<Rightarrow> bool \<Rightarrow> byte list \<Rightarrow> ('t, 'a) libp2p_host \<Rightarrow> bool" where
  "read_effect i h err ready bs h' \<longleftrightarrow>
     (if ready then
        err = LIBP2P_HOST_OK \<and>
        (\<exists>p rest. stream_input (lh_streams h ! i) @ bs = ms_frame p @ rest \<and> input_change i h rest h' \<and>
           take (hs_payload_len (lh_streams h' ! i)) (hs_payload (lh_streams h' ! i)) = p)
      else err \<noteq> LIBP2P_HOST_OK \<and> input_change i h (stream_input (lh_streams h ! i) @ bs) h')"


lemma host_ms_err_OK [simp]: "host_ms_err e = LIBP2P_HOST_OK \<longleftrightarrow> e = MS_OK"
  by (cases e) simp_all

lemma take_message_effect:
  assumes ok: "host_ok h'" "i < length (lh_streams h')" and change: "input_change i h bs h'"
    and dec: "ms_dec bs = Some (p, fl)" and all: "bs = stream_input (lh_streams h ! i) @ new"
  shows "\<exists>h2. host_stream_take_message i (length p) fl (p @ drop (length p) (hs_payload (lh_streams h' ! i))) h' = Some h2 \<and>
    read_effect i h LIBP2P_HOST_OK True new h2 \<and> lh_transport h2 = lh_transport h'"
proof -
  note laws = frame.dec_iff [THEN iffD1, OF dec]
  have input: "stream_input (lh_streams h' ! i) = bs" using change by (simp add: input_change_def)
  then have "length bs \<le> hs_in_len (lh_streams h' ! i)" by (auto simp: stream_input_def)
  moreover have "length (hs_payload (lh_streams h' ! i)) = 1023"
    using host_ok_stream [OF ok] by (simp add: stream_ok_def buffers_ok_def)
  ultimately obtain h2 where
    h2: "host_stream_take_message i (length p) fl (p @ drop (length p) (hs_payload (lh_streams h' ! i))) h' = Some h2"
      "input_change i h' (drop fl bs) h2" "hs_payload (lh_streams h2 ! i) = p @ drop (length p) (hs_payload (lh_streams h' ! i))"
      "hs_payload_len (lh_streams h2 ! i) = length p" "lh_transport h2 = lh_transport h'"
    using take_message_takes [OF ok, of fl "length p" "p @ drop (length p) (hs_payload (lh_streams h' ! i))"]
      laws input by (auto simp: ms_valid_def)
  have "input_change i h (drop fl bs) h2"
    using change h2(2) stream_step_trans unfolding input_change_def by metis
  moreover have "bs = ms_frame p @ drop fl bs" using laws append_take_drop_id [of fl bs] by metis
  ultimately show ?thesis using h2 all by (auto simp: read_effect_def)
qed


text \<open>The bytes \<open>bs\<close> come from a read of the stream between the two states of the transport.\<close>

definition bytes_read :: "'t host_transport \<Rightarrow> nat option \<Rightarrow> 't \<Rightarrow> byte list \<Rightarrow> 't \<Rightarrow> bool" where
  "bytes_read tr ts t bs t' \<longleftrightarrow>
     bs = [] \<and> t' = t \<or>
     (\<exists>n e out fin. tr_stream_read tr t ts n = ((e, out, fin), t') \<and> bs = (if e = LIBP2P_HOST_OK then out else []))"

lemma decode_input:
  assumes "length out = 1023"
  shows "(\<exists>p fl. ms_dec bs = Some (p, fl) \<and> libp2p_multistream_select_message_decode (Buf bs) (Buf out) =
            Some (MS_OK, length p, fl, Buf (p @ drop (length p) out))) \<or>
         (\<exists>e f. e \<noteq> MS_OK \<and> libp2p_multistream_select_message_decode (Buf bs) (Buf out) = Some (e, 0, f, Buf out))"
proof (cases "ms_dec bs")
  case None
  from message_decode_fails [OF this, of out] show ?thesis by blast
next
  case (Some x)
  then obtain p fl where d: "ms_dec bs = Some (p, fl)" by (cases x) auto
  then have "length p \<le> 1023" using frame.dec_iff [of bs p fl] by (simp add: ms_valid_def)
  with message_decode_frame [OF d, of out] assms d show ?thesis by auto
qed

text \<open>Storing the bytes of a read behind the input.\<close>

lemma store_input:
  fixes h :: "('t, 'a) libp2p_host"
  assumes ok: "host_ok h" "i < length (lh_streams h)"
    and room: "length bs \<le> 1026 - hs_in_len (lh_streams h ! i)"
  defines "s \<equiv> lh_streams h ! i"
  shows "\<exists>frame. memcpy_at (hs_in_frame s) (hs_in_len s) bs = Some frame \<and>
    take (hs_in_len s + length bs) frame = stream_input s @ bs \<and>
    input_change i h (stream_input s) (upd_host_stream i (hs_in_frame_update (\<lambda>_. frame)) (h\<lparr>lh_transport := t\<rparr>)) \<and>
    input_change i h (stream_input s @ bs) (upd_host_stream i (\<lambda>s. s\<lparr>hs_in_len := hs_in_len s + length bs\<rparr>)
      (upd_host_stream i (hs_in_frame_update (\<lambda>_. frame)) (h\<lparr>lh_transport := t\<rparr>)))"
proof -
  have sok: "stream_ok h s" unfolding s_def by (rule host_ok_stream [OF ok])
  then have len: "length (hs_in_frame s) = 1026" "hs_in_len s \<le> 1026" by (simp_all add: stream_ok_def buffers_ok_def)
  let ?frame = "take (hs_in_len s) (hs_in_frame s) @ bs @ drop (hs_in_len s + length bs) (hs_in_frame s)"
  have copy: "memcpy_at (hs_in_frame s) (hs_in_len s) bs = Some ?frame"
    using len room by (intro memcpy_at_in) (simp add: s_def)
  have flen: "length ?frame = 1026" using len room by (simp add: s_def)
  let ?t = "h\<lparr>lh_transport := t\<rparr>"
  let ?h1 = "upd_host_stream i (hs_in_frame_update (\<lambda>_. ?frame)) ?t"
  let ?h2 = "upd_host_stream i (\<lambda>s. s\<lparr>hs_in_len := hs_in_len s + length bs\<rparr>) ?h1"
  have t: "stream_ok ?t = stream_ok h" by (simp add: fun_eq_iff stream_ok_def)
  have step1: "stream_step i ?t ?h1"
    using sok flen by (intro stream_step_update; simp add: stream_ok_def buffers_ok_def s_def)
  have at1: "lh_streams ?h1 ! i = s\<lparr>hs_in_frame := ?frame\<rparr>" "stream_ok ?h1 = stream_ok h"
    using ok(2) by (simp_all add: upd_host_stream_def s_def fun_eq_iff stream_ok_def)
  have step2: "stream_step i ?h1 ?h2"
    using sok flen len room
    by (intro stream_step_update; simp only: at1; simp add: stream_ok_def buffers_ok_def s_def)
  have at2: "lh_streams ?h2 ! i = s\<lparr>hs_in_frame := ?frame, hs_in_len := hs_in_len s + length bs\<rparr>"
    using ok(2) by (simp add: upd_host_stream_def s_def)
  have in1: "take (hs_in_len s) ?frame = stream_input s" "take (hs_in_len s + length bs) ?frame = stream_input s @ bs"
    using len by (simp_all add: stream_input_def)
  have c1: "input_change i h (stream_input s) ?h1"
    using stream_step_trans [OF stream_step_transport step1] at1 in1(1) by (simp add: input_change_def stream_input_def s_def)
  have c2: "input_change i h (stream_input s @ bs) ?h2"
    using stream_step_trans [OF stream_step_trans [OF stream_step_transport step1] step2] at2 in1(2)
    by (simp add: input_change_def stream_input_def s_def)
  from copy in1(2) c1 c2 show ?thesis by blast
qed


lemma read_effect_wait:
  "e \<noteq> LIBP2P_HOST_OK \<Longrightarrow> input_change i h (stream_input (lh_streams h ! i) @ bs) h' \<Longrightarrow> read_effect i h e False bs h'"
  by (simp add: read_effect_def)

lemma input_change_refl: "input_change i h (stream_input (lh_streams h ! i)) h"
  by (simp add: input_change_def)

lemma input_change_ok:
  "host_ok h \<Longrightarrow> i < length (lh_streams h) \<Longrightarrow> input_change i h bs h' \<Longrightarrow>
   host_ok h' \<and> i < length (lh_streams h')"
  using host_shape_lengths(2) [of h' h] by (auto simp: input_change_def stream_step_def host_keeps_def)

lemma read_more_effect:
  fixes h :: "('t, 'a) libp2p_host"
  assumes env: "transport_bounded (env_transport env)" and ok: "host_ok h" "i < length (lh_streams h)"
  defines "s \<equiv> lh_streams h ! i"
  assumes waits: "hs_in_len s = 0 \<or> libp2p_multistream_select_message_decode (Buf (stream_input s)) (Buf (hs_payload s)) =
      Some (LIBP2P_MULTISTREAM_SELECT_ERR_TRUNCATED, w0, f0, o0)"
    and room: "hs_in_len s \<noteq> 1026"
  shows "\<exists>e b r bs h'. host_stream_read_message env i h = Some (e, b, r, h') \<and> read_effect i h e r bs h' \<and>
    bytes_read (env_transport env) (hs_transport_stream s) (lh_transport h) bs (lh_transport h')"
proof -
  have sok: "stream_ok h s" unfolding s_def by (rule host_ok_stream [OF ok])
  then have len: "length (hs_in_frame s) = 1026" "length (hs_payload s) = 1023"
    by (simp_all add: stream_ok_def buffers_ok_def)
  obtain e out fin t where rd: "tr_stream_read (env_transport env) (lh_transport h) (hs_transport_stream s)
      (1026 - hs_in_len s) = ((e, out, fin), t)" by (metis prod.exhaust)
  then have out: "length out \<le> 1026 - hs_in_len s" using env unfolding transport_bounded_def by blast
  from store_input [OF ok, of out t] out obtain frame where
    frame: "memcpy_at (hs_in_frame s) (hs_in_len s) out = Some frame"
      "take (hs_in_len s + length out) frame = stream_input s @ out" and
    c1: "input_change i h (stream_input s) (upd_host_stream i (hs_in_frame_update (\<lambda>_. frame)) (h\<lparr>lh_transport := t\<rparr>))" and
    c2: "input_change i h (stream_input s @ out) (upd_host_stream i (\<lambda>s. s\<lparr>hs_in_len := hs_in_len s + length out\<rparr>)
      (upd_host_stream i (hs_in_frame_update (\<lambda>_. frame)) (h\<lparr>lh_transport := t\<rparr>)))"
    unfolding s_def by blast
  let ?h1 = "upd_host_stream i (hs_in_frame_update (\<lambda>_. frame)) (h\<lparr>lh_transport := t\<rparr>)"
  let ?h2 = "upd_host_stream i (\<lambda>s. s\<lparr>hs_in_len := hs_in_len s + length out\<rparr>) ?h1"
  have tr: "lh_transport ?h1 = t" "lh_transport ?h2 = t" by (simp_all add: upd_host_stream_def)
  have from_read: "bytes_read (env_transport env) (hs_transport_stream s) (lh_transport h)
      (if e = LIBP2P_HOST_OK then out else []) t"
    using rd unfolding bytes_read_def by blast
  have eq: "host_stream_read_message env i h =
    (if e = LIBP2P_HOST_OK then
       if length out = 0 \<and> fin then Some (LIBP2P_HOST_ERR_NEGOTIATION, length out \<noteq> 0, False, ?h2)
       else do {
         (decode_err2, written2, consumed2, payload2) \<leftarrow>
           libp2p_multistream_select_message_decode (Buf (stream_input s @ out)) (Buf (hs_payload s));
         (if decode_err2 = LIBP2P_MULTISTREAM_SELECT_OK then do {
            h3 \<leftarrow> host_stream_take_message i written2 consumed2 (contents payload2) ?h2;
            Some (LIBP2P_HOST_OK, True, True, h3)
          }
          else if decode_err2 = LIBP2P_MULTISTREAM_SELECT_ERR_TRUNCATED
          then Some (LIBP2P_HOST_ERR_WOULD_BLOCK, length out \<noteq> 0, False, ?h2)
          else Some (host_ms_err decode_err2, length out \<noteq> 0, False, ?h2))
       }
     else Some (e, False, False, ?h1))"
    using waits room len(1) by (auto simp: host_stream_read_message_def Let_def s_def [symmetric] rd frame
        stream_input_def [symmetric] cong: if_cong)
  show ?thesis
  proof (cases "e = LIBP2P_HOST_OK")
    case False
    then have "read_effect i h e False [] ?h1" using c1 by (intro read_effect_wait) (simp_all add: s_def)
    with eq False from_read tr show ?thesis by (auto intro!: exI [of _ "[]"])
  next
    case e: True
    have wait: "read_effect i h x False out ?h2" if "x \<noteq> LIBP2P_HOST_OK" for x
      using that c2 by (intro read_effect_wait) (simp_all add: s_def)
    show ?thesis
    proof (cases "length out = 0 \<and> fin")
      case True
      with eq e from_read tr wait show ?thesis by (auto intro!: exI [of _ out])
    next
      case False
      from decode_input [OF len(2), of "stream_input s @ out"] show ?thesis
      proof
        assume "\<exists>p fl. ms_dec (stream_input s @ out) = Some (p, fl) \<and>
          libp2p_multistream_select_message_decode (Buf (stream_input s @ out)) (Buf (hs_payload s)) =
            Some (MS_OK, length p, fl, Buf (p @ drop (length p) (hs_payload s)))"
        then obtain p fl where p: "ms_dec (stream_input s @ out) = Some (p, fl)"
          "libp2p_multistream_select_message_decode (Buf (stream_input s @ out)) (Buf (hs_payload s)) =
            Some (MS_OK, length p, fl, Buf (p @ drop (length p) (hs_payload s)))" by blast
        note ok2 = input_change_ok [OF ok c2]
        have same: "hs_payload (lh_streams ?h2 ! i) = hs_payload s"
          using ok(2) by (simp add: upd_host_stream_def s_def)
        from take_message_effect [OF conjunct1 [OF ok2] conjunct2 [OF ok2] c2 p(1)] obtain h3 where
          "host_stream_take_message i (length p) fl (p @ drop (length p) (hs_payload s)) ?h2 = Some h3"
          "read_effect i h LIBP2P_HOST_OK True out h3" "lh_transport h3 = t"
          by (auto simp: same s_def tr)
        with eq e False p(2) from_read show ?thesis by (auto intro!: exI [of _ out])
      next
        assume "\<exists>er f. er \<noteq> MS_OK \<and> libp2p_multistream_select_message_decode (Buf (stream_input s @ out))
          (Buf (hs_payload s)) = Some (er, 0, f, Buf (hs_payload s))"
        then obtain er f where er: "er \<noteq> MS_OK" "libp2p_multistream_select_message_decode (Buf (stream_input s @ out))
          (Buf (hs_payload s)) = Some (er, 0, f, Buf (hs_payload s))" by blast
        show ?thesis
        proof (cases "er = LIBP2P_MULTISTREAM_SELECT_ERR_TRUNCATED")
          case True
          with eq e False er from_read tr wait [of LIBP2P_HOST_ERR_WOULD_BLOCK] show ?thesis
            by (auto intro!: exI [of _ out])
        next
          case False': False
          with eq e False er from_read tr wait [of "host_ms_err er"] show ?thesis
            by (auto intro!: exI [of _ out])
        qed
      qed
    qed
  qed
qed


lemma read_message_effect:
  fixes h :: "('t, 'a) libp2p_host"
  assumes env: "transport_bounded (env_transport env)" and ok: "host_ok h" "i < length (lh_streams h)"
  defines "s \<equiv> lh_streams h ! i"
  shows "\<exists>e b r bs h'. host_stream_read_message env i h = Some (e, b, r, h') \<and> read_effect i h e r bs h' \<and>
    bytes_read (env_transport env) (hs_transport_stream s) (lh_transport h) bs (lh_transport h')"
proof -
  have sok: "stream_ok h s" unfolding s_def by (rule host_ok_stream [OF ok])
  then have len: "length (hs_in_frame s) = 1026" "length (hs_payload s) = 1023"
    by (simp_all add: stream_ok_def buffers_ok_def)
  have no_read: "bytes_read (env_transport env) (hs_transport_stream s) (lh_transport h) [] (lh_transport h)"
    by (simp add: bytes_read_def)
  have wait: "read_effect i h x False [] h" if "x \<noteq> LIBP2P_HOST_OK" for x
    using that input_change_refl [of i h] by (intro read_effect_wait) simp_all
  show ?thesis
  proof (cases "hs_in_len s = 0")
    case True
    then show ?thesis using read_more_effect [OF env ok] unfolding s_def by simp
  next
    case some: False
    from decode_input [OF len(2), of "stream_input s"] show ?thesis
    proof
      assume "\<exists>p fl. ms_dec (stream_input s) = Some (p, fl) \<and>
        libp2p_multistream_select_message_decode (Buf (stream_input s)) (Buf (hs_payload s)) =
          Some (MS_OK, length p, fl, Buf (p @ drop (length p) (hs_payload s)))"
      then obtain p fl where p: "ms_dec (stream_input s) = Some (p, fl)"
        "libp2p_multistream_select_message_decode (Buf (stream_input s)) (Buf (hs_payload s)) =
          Some (MS_OK, length p, fl, Buf (p @ drop (length p) (hs_payload s)))" by blast
      have "input_change i h (stream_input s) h" using input_change_refl [of i h] by (simp add: s_def)
      from take_message_effect [OF ok this p(1), of "[]"] obtain h' where
        "host_stream_take_message i (length p) fl (p @ drop (length p) (hs_payload s)) h = Some h'"
        "read_effect i h LIBP2P_HOST_OK True [] h'" "lh_transport h' = lh_transport h"
        by (auto simp: s_def)
      with some p(2) no_read show ?thesis
        by (auto simp: host_stream_read_message_def Let_def s_def [symmetric] stream_input_def intro!: exI [of _ "[]"])
    next
      assume "\<exists>er f. er \<noteq> MS_OK \<and> libp2p_multistream_select_message_decode (Buf (stream_input s))
        (Buf (hs_payload s)) = Some (er, 0, f, Buf (hs_payload s))"
      then obtain er f where er: "er \<noteq> MS_OK" "libp2p_multistream_select_message_decode (Buf (stream_input s))
        (Buf (hs_payload s)) = Some (er, 0, f, Buf (hs_payload s))" by blast
      show ?thesis
      proof (cases "er = LIBP2P_MULTISTREAM_SELECT_ERR_TRUNCATED")
        case False
        with er some no_read wait [of "host_ms_err er"] show ?thesis
          by (auto simp: host_stream_read_message_def Let_def s_def [symmetric] stream_input_def intro!: exI [of _ "[]"])
      next
        case trunc: True
        show ?thesis
        proof (cases "hs_in_len s = 1026")
          case True
          with er trunc len no_read wait [of LIBP2P_HOST_ERR_NEGOTIATION] show ?thesis
            by (auto simp: host_stream_read_message_def Let_def s_def [symmetric] stream_input_def intro!: exI [of _ "[]"])
        next
          case False
          with er trunc show ?thesis using read_more_effect [OF env ok] unfolding s_def by blast
        qed
      qed
    qed
  qed
qed

lemma read_message_keeps:
  assumes "transport_bounded (env_transport env)" and "host_ok h" and "i < length (lh_streams h)"
  shows "\<exists>e b r h'. host_stream_read_message env i h = Some (e, b, r, h') \<and> stream_step i h h' \<and>
    hs_protocol (lh_streams h' ! i) = hs_protocol (lh_streams h ! i)"
  using read_message_effect [OF assms] by (auto simp: read_effect_def input_change_def split: if_splits)

subsection \<open>Ends of a negotiation\<close>

lemma upd_stream_shape [simp]:
  "length (lh_streams (upd_host_stream i f h)) = length (lh_streams h)" "lh_opens (upd_host_stream i f h) = lh_opens h"
  "lh_conns (upd_host_stream i f h) = lh_conns h" "lh_dials (upd_host_stream i f h) = lh_dials h"
  "lh_protocols (upd_host_stream i f h) = lh_protocols h"
  by (simp_all add: upd_host_stream_def)

lemma upd_open_shape [simp]:
  "length (lh_opens (upd_open i f h)) = length (lh_opens h)" "lh_streams (upd_open i f h) = lh_streams h"
  "lh_conns (upd_open i f h) = lh_conns h" "lh_dials (upd_open i f h) = lh_dials h"
  "lh_protocols (upd_open i f h) = lh_protocols h"
  by (simp_all add: upd_open_def)

text \<open>Changes of fields of a stream that the invariant does not speak of.\<close>

lemma keep_stream_field:
  assumes "\<And>s. buffers_ok (f s) = buffers_ok s" "\<And>s. hs_host (f s) = hs_host s" "\<And>s. hs_conn (f s) = hs_conn s"
    "\<And>s. hs_transport_stream (f s) = hs_transport_stream s" "\<And>s. hs_protocol (f s) = hs_protocol s"
    "\<And>s. hs_fallback_protocol (f s) = hs_fallback_protocol s" "\<And>s. hs_state (f s) = hs_state s"
    "\<And>s. hs_open_attempt (f s) = hs_open_attempt s \<or> hs_open_attempt (f s) = None"
  shows "host_keeps h (upd_host_stream i f h)"
proof (rule keep_upd_stream)
  assume ok: "host_ok h" "i < length (lh_streams h)"
  show "stream_ok h (f (lh_streams h ! i)) \<and>
      (\<forall>c. (hs_state (f (lh_streams h ! i)) \<noteq> HOST_STREAM_FREE \<and> hs_conn (f (lh_streams h ! i)) = Some c) =
           (hs_state (lh_streams h ! i) \<noteq> HOST_STREAM_FREE \<and> hs_conn (lh_streams h ! i) = Some c))"
    using host_ok_stream [OF ok] assms(8) [of "lh_streams h ! i"] by (auto simp: stream_ok_def assms(1-7))
qed

lemma keep_stream_marks [host_keep_laws]:
  "host_keeps h (upd_host_stream i (hs_neg_state_update f) h)"
  "host_keeps h (upd_host_stream i (hs_pending_readable_update g) h)"
  "host_keeps h (upd_host_stream i (hs_pending_writable_update g) h)"
  "host_keeps h (upd_host_stream i (hs_pending_reset_update g) h)"
  "host_keeps h (upd_host_stream i (hs_pending_closed_update g) h)"
  "host_keeps h (upd_host_stream i (hs_outbound_open_event_queued_update g) h)"
  "host_keeps h (upd_host_stream i (hs_outbound_fail_event_queued_update g) h)"
  "host_keeps h (upd_host_stream i (hs_user_data_update u) h)"
  "host_keeps h (upd_host_stream i (hs_open_attempt_update (\<lambda>_. None)) h)"
  "host_keeps h (upd_host_stream i (\<lambda>s. s\<lparr>hs_pending_writable := x, hs_pending_readable := y\<rparr>) h)"
  "host_keeps h (upd_host_stream i (\<lambda>s. s\<lparr>hs_outbound_multistream_ready := x, hs_neg_state := n\<rparr>) h)"
  by (rule keep_stream_field; simp add: buffers_ok_def)+

lemma keep_open_evented [host_keep_laws]:
  "host_keeps h (upd_open p (ho_state_update (\<lambda>_. HOST_OPEN_EVENTED)) h)"
proof (rule keep_upd_open)
  assume ok: "host_ok h" "p < length (lh_opens h)"
  show "open_ok h (ho_state_update (\<lambda>_. HOST_OPEN_EVENTED) (lh_opens h ! p)) \<and>
      (\<forall>c. (ho_state (ho_state_update (\<lambda>_. HOST_OPEN_EVENTED) (lh_opens h ! p)) \<noteq> HOST_OPEN_FREE \<and>
            ho_conn (ho_state_update (\<lambda>_. HOST_OPEN_EVENTED) (lh_opens h ! p)) = Some c) =
           (ho_state (lh_opens h ! p) \<noteq> HOST_OPEN_FREE \<and> ho_conn (lh_opens h ! p) = Some c))"
    using host_ok_open [OF ok] by (auto simp: open_ok_def)
qed


text \<open>A sound host with the tables of \<open>h0\<close>.\<close>

definition sound_for :: "('t, 'a) libp2p_host \<Rightarrow> ('t, 'a) libp2p_host \<Rightarrow> bool" where
  "sound_for h0 h \<longleftrightarrow> host_ok h \<and> host_shape h = host_shape h0"

lemma sound_for_refl: "host_ok h \<Longrightarrow> sound_for h h"
  by (simp add: sound_for_def)

lemma sound_for_step: "sound_for h0 h \<Longrightarrow> host_keeps h h' \<Longrightarrow> sound_for h0 h'"
  by (simp add: sound_for_def host_keeps_def)

lemma sound_for_ok: "sound_for h0 h \<Longrightarrow> host_ok h"
  by (simp add: sound_for_def)

lemma sound_for_trans: "sound_for a b \<Longrightarrow> sound_for b c \<Longrightarrow> sound_for a c"
  by (simp add: sound_for_def)

lemma sound_for_lengths:
  assumes "sound_for h0 h"
  shows "length (lh_conns h) = length (lh_conns h0)" "length (lh_streams h) = length (lh_streams h0)"
    "length (lh_opens h) = length (lh_opens h0)" "length (lh_dials h) = length (lh_dials h0)"
    "length (lh_events h) = length (lh_events h0)" "lh_protocols h = lh_protocols h0"
    "lh_max_negotiation_steps h = lh_max_negotiation_steps h0"
  using assms by (auto simp: sound_for_def dest: host_shape_lengths)

lemma host_keepsI: "(host_ok h \<Longrightarrow> sound_for h h') \<Longrightarrow> host_keeps h h'"
  by (simp add: host_keeps_def sound_for_def)

lemma sound_for_push: "sound_for h0 h \<Longrightarrow> event_ok h e \<Longrightarrow> sound_for h0 (snd (host_event_push e h))"
  using keep_event_push sound_for_step by blast

lemma sound_for_open_release:
  "sound_for h0 h \<Longrightarrow> index_within p (length (lh_opens h0)) \<Longrightarrow> sound_for h0 (host_open_release p h)"
  by (metis keep_open_release sound_for_lengths(3) sound_for_step)

lemma sound_for_stream_release:
  "sound_for h0 h \<Longrightarrow> i < length (lh_streams h0) \<Longrightarrow> sound_for h0 (host_stream_release env i h)"
  by (metis keep_stream_release sound_for_lengths(2) sound_for_step)

lemma sound_for_recycle:
  "sound_for h0 h \<Longrightarrow> index_within c (length (lh_conns h0)) \<Longrightarrow> sound_for h0 (snd (host_conn_try_recycle env c h))"
  by (metis keep_try_recycle sound_for_lengths(1) sound_for_step)

lemma event_ok_sound: "sound_for h0 h \<Longrightarrow> event_ok h e = event_ok h0 e"
  by (simp add: event_ok_def sound_for_lengths)

lemma event_fields_ok [simp]:
  "event_ok h zero_host_event" "event_ok h (e\<lparr>he_type := ty\<rparr>) = event_ok h e"
  "event_ok h (e\<lparr>he_reason := r\<rparr>) = event_ok h e" "event_ok h (e\<lparr>he_user_data := u\<rparr>) = event_ok h e"
  "event_ok h (e\<lparr>he_locally_initiated := b\<rparr>) = event_ok h e"
  "event_ok h (e\<lparr>he_app_error_code := x\<rparr>) = event_ok h e"
  "event_ok h (e\<lparr>he_transport_error_code := x\<rparr>) = event_ok h e"
  by (simp_all add: event_ok_def zero_host_event_def)

lemma keep_fail_negotiation:
  assumes i: "i < length (lh_streams h)"
  shows "host_keeps h (snd (host_stream_fail_negotiation env i reason te h))"
proof (rule host_keepsI)
  assume "host_ok h"
  define h1 where "h1 = upd_host_stream i (hs_neg_state_update (\<lambda>_. HOST_NEG_FAILED)) h"
  define s where "s = lh_streams h1 ! i"
  define h2 where "h2 = (if (case te of None \<Rightarrow> True | Some e \<Rightarrow> te_type e = LIBP2P_HOST_TRANSPORT_EVENT_STREAM_RESET)
    then snd (transport_call (\<lambda>t. tr_stream_reset (env_transport env) t (hs_transport_stream s) 0) h1) else h1)"
  define event where "event = zero_host_event\<lparr>he_type := LIBP2P_HOST_EVENT_STREAM_OPEN_FAILED, he_conn := hs_conn s,
    he_stream_open := hs_open_attempt s, he_reason := reason,
    he_app_error_code := (case te of None \<Rightarrow> 0 | Some e \<Rightarrow> te_app_error_code e),
    he_transport_error_code := (case te of None \<Rightarrow> 0 | Some e \<Rightarrow> te_transport_error_code e),
    he_user_data := (case hs_open_attempt s of None \<Rightarrow> None | Some p \<Rightarrow> ho_user_data (lh_opens h2 ! p))\<rparr>"
  define h3 where "h3 = (case hs_open_attempt s of None \<Rightarrow> h2
    | Some p \<Rightarrow> upd_open p (ho_state_update (\<lambda>_. HOST_OPEN_EVENTED)) h2)"
  define h4 where "h4 = upd_host_stream i (hs_outbound_fail_event_queued_update (\<lambda>_. True)) h3"
  obtain err h5 where push: "host_event_push event h4 = (err, h5)" by (cases "host_event_push event h4")
  define h6 where "h6 = (if err \<noteq> LIBP2P_HOST_OK then host_open_release (hs_open_attempt s) h5 else h5)"
  have eq: "snd (host_stream_fail_negotiation env i reason te h) =
      (if hs_direction s = LIBP2P_HOST_STREAM_OUTBOUND \<and> \<not> hs_outbound_fail_event_queued s
       then host_stream_release env i h6 else host_stream_release env i h2)"
    unfolding host_stream_fail_negotiation_def Let_def h1_def [symmetric] s_def [symmetric] h2_def [symmetric]
      event_def [symmetric] h3_def [symmetric] h4_def [symmetric] push h6_def by simp
  have 1: "sound_for h h1"
    unfolding h1_def using \<open>host_ok h\<close> by (intro sound_for_step [OF sound_for_refl] keep_stream_marks)
  have "stream_ok h1 s" unfolding s_def by (rule host_ok_stream) (use 1 i in \<open>simp_all add: sound_for_ok sound_for_lengths\<close>)
  then have refs: "index_within (hs_conn s) (length (lh_conns h))" "index_within (hs_open_attempt s) (length (lh_opens h))"
    using sound_for_lengths [OF 1] by (simp_all add: stream_ok_def)
  have 2: "sound_for h h2" unfolding h2_def using 1 by (auto intro: sound_for_step keep_transport_call)
  have 3: "sound_for h h3"
    unfolding h3_def using 2 by (auto split: option.split intro: sound_for_step keep_open_evented)
  have 4: "sound_for h h4" unfolding h4_def by (rule sound_for_step [OF 3]) (rule keep_stream_marks)
  have "event_ok h event" unfolding event_def using refs by (simp add: event_ok_def zero_host_event_def)
  then have 5: "sound_for h h5" using sound_for_push [OF 4, of event] push event_ok_sound [OF 4] by simp
  have 6: "sound_for h h6" unfolding h6_def using 5 refs by (simp add: sound_for_open_release)
  show "sound_for h (snd (host_stream_fail_negotiation env i reason te h))"
    unfolding eq using 2 6 i by (simp add: sound_for_stream_release)
qed

lemma keep_protocol_open:
  assumes "env_keeps env"
  shows "host_keeps h (snd (host_protocol_open env i h))"
proof (cases "hs_protocol (lh_streams h ! i)")
  case (Some k)
  obtain out h1 where cb: "env_on_open env k h i (hs_direction (lh_streams h ! i)) = (out, h1)"
    by (cases "env_on_open env k h i (hs_direction (lh_streams h ! i))")
  have "host_keeps h h1" using assms cb unfolding env_keeps_def by (metis snd_conv)
  with Some cb show ?thesis
    by (auto simp: host_protocol_open_def intro: host_keeps_trans keep_result)
qed (simp add: host_protocol_open_def)

lemma keep_complete_negotiation:
  assumes env: "env_keeps env" and i: "i < length (lh_streams h)"
    and used: "hs_state (lh_streams h ! i) \<noteq> HOST_STREAM_FREE"
  shows "host_keeps h (snd (host_stream_complete_negotiation env i h))"
proof (rule host_keepsI)
  assume ok: "host_ok h"
  define h1 where "h1 = upd_host_stream i (\<lambda>s. s\<lparr>hs_neg_state := HOST_NEG_DONE, hs_state := HOST_STREAM_OPEN\<rparr>) h"
  obtain err h2 where opened: "host_protocol_open env i h1 = (err, h2)" by (cases "host_protocol_open env i h1")
  define h3 where "h3 = upd_host_stream i (\<lambda>s. s\<lparr>hs_pending_writable := True, hs_pending_readable := True\<rparr>) h2"
  define s where "s = lh_streams h3 ! i"
  define event where "event = zero_host_event\<lparr>he_type := LIBP2P_HOST_EVENT_STREAM_OPENED, he_conn := hs_conn s,
    he_stream := Some i, he_stream_open := hs_open_attempt s,
    he_user_data := (case hs_open_attempt s of None \<Rightarrow> None | Some p \<Rightarrow> ho_user_data (lh_opens h3 ! p))\<rparr>"
  define h4 where "h4 = (case hs_open_attempt s of None \<Rightarrow> h3
    | Some p \<Rightarrow> upd_open p (ho_state_update (\<lambda>_. HOST_OPEN_EVENTED)) h3)"
  define h5 where "h5 = upd_host_stream i (hs_outbound_open_event_queued_update (\<lambda>_. True)) h4"
  obtain err2 h6 where push: "host_event_push event h5 = (err2, h6)" by (cases "host_event_push event h5")
  have eq: "snd (host_stream_complete_negotiation env i h) =
    (if err \<noteq> LIBP2P_HOST_OK then snd (host_stream_fail_negotiation env i LIBP2P_HOST_ERR_PROTOCOL None h2)
     else if hs_direction s = LIBP2P_HOST_STREAM_OUTBOUND \<and> \<not> hs_outbound_open_event_queued s then
       (if err2 \<noteq> LIBP2P_HOST_OK \<and> hs_open_attempt s \<noteq> None
        then upd_host_stream i (hs_open_attempt_update (\<lambda>_. None)) (host_open_release (hs_open_attempt s) h6) else h6)
     else h3)"
    unfolding host_stream_complete_negotiation_def Let_def h1_def [symmetric] opened prod.case h3_def [symmetric]
      s_def [symmetric] event_def [symmetric] h4_def [symmetric] h5_def [symmetric] push by simp
  have "host_keeps h h1"
    unfolding h1_def using host_ok_stream [OF ok i] used by (intro keep_upd_stream) (simp add: stream_ok_def buffers_ok_def)
  then have 1: "sound_for h h1" using ok by (simp add: host_keeps_def sound_for_def)
  have 2: "sound_for h h2" by (rule sound_for_step [OF 1]) (use keep_protocol_open [OF env, of h1 i] opened in simp)
  have 3: "sound_for h h3" unfolding h3_def by (rule sound_for_step [OF 2]) (rule keep_stream_marks)
  have "stream_ok h3 s" unfolding s_def by (rule host_ok_stream) (use 3 i in \<open>simp_all add: sound_for_ok sound_for_lengths\<close>)
  then have refs: "index_within (hs_conn s) (length (lh_conns h))" "index_within (hs_open_attempt s) (length (lh_opens h))"
    using sound_for_lengths [OF 3] by (simp_all add: stream_ok_def)
  have 4: "sound_for h h4"
    unfolding h4_def using 3 by (auto split: option.split intro: sound_for_step keep_open_evented)
  have 5: "sound_for h h5" unfolding h5_def by (rule sound_for_step [OF 4]) (rule keep_stream_marks)
  have "event_ok h event" unfolding event_def using refs i by (simp add: event_ok_def zero_host_event_def)
  then have 6: "sound_for h h6" using sound_for_push [OF 5, of event] push event_ok_sound [OF 5] by simp
  have 7: "sound_for h (upd_host_stream i (hs_open_attempt_update (\<lambda>_. None)) (host_open_release (hs_open_attempt s) h6))"
    by (rule sound_for_step [OF sound_for_open_release [OF 6 refs(2)]]) (rule keep_stream_marks)
  have fail: "sound_for h (snd (host_stream_fail_negotiation env i LIBP2P_HOST_ERR_PROTOCOL None h2))"
    by (rule sound_for_step [OF 2], rule keep_fail_negotiation) (use i 2 in \<open>simp add: sound_for_lengths\<close>)
  show "sound_for h (snd (host_stream_complete_negotiation env i h))"
    unfolding eq using 3 6 7 fail by simp
qed


subsection \<open>Steps\<close>

definition step_returns :: "('t, 'a) libp2p_host \<Rightarrow> (libp2p_host_err_t \<times> bool \<times> ('t, 'a) libp2p_host) option \<Rightarrow> bool" where
  "step_returns h m \<longleftrightarrow> (\<exists>e b h'. m = Some (e, b, h') \<and> sound_for h h')"

lemma step_returns_Some [simp]: "step_returns h (Some (e, b, h')) \<longleftrightarrow> sound_for h h'"
  by (simp add: step_returns_def)

lemma step_returns_trans: "sound_for h h1 \<Longrightarrow> step_returns h1 m \<Longrightarrow> step_returns h m"
  by (auto simp: step_returns_def intro: sound_for_trans)

lemma stream_step_sound:
  "stream_step i h h' \<Longrightarrow> host_ok h \<Longrightarrow> sound_for h h' \<and> host_ok h' \<and> length (lh_streams h') = length (lh_streams h) \<and>
   hs_state (lh_streams h' ! i) = hs_state (lh_streams h ! i) \<and> lh_protocols h' = lh_protocols h"
  using sound_for_lengths(2,6) [of h h'] by (auto simp: stream_step_def host_keeps_def sound_for_def)

lemma after_ok_returns:
  assumes "host_ok h" and "\<exists>e h1. m = Some (e, h1) \<and> stream_step i h h1"
    and "\<And>h1. stream_step i h h1 \<Longrightarrow> step_returns h1 (f h1)"
  shows "step_returns h (after_ok m b f)"
proof -
  from assms(2) obtain e h1 where m: "m = Some (e, h1)" "stream_step i h h1" by blast
  have sound: "sound_for h h1" using stream_step_sound [OF m(2) assms(1)] by simp
  have "step_returns h (f h1)" by (rule step_returns_trans [OF sound assms(3) [OF m(2)]])
  with m(1) sound show ?thesis by (simp add: after_ok_def)
qed

lemma send_then_returns:
  assumes "transport_bounded (env_transport env)" and "host_ok h" and "i < length (lh_streams h)"
    and "\<And>b h1. stream_step i h h1 \<Longrightarrow> sound_for h (snd (snd (f b h1)))"
  shows "step_returns h (send_then env i f h)"
proof -
  from send_prepared_keeps [OF assms(1-3)] obtain e b h1 where
    m: "host_stream_send_prepared env i h = Some (e, b, h1)" "stream_step i h h1" by blast
  from assms(4) [OF m(2), of b] stream_step_sound [OF m(2) assms(2)] m(1) show ?thesis
    by (cases "f b h1") (auto simp: send_then_def)
qed

lemma read_then_returns:
  assumes "transport_bounded (env_transport env)" and "host_ok h" and "i < length (lh_streams h)"
    and "\<And>h1. stream_step i h h1 \<Longrightarrow> \<exists>e h2. f h1 = Some (e, h2) \<and> sound_for h h2"
  shows "step_returns h (read_then env i f h)"
proof -
  from read_message_keeps [OF assms(1-3)] obtain e b r h1 where
    m: "host_stream_read_message env i h = Some (e, b, r, h1)" "stream_step i h h1" by blast
  from assms(4) [OF m(2)] stream_step_sound [OF m(2) assms(2)] m(1) show ?thesis by (auto simp: read_then_def)
qed

lemma read_then_pair:
  assumes "transport_bounded (env_transport env)" and "host_ok h" and "i < length (lh_streams h)"
    and "\<And>h1. stream_step i h h1 \<Longrightarrow> sound_for h (snd (g h1))"
  shows "step_returns h (read_then env i (\<lambda>h1. Some (g h1)) h)"
proof (rule read_then_returns [OF assms(1-3)])
  fix h1 assume "stream_step i h h1"
  from assms(4) [OF this] show "\<exists>e h2. Some (g h1) = Some (e, h2) \<and> sound_for h h2" by (cases "g h1") simp
qed

lemma stream_step_keeps:
  assumes "host_keeps h (upd_host_stream i f h)" and "\<And>s. hs_state (f s) = hs_state s"
  shows "stream_step i h (upd_host_stream i f h)"
  using assms by (cases "i < length (lh_streams h)") (simp_all add: stream_step_def upd_host_stream_def list_update_beyond)

lemma set_neg_state_step [simp]: "stream_step i h h1 \<Longrightarrow> stream_step i h (set_neg_state i st h1)"
  unfolding set_neg_state_def
  by (erule stream_step_trans, rule stream_step_keeps) (rule keep_stream_marks, simp)

lemma id_not_null: "host_ok h \<Longrightarrow> k < length (lh_protocols h) \<Longrightarrow> \<not> is_null (hp_id (lh_protocols h ! k))"
  using host_ok_protocol [of h k] by (simp add: protocol_id_within_def)


lemma complete_returns:
  assumes "env_keeps env" and "stream_step i h h1" and "host_ok h" and "i < length (lh_streams h)"
    and "hs_state (lh_streams h ! i) \<noteq> HOST_STREAM_FREE"
  shows "sound_for h (snd (host_stream_complete_negotiation env i h1))"
proof -
  note 1 = stream_step_sound [OF assms(2,3)]
  then have "sound_for h h1" by simp
  moreover have "host_keeps h1 (snd (host_stream_complete_negotiation env i h1))"
    using assms 1 by (intro keep_complete_negotiation) simp_all
  ultimately show ?thesis by (rule sound_for_step)
qed

lemma outbound_step_returns:
  assumes env: "env_keeps env" and ok: "host_ok h" "i < length (lh_streams h)"
    and used: "hs_state (lh_streams h ! i) \<noteq> HOST_STREAM_FREE"
  shows "step_returns h (host_stream_outbound_step env i h)"
proof -
  let ?s = "lh_streams h ! i"
  have tr: "transport_bounded (env_transport env)" using env by (simp add: env_keeps_def)
  note s = host_ok_stream [OF ok]
  have sound: "sound_for h h" by (rule sound_for_refl [OF ok(1)])
  have prepared: "\<exists>e h1. (if hs_out_len ?s = 0 then host_stream_prepare_message i b h else Some (LIBP2P_HOST_OK, h)) =
      Some (e, h1) \<and> stream_step i h h1" if "\<not> is_null b" for b
    using prepare_message_id_keeps [OF ok that] by auto
  have sends: "step_returns h1 (send_then env i (\<lambda>_ h1. (LIBP2P_HOST_OK, True, set_neg_state i st h1)) h1)"
    if "stream_step i h h1" for h1 st
    using stream_step_sound [OF that ok(1)] ok(2)
    by (intro send_then_returns [OF tr])
      (simp_all add: stream_step_sound [THEN conjunct1, OF set_neg_state_step])
  show ?thesis
  proof (cases "hs_neg_state ?s")
    case HOST_NEG_OUT_SEND_MS
    then show ?thesis
      using after_ok_returns [OF ok(1) prepared sends] by (simp add: host_stream_outbound_step_def)
  next
    case HOST_NEG_OUT_SEND_PROTOCOL
    show ?thesis
    proof (cases "hs_protocol ?s")
      case None
      with HOST_NEG_OUT_SEND_PROTOCOL sound show ?thesis by (simp add: host_stream_outbound_step_def)
    next
      case (Some k)
      with s have "\<not> is_null (hp_id (lh_protocols h ! k))" by (intro id_not_null [OF ok(1)]) (simp add: stream_ok_def)
      with HOST_NEG_OUT_SEND_PROTOCOL Some after_ok_returns [OF ok(1) prepared sends] show ?thesis
        by (simp add: host_stream_outbound_step_def Let_def)
    qed
  next
    case HOST_NEG_OUT_READ_MS
    have "sound_for h (snd (if payload_is h1 i (Buf LIBP2P_MULTISTREAM_SELECT_PROTOCOL_ID)
        then (LIBP2P_HOST_OK, upd_host_stream i (\<lambda>s. s\<lparr>hs_outbound_multistream_ready := True,
               hs_neg_state := HOST_NEG_OUT_READ_PROTOCOL\<rparr>) h1)
        else (LIBP2P_HOST_ERR_NEGOTIATION, h1)))" if "stream_step i h h1" for h1
    proof -
      have "sound_for h h1" using stream_step_sound [OF that ok(1)] by simp
      with sound_for_step [OF this keep_stream_marks(11)] show ?thesis by simp
    qed
    from read_then_pair [OF tr ok this] HOST_NEG_OUT_READ_MS show ?thesis
      by (simp add: host_stream_outbound_step_def)
  next
    case HOST_NEG_OUT_READ_PROTOCOL
    define g where "g = (\<lambda>h1 :: ('a, 'b) libp2p_host. let s1 = lh_streams h1 ! i in
              if (case hs_protocol s1 of None \<Rightarrow> False | Some k \<Rightarrow> payload_is h1 i (hp_id (lh_protocols h1 ! k)))
               then host_stream_complete_negotiation env i h1
               else if payload_is h1 i (Buf LIBP2P_MULTISTREAM_SELECT_NA) then
                 (if hs_fallback_protocol s1 \<noteq> None then
                    let h2 = upd_host_stream i (\<lambda>s. s\<lparr>hs_protocol := hs_fallback_protocol s,
                               hs_fallback_protocol := None, hs_payload_len := 0,
                               hs_neg_state := HOST_NEG_OUT_SEND_PROTOCOL\<rparr>) h1
                    in (LIBP2P_HOST_OK,
                        case hs_open_attempt s1 of None \<Rightarrow> h2
                        | Some p \<Rightarrow> upd_open p (\<lambda>o'. o'\<lparr>ho_protocol := hs_fallback_protocol s1,
                                     ho_fallback_protocol := None\<rparr>) h2)
                  else host_stream_fail_negotiation env i LIBP2P_HOST_ERR_UNSUPPORTED None h1)
               else (LIBP2P_HOST_ERR_NEGOTIATION, h1))"
    have "sound_for h (snd (g h1))" if step: "stream_step i h h1" for h1
    proof -
      note 1 = stream_step_sound [OF step ok(1)]
      then have sound1: "sound_for h h1" and ok1: "host_ok h1" "i < length (lh_streams h1)" using ok by simp_all
      let ?s1 = "lh_streams h1 ! i"
      note s1 = host_ok_stream [OF ok1]
      let ?h2 = "upd_host_stream i (\<lambda>s. s\<lparr>hs_protocol := hs_fallback_protocol s,
                               hs_fallback_protocol := None, hs_payload_len := 0,
                               hs_neg_state := HOST_NEG_OUT_SEND_PROTOCOL\<rparr>) h1"
      have "host_keeps h1 ?h2"
        by (rule keep_upd_stream) (drule (1) host_ok_stream, simp add: stream_ok_def buffers_ok_def)
      with sound1 have 2: "sound_for h ?h2" by (rule sound_for_step)
      have 3: "sound_for h (upd_open p (\<lambda>o'. o'\<lparr>ho_protocol := hs_fallback_protocol ?s1,
          ho_fallback_protocol := None\<rparr>) ?h2)" for p
        by (rule sound_for_step [OF 2], rule keep_upd_open, drule (1) host_ok_open)
          (use s1 in \<open>simp add: open_ok_def stream_ok_def\<close>)
      have 4: "sound_for h (snd (host_stream_fail_negotiation env i LIBP2P_HOST_ERR_UNSUPPORTED None h1))"
        by (rule sound_for_step [OF sound1 keep_fail_negotiation [OF ok1(2)]])
      show ?thesis
        using complete_returns [OF env step ok used] 2 3 4 sound1 by (simp add: g_def Let_def split: option.split)
    qed
    from read_then_pair [OF tr ok this] HOST_NEG_OUT_READ_PROTOCOL show ?thesis
      by (simp add: host_stream_outbound_step_def g_def Let_def)
  qed (use sound in \<open>simp_all add: host_stream_outbound_step_def\<close>)
qed


lemma prepare_then_returns:
  assumes "host_ok h" and "stream_step i h h1" and "i < length (lh_streams h)"
    and "\<exists>e h2. m = Some (e, h2) \<and> stream_step i h1 h2"
  shows "\<exists>e h2. do { (err, h2) \<leftarrow> m; Some (err, if err = LIBP2P_HOST_OK then set_neg_state i st h2 else h2) } =
      Some (e, h2) \<and> sound_for h h2"
proof -
  from assms(4) obtain e h2 where m: "m = Some (e, h2)" "stream_step i h1 h2" by blast
  then have step: "stream_step i h h2" using stream_step_trans assms(2) by blast
  note stream_step_sound [OF step assms(1)] stream_step_sound [OF set_neg_state_step [OF step] assms(1)]
  with m(1) show ?thesis by simp
qed

lemma inbound_step_returns:
  assumes env: "env_keeps env" and ok: "host_ok h" "i < length (lh_streams h)"
    and used: "hs_state (lh_streams h ! i) \<noteq> HOST_STREAM_FREE"
  shows "step_returns h (host_stream_inbound_step env i h)"
proof -
  have tr: "transport_bounded (env_transport env)" using env by (simp add: env_keeps_def)
  have sound: "sound_for h h" by (rule sound_for_refl [OF ok(1)])
  have then_step: "host_ok h1 \<and> i < length (lh_streams h1) \<and> sound_for h h1" if "stream_step i h h1" for h1
    using stream_step_sound [OF that ok(1)] ok(2) by simp
  have sends: "step_returns h (send_then env i (\<lambda>_ h1. (LIBP2P_HOST_OK, True, set_neg_state i st h1)) h)" for st
    by (intro send_then_returns [OF tr ok])
      (simp add: stream_step_sound [THEN conjunct1, OF set_neg_state_step] ok(1))
  show ?thesis
  proof (cases "hs_neg_state (lh_streams h ! i)")
    case HOST_NEG_IN_READ_MS
    have "step_returns h (read_then env i (\<lambda>h1.
            if payload_is h1 i (Buf LIBP2P_MULTISTREAM_SELECT_PROTOCOL_ID) then do {
              (err, h2) \<leftarrow> host_stream_prepare_message i (Buf LIBP2P_MULTISTREAM_SELECT_PROTOCOL_ID) h1;
              Some (err, if err = LIBP2P_HOST_OK then set_neg_state i HOST_NEG_IN_SEND_PROTOCOL h2 else h2)
            }
            else Some (LIBP2P_HOST_ERR_NEGOTIATION, h1)) h)" (is "step_returns h (read_then env i ?f h)")
    proof (rule read_then_returns [OF tr ok])
      fix h1 assume step: "stream_step i h h1"
      note t = then_step [OF step]
      from prepare_then_returns [OF ok(1) step ok(2) prepare_message_keeps] t
      show "\<exists>e h2. ?f h1 = Some (e, h2) \<and> sound_for h h2" by auto
    qed
    with HOST_NEG_IN_READ_MS show ?thesis by (simp add: host_stream_inbound_step_def)
  next
    case HOST_NEG_IN_SEND_PROTOCOL
    have "step_returns h (send_then env i (\<lambda>progress h1.
            if hs_protocol (lh_streams h1 ! i) \<noteq> None then
              (case host_stream_complete_negotiation env i h1 of (err, h2) \<Rightarrow> (err, progress, h2))
            else (LIBP2P_HOST_OK, True, set_neg_state i HOST_NEG_IN_READ_PROTOCOL h1)) h)"
    proof (rule send_then_returns [OF tr ok])
      fix b h1 assume step: "stream_step i h h1"
      from complete_returns [OF env step ok used] stream_step_sound [OF set_neg_state_step [OF step] ok(1)]
      show "sound_for h (snd (snd (if hs_protocol (lh_streams h1 ! i) \<noteq> None then
              (case host_stream_complete_negotiation env i h1 of (err, h2) \<Rightarrow> (err, b, h2))
            else (LIBP2P_HOST_OK, True, set_neg_state i HOST_NEG_IN_READ_PROTOCOL h1))))"
        by (cases "host_stream_complete_negotiation env i h1") simp
    qed
    with HOST_NEG_IN_SEND_PROTOCOL show ?thesis by (simp add: host_stream_inbound_step_def)
  next
    case HOST_NEG_IN_READ_PROTOCOL
    define f where "f = (\<lambda>h1 :: ('a, 'b) libp2p_host.
            let s1 = lh_streams h1 ! i
            in if payload_is h1 i (Buf LIBP2P_MULTISTREAM_SELECT_LS) then do {
                 (err, h2) \<leftarrow> host_stream_prepare_ls i h1;
                 Some (err, if err = LIBP2P_HOST_OK then set_neg_state i HOST_NEG_IN_SEND_LS h2 else h2)
               }
               else
                 case host_protocol_find h1 (Buf (take (hs_payload_len s1) (hs_payload s1))) of
                   (find_err, protocol) \<Rightarrow>
                     (case protocol of
                        Some k \<Rightarrow> do {
                          (err, h2) \<leftarrow> host_stream_prepare_message i (hp_id (lh_protocols h1 ! k))
                            (upd_host_stream i (hs_protocol_update (\<lambda>_. protocol)) h1);
                          Some (err, if err = LIBP2P_HOST_OK then set_neg_state i HOST_NEG_IN_SEND_PROTOCOL h2
                                     else h2)
                        }
                      | None \<Rightarrow> do {
                          (err, h2) \<leftarrow> host_stream_prepare_message i (Buf LIBP2P_MULTISTREAM_SELECT_NA) h1;
                          Some (err, if err = LIBP2P_HOST_OK then set_neg_state i HOST_NEG_IN_SEND_NA h2 else h2)
                        }))"
    have "step_returns h (read_then env i f h)"
    proof (rule read_then_returns [OF tr ok])
      fix h1 assume step: "stream_step i h h1"
      note t = then_step [OF step]
      let ?s1 = "lh_streams h1 ! i"
      show "\<exists>e h2. f h1 = Some (e, h2) \<and> sound_for h h2"
      proof (cases "payload_is h1 i (Buf LIBP2P_MULTISTREAM_SELECT_LS)")
        case True
        from prepare_then_returns [OF ok(1) step ok(2) prepare_ls_keeps] t True show ?thesis
          by (simp add: f_def Let_def)
      next
        case False
        obtain fe pr where found: "host_protocol_find h1 (Buf (take (hs_payload_len ?s1) (hs_payload ?s1))) = (fe, pr)"
          by (cases "host_protocol_find h1 (Buf (take (hs_payload_len ?s1) (hs_payload ?s1)))")
        show ?thesis
        proof (cases pr)
          case None
          from prepare_then_returns [OF ok(1) step ok(2) prepare_message_keeps] t False found None show ?thesis
            by (simp add: f_def Let_def)
        next
          case (Some k)
          with found have k: "k < length (lh_protocols h1)" by (auto dest: protocol_find_Some)
          let ?h2 = "upd_host_stream i (hs_protocol_update (\<lambda>_. Some k)) h1"
          have step2: "stream_step i h1 ?h2"
            by (rule stream_step_update) (drule (1) host_ok_stream, use k in \<open>simp_all add: stream_ok_def buffers_ok_def\<close>)
          note t2 = stream_step_sound [OF step2 conjunct1 [OF t]]
          then have "\<exists>e h3. host_stream_prepare_message i (hp_id (lh_protocols h1 ! k)) ?h2 = Some (e, h3) \<and>
              stream_step i ?h2 h3"
            using t k id_not_null [of h1 k] by (intro prepare_message_id_keeps) simp_all
          from prepare_then_returns [OF ok(1) stream_step_trans [OF step step2] ok(2) this] False found Some
          show ?thesis by (simp add: f_def Let_def)
        qed
      qed
    qed
    with HOST_NEG_IN_READ_PROTOCOL show ?thesis by (simp add: host_stream_inbound_step_def f_def)
  qed (use sound sends in \<open>simp_all add: host_stream_inbound_step_def\<close>)
qed

end
