(* ===== verification/Host_Rounds.thy ===== *)
theory Host_Rounds
  imports Host_Steps
begin

text \<open>
  The rounds of \<open>libp2p_host_drive\<close> and the calls of the application keep the tables of the host sound, and
  the driver returns.
\<close>

subsection \<open>Negotiation\<close>

lemma sound_result: "sound_for h0 h \<Longrightarrow> sound_for h0 (upd_result f h)"
  by (erule sound_for_step) (rule keep_result)

lemma sound_transport: "sound_for h0 h \<Longrightarrow> sound_for h0 (h\<lparr>lh_transport := t\<rparr>)"
  by (erule sound_for_step) (rule keep_transport)

lemma sound_transport_call: "sound_for h0 h \<Longrightarrow> sound_for h0 (snd (transport_call f h))"
  by (erule sound_for_step) (rule keep_transport_call)

lemma sound_fail_negotiation:
  "sound_for h0 h \<Longrightarrow> i < length (lh_streams h0) \<Longrightarrow> sound_for h0 (snd (host_stream_fail_negotiation env i reason te h))"
  by (metis keep_fail_negotiation sound_for_lengths(2) sound_for_step)

lemma negotiation_step_returns:
  assumes env: "env_keeps env" and ok: "host_ok h" "i < length (lh_streams h)"
    and used: "hs_state (lh_streams h ! i) \<noteq> HOST_STREAM_FREE"
  shows "step_returns h (host_stream_negotiation_step env i h)"
proof -
  define h1 where "h1 = upd_result (\<lambda>r. r\<lparr>dr_negotiation_steps := dr_negotiation_steps r + 1\<rparr>) h"
  have sound: "sound_for h h1" unfolding h1_def by (rule sound_result [OF sound_for_refl [OF ok(1)]])
  have same: "lh_streams h1 = lh_streams h" by (simp add: h1_def upd_result_def)
  have "step_returns h1 (if hs_direction (lh_streams h1 ! i) = LIBP2P_HOST_STREAM_OUTBOUND
      then host_stream_outbound_step env i h1 else host_stream_inbound_step env i h1)"
    using env ok used sound_for_ok [OF sound] by (simp add: outbound_step_returns inbound_step_returns same)
  then obtain e b h2 where h2: "(if hs_direction (lh_streams h1 ! i) = LIBP2P_HOST_STREAM_OUTBOUND
      then host_stream_outbound_step env i h1 else host_stream_inbound_step env i h1) = Some (e, b, h2)"
    and "sound_for h1 h2" unfolding step_returns_def by blast
  then have 2: "sound_for h h2" using sound sound_for_trans by blast
  obtain e3 h3 where h3: "host_stream_fail_negotiation env i e None h2 = (e3, h3)"
    by (cases "host_stream_fail_negotiation env i e None h2")
  with sound_fail_negotiation [OF 2 ok(2), of env e None] have 3: "sound_for h h3" by simp
  show ?thesis
    unfolding host_stream_negotiation_step_def Let_def h1_def [symmetric] h2
    using 2 3 by (auto simp: h3 intro: sound_result)
qed

lemma sound_cursors:
  "sound_for h0 h \<Longrightarrow> sound_for h0 (h\<lparr>lh_open_cursor := x\<rparr>)"
  "sound_for h0 h \<Longrightarrow> sound_for h0 (h\<lparr>lh_negotiation_cursor := x\<rparr>)"
  "sound_for h0 h \<Longrightarrow> sound_for h0 (h\<lparr>lh_protocol_cursor := x\<rparr>)"
  by (erule sound_for_step, rule keep_cursors)+

lemma negotiation_loop_returns:
  assumes env: "env_keeps env" and h0: "0 < length (lh_streams h0)"
  shows "sound_for h0 h \<Longrightarrow> step_returns h0 (negotiation_one_loop env n h)"
proof (induction n arbitrary: h)
  case (Suc n)
  define index where "index = lh_negotiation_cursor h mod length (lh_streams h)"
  define h1 where "h1 = h\<lparr>lh_negotiation_cursor := (lh_negotiation_cursor h + 1) mod length (lh_streams h)\<rparr>"
  have 1: "sound_for h0 h1" unfolding h1_def by (rule sound_cursors [OF Suc.prems])
  have "index < length (lh_streams h)"
    unfolding index_def using h0 by (simp add: sound_for_lengths [OF Suc.prems])
  then have index: "index < length (lh_streams h1)" by (simp add: h1_def)
  have step: "step_returns h0 (do {
      (err, progress, h2) \<leftarrow> host_stream_negotiation_step env index h1;
      (if progress \<or> err \<noteq> LIBP2P_HOST_OK then Some (err, progress, h2) else negotiation_one_loop env n h2) })"
    if "hs_state (lh_streams h1 ! index) = HOST_STREAM_NEGOTIATING"
  proof -
    from negotiation_step_returns [OF env sound_for_ok [OF 1] index] that obtain e b h2 where
      h2: "host_stream_negotiation_step env index h1 = Some (e, b, h2)" "sound_for h1 h2"
      unfolding step_returns_def by auto
    from sound_for_trans [OF 1 h2(2)] Suc.IH [of h2] h2(1) show ?thesis by simp
  qed
  show ?case
    unfolding negotiation_one_loop.simps Let_def index_def [symmetric] h1_def [symmetric]
    using step Suc.IH [OF 1] Suc.prems by simp
qed simp

lemma negotiation_one_returns:
  assumes "env_keeps env" and "sound_for h0 h"
  shows "step_returns h0 (host_stream_negotiation_one env h)"
proof (cases "length (lh_streams h) = 0")
  case True
  with assms(2) show ?thesis by (simp add: host_stream_negotiation_one_def)
next
  case False
  then have "0 < length (lh_streams h0)" using sound_for_lengths(2) [OF assms(2)] by simp
  from negotiation_loop_returns [OF assms(1) this assms(2)] assms(2) show ?thesis
    by (simp add: host_stream_negotiation_one_def)
qed

subsection \<open>Opening streams\<close>

lemma sound_evented: "sound_for h0 h \<Longrightarrow> sound_for h0 (upd_open p (ho_state_update (\<lambda>_. HOST_OPEN_EVENTED)) h)"
  by (erule sound_for_step) (rule keep_open_evented)

lemma sound_open_failed:
  assumes h: "sound_for h0 h" and p: "p < length (lh_opens h0)"
  shows "sound_for h0 (snd (snd (host_open_failed p reason h)))"
proof -
  let ?event = "zero_host_event\<lparr>he_type := LIBP2P_HOST_EVENT_STREAM_OPEN_FAILED, he_conn := ho_conn (lh_opens h ! p),
    he_stream_open := Some p, he_user_data := ho_user_data (lh_opens h ! p), he_reason := reason\<rparr>"
  let ?h = "upd_open p (ho_state_update (\<lambda>_. HOST_OPEN_EVENTED)) h"
  obtain e h1 where push: "host_event_push ?event ?h = (e, h1)" by (cases "host_event_push ?event ?h")
  have "open_ok h (lh_opens h ! p)"
    by (rule host_ok_open [OF sound_for_ok [OF h]]) (use p in \<open>simp add: sound_for_lengths [OF h]\<close>)
  then have "event_ok h0 ?event"
    using p by (simp add: event_ok_def open_ok_def zero_host_event_def sound_for_lengths [OF h])
  with sound_for_push [OF sound_evented [OF h, of p], where e = ?event] push
  have 1: "sound_for h0 h1" by (simp add: event_ok_sound [OF sound_evented [OF h]])
  with sound_for_open_release [OF 1, of "Some p"] p push show ?thesis
    by (simp add: host_open_failed_def Let_def)
qed

text \<open>A stream for an open that waits on a connection.\<close>

lemma sound_stream_alloc:
  assumes h: "sound_for h0 h" and p: "p < length (lh_opens h0)"
    and c: "\<And>c. conn = Some c \<Longrightarrow> c < length (lh_conns h0) \<and> hc_active (lh_conns h ! c)"
    and pr: "index_within protocol (length (lh_protocols h0))"
  shows "sound_for h0 (snd (host_stream_alloc conn ts dir protocol (Some p) h))"
  by (rule sound_for_step [OF h keep_stream_alloc]) (use assms in \<open>simp add: sound_for_lengths [OF h]\<close>)

lemma open_conn_active:
  assumes ok: "host_ok h" and p: "p < length (lh_opens h)" "ho_state (lh_opens h ! p) \<noteq> HOST_OPEN_FREE"
    and c: "ho_conn (lh_opens h ! p) = Some c"
  shows "c < length (lh_conns h) \<and> hc_active (lh_conns h ! c)"
proof -
  have len: "c < length (lh_conns h)" using host_ok_open [OF ok p(1)] c by (simp add: open_ok_def)
  moreover have "opens_of (lh_opens h) c \<noteq> 0"
    using opens_of_update [OF p(1), of zero_host_open c] p(2) c by (simp add: zero_host_open_def)
  ultimately show ?thesis using host_ok_conn [OF ok len] by (simp add: conn_ok_def split: if_splits)
qed

lemma sound_open_negotiating:
  assumes h: "sound_for h0 h" and used: "ho_state (lh_opens h ! p) \<noteq> HOST_OPEN_FREE"
  shows "sound_for h0 (upd_open p (\<lambda>o'. o'\<lparr>ho_transport_stream := ts, ho_state := HOST_OPEN_NEGOTIATING\<rparr>) h)"
  by (rule sound_for_step [OF h], rule keep_upd_open, drule (1) host_ok_open)
    (use used in \<open>simp add: open_ok_def\<close>)

lemma sound_open_retry:
  assumes h: "sound_for h0 h" and p: "p < length (lh_opens h0)"
    and wait: "ho_state (lh_opens h ! p) = HOST_OPEN_WAIT_TRANSPORT"
  shows "sound_for h0 (snd (snd (host_open_retry env p h)))"
proof -
  obtain err ts t where opened: "tr_open_stream (env_transport env) (lh_transport h)
      (ho_transport_conn (lh_opens h ! p)) = ((err, ts), t)" by (metis prod.exhaust)
  let ?h1 = "h\<lparr>lh_transport := t\<rparr>"
  have 1: "sound_for h0 ?h1" by (rule sound_transport [OF h])
  let ?h2 = "upd_open p (\<lambda>o'. o'\<lparr>ho_transport_stream := ts, ho_state := HOST_OPEN_NEGOTIATING\<rparr>) ?h1"
  have 2: "sound_for h0 ?h2" by (rule sound_open_negotiating [OF 1]) (simp add: wait)
  have p2: "p < length (lh_opens ?h2)" using p by (simp add: sound_for_lengths [OF h])
  have at: "lh_opens ?h2 ! p = (lh_opens h ! p)\<lparr>ho_transport_stream := ts, ho_state := HOST_OPEN_NEGOTIATING\<rparr>"
    using p2 by (simp add: upd_open_def)
  note o2 = host_ok_open [OF sound_for_ok [OF 2] p2]
  let ?r = "host_stream_alloc (ho_conn (lh_opens ?h2 ! p)) ts LIBP2P_HOST_STREAM_OUTBOUND
      (ho_protocol (lh_opens ?h2 ! p)) (Some p) ?h2"
  have 3: "sound_for h0 (snd ?r)"
  proof (rule sound_stream_alloc [OF 2 p])
    fix c assume "ho_conn (lh_opens ?h2 ! p) = Some c"
    from open_conn_active [OF sound_for_ok [OF 2] p2 _ this] at
    show "c < length (lh_conns h0) \<and> hc_active (lh_conns ?h2 ! c)" by (simp add: sound_for_lengths [OF h])
  qed (use o2 in \<open>simp add: open_ok_def sound_for_lengths [OF h]\<close>)
  obtain err2 s h3 where alloc: "?r = ((err2, s), h3)" by (metis prod.exhaust)
  with 3 have 3: "sound_for h0 h3" by simp
  have eq: "host_open_retry env p h =
    (if err = LIBP2P_HOST_OK then
       (if err2 = LIBP2P_HOST_OK then (LIBP2P_HOST_OK, True, upd_result (dr_made_progress_update (\<lambda>_. True)) h3)
        else host_open_failed p err2
               (snd (transport_call (\<lambda>t. tr_stream_reset (env_transport env) t ts 0) h3)))
     else if err = LIBP2P_HOST_ERR_WOULD_BLOCK then (LIBP2P_HOST_OK, False, ?h1) else host_open_failed p err ?h1)"
    unfolding host_open_retry_def opened prod.case Let_def alloc by simp
  show ?thesis
    unfolding eq using 1 3 p by (simp add: sound_open_failed sound_result sound_transport_call)
qed

lemma sound_open_retry_one:
  assumes h0: "0 < length (lh_opens h0)"
  shows "sound_for h0 h \<Longrightarrow> sound_for h0 (snd (snd (snd (host_stream_open_retry_one env n h))))"
proof (induction n arbitrary: h)
  case (Suc n)
  define index where "index = lh_open_cursor h mod length (lh_opens h)"
  define h1 where "h1 = h\<lparr>lh_open_cursor := (lh_open_cursor h + 1) mod length (lh_opens h)\<rparr>"
  have 1: "sound_for h0 h1" unfolding h1_def by (rule sound_cursors [OF Suc.prems])
  have index: "index < length (lh_opens h0)"
    unfolding index_def using h0 by (simp add: sound_for_lengths [OF Suc.prems])
  obtain e b h2 where retry: "host_open_retry env index h1 = (e, b, h2)" by (metis prod.exhaust)
  show ?case
  proof (cases "ho_state (lh_opens h1 ! index) = HOST_OPEN_WAIT_TRANSPORT")
    case True
    from sound_open_retry [OF 1 index True, of env] retry have "sound_for h0 h2" by simp
    with True retry Suc.IH [of h2] show ?thesis
      unfolding host_stream_open_retry_one.simps Let_def index_def [symmetric] h1_def [symmetric] by simp
  next
    case False
    with Suc.IH [OF 1] show ?thesis
      unfolding host_stream_open_retry_one.simps Let_def index_def [symmetric] h1_def [symmetric] by simp
  qed
qed simp


lemma conn_usable:
  "host_conn_validate_usable h (Some c) = LIBP2P_HOST_OK \<Longrightarrow>
   hc_active (lh_conns h ! c) \<and> \<not> hc_closed (lh_conns h ! c) \<and> hc_transport_conn (lh_conns h ! c) \<noteq> None"
  by (auto simp: host_conn_validate_usable_def Let_def split: if_splits)

lemma open_alloc_Some:
  "host_open_alloc h = Some (p, h1) \<Longrightarrow>
   p < length (lh_opens h) \<and> ho_state (lh_opens h ! p) = HOST_OPEN_FREE \<and>
   h1 = upd_open p (\<lambda>_. zero_host_open\<lparr>ho_host := True\<rparr>) h"
  by (auto simp: host_open_alloc_def dest: find_slot_Some split: option.splits)

text \<open>The open is counted, and a stream is asked for.\<close>

definition open_request ::
  "('t, 'a) host_env \<Rightarrow> nat \<Rightarrow> nat \<Rightarrow> libp2p_host_stream_open \<Rightarrow> ('t, 'a) libp2p_host \<Rightarrow>
   (libp2p_host_err_t \<times> nat option) \<times> ('t, 'a) libp2p_host" where
  "open_request env c p new h =
     (let tc = hc_transport_conn (lh_conns h ! c);
          h2 = upd_conn c (\<lambda>k. k\<lparr>hc_open_count := hc_open_count k + 1\<rparr>) (upd_open p (\<lambda>_. new) h)
      in case tr_open_stream (env_transport env) (lh_transport h2) tc of
        ((err, transport_stream), t) \<Rightarrow>
          let h3 = h2\<lparr>lh_transport := t\<rparr>
          in if err = LIBP2P_HOST_OK then
               let h4 = upd_open p (\<lambda>o'. o'\<lparr>ho_transport_stream := transport_stream,
                          ho_state := HOST_OPEN_NEGOTIATING\<rparr>) h3;
                   ((err2, stream), h5) = host_stream_alloc (Some c) transport_stream
                          LIBP2P_HOST_STREAM_OUTBOUND (ho_protocol new) (Some p) h4
               in if err2 \<noteq> LIBP2P_HOST_OK
                  then ((err2, None), host_open_release (Some p) (snd (transport_call
                         (\<lambda>t. tr_stream_reset (env_transport env) t transport_stream 0) h5)))
                  else ((LIBP2P_HOST_OK, Some p), h5)
             else if err = LIBP2P_HOST_ERR_WOULD_BLOCK then ((LIBP2P_HOST_OK, Some p), h3)
             else ((err, None), host_open_release (Some p) h3))"

lemma sound_open_request:
  assumes ok: "host_ok h" and p: "p < length (lh_opens h)" "ho_state (lh_opens h ! p) = HOST_OPEN_FREE"
    and c: "c < length (lh_conns h)" "hc_active (lh_conns h ! c)"
    and new: "open_ok h new" "ho_state new = HOST_OPEN_WAIT_TRANSPORT" "ho_conn new = Some c"
  shows "sound_for h (snd (open_request env c p new h))"
proof -
  define h2 where "h2 = upd_conn c (\<lambda>k. k\<lparr>hc_open_count := hc_open_count k + 1\<rparr>) (upd_open p (\<lambda>_. new) h)"
  have 2: "sound_for h h2"
    unfolding h2_def by (rule sound_for_step [OF sound_for_refl [OF ok] keep_open_take]) (use p c new in simp_all)
  have at2: "lh_opens h2 ! p = new" using p by (simp add: h2_def upd_conn_def upd_open_def)
  obtain err ts t where opened: "tr_open_stream (env_transport env) (lh_transport h2)
      (hc_transport_conn (lh_conns h ! c)) = ((err, ts), t)" by (metis prod.exhaust)
  define h3 where "h3 = h2\<lparr>lh_transport := t\<rparr>"
  have 3: "sound_for h h3" unfolding h3_def by (rule sound_transport [OF 2])
  define h4 where "h4 = upd_open p (\<lambda>o'. o'\<lparr>ho_transport_stream := ts, ho_state := HOST_OPEN_NEGOTIATING\<rparr>) h3"
  have 4: "sound_for h h4"
    unfolding h4_def by (rule sound_open_negotiating [OF 3]) (simp add: h3_def at2 new)
  obtain err2 s h5 where alloc: "host_stream_alloc (Some c) ts LIBP2P_HOST_STREAM_OUTBOUND (ho_protocol new) (Some p) h4 =
      ((err2, s), h5)" by (metis prod.exhaust)
  have active: "hc_active (lh_conns h4 ! c)"
    using c by (simp add: h4_def h3_def h2_def upd_open_def upd_conn_def)
  have "sound_for h (snd (host_stream_alloc (Some c) ts LIBP2P_HOST_STREAM_OUTBOUND (ho_protocol new) (Some p) h4))"
    by (rule sound_stream_alloc [OF 4 p(1)]) (use c active new in \<open>simp_all add: open_ok_def\<close>)
  with alloc have 5: "sound_for h h5" by simp
  have eq: "open_request env c p new h =
    (if err = LIBP2P_HOST_OK then
       (if err2 \<noteq> LIBP2P_HOST_OK
        then ((err2, None), host_open_release (Some p) (snd (transport_call
               (\<lambda>t. tr_stream_reset (env_transport env) t ts 0) h5)))
        else ((LIBP2P_HOST_OK, Some p), h5))
     else if err = LIBP2P_HOST_ERR_WOULD_BLOCK then ((LIBP2P_HOST_OK, Some p), h3)
     else ((err, None), host_open_release (Some p) h3))"
    unfolding open_request_def Let_def h2_def [symmetric] opened prod.case h3_def [symmetric] h4_def [symmetric] alloc
    by simp
  show ?thesis
    unfolding eq using 3 5 p by (simp add: sound_for_open_release sound_transport_call)
qed

lemma keep_open_stream:
  assumes c: "\<And>c. conn = Some c \<Longrightarrow> c < length (lh_conns h)"
  shows "host_keeps h (snd (host_open_stream_with_optional_fallback env conn pid fid u h))"
proof (rule host_keepsI)
  assume ok: "host_ok h"
  let ?r = "host_open_stream_with_optional_fallback env conn pid fid u h"
  obtain fe pr where found: "host_protocol_find h pid = (fe, pr)" by (cases "host_protocol_find h pid")
  obtain ge fb where fallback: "(if is_null fid then (LIBP2P_HOST_OK, None) else host_protocol_find h fid) = (ge, fb)"
    by (cases "if is_null fid then (LIBP2P_HOST_OK, None) else host_protocol_find h fid")
  have pr: "index_within pr (length (lh_protocols h))" "index_within fb (length (lh_protocols h))"
    using protocol_find_Some [of h pid fe] protocol_find_Some [of h fid ge] found fallback
    by (cases pr; cases fb; auto split: if_splits)+
  show "sound_for h (snd ?r)"
  proof (cases "\<exists>c p h1. conn = Some c \<and> host_conn_validate_usable h conn = LIBP2P_HOST_OK \<and>
      host_open_alloc h = Some (p, h1) \<and> snd ?r = snd (open_request env c p (zero_host_open\<lparr>ho_host := True, ho_conn := conn,
        ho_transport_conn := hc_transport_conn (lh_conns h ! c), ho_protocol := pr, ho_fallback_protocol := fb,
        ho_user_data := u, ho_state := HOST_OPEN_WAIT_TRANSPORT\<rparr>) h)")
    case True
    then obtain k p h1 where k: "conn = Some k" "host_conn_validate_usable h (Some k) = LIBP2P_HOST_OK" and
      p: "host_open_alloc h = Some (p, h1)" and
      eq: "snd ?r = snd (open_request env k p (zero_host_open\<lparr>ho_host := True, ho_conn := conn,
        ho_transport_conn := hc_transport_conn (lh_conns h ! k), ho_protocol := pr, ho_fallback_protocol := fb,
        ho_user_data := u, ho_state := HOST_OPEN_WAIT_TRANSPORT\<rparr>) h)" by blast
    show ?thesis
      unfolding eq by (rule sound_open_request [OF ok])
        (use open_alloc_Some [OF p] conn_usable [OF k(2)] c [OF k(1)] k(1) pr in \<open>simp_all add: open_ok_def\<close>)
  next
    case False
    have "snd ?r = h"
    proof (rule ccontr)
      assume other: "snd ?r \<noteq> h"
      then obtain k where k: "conn = Some k" "host_conn_validate_usable h (Some k) = LIBP2P_HOST_OK"
        by (auto simp: host_open_stream_with_optional_fallback_def Let_def found fallback split: option.splits if_splits)
      from other k(1) obtain p h1 where p: "host_open_alloc h = Some (p, h1)"
        by (auto simp: host_open_stream_with_optional_fallback_def Let_def found fallback split: option.splits if_splits)
      let ?new = "zero_host_open\<lparr>ho_host := True, ho_conn := Some k,
        ho_transport_conn := hc_transport_conn (lh_conns h ! k), ho_protocol := pr, ho_fallback_protocol := fb,
        ho_user_data := u, ho_state := HOST_OPEN_WAIT_TRANSPORT\<rparr>"
      note p1 = open_alloc_Some [OF p]
      then have tc: "hc_transport_conn (lh_conns h1 ! k) = hc_transport_conn (lh_conns h ! k)" by simp
      from p1 have new: "upd_open p (\<lambda>o'. o'\<lparr>ho_conn := Some k,
          ho_transport_conn := hc_transport_conn (lh_conns h ! k), ho_protocol := pr, ho_fallback_protocol := fb,
          ho_user_data := u, ho_state := HOST_OPEN_WAIT_TRANSPORT\<rparr>) h1 = upd_open p (\<lambda>_. ?new) h"
        by (simp add: upd_open_def)
      have proto: "ho_protocol ?new = pr" by simp
      have "snd ?r = h \<or> snd ?r = snd (open_request env k p ?new h)"
        unfolding host_open_stream_with_optional_fallback_def Let_def found fallback open_request_def k(1)
          option.case p prod.case tc new proto by simp
      with other k(1) have "snd ?r = snd (open_request env k p (zero_host_open\<lparr>ho_host := True, ho_conn := conn,
        ho_transport_conn := hc_transport_conn (lh_conns h ! k), ho_protocol := pr, ho_fallback_protocol := fb,
        ho_user_data := u, ho_state := HOST_OPEN_WAIT_TRANSPORT\<rparr>) h)" by simp
      with False k p show False by blast
    qed
    with ok show ?thesis by (simp add: sound_for_refl)
  qed
qed


lemma keep_open_cancel:
  assumes p: "index_within opn (length (lh_opens h))"
  shows "host_keeps h (snd (libp2p_host_stream_open_cancel env opn u h))"
proof (cases opn)
  case None
  then show ?thesis by (simp add: libp2p_host_stream_open_cancel_def Let_def)
next
  case (Some p)
  let ?r = "libp2p_host_stream_open_cancel env opn u h"
  let ?o = "lh_opens h ! p"
  show ?thesis
  proof (rule host_keepsI)
    assume ok: "host_ok h"
    have len: "p < length (lh_opens h)" using p Some by simp
    have conn: "index_within (ho_conn ?o) (length (lh_conns h))"
      using host_ok_open [OF ok len] by (simp add: open_ok_def)
    have sound: "sound_for h h" by (rule sound_for_refl [OF ok])
    have waiting: "sound_for h (snd (host_conn_try_recycle env (ho_conn ?o) (host_open_release opn h)))"
      by (rule sound_for_recycle [OF sound_for_open_release [OF sound p] conn])
    have other: "sound_for h (snd (host_conn_try_recycle env (ho_conn ?o)
        (host_open_release opn (host_stream_release env i (upd_host_stream i (hs_open_attempt_update (\<lambda>_. None))
          (snd (transport_call f h)))))))" if "i < length (lh_streams h)" for i f
      by (rule sound_for_recycle [OF sound_for_open_release [OF sound_for_stream_release [OF
            sound_for_step [OF sound_transport_call [OF sound] keep_stream_marks(9)] that] p] conn])
    have "sound_for h (snd ?r)" if "snd ?r \<noteq> h"
      using that waiting other unfolding libp2p_host_stream_open_cancel_def Let_def Some
      by (auto split: if_splits option.splits dest: find_slot_Some)
    with sound show "sound_for h (snd ?r)" by (cases "snd ?r = h") simp_all
  qed
qed

subsection \<open>Streams in use\<close>

lemma copy_length: "memcpy_at xs off src = Some ys \<Longrightarrow> length ys = length xs"
  by (auto simp: memcpy_at_def split: if_splits)

lemma keep_stream_read:
  assumes i: "index_within stream (length (lh_streams h))"
    and r: "libp2p_host_stream_read env stream out h = Some (r, h')"
  shows "host_keeps h h'"
proof (cases "h' = h \<or> (\<exists>t. h' = h\<lparr>lh_transport := t\<rparr>)")
  case True
  then show ?thesis by (auto simp: keep_transport)
next
  case False
  with r obtain k where k: "stream = Some k" "host_validate_started h = LIBP2P_HOST_OK" "hs_host (lh_streams h ! k)"
    "hs_state (lh_streams h ! k) = HOST_STREAM_OPEN" "\<not> is_null out" "hs_in_len (lh_streams h ! k) \<noteq> 0"
    by (cases stream) (auto simp: libp2p_host_stream_read_def Let_def bind_eq_Some_conv split: if_splits prod.splits)
  define count where "count = min (hs_in_len (lh_streams h ! k)) (clen out)"
  obtain frame where eq: "h' = upd_host_stream k (\<lambda>s. s\<lparr>hs_in_frame := frame,
      hs_in_len := hs_in_len (lh_streams h ! k) - count\<rparr>) h" and
    len: "length frame = length (hs_in_frame (lh_streams h ! k))"
    using r k False
    by (auto simp: libp2p_host_stream_read_def Let_def bind_eq_Some_conv count_def [symmetric]
        split: if_splits dest: copy_length)
  show ?thesis
    unfolding eq by (rule keep_upd_stream, drule (1) host_ok_stream) (use len in \<open>auto simp: stream_ok_def buffers_ok_def\<close>)
qed

lemma host_stream_read_effect:
  assumes ok: "host_ok h" and tr: "transport_bounded (env_transport env)" and i: "i < length (lh_streams h)"
    and started: "host_validate_started h = LIBP2P_HOST_OK"
    and opened: "hs_host (lh_streams h ! i)" "hs_state (lh_streams h ! i) = HOST_STREAM_OPEN"
  shows "\<exists>e bs fin new h'. libp2p_host_stream_read env (Some i) (Buf buf) h =
      Some ((e, Buf (bs @ drop (length bs) buf), length bs, fin), h') \<and> length bs \<le> length buf \<and>
    bytes_read (env_transport env) (hs_transport_stream (lh_streams h ! i)) (lh_transport h) new (lh_transport h') \<and>
    (e = LIBP2P_HOST_OK \<longrightarrow> bs @ stream_input (lh_streams h' ! i) = stream_input (lh_streams h ! i) @ new) \<and>
    (e \<noteq> LIBP2P_HOST_OK \<longrightarrow> h' = h\<lparr>lh_transport := lh_transport h'\<rparr> \<and> new = []) \<and>
    (stream_input (lh_streams h ! i) \<noteq> [] \<longrightarrow> e = LIBP2P_HOST_OK \<and> lh_transport h' = lh_transport h \<and> new = [] \<and>
       length bs = min (length buf) (length (stream_input (lh_streams h ! i))))"
proof (cases "hs_in_len (lh_streams h ! i) = 0")
  case True
  obtain e bs fin t where read: "tr_stream_read (env_transport env) (lh_transport h)
      (hs_transport_stream (lh_streams h ! i)) (length buf) = ((e, bs, fin), t)" by (metis prod.exhaust)
  with tr have len: "length bs \<le> length buf" unfolding transport_bounded_def by blast
  from read have "bytes_read (env_transport env) (hs_transport_stream (lh_streams h ! i)) (lh_transport h)
      (if e = LIBP2P_HOST_OK then bs else []) t" unfolding bytes_read_def by blast
  with read len show ?thesis
    using True started opened
    by (intro exI [of _ e] exI [of _ bs] exI [of _ fin] exI [of _ "if e = LIBP2P_HOST_OK then bs else []"]
        exI [of _ "h\<lparr>lh_transport := t\<rparr>"])
      (simp add: libp2p_host_stream_read_def Let_def stream_input_def memcpy_at_0)
next
  case False
  let ?s = "lh_streams h ! i"
  have caps: "length (hs_in_frame ?s) = 1026" "hs_in_len ?s \<le> 1026"
    using host_ok_stream [OF ok i] by (simp_all add: stream_ok_def buffers_ok_def)
  define count where "count = min (hs_in_len ?s) (length buf)"
  let ?copy = "if hs_in_len ?s - count \<noteq> 0
    then memcpy_at (hs_in_frame ?s) 0 (take (hs_in_len ?s - count) (drop count (hs_in_frame ?s))) else Some (hs_in_frame ?s)"
  have "\<exists>frame. ?copy = Some frame \<and> take (hs_in_len ?s - count) frame = drop count (stream_input ?s)"
    using caps by (auto simp: memcpy_at_def stream_input_def drop_take count_def)
  then obtain frame where frame: "?copy = Some frame" "take (hs_in_len ?s - count) frame = drop count (stream_input ?s)"
    by blast
  have none: "bytes_read (env_transport env) ts t [] t" for ts t by (simp add: bytes_read_def)
  have front: "take count (hs_in_frame ?s) = take count (stream_input ?s)"
    by (simp add: stream_input_def count_def)
  have len: "length (stream_input ?s) = hs_in_len ?s" using caps by (simp add: stream_input_def)
  show ?thesis
  proof (cases "count = 0")
    case True
    with False have "buf = []" by (cases buf) (auto simp: count_def)
    with True False started opened none show ?thesis
      by (auto simp: libp2p_host_stream_read_def Let_def intro!: exI [of _ "[]"])
  next
    case some: False
    let ?h = "upd_host_stream i (\<lambda>s. s\<lparr>hs_in_frame := frame, hs_in_len := hs_in_len ?s - count\<rparr>) h"
    have count: "length (take count (stream_input ?s)) = count" "count \<le> length buf" "count = min (length buf) (hs_in_len ?s)"
      using len by (simp_all add: count_def)
    have store: "memcpy_at buf 0 (take count (hs_in_frame ?s)) = Some (take count (stream_input ?s) @ drop count buf)"
      using memcpy_at_0 [of "take count (stream_input ?s)" buf] count(1,2) by (simp only: front)
    have "libp2p_host_stream_read env (Some i) (Buf buf) h =
        Some ((LIBP2P_HOST_OK, Buf (take count (stream_input ?s) @ drop count buf), count, False), ?h)"
      using False some started opened store frame(1)
      by (simp add: libp2p_host_stream_read_def Let_def count_def [symmetric])
    moreover have "stream_input (lh_streams ?h ! i) = drop count (stream_input ?s)"
      using i frame(2) by (simp add: upd_host_stream_def stream_input_def)
    moreover have "lh_transport ?h = lh_transport h" by (simp add: upd_host_stream_def)
    ultimately show ?thesis using none count len
      by (intro exI [of _ LIBP2P_HOST_OK] exI [of _ "take count (stream_input ?s)"] exI [of _ False] exI [of _ "[]"]
          exI [of _ ?h]) (simp only: count(1) append_take_drop_id, simp)
  qed
qed

lemma host_stream_read_returns:
  assumes ok: "host_ok h" and tr: "transport_bounded (env_transport env)" and i: "index_within stream (length (lh_streams h))"
  shows "\<exists>e out' k fin h'. libp2p_host_stream_read env stream out h = Some ((e, out', k, fin), h') \<and>
    clen out' = clen out \<and> (is_null out' \<longleftrightarrow> is_null out) \<and> (e = LIBP2P_HOST_OK \<longrightarrow> k \<le> clen out) \<and> sound_for h h'"
proof -
  have "\<exists>e out' k fin h'. libp2p_host_stream_read env stream out h = Some ((e, out', k, fin), h') \<and>
    clen out' = clen out \<and> (is_null out' \<longleftrightarrow> is_null out) \<and> (e = LIBP2P_HOST_OK \<longrightarrow> k \<le> clen out)"
  proof (cases "\<exists>i buf. host_validate_started h = LIBP2P_HOST_OK \<and> stream = Some i \<and> out = Buf buf \<and>
      hs_host (lh_streams h ! i) \<and> hs_state (lh_streams h ! i) = HOST_STREAM_OPEN")
    case False
    then show ?thesis
      by (cases out) (auto simp: libp2p_host_stream_read_def Let_def split: option.split)
  next
    case True
    then obtain k buf where k: "host_validate_started h = LIBP2P_HOST_OK" "stream = Some k" "out = Buf buf"
      "hs_host (lh_streams h ! k)" "hs_state (lh_streams h ! k) = HOST_STREAM_OPEN" by blast
    with host_stream_read_effect [OF ok tr _ k(1,4,5), of buf] i show ?thesis by auto
  qed
  then show ?thesis
    using keep_stream_read [OF i] sound_for_step [OF sound_for_refl [OF ok]] by (metis (no_types, lifting))
qed

lemma keep_stream_calls:
  "host_keeps h (snd (libp2p_host_stream_set_user_data stream u h))"
  "host_keeps h (snd (libp2p_host_stream_write env stream bs fin h))"
  "host_keeps h (snd (libp2p_host_stream_finish env stream h))"
  "host_keeps h (snd (libp2p_host_stream_reset env stream code h))"
  "host_keeps h (snd (libp2p_host_stream_stop_sending env stream code h))"
proof -
  have pass: "host_keeps h (snd (host_stream_pass f stream h))" for f
    by (auto simp: host_stream_pass_def Let_def keep_transport_call split: option.split)
  show "host_keeps h (snd (libp2p_host_stream_finish env stream h))"
    "host_keeps h (snd (libp2p_host_stream_reset env stream code h))"
    "host_keeps h (snd (libp2p_host_stream_stop_sending env stream code h))"
    by (simp_all add: libp2p_host_stream_finish_def libp2p_host_stream_reset_def
        libp2p_host_stream_stop_sending_def pass)
  show "host_keeps h (snd (libp2p_host_stream_set_user_data stream u h))"
    by (simp add: libp2p_host_stream_set_user_data_def keep_stream_marks split: option.split)
  show "host_keeps h (snd (libp2p_host_stream_write env stream bs fin h))"
    by (auto simp: libp2p_host_stream_write_def Let_def keep_transport split: option.split prod.split)
qed

lemma keep_dial: "host_keeps h (snd (libp2p_host_dial_multiaddr env addr u h))"
proof -
  have 1: "host_keeps h ((upd_dial i f h)\<lparr>lh_transport := t\<rparr>)" for i f t
    by (rule host_keeps_trans [OF keep_upd_dial keep_transport])
  show ?thesis
    by (auto simp: libp2p_host_dial_multiaddr_def host_dial_alloc_def Let_def split: option.split prod.split
        intro: 1 host_keeps_trans [OF 1 keep_upd_dial])
qed

lemma keep_close_conns: "host_keeps h (snd (close_conns_loop env code cs h))"
proof (induction cs arbitrary: h)
  case (Cons c cs)
  let ?k = "lh_conns h ! c"
  obtain e h1 where call: "transport_call (\<lambda>t. tr_conn_close (env_transport env) t (hc_transport_conn ?k) code) h = (e, h1)"
    by (cases "transport_call (\<lambda>t. tr_conn_close (env_transport env) t (hc_transport_conn ?k) code) h")
  with keep_transport_call [of h "\<lambda>t. tr_conn_close (env_transport env) t (hc_transport_conn ?k) code"]
  have 1: "host_keeps h h1" by simp
  have 2: "host_keeps h1 (upd_conn c (hc_local_close_requested_update (\<lambda>_. True)) h1)"
    by (rule keep_conn_flags) simp_all
  show ?case
    using host_keeps_trans [OF host_keeps_trans [OF 1 2] Cons.IH] Cons.IH [of h] 1 call by (simp add: Let_def)
qed simp

lemma keep_close: "host_keeps h (snd (libp2p_host_close env code h))"
proof -
  have "host_keeps h (h\<lparr>lh_state := HOST_STATE_CLOSING, lh_close_app_error_code := code\<rparr>)"
    by (rule host_keeps_cong) simp_all
  from host_keeps_trans [OF this keep_close_conns] show ?thesis
    by (simp add: libp2p_host_close_def Let_def)
qed

lemma keep_conn_close: "host_keeps h (snd (libp2p_host_conn_close env conn code h))"
proof (cases conn)
  case None
  then show ?thesis by (simp add: libp2p_host_conn_close_def Let_def)
next
  case (Some c)
  obtain e h1 where call: "transport_call (\<lambda>t. tr_conn_close (env_transport env) t (hc_transport_conn (lh_conns h ! c)) code) h = (e, h1)"
    by (cases "transport_call (\<lambda>t. tr_conn_close (env_transport env) t (hc_transport_conn (lh_conns h ! c)) code) h")
  with keep_transport_call [of h "\<lambda>t. tr_conn_close (env_transport env) t (hc_transport_conn (lh_conns h ! c)) code"]
  have 1: "host_keeps h h1" by simp
  have 2: "host_keeps h1 (upd_conn c (hc_local_close_requested_update (\<lambda>_. True)) h1)"
    by (rule keep_conn_flags) simp_all
  show ?thesis
    using host_keeps_trans [OF 1 2] 1 Some call by (simp add: libp2p_host_conn_close_def Let_def)
qed

lemma keep_next_event: "host_keeps h (snd (libp2p_host_next_event env h))"
proof (rule host_keepsI)
  assume ok: "host_ok h"
  show "sound_for h (snd (libp2p_host_next_event env h))"
  proof (cases "host_validate_any h \<noteq> LIBP2P_HOST_OK \<or> lh_event_len h = 0")
    case True
    with sound_for_refl [OF ok] show ?thesis by (auto simp: libp2p_host_next_event_def Let_def)
  next
    case False
    have head: "lh_event_head h < length (lh_events h)" using ok by (simp add: host_ok_def)
    then have some: "0 < length (lh_events h)" by linarith
    define e where "e = lh_events h ! lh_event_head h"
    have eok: "event_ok h e" unfolding e_def by (rule host_ok_event [OF ok head])
    define h1 where "h1 = h\<lparr>lh_event_head := (lh_event_head h + 1) mod length (lh_events h),
                      lh_event_len := lh_event_len h - 1\<rparr>"
    have "event_ok h1 = event_ok h" "stream_ok h1 = stream_ok h" "open_ok h1 = open_ok h" "conn_ok h1 = conn_ok h"
      by (simp_all add: h1_def fun_eq_iff event_ok_def stream_ok_def open_ok_def conn_ok_def)
    moreover have "lh_events h1 = lh_events h" "lh_streams h1 = lh_streams h" "lh_opens h1 = lh_opens h"
      "lh_conns h1 = lh_conns h" "lh_dials h1 = lh_dials h" "lh_protocols h1 = lh_protocols h"
      "lh_ms_protocols h1 = lh_ms_protocols h" "lh_max_negotiation_steps h1 = lh_max_negotiation_steps h"
      "lh_max_streams_per_conn h1 = lh_max_streams_per_conn h"
      by (simp_all add: h1_def)
    moreover have "lh_event_head h1 < length (lh_events h)" "lh_event_len h1 \<le> length (lh_events h)"
      using ok mod_less_divisor [OF some] by (simp_all add: h1_def host_ok_def le_diff_conv trans_le_add1)
    ultimately have 1: "sound_for h h1"
      using ok by (simp add: sound_for_def host_ok_def host_shape_def)
    define h2 where "h2 = (case he_dial e of None \<Rightarrow> h1
      | Some d \<Rightarrow> upd_dial d (hd_state_update (\<lambda>_. HOST_DIAL_FREE)) h1)"
    have 2: "sound_for h h2"
      unfolding h2_def using 1 by (auto split: option.split intro: sound_for_step keep_upd_dial)
    define rel where "rel = (\<lambda>p. if he_type e = LIBP2P_HOST_EVENT_STREAM_OPEN_FAILED then host_open_release (Some p) h2
        else if he_type e = LIBP2P_HOST_EVENT_STREAM_OPENED then
          host_open_release (Some p)
            (case he_stream e of
               None \<Rightarrow> h2
             | Some i \<Rightarrow>
                 if hs_open_attempt (lh_streams h2 ! i) = Some p
                 then upd_host_stream i (hs_open_attempt_update (\<lambda>_. None)) h2 else h2)
        else h2)"
    have rel: "sound_for h (rel p)" if "he_stream_open e = Some p" for p
      unfolding rel_def using 2 eok that
      by (auto simp: event_ok_def split: option.split
          intro!: sound_for_open_release intro: sound_for_step keep_stream_marks)
    define r3 where "r3 = (case he_stream_open e of
        None \<Rightarrow> (LIBP2P_HOST_OK, h2)
      | Some p \<Rightarrow> if ho_conn (lh_opens h2 ! p) \<noteq> None then host_conn_try_recycle env (ho_conn (lh_opens h2 ! p)) (rel p)
          else (LIBP2P_HOST_OK, rel p))"
    have 3: "sound_for h (snd r3)"
    proof (cases "he_stream_open e")
      case None
      with 2 show ?thesis by (simp add: r3_def)
    next
      case (Some p)
      have "open_ok h2 (lh_opens h2 ! p)"
        by (rule host_ok_open [OF sound_for_ok [OF 2]]) (use eok Some in \<open>simp add: event_ok_def sound_for_lengths [OF 2]\<close>)
      then have "index_within (ho_conn (lh_opens h2 ! p)) (length (lh_conns h))"
        by (simp add: open_ok_def sound_for_lengths [OF 2])
      from sound_for_recycle [OF rel [OF Some] this] rel [OF Some] Some show ?thesis by (simp add: r3_def)
    qed
    have 4: "sound_for h (snd (host_conn_try_recycle env (Some c)
        (upd_conn c (hc_close_event_pending_update (\<lambda>_. False)) (snd r3))))" if "he_conn e = Some c" for c
      by (rule sound_for_recycle [OF sound_for_step [OF 3 keep_conn_flags]]) (use that eok in \<open>simp_all add: event_ok_def\<close>)
    have "libp2p_host_next_event env h =
      (if fst r3 = LIBP2P_HOST_OK \<and> he_type e = LIBP2P_HOST_EVENT_CONN_CLOSED then
         (case he_conn e of
            None \<Rightarrow> ((fst r3, e), snd r3)
          | Some c \<Rightarrow>
              (case host_conn_try_recycle env (Some c)
                      (upd_conn c (hc_close_event_pending_update (\<lambda>_. False)) (snd r3)) of
                 (result4, h4) \<Rightarrow> ((result4, e), h4)))
       else ((fst r3, e), snd r3))"
      using False
      unfolding libp2p_host_next_event_def Let_def e_def [symmetric] h1_def [symmetric] h2_def [symmetric] r3_def rel_def
      by (simp add: split_beta)
    with 3 4 show ?thesis by (auto simp: split_beta split: option.split)
  qed
qed


subsection \<open>Events of the transport\<close>

lemma keep_protocol_event:
  assumes env: "env_keeps env" and i: "i < length (lh_streams h)"
  shows "host_keeps h (snd (host_protocol_call_event env i kind h))"
proof (rule host_keepsI)
  assume ok: "host_ok h"
  define r where "r = (case hs_protocol (lh_streams h ! i) of
     None \<Rightarrow> (LIBP2P_HOST_OK, h)
   | Some k \<Rightarrow>
       if hp_on_event (lh_protocols h ! k) then
         (case env_on_event env k h i kind of
            (out, h1) \<Rightarrow>
              (out, upd_result (\<lambda>r. r\<lparr>dr_protocol_events := dr_protocol_events r + 1,
                      dr_made_progress := True\<rparr>) h1))
       else (LIBP2P_HOST_OK, h))"
  have cb: "sound_for h (snd (env_on_event env k h i kind))" for k
    using env sound_for_step [OF sound_for_refl [OF ok]] by (simp add: env_keeps_def)
  have 1: "sound_for h (snd r)"
    using sound_for_refl [OF ok] sound_result [OF cb] by (simp add: r_def split_beta split: option.split)
  have "snd (host_protocol_call_event env i kind h) =
    (if fst r \<noteq> LIBP2P_HOST_OK
     then host_stream_release env i (snd (transport_call
            (\<lambda>t. tr_stream_reset (env_transport env) t (hs_transport_stream (lh_streams (snd r) ! i)) 0) (snd r)))
     else snd r)"
    unfolding host_protocol_call_event_def Let_def r_def [symmetric] by (simp add: split_beta)
  with 1 i show "sound_for h (snd (host_protocol_call_event env i kind h))"
    by (simp add: sound_for_stream_release sound_transport_call)
qed

lemma sound_protocol_loop:
  assumes env: "env_keeps env" and h0: "0 < length (lh_streams h0)"
  shows "sound_for h0 h \<Longrightarrow> sound_for h0 (snd (snd (protocol_event_loop env n h)))"
proof (induction n arbitrary: h)
  case (Suc n)
  define index where "index = lh_protocol_cursor h mod length (lh_streams h)"
  define h1 where "h1 = h\<lparr>lh_protocol_cursor := (lh_protocol_cursor h + 1) mod length (lh_streams h)\<rparr>"
  have 1: "sound_for h0 h1" unfolding h1_def by (rule sound_cursors [OF Suc.prems])
  have index: "index < length (lh_streams h0)"
    unfolding index_def using h0 by (simp add: sound_for_lengths [OF Suc.prems])
  have call: "sound_for h0 (snd (host_protocol_call_event env index kind (upd_host_stream index f h1)))"
    if "host_keeps h1 (upd_host_stream index f h1)" for kind f
    by (rule sound_for_step [OF sound_for_step [OF 1 that] keep_protocol_event [OF env]])
      (use index in \<open>simp add: sound_for_lengths [OF 1]\<close>)
  note marks = keep_stream_marks(2-5) [THEN call]
  show ?case
    unfolding protocol_event_loop.simps Let_def index_def [symmetric] h1_def [symmetric]
    using marks [of LIBP2P_HOST_PROTOCOL_EVENT_RESET] marks [of LIBP2P_HOST_PROTOCOL_EVENT_CLOSED]
      marks [of LIBP2P_HOST_PROTOCOL_EVENT_READABLE] marks [of LIBP2P_HOST_PROTOCOL_EVENT_WRITABLE] Suc.IH [OF 1] index
    by (simp add: split_beta sound_for_stream_release)
qed simp

lemma sound_protocol_event_one:
  assumes "env_keeps env" and "sound_for h0 h"
  shows "sound_for h0 (snd (snd (host_protocol_event_one env h)))"
proof (cases "length (lh_streams h)")
  case 0
  with assms(2) show ?thesis by (simp add: host_protocol_event_one_def)
next
  case (Suc n)
  then have "0 < length (lh_streams h0)" using sound_for_lengths(2) [OF assms(2)] by simp
  from sound_protocol_loop [OF assms(1) this assms(2)] show ?thesis by (simp add: host_protocol_event_one_def)
qed

lemma sound_dial_evented: "sound_for h0 h \<Longrightarrow> sound_for h0 (host_dial_mark_evented d h)"
  unfolding host_dial_mark_evented_def by (erule sound_for_step) (rule keep_upd_dial)

lemma sound_conn_established:
  assumes ok: "host_ok h"
  shows "sound_for h (snd (host_transport_event_conn_established e h))"
proof -
  obtain err conn h1 where alloc: "host_conn_alloc (te_conn e) h = ((err, conn), h1)" by (metis prod.exhaust)
  from keep_conn_alloc [OF alloc] ok have 1: "sound_for h h1" and conn: "index_within conn (length (lh_conns h))"
    by (auto intro: sound_for_step sound_for_refl)
  define dial where "dial = host_dial_find h1 (event_attempt e)"
  define event where "event = zero_host_event\<lparr>he_type := LIBP2P_HOST_EVENT_CONN_ESTABLISHED, he_conn := conn,
    he_dial := dial, he_user_data := (case dial of Some d \<Rightarrow> hd_user_data (lh_dials h1 ! d) | None \<Rightarrow> te_user_data e)\<rparr>"
  define h2 where "h2 = (case dial of Some d \<Rightarrow> host_dial_mark_evented d h1 | None \<Rightarrow> h1)"
  have 2: "sound_for h h2" unfolding h2_def using 1 by (simp add: sound_dial_evented split: option.split)
  have "index_within dial (length (lh_dials h))"
    using dial_find_Some [of h1 "event_attempt e"] sound_for_lengths(4) [OF 1] by (cases dial) (simp_all add: dial_def)
  then have "event_ok h event" using conn by (simp add: event_def event_ok_def zero_host_event_def)
  then have "sound_for h (snd (host_event_push event h2))" using 2 by (simp add: sound_for_push event_ok_sound)
  with 1 show ?thesis
    unfolding host_transport_event_conn_established_def alloc prod.case Let_def dial_def [symmetric]
      event_def [symmetric] h2_def [symmetric] by simp
qed

lemma sound_fail_waiting:
  assumes c: "c < length (lh_conns h0)"
  shows "sound_for h0 h \<Longrightarrow> \<forall>p \<in> set ps. p < length (lh_opens h0) \<Longrightarrow> sound_for h0 (snd (fail_waiting_loop c ps h))"
proof (induction ps arbitrary: h)
  case (Cons p ps)
  define event where "event = zero_host_event\<lparr>he_type := LIBP2P_HOST_EVENT_STREAM_OPEN_FAILED, he_conn := Some c,
              he_stream_open := Some p, he_user_data := ho_user_data (lh_opens h ! p),
              he_reason := LIBP2P_HOST_ERR_CLOSED\<rparr>"
  define h1 where "h1 = upd_open p (ho_state_update (\<lambda>_. HOST_OPEN_EVENTED)) h"
  have 1: "sound_for h0 h1" unfolding h1_def by (rule sound_evented [OF Cons.prems(1)])
  obtain err h2 where push: "host_event_push event h1 = (err, h2)" by (cases "host_event_push event h1")
  have "event_ok h0 event" using c Cons.prems(2) by (simp add: event_def event_ok_def zero_host_event_def)
  then have 2: "sound_for h0 h2" using sound_for_push [OF 1, of event] push event_ok_sound [OF 1] by simp
  show ?case
    unfolding fail_waiting_loop.simps Let_def event_def [symmetric] h1_def [symmetric] push
    using Cons.IH [OF 2] Cons.IH [OF Cons.prems(1)] Cons.prems(2) 2 by (simp add: sound_for_open_release)
qed simp

lemma sound_close_streams:
  "sound_for h0 h \<Longrightarrow> \<forall>i \<in> set is. i < length (lh_streams h0) \<Longrightarrow> sound_for h0 (snd (close_streams_loop env c is h))"
proof (induction "is" arbitrary: h)
  case (Cons i "is")
  define r where "r = (if hs_state (lh_streams h ! i) \<noteq> HOST_STREAM_FREE \<and> hs_conn (lh_streams h ! i) = Some c then
               if hs_state (lh_streams h ! i) = HOST_STREAM_NEGOTIATING
               then host_stream_fail_negotiation env i LIBP2P_HOST_ERR_CLOSED None h
               else if hs_state (lh_streams h ! i) = HOST_STREAM_OPEN
               then (LIBP2P_HOST_OK, upd_host_stream i (hs_pending_closed_update (\<lambda>_. True)) h)
               else (LIBP2P_HOST_OK, host_stream_release env i h)
             else (LIBP2P_HOST_OK, h))"
  have 1: "sound_for h0 (snd r)"
    using Cons.prems sound_for_step [OF Cons.prems(1) keep_stream_marks(5)]
    by (simp add: r_def sound_fail_negotiation sound_for_stream_release)
  obtain err h1 where r: "r = (err, h1)" by (cases r)
  from Cons.IH [of h1] Cons.prems(2) 1 show ?case
    unfolding close_streams_loop.simps Let_def r_def [symmetric] r by simp
qed simp

lemma sound_dial_failed:
  assumes h: "sound_for h0 h" and d: "d < length (lh_dials h0)"
  shows "sound_for h0 (snd (host_dial_failed d e h))"
proof -
  have "event_ok h0 (zero_host_event\<lparr>he_type := LIBP2P_HOST_EVENT_DIAL_FAILED, he_dial := Some d, he_user_data := u,
      he_reason := r, he_app_error_code := a, he_transport_error_code := b\<rparr>)" for u r a b
    using d by (simp add: event_ok_def zero_host_event_def)
  then show ?thesis
    unfolding host_dial_failed_def using sound_dial_evented [OF h, of d]
    by (intro sound_for_push) (simp_all add: event_ok_sound [OF sound_dial_evented [OF h]])
qed

lemma sound_conn_closed:
  assumes ok: "host_ok h"
  shows "sound_for h (snd (host_transport_event_conn_closed env e h))"
proof (cases "host_conn_find h (te_conn e)")
  case None
  have "d < length (lh_dials h)" if "host_dial_find h (event_attempt e) = Some d" for d
    by (rule dial_find_Some [OF that])
  with None sound_for_refl [OF ok] show ?thesis
    by (auto simp: host_transport_event_conn_closed_def sound_dial_failed split: option.split)
next
  case (Some c)
  note c = conn_find_Some [OF Some]
  obtain err h1 where waits: "host_conn_fail_waiting_opens c h = (err, h1)" by (cases "host_conn_fail_waiting_opens c h")
  with c sound_fail_waiting [OF _ sound_for_refl [OF ok], of c "[0..<length (lh_opens h)]"]
  have 1: "sound_for h h1" by (simp add: host_conn_fail_waiting_opens_def)
  obtain err2 h2 where closes: "(if err = LIBP2P_HOST_OK then host_conn_close_streams env c h1 else (err, h1)) = (err2, h2)"
    by (cases "if err = LIBP2P_HOST_OK then host_conn_close_streams env c h1 else (err, h1)")
  have "sound_for h (snd (host_conn_close_streams env c h1))"
    unfolding host_conn_close_streams_def
    by (rule sound_close_streams [OF 1]) (simp add: sound_for_lengths [OF 1])
  with 1 closes have 2: "sound_for h h2" by (metis snd_conv)
  define event where "event = zero_host_event\<lparr>he_type := LIBP2P_HOST_EVENT_CONN_CLOSED, he_conn := Some c,
     he_reason := te_reason e, he_locally_initiated := hc_local_close_requested (lh_conns h2 ! c),
     he_app_error_code := te_app_error_code e, he_transport_error_code := te_transport_error_code e\<rparr>"
  define h3 where "h3 = upd_conn c (\<lambda>k. k\<lparr>hc_closed := True, hc_close_event_pending := True\<rparr>) h2"
  have 3: "sound_for h h3" unfolding h3_def by (rule sound_for_step [OF 2 keep_conn_flags]) simp_all
  have "event_ok h event" using c by (simp add: event_def event_ok_def zero_host_event_def)
  then have "sound_for h (snd (host_event_push event h3))" using 3 by (simp add: sound_for_push event_ok_sound)
  with 2 sound_for_refl [OF ok] show ?thesis
    unfolding host_transport_event_conn_closed_def Some option.case Let_def waits prod.case closes event_def [symmetric]
      h3_def [symmetric] by simp
qed

lemma sound_stream_incoming:
  assumes ok: "host_ok h"
  shows "sound_for h (snd (host_transport_event_stream_incoming env e h))"
proof (cases "host_conn_find h (te_conn e)")
  case None
  with sound_for_refl [OF ok] show ?thesis by (simp add: host_transport_event_stream_incoming_def Let_def)
next
  case (Some c)
  note c = conn_find_Some [OF Some]
  have "host_keeps h (snd (host_stream_alloc (Some c) (te_stream e) LIBP2P_HOST_STREAM_INBOUND None None h))"
    by (rule keep_stream_alloc) (use c in simp)
  then have 1: "sound_for h (snd (host_stream_alloc (Some c) (te_stream e) LIBP2P_HOST_STREAM_INBOUND None None h))"
    by (rule sound_for_step [OF sound_for_refl [OF ok]])
  with Some sound_for_refl [OF ok] show ?thesis
    by (auto simp: host_transport_event_stream_incoming_def Let_def split_beta intro: sound_transport_call)
qed

lemma sound_stream_mark:
  assumes ok: "host_ok h"
  shows "sound_for h (snd (host_transport_event_stream_mark env e h))"
proof (cases "host_stream_find h (te_stream e)")
  case None
  with sound_for_refl [OF ok] show ?thesis by (simp add: host_transport_event_stream_mark_def)
next
  case (Some i)
  then have i: "i < length (lh_streams h)" by (simp add: stream_find_Some)
  note marks = keep_stream_marks(2-5) [THEN sound_for_step [OF sound_for_refl [OF ok]]]
  note fail = sound_fail_negotiation [OF sound_for_refl [OF ok] i]
  show ?thesis
    unfolding host_transport_event_stream_mark_def Some option.case Let_def
    using marks fail sound_for_refl [OF ok] by (cases "te_type e") simp_all
qed

lemma sound_event_process:
  assumes ok: "host_ok h"
  shows "sound_for h (snd (host_transport_event_process env e h))"
proof -
  have "sound_for h (snd (host_transport_event_dial_failed e h))"
    using sound_for_refl [OF ok] dial_find_Some [of h "te_attempt e"]
    by (auto simp: host_transport_event_dial_failed_def sound_dial_failed split: option.split)
  with sound_conn_established [OF ok] sound_conn_closed [OF ok] sound_stream_incoming [OF ok]
    sound_stream_mark [OF ok] sound_for_refl [OF ok] show ?thesis
    by (cases "te_type e") (simp_all add: host_transport_event_process_def)
qed

lemma sound_event_one:
  assumes h: "sound_for h0 h"
  shows "sound_for h0 (snd (snd (host_transport_event_one env h)))"
proof -
  obtain err e t where ev: "tr_next_event (env_transport env) (lh_transport h) = ((err, e), t)" by (metis prod.exhaust)
  let ?h1 = "h\<lparr>lh_transport := t\<rparr>"
  have 1: "sound_for h0 ?h1" by (rule sound_transport [OF h])
  have 2: "sound_for h0 (upd_result f ?h1)" for f by (rule sound_result [OF 1])
  have "sound_for h0 (snd (host_transport_event_process env e (upd_result f ?h1)))" for f
    by (rule sound_for_trans [OF 2 sound_event_process [OF sound_for_ok [OF 2]]])
  with 1 show ?thesis by (simp add: host_transport_event_one_def ev Let_def split_beta)
qed

subsection \<open>The driver\<close>

lemma sound_recycle_quiet:
  "sound_for h0 h \<Longrightarrow> \<forall>c \<in> set cs. c < length (lh_conns h0) \<Longrightarrow> sound_for h0 (snd (recycle_quiet_loop env cs h))"
proof (induction cs arbitrary: h)
  case (Cons c cs)
  obtain e h1 where r: "host_conn_try_recycle env (Some c) h = (e, h1)" by (cases "host_conn_try_recycle env (Some c) h")
  with sound_for_recycle [OF Cons.prems(1), of "Some c" env] Cons.prems(2) have "sound_for h0 h1" by simp
  with Cons.IH [of h1] Cons.prems(2) r show ?case by simp
qed simp

lemma sound_close_complete: "sound_for h0 h \<Longrightarrow> sound_for h0 (snd (snd (host_close_maybe_complete h)))"
proof -
  assume h: "sound_for h0 h"
  have 1: "sound_for h0 (snd (host_event_push (zero_host_event\<lparr>he_type := LIBP2P_HOST_EVENT_HOST_CLOSED\<rparr>) h))"
    by (rule sound_for_push [OF h]) simp
  have "host_keeps g (g\<lparr>lh_host_closed_event_queued := True, lh_state := HOST_STATE_CLOSED\<rparr>)" for g :: "('a, 'b) libp2p_host"
    by (rule host_keeps_cong) simp_all
  from sound_for_step [OF 1 this] 1 h show ?thesis by (simp add: host_close_maybe_complete_def split_beta)
qed

lemma open_retry_slots: "fst (snd (snd (host_stream_open_retry_one env n h))) \<le> n"
proof (induction n arbitrary: h)
  case (Suc n)
  show ?case
    unfolding host_stream_open_retry_one.simps Let_def
    using Suc.IH by (auto simp: split_beta intro: le_SucI)
qed simp

lemma drive_round_returns:
  assumes env: "env_keeps env" and h: "sound_for h0 h" and slots: "slots \<le> length (lh_opens h0)"
  shows "\<exists>e b s h'. drive_round env slots h = Some (e, b, s, h') \<and> sound_for h0 h' \<and> s \<le> length (lh_opens h0)"
proof -
  obtain e1 p1 h1 where 1: "(if host_transport_event_capacity_available h then host_transport_event_one env h
                            else (LIBP2P_HOST_OK, False, h)) = (e1, p1, h1)" by (metis prod.exhaust)
  with sound_event_one [OF h, of env] h have s1: "sound_for h0 h1" by (auto split: if_splits)
  obtain e2 p2 n2 h2 where 2: "(if e1 = LIBP2P_HOST_OK \<and> lh_event_len h1 < length (lh_events h1) \<and> slots \<noteq> 0
             then host_stream_open_retry_one env slots h1 else (e1, False, slots, h1)) = (e2, p2, n2, h2)"
    by (metis prod.exhaust)
  have s2: "sound_for h0 h2 \<and> n2 \<le> slots"
    using sound_open_retry_one [of h0 h1 env slots] open_retry_slots [of env slots h1] s1 2 slots
    by (cases "length (lh_opens h0) = 0") (auto split: if_splits)
  have "step_returns h0 (if e2 = LIBP2P_HOST_OK \<and> lh_event_len h2 < length (lh_events h2) \<and>
              dr_negotiation_steps (lh_result h2) < lh_max_negotiation_steps h2
           then host_stream_negotiation_one env h2 else Some (e2, False, h2))"
    using negotiation_one_returns [OF env] s2 by simp
  then obtain e3 p3 h3 where 3: "(if e2 = LIBP2P_HOST_OK \<and> lh_event_len h2 < length (lh_events h2) \<and>
              dr_negotiation_steps (lh_result h2) < lh_max_negotiation_steps h2
           then host_stream_negotiation_one env h2 else Some (e2, False, h2)) = Some (e3, p3, h3)"
    and s3: "sound_for h0 h3" unfolding step_returns_def by blast
  obtain e4 p4 h4 where 4: "(if e3 = LIBP2P_HOST_OK then host_protocol_event_one env h3 else (e3, False, h3)) = (e4, p4, h4)"
    by (metis prod.exhaust)
  with sound_protocol_event_one [OF env s3] s3 have s4: "sound_for h0 h4" by (auto split: if_splits)
  obtain e5 h5 where 5: "(if e4 = LIBP2P_HOST_OK then host_conn_recycle_quiet env h4 else (e4, h4)) = (e5, h5)"
    by (metis prod.exhaust)
  have s5: "sound_for h0 h5"
    using sound_recycle_quiet [OF s4, of "[0..<length (lh_conns h4)]" env] s4 5
    by (auto simp: host_conn_recycle_quiet_def sound_for_lengths [OF s4] split: if_splits)
  obtain e6 p6 h6 where 6: "(if e5 = LIBP2P_HOST_OK \<and> lh_event_len h5 < length (lh_events h5)
      then host_close_maybe_complete h5 else (e5, False, h5)) = (e6, p6, h6)" by (metis prod.exhaust)
  with sound_close_complete [OF s5] s5 have s6: "sound_for h0 h6" by (auto split: if_splits)
  show ?thesis
    unfolding drive_round_def 1 2 prod.case Let_def 3 Option.bind.bind_lunit 4 5 6 using s6 s2 slots by simp
qed

lemma drive_loop_returns:
  assumes env: "env_keeps env"
  shows "sound_for h0 h \<Longrightarrow> slots \<le> length (lh_opens h0) \<Longrightarrow>
    \<exists>e h'. drive_loop env n slots h = Some (e, h') \<and> sound_for h0 h'"
proof (induction n arbitrary: slots h)
  case (Suc n)
  from drive_round_returns [OF env Suc.prems] obtain e b s h1 where
    r: "drive_round env slots h = Some (e, b, s, h1)" "sound_for h0 h1" "s \<le> length (lh_opens h0)" by blast
  from Suc.IH [OF r(2,3)] r show ?case by simp
qed simp

lemma drive_returns:
  assumes env: "env_keeps env" and ok: "host_ok h"
  shows "\<exists>e r h'. libp2p_host_drive env now_us ready h = Some (e, r, h') \<and> sound_for h h'"
proof -
  define g where "g = upd_result (\<lambda>_. zero_drive_result) h"
  have g: "sound_for h g" unfolding g_def by (rule sound_result [OF sound_for_refl [OF ok]])
  define err1 where "err1 = (if host_validate_started g = LIBP2P_HOST_OK \<and> ready AND NOT LIBP2P_HOST_READY_ALL \<noteq> 0
                  then LIBP2P_HOST_ERR_INVALID_ARG else host_validate_started g)"
  obtain err h1 where 1: "(if err1 = LIBP2P_HOST_OK \<and> host_transport_event_capacity_available g
      then transport_call (\<lambda>t. tr_drive (env_transport env) t now_us ready) g else (err1, g)) = (err, h1)"
    by (metis prod.exhaust)
  have s1: "sound_for h h1" using sound_transport_call [OF g] g 1 by (metis snd_conv)
  have "\<exists>e h'. (if err = LIBP2P_HOST_OK
           then drive_loop env ((length (lh_events h1) + length (lh_streams h1) + length (lh_opens h1) +
                                 lh_max_negotiation_steps h1 + 8) mod 2 ^ 64) (length (lh_opens h1)) h1
           else Some (err, h1)) = Some (e, h') \<and> sound_for h h'"
    using drive_loop_returns [OF env s1] s1 by (simp add: sound_for_lengths [OF s1])
  then obtain e h' where "(if err = LIBP2P_HOST_OK
           then drive_loop env ((length (lh_events h1) + length (lh_streams h1) + length (lh_opens h1) +
                                 lh_max_negotiation_steps h1 + 8) mod 2 ^ 64) (length (lh_opens h1)) h1
           else Some (err, h1)) = Some (e, h')" "sound_for h h'" by blast
  then show ?thesis
    unfolding libp2p_host_drive_def Let_def g_def [symmetric] err1_def [symmetric] 1 prod.case by simp
qed

end
