(* ===== verification/Host_Reach.thy ===== *)
theory Host_Reach
  imports Host_Config Host_Rounds
begin

text \<open>
  The reachable states of the host: the calls of the application and of the callbacks as a step relation, the
  proof that every one of them keeps the invariant, and the properties of the host.
\<close>

subsection \<open>Calls\<close>

text \<open>
  What the application, and a callback of a protocol while the driver runs, may do with the host: its own
  state changes, or it calls a function of \<open>libp2p_host.h\<close> with handles that the host has given it.
\<close>

inductive host_call :: "('t, 'a) host_env \<Rightarrow> ('t, 'a) libp2p_host \<Rightarrow> ('t, 'a) libp2p_host \<Rightarrow> bool" for env where
  call_app: "host_call env h (h\<lparr>lh_app := x\<rparr>)"
| call_open: "index_within conn (length (lh_conns h)) \<Longrightarrow>
    host_call env h (snd (libp2p_host_open_stream env conn pid u h))"
| call_open_fallback: "index_within conn (length (lh_conns h)) \<Longrightarrow>
    host_call env h (snd (libp2p_host_open_stream_with_fallback env conn pid fid u h))"
| call_cancel: "index_within opn (length (lh_opens h)) \<Longrightarrow>
    host_call env h (snd (libp2p_host_stream_open_cancel env opn u h))"
| call_dial: "host_call env h (snd (libp2p_host_dial_multiaddr env addr u h))"
| call_read: "index_within stream (length (lh_streams h)) \<Longrightarrow>
    libp2p_host_stream_read env stream out h = Some (r, h') \<Longrightarrow> host_call env h h'"
| call_write: "host_call env h (snd (libp2p_host_stream_write env stream bs fin h))"
| call_finish: "host_call env h (snd (libp2p_host_stream_finish env stream h))"
| call_reset: "host_call env h (snd (libp2p_host_stream_reset env stream code h))"
| call_stop_sending: "host_call env h (snd (libp2p_host_stream_stop_sending env stream code h))"
| call_set_user_data: "host_call env h (snd (libp2p_host_stream_set_user_data stream u h))"
| call_conn_close: "host_call env h (snd (libp2p_host_conn_close env conn code h))"
| call_close: "host_call env h (snd (libp2p_host_close env code h))"
| call_next_event: "host_call env h (snd (libp2p_host_next_event env h))"

text \<open>The code around the host: a transport within its buffers, and callbacks that only call the host.\<close>

definition host_env_ok :: "('t, 'a) host_env \<Rightarrow> bool" where
  "host_env_ok env \<longleftrightarrow> transport_bounded (env_transport env) \<and>
     (\<forall>k h i dir. (host_call env)\<^sup>*\<^sup>* h (snd (env_on_open env k h i dir))) \<and>
     (\<forall>k h i kind. (host_call env)\<^sup>*\<^sup>* h (snd (env_on_event env k h i kind)))"

inductive host_reach ::
  "('t, 'a) host_env \<Rightarrow> host_sizes \<Rightarrow> 't libp2p_host_config_t \<Rightarrow> ('t, 'a) libp2p_host \<Rightarrow> bool" for env z g where
  reach_init: "libp2p_host_init z storage_given storage_len (Some g) app = Inr h \<Longrightarrow> host_reach env z g h"
| reach_handle: "host_reach env z g h \<Longrightarrow> host_reach env z g (snd (libp2p_host_handle protocol h))"
| reach_start: "host_reach env z g h \<Longrightarrow> host_reach env z g (snd (libp2p_host_start h))"
| reach_call: "host_reach env z g h \<Longrightarrow> host_call env h h' \<Longrightarrow> host_reach env z g h'"
| reach_drive: "host_reach env z g h \<Longrightarrow> libp2p_host_drive env now_us ready h = Some (e, r, h') \<Longrightarrow>
    host_reach env z g h'"

subsection \<open>The invariant is kept\<close>

lemma host_call_keeps: "host_call env h h' \<Longrightarrow> host_keeps h h'"
proof (induction rule: host_call.induct)
  case (call_open conn h pid u)
  then show ?case unfolding libp2p_host_open_stream_def by (intro keep_open_stream) simp
next
  case (call_open_fallback conn h pid fid u)
  then show ?case unfolding libp2p_host_open_stream_with_fallback_def by (intro keep_open_stream) simp
next
  case (call_read stream h out r h')
  then show ?case by (rule keep_stream_read)
qed (simp_all add: keep_app keep_open_cancel keep_dial keep_stream_calls keep_conn_close keep_close keep_next_event)

lemma host_calls_keep: "(host_call env)\<^sup>*\<^sup>* h h' \<Longrightarrow> host_keeps h h'"
  by (induction rule: rtranclp_induct) (auto intro: host_keeps_trans host_call_keeps)

lemma host_env_keeps: "host_env_ok env \<Longrightarrow> env_keeps env"
  unfolding host_env_ok_def env_keeps_def using host_calls_keep by blast

lemma initial_host_ok:
  assumes "0 < hg_event_capacity g"
  shows "host_ok (initial_host g L t app)"
proof -
  have none: "filter P (replicate n x) = []" if "\<not> P x" for P :: "'x \<Rightarrow> bool" and n x
    using that by (induction n) simp_all
  have "streams_of (replicate n zero_host_stream) c = 0" "opens_of (replicate m zero_host_open) c = 0" for n m c
    by (simp_all add: streams_of_def opens_of_def none zero_host_stream_def zero_host_open_def)
  moreover define h where "h = initial_host g L t app"
  moreover have "lh_events h = replicate (hg_event_capacity g) zero_host_event" "lh_event_head h = 0"
    "lh_event_len h = 0" "lh_conns h = replicate (hg_max_connections g) zero_host_conn"
    "lh_streams h = replicate (hl_stream_capacity L) zero_host_stream"
    "lh_opens h = replicate (hg_max_pending_stream_opens g) zero_host_open" "lh_protocols h = []" "lh_ms_protocols h = []"
    by (simp_all add: h_def initial_host_def)
  ultimately show ?thesis
    using assms by (simp add: host_ok_def list_all_iff conn_ok_def) (simp add: zero_host_conn_def)
qed

lemma host_handle_ok: "host_ok h \<Longrightarrow> host_ok (snd (libp2p_host_handle p h))"
proof -
  assume ok: "host_ok h"
  have "host_ok (h\<lparr>lh_protocols := lh_protocols h @ [q]\<rparr>)" if q: "protocol_id_within (hp_id q)" "hp_on_open q" for q
  proof -
    let ?h = "h\<lparr>lh_protocols := lh_protocols h @ [q]\<rparr>"
    have mono: "index_within x (length (lh_protocols h)) \<Longrightarrow> index_within x (Suc (length (lh_protocols h)))" for x
      by (cases x) simp_all
    have "event_ok ?h = event_ok h" "conn_ok ?h = conn_ok h"
      by (simp_all add: fun_eq_iff event_ok_def conn_ok_def)
    moreover have "stream_ok h s \<Longrightarrow> stream_ok ?h s" "open_ok h o' \<Longrightarrow> open_ok ?h o'" for s o'
      by (simp_all add: stream_ok_def open_ok_def mono)
    ultimately show ?thesis using ok q by (auto simp: host_ok_def list_all_iff)
  qed
  then show ?thesis
    using ok by (auto simp: libp2p_host_handle_def Let_def protocol_id_within_def split: option.split)
qed

lemma host_start_ok: "host_ok h \<Longrightarrow> host_ok (snd (libp2p_host_start h))"
proof -
  assume ok: "host_ok h"
  let ?h = "h\<lparr>lh_ms_protocols := map hp_id (lh_protocols h), lh_state := HOST_STATE_STARTED\<rparr>"
  have "event_ok ?h = event_ok h" "conn_ok ?h = conn_ok h" "stream_ok ?h = stream_ok h" "open_ok ?h = open_ok h"
    by (simp_all add: fun_eq_iff event_ok_def conn_ok_def stream_ok_def open_ok_def)
  with ok have "host_ok ?h" by (auto simp: host_ok_def list_all_iff)
  with ok show ?thesis by (simp add: libp2p_host_start_def Let_def)
qed

lemma host_reach_ok:
  assumes env: "host_env_ok env"
  shows "host_reach env z g h \<Longrightarrow> host_ok h"
proof (induction rule: host_reach.induct)
  case (reach_init storage_given storage_len app h)
  from host_init_Inr [OF this] obtain g' L t where g: "Some g = Some g'" "host_config_validate (Some g) = LIBP2P_HOST_OK"
    and h: "h = initial_host g' L t app" by metis
  then have "0 < hg_event_capacity g" by (auto simp: host_config_validate_def Let_def split: if_splits)
  with g h show ?case by (simp add: initial_host_ok)
next
  case (reach_call h h')
  then show ?case using host_call_keeps host_keepsD by blast
next
  case (reach_drive h now_us ready e r h')
  from drive_returns [OF host_env_keeps [OF env] reach_drive.IH, of now_us ready] reach_drive.hyps
  show ?case by (auto simp: sound_for_def)
qed (simp_all add: host_handle_ok host_start_ok)

text \<open>The number of connections and the limit of streams are those of the configuration.\<close>

lemma host_reach_limits:
  assumes env: "host_env_ok env"
  shows "host_reach env z g h \<Longrightarrow>
    lh_max_streams_per_conn h = hg_max_streams_per_conn g \<and> length (lh_conns h) = hg_max_connections g"
proof (induction rule: host_reach.induct)
  case (reach_init storage_given storage_len app h)
  from host_init_Inr [OF this] obtain g' L t where "Some g = Some g'" "h = initial_host g' L t app" by metis
  then show ?case by (simp add: initial_host_def)
next
  case (reach_handle h protocol)
  then show ?case by (simp add: libp2p_host_handle_def Let_def split: option.split)
next
  case (reach_start h)
  then show ?case by (simp add: libp2p_host_start_def Let_def)
next
  case (reach_call h h')
  then have "host_shape h' = host_shape h"
    using host_keepsD [OF host_call_keeps host_reach_ok [OF env]] by blast
  with reach_call.IH show ?case by (simp add: host_shape_def)
next
  case (reach_drive h now_us ready e r h')
  from drive_returns [OF host_env_keeps [OF env] host_reach_ok [OF env reach_drive.hyps(1)], of now_us ready]
    reach_drive.hyps(2) have "host_shape h' = host_shape h" by (auto simp: sound_for_def)
  with reach_drive.IH show ?case by (simp add: host_shape_def)
qed

end
