(* ===== verification/Host_Negotiation.thy ===== *)
theory Host_Negotiation
  imports Host_Steps Multistream_Negotiation
begin

text \<open>
  What the negotiation of the host does to the bytes of a stream: nothing that is read is lost, and an inbound
  stream is answered with the bytes that the blocking responder of multistream-select writes.
\<close>

subsection \<open>Messages\<close>

lemma prepare_message_valid:
  assumes "host_ok h" and "i < length (lh_streams h)" and "ms_valid p"
  shows "\<exists>h'. host_stream_prepare_message i (Buf p) h = Some (LIBP2P_HOST_OK, h') \<and>
    take (hs_out_len (lh_streams h' ! i)) (hs_out_frame (lh_streams h' ! i)) = ms_frame p \<and>
    hs_out_len (lh_streams h' ! i) = length (ms_frame p) \<and> hs_out_pos (lh_streams h' ! i) = 0 \<and>
    stream_input (lh_streams h' ! i) = stream_input (lh_streams h ! i) \<and>
    hs_protocol (lh_streams h' ! i) = hs_protocol (lh_streams h ! i) \<and> lh_transport h' = lh_transport h"
proof -
  let ?f = "hs_out_frame (lh_streams h ! i)"
  have "length ?f = 1026" using host_ok_stream [OF assms(1,2)] by (simp add: stream_ok_def buffers_ok_def)
  with message_encode_valid [OF assms(3), of ?f] ms_frame_bound [OF assms(3)]
  have "host_stream_prepare_message i (Buf p) h = Some (LIBP2P_HOST_OK,
      upd_host_stream i (\<lambda>s. s\<lparr>hs_out_frame := ms_frame p @ drop (length (ms_frame p)) ?f,
        hs_out_len := length (ms_frame p), hs_out_pos := 0\<rparr>) h)"
    by (simp add: host_stream_prepare_message_def)
  with assms(2) show ?thesis by (simp add: upd_host_stream_def stream_input_def)
qed

lemma prepare_ls_valid:
  assumes ok: "host_ok h" "i < length (lh_streams h)" and ids: "lh_ms_protocols h = map Buf ids" "ids_valid ids"
    and fits: "length (ls_bytes ids) \<le> 1023"
  shows "\<exists>h'. host_stream_prepare_ls i h = Some (LIBP2P_HOST_OK, h') \<and>
    take (hs_out_len (lh_streams h' ! i)) (hs_out_frame (lh_streams h' ! i)) = ms_frame (ls_bytes ids) \<and>
    hs_out_len (lh_streams h' ! i) = length (ms_frame (ls_bytes ids)) \<and> hs_out_pos (lh_streams h' ! i) = 0 \<and>
    stream_input (lh_streams h' ! i) = stream_input (lh_streams h ! i) \<and>
    hs_protocol (lh_streams h' ! i) = hs_protocol (lh_streams h ! i) \<and> lh_transport h' = lh_transport h"
proof -
  let ?p = "hs_payload (lh_streams h ! i)" and ?n = "length (ls_bytes ids)"
  note s = host_ok_stream [OF ok]
  have len: "length ?p = 1023" using s by (simp add: stream_ok_def buffers_ok_def)
  with ls_encode_fits [OF ids(2) fits, of ?p] fits
  have enc: "libp2p_multistream_select_ls_response_payload_encode (Buf (lh_ms_protocols h)) (Buf ?p) =
    Some (MS_OK, ?n, Buf (ls_bytes ids @ drop ?n ?p))" by (simp add: ids(1))
  let ?h = "upd_host_stream i (\<lambda>s. s\<lparr>hs_payload := ls_bytes ids @ drop ?n ?p, hs_payload_len := ?n\<rparr>) h"
  have step: "stream_step i h ?h"
    using s len fits by (intro stream_step_update) (simp_all add: stream_ok_def buffers_ok_def)
  note ok1 = stream_step_sound [OF step ok(1)]
  have "ms_valid (ls_bytes ids)" using fits by (simp add: ms_valid_def)
  from prepare_message_valid [OF _ _ this, of ?h i] ok1 ok(2) obtain h' where
    h': "host_stream_prepare_message i (Buf (ls_bytes ids)) ?h = Some (LIBP2P_HOST_OK, h')"
      "take (hs_out_len (lh_streams h' ! i)) (hs_out_frame (lh_streams h' ! i)) = ms_frame (ls_bytes ids)"
      "hs_out_len (lh_streams h' ! i) = length (ms_frame (ls_bytes ids))" "hs_out_pos (lh_streams h' ! i) = 0"
      "stream_input (lh_streams h' ! i) = stream_input (lh_streams ?h ! i)"
      "hs_protocol (lh_streams h' ! i) = hs_protocol (lh_streams ?h ! i)" "lh_transport h' = lh_transport ?h" by auto
  then show ?thesis using ok(2) by (simp add: host_stream_prepare_ls_def enc) (simp add: upd_host_stream_def stream_input_def)
qed

text \<open>A message that is there already is taken without a read.\<close>

lemma read_buffered:
  assumes ok: "host_ok h" "i < length (lh_streams h)"
    and input: "stream_input (lh_streams h ! i) = ms_frame q @ rest" and q: "ms_valid q"
  shows "\<exists>h1. host_stream_read_message env i h = Some (LIBP2P_HOST_OK, True, True, h1) \<and> input_change i h rest h1 \<and>
    take (hs_payload_len (lh_streams h1 ! i)) (hs_payload (lh_streams h1 ! i)) = q \<and>
    hs_payload_len (lh_streams h1 ! i) = length q \<and> lh_transport h1 = lh_transport h"
proof -
  let ?s = "lh_streams h ! i"
  have len: "length (hs_payload ?s) = 1023" using host_ok_stream [OF ok] by (simp add: stream_ok_def buffers_ok_def)
  have dec: "ms_dec (stream_input ?s) = Some (q, length (ms_frame q))" unfolding input by (rule frame.dec_enc [OF q])
  have fl: "length (ms_frame q) \<le> hs_in_len ?s" using arg_cong [OF input, of length] by (simp add: stream_input_def)
  have some: "hs_in_len ?s \<noteq> 0" using fl by (cases "ms_frame q") auto
  from take_message_takes [OF ok fl, of "length q" "q @ drop (length q) (hs_payload ?s)"] q len obtain h1 where
    "host_stream_take_message i (length q) (length (ms_frame q)) (q @ drop (length q) (hs_payload ?s)) h = Some h1"
    "input_change i h (drop (length (ms_frame q)) (stream_input ?s)) h1"
    "hs_payload (lh_streams h1 ! i) = q @ drop (length q) (hs_payload ?s)" "hs_payload_len (lh_streams h1 ! i) = length q"
    "lh_transport h1 = lh_transport h" by (auto simp: ms_valid_def)
  with some message_decode_frame [OF dec, of "hs_payload ?s"] len q input show ?thesis
    by (simp add: host_stream_read_message_def stream_input_def [symmetric] ms_valid_def)
qed

lemma payload_is_iff:
  assumes "take (hs_payload_len (lh_streams h ! i)) (hs_payload (lh_streams h ! i)) = q"
    and "hs_payload_len (lh_streams h ! i) = length q"
  shows "payload_is h i (Buf x) \<longleftrightarrow> q = x"
  using assms by (auto simp: payload_is_def host_bytes_equal_def)

lemma protocol_find_ids:
  assumes "map hp_id (lh_protocols h) = map Buf ids"
  shows "snd (host_protocol_find h (Buf q)) =
    (if q \<noteq> [] \<and> q \<in> set ids then Some (length (takeWhile (\<lambda>p. p \<noteq> q) ids)) else None)"
proof -
  have "find_slot_loop (\<lambda>p. clen (hp_id p) = length q \<and> contents (hp_id p) = q) ps k =
      (if q \<in> set ids then Some (k + length (takeWhile (\<lambda>p. p \<noteq> q) ids)) else None)"
    if "map hp_id ps = map Buf ids" for ps k
    using that
  proof (induction ps arbitrary: ids k)
    case (Cons p ps)
    then obtain x xs where ids: "ids = x # xs" "hp_id p = Buf x" "map hp_id ps = map Buf xs" by (cases ids) auto
    from Cons.IH [OF ids(3), of "k + 1"] ids show ?case by auto
  qed simp
  from this [OF assms, of 0] show ?thesis by (auto simp: host_protocol_find_def split: option.split)
qed

subsection \<open>The answer of the responder\<close>

definition host_answer :: "byte list list \<Rightarrow> byte list \<Rightarrow> byte list" where
  "host_answer ids q = (if q = LS then ls_bytes ids else if q \<in> set ids then q else NA)"

lemma inbound_answer:
  assumes ok: "host_ok h" "i < length (lh_streams h)"
    and state: "hs_neg_state (lh_streams h ! i) = HOST_NEG_IN_READ_PROTOCOL"
    and ids: "map hp_id (lh_protocols h) = map Buf ids" "lh_ms_protocols h = map Buf ids"
    and input: "stream_input (lh_streams h ! i) = ms_frame q @ rest" and q: "ms_valid q"
    and fits: "q = LS \<Longrightarrow> length (ls_bytes ids) \<le> 1023"
  shows "\<exists>h'. host_stream_inbound_step env i h = Some (LIBP2P_HOST_OK, True, h') \<and>
    take (hs_out_len (lh_streams h' ! i)) (hs_out_frame (lh_streams h' ! i)) = ms_frame (host_answer ids q) \<and>
    hs_out_pos (lh_streams h' ! i) = 0 \<and> stream_input (lh_streams h' ! i) = rest \<and>
    hs_protocol (lh_streams h' ! i) =
      (if q \<noteq> LS \<and> q \<in> set ids then Some (length (takeWhile (\<lambda>p. p \<noteq> q) ids)) else hs_protocol (lh_streams h ! i)) \<and>
    lh_transport h' = lh_transport h"
proof -
  have valid: "ids_valid ids"
  proof -
    have "list_all protocol_id_within (map Buf ids)" using ok(1) ids(2) by (simp add: host_ok_def)
    then show ?thesis by (induction ids) (simp_all add: ids_valid_def protocol_id_within_def ms_valid_def)
  qed
  then have q_some: "q \<in> set ids \<Longrightarrow> q \<noteq> []" by (auto simp: ids_valid_def list_all_iff)
  from read_buffered [OF ok input q, of env] obtain h1 where
    rd: "host_stream_read_message env i h = Some (LIBP2P_HOST_OK, True, True, h1)" "input_change i h rest h1" and
    payload: "take (hs_payload_len (lh_streams h1 ! i)) (hs_payload (lh_streams h1 ! i)) = q"
      "hs_payload_len (lh_streams h1 ! i) = length q" and tr: "lh_transport h1 = lh_transport h" by blast
  from payload have payload': "take (length q) (hs_payload (lh_streams h1 ! i)) = q" by simp
  have step: "stream_step i h h1" and in1: "stream_input (lh_streams h1 ! i) = rest"
    and pr1: "hs_protocol (lh_streams h1 ! i) = hs_protocol (lh_streams h ! i)"
    using rd(2) by (simp_all add: input_change_def)
  note ok1 = stream_step_sound [OF step ok(1)]
  have ids1: "map hp_id (lh_protocols h1) = map Buf ids" "lh_ms_protocols h1 = map Buf ids"
    using ok1 ids by (simp_all add: sound_for_def host_shape_def)
  have set_neg: "lh_streams (set_neg_state i st g) ! i = (lh_streams g ! i)\<lparr>hs_neg_state := st\<rparr>"
    "lh_transport (set_neg_state i st g) = lh_transport g" if "i < length (lh_streams g)" for g :: "('a, 'b) libp2p_host" and st
    using that by (simp_all add: set_neg_state_def upd_host_stream_def)
  have len: "length (lh_streams h') = length (lh_streams h1)"
    if "host_stream_prepare_message i b g = Some (e, h')" "length (lh_streams g) = length (lh_streams h1)" for b e h' g
    using that by (auto simp: host_stream_prepare_message_def Let_def split: if_splits Option.bind_splits)
  have len_ls: "length (lh_streams h') = length (lh_streams h1)" if "host_stream_prepare_ls i h1 = Some (e, h')" for e h'
    using that by (auto simp: host_stream_prepare_ls_def Let_def split: if_splits Option.bind_splits) (rule len, assumption, simp)
  show ?thesis
  proof (cases "q = LS")
    case True
    from prepare_ls_valid [of h1 i ids] ok1 ok(2) ids1 valid fits [OF True] obtain h2 where
      "host_stream_prepare_ls i h1 = Some (LIBP2P_HOST_OK, h2)"
      "take (hs_out_len (lh_streams h2 ! i)) (hs_out_frame (lh_streams h2 ! i)) = ms_frame (ls_bytes ids)"
      "hs_out_pos (lh_streams h2 ! i) = 0" "stream_input (lh_streams h2 ! i) = stream_input (lh_streams h1 ! i)"
      "hs_protocol (lh_streams h2 ! i) = hs_protocol (lh_streams h1 ! i)" "lh_transport h2 = lh_transport h1" by auto
    with len_ls [of LIBP2P_HOST_OK h2] ok(2) ok1 True rd(1) state in1 pr1 tr show ?thesis
      by (simp add: host_stream_inbound_step_def read_then_def payload_is_iff [OF payload] set_neg host_answer_def
          stream_input_def)
  next
    case False
    have find: "snd (host_protocol_find h1 (Buf q)) =
        (if q \<in> set ids then Some (length (takeWhile (\<lambda>p. p \<noteq> q) ids)) else None)"
      using protocol_find_ids [OF ids1(1), of q] q_some by auto
    obtain fe pr where found: "host_protocol_find h1 (Buf q) = (fe, pr)" by (cases "host_protocol_find h1 (Buf q)")
    show ?thesis
    proof (cases "q \<in> set ids")
      case True
      let ?k = "length (takeWhile (\<lambda>p. p \<noteq> q) ids)"
      have k: "?k < length ids" using True by (simp add: takeWhile_length_less)
      then have "hp_id (lh_protocols h1 ! ?k) = map Buf ids ! ?k"
        using ids1(1) by (metis length_map nth_map)
      also have "\<dots> = Buf q" using k nth_length_takeWhile [of "\<lambda>p. p \<noteq> q" ids] by simp
      finally have id: "hp_id (lh_protocols h1 ! ?k) = Buf q" .
      let ?g = "upd_host_stream i (hs_protocol_update (\<lambda>_. Some ?k)) h1"
      have "length (lh_protocols h1) = length ids" using ids1(1) by (metis length_map)
      then have step2: "stream_step i h1 ?g"
        by (intro stream_step_update) (drule (1) host_ok_stream, use k in \<open>simp_all add: stream_ok_def buffers_ok_def\<close>)
      note ok2 = stream_step_sound [OF step2] 
      from prepare_message_valid [OF _ _ q, of ?g i] ok1 ok2 ok(2) obtain h2 where
        "host_stream_prepare_message i (Buf q) ?g = Some (LIBP2P_HOST_OK, h2)"
        "take (hs_out_len (lh_streams h2 ! i)) (hs_out_frame (lh_streams h2 ! i)) = ms_frame q"
        "hs_out_pos (lh_streams h2 ! i) = 0" "stream_input (lh_streams h2 ! i) = stream_input (lh_streams ?g ! i)"
        "hs_protocol (lh_streams h2 ! i) = hs_protocol (lh_streams ?g ! i)" "lh_transport h2 = lh_transport ?g" by auto
      moreover from this(1) have "length (lh_streams h2) = length (lh_streams h1)" by (rule len) simp
      moreover have "lh_streams ?g ! i = (lh_streams h1 ! i)\<lparr>hs_protocol := Some ?k\<rparr>" "lh_transport ?g = lh_transport h1"
        using ok1 ok(2) by (simp_all add: upd_host_stream_def)
      ultimately show ?thesis
        using ok(2) ok1 False True rd(1) state in1 tr found find id
        by (simp add: host_stream_inbound_step_def read_then_def payload_is_iff [OF payload] set_neg host_answer_def
            stream_input_def payload(2) payload')
    next
      case other: False
      from prepare_message_valid [of h1 i NA] ok1 ok(2) obtain h2 where
        "host_stream_prepare_message i (Buf NA) h1 = Some (LIBP2P_HOST_OK, h2)"
        "take (hs_out_len (lh_streams h2 ! i)) (hs_out_frame (lh_streams h2 ! i)) = ms_frame NA"
        "hs_out_pos (lh_streams h2 ! i) = 0" "stream_input (lh_streams h2 ! i) = stream_input (lh_streams h1 ! i)"
        "hs_protocol (lh_streams h2 ! i) = hs_protocol (lh_streams h1 ! i)" "lh_transport h2 = lh_transport h1" by auto
      moreover from this(1) have "length (lh_streams h2) = length (lh_streams h1)" by (rule len) simp
      ultimately show ?thesis
        using ok(2) ok1 False other rd(1) state in1 pr1 tr found find
        by (simp add: host_stream_inbound_step_def read_then_def payload_is_iff [OF payload] set_neg host_answer_def
            stream_input_def payload(2) payload')
    qed
  qed
qed

end
