(* ===== verification/Host_Properties.thy ===== *)
theory Host_Properties
  imports Host_Reach Host_Negotiation
begin

text \<open>
  The properties of the host, and a transport that plays a script, on which they are witnessed.
\<close>

subsection \<open>Slots in use\<close>

lemma used_stream_conn:
  assumes ok: "host_ok h" and i: "i < length (lh_streams h)" and used: "hs_state (lh_streams h ! i) \<noteq> HOST_STREAM_FREE"
  shows "\<exists>c < length (lh_conns h). hs_conn (lh_streams h ! i) = Some c \<and> hc_active (lh_conns h ! c) \<and>
    hc_transport_conn (lh_conns h ! c) \<noteq> None \<and> host_conn_try_recycle env (Some c) h = (LIBP2P_HOST_OK, h)"
proof -
  from host_ok_stream [OF ok i] used obtain c where c: "hs_conn (lh_streams h ! i) = Some c" "c < length (lh_conns h)"
    by (auto simp: stream_ok_def)
  have "streams_of (lh_streams h) c \<noteq> 0"
    using streams_of_update [OF i, of zero_host_stream c] used c by (simp add: zero_host_stream_def)
  with host_ok_conn [OF ok c(2)] c show ?thesis
    by (auto simp: conn_ok_def host_conn_try_recycle_def Let_def split: if_splits)
qed

lemma streams_of_card:
  "streams_of ss c = card {i. i < length ss \<and> hs_state (ss ! i) \<noteq> HOST_STREAM_FREE \<and> hs_conn (ss ! i) = Some c}"
  by (simp add: streams_of_def length_filter_conv_card)

subsection \<open>The ring of events\<close>

text \<open>The events that the application has not taken, in their order.\<close>

definition host_queue :: "('t, 'a) libp2p_host \<Rightarrow> libp2p_host_event_t list" where
  "host_queue h = map (\<lambda>k. lh_events h ! ((lh_event_head h + k) mod length (lh_events h))) [0..<lh_event_len h]"

lemma ring_position:
  assumes "a < n" and "j < n" and "k < n"
  shows "(a + j) mod n = (a + k) mod n \<longleftrightarrow> j = (k :: nat)"
proof -
  have "(a + m) mod n = (if a + m < n then a + m else a + m - n)" if "m < n" for m
    using assms(1) that by (simp add: mod_if)
  from this [OF assms(2)] this [OF assms(3)] assms show ?thesis by auto
qed

lemma push_queue:
  assumes ok: "host_ok h" and room: "lh_event_len h < length (lh_events h)"
  shows "fst (host_event_push e h) = LIBP2P_HOST_OK \<and> host_queue (snd (host_event_push e h)) = host_queue h @ [e]"
proof -
  let ?n = "length (lh_events h)" and ?a = "lh_event_head h" and ?m = "lh_event_len h"
  let ?h = "snd (host_event_push e h)"
  have a: "?a < ?n" using ok by (simp add: host_ok_def)
  have h': "fst (host_event_push e h) = LIBP2P_HOST_OK" "lh_events ?h = (lh_events h)[(?a + ?m) mod ?n := e]"
    "lh_event_head ?h = ?a" "lh_event_len ?h = Suc ?m"
    using room by (auto simp: host_event_push_def Let_def upd_result_def)
  have pos: "(?a + ?m) mod ?n < ?n" by (rule mod_less_divisor) (use a in linarith)
  have "(lh_events h)[(?a + ?m) mod ?n := e] ! ((?a + k) mod ?n) = lh_events h ! ((?a + k) mod ?n)" if "k < ?m" for k
    using ring_position [OF a room, of k] that room by (intro nth_list_update_neq) simp
  then have "map (\<lambda>k. (lh_events h)[(?a + ?m) mod ?n := e] ! ((?a + k) mod ?n)) [0..<?m] = host_queue h"
    unfolding host_queue_def by (intro map_cong) simp_all
  with h' pos show ?thesis unfolding host_queue_def by simp
qed

lemma try_recycle_events [simp]:
  "lh_events (snd (host_conn_try_recycle env c h)) = lh_events h"
  "lh_event_head (snd (host_conn_try_recycle env c h)) = lh_event_head h"
  "lh_event_len (snd (host_conn_try_recycle env c h)) = lh_event_len h"
proof -
  let ?r = "snd (host_conn_try_recycle env c h)"
  have "?r = h \<or> (\<exists>t. ?r = h\<lparr>lh_transport := t\<rparr>) \<or> (\<exists>i. ?r = upd_conn i (\<lambda>_. zero_host_conn) h) \<or>
      (\<exists>i t. ?r = upd_conn i (\<lambda>_. zero_host_conn) (h\<lparr>lh_transport := t\<rparr>))"
    unfolding host_conn_try_recycle_def transport_call_def
    by (auto simp: Let_def split: prod.split option.split)
  then show "lh_events (snd (host_conn_try_recycle env c h)) = lh_events h"
    "lh_event_head (snd (host_conn_try_recycle env c h)) = lh_event_head h"
    "lh_event_len (snd (host_conn_try_recycle env c h)) = lh_event_len h"
    by (auto simp: upd_conn_def)
qed

lemma next_event_queue:
  assumes ok: "host_ok h" and valid: "host_validate_any h = LIBP2P_HOST_OK"
  shows "case host_queue h of
      [] \<Rightarrow> libp2p_host_next_event env h = ((LIBP2P_HOST_ERR_WOULD_BLOCK, zero_host_event), h)
    | e # q \<Rightarrow> snd (fst (libp2p_host_next_event env h)) = e \<and> host_queue (snd (libp2p_host_next_event env h)) = q"
proof (cases "lh_event_len h")
  case 0
  with valid show ?thesis by (simp add: host_queue_def libp2p_host_next_event_def)
next
  case (Suc m)
  let ?n = "length (lh_events h)" and ?a = "lh_event_head h"
  have a: "?a < ?n" using ok by (simp add: host_ok_def)
  let ?h = "snd (libp2p_host_next_event env h)"
  have h': "lh_events ?h = lh_events h" "lh_event_head ?h = (?a + 1) mod ?n" "lh_event_len ?h = m"
    "snd (fst (libp2p_host_next_event env h)) = lh_events h ! ?a"
    using valid Suc
    by (auto simp: libp2p_host_next_event_def Let_def upd_dial_def upd_host_stream_def upd_conn_def split_beta
        split: option.split)
  have "host_queue h = lh_events h ! ?a # map (\<lambda>k. lh_events h ! ((?a + Suc k) mod ?n)) [0..<m]"
    unfolding host_queue_def Suc map_upt_Suc using a by simp
  moreover have "host_queue ?h = map (\<lambda>k. lh_events h ! ((?a + Suc k) mod ?n)) [0..<m]"
    unfolding host_queue_def h' by (simp add: mod_add_left_eq)
  ultimately show ?thesis using h'(4) by simp
qed


subsection \<open>A scripted transport\<close>

text \<open>
  The state of the transport is the list of its events and the bytes that any read delivers. Every other
  request succeeds. The callbacks count their calls.
\<close>

type_synonym script = "libp2p_host_transport_event_t list \<times> byte list"

definition script_transport :: "script host_transport" where
  "script_transport =
     \<lparr>tr_drive = (\<lambda>t _ _. (LIBP2P_HOST_OK, t)),
      tr_next_event = (\<lambda>(es, bs). case es of
         [] \<Rightarrow> ((LIBP2P_HOST_ERR_WOULD_BLOCK, \<lparr>te_type = LIBP2P_HOST_TRANSPORT_EVENT_NONE, te_conn = None,
           te_stream = None, te_attempt = None, te_user_data = None, te_reason = LIBP2P_HOST_OK,
           te_app_error_code = 0, te_transport_error_code = 0\<rparr>), (es, bs))
       | e # es' \<Rightarrow> ((LIBP2P_HOST_OK, e), (es', bs))),
      tr_dial = (\<lambda>t _ _. ((LIBP2P_HOST_OK, Some 1), t)),
      tr_open_stream = (\<lambda>t _. ((LIBP2P_HOST_OK, Some 2), t)),
      tr_conn_peer_id = (\<lambda>_ _ _. (LIBP2P_HOST_OK, [])),
      tr_conn_close = (\<lambda>t _ _. (LIBP2P_HOST_OK, t)),
      tr_conn_release = None,
      tr_stream_read = (\<lambda>(es, bs) _ n. ((if bs = [] then LIBP2P_HOST_ERR_WOULD_BLOCK else LIBP2P_HOST_OK,
         take n bs, False), (es, drop n bs))),
      tr_stream_write = (\<lambda>t _ d _. ((LIBP2P_HOST_OK, length d), t)),
      tr_stream_finish = (\<lambda>t _. (LIBP2P_HOST_OK, t)),
      tr_stream_reset = (\<lambda>t _ _. (LIBP2P_HOST_OK, t)),
      tr_stream_stop_sending = (\<lambda>t _ _. (LIBP2P_HOST_OK, t))\<rparr>"

definition script_env :: "(script, nat) host_env" where
  "script_env =
     \<lparr>env_transport = script_transport,
      env_on_open = (\<lambda>_ h _ _. (LIBP2P_HOST_OK, h\<lparr>lh_app := Suc (lh_app h)\<rparr>)),
      env_on_event = (\<lambda>_ h _ _. (LIBP2P_HOST_OK, h\<lparr>lh_app := Suc (lh_app h)\<rparr>))\<rparr>"

definition script_sizes :: host_sizes where
  "script_sizes = \<lparr>hz_host = 300, hz_protocol = 40, hz_ms_protocol = 16, hz_event = 72, hz_conn = 40,
     hz_stream = 3200, hz_dial = 32, hz_open = 56\<rparr>"

definition script_config :: "libp2p_host_transport_event_t list \<Rightarrow> byte list \<Rightarrow> script libp2p_host_config_t" where
  "script_config es bs =
     \<lparr>hg_identity = \<lparr>hi_peer_id = Buf [1], hi_public_key_message = Buf [2], hi_sign_fn = True\<rparr>,
      hg_listen_multiaddr = Buf [3],
      hg_transport = Some \<lparr>tv_abi_version = 2, tv_functions = replicate 21 True,
        tv_storage_size = (LIBP2P_HOST_OK, 64), tv_storage_align = (LIBP2P_HOST_OK, 16),
        tv_init = (\<lambda>_ _. (LIBP2P_HOST_OK, (es, bs)))\<rparr>,
      hg_max_protocols = 2, hg_max_connections = 2, hg_max_streams_per_conn = 2, hg_max_pending_dials = 1,
      hg_max_pending_stream_opens = 1, hg_event_capacity = 4, hg_max_negotiation_steps = 8\<rparr>"

definition script_layout :: host_layout_t where
  "script_layout = \<lparr>hl_host_offset = 0, hl_protocols_offset = 304, hl_ms_protocols_offset = 384, hl_events_offset = 416,
     hl_conns_offset = 704, hl_streams_offset = 784, hl_dials_offset = 13584, hl_opens_offset = 13616,
     hl_transport_offset = 13680, hl_total_len = 13744, hl_transport_len = 64, hl_transport_align = 16,
     hl_stream_capacity = 4\<rparr>"

definition script_host :: "libp2p_host_transport_event_t list \<Rightarrow> byte list \<Rightarrow> (script, nat) libp2p_host" where
  "script_host es bs = initial_host (script_config es bs) script_layout (es, bs) 0"

lemma script_layout_compute: "host_layout_compute script_sizes (Some (script_config es bs)) = Inr script_layout"
  by (simp add: host_layout_compute_def host_config_validate_def host_vtable_validate_def script_config_def
      script_sizes_def script_layout_def host_reserve_table_def host_reserve_def host_ok_then_def
      host_size_mul_overflow_def host_size_add_overflow_def host_align_up_size_def HOST_STORAGE_ALIGN_def
      HOST_TRANSPORT_ABI_VERSION_def LIBP2P_PEER_ID_MAX_BYTES_def SIZE_MAX_def
      LIBP2P_PEER_ID_SECP256K1_PUBLIC_KEY_MESSAGE_MAX_BYTES_def list_all_iff)

lemma script_init: "libp2p_host_init script_sizes True 14000 (Some (script_config es bs)) 0 = Inr (script_host es bs)"
  by (simp add: libp2p_host_init_def script_layout_compute host_ok_then_def script_host_def)
    (simp add: script_layout_def script_config_def)

lemma script_env_ok: "host_env_ok script_env"
proof -
  have "transport_bounded script_transport"
    by (auto simp: transport_bounded_def script_transport_def)
  then show ?thesis by (auto simp: host_env_ok_def script_env_def intro: host_call.call_app)
qed

definition script_protocol :: libp2p_host_protocol_t where
  "script_protocol = \<lparr>hp_id = Buf [112], hp_on_open = True, hp_on_event = True\<rparr>"

text \<open>The host with a protocol, started.\<close>

definition script_started :: "libp2p_host_transport_event_t list \<Rightarrow> byte list \<Rightarrow> (script, nat) libp2p_host" where
  "script_started es bs = snd (libp2p_host_start (snd (libp2p_host_handle (Some script_protocol) (script_host es bs))))"

lemma script_reach: "host_reach script_env script_sizes (script_config es bs) (script_started es bs)"
  unfolding script_started_def
  by (rule host_reach.reach_start, rule host_reach.reach_handle, rule host_reach.reach_init [OF script_init])

lemma script_started_fields:
  "lh_streams (script_started es bs) = replicate 4 zero_host_stream"
  "lh_conns (script_started es bs) = replicate 2 zero_host_conn"
  "lh_opens (script_started es bs) = [zero_host_open]"
  "lh_protocols (script_started es bs) = [script_protocol]" "lh_ms_protocols (script_started es bs) = [Buf [112]]"
  "lh_transport (script_started es bs) = (es, bs)" "host_validate_started (script_started es bs) = LIBP2P_HOST_OK"
  "host_validate_any (script_started es bs) = LIBP2P_HOST_OK" "lh_max_streams_per_conn (script_started es bs) = 2"
  "lh_state (script_started es bs) = HOST_STATE_STARTED" "lh_event_len (script_started es bs) = 0"
  "length (lh_events (script_started es bs)) = 4" "lh_magic (script_started es bs) = HOST_MAGIC"
  by (simp_all add: script_started_def libp2p_host_start_def libp2p_host_handle_def script_host_def initial_host_def
      host_validate_any_def host_validate_started_def script_config_def script_layout_def script_protocol_def)


text \<open>A connection with an inbound stream whose input starts with \<open>bs\<close>.\<close>

definition script_stream :: "host_stream_state_t \<Rightarrow> host_negotiation_state_t \<Rightarrow> byte list \<Rightarrow> (script, nat) libp2p_host" where
  "script_stream st ns bs =
     upd_host_stream 0 (\<lambda>s. s\<lparr>hs_state := st, hs_neg_state := ns, hs_in_frame := bs @ replicate (1026 - length bs) 0,
         hs_in_len := length bs\<rparr>)
       (snd (host_stream_alloc (Some 0) (Some 6) LIBP2P_HOST_STREAM_INBOUND None None
         (snd (host_conn_alloc (Some 5) (script_started [] [])))))"

lemma script_started_ok: "host_ok (script_started es bs)"
  by (rule host_reach_ok [OF script_env_ok script_reach])

lemma script_conn:
  "snd (host_conn_alloc (Some 5) (script_started es bs)) = upd_conn 0 (\<lambda>_. zero_host_conn\<lparr>hc_host := True,
     hc_transport_conn := Some 5, hc_active := True\<rparr>) (script_started es bs)"
  by (simp add: host_conn_alloc_def host_conn_find_def script_started_fields zero_host_conn_def numeral_2_eq_2)

lemma script_stream_ok:
  assumes "length bs \<le> 1026" and "st \<noteq> HOST_STREAM_FREE"
  shows "host_ok (script_stream st ns bs)" and "length (lh_streams (script_stream st ns bs)) = 4"
    and "lh_streams (script_stream st ns bs) ! 0 = zero_host_stream\<lparr>hs_host := True, hs_conn := Some 0,
      hs_transport_stream := Some 6, hs_state := st, hs_neg_state := ns,
      hs_in_frame := bs @ replicate (1026 - length bs) 0, hs_in_len := length bs\<rparr>"
    and "host_validate_started (script_stream st ns bs) = LIBP2P_HOST_OK"
    and "lh_protocols (script_stream st ns bs) = [script_protocol]"
    and "lh_ms_protocols (script_stream st ns bs) = [Buf [112]]"
proof -
  define c where "c = snd (host_conn_alloc (Some 5) (script_started [] []))"
  define a where "a = snd (host_stream_alloc (Some 0) (Some 6) LIBP2P_HOST_STREAM_INBOUND None None c)"
  have c: "host_ok c" "lh_conns c = [zero_host_conn\<lparr>hc_host := True, hc_transport_conn := Some 5, hc_active := True\<rparr>,
      zero_host_conn]"
    using keep_conn_alloc(1) [of "Some 5" "script_started [] []", OF prod.collapse [symmetric]] script_started_ok
    unfolding c_def by (simp_all add: host_keeps_def) (simp add: script_conn upd_conn_def script_started_fields numeral_2_eq_2)
  have keep: "host_keeps c a"
    unfolding a_def by (rule keep_stream_alloc) (simp add: c(2))
  then have a: "host_ok a" using c(1) by (simp add: host_keeps_def)
  have streams: "lh_streams a = (replicate 4 zero_host_stream)[0 := zero_host_stream\<lparr>hs_host := True, hs_conn := Some 0,
      hs_transport_stream := Some 6, hs_state := HOST_STREAM_NEGOTIATING, hs_neg_state := HOST_NEG_IN_READ_MS\<rparr>]"
    unfolding a_def c_def script_conn
    by (simp add: host_stream_alloc_def upd_conn_def upd_host_stream_def script_started_fields zero_host_conn_def
        numeral_eq_Suc zero_host_stream_def)
  have eq: "script_stream st ns bs = upd_host_stream 0 (\<lambda>s. s\<lparr>hs_state := st, hs_neg_state := ns,
      hs_in_frame := bs @ replicate (1026 - length bs) 0, hs_in_len := length bs\<rparr>) a"
    by (simp add: script_stream_def a_def c_def)
  have "host_keeps a (script_stream st ns bs)"
    unfolding eq by (rule keep_upd_stream, drule (1) host_ok_stream)
      (use assms in \<open>simp add: stream_ok_def buffers_ok_def streams\<close>)
  with a show "host_ok (script_stream st ns bs)" by (simp add: host_keeps_def)
  show "length (lh_streams (script_stream st ns bs)) = 4" by (simp add: eq streams)
  show "lh_streams (script_stream st ns bs) ! 0 = zero_host_stream\<lparr>hs_host := True, hs_conn := Some 0,
      hs_transport_stream := Some 6, hs_state := st, hs_neg_state := ns,
      hs_in_frame := bs @ replicate (1026 - length bs) 0, hs_in_len := length bs\<rparr>"
    by (simp add: eq upd_host_stream_def streams)
  have "lh_protocols a = [script_protocol] \<and> lh_ms_protocols a = [Buf [112]] \<and> host_validate_started a = LIBP2P_HOST_OK"
    unfolding a_def c_def script_conn
    by (simp add: host_stream_alloc_def upd_conn_def upd_host_stream_def script_started_fields host_validate_started_def
        host_validate_any_def split: option.split)
  moreover have "host_validate_started (upd_host_stream i f a) = host_validate_started a" for i f
    by (simp add: host_validate_started_def host_validate_any_def upd_host_stream_def)
  ultimately show "host_validate_started (script_stream st ns bs) = LIBP2P_HOST_OK"
    "lh_protocols (script_stream st ns bs) = [script_protocol]"
    "lh_ms_protocols (script_stream st ns bs) = [Buf [112]]"
    unfolding eq by simp_all (simp_all add: upd_host_stream_def)
qed


subsection \<open>Properties\<close>

text \<open>
  Claim C4. From \<open>libp2p_host_init\<close> on, every sequence of registrations, of the start, of calls of the
  application and of rounds of the driver, with callbacks that call the host in any way themselves, keeps the
  tables sound: handles are in range, the counters of a connection are the numbers of the streams and opens
  that name it, at most as many as the configuration allows, a connection that is named is in use, the ring
  is well formed and no buffer changes its size.
\<close>

theorem host_reachable_ok:
  assumes "host_env_ok env" and "host_reach env z g h"
  shows "host_ok h"
  using assms by (rule host_reach_ok)

definition script_event ::
  "libp2p_host_transport_event_type_t \<Rightarrow> nat option \<Rightarrow> nat option \<Rightarrow> libp2p_host_transport_event_t" where
  "script_event ty conn stream = \<lparr>te_type = ty, te_conn = conn, te_stream = stream, te_attempt = None,
     te_user_data = None, te_reason = LIBP2P_HOST_OK, te_app_error_code = 0, te_transport_error_code = 0\<rparr>"

theorem host_reachable_ok_witness:
  "\<exists>e r h. libp2p_host_drive script_env 0 15
      (script_started [script_event LIBP2P_HOST_TRANSPORT_EVENT_CONN_ESTABLISHED (Some 5) None,
        script_event LIBP2P_HOST_TRANSPORT_EVENT_STREAM_INCOMING (Some 5) (Some 6)] []) = Some (e, r, h) \<and> host_ok h"
proof -
  let ?es = "[script_event LIBP2P_HOST_TRANSPORT_EVENT_CONN_ESTABLISHED (Some 5) None,
        script_event LIBP2P_HOST_TRANSPORT_EVENT_STREAM_INCOMING (Some 5) (Some 6)]"
  from drive_returns [OF host_env_keeps [OF script_env_ok] script_started_ok, of 0 15 ?es "[]"]
  obtain e r h where drive: "libp2p_host_drive script_env 0 15 (script_started ?es []) = Some (e, r, h)" by blast
  have "host_ok h" by (rule host_reachable_ok [OF script_env_ok host_reach.reach_drive [OF script_reach drive]])
  with drive show ?thesis by blast
qed

text \<open>
  Claim C16. In every reachable state the driver returns, whatever the transport reports and the callbacks
  do, and so does a read of a stream into any buffer of the caller: no copy leaves its buffer, the length
  reported by a successful read fits the caller's buffer, and the state after it is sound again.
\<close>

theorem host_calls_return:
  assumes "host_env_ok env" and "host_reach env z g h" and "i < length (lh_streams h)"
  shows "(\<exists>e r h'. libp2p_host_drive env now_us ready h = Some (e, r, h') \<and> host_ok h') \<and>
    (\<exists>e out' k fin h'. libp2p_host_stream_read env (Some i) out h = Some ((e, out', k, fin), h') \<and>
       clen out' = clen out \<and> (is_null out' \<longleftrightarrow> is_null out) \<and> (e = LIBP2P_HOST_OK \<longrightarrow> k \<le> clen out) \<and> host_ok h')"
proof -
  note ok = host_reach_ok [OF assms(1,2)]
  have "transport_bounded (env_transport env)" using assms(1) by (simp add: host_env_ok_def)
  from host_stream_read_returns [OF ok this, of "Some i" out] assms(3)
    drive_returns [OF host_env_keeps [OF assms(1)] ok, of now_us ready]
  show ?thesis by (simp add: sound_for_def) blast
qed

theorem host_calls_return_witness:
  "(\<exists>e r h'. libp2p_host_drive script_env 1 15 (script_started [] [1, 2]) = Some (e, r, h') \<and> host_ok h') \<and>
   (\<exists>e out' k fin h'. libp2p_host_stream_read script_env (Some 3) (Buf [0, 0, 0]) (script_started [] [1, 2]) =
      Some ((e, out', k, fin), h') \<and> clen out' = clen (Buf [0 :: byte, 0, 0]) \<and>
      (is_null out' \<longleftrightarrow> is_null (Buf [0 :: byte, 0, 0])) \<and> (e = LIBP2P_HOST_OK \<longrightarrow> k \<le> clen (Buf [0 :: byte, 0, 0])) \<and> host_ok h')"
  by (rule host_calls_return [OF script_env_ok script_reach]) (simp add: script_started_fields)

text \<open>
  Claim C26. In every reachable state each connection counts exactly the streams in use that name it, never
  more than the configuration allows for a connection. A stream in use names a connection in use, and an
  attempt to recycle that connection leaves it alone, so its slot is not given away while the stream lives.
\<close>

theorem host_stream_keeps_conn:
  assumes "host_env_ok env" and "host_reach env z g h"
  shows "(\<forall>c < hg_max_connections g.
      hc_stream_count (lh_conns h ! c) = card {i. i < length (lh_streams h) \<and>
        hs_state (lh_streams h ! i) \<noteq> HOST_STREAM_FREE \<and> hs_conn (lh_streams h ! i) = Some c} \<and>
      hc_stream_count (lh_conns h ! c) \<le> hg_max_streams_per_conn g) \<and>
    (\<forall>i < length (lh_streams h). hs_state (lh_streams h ! i) \<noteq> HOST_STREAM_FREE \<longrightarrow>
      (\<exists>c < hg_max_connections g. hs_conn (lh_streams h ! i) = Some c \<and> hc_active (lh_conns h ! c) \<and>
        hc_transport_conn (lh_conns h ! c) \<noteq> None \<and> host_conn_try_recycle env (Some c) h = (LIBP2P_HOST_OK, h)))"
proof -
  note ok = host_reach_ok [OF assms] and lim = host_reach_limits [OF assms]
  have "hc_stream_count (lh_conns h ! c) = streams_of (lh_streams h) c \<and>
      streams_of (lh_streams h) c \<le> hg_max_streams_per_conn g" if "c < hg_max_connections g" for c
    using host_ok_conn [OF ok, of c] lim that by (simp add: conn_ok_def)
  then show ?thesis using used_stream_conn [OF ok] lim by (simp add: streams_of_card [symmetric])
qed

theorem host_stream_keeps_conn_witness:
  "\<exists>e r h. libp2p_host_drive script_env 0 15
      (script_started [script_event LIBP2P_HOST_TRANSPORT_EVENT_CONN_ESTABLISHED (Some 5) None,
        script_event LIBP2P_HOST_TRANSPORT_EVENT_STREAM_INCOMING (Some 5) (Some 6)] []) = Some (e, r, h) \<and>
    (\<forall>c < 2. hc_stream_count (lh_conns h ! c) \<le> 2)"
proof -
  let ?es = "[script_event LIBP2P_HOST_TRANSPORT_EVENT_CONN_ESTABLISHED (Some 5) None,
        script_event LIBP2P_HOST_TRANSPORT_EVENT_STREAM_INCOMING (Some 5) (Some 6)]"
  from drive_returns [OF host_env_keeps [OF script_env_ok] script_started_ok, of 0 15 ?es "[]"]
  obtain e r h where drive: "libp2p_host_drive script_env 0 15 (script_started ?es []) = Some (e, r, h)" by blast
  note counts = conjunct1 [OF host_stream_keeps_conn [OF script_env_ok host_reach.reach_drive [OF script_reach drive]]]
  have "hc_stream_count (lh_conns h ! c) \<le> 2" if "c < 2" for c
    using conjunct2 [OF counts [rule_format, of c]] that by (simp add: script_config_def)
  with drive show ?thesis by blast
qed

text \<open>
  Claim C11. Reading a message of the negotiation loses no byte and reorders none: with \<open>bs\<close> the bytes that the
  transport delivers meanwhile, either a frame is taken from the front of the input and its payload stored, and
  all that follows the frame stays, or there is no message and the input grows by \<open>bs\<close>.
\<close>

theorem host_negotiation_keeps_bytes:
  assumes "transport_bounded (env_transport env)" and "host_ok h" and "i < length (lh_streams h)"
  shows "\<exists>e made_progress ready bs h'. host_stream_read_message env i h = Some (e, made_progress, ready, h') \<and>
    bytes_read (env_transport env) (hs_transport_stream (lh_streams h ! i)) (lh_transport h) bs (lh_transport h') \<and>
    (if ready then
       e = LIBP2P_HOST_OK \<and>
       stream_input (lh_streams h ! i) @ bs =
         ms_frame (take (hs_payload_len (lh_streams h' ! i)) (hs_payload (lh_streams h' ! i))) @
         stream_input (lh_streams h' ! i)
     else e \<noteq> LIBP2P_HOST_OK \<and> stream_input (lh_streams h' ! i) = stream_input (lh_streams h ! i) @ bs)"
proof -
  from read_message_effect [OF assms] obtain e b r bs h' where
    m: "host_stream_read_message env i h = Some (e, b, r, h')" "read_effect i h e r bs h'"
      "bytes_read (env_transport env) (hs_transport_stream (lh_streams h ! i)) (lh_transport h) bs (lh_transport h')"
    by blast
  then show ?thesis
    by (intro exI [of _ e] exI [of _ b] exI [of _ r] exI [of _ bs] exI [of _ h'])
      (auto simp: read_effect_def input_change_def split: if_splits)
qed

theorem host_negotiation_keeps_bytes_witness:
  "let h = script_stream HOST_STREAM_NEGOTIATING HOST_NEG_IN_READ_MS [2, 112, 10, 7] in
   \<exists>e made_progress ready bs h'. host_stream_read_message script_env 0 h = Some (e, made_progress, ready, h') \<and>
    bytes_read (env_transport script_env) (hs_transport_stream (lh_streams h ! 0)) (lh_transport h) bs (lh_transport h') \<and>
    (if ready then
       e = LIBP2P_HOST_OK \<and>
       stream_input (lh_streams h ! 0) @ bs =
         ms_frame (take (hs_payload_len (lh_streams h' ! 0)) (hs_payload (lh_streams h' ! 0))) @
         stream_input (lh_streams h' ! 0)
     else e \<noteq> LIBP2P_HOST_OK \<and> stream_input (lh_streams h' ! 0) = stream_input (lh_streams h ! 0) @ bs)"
  unfolding Let_def
  by (rule host_negotiation_keeps_bytes)
    (use script_env_ok in \<open>simp_all add: script_stream_ok host_env_ok_def\<close>)

text \<open>
  Claim C25. A read of an open stream stores \<open>bs\<close> at the start of the caller's buffer \<open>buf\<close>, never more than
  fits, and leaves the rest of the buffer alone. The bytes that the negotiation has read too many come before
  anything new from the transport: as long as there are any, the read takes as many of them as fit and does
  not ask the transport. What is delivered and what is left is, in order, what was there and what the
  transport has delivered.
\<close>

theorem host_stream_read_order:
  assumes "host_ok h" and "transport_bounded (env_transport env)" and "i < length (lh_streams h)"
    and "host_validate_started h = LIBP2P_HOST_OK"
    and "hs_host (lh_streams h ! i)" and "hs_state (lh_streams h ! i) = HOST_STREAM_OPEN"
  shows "\<exists>e bs fin new h'. libp2p_host_stream_read env (Some i) (Buf buf) h =
      Some ((e, Buf (bs @ drop (length bs) buf), length bs, fin), h') \<and> length bs \<le> length buf \<and>
    bytes_read (env_transport env) (hs_transport_stream (lh_streams h ! i)) (lh_transport h) new (lh_transport h') \<and>
    (e = LIBP2P_HOST_OK \<longrightarrow> bs @ stream_input (lh_streams h' ! i) = stream_input (lh_streams h ! i) @ new) \<and>
    (e \<noteq> LIBP2P_HOST_OK \<longrightarrow> h' = h\<lparr>lh_transport := lh_transport h'\<rparr> \<and> new = []) \<and>
    (stream_input (lh_streams h ! i) \<noteq> [] \<longrightarrow> e = LIBP2P_HOST_OK \<and> lh_transport h' = lh_transport h \<and> new = [] \<and>
       length bs = min (length buf) (length (stream_input (lh_streams h ! i))))"
  using assms by (rule host_stream_read_effect)

theorem host_stream_read_order_witness:
  "let h = script_stream HOST_STREAM_OPEN HOST_NEG_DONE [8, 9] in
   \<exists>bs fin h'. libp2p_host_stream_read script_env (Some 0) (Buf [0]) h =
      Some ((LIBP2P_HOST_OK, Buf bs, 1, fin), h') \<and> length bs = 1 \<and> lh_transport h' = lh_transport h \<and>
      bs @ stream_input (lh_streams h' ! 0) = [8, 9]"
proof -
  let ?h = "script_stream HOST_STREAM_OPEN HOST_NEG_DONE [8, 9]"
  have len: "length [8 :: byte, 9] \<le> 1026" and st: "HOST_STREAM_OPEN \<noteq> HOST_STREAM_FREE" by simp_all
  note s = script_stream_ok [OF len st, of HOST_NEG_DONE]
  have input: "stream_input (lh_streams ?h ! 0) = [8, 9]" by (simp add: s stream_input_def)
  have tr: "transport_bounded (env_transport script_env)" using script_env_ok by (simp add: host_env_ok_def)
  from host_stream_read_order [OF s(1) tr, of 0 "[0]"] s(2-4) input show ?thesis
    by (auto simp: Let_def)
qed

text \<open>
  Claim C27. The ring of events refines a queue: pushing appends unless the ring is full, and
  \<open>libp2p_host_next_event\<close> takes the first event, whatever it releases and recycles besides.
\<close>

theorem host_events_refine_queue:
  assumes "host_ok h"
  shows "(lh_event_len h < length (lh_events h) \<longrightarrow>
      fst (host_event_push e h) = LIBP2P_HOST_OK \<and> host_queue (snd (host_event_push e h)) = host_queue h @ [e]) \<and>
    (lh_event_len h = length (lh_events h) \<longrightarrow> host_event_push e h = (LIBP2P_HOST_ERR_LIMIT, h)) \<and>
    (host_validate_any h = LIBP2P_HOST_OK \<longrightarrow>
      (case host_queue h of
         [] \<Rightarrow> libp2p_host_next_event env h = ((LIBP2P_HOST_ERR_WOULD_BLOCK, zero_host_event), h)
       | x # q \<Rightarrow> snd (fst (libp2p_host_next_event env h)) = x \<and>
           host_queue (snd (libp2p_host_next_event env h)) = q))"
proof -
  have "lh_events h \<noteq> []" using assms by (auto simp: host_ok_def)
  then show ?thesis
    using push_queue [OF assms, of e] next_event_queue [OF assms, of env] by (auto simp: host_event_push_def)
qed

theorem host_events_refine_queue_witness:
  "host_queue (snd (host_event_push (zero_host_event\<lparr>he_type := LIBP2P_HOST_EVENT_HOST_CLOSED\<rparr>) (script_started [] []))) =
   [zero_host_event\<lparr>he_type := LIBP2P_HOST_EVENT_HOST_CLOSED\<rparr>]"
  using host_events_refine_queue [OF script_started_ok [of "[]" "[]"]]
  by (simp add: script_started_fields host_queue_def)

text \<open>
  Claim C28. After a successful init the storage holds every table of the layout: the blocks lie one behind
  the other within the storage, the transport's block included, at offsets that are multiples of their
  alignments, and no size overflows. In a storage at an address \<open>base\<close> with the alignment that
  \<open>libp2p_host_storage_align\<close> reports, every table is aligned. The transport's block has the alignment
  that the transport asks for exactly when the storage itself has it, which the reported alignment does not
  promise: the witness has a transport that asks for 16 and a storage at address 8.
\<close>

theorem host_init_layout_sound:
  assumes "libp2p_host_init z storage_given storage_len (Some g) app = Inr h"
  shows "\<exists>L. host_layout_compute z (Some g) = Inr L \<and>
    host_blocks_within 0 (host_layout_blocks z g L) storage_len \<and> hl_total_len L \<le> SIZE_MAX \<and>
    length (lh_streams h) = hg_max_connections g * hg_max_streams_per_conn g \<and>
    length (lh_streams h) \<le> SIZE_MAX \<and> length (lh_opens h) < length (lh_events h) \<and>
    (base mod libp2p_host_storage_align = 0 \<longrightarrow>
      (\<forall>(offset, bytes, alignment) \<in> set (butlast (host_layout_blocks z g L)). (base + offset) mod alignment = 0)) \<and>
    ((base + hl_transport_offset L) mod hl_transport_align L = 0 \<longleftrightarrow> base mod hl_transport_align L = 0)"
proof -
  from host_init_Inr [OF assms] obtain g' L t where
    g: "Some g = Some g'" "host_config_validate (Some g) = LIBP2P_HOST_OK" and
    L: "host_layout_compute z (Some g) = Inr L" "hl_total_len L \<le> storage_len" and h: "h = initial_host g' L t app" .
  note w = host_layout_within [OF L(1)]
  have mono: "host_blocks_within c bs n \<Longrightarrow> n \<le> m \<Longrightarrow> host_blocks_within c bs m" for c bs n m
    by (induction c bs n rule: host_blocks_within.induct) auto
  have dvds: "host_blocks_within c bs n \<Longrightarrow> (offset, bytes, alignment) \<in> set bs \<Longrightarrow> alignment dvd offset"
    for c bs n offset bytes alignment
    by (induction c bs n rule: host_blocks_within.induct) auto
  have tables: "alignment = libp2p_host_storage_align"
    if "(offset, bytes, alignment) \<in> set (butlast (host_layout_blocks z g L))" for offset bytes alignment
    using that by (auto simp: host_layout_blocks_def libp2p_host_storage_align_def)
  have transport: "hl_transport_align L dvd hl_transport_offset L"
    by (rule dvds [OF conjunct1 [OF w], of _ "hl_transport_len L"]) (simp add: host_layout_blocks_def)
  have aligned: "(base + offset) mod alignment = 0" if "base mod libp2p_host_storage_align = 0"
    "(offset, bytes, alignment) \<in> set (butlast (host_layout_blocks z g L))" for offset bytes alignment
    using dvds [OF conjunct1 [OF w] in_set_butlastD [OF that(2)]] tables [OF that(2)] that(1)
    by (simp add: mod_eq_0_iff_dvd dvd_add)
  have events: "hg_max_pending_stream_opens g < hg_event_capacity g"
    using g(2) by (auto simp: host_config_validate_def Let_def split: if_splits)
  have tables_of_h: "length (lh_streams h) = hl_stream_capacity L" "length (lh_opens h) = hg_max_pending_stream_opens g"
    "length (lh_events h) = hg_event_capacity g" using g(1) h by (simp_all add: initial_host_def)
  show ?thesis
  proof (intro exI [of _ L] conjI impI)
    show "host_blocks_within 0 (host_layout_blocks z g L) storage_len" by (rule mono [OF conjunct1 [OF w] L(2)])
    show "(base + hl_transport_offset L) mod hl_transport_align L = 0 \<longleftrightarrow> base mod hl_transport_align L = 0"
      using transport by (simp add: mod_eq_0_iff_dvd dvd_add_left_iff)
    show "\<forall>(offset, bytes, alignment) \<in> set (butlast (host_layout_blocks z g L)). (base + offset) mod alignment = 0"
      if "base mod libp2p_host_storage_align = 0" using aligned [OF that] by blast
  qed (use w L(1) events tables_of_h in simp_all)
qed

theorem host_init_layout_sound_witness:
  "\<exists>L. host_layout_compute script_sizes (Some (script_config [] [])) = Inr L \<and>
    host_blocks_within 0 (host_layout_blocks script_sizes (script_config [] []) L) 14000 \<and>
    8 mod libp2p_host_storage_align = 0 \<and>
    (\<forall>(offset, bytes, alignment) \<in> set (butlast (host_layout_blocks script_sizes (script_config [] []) L)).
       (8 + offset) mod alignment = 0) \<and>
    hl_transport_align L = 16 \<and> (8 + hl_transport_offset L) mod hl_transport_align L \<noteq> 0"
proof -
  have a: "8 mod libp2p_host_storage_align = 0" by (simp add: libp2p_host_storage_align_def HOST_STORAGE_ALIGN_def)
  have al: "hl_transport_align L = 16"
    if "host_layout_compute script_sizes (Some (script_config [] [])) = Inr L" for L
    using that by (simp add: script_layout_compute) (auto simp: script_layout_def)
  have odd: "(8 :: nat) mod 16 \<noteq> 0" by simp
  show ?thesis
    using host_init_layout_sound [OF script_init, of "[]" "[]" 8]
  proof (elim exE conjE)
    fix L
    assume L: "host_layout_compute script_sizes (Some (script_config [] [])) = Inr L"
      "host_blocks_within 0 (host_layout_blocks script_sizes (script_config [] []) L) 14000"
      "8 mod libp2p_host_storage_align = 0 \<longrightarrow>
        (\<forall>(offset, bytes, alignment) \<in> set (butlast (host_layout_blocks script_sizes (script_config [] []) L)).
          (8 + offset) mod alignment = 0)"
      "(8 + hl_transport_offset L) mod hl_transport_align L = 0 \<longleftrightarrow> 8 mod hl_transport_align L = 0"
    have "(8 + hl_transport_offset L) mod hl_transport_align L \<noteq> 0"
      using L(4) odd unfolding al [OF L(1)] by blast
    with L(1,2) mp [OF L(3) a] a al [OF L(1)] show ?thesis by (intro exI [of _ L] conjI)
  qed
qed

text \<open>
  Claim C10. An inbound stream is answered as the blocking responder answers: when the request \<open>q\<close> is in the
  input, the step prepares exactly the bytes that a round of \<open>libp2p_multistream_select_accept\<close> writes for the
  same request and the same protocols, it selects the same protocol, and the bytes behind the request stay.
\<close>

theorem host_answers_like_accept:
  assumes "host_ok h" and "i < length (lh_streams h)"
    and "hs_neg_state (lh_streams h ! i) = HOST_NEG_IN_READ_PROTOCOL" and "hs_protocol (lh_streams h ! i) = None"
    and "map hp_id (lh_protocols h) = map Buf ids" and "lh_ms_protocols h = map Buf ids"
    and "stream_input (lh_streams h ! i) = ms_frame q @ rest" and "ms_valid q"
    and "q = LS \<Longrightarrow> length (ls_bytes ids) \<le> 1023"
    and "test_stream_ok l" and "test_unread l = ms_frame q @ rest" and "1026 \<le> test_room l"
  shows "\<exists>h' l' selected. host_stream_inbound_step env i h = Some (LIBP2P_HOST_OK, True, h') \<and>
    accept_round test_stream_view (Buf (map Buf ids)) l = Some (MS_OK, selected, l') \<and>
    test_written l' = test_written l @
      take (hs_out_len (lh_streams h' ! i)) (hs_out_frame (lh_streams h' ! i)) \<and>
    hs_out_pos (lh_streams h' ! i) = 0 \<and> hs_protocol (lh_streams h' ! i) = selected \<and>
    stream_input (lh_streams h' ! i) = test_unread l' \<and> lh_transport h' = lh_transport h"
proof -
  from inbound_answer [OF assms(1-3,5-9), of env] obtain h' where
    h': "host_stream_inbound_step env i h = Some (LIBP2P_HOST_OK, True, h')"
      "take (hs_out_len (lh_streams h' ! i)) (hs_out_frame (lh_streams h' ! i)) = ms_frame (host_answer ids q)"
      "hs_out_pos (lh_streams h' ! i) = 0" "stream_input (lh_streams h' ! i) = rest"
      "hs_protocol (lh_streams h' ! i) =
        (if q \<noteq> LS \<and> q \<in> set ids then Some (length (takeWhile (\<lambda>p. p \<noteq> q) ids)) else hs_protocol (lh_streams h ! i))"
      "lh_transport h' = lh_transport h" by blast
  have valid: "ids_valid ids"
  proof -
    have "list_all protocol_id_within (map Buf ids)" using assms(1,6) by (simp add: host_ok_def)
    then show ?thesis by (induction ids) (simp_all add: ids_valid_def protocol_id_within_def ms_valid_def)
  qed
  have holds: "ts.holds l (ms_frame q @ rest) (test_written l) (test_room l)" using assms(10,11) by simp
  have "\<exists>l'. accept_round test_stream_view (Buf (map Buf ids)) l =
      Some (MS_OK, if q \<noteq> LS \<and> q \<in> set ids then Some (length (takeWhile (\<lambda>p. p \<noteq> q) ids)) else None, l') \<and>
      test_unread l' = rest \<and> test_written l' = test_written l @ ms_frame (host_answer ids q)"
  proof (cases "q \<noteq> LS \<and> q \<in> set ids")
    case True
    with ts.accept_round_selects [OF holds assms(8)] ms_frame_bound [OF assms(8)] assms(12)
    show ?thesis by (auto simp: test_stream_view_def host_answer_def)
  next
    case False
    then have un: "ms_unanswerable ids q" using assms(8,9) by (auto simp: ms_unanswerable_def)
    have "host_answer ids q = ms_answer ids q" using False by (auto simp: host_answer_def ms_answer_def)
    with ts.accept_round_answers [OF holds un valid] ms_frame_bound [OF ts.ms_answer_valid [OF un]] assms(12) False
    show ?thesis by (auto simp: test_stream_view_def)
  qed
  then obtain l' where "accept_round test_stream_view (Buf (map Buf ids)) l =
      Some (MS_OK, if q \<noteq> LS \<and> q \<in> set ids then Some (length (takeWhile (\<lambda>p. p \<noteq> q) ids)) else None, l')"
    "test_unread l' = rest" "test_written l' = test_written l @ ms_frame (host_answer ids q)" by blast
  with h' assms(4) show ?thesis by auto
qed

theorem host_answers_like_accept_witness:
  "let h = script_stream HOST_STREAM_NEGOTIATING HOST_NEG_IN_READ_PROTOCOL (ms_frame [112] @ [5]);
       l = test_stream (ms_frame [112] @ [5]) 1 2 in
   \<exists>h' l' selected. host_stream_inbound_step script_env 0 h = Some (LIBP2P_HOST_OK, True, h') \<and>
    accept_round test_stream_view (Buf (map Buf [[112]])) l = Some (MS_OK, selected, l') \<and>
    test_written l' = test_written l @
      take (hs_out_len (lh_streams h' ! 0)) (hs_out_frame (lh_streams h' ! 0)) \<and>
    hs_out_pos (lh_streams h' ! 0) = 0 \<and> hs_protocol (lh_streams h' ! 0) = selected \<and>
    stream_input (lh_streams h' ! 0) = test_unread l' \<and> lh_transport h' = lh_transport h"
proof -
  have valid: "ms_valid [112]" by (simp add: ms_valid_def)
  have len: "length (ms_frame [112] @ [5]) \<le> 1026"
    using uvarint_length_le_iff [of 2 2] by (simp add: length_ms_frame del: One_nat_def)
  show ?thesis
    unfolding Let_def
    by (rule host_answers_like_accept [where q = "[112]" and rest = "[5]"])
      (use len valid in \<open>simp_all add: script_stream_ok script_protocol_def stream_input_def zero_host_stream_def
          LIBP2P_MULTISTREAM_SELECT_LS_def ascii_def\<close>)
qed

end
